(* ===== verification/Prelude.thy ===== *)
theory Prelude
  imports Main "HOL-Library.Word"
begin

text \<open>
  Shared vocabulary of the development: the machine types of the C code, byte
  buffers, the collections that carry the component proofs, the outcome of a
  blocking call, and generic lemmas on lists and words.
\<close>

unbundle bit_operations_syntax

section \<open>Machine types\<close>

text \<open>C's fixed-width integers are words; a signed type is the same word, read by \<^term>\<open>sint\<close>.\<close>

type_synonym u8 = "8 word"
type_synonym u16 = "16 word"
type_synonym u32 = "32 word"
type_synonym u64 = "64 word"

text \<open>A region of memory addressed by byte offset from its start.\<close>

type_synonym bytes = "u8 list"

section \<open>Collections\<close>

text \<open>
  \<^item> \<open>frame\<close>: what an operation leaves alone (the frame conditions of the driver calls);
  \<^item> \<open>layout\<close>: the offsets of the fields of packed structs;
  \<^item> \<open>codes\<close>: the numeric values of frame codes and frame-control constants.
\<close>

named_theorems frame
named_theorems layout
named_theorems codes

section \<open>Lists as memory\<close>

text \<open>
  \<open>write_at m a xs\<close> stores the bytes \<open>xs\<close> one after the other from offset \<open>a\<close> on, as
  a run of byte stores or a \<open>memcpy\<close> does; \<open>read_at m a k\<close> reads \<open>k\<close> bytes.
\<close>

fun write_at :: "'a list \<Rightarrow> nat \<Rightarrow> 'a list \<Rightarrow> 'a list" where
  "write_at m a [] = m"
| "write_at m a (x # xs) = write_at (m[a := x]) (Suc a) xs"

definition read_at :: "'a list \<Rightarrow> nat \<Rightarrow> nat \<Rightarrow> 'a list" where
  "read_at m a k = take k (drop a m)"

lemma length_write_at [simp]: "length (write_at m a xs) = length m"
  by (induction m a xs rule: write_at.induct) auto

lemma length_read_at [simp]: "a + k \<le> length m \<Longrightarrow> length (read_at m a k) = k"
  by (simp add: read_at_def)

lemma nth_read_at: "i < k \<Longrightarrow> a + i < length m \<Longrightarrow> read_at m a k ! i = m ! (a + i)"
  by (simp add: read_at_def)

lemma write_at_nth_other: "i < a \<or> a + length xs \<le> i \<Longrightarrow> write_at m a xs ! i = m ! i"
  by (induction m a xs rule: write_at.induct) auto

lemma write_at_slices:
  "a + length xs \<le> length m \<Longrightarrow> write_at m a xs = take a m @ xs @ drop (a + length xs) m"
proof (induction m a xs rule: write_at.induct)
  case (1 m a)
  then show ?case by simp
next
  case (2 m a x xs)
  then have "write_at (m[a := x]) (Suc a) xs = take (Suc a) (m[a := x]) @ xs @ drop (Suc a + length xs) (m[a := x])"
    by simp
  moreover have "take (Suc a) (m[a := x]) = take a m @ [x]"
    using 2 by (simp add: take_Suc_conv_app_nth)
  ultimately show ?case using 2 by simp
qed

lemma read_at_write_at_same: "a + length xs \<le> length m \<Longrightarrow> read_at (write_at m a xs) a (length xs) = xs"
  by (simp add: write_at_slices read_at_def)

lemma read_at_cong:
  assumes "length m = length m'" and "\<And>i. i < k \<Longrightarrow> m ! (a + i) = m' ! (a + i)"
  shows "read_at m a k = read_at m' a k"
proof (rule nth_equalityI)
  show "length (read_at m a k) = length (read_at m' a k)"
    using assms(1) by (simp add: read_at_def)
next
  fix i
  assume "i < length (read_at m a k)"
  then have "i < k" and "a + i < length m" by (auto simp: read_at_def)
  then show "read_at m a k ! i = read_at m' a k ! i"
    using assms by (simp add: nth_read_at)
qed

lemma read_at_write_at_other:
  assumes "a + length xs \<le> b \<or> b + k \<le> a"
  shows "read_at (write_at m a xs) b k = read_at m b k"
  using assms by (intro read_at_cong) (auto simp: write_at_nth_other)

lemma take_read_at_drop:
  "a + k \<le> length m \<Longrightarrow> write_at m a (read_at m a k) = m"
  by (simp add: write_at_slices) (metis append_take_drop_id drop_drop add.commute read_at_def)

lemma read_at_0: "read_at m 0 k = take k m"
  by (simp add: read_at_def)

lemma write_at_0: "length xs \<le> length m \<Longrightarrow> write_at m 0 xs = xs @ drop (length xs) m"
  by (simp add: write_at_slices)

section \<open>Words\<close>

lemma unat_less_16: "unat (x :: u16) < 65536"
  using unsigned_less[of x] by simp

lemma unat_less_8: "unat (x :: u8) < 256"
  using unsigned_less[of x] by simp

lemma unat_inc_16: "unat (x + 1 :: u16) = (unat x + 1) mod 65536"
  by (simp add: unat_word_ariths)

text \<open>
  An index that wraps at 16 bits and a ring whose size divides the range agree on
  the slot after the current one, whether the increment is done before or after
  C's promotion to \<open>int\<close>.
\<close>

lemma ring_succ:
  assumes "n dvd 65536"
  shows "(unat (x :: u16) + 1) mod n = unat (x + 1) mod n"
  using assms by (simp add: unat_inc_16 mod_mod_cancel)

lemma unat_ucast_32_64: "unat (ucast (w :: u32) :: u64) = unat w"
proof -
  have "unat w < 2 ^ LENGTH(32)" by (rule unsigned_less)
  then have "unat w < 2 ^ 64" by simp
  then show ?thesis by (simp add: unsigned_ucast_eq take_bit_nat_eq_self)
qed

lemma unat_half_less: "(n :: u32) \<noteq> 0 \<Longrightarrow> unat (drop_bit 1 n) < unat n"
  by (simp add: drop_bit_Suc unat_div unat_gt_0)

end
