(* ===== verification/Endian.thy ===== *)
theory Endian
  imports Prelude
begin

text \<open>
  Little- and big-endian scalars in byte buffers: porting/dpl_lib/src/endian.c
  (porting/dpl_os/src/endian.c is the same code). A C pointer \<open>buf\<close> is a buffer
  and the offset it points to. The target is little-endian, so the little-endian
  accessors are also what an access to a field of a packed struct does; the frame
  layouts of the other theories are built on them.
\<close>

unbundle bit_operations_syntax

section \<open>The code\<close>

definition put_le16 :: "bytes \<Rightarrow> nat \<Rightarrow> u16 \<Rightarrow> bytes" where
  "put_le16 buf a x = buf[a := ucast x, a + 1 := ucast (drop_bit 8 x)]"

definition put_le32 :: "bytes \<Rightarrow> nat \<Rightarrow> u32 \<Rightarrow> bytes" where
  "put_le32 buf a x =
     buf[a := ucast x, a + 1 := ucast (drop_bit 8 x),
         a + 2 := ucast (drop_bit 16 x), a + 3 := ucast (drop_bit 24 x)]"

definition put_le64 :: "bytes \<Rightarrow> nat \<Rightarrow> u64 \<Rightarrow> bytes" where
  "put_le64 buf a x =
     buf[a := ucast x, a + 1 := ucast (drop_bit 8 x),
         a + 2 := ucast (drop_bit 16 x), a + 3 := ucast (drop_bit 24 x),
         a + 4 := ucast (drop_bit 32 x), a + 5 := ucast (drop_bit 40 x),
         a + 6 := ucast (drop_bit 48 x), a + 7 := ucast (drop_bit 56 x)]"

definition get_le16 :: "bytes \<Rightarrow> nat \<Rightarrow> u16" where
  "get_le16 buf a = ucast (buf ! a) OR push_bit 8 (ucast (buf ! (a + 1)))"

definition get_le32 :: "bytes \<Rightarrow> nat \<Rightarrow> u32" where
  "get_le32 buf a =
     ucast (buf ! a) OR push_bit 8 (ucast (buf ! (a + 1)))
     OR push_bit 16 (ucast (buf ! (a + 2))) OR push_bit 24 (ucast (buf ! (a + 3)))"

definition get_le64 :: "bytes \<Rightarrow> nat \<Rightarrow> u64" where
  "get_le64 buf a =
     ucast (buf ! a) OR push_bit 8 (ucast (buf ! (a + 1)))
     OR push_bit 16 (ucast (buf ! (a + 2))) OR push_bit 24 (ucast (buf ! (a + 3)))
     OR push_bit 32 (ucast (buf ! (a + 4))) OR push_bit 40 (ucast (buf ! (a + 5)))
     OR push_bit 48 (ucast (buf ! (a + 6))) OR push_bit 56 (ucast (buf ! (a + 7)))"

definition put_be16 :: "bytes \<Rightarrow> nat \<Rightarrow> u16 \<Rightarrow> bytes" where
  "put_be16 buf a x = buf[a := ucast (drop_bit 8 x), a + 1 := ucast x]"

definition put_be32 :: "bytes \<Rightarrow> nat \<Rightarrow> u32 \<Rightarrow> bytes" where
  "put_be32 buf a x =
     buf[a := ucast (drop_bit 24 x), a + 1 := ucast (drop_bit 16 x),
         a + 2 := ucast (drop_bit 8 x), a + 3 := ucast x]"

definition put_be64 :: "bytes \<Rightarrow> nat \<Rightarrow> u64 \<Rightarrow> bytes" where
  "put_be64 buf a x =
     buf[a := ucast (drop_bit 56 x), a + 1 := ucast (drop_bit 48 x),
         a + 2 := ucast (drop_bit 40 x), a + 3 := ucast (drop_bit 32 x),
         a + 4 := ucast (drop_bit 24 x), a + 5 := ucast (drop_bit 16 x),
         a + 6 := ucast (drop_bit 8 x), a + 7 := ucast x]"

definition get_be16 :: "bytes \<Rightarrow> nat \<Rightarrow> u16" where
  "get_be16 buf a = push_bit 8 (ucast (buf ! a)) OR ucast (buf ! (a + 1))"

definition get_be32 :: "bytes \<Rightarrow> nat \<Rightarrow> u32" where
  "get_be32 buf a =
     push_bit 24 (ucast (buf ! a)) OR push_bit 16 (ucast (buf ! (a + 1)))
     OR push_bit 8 (ucast (buf ! (a + 2))) OR ucast (buf ! (a + 3))"

definition get_be64 :: "bytes \<Rightarrow> nat \<Rightarrow> u64" where
  "get_be64 buf a =
     push_bit 56 (ucast (buf ! a)) OR push_bit 48 (ucast (buf ! (a + 1)))
     OR push_bit 40 (ucast (buf ! (a + 2))) OR push_bit 32 (ucast (buf ! (a + 3)))
     OR push_bit 24 (ucast (buf ! (a + 4))) OR push_bit 16 (ucast (buf ! (a + 5)))
     OR push_bit 8 (ucast (buf ! (a + 6))) OR ucast (buf ! (a + 7))"

text \<open>
  \<open>swap_in_place(buf, len)\<close>: two indices run towards each other; the C indices are
  \<open>int\<close>s, so for \<open>len = 0\<close> the upper one starts at \<open>-1\<close> and the loop body never runs.
\<close>

function swap_loop :: "bytes \<Rightarrow> int \<Rightarrow> int \<Rightarrow> bytes" where
  "swap_loop buf i j =
     (if i < j
      then let tmp = buf ! nat i;
               buf = buf[nat i := buf ! nat j];
               buf = buf[nat j := tmp]
           in swap_loop buf (i + 1) (j - 1)
      else buf)"
  by pat_completeness auto
termination
  by (relation "measure (\<lambda>(buf, i, j). nat (j - i))") auto

declare swap_loop.simps [simp del]

definition swap_in_place :: "bytes \<Rightarrow> int \<Rightarrow> bytes" where
  "swap_in_place buf len = swap_loop buf 0 (len - 1)"

text \<open>\<open>swap_buf(dst, src, len)\<close>, its loop counter explicit; \<open>dst\<close> and \<open>src\<close> are distinct buffers.\<close>

function swap_buf_loop :: "bytes \<Rightarrow> bytes \<Rightarrow> nat \<Rightarrow> nat \<Rightarrow> bytes" where
  "swap_buf_loop dst src len i =
     (if i < len then swap_buf_loop (dst[len - 1 - i := src ! i]) src len (i + 1) else dst)"
  by pat_completeness auto
termination
  by (relation "measure (\<lambda>(dst, src, len, i). len - i)") auto

declare swap_buf_loop.simps [simp del]

definition swap_buf :: "bytes \<Rightarrow> bytes \<Rightarrow> nat \<Rightarrow> bytes" where
  "swap_buf dst src len = swap_buf_loop dst src len 0"


section \<open>Bytes of a word\<close>

text \<open>Disassembling a word into bytes and assembling it again is the identity, and back.\<close>

lemma join16: "(ucast (ucast (v::u16) :: u8) :: u16) OR push_bit 8 (ucast (ucast (drop_bit 8 v) :: u8)) = v"
proof (rule bit_word_eqI)
  fix n
  assume "n < LENGTH(16)"
  then show "bit ((ucast (ucast (v::u16) :: u8) :: u16) OR push_bit 8 (ucast (ucast (drop_bit 8 v) :: u8))) n = bit v n"
    by (cases "bit v n"; cases "n < 8"; simp add: bit_simps less_diff_conv2 not_less)
qed

lemma join32: "(ucast (ucast (v::u32) :: u8) :: u32) OR push_bit 8 (ucast (ucast (drop_bit 8 v) :: u8)) OR push_bit 16 (ucast (ucast (drop_bit 16 v) :: u8)) OR push_bit 24 (ucast (ucast (drop_bit 24 v) :: u8)) = v"
proof (rule bit_word_eqI)
  fix n
  assume "n < LENGTH(32)"
  then show "bit ((ucast (ucast (v::u32) :: u8) :: u32) OR push_bit 8 (ucast (ucast (drop_bit 8 v) :: u8)) OR push_bit 16 (ucast (ucast (drop_bit 16 v) :: u8)) OR push_bit 24 (ucast (ucast (drop_bit 24 v) :: u8))) n = bit v n"
    by (cases "bit v n"; cases "n < 8"; cases "n < 16"; cases "n < 24"; simp add: bit_simps less_diff_conv2 not_less)
qed

lemma join64: "(ucast (ucast (v::u64) :: u8) :: u64) OR push_bit 8 (ucast (ucast (drop_bit 8 v) :: u8)) OR push_bit 16 (ucast (ucast (drop_bit 16 v) :: u8)) OR push_bit 24 (ucast (ucast (drop_bit 24 v) :: u8)) OR push_bit 32 (ucast (ucast (drop_bit 32 v) :: u8)) OR push_bit 40 (ucast (ucast (drop_bit 40 v) :: u8)) OR push_bit 48 (ucast (ucast (drop_bit 48 v) :: u8)) OR push_bit 56 (ucast (ucast (drop_bit 56 v) :: u8)) = v"
proof (rule bit_word_eqI)
  fix n
  assume "n < LENGTH(64)"
  then show "bit ((ucast (ucast (v::u64) :: u8) :: u64) OR push_bit 8 (ucast (ucast (drop_bit 8 v) :: u8)) OR push_bit 16 (ucast (ucast (drop_bit 16 v) :: u8)) OR push_bit 24 (ucast (ucast (drop_bit 24 v) :: u8)) OR push_bit 32 (ucast (ucast (drop_bit 32 v) :: u8)) OR push_bit 40 (ucast (ucast (drop_bit 40 v) :: u8)) OR push_bit 48 (ucast (ucast (drop_bit 48 v) :: u8)) OR push_bit 56 (ucast (ucast (drop_bit 56 v) :: u8))) n = bit v n"
    by (cases "bit v n"; cases "n < 8"; cases "n < 16"; cases "n < 24"; cases "n < 32"; cases "n < 40"; cases "n < 48"; cases "n < 56"; simp add: bit_simps less_diff_conv2 not_less)
qed

lemma split16:
  "(ucast ((ucast (x0::u8) :: u16) OR push_bit 8 (ucast (x1::u8))) :: u8) = x0"
  "(ucast (drop_bit 8 ((ucast (x0::u8) :: u16) OR push_bit 8 (ucast (x1::u8)))) :: u8) = x1"
  by (rule bit_word_eqI, auto simp: bit_simps dest: bit_imp_le_length)+

lemma split32:
  "(ucast ((ucast (x0::u8) :: u32) OR push_bit 8 (ucast (x1::u8)) OR push_bit 16 (ucast (x2::u8)) OR push_bit 24 (ucast (x3::u8))) :: u8) = x0"
  "(ucast (drop_bit 8 ((ucast (x0::u8) :: u32) OR push_bit 8 (ucast (x1::u8)) OR push_bit 16 (ucast (x2::u8)) OR push_bit 24 (ucast (x3::u8)))) :: u8) = x1"
  "(ucast (drop_bit 16 ((ucast (x0::u8) :: u32) OR push_bit 8 (ucast (x1::u8)) OR push_bit 16 (ucast (x2::u8)) OR push_bit 24 (ucast (x3::u8)))) :: u8) = x2"
  "(ucast (drop_bit 24 ((ucast (x0::u8) :: u32) OR push_bit 8 (ucast (x1::u8)) OR push_bit 16 (ucast (x2::u8)) OR push_bit 24 (ucast (x3::u8)))) :: u8) = x3"
  by (rule bit_word_eqI, auto simp: bit_simps dest: bit_imp_le_length)+

lemma split64:
  "(ucast ((ucast (x0::u8) :: u64) OR push_bit 8 (ucast (x1::u8)) OR push_bit 16 (ucast (x2::u8)) OR push_bit 24 (ucast (x3::u8)) OR push_bit 32 (ucast (x4::u8)) OR push_bit 40 (ucast (x5::u8)) OR push_bit 48 (ucast (x6::u8)) OR push_bit 56 (ucast (x7::u8))) :: u8) = x0"
  "(ucast (drop_bit 8 ((ucast (x0::u8) :: u64) OR push_bit 8 (ucast (x1::u8)) OR push_bit 16 (ucast (x2::u8)) OR push_bit 24 (ucast (x3::u8)) OR push_bit 32 (ucast (x4::u8)) OR push_bit 40 (ucast (x5::u8)) OR push_bit 48 (ucast (x6::u8)) OR push_bit 56 (ucast (x7::u8)))) :: u8) = x1"
  "(ucast (drop_bit 16 ((ucast (x0::u8) :: u64) OR push_bit 8 (ucast (x1::u8)) OR push_bit 16 (ucast (x2::u8)) OR push_bit 24 (ucast (x3::u8)) OR push_bit 32 (ucast (x4::u8)) OR push_bit 40 (ucast (x5::u8)) OR push_bit 48 (ucast (x6::u8)) OR push_bit 56 (ucast (x7::u8)))) :: u8) = x2"
  "(ucast (drop_bit 24 ((ucast (x0::u8) :: u64) OR push_bit 8 (ucast (x1::u8)) OR push_bit 16 (ucast (x2::u8)) OR push_bit 24 (ucast (x3::u8)) OR push_bit 32 (ucast (x4::u8)) OR push_bit 40 (ucast (x5::u8)) OR push_bit 48 (ucast (x6::u8)) OR push_bit 56 (ucast (x7::u8)))) :: u8) = x3"
  "(ucast (drop_bit 32 ((ucast (x0::u8) :: u64) OR push_bit 8 (ucast (x1::u8)) OR push_bit 16 (ucast (x2::u8)) OR push_bit 24 (ucast (x3::u8)) OR push_bit 32 (ucast (x4::u8)) OR push_bit 40 (ucast (x5::u8)) OR push_bit 48 (ucast (x6::u8)) OR push_bit 56 (ucast (x7::u8)))) :: u8) = x4"
  "(ucast (drop_bit 40 ((ucast (x0::u8) :: u64) OR push_bit 8 (ucast (x1::u8)) OR push_bit 16 (ucast (x2::u8)) OR push_bit 24 (ucast (x3::u8)) OR push_bit 32 (ucast (x4::u8)) OR push_bit 40 (ucast (x5::u8)) OR push_bit 48 (ucast (x6::u8)) OR push_bit 56 (ucast (x7::u8)))) :: u8) = x5"
  "(ucast (drop_bit 48 ((ucast (x0::u8) :: u64) OR push_bit 8 (ucast (x1::u8)) OR push_bit 16 (ucast (x2::u8)) OR push_bit 24 (ucast (x3::u8)) OR push_bit 32 (ucast (x4::u8)) OR push_bit 40 (ucast (x5::u8)) OR push_bit 48 (ucast (x6::u8)) OR push_bit 56 (ucast (x7::u8)))) :: u8) = x6"
  "(ucast (drop_bit 56 ((ucast (x0::u8) :: u64) OR push_bit 8 (ucast (x1::u8)) OR push_bit 16 (ucast (x2::u8)) OR push_bit 24 (ucast (x3::u8)) OR push_bit 32 (ucast (x4::u8)) OR push_bit 40 (ucast (x5::u8)) OR push_bit 48 (ucast (x6::u8)) OR push_bit 56 (ucast (x7::u8)))) :: u8) = x7"
  by (rule bit_word_eqI, auto simp: bit_simps dest: bit_imp_le_length)+

section \<open>The interface: a scalar stored at an offset\<close>

text \<open>
  What the users of these accessors rely on: a store writes exactly the encoding of
  its value and touches nothing else, a load depends on the encoded bytes only, and
  an encoding determines its value.
\<close>

locale scalar_codec =
  fixes put :: "bytes \<Rightarrow> nat \<Rightarrow> 'a \<Rightarrow> bytes"
    and get :: "bytes \<Rightarrow> nat \<Rightarrow> 'a"
    and enc :: "'a \<Rightarrow> bytes"
    and width :: nat
  assumes put_writes: "put m a v = write_at m a (enc v)"
    and length_enc: "length (enc v) = width"
    and enc_get: "a + width \<le> length m \<Longrightarrow> enc (get m a) = read_at m a width"
    and enc_inj: "enc v = enc w \<Longrightarrow> v = w"
begin

lemma length_put [simp]: "length (put m a v) = length m"
  by (simp add: put_writes)

lemma get_put_same: "a + width \<le> length m \<Longrightarrow> get (put m a v) a = v"
proof (rule enc_inj)
  assume "a + width \<le> length m"
  then show "enc (get (put m a v) a) = enc v"
    using read_at_write_at_same[of a "enc v" m] by (simp add: enc_get put_writes length_enc)
qed

lemma put_nth_other: "i < a \<or> a + width \<le> i \<Longrightarrow> put m a v ! i = m ! i"
  by (simp add: put_writes write_at_nth_other length_enc)

lemma get_local:
  assumes "read_at m a width = read_at m' a width"
    and "a + width \<le> length m" and "a + width \<le> length m'"
  shows "get m a = get m' a"
  using assms by (intro enc_inj) (simp add: enc_get)

lemma get_write_at_other:
  "a + length xs \<le> b \<or> b + width \<le> a \<Longrightarrow> b + width \<le> length m \<Longrightarrow> get (write_at m a xs) b = get m b"
  by (rule get_local) (simp_all add: read_at_write_at_other)

lemma get_put_other:
  "a + width \<le> b \<or> b + width \<le> a \<Longrightarrow> b + width \<le> length m \<Longrightarrow> get (put m a v) b = get m b"
  using get_write_at_other[of a "enc v" b m] by (simp add: put_writes length_enc)

lemma get_take: "a + width \<le> n \<Longrightarrow> n \<le> length m \<Longrightarrow> get (take n m) a = get m a"
  by (rule get_local) (simp_all add: read_at_def drop_take)

lemma get_append: "a + width \<le> length xs \<Longrightarrow> get (xs @ ys) a = get xs a"
  by (rule get_local) (simp_all add: read_at_def)

lemma get_write_at_same:
  "a + width \<le> length xs \<Longrightarrow> length xs \<le> length m \<Longrightarrow> get (write_at m 0 xs) a = get xs a"
  by (simp add: write_at_0 get_append)

lemma put_put_same: "a + width \<le> length m \<Longrightarrow> put (put m a v) a w = put m a w"
  by (simp add: put_writes length_enc write_at_slices)

lemma put_get_same: "a + width \<le> length m \<Longrightarrow> put m a (get m a) = m"
  by (simp add: put_writes enc_get take_read_at_drop)

end

text \<open>Two scalars of possibly different types in one buffer: fields that do not overlap are independent.\<close>

locale codec_pair = A: scalar_codec putA getA encA widthA + B: scalar_codec putB getB encB widthB
  for putA :: "bytes \<Rightarrow> nat \<Rightarrow> 'a \<Rightarrow> bytes" and getA encA widthA
    and putB :: "bytes \<Rightarrow> nat \<Rightarrow> 'b \<Rightarrow> bytes" and getB encB widthB
begin

lemma getA_putB:
  "b + widthB \<le> a \<or> a + widthA \<le> b \<Longrightarrow> a + widthA \<le> length m \<Longrightarrow> getA (putB m b v) a = getA m a"
  using A.get_write_at_other[of b "encB v" a m] by (simp add: B.put_writes B.length_enc)

lemma getB_putA:
  "a + widthA \<le> b \<or> b + widthB \<le> a \<Longrightarrow> b + widthB \<le> length m \<Longrightarrow> getB (putA m a v) b = getB m b"
  using B.get_write_at_other[of a "encA v" b m] by (simp add: A.put_writes A.length_enc)

end

section \<open>The accessors implement the interface\<close>

definition le16_bytes :: "u16 \<Rightarrow> bytes" where
  "le16_bytes v = [ucast v, ucast (drop_bit 8 v)]"

definition le32_bytes :: "u32 \<Rightarrow> bytes" where
  "le32_bytes v = [ucast v, ucast (drop_bit 8 v), ucast (drop_bit 16 v), ucast (drop_bit 24 v)]"

definition le64_bytes :: "u64 \<Rightarrow> bytes" where
  "le64_bytes v =
     [ucast v, ucast (drop_bit 8 v), ucast (drop_bit 16 v), ucast (drop_bit 24 v),
      ucast (drop_bit 32 v), ucast (drop_bit 40 v), ucast (drop_bit 48 v), ucast (drop_bit 56 v)]"

lemma read_at_2: "a + 2 \<le> length m \<Longrightarrow> read_at m a 2 = [m ! a, m ! (a + 1)]"
  by (simp add: read_at_def list_eq_iff_nth_eq nth_Cons' less_Suc_eq numeral_2_eq_2)

lemma read_at_split:
  "a + (j + k) \<le> length m \<Longrightarrow> read_at m a (j + k) = read_at m a j @ read_at m (a + j) k"
  by (simp add: read_at_def take_add add.commute)

lemma read_at_Suc: "a < length m \<Longrightarrow> read_at m a (Suc k) = m ! a # read_at m (Suc a) k"
  by (simp add: read_at_def Cons_nth_drop_Suc[symmetric])

lemma read_at_zero [simp]: "read_at m a 0 = []"
  by (simp add: read_at_def)

lemma read_at_4:
  "a + 4 \<le> length m \<Longrightarrow> read_at m a 4 = [m ! a, m ! (a + 1), m ! (a + 2), m ! (a + 3)]"
  using read_at_split[of a 2 2 m] by (simp add: read_at_2) (simp add: numeral_eq_Suc)

lemma read_at_8:
  "a + 8 \<le> length m \<Longrightarrow> read_at m a 8 =
     [m ! a, m ! (a + 1), m ! (a + 2), m ! (a + 3), m ! (a + 4), m ! (a + 5), m ! (a + 6), m ! (a + 7)]"
  using read_at_split[of a 4 4 m] by (simp add: read_at_4 add.commute[of _ a])

lemma get_le16_bytes: "get_le16 (le16_bytes v) 0 = v"
  by (simp add: get_le16_def le16_bytes_def join16)

lemma get_le32_bytes: "get_le32 (le32_bytes v) 0 = v"
  by (simp add: get_le32_def le32_bytes_def join32)

lemma get_le64_bytes: "get_le64 (le64_bytes v) 0 = v"
  by (simp add: get_le64_def le64_bytes_def join64)

lemma enc_get_le16: "a + 2 \<le> length m \<Longrightarrow> le16_bytes (get_le16 m a) = read_at m a 2"
  unfolding get_le16_def le16_bytes_def by (simp only: split16 read_at_2)

lemma enc_get_le32: "a + 4 \<le> length m \<Longrightarrow> le32_bytes (get_le32 m a) = read_at m a 4"
  unfolding get_le32_def le32_bytes_def by (simp only: split32 read_at_4)

lemma enc_get_le64: "a + 8 \<le> length m \<Longrightarrow> le64_bytes (get_le64 m a) = read_at m a 8"
  unfolding get_le64_def le64_bytes_def by (simp only: split64 read_at_8)

lemma length_le16_bytes: "length (le16_bytes v) = 2"
  by (simp add: le16_bytes_def)

lemma length_le32_bytes: "length (le32_bytes v) = 4"
  by (simp add: le32_bytes_def)

lemma length_le64_bytes: "length (le64_bytes v) = 8"
  by (simp add: le64_bytes_def)

lemmas write_at_bytes = write_at.simps Suc_eq_plus1 add.assoc one_add_one numeral_plus_one One_nat_def[symmetric]

lemma put_le16_writes: "put_le16 m a v = write_at m a (le16_bytes v)"
  by (simp add: put_le16_def le16_bytes_def)

lemma put_le32_writes: "put_le32 m a v = write_at m a (le32_bytes v)"
  by (simp add: put_le32_def le32_bytes_def numeral_eq_Suc)

lemma put_le64_writes: "put_le64 m a v = write_at m a (le64_bytes v)"
  unfolding put_le64_def le64_bytes_def by (simp only: write_at_bytes) (simp add: numeral_eq_Suc)

interpretation le16: scalar_codec put_le16 get_le16 le16_bytes 2
proof unfold_locales
  show "v = w" if "le16_bytes v = le16_bytes w" for v w
    using that get_le16_bytes by metis
qed (simp_all add: put_le16_writes enc_get_le16 length_le16_bytes)

interpretation le32: scalar_codec put_le32 get_le32 le32_bytes 4
proof unfold_locales
  show "v = w" if "le32_bytes v = le32_bytes w" for v w
    using that get_le32_bytes by metis
qed (simp_all add: put_le32_writes enc_get_le32 length_le32_bytes)

interpretation le64: scalar_codec put_le64 get_le64 le64_bytes 8
proof unfold_locales
  show "v = w" if "le64_bytes v = le64_bytes w" for v w
    using that get_le64_bytes by metis
qed (simp_all add: put_le64_writes enc_get_le64 length_le64_bytes)

text \<open>A big-endian store is the little-endian one with its bytes reversed.\<close>

lemma put_be16_writes: "put_be16 m a v = write_at m a (rev (le16_bytes v))"
  by (simp add: put_be16_def le16_bytes_def)

lemma put_be32_writes: "put_be32 m a v = write_at m a (rev (le32_bytes v))"
  by (simp add: put_be32_def le32_bytes_def numeral_eq_Suc)

lemma put_be64_writes: "put_be64 m a v = write_at m a (rev (le64_bytes v))"
  unfolding put_be64_def le64_bytes_def
  by (simp only: rev.simps append.simps write_at_bytes) (simp add: numeral_eq_Suc)

lemma get_be16_le: "get_be16 m a = get_le16 [m ! (a + 1), m ! a] 0"
  by (simp add: get_be16_def get_le16_def or.commute)

lemma get_be32_le: "get_be32 m a = get_le32 [m ! (a + 3), m ! (a + 2), m ! (a + 1), m ! a] 0"
  by (simp add: get_be32_def get_le32_def or.commute or.left_commute or.assoc)

lemma get_be64_le: "get_be64 m a = get_le64 [m ! (a + 7), m ! (a + 6), m ! (a + 5), m ! (a + 4),
    m ! (a + 3), m ! (a + 2), m ! (a + 1), m ! a] 0"
  by (simp add: get_be64_def get_le64_def or.commute or.left_commute or.assoc)

lemma enc_get_be16: "a + 2 \<le> length m \<Longrightarrow> rev (le16_bytes (get_be16 m a)) = read_at m a 2"
  by (simp add: get_be16_le enc_get_le16 read_at_2)

lemma enc_get_be32: "a + 4 \<le> length m \<Longrightarrow> rev (le32_bytes (get_be32 m a)) = read_at m a 4"
  by (simp add: get_be32_le enc_get_le32 read_at_4)

lemma enc_get_be64: "a + 8 \<le> length m \<Longrightarrow> rev (le64_bytes (get_be64 m a)) = read_at m a 8"
  by (simp add: get_be64_le enc_get_le64 read_at_8)

interpretation be16: scalar_codec put_be16 get_be16 "\<lambda>v. rev (le16_bytes v)" 2
  by unfold_locales (simp_all add: put_be16_writes length_le16_bytes enc_get_be16 le16.enc_inj)

interpretation be32: scalar_codec put_be32 get_be32 "\<lambda>v. rev (le32_bytes v)" 4
  by unfold_locales (simp_all add: put_be32_writes length_le32_bytes enc_get_be32 le32.enc_inj)

interpretation be64: scalar_codec put_be64 get_be64 "\<lambda>v. rev (le64_bytes v)" 8
  by unfold_locales (simp_all add: put_be64_writes length_le64_bytes enc_get_be64 le64.enc_inj)

text \<open>A byte is stored and loaded by indexing.\<close>

definition put_u8 :: "bytes \<Rightarrow> nat \<Rightarrow> u8 \<Rightarrow> bytes" where
  "put_u8 m a v = m[a := v]"

definition get_u8 :: "bytes \<Rightarrow> nat \<Rightarrow> u8" where
  "get_u8 m a = m ! a"

interpretation by8: scalar_codec put_u8 get_u8 "\<lambda>v. [v]" 1
  by unfold_locales (simp_all add: put_u8_def get_u8_def read_at_Suc)

text \<open>The mixes of widths that the frame layouts have.\<close>

interpretation p8_16: codec_pair put_u8 get_u8 "\<lambda>v. [v]" 1 put_le16 get_le16 le16_bytes 2
  by unfold_locales

interpretation p8_32: codec_pair put_u8 get_u8 "\<lambda>v. [v]" 1 put_le32 get_le32 le32_bytes 4
  by unfold_locales

interpretation p8_64: codec_pair put_u8 get_u8 "\<lambda>v. [v]" 1 put_le64 get_le64 le64_bytes 8
  by unfold_locales

interpretation p16_32: codec_pair put_le16 get_le16 le16_bytes 2 put_le32 get_le32 le32_bytes 4
  by unfold_locales

interpretation p16_64: codec_pair put_le16 get_le16 le16_bytes 2 put_le64 get_le64 le64_bytes 8
  by unfold_locales

interpretation p32_64: codec_pair put_le32 get_le32 le32_bytes 4 put_le64 get_le64 le64_bytes 8
  by unfold_locales

lemmas field_same [layout] = by8.get_put_same le16.get_put_same le32.get_put_same le64.get_put_same

lemmas field_other [layout] =
  by8.get_put_other le16.get_put_other le32.get_put_other le64.get_put_other
  p8_16.getA_putB p8_16.getB_putA p8_32.getA_putB p8_32.getB_putA p8_64.getA_putB p8_64.getB_putA
  p16_32.getA_putB p16_32.getB_putA p16_64.getA_putB p16_64.getB_putA p32_64.getA_putB p32_64.getB_putA

lemmas field_write_other [layout] =
  by8.get_write_at_other le16.get_write_at_other le32.get_write_at_other le64.get_write_at_other

lemmas field_take = by8.get_take le16.get_take le32.get_take le64.get_take

lemmas field_append = by8.get_append le16.get_append le32.get_append le64.get_append

lemmas field_write_same =
  by8.get_write_at_same le16.get_write_at_same le32.get_write_at_same le64.get_write_at_same

section \<open>Byte order swaps\<close>

text \<open>
  While the loop runs with indices \<open>i\<close> and \<open>j\<close>, the bytes outside the window have
  been exchanged already; the loop reverses the window.
\<close>

lemma length_swap_loop [simp]: "length (swap_loop buf i j) = length buf"
  by (induction buf i j rule: swap_loop.induct) (subst swap_loop.simps, simp add: Let_def)

lemma swap_loop_nth:
  assumes "0 \<le> i" and "j < int (length buf)" and "k < length buf"
  shows "swap_loop buf i j ! k =
    (if i \<le> int k \<and> int k \<le> j then buf ! nat (i + j - int k) else buf ! k)"
  using assms
proof (induction buf i j rule: swap_loop.induct)
  case (1 buf i j)
  show ?case
  proof (cases "i < j")
    case False
    then show ?thesis using 1(2-) by (subst swap_loop.simps) (auto intro!: arg_cong[of _ _ "nth buf"])
  next
    case True
    let ?b = "buf[nat i := buf ! nat j, nat j := buf ! nat i]"
    have "swap_loop buf i j ! k = swap_loop ?b (i + 1) (j - 1) ! k"
      using True by (subst swap_loop.simps) (simp add: Let_def)
    also have "\<dots> = (if i + 1 \<le> int k \<and> int k \<le> j - 1
        then ?b ! nat (i + 1 + (j - 1) - int k) else ?b ! k)"
      using 1(2-) True by (intro 1(1)) auto
    also have "\<dots> = (if i \<le> int k \<and> int k \<le> j then buf ! nat (i + j - int k) else buf ! k)"
    proof -
      obtain p q where pq: "i = int p" "j = int q" "p < q" "q < length buf"
        using 1(2,3) True by (metis less_trans nonneg_int_cases of_nat_less_iff order_le_less_trans less_imp_le)
      consider "k = p" | "k = q" | "k < p" | "q < k" | "p < k" "k < q" by linarith
      then show ?thesis
      proof cases
        case 5
        then have "nat (i + 1 + (j - 1) - int k) = p + q - k" "nat (i + j - int k) = p + q - k"
          using pq by auto
        then show ?thesis using 5 pq by (simp add: nth_list_update)
      qed (use pq in \<open>simp_all add: nth_list_update\<close>)
    qed
    finally show ?thesis .
  qed
qed

lemma swap_in_place_rev:
  assumes "n \<le> length buf"
  shows "swap_in_place buf (int n) = rev (take n buf) @ drop n buf"
proof (rule nth_equalityI)
  show "length (swap_in_place buf (int n)) = length (rev (take n buf) @ drop n buf)"
    using assms by (simp add: swap_in_place_def)
next
  fix k
  assume "k < length (swap_in_place buf (int n))"
  then have k: "k < length buf" by (simp add: swap_in_place_def)
  have "nat (int n - 1 - int k) = n - 1 - k" if "k < n" using that by linarith
  then show "swap_in_place buf (int n) ! k = (rev (take n buf) @ drop n buf) ! k"
    using assms k by (auto simp: swap_in_place_def swap_loop_nth nth_append rev_nth)
qed

lemma length_swap_buf_loop [simp]: "length (swap_buf_loop dst src len i) = length dst"
  by (induction dst src len i rule: swap_buf_loop.induct) (subst swap_buf_loop.simps, simp)

lemma swap_buf_loop_nth:
  assumes "len \<le> length dst" and "k < length dst"
  shows "swap_buf_loop dst src len i ! k = (if k + i < len then src ! (len - 1 - k) else dst ! k)"
  using assms
proof (induction dst src len i rule: swap_buf_loop.induct)
  case (1 dst src len i)
  then show ?case
    by (subst swap_buf_loop.simps) (auto simp: nth_list_update)
qed

lemma swap_buf_rev:
  assumes "n \<le> length src" and "n \<le> length dst"
  shows "swap_buf dst src n = rev (take n src) @ drop n dst"
proof (rule nth_equalityI)
  show "length (swap_buf dst src n) = length (rev (take n src) @ drop n dst)"
    using assms by (simp add: swap_buf_def)
next
  fix k
  assume "k < length (swap_buf dst src n)"
  then show "swap_buf dst src n ! k = (rev (take n src) @ drop n dst) ! k"
    using assms by (auto simp: swap_buf_def swap_buf_loop_nth nth_append rev_nth)
qed

lemma swap_in_place_involution:
  assumes "n \<le> length buf"
  shows "swap_in_place (swap_in_place buf (int n)) (int n) = buf"
  using assms by (simp add: swap_in_place_rev)

end
