(* ===== verification/Dpl_Sem.thy ===== *)
theory Dpl_Sem
  imports Prelude
begin

text \<open>
  Counting semaphores: porting/dpl/linux/src/dpl_sem.c and
  porting/dpl/kernel/src/dpl_sem.c, over the platform's semaphore. A semaphore is its
  number of tokens. A call that would block has no result (\<open>None\<close>); which of the
  waits a signal or a timeout ends early is the caller's parameter.
\<close>

unbundle bit_operations_syntax

type_synonym dpl_sem = nat

datatype dpl_error_t = DPL_OK | DPL_TIMEOUT | DPL_ERROR

definition dpl_sem_init :: "u16 \<Rightarrow> dpl_sem" where
  "dpl_sem_init tokens = unat tokens"

definition dpl_sem_release :: "dpl_sem \<Rightarrow> dpl_sem" where
  "dpl_sem_release sem = Suc sem"

definition dpl_sem_get_count :: "dpl_sem \<Rightarrow> u16" where
  "dpl_sem_get_count sem = of_nat sem"

text \<open>How the platform's wait ends: a token, a signal (kernel build), or the time limit.\<close>

datatype wait_end = Got_token | Interrupted | Timed_out

definition dpl_sem_pend :: "dpl_sem \<Rightarrow> wait_end \<Rightarrow> (dpl_error_t \<times> dpl_sem) option" where
  "dpl_sem_pend sem w =
     (case w of
        Interrupted \<Rightarrow> Some (DPL_ERROR, sem)
      | Timed_out \<Rightarrow> Some (DPL_TIMEOUT, sem)
      | Got_token \<Rightarrow> (if sem = 0 then None else Some (DPL_OK, sem - 1)))"

text \<open>
  The absolute time limit of a timed wait on Linux: seconds and nanoseconds, the
  carry taken once. \<open>tps\<close> is \<open>DPL_TICKS_PER_SEC\<close>.
\<close>

definition sem_deadline :: "nat \<Rightarrow> nat \<times> nat \<Rightarrow> nat \<Rightarrow> nat \<times> nat" where
  "sem_deadline tps now timeout =
     (let sec = fst now + timeout div tps;
          nsec = snd now + (timeout mod tps) * (1000000000 div tps)
      in if nsec > 1000000000 then (sec + 1, nsec - 1000000000) else (sec, nsec))"

section \<open>Lemmas\<close>

lemma get_count_0 [simp]: "dpl_sem_get_count 0 = 0"
  by (simp add: dpl_sem_get_count_def)

lemma get_count_1 [simp]: "dpl_sem_get_count (Suc 0) = 1"
  by (simp add: dpl_sem_get_count_def)

text \<open>On a binary semaphore the two tests of the handlers, for 0 and for 1, are exhaustive.\<close>

lemma get_count_binary:
  "sem \<le> 1 \<Longrightarrow> dpl_sem_get_count sem = 1 \<longleftrightarrow> sem = 1"
  "sem \<le> 1 \<Longrightarrow> dpl_sem_get_count sem = 0 \<longleftrightarrow> sem = 0"
  by (auto simp: le_Suc_eq dpl_sem_get_count_def)

lemma sem_deadline_time:
  assumes "0 < tps"
  shows "fst (sem_deadline tps now t) * 1000000000 + snd (sem_deadline tps now t) =
    (fst now + t div tps) * 1000000000 + snd now + (t mod tps) * (1000000000 div tps)"
  by (auto simp: sem_deadline_def Let_def algebra_simps)

lemma sem_deadline_nsec:
  assumes "0 < tps" and "snd now < 1000000000"
  shows "snd (sem_deadline tps now t) \<le> 1000000000"
proof -
  have "(t mod tps) * (1000000000 div tps) \<le> tps * (1000000000 div tps)"
    using assms(1) by (intro mult_le_mono) (auto intro: less_imp_le)
  also have "\<dots> \<le> 1000000000" by simp
  finally show ?thesis
    using assms(2) by (auto simp: sem_deadline_def Let_def)
qed

lemma pend_cases:
  "dpl_sem_pend n w = Some (e, m) \<longleftrightarrow> (w = Got_token \<and> e = DPL_OK \<and> 0 < n \<and> m = n - 1) \<or>
     (w = Interrupted \<and> e = DPL_ERROR \<and> m = n) \<or> (w = Timed_out \<and> e = DPL_TIMEOUT \<and> m = n)"
  by (auto simp: dpl_sem_pend_def split: wait_end.splits)

end
