(* ===== verification/Uwb_Dev.thy ===== *)
theory Uwb_Dev
  imports Endian Dpl_Sem
begin

text \<open>
  The UWB device: hw/drivers/uwb/include/uwb/uwb.h, uwb_ftypes.h, uwb_api_impl.h and
  hw/drivers/uwb/src/uwb.c.

  The transceiver drivers (\<open>struct uwb_driver_funcs\<close>) are separate repositories. Here
  a driver answers from the history of the commands it was given: every call of the
  API appends its command to \<open>dev_cmds\<close>, and what the driver reports (its status
  word, the time registers) is a function of that history, the parameter \<open>uf\<close>. A
  driver call changes nothing else of \<open>struct uwb_dev\<close> that the services read.
\<close>

unbundle bit_operations_syntax

section \<open>Frame control and frame codes (uwb_ftypes.h)\<close>

abbreviation (input) "UWB_FCTRL_FRAME_TYPE_ACK \<equiv> 0x0002 :: u16"
abbreviation (input) "UWB_FCTRL_ACK_REQUESTED \<equiv> 0x0020 :: u16"
abbreviation (input) "FCNTL_IEEE_RANGE_16 \<equiv> 0x8841 :: u16"
abbreviation (input) "UWB_FCTRL_STD_DATA_FRAME \<equiv> 0x8841 :: u16"

definition UWB_DATA_CODE_SS_TWR :: u16 where [codes]: "UWB_DATA_CODE_SS_TWR = 0x0110"
definition UWB_DATA_CODE_SS_TWR_T1 :: u16 where [codes]: "UWB_DATA_CODE_SS_TWR_T1 = 0x0111"
definition UWB_DATA_CODE_SS_TWR_FINAL :: u16 where [codes]: "UWB_DATA_CODE_SS_TWR_FINAL = 0x0112"
definition UWB_DATA_CODE_SS_TWR_END :: u16 where [codes]: "UWB_DATA_CODE_SS_TWR_END = 0x0113"
definition UWB_DATA_CODE_SS_TWR_EXT :: u16 where [codes]: "UWB_DATA_CODE_SS_TWR_EXT = 0x0114"
definition UWB_DATA_CODE_SS_TWR_EXT_T1 :: u16 where [codes]: "UWB_DATA_CODE_SS_TWR_EXT_T1 = 0x0115"
definition UWB_DATA_CODE_SS_TWR_EXT_FINAL :: u16 where [codes]: "UWB_DATA_CODE_SS_TWR_EXT_FINAL = 0x0116"
definition UWB_DATA_CODE_SS_TWR_EXT_END :: u16 where [codes]: "UWB_DATA_CODE_SS_TWR_EXT_END = 0x0117"
definition UWB_DATA_CODE_SS_TWR_ACK :: u16 where [codes]: "UWB_DATA_CODE_SS_TWR_ACK = 0x0118"
definition UWB_DATA_CODE_SS_TWR_ACK_T1 :: u16 where [codes]: "UWB_DATA_CODE_SS_TWR_ACK_T1 = 0x0119"
definition UWB_DATA_CODE_SS_TWR_ACK_FINAL :: u16 where [codes]: "UWB_DATA_CODE_SS_TWR_ACK_FINAL = 0x011A"
definition UWB_DATA_CODE_SS_TWR_ACK_END :: u16 where [codes]: "UWB_DATA_CODE_SS_TWR_ACK_END = 0x011B"
definition UWB_DATA_CODE_DS_TWR :: u16 where [codes]: "UWB_DATA_CODE_DS_TWR = 0x0120"
definition UWB_DATA_CODE_DS_TWR_T1 :: u16 where [codes]: "UWB_DATA_CODE_DS_TWR_T1 = 0x0121"
definition UWB_DATA_CODE_DS_TWR_T2 :: u16 where [codes]: "UWB_DATA_CODE_DS_TWR_T2 = 0x0122"
definition UWB_DATA_CODE_DS_TWR_FINAL :: u16 where [codes]: "UWB_DATA_CODE_DS_TWR_FINAL = 0x0123"
definition UWB_DATA_CODE_DS_TWR_END :: u16 where [codes]: "UWB_DATA_CODE_DS_TWR_END = 0x0124"
definition UWB_DATA_CODE_DS_TWR_EXT :: u16 where [codes]: "UWB_DATA_CODE_DS_TWR_EXT = 0x0125"
definition UWB_DATA_CODE_DS_TWR_EXT_T1 :: u16 where [codes]: "UWB_DATA_CODE_DS_TWR_EXT_T1 = 0x0126"
definition UWB_DATA_CODE_DS_TWR_EXT_T2 :: u16 where [codes]: "UWB_DATA_CODE_DS_TWR_EXT_T2 = 0x0127"
definition UWB_DATA_CODE_DS_TWR_EXT_FINAL :: u16 where [codes]: "UWB_DATA_CODE_DS_TWR_EXT_FINAL = 0x0128"
definition UWB_DATA_CODE_DS_TWR_EXT_END :: u16 where [codes]: "UWB_DATA_CODE_DS_TWR_EXT_END = 0x0129"

text \<open>A C \<open>case A ... B\<close> label.\<close>

definition in_range :: "u16 \<Rightarrow> u16 \<Rightarrow> u16 \<Rightarrow> bool" where
  "in_range a b c \<longleftrightarrow> a \<le> c \<and> c \<le> b"

text \<open>Sizes of the packed ranging frames: request, response, final.\<close>

abbreviation (input) "sizeof_ieee_rng_request_frame_t \<equiv> 11"
abbreviation (input) "sizeof_ieee_rng_response_frame_t \<equiv> 19"
abbreviation (input) "sizeof_twr_frame_final_t \<equiv> 31"

section \<open>The device structure (uwb.h)\<close>

record uwb_dev_status =
  st_start_tx_error :: bool
  st_start_rx_error :: bool
  st_tx_frame_error :: bool
  st_txbuf_error :: bool
  st_rx_error :: bool
  st_rx_timeout_error :: bool
  st_rx_autoframefilt_rej :: bool
  st_rx_prej :: bool
  st_lde_error :: bool
  st_spi_error :: bool
  st_autoack_triggered :: bool
  st_sleep_enabled :: bool
  st_sleeping :: bool
  st_sem_force_released :: bool
  st_overrun_error :: bool
  st_rx_restarted :: bool
  st_cmd_error :: bool
  st_aes_error :: bool
  st_sem_error :: bool
  st_mtx_error :: bool
  st_sts_pream_error :: bool
  st_sts_ts_error :: bool

record uwb_dev_rx_config =
  rx_pacLength :: u8
  rx_preambleCodeIndex :: u8
  rx_sfdType :: u8
  rx_phrMode :: u8
  rx_phrRate :: u8
  rx_sfdTimeout :: u16
  rx_stsMode :: u8
  rx_stsLength :: u8
  rx_pdoaMode :: u8
  rx_timeToRxStable :: u8
  rx_frameFilter :: u16
  rx_xtalTrim :: u8

record uwb_dev_config =
  config_channel :: u8
  config_dataRate :: u8
  config_prf :: u8
  config_rx :: uwb_dev_rx_config
  config_dblbuffon_enabled :: bool
  config_rxdiag_enable :: bool
  config_rxttcko_enable :: bool
  config_rxauto_enable :: bool

text \<open>The commands a driver is given: the state-changing entries of \<open>struct uwb_driver_funcs\<close>.\<close>

datatype dev_cmd =
    Write_tx bytes u16
  | Write_tx_fctrl u16 u16
  | Set_wait4resp bool
  | Set_wait4resp_delay u32
  | Set_rxauto_disable bool
  | Set_rx_timeout u32
  | Adj_rx_timeout u32
  | Set_rx_window u64 u64
  | Set_abs_timeout u64
  | Set_delay_start u64
  | Start_tx
  | Start_rx
  | Stop_rx
  | Set_on_error_continue bool
  | Phy_forcetrxoff
  | Set_panid u16
  | Set_uid u16
  | Set_euid u64
  | Set_autoack bool
  | Set_autoack_delay u8

record uwb_dev =
  dev_role :: u16
  dev_my_short_address :: u16
  dev_euid :: u64
  dev_pan_id :: u16
  dev_slot_id :: u16
  dev_cell_id :: u16
  dev_tx_antenna_delay :: u16
  dev_rx_ant_separation :: u32
  dev_cap_sts :: bool
  dev_cap_single_receiver_pdoa :: bool
  dev_irq_sem :: dpl_sem
  dev_abs_timeout :: u64
  dev_fctrl :: u16
  dev_frame_len :: u16
  dev_rxtimestamp :: u64
  dev_carrier_integrator :: u32
  dev_rxttcko :: u32
  dev_rxdiag :: bytes
  dev_rxbuf :: bytes
  dev_status :: uwb_dev_status
  dev_config :: uwb_dev_config
  dev_cmds :: "dev_cmd list"

text \<open>
  What a driver reports. Floating-point results are softfloat bit patterns, opaque here.
\<close>

record uwb_driver_funcs =
  uf_status :: "dev_cmd list \<Rightarrow> uwb_dev_status"
  uf_read_systime :: "dev_cmd list \<Rightarrow> u64"
  uf_read_systime_lo32 :: "dev_cmd list \<Rightarrow> u32"
  uf_read_txtime :: "dev_cmd list \<Rightarrow> u64"
  uf_read_txtime_lo32 :: "dev_cmd list \<Rightarrow> u32"
  uf_phy_frame_duration :: "u16 \<Rightarrow> u16"
  uf_phy_SHR_duration :: u16
  uf_phy_data_duration :: "u16 \<Rightarrow> u16"
  uf_calc_rssi :: "uwb_dev \<Rightarrow> u32"
  uf_calc_seq_rssi :: "uwb_dev \<Rightarrow> u16 \<Rightarrow> u32"
  uf_calc_fppl :: "uwb_dev \<Rightarrow> u32"
  uf_calc_pdoa :: "uwb_dev \<Rightarrow> u32"
  uf_calc_clock_offset_ratio :: "uwb_dev \<Rightarrow> u32 \<Rightarrow> u64"

section \<open>The API (uwb_api_impl.h)\<close>

definition uwb_command :: "uwb_driver_funcs \<Rightarrow> dev_cmd \<Rightarrow> uwb_dev \<Rightarrow> uwb_dev" where
  "uwb_command uf c dev =
     dev\<lparr>dev_cmds := dev_cmds dev @ [c], dev_status := uf_status uf (dev_cmds dev @ [c])\<rparr>"

definition uwb_write_tx :: "uwb_driver_funcs \<Rightarrow> bytes \<Rightarrow> u16 \<Rightarrow> u16 \<Rightarrow> uwb_dev \<Rightarrow> uwb_dev" where
  "uwb_write_tx uf tx_frame_bytes tx_buffer_offset tx_frame_length =
     uwb_command uf (Write_tx (take (unat tx_frame_length) tx_frame_bytes) tx_buffer_offset)"

definition uwb_write_tx_fctrl :: "uwb_driver_funcs \<Rightarrow> u16 \<Rightarrow> u16 \<Rightarrow> uwb_dev \<Rightarrow> uwb_dev" where
  "uwb_write_tx_fctrl uf tx_frame_length tx_buffer_offset =
     uwb_command uf (Write_tx_fctrl tx_frame_length tx_buffer_offset)"

definition uwb_set_wait4resp :: "uwb_driver_funcs \<Rightarrow> bool \<Rightarrow> uwb_dev \<Rightarrow> uwb_dev" where
  "uwb_set_wait4resp uf enable = uwb_command uf (Set_wait4resp enable)"

definition uwb_set_wait4resp_delay :: "uwb_driver_funcs \<Rightarrow> u32 \<Rightarrow> uwb_dev \<Rightarrow> uwb_dev" where
  "uwb_set_wait4resp_delay uf d = uwb_command uf (Set_wait4resp_delay d)"

definition uwb_set_rxauto_disable :: "uwb_driver_funcs \<Rightarrow> bool \<Rightarrow> uwb_dev \<Rightarrow> uwb_dev" where
  "uwb_set_rxauto_disable uf disable = uwb_command uf (Set_rxauto_disable disable)"

definition uwb_set_rx_timeout :: "uwb_driver_funcs \<Rightarrow> u32 \<Rightarrow> uwb_dev \<Rightarrow> uwb_dev" where
  "uwb_set_rx_timeout uf t = uwb_command uf (Set_rx_timeout t)"

definition uwb_adj_rx_timeout :: "uwb_driver_funcs \<Rightarrow> u32 \<Rightarrow> uwb_dev \<Rightarrow> uwb_dev" where
  "uwb_adj_rx_timeout uf t = uwb_command uf (Adj_rx_timeout t)"

definition uwb_set_rx_window :: "uwb_driver_funcs \<Rightarrow> u64 \<Rightarrow> u64 \<Rightarrow> uwb_dev \<Rightarrow> uwb_dev" where
  "uwb_set_rx_window uf rx_start rx_end = uwb_command uf (Set_rx_window rx_start rx_end)"

definition uwb_set_abs_timeout :: "uwb_driver_funcs \<Rightarrow> u64 \<Rightarrow> uwb_dev \<Rightarrow> uwb_dev" where
  "uwb_set_abs_timeout uf rx_end = uwb_command uf (Set_abs_timeout rx_end)"

definition uwb_set_delay_start :: "uwb_driver_funcs \<Rightarrow> u64 \<Rightarrow> uwb_dev \<Rightarrow> uwb_dev" where
  "uwb_set_delay_start uf dx_time = uwb_command uf (Set_delay_start dx_time)"

definition uwb_start_tx :: "uwb_driver_funcs \<Rightarrow> uwb_dev \<Rightarrow> uwb_dev" where
  "uwb_start_tx uf = uwb_command uf Start_tx"

definition uwb_start_rx :: "uwb_driver_funcs \<Rightarrow> uwb_dev \<Rightarrow> uwb_dev" where
  "uwb_start_rx uf = uwb_command uf Start_rx"

definition uwb_stop_rx :: "uwb_driver_funcs \<Rightarrow> uwb_dev \<Rightarrow> uwb_dev" where
  "uwb_stop_rx uf = uwb_command uf Stop_rx"

definition uwb_set_on_error_continue :: "uwb_driver_funcs \<Rightarrow> bool \<Rightarrow> uwb_dev \<Rightarrow> uwb_dev" where
  "uwb_set_on_error_continue uf enable = uwb_command uf (Set_on_error_continue enable)"

definition uwb_set_autoack :: "uwb_driver_funcs \<Rightarrow> bool \<Rightarrow> uwb_dev \<Rightarrow> uwb_dev" where
  "uwb_set_autoack uf enable = uwb_command uf (Set_autoack enable)"

definition uwb_set_autoack_delay :: "uwb_driver_funcs \<Rightarrow> u8 \<Rightarrow> uwb_dev \<Rightarrow> uwb_dev" where
  "uwb_set_autoack_delay uf d = uwb_command uf (Set_autoack_delay d)"

definition uwb_phy_forcetrxoff :: "uwb_driver_funcs \<Rightarrow> uwb_dev \<Rightarrow> uwb_dev" where
  "uwb_phy_forcetrxoff uf = uwb_command uf Phy_forcetrxoff"

definition uwb_set_panid :: "uwb_driver_funcs \<Rightarrow> u16 \<Rightarrow> uwb_dev \<Rightarrow> uwb_dev" where
  "uwb_set_panid uf pan_id dev = uwb_command uf (Set_panid pan_id) (dev\<lparr>dev_pan_id := pan_id\<rparr>)"

definition uwb_set_uid :: "uwb_driver_funcs \<Rightarrow> u16 \<Rightarrow> uwb_dev \<Rightarrow> uwb_dev" where
  "uwb_set_uid uf uid dev = uwb_command uf (Set_uid uid) (dev\<lparr>dev_my_short_address := uid\<rparr>)"

definition uwb_set_euid :: "uwb_driver_funcs \<Rightarrow> u64 \<Rightarrow> uwb_dev \<Rightarrow> uwb_dev" where
  "uwb_set_euid uf euid dev = uwb_command uf (Set_euid euid) (dev\<lparr>dev_euid := euid\<rparr>)"

definition uwb_read_systime :: "uwb_driver_funcs \<Rightarrow> uwb_dev \<Rightarrow> u64" where
  "uwb_read_systime uf dev = uf_read_systime uf (dev_cmds dev)"

definition uwb_read_systime_lo32 :: "uwb_driver_funcs \<Rightarrow> uwb_dev \<Rightarrow> u32" where
  "uwb_read_systime_lo32 uf dev = uf_read_systime_lo32 uf (dev_cmds dev)"

definition uwb_read_txtime :: "uwb_driver_funcs \<Rightarrow> uwb_dev \<Rightarrow> u64" where
  "uwb_read_txtime uf dev = uf_read_txtime uf (dev_cmds dev)"

definition uwb_read_txtime_lo32 :: "uwb_driver_funcs \<Rightarrow> uwb_dev \<Rightarrow> u32" where
  "uwb_read_txtime_lo32 uf dev = uf_read_txtime_lo32 uf (dev_cmds dev)"

definition uwb_phy_frame_duration :: "uwb_driver_funcs \<Rightarrow> u16 \<Rightarrow> u16" where
  "uwb_phy_frame_duration uf nlen = uf_phy_frame_duration uf nlen"

definition uwb_phy_SHR_duration :: "uwb_driver_funcs \<Rightarrow> u16" where
  "uwb_phy_SHR_duration uf = uf_phy_SHR_duration uf"

definition uwb_phy_data_duration :: "uwb_driver_funcs \<Rightarrow> u16 \<Rightarrow> u16" where
  "uwb_phy_data_duration uf nlen = uf_phy_data_duration uf nlen"

section \<open>Units of time (uwb.h, kernel build)\<close>

text \<open>
  In the kernel build a conversion is one integer division; \<open>(s64)(128*499.2)\<close> is
  63897. The divisor of the second conversion is therefore 1.
\<close>

definition uwb_dwt_usecs_to_usecs :: "int \<Rightarrow> int" where
  "uwb_dwt_usecs_to_usecs t = (t * 0x10000) div 63897"

definition uwb_usecs_to_dwt_usecs :: "u16 \<Rightarrow> u16" where
  "uwb_usecs_to_dwt_usecs t = of_int (uint t div uwb_dwt_usecs_to_usecs 1)"

definition UWB_DTU_40BMASK :: u64 where
  "UWB_DTU_40BMASK = 0x00FFFFFFFFFF"

lemma uwb_usecs_to_dwt_usecs_id [simp]: "uwb_usecs_to_dwt_usecs t = t"
  by (simp add: uwb_usecs_to_dwt_usecs_def uwb_dwt_usecs_to_usecs_def)

definition uwb_set_post_tx_rx_window :: "uwb_driver_funcs \<Rightarrow> u64 \<Rightarrow> u32 \<Rightarrow> u64 \<Rightarrow> uwb_dev \<Rightarrow> uwb_dev" where
  "uwb_set_post_tx_rx_window uf tx_ts tx_post_rmarker_len rx_end dev =
     (let tx_end = (tx_ts + ucast tx_post_rmarker_len) AND UWB_DTU_40BMASK;
          timeout = (ucast (drop_bit 16 ((rx_end - tx_end) AND UWB_DTU_40BMASK)) :: u32);
          dev = uwb_set_abs_timeout uf rx_end dev
      in uwb_set_rx_timeout uf timeout dev)"

section \<open>MAC interfaces (uwb.c)\<close>

text \<open>
  The callbacks of a service. They act on a state \<open>'s\<close>, the device and the services'
  instances, and return the C function's result; an absent callback is \<open>None\<close>.
  \<open>inst_ptr\<close> is the instance's address, 0 for \<open>NULL\<close>.
\<close>

type_synonym 's callback = "'s \<Rightarrow> bool \<times> 's"

record 's uwb_mac_interface =
  mac_initialized :: bool
  mac_id :: u16
  mac_inst_ptr :: nat
  mac_tx_complete_cb :: "'s callback option"
  mac_rx_complete_cb :: "'s callback option"
  mac_rx_timeout_cb :: "'s callback option"
  mac_rx_error_cb :: "'s callback option"
  mac_tx_error_cb :: "'s callback option"
  mac_reset_cb :: "'s callback option"
  mac_final_cb :: "'s callback option"
  mac_complete_cb :: "'s callback option"
  mac_superframe_cb :: "'s callback option"

text \<open>The \<open>SLIST\<close> of interfaces is a list; the walk to its last element is the recursion.\<close>

fun slist_insert_after_last :: "'a list \<Rightarrow> 'a \<Rightarrow> 'a list" where
  "slist_insert_after_last [] c = [c]"
| "slist_insert_after_last [x] c = [x, c]"
| "slist_insert_after_last (x # y # xs) c = x # slist_insert_after_last (y # xs) c"

definition uwb_mac_append_interface ::
  "'s uwb_mac_interface list \<Rightarrow> 's uwb_mac_interface \<Rightarrow> 's uwb_mac_interface list" where
  "uwb_mac_append_interface cbs c = slist_insert_after_last cbs (c\<lparr>mac_initialized := True\<rparr>)"

fun uwb_mac_remove_interface :: "'s uwb_mac_interface list \<Rightarrow> u16 \<Rightarrow> 's uwb_mac_interface list" where
  "uwb_mac_remove_interface [] i = []"
| "uwb_mac_remove_interface (c # cbs) i =
     (if mac_id c = i then cbs else c # uwb_mac_remove_interface cbs i)"

fun uwb_mac_get_interface :: "'s uwb_mac_interface list \<Rightarrow> u16 \<Rightarrow> 's uwb_mac_interface option" where
  "uwb_mac_get_interface [] i = None"
| "uwb_mac_get_interface (c # cbs) i = (if mac_id c = i then Some c else uwb_mac_get_interface cbs i)"

definition uwb_mac_find_cb_inst_ptr :: "'s uwb_mac_interface list \<Rightarrow> u16 \<Rightarrow> nat" where
  "uwb_mac_find_cb_inst_ptr cbs i =
     (case uwb_mac_get_interface cbs i of None \<Rightarrow> 0 | Some c \<Rightarrow> mac_inst_ptr c)"

text \<open>
  Calling one callback of every interface in turn: \<open>run_until\<close> stops at the first that
  returns true (the \<open>break\<close> of the final callbacks), \<open>run_all\<close> never does (the
  \<open>continue\<close> of \<open>rng_issue_complete\<close>).
\<close>

fun run_until :: "('s uwb_mac_interface \<Rightarrow> 's callback option) \<Rightarrow> 's uwb_mac_interface list \<Rightarrow> 's \<Rightarrow> 's" where
  "run_until f [] s = s"
| "run_until f (c # cbs) s =
     (case f c of
        None \<Rightarrow> run_until f cbs s
      | Some cb \<Rightarrow> (case cb s of (r, s') \<Rightarrow> if r then s' else run_until f cbs s'))"

fun run_all :: "('s uwb_mac_interface \<Rightarrow> 's callback option) \<Rightarrow> 's uwb_mac_interface list \<Rightarrow> 's \<Rightarrow> 's" where
  "run_all f [] s = s"
| "run_all f (c # cbs) s =
     (case f c of
        None \<Rightarrow> run_all f cbs s
      | Some cb \<Rightarrow> run_all f cbs (snd (cb s)))"

section \<open>Lemmas\<close>

text \<open>Frame conditions: a command leaves the device's fields alone.\<close>

lemma uwb_command_frame [frame]:
  "dev_my_short_address (uwb_command uf c dev) = dev_my_short_address dev"
  "dev_pan_id (uwb_command uf c dev) = dev_pan_id dev"
  "dev_fctrl (uwb_command uf c dev) = dev_fctrl dev"
  "dev_frame_len (uwb_command uf c dev) = dev_frame_len dev"
  "dev_rxtimestamp (uwb_command uf c dev) = dev_rxtimestamp dev"
  "dev_carrier_integrator (uwb_command uf c dev) = dev_carrier_integrator dev"
  "dev_rxbuf (uwb_command uf c dev) = dev_rxbuf dev"
  "dev_config (uwb_command uf c dev) = dev_config dev"
  "dev_tx_antenna_delay (uwb_command uf c dev) = dev_tx_antenna_delay dev"
  "dev_irq_sem (uwb_command uf c dev) = dev_irq_sem dev"
  "dev_slot_id (uwb_command uf c dev) = dev_slot_id dev"
  "dev_euid (uwb_command uf c dev) = dev_euid dev"
  "dev_role (uwb_command uf c dev) = dev_role dev"
  "dev_cell_id (uwb_command uf c dev) = dev_cell_id dev"
  "dev_rxdiag (uwb_command uf c dev) = dev_rxdiag dev"
  "dev_cmds (uwb_command uf c dev) = dev_cmds dev @ [c]"
  "dev_status (uwb_command uf c dev) = uf_status uf (dev_cmds dev @ [c])"
  by (simp_all add: uwb_command_def)

lemmas uwb_api_defs = uwb_write_tx_def uwb_write_tx_fctrl_def uwb_set_wait4resp_def
  uwb_set_wait4resp_delay_def uwb_set_rxauto_disable_def uwb_set_rx_timeout_def
  uwb_adj_rx_timeout_def uwb_set_rx_window_def uwb_set_abs_timeout_def uwb_set_delay_start_def
  uwb_start_tx_def uwb_start_rx_def uwb_stop_rx_def uwb_set_on_error_continue_def
  uwb_phy_forcetrxoff_def uwb_read_systime_def uwb_read_txtime_def uwb_read_txtime_lo32_def
  uwb_phy_frame_duration_def uwb_phy_SHR_duration_def uwb_phy_data_duration_def

lemma slist_insert_after_last_append [simp]: "slist_insert_after_last xs c = xs @ [c]"
  by (induction xs c rule: slist_insert_after_last.induct) auto

lemma get_append_interface:
  "uwb_mac_get_interface (uwb_mac_append_interface cbs c) i =
     (case uwb_mac_get_interface cbs i of
        Some d \<Rightarrow> Some d
      | None \<Rightarrow> if mac_id c = i then Some (c\<lparr>mac_initialized := True\<rparr>) else None)"
  by (induction cbs) (auto simp: uwb_mac_append_interface_def split: option.splits)

lemma get_remove_other:
  "i \<noteq> j \<Longrightarrow> uwb_mac_get_interface (uwb_mac_remove_interface cbs j) i = uwb_mac_get_interface cbs i"
  by (induction cbs) auto

lemma get_interface_None: "uwb_mac_get_interface cbs i = None \<longleftrightarrow> i \<notin> mac_id ` set cbs"
  by (induction cbs) auto

lemma get_remove_same:
  "distinct (map mac_id cbs) \<Longrightarrow> uwb_mac_get_interface (uwb_mac_remove_interface cbs j) j = None"
  by (induction cbs) (auto simp: get_interface_None)

lemma run_until_inv:
  assumes "P s" and "\<And>c cb s. c \<in> set cbs \<Longrightarrow> f c = Some cb \<Longrightarrow> P s \<Longrightarrow> P (snd (cb s))"
  shows "P (run_until f cbs s)"
  using assms
proof (induction cbs arbitrary: s)
  case (Cons c cbs)
  then show ?case
    by (auto split: option.splits prod.splits) (metis snd_conv)+
qed simp

lemma run_all_inv:
  assumes "P s" and "\<And>c cb s. c \<in> set cbs \<Longrightarrow> f c = Some cb \<Longrightarrow> P s \<Longrightarrow> P (snd (cb s))"
  shows "P (run_all f cbs s)"
  using assms by (induction cbs arbitrary: s) (auto split: option.splits)

end
