(* ===== verification/Rng_Math.thy ===== *)
theory Rng_Math
  imports Prelude Complex_Main
begin

text \<open>
  Time of flight from timestamps: lib/rng_math/src/rng_math.c. The integer part, its
  wrap-around included, is the code's; the floating-point operations, softfloat's in
  the kernel build, are the parameter \<open>fl\<close>. The lemmas instantiate them with exact
  rational arithmetic, so that they state what the formulas compute before rounding.
\<close>

unbundle bit_operations_syntax

section \<open>The code\<close>

record 'f float64_ops =
  f64_nan :: 'f
  f64_isnan :: "'f \<Rightarrow> bool"
  f64_of_u64 :: "u64 \<Rightarrow> 'f"
  f64_of_i64 :: "u64 \<Rightarrow> 'f"
  f64_mul :: "'f \<Rightarrow> 'f \<Rightarrow> 'f"
  f64_sub :: "'f \<Rightarrow> 'f \<Rightarrow> 'f"
  f64_div :: "'f \<Rightarrow> 'f \<Rightarrow> 'f"
  f64_init :: "rat \<Rightarrow> 'f"

definition MASK32 :: u64 where
  "MASK32 = 0xFFFFFFFF"

text \<open>\<open>(299792458.0l/1.000293l) * (1.0/499.2e6/128.0)\<close>: metres per unit of device time.\<close>

definition meters_per_dtu :: rat where
  "meters_per_dtu = (299792458 / (1000293 / 1000000)) * (1 / 499200000 / 128)"

definition uwb_rng_tof_to_meters :: "('f, 'm) float64_ops_scheme \<Rightarrow> 'f \<Rightarrow> 'f" where
  "uwb_rng_tof_to_meters fl ToF =
     (if f64_isnan fl ToF then f64_nan fl
      else f64_mul fl ToF (f64_init fl meters_per_dtu))"

definition calc_tof_ss :: "('f, 'm) float64_ops_scheme \<Rightarrow> u32 \<Rightarrow> u32 \<Rightarrow> u64 \<Rightarrow> u64 \<Rightarrow> 'f \<Rightarrow> 'f" where
  "calc_tof_ss fl response_timestamp request_timestamp transmission_timestamp reception_timestamp skew =
     (let T1R = (ucast (response_timestamp - request_timestamp) :: u64);
          T1r = (transmission_timestamp - reception_timestamp) AND MASK32;
          tmpf = f64_mul fl (f64_of_u64 fl T1r) (f64_sub fl (f64_init fl 1) skew);
          ToF = f64_sub fl (f64_of_u64 fl T1R) tmpf
      in f64_div fl ToF (f64_init fl 2))"

definition calc_tof_ds :: "('f, 'm) float64_ops_scheme \<Rightarrow> u32 \<Rightarrow> u32 \<Rightarrow> u64 \<Rightarrow> u64 \<Rightarrow> u32 \<Rightarrow> u32 \<Rightarrow> u64 \<Rightarrow> u64 \<Rightarrow> 'f" where
  "calc_tof_ds fl first_response first_request first_transmission first_reception
      response_timestamp request_timestamp transmission_timestamp reception_timestamp =
     (let T1R = (ucast (first_response - first_request) :: u64);
          T1r = (first_transmission - first_reception) AND MASK32;
          T2R = (ucast (response_timestamp - request_timestamp) :: u64);
          T2r = (transmission_timestamp - reception_timestamp) AND MASK32;
          nom = T1R * T2R - T1r * T2r;
          denom = T1R + T2R + T1r + T2r
      in if denom = 0 then f64_nan fl
         else f64_div fl (f64_of_i64 fl nom) (f64_of_i64 fl denom))"

definition calc_tof_sym_ss :: "u32 \<Rightarrow> u32 \<Rightarrow> u64 \<Rightarrow> u64 \<Rightarrow> u32" where
  "calc_tof_sym_ss response_timestamp request_timestamp transmission_timestamp reception_timestamp =
     ucast ((ucast (response_timestamp - request_timestamp)
             - (transmission_timestamp - reception_timestamp)) div (2 :: u64))"

definition calc_tof_sym_ds :: "u32 \<Rightarrow> u32 \<Rightarrow> u64 \<Rightarrow> u64 \<Rightarrow> u32 \<Rightarrow> u32 \<Rightarrow> u64 \<Rightarrow> u64 \<Rightarrow> u32" where
  "calc_tof_sym_ds first_response first_request first_transmission first_reception
      response_timestamp request_timestamp transmission_timestamp reception_timestamp =
     (let T1R = (ucast (first_response - first_request) :: u64);
          T1r = (first_transmission - first_reception) AND MASK32;
          T2R = (ucast (response_timestamp - request_timestamp) :: u64);
          T2r = (transmission_timestamp - reception_timestamp) AND MASK32
      in ucast (drop_bit 2 (T1R - T1r + T2R - T2r)))"

section \<open>Exact arithmetic\<close>

text \<open>Rationals with a NaN; what the softfloat operations round.\<close>

definition exact_f64 :: "rat option float64_ops" where
  "exact_f64 = \<lparr>
     f64_nan = None,
     f64_isnan = (\<lambda>x. x = None),
     f64_of_u64 = (\<lambda>w. Some (of_int (uint w))),
     f64_of_i64 = (\<lambda>w. Some (of_int (sint w))),
     f64_mul = (\<lambda>x y. case (x, y) of (Some a, Some b) \<Rightarrow> Some (a * b) | _ \<Rightarrow> None),
     f64_sub = (\<lambda>x y. case (x, y) of (Some a, Some b) \<Rightarrow> Some (a - b) | _ \<Rightarrow> None),
     f64_div = (\<lambda>x y. case (x, y) of (Some a, Some b) \<Rightarrow> if b = 0 then None else Some (a / b) | _ \<Rightarrow> None),
     f64_init = Some\<rparr>"

lemmas exact_simps = exact_f64_def

section \<open>Differences of timestamps\<close>

text \<open>
  Two timestamps taken from a counter that is truncated to 32 bits: the difference of
  the truncated values is the elapsed time, across a wrap of the counter, as long as
  less than one period has elapsed.
\<close>

lemma stamp_diff: "(of_nat (t + d) - of_nat t :: u32) = of_nat d"
  by simp

lemma mask32_ucast: "(x :: u64) AND MASK32 = ucast (ucast x :: u32)"
proof -
  have "MASK32 = mask 32" by (simp add: MASK32_def mask_eq_exp_minus_1)
  show ?thesis unfolding \<open>MASK32 = mask 32\<close>
    by (auto simp: bit_simps intro!: bit_word_eqI)
qed

lemma ucast_up_down_32: "(ucast (ucast (x :: u32) :: u64) :: u32) = x"
  by (rule bit_word_eqI) (auto simp: bit_simps)

lemma ucast_diff_32: "(ucast (a - b :: u64) :: u32) = ucast a - ucast b"
  by (simp add: word_uint_eq_iff unsigned_ucast_eq uint_word_ariths take_bit_eq_mod mod_mod_cancel mod_diff_eq)

lemma stamp_diff_masked:
  "(ucast (of_nat (t + d) :: u32) - ucast (of_nat t :: u32) :: u64) AND MASK32 = ucast (of_nat d :: u32)"
  by (simp add: mask32_ucast ucast_diff_32 ucast_up_down_32)

lemma ucast_of_nat_32: "d < 2 ^ 32 \<Longrightarrow> (ucast (of_nat d :: u32) :: u64) = of_nat d"
  by (rule word_unat_eq_iff[THEN iffD2]) (simp add: unsigned_of_nat unsigned_ucast_eq take_bit_nat_eq_self)

lemma unsigned_of_nat_64: "d < 2 ^ 64 \<Longrightarrow> of_int (uint (of_nat d :: u64)) = (of_nat d :: rat)"
  by (simp add: unsigned_of_nat take_bit_nat_eq_self_iff)

section \<open>Single-sided ranging\<close>

text \<open>
  The four timestamps of an exchange: the initiator sends at \<open>q\<close> on its clock, the
  responder receives at \<open>r\<close> on its own and sends \<open>D\<close> ticks later, the initiator
  receives \<open>2 * f + D\<close> ticks after its request, \<open>f\<close> the time of flight.
\<close>

lemma calc_tof_ss_exact:
  assumes "R < 2 ^ 32" and "D < 2 ^ 32"
  shows "calc_tof_ss exact_f64 (of_nat (q + R)) (of_nat q)
      (ucast (of_nat (r + D) :: u32)) (ucast (of_nat r :: u32)) (Some skew)
    = Some ((of_nat R - of_nat D * (1 - skew)) / 2)"
proof -
  have "of_int (uint (of_nat R :: u64)) = (of_nat R :: rat)"
    using assms(1) by (intro unsigned_of_nat_64) simp
  moreover have "of_int (uint (of_nat D :: u64)) = (of_nat D :: rat)"
    using assms(2) by (intro unsigned_of_nat_64) simp
  ultimately show ?thesis
    unfolding calc_tof_ss_def Let_def exact_simps stamp_diff stamp_diff_masked
      ucast_of_nat_32[OF assms(1)] ucast_of_nat_32[OF assms(2)]
    by (simp only: float64_ops.simps option.case prod.case if_False) simp
qed

lemma calc_tof_ss_correct:
  assumes "2 * f + D < 2 ^ 32"
  shows "calc_tof_ss exact_f64 (of_nat (q + (2 * f + D))) (of_nat q)
      (ucast (of_nat (r + D) :: u32)) (ucast (of_nat r :: u32)) (Some 0) = Some (of_nat f)"
  using calc_tof_ss_exact[of "2 * f + D" D q r 0] assms by simp

section \<open>Double-sided ranging\<close>

lemma signed_of_nat_64: "d < 2 ^ 63 \<Longrightarrow> of_int (sint (of_nat d :: u64)) = (of_nat d :: rat)"
  by (simp add: signed_of_nat signed_take_bit_int_eq_self)

lemma calc_tof_ds_exact:
  assumes "R1 < 2 ^ 31" "D1 < 2 ^ 31" "R2 < 2 ^ 31" "D2 < 2 ^ 31"
    and le: "D1 * D2 \<le> R1 * R2" and pos: "0 < R1 + R2 + D1 + D2"
  shows "calc_tof_ds exact_f64
      (of_nat (q + R1)) (of_nat q) (ucast (of_nat (r + D1) :: u32)) (ucast (of_nat r :: u32))
      (of_nat (q' + R2)) (of_nat q') (ucast (of_nat (r' + D2) :: u32)) (ucast (of_nat r' :: u32))
    = Some (of_nat (R1 * R2 - D1 * D2) / of_nat (R1 + R2 + D1 + D2))"
proof -
  let ?T1R = "ucast (of_nat (q + R1) - of_nat q :: u32) :: u64"
  let ?T1r = "(ucast (of_nat (r + D1) :: u32) - ucast (of_nat r :: u32) :: u64) AND MASK32"
  let ?T2R = "ucast (of_nat (q' + R2) - of_nat q' :: u32) :: u64"
  let ?T2r = "(ucast (of_nat (r' + D2) :: u32) - ucast (of_nat r' :: u32) :: u64) AND MASK32"
  have w: "?T1R = of_nat R1" "?T1r = of_nat D1" "?T2R = of_nat R2" "?T2r = of_nat D2"
    unfolding stamp_diff stamp_diff_masked using assms(1-4) by (auto intro: ucast_of_nat_32)
  have prod: "R1 * R2 < 2 ^ 63"
  proof -
    have "R1 * R2 \<le> 2 ^ 31 * 2 ^ 31" using assms(1,3) by (intro mult_le_mono) auto
    then show ?thesis by simp
  qed
  have nom: "?T1R * ?T2R - ?T1r * ?T2r = of_nat (R1 * R2 - D1 * D2)"
    unfolding w using le by (simp add: of_nat_diff)
  have den: "?T1R + ?T2R + ?T1r + ?T2r = of_nat (R1 + R2 + D1 + D2)"
    unfolding w by simp
  have nz: "(of_nat (R1 + R2 + D1 + D2) :: u64) \<noteq> 0"
  proof
    assume "(of_nat (R1 + R2 + D1 + D2) :: u64) = 0"
    then have "unat (of_nat (R1 + R2 + D1 + D2) :: u64) = 0" by simp
    then show False using pos assms(1-4)
      unfolding unat_of_nat by simp
  qed
  have s1: "of_int (sint (of_nat (R1 * R2 - D1 * D2) :: u64)) = (of_nat (R1 * R2 - D1 * D2) :: rat)"
    using prod by (intro signed_of_nat_64) simp
  have s2: "of_int (sint (of_nat (R1 + R2 + D1 + D2) :: u64)) = (of_nat (R1 + R2 + D1 + D2) :: rat)"
    using assms(1-4) by (intro signed_of_nat_64) simp
  have p: "(of_nat (R1 + R2 + D1 + D2) :: rat) \<noteq> 0"
    using pos by (simp only: of_nat_eq_0_iff not_gr_zero[symmetric] not_not)
  show ?thesis
    unfolding calc_tof_ds_def Let_def nom den exact_simps
    by (simp only: float64_ops.simps option.case prod.case s1 s2 nz p if_False)
qed

text \<open>
  The point of the second half of the exchange: if the responder's clock runs \<open>k\<close>
  times as fast as the initiator's, the result is the time of flight times
  \<open>2 k / (1 + k)\<close>, whatever the two reply delays are.
\<close>

lemma ds_formula:
  fixes f D1 D2 k :: rat
  assumes "0 < k" and "0 < 2 * f + D1 + D2"
  shows "((2 * f + D1) * (k * (2 * f + D2)) - (k * D1) * D2) /
      ((2 * f + D1) + k * (2 * f + D2) + k * D1 + D2) = f * (2 * k / (1 + k))"
proof -
  have "(2 * f + D1) + k * (2 * f + D2) + k * D1 + D2 = (1 + k) * (2 * f + D1 + D2)"
    by (simp add: algebra_simps)
  moreover have "(2 * f + D1) * (k * (2 * f + D2)) - (k * D1) * D2 = (2 * f * k) * (2 * f + D1 + D2)"
    by (simp add: algebra_simps)
  ultimately show ?thesis using assms by simp
qed

section \<open>The symmetric variants\<close>

text \<open>
  The double-sided symmetric variant masks the differences; the single-sided one does
  not, and a transmission counter that wraps between reception and reply gives a
  result off by half a period.
\<close>

lemma calc_tof_sym_ds_wrap:
  "calc_tof_sym_ds 16 0 5 0xFFFFFFFB 16 0 5 0xFFFFFFFB = 3"
  by (simp add: calc_tof_sym_ds_def MASK32_def)

lemma calc_tof_sym_ss_wrap:
  "calc_tof_sym_ss 16 0 15 5 = 3"
  "calc_tof_sym_ss 16 0 5 0xFFFFFFFB = 0x80000003"
  by (simp_all add: calc_tof_sym_ss_def)

lemma calc_tof_ss_words:
  "calc_tof_ss exact_f64 r q (ucast (t :: u32)) (ucast p) (Some skew) =
    Some ((of_int (uint (r - q)) - of_int (uint (t - p)) * (1 - skew)) / 2)"
proof -
  have "(ucast t - ucast p :: u64) AND MASK32 = ucast (t - p)"
    by (simp add: mask32_ucast ucast_diff_32 ucast_up_down_32)
  moreover have "(unsigned (ucast (w :: u32) :: u64) :: rat) = unsigned w" for w
    by (metis of_nat_unat unat_ucast_32_64)
  ultimately show ?thesis
    by (simp add: calc_tof_ss_def exact_f64_def Let_def)
qed

lemma calc_tof_ss_flight:
  fixes q p t r k :: u32
  assumes "p = q + k + of_nat f" and "r = t - k + of_nat f" and "unat (t - p) + 2 * f < 2 ^ 32"
  shows "calc_tof_ss exact_f64 r q (ucast t) (ucast p) (Some 0) = Some (of_nat f)"
proof -
  have "r - q = (t - p) + of_nat (2 * f)" using assms(1,2) by (simp add: algebra_simps)
  then have "unat (r - q) = unat (t - p) + 2 * f"
    using assms(3) by (simp add: unat_word_ariths unat_of_nat mod_add_right_eq flip: of_nat_mult)
  then have "uint (r - q) = uint (t - p) + 2 * int f"
    by (metis of_nat_add of_nat_mult of_nat_numeral uint_nat)
  then show ?thesis by (simp add: calc_tof_ss_words)
qed

lemma sym_ds_flight:
  fixes q p t r :: u32
  assumes "r - q = of_nat (2 * f) + (t - p)" and "2 * f + unat (t - p) < 2 ^ 32"
  shows "(ucast (r - q) :: u64) - ((ucast t - ucast p) AND MASK32) = of_nat (2 * f)"
proof -
  have "(ucast t - ucast p :: u64) AND MASK32 = ucast (t - p)"
    by (simp add: mask32_ucast ucast_diff_32 ucast_up_down_32)
  moreover have "unat (r - q) = 2 * f + unat (t - p)"
    using assms by (simp add: unat_word_ariths unat_of_nat mod_add_left_eq flip: of_nat_mult)
  then have "(ucast (r - q) :: u64) = of_nat (2 * f) + ucast (t - p)"
    by (metis of_nat_add of_nat_unat)
  ultimately show ?thesis by simp
qed

end
