(* ===== verification/Uwb_Rng_State.thy ===== *)
theory Uwb_Rng_State
  imports Uwb_Dev Rng_Math
begin

text \<open>
  The state of the ranging service: lib/uwb_rng/include/uwb_rng/uwb_rng.h. Its instance holds a
  ring of frames; a request or an inbound frame takes the next slot, and the two-way
  ranging services (Twr_Ss, Twr_Ds, ...) fill in and send the slot's frame. The
  binary semaphore \<open>rng_sem\<close> is taken while an exchange is in progress.

  A \<open>twr_frame_t\<close> is its 136 bytes of memory (the part sent over the air and the
  remote data) and the 104 bytes of local data; fields are accesses at their offsets.
\<close>

unbundle bit_operations_syntax

section \<open>Frames (uwb_rng.h)\<close>

record twr_frame_t =
  twr_array :: bytes
  twr_local :: bytes

abbreviation (input) "sizeof_twr_frame_array \<equiv> 136"
abbreviation (input) "sizeof_twr_data_t \<equiv> 104"

text \<open>\<open>offsetof(twr_frame_t, local) - sizeof(struct _twr_data_t)\<close>.\<close>

abbreviation (input) "TWR_EXT_FRAME_SIZE \<equiv> 32"

definition fr_fctrl :: "twr_frame_t \<Rightarrow> u16" where [layout]: "fr_fctrl fr = get_le16 (twr_array fr) 0"
definition fr_seq_num :: "twr_frame_t \<Rightarrow> u8" where [layout]: "fr_seq_num fr = get_u8 (twr_array fr) 2"
definition fr_PANID :: "twr_frame_t \<Rightarrow> u16" where [layout]: "fr_PANID fr = get_le16 (twr_array fr) 3"
definition fr_dst_address :: "twr_frame_t \<Rightarrow> u16" where [layout]: "fr_dst_address fr = get_le16 (twr_array fr) 5"
definition fr_src_address :: "twr_frame_t \<Rightarrow> u16" where [layout]: "fr_src_address fr = get_le16 (twr_array fr) 7"
definition fr_code :: "twr_frame_t \<Rightarrow> u16" where [layout]: "fr_code fr = get_le16 (twr_array fr) 9"
definition fr_reception_timestamp :: "twr_frame_t \<Rightarrow> u32" where
  [layout]: "fr_reception_timestamp fr = get_le32 (twr_array fr) 11"
definition fr_transmission_timestamp :: "twr_frame_t \<Rightarrow> u32" where
  [layout]: "fr_transmission_timestamp fr = get_le32 (twr_array fr) 15"
definition fr_request_timestamp :: "twr_frame_t \<Rightarrow> u32" where
  [layout]: "fr_request_timestamp fr = get_le32 (twr_array fr) 19"
definition fr_response_timestamp :: "twr_frame_t \<Rightarrow> u32" where
  [layout]: "fr_response_timestamp fr = get_le32 (twr_array fr) 23"
definition fr_carrier_integrator :: "twr_frame_t \<Rightarrow> u32" where
  [layout]: "fr_carrier_integrator fr = get_le32 (twr_array fr) 27"

definition set_fctrl :: "u16 \<Rightarrow> twr_frame_t \<Rightarrow> twr_frame_t" where
  [layout]: "set_fctrl v fr = fr\<lparr>twr_array := put_le16 (twr_array fr) 0 v\<rparr>"
definition set_seq_num :: "u8 \<Rightarrow> twr_frame_t \<Rightarrow> twr_frame_t" where
  [layout]: "set_seq_num v fr = fr\<lparr>twr_array := put_u8 (twr_array fr) 2 v\<rparr>"
definition set_PANID :: "u16 \<Rightarrow> twr_frame_t \<Rightarrow> twr_frame_t" where
  [layout]: "set_PANID v fr = fr\<lparr>twr_array := put_le16 (twr_array fr) 3 v\<rparr>"
definition set_dst_address :: "u16 \<Rightarrow> twr_frame_t \<Rightarrow> twr_frame_t" where
  [layout]: "set_dst_address v fr = fr\<lparr>twr_array := put_le16 (twr_array fr) 5 v\<rparr>"
definition set_src_address :: "u16 \<Rightarrow> twr_frame_t \<Rightarrow> twr_frame_t" where
  [layout]: "set_src_address v fr = fr\<lparr>twr_array := put_le16 (twr_array fr) 7 v\<rparr>"
definition set_code :: "u16 \<Rightarrow> twr_frame_t \<Rightarrow> twr_frame_t" where
  [layout]: "set_code v fr = fr\<lparr>twr_array := put_le16 (twr_array fr) 9 v\<rparr>"
definition set_reception_timestamp :: "u32 \<Rightarrow> twr_frame_t \<Rightarrow> twr_frame_t" where
  [layout]: "set_reception_timestamp v fr = fr\<lparr>twr_array := put_le32 (twr_array fr) 11 v\<rparr>"
definition set_transmission_timestamp :: "u32 \<Rightarrow> twr_frame_t \<Rightarrow> twr_frame_t" where
  [layout]: "set_transmission_timestamp v fr = fr\<lparr>twr_array := put_le32 (twr_array fr) 15 v\<rparr>"
definition set_request_timestamp :: "u32 \<Rightarrow> twr_frame_t \<Rightarrow> twr_frame_t" where
  [layout]: "set_request_timestamp v fr = fr\<lparr>twr_array := put_le32 (twr_array fr) 19 v\<rparr>"
definition set_response_timestamp :: "u32 \<Rightarrow> twr_frame_t \<Rightarrow> twr_frame_t" where
  [layout]: "set_response_timestamp v fr = fr\<lparr>twr_array := put_le32 (twr_array fr) 23 v\<rparr>"
definition set_carrier_integrator :: "u32 \<Rightarrow> twr_frame_t \<Rightarrow> twr_frame_t" where
  [layout]: "set_carrier_integrator v fr = fr\<lparr>twr_array := put_le32 (twr_array fr) 27 v\<rparr>"

definition set_remote :: "(bytes \<Rightarrow> nat \<Rightarrow> bytes) \<Rightarrow> twr_frame_t \<Rightarrow> twr_frame_t" where
  "set_remote f fr = fr\<lparr>twr_array := f (twr_array fr) 32\<rparr>"
definition set_local :: "(bytes \<Rightarrow> nat \<Rightarrow> bytes) \<Rightarrow> twr_frame_t \<Rightarrow> twr_frame_t" where
  "set_local f fr = fr\<lparr>twr_local := f (twr_local fr) 0\<rparr>"

text \<open>
  Offsets in \<open>struct _twr_data_t\<close>: three triads of doubles, then \<open>rssi\<close>, \<open>fppl\<close>,
  \<open>pdoa\<close>, the flags and \<open>vrssi[3]\<close>.
\<close>

abbreviation (input) "td_range \<equiv> 0 :: nat"
abbreviation (input) "td_azimuth \<equiv> 8 :: nat"
abbreviation (input) "td_zenith \<equiv> 16 :: nat"
abbreviation (input) "td_variance_range \<equiv> 24 :: nat"
abbreviation (input) "td_variance_azimuth \<equiv> 32 :: nat"
abbreviation (input) "td_variance_zenith \<equiv> 40 :: nat"
abbreviation (input) "td_x \<equiv> 48 :: nat"
abbreviation (input) "td_y \<equiv> 56 :: nat"
abbreviation (input) "td_z \<equiv> 64 :: nat"
abbreviation (input) "td_rssi \<equiv> 72 :: nat"
abbreviation (input) "td_fppl \<equiv> 76 :: nat"
abbreviation (input) "td_pdoa \<equiv> 80 :: nat"
abbreviation (input) "td_flags \<equiv> 84 :: nat"
abbreviation (input) "td_vrssi \<equiv> 88 :: nat"

definition set_flag :: "nat \<Rightarrow> bool \<Rightarrow> u16 \<Rightarrow> u16" where
  "set_flag n b w = (if b then set_bit n w else unset_bit n w)"

section \<open>Floating point\<close>

text \<open>
  Softfloat's operations and the build's constants. A \<open>float64_t\<close> is 64 bits, a
  \<open>float32_t\<close> 32 bits.
\<close>

record rng_floats = "u64 float64_ops" +
  f64_of_i32 :: "u32 \<Rightarrow> u64"
  f32_nan :: u32
  f32_isnan :: "u32 \<Rightarrow> bool"
  f32_init :: "rat \<Rightarrow> u32"
  f32_two_pi :: u32
  f32_mul :: "u32 \<Rightarrow> u32 \<Rightarrow> u32"
  f32_div :: "u32 \<Rightarrow> u32 \<Rightarrow> u32"
  f64_of_f32 :: "u32 \<Rightarrow> u64"
  f32_of_f64 :: "u64 \<Rightarrow> u32"
  f64_asin :: "u64 \<Rightarrow> u64"
  LOCAL_COORDINATE_X :: u64
  LOCAL_COORDINATE_Y :: u64
  LOCAL_COORDINATE_Z :: u64
  RANGE_VARIANCE :: u64
  AZIMUTH_VARIANCE :: u64

text \<open>\<open>uwb_calc_aoa\<close> of uwb.c; the \<open>assert\<close> on an unknown channel is \<open>None\<close>.\<close>

definition uwb_calc_aoa :: "rng_floats \<Rightarrow> u32 \<Rightarrow> u8 \<Rightarrow> u32 \<Rightarrow> u32 option" where
  "uwb_calc_aoa fl pdoa channel antenna_separation =
     (let freq = (if channel = 1 then Some 3494400000 else if channel = 2 then Some 3993600000
                  else if channel = 3 then Some 4492800000 else if channel = 4 then Some 4492800000
                  else if channel = 5 then Some 6489600000 else if channel = 7 then Some 6489600000
                  else if channel = 9 then Some 7987200000 else None)
      in case freq of None \<Rightarrow> None
         | Some f \<Rightarrow>
           let wavelength = f32_div fl (f32_init fl 299792458) (f32_init fl f);
               pd_dist = f32_div fl pdoa (f32_two_pi fl);
               pd_dist = f32_mul fl pd_dist wavelength
           in Some (f32_of_f64 fl (f64_asin fl (f64_of_f32 fl (f32_div fl pd_dist antenna_separation)))))"

section \<open>The instance (uwb_rng.h)\<close>

record uwb_rng_config =
  rx_holdoff_delay :: u32
  tx_holdoff_delay :: u32
  tx_guard_delay :: u32
  rx_timeout_delay :: u16
  bias_correction :: bool
  fctrl_req_ack :: bool

record rng_config_list =
  cfgs_rng_code :: u16
  cfgs_name :: string
  cfgs_config :: uwb_rng_config

datatype rng_stat_section =
    Rng_request | Rng_listen | Tx_complete | Rx_complete | Rx_unsolicited | Rx_other_frame
  | Rx_error | Tx_error | Rx_timeout | Complete_cb | Reset | Superframe_reset

record uwb_rng_instance =
  rng_stat :: "rng_stat_section \<Rightarrow> u32"
  rng_code :: u16
  rng_seq_num :: u16
  rng_sem :: dpl_sem
  rng_delay :: u64
  rng_config :: uwb_rng_config
  rng_delay_start_enabled :: bool
  rng_complete_after_tx :: bool
  rng_selfmalloc :: bool
  rng_initialized :: bool
  rng_tx_ack_expected :: bool
  rng_rx_ack_expected :: bool
  rng_frame_shr_duration :: u16
  rng_idx :: u16
  rng_idx_current :: u16
  rng_nframes :: u16
  rng_ack_rx_timestamp :: u64
  rng_complete_events :: nat
  rng_configs :: "rng_config_list list"
  rng_frames :: "twr_frame_t list"

text \<open>The counters of the two-way ranging services' own \<open>STATS\<close> sections.\<close>

datatype twr_stat =
    Ss_complete | Ss_tx_error
  | Ss_ext_complete | Ss_ext_tx_error
  | Ss_ack_complete | Ss_ack_tx_error | Ss_ack_ack_tx_err | Ss_ack_ack_rx_err | Ss_ack_ack_seq_err
  | Ds_complete | Ds_start_tx_error
  | Ds_ext_complete | Ds_ext_tx_error

text \<open>
  What the callbacks act on: the device, the ranging instance and the counters.
  \<open>rs_assert_failed\<close> records that an \<open>assert\<close> of the code has failed.
\<close>

record rng_state =
  rs_dev :: uwb_dev
  rs_rng :: uwb_rng_instance
  rs_twr_stat :: "twr_stat \<Rightarrow> u32"
  rs_assert_failed :: bool

section \<open>Steps on the state\<close>

definition RNG_STATS_INC :: "rng_stat_section \<Rightarrow> rng_state \<Rightarrow> rng_state" where
  "RNG_STATS_INC x s =
     s\<lparr>rs_rng := (rs_rng s)\<lparr>rng_stat := (rng_stat (rs_rng s))(x := rng_stat (rs_rng s) x + 1)\<rparr>\<rparr>"

definition TWR_STATS_INC :: "twr_stat \<Rightarrow> rng_state \<Rightarrow> rng_state" where
  "TWR_STATS_INC x s = s\<lparr>rs_twr_stat := (rs_twr_stat s)(x := rs_twr_stat s x + 1)\<rparr>"

definition sem_release :: "rng_state \<Rightarrow> rng_state" where
  "sem_release s = s\<lparr>rs_rng := (rs_rng s)\<lparr>rng_sem := dpl_sem_release (rng_sem (rs_rng s))\<rparr>\<rparr>"

definition sem_count :: "rng_state \<Rightarrow> u16" where
  "sem_count s = dpl_sem_get_count (rng_sem (rs_rng s))"

definition on_dev :: "(uwb_dev \<Rightarrow> uwb_dev) \<Rightarrow> rng_state \<Rightarrow> rng_state" where
  "on_dev f s = s\<lparr>rs_dev := f (rs_dev s)\<rparr>"

definition on_rng :: "(uwb_rng_instance \<Rightarrow> uwb_rng_instance) \<Rightarrow> rng_state \<Rightarrow> rng_state" where
  "on_rng f s = s\<lparr>rs_rng := f (rs_rng s)\<rparr>"

definition start_tx_error :: "rng_state \<Rightarrow> bool" where
  "start_tx_error s = st_start_tx_error (dev_status (rs_dev s))"

text \<open>
  \<open>rng->frames[rng->idx % rng->nframes]\<close> and its neighbours. \<open>idx + 1\<close> is computed
  in \<open>int\<close>, \<open>(uint16_t)(idx - 1)\<close> is truncated.
\<close>

definition cur_slot :: "uwb_rng_instance \<Rightarrow> nat" where
  "cur_slot rng = unat (rng_idx rng) mod unat (rng_nframes rng)"

definition next_slot :: "uwb_rng_instance \<Rightarrow> nat" where
  "next_slot rng = (unat (rng_idx rng) + 1) mod unat (rng_nframes rng)"

definition prev_slot :: "uwb_rng_instance \<Rightarrow> nat" where
  "prev_slot rng = unat (rng_idx rng - 1) mod unat (rng_nframes rng)"

definition frame_at :: "nat \<Rightarrow> rng_state \<Rightarrow> twr_frame_t" where
  "frame_at i s = rng_frames (rs_rng s) ! i"

definition on_frame :: "nat \<Rightarrow> (twr_frame_t \<Rightarrow> twr_frame_t) \<Rightarrow> rng_state \<Rightarrow> rng_state" where
  "on_frame i f s =
     s\<lparr>rs_rng := (rs_rng s)\<lparr>rng_frames := (rng_frames (rs_rng s))[i := f (rng_frames (rs_rng s) ! i)]\<rparr>\<rparr>"

end
