(* ===== verification/Uwb_Rng.thy ===== *)
theory Uwb_Rng
  imports Uwb_Rng_State
begin

text \<open>
  The operations of the ranging service: lib/uwb_rng/src/uwb_rng.c, in the order of
  the file. Parameters: the driver \<open>uf\<close>, the floating-point operations \<open>fl\<close>, the
  interface list \<open>cbs\<close> of the device, and \<open>wcs\<close>, the clock synchronisation's
  \<open>uwb_wcs_local_to_master\<close> in a build with it, \<open>None\<close> in one without.
\<close>

unbundle bit_operations_syntax

section \<open>Instance and configuration\<close>

definition null_frame :: twr_frame_t where
  "null_frame = \<lparr>twr_array = [], twr_local = []\<rparr>"

definition zero_config :: uwb_rng_config where
  "zero_config = \<lparr>rx_holdoff_delay = 0, tx_holdoff_delay = 0, tx_guard_delay = 0,
     rx_timeout_delay = 0, bias_correction = False, fctrl_req_ack = False\<rparr>"

text \<open>The \<open>calloc\<close>ed instance: all zero, its frame pointers \<open>NULL\<close>.\<close>

definition calloc_rng :: "u16 \<Rightarrow> uwb_rng_instance" where
  "calloc_rng nframes = \<lparr>rng_stat = (\<lambda>_. 0), rng_code = 0, rng_seq_num = 0, rng_sem = 0, rng_delay = 0,
     rng_config = zero_config, rng_delay_start_enabled = False, rng_complete_after_tx = False,
     rng_selfmalloc = True, rng_initialized = False, rng_tx_ack_expected = False,
     rng_rx_ack_expected = False, rng_frame_shr_duration = 0, rng_idx = 0, rng_idx_current = 0,
     rng_nframes = nframes, rng_ack_rx_timestamp = 0, rng_complete_events = 0, rng_configs = [],
     rng_frames = replicate (unat nframes) null_frame\<rparr>"

definition uwb_rng_config_set :: "uwb_rng_config \<Rightarrow> uwb_rng_instance \<Rightarrow> uwb_rng_instance" where
  "uwb_rng_config_set config rng = rng\<lparr>rng_config := config\<rparr>"

definition uwb_rng_init :: "uwb_rng_instance option \<Rightarrow> uwb_rng_config option \<Rightarrow> u16 \<Rightarrow> uwb_rng_instance" where
  "uwb_rng_init found config nframes =
     (let rng = (case found of None \<Rightarrow> calloc_rng nframes | Some rng \<Rightarrow> rng);
          rng = rng\<lparr>rng_sem := dpl_sem_init 1\<rparr>;
          rng = (case config of None \<Rightarrow> rng | Some c \<Rightarrow> uwb_rng_config_set c rng);
          rng = rng\<lparr>rng_delay_start_enabled := False, rng_complete_after_tx := False\<rparr>;
          rng = rng\<lparr>rng_idx := 0xFFFF\<rparr>
      in rng\<lparr>rng_initialized := True, rng_stat := (\<lambda>_. 0)\<rparr>)"

fun set_frames_loop :: "twr_frame_t list \<Rightarrow> twr_frame_t list \<Rightarrow> nat \<Rightarrow> twr_frame_t list" where
  "set_frames_loop frames twr 0 = frames"
| "set_frames_loop frames twr (Suc n) = (set_frames_loop frames twr n)[n := twr ! n]"

text \<open>\<open>None\<close>: the \<open>assert\<close> on the number of frames failed.\<close>

definition uwb_rng_set_frames :: "uwb_rng_instance \<Rightarrow> twr_frame_t list \<Rightarrow> u16 \<Rightarrow> uwb_rng_instance option" where
  "uwb_rng_set_frames rng twr nframes =
     (if nframes \<le> rng_nframes rng
      then Some (rng\<lparr>rng_frames := set_frames_loop (rng_frames rng) twr (unat nframes)\<rparr>)
      else None)"

fun find_config :: "rng_config_list list \<Rightarrow> u16 \<Rightarrow> uwb_rng_config option" where
  "find_config [] c = None"
| "find_config (x # xs) c = (if cfgs_rng_code x = c then Some (cfgs_config x) else find_config xs c)"

definition uwb_rng_get_config :: "uwb_rng_config \<Rightarrow> uwb_rng_instance \<Rightarrow> u16 \<Rightarrow> uwb_rng_config" where
  "uwb_rng_get_config g_config rng code =
     (case find_config (rng_configs rng) code of Some c \<Rightarrow> c | None \<Rightarrow> g_config)"

definition uwb_rng_append_config :: "uwb_rng_instance \<Rightarrow> rng_config_list \<Rightarrow> uwb_rng_instance" where
  "uwb_rng_append_config rng cfgs =
     rng\<lparr>rng_configs := slist_insert_after_last (rng_configs rng) cfgs\<rparr>"

fun remove_config :: "rng_config_list list \<Rightarrow> u16 \<Rightarrow> rng_config_list list" where
  "remove_config [] c = []"
| "remove_config (x # xs) c = (if cfgs_rng_code x = c then xs else x # remove_config xs c)"

definition uwb_rng_remove_config :: "uwb_rng_instance \<Rightarrow> u16 \<Rightarrow> uwb_rng_instance" where
  "uwb_rng_remove_config rng code = rng\<lparr>rng_configs := remove_config (rng_configs rng) code\<rparr>"

section \<open>Timing of a reply, meta data\<close>

record uwb_rng_txd =
  response_tx_delay :: u64
  response_timestamp :: u64

definition uwb_rng_calc_rel_tx ::
  "uwb_driver_funcs \<Rightarrow> rng_state \<Rightarrow> uwb_rng_config \<Rightarrow> u64 \<Rightarrow> u16 \<Rightarrow> uwb_rng_txd" where
  "uwb_rng_calc_rel_tx uf s cfg ts rx_data_len =
     (let data_duration = uwb_usecs_to_dwt_usecs (uwb_phy_data_duration uf rx_data_len);
          delay = ts + push_bit 16 ((ucast (tx_holdoff_delay cfg) :: u64)
                    + ucast (rng_frame_shr_duration (rs_rng s)) + ucast data_duration)
      in \<lparr>response_tx_delay = delay,
          response_timestamp = (delay AND 0xFFFFFFFE00) + ucast (dev_tx_antenna_delay (rs_dev s))\<rparr>)"

definition uwb_rng_clear_twr_data :: "rng_floats \<Rightarrow> bytes \<Rightarrow> nat \<Rightarrow> bytes" where
  "uwb_rng_clear_twr_data fl m a =
     (let m = put_le64 m (a + td_range) (f64_nan fl);
          m = put_le64 m (a + td_azimuth) (f64_nan fl);
          m = put_le64 m (a + td_zenith) (f64_nan fl);
          m = put_le32 m (a + td_rssi) (f32_nan fl);
          m = put_le32 m (a + td_fppl) (f32_nan fl);
          m = put_le32 m (a + td_pdoa) (f32_nan fl)
      in put_le16 m (a + td_flags) 0)"

section \<open>Requests\<close>

text \<open>
  \<open>uwb_rng_request\<close> waits twice on the instance's semaphore, so it is three pieces:
  up to the first wait (the frame and the configuration are looked up there), from
  there to the second wait, and after it. A piece whose wait blocks is \<open>None\<close>.
\<close>

definition uwb_rng_request_enter ::
  "uwb_rng_config \<Rightarrow> u16 \<Rightarrow> rng_state \<Rightarrow> nat \<times> uwb_rng_config \<times> rng_state" where
  "uwb_rng_request_enter g_config code s =
     (next_slot (rs_rng s), uwb_rng_get_config g_config (rs_rng s) code, RNG_STATS_INC Rng_request s)"

datatype request_result = Returned rng_state | Waiting rng_state

definition irqsem_error_exit :: "rng_state \<Rightarrow> rng_state" where
  "irqsem_error_exit s = (if sem_count s = 0 then sem_release s else s)"

definition request_frame :: "rng_floats \<Rightarrow> uwb_rng_config \<Rightarrow> u16 \<Rightarrow> u16 \<Rightarrow> uwb_dev \<Rightarrow> u16 \<Rightarrow> twr_frame_t \<Rightarrow> twr_frame_t" where
  "request_frame fl config code dst_address dev seq fr =
     (let fr = set_fctrl FCNTL_IEEE_RANGE_16 fr;
          fr = set_fctrl (fr_fctrl fr OR (if fctrl_req_ack config then UWB_FCTRL_ACK_REQUESTED else 0)) fr;
          fr = set_seq_num (ucast seq) fr;
          fr = set_code code fr;
          fr = set_PANID (dev_pan_id dev) fr;
          fr = set_src_address (dev_my_short_address dev) fr;
          fr = set_dst_address dst_address fr;
          fr = set_remote (uwb_rng_clear_twr_data fl) fr
      in set_local (uwb_rng_clear_twr_data fl) fr)"

definition request_transmit ::
  "uwb_driver_funcs \<Rightarrow> rng_floats \<Rightarrow> nat \<Rightarrow> uwb_rng_config \<Rightarrow> u16 \<Rightarrow> u16 \<Rightarrow> rng_state \<Rightarrow> rng_state" where
  "request_transmit uf fl fi config dst_address code s =
     (let s = on_rng (\<lambda>r. r\<lparr>rng_seq_num := rng_seq_num r
                + (if code = UWB_DATA_CODE_SS_TWR \<or> code = UWB_DATA_CODE_SS_TWR_EXT then 1 else 2)\<rparr>) s;
          s = on_frame fi (request_frame fl config code dst_address (rs_dev s) (rng_seq_num (rs_rng s))) s;
          s = on_dev (uwb_write_tx uf (twr_array (frame_at fi s)) 0 sizeof_ieee_rng_request_frame_t) s;
          s = on_dev (uwb_write_tx_fctrl uf sizeof_ieee_rng_request_frame_t 0) s;
          s = on_dev (uwb_set_wait4resp uf True) s;
          data_duration = uwb_usecs_to_dwt_usecs (uwb_phy_data_duration uf sizeof_ieee_rng_response_frame_t);
          frame_duration = uwb_usecs_to_dwt_usecs (uwb_phy_frame_duration uf sizeof_ieee_rng_response_frame_t);
          s = on_rng (\<lambda>r. r\<lparr>rng_frame_shr_duration := frame_duration - data_duration\<rparr>) s;
          timeToRxStable = (ucast (rx_timeToRxStable (config_rx (dev_config (rs_dev s)))) :: u32);
          s = (if \<not> fctrl_req_ack config
               then on_dev (uwb_set_rxauto_disable uf True
                     \<circ> uwb_set_wait4resp_delay uf (tx_holdoff_delay config - timeToRxStable)) s
               else on_dev (uwb_set_rxauto_disable uf False)
                     (on_rng (\<lambda>r. r\<lparr>rng_rx_ack_expected := True\<rparr>)
                       (on_dev (uwb_set_wait4resp_delay uf 0) s)));
          frame_duration = (if code = UWB_DATA_CODE_SS_TWR_EXT
               then uwb_usecs_to_dwt_usecs (uwb_phy_frame_duration uf TWR_EXT_FRAME_SIZE)
               else frame_duration);
          s = on_dev (uwb_set_rx_timeout uf
               (ucast frame_duration + ucast (rx_timeout_delay config) + timeToRxStable)) s
      in if rng_delay_start_enabled (rs_rng s)
         then on_dev (uwb_set_delay_start uf (rng_delay (rs_rng s))) s else s)"

definition request_start_tx :: "uwb_driver_funcs \<Rightarrow> rng_state \<Rightarrow> rng_state" where
  "request_start_tx uf s =
     (let s = on_dev (uwb_start_tx uf) s
      in if start_tx_error s then RNG_STATS_INC Tx_error (sem_release s) else s)"

text \<open>\<open>w1\<close> and \<open>w2\<close>: how the waits for the instance's and for the interrupt semaphore end.\<close>

definition uwb_rng_request_start ::
  "uwb_driver_funcs \<Rightarrow> rng_floats \<Rightarrow> nat \<Rightarrow> uwb_rng_config \<Rightarrow> wait_end \<Rightarrow> wait_end \<Rightarrow> u16 \<Rightarrow> u16
     \<Rightarrow> rng_state \<Rightarrow> request_result option" where
  "uwb_rng_request_start uf fl fi config w1 w2 dst_address code s =
     (case dpl_sem_pend (rng_sem (rs_rng s)) w1 of
        None \<Rightarrow> None
      | Some (err, sem) \<Rightarrow>
        let s = on_rng (\<lambda>r. r\<lparr>rng_sem := sem\<rparr>) s in
        if err \<noteq> DPL_OK then Some (Returned s) else
        (case dpl_sem_pend (dev_irq_sem (rs_dev s)) w2 of
           None \<Rightarrow> None
         | Some (err, isem) \<Rightarrow>
           let s = on_dev (\<lambda>d. d\<lparr>dev_irq_sem := isem\<rparr>) s in
           if err \<noteq> DPL_OK then Some (Returned (irqsem_error_exit s)) else
           let s = request_transmit uf fl fi config dst_address code s;
               s = on_dev (\<lambda>d. d\<lparr>dev_irq_sem := dpl_sem_release (dev_irq_sem d)\<rparr>) s
           in Some (Waiting (request_start_tx uf s))))"

definition uwb_rng_request_finish :: "wait_end \<Rightarrow> rng_state \<Rightarrow> rng_state option" where
  "uwb_rng_request_finish w s =
     (case dpl_sem_pend (rng_sem (rs_rng s)) w of
        None \<Rightarrow> None
      | Some (err, sem) \<Rightarrow>
        let s = on_rng (\<lambda>r. r\<lparr>rng_sem := sem\<rparr>) s
        in Some (if err \<noteq> DPL_OK then s else irqsem_error_exit s))"

definition uwb_rng_request_delay_start_enter :: "u64 \<Rightarrow> rng_state \<Rightarrow> rng_state" where
  "uwb_rng_request_delay_start_enter d =
     on_rng (\<lambda>r. r\<lparr>rng_delay_start_enabled := True, rng_delay := d\<rparr>)"

definition uwb_rng_request_delay_start_leave :: "rng_state \<Rightarrow> rng_state" where
  "uwb_rng_request_delay_start_leave = on_rng (\<lambda>r. r\<lparr>rng_delay_start_enabled := False\<rparr>)"

text \<open>
  \<open>uwb_rng_listen\<close>: up to the wait of the blocking mode, which is
  \<open>uwb_rng_listen_finish\<close>. \<open>timeout\<close> is signed.
\<close>

definition uwb_rng_listen_start :: "uwb_driver_funcs \<Rightarrow> wait_end \<Rightarrow> u32 \<Rightarrow> rng_state \<Rightarrow> request_result option" where
  "uwb_rng_listen_start uf w timeout s =
     (case dpl_sem_pend (rng_sem (rs_rng s)) w of
        None \<Rightarrow> None
      | Some (err, sem) \<Rightarrow>
        let s = on_rng (\<lambda>r. r\<lparr>rng_sem := sem\<rparr>) s in
        if err \<noteq> DPL_OK then Some (Returned s) else
        let s = on_dev (uwb_set_rxauto_disable uf True) s;
            s = on_rng (\<lambda>r. r\<lparr>rng_frame_shr_duration := uwb_usecs_to_dwt_usecs (uwb_phy_SHR_duration uf)\<rparr>) s;
            s = (if rng_delay_start_enabled (rs_rng s)
                 then on_dev (uwb_set_delay_start uf (rng_delay (rs_rng s))) s else s);
            s = (if sint timeout > -1 then on_dev (uwb_set_rx_timeout uf timeout) s else s);
            s = RNG_STATS_INC Rng_listen s;
            s = on_dev (uwb_start_rx uf) s;
            s = (if st_start_rx_error (dev_status (rs_dev s))
                 then RNG_STATS_INC Rx_error (sem_release s) else s)
        in Some (Waiting s))"

definition uwb_rng_listen_finish :: "wait_end \<Rightarrow> rng_state \<Rightarrow> rng_state option" where
  "uwb_rng_listen_finish w s =
     (case dpl_sem_pend (rng_sem (rs_rng s)) w of
        None \<Rightarrow> None
      | Some (err, sem) \<Rightarrow>
        let s = on_rng (\<lambda>r. r\<lparr>rng_sem := sem\<rparr>) s
        in Some (if err \<noteq> DPL_OK then s else sem_release s))"

section \<open>Time of flight of a finished exchange\<close>

definition uwb_rng_twr_to_tof ::
  "rng_floats \<Rightarrow> uwb_driver_funcs \<Rightarrow> (u64 \<Rightarrow> u64) option \<Rightarrow> rng_state \<Rightarrow> u16 \<Rightarrow> u64" where
  "uwb_rng_twr_to_tof fl uf wcs s i =
     (let n = unat (rng_nframes (rs_rng s));
          first_frame = frame_at (unat (i - 1) mod n) s;
          frame = frame_at (unat i mod n) s;
          skew = (case wcs of
                    Some _ \<Rightarrow> f64_init fl 0
                  | None \<Rightarrow> uf_calc_clock_offset_ratio uf (rs_dev s) (fr_carrier_integrator frame));
          c = fr_code frame
      in if in_range UWB_DATA_CODE_SS_TWR UWB_DATA_CODE_SS_TWR_END c
           \<or> in_range UWB_DATA_CODE_SS_TWR_ACK UWB_DATA_CODE_SS_TWR_ACK_END c
           \<or> in_range UWB_DATA_CODE_SS_TWR_EXT UWB_DATA_CODE_SS_TWR_EXT_END c
         then calc_tof_ss fl (fr_response_timestamp frame) (fr_request_timestamp frame)
                (ucast (fr_transmission_timestamp frame)) (ucast (fr_reception_timestamp frame)) skew
         else if in_range UWB_DATA_CODE_DS_TWR UWB_DATA_CODE_DS_TWR_END c
           \<or> in_range UWB_DATA_CODE_DS_TWR_EXT UWB_DATA_CODE_DS_TWR_EXT_END c
         then calc_tof_ds fl (fr_response_timestamp first_frame) (fr_request_timestamp first_frame)
                (ucast (fr_transmission_timestamp first_frame)) (ucast (fr_reception_timestamp first_frame))
                (fr_response_timestamp frame) (fr_request_timestamp frame)
                (ucast (fr_transmission_timestamp frame)) (ucast (fr_reception_timestamp frame))
         else f64_of_i32 fl 0)"

section \<open>Callbacks\<close>

definition rng_issue_complete :: "rng_state uwb_mac_interface list \<Rightarrow> rng_state \<Rightarrow> rng_state" where
  "rng_issue_complete cbs = run_all mac_complete_cb cbs"

definition rng_rx_timeout_cb :: "rng_state callback" where
  "rng_rx_timeout_cb s =
     (if sem_count s = 1 then (False, s)
      else if sem_count s = 0 then
        let s = sem_release s;
            s = RNG_STATS_INC Rx_timeout s
        in if in_range UWB_DATA_CODE_SS_TWR UWB_DATA_CODE_DS_TWR_EXT_FINAL (rng_code (rs_rng s))
           then (True, RNG_STATS_INC Rx_timeout s)
           else (False, s)
      else (False, s))"

definition rng_reset_cb :: "rng_state callback" where
  "rng_reset_cb s =
     (if sem_count s = 0 then
        let s = sem_release s;
            s = RNG_STATS_INC Reset s
        in (True, on_rng (\<lambda>r. r\<lparr>rng_rx_ack_expected := False, rng_tx_ack_expected := False\<rparr>) s)
      else (False, s))"

definition rng_superframe_reset_cb :: "rng_state callback" where
  "rng_superframe_reset_cb s =
     (if sem_count s = 0 then
        let s = sem_release s;
            s = RNG_STATS_INC Superframe_reset s
        in (False, on_rng (\<lambda>r. r\<lparr>rng_rx_ack_expected := False, rng_tx_ack_expected := False\<rparr>) s)
      else (False, s))"

text \<open>The frame memory after the frame just received was copied in.\<close>

definition load_frame :: "rng_floats \<Rightarrow> uwb_dev \<Rightarrow> twr_frame_t \<Rightarrow> twr_frame_t" where
  "load_frame fl dev fr =
     fr\<lparr>twr_array := write_at (twr_array fr) 0 (take (unat (dev_frame_len dev)) (dev_rxbuf dev))\<rparr>"

definition rng_rx_complete_cb :: "rng_floats \<Rightarrow> rng_state callback" where
  "rng_rx_complete_cb fl s =
     (let inst = rs_dev s in
      if dev_fctrl inst \<noteq> FCNTL_IEEE_RANGE_16
         \<and> dev_fctrl inst \<noteq> FCNTL_IEEE_RANGE_16 OR UWB_FCTRL_ACK_REQUESTED
         \<and> dev_fctrl inst \<noteq> UWB_FCTRL_FRAME_TYPE_ACK
      then (False, if sem_count s = 0 then sem_release (RNG_STATS_INC Rx_other_frame s) else s)
      else if sem_count s = 1 then (False, RNG_STATS_INC Rx_unsolicited s)
      else if dev_frame_len inst < sizeof_ieee_rng_request_frame_t then (False, s)
      else
        let s = on_rng (\<lambda>r. r\<lparr>rng_code := get_le16 (dev_rxbuf inst) 9\<rparr>) s in
        if in_range UWB_DATA_CODE_SS_TWR UWB_DATA_CODE_DS_TWR_EXT_END (rng_code (rs_rng s)) then
          let i = next_slot (rs_rng s);
              s = on_frame i (set_remote (uwb_rng_clear_twr_data fl)) s;
              s = on_frame i (set_local (uwb_rng_clear_twr_data fl)) s
          in if dev_frame_len inst \<le> sizeof_twr_frame_array then
               let s = on_frame i (load_frame fl inst) s in
               if rx_frameFilter (config_rx (dev_config inst)) = 0
                  \<and> fr_dst_address (frame_at i s) \<noteq> dev_my_short_address inst
               then (True, if sem_count s = 0 then sem_release s else s)
               else (False, on_rng (\<lambda>r. r\<lparr>rng_idx := rng_idx r + 1\<rparr>) (RNG_STATS_INC Rx_complete s))
             else (False, s)
        else (False, s))"

definition rng_tx_complete_cb :: "rng_state uwb_mac_interface list \<Rightarrow> rng_state callback" where
  "rng_tx_complete_cb cbs s =
     (if dev_fctrl (rs_dev s) \<noteq> FCNTL_IEEE_RANGE_16 then (False, s)
      else if sem_count s = 1 then (False, s)
      else if in_range UWB_DATA_CODE_SS_TWR UWB_DATA_CODE_DS_TWR_EXT_END (rng_code (rs_rng s)) then
        let s = RNG_STATS_INC Tx_complete s;
            s = (if rng_complete_after_tx (rs_rng s) then rng_issue_complete cbs (sem_release s) else s)
        in (True, on_rng (\<lambda>r. r\<lparr>rng_complete_after_tx := False\<rparr>) s)
      else (False, s))"

text \<open>
  The results of a finished operation: \<open>complete_cb\<close> for the local data,
  \<open>tx_final_cb\<close> for the remote data of a frame about to be sent.
\<close>

definition sts_valid :: "uwb_dev_status \<Rightarrow> bool" where
  "sts_valid st \<longleftrightarrow> \<not> (st_sts_ts_error st \<or> st_sts_pream_error st)"

definition put_azimuth :: "rng_floats \<Rightarrow> uwb_dev \<Rightarrow> u32 \<Rightarrow> bytes \<Rightarrow> nat \<Rightarrow> bytes" where
  "put_azimuth fl dev pdoa m a =
     (case uwb_calc_aoa fl pdoa (config_channel (dev_config dev)) (dev_rx_ant_separation dev) of
        Some v \<Rightarrow> put_le64 m (a + td_azimuth) (f64_of_f32 fl v)
      | None \<Rightarrow> m)"

definition aoa_asserts :: "rng_floats \<Rightarrow> uwb_dev \<Rightarrow> u32 \<Rightarrow> bool" where
  "aoa_asserts fl dev pdoa \<longleftrightarrow>
     uwb_calc_aoa fl pdoa (config_channel (dev_config dev)) (dev_rx_ant_separation dev) = None"

definition put_flag :: "nat \<Rightarrow> bool \<Rightarrow> bytes \<Rightarrow> nat \<Rightarrow> bytes" where
  "put_flag n b m a = put_le16 m (a + td_flags) (set_flag n b (get_le16 m (a + td_flags)))"

definition local_results :: "rng_floats \<Rightarrow> uwb_driver_funcs \<Rightarrow> uwb_dev \<Rightarrow> bytes \<Rightarrow> nat \<Rightarrow> bytes" where
  "local_results fl uf inst m a =
     (let pdoa = uf_calc_pdoa uf inst;
          m = (if dev_cap_single_receiver_pdoa inst \<and> \<not> f32_isnan fl pdoa
               then put_azimuth fl inst pdoa (put_le32 m (a + td_pdoa) pdoa) a else m);
          m = put_le32 m (a + td_vrssi) (f32_nan fl);
          m = put_le32 m (a + td_rssi) (uf_calc_rssi uf inst);
          m = put_le32 m (a + td_fppl) (uf_calc_fppl uf inst)
      in if dev_cap_sts inst then
           let m = put_flag 0 (rx_stsMode (config_rx (dev_config inst)) \<noteq> 0) m a;
               m = put_flag 1 (sts_valid (dev_status inst)) m a;
               m = put_le32 m (a + td_vrssi) (get_le32 m (a + td_rssi));
               m = put_le32 m (a + td_vrssi + 4) (uf_calc_seq_rssi uf inst 0x0200)
           in put_le32 m (a + td_vrssi + 8) (uf_calc_seq_rssi uf inst 0x2000)
         else m)"

definition rng_complete_cb :: "rng_floats \<Rightarrow> uwb_driver_funcs \<Rightarrow> rng_state callback" where
  "rng_complete_cb fl uf s =
     (let s = RNG_STATS_INC Complete_cb s;
          inst = rs_dev s
      in if dev_fctrl inst \<noteq> FCNTL_IEEE_RANGE_16
            \<and> dev_fctrl inst \<noteq> FCNTL_IEEE_RANGE_16 OR UWB_FCTRL_ACK_REQUESTED
         then (False, s)
         else
           let pdoa = uf_calc_pdoa uf inst;
               s = on_rng (\<lambda>r. r\<lparr>rng_idx_current := of_nat (cur_slot r)\<rparr>) s;
               s = s\<lparr>rs_assert_failed := rs_assert_failed s \<or>
                     (dev_cap_single_receiver_pdoa inst \<and> \<not> f32_isnan fl pdoa \<and> aoa_asserts fl inst pdoa)\<rparr>;
               s = on_frame (unat (rng_idx_current (rs_rng s))) (set_local (local_results fl uf inst)) s
           in (False, on_rng (\<lambda>r. r\<lparr>rng_complete_events := rng_complete_events r + 1\<rparr>) s))"

text \<open>\<open>has_valid_sts\<close> is set in the local flags, as the code does, not in the remote ones.\<close>

definition remote_results ::
  "rng_floats \<Rightarrow> uwb_driver_funcs \<Rightarrow> uwb_dev \<Rightarrow> u64 \<Rightarrow> bool \<Rightarrow> bytes \<Rightarrow> nat \<Rightarrow> bytes" where
  "remote_results fl uf inst tof has_range m a =
     (let m = put_le64 m (a + td_x) (LOCAL_COORDINATE_X fl);
          m = put_le64 m (a + td_y) (LOCAL_COORDINATE_Y fl);
          m = put_le64 m (a + td_z) (LOCAL_COORDINATE_Z fl);
          m = (if dev_cap_single_receiver_pdoa inst then put_le32 m (a + td_pdoa) (uf_calc_pdoa uf inst) else m);
          m = (if dev_cap_sts inst
               then put_flag 0 (rx_stsMode (config_rx (dev_config inst)) \<noteq> 0) m a else m);
          m = put_le32 m (a + td_rssi) (uf_calc_rssi uf inst);
          m = put_le32 m (a + td_fppl) (uf_calc_fppl uf inst);
          m = (if has_range
               then put_le64 (put_le64 m (a + td_range) (uwb_rng_tof_to_meters fl tof))
                      (a + td_variance_range) (RANGE_VARIANCE fl)
               else put_le64 m (a + td_range) (f64_nan fl));
          m = put_le64 m (a + td_variance_azimuth) (f64_init fl (-1));
          m = put_le64 m (a + td_variance_zenith) (f64_init fl (-1));
          pdoa = get_le32 m (a + td_pdoa)
      in if \<not> f32_isnan fl pdoa
         then put_le64 (put_azimuth fl inst pdoa m a) (a + td_variance_azimuth) (AZIMUTH_VARIANCE fl)
         else m)"

definition rng_tx_final_cb ::
  "rng_floats \<Rightarrow> uwb_driver_funcs \<Rightarrow> (u64 \<Rightarrow> u64) option \<Rightarrow> rng_state callback" where
  "rng_tx_final_cb fl uf wcs s =
     (let inst = rs_dev s;
          i = cur_slot (rs_rng s);
          tof = uwb_rng_twr_to_tof fl uf wcs s (rng_idx (rs_rng s));
          s = (if dev_cap_sts inst
               then on_frame i (set_local (put_flag 1 (sts_valid (dev_status inst)))) s else s);
          s = on_frame i (set_remote (remote_results fl uf inst tof
                (fr_code (frame_at i s) \<noteq> UWB_DATA_CODE_SS_TWR_EXT_T1))) s;
          pdoa = get_le32 (twr_array (frame_at i s)) (32 + td_pdoa);
          s = s\<lparr>rs_assert_failed := rs_assert_failed s \<or> (\<not> f32_isnan fl pdoa \<and> aoa_asserts fl inst pdoa)\<rparr>
      in (True, s))"

text \<open>The interface the package registers; the sub-callbacks run over the device's list \<open>cbs\<close>.\<close>

definition rng_interface ::
  "rng_floats \<Rightarrow> uwb_driver_funcs \<Rightarrow> (u64 \<Rightarrow> u64) option \<Rightarrow> rng_state uwb_mac_interface list
     \<Rightarrow> nat \<Rightarrow> rng_state uwb_mac_interface" where
  "rng_interface fl uf wcs cbs ptr = \<lparr>
     mac_initialized = False,
     mac_id = 4,
     mac_inst_ptr = ptr,
     mac_tx_complete_cb = Some (rng_tx_complete_cb cbs),
     mac_rx_complete_cb = Some (rng_rx_complete_cb fl),
     mac_rx_timeout_cb = Some rng_rx_timeout_cb,
     mac_rx_error_cb = None,
     mac_tx_error_cb = None,
     mac_reset_cb = Some rng_reset_cb,
     mac_final_cb = Some (rng_tx_final_cb fl uf wcs),
     mac_complete_cb = Some (rng_complete_cb fl uf),
     mac_superframe_cb = Some rng_superframe_reset_cb\<rparr>"

end
