(* ===== verification/Twr.thy ===== *)
theory Twr
  imports Uwb_Rng
begin

text \<open>
  What the two-way ranging services share: the steps their handlers are made of, the
  well-formedness of the ranging state, and two interfaces. \<open>rng_callbacks\<close> is what a
  service needs of the callbacks of the other interfaces; \<open>twr_service\<close> is what every
  service promises of its \<open>rx_complete_cb\<close>.
\<close>

unbundle bit_operations_syntax

section \<open>Steps of the handlers\<close>

text \<open>
  A timestamp as it is put into a frame: its low 32 bits, of the master's time in a
  build with clock synchronisation.
\<close>

definition stamp :: "(u64 \<Rightarrow> u64) option \<Rightarrow> u64 \<Rightarrow> u32" where
  "stamp wcs t = (case wcs of Some f \<Rightarrow> ucast (f t) AND 0xFFFFFFFF | None \<Rightarrow> ucast (t AND 0xFFFFFFFF))"

definition tx_stamp :: "uwb_driver_funcs \<Rightarrow> (u64 \<Rightarrow> u64) option \<Rightarrow> rng_state \<Rightarrow> u32" where
  "tx_stamp uf wcs s =
     (case wcs of Some f \<Rightarrow> ucast (f (uwb_read_txtime uf (rs_dev s))) AND 0xFFFFFFFF
      | None \<Rightarrow> uwb_read_txtime_lo32 uf (rs_dev s) AND 0xFFFFFFFF)"

definition reply_carrier :: "(u64 \<Rightarrow> u64) option \<Rightarrow> uwb_dev \<Rightarrow> u32" where
  "reply_carrier wcs dev = (case wcs of Some _ \<Rightarrow> 0 | None \<Rightarrow> - dev_carrier_integrator dev)"

definition tx_frame :: "uwb_driver_funcs \<Rightarrow> nat \<Rightarrow> u16 \<Rightarrow> rng_state \<Rightarrow> rng_state" where
  "tx_frame uf i len s =
     on_dev (uwb_write_tx_fctrl uf len 0 \<circ> uwb_write_tx uf (twr_array (frame_at i s)) 0 len) s"

text \<open>When to listen after our own frame: the receiver's delay, and its timeout for a frame of length \<open>nlen\<close>.\<close>

definition time_to_rx_stable :: "uwb_dev \<Rightarrow> u32" where
  "time_to_rx_stable dev = ucast (rx_timeToRxStable (config_rx (dev_config dev)))"

definition listen_after_tx :: "uwb_driver_funcs \<Rightarrow> uwb_rng_config \<Rightarrow> u16 \<Rightarrow> rng_state \<Rightarrow> rng_state" where
  "listen_after_tx uf cfg nlen s =
     (let s = on_dev (uwb_set_wait4resp_delay uf (tx_holdoff_delay cfg - time_to_rx_stable (rs_dev s))) s
      in on_dev (uwb_set_rx_timeout uf
           (ucast (uwb_usecs_to_dwt_usecs (uwb_phy_frame_duration uf nlen)) + ucast (rx_timeout_delay cfg)
            + time_to_rx_stable (rs_dev s))) s)"

text \<open>Start a transmission; on an error count it and give the semaphore back.\<close>

definition start_tx_or_release :: "uwb_driver_funcs \<Rightarrow> twr_stat \<Rightarrow> rng_state \<Rightarrow> rng_state" where
  "start_tx_or_release uf err s =
     (let s = on_dev (uwb_start_tx uf) s
      in if start_tx_error s then sem_release (TWR_STATS_INC err s) else s)"

text \<open>Send the last frame of an exchange: done after its transmission, or now if it cannot be sent.\<close>

definition start_final_tx ::
  "uwb_driver_funcs \<Rightarrow> rng_state uwb_mac_interface list \<Rightarrow> twr_stat \<Rightarrow> twr_stat \<Rightarrow> rng_state \<Rightarrow> rng_state" where
  "start_final_tx uf cbs err ok s =
     (let s = on_dev (uwb_start_tx uf) s
      in if start_tx_error s then rng_issue_complete cbs (sem_release (TWR_STATS_INC err s))
         else on_rng (\<lambda>r. r\<lparr>rng_complete_after_tx := True\<rparr>) (TWR_STATS_INC ok s))"

definition finish_exchange :: "rng_state uwb_mac_interface list \<Rightarrow> twr_stat \<Rightarrow> rng_state \<Rightarrow> rng_state" where
  "finish_exchange cbs ok s = rng_issue_complete cbs (sem_release (TWR_STATS_INC ok s))"

section \<open>Well-formed states\<close>

text \<open>
  The semaphores are binary, the ring is not empty and its slots are frames of the
  size the C type has.
\<close>

definition frame_ok :: "twr_frame_t \<Rightarrow> bool" where
  "frame_ok fr \<longleftrightarrow> length (twr_array fr) = 136 \<and> length (twr_local fr) = 104"

definition rng_ok :: "rng_state \<Rightarrow> bool" where
  "rng_ok s \<longleftrightarrow>
     rng_sem (rs_rng s) \<le> 1 \<and>
     0 < rng_nframes (rs_rng s) \<and>
     length (rng_frames (rs_rng s)) = unat (rng_nframes (rs_rng s)) \<and>
     (\<forall>fr \<in> set (rng_frames (rs_rng s)). frame_ok fr)"

lemma sem_count_binary:
  "rng_ok s \<Longrightarrow> sem_count s = 1 \<longleftrightarrow> rng_sem (rs_rng s) = 1"
  "rng_ok s \<Longrightarrow> sem_count s = 0 \<longleftrightarrow> rng_sem (rs_rng s) = 0"
  by (simp_all add: rng_ok_def sem_count_def get_count_binary)

lemma sem_free: "rng_ok s \<Longrightarrow> sem_count s \<noteq> 1 \<Longrightarrow> rng_sem (rs_rng s) = 0"
  using sem_count_binary[of s] by (auto simp: rng_ok_def le_Suc_eq)

lemma nframes_pos: "rng_ok s \<Longrightarrow> 0 < unat (rng_nframes (rs_rng s))"
  by (simp add: rng_ok_def unat_gt_0 word_neq_0_conv)

lemma slot_less:
  "rng_ok s \<Longrightarrow> cur_slot (rs_rng s) < length (rng_frames (rs_rng s))"
  "rng_ok s \<Longrightarrow> next_slot (rs_rng s) < length (rng_frames (rs_rng s))"
  "rng_ok s \<Longrightarrow> prev_slot (rs_rng s) < length (rng_frames (rs_rng s))"
  using nframes_pos[of s] by (simp_all add: cur_slot_def next_slot_def prev_slot_def rng_ok_def)

lemma frame_at_ok: "rng_ok s \<Longrightarrow> i < length (rng_frames (rs_rng s)) \<Longrightarrow> frame_ok (frame_at i s)"
  by (simp add: rng_ok_def frame_at_def)

text \<open>Every step keeps the state well-formed.\<close>

lemma frame_ok_set [simp]:
  "frame_ok (set_fctrl v fr) = frame_ok fr" "frame_ok (set_seq_num b fr) = frame_ok fr"
  "frame_ok (set_PANID v fr) = frame_ok fr" "frame_ok (set_dst_address v fr) = frame_ok fr"
  "frame_ok (set_src_address v fr) = frame_ok fr" "frame_ok (set_code v fr) = frame_ok fr"
  "frame_ok (set_reception_timestamp w fr) = frame_ok fr"
  "frame_ok (set_transmission_timestamp w fr) = frame_ok fr"
  "frame_ok (set_request_timestamp w fr) = frame_ok fr"
  "frame_ok (set_response_timestamp w fr) = frame_ok fr"
  "frame_ok (set_carrier_integrator w fr) = frame_ok fr"
  by (simp_all add: frame_ok_def layout)

lemma length_clear_twr_data [simp]: "length (uwb_rng_clear_twr_data fl m a) = length m"
  by (simp add: uwb_rng_clear_twr_data_def)

lemma length_put_azimuth [simp]: "length (put_azimuth fl dev p m a) = length m"
  by (simp add: put_azimuth_def split: option.splits)

lemma length_put_flag [simp]: "length (put_flag n b m a) = length m"
  by (simp add: put_flag_def)

lemma length_local_results [simp]: "length (local_results fl uf inst m a) = length m"
  by (simp add: local_results_def Let_def)

lemma length_remote_results [simp]: "length (remote_results fl uf inst tof h m a) = length m"
  by (simp add: remote_results_def Let_def)

lemma frame_ok_meta:
  "(\<And>m a. length (f m a) = length m) \<Longrightarrow> frame_ok (set_remote f fr) = frame_ok fr"
  "(\<And>m a. length (f m a) = length m) \<Longrightarrow> frame_ok (set_local f fr) = frame_ok fr"
  by (simp_all add: frame_ok_def set_remote_def set_local_def)

lemma frame_ok_load [simp]: "frame_ok (load_frame fl dev fr) = frame_ok fr"
  by (simp add: frame_ok_def load_frame_def)

lemma frame_ok_request [simp]: "frame_ok (request_frame fl cfg c d dev q fr) = frame_ok fr"
  by (simp add: request_frame_def Let_def frame_ok_meta)

lemma rng_ok_on_frame [intro]:
  assumes "rng_ok s" and "\<And>fr. frame_ok fr \<Longrightarrow> frame_ok (f fr)"
  shows "rng_ok (on_frame i f s)"
proof (cases "i < length (rng_frames (rs_rng s))")
  case True
  then show ?thesis using assms
    by (auto simp: rng_ok_def on_frame_def dest!: set_update_subset_insert[THEN subsetD])
next
  case False
  then show ?thesis using assms(1) by (simp add: rng_ok_def on_frame_def list_update_beyond)
qed

lemma rng_ok_steps [simp]:
  "rng_ok (RNG_STATS_INC x s) = rng_ok s"
  "rng_ok (TWR_STATS_INC y s) = rng_ok s"
  "rng_ok (on_dev g s) = rng_ok s"
  "rng_ok (s\<lparr>rs_assert_failed := b\<rparr>) = rng_ok s"
  by (simp_all add: rng_ok_def RNG_STATS_INC_def TWR_STATS_INC_def on_dev_def)

lemma rng_ok_on_rng:
  assumes "\<And>r. rng_sem (f r) = rng_sem r" "\<And>r. rng_nframes (f r) = rng_nframes r"
    "\<And>r. rng_frames (f r) = rng_frames r"
  shows "rng_ok (on_rng f s) = rng_ok s"
  using assms by (simp add: rng_ok_def on_rng_def)

text \<open>The semaphore is released by a state in which it is taken.\<close>

lemma rng_ok_sem_release:
  "rng_ok s \<Longrightarrow> rng_sem (rs_rng s) = 0 \<Longrightarrow> rng_ok (sem_release s)"
  by (simp add: rng_ok_def sem_release_def dpl_sem_release_def)

lemma sem_steps [simp]:
  "rng_sem (rs_rng (RNG_STATS_INC x s)) = rng_sem (rs_rng s)"
  "rng_sem (rs_rng (TWR_STATS_INC y s)) = rng_sem (rs_rng s)"
  "rng_sem (rs_rng (on_dev g s)) = rng_sem (rs_rng s)"
  "rng_sem (rs_rng (on_frame i f s)) = rng_sem (rs_rng s)"
  "rng_sem (rs_rng (tx_frame uf i len s)) = rng_sem (rs_rng s)"
  "rng_sem (rs_rng (listen_after_tx uf cfg n s)) = rng_sem (rs_rng s)"
  "rng_sem (rs_rng (sem_release s)) = Suc (rng_sem (rs_rng s))"
  by (simp_all add: RNG_STATS_INC_def TWR_STATS_INC_def on_dev_def on_frame_def tx_frame_def
      listen_after_tx_def Let_def sem_release_def dpl_sem_release_def)

lemma rng_ok_tx_frame [simp]: "rng_ok (tx_frame uf i len s) = rng_ok s"
  by (simp add: tx_frame_def)

lemma rng_ok_listen_after_tx [simp]: "rng_ok (listen_after_tx uf cfg n s) = rng_ok s"
  by (simp add: listen_after_tx_def Let_def)

lemma rng_ok_start_tx_or_release:
  "rng_ok s \<Longrightarrow> rng_sem (rs_rng s) = 0 \<Longrightarrow> rng_ok (start_tx_or_release uf err s)"
  by (simp add: start_tx_or_release_def Let_def rng_ok_sem_release)

text \<open>What a handler leaves of the ring: which slot is current, and how many there are.\<close>

definition same_ring :: "rng_state \<Rightarrow> rng_state \<Rightarrow> bool" where
  "same_ring s s' \<longleftrightarrow>
     rng_idx (rs_rng s') = rng_idx (rs_rng s) \<and> rng_nframes (rs_rng s') = rng_nframes (rs_rng s)
     \<and> rng_seq_num (rs_rng s') = rng_seq_num (rs_rng s)"

lemma same_ring_refl [simp]: "same_ring s s"
  by (simp add: same_ring_def)

lemma same_ring_trans: "same_ring s t \<Longrightarrow> same_ring t u \<Longrightarrow> same_ring s u"
  by (simp add: same_ring_def)

lemma same_ring_steps [simp]:
  "same_ring s (RNG_STATS_INC x t) = same_ring s t"
  "same_ring s (TWR_STATS_INC y t) = same_ring s t"
  "same_ring s (on_dev g t) = same_ring s t"
  "same_ring s (on_frame i f t) = same_ring s t"
  "same_ring s (tx_frame uf i len t) = same_ring s t"
  "same_ring s (listen_after_tx uf cfg n t) = same_ring s t"
  "same_ring s (sem_release t) = same_ring s t"
  "same_ring s (start_tx_or_release uf err t) = same_ring s t"
  "same_ring s (t\<lparr>rs_assert_failed := b\<rparr>) = same_ring s t"
  by (simp_all add: same_ring_def RNG_STATS_INC_def TWR_STATS_INC_def on_dev_def on_frame_def tx_frame_def
      listen_after_tx_def Let_def sem_release_def start_tx_or_release_def)

lemma same_ring_on_rng:
  assumes "\<And>r. rng_idx (f r) = rng_idx r" "\<And>r. rng_nframes (f r) = rng_nframes r"
    "\<And>r. rng_seq_num (f r) = rng_seq_num r"
  shows "same_ring s (on_rng f t) = same_ring s t"
  using assms by (simp add: same_ring_def on_rng_def)

text \<open>How the steps act on the parts of the state.\<close>

lemma step_dev [frame]:
  "rs_dev (RNG_STATS_INC x s) = rs_dev s" "rs_dev (TWR_STATS_INC y s) = rs_dev s"
  "rs_dev (sem_release s) = rs_dev s" "rs_dev (on_rng h s) = rs_dev s"
  "rs_dev (on_frame i f s) = rs_dev s" "rs_dev (on_dev g s) = g (rs_dev s)"
  by (simp_all add: RNG_STATS_INC_def TWR_STATS_INC_def sem_release_def on_rng_def on_frame_def on_dev_def)

lemma step_rng [frame]:
  "rs_rng (TWR_STATS_INC y s) = rs_rng s" "rs_rng (on_dev g s) = rs_rng s"
  "rs_rng (on_rng h s) = h (rs_rng s)"
  by (simp_all add: TWR_STATS_INC_def on_rng_def on_dev_def)

lemma step_frames [frame]:
  "frame_at k (RNG_STATS_INC x s) = frame_at k s" "frame_at k (TWR_STATS_INC y s) = frame_at k s"
  "frame_at k (sem_release s) = frame_at k s" "frame_at k (on_dev g s) = frame_at k s"
  "k < length (rng_frames (rs_rng s)) \<Longrightarrow> frame_at k (on_frame k f s) = f (frame_at k s)"
  "k \<noteq> i \<Longrightarrow> frame_at k (on_frame i f s) = frame_at k s"
  "(\<And>r. rng_frames (h r) = rng_frames r) \<Longrightarrow> frame_at k (on_rng h s) = frame_at k s"
  by (simp_all add: frame_at_def RNG_STATS_INC_def TWR_STATS_INC_def sem_release_def on_rng_def
      on_frame_def on_dev_def)

lemma step_length_frames [frame]:
  "length (rng_frames (rs_rng (RNG_STATS_INC x s))) = length (rng_frames (rs_rng s))"
  "length (rng_frames (rs_rng (sem_release s))) = length (rng_frames (rs_rng s))"
  "length (rng_frames (rs_rng (on_frame i f s))) = length (rng_frames (rs_rng s))"
  by (simp_all add: RNG_STATS_INC_def sem_release_def on_frame_def)

lemma step_ring [frame]:
  "rng_idx (rs_rng (RNG_STATS_INC x s)) = rng_idx (rs_rng s)"
  "rng_idx (rs_rng (sem_release s)) = rng_idx (rs_rng s)"
  "rng_idx (rs_rng (on_frame i f s)) = rng_idx (rs_rng s)"
  "rng_nframes (rs_rng (RNG_STATS_INC x s)) = rng_nframes (rs_rng s)"
  "rng_nframes (rs_rng (sem_release s)) = rng_nframes (rs_rng s)"
  "rng_nframes (rs_rng (on_frame i f s)) = rng_nframes (rs_rng s)"
  "rng_code (rs_rng (RNG_STATS_INC x s)) = rng_code (rs_rng s)"
  "rng_code (rs_rng (sem_release s)) = rng_code (rs_rng s)"
  "rng_code (rs_rng (on_frame i f s)) = rng_code (rs_rng s)"
  "rng_complete_after_tx (rs_rng (RNG_STATS_INC x s)) = rng_complete_after_tx (rs_rng s)"
  "rng_complete_after_tx (rs_rng (sem_release s)) = rng_complete_after_tx (rs_rng s)"
  "rng_complete_after_tx (rs_rng (on_frame i f s)) = rng_complete_after_tx (rs_rng s)"
  "rng_delay_start_enabled (rs_rng (RNG_STATS_INC x s)) = rng_delay_start_enabled (rs_rng s)"
  "rng_delay_start_enabled (rs_rng (on_frame i f s)) = rng_delay_start_enabled (rs_rng s)"
  "rng_delay (rs_rng (on_frame i f s)) = rng_delay (rs_rng s)"
  "rng_seq_num (rs_rng (on_frame i f s)) = rng_seq_num (rs_rng s)"
  "rng_frame_shr_duration (rs_rng (on_frame i f s)) = rng_frame_shr_duration (rs_rng s)"
  by (simp_all add: RNG_STATS_INC_def sem_release_def on_frame_def)

lemma slot_step [frame]:
  "cur_slot (rs_rng (on_frame i f s)) = cur_slot (rs_rng s)"
  "next_slot (rs_rng (on_frame i f s)) = next_slot (rs_rng s)"
  "cur_slot (rs_rng (RNG_STATS_INC x s)) = cur_slot (rs_rng s)"
  "next_slot (rs_rng (RNG_STATS_INC x s)) = next_slot (rs_rng s)"
  by (simp_all add: cur_slot_def next_slot_def frame)

section \<open>Interface: the callbacks a service calls\<close>

text \<open>
  The completion and the final callbacks of the device's interfaces keep the state
  well-formed, the semaphore and the ring as they are.
\<close>

locale rng_callbacks =
  fixes cbs :: "rng_state uwb_mac_interface list"
  assumes complete_ok: "\<And>c cb s. c \<in> set cbs \<Longrightarrow> mac_complete_cb c = Some cb \<Longrightarrow> rng_ok s \<Longrightarrow>
      rng_ok (snd (cb s)) \<and> rng_sem (rs_rng (snd (cb s))) = rng_sem (rs_rng s) \<and> same_ring s (snd (cb s))"
    and final_ok: "\<And>c cb s. c \<in> set cbs \<Longrightarrow> mac_final_cb c = Some cb \<Longrightarrow> rng_ok s \<Longrightarrow>
      rng_ok (snd (cb s)) \<and> rng_sem (rs_rng (snd (cb s))) = rng_sem (rs_rng s) \<and> same_ring s (snd (cb s))"
begin

lemma issue_complete:
  assumes "rng_ok s"
  shows "rng_ok (rng_issue_complete cbs s) \<and>
    rng_sem (rs_rng (rng_issue_complete cbs s)) = rng_sem (rs_rng s) \<and> same_ring s (rng_issue_complete cbs s)"
  unfolding rng_issue_complete_def
proof (rule run_all_inv)
  fix c cb t
  assume "c \<in> set cbs" "mac_complete_cb c = Some cb"
    and "rng_ok t \<and> rng_sem (rs_rng t) = rng_sem (rs_rng s) \<and> same_ring s t"
  then show "rng_ok (snd (cb t)) \<and> rng_sem (rs_rng (snd (cb t))) = rng_sem (rs_rng s) \<and> same_ring s (snd (cb t))"
    using complete_ok[of c cb t] by (auto intro: same_ring_trans)
qed (use assms in simp)

lemma run_final:
  assumes "rng_ok s"
  shows "rng_ok (run_until mac_final_cb cbs s) \<and>
    rng_sem (rs_rng (run_until mac_final_cb cbs s)) = rng_sem (rs_rng s) \<and>
    same_ring s (run_until mac_final_cb cbs s)"
proof (rule run_until_inv)
  fix c cb t
  assume "c \<in> set cbs" "mac_final_cb c = Some cb"
    and "rng_ok t \<and> rng_sem (rs_rng t) = rng_sem (rs_rng s) \<and> same_ring s t"
  then show "rng_ok (snd (cb t)) \<and> rng_sem (rs_rng (snd (cb t))) = rng_sem (rs_rng s) \<and> same_ring s (snd (cb t))"
    using final_ok[of c cb t] by (auto intro: same_ring_trans)
qed (use assms in simp)

lemma finish_exchange:
  assumes "rng_ok s" and "rng_sem (rs_rng s) = 0"
  shows "rng_ok (finish_exchange cbs ok s) \<and> rng_sem (rs_rng (finish_exchange cbs ok s)) = 1
    \<and> same_ring s (finish_exchange cbs ok s)"
proof -
  let ?t = "sem_release (TWR_STATS_INC ok s)"
  have "rng_ok ?t" and "same_ring s ?t" using assms by (simp_all add: rng_ok_sem_release)
  then show ?thesis
    using issue_complete[of ?t] same_ring_trans[of s ?t] assms(2) by (simp add: finish_exchange_def)
qed

lemma start_final_tx:
  assumes "rng_ok s" and "rng_sem (rs_rng s) = 0"
  shows "rng_ok (start_final_tx uf cbs err ok s) \<and> same_ring s (start_final_tx uf cbs err ok s)"
proof -
  let ?s = "on_dev (uwb_start_tx uf) s"
  let ?e = "sem_release (TWR_STATS_INC err ?s)"
  have "rng_ok ?e" using assms by (simp add: rng_ok_sem_release)
  then have "rng_ok (rng_issue_complete cbs ?e)" "same_ring ?e (rng_issue_complete cbs ?e)"
    using issue_complete by auto
  moreover have "same_ring s ?e" by simp
  ultimately show ?thesis
    using assms same_ring_trans[of s ?e]
    by (simp add: start_final_tx_def Let_def rng_ok_on_rng same_ring_on_rng)
qed

lemma run_final_ok:
  assumes "rng_ok s"
  shows "rng_ok (run_until mac_final_cb cbs s)"
    and "rng_sem (rs_rng (run_until mac_final_cb cbs s)) = rng_sem (rs_rng s)"
    and "same_ring s0 s \<Longrightarrow> same_ring s0 (run_until mac_final_cb cbs s)"
  using run_final[OF assms] by (auto intro: same_ring_trans)

lemma start_final_tx_ok:
  assumes "rng_ok s" and "rng_sem (rs_rng s) = 0"
  shows "rng_ok (start_final_tx uf cbs err ok s)"
    and "same_ring s0 s \<Longrightarrow> same_ring s0 (start_final_tx uf cbs err ok s)"
  using start_final_tx[OF assms] by (auto intro: same_ring_trans)

end

section \<open>Interface: a two-way ranging service\<close>

text \<open>
  What the dispatch of received frames and the ranging service rely on: a service
  does nothing with a frame whose frame control it does not handle, or while no
  exchange is in progress; it claims (returns true) only frames with one of its codes;
  and it keeps the state well-formed and the ring where it is.
\<close>

locale twr_service =
  fixes cb :: "rng_state callback"
    and accepts :: "u16 \<Rightarrow> bool"
    and codes :: "u16 set"
  assumes rejects: "\<not> accepts (dev_fctrl (rs_dev s)) \<Longrightarrow> cb s = (False, s)"
    and idle: "sem_count s = 1 \<Longrightarrow> cb s = (False, s)"
    and claims: "fst (cb s) \<Longrightarrow> dev_fctrl (rs_dev s) \<noteq> UWB_FCTRL_FRAME_TYPE_ACK \<Longrightarrow> rng_code (rs_rng s) \<in> codes"
    and keeps_ok: "rng_ok s \<Longrightarrow> rng_ok (snd (cb s))"
    and keeps_ring: "rng_ok s \<Longrightarrow> same_ring s (snd (cb s))"
begin

text \<open>A claimed frame means that an exchange was in progress.\<close>

lemma claims_busy: "rng_ok s \<Longrightarrow> fst (cb s) \<Longrightarrow> rng_sem (rs_rng s) = 0"
  using idle[of s] sem_free[of s] by (cases "sem_count s = 1") auto

text \<open>A handler never takes the semaphore: it is released at most once and never lost.\<close>

lemma sem_monotone: "rng_ok s \<Longrightarrow> rng_sem (rs_rng s) \<le> rng_sem (rs_rng (snd (cb s)))"
  using idle[of s] sem_free[of s] by (cases "sem_count s = 1") auto

end

end
