(* ===== verification/Twr_Ss_Ext.thy ===== *)
theory Twr_Ss_Ext
  imports Twr
begin

text \<open>
  Single-sided two-way ranging in extended mode: lib/twr_ss_ext/src/twr_ss_ext.c. As
  Twr_Ss, but the responder first lets the interfaces' final callbacks fill in the
  remote data, and the reply is \<open>TWR_EXT_FRAME_SIZE\<close> long.
\<close>

unbundle bit_operations_syntax

section \<open>The code\<close>

definition twr_ss_ext_respond ::
  "uwb_driver_funcs \<Rightarrow> (u64 \<Rightarrow> u64) option \<Rightarrow> uwb_rng_config \<Rightarrow> rng_state uwb_mac_interface list
     \<Rightarrow> rng_state \<Rightarrow> rng_state" where
  "twr_ss_ext_respond uf wcs g_config cbs s =
     (let inst = rs_dev s;
          i = cur_slot (rs_rng s);
          request_timestamp = dev_rxtimestamp inst;
          txd = uwb_rng_calc_rel_tx uf s g_config request_timestamp (dev_frame_len inst);
          s = on_frame i (set_reception_timestamp (stamp wcs request_timestamp)) s;
          s = on_frame i (set_transmission_timestamp (stamp wcs (response_timestamp txd))) s;
          s = on_frame i (\<lambda>fr. set_dst_address (fr_src_address fr) fr) s;
          s = on_frame i (set_src_address (dev_my_short_address inst)) s;
          s = on_frame i (set_code UWB_DATA_CODE_SS_TWR_EXT_T1) s;
          s = on_frame i (set_carrier_integrator (reply_carrier wcs inst)) s;
          s = run_until mac_final_cb cbs s;
          s = tx_frame uf i TWR_EXT_FRAME_SIZE s;
          s = on_dev (uwb_set_wait4resp uf True) s;
          s = on_dev (uwb_set_delay_start uf (response_tx_delay txd)) s;
          s = start_tx_or_release uf Ss_ext_tx_error s;
          s = listen_after_tx uf g_config sizeof_twr_frame_final_t s
      in on_dev (uwb_set_rxauto_disable uf True) s)"

definition twr_ss_ext_report ::
  "uwb_driver_funcs \<Rightarrow> (u64 \<Rightarrow> u64) option \<Rightarrow> uwb_rng_config \<Rightarrow> rng_state uwb_mac_interface list
     \<Rightarrow> rng_state \<Rightarrow> rng_state" where
  "twr_ss_ext_report uf wcs g_config cbs s =
     (let inst = rs_dev s;
          i = cur_slot (rs_rng s)
      in if dev_frame_len inst \<noteq> TWR_EXT_FRAME_SIZE then s
         else if st_lde_error (dev_status inst) then s
         else
           let resp_timestamp = dev_rxtimestamp inst;
               txd = uwb_rng_calc_rel_tx uf s g_config resp_timestamp (dev_frame_len inst);
               s = on_frame i (set_request_timestamp (tx_stamp uf wcs s)) s;
               s = on_frame i (set_response_timestamp (stamp wcs resp_timestamp)) s;
               s = on_frame i (\<lambda>fr. set_dst_address (fr_src_address fr) fr) s;
               s = on_frame i (set_src_address (dev_my_short_address inst)) s;
               s = on_frame i (set_code UWB_DATA_CODE_SS_TWR_EXT_FINAL) s;
               s = on_frame i (set_carrier_integrator (dev_carrier_integrator inst)) s;
               s = tx_frame uf i sizeof_twr_frame_final_t s;
               s = on_dev (uwb_set_delay_start uf (response_tx_delay txd)) s
           in start_final_tx uf cbs Ss_ext_tx_error Ss_ext_complete s)"

definition twr_ss_ext_rx_complete_cb ::
  "uwb_driver_funcs \<Rightarrow> (u64 \<Rightarrow> u64) option \<Rightarrow> uwb_rng_config \<Rightarrow> rng_state uwb_mac_interface list
     \<Rightarrow> rng_state callback" where
  "twr_ss_ext_rx_complete_cb uf wcs g_config cbs s =
     (if dev_fctrl (rs_dev s) \<noteq> FCNTL_IEEE_RANGE_16 then (False, s)
      else if sem_count s = 1 then (False, s)
      else if rng_code (rs_rng s) = UWB_DATA_CODE_SS_TWR_EXT then
        (True, twr_ss_ext_respond uf wcs g_config cbs s)
      else if rng_code (rs_rng s) = UWB_DATA_CODE_SS_TWR_EXT_T1 then
        (True, twr_ss_ext_report uf wcs g_config cbs s)
      else if rng_code (rs_rng s) = UWB_DATA_CODE_SS_TWR_EXT_FINAL then
        (True, if dev_frame_len (rs_dev s) \<noteq> sizeof_twr_frame_final_t then s
               else finish_exchange cbs Ss_ext_complete s)
      else (False, s))"

definition twr_ss_ext_interface ::
  "uwb_driver_funcs \<Rightarrow> (u64 \<Rightarrow> u64) option \<Rightarrow> uwb_rng_config \<Rightarrow> rng_state uwb_mac_interface list
     \<Rightarrow> nat \<Rightarrow> rng_state uwb_mac_interface" where
  "twr_ss_ext_interface uf wcs g_config cbs ptr = \<lparr>
     mac_initialized = False, mac_id = 6, mac_inst_ptr = ptr,
     mac_tx_complete_cb = None,
     mac_rx_complete_cb = Some (twr_ss_ext_rx_complete_cb uf wcs g_config cbs),
     mac_rx_timeout_cb = None, mac_rx_error_cb = None, mac_tx_error_cb = None, mac_reset_cb = None,
     mac_final_cb = None, mac_complete_cb = None, mac_superframe_cb = None\<rparr>"

definition twr_ss_ext_rng_cfg :: "uwb_rng_config \<Rightarrow> rng_config_list" where
  "twr_ss_ext_rng_cfg g_config =
     \<lparr>cfgs_rng_code = UWB_DATA_CODE_SS_TWR_EXT, cfgs_name = ''twr_ss_ext'', cfgs_config = g_config\<rparr>"

section \<open>The service contract\<close>

context rng_callbacks
begin

lemma twr_ss_ext_respond_ok:
  assumes "rng_ok s" and "rng_sem (rs_rng s) = 0"
  shows "rng_ok (twr_ss_ext_respond uf wcs g_config cbs s) \<and>
    same_ring s (twr_ss_ext_respond uf wcs g_config cbs s)"
  unfolding twr_ss_ext_respond_def Let_def
  using assms by (simp add: rng_ok_start_tx_or_release run_final_ok rng_ok_on_frame)

lemma twr_ss_ext_report_ok:
  assumes "rng_ok s" and "rng_sem (rs_rng s) = 0"
  shows "rng_ok (twr_ss_ext_report uf wcs g_config cbs s) \<and>
    same_ring s (twr_ss_ext_report uf wcs g_config cbs s)"
  using assms unfolding twr_ss_ext_report_def Let_def
  by (simp add: rng_ok_on_frame start_final_tx_ok)

end

sublocale rng_callbacks \<subseteq> ss_ext: twr_service
  "twr_ss_ext_rx_complete_cb uf wcs g_config cbs" "\<lambda>f. f = FCNTL_IEEE_RANGE_16"
  "{UWB_DATA_CODE_SS_TWR_EXT, UWB_DATA_CODE_SS_TWR_EXT_T1, UWB_DATA_CODE_SS_TWR_EXT_FINAL}"
  for uf wcs g_config
proof
  fix s
  assume ok: "rng_ok s"
  note facts = twr_ss_ext_respond_ok[OF ok] twr_ss_ext_report_ok[OF ok] finish_exchange[OF ok] sem_free[OF ok]
  show "rng_ok (snd (twr_ss_ext_rx_complete_cb uf wcs g_config cbs s))"
    using ok facts by (auto simp: twr_ss_ext_rx_complete_cb_def)
  show "same_ring s (snd (twr_ss_ext_rx_complete_cb uf wcs g_config cbs s))"
    using facts by (auto simp: twr_ss_ext_rx_complete_cb_def)
qed (auto simp: twr_ss_ext_rx_complete_cb_def split: if_splits)

end
