(* ===== verification/Twr_Ss_Ack.thy ===== *)
theory Twr_Ss_Ack
  imports Twr
begin

text \<open>
  Single-sided two-way ranging on the hardware's automatic acknowledgement:
  lib/twr_ss_ack/src/twr_ss_ack.c. The acknowledgement's own times are the reply's;
  the responder prepares its frame when the request arrives, and sends it from
  \<open>tx_complete_cb\<close>, after the acknowledgement has gone out. \<open>holdoff\<close> is
  \<open>MYNEWT_VAL(TWR_SS_ACK_TX_HOLDOFF)\<close>.
\<close>

unbundle bit_operations_syntax

section \<open>The code\<close>

definition ack_rx_timeout :: "uwb_driver_funcs \<Rightarrow> uwb_rng_config \<Rightarrow> u32" where
  "ack_rx_timeout uf g_config =
     tx_holdoff_delay g_config
     + ucast (uwb_usecs_to_dwt_usecs (uwb_phy_frame_duration uf sizeof_ieee_rng_response_frame_t))
     + ucast (rx_timeout_delay g_config)"

text \<open>The acknowledgement of our request: \<open>rxbuf[2]\<close> is its sequence number.\<close>

definition twr_ss_ack_got_ack :: "uwb_driver_funcs \<Rightarrow> uwb_rng_config \<Rightarrow> rng_state callback" where
  "twr_ss_ack_got_ack uf g_config s =
     (if ucast (get_u8 (dev_rxbuf (rs_dev s)) 2) \<noteq> rng_seq_num (rs_rng s) AND 0xff
      then (False, sem_release (TWR_STATS_INC Ss_ack_ack_seq_err s))
      else
        let s = on_rng (\<lambda>r. r\<lparr>rng_ack_rx_timestamp := dev_rxtimestamp (rs_dev s)\<rparr>) s
        in (True, on_dev (uwb_set_rx_timeout uf (ack_rx_timeout uf g_config)) s))"

definition twr_ss_ack_prepare :: "(u64 \<Rightarrow> u64) option \<Rightarrow> rng_state \<Rightarrow> rng_state" where
  "twr_ss_ack_prepare wcs s =
     (let inst = rs_dev s;
          i = cur_slot (rs_rng s)
      in if \<not> st_autoack_triggered (dev_status inst)
         then sem_release (TWR_STATS_INC Ss_ack_ack_tx_err s)
         else
           let s = on_frame i (set_reception_timestamp (stamp wcs (dev_rxtimestamp inst))) s;
               s = on_frame i (set_fctrl FCNTL_IEEE_RANGE_16) s;
               s = on_frame i (\<lambda>fr. set_dst_address (fr_src_address fr) fr) s;
               s = on_frame i (set_src_address (dev_my_short_address inst)) s;
               s = on_frame i (set_code UWB_DATA_CODE_SS_TWR_ACK_T1) s;
               s = on_frame i (set_carrier_integrator (reply_carrier wcs inst)) s
           in on_rng (\<lambda>r. r\<lparr>rng_tx_ack_expected := True\<rparr>) s)"

definition twr_ss_ack_report ::
  "uwb_driver_funcs \<Rightarrow> (u64 \<Rightarrow> u64) option \<Rightarrow> rng_state uwb_mac_interface list \<Rightarrow> rng_state \<Rightarrow> rng_state" where
  "twr_ss_ack_report uf wcs cbs s =
     (let inst = rs_dev s;
          i = cur_slot (rs_rng s)
      in if dev_frame_len inst \<noteq> sizeof_ieee_rng_response_frame_t then s
         else if st_lde_error (dev_status inst) then s
         else
           let resp_timestamp = rng_ack_rx_timestamp (rs_rng s);
               s = on_frame i (set_request_timestamp (tx_stamp uf wcs s)) s;
               s = on_frame i (set_response_timestamp (stamp wcs resp_timestamp)) s
           in if rng_ack_rx_timestamp (rs_rng s) = 0 then TWR_STATS_INC Ss_ack_ack_rx_err s
              else
                let s = on_frame i (\<lambda>fr. set_dst_address (fr_src_address fr) fr) s;
                    s = on_frame i (set_src_address (dev_my_short_address inst)) s;
                    s = on_frame i (set_code UWB_DATA_CODE_SS_TWR_ACK_FINAL) s;
                    s = on_frame i (set_carrier_integrator (dev_carrier_integrator inst)) s;
                    s = tx_frame uf i sizeof_twr_frame_final_t s
                in start_final_tx uf cbs Ss_ack_tx_error Ss_ack_complete s)"

definition twr_ss_ack_rx_complete_cb ::
  "uwb_driver_funcs \<Rightarrow> (u64 \<Rightarrow> u64) option \<Rightarrow> uwb_rng_config \<Rightarrow> rng_state uwb_mac_interface list
     \<Rightarrow> rng_state callback" where
  "twr_ss_ack_rx_complete_cb uf wcs g_config cbs s =
     (let fctrl = dev_fctrl (rs_dev s) in
      if fctrl \<noteq> FCNTL_IEEE_RANGE_16 \<and> fctrl \<noteq> FCNTL_IEEE_RANGE_16 OR UWB_FCTRL_ACK_REQUESTED
         \<and> fctrl \<noteq> UWB_FCTRL_FRAME_TYPE_ACK
      then (False, s)
      else if sem_count s = 1 then (False, s)
      else if fctrl = UWB_FCTRL_FRAME_TYPE_ACK \<and> \<not> rng_rx_ack_expected (rs_rng s) then (False, s)
      else
        let s = on_rng (\<lambda>r. r\<lparr>rng_rx_ack_expected := False, rng_tx_ack_expected := False\<rparr>) s
        in if fctrl = UWB_FCTRL_FRAME_TYPE_ACK then twr_ss_ack_got_ack uf g_config s
           else if rng_code (rs_rng s) = UWB_DATA_CODE_SS_TWR_ACK then (True, twr_ss_ack_prepare wcs s)
           else if rng_code (rs_rng s) = UWB_DATA_CODE_SS_TWR_ACK_T1 then (True, twr_ss_ack_report uf wcs cbs s)
           else if rng_code (rs_rng s) = UWB_DATA_CODE_SS_TWR_ACK_FINAL then
             (True, if dev_frame_len (rs_dev s) \<noteq> sizeof_twr_frame_final_t then s
                    else finish_exchange cbs Ss_ack_complete s)
           else (False, s))"

definition twr_ss_ack_tx_complete_cb ::
  "uwb_driver_funcs \<Rightarrow> (u64 \<Rightarrow> u64) option \<Rightarrow> uwb_rng_config \<Rightarrow> u64 \<Rightarrow> rng_state callback" where
  "twr_ss_ack_tx_complete_cb uf wcs g_config holdoff s =
     (if sem_count s = 1 then (False, s)
      else if \<not> rng_tx_ack_expected (rs_rng s) then (False, s)
      else
        let s = on_rng (\<lambda>r. r\<lparr>rng_tx_ack_expected := False\<rparr>) s;
            i = cur_slot (rs_rng s)
        in if rng_code (rs_rng s) = UWB_DATA_CODE_SS_TWR_ACK then
             let ack_txtime = uwb_read_txtime uf (rs_dev s);
                 current_timestamp = uwb_read_systime uf (rs_dev s);
                 s = on_frame i (set_transmission_timestamp (stamp wcs ack_txtime)) s;
                 s = tx_frame uf i sizeof_ieee_rng_response_frame_t s;
                 s = on_dev (uwb_set_wait4resp uf True) s;
                 s = on_dev (uwb_set_wait4resp_delay uf 0) s;
                 s = on_dev (uwb_set_rx_timeout uf (ack_rx_timeout uf g_config)) s;
                 s = on_dev (uwb_set_rxauto_disable uf True) s;
                 s = (if drop_bit 16 (0xffffffffff AND (current_timestamp - ack_txtime)) < holdoff div 4
                      then on_dev (uwb_set_delay_start uf (current_timestamp + push_bit 16 (holdoff * 3 div 4))) s
                      else s)
             in (True, start_tx_or_release uf Ss_ack_tx_error s)
           else (True, s))"

definition twr_ss_ack_interface ::
  "uwb_driver_funcs \<Rightarrow> (u64 \<Rightarrow> u64) option \<Rightarrow> uwb_rng_config \<Rightarrow> u64 \<Rightarrow> rng_state uwb_mac_interface list
     \<Rightarrow> nat \<Rightarrow> rng_state uwb_mac_interface" where
  "twr_ss_ack_interface uf wcs g_config holdoff cbs ptr = \<lparr>
     mac_initialized = False, mac_id = 7, mac_inst_ptr = ptr,
     mac_tx_complete_cb = Some (twr_ss_ack_tx_complete_cb uf wcs g_config holdoff),
     mac_rx_complete_cb = Some (twr_ss_ack_rx_complete_cb uf wcs g_config cbs),
     mac_rx_timeout_cb = None, mac_rx_error_cb = None, mac_tx_error_cb = None, mac_reset_cb = None,
     mac_final_cb = None, mac_complete_cb = None, mac_superframe_cb = None\<rparr>"

definition twr_ss_ack_rng_cfg :: "uwb_rng_config \<Rightarrow> rng_config_list" where
  "twr_ss_ack_rng_cfg g_config =
     \<lparr>cfgs_rng_code = UWB_DATA_CODE_SS_TWR_ACK, cfgs_name = ''twr_ss_ack'', cfgs_config = g_config\<rparr>"

section \<open>The service contract\<close>

lemma sem_on_rng:
  "(\<And>r. rng_sem (f r) = rng_sem r) \<Longrightarrow> rng_sem (rs_rng (on_rng f s)) = rng_sem (rs_rng s)"
  by (simp add: on_rng_def)

lemma twr_ss_ack_got_ack_ok:
  assumes "rng_ok s" and "rng_sem (rs_rng s) = 0"
  shows "rng_ok (snd (twr_ss_ack_got_ack uf g_config s)) \<and>
    (same_ring s0 s \<longrightarrow> same_ring s0 (snd (twr_ss_ack_got_ack uf g_config s)))"
  using assms unfolding twr_ss_ack_got_ack_def Let_def
  by (simp add: rng_ok_sem_release rng_ok_on_rng same_ring_on_rng)

lemma twr_ss_ack_prepare_ok:
  assumes "rng_ok s" and "rng_sem (rs_rng s) = 0"
  shows "rng_ok (twr_ss_ack_prepare wcs s) \<and> (same_ring s0 s \<longrightarrow> same_ring s0 (twr_ss_ack_prepare wcs s))"
  using assms unfolding twr_ss_ack_prepare_def Let_def
  by (simp add: rng_ok_sem_release rng_ok_on_rng same_ring_on_rng rng_ok_on_frame)

lemma twr_ss_ack_tx_complete_ok:
  assumes "rng_ok s"
  shows "rng_ok (snd (twr_ss_ack_tx_complete_cb uf wcs g_config holdoff s)) \<and>
    same_ring s (snd (twr_ss_ack_tx_complete_cb uf wcs g_config holdoff s))"
  using assms sem_free[OF assms] unfolding twr_ss_ack_tx_complete_cb_def Let_def
  by (simp add: rng_ok_on_rng same_ring_on_rng rng_ok_on_frame rng_ok_start_tx_or_release sem_on_rng)

context rng_callbacks
begin

lemma twr_ss_ack_report_ok:
  assumes "rng_ok s" and "rng_sem (rs_rng s) = 0"
  shows "rng_ok (twr_ss_ack_report uf wcs cbs s) \<and>
    (same_ring s0 s \<longrightarrow> same_ring s0 (twr_ss_ack_report uf wcs cbs s))"
  using assms unfolding twr_ss_ack_report_def Let_def
  by (simp add: rng_ok_on_frame start_final_tx_ok)

lemma finish_exchange_from:
  assumes "rng_ok s" and "rng_sem (rs_rng s) = 0"
  shows "rng_ok (finish_exchange cbs ok s) \<and> (same_ring s0 s \<longrightarrow> same_ring s0 (finish_exchange cbs ok s))"
  using finish_exchange[OF assms] by (auto intro: same_ring_trans)

end

sublocale rng_callbacks \<subseteq> ss_ack: twr_service
  "twr_ss_ack_rx_complete_cb uf wcs g_config cbs"
  "\<lambda>f. f = FCNTL_IEEE_RANGE_16 \<or> f = FCNTL_IEEE_RANGE_16 OR UWB_FCTRL_ACK_REQUESTED
     \<or> f = UWB_FCTRL_FRAME_TYPE_ACK"
  "{UWB_DATA_CODE_SS_TWR_ACK, UWB_DATA_CODE_SS_TWR_ACK_T1, UWB_DATA_CODE_SS_TWR_ACK_FINAL}"
  for uf wcs g_config
proof
  fix s
  assume ok: "rng_ok s"
  let ?s = "on_rng (\<lambda>r. r\<lparr>rng_rx_ack_expected := False, rng_tx_ack_expected := False\<rparr>) s"
  have s: "rng_ok ?s" "same_ring s ?s" "rng_sem (rs_rng ?s) = rng_sem (rs_rng s)"
    using ok by (simp_all add: rng_ok_on_rng same_ring_on_rng sem_on_rng)
  note facts = twr_ss_ack_got_ack_ok[OF s(1)] twr_ss_ack_prepare_ok[OF s(1)] twr_ss_ack_report_ok[OF s(1)]
    finish_exchange_from[OF s(1)] sem_free[OF ok]
  show "rng_ok (snd (twr_ss_ack_rx_complete_cb uf wcs g_config cbs s))"
    using ok s facts by (simp add: twr_ss_ack_rx_complete_cb_def Let_def)
  show "same_ring s (snd (twr_ss_ack_rx_complete_cb uf wcs g_config cbs s))"
    using ok s facts by (simp add: twr_ss_ack_rx_complete_cb_def Let_def)
next
  fix s
  assume "fst (twr_ss_ack_rx_complete_cb uf wcs g_config cbs s)"
    and "dev_fctrl (rs_dev s) \<noteq> UWB_FCTRL_FRAME_TYPE_ACK"
  then show "rng_code (rs_rng s) \<in>
      {UWB_DATA_CODE_SS_TWR_ACK, UWB_DATA_CODE_SS_TWR_ACK_T1, UWB_DATA_CODE_SS_TWR_ACK_FINAL}"
    by (auto simp: twr_ss_ack_rx_complete_cb_def Let_def on_rng_def split: if_splits)
qed (simp_all add: twr_ss_ack_rx_complete_cb_def Let_def)

end
