(* ===== verification/Twr_Ds.thy ===== *)
theory Twr_Ds
  imports Twr
begin

text \<open>
  Double-sided two-way ranging: lib/twr_ds/src/twr_ds.c. After the first round the
  initiator opens a second one in the next slot of the ring; the responder, which
  ends the second round, returns the timestamps of both.
\<close>

unbundle bit_operations_syntax

section \<open>The code\<close>

definition twr_ds_respond ::
  "uwb_driver_funcs \<Rightarrow> (u64 \<Rightarrow> u64) option \<Rightarrow> uwb_rng_config \<Rightarrow> rng_state \<Rightarrow> rng_state" where
  "twr_ds_respond uf wcs g_config s =
     (let inst = rs_dev s;
          i = cur_slot (rs_rng s)
      in if dev_frame_len inst \<noteq> sizeof_ieee_rng_request_frame_t then s
         else
           let request_timestamp = dev_rxtimestamp inst;
               txd = uwb_rng_calc_rel_tx uf s g_config request_timestamp (dev_frame_len inst);
               s = on_frame i (set_reception_timestamp (ucast (request_timestamp AND 0xFFFFFFFF))) s;
               s = on_frame i (set_transmission_timestamp (ucast (response_timestamp txd AND 0xFFFFFFFF))) s;
               s = on_frame i (\<lambda>fr. set_dst_address (fr_src_address fr) fr) s;
               s = on_frame i (set_src_address (dev_my_short_address inst)) s;
               s = on_frame i (set_carrier_integrator (reply_carrier wcs inst)) s;
               s = on_frame i (set_code UWB_DATA_CODE_DS_TWR_T1) s;
               s = tx_frame uf i sizeof_ieee_rng_response_frame_t s;
               s = on_dev (uwb_set_wait4resp uf True) s;
               s = on_dev (uwb_set_delay_start uf (response_tx_delay txd)) s;
               s = on_dev (uwb_set_rxauto_disable uf True) s;
               s = start_tx_or_release uf Ds_start_tx_error s
           in listen_after_tx uf g_config sizeof_ieee_rng_response_frame_t s)"

text \<open>
  The first round's timestamps go into the received frame (slot \<open>i\<close>) and into the
  frame of the second round (slot \<open>j\<close>), which is then addressed.
\<close>

definition twr_ds_open_second ::
  "uwb_driver_funcs \<Rightarrow> (u64 \<Rightarrow> u64) option \<Rightarrow> u16 \<Rightarrow> rng_state \<Rightarrow> rng_state" where
  "twr_ds_open_second uf wcs next_code s =
     (let inst = rs_dev s;
          i = cur_slot (rs_rng s);
          j = next_slot (rs_rng s);
          request_timestamp = dev_rxtimestamp inst;
          txtime = uwb_read_txtime_lo32 uf inst;
          s = on_frame j (set_request_timestamp txtime) s;
          s = on_frame i (set_request_timestamp txtime) s;
          s = on_frame j (set_response_timestamp (ucast (request_timestamp AND 0xFFFFFFFF))) s;
          s = on_frame i (set_response_timestamp (ucast (request_timestamp AND 0xFFFFFFFF))) s;
          src_address = fr_src_address (frame_at i s);
          seq_num = fr_seq_num (frame_at i s);
          s = on_frame i (set_carrier_integrator (case wcs of Some _ \<Rightarrow> 0 | None \<Rightarrow> dev_carrier_integrator inst)) s;
          s = on_frame j (set_dst_address src_address) s;
          s = on_frame j (set_src_address (dev_my_short_address inst)) s;
          s = on_frame j (set_seq_num (seq_num + 1)) s
      in on_frame j (set_code next_code) s)"

definition twr_ds_second_round ::
  "uwb_driver_funcs \<Rightarrow> (u64 \<Rightarrow> u64) option \<Rightarrow> uwb_rng_config \<Rightarrow> rng_state \<Rightarrow> rng_state" where
  "twr_ds_second_round uf wcs g_config s =
     (let inst = rs_dev s;
          j = next_slot (rs_rng s)
      in if st_lde_error (dev_status inst) then s
         else if dev_frame_len inst \<noteq> sizeof_ieee_rng_response_frame_t then s
         else
           let s = twr_ds_open_second uf wcs UWB_DATA_CODE_DS_TWR_T2 s
           in if st_lde_error (dev_status (rs_dev s)) then s
              else
                let request_timestamp = dev_rxtimestamp inst;
                    txd = uwb_rng_calc_rel_tx uf s g_config request_timestamp (dev_frame_len inst);
                    s = on_frame j (set_reception_timestamp (ucast (request_timestamp AND 0xFFFFFFFF))) s;
                    s = on_frame j (set_transmission_timestamp (ucast (response_timestamp txd AND 0xFFFFFFFF))) s;
                    s = tx_frame uf j sizeof_twr_frame_final_t s;
                    s = on_dev (uwb_set_wait4resp uf True) s;
                    s = on_dev (uwb_set_delay_start uf (response_tx_delay txd)) s;
                    s = on_dev (uwb_set_rxauto_disable uf True) s;
                    s = start_tx_or_release uf Ds_start_tx_error s
                in listen_after_tx uf g_config sizeof_twr_frame_final_t s)"

text \<open>The responder's end of the second round: first-round values go to the slot before.\<close>

definition twr_ds_close_second ::
  "uwb_driver_funcs \<Rightarrow> (u64 \<Rightarrow> u64) option \<Rightarrow> u16 \<Rightarrow> rng_state \<Rightarrow> rng_state" where
  "twr_ds_close_second uf wcs final_code s =
     (let inst = rs_dev s;
          i = cur_slot (rs_rng s);
          p = prev_slot (rs_rng s);
          s = on_frame p (set_request_timestamp (fr_request_timestamp (frame_at i s))) s;
          s = on_frame p (set_response_timestamp (fr_response_timestamp (frame_at i s))) s;
          request_timestamp = dev_rxtimestamp inst;
          s = on_frame i (set_request_timestamp (uwb_read_txtime_lo32 uf inst)) s;
          s = on_frame i (set_response_timestamp (ucast (request_timestamp AND 0xFFFFFFFF))) s;
          s = on_frame i (\<lambda>fr. set_dst_address (fr_src_address fr) fr) s;
          s = on_frame i (set_src_address (dev_my_short_address inst)) s;
          s = on_frame i (set_carrier_integrator (reply_carrier wcs inst)) s
      in on_frame i (set_code final_code) s)"

definition twr_ds_report ::
  "uwb_driver_funcs \<Rightarrow> (u64 \<Rightarrow> u64) option \<Rightarrow> uwb_rng_config \<Rightarrow> rng_state uwb_mac_interface list
     \<Rightarrow> rng_state \<Rightarrow> rng_state" where
  "twr_ds_report uf wcs g_config cbs s =
     (let inst = rs_dev s;
          i = cur_slot (rs_rng s)
      in if st_lde_error (dev_status inst) then s
         else if dev_frame_len inst \<noteq> sizeof_twr_frame_final_t then s
         else
           let s = twr_ds_close_second uf wcs UWB_DATA_CODE_DS_TWR_FINAL s;
               s = tx_frame uf i sizeof_twr_frame_final_t s;
               txd = uwb_rng_calc_rel_tx uf s g_config (dev_rxtimestamp (rs_dev s)) (dev_frame_len (rs_dev s));
               s = on_dev (uwb_set_delay_start uf (response_tx_delay txd)) s
           in start_final_tx uf cbs Ds_start_tx_error Ds_complete s)"

definition twr_ds_rx_complete_cb ::
  "uwb_driver_funcs \<Rightarrow> (u64 \<Rightarrow> u64) option \<Rightarrow> uwb_rng_config \<Rightarrow> rng_state uwb_mac_interface list
     \<Rightarrow> rng_state callback" where
  "twr_ds_rx_complete_cb uf wcs g_config cbs s =
     (if dev_fctrl (rs_dev s) \<noteq> FCNTL_IEEE_RANGE_16 then (False, s)
      else if sem_count s = 1 then (False, s)
      else if rng_code (rs_rng s) = UWB_DATA_CODE_DS_TWR then (True, twr_ds_respond uf wcs g_config s)
      else if rng_code (rs_rng s) = UWB_DATA_CODE_DS_TWR_T1 then (True, twr_ds_second_round uf wcs g_config s)
      else if rng_code (rs_rng s) = UWB_DATA_CODE_DS_TWR_T2 then (True, twr_ds_report uf wcs g_config cbs s)
      else if rng_code (rs_rng s) = UWB_DATA_CODE_DS_TWR_FINAL then (True, finish_exchange cbs Ds_complete s)
      else (False, s))"

definition twr_ds_interface ::
  "uwb_driver_funcs \<Rightarrow> (u64 \<Rightarrow> u64) option \<Rightarrow> uwb_rng_config \<Rightarrow> rng_state uwb_mac_interface list
     \<Rightarrow> nat \<Rightarrow> rng_state uwb_mac_interface" where
  "twr_ds_interface uf wcs g_config cbs ptr = \<lparr>
     mac_initialized = False, mac_id = 8, mac_inst_ptr = ptr,
     mac_tx_complete_cb = None,
     mac_rx_complete_cb = Some (twr_ds_rx_complete_cb uf wcs g_config cbs),
     mac_rx_timeout_cb = None, mac_rx_error_cb = None, mac_tx_error_cb = None, mac_reset_cb = None,
     mac_final_cb = None, mac_complete_cb = None, mac_superframe_cb = None\<rparr>"

definition twr_ds_rng_cfg :: "uwb_rng_config \<Rightarrow> rng_config_list" where
  "twr_ds_rng_cfg g_config =
     \<lparr>cfgs_rng_code = UWB_DATA_CODE_DS_TWR, cfgs_name = ''twr_ds'', cfgs_config = g_config\<rparr>"

section \<open>The service contract\<close>

lemma open_second_ok:
  assumes "rng_ok s"
  shows "rng_ok (twr_ds_open_second uf wcs c s)"
    and "rng_sem (rs_rng (twr_ds_open_second uf wcs c s)) = rng_sem (rs_rng s)"
    and "same_ring s0 (twr_ds_open_second uf wcs c s) = same_ring s0 s"
  using assms by (simp_all add: twr_ds_open_second_def Let_def rng_ok_on_frame)

lemma close_second_ok:
  assumes "rng_ok s"
  shows "rng_ok (twr_ds_close_second uf wcs c s)"
    and "rng_sem (rs_rng (twr_ds_close_second uf wcs c s)) = rng_sem (rs_rng s)"
    and "same_ring s0 (twr_ds_close_second uf wcs c s) = same_ring s0 s"
  using assms by (simp_all add: twr_ds_close_second_def Let_def rng_ok_on_frame)

lemma twr_ds_respond_ok:
  assumes "rng_ok s" and "rng_sem (rs_rng s) = 0"
  shows "rng_ok (twr_ds_respond uf wcs g_config s) \<and> same_ring s (twr_ds_respond uf wcs g_config s)"
  using assms unfolding twr_ds_respond_def Let_def
  by (simp add: rng_ok_start_tx_or_release rng_ok_on_frame)

lemma twr_ds_second_round_ok:
  assumes "rng_ok s" and "rng_sem (rs_rng s) = 0"
  shows "rng_ok (twr_ds_second_round uf wcs g_config s) \<and> same_ring s (twr_ds_second_round uf wcs g_config s)"
  using assms unfolding twr_ds_second_round_def Let_def
  by (simp add: rng_ok_start_tx_or_release rng_ok_on_frame open_second_ok)

context rng_callbacks
begin

lemma twr_ds_report_ok:
  assumes "rng_ok s" and "rng_sem (rs_rng s) = 0"
  shows "rng_ok (twr_ds_report uf wcs g_config cbs s) \<and> same_ring s (twr_ds_report uf wcs g_config cbs s)"
  using assms unfolding twr_ds_report_def Let_def
  by (simp add: rng_ok_on_frame start_final_tx_ok close_second_ok)

end

sublocale rng_callbacks \<subseteq> ds: twr_service
  "twr_ds_rx_complete_cb uf wcs g_config cbs" "\<lambda>f. f = FCNTL_IEEE_RANGE_16"
  "{UWB_DATA_CODE_DS_TWR, UWB_DATA_CODE_DS_TWR_T1, UWB_DATA_CODE_DS_TWR_T2, UWB_DATA_CODE_DS_TWR_FINAL}"
  for uf wcs g_config
proof
  fix s
  assume ok: "rng_ok s"
  note facts = twr_ds_respond_ok[OF ok] twr_ds_second_round_ok[OF ok] twr_ds_report_ok[OF ok]
    finish_exchange[OF ok] sem_free[OF ok]
  show "rng_ok (snd (twr_ds_rx_complete_cb uf wcs g_config cbs s))"
    using ok facts by (auto simp: twr_ds_rx_complete_cb_def)
  show "same_ring s (snd (twr_ds_rx_complete_cb uf wcs g_config cbs s))"
    using facts by (auto simp: twr_ds_rx_complete_cb_def)
qed (auto simp: twr_ds_rx_complete_cb_def split: if_splits)

end
