(* ===== verification/Twr_Ds_Ext.thy ===== *)
theory Twr_Ds_Ext
  imports Twr_Ds
begin

text \<open>
  Double-sided two-way ranging in extended mode: lib/twr_ds_ext/src/twr_ds_ext.c. The
  two rounds are those of Twr_Ds; the frames of the second round are sent after the
  interfaces' final callbacks, and the responder keeps what it sent as local data.
\<close>

unbundle bit_operations_syntax

section \<open>The code\<close>

definition twr_ds_ext_respond ::
  "uwb_driver_funcs \<Rightarrow> (u64 \<Rightarrow> u64) option \<Rightarrow> uwb_rng_config \<Rightarrow> rng_state \<Rightarrow> rng_state" where
  "twr_ds_ext_respond uf wcs g_config s =
     (let inst = rs_dev s;
          i = cur_slot (rs_rng s);
          request_timestamp = dev_rxtimestamp inst;
          txd = uwb_rng_calc_rel_tx uf s g_config request_timestamp (dev_frame_len inst);
          s = on_frame i (set_reception_timestamp (ucast (request_timestamp AND 0xFFFFFFFF))) s;
          s = on_frame i (set_transmission_timestamp (ucast (response_timestamp txd AND 0xFFFFFFFF))) s;
          s = on_frame i (\<lambda>fr. set_dst_address (fr_src_address fr) fr) s;
          s = on_frame i (set_src_address (dev_my_short_address inst)) s;
          s = on_frame i (set_carrier_integrator (reply_carrier wcs inst)) s;
          s = on_frame i (set_code UWB_DATA_CODE_DS_TWR_EXT_T1) s;
          s = tx_frame uf i sizeof_ieee_rng_response_frame_t s;
          s = on_dev (uwb_set_wait4resp uf True) s;
          s = on_dev (uwb_set_delay_start uf (response_tx_delay txd)) s;
          s = on_dev (uwb_set_rxauto_disable uf True) s;
          s = start_tx_or_release uf Ds_ext_tx_error s
      in listen_after_tx uf g_config TWR_EXT_FRAME_SIZE s)"

definition twr_ds_ext_second_round ::
  "uwb_driver_funcs \<Rightarrow> (u64 \<Rightarrow> u64) option \<Rightarrow> uwb_rng_config \<Rightarrow> rng_state uwb_mac_interface list
     \<Rightarrow> rng_state \<Rightarrow> rng_state" where
  "twr_ds_ext_second_round uf wcs g_config cbs s =
     (let inst = rs_dev s;
          j = next_slot (rs_rng s)
      in if dev_frame_len inst \<noteq> sizeof_ieee_rng_response_frame_t then s
         else
           let s = twr_ds_open_second uf wcs UWB_DATA_CODE_DS_TWR_EXT_T2 s
           in if st_lde_error (dev_status (rs_dev s)) then s
              else
                let request_timestamp = dev_rxtimestamp inst;
                    txd = uwb_rng_calc_rel_tx uf s g_config request_timestamp (dev_frame_len inst);
                    s = on_frame j (set_reception_timestamp (ucast (request_timestamp AND 0xFFFFFFFF))) s;
                    s = on_frame j (set_transmission_timestamp (ucast (response_timestamp txd AND 0xFFFFFFFF))) s;
                    s = run_until mac_final_cb cbs s;
                    s = tx_frame uf j TWR_EXT_FRAME_SIZE s;
                    s = on_dev (uwb_set_wait4resp uf True) s;
                    s = on_dev (uwb_set_delay_start uf (response_tx_delay txd)) s;
                    s = on_dev (uwb_set_rxauto_disable uf True) s;
                    s = start_tx_or_release uf Ds_ext_tx_error s
                in listen_after_tx uf g_config TWR_EXT_FRAME_SIZE s)"

definition keep_remote_as_local :: "rng_floats \<Rightarrow> twr_frame_t \<Rightarrow> twr_frame_t" where
  "keep_remote_as_local fl fr =
     (let fr = fr\<lparr>twr_local := write_at (twr_local fr) 0 (read_at (twr_array fr) 32 sizeof_twr_data_t)\<rparr>
      in set_remote (uwb_rng_clear_twr_data fl) fr)"

definition twr_ds_ext_report ::
  "rng_floats \<Rightarrow> uwb_driver_funcs \<Rightarrow> (u64 \<Rightarrow> u64) option \<Rightarrow> uwb_rng_config
     \<Rightarrow> rng_state uwb_mac_interface list \<Rightarrow> rng_state \<Rightarrow> rng_state" where
  "twr_ds_ext_report fl uf wcs g_config cbs s =
     (let i = cur_slot (rs_rng s);
          s = twr_ds_close_second uf wcs UWB_DATA_CODE_DS_TWR_EXT_FINAL s;
          s = run_until mac_final_cb cbs s;
          s = tx_frame uf i TWR_EXT_FRAME_SIZE s;
          txd = uwb_rng_calc_rel_tx uf s g_config (dev_rxtimestamp (rs_dev s)) (dev_frame_len (rs_dev s));
          s = on_dev (uwb_set_delay_start uf (response_tx_delay txd)) s;
          s = on_frame i (keep_remote_as_local fl) s
      in start_final_tx uf cbs Ds_ext_tx_error Ds_ext_complete s)"

definition twr_ds_ext_rx_complete_cb ::
  "rng_floats \<Rightarrow> uwb_driver_funcs \<Rightarrow> (u64 \<Rightarrow> u64) option \<Rightarrow> uwb_rng_config
     \<Rightarrow> rng_state uwb_mac_interface list \<Rightarrow> rng_state callback" where
  "twr_ds_ext_rx_complete_cb fl uf wcs g_config cbs s =
     (if dev_fctrl (rs_dev s) \<noteq> FCNTL_IEEE_RANGE_16 then (False, s)
      else if sem_count s = 1 then (False, s)
      else if rng_code (rs_rng s) = UWB_DATA_CODE_DS_TWR_EXT then
        (True, twr_ds_ext_respond uf wcs g_config s)
      else if rng_code (rs_rng s) = UWB_DATA_CODE_DS_TWR_EXT_T1 then
        (True, twr_ds_ext_second_round uf wcs g_config cbs s)
      else if rng_code (rs_rng s) = UWB_DATA_CODE_DS_TWR_EXT_T2 then
        (True, twr_ds_ext_report fl uf wcs g_config cbs s)
      else if rng_code (rs_rng s) = UWB_DATA_CODE_DS_TWR_EXT_FINAL then
        (True, finish_exchange cbs Ds_ext_complete s)
      else (False, s))"

definition twr_ds_ext_interface ::
  "rng_floats \<Rightarrow> uwb_driver_funcs \<Rightarrow> (u64 \<Rightarrow> u64) option \<Rightarrow> uwb_rng_config
     \<Rightarrow> rng_state uwb_mac_interface list \<Rightarrow> nat \<Rightarrow> rng_state uwb_mac_interface" where
  "twr_ds_ext_interface fl uf wcs g_config cbs ptr = \<lparr>
     mac_initialized = False, mac_id = 9, mac_inst_ptr = ptr,
     mac_tx_complete_cb = None,
     mac_rx_complete_cb = Some (twr_ds_ext_rx_complete_cb fl uf wcs g_config cbs),
     mac_rx_timeout_cb = None, mac_rx_error_cb = None, mac_tx_error_cb = None, mac_reset_cb = None,
     mac_final_cb = None, mac_complete_cb = None, mac_superframe_cb = None\<rparr>"

definition twr_ds_ext_rng_cfg :: "uwb_rng_config \<Rightarrow> rng_config_list" where
  "twr_ds_ext_rng_cfg g_config =
     \<lparr>cfgs_rng_code = UWB_DATA_CODE_DS_TWR_EXT, cfgs_name = ''twr_ds_ext'', cfgs_config = g_config\<rparr>"

section \<open>The service contract\<close>

lemma frame_ok_keep_remote [simp]: "frame_ok (keep_remote_as_local fl fr) = frame_ok fr"
  by (simp add: keep_remote_as_local_def Let_def frame_ok_def set_remote_def)

lemma twr_ds_ext_respond_ok:
  assumes "rng_ok s" and "rng_sem (rs_rng s) = 0"
  shows "rng_ok (twr_ds_ext_respond uf wcs g_config s) \<and> same_ring s (twr_ds_ext_respond uf wcs g_config s)"
  using assms unfolding twr_ds_ext_respond_def Let_def
  by (simp add: rng_ok_start_tx_or_release rng_ok_on_frame)

context rng_callbacks
begin

lemma twr_ds_ext_second_round_ok:
  assumes "rng_ok s" and "rng_sem (rs_rng s) = 0"
  shows "rng_ok (twr_ds_ext_second_round uf wcs g_config cbs s) \<and>
    same_ring s (twr_ds_ext_second_round uf wcs g_config cbs s)"
  using assms unfolding twr_ds_ext_second_round_def Let_def
  by (simp add: rng_ok_start_tx_or_release rng_ok_on_frame open_second_ok run_final_ok)

lemma twr_ds_ext_report_ok:
  assumes "rng_ok s" and "rng_sem (rs_rng s) = 0"
  shows "rng_ok (twr_ds_ext_report fl uf wcs g_config cbs s) \<and>
    same_ring s (twr_ds_ext_report fl uf wcs g_config cbs s)"
  using assms unfolding twr_ds_ext_report_def Let_def
  by (simp add: rng_ok_on_frame start_final_tx_ok close_second_ok run_final_ok)

end

sublocale rng_callbacks \<subseteq> ds_ext: twr_service
  "twr_ds_ext_rx_complete_cb fl uf wcs g_config cbs" "\<lambda>f. f = FCNTL_IEEE_RANGE_16"
  "{UWB_DATA_CODE_DS_TWR_EXT, UWB_DATA_CODE_DS_TWR_EXT_T1, UWB_DATA_CODE_DS_TWR_EXT_T2,
    UWB_DATA_CODE_DS_TWR_EXT_FINAL}"
  for fl uf wcs g_config
proof
  fix s
  assume ok: "rng_ok s"
  note facts = twr_ds_ext_respond_ok[OF ok] twr_ds_ext_second_round_ok[OF ok] twr_ds_ext_report_ok[OF ok]
    finish_exchange[OF ok] sem_free[OF ok]
  show "rng_ok (snd (twr_ds_ext_rx_complete_cb fl uf wcs g_config cbs s))"
    using ok facts by (auto simp: twr_ds_ext_rx_complete_cb_def)
  show "same_ring s (snd (twr_ds_ext_rx_complete_cb fl uf wcs g_config cbs s))"
    using facts by (auto simp: twr_ds_ext_rx_complete_cb_def)
qed (auto simp: twr_ds_ext_rx_complete_cb_def split: if_splits)

end
