(* ===== verification/Twr_System.thy ===== *)
theory Twr_System
  imports Twr_Ss Twr_Ss_Ext Twr_Ss_Ack Twr_Ds Twr_Ds_Ext
begin

text \<open>
  The ranging services together on one device: the interface list the packages'
  \<open>pkg_init\<close> functions build, the events that can happen to it in any order, and the
  invariant of every state they reach.
\<close>

unbundle bit_operations_syntax

section \<open>The interface list of a device\<close>

text \<open>A build: the platform's parameters and the configurations of the services.\<close>

record rng_build =
  b_fl :: rng_floats
  b_uf :: uwb_driver_funcs
  b_wcs :: "(u64 \<Rightarrow> u64) option"
  b_rng :: uwb_rng_config
  b_ss :: uwb_rng_config
  b_ss_ext :: uwb_rng_config
  b_ss_ack :: uwb_rng_config
  b_ss_ack_holdoff :: u64
  b_ds :: uwb_rng_config
  b_ds_ext :: uwb_rng_config

text \<open>
  The ranging interface is the only one with completion and final callbacks; they do
  not call other callbacks, so the list the handlers iterate over for them is the
  list of that one interface (\<open>device_callbacks\<close> below).
\<close>

definition rng_callback_list :: "rng_build \<Rightarrow> rng_state uwb_mac_interface list" where
  "rng_callback_list B = [rng_interface (b_fl B) (b_uf B) (b_wcs B) [] 1]"

definition device_interfaces :: "rng_build \<Rightarrow> rng_state uwb_mac_interface list" where
  "device_interfaces B =
     (let L = rng_callback_list B;
          cbs = uwb_mac_append_interface [] (rng_interface (b_fl B) (b_uf B) (b_wcs B) L 1);
          cbs = uwb_mac_append_interface cbs (twr_ss_interface (b_uf B) (b_wcs B) (b_ss B) L 1);
          cbs = uwb_mac_append_interface cbs (twr_ss_ext_interface (b_uf B) (b_wcs B) (b_ss_ext B) L 1);
          cbs = uwb_mac_append_interface cbs
                  (twr_ss_ack_interface (b_uf B) (b_wcs B) (b_ss_ack B) (b_ss_ack_holdoff B) L 1);
          cbs = uwb_mac_append_interface cbs (twr_ds_interface (b_uf B) (b_wcs B) (b_ds B) L 1)
      in uwb_mac_append_interface cbs (twr_ds_ext_interface (b_fl B) (b_uf B) (b_wcs B) (b_ds_ext B) L 1))"

lemmas interface_defs = rng_interface_def twr_ss_interface_def twr_ss_ext_interface_def
  twr_ss_ack_interface_def twr_ds_interface_def twr_ds_ext_interface_def

lemma device_interfaces_eq:
  "device_interfaces B = map (\<lambda>c. c\<lparr>mac_initialized := True\<rparr>)
     [rng_interface (b_fl B) (b_uf B) (b_wcs B) (rng_callback_list B) 1,
      twr_ss_interface (b_uf B) (b_wcs B) (b_ss B) (rng_callback_list B) 1,
      twr_ss_ext_interface (b_uf B) (b_wcs B) (b_ss_ext B) (rng_callback_list B) 1,
      twr_ss_ack_interface (b_uf B) (b_wcs B) (b_ss_ack B) (b_ss_ack_holdoff B) (rng_callback_list B) 1,
      twr_ds_interface (b_uf B) (b_wcs B) (b_ds B) (rng_callback_list B) 1,
      twr_ds_ext_interface (b_fl B) (b_uf B) (b_wcs B) (b_ds_ext B) (rng_callback_list B) 1]"
  by (simp add: device_interfaces_def uwb_mac_append_interface_def Let_def)

lemma device_callbacks:
  "run_all mac_complete_cb (device_interfaces B) s = run_all mac_complete_cb (rng_callback_list B) s"
  "run_until mac_final_cb (device_interfaces B) s = run_until mac_final_cb (rng_callback_list B) s"
  by (simp_all add: device_interfaces_eq rng_callback_list_def interface_defs split: prod.splits)

section \<open>The ranging service's own callbacks keep the invariant\<close>

lemma rng_complete_cb_ok:
  assumes "rng_ok s"
  shows "rng_ok (snd (rng_complete_cb fl uf s))"
    and "rng_sem (rs_rng (snd (rng_complete_cb fl uf s))) = rng_sem (rs_rng s)"
    and "same_ring s (snd (rng_complete_cb fl uf s))"
  using assms
  by (simp_all add: rng_complete_cb_def Let_def rng_ok_on_rng rng_ok_on_frame frame_ok_meta sem_on_rng
      same_ring_on_rng)

lemma rng_tx_final_cb_ok:
  assumes "rng_ok s"
  shows "rng_ok (snd (rng_tx_final_cb fl uf wcs s))"
    and "rng_sem (rs_rng (snd (rng_tx_final_cb fl uf wcs s))) = rng_sem (rs_rng s)"
    and "same_ring s (snd (rng_tx_final_cb fl uf wcs s))"
  using assms by (simp_all add: rng_tx_final_cb_def Let_def rng_ok_on_frame frame_ok_meta)

interpretation std: rng_callbacks "rng_callback_list B" for B
  by unfold_locales
    (auto simp: rng_callback_list_def interface_defs rng_complete_cb_ok rng_tx_final_cb_ok)

lemma rng_rx_complete_cb_ok: "rng_ok s \<Longrightarrow> rng_ok (snd (rng_rx_complete_cb fl s))"
  unfolding rng_rx_complete_cb_def Let_def
  by (simp add: rng_ok_on_rng rng_ok_on_frame frame_ok_meta sem_on_rng rng_ok_sem_release sem_count_binary)

lemma rng_timeout_reset_ok:
  assumes "rng_ok s"
  shows "rng_ok (snd (rng_rx_timeout_cb s))" "rng_ok (snd (rng_reset_cb s))"
    "rng_ok (snd (rng_superframe_reset_cb s))"
  using assms
  by (simp_all add: rng_rx_timeout_cb_def rng_reset_cb_def rng_superframe_reset_cb_def Let_def
      rng_ok_on_rng rng_ok_sem_release sem_count_binary)

lemma rng_tx_complete_cb_ok:
  assumes "rng_ok s"
  shows "rng_ok (snd (rng_tx_complete_cb (rng_callback_list B) s))"
  using assms sem_free[OF assms] std.issue_complete[of "sem_release (RNG_STATS_INC Tx_complete s)" B]
  by (simp add: rng_tx_complete_cb_def Let_def rng_ok_on_rng rng_ok_sem_release)

lemma request_transmit_ok:
  assumes "rng_ok s"
  shows "rng_ok (request_transmit uf fl i cfg dst code s)"
    and "rng_sem (rs_rng (request_transmit uf fl i cfg dst code s)) = rng_sem (rs_rng s)"
  using assms by (simp_all add: request_transmit_def Let_def rng_ok_on_rng rng_ok_on_frame sem_on_rng)

lemma rng_ok_sem:
  "rng_ok s \<Longrightarrow> n \<le> 1 \<Longrightarrow> rng_ok (on_rng (\<lambda>r. r\<lparr>rng_sem := n\<rparr>) s)"
  by (simp add: rng_ok_def on_rng_def)

text \<open>A thread that is let in holds the semaphore.\<close>

lemma request_start_ok:
  assumes "rng_ok s" and "uwb_rng_request_start uf fl i cfg w1 w2 dst code s = Some r"
  shows "case r of Returned t \<Rightarrow> rng_ok t | Waiting t \<Rightarrow> rng_ok t"
proof -
  have le: "rng_sem (rs_rng s) - 1 = 0" using assms(1) by (simp add: rng_ok_def)
  let ?s = "on_rng (\<lambda>r. r\<lparr>rng_sem := 0\<rparr>) s"
  have s: "rng_ok ?s" "rng_sem (rs_rng ?s) = 0"
    using assms(1) by (simp_all add: rng_ok_sem) (simp add: on_rng_def)
  have n: "rng_ok (on_rng (\<lambda>r. r\<lparr>rng_sem := rng_sem (rs_rng s)\<rparr>) s)"
    using assms(1) by (intro rng_ok_sem) (auto simp: rng_ok_def)
  show ?thesis
    using assms(2) s n le
    by (auto simp: uwb_rng_request_start_def dpl_sem_pend_def Let_def request_start_tx_def
        irqsem_error_exit_def request_transmit_ok rng_ok_sem_release
        split: wait_end.splits if_splits option.splits)
qed

lemma request_finish_ok:
  assumes "rng_ok s" and "uwb_rng_request_finish w s = Some t"
  shows "rng_ok t"
proof -
  have le: "rng_sem (rs_rng s) \<le> 1" using assms(1) by (simp add: rng_ok_def)
  then show ?thesis
    using assms
    by (auto simp: uwb_rng_request_finish_def dpl_sem_pend_def Let_def irqsem_error_exit_def
        rng_ok_sem rng_ok_sem_release sem_count_binary
        split: wait_end.splits if_splits)
qed

lemma listen_start_ok:
  assumes "rng_ok s" and "uwb_rng_listen_start uf w timeout s = Some r"
  shows "case r of Returned t \<Rightarrow> rng_ok t | Waiting t \<Rightarrow> rng_ok t"
proof -
  have le: "rng_sem (rs_rng s) \<le> 1" using assms(1) by (simp add: rng_ok_def)
  have zero: "rng_sem (rs_rng (on_rng (\<lambda>r. r\<lparr>rng_sem := 0\<rparr>) s)) = 0" by (simp add: on_rng_def)
  show ?thesis
    using assms le zero
    by (auto simp: uwb_rng_listen_start_def dpl_sem_pend_def Let_def le_Suc_eq
        rng_ok_sem rng_ok_sem_release rng_ok_on_rng sem_on_rng
        split: wait_end.splits if_splits)
qed

lemma listen_finish_ok:
  assumes "rng_ok s" and "uwb_rng_listen_finish w s = Some t"
  shows "rng_ok t"
proof -
  have le: "rng_sem (rs_rng s) \<le> 1" using assms(1) by (simp add: rng_ok_def)
  have zero: "rng_sem (rs_rng (on_rng (\<lambda>r. r\<lparr>rng_sem := 0\<rparr>) s)) = 0" by (simp add: on_rng_def)
  show ?thesis
    using assms le zero
    by (auto simp: uwb_rng_listen_finish_def dpl_sem_pend_def Let_def le_Suc_eq
        rng_ok_sem rng_ok_sem_release
        split: wait_end.splits if_splits)
qed

section \<open>Events\<close>

text \<open>
  What can happen, in any order: the driver stores what it received (or anything
  else) in the device structure; it runs any callback of any interface; a thread
  enters or leaves \<open>uwb_rng_request\<close> or \<open>uwb_rng_listen\<close>. A request uses the frame it
  looked up when it was called, so its slot \<open>i\<close> is any slot.
\<close>

definition callbacks_of :: "rng_state uwb_mac_interface \<Rightarrow> rng_state callback set" where
  "callbacks_of c = {cb. Some cb \<in> {mac_tx_complete_cb c, mac_rx_complete_cb c, mac_rx_timeout_cb c,
     mac_rx_error_cb c, mac_tx_error_cb c, mac_reset_cb c, mac_superframe_cb c}}"

inductive rng_step :: "rng_build \<Rightarrow> rng_state \<Rightarrow> rng_state \<Rightarrow> bool" for B where
  Device: "rng_step B s (s\<lparr>rs_dev := dev\<rparr>)"
| Callback: "c \<in> set (device_interfaces B) \<Longrightarrow> cb \<in> callbacks_of c \<Longrightarrow> rng_step B s (snd (cb s))"
| Request: "uwb_rng_request_start (b_uf B) (b_fl B) i cfg w1 w2 dst code s = Some (Waiting t) \<Longrightarrow> rng_step B s t"
| Request_refused:
    "uwb_rng_request_start (b_uf B) (b_fl B) i cfg w1 w2 dst code s = Some (Returned t) \<Longrightarrow> rng_step B s t"
| Request_done: "uwb_rng_request_finish w s = Some t \<Longrightarrow> rng_step B s t"
| Listen: "uwb_rng_listen_start (b_uf B) w timeout s = Some (Waiting t) \<Longrightarrow> rng_step B s t"
| Listen_refused: "uwb_rng_listen_start (b_uf B) w timeout s = Some (Returned t) \<Longrightarrow> rng_step B s t"
| Listen_done: "uwb_rng_listen_finish w s = Some t \<Longrightarrow> rng_step B s t"
| Config: "rng_step B s (on_rng (uwb_rng_config_set cfg) s)"

lemma callback_ok:
  assumes "c \<in> set (device_interfaces B)" and "cb \<in> callbacks_of c" and "rng_ok s"
  shows "rng_ok (snd (cb s))"
  using assms std.ss.keeps_ok std.ss_ext.keeps_ok std.ss_ack.keeps_ok std.ds.keeps_ok std.ds_ext.keeps_ok
    rng_rx_complete_cb_ok rng_timeout_reset_ok rng_tx_complete_cb_ok twr_ss_ack_tx_complete_ok
  by (auto simp: device_interfaces_eq callbacks_of_def interface_defs)

lemma rng_step_ok:
  assumes "rng_step B s t" and "rng_ok s"
  shows "rng_ok t"
  using assms
proof induction
  case (Device s dev)
  then show ?case by (simp add: rng_ok_def)
next
  case (Callback c cb s)
  then show ?case by (rule callback_ok)
next
  case (Request i cfg w1 w2 dst code s t)
  then show ?case using request_start_ok by fastforce
next
  case (Request_refused i cfg w1 w2 dst code s t)
  then show ?case using request_start_ok by fastforce
next
  case (Request_done w s t)
  then show ?case using request_finish_ok by blast
next
  case (Listen w timeout s t)
  then show ?case using listen_start_ok by fastforce
next
  case (Listen_refused w timeout s t)
  then show ?case using listen_start_ok by fastforce
next
  case (Listen_done w s t)
  then show ?case using listen_finish_ok by blast
next
  case (Config s cfg)
  then show ?case by (simp add: rng_ok_on_rng uwb_rng_config_set_def)
qed

text \<open>Reached from an initialised instance with its frames in place.\<close>

inductive rng_reachable :: "rng_build \<Rightarrow> rng_state \<Rightarrow> rng_state \<Rightarrow> bool" for B s0 where
  Start: "rng_reachable B s0 s0"
| Step: "rng_reachable B s0 s \<Longrightarrow> rng_step B s t \<Longrightarrow> rng_reachable B s0 t"

lemma rng_reachable_ok: "rng_reachable B s0 s \<Longrightarrow> rng_ok s0 \<Longrightarrow> rng_ok s"
  by (induction rule: rng_reachable.induct) (auto intro: rng_step_ok)

lemma set_frames_loop_nth:
  "n \<le> length frames \<Longrightarrow> set_frames_loop frames twr n = map (\<lambda>k. if k < n then twr ! k else frames ! k) [0..<length frames]"
proof (induction n)
  case (Suc n)
  then show ?case by (intro nth_equalityI) (auto simp: nth_list_update)
qed (simp add: map_nth)

lemma boot_ok:
  assumes "0 < n" and "length twr = unat n" and "\<forall>fr \<in> set twr. frame_ok fr"
    and "uwb_rng_set_frames (uwb_rng_init None cfg n) twr n = Some rng"
  shows "rng_ok \<lparr>rs_dev = dev, rs_rng = rng, rs_twr_stat = st, rs_assert_failed = False\<rparr>"
proof -
  have "set_frames_loop (replicate (unat n) null_frame) twr (unat n) = twr"
    by (subst set_frames_loop_nth) (use assms(2) in \<open>auto simp: list_eq_iff_nth_eq\<close>)
  then show ?thesis
    using assms
    by (auto simp: uwb_rng_set_frames_def uwb_rng_init_def calloc_rng_def uwb_rng_config_set_def
        rng_ok_def dpl_sem_init_def Let_def split: option.splits)
qed

definition service_codes :: "u16 \<Rightarrow> u16 set" where
  "service_codes i =
     (if i = 5 then {UWB_DATA_CODE_SS_TWR, UWB_DATA_CODE_SS_TWR_T1, UWB_DATA_CODE_SS_TWR_FINAL}
      else if i = 6 then {UWB_DATA_CODE_SS_TWR_EXT, UWB_DATA_CODE_SS_TWR_EXT_T1, UWB_DATA_CODE_SS_TWR_EXT_FINAL}
      else if i = 7 then {UWB_DATA_CODE_SS_TWR_ACK, UWB_DATA_CODE_SS_TWR_ACK_T1, UWB_DATA_CODE_SS_TWR_ACK_FINAL}
      else if i = 8 then {UWB_DATA_CODE_DS_TWR, UWB_DATA_CODE_DS_TWR_T1, UWB_DATA_CODE_DS_TWR_T2, UWB_DATA_CODE_DS_TWR_FINAL}
      else if i = 9 then {UWB_DATA_CODE_DS_TWR_EXT, UWB_DATA_CODE_DS_TWR_EXT_T1, UWB_DATA_CODE_DS_TWR_EXT_T2,
        UWB_DATA_CODE_DS_TWR_EXT_FINAL} else {})"

lemma service_claims:
  assumes "c \<in> set (tl (device_interfaces B))" and "mac_rx_complete_cb c = Some cb" and "fst (cb s)"
    and "dev_fctrl (rs_dev s) \<noteq> UWB_FCTRL_FRAME_TYPE_ACK"
  shows "rng_code (rs_rng s) \<in> service_codes (mac_id c)"
proof -
  note services = std.ss.claims[OF _ assms(4)] std.ss_ext.claims[OF _ assms(4)] std.ss_ack.claims[OF _ assms(4)]
    std.ds.claims[OF _ assms(4)] std.ds_ext.claims[OF _ assms(4)]
  show ?thesis
    using assms(1-3) by (simp add: device_interfaces_eq, elim disjE)
      (simp add: interface_defs service_codes_def; hypsubst; drule services; simp)+
qed

lemma service_codes_disjoint:
  assumes "k \<in> service_codes i" and "k \<in> service_codes j"
  shows "i = j"
  using assms by (auto simp: service_codes_def codes split: if_splits)

lemma service_ids:
  assumes "c \<in> set (tl (device_interfaces B))" and "c' \<in> set (tl (device_interfaces B))" and "mac_id c = mac_id c'"
  shows "c = c'"
  using assms by (simp add: device_interfaces_eq, elim disjE) (simp_all add: interface_defs)

lemma request_transmit_sems:
  "rng_sem (rs_rng (request_transmit uf fl i cfg dst code s)) = rng_sem (rs_rng s)"
  "dev_irq_sem (rs_dev (request_transmit uf fl i cfg dst code s)) = dev_irq_sem (rs_dev s)"
  by (simp_all add: request_transmit_def Let_def frame uwb_api_defs sem_on_rng)

lemma request_start_tx_sems:
  "rng_sem (rs_rng (request_start_tx uf s)) = rng_sem (rs_rng s) + (if start_tx_error (request_start_tx uf s) then 1 else 0)"
  "dev_irq_sem (rs_dev (request_start_tx uf s)) = dev_irq_sem (rs_dev s)"
  by (simp_all add: request_start_tx_def Let_def frame uwb_api_defs sem_on_rng start_tx_error_def)

end
