(* ===== verification/Twr_Protocol.thy ===== *)
theory Twr_Protocol
  imports Twr_System
begin

text \<open>
  Two devices running an exchange: what each step of the single-sided protocol sends,
  and the whole of it from the request to the release of both semaphores. The air
  between them is \<open>deliver\<close>: a device is handed the bytes the other one wrote last.
\<close>

unbundle bit_operations_syntax

section \<open>The air\<close>

text \<open>
  What the driver leaves in the device structure when a frame was received: the bytes
  in the receive buffer, their number, the frame control (the first two bytes) and
  the receive time, as the fields' comments in uwb.h describe.
\<close>

definition deliver :: "bytes \<Rightarrow> u64 \<Rightarrow> u32 \<Rightarrow> rng_state \<Rightarrow> rng_state" where
  "deliver bs ts carrier =
     on_dev (\<lambda>d. d\<lparr>dev_rxbuf := bs @ drop (length bs) (dev_rxbuf d), dev_frame_len := of_nat (length bs),
                  dev_fctrl := get_le16 bs 0, dev_rxtimestamp := ts, dev_carrier_integrator := carrier\<rparr>)"

text \<open>The payload a device transmits: what was last written into its transmit buffer.\<close>

fun last_written :: "dev_cmd list \<Rightarrow> bytes option" where
  "last_written [] = None"
| "last_written (c # cs) =
     (case last_written cs of
        Some bs \<Rightarrow> Some bs
      | None \<Rightarrow> (case c of Write_tx bs off \<Rightarrow> Some bs | _ \<Rightarrow> None))"

definition transmitted :: "rng_state \<Rightarrow> bytes" where
  "transmitted s = (case last_written (dev_cmds (rs_dev s)) of Some bs \<Rightarrow> bs | None \<Rightarrow> [])"

text \<open>The driver runs the interfaces' callbacks in the order of the list until one claims the event.\<close>

definition on_rx_complete :: "rng_build \<Rightarrow> rng_state \<Rightarrow> rng_state" where
  "on_rx_complete B = run_until mac_rx_complete_cb (device_interfaces B)"

definition on_tx_complete :: "rng_build \<Rightarrow> rng_state \<Rightarrow> rng_state" where
  "on_tx_complete B = run_until mac_tx_complete_cb (device_interfaces B)"

lemma last_written_append:
  "last_written (xs @ ys) = (case last_written ys of Some bs \<Rightarrow> Some bs | None \<Rightarrow> last_written xs)"
  by (induction xs) (auto split: option.splits)

section \<open>Frames as bytes\<close>

lemma fr_set_same:
  assumes "frame_ok fr"
  shows "fr_dst_address (set_dst_address v fr) = v" "fr_src_address (set_src_address v fr) = v"
    "fr_code (set_code v fr) = v" "fr_fctrl (set_fctrl v fr) = v" "fr_PANID (set_PANID v fr) = v"
    "fr_seq_num (set_seq_num b fr) = b"
    "fr_reception_timestamp (set_reception_timestamp w fr) = w"
    "fr_transmission_timestamp (set_transmission_timestamp w fr) = w"
    "fr_request_timestamp (set_request_timestamp w fr) = w"
    "fr_response_timestamp (set_response_timestamp w fr) = w"
    "fr_carrier_integrator (set_carrier_integrator w fr) = w"
  using assms by (simp_all add: frame_ok_def layout)

text \<open>A field of a frame in terms of the bytes of the frame only, wherever they are stored.\<close>

record frame_view =
  v_fctrl :: u16
  v_seq_num :: u8
  v_PANID :: u16
  v_dst_address :: u16
  v_src_address :: u16
  v_code :: u16
  v_reception_timestamp :: u32
  v_transmission_timestamp :: u32
  v_request_timestamp :: u32
  v_response_timestamp :: u32
  v_carrier_integrator :: u32

definition view :: "bytes \<Rightarrow> frame_view" where
  "view m = \<lparr>v_fctrl = get_le16 m 0, v_seq_num = get_u8 m 2, v_PANID = get_le16 m 3,
     v_dst_address = get_le16 m 5, v_src_address = get_le16 m 7, v_code = get_le16 m 9,
     v_reception_timestamp = get_le32 m 11, v_transmission_timestamp = get_le32 m 15,
     v_request_timestamp = get_le32 m 19, v_response_timestamp = get_le32 m 23,
     v_carrier_integrator = get_le32 m 27\<rparr>"

lemma view_fields:
  "fr_fctrl fr = v_fctrl (view (twr_array fr))"
  "fr_seq_num fr = v_seq_num (view (twr_array fr))"
  "fr_PANID fr = v_PANID (view (twr_array fr))"
  "fr_dst_address fr = v_dst_address (view (twr_array fr))"
  "fr_src_address fr = v_src_address (view (twr_array fr))"
  "fr_code fr = v_code (view (twr_array fr))"
  "fr_reception_timestamp fr = v_reception_timestamp (view (twr_array fr))"
  "fr_transmission_timestamp fr = v_transmission_timestamp (view (twr_array fr))"
  "fr_request_timestamp fr = v_request_timestamp (view (twr_array fr))"
  "fr_response_timestamp fr = v_response_timestamp (view (twr_array fr))"
  "fr_carrier_integrator fr = v_carrier_integrator (view (twr_array fr))"
  by (simp_all add: view_def layout)

lemma view_set:
  assumes "frame_ok fr"
  shows "view (twr_array (set_fctrl a fr)) = (view (twr_array fr))\<lparr>v_fctrl := a\<rparr>"
    "view (twr_array (set_seq_num b fr)) = (view (twr_array fr))\<lparr>v_seq_num := b\<rparr>"
    "view (twr_array (set_PANID a fr)) = (view (twr_array fr))\<lparr>v_PANID := a\<rparr>"
    "view (twr_array (set_dst_address a fr)) = (view (twr_array fr))\<lparr>v_dst_address := a\<rparr>"
    "view (twr_array (set_src_address a fr)) = (view (twr_array fr))\<lparr>v_src_address := a\<rparr>"
    "view (twr_array (set_code a fr)) = (view (twr_array fr))\<lparr>v_code := a\<rparr>"
    "view (twr_array (set_reception_timestamp w fr)) = (view (twr_array fr))\<lparr>v_reception_timestamp := w\<rparr>"
    "view (twr_array (set_transmission_timestamp w fr)) = (view (twr_array fr))\<lparr>v_transmission_timestamp := w\<rparr>"
    "view (twr_array (set_request_timestamp w fr)) = (view (twr_array fr))\<lparr>v_request_timestamp := w\<rparr>"
    "view (twr_array (set_response_timestamp w fr)) = (view (twr_array fr))\<lparr>v_response_timestamp := w\<rparr>"
    "view (twr_array (set_carrier_integrator w fr)) = (view (twr_array fr))\<lparr>v_carrier_integrator := w\<rparr>"
  using assms by (simp_all add: view_def frame_ok_def layout)

text \<open>What a frame loses when only its first bytes are sent.\<close>

lemma view_take_request:
  assumes "length m = 136"
  shows "get_le16 (take 11 m) 0 = v_fctrl (view m)" "get_u8 (take 11 m) 2 = v_seq_num (view m)"
    "get_le16 (take 11 m) 3 = v_PANID (view m)" "get_le16 (take 11 m) 5 = v_dst_address (view m)"
    "get_le16 (take 11 m) 7 = v_src_address (view m)" "get_le16 (take 11 m) 9 = v_code (view m)"
  using assms by (simp_all add: view_def field_take)

text \<open>Received bytes, copied over a frame: their fields replace the frame's as far as they reach.\<close>

lemma view_load:
  assumes "length m = 136" and "length xs = 136" and "n = 11 \<or> n = 19 \<or> n = 31"
  shows "view (write_at m 0 (take n xs)) =
    (let v = (view m)\<lparr>v_fctrl := v_fctrl (view xs), v_seq_num := v_seq_num (view xs),
        v_PANID := v_PANID (view xs), v_dst_address := v_dst_address (view xs),
        v_src_address := v_src_address (view xs), v_code := v_code (view xs)\<rparr>;
       v = (if n \<ge> 19 then v\<lparr>v_reception_timestamp := v_reception_timestamp (view xs),
              v_transmission_timestamp := v_transmission_timestamp (view xs)\<rparr> else v)
     in if n \<ge> 31 then v\<lparr>v_request_timestamp := v_request_timestamp (view xs),
          v_response_timestamp := v_response_timestamp (view xs),
          v_carrier_integrator := v_carrier_integrator (view xs)\<rparr> else v)"
  using assms(3)
  by (elim disjE) (simp_all add: assms(1,2) view_def field_write_same field_take field_write_other)

lemma view_clear:
  "length m = 136 \<Longrightarrow> view (uwb_rng_clear_twr_data fl m 32) = view m"
  by (simp add: view_def uwb_rng_clear_twr_data_def Let_def field_other)

section \<open>The steps of the exchange\<close>

definition driver_ok :: "uwb_driver_funcs \<Rightarrow> bool" where
  "driver_ok uf \<longleftrightarrow> (\<forall>h. \<not> st_start_tx_error (uf_status uf h) \<and> \<not> st_lde_error (uf_status uf h))"

lemmas view_step = view_set view_clear fr_set_same

lemma dev_deliver [simp]:
  "dev_fctrl (rs_dev (deliver bs ts c s)) = get_le16 bs 0"
  "dev_frame_len (rs_dev (deliver bs ts c s)) = of_nat (length bs)"
  "dev_rxbuf (rs_dev (deliver bs ts c s)) = bs @ drop (length bs) (dev_rxbuf (rs_dev s))"
  "dev_rxtimestamp (rs_dev (deliver bs ts c s)) = ts"
  "dev_carrier_integrator (rs_dev (deliver bs ts c s)) = c"
  "dev_my_short_address (rs_dev (deliver bs ts c s)) = dev_my_short_address (rs_dev s)"
  "dev_status (rs_dev (deliver bs ts c s)) = dev_status (rs_dev s)"
  "dev_cmds (rs_dev (deliver bs ts c s)) = dev_cmds (rs_dev s)"
  "dev_config (rs_dev (deliver bs ts c s)) = dev_config (rs_dev s)"
  "dev_tx_antenna_delay (rs_dev (deliver bs ts c s)) = dev_tx_antenna_delay (rs_dev s)"
  "rs_rng (deliver bs ts c s) = rs_rng s"
  "rng_ok (deliver bs ts c s) = rng_ok s"
  by (simp_all add: deliver_def on_dev_def rng_ok_def)

text \<open>
  No transmission will end an exchange: neither \<open>complete_after_tx\<close> nor \<open>tx_ack_expected\<close> is set, as after
  the initialisation and after every exchange that ran to its end.
\<close>

definition none_pending :: "rng_state \<Rightarrow> bool" where
  "none_pending s \<longleftrightarrow> \<not> rng_complete_after_tx (rs_rng s) \<and> \<not> rng_tx_ack_expected (rs_rng s)"

lemma none_pending_step [frame]:
  "none_pending (RNG_STATS_INC x s) = none_pending s" "none_pending (TWR_STATS_INC y s) = none_pending s"
  "none_pending (sem_release s) = none_pending s" "none_pending (on_dev g s) = none_pending s"
  "none_pending (on_frame i h s) = none_pending s" "none_pending (deliver bs ts c s) = none_pending s"
  "none_pending (s\<lparr>rs_assert_failed := b\<rparr>) = none_pending s"
  by (simp_all add: none_pending_def RNG_STATS_INC_def TWR_STATS_INC_def sem_release_def on_dev_def on_frame_def
      deliver_def on_rng_def)

lemma none_pending_on_rng [frame]:
  "(\<And>r. rng_complete_after_tx (f r) = rng_complete_after_tx r) \<Longrightarrow> (\<And>r. rng_tx_ack_expected (f r) = rng_tx_ack_expected r) \<Longrightarrow>
    none_pending (on_rng f s) = none_pending s"
  by (simp add: none_pending_def on_rng_def)

text \<open>
  An addressed ranging frame is accepted: it is in the slot after the current one,
  which becomes the current slot, and no other field of the instance the handlers
  read has changed.
\<close>

definition received :: "rng_floats \<Rightarrow> bytes \<Rightarrow> u64 \<Rightarrow> u32 \<Rightarrow> rng_state \<Rightarrow> rng_state" where
  "received fl bs ts c s = snd (rng_rx_complete_cb fl (deliver bs ts c s))"

lemma sem_free_count: "rng_ok s \<Longrightarrow> rng_sem (rs_rng s) = 0 \<Longrightarrow> sem_count s = 0 \<and> sem_count s \<noteq> 1"
  by (simp add: sem_count_binary)

lemma rx_accepts:
  fixes fl :: rng_floats and ts :: u64 and c :: u32
  assumes ok: "rng_ok s" and sem: "rng_sem (rs_rng s) = 0"
    and ring: "unat (rng_nframes (rs_rng s)) dvd 65536"
    and n: "n = 11 \<or> n = 19 \<or> n = 31" and xs: "length xs = 136"
    and fctrl: "v_fctrl (view xs) = FCNTL_IEEE_RANGE_16"
    and dst: "v_dst_address (view xs) = dev_my_short_address (rs_dev s)"
    and code: "in_range UWB_DATA_CODE_SS_TWR UWB_DATA_CODE_DS_TWR_EXT_END (v_code (view xs))"
  defines "t \<equiv> received fl (take n xs) ts c s"
  shows "rng_rx_complete_cb fl (deliver (take n xs) ts c s) = (False, t)"
    and "rng_ok t" and "rng_sem (rs_rng t) = 0" and "rng_code (rs_rng t) = v_code (view xs)"
    and "cur_slot (rs_rng t) = next_slot (rs_rng s)"
    and "rs_dev t = rs_dev (deliver (take n xs) ts c s)"
    and "view (twr_array (frame_at (cur_slot (rs_rng t)) t)) =
      view (write_at (twr_array (frame_at (next_slot (rs_rng s)) s)) 0 (take n xs))"
    and "rng_nframes (rs_rng t) = rng_nframes (rs_rng s)"
    and "rng_complete_after_tx (rs_rng t) = rng_complete_after_tx (rs_rng s)"
    and "rng_frame_shr_duration (rs_rng t) = rng_frame_shr_duration (rs_rng s)"
    and "rng_seq_num (rs_rng t) = rng_seq_num (rs_rng s)"
    and "none_pending t = none_pending s"
proof -
  let ?bs = "take n xs"
  let ?d = "deliver ?bs ts c s"
  let ?s1 = "on_rng (\<lambda>r. r\<lparr>rng_code := v_code (view xs)\<rparr>) ?d"
  let ?i = "next_slot (rs_rng s)"
  let ?s2 = "on_frame ?i (set_local (uwb_rng_clear_twr_data fl)) (on_frame ?i (set_remote (uwb_rng_clear_twr_data fl)) ?s1)"
  let ?s3 = "on_frame ?i (load_frame fl (rs_dev ?d)) ?s2"
  let ?s4 = "on_rng (\<lambda>r. r\<lparr>rng_idx := rng_idx r + 1\<rparr>) (RNG_STATS_INC Rx_complete ?s3)"
  have len: "length ?bs = n" using n xs by auto
  have fields: "get_le16 ?bs 0 = FCNTL_IEEE_RANGE_16" "get_le16 (dev_rxbuf (rs_dev ?d)) 9 = v_code (view xs)"
    using n xs fctrl by (auto simp: view_def field_take field_append)
  have ok1: "rng_ok ?s1" using ok by (simp add: rng_ok_on_rng)
  have next1: "next_slot (rs_rng ?s1) = ?i" by (simp add: next_slot_def frame)
  have i: "?i < length (rng_frames (rs_rng s))" using slot_less(2)[OF ok] .
  then have i1: "?i < length (rng_frames (rs_rng ?s1))" by (simp add: frame)
  have ok2: "rng_ok ?s2" using ok1 by (simp add: rng_ok_on_frame frame_ok_meta)
  have fok: "frame_ok (frame_at ?i s)" using frame_at_ok[OF ok i] .
  have fr3: "view (twr_array (frame_at ?i ?s3)) = view (write_at (twr_array (frame_at ?i s)) 0 ?bs)"
    and dst3: "fr_dst_address (frame_at ?i ?s3) = dev_my_short_address (rs_dev ?d)"
  proof -
    have a: "frame_at ?i ?s3 = load_frame fl (rs_dev ?d)
        (set_local (uwb_rng_clear_twr_data fl) (set_remote (uwb_rng_clear_twr_data fl) (frame_at ?i s)))"
      using i i1 by (simp add: frame) (simp add: frame_at_def)
    have b: "take (unat (dev_frame_len (rs_dev ?d))) (dev_rxbuf (rs_dev ?d)) = ?bs"
      using n xs by (auto simp: unat_of_nat)
    have w: "twr_array (frame_at ?i ?s3) =
        write_at (uwb_rng_clear_twr_data fl (twr_array (frame_at ?i s)) 32) 0 ?bs"
      unfolding a load_frame_def b by (simp add: set_local_def set_remote_def)
    have l: "length (twr_array (frame_at ?i s)) = 136" using fok by (simp add: frame_ok_def)
    show v: "view (twr_array (frame_at ?i ?s3)) = view (write_at (twr_array (frame_at ?i s)) 0 ?bs)"
      unfolding w using l xs n by (simp add: view_load view_clear)
    show "fr_dst_address (frame_at ?i ?s3) = dev_my_short_address (rs_dev ?d)"
      unfolding view_fields(4) v using l xs n dst by (auto simp: view_load Let_def)
  qed
  have cb: "rng_rx_complete_cb fl ?d = (False, ?s4)"
    unfolding rng_rx_complete_cb_def Let_def
    using n len fields sem_free_count[of ?d] ok sem next1 code dst3
    by (auto simp: frame word_less_nat_alt word_le_nat_alt unat_of_nat)
  then have t: "t = ?s4" by (simp add: t_def received_def)
  show "rng_rx_complete_cb fl ?d = (False, t)" using cb t by simp
  show "rng_ok t" unfolding t using ok2 by (simp add: rng_ok_on_rng rng_ok_on_frame)
  show "rng_sem (rs_rng t) = 0" unfolding t using sem by (simp add: sem_on_rng)
  show "rng_code (rs_rng t) = v_code (view xs)" unfolding t by (simp add: frame)
  show "rs_dev t = rs_dev ?d" unfolding t by (simp add: frame)
  show slot: "cur_slot (rs_rng t) = ?i"
    unfolding t using ring_succ[OF ring, of "rng_idx (rs_rng s)"]
    by (simp add: cur_slot_def next_slot_def frame)
  show "view (twr_array (frame_at (cur_slot (rs_rng t)) t)) =
      view (write_at (twr_array (frame_at ?i s)) 0 ?bs)"
    unfolding slot using fr3 unfolding t by (simp add: frame)
  show "rng_nframes (rs_rng t) = rng_nframes (rs_rng s)"
    "rng_complete_after_tx (rs_rng t) = rng_complete_after_tx (rs_rng s)"
    "rng_frame_shr_duration (rs_rng t) = rng_frame_shr_duration (rs_rng s)"
    "rng_seq_num (rs_rng t) = rng_seq_num (rs_rng s)"
    unfolding t by (simp_all add: RNG_STATS_INC_def on_frame_def on_rng_def)
  show "none_pending t = none_pending s" unfolding t by (simp add: frame)
qed

text \<open>The responder's answer to a request.\<close>

definition ss_reply_view :: "(u64 \<Rightarrow> u64) option \<Rightarrow> uwb_rng_txd \<Rightarrow> uwb_dev \<Rightarrow> frame_view \<Rightarrow> frame_view" where
  "ss_reply_view wcs txd dev v = v\<lparr>
     v_reception_timestamp := stamp wcs (dev_rxtimestamp dev),
     v_transmission_timestamp := stamp wcs (response_timestamp txd),
     v_dst_address := v_src_address v,
     v_src_address := dev_my_short_address dev,
     v_code := UWB_DATA_CODE_SS_TWR_T1,
     v_carrier_integrator := reply_carrier wcs dev\<rparr>"

lemma start_tx_ok:
  assumes "driver_ok uf"
  shows "start_tx_or_release uf err s = on_dev (uwb_start_tx uf) s"
    and "start_final_tx uf cbs err ok s =
      on_rng (\<lambda>r. r\<lparr>rng_complete_after_tx := True\<rparr>) (TWR_STATS_INC ok (on_dev (uwb_start_tx uf) s))"
  using assms
  by (simp_all add: start_tx_or_release_def start_final_tx_def Let_def start_tx_error_def on_dev_def
      uwb_start_tx_def uwb_command_def driver_ok_def)

lemma frame_at_tx [frame]:
  "frame_at k (tx_frame uf i len s) = frame_at k s"
  "frame_at k (listen_after_tx uf cfg n s) = frame_at k s"
  "rs_rng (tx_frame uf i len s) = rs_rng s"
  "rs_rng (listen_after_tx uf cfg n s) = rs_rng s"
  "rs_dev (tx_frame uf i len s) =
     uwb_write_tx_fctrl uf len 0 (uwb_write_tx uf (twr_array (frame_at i s)) 0 len (rs_dev s))"
  "dev_cmds (rs_dev (listen_after_tx uf cfg n s)) = dev_cmds (rs_dev s) @
     [Set_wait4resp_delay (tx_holdoff_delay cfg - time_to_rx_stable (rs_dev s)),
      Set_rx_timeout (ucast (uwb_phy_frame_duration uf n) + ucast (rx_timeout_delay cfg) + time_to_rx_stable (rs_dev s))]"
  "dev_fctrl (rs_dev (listen_after_tx uf cfg n s)) = dev_fctrl (rs_dev s)"
  "dev_my_short_address (rs_dev (listen_after_tx uf cfg n s)) = dev_my_short_address (rs_dev s)"
  by (simp_all add: tx_frame_def listen_after_tx_def Let_def frame uwb_api_defs time_to_rx_stable_def)

lemma twr_ss_respond_step:
  fixes wcs :: "(u64 \<Rightarrow> u64) option" and cfg :: uwb_rng_config and B :: rng_build
  assumes ok: "rng_ok s" and sem: "rng_sem (rs_rng s) = 0" and drv: "driver_ok uf"
  defines "i \<equiv> cur_slot (rs_rng s)"
  defines "t \<equiv> twr_ss_respond uf wcs cfg s"
  defines "txd \<equiv> uwb_rng_calc_rel_tx uf s cfg (dev_rxtimestamp (rs_dev s)) (dev_frame_len (rs_dev s))"
  shows "view (twr_array (frame_at i t)) = ss_reply_view wcs txd (rs_dev s) (view (twr_array (frame_at i s)))"
    and "dev_cmds (rs_dev t) = dev_cmds (rs_dev s) @
      [Write_tx (take 19 (twr_array (frame_at i t))) 0, Write_tx_fctrl 19 0, Set_wait4resp True,
       Set_delay_start (response_tx_delay txd), Start_tx,
       Set_wait4resp_delay (tx_holdoff_delay cfg - time_to_rx_stable (rs_dev s)),
       Set_rx_timeout (ucast (uwb_phy_frame_duration uf 31) + ucast (rx_timeout_delay cfg) + time_to_rx_stable (rs_dev s)),
       Set_rxauto_disable True]"
    and "rng_sem (rs_rng t) = 0" and "rng_ok t" and "cur_slot (rs_rng t) = i"
    and "next_slot (rs_rng t) = next_slot (rs_rng s)"
    and "rng_nframes (rs_rng t) = rng_nframes (rs_rng s)"
    and "rng_complete_after_tx (rs_rng t) = rng_complete_after_tx (rs_rng s)"
    and "rng_code (rs_rng t) = rng_code (rs_rng s)"
    and "dev_my_short_address (rs_dev t) = dev_my_short_address (rs_dev s)"
    and "none_pending t = none_pending s" and "dev_fctrl (rs_dev t) = dev_fctrl (rs_dev s)"
proof -
  have i: "i < length (rng_frames (rs_rng s))" unfolding i_def using slot_less(1)[OF ok] .
  have fok: "frame_ok (frame_at i s)" using frame_at_ok[OF ok i] .
  show "view (twr_array (frame_at i t)) = ss_reply_view wcs txd (rs_dev s) (view (twr_array (frame_at i s)))"
    unfolding t_def twr_ss_respond_def Let_def i_def[symmetric] txd_def[symmetric] start_tx_ok[OF drv]
    using i fok by (simp add: frame view_step ss_reply_view_def view_fields)
  show "dev_cmds (rs_dev t) = dev_cmds (rs_dev s) @
      [Write_tx (take 19 (twr_array (frame_at i t))) 0, Write_tx_fctrl 19 0, Set_wait4resp True,
       Set_delay_start (response_tx_delay txd), Start_tx,
       Set_wait4resp_delay (tx_holdoff_delay cfg - time_to_rx_stable (rs_dev s)),
       Set_rx_timeout (ucast (uwb_phy_frame_duration uf 31) + ucast (rx_timeout_delay cfg) + time_to_rx_stable (rs_dev s)),
       Set_rxauto_disable True]"
    unfolding t_def twr_ss_respond_def Let_def i_def[symmetric] txd_def[symmetric] start_tx_ok[OF drv]
    using i by (simp add: frame uwb_api_defs time_to_rx_stable_def)
  show "rng_sem (rs_rng t) = 0" "cur_slot (rs_rng t) = i" "next_slot (rs_rng t) = next_slot (rs_rng s)"
    "rng_nframes (rs_rng t) = rng_nframes (rs_rng s)"
    "rng_complete_after_tx (rs_rng t) = rng_complete_after_tx (rs_rng s)"
    "rng_code (rs_rng t) = rng_code (rs_rng s)"
    "dev_my_short_address (rs_dev t) = dev_my_short_address (rs_dev s)"
    unfolding t_def twr_ss_respond_def Let_def i_def[symmetric] start_tx_ok[OF drv]
    using sem by (simp_all add: frame i_def uwb_api_defs)
  show "none_pending t = none_pending s" "dev_fctrl (rs_dev t) = dev_fctrl (rs_dev s)"
    unfolding t_def twr_ss_respond_def Let_def tx_frame_def listen_after_tx_def start_tx_ok[OF drv] by (simp_all add: frame uwb_api_defs)
  show "rng_ok t" unfolding t_def using twr_ss_respond_ok[OF ok sem] by blast
qed

text \<open>The initiator's final report.\<close>

definition ss_final_view ::
  "(u64 \<Rightarrow> u64) option \<Rightarrow> u32 \<Rightarrow> uwb_dev \<Rightarrow> frame_view \<Rightarrow> frame_view" where
  "ss_final_view wcs txtime dev v = v\<lparr>
     v_request_timestamp := txtime,
     v_response_timestamp := stamp wcs (dev_rxtimestamp dev),
     v_dst_address := v_src_address v,
     v_src_address := dev_my_short_address dev,
     v_code := UWB_DATA_CODE_SS_TWR_FINAL,
     v_carrier_integrator := dev_carrier_integrator dev\<rparr>"

lemma twr_ss_report_step:
  fixes wcs :: "(u64 \<Rightarrow> u64) option" and cfg :: uwb_rng_config and B :: rng_build
  assumes ok: "rng_ok s" and sem: "rng_sem (rs_rng s) = 0" and drv: "driver_ok uf"
    and len: "dev_frame_len (rs_dev s) = 19" and lde: "\<not> st_lde_error (dev_status (rs_dev s))"
  defines "i \<equiv> cur_slot (rs_rng s)"
  defines "t \<equiv> twr_ss_report uf wcs cfg (rng_callback_list B) s"
  defines "txd \<equiv> uwb_rng_calc_rel_tx uf s cfg (dev_rxtimestamp (rs_dev s)) 19"
  shows "view (twr_array (frame_at i t)) =
      ss_final_view wcs (tx_stamp uf wcs s) (rs_dev s) (view (twr_array (frame_at i s)))"
    and "dev_cmds (rs_dev t) = dev_cmds (rs_dev s) @
      [Write_tx (take 31 (twr_array (frame_at i t))) 0, Write_tx_fctrl 31 0,
       Set_delay_start (response_tx_delay txd), Start_tx]"
    and "rng_sem (rs_rng t) = 0" and "rng_ok t" and "cur_slot (rs_rng t) = i"
    and "rng_complete_after_tx (rs_rng t)"
    and "rng_code (rs_rng t) = rng_code (rs_rng s)"
    and "dev_fctrl (rs_dev t) = dev_fctrl (rs_dev s)"
    and "rng_tx_ack_expected (rs_rng t) = rng_tx_ack_expected (rs_rng s)"
proof -
  have i: "i < length (rng_frames (rs_rng s))" unfolding i_def using slot_less(1)[OF ok] .
  have fok: "frame_ok (frame_at i s)" using frame_at_ok[OF ok i] .
  note unf = twr_ss_report_def Let_def i_def[symmetric] start_tx_ok[OF drv]
  show "view (twr_array (frame_at i t)) =
      ss_final_view wcs (tx_stamp uf wcs s) (rs_dev s) (view (twr_array (frame_at i s)))"
    unfolding t_def unf using i fok len lde by (simp add: frame view_step ss_final_view_def view_fields)
  show "dev_cmds (rs_dev t) = dev_cmds (rs_dev s) @
      [Write_tx (take 31 (twr_array (frame_at i t))) 0, Write_tx_fctrl 31 0,
       Set_delay_start (response_tx_delay txd), Start_tx]"
    unfolding t_def unf using i len lde by (simp add: frame uwb_api_defs txd_def)
  show "rng_sem (rs_rng t) = 0" "cur_slot (rs_rng t) = i" "rng_complete_after_tx (rs_rng t)"
    "rng_code (rs_rng t) = rng_code (rs_rng s)" "dev_fctrl (rs_dev t) = dev_fctrl (rs_dev s)"
    unfolding t_def unf using sem len lde
    by (simp_all add: frame uwb_api_defs sem_on_rng) (simp_all add: cur_slot_def frame i_def)
  show "rng_ok t" unfolding t_def using std.twr_ss_report_ok[OF ok sem] by blast
  show "rng_tx_ack_expected (rs_rng t) = rng_tx_ack_expected (rs_rng s)"
    unfolding t_def unf tx_frame_def using len lde by (simp add: frame uwb_api_defs on_frame_def on_rng_def on_dev_def)
qed

text \<open>The completion callbacks change no byte of the frame that was exchanged.\<close>

lemma issue_complete_frames:
  assumes "rng_ok s"
  shows "twr_array (frame_at k (rng_issue_complete (rng_callback_list B) s)) = twr_array (frame_at k s)"
    and "cur_slot (rs_rng (rng_issue_complete (rng_callback_list B) s)) = cur_slot (rs_rng s)"
    and "rng_sem (rs_rng (rng_issue_complete (rng_callback_list B) s)) = rng_sem (rs_rng s)"
    and "rng_ok (rng_issue_complete (rng_callback_list B) s)"
    and "none_pending (rng_issue_complete (rng_callback_list B) s) = none_pending s"
    and "rng_tx_ack_expected (rs_rng (rng_issue_complete (rng_callback_list B) s)) = rng_tx_ack_expected (rs_rng s)"
proof -
  have upd: "twr_array (frame_at k (on_frame j (set_local f) u)) = twr_array (frame_at k u)" for j f u
    by (cases "j < length (rng_frames (rs_rng u))"; cases "k = j")
      (simp_all add: frame_at_def on_frame_def set_local_def list_update_beyond)
  have asrt: "frame_at k (u\<lparr>rs_assert_failed := b\<rparr>) = frame_at k u" for b u
    by (simp add: frame_at_def)
  show "twr_array (frame_at k (rng_issue_complete (rng_callback_list B) s)) = twr_array (frame_at k s)"
    by (simp add: rng_issue_complete_def rng_callback_list_def interface_defs rng_complete_cb_def Let_def
        frame upd asrt)
  show "cur_slot (rs_rng (rng_issue_complete (rng_callback_list B) s)) = cur_slot (rs_rng s)"
    "rng_sem (rs_rng (rng_issue_complete (rng_callback_list B) s)) = rng_sem (rs_rng s)"
    "rng_ok (rng_issue_complete (rng_callback_list B) s)"
    using std.issue_complete[OF assms, of B] by (auto simp: same_ring_def cur_slot_def)
  show "none_pending (rng_issue_complete (rng_callback_list B) s) = none_pending s"
    "rng_tx_ack_expected (rs_rng (rng_issue_complete (rng_callback_list B) s)) = rng_tx_ack_expected (rs_rng s)"
    by (simp_all add: rng_issue_complete_def rng_callback_list_def interface_defs rng_complete_cb_def Let_def
        none_pending_def on_rng_def on_frame_def RNG_STATS_INC_def)
qed

text \<open>The request: what it puts on the air, and the state it leaves the initiator in.\<close>

definition request_view :: "u16 \<Rightarrow> u16 \<Rightarrow> u16 \<Rightarrow> uwb_dev \<Rightarrow> frame_view \<Rightarrow> frame_view" where
  "request_view seq code dst dev v = v\<lparr>v_fctrl := FCNTL_IEEE_RANGE_16, v_seq_num := ucast seq, v_code := code,
     v_PANID := dev_pan_id dev, v_src_address := dev_my_short_address dev, v_dst_address := dst\<rparr>"

definition request_seq :: "u16 \<Rightarrow> u16 \<Rightarrow> u16" where
  "request_seq code q = q + (if code = UWB_DATA_CODE_SS_TWR \<or> code = UWB_DATA_CODE_SS_TWR_EXT then 1 else 2)"

lemma set_meta_view:
  "frame_ok fr \<Longrightarrow> view (twr_array (set_remote (uwb_rng_clear_twr_data fl) fr)) = view (twr_array fr)"
  "twr_array (set_local g fr) = twr_array fr"
  by (simp_all add: set_remote_def set_local_def view_clear frame_ok_def)

lemma request_frame_view:
  assumes "frame_ok fr" and "\<not> fctrl_req_ack cfg"
  shows "view (twr_array (request_frame fl cfg code dst dev seq fr)) =
    request_view seq code dst dev (view (twr_array fr))"
  using assms
  by (simp add: request_frame_def Let_def view_step set_meta_view request_view_def)

lemma request_start_step:
  fixes fl :: rng_floats and code :: u16 and dst :: u16
  assumes ok: "rng_ok s" and sem: "rng_sem (rs_rng s) = 1" and irq: "dev_irq_sem (rs_dev s) = 1"
    and drv: "driver_ok uf" and cfg: "\<not> fctrl_req_ack cfg" and i: "i < length (rng_frames (rs_rng s))"
  obtains t where "uwb_rng_request_start uf fl i cfg Got_token Got_token dst code s = Some (Waiting t)"
    and "rng_ok t" and "rng_sem (rs_rng t) = 0" and "dev_irq_sem (rs_dev t) = 1"
    and "view (twr_array (frame_at i t)) =
      request_view (request_seq code (rng_seq_num (rs_rng s))) code dst (rs_dev s) (view (twr_array (frame_at i s)))"
    and "last_written (dev_cmds (rs_dev t)) = Some (take 11 (twr_array (frame_at i t)))"
    and "next_slot (rs_rng t) = next_slot (rs_rng s)"
    and "rng_nframes (rs_rng t) = rng_nframes (rs_rng s)"
    and "rng_complete_after_tx (rs_rng t) = rng_complete_after_tx (rs_rng s)"
    and "dev_my_short_address (rs_dev t) = dev_my_short_address (rs_dev s)"
    and "\<not> st_lde_error (dev_status (rs_dev t))"
    and "none_pending t = none_pending s" and "rng_code (rs_rng t) = rng_code (rs_rng s)"
    and "dev_fctrl (rs_dev t) = dev_fctrl (rs_dev s)"
proof
  let ?s = "on_dev (\<lambda>d. d\<lparr>dev_irq_sem := 0\<rparr>) (on_rng (\<lambda>r. r\<lparr>rng_sem := 0\<rparr>) s)"
  let ?t1 = "on_dev (\<lambda>d. d\<lparr>dev_irq_sem := dpl_sem_release (dev_irq_sem d)\<rparr>) (request_transmit uf fl i cfg dst code ?s)"
  let ?t = "on_dev (uwb_start_tx uf) ?t1"
  have ok': "rng_ok ?s" using ok by (simp add: rng_ok_sem)
  have i': "i < length (rng_frames (rs_rng ?s))" using i by (simp add: frame)
  have fok: "frame_ok (frame_at i s)" using frame_at_ok[OF ok i] .
  have tx: "request_start_tx uf ?t1 = ?t"
    using drv by (simp add: request_start_tx_def Let_def start_tx_error_def on_dev_def uwb_start_tx_def
        uwb_command_def driver_ok_def)
  show "uwb_rng_request_start uf fl i cfg Got_token Got_token dst code s = Some (Waiting ?t)"
    using sem irq tx by (simp add: uwb_rng_request_start_def dpl_sem_pend_def Let_def frame)
  show "rng_ok ?t" using ok' by (simp add: request_transmit_ok)
  show "rng_sem (rs_rng ?t) = 0" using ok' by (simp add: request_transmit_ok) (simp add: frame)
  show "dev_irq_sem (rs_dev ?t) = 1"
    by (simp add: request_transmit_def Let_def frame uwb_api_defs dpl_sem_release_def cfg)
  show "view (twr_array (frame_at i ?t)) =
      request_view (request_seq code (rng_seq_num (rs_rng s))) code dst (rs_dev s) (view (twr_array (frame_at i s)))"
    using i fok cfg
    by (simp add: request_transmit_def Let_def frame request_frame_view request_seq_def request_view_def)
  show "last_written (dev_cmds (rs_dev ?t)) = Some (take 11 (twr_array (frame_at i ?t)))"
    using i by (simp add: request_transmit_def Let_def frame uwb_api_defs cfg last_written_append)
  show "next_slot (rs_rng ?t) = next_slot (rs_rng s)" "rng_nframes (rs_rng ?t) = rng_nframes (rs_rng s)"
    "rng_complete_after_tx (rs_rng ?t) = rng_complete_after_tx (rs_rng s)"
    "dev_my_short_address (rs_dev ?t) = dev_my_short_address (rs_dev s)"
    by (simp_all add: request_transmit_def Let_def frame uwb_api_defs cfg next_slot_def)
  show "none_pending ?t = none_pending s" "rng_code (rs_rng ?t) = rng_code (rs_rng s)" "dev_fctrl (rs_dev ?t) = dev_fctrl (rs_dev s)"
    by (simp_all add: request_transmit_def Let_def frame uwb_api_defs cfg)
  show "\<not> st_lde_error (dev_status (rs_dev ?t))"
    using drv by (simp add: frame uwb_api_defs driver_ok_def)
qed

section \<open>The exchange\<close>

lemma on_rx_complete_ss:
  assumes "rng_rx_complete_cb (b_fl B) s = (False, t)"
    and "dev_fctrl (rs_dev t) = FCNTL_IEEE_RANGE_16" and "rng_ok t" and "rng_sem (rs_rng t) = 0"
    and "rng_code (rs_rng t) \<in> {UWB_DATA_CODE_SS_TWR, UWB_DATA_CODE_SS_TWR_T1, UWB_DATA_CODE_SS_TWR_FINAL}"
  shows "on_rx_complete B s = snd (twr_ss_rx_complete_cb (b_uf B) (b_wcs B) (b_ss B) (rng_callback_list B) t)"
proof -
  have "fst (twr_ss_rx_complete_cb (b_uf B) (b_wcs B) (b_ss B) (rng_callback_list B) t)"
    using assms(2,5) sem_free_count[OF assms(3,4)] by (auto simp: twr_ss_rx_complete_cb_def)
  then obtain u where
    "twr_ss_rx_complete_cb (b_uf B) (b_wcs B) (b_ss B) (rng_callback_list B) t = (True, u)"
    by (cases "twr_ss_rx_complete_cb (b_uf B) (b_wcs B) (b_ss B) (rng_callback_list B) t") auto
  then show ?thesis
    using assms(1)
    by (simp add: on_rx_complete_def device_interfaces_eq rng_interface_def twr_ss_interface_def)
qed

lemma on_tx_complete_final:
  assumes "rng_ok s" and "rng_sem (rs_rng s) = 0" and "dev_fctrl (rs_dev s) = FCNTL_IEEE_RANGE_16"
    and "rng_complete_after_tx (rs_rng s)"
    and "in_range UWB_DATA_CODE_SS_TWR UWB_DATA_CODE_DS_TWR_EXT_END (rng_code (rs_rng s))"
  shows "on_tx_complete B s =
    on_rng (\<lambda>r. r\<lparr>rng_complete_after_tx := False\<rparr>)
      (rng_issue_complete (rng_callback_list B) (sem_release (RNG_STATS_INC Tx_complete s)))"
  using assms sem_free_count[OF assms(1,2)]
  by (simp add: on_tx_complete_def device_interfaces_eq rng_interface_def rng_tx_complete_cb_def Let_def frame)

text \<open>With nothing pending, the end of a transmission is only counted, if at all.\<close>

lemma on_tx_complete_none:
  assumes "none_pending s"
  shows "on_tx_complete B s = s \<or> on_tx_complete B s = RNG_STATS_INC Tx_complete s"
proof -
  have "on_rng (\<lambda>r. r\<lparr>rng_complete_after_tx := False\<rparr>) (RNG_STATS_INC Tx_complete s) = RNG_STATS_INC Tx_complete s"
    using assms by (simp add: none_pending_def on_rng_def RNG_STATS_INC_def)
  then have rng: "rng_tx_complete_cb cbs s \<in> {(False, s), (True, RNG_STATS_INC Tx_complete s)}" for cbs
    using assms by (simp add: none_pending_def rng_tx_complete_cb_def Let_def frame)
  have ack: "twr_ss_ack_tx_complete_cb uf wcs cfg h s = (False, s)" for uf wcs cfg h
    using assms by (simp add: none_pending_def twr_ss_ack_tx_complete_cb_def)
  show ?thesis
    using rng[of "rng_callback_list B"] by (auto simp: on_tx_complete_def device_interfaces_eq interface_defs ack)
qed

lemma tx_complete_none_frame:
  assumes "none_pending s"
  shows "rng_ok (on_tx_complete B s) = rng_ok s" "rng_sem (rs_rng (on_tx_complete B s)) = rng_sem (rs_rng s)"
    "rs_dev (on_tx_complete B s) = rs_dev s" "rng_nframes (rs_rng (on_tx_complete B s)) = rng_nframes (rs_rng s)"
    "none_pending (on_tx_complete B s)" "transmitted (on_tx_complete B s) = transmitted s"
    "tx_stamp uf wcs (on_tx_complete B s) = tx_stamp uf wcs s"
proof -
  have sum: "tx_stamp uf wcs (RNG_STATS_INC Tx_complete s) = tx_stamp uf wcs s" "transmitted (RNG_STATS_INC Tx_complete s) = transmitted s"
    by (simp_all add: tx_stamp_def transmitted_def RNG_STATS_INC_def cong: option.case_cong)
  show "rng_ok (on_tx_complete B s) = rng_ok s" "rng_sem (rs_rng (on_tx_complete B s)) = rng_sem (rs_rng s)"
    "rs_dev (on_tx_complete B s) = rs_dev s" "rng_nframes (rs_rng (on_tx_complete B s)) = rng_nframes (rs_rng s)"
    "none_pending (on_tx_complete B s)" "transmitted (on_tx_complete B s) = transmitted s"
    "tx_stamp uf wcs (on_tx_complete B s) = tx_stamp uf wcs s"
    using on_tx_complete_none[OF assms, of B] assms by (elim disjE; simp only: sum frame; simp add: frame)+
qed

lemma ss_codes_in_range:
  "in_range UWB_DATA_CODE_SS_TWR UWB_DATA_CODE_DS_TWR_EXT_END UWB_DATA_CODE_SS_TWR"
  "in_range UWB_DATA_CODE_SS_TWR UWB_DATA_CODE_DS_TWR_EXT_END UWB_DATA_CODE_SS_TWR_T1"
  "in_range UWB_DATA_CODE_SS_TWR UWB_DATA_CODE_DS_TWR_EXT_END UWB_DATA_CODE_SS_TWR_FINAL"
  by (simp_all add: in_range_def codes)

lemma ss_codes_distinct:
  "UWB_DATA_CODE_SS_TWR_T1 \<noteq> UWB_DATA_CODE_SS_TWR" "UWB_DATA_CODE_SS_TWR_FINAL \<noteq> UWB_DATA_CODE_SS_TWR"
  "UWB_DATA_CODE_SS_TWR_FINAL \<noteq> UWB_DATA_CODE_SS_TWR_T1"
  by (simp_all add: codes)

text \<open>
  The initiator \<open>a\<close> asks \<open>dst\<close>; the responder \<open>b\<close> receives the request at \<open>tq\<close>, the
  initiator the reply at \<open>tr\<close>, the responder the final frame at \<open>tf\<close>; \<open>c1\<close>, \<open>c2\<close>,
  \<open>c3\<close> are what the receivers' carrier integrators read. The sender of each frame runs its
  transmission callbacks before the answer reaches it. The result: the initiator waiting for
  the reply, its request sent, and both sides at the end.
\<close>

definition ss_twr_exchange ::
  "rng_build \<Rightarrow> rng_build \<Rightarrow> u16 \<Rightarrow> u64 \<times> u64 \<times> u64 \<Rightarrow> u32 \<times> u32 \<times> u32 \<Rightarrow> rng_state \<Rightarrow> rng_state
     \<Rightarrow> (rng_state \<times> rng_state \<times> rng_state) option" where
  "ss_twr_exchange BA BB dst stamps carriers a b =
     (case (stamps, carriers, uwb_rng_request_enter (b_rng BA) UWB_DATA_CODE_SS_TWR a) of
        ((tq, tr, tf), (c1, c2, c3), (i, cfg, a0)) \<Rightarrow>
        (case uwb_rng_request_start (b_uf BA) (b_fl BA) i cfg Got_token Got_token dst UWB_DATA_CODE_SS_TWR a0 of
           Some (Waiting a') \<Rightarrow>
             let a1 = on_tx_complete BA a';
                 b' = on_rx_complete BB (deliver (transmitted a') tq c1 b);
                 b1 = on_tx_complete BB b';
                 a2 = on_rx_complete BA (deliver (transmitted b') tr c2 a1);
                 a3 = on_tx_complete BA a2;
                 b2 = on_rx_complete BB (deliver (transmitted a2) tf c3 b1)
             in Some (a1, a3, b2)
         | _ \<Rightarrow> None))"

definition cur_view :: "rng_state \<Rightarrow> frame_view" where
  "cur_view s = view (twr_array (frame_at (cur_slot (rs_rng s)) s))"

text \<open>Each stage takes a state and the bytes that arrive, and yields the bytes sent in turn.\<close>

lemma frame_slot_ok: "rng_ok s \<Longrightarrow> length (twr_array (frame_at (next_slot (rs_rng s)) s)) = 136"
  using frame_at_ok slot_less(2) by (auto simp: frame_ok_def)

lemma sent_length: "rng_ok s \<Longrightarrow> length (twr_array (frame_at (cur_slot (rs_rng s)) s)) = 136"
  using frame_at_ok slot_less(1) by (auto simp: frame_ok_def)

lemma fctrl_take: "length m = 136 \<Longrightarrow> n = 11 \<or> n = 19 \<or> n = 31 \<Longrightarrow> get_le16 (take n m) 0 = v_fctrl (view m)"
  by (auto simp: view_def field_take)

lemma ss_reply_stage:
  fixes tq :: u64 and c1 :: u32 and B :: rng_build
  assumes ok: "rng_ok b" and sem: "rng_sem (rs_rng b) = 0" and ring: "unat (rng_nframes (rs_rng b)) dvd 65536"
    and drv: "driver_ok (b_uf B)" and m: "length m = 136"
    and v: "v_fctrl (view m) = FCNTL_IEEE_RANGE_16" "v_code (view m) = UWB_DATA_CODE_SS_TWR"
      "v_dst_address (view m) = dev_my_short_address (rs_dev b)"
  defines "b1 \<equiv> on_rx_complete B (deliver (take 11 m) tq c1 b)"
  obtains mb where "transmitted b1 = take 19 mb" and "length mb = 136"
    and "rng_ok b1" and "rng_sem (rs_rng b1) = 0" and "rng_nframes (rs_rng b1) = rng_nframes (rs_rng b)"
    and "dev_my_short_address (rs_dev b1) = dev_my_short_address (rs_dev b)"
    and "v_fctrl (view mb) = FCNTL_IEEE_RANGE_16" and "v_code (view mb) = UWB_DATA_CODE_SS_TWR_T1"
    and "v_dst_address (view mb) = v_src_address (view m)"
    and "v_src_address (view mb) = dev_my_short_address (rs_dev b)"
    and "v_reception_timestamp (view mb) = stamp (b_wcs B) tq"
    and "v_transmission_timestamp (view mb) =
      stamp (b_wcs B) (response_timestamp (uwb_rng_calc_rel_tx (b_uf B) b (b_ss B) tq 11))"
    and "none_pending b1 = none_pending b"
proof
  define rb where "rb = received (b_fl B) (take 11 m) tq c1 b"
  note rx = rx_accepts[OF ok sem ring _ m, of 11 "b_fl B" tq c1, folded rb_def]
  have rb: "rng_rx_complete_cb (b_fl B) (deliver (take 11 m) tq c1 b) = (False, rb)" "rng_ok rb"
    "rng_sem (rs_rng rb) = 0" "rng_code (rs_rng rb) = UWB_DATA_CODE_SS_TWR"
    "rs_dev rb = rs_dev (deliver (take 11 m) tq c1 b)" "rng_nframes (rs_rng rb) = rng_nframes (rs_rng b)"
    "rng_frame_shr_duration (rs_rng rb) = rng_frame_shr_duration (rs_rng b)"
    using rx v ss_codes_in_range by simp_all
  have vrb: "v_src_address (cur_view rb) = v_src_address (view m)" "v_fctrl (cur_view rb) = FCNTL_IEEE_RANGE_16"
    using rx(7) v m frame_slot_ok[OF ok] ss_codes_in_range by (simp_all add: cur_view_def view_load)
  have fctrl: "dev_fctrl (rs_dev rb) = FCNTL_IEEE_RANGE_16" using rb(5) fctrl_take[OF m] v(1) by simp
  have b1: "b1 = twr_ss_respond (b_uf B) (b_wcs B) (b_ss B) rb"
    using on_rx_complete_ss[OF rb(1) fctrl rb(2,3)] rb(4) fctrl sem_free_count[OF rb(2,3)]
    by (simp add: twr_ss_rx_complete_cb_def b1_def)
  have txd: "uwb_rng_calc_rel_tx (b_uf B) rb (b_ss B) (dev_rxtimestamp (rs_dev rb)) (dev_frame_len (rs_dev rb))
      = uwb_rng_calc_rel_tx (b_uf B) b (b_ss B) tq 11"
    using rb(5,7) m by (simp add: uwb_rng_calc_rel_tx_def Let_def)
  note st = twr_ss_respond_step[OF rb(2,3) drv, of "b_wcs B" "b_ss B", folded b1]
  let ?mb = "twr_array (frame_at (cur_slot (rs_rng rb)) b1)"
  have vmb: "view ?mb = ss_reply_view (b_wcs B) (uwb_rng_calc_rel_tx (b_uf B) b (b_ss B) tq 11) (rs_dev rb) (cur_view rb)"
    using st(1) txd by (simp add: cur_view_def)
  show "transmitted b1 = take 19 ?mb" using st(2) by (simp add: transmitted_def last_written_append)
  show "length ?mb = 136" using sent_length[OF st(4)] st(5) by simp
  show "rng_ok b1" "rng_sem (rs_rng b1) = 0" "rng_nframes (rs_rng b1) = rng_nframes (rs_rng b)"
    "dev_my_short_address (rs_dev b1) = dev_my_short_address (rs_dev b)"
    using st(3,4,7,10) rb(5,6) by simp_all
  show "none_pending b1 = none_pending b" using st(11) rx(12) v ss_codes_in_range by simp
  show "v_fctrl (view ?mb) = FCNTL_IEEE_RANGE_16" "v_code (view ?mb) = UWB_DATA_CODE_SS_TWR_T1"
    "v_dst_address (view ?mb) = v_src_address (view m)"
    "v_src_address (view ?mb) = dev_my_short_address (rs_dev b)"
    "v_reception_timestamp (view ?mb) = stamp (b_wcs B) tq"
    "v_transmission_timestamp (view ?mb) =
      stamp (b_wcs B) (response_timestamp (uwb_rng_calc_rel_tx (b_uf B) b (b_ss B) tq 11))"
    using vmb vrb rb(5) by (simp_all add: ss_reply_view_def)
qed

lemma ss_final_stage:
  fixes tr :: u64 and c2 :: u32 and B :: rng_build
  assumes ok: "rng_ok a" and sem: "rng_sem (rs_rng a) = 0" and ring: "unat (rng_nframes (rs_rng a)) dvd 65536"
    and drv: "driver_ok (b_uf B)" and m: "length m = 136" and lde: "\<not> st_lde_error (dev_status (rs_dev a))"
    and v: "v_fctrl (view m) = FCNTL_IEEE_RANGE_16" "v_code (view m) = UWB_DATA_CODE_SS_TWR_T1"
      "v_dst_address (view m) = dev_my_short_address (rs_dev a)"
  defines "a2 \<equiv> on_rx_complete B (deliver (take 19 m) tr c2 a)"
  obtains mc where "transmitted a2 = take 31 mc" and "length mc = 136"
    and "v_fctrl (view mc) = FCNTL_IEEE_RANGE_16" and "v_code (view mc) = UWB_DATA_CODE_SS_TWR_FINAL"
    and "v_dst_address (view mc) = v_src_address (view m)"
    and "v_reception_timestamp (view mc) = v_reception_timestamp (view m)"
    and "v_transmission_timestamp (view mc) = v_transmission_timestamp (view m)"
    and "v_request_timestamp (view mc) = tx_stamp (b_uf B) (b_wcs B) a"
    and "v_response_timestamp (view mc) = stamp (b_wcs B) tr"
    and "v_carrier_integrator (view mc) = c2"
    and "rng_sem (rs_rng (on_tx_complete B a2)) = 1" and "cur_view (on_tx_complete B a2) = view mc"
    and "none_pending a \<Longrightarrow> none_pending (on_tx_complete B a2)" and "rng_ok (on_tx_complete B a2)"
proof
  define ra where "ra = received (b_fl B) (take 19 m) tr c2 a"
  note rx = rx_accepts[OF ok sem ring _ m, of 19 "b_fl B" tr c2, folded ra_def]
  have ra: "rng_rx_complete_cb (b_fl B) (deliver (take 19 m) tr c2 a) = (False, ra)" "rng_ok ra"
    "rng_sem (rs_rng ra) = 0" "rng_code (rs_rng ra) = UWB_DATA_CODE_SS_TWR_T1"
    "rs_dev ra = rs_dev (deliver (take 19 m) tr c2 a)"
    using rx v ss_codes_in_range by simp_all
  have vra: "v_fctrl (cur_view ra) = FCNTL_IEEE_RANGE_16" "v_src_address (cur_view ra) = v_src_address (view m)"
    "v_reception_timestamp (cur_view ra) = v_reception_timestamp (view m)"
    "v_transmission_timestamp (cur_view ra) = v_transmission_timestamp (view m)"
    using rx(7) v m frame_slot_ok[OF ok] ss_codes_in_range by (simp_all add: cur_view_def view_load Let_def)
  have d: "dev_frame_len (rs_dev ra) = 19" "\<not> st_lde_error (dev_status (rs_dev ra))"
    "dev_fctrl (rs_dev ra) = FCNTL_IEEE_RANGE_16"
    using ra(5) m lde fctrl_take[OF m] v(1) by simp_all
  have a2: "a2 = twr_ss_report (b_uf B) (b_wcs B) (b_ss B) (rng_callback_list B) ra"
    using on_rx_complete_ss[OF ra(1) d(3) ra(2,3)] ra(4) d(3) sem_free_count[OF ra(2,3)] ss_codes_distinct
    by (simp add: twr_ss_rx_complete_cb_def a2_def)
  note st = twr_ss_report_step[OF ra(2,3) drv d(1,2), of "b_wcs B" "b_ss B" B, folded a2]
  let ?mc = "twr_array (frame_at (cur_slot (rs_rng ra)) a2)"
  have "tx_stamp (b_uf B) (b_wcs B) ra = tx_stamp (b_uf B) (b_wcs B) a"
    using ra(5) by (simp add: tx_stamp_def uwb_api_defs split: option.splits)
  then have vmc: "view ?mc = ss_final_view (b_wcs B) (tx_stamp (b_uf B) (b_wcs B) a) (rs_dev ra) (cur_view ra)"
    using st(1) by (simp add: cur_view_def)
  show "transmitted a2 = take 31 ?mc" using st(2) by (simp add: transmitted_def last_written_append)
  show "length ?mc = 136" using sent_length[OF st(4)] st(5) by simp
  show "v_fctrl (view ?mc) = FCNTL_IEEE_RANGE_16" "v_code (view ?mc) = UWB_DATA_CODE_SS_TWR_FINAL"
    "v_dst_address (view ?mc) = v_src_address (view m)"
    "v_reception_timestamp (view ?mc) = v_reception_timestamp (view m)"
    "v_transmission_timestamp (view ?mc) = v_transmission_timestamp (view m)"
    "v_request_timestamp (view ?mc) = tx_stamp (b_uf B) (b_wcs B) a"
    "v_response_timestamp (view ?mc) = stamp (b_wcs B) tr" "v_carrier_integrator (view ?mc) = c2"
    using vmc vra ra(5) by (simp_all add: ss_final_view_def)
  have "in_range UWB_DATA_CODE_SS_TWR UWB_DATA_CODE_DS_TWR_EXT_END (rng_code (rs_rng a2))"
    "dev_fctrl (rs_dev a2) = FCNTL_IEEE_RANGE_16"
    using st(7,8) ra(4) d(3) ss_codes_in_range by simp_all
  note fin = on_tx_complete_final[OF st(4) st(3) this(2) st(6) this(1), of B]
  have rel: "rng_ok (sem_release (RNG_STATS_INC Tx_complete a2))" using st(3,4) by (simp add: rng_ok_sem_release)
  show "rng_sem (rs_rng (on_tx_complete B a2)) = 1" "cur_view (on_tx_complete B a2) = view ?mc"
    unfolding fin using issue_complete_frames[OF rel] st(3,5)
    by (simp_all add: sem_on_rng cur_view_def frame cur_slot_def)
  show "rng_ok (on_tx_complete B a2)" unfolding fin using issue_complete_frames(4)[OF rel] by (simp add: rng_ok_on_rng)
  show "none_pending (on_tx_complete B a2)" if "none_pending a"
  proof -
    have "\<not> rng_tx_ack_expected (rs_rng a2)"
      using that st(9) rx(12) v ss_codes_in_range by (simp add: none_pending_def)
    then show ?thesis
      unfolding fin using issue_complete_frames(6)[OF rel] by (simp add: none_pending_def on_rng_def RNG_STATS_INC_def sem_release_def)
  qed
qed

lemma ss_end_stage:
  fixes tf :: u64 and c3 :: u32 and B :: rng_build
  assumes ok: "rng_ok b" and sem: "rng_sem (rs_rng b) = 0" and ring: "unat (rng_nframes (rs_rng b)) dvd 65536"
    and m: "length m = 136"
    and v: "v_fctrl (view m) = FCNTL_IEEE_RANGE_16" "v_code (view m) = UWB_DATA_CODE_SS_TWR_FINAL"
      "v_dst_address (view m) = dev_my_short_address (rs_dev b)"
  defines "b2 \<equiv> on_rx_complete B (deliver (take 31 m) tf c3 b)"
  shows "rng_sem (rs_rng b2) = 1" and "cur_view b2 = view m" and "none_pending b2 = none_pending b" and "rng_ok b2"
proof -
  define rb where "rb = received (b_fl B) (take 31 m) tf c3 b"
  note rx = rx_accepts[OF ok sem ring _ m, of 31 "b_fl B" tf c3, folded rb_def]
  have rb: "rng_rx_complete_cb (b_fl B) (deliver (take 31 m) tf c3 b) = (False, rb)" "rng_ok rb"
    "rng_sem (rs_rng rb) = 0" "rng_code (rs_rng rb) = UWB_DATA_CODE_SS_TWR_FINAL"
    "rs_dev rb = rs_dev (deliver (take 31 m) tf c3 b)"
    using rx v ss_codes_in_range by simp_all
  have vrb: "cur_view rb = view m"
    using rx(7) v m frame_slot_ok[OF ok] ss_codes_in_range by (simp add: cur_view_def view_load Let_def)
  have d: "dev_fctrl (rs_dev rb) = FCNTL_IEEE_RANGE_16" "dev_frame_len (rs_dev rb) = 31"
    using rb(5) m fctrl_take[OF m] v(1) by simp_all
  have b2: "b2 = finish_exchange (rng_callback_list B) Ss_complete rb"
    using on_rx_complete_ss[OF rb(1) d(1) rb(2,3)] rb(4) d sem_free_count[OF rb(2,3)] ss_codes_distinct
    by (simp add: twr_ss_rx_complete_cb_def b2_def)
  have rel: "rng_ok (sem_release (TWR_STATS_INC Ss_complete rb))" using rb(2,3) by (simp add: rng_ok_sem_release)
  show "rng_sem (rs_rng b2) = 1" "cur_view b2 = view m"
    unfolding b2 finish_exchange_def using issue_complete_frames[OF rel] rb(3) vrb
    by (simp_all add: cur_view_def frame cur_slot_def)
  show "none_pending b2 = none_pending b" "rng_ok b2"
    unfolding b2 finish_exchange_def using issue_complete_frames(4,5)[OF rel] rx(12) v ss_codes_in_range by (simp_all add: frame)
qed

lemma ss_exchange_complete:
  assumes oka: "rng_ok a" and okb: "rng_ok b"
    and sema: "rng_sem (rs_rng a) = 1" and irq: "dev_irq_sem (rs_dev a) = 1"
    and semb: "rng_sem (rs_rng b) = 0"
    and ringa: "unat (rng_nframes (rs_rng a)) dvd 65536" and ringb: "unat (rng_nframes (rs_rng b)) dvd 65536"
    and drva: "driver_ok (b_uf BA)" and drvb: "driver_ok (b_uf BB)"
    and cfg: "\<not> fctrl_req_ack (uwb_rng_get_config (b_rng BA) (rs_rng a) UWB_DATA_CODE_SS_TWR)"
    and penda: "none_pending a" and pendb: "none_pending b"
    and dst: "dst = dev_my_short_address (rs_dev b)"
  obtains a1 a3 b2 where "ss_twr_exchange BA BB dst (tq, tr, tf) (c1, c2, c3) a b = Some (a1, a3, b2)"
    and "rng_sem (rs_rng a1) = 0" and "rng_sem (rs_rng a3) = 1" and "rng_sem (rs_rng b2) = 1"
    and "cur_view b2 = cur_view a3"
    and "v_code (cur_view a3) = UWB_DATA_CODE_SS_TWR_FINAL"
    and "v_reception_timestamp (cur_view a3) = stamp (b_wcs BB) tq"
    and "v_transmission_timestamp (cur_view a3) =
      stamp (b_wcs BB) (response_timestamp (uwb_rng_calc_rel_tx (b_uf BB) b (b_ss BB) tq 11))"
    and "v_request_timestamp (cur_view a3) = tx_stamp (b_uf BA) (b_wcs BA) a1"
    and "v_response_timestamp (cur_view a3) = stamp (b_wcs BA) tr"
    and "v_carrier_integrator (cur_view a3) = c2"
    and "none_pending a3" and "none_pending b2" and "rng_ok a3" and "rng_ok b2"
proof -
  let ?i = "next_slot (rs_rng a)" and ?a0 = "RNG_STATS_INC Rng_request a"
  let ?cfg = "uwb_rng_get_config (b_rng BA) (rs_rng a) UWB_DATA_CODE_SS_TWR"
  have a0: "rng_ok ?a0" "rng_sem (rs_rng ?a0) = 1" "dev_irq_sem (rs_dev ?a0) = 1" "?i < length (rng_frames (rs_rng ?a0))"
    "next_slot (rs_rng ?a0) = ?i"
    using oka sema irq slot_less(2)[OF oka] by (simp_all add: frame)
  obtain a1 where a1: "uwb_rng_request_start (b_uf BA) (b_fl BA) ?i ?cfg Got_token Got_token dst UWB_DATA_CODE_SS_TWR ?a0
      = Some (Waiting a1)" "rng_ok a1" "rng_sem (rs_rng a1) = 0"
    "view (twr_array (frame_at ?i a1)) = request_view (request_seq UWB_DATA_CODE_SS_TWR (rng_seq_num (rs_rng ?a0)))
       UWB_DATA_CODE_SS_TWR dst (rs_dev ?a0) (view (twr_array (frame_at ?i ?a0)))"
    "last_written (dev_cmds (rs_dev a1)) = Some (take 11 (twr_array (frame_at ?i a1)))"
    "next_slot (rs_rng a1) = next_slot (rs_rng ?a0)" "rng_nframes (rs_rng a1) = rng_nframes (rs_rng ?a0)"
    "dev_my_short_address (rs_dev a1) = dev_my_short_address (rs_dev ?a0)"
    "\<not> st_lde_error (dev_status (rs_dev a1))" "none_pending a1 = none_pending ?a0"
    by (rule request_start_step[OF a0(1-3) drva cfg a0(4), of "b_fl BA" dst UWB_DATA_CODE_SS_TWR])
  let ?ma = "twr_array (frame_at ?i a1)"
  have lma: "length ?ma = 136" using frame_slot_ok[OF a1(2)] a1(6) a0(5) by simp
  have tx1: "transmitted a1 = take 11 ?ma" using a1(5) by (simp add: transmitted_def)
  have vma: "v_fctrl (view ?ma) = FCNTL_IEEE_RANGE_16" "v_code (view ?ma) = UWB_DATA_CODE_SS_TWR"
    "v_dst_address (view ?ma) = dev_my_short_address (rs_dev b)"
    "v_src_address (view ?ma) = dev_my_short_address (rs_dev a1)"
    using a1(4,8) dst by (simp_all add: request_view_def frame)
  let ?b1 = "on_rx_complete BB (deliver (transmitted a1) tq c1 b)"
  obtain mb where mb: "transmitted ?b1 = take 19 mb" "length mb = 136" "rng_ok ?b1" "rng_sem (rs_rng ?b1) = 0"
    "rng_nframes (rs_rng ?b1) = rng_nframes (rs_rng b)"
    "dev_my_short_address (rs_dev ?b1) = dev_my_short_address (rs_dev b)"
    "v_fctrl (view mb) = FCNTL_IEEE_RANGE_16" "v_code (view mb) = UWB_DATA_CODE_SS_TWR_T1"
    "v_dst_address (view mb) = v_src_address (view ?ma)" "v_src_address (view mb) = dev_my_short_address (rs_dev b)"
    "v_reception_timestamp (view mb) = stamp (b_wcs BB) tq"
    "v_transmission_timestamp (view mb) =
      stamp (b_wcs BB) (response_timestamp (uwb_rng_calc_rel_tx (b_uf BB) b (b_ss BB) tq 11))"
    "none_pending ?b1 = none_pending b"
    by (rule ss_reply_stage[OF okb semb ringb drvb lma vma(1-3), of tq c1, folded tx1])
  let ?a' = "on_tx_complete BA a1" and ?b' = "on_tx_complete BB ?b1"
  have pend1: "none_pending a1" "none_pending ?b1" using a1(10) mb(13) penda pendb by (simp_all add: frame)
  note a' = tx_complete_none_frame[OF pend1(1), where B = BA] and b' = tx_complete_none_frame[OF pend1(2), where B = BB]
  let ?a2 = "on_rx_complete BA (deliver (transmitted ?b1) tr c2 ?a')"
  have sides: "rng_ok ?a'" "rng_sem (rs_rng ?a') = 0" "unat (rng_nframes (rs_rng ?a')) dvd 65536"
    "\<not> st_lde_error (dev_status (rs_dev ?a'))" "v_dst_address (view mb) = dev_my_short_address (rs_dev ?a')"
    using a' a1 ringa mb(9) vma(4) by (simp_all add: frame)
  obtain mc where mc: "transmitted ?a2 = take 31 mc" "length mc = 136"
    "v_fctrl (view mc) = FCNTL_IEEE_RANGE_16" "v_code (view mc) = UWB_DATA_CODE_SS_TWR_FINAL"
    "v_dst_address (view mc) = v_src_address (view mb)"
    "v_reception_timestamp (view mc) = v_reception_timestamp (view mb)"
    "v_transmission_timestamp (view mc) = v_transmission_timestamp (view mb)"
    "v_request_timestamp (view mc) = tx_stamp (b_uf BA) (b_wcs BA) ?a'"
    "v_response_timestamp (view mc) = stamp (b_wcs BA) tr" "v_carrier_integrator (view mc) = c2"
    "rng_sem (rs_rng (on_tx_complete BA ?a2)) = 1" "cur_view (on_tx_complete BA ?a2) = view mc"
    "none_pending (on_tx_complete BA ?a2)" "rng_ok (on_tx_complete BA ?a2)"
    by (rule ss_final_stage[OF sides(1-3) drva mb(2) sides(4) mb(7,8) sides(5), of tr c2, folded mb(1)]) (use a'(5) in blast)
  have sides2: "rng_ok ?b'" "rng_sem (rs_rng ?b') = 0" "unat (rng_nframes (rs_rng ?b')) dvd 65536"
    "v_dst_address (view mc) = dev_my_short_address (rs_dev ?b')"
    using b' mb ringb mc(5) by simp_all
  note fin = ss_end_stage[OF sides2(1-3) mc(2-4) sides2(4), of BB tf c3, folded mc(1)]
  have ex: "ss_twr_exchange BA BB dst (tq, tr, tf) (c1, c2, c3) a b = Some (?a', on_tx_complete BA ?a2,
      on_rx_complete BB (deliver (transmitted ?a2) tf c3 ?b'))"
    using a1(1) by (simp add: ss_twr_exchange_def uwb_rng_request_enter_def Let_def)
  show thesis
    by (rule that[OF ex]) (use sides(2) b'(5) mb mc fin in simp_all)
qed

section \<open>The second round of a double-sided exchange\<close>

text \<open>
  The initiator opens the second round in the next slot of its ring. It sets the
  addresses, the sequence number, the code and the timestamps of that frame, but
  neither its frame control nor its PAN id: those are sent as the slot has them.
\<close>

lemma twr_ds_second_round_sends:
  assumes ok: "rng_ok s" and drv: "driver_ok uf"
    and lde: "\<not> st_lde_error (dev_status (rs_dev s))" and len: "dev_frame_len (rs_dev s) = 19"
    and two: "cur_slot (rs_rng s) \<noteq> next_slot (rs_rng s)"
  obtains m where "transmitted (twr_ds_second_round uf wcs cfg s) = take 31 m" and "length m = 136"
    and "v_fctrl (view m) = fr_fctrl (frame_at (next_slot (rs_rng s)) s)"
    and "v_PANID (view m) = fr_PANID (frame_at (next_slot (rs_rng s)) s)"
    and "v_code (view m) = UWB_DATA_CODE_DS_TWR_T2"
    and "v_dst_address (view m) = fr_src_address (frame_at (cur_slot (rs_rng s)) s)"
    and "v_src_address (view m) = dev_my_short_address (rs_dev s)"
    and "v_seq_num (view m) = fr_seq_num (frame_at (cur_slot (rs_rng s)) s) + 1"
    and "v_request_timestamp (view m) = uwb_read_txtime_lo32 uf (rs_dev s)"
    and "v_response_timestamp (view m) = ucast (dev_rxtimestamp (rs_dev s) AND 0xFFFFFFFF)"
    and "v_reception_timestamp (view m) = ucast (dev_rxtimestamp (rs_dev s) AND 0xFFFFFFFF)"
proof
  let ?i = "cur_slot (rs_rng s)" and ?j = "next_slot (rs_rng s)"
  let ?t = "twr_ds_second_round uf wcs cfg s"
  let ?m = "twr_array (frame_at ?j ?t)"
  have il: "?i < length (rng_frames (rs_rng s))" "?j < length (rng_frames (rs_rng s))"
    using slot_less[OF ok] by auto
  have fok: "frame_ok (frame_at ?i s)" "frame_ok (frame_at ?j s)" using frame_at_ok[OF ok] il by auto
  have dev: "rs_dev (twr_ds_open_second uf wcs c s) = rs_dev s" for c
    by (simp add: twr_ds_open_second_def Let_def frame)
  have opened: "view (twr_array (frame_at ?j (twr_ds_open_second uf wcs c s))) =
      (view (twr_array (frame_at ?j s)))\<lparr>v_request_timestamp := uwb_read_txtime_lo32 uf (rs_dev s),
        v_response_timestamp := ucast (dev_rxtimestamp (rs_dev s) AND 0xFFFFFFFF),
        v_dst_address := fr_src_address (frame_at ?i s), v_src_address := dev_my_short_address (rs_dev s),
        v_seq_num := fr_seq_num (frame_at ?i s) + 1, v_code := c\<rparr>" for c
    using il fok two by (simp add: twr_ds_open_second_def Let_def frame view_step view_fields)
  let ?u = "twr_ds_open_second uf wcs UWB_DATA_CODE_DS_TWR_T2 s"
  have u: "rng_ok ?u" "length (rng_frames (rs_rng ?u)) = length (rng_frames (rs_rng s))"
    using open_second_ok(1)[OF ok] by (simp_all add: twr_ds_open_second_def Let_def frame)
  have fu: "frame_ok (frame_at ?j ?u)" using frame_at_ok[OF u(1)] u(2) il by simp
  note unf = twr_ds_second_round_def Let_def start_tx_ok[OF drv]
  show "transmitted ?t = take 31 ?m"
    unfolding unf using lde len il u(2)
    by (simp add: transmitted_def frame uwb_api_defs last_written_append dev)
  show "length ?m = 136"
    unfolding unf using lde len il u(2) fu by (simp add: frame dev) (simp add: frame_ok_def layout)
  have v: "view ?m = (view (twr_array (frame_at ?j ?u)))\<lparr>
      v_reception_timestamp := ucast (dev_rxtimestamp (rs_dev s) AND 0xFFFFFFFF),
      v_transmission_timestamp := ucast (response_timestamp
        (uwb_rng_calc_rel_tx uf ?u cfg (dev_rxtimestamp (rs_dev s)) 19) AND 0xFFFFFFFF)\<rparr>"
    unfolding unf using lde len il u(2) fu by (simp add: frame dev view_step)
  show "v_fctrl (view ?m) = fr_fctrl (frame_at ?j s)" "v_PANID (view ?m) = fr_PANID (frame_at ?j s)"
    "v_code (view ?m) = UWB_DATA_CODE_DS_TWR_T2" "v_dst_address (view ?m) = fr_src_address (frame_at ?i s)"
    "v_src_address (view ?m) = dev_my_short_address (rs_dev s)"
    "v_seq_num (view ?m) = fr_seq_num (frame_at ?i s) + 1"
    "v_request_timestamp (view ?m) = uwb_read_txtime_lo32 uf (rs_dev s)"
    "v_response_timestamp (view ?m) = ucast (dev_rxtimestamp (rs_dev s) AND 0xFFFFFFFF)"
    "v_reception_timestamp (view ?m) = ucast (dev_rxtimestamp (rs_dev s) AND 0xFFFFFFFF)"
    unfolding v opened by (simp_all add: view_fields)
qed

text \<open>A frame that is not a ranging frame ends the exchange of a device that waits for one.\<close>

lemma rx_other_frame:
  assumes "rng_ok s" and "rng_sem (rs_rng s) = 0" and "length m = 136"
    and "v_fctrl (view m) \<noteq> FCNTL_IEEE_RANGE_16"
    and "v_fctrl (view m) \<noteq> FCNTL_IEEE_RANGE_16 OR UWB_FCTRL_ACK_REQUESTED"
    and "v_fctrl (view m) \<noteq> UWB_FCTRL_FRAME_TYPE_ACK"
  shows "rng_rx_complete_cb fl (deliver (take 31 m) ts c s) =
    (False, sem_release (RNG_STATS_INC Rx_other_frame (deliver (take 31 m) ts c s)))"
  using assms sem_free_count[of "deliver (take 31 m) ts c s"] fctrl_take[of m 31]
  by (simp add: rng_rx_complete_cb_def Let_def)

definition ss_stamps :: "rng_build \<Rightarrow> rng_build \<Rightarrow> u64 \<Rightarrow> u64 \<Rightarrow> rng_state \<Rightarrow> rng_state \<Rightarrow> u32 \<times> u32 \<times> u32 \<times> u32" where
  "ss_stamps BA BB tq tr b a1 =
     (tx_stamp (b_uf BA) (b_wcs BA) a1, stamp (b_wcs BB) tq,
      stamp (b_wcs BB) (response_timestamp (uwb_rng_calc_rel_tx (b_uf BB) b (b_ss BB) tq 11)),
      stamp (b_wcs BA) tr)"

lemma ss_exchange_result:
  assumes oka: "rng_ok a" and okb: "rng_ok b"
    and sema: "rng_sem (rs_rng a) = 1" and irq: "dev_irq_sem (rs_dev a) = 1"
    and semb: "rng_sem (rs_rng b) = 0"
    and ringa: "unat (rng_nframes (rs_rng a)) dvd 65536" and ringb: "unat (rng_nframes (rs_rng b)) dvd 65536"
    and drva: "driver_ok (b_uf BA)" and drvb: "driver_ok (b_uf BB)"
    and cfg: "\<not> fctrl_req_ack (uwb_rng_get_config (b_rng BA) (rs_rng a) UWB_DATA_CODE_SS_TWR)"
    and pend: "none_pending a" "none_pending b"
    and ex: "ss_twr_exchange BA BB (dev_my_short_address (rs_dev b)) (tq, tr, tf) (c1, c2, c3) a b = Some (a1, a3, b2)"
    and st: "ss_stamps BA BB tq tr b a1 = (q, p, t, r)" and s: "s \<in> {a3, b2}"
  shows "v_code (cur_view s) = UWB_DATA_CODE_SS_TWR_FINAL \<and> v_request_timestamp (cur_view s) = q \<and>
    v_reception_timestamp (cur_view s) = p \<and> v_transmission_timestamp (cur_view s) = t \<and>
    v_response_timestamp (cur_view s) = r"
  by (rule ss_exchange_complete[OF oka okb sema irq semb ringa ringb drva drvb cfg pend refl, of tq tr tf c1 c2 c3])
    (use ex st s in \<open>auto simp: ss_stamps_def\<close>)

lemma tof_of_final:
  assumes "v_code (cur_view s) = UWB_DATA_CODE_SS_TWR_FINAL"
  shows "uwb_rng_twr_to_tof fl uf (Some w) s (rng_idx (rs_rng s)) =
    calc_tof_ss fl (v_response_timestamp (cur_view s)) (v_request_timestamp (cur_view s))
      (ucast (v_transmission_timestamp (cur_view s))) (ucast (v_reception_timestamp (cur_view s))) (f64_init fl 0)"
  using assms unfolding cur_view_def
  by (simp add: uwb_rng_twr_to_tof_def Let_def cur_slot_def view_fields in_range_def codes)

end
