(* ===== verification/Dpl_Mempool.thy ===== *)
theory Dpl_Mempool
  imports Dpl_Sem
begin

text \<open>
  Memory pools, porting/dpl\_lib/src/dpl\_mempool.c: a pool cuts one buffer into equal
  blocks and keeps the free ones on a list threaded through the blocks themselves. The
  state is the memory the code touches: the next pointer in every block, the contents
  of the block behind that pointer (used by the mbufs), the pool structures and the
  global queue of pools. Addresses are 64-bit words, 0 is NULL. A store through NULL is
  \<open>None\<close> where a body can make one; the reads through the free list's head are of blocks
  the invariant \<open>pool_ok\<close> shows to be non-NULL. The pool's mutex and the critical section bracket each body and change
  nothing here.
\<close>

unbundle bit_operations_syntax

section \<open>State\<close>

type_synonym addr = u64

record dpl_mempool =
  mp_block_size :: u32
  mp_num_blocks :: u16
  mp_num_free :: u16
  mp_min_free :: u16
  mp_flags :: u8
  mp_membuf_addr :: addr
  mp_first :: addr
  mp_name :: string
  mpe_put_cb :: addr
  mpe_put_arg :: addr

record dpl_heap =
  hp_next :: "addr \<Rightarrow> addr"
  hp_data :: "addr \<Rightarrow> bytes"
  hp_pool :: "addr \<Rightarrow> dpl_mempool"
  hp_list :: "addr list"

record dpl_mempool_info =
  omi_block_size :: u32
  omi_num_blocks :: u16
  omi_num_free :: u16
  omi_min_free :: u16
  omi_name :: string

datatype mem_error = MEM_OK | MEM_INVALID_PARAM | MEM_NOT_ALIGNED | MEM_CB_ERROR nat

definition DPL_MEMPOOL_F_EXT :: u8 where "DPL_MEMPOOL_F_EXT = 1"

definition DPL_MEMPOOL_INFO_NAME_LEN :: nat where "DPL_MEMPOOL_INFO_NAME_LEN = 32"

text \<open>\<open>DPL_ALIGN\<close> to the alignment 4, in the block size's own type.\<close>

definition true_block_size :: "u32 \<Rightarrow> u32" where
  "true_block_size n = (if n AND 3 = 0 then n else n + (4 - (n AND 3)))"

definition set_pool :: "addr \<Rightarrow> (dpl_mempool \<Rightarrow> dpl_mempool) \<Rightarrow> dpl_heap \<Rightarrow> dpl_heap" where
  "set_pool mp f h = h\<lparr>hp_pool := (hp_pool h)(mp := f (hp_pool h mp))\<rparr>"

definition set_next :: "addr \<Rightarrow> addr \<Rightarrow> dpl_heap \<Rightarrow> dpl_heap" where
  "set_next b v h = h\<lparr>hp_next := (hp_next h)(b := v)\<rparr>"

section \<open>Operations\<close>

text \<open>
  The loop that chains the blocks: \<open>block_addr += true_block_size\<close>, where the size
  is an \<open>int\<close>. It returns the last block.
\<close>

fun link_loop :: "nat \<Rightarrow> u32 \<Rightarrow> addr \<Rightarrow> dpl_heap \<Rightarrow> addr \<times> dpl_heap" where
  "link_loop blocks tbs block h =
     (if blocks > 1
      then link_loop (blocks - 1) tbs (block + scast tbs) (set_next block (block + scast tbs) h)
      else (block, h))"

declare link_loop.simps [simp del]

text \<open>
  A next pointer takes the first 8 bytes of its block. The alignment of 4 lets a pool have blocks
  of 4 bytes, whose pointers overlap those of their neighbours (and end behind the buffer): what
  the list then is depends on the order and the bytes of the stores, and is \<open>None\<close> here.
\<close>

definition memblock_ptr_size :: int where "memblock_ptr_size = 8"

definition link_blocks :: "nat \<Rightarrow> u32 \<Rightarrow> addr \<Rightarrow> dpl_heap \<Rightarrow> dpl_heap option" where
  "link_blocks blocks tbs membuf h =
     (let (last_block, h') = link_loop blocks tbs membuf h
      in if last_block = 0 \<or> \<bar>sint tbs\<bar> < memblock_ptr_size then None else Some (set_next last_block 0 h'))"

text \<open>
  Inserting a pool that is on the queue already ties the queue into a cycle: that too is
  \<open>None\<close>.
\<close>

definition dpl_mempool_init ::
    "addr \<Rightarrow> u16 \<Rightarrow> u32 \<Rightarrow> addr \<Rightarrow> string \<Rightarrow> dpl_heap \<Rightarrow> (mem_error \<times> dpl_heap) option" where
  "dpl_mempool_init mp blocks block_size membuf name h =
     (if mp = 0 \<or> block_size = 0 then Some (MEM_INVALID_PARAM, h)
      else if membuf = 0 \<and> blocks \<noteq> 0 then Some (MEM_INVALID_PARAM, h)
      else if membuf \<noteq> 0 \<and> membuf AND 3 \<noteq> 0 then Some (MEM_NOT_ALIGNED, h)
      else
        let tbs = true_block_size block_size;
            h1 = set_pool mp (\<lambda>m. m\<lparr>mp_block_size := block_size, mp_num_free := blocks,
                   mp_min_free := blocks, mp_flags := 0, mp_num_blocks := blocks,
                   mp_membuf_addr := membuf, mp_name := name, mp_first := membuf\<rparr>) h
        in case link_blocks (unat blocks) tbs membuf h1 of
             None \<Rightarrow> None
           | Some h2 \<Rightarrow> if mp \<in> set (hp_list h2) then None
                        else Some (MEM_OK, h2\<lparr>hp_list := hp_list h2 @ [mp]\<rparr>))"

definition dpl_mempool_ext_init ::
    "addr \<Rightarrow> u16 \<Rightarrow> u32 \<Rightarrow> addr \<Rightarrow> string \<Rightarrow> dpl_heap \<Rightarrow> (mem_error \<times> dpl_heap) option" where
  "dpl_mempool_ext_init mpe blocks block_size membuf name h =
     (case dpl_mempool_init mpe blocks block_size membuf name h of
        None \<Rightarrow> None
      | Some (rc, h1) \<Rightarrow>
          if rc \<noteq> MEM_OK then Some (rc, h1)
          else Some (MEM_OK, set_pool mpe (\<lambda>m. m\<lparr>mp_flags := DPL_MEMPOOL_F_EXT,
                       mpe_put_cb := 0, mpe_put_arg := 0\<rparr>) h1))"

definition dpl_mempool_clear :: "addr \<Rightarrow> dpl_heap \<Rightarrow> (mem_error \<times> dpl_heap) option" where
  "dpl_mempool_clear mp h =
     (if mp = 0 then Some (MEM_INVALID_PARAM, h)
      else
        let m = hp_pool h mp;
            tbs = true_block_size (mp_block_size m);
            h1 = set_pool mp (\<lambda>m. m\<lparr>mp_num_free := mp_num_blocks m, mp_min_free := mp_num_blocks m,
                   mp_first := mp_membuf_addr m\<rparr>) h
        in map_option (\<lambda>h2. (MEM_OK, h2)) (link_blocks (unat (mp_num_blocks m)) tbs (mp_membuf_addr m) h1))"

definition dpl_memblock_from :: "dpl_mempool \<Rightarrow> addr \<Rightarrow> bool" where
  "dpl_memblock_from m block_addr =
     (let tbs = ucast (true_block_size (mp_block_size m)) :: addr;
          end_addr = mp_membuf_addr m + ucast (mp_num_blocks m) * tbs
      in if block_addr < mp_membuf_addr m \<or> end_addr \<le> block_addr then False
         else if (block_addr - mp_membuf_addr m) mod tbs \<noteq> 0 then False
         else True)"

text \<open>The walk over the free list need not end, so it is a partial function: \<open>None\<close> is a walk that runs for ever.\<close>

partial_function (option) sane_loop :: "dpl_mempool \<Rightarrow> (addr \<Rightarrow> addr) \<Rightarrow> addr \<Rightarrow> bool option" where
  "sane_loop m nx block =
     (if block = 0 then Some True
      else if \<not> dpl_memblock_from m block then Some False
      else sane_loop m nx (nx block))"

definition dpl_mempool_is_sane :: "addr \<Rightarrow> dpl_heap \<Rightarrow> bool option" where
  "dpl_mempool_is_sane mp h = sane_loop (hp_pool h mp) (hp_next h) (mp_first (hp_pool h mp))"

definition dpl_memblock_get :: "addr \<Rightarrow> dpl_heap \<Rightarrow> addr \<times> dpl_heap" where
  "dpl_memblock_get mp h =
     (if mp = 0 then (0, h)
      else
        let m = hp_pool h mp
        in if mp_num_free m \<noteq> 0
           then
             let block = mp_first m;
                 nfree = mp_num_free m - 1
             in (block, set_pool mp (\<lambda>m. m\<lparr>mp_first := hp_next h block, mp_num_free := nfree,
                   mp_min_free := (if nfree < mp_min_free m then nfree else mp_min_free m)\<rparr>) h)
           else (0, h))"

definition dpl_memblock_put_from_cb :: "addr \<Rightarrow> addr \<Rightarrow> dpl_heap \<Rightarrow> mem_error \<times> dpl_heap" where
  "dpl_memblock_put_from_cb mp block h =
     (MEM_OK, set_pool mp (\<lambda>m. m\<lparr>mp_first := block, mp_num_free := mp_num_free m + 1\<rparr>)
        (set_next block (mp_first (hp_pool h mp)) h))"

text \<open>\<open>run_cb\<close> runs the put callback an extended pool may hold.\<close>

definition dpl_memblock_put ::
    "(addr \<Rightarrow> addr \<Rightarrow> addr \<Rightarrow> addr \<Rightarrow> dpl_heap \<Rightarrow> mem_error \<times> dpl_heap) \<Rightarrow> addr \<Rightarrow> addr \<Rightarrow> dpl_heap \<Rightarrow>
       mem_error \<times> dpl_heap" where
  "dpl_memblock_put run_cb mp block h =
     (if mp = 0 \<or> block = 0 then (MEM_INVALID_PARAM, h)
      else
        let m = hp_pool h mp
        in if mp_flags m AND DPL_MEMPOOL_F_EXT \<noteq> 0 \<and> mpe_put_cb m \<noteq> 0
           then run_cb (mpe_put_cb m) mp block (mpe_put_arg m) h
           else dpl_memblock_put_from_cb mp block h)"

fun stailq_next :: "addr list \<Rightarrow> addr \<Rightarrow> addr" where
  "stailq_next (p # q # ps) mp = (if p = mp then q else stailq_next (q # ps) mp)"
| "stailq_next _ mp = 0"

text \<open>\<open>strncpy\<close> into the 32-byte name: no terminator is stored for a longer name.\<close>

definition dpl_mempool_info_get_next ::
    "addr \<Rightarrow> dpl_mempool_info \<Rightarrow> dpl_heap \<Rightarrow> addr \<times> dpl_mempool_info" where
  "dpl_mempool_info_get_next mp omi h =
     (let cur = (if mp = 0 then (case hp_list h of [] \<Rightarrow> 0 | p # _ \<Rightarrow> p) else stailq_next (hp_list h) mp)
      in if cur = 0 then (0, omi)
         else (cur, let m = hp_pool h cur in
                omi\<lparr>omi_block_size := mp_block_size m, omi_num_blocks := mp_num_blocks m,
                    omi_num_free := mp_num_free m, omi_min_free := mp_min_free m,
                    omi_name := take DPL_MEMPOOL_INFO_NAME_LEN (mp_name m)\<rparr>))"

section \<open>The free list\<close>

text \<open>\<open>chain nx p bs\<close>: the list that starts at \<open>p\<close> has exactly the blocks \<open>bs\<close>, in this order.\<close>

fun chain :: "(addr \<Rightarrow> addr) \<Rightarrow> addr \<Rightarrow> addr list \<Rightarrow> bool" where
  "chain nx p [] = (p = 0)"
| "chain nx p (b # bs) = (p = b \<and> b \<noteq> 0 \<and> chain nx (nx b) bs)"

definition pool_block :: "addr \<Rightarrow> addr \<Rightarrow> nat \<Rightarrow> addr" where
  "pool_block base tbs k = base + of_nat k * tbs"

definition pool_tbs :: "dpl_mempool \<Rightarrow> addr" where
  "pool_tbs m = ucast (true_block_size (mp_block_size m))"

definition pool_blocks :: "dpl_mempool \<Rightarrow> addr list" where
  "pool_blocks m = map (pool_block (mp_membuf_addr m) (pool_tbs m)) [0..<unat (mp_num_blocks m)]"

text \<open>The buffer lies in the address space, does not start at NULL, and a block is below 2 GB.\<close>

definition pool_geom :: "addr \<Rightarrow> u32 \<Rightarrow> nat \<Rightarrow> bool" where
  "pool_geom base tbs n \<longleftrightarrow>
     base \<noteq> 0 \<and> 8 \<le> unat tbs \<and> unat tbs < 2 ^ 31 \<and> unat base + n * unat tbs < 2 ^ 64"

definition pool_ok :: "addr \<Rightarrow> dpl_heap \<Rightarrow> addr list \<Rightarrow> bool" where
  "pool_ok mp h fl \<longleftrightarrow>
     (let m = hp_pool h mp in
        mp \<noteq> 0 \<and> pool_geom (mp_membuf_addr m) (true_block_size (mp_block_size m)) (unat (mp_num_blocks m)) \<and>
        chain (hp_next h) (mp_first m) fl \<and> distinct fl \<and> set fl \<subseteq> set (pool_blocks m) \<and>
        unat (mp_num_free m) = length fl \<and> mp_min_free m \<le> mp_num_free m)"

lemma chain_0: "chain nx 0 bs \<longleftrightarrow> bs = []"
  by (cases bs) auto

lemma chain_not_null: "chain nx p bs \<Longrightarrow> 0 \<notin> set bs"
  by (induction bs arbitrary: p) auto

lemma chain_update_other: "b \<notin> set bs \<Longrightarrow> chain (nx(b := v)) p bs = chain nx p bs"
  by (induction bs arbitrary: p) auto

text \<open>The list a chain stands for is determined by the memory.\<close>

lemma chain_unique: "chain nx p bs \<Longrightarrow> chain nx p cs \<Longrightarrow> bs = cs"
proof (induction bs arbitrary: p cs)
  case Nil
  then show ?case by (simp add: chain_0)
next
  case (Cons b bs)
  then show ?case by (cases cs) auto
qed

section \<open>Geometry\<close>

lemma scast_tbs:
  fixes tbs :: u32
  assumes "unat tbs < 2 ^ 31"
  shows "(scast tbs :: addr) = ucast tbs"
proof -
  have "\<not> bit tbs 31"
    using assms by (simp add: bit_iff_odd_drop_bit drop_bit_eq_div word_arith_nat_div unat_div_distrib odd_iff_mod_2_eq_one)
  then have "bit tbs (min 31 i) \<longleftrightarrow> bit tbs i" for i
    by (cases "i \<le> 31") (auto simp: min_def dest: bit_imp_le_length)
  then show ?thesis
    by (auto intro!: bit_word_eqI simp: bit_simps)
qed

lemma unat_pool_block:
  assumes "pool_geom base tbs n" and "k \<le> n"
  shows "unat (pool_block base (ucast tbs) k) = unat base + k * unat tbs"
proof -
  have "unat base + k * unat tbs \<le> unat base + n * unat tbs" using assms(2) by simp
  then have "unat base + k * unat tbs < 2 ^ 64"
    using assms(1) unfolding pool_geom_def by (blast intro: le_less_trans)
  moreover have "k < 2 ^ 64"
  proof -
    have "k \<le> k * unat tbs" using assms(1) by (cases "unat tbs") (auto simp: pool_geom_def)
    with calculation show ?thesis by linarith
  qed
  ultimately show ?thesis
    by (simp add: pool_block_def unat_word_ariths unat_of_nat take_bit_nat_eq_self unat_ucast_32_64)
qed

lemma pool_block_Suc: "pool_block base tbs k + tbs = pool_block base tbs (Suc k)"
  by (simp add: pool_block_def algebra_simps)

lemma pool_block_inj:
  assumes "pool_geom base tbs n" and "j \<le> n" and "k \<le> n"
    and "pool_block base (ucast tbs) j = pool_block base (ucast tbs) k"
  shows "j = k"
proof -
  have "unat base + j * unat tbs = unat base + k * unat tbs"
    using assms unat_pool_block by metis
  then show ?thesis using assms(1) by (simp add: pool_geom_def)
qed

lemma pool_block_not_null:
  assumes "pool_geom base tbs n" and "k \<le> n"
  shows "pool_block base (ucast tbs) k \<noteq> 0"
proof
  assume "pool_block base (ucast tbs) k = 0"
  then have "unat base + k * unat tbs = 0"
    using unat_pool_block[OF assms] by simp
  then show False using assms(1) by (simp add: pool_geom_def unat_eq_zero)
qed

text \<open>The linking loop, started at block \<open>k\<close>, chains the blocks from \<open>k\<close> to the last.\<close>

lemma link_loop_pool:
  assumes "pool_geom base tbs n" and "k < n"
  shows "link_loop (n - k) tbs (pool_block base (ucast tbs) k) h =
    (pool_block base (ucast tbs) (n - 1),
     h\<lparr>hp_next := (\<lambda>a. if \<exists>j. k \<le> j \<and> Suc j < n \<and> a = pool_block base (ucast tbs) j
                        then a + ucast tbs else hp_next h a)\<rparr>)"
  using assms(2)
proof (induction "n - k" arbitrary: k h)
  case 0
  then show ?case by simp
next
  case (Suc d)
  let ?blk = "pool_block base (ucast tbs)"
  have sc: "(scast tbs :: addr) = ucast tbs"
    using assms(1) by (simp add: scast_tbs pool_geom_def)
  show ?case
  proof (cases "Suc k < n")
    case False
    then have "n - k = 1" and "n - 1 = k" using Suc.prems by auto
    moreover have "(\<lambda>a. if \<exists>j. k \<le> j \<and> Suc j < n \<and> a = ?blk j then a + ucast tbs else hp_next h a) = hp_next h"
      using False by (auto simp: fun_eq_iff)
    ultimately show ?thesis by (simp add: link_loop.simps)
  next
    case True
    have "link_loop (n - k) tbs (?blk k) h = link_loop (n - Suc k) tbs (?blk (Suc k)) (set_next (?blk k) (?blk (Suc k)) h)"
      using True by (subst link_loop.simps) (auto simp: sc pool_block_Suc)
    also have "\<dots> = (?blk (n - 1), (set_next (?blk k) (?blk (Suc k)) h)\<lparr>hp_next :=
        (\<lambda>a. if \<exists>j. Suc k \<le> j \<and> Suc j < n \<and> a = ?blk j then a + ucast tbs
             else hp_next (set_next (?blk k) (?blk (Suc k)) h) a)\<rparr>)"
      using Suc.hyps True by simp
    also have "\<dots> = (?blk (n - 1), h\<lparr>hp_next := (\<lambda>a. if \<exists>j. k \<le> j \<and> Suc j < n \<and> a = ?blk j
                        then a + ucast tbs else hp_next h a)\<rparr>)"
    proof -
      have "(\<exists>j. k \<le> j \<and> Suc j < n \<and> a = ?blk j) \<longleftrightarrow> a = ?blk k \<or> (\<exists>j. Suc k \<le> j \<and> Suc j < n \<and> a = ?blk j)" for a
        using True by (metis Suc_leD Suc_leI le_eq_less_or_eq)
      then show ?thesis
        by (auto simp: set_next_def pool_block_Suc intro!: dpl_heap.equality ext)
    qed
    finally show ?thesis .
  qed
qed

lemma chain_blocks:
  assumes "pool_geom base tbs n" and "k < n"
    and "\<And>j. k \<le> j \<Longrightarrow> Suc j < n \<Longrightarrow> nx (pool_block base (ucast tbs) j) = pool_block base (ucast tbs) (Suc j)"
    and "nx (pool_block base (ucast tbs) (n - 1)) = 0"
  shows "chain nx (pool_block base (ucast tbs) k) (map (pool_block base (ucast tbs)) [k..<n])"
  using assms(2,3)
proof (induction "n - k" arbitrary: k)
  case 0
  then show ?case by simp
next
  case (Suc d)
  have up: "[k..<n] = k # [Suc k..<n]" using Suc.prems by (simp add: upt_conv_Cons)
  have nz: "pool_block base (ucast tbs) k \<noteq> 0" using pool_block_not_null assms(1) Suc.prems by auto
  show ?case
  proof (cases "Suc k < n")
    case True
    then have "chain nx (pool_block base (ucast tbs) (Suc k)) (map (pool_block base (ucast tbs)) [Suc k..<n])"
      using Suc by auto
    then show ?thesis using nz True Suc.prems by (simp add: up)
  next
    case False
    then have "n - 1 = k" using Suc.prems by auto
    then show ?thesis using nz False assms(4) by (simp add: up)
  qed
qed

text \<open>What the linking code leaves behind: the blocks in address order, ended by NULL.\<close>

lemma link_blocks_chain:
  assumes "pool_geom base tbs n" and "0 < n"
  obtains h' where "link_blocks n tbs base h = Some h'"
    and "chain (hp_next h') base (map (pool_block base (ucast tbs)) [0..<n])"
    and "hp_pool h' = hp_pool h" and "hp_list h' = hp_list h" and "hp_data h' = hp_data h"
    and "\<And>a. a \<notin> set (map (pool_block base (ucast tbs)) [0..<n]) \<Longrightarrow> hp_next h' a = hp_next h a"
proof -
  let ?blk = "pool_block base (ucast tbs)"
  let ?nx = "\<lambda>a. if \<exists>j. 0 \<le> j \<and> Suc j < n \<and> a = ?blk j then a + ucast tbs else hp_next h a"
  have b0: "?blk 0 = base" by (simp add: pool_block_def)
  have last: "?blk (n - 1) \<noteq> 0" using pool_block_not_null assms(1) by simp
  let ?h = "set_next (?blk (n - 1)) 0 (h\<lparr>hp_next := ?nx\<rparr>)"
  have "unat tbs < 2 ^ 31" using assms(1) by (simp add: pool_geom_def)
  then have "int (unat tbs) < int (2 ^ 31)" by (simp only: of_nat_less_iff)
  then have "signed_take_bit 31 (int (unat tbs)) = int (unat tbs)" by (intro signed_take_bit_int_eq_self) (simp_all add: order_trans[OF _ uint_ge_0])
  then have "sint tbs = int (unat tbs)" by (simp add: sint_uint)
  moreover have "8 \<le> int (unat tbs)" using assms(1) unfolding pool_geom_def by linarith
  ultimately have small: "\<not> \<bar>sint tbs\<bar> < memblock_ptr_size" unfolding memblock_ptr_size_def by linarith
  have lb: "link_blocks n tbs base h = Some ?h"
    using link_loop_pool[OF assms, of h] last small by (simp add: link_blocks_def b0)
  have nl: "?blk j \<noteq> ?blk (n - 1)" if "Suc j < n" for j
    using pool_block_inj[OF assms(1), of j "n - 1"] that by auto
  have "chain (hp_next ?h) (?blk 0) (map ?blk [0..<n])"
  proof (rule chain_blocks[OF assms])
    show "hp_next ?h (?blk (n - 1)) = 0" by (simp add: set_next_def)
    show "hp_next ?h (?blk j) = ?blk (Suc j)" if "0 \<le> j" "Suc j < n" for j
      using that nl[OF that(2)] by (auto simp: set_next_def pool_block_Suc)
  qed
  moreover have "hp_next ?h a = hp_next h a" if "a \<notin> set (map ?blk [0..<n])" for a
    using that assms(2) by (auto simp: set_next_def)
  ultimately show thesis
    using lb b0 that by (simp add: set_next_def)
qed

section \<open>The pool invariant\<close>

lemmas set_simps = set_pool_def set_next_def

lemma pool_blocks_alt:
  "pool_blocks m = map (pool_block (mp_membuf_addr m) (ucast (true_block_size (mp_block_size m)))) [0..<unat (mp_num_blocks m)]"
  by (simp add: pool_blocks_def pool_tbs_def)

lemma distinct_pool_blocks:
  assumes "pool_geom base tbs n"
  shows "distinct (map (pool_block base (ucast tbs)) [0..<n])"
  using pool_block_inj[OF assms] by (auto simp: distinct_map inj_on_def)

lemma pool_ok_unique: "pool_ok mp h fl \<Longrightarrow> pool_ok mp h fl' \<Longrightarrow> fl = fl'"
  by (auto simp: pool_ok_def Let_def dest: chain_unique)

lemma pool_ok_not_null: "pool_ok mp h fl \<Longrightarrow> 0 \<notin> set fl"
  by (auto simp: pool_ok_def Let_def dest: chain_not_null)

lemma pool_block_ne_0:
  assumes "pool_ok mp h fl" and "b \<in> set (pool_blocks (hp_pool h mp))"
  shows "b \<noteq> 0"
proof -
  obtain k where "b = pool_block (mp_membuf_addr (hp_pool h mp)) (ucast (true_block_size (mp_block_size (hp_pool h mp)))) k"
      and "k < unat (mp_num_blocks (hp_pool h mp))"
    using assms(2) by (auto simp: pool_blocks_alt)
  then show ?thesis
    using pool_block_not_null assms(1) by (auto simp: pool_ok_def Let_def)
qed

lemma init_ok:
  assumes "mp \<noteq> 0" and "block_size \<noteq> 0" and "membuf AND 3 = 0" and "0 < blocks"
    and "pool_geom membuf (true_block_size block_size) (unat blocks)" and "mp \<notin> set (hp_list h)"
  obtains h' where "dpl_mempool_init mp blocks block_size membuf name h = Some (MEM_OK, h')"
    and "pool_ok mp h' (pool_blocks (hp_pool h' mp))"
    and "length (pool_blocks (hp_pool h' mp)) = unat blocks" and "hp_list h' = hp_list h @ [mp]"
proof -
  let ?tbs = "true_block_size block_size"
  let ?h1 = "set_pool mp (\<lambda>m. m\<lparr>mp_block_size := block_size, mp_num_free := blocks,
                   mp_min_free := blocks, mp_flags := 0, mp_num_blocks := blocks,
                   mp_membuf_addr := membuf, mp_name := name, mp_first := membuf\<rparr>) h"
  have n0: "0 < unat blocks" using assms(4) by (simp add: unat_gt_0 word_greater_zero_iff)
  have "membuf \<noteq> 0" using assms(5) by (simp add: pool_geom_def)
  obtain h2 where lb: "link_blocks (unat blocks) ?tbs membuf ?h1 = Some h2"
    and ch: "chain (hp_next h2) membuf (map (pool_block membuf (ucast ?tbs)) [0..<unat blocks])"
    and fr: "hp_pool h2 = hp_pool ?h1" "hp_list h2 = hp_list ?h1"
    by (rule link_blocks_chain[OF assms(5) n0])
  let ?h = "h2\<lparr>hp_list := hp_list h2 @ [mp]\<rparr>"
  have "dpl_mempool_init mp blocks block_size membuf name h = Some (MEM_OK, ?h)"
    using assms lb fr \<open>membuf \<noteq> 0\<close> by (simp add: dpl_mempool_init_def Let_def set_simps)
  moreover have "pool_ok mp ?h (pool_blocks (hp_pool ?h mp))"
    using ch fr assms(1,5) distinct_pool_blocks[OF assms(5)]
    by (auto simp: pool_ok_def Let_def pool_blocks_alt set_simps)
  ultimately show thesis
    using that fr by (simp add: set_simps pool_blocks_alt)
qed

lemma clear_ok:
  assumes "pool_ok mp h fl" and "0 < mp_num_blocks (hp_pool h mp)"
  obtains h' where "dpl_mempool_clear mp h = Some (MEM_OK, h')"
    and "pool_ok mp h' (pool_blocks (hp_pool h mp))" and "pool_blocks (hp_pool h' mp) = pool_blocks (hp_pool h mp)"
proof -
  let ?m = "hp_pool h mp"
  let ?tbs = "true_block_size (mp_block_size ?m)"
  let ?h1 = "set_pool mp (\<lambda>m. m\<lparr>mp_num_free := mp_num_blocks m, mp_min_free := mp_num_blocks m,
                   mp_first := mp_membuf_addr m\<rparr>) h"
  have n0: "0 < unat (mp_num_blocks ?m)" using assms(2) by (simp add: unat_gt_0 word_greater_zero_iff)
  have geom: "pool_geom (mp_membuf_addr ?m) ?tbs (unat (mp_num_blocks ?m))" and "mp \<noteq> 0"
    using assms(1) by (auto simp: pool_ok_def Let_def)
  obtain h2 where lb: "link_blocks (unat (mp_num_blocks ?m)) ?tbs (mp_membuf_addr ?m) ?h1 = Some h2"
    and ch: "chain (hp_next h2) (mp_membuf_addr ?m) (map (pool_block (mp_membuf_addr ?m) (ucast ?tbs)) [0..<unat (mp_num_blocks ?m)])"
    and fr: "hp_pool h2 = hp_pool ?h1"
    by (rule link_blocks_chain[OF geom n0])
  have "dpl_mempool_clear mp h = Some (MEM_OK, h2)"
    using lb \<open>mp \<noteq> 0\<close> by (simp add: dpl_mempool_clear_def Let_def)
  moreover have "pool_ok mp h2 (pool_blocks ?m)"
    using ch fr \<open>mp \<noteq> 0\<close> geom distinct_pool_blocks[OF geom]
    by (auto simp: pool_ok_def Let_def pool_blocks_alt set_simps)
  ultimately show thesis
    using that fr by (simp add: set_simps pool_blocks_alt)
qed

lemma get_empty:
  assumes "pool_ok mp h []"
  shows "dpl_memblock_get mp h = (0, h)"
  using assms by (auto simp: pool_ok_def Let_def dpl_memblock_get_def unat_eq_zero)

lemma get_cons:
  assumes "pool_ok mp h (b # fl)"
  shows "fst (dpl_memblock_get mp h) = b" and "pool_ok mp (snd (dpl_memblock_get mp h)) fl"
    and "pool_blocks (hp_pool (snd (dpl_memblock_get mp h)) mp) = pool_blocks (hp_pool h mp)"
proof -
  let ?m = "hp_pool h mp"
  have ok: "mp \<noteq> 0" "mp_first ?m = b" "unat (mp_num_free ?m) = Suc (length fl)"
    using assms by (auto simp: pool_ok_def Let_def)
  then have nz: "mp_num_free ?m \<noteq> 0" by auto
  have dec: "unat (mp_num_free ?m - 1) = length fl"
    using ok nz by (simp add: unat_minus_one)
  show "fst (dpl_memblock_get mp h) = b"
    using ok nz by (simp add: dpl_memblock_get_def Let_def)
  show "pool_blocks (hp_pool (snd (dpl_memblock_get mp h)) mp) = pool_blocks ?m"
    using ok nz by (simp add: dpl_memblock_get_def Let_def set_simps pool_blocks_alt)
  show "pool_ok mp (snd (dpl_memblock_get mp h)) fl"
    using ok nz dec assms
    by (auto simp: dpl_memblock_get_def pool_ok_def Let_def set_simps pool_blocks_alt not_less)
qed

lemma put_from_cb_ok:
  assumes "pool_ok mp h fl" and "b \<in> set (pool_blocks (hp_pool h mp))" and "b \<notin> set fl"
  shows "pool_ok mp (snd (dpl_memblock_put_from_cb mp b h)) (b # fl)"
    and "pool_blocks (hp_pool (snd (dpl_memblock_put_from_cb mp b h)) mp) = pool_blocks (hp_pool h mp)"
proof -
  let ?m = "hp_pool h mp"
  have b0: "b \<noteq> 0" by (rule pool_block_ne_0[OF assms(1,2)])
  have "card (set (b # fl)) \<le> card (set (pool_blocks ?m))"
    using assms by (intro card_mono) (auto simp: pool_ok_def Let_def)
  also have "\<dots> \<le> unat (mp_num_blocks ?m)"
    using card_length[of "pool_blocks ?m"] by (simp add: pool_blocks_def)
  finally have "Suc (length fl) \<le> unat (mp_num_blocks ?m)"
    using assms by (simp add: pool_ok_def Let_def distinct_card)
  then have lt: "unat (mp_num_free ?m) + 1 < 65536"
    using assms(1) unat_less_16[of "mp_num_blocks ?m"] by (auto simp: pool_ok_def Let_def)
  have inc: "unat (mp_num_free ?m + 1) = Suc (length fl)"
    using lt assms(1) by (simp add: unat_inc_16 pool_ok_def Let_def)
  have "mp_min_free ?m \<le> mp_num_free ?m + 1"
    using assms(1) lt by (simp add: pool_ok_def Let_def word_le_nat_alt unat_inc_16)
  then show "pool_ok mp (snd (dpl_memblock_put_from_cb mp b h)) (b # fl)"
    using assms b0 inc
    by (auto simp: dpl_memblock_put_from_cb_def pool_ok_def Let_def set_simps pool_blocks_alt chain_update_other)
  show "pool_blocks (hp_pool (snd (dpl_memblock_put_from_cb mp b h)) mp) = pool_blocks ?m"
    by (simp add: dpl_memblock_put_from_cb_def set_simps pool_blocks_alt)
qed

lemma put_plain:
  assumes "mp \<noteq> 0" and "b \<noteq> 0" and "mp_flags (hp_pool h mp) AND DPL_MEMPOOL_F_EXT = 0 \<or> mpe_put_cb (hp_pool h mp) = 0"
  shows "dpl_memblock_put cb mp b h = dpl_memblock_put_from_cb mp b h"
  using assms by (auto simp: dpl_memblock_put_def Let_def)

lemma ucast_16_64: "(ucast (w :: u16) :: addr) = of_nat (unat w)"
proof -
  have "unat w < 2 ^ LENGTH(16)" by (rule unsigned_less)
  then have "unat w < 2 ^ 64" by simp
  then show ?thesis
    by (simp add: word_unat_eq_iff unsigned_ucast_eq unsigned_of_nat)
qed

lemma mod_tbs_0: "(a :: addr) mod ucast (t :: u32) = 0 \<longleftrightarrow> unat a mod unat t = 0"
  by (simp add: word_unat_eq_iff unat_mod_distrib unat_ucast_32_64)

text \<open>The test the debug build makes on a freed block accepts exactly the pool's blocks.\<close>

lemma memblock_from_iff:
  assumes "pool_ok mp h fl"
  shows "dpl_memblock_from (hp_pool h mp) a \<longleftrightarrow> a \<in> set (pool_blocks (hp_pool h mp))"
proof -
  let ?m = "hp_pool h mp"
  let ?base = "mp_membuf_addr ?m" and ?tbs = "true_block_size (mp_block_size ?m)" and ?n = "unat (mp_num_blocks ?m)"
  have geom: "pool_geom ?base ?tbs ?n" using assms by (auto simp: pool_ok_def Let_def)
  have cnt: "(ucast (mp_num_blocks ?m) :: addr) = of_nat ?n"
    by (rule ucast_16_64)
  then have end_addr: "unat (?base + ucast (mp_num_blocks ?m) * ucast ?tbs) = unat ?base + ?n * unat ?tbs"
    using unat_pool_block[OF geom, of ?n] by (simp add: pool_block_def)
  show ?thesis
  proof
    assume "a \<in> set (pool_blocks ?m)"
    then obtain k where k: "a = pool_block ?base (ucast ?tbs) k" "k < ?n"
      by (auto simp: pool_blocks_alt)
    have ua: "unat a = unat ?base + k * unat ?tbs"
      using unat_pool_block[OF geom, of k] k by simp
    have "unat ?base + k * unat ?tbs < unat ?base + ?n * unat ?tbs"
      using k(2) geom by (simp add: pool_geom_def)
    moreover have "unat (a - ?base) = k * unat ?tbs"
      using ua by (simp add: unat_sub word_le_nat_alt)
    then have "(a - ?base) mod ucast ?tbs = 0"
      by (simp add: mod_tbs_0)
    ultimately show "dpl_memblock_from ?m a"
      using ua end_addr by (auto simp: dpl_memblock_from_def Let_def word_less_nat_alt word_le_nat_alt)
  next
    assume "dpl_memblock_from ?m a"
    then have ge: "unat ?base \<le> unat a" and lt: "unat a < unat ?base + ?n * unat ?tbs"
      and md: "(a - ?base) mod ucast ?tbs = 0"
      using end_addr by (auto simp: dpl_memblock_from_def Let_def word_less_nat_alt word_le_nat_alt split: if_splits)
    have "(unat a - unat ?base) mod unat ?tbs = 0"
      using md ge by (simp only: mod_tbs_0 unat_sub word_le_nat_alt)
    then obtain k where k: "unat a - unat ?base = k * unat ?tbs"
      by (metis dvdE mod_0_imp_dvd mult.commute)
    then have "k * unat ?tbs < ?n * unat ?tbs" using ge lt by linarith
    then have "k < ?n" by simp
    moreover have "unat a = unat (pool_block ?base (ucast ?tbs) k)"
      using unat_pool_block[OF geom, of k] \<open>k < ?n\<close> k ge by simp
    ultimately show "a \<in> set (pool_blocks ?m)"
      by (auto simp: pool_blocks_alt word_unat_eq_iff)
  qed
qed

section \<open>The sanity walk\<close>

lemma sane_loop_chain:
  "chain nx p bs \<Longrightarrow> \<forall>b \<in> set bs. dpl_memblock_from m b \<Longrightarrow> sane_loop m nx p = Some True"
  by (induction bs arbitrary: p) (auto simp: sane_loop.simps)

text \<open>A walk that enters a cycle of the pool's blocks never returns.\<close>

lemma sane_loop_self:
  assumes "nx b = b" and "b \<noteq> 0" and "dpl_memblock_from m b"
  shows "sane_loop m nx b = None"
proof -
  have "sane_loop m' nx' a = Some r \<Longrightarrow> nx' b = b \<and> dpl_memblock_from m' b \<longrightarrow> a \<noteq> b" for m' nx' a r
    by (erule sane_loop.raw_induct[rotated]) (use assms(2) in \<open>force split: if_splits\<close>)
  then show ?thesis using assms by (cases "sane_loop m nx b") auto
qed

lemma is_sane_ok:
  assumes "pool_ok mp h fl"
  shows "dpl_mempool_is_sane mp h = Some True"
proof -
  have "chain (hp_next h) (mp_first (hp_pool h mp)) fl" and "set fl \<subseteq> set (pool_blocks (hp_pool h mp))"
    using assms by (auto simp: pool_ok_def Let_def)
  then show ?thesis
    using memblock_from_iff[OF assms] by (auto simp: dpl_mempool_is_sane_def intro!: sane_loop_chain)
qed

text \<open>
  Nothing in the release build stops a second free of the block freed last: the block
  then follows itself on the free list, and the sanity walk no longer ends.
\<close>

lemma double_free:
  assumes "pool_ok mp h fl" and "b \<in> set (pool_blocks (hp_pool h mp))"
    and "h1 = snd (dpl_memblock_put_from_cb mp b h)" and "h2 = snd (dpl_memblock_put_from_cb mp b h1)"
  shows "hp_next h2 b = b" and "dpl_mempool_is_sane mp h2 = None" and "\<not> pool_ok mp h2 fl'"
proof -
  have b0: "b \<noteq> 0" by (rule pool_block_ne_0[OF assms(1,2)])
  have from_b: "dpl_memblock_from (hp_pool h mp) b"
    using memblock_from_iff[OF assms(1)] assms(2) by simp
  show self: "hp_next h2 b = b"
    by (simp add: assms(3,4) dpl_memblock_put_from_cb_def set_simps)
  have "dpl_memblock_from (hp_pool h2 mp) b"
    using from_b by (simp add: assms(3,4) dpl_memblock_put_from_cb_def set_simps dpl_memblock_from_def Let_def split: if_splits)
  moreover have "mp_first (hp_pool h2 mp) = b"
    by (simp add: assms(3,4) dpl_memblock_put_from_cb_def set_simps)
  ultimately show "dpl_mempool_is_sane mp h2 = None"
    using self b0 by (simp add: dpl_mempool_is_sane_def sane_loop_self)
  then show "\<not> pool_ok mp h2 fl'" using is_sane_ok by fastforce
qed

section \<open>Pools do not interfere\<close>

lemma get_frame [frame]:
  "hp_next (snd (dpl_memblock_get mp h)) = hp_next h"
  "hp_data (snd (dpl_memblock_get mp h)) = hp_data h"
  "hp_list (snd (dpl_memblock_get mp h)) = hp_list h"
  "q \<noteq> mp \<Longrightarrow> hp_pool (snd (dpl_memblock_get mp h)) q = hp_pool h q"
  by (auto simp: dpl_memblock_get_def Let_def set_simps)

lemma put_frame [frame]:
  "a \<noteq> b \<Longrightarrow> hp_next (snd (dpl_memblock_put_from_cb mp b h)) a = hp_next h a"
  "hp_data (snd (dpl_memblock_put_from_cb mp b h)) = hp_data h"
  "hp_list (snd (dpl_memblock_put_from_cb mp b h)) = hp_list h"
  "q \<noteq> mp \<Longrightarrow> hp_pool (snd (dpl_memblock_put_from_cb mp b h)) q = hp_pool h q"
  by (auto simp: dpl_memblock_put_from_cb_def set_simps)

lemma get_other_pool:
  assumes "pool_ok q h fl" and "q \<noteq> mp"
  shows "pool_ok q (snd (dpl_memblock_get mp h)) fl"
  using assms by (simp add: pool_ok_def Let_def frame)

lemma put_other_pool:
  assumes "pool_ok q h fl" and "q \<noteq> mp" and "b \<notin> set fl"
  shows "pool_ok q (snd (dpl_memblock_put_from_cb mp b h)) fl"
proof -
  have "hp_next (snd (dpl_memblock_put_from_cb mp b h)) = (hp_next h)(b := mp_first (hp_pool h mp))"
    by (simp add: dpl_memblock_put_from_cb_def set_simps)
  then show ?thesis
    using assms by (simp add: pool_ok_def Let_def frame chain_update_other)
qed

section \<open>The contract of an allocator\<close>

text \<open>
  What the clients of a pool rely on: a \<open>get\<close> hands out the first free block or NULL
  when there is none, a \<open>put\<close> of an allocated block makes it the first free one.
\<close>

locale block_allocator =
  fixes get :: "'s \<Rightarrow> 'b \<times> 's"
    and put :: "'b \<Rightarrow> 's \<Rightarrow> 's"
    and null :: 'b
    and ok :: "'s \<Rightarrow> 'b list \<Rightarrow> bool"
    and blocks :: "'s \<Rightarrow> 'b set"
  assumes get_null: "ok s [] \<Longrightarrow> get s = (null, s)"
    and get_block: "ok s (b # fl) \<Longrightarrow> fst (get s) = b \<and> ok (snd (get s)) fl \<and> blocks (snd (get s)) = blocks s"
    and put_block: "ok s fl \<Longrightarrow> b \<in> blocks s \<Longrightarrow> b \<notin> set fl \<Longrightarrow> ok (put b s) (b # fl) \<and> blocks (put b s) = blocks s"
    and ok_free: "ok s fl \<Longrightarrow> distinct fl \<and> set fl \<subseteq> blocks s \<and> null \<notin> blocks s"
begin

fun gets :: "nat \<Rightarrow> 's \<Rightarrow> 'b list \<times> 's" where
  "gets 0 s = ([], s)"
| "gets (Suc n) s = (let (b, s') = get s; (bs, s'') = gets n s' in (b # bs, s''))"

lemma gets_free:
  "ok s fl \<Longrightarrow> n \<le> length fl \<Longrightarrow>
     fst (gets n s) = take n fl \<and> ok (snd (gets n s)) (drop n fl) \<and> blocks (snd (gets n s)) = blocks s"
proof (induction n arbitrary: s fl)
  case 0
  then show ?case by simp
next
  case (Suc n)
  then obtain b bs where fl: "fl = b # bs" by (cases fl) auto
  with get_block Suc.prems have "fst (get s) = b" "ok (snd (get s)) bs" "blocks (snd (get s)) = blocks s"
    by blast+
  then show ?case
    using Suc.IH[of "snd (get s)" bs] Suc.prems fl by (simp add: Let_def case_prod_beta)
qed

text \<open>As long as there are free blocks, the blocks handed out are distinct blocks of the pool, none NULL.\<close>

lemma gets_distinct:
  assumes "ok s fl" and "n \<le> length fl"
  shows "distinct (fst (gets n s)) \<and> null \<notin> set (fst (gets n s)) \<and> set (fst (gets n s)) \<subseteq> blocks s"
proof -
  have "distinct fl" "set fl \<subseteq> blocks s" "null \<notin> blocks s" using ok_free assms(1) by blast+
  then show ?thesis
    using gets_free[OF assms] set_take_subset[of n fl] by auto
qed

text \<open>A drained allocator answers NULL for ever after.\<close>

lemma gets_drained:
  assumes "ok s fl"
  shows "fst (gets (length fl + k) s) = fl @ replicate k null"
  using assms
proof (induction fl arbitrary: s)
  case Nil
  then have "get s = (null, s)" by (rule get_null)
  then show ?case by (induction k) (simp_all add: Let_def case_prod_beta)
next
  case (Cons b fl)
  then have "fst (get s) = b" "ok (snd (get s)) fl" using get_block by blast+
  then show ?case using Cons.IH by (simp add: Let_def case_prod_beta)
qed

lemma foldr_put:
  assumes "ok s fl" and "distinct bs" and "set bs \<subseteq> blocks s" and "set bs \<inter> set fl = {}"
  shows "ok (foldr put bs s) (bs @ fl) \<and> blocks (foldr put bs s) = blocks s"
  using assms(2-)
proof (induction bs)
  case Nil
  then show ?case using assms(1) by simp
next
  case (Cons b bs)
  then have "ok (foldr put bs s) (bs @ fl)" "blocks (foldr put bs s) = blocks s" by auto
  then show ?case using put_block[of "foldr put bs s" "bs @ fl" b] Cons.prems by auto
qed

text \<open>Blocks taken and given back, the last taken first, leave the free list as it was.\<close>

lemma gets_puts:
  assumes "ok s fl" and "n \<le> length fl"
  shows "ok (foldr put (fst (gets n s)) (snd (gets n s))) fl"
proof -
  note g = gets_free[OF assms] and f = ok_free[OF assms(1)]
  have "set (take n fl) \<inter> set (drop n fl) = {}"
    using f by (metis append_take_drop_id distinct_append)
  then have "ok (foldr put (take n fl) (snd (gets n s))) (take n fl @ drop n fl)"
    using g f set_take_subset[of n fl] by (intro conjunct1[OF foldr_put]) auto
  then show ?thesis using g by simp
qed

text \<open>A block that was given back is the next one handed out.\<close>

lemma put_get:
  assumes "ok s fl" and "b \<in> blocks s" and "b \<notin> set fl"
  shows "fst (get (put b s)) = b \<and> ok (snd (get (put b s))) fl"
  using get_block put_block assms by metis

end

definition pool_put :: "addr \<Rightarrow> addr \<Rightarrow> dpl_heap \<Rightarrow> dpl_heap" where
  "pool_put mp b h = snd (dpl_memblock_put_from_cb mp b h)"

definition pool_set :: "addr \<Rightarrow> dpl_heap \<Rightarrow> addr set" where
  "pool_set mp h = set (pool_blocks (hp_pool h mp)) - {0}"

lemma pool_set_ok: "pool_ok mp h fl \<Longrightarrow> pool_set mp h = set (pool_blocks (hp_pool h mp))"
  using pool_block_ne_0 by (auto simp: pool_set_def)

interpretation mempool: block_allocator "dpl_memblock_get mp" "pool_put mp" 0 "pool_ok mp" "pool_set mp" for mp
proof unfold_locales
  fix h assume "pool_ok mp h []"
  then show "dpl_memblock_get mp h = (0, h)" by (rule get_empty)
next
  fix h b fl assume "pool_ok mp h (b # fl)"
  then show "fst (dpl_memblock_get mp h) = b \<and> pool_ok mp (snd (dpl_memblock_get mp h)) fl \<and>
      pool_set mp (snd (dpl_memblock_get mp h)) = pool_set mp h"
    using get_cons by (simp add: pool_set_def)
next
  fix h fl b assume "pool_ok mp h fl" and "b \<in> pool_set mp h" and "b \<notin> set fl"
  then show "pool_ok mp (pool_put mp b h) (b # fl) \<and> pool_set mp (pool_put mp b h) = pool_set mp h"
    using put_from_cb_ok by (simp add: pool_put_def pool_set_def)
next
  fix h fl assume "pool_ok mp h fl"
  then show "distinct fl \<and> set fl \<subseteq> pool_set mp h \<and> 0 \<notin> pool_set mp h"
    using pool_ok_not_null[OF \<open>pool_ok mp h fl\<close>] by (auto simp: pool_set_def pool_ok_def Let_def)
qed

section \<open>The queue of pools\<close>

lemma info_get_next_walk:
  assumes "distinct (hp_list h)" and "0 \<notin> set (hp_list h)" and "Suc i < length (hp_list h)"
  shows "fst (dpl_mempool_info_get_next (hp_list h ! i) omi h) = hp_list h ! Suc i"
proof -
  have "stailq_next ps (ps ! i) = ps ! Suc i" if "distinct ps" "Suc i < length ps" for ps
    using that
  proof (induction ps "ps ! i" arbitrary: i rule: stailq_next.induct)
    case (1 p q ps)
    show ?case
    proof (cases i)
      case (Suc j)
      then have "(p # q # ps) ! i \<in> set (q # ps)" using 1 by (simp add: nth_mem del: nth_Cons_Suc list.set)
      then have "p \<noteq> (p # q # ps) ! i" using 1 by auto
      then show ?thesis using 1 Suc by auto
    qed simp
  qed auto
  moreover have "hp_list h ! i \<noteq> 0" and "hp_list h ! Suc i \<noteq> 0"
    using assms nth_mem by (metis Suc_lessD)+
  ultimately show ?thesis
    using assms by (simp add: dpl_mempool_info_get_next_def Let_def)
qed

fun alloc_blocks :: "addr \<Rightarrow> nat \<Rightarrow> dpl_heap \<Rightarrow> addr list \<times> dpl_heap" where
  "alloc_blocks mp 0 h = ([], h)"
| "alloc_blocks mp (Suc n) h =
     (let (b, h') = dpl_memblock_get mp h; (bs, h'') = alloc_blocks mp n h' in (b # bs, h''))"

lemma alloc_blocks_gets: "alloc_blocks mp n h = mempool.gets mp n h"
  by (induction n arbitrary: h) (auto split: prod.splits)

end
