(* ===== verification/Dpl_Mbuf.thy ===== *)
theory Dpl_Mbuf
  imports Dpl_Mempool Endian
begin

text \<open>
  Memory buffers, porting/dpl\_lib/src/dpl\_mbuf.c and include/dpl/dpl\_mbuf.h: a packet is
  a chain of fixed-size buffers from a pool, each with its data somewhere inside. A
  chain is the list of its buffers, NULL the empty list; a buffer is its header fields,
  its address in the pool and the bytes of its data buffer, in which \<open>om_data\<close> is
  an offset. The packet header lies at the start of the first data buffer: its length
  field is the two bytes at offset 0. Lengths are numbers, reduced to 16 bits where the
  code stores a sum in a \<open>uint16_t\<close>; \<open>omp_len\<close>, which does wrap, is a word.

  Operations that free a buffer take the pool's put callback \<open>cb\<close> as an argument.
\<close>

unbundle bit_operations_syntax

section \<open>Data\<close>

record dpl_mbuf_pool =
  omp_databuf_len :: nat
  omp_pool :: addr

record dpl_mbuf =
  om_addr :: addr
  om_data :: nat
  om_flags :: u8
  om_pkthdr_len :: nat
  om_len :: nat
  om_omp :: "dpl_mbuf_pool option"
  om_databuf :: bytes

type_synonym put_callback = "addr \<Rightarrow> addr \<Rightarrow> addr \<Rightarrow> addr \<Rightarrow> dpl_heap \<Rightarrow> mem_error \<times> dpl_heap"

type_synonym mchain = "dpl_mbuf list"

datatype mbuf_rc = MB_OK | MB_EINVAL | MB_ENOMEM

text \<open>\<open>sizeof (struct dpl_mbuf)\<close> and \<open>sizeof (struct dpl_mbuf_pkthdr)\<close> on a 64-bit machine.\<close>

definition sizeof_mbuf :: nat where "sizeof_mbuf = 32"

definition sizeof_pkthdr :: nat where "sizeof_pkthdr = 16"

definition u16_diff :: "nat \<Rightarrow> nat \<Rightarrow> nat" where
  "u16_diff a b = nat ((int a - int b) mod 65536)"

definition DPL_MBUF_IS_PKTHDR :: "dpl_mbuf \<Rightarrow> bool" where
  "DPL_MBUF_IS_PKTHDR m \<longleftrightarrow> sizeof_pkthdr \<le> om_pkthdr_len m"

definition DPL_MBUF_PKTLEN :: "dpl_mbuf \<Rightarrow> u16" where
  "DPL_MBUF_PKTLEN m = get_le16 (om_databuf m) 0"

definition set_pktlen :: "(u16 \<Rightarrow> u16) \<Rightarrow> dpl_mbuf \<Rightarrow> dpl_mbuf" where
  "set_pktlen f m = m\<lparr>om_databuf := put_le16 (om_databuf m) 0 (f (DPL_MBUF_PKTLEN m))\<rparr>"

definition DPL_MBUF_LEADINGSPACE :: "dpl_mbuf \<Rightarrow> nat" where
  "DPL_MBUF_LEADINGSPACE m = u16_diff (om_data m) (if DPL_MBUF_IS_PKTHDR m then om_pkthdr_len m else 0)"

definition DPL_MBUF_TRAILINGSPACE :: "dpl_mbuf \<Rightarrow> nat" where
  "DPL_MBUF_TRAILINGSPACE m = u16_diff (omp_databuf_len (the (om_omp m))) (om_data m + om_len m)"

definition mbuf_read :: "dpl_mbuf \<Rightarrow> nat \<Rightarrow> nat \<Rightarrow> bytes" where
  "mbuf_read m off k = read_at (om_databuf m) (om_data m + off) k"

definition mbuf_write :: "dpl_mbuf \<Rightarrow> nat \<Rightarrow> bytes \<Rightarrow> dpl_mbuf" where
  "mbuf_write m off xs = m\<lparr>om_databuf := write_at (om_databuf m) (om_data m + off) xs\<rparr>"

text \<open>\<open>if (DPL_MBUF_IS_PKTHDR(om)) DPL_MBUF_PKTHDR(om)->omp_len = f(...)\<close> on the head of a chain.\<close>

fun upd_head :: "('a \<Rightarrow> 'a) \<Rightarrow> 'a list \<Rightarrow> 'a list" where
  "upd_head f [] = []"
| "upd_head f (m # ms) = f m # ms"

definition upd_pktlen :: "(u16 \<Rightarrow> u16) \<Rightarrow> mchain \<Rightarrow> mchain" where
  "upd_pktlen f om = upd_head (\<lambda>m. if DPL_MBUF_IS_PKTHDR m then set_pktlen f m else m) om"

section \<open>Allocation\<close>

definition dpl_mbuf_pool_init :: "addr \<Rightarrow> u16 \<Rightarrow> dpl_mbuf_pool" where
  "dpl_mbuf_pool_init mp buf_len = \<lparr>omp_databuf_len = u16_diff (unat buf_len) sizeof_mbuf, omp_pool = mp\<rparr>"

definition dpl_mbuf_get :: "dpl_mbuf_pool \<Rightarrow> nat \<Rightarrow> dpl_heap \<Rightarrow> dpl_mbuf option \<times> dpl_heap" where
  "dpl_mbuf_get omp leadingspace h =
     (if leadingspace > omp_databuf_len omp then (None, h)
      else
        let (b, h') = dpl_memblock_get (omp_pool omp) h
        in if b = 0 then (None, h')
           else (Some \<lparr>om_addr = b, om_data = leadingspace, om_flags = 0, om_pkthdr_len = 0, om_len = 0,
                   om_omp = Some omp, om_databuf = hp_data h' b\<rparr>, h'))"

definition dpl_mbuf_get_pkthdr :: "dpl_mbuf_pool \<Rightarrow> nat \<Rightarrow> dpl_heap \<Rightarrow> dpl_mbuf option \<times> dpl_heap" where
  "dpl_mbuf_get_pkthdr omp user_pkthdr_len h =
     (let pkthdr_len = user_pkthdr_len + sizeof_pkthdr
      in if pkthdr_len > omp_databuf_len omp \<or> pkthdr_len > 255 then (None, h)
         else case dpl_mbuf_get omp 0 h of
             (None, h') \<Rightarrow> (None, h')
           | (Some om, h') \<Rightarrow>
               (Some (om\<lparr>om_pkthdr_len := pkthdr_len, om_data := om_data om + pkthdr_len,
                  om_databuf := write_at (write_at (om_databuf om) 0 [0, 0, 0, 0]) 8 (replicate 8 0)\<rparr>), h'))"

text \<open>A block given back keeps its contents: the next owner finds them in its data buffer.\<close>

definition save_data :: "dpl_mbuf \<Rightarrow> dpl_heap \<Rightarrow> dpl_heap" where
  "save_data om h = h\<lparr>hp_data := (hp_data h)(om_addr om := om_databuf om)\<rparr>"

definition dpl_mbuf_free :: "put_callback \<Rightarrow> dpl_mbuf \<Rightarrow> dpl_heap \<Rightarrow> mem_error \<times> dpl_heap" where
  "dpl_mbuf_free cb om h =
     (case om_omp om of
        None \<Rightarrow> (MEM_OK, h)
      | Some omp \<Rightarrow> dpl_memblock_put cb (omp_pool omp) (om_addr om) (save_data om h))"

fun dpl_mbuf_free_chain :: "put_callback \<Rightarrow> mchain \<Rightarrow> dpl_heap \<Rightarrow> mem_error \<times> dpl_heap" where
  "dpl_mbuf_free_chain cb [] h = (MEM_OK, h)"
| "dpl_mbuf_free_chain cb (om # oms) h =
     (let (rc, h') = dpl_mbuf_free cb om h
      in if rc \<noteq> MEM_OK then (rc, h') else dpl_mbuf_free_chain cb oms h')"

text \<open>\<open>_dpl_mbuf_copypkthdr\<close>: its assertion, an empty new buffer, holds at every call.\<close>

definition copypkthdr :: "dpl_mbuf \<Rightarrow> dpl_mbuf \<Rightarrow> dpl_mbuf" where
  "copypkthdr new_buf old_buf =
     new_buf\<lparr>om_databuf := write_at (om_databuf new_buf) 0 (take (om_pkthdr_len old_buf) (om_databuf old_buf)),
             om_pkthdr_len := om_pkthdr_len old_buf, om_data := om_pkthdr_len old_buf\<rparr>"

section \<open>The queue and the system-wide registry\<close>

definition dpl_mqueue_get :: "mchain list \<Rightarrow> mchain \<times> mchain list" where
  "dpl_mqueue_get mq = (case mq of [] \<Rightarrow> ([], []) | om # q \<Rightarrow> (om, q))"

text \<open>The event posted to the queue's event queue is returned as a flag.\<close>

definition dpl_mqueue_put :: "mchain list \<Rightarrow> bool \<Rightarrow> mchain \<Rightarrow> mbuf_rc \<times> bool \<times> mchain list" where
  "dpl_mqueue_put mq has_evq om =
     (if om = [] \<or> \<not> DPL_MBUF_IS_PKTHDR (hd om) then (MB_EINVAL, False, mq)
      else (MB_OK, has_evq, mq @ [om]))"

fun dpl_msys_register :: "dpl_mbuf_pool list \<Rightarrow> dpl_mbuf_pool \<Rightarrow> dpl_mbuf_pool list" where
  "dpl_msys_register [] new_pool = [new_pool]"
| "dpl_msys_register (pool # pools) new_pool =
     (if omp_databuf_len new_pool > omp_databuf_len pool then pool # new_pool # pools
      else pool # dpl_msys_register pools new_pool)"

definition dpl_msys_find_pool :: "dpl_mbuf_pool list \<Rightarrow> nat \<Rightarrow> dpl_mbuf_pool option" where
  "dpl_msys_find_pool pools dsize =
     (case find (\<lambda>pool. dsize \<le> omp_databuf_len pool) pools of
        Some pool \<Rightarrow> Some pool
      | None \<Rightarrow> if pools = [] then None else Some (last pools))"

definition dpl_msys_get :: "dpl_mbuf_pool list \<Rightarrow> nat \<Rightarrow> nat \<Rightarrow> dpl_heap \<Rightarrow> dpl_mbuf option \<times> dpl_heap" where
  "dpl_msys_get pools dsize leadingspace h =
     (case dpl_msys_find_pool pools dsize of
        None \<Rightarrow> (None, h)
      | Some pool \<Rightarrow> dpl_mbuf_get pool leadingspace h)"

text \<open>The user header's length is passed on as a byte.\<close>

definition dpl_msys_get_pkthdr :: "dpl_mbuf_pool list \<Rightarrow> nat \<Rightarrow> nat \<Rightarrow> dpl_heap \<Rightarrow> dpl_mbuf option \<times> dpl_heap" where
  "dpl_msys_get_pkthdr pools dsize user_hdr_len h =
     (let total_pkthdr_len = (user_hdr_len + sizeof_pkthdr) mod 65536
      in case dpl_msys_find_pool pools ((dsize + total_pkthdr_len) mod 65536) of
           None \<Rightarrow> (None, h)
         | Some pool \<Rightarrow> dpl_mbuf_get_pkthdr pool (user_hdr_len mod 256) h)"

definition dpl_msys_count :: "dpl_mbuf_pool list \<Rightarrow> dpl_heap \<Rightarrow> nat" where
  "dpl_msys_count pools h = (\<Sum>pool\<leftarrow>pools. unat (mp_num_blocks (hp_pool h (omp_pool pool))))"

definition dpl_msys_num_free :: "dpl_mbuf_pool list \<Rightarrow> dpl_heap \<Rightarrow> nat" where
  "dpl_msys_num_free pools h = (\<Sum>pool\<leftarrow>pools. unat (mp_num_free (hp_pool h (omp_pool pool))))"

section \<open>Termination of the allocating loops\<close>

text \<open>Every buffer handed out lowers the pool's count of free blocks, whatever the state.\<close>

definition free_count :: "dpl_mbuf_pool \<Rightarrow> dpl_heap \<Rightarrow> nat" where
  "free_count omp h = unat (mp_num_free (hp_pool h (omp_pool omp)))"

lemma mbuf_get_free_count:
  assumes "dpl_mbuf_get omp lead h = (Some om, h')"
  shows "free_count omp h' < free_count omp h" and "om_omp om = Some omp"
  using assms
  by (auto simp: dpl_mbuf_get_def dpl_memblock_get_def Let_def free_count_def set_simps unat_minus_one unat_gt_0
      split: if_splits prod.splits)

lemma mbuf_get_pkthdr_free_count:
  assumes "dpl_mbuf_get_pkthdr omp n h = (Some om, h')"
  shows "free_count omp h' < free_count omp h" and "om_omp om = Some omp"
  using assms mbuf_get_free_count[of omp 0 h]
  by (auto simp: dpl_mbuf_get_pkthdr_def Let_def split: if_splits prod.splits option.splits)

section \<open>Reading a chain\<close>

text \<open>\<open>dpl_mbuf_off\<close>: the buffer an offset falls in, as the rest of the chain from it, and the offset there.\<close>

fun dpl_mbuf_off :: "mchain \<Rightarrow> int \<Rightarrow> (mchain \<times> nat) option" where
  "dpl_mbuf_off [] off = None"
| "dpl_mbuf_off (cur # nxt) off =
     (if int (om_len cur) > off \<or> (int (om_len cur) = off \<and> nxt = [])
      then Some (cur # nxt, nat (off mod 65536))
      else dpl_mbuf_off nxt (off - int (om_len cur)))"

fun copydata_skip :: "mchain \<Rightarrow> int \<Rightarrow> (mchain \<times> int) option" where
  "copydata_skip [] off = (if off > 0 then None else Some ([], off))"
| "copydata_skip (m # ms) off =
     (if off > 0 then
        (if off < int (om_len m) then Some (m # ms, off) else copydata_skip ms (off - int (om_len m)))
      else Some (m # ms, off))"

fun copydata_loop :: "mchain \<Rightarrow> int \<Rightarrow> int \<Rightarrow> int \<times> bytes" where
  "copydata_loop [] off len = (len, [])"
| "copydata_loop (m # ms) off len =
     (if len > 0 then
        (let count = min (int (om_len m) - off) len;
             (rest, out) = copydata_loop ms 0 (len - count)
         in (rest, read_at (om_databuf m) (nat (int (om_data m) + off)) (nat count) @ out))
      else (len, []))"

text \<open>The bytes stored at \<open>dst\<close>, with the return value.\<close>

definition dpl_mbuf_copydata :: "mchain \<Rightarrow> int \<Rightarrow> int \<Rightarrow> int \<times> bytes" where
  "dpl_mbuf_copydata m off len =
     (if len = 0 then (0, [])
      else case copydata_skip m off of
          None \<Rightarrow> (-1, [])
        | Some (m', off') \<Rightarrow>
            (let (rest, out) = copydata_loop m' off' len in (if rest > 0 then -1 else 0, out)))"

definition C_INT_MAX :: int where "C_INT_MAX = 2147483647"

text \<open>\<open>memcmp\<close>: the difference at the first byte that differs.\<close>

fun memcmp :: "bytes \<Rightarrow> bytes \<Rightarrow> int" where
  "memcmp (x # xs) (y # ys) = (if x = y then memcmp xs ys else uint x - uint y)"
| "memcmp _ _ = 0"

primrec cmpf_loop :: "mchain \<Rightarrow> nat \<Rightarrow> bytes \<Rightarrow> nat \<Rightarrow> int \<Rightarrow> int" where
  "cmpf_loop [] om_off data data_off len = C_INT_MAX"
| "cmpf_loop (om # oms) om_off data data_off len =
     (let chunk_sz = nat (min (int (om_len om) - int om_off) (len - int data_off) mod 65536);
          rc = (if chunk_sz > 0 then memcmp (mbuf_read om om_off chunk_sz) (read_at data data_off chunk_sz) else 0)
      in if rc \<noteq> 0 then rc
         else
           let data_off' = (data_off + chunk_sz) mod 65536
           in if int data_off' = len then 0 else cmpf_loop oms 0 data data_off' len)"

definition dpl_mbuf_cmpf :: "mchain \<Rightarrow> int \<Rightarrow> bytes \<Rightarrow> int \<Rightarrow> int" where
  "dpl_mbuf_cmpf om off data len =
     (if len \<le> 0 then 0
      else case dpl_mbuf_off om off of
          None \<Rightarrow> C_INT_MAX
        | Some (om', om_off) \<Rightarrow> cmpf_loop om' om_off data 0 len)"

fun skip_read :: "mchain \<Rightarrow> nat \<Rightarrow> mchain \<times> nat" where
  "skip_read [] off = ([], off)"
| "skip_read (cur # oms) off = (if off \<ge> om_len cur then skip_read oms 0 else (cur # oms, off))"

lemma skip_read_room: "skip_read oms off = (cur # rest, off') \<Longrightarrow> off' < om_len cur"
  by (induction oms off rule: skip_read.induct) (auto split: if_splits)

function cmpm_loop :: "mchain \<Rightarrow> nat \<Rightarrow> mchain \<Rightarrow> nat \<Rightarrow> nat \<Rightarrow> int" where
  "cmpm_loop cur1 off1 cur2 off2 bytes_remaining =
     (if bytes_remaining = 0 then 0
      else
        let (c1, o1) = skip_read cur1 off1;
            (c2, o2) = skip_read cur2 off2
        in if c1 = [] \<or> c2 = [] then C_INT_MAX
           else
             let chunk_sz = min (min (om_len (hd c1) - o1) (om_len (hd c2) - o2)) bytes_remaining;
                 rc = memcmp (mbuf_read (hd c1) o1 chunk_sz) (mbuf_read (hd c2) o2 chunk_sz)
             in if rc \<noteq> 0 then rc
                else cmpm_loop c1 (o1 + chunk_sz) c2 (o2 + chunk_sz) (bytes_remaining - chunk_sz))"
  by pat_completeness simp
termination
proof (relation "measure (\<lambda>(_, _, _, _, r). r)", goal_cases)
  case (2 cur1 off1 cur2 off2 r x c1 o1 y c2 o2 chunk rc)
  have "o1 < om_len (hd c1)" "o2 < om_len (hd c2)"
    using 2 skip_read_room by (metis list.collapse)+
  then show ?case using 2 by simp
qed simp

declare cmpm_loop.simps [simp del]

definition dpl_mbuf_cmpm :: "mchain \<Rightarrow> nat \<Rightarrow> mchain \<Rightarrow> nat \<Rightarrow> nat \<Rightarrow> int" where
  "dpl_mbuf_cmpm om1 offset1 om2 offset2 len =
     (let (cur1, off1) = (case dpl_mbuf_off om1 (int offset1) of None \<Rightarrow> ([], 0) | Some p \<Rightarrow> p);
          (cur2, off2) = (case dpl_mbuf_off om2 (int offset2) of None \<Rightarrow> ([], 0) | Some p \<Rightarrow> p)
      in cmpm_loop cur1 off1 cur2 off2 len)"

section \<open>Appending\<close>

text \<open>
  New buffers for the data left over, until it is exhausted or the pool is. A pool of
  data buffers of length 0 is drained for nothing, so the measure is the pool.
\<close>

function append_loop :: "dpl_mbuf_pool \<Rightarrow> bytes \<Rightarrow> nat \<Rightarrow> dpl_heap \<Rightarrow> mchain \<times> nat \<times> dpl_heap" where
  "append_loop omp data remainder h =
     (if remainder = 0 then ([], 0, h)
      else case dpl_mbuf_get omp 0 h of
          (None, h') \<Rightarrow> ([], remainder, h')
        | (Some new, h') \<Rightarrow>
            (let n = min (omp_databuf_len omp) remainder;
                 new' = mbuf_write (new\<lparr>om_len := n\<rparr>) 0 (take n data);
                 (news, remainder', h'') = append_loop omp (drop n data) (remainder - n) h'
             in (new' # news, remainder', h'')))"
  by pat_completeness simp
termination
  by (relation "measure (\<lambda>(omp, _, _, h). free_count omp h)") (auto dest!: sym[THEN mbuf_get_free_count(1)])

declare append_loop.simps [simp del]

definition dpl_mbuf_append :: "mchain \<Rightarrow> bytes \<Rightarrow> nat \<Rightarrow> dpl_heap \<Rightarrow> mbuf_rc \<times> mchain \<times> dpl_heap" where
  "dpl_mbuf_append om data len h =
     (if om = [] then (MB_EINVAL, om, h)
      else
        let omp = the (om_omp (hd om));
            last1 = last om;
            space = DPL_MBUF_TRAILINGSPACE last1;
            n = (if space > 0 then min space len else 0);
            last2 = (if space > 0
                     then (mbuf_write last1 (om_len last1) (take n data))\<lparr>om_len := (om_len last1 + n) mod 65536\<rparr>
                     else last1);
            (news, remainder, h') = append_loop omp (drop n data) (len - n) h;
            om' = upd_pktlen (\<lambda>l. l + of_nat (len - remainder)) (butlast om @ last2 # news)
        in (if remainder \<noteq> 0 then MB_ENOMEM else MB_OK, om', h'))"

primrec appendfrom_loop :: "mchain \<Rightarrow> nat \<Rightarrow> nat \<Rightarrow> mchain \<Rightarrow> dpl_heap \<Rightarrow> mbuf_rc \<times> mchain \<times> dpl_heap" where
  "appendfrom_loop [] off len dst h = (if len > 0 then (MB_EINVAL, dst, h) else (MB_OK, dst, h))"
| "appendfrom_loop (src # srcs) off len dst h =
     (if len > 0 then
        (let chunk_sz = nat (min (int len) (int (om_len src) - int off) mod 65536);
             (rc, dst', h') = dpl_mbuf_append dst (mbuf_read src off chunk_sz) chunk_sz h
         in if rc \<noteq> MB_OK then (rc, dst', h')
            else appendfrom_loop srcs 0 (len - chunk_sz) dst' h')
      else (MB_OK, dst, h))"

definition dpl_mbuf_appendfrom ::
    "mchain \<Rightarrow> mchain \<Rightarrow> nat \<Rightarrow> nat \<Rightarrow> dpl_heap \<Rightarrow> mbuf_rc \<times> mchain \<times> dpl_heap" where
  "dpl_mbuf_appendfrom dst src src_off len h =
     (case dpl_mbuf_off src (int src_off) of
        None \<Rightarrow> appendfrom_loop [] 0 len dst h
      | Some (cur, off) \<Rightarrow> appendfrom_loop cur off len dst h)"

definition dpl_mbuf_extend :: "mchain \<Rightarrow> nat \<Rightarrow> dpl_heap \<Rightarrow> nat option \<times> mchain \<times> dpl_heap" where
  "dpl_mbuf_extend om len h =
     (let omp = the (om_omp (hd om))
      in if len > omp_databuf_len omp then (None, om, h)
         else
           let grow = (\<lambda>m. m\<lparr>om_len := (om_len m + len) mod 65536\<rparr>)
           in if DPL_MBUF_TRAILINGSPACE (last om) < len
              then (case dpl_mbuf_get omp 0 h of
                      (None, h') \<Rightarrow> (None, om, h')
                    | (Some newm, h') \<Rightarrow>
                        (Some (om_data newm + om_len newm),
                         upd_pktlen (\<lambda>l. l + of_nat len) (om @ [grow newm]), h'))
              else (Some (om_data (last om) + om_len (last om)),
                    upd_pktlen (\<lambda>l. l + of_nat len) (butlast om @ [grow (last om)]), h))"

definition dpl_mbuf_concat :: "mchain \<Rightarrow> mchain \<Rightarrow> mchain" where
  "dpl_mbuf_concat first second =
     upd_pktlen (\<lambda>l. if DPL_MBUF_IS_PKTHDR (hd second) then l + DPL_MBUF_PKTLEN (hd second)
                     else l + of_nat (\<Sum>m\<leftarrow>second. om_len m)) first
     @ upd_head (\<lambda>m. m\<lparr>om_pkthdr_len := 0\<rparr>) second"

section \<open>Copies\<close>

fun dup_loop :: "put_callback \<Rightarrow> dpl_mbuf_pool \<Rightarrow> mchain \<Rightarrow> mchain \<Rightarrow> dpl_heap \<Rightarrow> mchain \<times> dpl_heap" where
  "dup_loop cb omp copied [] h = (copied, h)"
| "dup_loop cb omp copied (om # oms) h =
     (case dpl_mbuf_get omp (DPL_MBUF_LEADINGSPACE om) h of
        (None, h') \<Rightarrow> ([], if copied = [] then h' else snd (dpl_mbuf_free_chain cb copied h'))
      | (Some new, h') \<Rightarrow>
          (let copy = (if copied = [] \<and> DPL_MBUF_IS_PKTHDR om then copypkthdr new om else new);
               copy' = mbuf_write (copy\<lparr>om_flags := om_flags om, om_len := om_len om\<rparr>) 0
                         (mbuf_read om 0 (om_len om))
           in dup_loop cb omp (copied @ [copy']) oms h'))"

definition dpl_mbuf_dup :: "put_callback \<Rightarrow> mchain \<Rightarrow> dpl_heap \<Rightarrow> mchain \<times> dpl_heap" where
  "dpl_mbuf_dup cb om h = dup_loop cb (the (om_omp (hd om))) [] om h"

fun copyinto_loop :: "mchain \<Rightarrow> nat \<Rightarrow> bytes \<Rightarrow> int \<Rightarrow> mchain \<times> bytes \<times> int" where
  "copyinto_loop [] off src len = ([], src, len)"
| "copyinto_loop (cur # oms) off src len =
     (let copylen = min (int (om_len cur) - int off) len;
          n = nat copylen;
          cur' = (if copylen > 0 then mbuf_write cur off (take n src) else cur);
          src' = (if copylen > 0 then drop n src else src);
          len' = (if copylen > 0 then len - copylen else len)
      in if len' = 0 \<or> oms = [] then (cur' # oms, src', len')
         else let (oms', rest) = copyinto_loop oms 0 src' len' in (cur' # oms', rest))"

text \<open>
  The part of the chain before the offset is untouched; what does not fit is appended
  from the last buffer on, and the header field is compared with the offset plus what
  was left over then. A failed \<open>dpl_mbuf_off\<close> is the return value -1, \<open>MB_EINVAL\<close> here.
\<close>

definition dpl_mbuf_copyinto :: "mchain \<Rightarrow> int \<Rightarrow> bytes \<Rightarrow> int \<Rightarrow> dpl_heap \<Rightarrow> mbuf_rc \<times> mchain \<times> dpl_heap" where
  "dpl_mbuf_copyinto om off src len h =
     (case dpl_mbuf_off om off of
        None \<Rightarrow> (MB_EINVAL, om, h)
      | Some (cur, cur_off) \<Rightarrow>
          (let pre = take (length om - length cur) om;
               (cur', src', len') = copyinto_loop cur cur_off src len
           in if len' = 0 then (MB_OK, pre @ cur', h)
              else
                let (rc, tail', h') = dpl_mbuf_append [last cur'] src' (nat (len' mod 65536)) h;
                    om' = pre @ butlast cur' @ tail'
                in if rc \<noteq> MB_OK then (rc, om', h')
                   else (MB_OK, upd_pktlen (\<lambda>l. of_int (max (uint l) (off + len'))) om', h')))"

section \<open>Trimming and making room\<close>

fun adj_head :: "mchain \<Rightarrow> nat \<Rightarrow> mchain \<times> nat" where
  "adj_head [] len = ([], len)"
| "adj_head (m # ms) len =
     (if len = 0 then (m # ms, 0)
      else if om_len m \<le> len
           then (let (ms', rest) = adj_head ms (len - om_len m) in (m\<lparr>om_len := 0\<rparr> # ms', rest))
           else (m\<lparr>om_len := om_len m - len, om_data := om_data m + len\<rparr> # ms, 0))"

fun adj_truncate :: "put_callback \<Rightarrow> mchain \<Rightarrow> nat \<Rightarrow> dpl_heap \<Rightarrow> mchain \<times> dpl_heap" where
  "adj_truncate cb [] count h = ([], h)"
| "adj_truncate cb (m # ms) count h =
     (if om_len m \<ge> count
      then ([m\<lparr>om_len := count\<rparr>], if ms = [] then h else snd (dpl_mbuf_free_chain cb ms h))
      else let (ms', h') = adj_truncate cb ms (count - om_len m) h in (m # ms', h'))"

definition chain_len :: "mchain \<Rightarrow> nat" where
  "chain_len om = (\<Sum>m\<leftarrow>om. om_len m)"

definition dpl_mbuf_adj :: "put_callback \<Rightarrow> mchain \<Rightarrow> int \<Rightarrow> dpl_heap \<Rightarrow> mchain \<times> dpl_heap" where
  "dpl_mbuf_adj cb mp req_len h =
     (if mp = [] then (mp, h)
      else if req_len \<ge> 0 then
        (let (mp', rest) = adj_head mp (nat req_len)
         in (upd_pktlen (\<lambda>l. l - of_nat (nat req_len - rest)) mp', h))
      else
        let len = nat (- req_len)
        in if om_len (last mp) \<ge> len
           then (upd_pktlen (\<lambda>l. l - of_nat len) (butlast mp @ [(last mp)\<lparr>om_len := om_len (last mp) - len\<rparr>]), h)
           else let count = chain_len mp - len
                in adj_truncate cb (upd_pktlen (\<lambda>_. of_nat count) mp) count h)"

text \<open>
  Each new head comes from the pool, which is the measure: with data buffers no larger
  than the header it has to copy, the loop only ends when the pool is empty.
\<close>

lemma head_get_free_count:
  assumes "(Some p, h') = (if b then dpl_mbuf_get_pkthdr omp n h else dpl_mbuf_get omp 0 h)"
  shows "free_count omp h' < free_count omp h \<and> om_omp p = Some omp"
  using assms mbuf_get_free_count[of omp 0 h p h'] mbuf_get_pkthdr_free_count[of omp n h p h']
  by (cases b) auto

function dpl_mbuf_prepend :: "put_callback \<Rightarrow> mchain \<Rightarrow> nat \<Rightarrow> dpl_heap \<Rightarrow> mchain \<times> dpl_heap" where
  "dpl_mbuf_prepend cb om len h =
     (let m = hd om;
          omp = the (om_omp m);
          leading = min len (DPL_MBUF_LEADINGSPACE m);
          om1 = upd_pktlen (\<lambda>l. l + of_nat leading)
                  (upd_head (\<lambda>m. m\<lparr>om_data := om_data m - leading, om_len := (om_len m + leading) mod 65536\<rparr>) om)
      in if len - leading = 0 then (om1, h)
         else case (if DPL_MBUF_IS_PKTHDR m then dpl_mbuf_get_pkthdr omp (om_pkthdr_len m - sizeof_pkthdr) h
                    else dpl_mbuf_get omp 0 h) of
             (None, h') \<Rightarrow> ([], snd (dpl_mbuf_free_chain cb om1 h'))
           | (Some p, h') \<Rightarrow>
               (let p1 = (if DPL_MBUF_IS_PKTHDR m then copypkthdr p (hd om1) else p);
                    om2 = (if DPL_MBUF_IS_PKTHDR m then upd_head (\<lambda>m. m\<lparr>om_pkthdr_len := 0\<rparr>) om1 else om1);
                    p2 = p1\<lparr>om_data := om_data p1 + DPL_MBUF_TRAILINGSPACE p1\<rparr>
                in dpl_mbuf_prepend cb (p2 # om2) (len - leading) h'))"
  by pat_completeness simp
termination
proof (relation "measure (\<lambda>(_, om, _, h). free_count (the (om_omp (hd om))) h)", goal_cases)
  case 2
  show ?case using 2(6)[unfolded 2(7), THEN head_get_free_count] 2(1,2) 2(8-) by (simp add: copypkthdr_def)
qed simp

declare dpl_mbuf_prepend.simps [simp del]

text \<open>
  The loop of \<open>dpl_mbuf_pullup\<close>, a \<open>do ... while\<close>: it moves data from the head of the
  chain behind the data of \<open>om2\<close>, frees the buffers it empties, and goes on while data is
  wanted and the chain has some. Where the room in \<open>om2\<close> runs out before the data
  wanted, the C loop goes round for ever moving nothing: \<open>None\<close>.
\<close>

fun pullup_loop ::
    "put_callback \<Rightarrow> dpl_mbuf \<Rightarrow> mchain \<Rightarrow> nat \<Rightarrow> nat \<Rightarrow> dpl_heap \<Rightarrow> (dpl_mbuf \<times> mchain \<times> nat \<times> dpl_heap) option" where
  "pullup_loop cb om2 [] len space h = Some (om2, [], len, h)"
| "pullup_loop cb om2 (om # oms) len space h =
     (let count = min (min len space) (om_len om);
          om2' = (mbuf_write om2 (om_len om2) (mbuf_read om 0 count))\<lparr>om_len := (om_len om2 + count) mod 65536\<rparr>;
          len' = len - count
      in if om_len om - count \<noteq> 0
         then if len' > 0 then None
              else Some (om2', om\<lparr>om_len := om_len om - count, om_data := om_data om + count\<rparr> # oms, len', h)
         else
           let h' = snd (dpl_mbuf_free cb (om\<lparr>om_len := 0\<rparr>) h)
           in if len' > 0 \<and> oms \<noteq> [] then pullup_loop cb om2' oms len' (space - count) h'
              else Some (om2', oms, len', h'))"

definition pullup_finish :: "put_callback \<Rightarrow> dpl_mbuf \<Rightarrow> mchain \<Rightarrow> nat \<Rightarrow> dpl_heap \<Rightarrow> (mchain \<times> dpl_heap) option" where
  "pullup_finish cb om2 om len h =
     (case pullup_loop cb om2 om len (DPL_MBUF_TRAILINGSPACE om2) h of
        None \<Rightarrow> None
      | Some (om2', om', len', h1) \<Rightarrow>
          if len' > 0
          then let h2 = snd (dpl_mbuf_free cb om2' h1) in Some ([], snd (dpl_mbuf_free_chain cb om' h2))
          else Some (om2' # om', h1))"

definition dpl_mbuf_pullup :: "put_callback \<Rightarrow> mchain \<Rightarrow> nat \<Rightarrow> dpl_heap \<Rightarrow> (mchain \<times> dpl_heap) option" where
  "dpl_mbuf_pullup cb om len h =
     (let m = hd om; omp = the (om_omp m)
      in if om_len m \<ge> len then Some (om, h)
         else if om_len m + DPL_MBUF_TRAILINGSPACE m \<ge> len \<and> tl om \<noteq> []
              then pullup_finish cb m (tl om) (len - om_len m) h
         else if int len > int (omp_databuf_len omp) - int (om_pkthdr_len m)
              then Some ([], snd (dpl_mbuf_free_chain cb om h))
         else case dpl_mbuf_get omp 0 h of
             (None, h') \<Rightarrow> Some ([], snd (dpl_mbuf_free_chain cb om h'))
           | (Some om2, h') \<Rightarrow>
               pullup_finish cb (if DPL_MBUF_IS_PKTHDR m then copypkthdr om2 m else om2) om len h')"

definition dpl_mbuf_prepend_pullup :: "put_callback \<Rightarrow> mchain \<Rightarrow> nat \<Rightarrow> dpl_heap \<Rightarrow> (mchain \<times> dpl_heap) option" where
  "dpl_mbuf_prepend_pullup cb om len h =
     (let (om1, h1) = dpl_mbuf_prepend cb om len h
      in if om1 = [] then Some ([], h1) else dpl_mbuf_pullup cb om1 len h1)"

fun trim_empty :: "put_callback \<Rightarrow> mchain \<Rightarrow> dpl_heap \<Rightarrow> mchain \<times> dpl_heap" where
  "trim_empty cb [] h = ([], h)"
| "trim_empty cb (cur # oms) h =
     (if om_len cur = 0 then trim_empty cb oms (snd (dpl_mbuf_free cb cur h)) else (cur # oms, h))"

definition dpl_mbuf_trim_front :: "put_callback \<Rightarrow> mchain \<Rightarrow> dpl_heap \<Rightarrow> mchain \<times> dpl_heap" where
  "dpl_mbuf_trim_front cb om h =
     (let m = hd om
      in if om_len m \<noteq> 0 then (om, h)
         else case trim_empty cb (tl om) h of
             ([], h1) \<Rightarrow> ([m], h1)
           | (cur # oms, h1) \<Rightarrow>
               if DPL_MBUF_LEADINGSPACE cur \<ge> om_pkthdr_len m
               then (cur\<lparr>om_pkthdr_len := om_pkthdr_len m,
                        om_databuf := write_at (om_databuf cur) 0 (take (om_pkthdr_len m) (om_databuf m))\<rparr> # oms,
                     snd (dpl_mbuf_free cb m h1))
               else (m # cur # oms, h1))"

end
