(* ===== verification/Dpl_Mbuf_Chain.thy ===== *)
theory Dpl_Mbuf_Chain
  imports Dpl_Mbuf "HOL-Library.Multiset"
begin

text \<open>
  Chains of memory buffers as byte strings. \<open>chain_data\<close> is what a chain stands for;
  \<open>own P B h fl ms\<close> accounts for the blocks of a pool: those of the buffers in hand and
  the free ones are together exactly \<open>B\<close>, each once. An operation that keeps \<open>own\<close> for
  the same \<open>B\<close> neither leaks a block nor frees one twice.
\<close>

unbundle bit_operations_syntax

section \<open>Well-formed buffers\<close>

definition mbuf_data :: "dpl_mbuf \<Rightarrow> bytes" where
  "mbuf_data m = mbuf_read m 0 (om_len m)"

definition chain_data :: "mchain \<Rightarrow> bytes" where
  "chain_data om = concat (map mbuf_data om)"

definition hdr_len :: "dpl_mbuf \<Rightarrow> nat" where
  "hdr_len m = (if DPL_MBUF_IS_PKTHDR m then om_pkthdr_len m else 0)"

definition mbuf_ok :: "dpl_mbuf_pool \<Rightarrow> dpl_mbuf \<Rightarrow> bool" where
  "mbuf_ok P m \<longleftrightarrow>
     om_omp m = Some P \<and> om_pkthdr_len m < 256 \<and> length (om_databuf m) = omp_databuf_len P \<and> omp_databuf_len P < 65536 \<and>
     hdr_len m \<le> om_data m \<and> om_data m + om_len m \<le> omp_databuf_len P"

definition mpool_ok :: "dpl_mbuf_pool \<Rightarrow> dpl_heap \<Rightarrow> addr list \<Rightarrow> bool" where
  "mpool_ok P h fl \<longleftrightarrow>
     pool_ok (omp_pool P) h fl \<and> omp_databuf_len P < 65536 \<and>
     (\<forall>b \<in> set fl. length (hp_data h b) = omp_databuf_len P) \<and>
     mp_flags (hp_pool h (omp_pool P)) AND DPL_MEMPOOL_F_EXT = 0"

definition own :: "dpl_mbuf_pool \<Rightarrow> addr set \<Rightarrow> dpl_heap \<Rightarrow> addr list \<Rightarrow> dpl_mbuf list \<Rightarrow> bool" where
  "own P B h fl ms \<longleftrightarrow>
     mpool_ok P h fl \<and> (\<forall>m \<in> set ms. mbuf_ok P m) \<and> finite B \<and> B \<subseteq> pool_set (omp_pool P) h \<and>
     mset (map om_addr ms) + mset fl = mset_set B"

text \<open>The packet header of a chain counts its data, at 16 bits.\<close>

definition hdr_counts :: "mchain \<Rightarrow> bool" where
  "hdr_counts om \<longleftrightarrow> (om \<noteq> [] \<and> DPL_MBUF_IS_PKTHDR (hd om) \<longrightarrow> DPL_MBUF_PKTLEN (hd om) = of_nat (chain_len om))"

named_theorems mb

lemmas mbuf_defs = mbuf_read_def mbuf_write_def

lemma chain_simps [mb, simp]:
  "chain_data [] = []" "chain_data (m # ms) = mbuf_data m @ chain_data ms"
  "chain_data (ms @ ns) = chain_data ms @ chain_data ns"
  "chain_len [] = 0" "chain_len (m # ms) = om_len m + chain_len ms" "chain_len (ms @ ns) = chain_len ms + chain_len ns"
  by (simp_all add: chain_data_def chain_len_def)

lemma length_mbuf_data [simp]: "mbuf_ok P m \<Longrightarrow> length (mbuf_data m) = om_len m"
  by (simp add: mbuf_ok_def mbuf_data_def mbuf_read_def)

lemma length_chain_data: "\<forall>m \<in> set om. mbuf_ok P m \<Longrightarrow> length (chain_data om) = chain_len om"
  by (induction om) auto

lemma mbuf_data_nil: "om_len m = 0 \<Longrightarrow> mbuf_data m = []"
  by (simp add: mbuf_data_def mbuf_read_def read_at_def)

lemma leadingspace_ok: "mbuf_ok P m \<Longrightarrow> DPL_MBUF_LEADINGSPACE m = om_data m - hdr_len m"
  by (auto simp: mbuf_ok_def DPL_MBUF_LEADINGSPACE_def u16_diff_def hdr_len_def nat_diff_distrib)

lemma trailingspace_ok:
  "mbuf_ok P m \<Longrightarrow> DPL_MBUF_TRAILINGSPACE m = omp_databuf_len P - (om_data m + om_len m)"
proof -
  assume ok: "mbuf_ok P m"
  then have "(int (omp_databuf_len P) - int (om_data m + om_len m)) mod 65536 =
      int (omp_databuf_len P - (om_data m + om_len m))"
    by (simp add: mbuf_ok_def of_nat_diff)
  then show ?thesis using ok by (simp add: DPL_MBUF_TRAILINGSPACE_def u16_diff_def mbuf_ok_def)
qed

section \<open>Writing into a buffer\<close>

lemma mbuf_write_fields [simp]:
  "om_addr (mbuf_write m off xs) = om_addr m" "om_data (mbuf_write m off xs) = om_data m"
  "om_flags (mbuf_write m off xs) = om_flags m" "om_pkthdr_len (mbuf_write m off xs) = om_pkthdr_len m"
  "om_len (mbuf_write m off xs) = om_len m" "om_omp (mbuf_write m off xs) = om_omp m"
  "length (om_databuf (mbuf_write m off xs)) = length (om_databuf m)"
  "DPL_MBUF_IS_PKTHDR (mbuf_write m off xs) = DPL_MBUF_IS_PKTHDR m"
  "hdr_len (mbuf_write m off xs) = hdr_len m"
  by (simp_all add: mbuf_write_def DPL_MBUF_IS_PKTHDR_def hdr_len_def)

lemma mbuf_upd_fields [simp]:
  "DPL_MBUF_IS_PKTHDR (m\<lparr>om_len := k\<rparr>) = DPL_MBUF_IS_PKTHDR m" "hdr_len (m\<lparr>om_len := k\<rparr>) = hdr_len m"
  "DPL_MBUF_IS_PKTHDR (m\<lparr>om_data := k\<rparr>) = DPL_MBUF_IS_PKTHDR m" "hdr_len (m\<lparr>om_data := k\<rparr>) = hdr_len m"
  "DPL_MBUF_IS_PKTHDR (m\<lparr>om_databuf := d\<rparr>) = DPL_MBUF_IS_PKTHDR m" "hdr_len (m\<lparr>om_databuf := d\<rparr>) = hdr_len m"
  "DPL_MBUF_PKTLEN (m\<lparr>om_len := k\<rparr>) = DPL_MBUF_PKTLEN m" "DPL_MBUF_PKTLEN (m\<lparr>om_data := k\<rparr>) = DPL_MBUF_PKTLEN m"
  by (simp_all add: DPL_MBUF_IS_PKTHDR_def hdr_len_def DPL_MBUF_PKTLEN_def)

text \<open>A write behind the data extends the data by what was written.\<close>

lemma mbuf_data_grow:
  assumes "om_data m + om_len m + length xs \<le> length (om_databuf m)"
  shows "mbuf_data ((mbuf_write m (om_len m) xs)\<lparr>om_len := om_len m + length xs\<rparr>) = mbuf_data m @ xs"
  using assms by (auto simp: mbuf_data_def mbuf_defs read_at_def write_at_slices drop_take)

lemma mbuf_data_trim_head:
  "k \<le> om_len m \<Longrightarrow> mbuf_data (m\<lparr>om_len := om_len m - k, om_data := om_data m + k\<rparr>) = drop k (mbuf_data m)"
  by (simp add: mbuf_data_def mbuf_defs read_at_def drop_take add.commute)

lemma mbuf_data_trim_tail:
  "k \<le> om_len m \<Longrightarrow> mbuf_data (m\<lparr>om_len := k\<rparr>) = take k (mbuf_data m)"
  by (simp add: mbuf_data_def mbuf_defs read_at_def min_def)

lemma mbuf_read_data:
  "off + k \<le> om_len m \<Longrightarrow> mbuf_read m off k = take k (drop off (mbuf_data m))"
  by (simp add: mbuf_data_def mbuf_defs read_at_def drop_take min_def add.commute)

lemma mbuf_data_prepend:
  assumes "k \<le> om_data m" and "om_data m + om_len m \<le> length (om_databuf m)"
  shows "mbuf_data (m\<lparr>om_data := om_data m - k, om_len := om_len m + k\<rparr>) =
    read_at (om_databuf m) (om_data m - k) k @ mbuf_data m"
proof -
  have "take (k + om_len m) (drop (om_data m - k) (om_databuf m)) =
      take k (drop (om_data m - k) (om_databuf m)) @ take (om_len m) (drop k (drop (om_data m - k) (om_databuf m)))"
    by (rule take_add)
  then show ?thesis
    using assms by (simp add: mbuf_data_def mbuf_defs read_at_def add.commute)
qed

lemma mbuf_data_overlay:
  assumes "off + length xs \<le> om_len m" and "om_data m + om_len m \<le> length (om_databuf m)"
  shows "mbuf_data (mbuf_write m off xs) = write_at (mbuf_data m) off xs"
proof (rule nth_equalityI)
  show "length (mbuf_data (mbuf_write m off xs)) = length (write_at (mbuf_data m) off xs)"
    using assms by (simp add: mbuf_data_def mbuf_defs)
next
  fix i assume "i < length (mbuf_data (mbuf_write m off xs))"
  then have i: "i < om_len m" using assms by (simp add: mbuf_data_def mbuf_defs)
  have l: "length (mbuf_data m) = om_len m" using assms by (simp add: mbuf_data_def mbuf_defs)
  have "mbuf_data (mbuf_write m off xs) ! i = write_at (om_databuf m) (om_data m + off) xs ! (om_data m + i)"
    using i assms by (simp add: mbuf_data_def mbuf_defs nth_read_at)
  also have "\<dots> = write_at (mbuf_data m) off xs ! i"
  proof (cases "off \<le> i \<and> i < off + length xs")
    case True
    then have "write_at (om_databuf m) (om_data m + off) xs ! (om_data m + i) = xs ! (i - off)"
      using assms i by (subst write_at_slices) (auto simp: nth_append)
    moreover have "write_at (mbuf_data m) off xs ! i = xs ! (i - off)"
      using True assms i l by (subst write_at_slices) (auto simp: nth_append)
    ultimately show ?thesis by simp
  next
    case False
    then have "write_at (om_databuf m) (om_data m + off) xs ! (om_data m + i) = om_databuf m ! (om_data m + i)"
      by (intro write_at_nth_other) auto
    moreover have "write_at (mbuf_data m) off xs ! i = mbuf_data m ! i"
      using False by (intro write_at_nth_other) auto
    ultimately show ?thesis using i assms by (simp add: mbuf_data_def mbuf_defs nth_read_at)
  qed
  finally show "mbuf_data (mbuf_write m off xs) ! i = write_at (mbuf_data m) off xs ! i" .
qed

section \<open>The packet header\<close>

lemma set_pktlen_fields [simp]:
  "om_addr (set_pktlen f m) = om_addr m" "om_data (set_pktlen f m) = om_data m"
  "om_flags (set_pktlen f m) = om_flags m" "om_pkthdr_len (set_pktlen f m) = om_pkthdr_len m"
  "om_len (set_pktlen f m) = om_len m" "om_omp (set_pktlen f m) = om_omp m"
  "length (om_databuf (set_pktlen f m)) = length (om_databuf m)"
  "DPL_MBUF_IS_PKTHDR (set_pktlen f m) = DPL_MBUF_IS_PKTHDR m"
  "hdr_len (set_pktlen f m) = hdr_len m"
  by (simp_all add: set_pktlen_def DPL_MBUF_IS_PKTHDR_def hdr_len_def)

lemma set_pktlen_ok [simp]: "mbuf_ok P (set_pktlen f m) = mbuf_ok P m"
  by (simp add: mbuf_ok_def)

lemma pkthdr_room: "mbuf_ok P m \<Longrightarrow> DPL_MBUF_IS_PKTHDR m \<Longrightarrow> 16 \<le> om_data m \<and> 16 \<le> length (om_databuf m)"
  by (auto simp: mbuf_ok_def hdr_len_def DPL_MBUF_IS_PKTHDR_def sizeof_pkthdr_def)

lemma set_pktlen_data:
  assumes "mbuf_ok P m" and "DPL_MBUF_IS_PKTHDR m"
  shows "mbuf_data (set_pktlen f m) = mbuf_data m" and "DPL_MBUF_PKTLEN (set_pktlen f m) = f (DPL_MBUF_PKTLEN m)"
proof -
  note room = pkthdr_room[OF assms]
  show "mbuf_data (set_pktlen f m) = mbuf_data m"
    using room by (auto simp: mbuf_data_def mbuf_defs set_pktlen_def put_le16_writes length_le16_bytes
        intro!: read_at_write_at_other)
  show "DPL_MBUF_PKTLEN (set_pktlen f m) = f (DPL_MBUF_PKTLEN m)"
    using room by (simp add: set_pktlen_def DPL_MBUF_PKTLEN_def le16.get_put_same)
qed

lemma upd_pktlen_Cons:
  "upd_pktlen f (m # ms) = (if DPL_MBUF_IS_PKTHDR m then set_pktlen f m else m) # ms"
  by (simp add: upd_pktlen_def)

lemma upd_pktlen_map [simp]:
  "map om_addr (upd_pktlen f om) = map om_addr om" "map om_len (upd_pktlen f om) = map om_len om"
  "upd_pktlen f om = [] \<longleftrightarrow> om = []" "length (upd_pktlen f om) = length om"
  by (cases om; simp add: upd_pktlen_def)+
lemma chain_len_upd_pktlen [simp]: "chain_len (upd_pktlen f om) = chain_len om"
  by (simp add: chain_len_def)

lemma upd_pktlen_chain:
  assumes "\<forall>m \<in> set om. mbuf_ok P m"
  shows "chain_data (upd_pktlen f om) = chain_data om" and "\<forall>m \<in> set (upd_pktlen f om). mbuf_ok P m"
proof -
  have "chain_data (upd_pktlen f om) = chain_data om \<and> (\<forall>m \<in> set (upd_pktlen f om). mbuf_ok P m)"
  proof (cases om)
    case (Cons m ms)
    then show ?thesis using assms set_pktlen_data(1)[of P m f] by (simp add: upd_pktlen_Cons)
  qed (simp add: upd_pktlen_def)
  then show "chain_data (upd_pktlen f om) = chain_data om" and "\<forall>m \<in> set (upd_pktlen f om). mbuf_ok P m"
    by simp_all
qed

lemma hdr_counts_upd:
  assumes "\<forall>m \<in> set om. mbuf_ok P m" and "om \<noteq> []"
  shows "hdr_counts (upd_pktlen f om) \<longleftrightarrow>
    (DPL_MBUF_IS_PKTHDR (hd om) \<longrightarrow> f (DPL_MBUF_PKTLEN (hd om)) = of_nat (chain_len om))"
proof (cases om)
  case (Cons m ms)
  then show ?thesis
    using assms set_pktlen_data(2)[of P m f] by (simp add: hdr_counts_def upd_pktlen_Cons)
qed (use assms in simp)

section \<open>Accounting for the blocks\<close>

lemma own_ok: "own P B h fl ms \<Longrightarrow> \<forall>m \<in> set ms. mbuf_ok P m"
  by (simp add: own_def)

lemma own_databuf_len: "own P B h fl ms \<Longrightarrow> omp_databuf_len P < 65536"
  by (simp add: own_def mpool_ok_def)

lemma own_cong: "mset ms = mset ms' \<Longrightarrow> own P B h fl ms = own P B h fl ms'"
  unfolding own_def by (metis mset_eq_setD mset_map)

lemma own_update:
  assumes "own P B h fl ms" and "map om_addr ms' = map om_addr ms" and "\<forall>m \<in> set ms'. mbuf_ok P m"
  shows "own P B h fl ms'"
  using assms by (simp add: own_def)

lemma own_distinct:
  assumes "own P B h fl ms"
  shows "distinct (map om_addr ms @ fl)"
proof -
  obtain ys where "set ys = B" and "distinct ys"
    using assms finite_distinct_list[of B] unfolding own_def by blast
  moreover from this have "mset (map om_addr ms @ fl) = mset ys"
    using assms by (auto simp: own_def mset_set_set)
  ultimately show ?thesis using mset_eq_imp_distinct_iff by blast
qed

lemma own_blocks:
  assumes "own P B h fl ms"
  shows "set fl \<subseteq> B" and "om_addr ` set ms \<subseteq> B"
proof -
  have "set_mset (mset (map om_addr ms) + mset fl) = B" using assms by (simp add: own_def)
  then show "set fl \<subseteq> B" and "om_addr ` set ms \<subseteq> B" by auto
qed

lemma own_get:
  assumes "own P B h (b # fl) ms" and "lead \<le> omp_databuf_len P"
  obtains new h' where "dpl_mbuf_get P lead h = (Some new, h')" and "own P B h' fl (new # ms)"
    and "mbuf_ok P new" and "om_data new = lead" and "om_len new = 0" and "om_pkthdr_len new = 0"
    and "om_addr new = b" and "om_flags new = 0"
proof -
  let ?mp = "omp_pool P" and ?h = "snd (dpl_memblock_get (omp_pool P) h)"
  have pok: "pool_ok ?mp h (b # fl)" using assms by (simp add: own_def mpool_ok_def)
  have g: "fst (dpl_memblock_get ?mp h) = b" "pool_ok ?mp ?h fl" "pool_set ?mp ?h = pool_set ?mp h"
    using mempool.get_block[OF pok] by auto
  have b0: "b \<noteq> 0" using pool_ok_not_null[OF pok] by auto
  have flags: "mp_flags (hp_pool ?h ?mp) = mp_flags (hp_pool h ?mp)"
    by (simp add: dpl_memblock_get_def Let_def set_simps)
  let ?new = "\<lparr>om_addr = b, om_data = lead, om_flags = 0, om_pkthdr_len = 0, om_len = 0,
                om_omp = Some P, om_databuf = hp_data ?h b\<rparr>"
  have get: "dpl_mbuf_get P lead h = (Some ?new, ?h)"
    using g b0 assms(2) by (simp add: dpl_mbuf_get_def Let_def case_prod_beta)
  have ok: "mbuf_ok P ?new"
    using assms by (simp add: mbuf_ok_def own_def mpool_ok_def frame hdr_len_def DPL_MBUF_IS_PKTHDR_def sizeof_pkthdr_def)
  have "own P B ?h fl (?new # ms)"
    using assms g flags ok by (simp add: own_def mpool_ok_def frame)
  then show thesis using that get ok by simp
qed

lemma own_get_pkthdr:
  assumes "own P B h (b # fl) ms" and "n + sizeof_pkthdr \<le> omp_databuf_len P" and "n + sizeof_pkthdr \<le> 255"
  obtains new h' where "dpl_mbuf_get_pkthdr P n h = (Some new, h')" and "own P B h' fl (new # ms)"
    and "mbuf_ok P new" and "om_len new = 0" and "om_addr new = b"
proof -
  obtain new h' where get: "dpl_mbuf_get P 0 h = (Some new, h')" and own': "own P B h' fl (new # ms)"
    and new: "mbuf_ok P new" "om_data new = 0" "om_len new = 0" "om_addr new = b"
    by (rule own_get[OF assms(1), of 0]) auto
  let ?new = "new\<lparr>om_pkthdr_len := n + sizeof_pkthdr, om_data := om_data new + (n + sizeof_pkthdr),
                  om_databuf := write_at (write_at (om_databuf new) 0 [0, 0, 0, 0]) 8 (replicate 8 0)\<rparr>"
  have "dpl_mbuf_get_pkthdr P n h = (Some ?new, h')"
    using assms(2,3) get by (simp add: dpl_mbuf_get_pkthdr_def Let_def)
  moreover have ok: "mbuf_ok P ?new"
    using new assms(2,3) by (simp add: mbuf_ok_def hdr_len_def)
  moreover have "own P B h' fl (?new # ms)"
    using ok own_ok[OF own'] by (intro own_update[OF own']) auto
  ultimately show thesis using that new by simp
qed

lemma own_get_none:
  assumes "own P B h [] ms"
  shows "dpl_mbuf_get P lead h = (None, h)"
  using assms mempool.get_null by (simp add: own_def mpool_ok_def dpl_mbuf_get_def)

lemma own_free:
  assumes "own P B h fl (m # ms)"
  obtains h' where "dpl_mbuf_free cb m h = (MEM_OK, h')" and "own P B h' (om_addr m # fl) ms"
proof -
  let ?mp = "omp_pool P" and ?h = "save_data m h"
  let ?h' = "pool_put ?mp (om_addr m) ?h"
  have mok: "mbuf_ok P m" using assms by (simp add: own_def)
  have pok: "pool_ok ?mp ?h fl" using assms by (simp add: own_def mpool_ok_def save_data_def pool_ok_def)
  have ps: "pool_set ?mp ?h = pool_set ?mp h" by (simp add: save_data_def pool_set_def)
  have inB: "om_addr m \<in> pool_set ?mp ?h" using own_blocks[OF assms] assms ps by (auto simp: own_def)
  have nfl: "om_addr m \<notin> set fl" using own_distinct[OF assms] by auto
  note put = mempool.put_block[OF pok inB nfl]
  have mp0: "?mp \<noteq> 0" using pok by (simp add: pool_ok_def Let_def)
  have a0: "om_addr m \<noteq> 0" using inB by (simp add: pool_set_def)
  have "mp_flags (hp_pool ?h ?mp) AND DPL_MEMPOOL_F_EXT = 0"
    using assms by (simp add: own_def mpool_ok_def save_data_def)
  then have free: "dpl_mbuf_free cb m h = (MEM_OK, ?h')"
    using mok mp0 a0 by (simp add: dpl_mbuf_free_def mbuf_ok_def put_plain pool_put_def dpl_memblock_put_from_cb_def)
  have frm: "mp_flags (hp_pool ?h' ?mp) = mp_flags (hp_pool h ?mp)" "hp_data ?h' = (hp_data h)(om_addr m := om_databuf m)"
    by (simp_all add: pool_put_def dpl_memblock_put_from_cb_def set_simps save_data_def)
  have "own P B ?h' (om_addr m # fl) ms"
    using assms put frm ps mok by (simp add: own_def mpool_ok_def mbuf_ok_def add_ac)
  then show thesis using that free by simp
qed

lemma own_free_chain:
  assumes "own P B h fl (xs @ ms)"
  shows "\<exists>h'. dpl_mbuf_free_chain cb xs h = (MEM_OK, h') \<and> own P B h' (rev (map om_addr xs) @ fl) ms"
  using assms
proof (induction xs arbitrary: h fl)
  case Nil
  then show ?case by simp
next
  case (Cons x xs)
  then have "own P B h fl (x # xs @ ms)" by simp
  then obtain h1 where "dpl_mbuf_free cb x h = (MEM_OK, h1)" and "own P B h1 (om_addr x # fl) (xs @ ms)"
    by (rule own_free)
  moreover from this(2) Cons.IH obtain h2 where "dpl_mbuf_free_chain cb xs h1 = (MEM_OK, h2)"
      and "own P B h2 (rev (map om_addr xs) @ om_addr x # fl) ms" by blast
  ultimately show ?case by auto
qed

end
