(* ===== verification/Dpl_Mbuf_Append.thy ===== *)
theory Dpl_Mbuf_Append
  imports Dpl_Mbuf_Chain
begin

text \<open>
  The operations that lengthen a chain: appending bytes or another chain's bytes,
  extending, concatenating, duplicating. Each is an equation on \<open>chain_data\<close>, with the
  blocks accounted for and the packet header kept in step.
\<close>

unbundle bit_operations_syntax

section \<open>Appending bytes\<close>

lemma own_swap: "own P B h fl (xs @ ys) \<Longrightarrow> own P B h fl (ys @ xs)"
  using own_cong[of "xs @ ys" "ys @ xs"] by simp

text \<open>The room left at the end of a list of buffers, free blocks included.\<close>

definition last_room :: "mchain \<Rightarrow> nat" where
  "last_room om = (if om = [] then 0 else DPL_MBUF_TRAILINGSPACE (last om))"

lemma append_loop_ok:
  assumes "own P B h fl ms" and "rem \<le> length data"
  shows "\<exists>news h' fl'. append_loop P data rem h = (news, rem - length fl * omp_databuf_len P, h') \<and>
    own P B h' fl' (news @ ms) \<and> chain_data news = take (min rem (length fl * omp_databuf_len P)) data \<and>
    (rem = 0 \<longrightarrow> news = [] \<and> fl' = fl) \<and>
    last_room news + length fl' * omp_databuf_len P = length fl * omp_databuf_len P - min rem (length fl * omp_databuf_len P)"
  using assms
proof (induction fl arbitrary: data rem h ms)
  case Nil
  then show ?case
    using own_get_none[OF Nil(1)]
    by (intro exI[of _ "[]"] exI[of _ h]) (auto simp: append_loop.simps[of P data rem h] last_room_def)
next
  case (Cons b fl)
  let ?d = "omp_databuf_len P"
  show ?case
  proof (cases "rem = 0")
    case True
    then show ?thesis using Cons.prems
      by (rule_tac exI[of _ "[]"], rule_tac exI[of _ h], rule_tac exI[of _ "b # fl"])
         (auto simp: append_loop.simps[of P data 0 h] last_room_def)
  next
    case False
    obtain new h1 where get: "dpl_mbuf_get P 0 h = (Some new, h1)" and own1: "own P B h1 fl (new # ms)"
      and new: "mbuf_ok P new" "om_data new = 0" "om_len new = 0" "om_pkthdr_len new = 0"
      by (rule own_get[OF Cons.prems(1), of 0]) auto
    let ?n = "min ?d rem"
    let ?new = "mbuf_write (new\<lparr>om_len := ?n\<rparr>) 0 (take ?n data)"
    have ln: "length (take ?n data) = ?n" using Cons.prems(2) by simp
    have newok: "mbuf_ok P ?new" using new by (simp add: mbuf_ok_def)
    have newroom: "DPL_MBUF_TRAILINGSPACE ?new = ?d - ?n" using trailingspace_ok[OF newok] new by simp
    have "?new = (mbuf_write new (om_len new) (take ?n data))\<lparr>om_len := om_len new + length (take ?n data)\<rparr>"
      using new ln by (simp add: mbuf_write_def)
    then have newdata: "mbuf_data ?new = take ?n data"
      using mbuf_data_grow[of new "take ?n data"] new ln by (simp add: mbuf_ok_def mbuf_data_nil)
    have ownn: "own P B h1 fl (?new # ms)"
      using own_update[OF own1] new newok own_ok[OF own1] by simp
    have "rem - ?n \<le> length (drop ?n data)" using Cons.prems(2) by simp
    from Cons.IH[OF ownn this] obtain news h2 fl2 where
      rec: "append_loop P (drop ?n data) (rem - ?n) h1 = (news, (rem - ?n) - length fl * ?d, h2)"
      and own2: "own P B h2 fl2 (news @ ?new # ms)"
      and data2: "chain_data news = take (min (rem - ?n) (length fl * ?d)) (drop ?n data)"
      and fin: "rem - ?n = 0 \<longrightarrow> news = [] \<and> fl2 = fl"
      and room2: "last_room news + length fl2 * ?d = length fl * ?d - min (rem - ?n) (length fl * ?d)"
      by (elim exE conjE) (rule that)
    have "append_loop P data rem h = (?new # news, rem - length (b # fl) * ?d, h2)"
    proof -
      have "rem - ?n - length fl * ?d = rem - length (b # fl) * ?d" by auto
      then show ?thesis using False rec by (subst append_loop.simps) (auto simp: get Let_def)
    qed
    moreover have "own P B h2 fl2 ((?new # news) @ ms)"
      using own2 own_cong[of "news @ ?new # ms" "(?new # news) @ ms"] by simp
    moreover have "chain_data (?new # news) = take (min rem (length (b # fl) * ?d)) data"
    proof -
      have "?n + min (rem - ?n) (length fl * ?d) = min rem (length (b # fl) * ?d)" by auto
      then show ?thesis using newdata data2 by (metis chain_simps(2) take_add)
    qed
    moreover have "last_room (?new # news) + length fl2 * ?d =
        length (b # fl) * ?d - min rem (length (b # fl) * ?d)"
      using fin room2 newroom by (cases "news = []") (auto simp: last_room_def min_def split: if_splits)
    ultimately show ?thesis using False by blast
  qed
qed

lemma take_min_app: "take (min n a) xs @ take (min (n - min n a) b) (drop (min n a) xs) = take (min n (a + b)) xs"
proof -
  have "min n a + min (n - min n a) b = min n (a + b)" by auto
  then show ?thesis by (metis take_add)
qed

definition room :: "dpl_mbuf_pool \<Rightarrow> addr list \<Rightarrow> mchain \<Rightarrow> nat" where
  "room P fl om = DPL_MBUF_TRAILINGSPACE (last om) + length fl * omp_databuf_len P"

lemma grow_ok:
  assumes "mbuf_ok P m" and "length xs \<le> DPL_MBUF_TRAILINGSPACE m"
  shows "mbuf_ok P ((mbuf_write m (om_len m) xs)\<lparr>om_len := (om_len m + length xs) mod 65536\<rparr>)"
    and "mbuf_data ((mbuf_write m (om_len m) xs)\<lparr>om_len := (om_len m + length xs) mod 65536\<rparr>) = mbuf_data m @ xs"
    and "DPL_MBUF_TRAILINGSPACE ((mbuf_write m (om_len m) xs)\<lparr>om_len := (om_len m + length xs) mod 65536\<rparr>) =
      DPL_MBUF_TRAILINGSPACE m - length xs"
proof -
  have b: "om_data m + om_len m + length xs \<le> length (om_databuf m)" "om_len m + length xs < 65536"
    using assms by (auto simp: trailingspace_ok mbuf_ok_def)
  show ok': "mbuf_ok P ((mbuf_write m (om_len m) xs)\<lparr>om_len := (om_len m + length xs) mod 65536\<rparr>)"
    using assms b by (simp add: mbuf_ok_def)
  show "DPL_MBUF_TRAILINGSPACE ((mbuf_write m (om_len m) xs)\<lparr>om_len := (om_len m + length xs) mod 65536\<rparr>) =
      DPL_MBUF_TRAILINGSPACE m - length xs"
    using trailingspace_ok[OF ok'] trailingspace_ok[OF assms(1)] b(2) by simp
  show "mbuf_data ((mbuf_write m (om_len m) xs)\<lparr>om_len := (om_len m + length xs) mod 65536\<rparr>) = mbuf_data m @ xs"
    using mbuf_data_grow[OF b(1)] b(2) by simp
qed

lemma last_room_upd: "last_room (upd_pktlen f om) = last_room om"
  by (cases om) (auto simp: last_room_def upd_pktlen_Cons DPL_MBUF_TRAILINGSPACE_def)

lemma append_ok:
  assumes own: "own P B h fl (om @ os)" and ne: "om \<noteq> []" and len: "len \<le> length data"
  shows "\<exists>om' h' fl'. dpl_mbuf_append om data len h =
      (if len \<le> room P fl om then MB_OK else MB_ENOMEM, om', h') \<and>
    own P B h' fl' (om' @ os) \<and> om' \<noteq> [] \<and> chain_data om' = chain_data om @ take (min len (room P fl om)) data \<and>
    room P fl' om' = room P fl om - min len (room P fl om) \<and>
    (hdr_counts om \<longrightarrow> hdr_counts om') \<and> DPL_MBUF_IS_PKTHDR (hd om') = DPL_MBUF_IS_PKTHDR (hd om) \<and>
    length om \<le> length om'"
proof -
  let ?d = "omp_databuf_len P"
  let ?l = "last om" and ?sp = "DPL_MBUF_TRAILINGSPACE (last om)"
  let ?n = "min len ?sp"
  let ?l2 = "(mbuf_write ?l (om_len ?l) (take ?n data))\<lparr>om_len := (om_len ?l + ?n) mod 65536\<rparr>"
  have oks: "\<forall>m \<in> set om. mbuf_ok P m" using own_ok[OF own] by simp
  have lok: "mbuf_ok P ?l" using oks ne by simp
  have omp: "the (om_omp (hd om)) = P" using oks ne by (simp add: mbuf_ok_def)
  have ln: "length (take ?n data) = ?n" using len by simp
  have l2: "mbuf_ok P ?l2" "mbuf_data ?l2 = mbuf_data ?l @ take ?n data"
    using grow_ok[OF lok, of "take ?n data"] ln by simp_all
  have same: "(if ?sp > 0 then ?l2 else ?l) = ?l2"
    using lok by (auto simp: mbuf_ok_def mbuf_write_def)
  have n_eq: "(if ?sp > 0 then min ?sp len else 0) = ?n" by auto
  have om_split: "om = butlast om @ [?l]" using ne by simp
  have own1: "own P B h fl ((butlast om @ [?l2]) @ os)"
  proof (rule own_update[OF own])
    show "map om_addr ((butlast om @ [?l2]) @ os) = map om_addr (om @ os)"
      by (subst (3) om_split) simp
    show "\<forall>m \<in> set ((butlast om @ [?l2]) @ os). mbuf_ok P m"
      using l2(1) own_ok[OF own] by (auto dest: in_set_butlastD)
  qed
  have "len - ?n \<le> length (drop ?n data)" using len by simp
  from append_loop_ok[OF own1 this] obtain news h' fl' where loop: "append_loop P (drop ?n data) (len - ?n) h = (news, (len - ?n) - length fl * ?d, h')"
    and own': "own P B h' fl' (news @ (butlast om @ [?l2]) @ os)"
    and nd: "chain_data news = take (min (len - ?n) (length fl * ?d)) (drop ?n data)"
    and fin: "len - ?n = 0 \<longrightarrow> news = [] \<and> fl' = fl"
    and nr: "last_room news + length fl' * ?d = length fl * ?d - min (len - ?n) (length fl * ?d)"
    by (elim exE conjE) (rule that)
  let ?om = "butlast om @ ?l2 # news"
  let ?rem = "(len - ?n) - length fl * ?d"
  let ?om' = "upd_pktlen (\<lambda>l. l + of_nat (len - ?rem)) ?om"
  have oks': "\<forall>m \<in> set ?om. mbuf_ok P m" using own_ok[OF own'] by auto
  have res: "dpl_mbuf_append om data len h = (if ?rem \<noteq> 0 then MB_ENOMEM else MB_OK, ?om', h')"
    unfolding dpl_mbuf_append_def Let_def omp n_eq same loop by (simp only: ne if_False prod.case)
  have cnt: "len - ?rem = min len (room P fl om)" and rem0: "?rem = 0 \<longleftrightarrow> len \<le> room P fl om"
    by (auto simp: room_def)
  have "chain_data ?om = chain_data (butlast om @ [?l]) @ take (min len (room P fl om)) data"
    using l2(2) nd take_min_app[of len ?sp data "length fl * ?d"] by (simp add: room_def)
  then have cd: "chain_data ?om = chain_data om @ take (min len (room P fl om)) data"
    using om_split by simp
  have own2: "own P B h' fl' (?om @ os)"
    using own' own_cong[of "news @ (butlast om @ [?l2]) @ os" "?om @ os"] by simp
  have own3: "own P B h' fl' (?om' @ os)"
    using own_update[OF own2, of "?om' @ os"] upd_pktlen_chain[OF oks'] own_ok[OF own2] by auto
  have hd_eq: "DPL_MBUF_IS_PKTHDR (hd ?om) = DPL_MBUF_IS_PKTHDR (hd om)"
    by (cases "butlast om") (use om_split in \<open>simp; metis append_Nil list.sel(1)\<close>,
        use om_split in \<open>metis append_Cons list.sel(1)\<close>)
  have pl: "DPL_MBUF_PKTLEN (hd ?om) = DPL_MBUF_PKTLEN (hd om)" if "DPL_MBUF_IS_PKTHDR (hd om)"
  proof (cases "butlast om")
    case Nil
    then have hd: "hd om = ?l" using om_split by (metis append_Nil list.sel(1))
    have "16 \<le> om_data ?l \<and> 16 \<le> length (om_databuf ?l)"
      using pkthdr_room[OF lok] that hd by simp
    then show ?thesis using Nil hd
      by (simp add: DPL_MBUF_PKTLEN_def mbuf_write_def le16.get_write_at_other)
  next
    case (Cons m ms)
    then have "hd om = m" using om_split by (metis append_Cons list.sel(1))
    then show ?thesis using Cons by simp
  qed
  have "chain_len ?om = chain_len om + min len (room P fl om)"
    using arg_cong[OF cd, of length] length_chain_data[OF oks'] length_chain_data[OF oks] len by simp
  then have hc: "hdr_counts om \<longrightarrow> hdr_counts ?om'"
    using hdr_counts_upd[OF oks'] hd_eq pl cnt ne by (auto simp: hdr_counts_def)
  have hd': "DPL_MBUF_IS_PKTHDR (hd ?om') = DPL_MBUF_IS_PKTHDR (hd ?om)"
    by (cases ?om) (auto simp: upd_pktlen_Cons)
  have ll: "length om \<le> length ?om'" by simp
  have l2room: "DPL_MBUF_TRAILINGSPACE ?l2 = ?sp - ?n"
    using grow_ok(3)[OF lok, of "take ?n data"] ln by simp
  have rm: "room P fl' ?om = room P fl om - min len (room P fl om)"
    using fin nr l2room by (cases "news = []") (auto simp: room_def last_room_def min_def split: if_splits)
  have "last_room ?om' = last_room ?om"
    by (rule last_room_upd)
  then have rm': "room P fl' ?om' = room P fl om - min len (room P fl om)"
    using rm by (simp add: room_def last_room_def)
  have rc: "(if ?rem \<noteq> 0 then MB_ENOMEM else MB_OK) = (if len \<le> room P fl om then MB_OK else MB_ENOMEM)"
    using rem0 by presburger
  have cd': "chain_data ?om' = chain_data om @ take (min len (room P fl om)) data"
    using cd upd_pktlen_chain(1)[OF oks'] by (rule trans[rotated])
  show ?thesis
    by (rule exI[of _ ?om'], rule exI[of _ h'], rule exI[of _ fl'], intro conjI res[unfolded rc] own3 cd' rm' hc
        hd'[unfolded hd_eq] ll) simp
qed

end
