(* ===== verification/Dpl_Mbuf_Join.thy ===== *)
theory Dpl_Mbuf_Join
  imports Dpl_Mbuf_Append
begin

text \<open>
  Appending from another chain, extending, concatenating and duplicating chains.
\<close>

unbundle bit_operations_syntax

section \<open>Finding an offset\<close>

lemma off_ok:
  assumes "\<forall>m \<in> set om. mbuf_ok P m" and "om \<noteq> []" and "off \<le> chain_len om"
  shows "\<exists>cur k. dpl_mbuf_off om (int off) = Some (cur, k) \<and> cur \<noteq> [] \<and> k \<le> om_len (hd cur) \<and>
    (\<exists>pre. om = pre @ cur \<and> chain_len pre + k = off)"
  using assms
proof (induction om arbitrary: off)
  case Nil
  then show ?case by simp
next
  case (Cons m ms)
  have lt: "om_len m < 65536" using Cons.prems by (auto simp: mbuf_ok_def)
  show ?case
  proof (cases "int (om_len m) > int off \<or> int (om_len m) = int off \<and> ms = []")
    case True
    then have "off < 65536" using lt by auto
    then show ?thesis using True
      by (intro exI[of _ "m # ms"] exI[of _ off]) (auto intro!: exI[of _ "[]"])
  next
    case False
    then have ms: "ms \<noteq> []" using Cons.prems by auto
    have "dpl_mbuf_off (m # ms) (int off) = dpl_mbuf_off ms (int (off - om_len m))"
      using False by (auto simp: of_nat_diff not_less)
    moreover have "off - om_len m \<le> chain_len ms" using Cons.prems by simp
    moreover have "\<forall>m \<in> set ms. mbuf_ok P m" using Cons.prems by simp
    ultimately obtain cur k pre where "dpl_mbuf_off (m # ms) (int off) = Some (cur, k)" "cur \<noteq> []" "k \<le> om_len (hd cur)"
        "ms = pre @ cur" "chain_len pre + k = off - om_len m"
      using Cons.IH[of "off - om_len m"] ms by metis
    moreover have "om_len m \<le> off" using False by auto
    ultimately show ?thesis
      by (intro exI[of _ cur] exI[of _ k]) (auto intro!: exI[of _ "m # pre"])
  qed
qed

lemma off_beyond: "chain_len om < off \<Longrightarrow> dpl_mbuf_off om (int off) = None"
proof (induction om arbitrary: off)
  case (Cons m ms)
  then show ?case using Cons.IH[of "off - om_len m"] by (auto simp: of_nat_diff)
qed simp

lemma off_drop:
  assumes "\<forall>m \<in> set om. mbuf_ok P m" and "om = pre @ cur" and "chain_len pre + k = off"
  shows "drop k (chain_data cur) = drop off (chain_data om)"
proof -
  have "length (chain_data pre) = chain_len pre" using assms length_chain_data[of pre P] by simp
  then show ?thesis using assms(2,3) by auto
qed

section \<open>Appending from a chain\<close>

lemma appendfrom_loop_ok:
  assumes "\<forall>m \<in> set src. mbuf_ok Q m" and "src \<noteq> [] \<longrightarrow> off \<le> om_len (hd src)"
    and "off + len \<le> chain_len src" and "own P B h fl (dst @ os)" and "dst \<noteq> []" and "len \<le> room P fl dst"
  shows "\<exists>dst' h' fl'. appendfrom_loop src off len dst h = (MB_OK, dst', h') \<and> own P B h' fl' (dst' @ os) \<and>
    dst' \<noteq> [] \<and> chain_data dst' = chain_data dst @ take len (drop off (chain_data src)) \<and>
    (hdr_counts dst \<longrightarrow> hdr_counts dst')"
  using assms
proof (induction src arbitrary: off len dst h fl)
  case Nil
  then show ?case
    by (rule_tac exI[of _ dst], rule_tac exI[of _ h], rule_tac exI[of _ fl]) simp
next
  case (Cons s ss)
  show ?case
  proof (cases "len = 0")
    case True
    then show ?thesis using Cons.prems
      by (rule_tac exI[of _ dst], rule_tac exI[of _ h], rule_tac exI[of _ fl]) simp
  next
    case False
    let ?c = "min len (om_len s - off)"
    have sok: "mbuf_ok Q s" and off: "off \<le> om_len s" using Cons.prems by auto
    have slen: "om_len s < 65536" using sok by (auto simp: mbuf_ok_def)
    have "min (int len) (int (om_len s) - int off) mod 65536 = int ?c"
      using off slen by (auto simp: min_def of_nat_diff)
    then have c: "nat (min (int len) (int (om_len s) - int off) mod 65536) = ?c" by simp
    let ?data = "mbuf_read s off ?c"
    have rd: "?data = take ?c (drop off (mbuf_data s))"
      using off by (intro mbuf_read_data) auto
    have ld: "?c \<le> length ?data" using rd length_mbuf_data[OF sok] off by simp
    have cr: "?c \<le> room P fl dst" using Cons.prems by simp
    obtain dst1 h1 fl1 where app: "dpl_mbuf_append dst ?data ?c h = (MB_OK, dst1, h1)"
      and own1: "own P B h1 fl1 (dst1 @ os)" and ne1: "dst1 \<noteq> []"
      and cd1: "chain_data dst1 = chain_data dst @ ?data"
      and room1: "room P fl1 dst1 = room P fl dst - ?c"
      and hc1: "hdr_counts dst \<longrightarrow> hdr_counts dst1"
      using append_ok[OF Cons.prems(4,5) ld] cr rd by (auto simp: min_absorb1)
    have "\<exists>dst' h' fl'. appendfrom_loop ss 0 (len - ?c) dst1 h1 = (MB_OK, dst', h') \<and> own P B h' fl' (dst' @ os) \<and>
        dst' \<noteq> [] \<and> chain_data dst' = chain_data dst1 @ take (len - ?c) (drop 0 (chain_data ss)) \<and>
        (hdr_counts dst1 \<longrightarrow> hdr_counts dst')"
      using Cons.prems room1 off by (intro Cons.IH[OF _ _ _ own1 ne1]) auto
    then obtain dst' h' fl' where rec: "appendfrom_loop ss 0 (len - ?c) dst1 h1 = (MB_OK, dst', h')"
      and own': "own P B h' fl' (dst' @ os)" and ne': "dst' \<noteq> []"
      and cd': "chain_data dst' = chain_data dst1 @ take (len - ?c) (chain_data ss)"
      and hc': "hdr_counts dst1 \<longrightarrow> hdr_counts dst'"
      by auto
    have "appendfrom_loop (s # ss) off len dst h = (MB_OK, dst', h')"
      using False app rec c by (simp add: Let_def)
    moreover have "chain_data dst' = chain_data dst @ take len (drop off (chain_data (s # ss)))"
      using cd' cd1 rd off length_mbuf_data[OF sok] by (auto simp: min_def)
    ultimately show ?thesis using own' ne' hc1 hc' by blast
  qed
qed

lemma appendfrom_ok:
  assumes "\<forall>m \<in> set src. mbuf_ok Q m" and "src \<noteq> []" and "src_off + len \<le> chain_len src"
    and "own P B h fl (dst @ os)" and "dst \<noteq> []" and "len \<le> room P fl dst"
  shows "\<exists>dst' h' fl'. dpl_mbuf_appendfrom dst src src_off len h = (MB_OK, dst', h') \<and> own P B h' fl' (dst' @ os) \<and>
    chain_data dst' = chain_data dst @ take len (drop src_off (chain_data src)) \<and>
    (hdr_counts dst \<longrightarrow> hdr_counts dst')"
proof -
  obtain cur k pre where off: "dpl_mbuf_off src (int src_off) = Some (cur, k)" and ne: "cur \<noteq> []"
    and k: "k \<le> om_len (hd cur)" and pre: "src = pre @ cur" "chain_len pre + k = src_off"
    using off_ok[OF assms(1,2), of src_off] assms(3) by auto
  have ck: "k + len \<le> chain_len cur" using assms(3) pre by simp
  have "\<forall>m \<in> set cur. mbuf_ok Q m" using assms(1) pre by simp
  from appendfrom_loop_ok[OF this _ ck assms(4-6)] k
  obtain dst' h' fl' where "appendfrom_loop cur k len dst h = (MB_OK, dst', h')" "own P B h' fl' (dst' @ os)"
    "chain_data dst' = chain_data dst @ take len (drop k (chain_data cur))" "hdr_counts dst \<longrightarrow> hdr_counts dst'"
    by blast
  then show ?thesis
    using off off_drop[OF assms(1) pre] by (auto simp: dpl_mbuf_appendfrom_def)
qed

section \<open>Concatenation\<close>

lemma concat_ok:
  assumes "own P B h fl (first @ second @ os)" and "first \<noteq> []" and "second \<noteq> []"
  shows "own P B h fl (dpl_mbuf_concat first second @ os)"
    and "chain_data (dpl_mbuf_concat first second) = chain_data first @ chain_data second"
    and "hdr_counts first \<Longrightarrow> hdr_counts second \<Longrightarrow> hdr_counts (dpl_mbuf_concat first second)"
proof -
  let ?f = "\<lambda>l. if DPL_MBUF_IS_PKTHDR (hd second) then l + DPL_MBUF_PKTLEN (hd second)
                else l + of_nat (\<Sum>m\<leftarrow>second. om_len m)"
  let ?second = "upd_head (\<lambda>m. m\<lparr>om_pkthdr_len := 0\<rparr>) second"
  have oks: "\<forall>m \<in> set first. mbuf_ok P m" "\<forall>m \<in> set second. mbuf_ok P m" "\<forall>m \<in> set os. mbuf_ok P m"
    using own_ok[OF assms(1)] by auto
  obtain s ss where s: "second = s # ss" using assms(3) by (cases second) auto
  have sok: "\<forall>m \<in> set ?second. mbuf_ok P m"
    using oks(2) s by (auto simp: mbuf_ok_def hdr_len_def DPL_MBUF_IS_PKTHDR_def sizeof_pkthdr_def)
  have sd: "chain_data ?second = chain_data second" "chain_len ?second = chain_len second"
    using s by (simp_all add: mbuf_data_def mbuf_read_def)
  show "own P B h fl (dpl_mbuf_concat first second @ os)"
    using upd_pktlen_chain(2)[OF oks(1)] sok oks(3) s
    by (intro own_update[OF assms(1)]) (auto simp: dpl_mbuf_concat_def)
  show "chain_data (dpl_mbuf_concat first second) = chain_data first @ chain_data second"
    using upd_pktlen_chain(1)[OF oks(1)] sd by (simp add: dpl_mbuf_concat_def)
  show "hdr_counts (dpl_mbuf_concat first second)" if hc: "hdr_counts first" "hdr_counts second"
  proof -
    have "hdr_counts (upd_pktlen ?f first) \<longleftrightarrow>
        (DPL_MBUF_IS_PKTHDR (hd first) \<longrightarrow> ?f (DPL_MBUF_PKTLEN (hd first)) = of_nat (chain_len first))"
      by (rule hdr_counts_upd[OF oks(1) assms(2)])
    obtain m ms where f: "first = m # ms" using assms(2) by (cases first) auto
    have pl: "?f (DPL_MBUF_PKTLEN m) = of_nat (chain_len first + chain_len second)" if "DPL_MBUF_IS_PKTHDR m"
      using that hc f s by (simp add: hdr_counts_def chain_len_def)
    show ?thesis
      using pl f s oks(1) sd(2) set_pktlen_data(2)[of P m ?f]
      by (auto simp: dpl_mbuf_concat_def hdr_counts_def upd_pktlen_Cons)
  qed
qed

section \<open>Extending\<close>

lemma extend_none:
  "omp_databuf_len P < len \<Longrightarrow> om_omp (hd om) = Some P \<Longrightarrow> dpl_mbuf_extend om len h = (None, om, h)"
  by (simp add: dpl_mbuf_extend_def)

lemma grow_len:
  assumes "mbuf_ok P m" and "len \<le> DPL_MBUF_TRAILINGSPACE m"
  shows "mbuf_ok P (m\<lparr>om_len := (om_len m + len) mod 65536\<rparr>)" and "(om_len m + len) mod 65536 = om_len m + len"
    and "mbuf_data (m\<lparr>om_len := (om_len m + len) mod 65536\<rparr>) =
      mbuf_data m @ read_at (om_databuf m) (om_data m + om_len m) len"
proof -
  have b: "om_data m + om_len m + len \<le> omp_databuf_len P" "omp_databuf_len P < 65536"
    "length (om_databuf m) = omp_databuf_len P"
    using assms by (auto simp: trailingspace_ok mbuf_ok_def)
  show e: "(om_len m + len) mod 65536 = om_len m + len" using b by simp
  show "mbuf_ok P (m\<lparr>om_len := (om_len m + len) mod 65536\<rparr>)"
    using assms b by (simp add: mbuf_ok_def)
  show "mbuf_data (m\<lparr>om_len := (om_len m + len) mod 65536\<rparr>) = mbuf_data m @ read_at (om_databuf m) (om_data m + om_len m) len"
    unfolding e by (simp add: mbuf_data_def mbuf_read_def read_at_def take_add add.commute[of len] add.commute[of "om_data m"])
qed

lemma last_chain:
  assumes "om \<noteq> []"
  shows "chain_data om = chain_data (butlast om) @ mbuf_data (last om)"
    and "chain_len om = chain_len (butlast om) + om_len (last om)"
proof -
  have "om = butlast om @ [last om]" using assms by simp
  then show "chain_data om = chain_data (butlast om) @ mbuf_data (last om)"
    and "chain_len om = chain_len (butlast om) + om_len (last om)"
    by (metis chain_simps append_Nil2 add_0_right)+
qed

text \<open>Replacing the last buffer by one with the same address and header keeps the head's header.\<close>

lemma hd_replace_last:
  assumes "om \<noteq> []" and "DPL_MBUF_IS_PKTHDR m' = DPL_MBUF_IS_PKTHDR (last om)"
    and "DPL_MBUF_IS_PKTHDR (last om) \<Longrightarrow> DPL_MBUF_PKTLEN m' = DPL_MBUF_PKTLEN (last om)"
  shows "DPL_MBUF_IS_PKTHDR (hd (butlast om @ m' # ms)) = DPL_MBUF_IS_PKTHDR (hd om)"
    and "DPL_MBUF_IS_PKTHDR (hd om) \<Longrightarrow> DPL_MBUF_PKTLEN (hd (butlast om @ m' # ms)) = DPL_MBUF_PKTLEN (hd om)"
  using assms by (cases om; auto)+

lemma hd_upd_pktlen [simp]: "DPL_MBUF_IS_PKTHDR (hd (upd_pktlen f om)) = DPL_MBUF_IS_PKTHDR (hd om)"
  by (cases om) (auto simp: upd_pktlen_def)

text \<open>
  A successful \<open>dpl_mbuf_extend\<close> answers with where the new bytes are: the end of the
  last buffer. They hold what the memory held.
\<close>

lemma extend_ok:
  assumes own: "own P B h fl (om @ os)" and ne: "om \<noteq> []" and len: "len \<le> omp_databuf_len P"
    and room: "len \<le> DPL_MBUF_TRAILINGSPACE (last om) \<or> fl \<noteq> []"
  shows "\<exists>off om' h' fl' xs. dpl_mbuf_extend om len h = (Some off, om', h') \<and> own P B h' fl' (om' @ os) \<and>
    length xs = len \<and> chain_data om' = chain_data om @ xs \<and> off + len = om_data (last om') + om_len (last om') \<and>
    (hdr_counts om \<longrightarrow> hdr_counts om') \<and> om' \<noteq> [] \<and> len \<le> om_len (last om') \<and>
    DPL_MBUF_IS_PKTHDR (hd om') = DPL_MBUF_IS_PKTHDR (hd om)"
proof -
  let ?grow = "\<lambda>m. m\<lparr>om_len := (om_len m + len) mod 65536\<rparr>"
  let ?up = "upd_pktlen (\<lambda>l. l + of_nat len)"
  have oks: "\<forall>m \<in> set om. mbuf_ok P m" "\<forall>m \<in> set os. mbuf_ok P m" using own_ok[OF own] by auto
  have lok: "mbuf_ok P (last om)" using oks ne by simp
  have omp: "the (om_omp (hd om)) = P" using oks ne by (simp add: mbuf_ok_def)
  have fin: "\<exists>off om' h' fl' xs. dpl_mbuf_extend om len h = (Some off, om', h') \<and> own P B h' fl' (om' @ os) \<and>
      length xs = len \<and> chain_data om' = chain_data om @ xs \<and> off + len = om_data (last om') + om_len (last om') \<and>
      (hdr_counts om \<longrightarrow> hdr_counts om') \<and> om' \<noteq> [] \<and> len \<le> om_len (last om') \<and>
      DPL_MBUF_IS_PKTHDR (hd om') = DPL_MBUF_IS_PKTHDR (hd om)"
    if res: "dpl_mbuf_extend om len h = (Some (om_data m + om_len m), ?up (pre @ [?grow m]), h1)"
      and own1: "own P B h1 fl1 ((pre @ [m]) @ os)" and tr: "len \<le> DPL_MBUF_TRAILINGSPACE m"
      and cd: "chain_data (pre @ [m]) = chain_data om" and hp: "DPL_MBUF_IS_PKTHDR (hd (pre @ [m])) = DPL_MBUF_IS_PKTHDR (hd om)"
      and pl: "DPL_MBUF_IS_PKTHDR (hd om) \<Longrightarrow> DPL_MBUF_PKTLEN (hd (pre @ [m])) = DPL_MBUF_PKTLEN (hd om)"
    for m pre h1 fl1
  proof -
    let ?om = "pre @ [?grow m]"
    have mok: "mbuf_ok P m" and poks: "\<forall>m \<in> set (pre @ [m]). mbuf_ok P m" using own_ok[OF own1] by auto
    note g = grow_len[OF mok tr]
    let ?xs = "read_at (om_databuf m) (om_data m + om_len m) len"
    have lx: "length ?xs = len"
      using mok tr by (auto simp: mbuf_ok_def trailingspace_ok[OF mok])
    have oks': "\<forall>m \<in> set ?om. mbuf_ok P m" using poks g(1) by auto
    have "own P B h1 fl1 (?up ?om @ os)"
      using upd_pktlen_chain(2)[OF oks'] oks(2) by (intro own_update[OF own1]) auto
    moreover have "chain_data (?up ?om) = chain_data om @ ?xs"
      using upd_pktlen_chain(1)[OF oks'] g(3) cd by simp
    moreover have "om_data (last (?up ?om)) + om_len (last (?up ?om)) = om_data m + om_len m + len"
      using g(2) by (cases pre) (auto simp: upd_pktlen_Cons)
    moreover have "hdr_counts (?up ?om)" if "hdr_counts om"
    proof -
      have "chain_len ?om = chain_len om + len"
        using arg_cong[OF cd, of length] length_chain_data[OF poks] length_chain_data[OF oks(1)] g(2) by simp
      moreover have "DPL_MBUF_IS_PKTHDR (hd ?om) = DPL_MBUF_IS_PKTHDR (hd (pre @ [m]))"
        "DPL_MBUF_PKTLEN (hd ?om) = DPL_MBUF_PKTLEN (hd (pre @ [m]))"
        by (cases pre; simp)+
      ultimately show ?thesis
        using that hp pl ne hdr_counts_upd[OF oks', of "\<lambda>l. l + of_nat len"] by (auto simp: hdr_counts_def)
    qed
    moreover have "?up ?om \<noteq> []" by simp
    moreover have "len \<le> om_len (last (?up ?om))"
      using g(2) by (cases pre) (auto simp: upd_pktlen_Cons)
    moreover have "DPL_MBUF_IS_PKTHDR (hd (?up ?om)) = DPL_MBUF_IS_PKTHDR (hd om)"
      using hp by (cases pre) auto
    ultimately show ?thesis
      using res lx
      by (intro exI[of _ "om_data m + om_len m"] exI[of _ "?up ?om"] exI[of _ h1] exI[of _ fl1] exI[of _ ?xs]) simp
  qed
  show ?thesis
  proof (cases "DPL_MBUF_TRAILINGSPACE (last om) < len")
    case False
    have "om = butlast om @ [last om]" using ne by simp
    then show ?thesis
      using False len omp own by (intro fin[of "last om" "butlast om" h fl]) (auto simp: dpl_mbuf_extend_def Let_def)
  next
    case True
    then obtain b fl1 where fl: "fl = b # fl1" using room by (cases fl) auto
    obtain new h1 where get: "dpl_mbuf_get P 0 h = (Some new, h1)" and own1: "own P B h1 fl1 (new # om @ os)"
      and new: "mbuf_ok P new" "om_data new = 0" "om_len new = 0"
      by (rule own_get[OF own[unfolded fl], of 0]) auto
    have "own P B h1 fl1 ((om @ [new]) @ os)" using own1 own_cong[of "new # om @ os" "(om @ [new]) @ os"] by simp
    moreover have "len \<le> DPL_MBUF_TRAILINGSPACE new" using trailingspace_ok[OF new(1)] new len by simp
    ultimately show ?thesis
      using True len omp get new ne
      by (intro fin[of new om h1 fl1]) (auto simp: dpl_mbuf_extend_def Let_def mbuf_data_nil)
  qed
qed

section \<open>Duplication\<close>

lemma copypkthdr_ok:
  assumes "mbuf_ok P new" and "om_len new = 0" and "mbuf_ok P old" and "DPL_MBUF_IS_PKTHDR old"
  shows "mbuf_ok P (copypkthdr new old)" and "om_len (copypkthdr new old) = 0"
    and "om_addr (copypkthdr new old) = om_addr new" and "DPL_MBUF_IS_PKTHDR (copypkthdr new old)"
    and "om_data (copypkthdr new old) = hdr_len old" and "hdr_len (copypkthdr new old) = hdr_len old"
    and "DPL_MBUF_PKTLEN (copypkthdr new old) = DPL_MBUF_PKTLEN old"
proof -
  note r = pkthdr_room[OF assms(3,4)]
  have pk: "16 \<le> om_pkthdr_len old" "om_pkthdr_len old \<le> length (om_databuf old)" "hdr_len old = om_pkthdr_len old"
    "length (om_databuf old) = length (om_databuf new)" "length (om_databuf new) = omp_databuf_len P"
    "om_pkthdr_len old < 256"
    using assms by (auto simp: mbuf_ok_def hdr_len_def DPL_MBUF_IS_PKTHDR_def sizeof_pkthdr_def)
  have same: "DPL_MBUF_IS_PKTHDR (copypkthdr new old) = DPL_MBUF_IS_PKTHDR old" "hdr_len (copypkthdr new old) = hdr_len old"
    by (simp_all add: copypkthdr_def DPL_MBUF_IS_PKTHDR_def hdr_len_def)
  then show "DPL_MBUF_IS_PKTHDR (copypkthdr new old)" and "hdr_len (copypkthdr new old) = hdr_len old"
    using assms(4) by simp_all
  show "om_len (copypkthdr new old) = 0" and "om_addr (copypkthdr new old) = om_addr new"
    and "om_data (copypkthdr new old) = hdr_len old"
    using assms(2) pk by (simp_all add: copypkthdr_def)
  show "mbuf_ok P (copypkthdr new old)"
    using assms(1,2) same pk by (simp add: mbuf_ok_def copypkthdr_def)
  have "get_le16 (write_at (om_databuf new) 0 (take (om_pkthdr_len old) (om_databuf old))) 0 =
      get_le16 (take (om_pkthdr_len old) (om_databuf old)) 0"
    using pk by (intro le16.get_write_at_same) auto
  then show "DPL_MBUF_PKTLEN (copypkthdr new old) = DPL_MBUF_PKTLEN old"
    using pk by (simp add: DPL_MBUF_PKTLEN_def copypkthdr_def le16.get_take)
qed

text \<open>One buffer of the copy: the room in front and the data are those of the original.\<close>

lemma fill_ok:
  assumes "mbuf_ok P c" and "om_len c = 0" and "om_data c + length xs \<le> omp_databuf_len P"
  shows "mbuf_ok P (mbuf_write (c\<lparr>om_flags := f, om_len := length xs\<rparr>) 0 xs)"
    and "mbuf_data (mbuf_write (c\<lparr>om_flags := f, om_len := length xs\<rparr>) 0 xs) = xs"
proof -
  have e: "mbuf_write (c\<lparr>om_flags := f, om_len := length xs\<rparr>) 0 xs =
      (mbuf_write c (om_len c) xs)\<lparr>om_len := om_len c + length xs, om_flags := f\<rparr>"
    using assms(2) by (simp add: mbuf_write_def)
  have fl: "mbuf_data (m\<lparr>om_flags := f\<rparr>) = mbuf_data m" "mbuf_ok P (m\<lparr>om_flags := f\<rparr>) = mbuf_ok P m" for m
    by (simp_all add: mbuf_data_def mbuf_read_def mbuf_ok_def hdr_len_def DPL_MBUF_IS_PKTHDR_def)
  show "mbuf_ok P (mbuf_write (c\<lparr>om_flags := f, om_len := length xs\<rparr>) 0 xs)"
    unfolding e fl using assms by (simp add: mbuf_ok_def)
  have "om_data c + om_len c + length xs \<le> length (om_databuf c)"
    using assms by (simp add: mbuf_ok_def)
  then show "mbuf_data (mbuf_write (c\<lparr>om_flags := f, om_len := length xs\<rparr>) 0 xs) = xs"
    unfolding e fl using mbuf_data_grow[of c xs] assms(2) by (simp add: mbuf_data_nil)
qed

lemma dup_step:
  assumes own: "own P B h (b # fl) (copied @ os)" and mok: "mbuf_ok P m"
  obtains new h1 c where "dpl_mbuf_get P (DPL_MBUF_LEADINGSPACE m) h = (Some new, h1)"
    and "c = mbuf_write ((if copied = [] \<and> DPL_MBUF_IS_PKTHDR m then copypkthdr new m else new)
               \<lparr>om_flags := om_flags m, om_len := om_len m\<rparr>) 0 (mbuf_read m 0 (om_len m))"
    and "own P B h1 fl ((copied @ [c]) @ os)" and "mbuf_data c = mbuf_data m" and "om_len c = om_len m"
    and "copied = [] \<longrightarrow> DPL_MBUF_IS_PKTHDR c = DPL_MBUF_IS_PKTHDR m"
    and "copied = [] \<and> DPL_MBUF_IS_PKTHDR m \<longrightarrow> DPL_MBUF_PKTLEN c = DPL_MBUF_PKTLEN m"
proof -
  have lead: "DPL_MBUF_LEADINGSPACE m \<le> omp_databuf_len P" and leadm: "DPL_MBUF_LEADINGSPACE m \<le> om_data m"
    using mok leadingspace_ok[OF mok] by (auto simp: mbuf_ok_def)
  obtain new h1 where get: "dpl_mbuf_get P (DPL_MBUF_LEADINGSPACE m) h = (Some new, h1)"
    and own1: "own P B h1 fl (new # copied @ os)" and new: "mbuf_ok P new" "om_data new = DPL_MBUF_LEADINGSPACE m"
    "om_len new = 0" "om_pkthdr_len new = 0"
    by (rule own_get[OF own lead]) auto
  let ?b = "copied = [] \<and> DPL_MBUF_IS_PKTHDR m"
  let ?cp = "if ?b then copypkthdr new m else new"
  let ?c = "mbuf_write (?cp\<lparr>om_flags := om_flags m, om_len := om_len m\<rparr>) 0 (mbuf_read m 0 (om_len m))"
  have lm: "length (mbuf_read m 0 (om_len m)) = om_len m" "mbuf_read m 0 (om_len m) = mbuf_data m"
    using length_mbuf_data[OF mok] by (simp_all add: mbuf_data_def)
  have c0: "mbuf_ok P ?cp" "om_len ?cp = 0" "om_addr ?cp = om_addr new" "om_data ?cp \<le> om_data m"
  proof -
    have hl: "hdr_len m \<le> om_data m" using mok by (simp add: mbuf_ok_def)
    have "mbuf_ok P ?cp \<and> om_len ?cp = 0 \<and> om_addr ?cp = om_addr new \<and> om_data ?cp \<le> om_data m"
    proof (cases ?b)
      case True
      then have "?cp = copypkthdr new m" by simp
      then show ?thesis using copypkthdr_ok(1-3,5)[OF new(1,3) mok conjunct2[OF True]] hl by simp
    next
      case False
      then have "?cp = new" by (rule if_not_P)
      then show ?thesis using new leadm by simp
    qed
    then show "mbuf_ok P ?cp" "om_len ?cp = 0" "om_addr ?cp = om_addr new" "om_data ?cp \<le> om_data m"
      by blast+
  qed
  have fit: "om_data ?cp + length (mbuf_read m 0 (om_len m)) \<le> omp_databuf_len P"
    using c0(4) mok lm by (auto simp: mbuf_ok_def)
  note f = fill_ok[OF c0(1,2) fit, of "om_flags m", unfolded lm(1)]
  have "own P B h1 fl (?c # copied @ os)"
    using f(1) c0(3) own_ok[OF own1] by (intro own_update[OF own1]) auto
  then have own2: "own P B h1 fl ((copied @ [?c]) @ os)"
    using own_cong[of "?c # copied @ os" "(copied @ [?c]) @ os"] by simp
  have hp0: "DPL_MBUF_IS_PKTHDR ?cp = DPL_MBUF_IS_PKTHDR m" if "copied = []"
    using that new copypkthdr_ok(4)[OF new(1,3) mok] by (auto simp: DPL_MBUF_IS_PKTHDR_def sizeof_pkthdr_def)
  then have hp: "DPL_MBUF_IS_PKTHDR ?c = DPL_MBUF_IS_PKTHDR m" if "copied = []"
    using that by (simp add: DPL_MBUF_IS_PKTHDR_def)
  have pl: "DPL_MBUF_PKTLEN ?c = DPL_MBUF_PKTLEN m" if cp: "copied = []" and ph: "DPL_MBUF_IS_PKTHDR m"
  proof -
    have c0e: "?cp = copypkthdr new m" using cp ph by simp
    note k = copypkthdr_ok[OF new(1,3) mok ph]
    have "16 \<le> om_data (copypkthdr new m) \<and> 16 \<le> length (om_databuf (copypkthdr new m))"
      using pkthdr_room[OF k(1,4)] .
    then have "DPL_MBUF_PKTLEN ?c = DPL_MBUF_PKTLEN (copypkthdr new m)"
      unfolding c0e by (simp add: DPL_MBUF_PKTLEN_def mbuf_write_def le16.get_write_at_other)
    then show ?thesis using k(7) by simp
  qed
  have d: "mbuf_data ?c = mbuf_data m"
    using f(2) lm(2) by simp
  show thesis
    by (rule that[OF get refl own2 d]) (use hp pl in \<open>simp_all add: lm(2)\<close>)
qed

lemma dup_loop_ok:
  assumes "own P B h fl (copied @ os)" and "\<forall>m \<in> set om. mbuf_ok P m" and "length om \<le> length fl"
  shows "\<exists>new h' fl'. dup_loop cb P copied om h = (copied @ new, h') \<and> own P B h' fl' ((copied @ new) @ os) \<and>
    map mbuf_data new = map mbuf_data om \<and> map om_len new = map om_len om \<and>
    (copied = [] \<and> om \<noteq> [] \<longrightarrow> DPL_MBUF_IS_PKTHDR (hd new) = DPL_MBUF_IS_PKTHDR (hd om) \<and>
      (DPL_MBUF_IS_PKTHDR (hd om) \<longrightarrow> DPL_MBUF_PKTLEN (hd new) = DPL_MBUF_PKTLEN (hd om)))"
  using assms
proof (induction om arbitrary: copied h fl)
  case Nil
  then show ?case
    by (rule_tac exI[of _ "[]"], rule_tac exI[of _ h], rule_tac exI[of _ fl]) simp
next
  case (Cons m ms)
  obtain b fl1 where fl: "fl = b # fl1" using Cons.prems(3) by (cases fl) auto
  have mok: "mbuf_ok P m" using Cons.prems(2) by simp
  obtain new h1 c where st: "dpl_mbuf_get P (DPL_MBUF_LEADINGSPACE m) h = (Some new, h1)"
    "c = mbuf_write ((if copied = [] \<and> DPL_MBUF_IS_PKTHDR m then copypkthdr new m else new)
               \<lparr>om_flags := om_flags m, om_len := om_len m\<rparr>) 0 (mbuf_read m 0 (om_len m))"
    "own P B h1 fl1 ((copied @ [c]) @ os)" "mbuf_data c = mbuf_data m" "om_len c = om_len m"
    "copied = [] \<longrightarrow> DPL_MBUF_IS_PKTHDR c = DPL_MBUF_IS_PKTHDR m"
    "copied = [] \<and> DPL_MBUF_IS_PKTHDR m \<longrightarrow> DPL_MBUF_PKTLEN c = DPL_MBUF_PKTLEN m"
    by (rule dup_step[OF Cons.prems(1)[unfolded fl] mok])
  have "dup_loop cb P copied (m # ms) h = dup_loop cb P (copied @ [c]) ms h1"
    unfolding dup_loop.simps st(1) st(2) by (simp add: Let_def)
  moreover obtain cs h' fl' where "dup_loop cb P (copied @ [c]) ms h1 = ((copied @ [c]) @ cs, h')"
    "own P B h' fl' (((copied @ [c]) @ cs) @ os)" "map mbuf_data cs = map mbuf_data ms" "map om_len cs = map om_len ms"
    using Cons.IH[OF st(3)] Cons.prems(2,3) fl by auto
  ultimately show ?case
    using st(4-7) by (rule_tac exI[of _ "c # cs"], rule_tac exI[of _ h'], rule_tac exI[of _ fl']) simp
qed

lemma dup_loop_fail:
  assumes "own P B h fl (copied @ os)" and "\<forall>m \<in> set om. mbuf_ok P m" and "length fl < length om"
  shows "\<exists>h' fl'. dup_loop cb P copied om h = ([], h') \<and> own P B h' fl' os"
  using assms
proof (induction om arbitrary: copied h fl)
  case Nil
  then show ?case by simp
next
  case (Cons m ms)
  show ?case
  proof (cases fl)
    case Nil
    then have "dpl_mbuf_get P (DPL_MBUF_LEADINGSPACE m) h = (None, h)"
      using own_get_none Cons.prems(1) by simp
    then show ?thesis
      using own_free_chain[OF Cons.prems(1), of cb] Cons.prems(1) by (cases "copied = []") auto
  next
    case (Cons b fl1)
    have mok: "mbuf_ok P m" using Cons.prems(2) by simp
    obtain new h1 c where st: "dpl_mbuf_get P (DPL_MBUF_LEADINGSPACE m) h = (Some new, h1)"
      "c = mbuf_write ((if copied = [] \<and> DPL_MBUF_IS_PKTHDR m then copypkthdr new m else new)
                 \<lparr>om_flags := om_flags m, om_len := om_len m\<rparr>) 0 (mbuf_read m 0 (om_len m))"
      "own P B h1 fl1 ((copied @ [c]) @ os)" "mbuf_data c = mbuf_data m" "om_len c = om_len m"
      "copied = [] \<longrightarrow> DPL_MBUF_IS_PKTHDR c = DPL_MBUF_IS_PKTHDR m"
      "copied = [] \<and> DPL_MBUF_IS_PKTHDR m \<longrightarrow> DPL_MBUF_PKTLEN c = DPL_MBUF_PKTLEN m"
      by (rule dup_step[OF Cons.prems(1)[unfolded Cons] mok])
    have "dup_loop cb P copied (m # ms) h = dup_loop cb P (copied @ [c]) ms h1"
      unfolding dup_loop.simps st(1) st(2) by (simp add: Let_def)
    then show ?thesis using Cons.IH[OF st(3)] Cons.prems(2,3) Cons by simp
  qed
qed

lemma dup_ok:
  assumes "own P B h fl (om @ os)" and "om \<noteq> []" and "length om \<le> length fl"
  shows "\<exists>copy h' fl'. dpl_mbuf_dup cb om h = (copy, h') \<and> own P B h' fl' (copy @ om @ os) \<and>
    chain_data copy = chain_data om \<and> map om_len copy = map om_len om \<and> (hdr_counts om \<longrightarrow> hdr_counts copy)"
proof -
  have oks: "\<forall>m \<in> set om. mbuf_ok P m" using own_ok[OF assms(1)] by simp
  then have omp: "the (om_omp (hd om)) = P" using assms(2) by (simp add: mbuf_ok_def)
  obtain new h' fl' where n: "dup_loop cb P [] om h = (new, h')" "own P B h' fl' (new @ om @ os)"
    "map mbuf_data new = map mbuf_data om" "map om_len new = map om_len om"
    "DPL_MBUF_IS_PKTHDR (hd new) = DPL_MBUF_IS_PKTHDR (hd om)"
    "DPL_MBUF_IS_PKTHDR (hd om) \<longrightarrow> DPL_MBUF_PKTLEN (hd new) = DPL_MBUF_PKTLEN (hd om)"
    using dup_loop_ok[of P B h fl "[]" "om @ os" om cb] assms oks by auto
  have "hdr_counts om \<longrightarrow> hdr_counts new"
    using n(4-6) assms(2) by (auto simp: hdr_counts_def chain_len_def)
  then show ?thesis
    using n omp by (auto simp: dpl_mbuf_dup_def chain_data_def)
qed

lemma dup_fail:
  assumes "own P B h fl (om @ os)" and "om \<noteq> []" and "length fl < length om"
  shows "\<exists>h' fl'. dpl_mbuf_dup cb om h = ([], h') \<and> own P B h' fl' (om @ os)"
proof -
  have oks: "\<forall>m \<in> set om. mbuf_ok P m" using own_ok[OF assms(1)] by simp
  then have omp: "the (om_omp (hd om)) = P" using assms(2) by (simp add: mbuf_ok_def)
  then show ?thesis
    using dup_loop_fail[of P B h fl "[]" "om @ os" om cb] assms oks by (simp add: dpl_mbuf_dup_def)
qed

end
