(* ===== verification/Dpl_Mbuf_Read.thy ===== *)
theory Dpl_Mbuf_Read
  imports Dpl_Mbuf_Join
begin

text \<open>
  Reading a chain: \<open>dpl_mbuf_copydata\<close> and the two comparisons see exactly the bytes of
  \<open>chain_data\<close>, wherever the buffer boundaries fall.
\<close>

section \<open>Copying out\<close>

lemma copydata_skip_ok:
  assumes "off \<le> chain_len om"
  shows "\<exists>cur k. copydata_skip om (int off) = Some (cur, int k) \<and> (cur = [] \<longrightarrow> k = 0) \<and>
    (cur \<noteq> [] \<longrightarrow> k \<le> om_len (hd cur)) \<and> (\<exists>pre. om = pre @ cur \<and> chain_len pre + k = off)"
  using assms
proof (induction om arbitrary: off)
  case Nil
  then show ?case by simp
next
  case (Cons m ms)
  show ?case
  proof (cases "off = 0 \<or> off < om_len m")
    case True
    then show ?thesis
      by (intro exI[of _ "m # ms"] exI[of _ off]) (auto intro!: exI[of _ "[]"])
  next
    case False
    then have "copydata_skip (m # ms) (int off) = copydata_skip ms (int (off - om_len m))"
      by (auto simp: of_nat_diff)
    moreover have "off - om_len m \<le> chain_len ms" using Cons.prems by simp
    ultimately obtain cur k pre where "copydata_skip (m # ms) (int off) = Some (cur, int k)" "cur = [] \<longrightarrow> k = 0"
        "cur \<noteq> [] \<longrightarrow> k \<le> om_len (hd cur)" "ms = pre @ cur" "chain_len pre + k = off - om_len m"
      using Cons.IH[of "off - om_len m"] by metis
    moreover have "om_len m \<le> off" using False by auto
    ultimately show ?thesis
      by (intro exI[of _ cur] exI[of _ k]) (auto intro!: exI[of _ "m # pre"])
  qed
qed

lemma copydata_skip_beyond: "chain_len om < off \<Longrightarrow> copydata_skip om (int off) = None"
proof (induction om arbitrary: off)
  case (Cons m ms)
  then show ?case using Cons.IH[of "off - om_len m"] by (auto simp: of_nat_diff)
qed simp

lemma copydata_loop_ok:
  assumes "\<forall>m \<in> set cur. mbuf_ok P m" and "cur \<noteq> [] \<longrightarrow> k \<le> om_len (hd cur)" and "cur = [] \<longrightarrow> k = 0"
  shows "copydata_loop cur (int k) (int len) =
    (int (len - (chain_len cur - k)), take len (drop k (chain_data cur)))"
  using assms
proof (induction cur arbitrary: k len)
  case Nil
  then show ?case by simp
next
  case (Cons m ms)
  have mok: "mbuf_ok P m" and k: "k \<le> om_len m" using Cons.prems by auto
  note lm = length_mbuf_data[OF mok]
  show ?case
  proof (cases "len = 0")
    case True
    then show ?thesis by simp
  next
    case False
    let ?c = "min (om_len m - k) len"
    have c: "min (int (om_len m) - int k) (int len) = int ?c" using k by (auto simp: min_def of_nat_diff)
    have rest: "int len - int ?c = int (len - ?c)" by (simp add: of_nat_diff)
    have IH: "copydata_loop ms 0 (int (len - ?c)) = (int (len - ?c - chain_len ms), take (len - ?c) (chain_data ms))"
      using Cons.IH[of 0 "len - ?c"] Cons.prems by simp
    have rd: "read_at (om_databuf m) (nat (int (om_data m) + int k)) (nat (int ?c)) = take ?c (drop k (mbuf_data m))"
      using mbuf_read_data[of k ?c m] k by (simp add: mbuf_read_def nat_int_add)
    have "copydata_loop (m # ms) (int k) (int len) =
        (int (len - ?c - chain_len ms), take ?c (drop k (mbuf_data m)) @ take (len - ?c) (chain_data ms))"
      unfolding copydata_loop.simps c Let_def rest IH rd using False by (simp del: of_nat_min of_nat_diff)
    moreover have "take ?c (drop k (mbuf_data m)) @ take (len - ?c) (chain_data ms) = take len (drop k (chain_data (m # ms)))"
      using k lm by (cases "om_len m - k \<le> len") simp_all
    moreover have "len - ?c - chain_len ms = len - (chain_len (m # ms) - k)" using k by auto
    ultimately show ?thesis by simp
  qed
qed

lemma copydata_ok:
  assumes "\<forall>m \<in> set om. mbuf_ok P m"
  shows "dpl_mbuf_copydata om (int off) (int len) =
    (if len = 0 \<or> off + len \<le> chain_len om then 0 else -1, take len (drop off (chain_data om)))"
proof (cases "len = 0")
  case True
  then show ?thesis by (simp add: dpl_mbuf_copydata_def)
next
  case False
  show ?thesis
  proof (cases "off \<le> chain_len om")
    case True
    then obtain cur k pre where sk: "copydata_skip om (int off) = Some (cur, int k)" "cur = [] \<longrightarrow> k = 0"
        "cur \<noteq> [] \<longrightarrow> k \<le> om_len (hd cur)" and pre: "om = pre @ cur" "chain_len pre + k = off"
      using copydata_skip_ok by blast
    have "\<forall>m \<in> set cur. mbuf_ok P m" using assms pre by simp
    note cl = copydata_loop_ok[OF this sk(3) sk(2), of len]
    have "len - (chain_len cur - k) = 0 \<longleftrightarrow> off + len \<le> chain_len om" using True pre False by auto
    then show ?thesis
      using False sk(1) cl off_drop[OF assms pre] by (auto simp: dpl_mbuf_copydata_def)
  next
    case beyond: False
    then have "drop off (chain_data om) = []" using length_chain_data[OF assms] by simp
    then show ?thesis
      using False beyond copydata_skip_beyond[of om off] by (simp add: dpl_mbuf_copydata_def)
  qed
qed

section \<open>Comparing with bytes\<close>

lemma memcmp_eq_0: "length xs = length ys \<Longrightarrow> memcmp xs ys = 0 \<longleftrightarrow> xs = ys"
  by (induction xs ys rule: list_induct2) (auto simp: word_uint_eq_iff)

lemma take_split_eq:
  assumes "length xs = a" and "length ys = a"
  shows "take (a + b) (xs @ us) = take (a + b) (ys @ vs) \<longleftrightarrow> xs = ys \<and> take b us = take b vs"
  using assms by simp

lemma cmpf_loop_ok:
  assumes "\<forall>m \<in> set cur. mbuf_ok P m" and "cur \<noteq> [] \<longrightarrow> k \<le> om_len (hd cur)"
    and "0 < rem" and "d + rem < 65536" and "d + rem \<le> length data"
  shows "cmpf_loop cur k data d (int (d + rem)) = 0 \<longleftrightarrow>
    cur \<noteq> [] \<and> k + rem \<le> chain_len cur \<and> take rem (drop k (chain_data cur)) = take rem (drop d data)"
  using assms
proof (induction cur arbitrary: k d rem)
  case Nil
  then show ?case by (simp add: C_INT_MAX_def)
next
  case (Cons m ms)
  have mok: "mbuf_ok P m" and k: "k \<le> om_len m" and lt: "om_len m < 65536"
    using Cons.prems by (auto simp: mbuf_ok_def)
  note lm = length_mbuf_data[OF mok]
  let ?c = "min (om_len m - k) rem"
  have "min (int (om_len m) - int k) (int (d + rem) - int d) = int ?c" using k by (auto simp: min_def of_nat_diff)
  moreover have "int ?c mod 65536 = int ?c" using lt by (intro mod_pos_pos_trivial) auto
  ultimately have c: "nat (min (int (om_len m) - int k) (int (d + rem) - int d) mod 65536) = ?c" by simp
  let ?xs = "mbuf_read m k ?c" and ?ys = "read_at data d ?c"
  have xs: "?xs = take ?c (drop k (mbuf_data m))" using k by (intro mbuf_read_data) auto
  have ys: "?ys = take ?c (drop d data)" by (simp add: read_at_def)
  have lens: "length ?xs = ?c" "length ?ys = ?c" using xs ys lm k Cons.prems by auto
  define r where "r = (if ?c > 0 then memcmp ?xs ?ys else 0)"
  have rc: "r = 0 \<longleftrightarrow> ?xs = ?ys"
    using memcmp_eq_0[of ?xs ?ys] lens by (auto simp: r_def)
  have md: "(d + ?c) mod 65536 = d + ?c" using Cons.prems(4) by simp
  have step: "cmpf_loop (m # ms) k data d (int (d + rem)) =
      (if r \<noteq> 0 then r else if d + ?c = d + rem then 0 else cmpf_loop ms 0 data (d + ?c) (int (d + rem)))"
    by (simp only: cmpf_loop.simps c Let_def md r_def of_nat_eq_iff)
  show ?case
  proof (cases "?c = rem")
    case True
    then have "take rem (drop k (chain_data (m # ms))) = ?xs" "take rem (drop d data) = ?ys"
      and "k + rem \<le> chain_len (m # ms)"
      using xs ys k lm Cons.prems(3) by auto
    moreover have "cmpf_loop (m # ms) k data d (int (d + rem)) = 0 \<longleftrightarrow> ?xs = ?ys"
      using step rc True by (simp only: if_True split: if_split) blast
    ultimately show ?thesis by simp
  next
    case False
    then have cc: "?c = om_len m - k" and lts: "om_len m - k < rem" by auto
    have "cmpf_loop ms 0 data (d + ?c) (int ((d + ?c) + (rem - ?c))) = 0 \<longleftrightarrow>
        ms \<noteq> [] \<and> 0 + (rem - ?c) \<le> chain_len ms \<and> take (rem - ?c) (drop 0 (chain_data ms)) = take (rem - ?c) (drop (d + ?c) data)"
      using Cons.prems lts by (intro Cons.IH) auto
    moreover have "d + ?c + (rem - ?c) = d + rem" by simp
    ultimately have IH: "cmpf_loop ms 0 data (d + ?c) (int (d + rem)) = 0 \<longleftrightarrow>
        rem - ?c \<le> chain_len ms \<and> take (rem - ?c) (chain_data ms) = take (rem - ?c) (drop (d + ?c) data)"
      using lts by auto
    have e1: "take rem (drop k (chain_data (m # ms))) = take (?c + (rem - ?c)) (?xs @ chain_data ms)"
      using xs cc lm k by simp
    have e2: "take rem (drop d data) = take (?c + (rem - ?c)) (?ys @ drop (d + ?c) data)"
      using ys by (metis add.commute append_take_drop_id drop_drop le_add_diff_inverse min.cobounded2)
    have "take rem (drop k (chain_data (m # ms))) = take rem (drop d data) \<longleftrightarrow>
        ?xs = ?ys \<and> take (rem - ?c) (chain_data ms) = take (rem - ?c) (drop (d + ?c) data)"
      unfolding e1 e2 by (rule take_split_eq[OF lens])
    moreover have "k + rem \<le> chain_len (m # ms) \<longleftrightarrow> rem - ?c \<le> chain_len ms" using cc k by auto
    moreover have "cmpf_loop (m # ms) k data d (int (d + rem)) = 0 \<longleftrightarrow> ?xs = ?ys \<and> cmpf_loop ms 0 data (d + ?c) (int (d + rem)) = 0"
      using step rc False by (simp only: add_left_cancel if_False split: if_split) blast
    ultimately show ?thesis using IH by blast
  qed
qed

lemma cmpf_ok:
  assumes "\<forall>m \<in> set om. mbuf_ok P m" and "om \<noteq> []" and "len < 65536" and "len \<le> length data"
  shows "dpl_mbuf_cmpf om (int off) data (int len) = 0 \<longleftrightarrow>
    len = 0 \<or> (off + len \<le> chain_len om \<and> take len (drop off (chain_data om)) = take len data)"
proof (cases "len = 0")
  case True
  then show ?thesis by (simp add: dpl_mbuf_cmpf_def)
next
  case False
  show ?thesis
  proof (cases "off \<le> chain_len om")
    case True
    then obtain cur k pre where o: "dpl_mbuf_off om (int off) = Some (cur, k)" "cur \<noteq> []" "k \<le> om_len (hd cur)"
        and pre: "om = pre @ cur" "chain_len pre + k = off"
      using off_ok[OF assms(1,2)] by blast
    have "\<forall>m \<in> set cur. mbuf_ok P m" using assms(1) pre by simp
    from cmpf_loop_ok[OF this, of k len 0 data] show ?thesis
      using o False assms(3,4) pre off_drop[OF assms(1) pre] by (auto simp: dpl_mbuf_cmpf_def)
  next
    case beyond: False
    then show ?thesis
      using False off_beyond[of om off] by (simp add: dpl_mbuf_cmpf_def C_INT_MAX_def)
  qed
qed

section \<open>Comparing two chains\<close>

lemma skip_read_ok:
  assumes "\<forall>m \<in> set cur. mbuf_ok P m" and "cur \<noteq> [] \<longrightarrow> off \<le> om_len (hd cur)" and "skip_read cur off = (c, o')"
  shows "drop o' (chain_data c) = drop off (chain_data cur) \<and> chain_len c - o' = chain_len cur - off \<and>
    (c \<noteq> [] \<longrightarrow> o' < om_len (hd c)) \<and> (\<forall>m \<in> set c. mbuf_ok P m)"
  using assms
proof (induction cur arbitrary: off)
  case Nil
  then show ?case by simp
next
  case (Cons m ms)
  have "mbuf_ok P m" using Cons.prems by simp
  then have lm: "length (mbuf_data m) = om_len m" by (rule length_mbuf_data)
  show ?case
  proof (cases "off \<ge> om_len m")
    case True
    then have "off = om_len m" using Cons.prems by simp
    then show ?thesis using Cons.IH[of 0] Cons.prems True lm by simp
  next
    case False
    then show ?thesis using Cons.prems by auto
  qed
qed

lemma take_take_drop_eq:
  assumes "c \<le> r" and "c \<le> length xs" and "c \<le> length ys"
  shows "take r xs = take r ys \<longleftrightarrow> take c xs = take c ys \<and> take (r - c) (drop c xs) = take (r - c) (drop c ys)"
proof -
  have "take r zs = take c zs @ take (r - c) (drop c zs)" for zs :: "'a list"
    using assms(1) by (metis le_add_diff_inverse take_add)
  then show ?thesis using assms by simp
qed

lemma cmpm_loop_ok:
  assumes "\<forall>m \<in> set c1. mbuf_ok P m" and "c1 \<noteq> [] \<longrightarrow> o1 \<le> om_len (hd c1)"
    and "\<forall>m \<in> set c2. mbuf_ok Q m" and "c2 \<noteq> [] \<longrightarrow> o2 \<le> om_len (hd c2)"
  shows "cmpm_loop c1 o1 c2 o2 r = 0 \<longleftrightarrow>
    r \<le> chain_len c1 - o1 \<and> r \<le> chain_len c2 - o2 \<and> take r (drop o1 (chain_data c1)) = take r (drop o2 (chain_data c2))"
  using assms
proof (induction r arbitrary: c1 o1 c2 o2 rule: less_induct)
  case (less r)
  obtain d1 p1 d2 p2 where sk: "skip_read c1 o1 = (d1, p1)" "skip_read c2 o2 = (d2, p2)"
    by (cases "skip_read c1 o1"; cases "skip_read c2 o2") auto
  note s1 = skip_read_ok[OF less.prems(1,2) sk(1)] and s2 = skip_read_ok[OF less.prems(3,4) sk(2)]
  show ?case
  proof (cases "r = 0 \<or> d1 = [] \<or> d2 = []")
    case True
    then show ?thesis using s1 s2 sk by (subst cmpm_loop.simps) (auto simp: C_INT_MAX_def)
  next
    case False
    obtain m1 e1 m2 e2 where d: "d1 = m1 # e1" "d2 = m2 # e2" using False by (cases d1; cases d2) auto
    define c where c: "c = min (min (om_len m1 - p1) (om_len m2 - p2)) r"
    have ok: "mbuf_ok P m1" "mbuf_ok Q m2" "p1 < om_len m1" "p2 < om_len m2" using s1 s2 d by auto
    have cp: "0 < c" "p1 + c \<le> om_len m1" "p2 + c \<le> om_len m2" "c \<le> r" unfolding c using ok False by auto
    let ?xs = "mbuf_read m1 p1 c" and ?ys = "mbuf_read m2 p2 c"
    have xs: "?xs = take c (drop p1 (chain_data d1))" "length ?xs = c"
      using mbuf_read_data[OF cp(2)] length_mbuf_data[OF ok(1)] cp(2) d by auto
    have ys: "?ys = take c (drop p2 (chain_data d2))" "length ?ys = c"
      using mbuf_read_data[OF cp(3)] length_mbuf_data[OF ok(2)] cp(3) d by auto
    define rc where "rc = memcmp ?xs ?ys"
    have rc: "rc = 0 \<longleftrightarrow> ?xs = ?ys" unfolding rc_def using memcmp_eq_0 xs(2) ys(2) by metis
    have "cmpm_loop c1 o1 c2 o2 r = (if rc \<noteq> 0 then rc else cmpm_loop d1 (p1 + c) d2 (p2 + c) (r - c))"
      using False unfolding rc_def by (subst cmpm_loop.simps) (simp only: sk c[symmetric] split_conv Let_def d list.sel if_False simp_thms list.distinct)
    moreover have "cmpm_loop d1 (p1 + c) d2 (p2 + c) (r - c) = 0 \<longleftrightarrow>
        r - c \<le> chain_len d1 - (p1 + c) \<and> r - c \<le> chain_len d2 - (p2 + c) \<and>
        take (r - c) (drop (p1 + c) (chain_data d1)) = take (r - c) (drop (p2 + c) (chain_data d2))"
      using False cp s1 s2 d by (intro less.IH) auto
    moreover have "r - c \<le> chain_len d1 - (p1 + c) \<longleftrightarrow> r \<le> chain_len c1 - o1"
      "r - c \<le> chain_len d2 - (p2 + c) \<longleftrightarrow> r \<le> chain_len c2 - o2"
      using cp s1 s2 d by auto
    moreover have "take r (drop o1 (chain_data c1)) = take r (drop o2 (chain_data c2)) \<longleftrightarrow>
        ?xs = ?ys \<and> take (r - c) (drop (p1 + c) (chain_data d1)) = take (r - c) (drop (p2 + c) (chain_data d2))"
    proof -
      have "c \<le> length (drop p1 (chain_data d1))" "c \<le> length (drop p2 (chain_data d2))"
        using xs ys by (metis length_take min.cobounded1)+
      moreover have "drop (p1 + c) (chain_data d1) = drop c (drop p1 (chain_data d1))"
        "drop (p2 + c) (chain_data d2) = drop c (drop p2 (chain_data d2))"
        by (simp_all add: add.commute)
      moreover note take_take_drop_eq[OF cp(4), of "drop p1 (chain_data d1)" "drop p2 (chain_data d2)"]
      ultimately show ?thesis
        using s1 s2 xs(1) ys(1) by (simp del: drop_drop)
    qed
    ultimately show ?thesis using rc by (simp split: if_split)
  qed
qed

lemma off_zero_default:
  assumes "\<forall>m \<in> set om. mbuf_ok P m" and "om \<noteq> []"
  shows "\<exists>cur k. (case dpl_mbuf_off om (int off) of None \<Rightarrow> ([], 0) | Some p \<Rightarrow> p) = (cur, k) \<and>
    (\<forall>m \<in> set cur. mbuf_ok P m) \<and> (cur \<noteq> [] \<longrightarrow> k \<le> om_len (hd cur)) \<and>
    chain_len cur - k = chain_len om - off \<and> drop k (chain_data cur) = drop off (chain_data om)"
proof (cases "off \<le> chain_len om")
  case True
  then obtain cur k pre where "dpl_mbuf_off om (int off) = Some (cur, k)" "cur \<noteq> []" "k \<le> om_len (hd cur)"
      and pre: "om = pre @ cur" "chain_len pre + k = off"
    using off_ok[OF assms] by blast
  then show ?thesis using assms off_drop[OF assms(1) pre] by auto
next
  case False
  then show ?thesis using off_beyond[of om off] length_chain_data[OF assms(1)] by simp
qed

lemma cmpm_ok:
  assumes "\<forall>m \<in> set om1. mbuf_ok P m" and "om1 \<noteq> []" and "\<forall>m \<in> set om2. mbuf_ok Q m" and "om2 \<noteq> []"
  shows "dpl_mbuf_cmpm om1 off1 om2 off2 len = 0 \<longleftrightarrow>
    len = 0 \<or> (off1 + len \<le> chain_len om1 \<and> off2 + len \<le> chain_len om2 \<and>
      take len (drop off1 (chain_data om1)) = take len (drop off2 (chain_data om2)))"
proof -
  obtain c1 k1 where c1: "(case dpl_mbuf_off om1 (int off1) of None \<Rightarrow> ([], 0) | Some p \<Rightarrow> p) = (c1, k1)"
    "\<forall>m \<in> set c1. mbuf_ok P m" "c1 \<noteq> [] \<longrightarrow> k1 \<le> om_len (hd c1)"
    "chain_len c1 - k1 = chain_len om1 - off1" "drop k1 (chain_data c1) = drop off1 (chain_data om1)"
    using off_zero_default[OF assms(1,2)] by blast
  obtain c2 k2 where c2: "(case dpl_mbuf_off om2 (int off2) of None \<Rightarrow> ([], 0) | Some p \<Rightarrow> p) = (c2, k2)"
    "\<forall>m \<in> set c2. mbuf_ok Q m" "c2 \<noteq> [] \<longrightarrow> k2 \<le> om_len (hd c2)"
    "chain_len c2 - k2 = chain_len om2 - off2" "drop k2 (chain_data c2) = drop off2 (chain_data om2)"
    using off_zero_default[OF assms(3,4)] by blast
  have "dpl_mbuf_cmpm om1 off1 om2 off2 len = cmpm_loop c1 k1 c2 k2 len"
    using c1(1) c2(1) by (simp add: dpl_mbuf_cmpm_def)
  moreover have "len \<le> chain_len om1 - off1 \<longleftrightarrow> off1 + len \<le> chain_len om1" "len \<le> chain_len om2 - off2 \<longleftrightarrow> off2 + len \<le> chain_len om2"
    if "len \<noteq> 0" using that by auto
  ultimately show ?thesis
    using cmpm_loop_ok[OF c1(2,3) c2(2,3), of len, unfolded c1(4,5) c2(4,5)] by (cases "len = 0") simp_all
qed

end
