(* ===== verification/Dpl_Mbuf_Edit.thy ===== *)
theory Dpl_Mbuf_Edit
  imports Dpl_Mbuf_Read
begin

text \<open>
  The operations that change a chain in place: trimming at either end, making room in
  front, overwriting, pulling data into the first buffer, dropping empty buffers. Each
  is an equation on \<open>chain_data\<close> with the blocks accounted for.
\<close>

unbundle bit_operations_syntax

section \<open>Trimming\<close>

lemma adj_head_ok:
  assumes "\<forall>m \<in> set om. mbuf_ok P m" and "adj_head om len = (om', rest)"
  shows "chain_data om' = drop len (chain_data om) \<and> rest = len - chain_len om \<and> (\<forall>m \<in> set om'. mbuf_ok P m) \<and>
    map om_addr om' = map om_addr om \<and> map om_pkthdr_len om' = map om_pkthdr_len om \<and> map om_databuf om' = map om_databuf om"
  using assms
proof (induction om arbitrary: len om' rest)
  case Nil
  then show ?case by simp
next
  case (Cons m ms)
  have mok: "mbuf_ok P m" using Cons.prems by simp
  note lm = length_mbuf_data[OF mok]
  consider "len = 0" | "len \<noteq> 0" "om_len m \<le> len" | "len \<noteq> 0" "len < om_len m" by linarith
  then show ?case
  proof cases
    case 1
    then show ?thesis using Cons.prems by auto
  next
    case 2
    obtain ms' where ms': "adj_head ms (len - om_len m) = (ms', rest)" and om': "om' = m\<lparr>om_len := 0\<rparr> # ms'"
      using 2 Cons.prems by (auto split: prod.splits)
    have "mbuf_ok P (m\<lparr>om_len := 0\<rparr>)" using mok by (simp add: mbuf_ok_def)
    then show ?thesis
      using Cons.IH[OF _ ms'] Cons.prems(1) 2 om' lm by (simp add: mbuf_data_nil)
  next
    case 3
    let ?m = "m\<lparr>om_len := om_len m - len, om_data := om_data m + len\<rparr>"
    have om': "om' = ?m # ms" "rest = 0" using 3 Cons.prems by auto
    have "mbuf_ok P ?m" using mok 3 by (simp add: mbuf_ok_def)
    moreover have "mbuf_data ?m = drop len (mbuf_data m)" using 3 by (intro mbuf_data_trim_head) simp
    ultimately show ?thesis using 3 om' lm Cons.prems(1) by simp
  qed
qed

lemma adj_pos:
  assumes own: "own P B h fl (om @ os)" and "om \<noteq> []"
  shows "\<exists>om'. dpl_mbuf_adj cb om (int n) h = (om', h) \<and> own P B h fl (om' @ os) \<and>
    chain_data om' = drop n (chain_data om) \<and> (hdr_counts om \<longrightarrow> hdr_counts om')"
proof -
  have oks: "\<forall>m \<in> set om. mbuf_ok P m" "\<forall>m \<in> set os. mbuf_ok P m" using own_ok[OF own] by auto
  obtain om1 rest where ah: "adj_head om n = (om1, rest)" by fastforce
  note a = adj_head_ok[OF oks(1) ah]
  then have oks1: "\<forall>m \<in> set om1. mbuf_ok P m" and ne1: "om1 \<noteq> []" using assms(2) by auto
  let ?om' = "upd_pktlen (\<lambda>l. l - of_nat (n - rest)) om1"
  have res: "dpl_mbuf_adj cb om (int n) h = (?om', h)"
    using assms(2) ah by (simp add: dpl_mbuf_adj_def)
  have "own P B h fl (?om' @ os)"
    using a upd_pktlen_chain(2)[OF oks1] oks(2) by (intro own_update[OF own]) auto
  moreover have "chain_data ?om' = drop n (chain_data om)"
    using a upd_pktlen_chain(1)[OF oks1] by simp
  moreover have "hdr_counts ?om'" if "hdr_counts om"
  proof -
    have cl: "chain_len om1 = chain_len om - n"
      using arg_cong[of _ _ length, OF conjunct1[OF a]] length_chain_data[OF oks1] length_chain_data[OF oks(1)] by simp
    have hd: "DPL_MBUF_IS_PKTHDR (hd om1) = DPL_MBUF_IS_PKTHDR (hd om)" "DPL_MBUF_PKTLEN (hd om1) = DPL_MBUF_PKTLEN (hd om)"
      using a assms(2) ne1 by (auto simp: DPL_MBUF_IS_PKTHDR_def DPL_MBUF_PKTLEN_def neq_Nil_conv)
    have "of_nat (chain_len om) - of_nat (n - rest) = (of_nat (chain_len om - n) :: u16)"
      using a by (cases "n \<le> chain_len om") (auto simp: of_nat_diff)
    then show ?thesis
      using that hd cl assms(2) by (simp add: hdr_counts_upd[OF oks1 ne1]) (simp add: hdr_counts_def)
  qed
  ultimately show ?thesis using res by blast
qed

lemma adj_truncate_ok:
  assumes "own P B h fl (om @ os)" and "n \<le> chain_len om"
  shows "\<exists>om' h' fl'. adj_truncate cb om n h = (om', h') \<and> own P B h' fl' (om' @ os) \<and>
    chain_data om' = take n (chain_data om) \<and>
    (om \<noteq> [] \<longrightarrow> om' \<noteq> [] \<and> DPL_MBUF_IS_PKTHDR (hd om') = DPL_MBUF_IS_PKTHDR (hd om) \<and>
      DPL_MBUF_PKTLEN (hd om') = DPL_MBUF_PKTLEN (hd om)) \<and>
    (butlast om \<noteq> [] \<and> n \<le> chain_len (butlast om) \<longrightarrow> fl' \<noteq> [])"
  using assms
proof (induction om arbitrary: n h fl os)
  case Nil
  then show ?case by auto
next
  case (Cons m ms)
  have mok: "mbuf_ok P m" using own_ok[OF Cons.prems(1)] by simp
  note lm = length_mbuf_data[OF mok]
  show ?case
  proof (cases "om_len m \<ge> n")
    case True
    let ?m = "m\<lparr>om_len := n\<rparr>"
    have "mbuf_ok P ?m" using mok True by (simp add: mbuf_ok_def)
    then have "own P B h fl (?m # ms @ os)"
      using own_ok[OF Cons.prems(1)] by (intro own_update[OF Cons.prems(1)]) auto
    then have own1: "own P B h fl (ms @ ?m # os)" using own_cong[of "?m # ms @ os" "ms @ ?m # os"] by simp
    obtain h' where fr: "dpl_mbuf_free_chain cb ms h = (MEM_OK, h')" and own': "own P B h' (rev (map om_addr ms) @ fl) (?m # os)"
      using own_free_chain[OF own1] by blast
    have "ms = [] \<Longrightarrow> h' = h" using fr by simp
    moreover have "chain_data [?m] = take n (chain_data (m # ms))"
      using mbuf_data_trim_tail[OF True] True lm by simp
    ultimately show ?thesis
      using True fr own' by (rule_tac exI[of _ "[?m]"], rule_tac exI[of _ h']) auto
  next
    case False
    have own1: "own P B h fl (ms @ m # os)"
      using Cons.prems(1) own_cong[of "(m # ms) @ os" "ms @ m # os"] by simp
    have "n - om_len m \<le> chain_len ms" using Cons.prems(2) by simp
    then obtain ms' h' fl' where rec: "adj_truncate cb ms (n - om_len m) h = (ms', h')"
      and own': "own P B h' fl' (ms' @ m # os)" and cd: "chain_data ms' = take (n - om_len m) (chain_data ms)"
      and fl': "butlast ms \<noteq> [] \<and> n - om_len m \<le> chain_len (butlast ms) \<longrightarrow> fl' \<noteq> []"
      using Cons.IH[OF own1] by blast
    have "own P B h' fl' ((m # ms') @ os)" using own' own_cong[of "ms' @ m # os" "(m # ms') @ os"] by simp
    then show ?thesis
      using False rec cd lm fl'
      by (rule_tac exI[of _ "m # ms'"], rule_tac exI[of _ h'], rule_tac exI[of _ fl']) (cases "butlast ms"; auto)
  qed
qed

lemma adj_neg:
  assumes own: "own P B h fl (om @ os)" and ne: "om \<noteq> []" and "0 < n"
  shows "\<exists>om' h' fl'. dpl_mbuf_adj cb om (- int n) h = (om', h') \<and> own P B h' fl' (om' @ os) \<and>
    chain_data om' = take (chain_len om - n) (chain_data om) \<and> (hdr_counts om \<longrightarrow> hdr_counts om') \<and>
    om' \<noteq> [] \<and> DPL_MBUF_IS_PKTHDR (hd om') = DPL_MBUF_IS_PKTHDR (hd om) \<and>
    (n \<le> chain_len om \<longrightarrow> n \<le> DPL_MBUF_TRAILINGSPACE (last om') \<or> fl' \<noteq> [])"
proof (cases "om_len (last om) \<ge> n")
  case True
  have oks: "\<forall>m \<in> set om. mbuf_ok P m" "\<forall>m \<in> set os. mbuf_ok P m" using own_ok[OF own] by auto
  let ?l = "last om"
  let ?l' = "?l\<lparr>om_len := om_len ?l - n\<rparr>"
  let ?om1 = "butlast om @ [?l']"
  let ?om' = "upd_pktlen (\<lambda>l. l - of_nat n) ?om1"
  have lok: "mbuf_ok P ?l" using oks(1) ne by simp
  have "mbuf_ok P ?l'" using lok by (auto simp: mbuf_ok_def)
  then have oks1: "\<forall>m \<in> set ?om1. mbuf_ok P m" using oks(1) by (auto dest: in_set_butlastD)
  have res: "dpl_mbuf_adj cb om (- int n) h = (?om', h)"
    using True ne assms(3) by (simp add: dpl_mbuf_adj_def Let_def)
  have sp: "om = butlast om @ [?l]" using ne by simp
  have "map om_addr ?om1 = map om_addr om" by (subst (3) sp) simp
  then have "own P B h fl (?om' @ os)"
    using upd_pktlen_chain(2)[OF oks1] oks(2) by (intro own_update[OF own]) auto
  moreover have cd: "chain_data ?om1 = take (chain_len om - n) (chain_data om)"
  proof -
    have pre: "length (chain_data (butlast om)) = chain_len (butlast om)"
      using oks(1) by (intro length_chain_data) (auto dest: in_set_butlastD)
    have "mbuf_data ?l' = take (om_len ?l - n) (mbuf_data ?l)" using mbuf_data_trim_tail[of "om_len ?l - n" ?l] by simp
    then show ?thesis
      using last_chain[OF ne] pre True by simp
  qed
  then have "chain_data ?om' = take (chain_len om - n) (chain_data om)" using upd_pktlen_chain(1)[OF oks1] by simp
  moreover have "hdr_counts ?om'" if "hdr_counts om"
  proof -
    have "chain_len ?om1 = chain_len om - n" using last_chain[OF ne] True by simp
    moreover have "n \<le> chain_len om" using last_chain[OF ne] True by simp
    moreover have "DPL_MBUF_IS_PKTHDR (hd ?om1) = DPL_MBUF_IS_PKTHDR (hd om)"
      "DPL_MBUF_IS_PKTHDR (hd om) \<Longrightarrow> DPL_MBUF_PKTLEN (hd ?om1) = DPL_MBUF_PKTLEN (hd om)"
      using hd_replace_last[OF ne, of ?l'] by auto
    ultimately show ?thesis
      using that ne by (subst hdr_counts_upd[OF oks1]) (auto simp: hdr_counts_def of_nat_diff)
  qed
  moreover have "?om' \<noteq> []" by simp
  moreover have "DPL_MBUF_IS_PKTHDR (hd ?om') = DPL_MBUF_IS_PKTHDR (hd om)"
    using hd_replace_last[OF ne, of ?l'] by simp
  moreover have "n \<le> DPL_MBUF_TRAILINGSPACE (last ?om')"
  proof -
    have "last ?om' \<in> set ?om'" by (intro last_in_set) simp
    then have ok': "mbuf_ok P (last ?om')" using upd_pktlen_chain(2)[OF oks1] by blast
    have "om_data (last ?om') = om_data ?l" "om_len (last ?om') = om_len ?l - n"
      by (cases "butlast om"; simp add: upd_pktlen_Cons)+
    moreover have "om_data ?l + om_len ?l \<le> omp_databuf_len P" using lok by (simp add: mbuf_ok_def)
    ultimately show ?thesis using trailingspace_ok[OF ok'] True by linarith
  qed
  ultimately show ?thesis using res by blast
next
  case False
  have oks: "\<forall>m \<in> set om. mbuf_ok P m" "\<forall>m \<in> set os. mbuf_ok P m" using own_ok[OF own] by auto
  let ?c = "chain_len om - n"
  let ?om1 = "upd_pktlen (\<lambda>_. of_nat ?c) om"
  note u = upd_pktlen_chain[OF oks(1)]
  have own1: "own P B h fl (?om1 @ os)"
    using u(2) oks(2) by (intro own_update[OF own]) auto
  have "?c \<le> chain_len ?om1" by simp
  from adj_truncate_ok[OF own1 this, of cb]
  obtain om' h' fl' where t: "adj_truncate cb ?om1 ?c h = (om', h')" "own P B h' fl' (om' @ os)"
    "chain_data om' = take ?c (chain_data om)"
    "om' \<noteq> []" "DPL_MBUF_IS_PKTHDR (hd om') = DPL_MBUF_IS_PKTHDR (hd ?om1)" "DPL_MBUF_PKTLEN (hd om') = DPL_MBUF_PKTLEN (hd ?om1)"
    "butlast ?om1 \<noteq> [] \<and> ?c \<le> chain_len (butlast ?om1) \<longrightarrow> fl' \<noteq> []"
    using ne u(1) by auto
  have res: "dpl_mbuf_adj cb om (- int n) h = (om', h')"
    using False ne t(1) assms(3) by (simp add: dpl_mbuf_adj_def Let_def)
  have "\<forall>m \<in> set om'. mbuf_ok P m" using own_ok[OF t(2)] by simp
  then have "chain_len om' = ?c" using length_chain_data[of om' P] t(3) length_chain_data[OF oks(1)] by simp
  moreover have "DPL_MBUF_IS_PKTHDR (hd ?om1) \<Longrightarrow> DPL_MBUF_PKTLEN (hd ?om1) = of_nat ?c"
    using ne oks(1) set_pktlen_data(2)[of P "hd om" "\<lambda>_. of_nat ?c"]
    by (cases om) (auto simp: upd_pktlen_Cons split: if_splits)
  ultimately have "hdr_counts om'" using t(4-6) by (simp add: hdr_counts_def)
  moreover have "fl' \<noteq> []" if "n \<le> chain_len om"
  proof -
    have sp: "chain_len om = chain_len (butlast om) + om_len (last om)" using last_chain[OF ne] by simp
    have lens: "map om_len (butlast ?om1) = map om_len (butlast om)" by (simp add: map_butlast)
    then have "chain_len (butlast ?om1) = chain_len (butlast om)" by (simp add: chain_len_def)
    moreover have "butlast ?om1 \<noteq> []"
      using lens sp that False by (cases "butlast om") auto
    ultimately show ?thesis using t(7) sp False by simp
  qed
  moreover have "DPL_MBUF_IS_PKTHDR (hd ?om1) = DPL_MBUF_IS_PKTHDR (hd om)" by simp
  ultimately show ?thesis using res t(2-5) by blast
qed

section \<open>Making room in front\<close>

definition front_room :: "dpl_mbuf_pool \<Rightarrow> addr list \<Rightarrow> mchain \<Rightarrow> nat" where
  "front_room P fl om = DPL_MBUF_LEADINGSPACE (hd om) + length fl * (omp_databuf_len P - hdr_len (hd om))"

text \<open>What one round does to the head of the chain.\<close>

definition lead_in :: "nat \<Rightarrow> mchain \<Rightarrow> mchain" where
  "lead_in k om = upd_pktlen (\<lambda>l. l + of_nat k)
     (upd_head (\<lambda>m. m\<lparr>om_data := om_data m - k, om_len := (om_len m + k) mod 65536\<rparr>) om)"

lemma lead_in_ok:
  assumes own: "own P B h fl (om @ os)" and ne: "om \<noteq> []" and k: "k \<le> DPL_MBUF_LEADINGSPACE (hd om)"
  shows "own P B h fl (lead_in k om @ os) \<and> lead_in k om \<noteq> [] \<and>
    (\<exists>xs. length xs = k \<and> chain_data (lead_in k om) = xs @ chain_data om) \<and>
    (hdr_counts om \<longrightarrow> hdr_counts (lead_in k om)) \<and>
    hdr_len (hd (lead_in k om)) = hdr_len (hd om) \<and> DPL_MBUF_IS_PKTHDR (hd (lead_in k om)) = DPL_MBUF_IS_PKTHDR (hd om) \<and>
    om_omp (hd (lead_in k om)) = Some P \<and> mbuf_ok P (hd (lead_in k om)) \<and>
    (\<forall>m \<in> set (tl (lead_in k om)). mbuf_ok P m) \<and> om_pkthdr_len (hd (lead_in k om)) = om_pkthdr_len (hd om)"
proof -
  obtain m ms where om: "om = m # ms" using ne by (cases om) auto
  have oks: "\<forall>m \<in> set om. mbuf_ok P m" "\<forall>m \<in> set os. mbuf_ok P m" using own_ok[OF own] by auto
  then have mok: "mbuf_ok P m" using om by simp
  have kk: "k \<le> om_data m - hdr_len m" using k om leadingspace_ok[OF mok] by simp
  let ?m = "m\<lparr>om_data := om_data m - k, om_len := (om_len m + k) mod 65536\<rparr>"
  have bd: "om_len m + k < 65536" "k \<le> om_data m" "om_data m + om_len m \<le> length (om_databuf m)"
    using mok kk by (auto simp: mbuf_ok_def)
  have m': "mbuf_ok P ?m" using mok kk bd by (auto simp: mbuf_ok_def)
  have md: "mbuf_data ?m = read_at (om_databuf m) (om_data m - k) k @ mbuf_data m"
    using mbuf_data_prepend[OF bd(2,3)] bd(1) by simp
  have lx: "length (read_at (om_databuf m) (om_data m - k) k) = k"
    using bd by simp
  have oks1: "\<forall>m \<in> set (?m # ms). mbuf_ok P m" using m' oks om by simp
  have li: "lead_in k om = upd_pktlen (\<lambda>l. l + of_nat k) (?m # ms)" by (simp add: lead_in_def om)
  note u = upd_pktlen_chain[OF oks1, of "\<lambda>l. l + of_nat k"]
  have "own P B h fl (lead_in k om @ os)"
    using u(2) oks(2) om unfolding li by (intro own_update[OF own]) auto
  moreover have "\<exists>xs. length xs = k \<and> chain_data (lead_in k om) = xs @ chain_data om"
    using u(1) md lx om unfolding li by (intro exI[of _ "read_at (om_databuf m) (om_data m - k) k"]) simp
  moreover have "hdr_counts (lead_in k om)" if "hdr_counts om"
    using that om bd(1) unfolding li by (subst hdr_counts_upd[OF oks1]) (auto simp: hdr_counts_def add_ac)
  moreover have "hdr_len (hd (lead_in k om)) = hdr_len m" "DPL_MBUF_IS_PKTHDR (hd (lead_in k om)) = DPL_MBUF_IS_PKTHDR m"
    "om_pkthdr_len (hd (lead_in k om)) = om_pkthdr_len m" "om_omp (hd (lead_in k om)) = Some P"
    using mok unfolding li by (simp_all add: upd_pktlen_Cons hdr_len_def mbuf_ok_def)
  moreover have "lead_in k om \<noteq> []" unfolding li by simp
  moreover have "mbuf_ok P (hd (lead_in k om))" "\<forall>m \<in> set (tl (lead_in k om)). mbuf_ok P m"
    using u(2) unfolding li by (auto simp: upd_pktlen_Cons)
  ultimately show ?thesis using om by simp
qed

text \<open>The new head: the packet header moves to it, and its data starts at its end.\<close>

lemma new_head_ok:
  assumes own: "own P B h (b # fl) (om @ os)" and ne: "om \<noteq> []"
  obtains p h1 p2 om2 where
    "(if DPL_MBUF_IS_PKTHDR (hd om) then dpl_mbuf_get_pkthdr P (om_pkthdr_len (hd om) - sizeof_pkthdr) h
      else dpl_mbuf_get P 0 h) = (Some p, h1)"
    and "p2 = (let p1 = (if DPL_MBUF_IS_PKTHDR (hd om) then copypkthdr p (hd om) else p)
               in p1\<lparr>om_data := om_data p1 + DPL_MBUF_TRAILINGSPACE p1\<rparr>)"
    and "om2 = (if DPL_MBUF_IS_PKTHDR (hd om) then upd_head (\<lambda>m. m\<lparr>om_pkthdr_len := 0\<rparr>) om else om)"
    and "own P B h1 fl ((p2 # om2) @ os)" and "chain_data (p2 # om2) = chain_data om"
    and "hdr_counts om \<longrightarrow> hdr_counts (p2 # om2)" and "hdr_len p2 = hdr_len (hd om)"
    and "DPL_MBUF_LEADINGSPACE p2 = omp_databuf_len P - hdr_len (hd om)"
proof -
  obtain m ms where om: "om = m # ms" using ne by (cases om) auto
  have oks: "\<forall>m \<in> set om. mbuf_ok P m" "\<forall>m \<in> set os. mbuf_ok P m" using own_ok[OF own] by auto
  then have mok: "mbuf_ok P m" using om by simp
  note goal = that
  have fin: thesis
    if get: "(if DPL_MBUF_IS_PKTHDR (hd om) then dpl_mbuf_get_pkthdr P (om_pkthdr_len (hd om) - sizeof_pkthdr) h
        else dpl_mbuf_get P 0 h) = (Some p, h1)"
      and p1: "p1 = (if DPL_MBUF_IS_PKTHDR m then copypkthdr p m else p)"
      and own1: "own P B h1 fl (p # om @ os)" and ad: "om_addr p1 = om_addr p"
      and ok1: "mbuf_ok P p1" "om_len p1 = 0" "om_data p1 = hdr_len m" "hdr_len p1 = hdr_len m"
        "DPL_MBUF_IS_PKTHDR p1 = DPL_MBUF_IS_PKTHDR m" "DPL_MBUF_IS_PKTHDR m \<longrightarrow> DPL_MBUF_PKTLEN p1 = DPL_MBUF_PKTLEN m"
    for p h1 p1
  proof -
    let ?p2 = "p1\<lparr>om_data := om_data p1 + DPL_MBUF_TRAILINGSPACE p1\<rparr>"
    let ?om2 = "if DPL_MBUF_IS_PKTHDR m then m\<lparr>om_pkthdr_len := 0\<rparr> # ms else om"
    have tr: "om_data p1 + DPL_MBUF_TRAILINGSPACE p1 = omp_databuf_len P"
      using trailingspace_ok[OF ok1(1)] ok1(1,2) by (auto simp: mbuf_ok_def)
    have p2: "mbuf_ok P ?p2" unfolding tr using ok1 by (auto simp: mbuf_ok_def)
    have m0: "mbuf_ok P (m\<lparr>om_pkthdr_len := 0\<rparr>)"
      using mok by (simp add: mbuf_ok_def hdr_len_def DPL_MBUF_IS_PKTHDR_def sizeof_pkthdr_def)
    have d2: "chain_data (?p2 # ?om2) = chain_data om" "chain_len ?om2 = chain_len om"
      using ok1(2) om by (simp_all add: mbuf_data_nil mbuf_data_def mbuf_read_def)
    have own2: "own P B h1 fl ((?p2 # ?om2) @ os)"
      using p2 m0 oks om ad by (intro own_update[OF own1]) auto
    have hc: "hdr_counts om \<longrightarrow> hdr_counts (?p2 # ?om2)"
      using ok1 d2(2) om by (auto simp: hdr_counts_def)
    have ld: "DPL_MBUF_LEADINGSPACE ?p2 = omp_databuf_len P - hdr_len (hd om)"
      using leadingspace_ok[OF p2] tr ok1(4) om by simp
    have e1: "?p2 = (let p1 = (if DPL_MBUF_IS_PKTHDR (hd om) then copypkthdr p (hd om) else p)
               in p1\<lparr>om_data := om_data p1 + DPL_MBUF_TRAILINGSPACE p1\<rparr>)"
      unfolding Let_def om list.sel p1 by (rule refl)
    have e2: "?om2 = (if DPL_MBUF_IS_PKTHDR (hd om) then upd_head (\<lambda>m. m\<lparr>om_pkthdr_len := 0\<rparr>) om else om)"
      by (simp add: om)
    have hl: "hdr_len ?p2 = hdr_len (hd om)" using ok1(4) om by simp
    show thesis
      by (rule goal[OF get e1 e2 own2 d2(1) hc hl ld])
  qed
  show thesis
  proof (cases "DPL_MBUF_IS_PKTHDR m")
    case True
    have pk: "om_pkthdr_len m - sizeof_pkthdr + sizeof_pkthdr = om_pkthdr_len m" "om_pkthdr_len m \<le> 255"
      "om_pkthdr_len m \<le> omp_databuf_len P"
      using True mok by (auto simp: DPL_MBUF_IS_PKTHDR_def mbuf_ok_def hdr_len_def)
    obtain p h1 where get: "dpl_mbuf_get_pkthdr P (om_pkthdr_len m - sizeof_pkthdr) h = (Some p, h1)"
      and own1: "own P B h1 fl (p # om @ os)" and p: "mbuf_ok P p" "om_len p = 0"
      by (rule own_get_pkthdr[OF own, of "om_pkthdr_len m - sizeof_pkthdr"]) (use pk in auto)
    note c = copypkthdr_ok[OF p mok True]
    show thesis
      using True get own1 c om by (intro fin[of p h1 "copypkthdr p m"]) auto
  next
    case False
    obtain p h1 where get: "dpl_mbuf_get P 0 h = (Some p, h1)" and own1: "own P B h1 fl (p # om @ os)"
      and p: "mbuf_ok P p" "om_data p = 0" "om_len p = 0" "om_pkthdr_len p = 0"
      by (rule own_get[OF own, of 0]) auto
    have "hdr_len p = 0" "hdr_len m = 0" "\<not> DPL_MBUF_IS_PKTHDR p"
      using p False by (auto simp: hdr_len_def DPL_MBUF_IS_PKTHDR_def sizeof_pkthdr_def)
    then show thesis
      using False get own1 p om by (intro fin[of p h1 p]) auto
  qed
qed

lemma prepend_unfold:
  assumes "om \<noteq> []" and "om_omp (hd om) = Some P"
  shows "dpl_mbuf_prepend cb om len h =
    (let k = min len (DPL_MBUF_LEADINGSPACE (hd om)); om1 = lead_in k om
     in if len - k = 0 then (om1, h)
        else case (if DPL_MBUF_IS_PKTHDR (hd om) then dpl_mbuf_get_pkthdr P (om_pkthdr_len (hd om) - sizeof_pkthdr) h
                   else dpl_mbuf_get P 0 h) of
            (None, h') \<Rightarrow> ([], snd (dpl_mbuf_free_chain cb om1 h'))
          | (Some p, h') \<Rightarrow>
              dpl_mbuf_prepend cb
                ((let p1 = (if DPL_MBUF_IS_PKTHDR (hd om) then copypkthdr p (hd om1) else p)
                  in p1\<lparr>om_data := om_data p1 + DPL_MBUF_TRAILINGSPACE p1\<rparr>)
                 # (if DPL_MBUF_IS_PKTHDR (hd om) then upd_head (\<lambda>m. m\<lparr>om_pkthdr_len := 0\<rparr>) om1 else om1))
                (len - k) h')"
  unfolding dpl_mbuf_prepend.simps[of cb om len h] Let_def lead_in_def assms(2) option.sel by (rule refl)

text \<open>
  Success exactly when the room in front and the free buffers suffice; on failure the
  whole chain has been given back.
\<close>

lemma prepend_ok:
  assumes "own P B h fl (om @ os)" and "om \<noteq> []"
  shows "\<exists>om' h' fl'. dpl_mbuf_prepend cb om len h = (om', h') \<and> own P B h' fl' (om' @ os) \<and>
    (if len \<le> front_room P fl om
     then om' \<noteq> [] \<and> (\<exists>xs. length xs = len \<and> chain_data om' = xs @ chain_data om) \<and> (hdr_counts om \<longrightarrow> hdr_counts om')
     else om' = [])"
  using assms
proof (induction fl arbitrary: om len h)
  case Nil
  let ?k = "min len (DPL_MBUF_LEADINGSPACE (hd om))"
  have omp: "om_omp (hd om) = Some P" using own_ok[OF Nil(1)] Nil(2) by (cases om) (auto simp: mbuf_ok_def)
  note li = lead_in_ok[OF Nil min.cobounded2[of len]]
  show ?case
  proof (cases "len \<le> DPL_MBUF_LEADINGSPACE (hd om)")
    case True
    then show ?thesis
      using li by (rule_tac exI[of _ "lead_in ?k om"], rule_tac exI[of _ h], rule_tac exI[of _ "[]"])
        (auto simp: prepend_unfold[OF Nil(2) omp] front_room_def Let_def min_absorb1)
  next
    case False
    have none: "(if DPL_MBUF_IS_PKTHDR (hd om) then dpl_mbuf_get_pkthdr P (om_pkthdr_len (hd om) - sizeof_pkthdr) h
                   else dpl_mbuf_get P 0 h) = (None, h)"
      using own_get_none[OF Nil(1)] by (simp add: dpl_mbuf_get_pkthdr_def Let_def)
    obtain h' where "dpl_mbuf_free_chain cb (lead_in ?k om) h = (MEM_OK, h')"
      "own P B h' (rev (map om_addr (lead_in ?k om)) @ []) os"
      using own_free_chain[OF conjunct1[OF li]] by blast
    then show ?thesis
      using False by (rule_tac exI[of _ "[]"], rule_tac exI[of _ h'], rule_tac exI[of _ "rev (map om_addr (lead_in ?k om))"])
        (simp add: prepend_unfold[OF Nil(2) omp] none front_room_def Let_def)
  qed
next
  case (Cons b fl)
  let ?k = "min len (DPL_MBUF_LEADINGSPACE (hd om))"
  let ?om1 = "lead_in ?k om"
  have omp: "om_omp (hd om) = Some P" using own_ok[OF Cons.prems(1)] Cons.prems(2) by (cases om) (auto simp: mbuf_ok_def)
  note li = lead_in_ok[OF Cons.prems min.cobounded2[of len]]
  show ?case
  proof (cases "len \<le> DPL_MBUF_LEADINGSPACE (hd om)")
    case True
    then show ?thesis
      using li by (rule_tac exI[of _ ?om1], rule_tac exI[of _ h], rule_tac exI[of _ "b # fl"])
        (auto simp: prepend_unfold[OF Cons.prems(2) omp] front_room_def Let_def min_absorb1)
  next
    case False
    have own1: "own P B h (b # fl) (?om1 @ os)" and ne1: "?om1 \<noteq> []" using li by auto
    have same: "DPL_MBUF_IS_PKTHDR (hd ?om1) = DPL_MBUF_IS_PKTHDR (hd om)" "om_pkthdr_len (hd ?om1) = om_pkthdr_len (hd om)"
      "hdr_len (hd ?om1) = hdr_len (hd om)"
      using li by auto
    obtain xs where xs: "length xs = ?k" "chain_data ?om1 = xs @ chain_data om" using li by blast
    obtain p h1 p2 om2 where n:
      "(if DPL_MBUF_IS_PKTHDR (hd ?om1) then dpl_mbuf_get_pkthdr P (om_pkthdr_len (hd ?om1) - sizeof_pkthdr) h
        else dpl_mbuf_get P 0 h) = (Some p, h1)"
      "p2 = (let p1 = (if DPL_MBUF_IS_PKTHDR (hd ?om1) then copypkthdr p (hd ?om1) else p)
               in p1\<lparr>om_data := om_data p1 + DPL_MBUF_TRAILINGSPACE p1\<rparr>)"
      "om2 = (if DPL_MBUF_IS_PKTHDR (hd ?om1) then upd_head (\<lambda>m. m\<lparr>om_pkthdr_len := 0\<rparr>) ?om1 else ?om1)"
      "own P B h1 fl ((p2 # om2) @ os)" "chain_data (p2 # om2) = chain_data ?om1"
      "hdr_counts ?om1 \<longrightarrow> hdr_counts (p2 # om2)" "hdr_len p2 = hdr_len (hd ?om1)"
      "DPL_MBUF_LEADINGSPACE p2 = omp_databuf_len P - hdr_len (hd ?om1)"
      by (rule new_head_ok[OF own1 ne1])
    have step: "dpl_mbuf_prepend cb om len h = dpl_mbuf_prepend cb (p2 # om2) (len - ?k) h1"
      using False n(1) unfolding n(2,3) same by (subst prepend_unfold[OF Cons.prems(2) omp]) (simp add: Let_def)
    have room: "len - ?k \<le> front_room P fl (p2 # om2) \<longleftrightarrow> len \<le> front_room P (b # fl) om"
      using False n(7,8) same by (auto simp: front_room_def)
    obtain om' h' fl' where r: "dpl_mbuf_prepend cb (p2 # om2) (len - ?k) h1 = (om', h')" "own P B h' fl' (om' @ os)"
      "if len - ?k \<le> front_room P fl (p2 # om2)
       then om' \<noteq> [] \<and> (\<exists>xs. length xs = len - ?k \<and> chain_data om' = xs @ chain_data (p2 # om2)) \<and>
         (hdr_counts (p2 # om2) \<longrightarrow> hdr_counts om')
       else om' = []"
      using Cons.IH[OF n(4), of "len - ?k"] by auto
    have "if len \<le> front_room P (b # fl) om
       then om' \<noteq> [] \<and> (\<exists>xs. length xs = len \<and> chain_data om' = xs @ chain_data om) \<and> (hdr_counts om \<longrightarrow> hdr_counts om')
       else om' = []"
    proof (cases "len \<le> front_room P (b # fl) om")
      case True
      then obtain ys where "length ys = len - ?k" "chain_data om' = ys @ xs @ chain_data om" "om' \<noteq> []"
          "hdr_counts (p2 # om2) \<longrightarrow> hdr_counts om'"
        using r(3) room n(5) xs(2) by auto
      then show ?thesis
        using True xs(1) n(6) li by (auto intro!: exI[of _ "ys @ xs"])
    next
      case False
      then show ?thesis using r(3) room by simp
    qed
    then show ?thesis using step r(1,2) by (metis (no_types, lifting))
  qed
qed

end
