(* ===== verification/Dpl_Mbuf_Pullup.thy ===== *)
theory Dpl_Mbuf_Pullup
  imports Dpl_Mbuf_Edit
begin

text \<open>
  Overwriting a chain, pulling data into its first buffer, dropping empty buffers.
\<close>

unbundle bit_operations_syntax

section \<open>Overwriting\<close>

lemma overlay_ok:
  assumes "mbuf_ok P m" and "off + length xs \<le> om_len m"
  shows "mbuf_ok P (mbuf_write m off xs)"
    and "mbuf_data (mbuf_write m off xs) = take off (mbuf_data m) @ xs @ drop (off + length xs) (mbuf_data m)"
proof -
  show "mbuf_ok P (mbuf_write m off xs)" using assms(1) by (simp add: mbuf_ok_def)
  have "om_data m + om_len m \<le> length (om_databuf m)" using assms(1) by (simp add: mbuf_ok_def)
  from mbuf_data_overlay[OF assms(2) this]
  show "mbuf_data (mbuf_write m off xs) = take off (mbuf_data m) @ xs @ drop (off + length xs) (mbuf_data m)"
    using assms length_mbuf_data[OF assms(1)] by (simp add: write_at_slices)
qed

text \<open>The part of a buffer that identifies it: address, offset and length of its data, header, pool.\<close>

definition same_frame :: "dpl_mbuf \<Rightarrow> dpl_mbuf \<Rightarrow> bool" where
  "same_frame m m' \<longleftrightarrow> om_addr m' = om_addr m \<and> om_data m' = om_data m \<and> om_len m' = om_len m \<and>
     om_pkthdr_len m' = om_pkthdr_len m \<and> om_omp m' = om_omp m \<and>
     (DPL_MBUF_IS_PKTHDR m \<longrightarrow> DPL_MBUF_PKTLEN m' = DPL_MBUF_PKTLEN m)"

lemma same_frame_refl: "same_frame m m"
  by (simp add: same_frame_def)

lemma same_frame_write:
  assumes "mbuf_ok P m"
  shows "same_frame m (mbuf_write m off xs)"
proof -
  have "DPL_MBUF_PKTLEN (mbuf_write m off xs) = DPL_MBUF_PKTLEN m" if "DPL_MBUF_IS_PKTHDR m"
    using pkthdr_room[OF assms that] by (simp add: DPL_MBUF_PKTLEN_def mbuf_write_def le16.get_write_at_other)
  then show ?thesis by (simp add: same_frame_def)
qed

lemma copyinto_loop_ok:
  assumes "\<forall>m \<in> set cur. mbuf_ok P m" and "cur \<noteq> []" and "k \<le> om_len (hd cur)" and "len \<le> length src"
  shows "\<exists>cur'. copyinto_loop cur k src (int len) =
      (cur', drop (min len (chain_len cur - k)) src, int (len - (chain_len cur - k))) \<and>
    list_all2 same_frame cur cur' \<and> (\<forall>m \<in> set cur'. mbuf_ok P m) \<and>
    chain_data cur' = take k (chain_data cur) @ take (min len (chain_len cur - k)) src @ drop (k + len) (chain_data cur)"
  using assms
proof (induction cur arbitrary: k src len)
  case Nil
  then show ?case by simp
next
  case (Cons m ms)
  have mok: "mbuf_ok P m" and k: "k \<le> om_len m" using Cons.prems by auto
  note lm = length_mbuf_data[OF mok]
  define n where n: "n = min (om_len m - k) len"
  have cl: "min (int (om_len m) - int k) (int len) = int n" using k unfolding n by (auto simp: min_def of_nat_diff)
  have nle: "n \<le> len" "k + n \<le> om_len m" unfolding n using k by auto
  define m' where "m' = (if int n > 0 then mbuf_write m k (take n src) else m)"
  have lt: "length (take n src) = n" using nle Cons.prems by simp
  have m': "mbuf_ok P m'" "same_frame m m'" "mbuf_data m' = take k (mbuf_data m) @ take n src @ drop (k + n) (mbuf_data m)"
    using mok overlay_ok[OF mok, of k "take n src"] nle lt same_frame_write[OF mok] same_frame_refl
    by (auto simp: m'_def)
  have src': "(if int n > 0 then drop (nat (int n)) src else src) = drop n src" by simp
  have len': "(if int n > 0 then int len - int n else int len) = int (len - n)" using nle by (simp add: of_nat_diff)
  have m'_eq: "(if int n > 0 then mbuf_write m k (take (nat (int n)) src) else m) = m'" by (simp add: m'_def)
  have step: "copyinto_loop (m # ms) k src (int len) =
      (if int (len - n) = 0 \<or> ms = [] then (m' # ms, drop n src, int (len - n))
       else let (oms', rest) = copyinto_loop ms 0 (drop n src) (int (len - n)) in (m' # oms', rest))"
    unfolding copyinto_loop.simps cl Let_def src' len' m'_eq by (rule refl)
  have fr: "list_all2 same_frame ms ms" by (simp add: list.rel_refl same_frame_refl)
  show ?case
  proof (cases "len - n = 0 \<or> ms = []")
    case True
    have e: "min len (chain_len (m # ms) - k) = n" "len - (chain_len (m # ms) - k) = len - n"
      using True nle k unfolding n by auto
    have "drop (k + len) (chain_data (m # ms)) = drop (k + n) (mbuf_data m) @ chain_data ms"
      using True nle lm k unfolding n by (auto simp: min_def)
    then show ?thesis
      using step True m' fr lm k Cons.prems(1) unfolding e
      by (intro exI[of _ "m' # ms"]) auto
  next
    case False
    then have ms: "ms \<noteq> []" and nn: "n = om_len m - k" "len - n > 0" unfolding n by auto
    have "\<forall>m \<in> set ms. mbuf_ok P m" "len - n \<le> length (drop n src)" using Cons.prems by auto
    from Cons.IH[OF this(1) ms _ this(2), of 0] obtain ms' where
      IH: "copyinto_loop ms 0 (drop n src) (int (len - n)) =
        (ms', drop (min (len - n) (chain_len ms)) (drop n src), int (len - n - chain_len ms))"
      "list_all2 same_frame ms ms'" "\<forall>m \<in> set ms'. mbuf_ok P m"
      "chain_data ms' = take (min (len - n) (chain_len ms)) (drop n src) @ drop (len - n) (chain_data ms)"
      by auto
    have e: "min len (chain_len (m # ms) - k) = n + min (len - n) (chain_len ms)"
      "len - (chain_len (m # ms) - k) = len - n - chain_len ms"
      using nn k by auto
    have "copyinto_loop (m # ms) k src (int len) =
        (m' # ms', drop (n + min (len - n) (chain_len ms)) src, int (len - n - chain_len ms))"
      unfolding step IH(1) using False by (simp add: add.commute)
    moreover have "chain_data (m' # ms') = take k (chain_data (m # ms)) @
        take (n + min (len - n) (chain_len ms)) src @ drop (k + len) (chain_data (m # ms))"
    proof -
      define r j where "r = len - n" and "j = min (len - n) (chain_len ms)"
      have kl: "k + len = om_len m + r" and kn: "k + n = om_len m" using nn k by (auto simp: r_def)
      have "chain_data (m' # ms') = take k (mbuf_data m) @ (take n src @ take j (drop n src)) @ drop r (chain_data ms)"
        using m'(3) IH(4) lm kn by (simp add: r_def j_def)
      also have "take n src @ take j (drop n src) = take (n + j) src" by (simp add: take_add)
      finally show ?thesis using lm k by (simp add: kl j_def)
    qed
    ultimately show ?thesis
      using m' IH(2,3) unfolding e by (intro exI[of _ "m' # ms'"]) auto
  qed
qed

lemma list_all2_frame:
  assumes "list_all2 same_frame om om'"
  shows "map om_addr om' = map om_addr om" and "chain_len om' = chain_len om" and "length om' = length om"
    and "om = [] \<longleftrightarrow> om' = []"
    and "om \<noteq> [] \<Longrightarrow> DPL_MBUF_IS_PKTHDR (hd om') = DPL_MBUF_IS_PKTHDR (hd om)"
    and "om \<noteq> [] \<Longrightarrow> DPL_MBUF_IS_PKTHDR (hd om) \<Longrightarrow> DPL_MBUF_PKTLEN (hd om') = DPL_MBUF_PKTLEN (hd om)"
    and "om \<noteq> [] \<Longrightarrow> same_frame (last om) (last om')"
  using assms
  by (induction rule: list_all2_induct) (auto simp: same_frame_def DPL_MBUF_IS_PKTHDR_def)

lemma same_frame_room: "same_frame m m' \<Longrightarrow> DPL_MBUF_TRAILINGSPACE m' = DPL_MBUF_TRAILINGSPACE m"
  by (simp add: same_frame_def DPL_MBUF_TRAILINGSPACE_def)

lemma chain_data_split_at:
  assumes "om = pre @ cur" and "length (chain_data pre) + k = off"
  shows "chain_data pre @ take k (chain_data cur) = take off (chain_data om)"
    and "drop (off + n) (chain_data om) = drop (k + n) (chain_data cur)"
  using assms by auto

text \<open>
  Within the chain, \<open>dpl_mbuf_copyinto\<close> overwrites in place and needs no buffer.
\<close>

lemma copyinto_inside:
  assumes own: "own P B h fl (om @ os)" and ne: "om \<noteq> []" and fit: "off + len \<le> chain_len om" and src: "len \<le> length src"
  shows "\<exists>om'. dpl_mbuf_copyinto om (int off) src (int len) h = (MB_OK, om', h) \<and> own P B h fl (om' @ os) \<and>
    chain_data om' = take off (chain_data om) @ take len src @ drop (off + len) (chain_data om) \<and>
    (hdr_counts om \<longrightarrow> hdr_counts om')"
proof -
  have oks: "\<forall>m \<in> set om. mbuf_ok P m" "\<forall>m \<in> set os. mbuf_ok P m" using own_ok[OF own] by auto
  obtain cur k pre where o: "dpl_mbuf_off om (int off) = Some (cur, k)" "cur \<noteq> []" "k \<le> om_len (hd cur)"
      and pre: "om = pre @ cur" "chain_len pre + k = off"
    using off_ok[OF oks(1) ne, of off] fit by auto
  have ok2: "\<forall>m \<in> set cur. mbuf_ok P m" "\<forall>m \<in> set pre. mbuf_ok P m" using oks pre by auto
  have rest: "len - (chain_len cur - k) = 0" "min len (chain_len cur - k) = len" using fit pre by auto
  obtain cur' where c: "copyinto_loop cur k src (int len) = (cur', drop len src, 0)" "list_all2 same_frame cur cur'"
      "\<forall>m \<in> set cur'. mbuf_ok P m"
      "chain_data cur' = take k (chain_data cur) @ take len src @ drop (k + len) (chain_data cur)"
    using copyinto_loop_ok[OF ok2(1) o(2,3) src] rest by auto
  have "take (length om - length cur) om = pre" using pre by simp
  then have res: "dpl_mbuf_copyinto om (int off) src (int len) h = (MB_OK, pre @ cur', h)"
    using o(1) c(1) by (simp add: dpl_mbuf_copyinto_def Let_def)
  have fr: "list_all2 same_frame om (pre @ cur')"
    unfolding pre(1) by (intro list_all2_appendI c(2) list.rel_refl same_frame_refl)
  note f = list_all2_frame[OF fr]
  have "own P B h fl ((pre @ cur') @ os)"
    using f(1) c(3) ok2(2) oks(2) by (intro own_update[OF own]) auto
  moreover have "length (chain_data pre) + k = off" using length_chain_data[OF ok2(2)] pre(2) by simp
  then have "chain_data (pre @ cur') = take off (chain_data om) @ take len src @ drop (off + len) (chain_data om)"
    using c(4) chain_data_split_at[OF pre(1)] by simp
  moreover have "hdr_counts om \<longrightarrow> hdr_counts (pre @ cur')"
    using f(2,4,5,6) ne by (auto simp: hdr_counts_def)
  ultimately show ?thesis using res by blast
qed

text \<open>
  Past the end of the chain the rest is appended. The packet header of a chain of two
  buffers or more then ends up as the larger of its old value and the offset plus the
  \<^emph>\<open>rest\<close>, which is less than the length of the chain unless the copy started at its end.
\<close>


lemma upd_pktlen_append: "om \<noteq> [] \<Longrightarrow> upd_pktlen f (om @ xs) = upd_pktlen f om @ xs"
  by (cases om) (auto simp: upd_pktlen_Cons)

lemma copyinto_past_end:
  assumes own: "own P B h fl (om @ os)" and ne: "om \<noteq> []" and off: "off \<le> chain_len om"
    and past: "chain_len om < off + len" and src: "len \<le> length src" and small: "len < 65536"
    and room: "off + len - chain_len om \<le> room P fl om"
  shows "\<exists>om' h' fl'. dpl_mbuf_copyinto om (int off) src (int len) h = (MB_OK, om', h') \<and> own P B h' fl' (om' @ os) \<and>
    chain_data om' = take off (chain_data om) @ take len src \<and>
    (DPL_MBUF_IS_PKTHDR (hd om) \<and> 2 \<le> length om \<longrightarrow>
      DPL_MBUF_PKTLEN (hd om') =
        of_int (max (uint (DPL_MBUF_PKTLEN (hd om))) (int off + int (off + len - chain_len om))))"
proof -
  have oks: "\<forall>m \<in> set om. mbuf_ok P m" "\<forall>m \<in> set os. mbuf_ok P m" using own_ok[OF own] by auto
  obtain cur k pre where o: "dpl_mbuf_off om (int off) = Some (cur, k)" "cur \<noteq> []" "k \<le> om_len (hd cur)"
      and pre: "om = pre @ cur" "chain_len pre + k = off"
    using off_ok[OF oks(1) ne off] by auto
  have ok2: "\<forall>m \<in> set cur. mbuf_ok P m" "\<forall>m \<in> set pre. mbuf_ok P m" using oks pre by auto
  let ?r = "off + len - chain_len om"
  let ?n = "chain_len cur - k"
  have rest: "len - ?n = ?r" "min len ?n = ?n" "k + ?n = chain_len cur" using past off pre by auto
  obtain cur' where c: "copyinto_loop cur k src (int len) = (cur', drop ?n src, int ?r)" "list_all2 same_frame cur cur'"
      "\<forall>m \<in> set cur'. mbuf_ok P m"
      "chain_data cur' = take k (chain_data cur) @ take ?n src @ drop (k + len) (chain_data cur)"
    using copyinto_loop_ok[OF ok2(1) o(2,3) src] unfolding rest by blast
  have ne': "cur' \<noteq> []" using list_all2_frame(4)[OF c(2)] o(2) by simp
  have tk: "take (length om - length cur) om = pre" using pre by simp
  have fr: "list_all2 same_frame om (pre @ cur')"
    unfolding pre(1) by (intro list_all2_appendI c(2) list.rel_refl same_frame_refl)
  note f = list_all2_frame[OF fr]
  let ?os = "pre @ butlast cur' @ os"
  have "own P B h fl ((pre @ cur') @ os)"
    using f(1) c(3) ok2(2) oks(2) by (intro own_update[OF own]) auto
  moreover have "mset ((pre @ cur') @ os) = mset ([last cur'] @ ?os)"
  proof -
    have "mset cur' = mset (butlast cur' @ [last cur'])" using ne' by simp
    then show ?thesis by (simp add: add_ac)
  qed
  ultimately have own1: "own P B h fl ([last cur'] @ ?os)" using own_cong by blast
  have "DPL_MBUF_TRAILINGSPACE (last cur') = DPL_MBUF_TRAILINGSPACE (last om)"
    using f(7)[OF ne] ne' same_frame_room by simp
  then have room1: "room P fl [last cur'] = room P fl om" by (simp add: room_def)
  have ls: "?r \<le> length (drop ?n src)" using src past off pre by simp
  obtain tl' h' fl' where a: "dpl_mbuf_append [last cur'] (drop ?n src) ?r h = (MB_OK, tl', h')"
      "own P B h' fl' (tl' @ ?os)" "tl' \<noteq> []"
      "chain_data tl' = chain_data [last cur'] @ take ?r (drop ?n src)"
    using append_ok[OF own1 _ ls] room room1 by (auto simp: min_absorb1)
  have r16: "nat (int ?r mod 65536) = ?r" and r0: "int ?r \<noteq> 0" using small past off by auto
  let ?om1 = "pre @ butlast cur' @ tl'"
  let ?f = "\<lambda>l. of_int (max (uint l) (int off + int ?r)) :: u16"
  have res: "dpl_mbuf_copyinto om (int off) src (int len) h = (MB_OK, upd_pktlen ?f ?om1, h')"
    unfolding dpl_mbuf_copyinto_def o(1) option.case prod.case Let_def tk c(1)
    using r0 r16 a(1) by (simp del: of_nat_diff)
  have own2: "own P B h' fl' (?om1 @ os)"
    using a(2) own_cong[of "tl' @ ?os" "?om1 @ os"] by simp
  have ok1: "\<forall>m \<in> set ?om1. mbuf_ok P m" using own_ok[OF own2] by auto
  note u = upd_pktlen_chain[OF ok1, of ?f]
  have own3: "own P B h' fl' (upd_pktlen ?f ?om1 @ os)"
    using u(2) own_ok[OF own2] by (intro own_update[OF own2]) auto
  have "chain_data ?om1 = chain_data pre @ chain_data cur' @ take ?r (drop ?n src)"
    using a(4) last_chain(1)[OF ne'] by simp
  also have "\<dots> = take off (chain_data om) @ take len src"
  proof -
    have "drop (k + len) (chain_data cur) = []"
      using length_chain_data[OF ok2(1)] past pre by simp
    moreover have "length (chain_data pre) + k = off" using length_chain_data[OF ok2(2)] pre(2) by simp
    moreover have "take len src = take ?n src @ take ?r (drop ?n src)"
      using rest past off pre by (metis take_add le_add_diff_inverse min.cobounded1)
    ultimately show ?thesis
      using c(4) chain_data_split_at(1)[OF pre(1)] by simp
  qed
  finally have cd: "chain_data (upd_pktlen ?f ?om1) = take off (chain_data om) @ take len src" using u(1) by simp
  have "DPL_MBUF_PKTLEN (hd (upd_pktlen ?f ?om1)) = ?f (DPL_MBUF_PKTLEN (hd om))"
    if ph: "DPL_MBUF_IS_PKTHDR (hd om)" and two: "2 \<le> length om"
  proof -
    have hd1: "hd ?om1 = hd (pre @ cur')" and ne1: "?om1 \<noteq> []"
    proof -
      have "length (pre @ cur') \<ge> 2" using f(3) two by simp
      then have "pre @ butlast cur' \<noteq> []" by (cases pre; cases cur') (auto split: if_splits)
      then show "?om1 \<noteq> []" by auto
      have "pre @ cur' = (pre @ butlast cur') @ [last cur']" using ne' by simp
      then show "hd ?om1 = hd (pre @ cur')"
        using \<open>pre @ butlast cur' \<noteq> []\<close> by (metis append_assoc hd_append2)
    qed
    have "DPL_MBUF_IS_PKTHDR (hd ?om1)" "DPL_MBUF_PKTLEN (hd ?om1) = DPL_MBUF_PKTLEN (hd om)"
      using hd1 f(5,6)[OF ne] ph by simp_all
    then show ?thesis
      using ne1 ok1 set_pktlen_data(2)[of P "hd ?om1" ?f] by (cases ?om1) (auto simp: upd_pktlen_Cons)
  qed
  then show ?thesis using res own3 cd by blast
qed

section \<open>Pulling data up\<close>

lemma pullup_loop_ok:
  assumes "own P B h fl (om2 # om @ os)" and "len \<le> DPL_MBUF_TRAILINGSPACE om2"
  shows "\<exists>om2' om' h' fl'. pullup_loop cb om2 om len (DPL_MBUF_TRAILINGSPACE om2) h = Some (om2', om', len - chain_len om, h') \<and>
    own P B h' fl' (om2' # om' @ os) \<and> mbuf_data om2' @ chain_data om' = mbuf_data om2 @ chain_data om \<and>
    om_len om2' = om_len om2 + min len (chain_len om) \<and> (chain_len om < len \<longrightarrow> om' = []) \<and>
    DPL_MBUF_IS_PKTHDR om2' = DPL_MBUF_IS_PKTHDR om2 \<and>
    (DPL_MBUF_IS_PKTHDR om2 \<longrightarrow> DPL_MBUF_PKTLEN om2' = DPL_MBUF_PKTLEN om2)"
  using assms
proof (induction om arbitrary: om2 len h fl)
  case Nil
  then show ?case by auto
next
  case (Cons m ms)
  have oks: "mbuf_ok P om2" "mbuf_ok P m" "\<forall>m \<in> set ms. mbuf_ok P m" "\<forall>m \<in> set os. mbuf_ok P m"
    using own_ok[OF Cons.prems(1)] by auto
  note lm = length_mbuf_data[OF oks(2)]
  let ?sp = "DPL_MBUF_TRAILINGSPACE om2"
  define c where c: "c = min len (om_len m)"
  have cle: "c \<le> len" "c \<le> om_len m" "c \<le> ?sp" "min (min len ?sp) (om_len m) = c"
    unfolding c using Cons.prems(2) by auto
  have rd: "mbuf_read m 0 c = take c (mbuf_data m)" using mbuf_read_data[of 0 c m] cle by simp
  have lrd: "length (mbuf_read m 0 c) = c" using rd lm cle by simp
  define n2 where "n2 = (mbuf_write om2 (om_len om2) (mbuf_read m 0 c))\<lparr>om_len := (om_len om2 + c) mod 65536\<rparr>"
  have n2: "mbuf_ok P n2" "mbuf_data n2 = mbuf_data om2 @ take c (mbuf_data m)" "DPL_MBUF_TRAILINGSPACE n2 = ?sp - c"
    using grow_ok[OF oks(1), of "mbuf_read m 0 c"] lrd cle rd unfolding n2_def by simp_all
  have addr2: "om_addr n2 = om_addr om2" "DPL_MBUF_IS_PKTHDR n2 = DPL_MBUF_IS_PKTHDR om2" by (simp_all add: n2_def)
  have len2: "om_len n2 = om_len om2 + c"
    using arg_cong[OF n2(2), of length] length_mbuf_data[OF n2(1)] length_mbuf_data[OF oks(1)] lm cle by simp
  have pl2: "DPL_MBUF_IS_PKTHDR om2 \<longrightarrow> DPL_MBUF_PKTLEN n2 = DPL_MBUF_PKTLEN om2"
    using same_frame_write[OF oks(1), of "om_len om2" "mbuf_read m 0 c"] by (simp add: n2_def same_frame_def)
  show ?case
  proof (cases "om_len m - c = 0")
    case False
    then have cl: "c = len" "len < om_len m" unfolding c by auto
    let ?m = "m\<lparr>om_len := om_len m - c, om_data := om_data m + c\<rparr>"
    have mo: "mbuf_ok P ?m" using oks(2) cle by (simp add: mbuf_ok_def)
    have md: "mbuf_data ?m = drop c (mbuf_data m)" using mbuf_data_trim_head[OF cle(2)] .
    have "own P B h fl (n2 # (?m # ms) @ os)"
      using n2(1) mo oks addr2 by (intro own_update[OF Cons.prems(1)]) auto
    moreover have "pullup_loop cb om2 (m # ms) len ?sp h = Some (n2, ?m # ms, 0, h)"
      using False cl unfolding pullup_loop.simps Let_def cle(4) n2_def[symmetric] by simp
    ultimately show ?thesis
      using n2 md len2 pl2 addr2 cl by (intro exI[of _ n2] exI[of _ "?m # ms"] exI[of _ h] exI[of _ fl]) simp
  next
    case True
    then have cl: "c = om_len m" "om_len m \<le> len" using cle by auto
    let ?m0 = "m\<lparr>om_len := 0\<rparr>"
    have m0: "mbuf_ok P ?m0" using oks(2) by (simp add: mbuf_ok_def)
    have "own P B h fl (n2 # ?m0 # ms @ os)"
      using n2(1) m0 oks addr2 by (intro own_update[OF Cons.prems(1)]) auto
    then have "own P B h fl (?m0 # n2 # ms @ os)" using own_cong[of "n2 # ?m0 # ms @ os" "?m0 # n2 # ms @ os"] by simp
    then obtain h1 where fr: "dpl_mbuf_free cb ?m0 h = (MEM_OK, h1)" and own1: "own P B h1 (om_addr ?m0 # fl) (n2 # ms @ os)"
      by (rule own_free)
    have dm: "mbuf_data n2 = mbuf_data om2 @ mbuf_data m" using n2(2) cl lm by simp
    have step: "pullup_loop cb om2 (m # ms) len ?sp h =
        (if len - c > 0 \<and> ms \<noteq> [] then pullup_loop cb n2 ms (len - c) (?sp - c) h1 else Some (n2, ms, len - c, h1))"
      using True fr unfolding pullup_loop.simps Let_def cle(4) n2_def[symmetric] by simp
    show ?thesis
    proof (cases "len - c > 0 \<and> ms \<noteq> []")
      case True
      have "len - c \<le> DPL_MBUF_TRAILINGSPACE n2" using Cons.prems(2) n2(3) by simp
      from Cons.IH[OF own1 this] obtain om2' om' h' fl' where
        IH: "pullup_loop cb n2 ms (len - c) (?sp - c) h1 = Some (om2', om', len - c - chain_len ms, h')"
        "own P B h' fl' (om2' # om' @ os)" "mbuf_data om2' @ chain_data om' = mbuf_data n2 @ chain_data ms"
        "om_len om2' = om_len n2 + min (len - c) (chain_len ms)" "chain_len ms < len - c \<longrightarrow> om' = []"
        "DPL_MBUF_IS_PKTHDR om2' = DPL_MBUF_IS_PKTHDR n2" "DPL_MBUF_IS_PKTHDR n2 \<longrightarrow> DPL_MBUF_PKTLEN om2' = DPL_MBUF_PKTLEN n2"
        unfolding n2(3) by auto
      have "om_len om2' = om_len om2 + min len (chain_len (m # ms))" "chain_len (m # ms) < len \<longrightarrow> om' = []"
        using IH(4,5) len2 cl by auto
      moreover have "pullup_loop cb om2 (m # ms) len ?sp h = Some (om2', om', len - chain_len (m # ms), h')"
        using step True IH(1) cl(1) by simp
      moreover have "mbuf_data om2' @ chain_data om' = mbuf_data om2 @ chain_data (m # ms)"
        using IH(3) dm by simp
      moreover have "DPL_MBUF_IS_PKTHDR om2' = DPL_MBUF_IS_PKTHDR om2"
        "DPL_MBUF_IS_PKTHDR om2 \<longrightarrow> DPL_MBUF_PKTLEN om2' = DPL_MBUF_PKTLEN om2"
        using IH(6,7) addr2(2) pl2 by simp_all
      ultimately show ?thesis using IH(2) by blast
    next
      case False
      have e: "len - chain_len (m # ms) = len - c" "min len (chain_len (m # ms)) = c" "chain_len (m # ms) < len \<longrightarrow> ms = []"
        using False cl by auto
      have res: "pullup_loop cb om2 (m # ms) len ?sp h = Some (n2, ms, len - chain_len (m # ms), h1)"
        unfolding e(1) using step False by simp
      have own2: "own P B h1 (om_addr m # fl) (n2 # ms @ os)" using own1 by simp
      have dd: "mbuf_data n2 @ chain_data ms = mbuf_data om2 @ chain_data (m # ms)" using dm by simp
      have ll: "om_len n2 = om_len om2 + min len (chain_len (m # ms))" unfolding e(2) by (rule len2)
      show ?thesis using res own2 dd ll e(3) addr2(2) pl2 by blast
    qed
  qed
qed

lemma pullup_finish_ok:
  assumes own: "own P B h fl (om2 # om @ os)" and "len \<le> DPL_MBUF_TRAILINGSPACE om2"
    and cnt: "DPL_MBUF_IS_PKTHDR om2 \<longrightarrow> hc \<longrightarrow> DPL_MBUF_PKTLEN om2 = of_nat (om_len om2 + chain_len om)"
  shows "\<exists>om' h' fl'. pullup_finish cb om2 om len h = Some (om', h') \<and> own P B h' fl' (om' @ os) \<and>
    (if len \<le> chain_len om
     then om' \<noteq> [] \<and> chain_data om' = mbuf_data om2 @ chain_data om \<and> om_len om2 + len \<le> om_len (hd om') \<and> (hc \<longrightarrow> hdr_counts om')
     else om' = [])"
proof -
  obtain om2' om' h' fl' where l:
    "pullup_loop cb om2 om len (DPL_MBUF_TRAILINGSPACE om2) h = Some (om2', om', len - chain_len om, h')"
    "own P B h' fl' (om2' # om' @ os)" "mbuf_data om2' @ chain_data om' = mbuf_data om2 @ chain_data om"
    "om_len om2' = om_len om2 + min len (chain_len om)" "chain_len om < len \<longrightarrow> om' = []"
    "DPL_MBUF_IS_PKTHDR om2' = DPL_MBUF_IS_PKTHDR om2" "DPL_MBUF_IS_PKTHDR om2 \<longrightarrow> DPL_MBUF_PKTLEN om2' = DPL_MBUF_PKTLEN om2"
    using pullup_loop_ok[OF assms(1,2), of cb] by blast
  show ?thesis
  proof (cases "len \<le> chain_len om")
    case True
    have ok0: "\<forall>m \<in> set (om2 # om). mbuf_ok P m" and ok1: "\<forall>m \<in> set (om2' # om'). mbuf_ok P m"
      using own_ok[OF own] own_ok[OF l(2)] by auto
    have "chain_len (om2' # om') = om_len om2 + chain_len om"
      using arg_cong[OF l(3), of length] length_chain_data[OF ok0] length_chain_data[OF ok1] by simp
    then have "hc \<longrightarrow> hdr_counts (om2' # om')" using l(6,7) cnt by (simp add: hdr_counts_def)
    then show ?thesis
      using True l by (intro exI[of _ "om2' # om'"] exI[of _ h'] exI[of _ fl']) (simp add: pullup_finish_def)
  next
    case False
    then have "om' = []" "0 < len - chain_len om" using l(5) by auto
    moreover obtain h2 where "dpl_mbuf_free cb om2' h' = (MEM_OK, h2)" "own P B h2 (om_addr om2' # fl') os"
      using own_free l(2) \<open>om' = []\<close> by (metis append_Nil)
    ultimately show ?thesis
      using False l(1) by (intro exI[of _ "[]"] exI[of _ h2] exI[of _ "om_addr om2' # fl'"]) (simp add: pullup_finish_def)
  qed
qed

text \<open>
  \<open>dpl_mbuf_pullup\<close> always returns: its loop cannot be entered with too little room. It
  either hands back the same bytes with the wanted ones in the first buffer, or frees
  everything.
\<close>

lemma pullup_ok:
  assumes own: "own P B h fl (om @ os)" and ne: "om \<noteq> []"
  shows "\<exists>om' h' fl'. dpl_mbuf_pullup cb om len h = Some (om', h') \<and> own P B h' fl' (om' @ os) \<and>
    (om' \<noteq> [] \<longrightarrow> chain_data om' = chain_data om \<and> len \<le> om_len (hd om') \<and> (hdr_counts om \<longrightarrow> hdr_counts om')) \<and>
    (len \<le> chain_len om \<and> len \<le> omp_databuf_len P - om_pkthdr_len (hd om) \<and> fl \<noteq> [] \<longrightarrow> om' \<noteq> [])"
proof -
  obtain m ms where om: "om = m # ms" using ne by (cases om) auto
  have oks: "\<forall>m \<in> set om. mbuf_ok P m" "\<forall>m \<in> set os. mbuf_ok P m" using own_ok[OF own] by auto
  then have mok: "mbuf_ok P m" using om by simp
  have hd_om: "hd om = m" and tl_om: "tl om = ms" using om by simp_all
  have omp: "the (om_omp m) = P" using mok by (simp add: mbuf_ok_def)
  have free: "\<exists>h' fl'. snd (dpl_mbuf_free_chain cb om h) = h' \<and> own P B h' fl' os"
    using own_free_chain[OF own, of cb] by fastforce
  consider (enough) "len \<le> om_len m"
    | (room) "om_len m < len" "len \<le> om_len m + DPL_MBUF_TRAILINGSPACE m" "ms \<noteq> []"
    | (big) "om_len m < len" "\<not> (len \<le> om_len m + DPL_MBUF_TRAILINGSPACE m \<and> ms \<noteq> [])"
        "int len > int (omp_databuf_len P) - int (om_pkthdr_len m)"
    | (alloc) "om_len m < len" "\<not> (len \<le> om_len m + DPL_MBUF_TRAILINGSPACE m \<and> ms \<noteq> [])"
        "\<not> int len > int (omp_databuf_len P) - int (om_pkthdr_len m)"
    by linarith
  then show ?thesis
  proof cases
    case enough
    then have "dpl_mbuf_pullup cb om len h = Some (om, h)" using om by (simp add: dpl_mbuf_pullup_def Let_def)
    then show ?thesis using own enough om ne by (intro exI[of _ om] exI[of _ h] exI[of _ fl]) simp
  next
    case room
    have res: "dpl_mbuf_pullup cb om len h = pullup_finish cb m ms (len - om_len m) h"
      using room om by (simp add: dpl_mbuf_pullup_def Let_def)
    have own1: "own P B h fl (m # ms @ os)" using own om by simp
    have tr: "len - om_len m \<le> DPL_MBUF_TRAILINGSPACE m" using room by simp
    have "DPL_MBUF_IS_PKTHDR m \<longrightarrow> hdr_counts om \<longrightarrow> DPL_MBUF_PKTLEN m = of_nat (om_len m + chain_len ms)"
      using om by (simp add: hdr_counts_def)
    from pullup_finish_ok[OF own1 tr this, of cb] show ?thesis
      unfolding res using om room by (auto split: if_splits)
  next
    case big
    then have "dpl_mbuf_pullup cb om len h = Some ([], snd (dpl_mbuf_free_chain cb om h))"
      using om omp by (auto simp: dpl_mbuf_pullup_def Let_def)
    moreover have "\<not> len \<le> omp_databuf_len P - om_pkthdr_len m" using big by linarith
    ultimately show ?thesis using free om by auto
  next
    case alloc
    have res: "dpl_mbuf_pullup cb om len h = (case dpl_mbuf_get P 0 h of
        (None, h') \<Rightarrow> Some ([], snd (dpl_mbuf_free_chain cb om h'))
      | (Some om2, h') \<Rightarrow> pullup_finish cb (if DPL_MBUF_IS_PKTHDR m then copypkthdr om2 m else om2) om len h')"
      using alloc unfolding dpl_mbuf_pullup_def Let_def omp hd_om tl_om by auto
    show ?thesis
    proof (cases fl)
      case Nil
      then have "dpl_mbuf_get P 0 h = (None, h)" using own_get_none own by simp
      then show ?thesis using free res Nil by auto
    next
      case (Cons b fl1)
      obtain new h1 where get: "dpl_mbuf_get P 0 h = (Some new, h1)" and own1: "own P B h1 fl1 (new # om @ os)"
        and new: "mbuf_ok P new" "om_data new = 0" "om_len new = 0" "om_pkthdr_len new = 0"
        by (rule own_get[OF own[unfolded Cons], of 0]) auto
      define n2 where "n2 = (if DPL_MBUF_IS_PKTHDR m then copypkthdr new m else new)"
      have n2: "mbuf_ok P n2 \<and> om_len n2 = 0 \<and> om_addr n2 = om_addr new \<and> om_data n2 = hdr_len m \<and>
          (DPL_MBUF_IS_PKTHDR n2 \<longrightarrow> DPL_MBUF_IS_PKTHDR m \<and> DPL_MBUF_PKTLEN n2 = DPL_MBUF_PKTLEN m)"
      proof (cases "DPL_MBUF_IS_PKTHDR m")
        case True
        then show ?thesis using copypkthdr_ok[OF new(1,3) mok True] by (simp add: n2_def)
      next
        case False
        then show ?thesis using new by (simp add: n2_def hdr_len_def DPL_MBUF_IS_PKTHDR_def sizeof_pkthdr_def)
      qed
      have own2: "own P B h1 fl1 (n2 # om @ os)"
        using n2 own_ok[OF own1] by (intro own_update[OF own1]) auto
      have "hdr_len m \<le> om_pkthdr_len m" by (simp add: hdr_len_def)
      moreover have "mbuf_ok P n2" "om_data n2 = hdr_len m" "om_len n2 = 0" using n2 by auto
      ultimately have tr: "len \<le> DPL_MBUF_TRAILINGSPACE n2"
        using trailingspace_ok[of P n2] alloc(3) by (simp add: mbuf_ok_def)
      have "DPL_MBUF_IS_PKTHDR n2 \<longrightarrow> hdr_counts om \<longrightarrow> DPL_MBUF_PKTLEN n2 = of_nat (om_len n2 + chain_len om)"
        using om n2 by (simp add: hdr_counts_def)
      note fin = pullup_finish_ok[OF own2 tr this, of cb]
      have z: "mbuf_data n2 = []" "om_len n2 = 0" using n2 mbuf_data_nil[of n2] by auto
      have "\<exists>om' h' fl'. pullup_finish cb n2 om len h1 = Some (om', h') \<and>
          own P B h' fl' (om' @ os) \<and> (if len \<le> chain_len om
          then om' \<noteq> [] \<and> chain_data om' = chain_data om \<and> len \<le> om_len (hd om') \<and> (hdr_counts om \<longrightarrow> hdr_counts om') else om' = [])"
        using fin unfolding z append_Nil add_0 .
      then show ?thesis
        unfolding res get by (auto simp: n2_def split: if_splits)
    qed
  qed
qed

section \<open>Dropping empty buffers in front\<close>

lemma trim_empty_ok:
  assumes "own P B h fl (oms @ os)"
  shows "\<exists>oms' h' fl'. trim_empty cb oms h = (oms', h') \<and> own P B h' fl' (oms' @ os) \<and>
    chain_data oms' = chain_data oms \<and> chain_len oms' = chain_len oms \<and> (oms' \<noteq> [] \<longrightarrow> om_len (hd oms') \<noteq> 0)"
  using assms
proof (induction oms arbitrary: h fl)
  case Nil
  then show ?case by auto
next
  case (Cons m ms)
  show ?case
  proof (cases "om_len m = 0")
    case True
    have "own P B h fl (m # ms @ os)" using Cons.prems by simp
    then obtain h1 where "dpl_mbuf_free cb m h = (MEM_OK, h1)" "own P B h1 (om_addr m # fl) (ms @ os)"
      by (rule own_free)
    then show ?thesis using Cons.IH True by (simp add: mbuf_data_nil)
  next
    case False
    then show ?thesis
      using Cons.prems by (intro exI[of _ "m # ms"] exI[of _ h] exI[of _ fl]) simp
  qed
qed

lemma take_header_ok:
  assumes "mbuf_ok P cur" and "mbuf_ok P m" and "om_pkthdr_len m \<le> DPL_MBUF_LEADINGSPACE cur"
    and "cur' = cur\<lparr>om_pkthdr_len := om_pkthdr_len m,
                  om_databuf := write_at (om_databuf cur) 0 (take (om_pkthdr_len m) (om_databuf m))\<rparr>"
  shows "mbuf_ok P cur'" and "mbuf_data cur' = mbuf_data cur" and "om_len cur' = om_len cur"
    and "DPL_MBUF_IS_PKTHDR cur' = DPL_MBUF_IS_PKTHDR m"
    and "DPL_MBUF_IS_PKTHDR m \<Longrightarrow> DPL_MBUF_PKTLEN cur' = DPL_MBUF_PKTLEN m"
proof -
  have pk: "om_pkthdr_len m \<le> om_data cur" using assms(1,3) leadingspace_ok by fastforce
  have bd: "om_data cur + om_len cur \<le> length (om_databuf cur)" "length (om_databuf m) = length (om_databuf cur)"
    "om_pkthdr_len m \<le> length (om_databuf m)"
    using assms(1,2) pk by (auto simp: mbuf_ok_def)
  show ip: "DPL_MBUF_IS_PKTHDR cur' = DPL_MBUF_IS_PKTHDR m" and "om_len cur' = om_len cur"
    by (simp_all add: assms(4) DPL_MBUF_IS_PKTHDR_def)
  show "mbuf_ok P cur'"
    using assms(1,2) pk by (simp add: mbuf_ok_def assms(4) hdr_len_def)
  show "mbuf_data cur' = mbuf_data cur"
    using pk bd by (simp add: assms(4) mbuf_data_def mbuf_read_def read_at_write_at_other)
  show "DPL_MBUF_PKTLEN cur' = DPL_MBUF_PKTLEN m" if "DPL_MBUF_IS_PKTHDR m"
    using that bd unfolding DPL_MBUF_PKTLEN_def assms(4) DPL_MBUF_IS_PKTHDR_def sizeof_pkthdr_def
    by (simp add: le16.get_write_at_same le16.get_take)
qed

lemma trim_front_ok:
  assumes own: "own P B h fl (om @ os)" and ne: "om \<noteq> []"
  shows "\<exists>om' h' fl'. dpl_mbuf_trim_front cb om h = (om', h') \<and> own P B h' fl' (om' @ os) \<and> om' \<noteq> [] \<and>
    chain_data om' = chain_data om \<and> (hdr_counts om \<longrightarrow> hdr_counts om')"
proof -
  obtain m ms where om: "om = m # ms" using ne by (cases om) auto
  show ?thesis
  proof (cases "om_len m = 0")
    case False
    then show ?thesis using own om
      by (intro exI[of _ om] exI[of _ h] exI[of _ fl]) (simp add: dpl_mbuf_trim_front_def Let_def)
  next
    case True
    have mok: "mbuf_ok P m" using own_ok[OF own] om by simp
    have own1: "own P B h fl (ms @ m # os)" using own own_cong[of "om @ os" "ms @ m # os"] om by simp
    obtain ms' h1 fl1 where t: "trim_empty cb ms h = (ms', h1)" "own P B h1 fl1 (ms' @ m # os)"
      "chain_data ms' = chain_data ms" "chain_len ms' = chain_len ms" "ms' \<noteq> [] \<longrightarrow> om_len (hd ms') \<noteq> 0"
      using trim_empty_ok[OF own1, of cb] by blast
    have own2: "own P B h1 fl1 ((m # ms') @ os)" using t(2) own_cong[of "ms' @ m # os" "(m # ms') @ os"] by simp
    have keep: "chain_data (m # ms') = chain_data om \<and> (hdr_counts om \<longrightarrow> hdr_counts (m # ms'))"
      using t(3,4) om by (simp add: hdr_counts_def)
    show ?thesis
    proof (cases ms')
      case Nil
      then have "dpl_mbuf_trim_front cb om h = ([m], h1)" using True t(1) om by (simp add: dpl_mbuf_trim_front_def)
      then show ?thesis using own2 keep Nil by auto
    next
      case (Cons cur cs)
      have cok: "mbuf_ok P cur" using own_ok[OF t(2)] Cons by simp
      show ?thesis
      proof (cases "om_pkthdr_len m \<le> DPL_MBUF_LEADINGSPACE cur")
        case False
        then have "dpl_mbuf_trim_front cb om h = (m # cur # cs, h1)"
          using True t(1) om Cons by (simp add: dpl_mbuf_trim_front_def)
        then show ?thesis using own2 keep Cons by auto
      next
        case fits: True
        define cur' where "cur' = cur\<lparr>om_pkthdr_len := om_pkthdr_len m,
                  om_databuf := write_at (om_databuf cur) 0 (take (om_pkthdr_len m) (om_databuf m))\<rparr>"
        note c = take_header_ok[OF cok mok fits cur'_def]
        have "own P B h1 fl1 (m # (cur' # cs) @ os)"
          using c(1) own_ok[OF own2] Cons by (intro own_update[OF own2]) (auto simp: cur'_def)
        then obtain h2 where f: "dpl_mbuf_free cb m h1 = (MEM_OK, h2)" "own P B h2 (om_addr m # fl1) ((cur' # cs) @ os)"
          by (rule own_free)
        have "dpl_mbuf_trim_front cb om h = (cur' # cs, h2)"
          using True t(1) om Cons fits f(1) by (simp add: dpl_mbuf_trim_front_def cur'_def)
        moreover have "chain_data (cur' # cs) = chain_data om" using c(2) t(3) Cons om True by (simp add: mbuf_data_nil)
        moreover have "hdr_counts om \<longrightarrow> hdr_counts (cur' # cs)"
          using c(3-5) t(4) Cons om True by (auto simp: hdr_counts_def)
        ultimately show ?thesis using f(2) by blast
      qed
    qed
  qed
qed

section \<open>The registry of pools\<close>

text \<open>A request is served by the first registered pool whose buffers are large enough.\<close>

lemma find_pool_first:
  assumes "\<exists>p \<in> set pools. dsize \<le> omp_databuf_len p"
  shows "\<exists>pre p post. pools = pre @ p # post \<and> dpl_msys_find_pool pools dsize = Some p \<and>
    dsize \<le> omp_databuf_len p \<and> (\<forall>q \<in> set pre. omp_databuf_len q < dsize)"
  using assms
proof (induction pools)
  case (Cons p ps)
  show ?case
  proof (cases "dsize \<le> omp_databuf_len p")
    case True
    then show ?thesis by (intro exI[of _ "[]"] exI[of _ p] exI[of _ ps]) (simp add: dpl_msys_find_pool_def)
  next
    case False
    then obtain pre q post where "ps = pre @ q # post" "dpl_msys_find_pool ps dsize = Some q" "dsize \<le> omp_databuf_len q"
        "\<forall>q \<in> set pre. omp_databuf_len q < dsize"
      using Cons by auto
    then show ?thesis
      using False by (intro exI[of _ "p # pre"] exI[of _ q] exI[of _ post]) (auto simp: dpl_msys_find_pool_def split: option.splits)
  qed
qed simp

lemma msys_register_set: "set (dpl_msys_register pools p) = insert p (set pools)"
  by (induction pools p rule: dpl_msys_register.induct) auto

text \<open>On a registry in ascending order the first fit is the best fit.\<close>

lemma find_pool_best:
  assumes "sorted (map omp_databuf_len pools)" and "q \<in> set pools" and "dsize \<le> omp_databuf_len q"
    and "dpl_msys_find_pool pools dsize = Some p"
  shows "omp_databuf_len p \<le> omp_databuf_len q"
proof -
  obtain pre p' post where f: "pools = pre @ p' # post" "dpl_msys_find_pool pools dsize = Some p'"
      "\<forall>q \<in> set pre. omp_databuf_len q < dsize"
    using find_pool_first assms(2,3) by blast
  then have "p = p'" using assms(4) by simp
  have "q \<in> set pre \<or> q = p' \<or> q \<in> set post" using assms(2) f(1) by auto
  then show ?thesis
    using f assms(1,3) \<open>p = p'\<close> by (auto simp: sorted_append)
qed

end
