(* ===== verification/Slots.thy ===== *)
theory Slots
  imports Prelude
begin

text \<open>
  Slot masks: lib/uwb_rng/src/slots.c. The C loops over a 32-bit mask are functions
  with their loop variables as arguments; a failed \<open>assert\<close> and a shift by the full
  width of the word, which C leaves undefined, are \<open>None\<close>.
\<close>

unbundle bit_operations_syntax

section \<open>The code\<close>

datatype slot_mode_t = SLOT_REMAINING | SLOT_POSITION

lemma unat_clear_lowest_less: "(n :: u32) \<noteq> 0 \<Longrightarrow> unat (n AND (n - 1)) < unat n"
proof -
  assume "n \<noteq> 0"
  then have "n - 1 < n" by (simp add: word_less_nat_alt unat_minus_one unat_gt_0)
  moreover have "n AND (n - 1) \<le> n - 1" by (simp add: word_and_le1)
  ultimately show ?thesis by (simp add: word_less_nat_alt[symmetric])
qed

function NumberOfBits_loop :: "u32 \<Rightarrow> u32 \<Rightarrow> u32" where
  "NumberOfBits_loop n count = (if n \<noteq> 0 then NumberOfBits_loop (n AND (n - 1)) (count + 1) else count)"
  by pat_completeness auto
termination
  by (relation "measure (\<lambda>(n, count). unat n)") (auto simp: unat_clear_lowest_less)

declare NumberOfBits_loop.simps [simp del]

definition NumberOfBits :: "u32 \<Rightarrow> u32" where
  "NumberOfBits n = NumberOfBits_loop n 0"

text \<open>\<open>assert(n && !(n & (n-1)))\<close>.\<close>

definition single_bit :: "u32 \<Rightarrow> bool" where
  "single_bit n \<longleftrightarrow> n \<noteq> 0 \<and> n AND (n - 1) = 0"

function BitPosition_loop :: "u32 \<Rightarrow> u32 \<Rightarrow> u32" where
  "BitPosition_loop n count = (if n \<noteq> 0 then BitPosition_loop (drop_bit 1 n) (count + 1) else count)"
  by pat_completeness auto
termination
  by (relation "measure (\<lambda>(n, count). unat n)") (use unat_half_less in auto)

declare BitPosition_loop.simps [simp del]

definition BitPosition :: "u32 \<Rightarrow> u32 option" where
  "BitPosition n = (if single_bit n then Some (BitPosition_loop n 0) else None)"

text \<open>A C shift of a 32-bit word: defined for counts below 32 only.\<close>

definition shr32 :: "u32 \<Rightarrow> u32 \<Rightarrow> u32 option" where
  "shr32 x k = (if k < 32 then Some (drop_bit (unat k) x) else None)"

definition shl32 :: "u32 \<Rightarrow> u32 \<Rightarrow> u32 option" where
  "shl32 x k = (if k < 32 then Some (push_bit (unat k) x) else None)"

definition BitIndex :: "u32 \<Rightarrow> u32 \<Rightarrow> slot_mode_t \<Rightarrow> u32 option" where
  "BitIndex nslots_mask n mode =
     (if \<not> single_bit n \<or> n AND nslots_mask = 0 then None else
      case BitPosition n of None \<Rightarrow> None | Some idx \<Rightarrow>
      (case shr32 (NOT 0) (32 - idx) of None \<Rightarrow> None | Some slot_mask \<Rightarrow>
      (case shl32 (NOT 0) idx of None \<Rightarrow> None | Some remaining_mask \<Rightarrow>
        Some (if mode = SLOT_POSITION
              then NumberOfBits (nslots_mask AND slot_mask) - 1
              else NumberOfBits (nslots_mask AND remaining_mask) - 1))))"

section \<open>Counting bits\<close>

text \<open>The specification: the number of set bits, as the size of the set of their positions.\<close>

definition bits_of :: "u32 \<Rightarrow> nat set" where
  "bits_of n = {i. bit n i}"

lemma finite_bits_of [simp]: "finite (bits_of n)"
  by (rule finite_subset[of _ "{..<32}"]) (auto simp: bits_of_def dest: bit_imp_le_length)

lemma bits_of_less: "i \<in> bits_of n \<Longrightarrow> i < 32"
  by (auto simp: bits_of_def dest: bit_imp_le_length)

lemma card_bits_of_le: "card (bits_of n) \<le> 32"
  using card_mono[of "{..<32}" "bits_of n"] by (auto dest: bits_of_less)

lemma bits_of_eq_empty: "bits_of n = {} \<longleftrightarrow> n = 0"
proof
  assume "bits_of n = {}"
  then show "n = 0" by (intro bit_word_eqI) (auto simp: bits_of_def)
qed (simp add: bits_of_def)

text \<open>\<open>n & (n-1)\<close> clears the lowest set bit; on naturals, by the two cases of the last digit.\<close>

fun popcount :: "nat \<Rightarrow> nat" where
  "popcount n = (if n = 0 then 0 else n mod 2 + popcount (n div 2))"

declare popcount.simps [simp del]

lemma popcount_0 [simp]: "popcount 0 = 0"
  by (simp add: popcount.simps)

lemma popcount_double [simp]: "popcount (2 * n) = popcount n"
  by (cases "n = 0") (simp, subst popcount.simps, simp)

lemma popcount_double_Suc [simp]: "popcount (Suc (2 * n)) = Suc (popcount n)"
  by (subst popcount.simps) simp

lemma and_pred_even: "0 < m \<Longrightarrow> and (2 * m) (2 * m - 1) = 2 * and m (m - 1 :: nat)"
proof -
  assume "0 < m"
  then have "2 * m - 1 = Suc (2 * (m - 1))" by simp
  then show ?thesis by (simp add: and_rec[of "2 * m"])
qed

lemma and_pred_odd: "and (Suc (2 * m)) (2 * m) = (2 * m :: nat)"
  by (simp add: and_rec[of "Suc (2 * m)"])

lemma popcount_clear_lowest: "0 < n \<Longrightarrow> popcount n = Suc (popcount (and n (n - 1)))"
proof (induction n rule: less_induct)
  case (less n)
  show ?case
  proof (cases "even n")
    case True
    then obtain m where m: "n = 2 * m" by (auto elim: evenE)
    with less.prems have "0 < m" "m < n" by auto
    then show ?thesis using less.IH[of m] m and_pred_even[of m] by simp
  next
    case False
    then obtain m where m: "n = Suc (2 * m)" by (auto elim: oddE)
    show ?thesis by (simp add: m and_pred_odd)
  qed
qed

lemma card_bit_nat: "card {i. bit (n :: nat) i} = popcount n \<and> finite {i. bit n i}"
proof (induction n rule: less_induct)
  case (less n)
  show ?case
  proof (cases "n = 0")
    case True
    then show ?thesis by simp
  next
    case False
    let ?S = "{i. bit (n div 2) i}"
    have split: "{i. bit n i} = (if odd n then {0} else {}) \<union> Suc ` ?S"
    proof (rule set_eqI)
      fix i
      show "i \<in> {i. bit n i} \<longleftrightarrow> i \<in> (if odd n then {0} else {}) \<union> Suc ` ?S"
        by (cases i) (auto simp: bit_0 bit_Suc)
    qed
    have IH: "card ?S = popcount (n div 2)" "finite ?S"
      using less[of "n div 2"] False by auto
    have "card (Suc ` ?S) = popcount (n div 2)"
      using IH by (simp add: card_image)
    moreover have "popcount n = n mod 2 + popcount (n div 2)"
      using False by (subst popcount.simps) simp
    ultimately show ?thesis
      using IH(2) split by (auto simp: card_insert_if odd_iff_mod_2_eq_one)
  qed
qed

lemma card_bits_of: "card (bits_of n) = popcount (unat n)"
proof -
  have "bits_of n = {i. bit (unat n) i}"
    by (auto simp: bits_of_def bit_unsigned_iff dest: bit_imp_le_length)
  then show ?thesis using card_bit_nat[of "unat n"] by simp
qed

lemma NumberOfBits_loop_card: "NumberOfBits_loop n count = count + of_nat (card (bits_of n))"
proof (induction n count rule: NumberOfBits_loop.induct)
  case (1 n count)
  show ?case
  proof (cases "n = 0")
    case True
    then show ?thesis by (subst NumberOfBits_loop.simps) (simp add: card_bits_of)
  next
    case False
    then have "popcount (unat n) = Suc (popcount (unat (n AND (n - 1))))"
      by (simp add: popcount_clear_lowest unat_gt_0 unsigned_and_eq unat_minus_one)
    then show ?thesis
      using 1 False by (subst NumberOfBits_loop.simps) (simp add: card_bits_of algebra_simps)
  qed
qed

lemma NumberOfBits_card: "NumberOfBits n = of_nat (card (bits_of n))"
  by (simp add: NumberOfBits_def NumberOfBits_loop_card)

lemma single_bit_iff: "single_bit n \<longleftrightarrow> card (bits_of n) = 1"
proof (cases "n = 0")
  case True
  then show ?thesis by (simp add: single_bit_def card_bits_of)
next
  case False
  then have "card (bits_of n) = Suc (card (bits_of (n AND (n - 1))))"
    by (simp add: card_bits_of popcount_clear_lowest unat_gt_0 unsigned_and_eq unat_minus_one)
  moreover have "card (bits_of (n AND (n - 1))) = 0 \<longleftrightarrow> n AND (n - 1) = 0"
    using bits_of_eq_empty[of "n AND (n - 1)"] by simp
  ultimately show ?thesis using False by (simp add: single_bit_def)
qed

lemma bits_of_exp: "p < 32 \<Longrightarrow> bits_of (2 ^ p) = {p}"
  by (auto simp: bits_of_def bit_simps)

lemma single_bit_obtains:
  assumes "single_bit n"
  obtains p where "p < 32" "n = 2 ^ p"
proof -
  from assms obtain p where p: "bits_of n = {p}"
    by (auto simp: single_bit_iff card_1_singleton_iff)
  then have "p < 32" using bits_of_less by auto
  moreover have "n = 2 ^ p"
    using p \<open>p < 32\<close> by (auto simp: bit_eq_iff bits_of_def bit_simps)
  ultimately show thesis by (rule that)
qed

lemma single_bit_exp: "p < 32 \<Longrightarrow> single_bit (2 ^ p)"
  by (simp add: single_bit_iff bits_of_exp)

lemma drop_bit_exp_1: "0 < p \<Longrightarrow> drop_bit 1 (2 ^ p :: u32) = (if p < 32 then 2 ^ (p - 1) else 0)"
  by (rule bit_word_eqI) (auto simp: bit_simps)

lemma BitPosition_loop_exp:
  "p < 32 \<Longrightarrow> BitPosition_loop (2 ^ p) count = count + of_nat p + 1"
proof (induction p arbitrary: count)
  case 0
  then show ?case
    by (subst BitPosition_loop.simps, simp, subst BitPosition_loop.simps, simp)
next
  case (Suc p)
  have "(2 ^ Suc p :: u32) \<noteq> 0"
    using single_bit_exp[of "Suc p"] Suc.prems by (simp add: single_bit_def)
  moreover have "drop_bit 1 (2 ^ Suc p :: u32) = 2 ^ p"
    using Suc.prems drop_bit_exp_1[of "Suc p"] by simp
  ultimately show ?case
    using Suc by (subst BitPosition_loop.simps) (simp add: add.assoc add.commute)
qed

lemma BitPosition_exp: "p < 32 \<Longrightarrow> BitPosition (2 ^ p) = Some (of_nat p + 1)"
  by (simp add: BitPosition_def single_bit_exp BitPosition_loop_exp)

section \<open>The index of a slot in a mask\<close>

lemma unat_rest: "p < 31 \<Longrightarrow> unat (32 - (of_nat p + 1 :: u32)) = 31 - p"
  by (simp add: unat_sub word_le_nat_alt unat_word_ariths unat_of_nat)

lemma low_mask_bits:
  assumes "p < 31"
  shows "bits_of (m AND drop_bit (unat (32 - (of_nat p + 1 :: u32))) (NOT 0)) = {i \<in> bits_of m. i \<le> p}"
  unfolding unat_rest[OF assms] using assms by (auto simp: bits_of_def bit_simps dest: bit_imp_le_length)

lemma high_mask_bits:
  assumes "p < 31"
  shows "bits_of (m AND push_bit (unat (of_nat p + 1 :: u32)) (NOT 0)) = {i \<in> bits_of m. p < i}"
proof -
  have "unat (of_nat p + 1 :: u32) = p + 1"
    using assms by (simp add: unat_word_ariths unat_of_nat)
  then show ?thesis by (auto simp: bits_of_def bit_simps dest: bit_imp_le_length)
qed

lemma BitIndex_eq:
  assumes "p < 31" and "bit m p"
  shows "BitIndex m (2 ^ p) mode =
    Some (of_nat (card {i \<in> bits_of m. if mode = SLOT_POSITION then i \<le> p else p < i}) - 1)"
proof -
  have nz: "2 ^ p AND m \<noteq> 0"
  proof
    assume "2 ^ p AND m = 0"
    then have "\<not> bit (2 ^ p AND m) p" by simp
    then show False using assms by (simp add: bit_simps)
  qed
  have "unat (of_nat p + 1 :: u32) = p + 1"
    using assms(1) by (simp add: unat_word_ariths unat_of_nat)
  then have "(of_nat p + 1 :: u32) < 32" by (simp add: word_less_nat_alt assms(1))
  moreover have "32 - (of_nat p + 1 :: u32) < 32"
    unfolding word_less_nat_alt unat_rest[OF assms(1)] by simp
  ultimately show ?thesis
    using assms nz low_mask_bits[of p m] high_mask_bits[of p m]
    by (simp add: BitIndex_def single_bit_exp BitPosition_exp shr32_def shl32_def NumberOfBits_card)
qed

text \<open>The position of a slot is the number of slots of the mask below it.\<close>

lemma BitIndex_position:
  assumes "p < 31" and "bit m p"
  shows "BitIndex m (2 ^ p) SLOT_POSITION = Some (of_nat (card {i. i < p \<and> bit m i}))"
proof -
  have "{i \<in> bits_of m. i \<le> p} = insert p {i. i < p \<and> bit m i}"
    using assms(2) by (auto simp: bits_of_def)
  then have "card {i \<in> bits_of m. i \<le> p} = Suc (card {i. i < p \<and> bit m i})"
    by simp
  then show ?thesis using assms by (simp add: BitIndex_eq)
qed

lemma BitIndex_top_bit: "BitIndex m 0x80000000 mode = None"
proof -
  have top: "(0x80000000 :: u32) = 2 ^ 31" by simp
  have pos: "BitPosition (2 ^ 31) = Some 32"
    by (simp only: BitPosition_exp) simp
  show ?thesis unfolding top BitIndex_def pos by (auto simp: shl32_def split: option.splits)
qed

end
