(* ===== verification/Samples.thy ===== *)
theory Samples
  imports Twr_Protocol Dpl_Mbuf_Pullup Slots
begin

text \<open>
  Concrete devices, ranging instances, pools and chains: the points at which the
  properties are applied to show that their hypotheses can hold. Nothing here models
  code.
\<close>

unbundle bit_operations_syntax

section \<open>A ranging device\<close>

definition sample_status :: uwb_dev_status where
  "sample_status = \<lparr>st_start_tx_error = False, st_start_rx_error = False, st_tx_frame_error = False, st_txbuf_error
     = False, st_rx_error = False, st_rx_timeout_error = False, st_rx_autoframefilt_rej = False,
     st_rx_prej = False, st_lde_error = False, st_spi_error = False, st_autoack_triggered = False,
     st_sleep_enabled = False, st_sleeping = False, st_sem_force_released = False, st_overrun_error
     = False, st_rx_restarted = False, st_cmd_error = False, st_aes_error = False, st_sem_error =
     False, st_mtx_error = False, st_sts_pream_error = False, st_sts_ts_error = False\<rparr>"

definition sample_config :: uwb_dev_config where
  "sample_config = \<lparr>config_channel = 5, config_dataRate = 0, config_prf = 0,
     config_rx = \<lparr>rx_pacLength = 0, rx_preambleCodeIndex = 0, rx_sfdType = 0, rx_phrMode = 0, rx_phrRate = 0,
       rx_sfdTimeout = 0, rx_stsMode = 0, rx_stsLength = 0, rx_pdoaMode = 0, rx_timeToRxStable = 6,
       rx_frameFilter = 0, rx_xtalTrim = 0\<rparr>, config_dblbuffon_enabled = False,
       config_rxdiag_enable = False, config_rxttcko_enable = False, config_rxauto_enable = False\<rparr>"

definition sample_dev :: "u16 \<Rightarrow> uwb_dev" where
  "sample_dev address = \<lparr>dev_role = 0, dev_my_short_address = address, dev_euid = 0, dev_pan_id = 0xDECA,
     dev_slot_id = 0, dev_cell_id = 0, dev_tx_antenna_delay = 0, dev_rx_ant_separation = 0,
     dev_cap_sts = False, dev_cap_single_receiver_pdoa = False, dev_irq_sem = 1, dev_abs_timeout = 0,
     dev_fctrl = 0, dev_frame_len = 0, dev_rxtimestamp = 0, dev_carrier_integrator = 0, dev_rxttcko = 0, dev_rxdiag = [],
     dev_rxbuf = replicate 256 0, dev_status = sample_status, dev_config = sample_config, dev_cmds = []\<rparr>"

definition sample_uf :: uwb_driver_funcs where
  "sample_uf = \<lparr>uf_status = (\<lambda>_. sample_status), uf_read_systime = (\<lambda>_. 0x1000), uf_read_systime_lo32 = (\<lambda>_. 0), uf_read_txtime = (\<lambda>_. 0x2000),
     uf_read_txtime_lo32 = (\<lambda>_. 0x2000), uf_phy_frame_duration = (\<lambda>n. 200 + n), uf_phy_SHR_duration = 140,
     uf_phy_data_duration = (\<lambda>n. n), uf_calc_rssi = (\<lambda>_. 0), uf_calc_seq_rssi = (\<lambda>_ _. 0),
     uf_calc_fppl = (\<lambda>_. 0), uf_calc_pdoa = (\<lambda>_. 0), uf_calc_clock_offset_ratio = (\<lambda>_ _. 0)\<rparr>"

definition sample_fl :: rng_floats where
  "sample_fl = \<lparr>f64_nan = 0x7FF8000000000000, f64_isnan = (\<lambda>x. x = 0x7FF8000000000000), f64_of_u64 = id,
     f64_of_i64 = id, f64_mul = (*), f64_sub = (-), f64_div = (div), f64_init = (\<lambda>_. 0), f64_of_i32 = ucast,
     f32_nan = 0x7FC00000, f32_isnan = (\<lambda>x. x = 0x7FC00000), f32_init = (\<lambda>_. 0), f32_two_pi = 6,
     f32_mul = (*), f32_div = (div), f64_of_f32 = ucast, f32_of_f64 = ucast, f64_asin = id,
     LOCAL_COORDINATE_X = 0, LOCAL_COORDINATE_Y = 0, LOCAL_COORDINATE_Z = 0, RANGE_VARIANCE = 0,
     AZIMUTH_VARIANCE = 0\<rparr>"

definition sample_build :: rng_build where
  "sample_build = \<lparr>b_fl = sample_fl, b_uf = sample_uf, b_wcs = None, b_rng = zero_config, b_ss = zero_config,
     b_ss_ext = zero_config, b_ss_ack = zero_config, b_ss_ack_holdoff = 0, b_ds = zero_config,
     b_ds_ext = zero_config\<rparr>"

definition sample_frame :: twr_frame_t where
  "sample_frame = \<lparr>twr_array = replicate 136 0, twr_local = replicate 104 0\<rparr>"

text \<open>A device with two frames, its exchange semaphore holding \<open>sem\<close> tokens.\<close>

definition sample_rng :: "nat \<Rightarrow> uwb_rng_instance" where
  "sample_rng sem = (calloc_rng 2)\<lparr>rng_sem := sem, rng_frames := [sample_frame, sample_frame]\<rparr>"

definition sample_state :: "u16 \<Rightarrow> nat \<Rightarrow> rng_state" where
  "sample_state address sem = \<lparr>rs_dev = sample_dev address, rs_rng = sample_rng sem,
     rs_twr_stat = (\<lambda>_. 0), rs_assert_failed = False\<rparr>"

lemma sample_state_ok: "sem \<le> 1 \<Longrightarrow> rng_ok (sample_state address sem)"
  by (simp add: rng_ok_def sample_state_def sample_rng_def calloc_rng_def frame_ok_def sample_frame_def)

lemma sample_state_simps [simp]:
  "rng_sem (rs_rng (sample_state address sem)) = sem" "rng_nframes (rs_rng (sample_state address sem)) = 2"
  "dev_irq_sem (rs_dev (sample_state address sem)) = 1"
  "dev_my_short_address (rs_dev (sample_state address sem)) = address"
  "rng_configs (rs_rng (sample_state address sem)) = []" "rng_idx (rs_rng (sample_state address sem)) = 0"
  "rng_code (rs_rng (sample_state address sem)) = 0"
  by (simp_all add: sample_state_def sample_rng_def sample_dev_def calloc_rng_def)

lemma sample_build_simps [simp]:
  "b_uf sample_build = sample_uf" "b_fl sample_build = sample_fl" "b_wcs sample_build = None"
  "b_rng sample_build = zero_config"
  by (simp_all add: sample_build_def)

lemma sample_driver_ok: "driver_ok sample_uf"
  by (simp add: driver_ok_def sample_uf_def sample_status_def)

section \<open>A pool of three buffers, one of them allocated\<close>

definition sample_pool :: dpl_mbuf_pool where
  "sample_pool = \<lparr>omp_databuf_len = 24, omp_pool = 0x100\<rparr>"

definition sample_heap :: dpl_heap where
  "sample_heap = \<lparr>hp_next = (\<lambda>_. 0)(0x1038 := 0x1070), hp_data = (\<lambda>_. replicate 24 0),
     hp_pool = (\<lambda>_. \<lparr>mp_block_size = 56, mp_num_blocks = 3, mp_num_free = 2, mp_min_free = 2, mp_flags = 0,
       mp_membuf_addr = 0x1000, mp_first = 0x1038, mp_name = ''msys_1'', mpe_put_cb = 0, mpe_put_arg = 0\<rparr>),
     hp_list = [0x100]\<rparr>"

text \<open>A packet of four bytes: sixteen bytes of header, its length field 4, then the data.\<close>

definition sample_mbuf :: dpl_mbuf where
  "sample_mbuf = \<lparr>om_addr = 0x1000, om_data = 16, om_flags = 0, om_pkthdr_len = 16, om_len = 4,
     om_omp = Some sample_pool, om_databuf = [4, 0] @ replicate 14 0 @ [0xA, 0xB, 0xC, 0xD] @ replicate 4 0\<rparr>"

definition sample_blocks :: "addr set" where
  "sample_blocks = {0x1000, 0x1038, 0x1070}"

definition sample_free :: "addr list" where
  "sample_free = [0x1038, 0x1070]"

definition sample_cb :: "addr \<Rightarrow> addr \<Rightarrow> addr \<Rightarrow> addr \<Rightarrow> dpl_heap \<Rightarrow> mem_error \<times> dpl_heap" where
  "sample_cb f mp block arg h = (MEM_CB_ERROR 1, h)"

lemma sample_tbs: "true_block_size 56 = 56"
  by (simp add: true_block_size_def)

lemma sample_pool_blocks: "pool_blocks (hp_pool sample_heap p) = [0x1000, 0x1038, 0x1070]"
proof -
  have "[0..<3] = [0, 1, 2 :: nat]" by (simp add: upt_rec)
  then show ?thesis by (simp add: sample_heap_def pool_blocks_alt sample_tbs pool_block_def)
qed

lemma sample_pool_ok: "pool_ok 0x100 sample_heap sample_free"
proof -
  have "hp_pool sample_heap 0x100 = \<lparr>mp_block_size = 56, mp_num_blocks = 3, mp_num_free = 2, mp_min_free = 2,
      mp_flags = 0, mp_membuf_addr = 0x1000, mp_first = 0x1038, mp_name = ''msys_1'', mpe_put_cb = 0, mpe_put_arg = 0\<rparr>"
    by (simp add: sample_heap_def)
  moreover have "chain (hp_next sample_heap) 0x1038 sample_free"
    by (simp add: sample_heap_def sample_free_def)
  moreover have "set sample_free \<subseteq> set (pool_blocks (hp_pool sample_heap 0x100))"
    unfolding sample_pool_blocks by (simp add: sample_free_def)
  ultimately show ?thesis
    by (simp add: pool_ok_def pool_geom_def sample_tbs sample_free_def)
qed

lemma sample_mbuf_ok: "mbuf_ok sample_pool sample_mbuf"
  by (simp add: mbuf_ok_def sample_mbuf_def sample_pool_def hdr_len_def DPL_MBUF_IS_PKTHDR_def sizeof_pkthdr_def)

lemma sample_own: "own sample_pool sample_blocks sample_heap sample_free [sample_mbuf]"
proof -
  have "mpool_ok sample_pool sample_heap sample_free"
    using sample_pool_ok by (simp add: mpool_ok_def sample_pool_def sample_heap_def sample_free_def DPL_MEMPOOL_F_EXT_def)
  moreover have "sample_blocks \<subseteq> pool_set (omp_pool sample_pool) sample_heap"
    by (simp add: pool_set_def sample_pool_blocks sample_blocks_def)
  moreover have "om_addr sample_mbuf = 0x1000" by (simp add: sample_mbuf_def)
  ultimately show ?thesis
    using sample_mbuf_ok by (simp add: own_def sample_blocks_def sample_free_def)
qed

lemma sample_data: "chain_data [sample_mbuf] = [0xA, 0xB, 0xC, 0xD]" "chain_len [sample_mbuf] = 4"
  by (simp_all add: sample_mbuf_def mbuf_data_def mbuf_read_def read_at_def)

lemma sample_hdr: "hdr_counts [sample_mbuf]" "DPL_MBUF_IS_PKTHDR sample_mbuf"
  by (simp_all add: hdr_counts_def sample_mbuf_def DPL_MBUF_PKTLEN_def get_le16_def DPL_MBUF_IS_PKTHDR_def sizeof_pkthdr_def)

lemma sample_room: "room sample_pool sample_free [sample_mbuf] = 52" "front_room sample_pool sample_free [sample_mbuf] = 16"
  "DPL_MBUF_TRAILINGSPACE sample_mbuf = 4"
  using trailingspace_ok[OF sample_mbuf_ok] leadingspace_ok[OF sample_mbuf_ok] sample_hdr(2)
  by (simp_all add: room_def front_room_def sample_free_def sample_pool_def hdr_len_def sample_mbuf_def)

lemma sample_bytes [simp]:
  "mbuf_data sample_mbuf = [0xA, 0xB, 0xC, 0xD]" "om_len sample_mbuf = 4" "om_pkthdr_len sample_mbuf = 16"
  "omp_databuf_len sample_pool = 24"
  by (simp_all add: sample_mbuf_def mbuf_data_def mbuf_read_def read_at_def sample_pool_def)

text \<open>A packet of two buffers, six bytes in all, with one block left in the pool.\<close>

definition sample_heap2 :: dpl_heap where
  "sample_heap2 = snd (dpl_memblock_get 0x100 sample_heap)"

definition sample_head :: dpl_mbuf where
  "sample_head = sample_mbuf\<lparr>om_databuf := [6, 0] @ replicate 14 0 @ [0xA, 0xB, 0xC, 0xD] @ replicate 4 0\<rparr>"

definition sample_tail :: dpl_mbuf where
  "sample_tail = \<lparr>om_addr = 0x1038, om_data = 0, om_flags = 0, om_pkthdr_len = 0, om_len = 2,
     om_omp = Some sample_pool, om_databuf = [0xE, 0xF] @ replicate 22 0\<rparr>"

lemma sample_own2: "own sample_pool sample_blocks sample_heap2 [0x1070] [sample_head, sample_tail]"
proof -
  note got = get_cons[OF sample_pool_ok[unfolded sample_free_def]]
  have "hp_data sample_heap2 b = replicate 24 0" "mp_flags (hp_pool sample_heap2 0x100) = 0" for b
    by (simp_all add: sample_heap2_def frame) (simp_all add: dpl_memblock_get_def Let_def set_pool_def sample_heap_def)
  then have "mpool_ok sample_pool sample_heap2 [0x1070]"
    using got(2) by (simp add: mpool_ok_def sample_heap2_def sample_pool_def)
  moreover have "sample_blocks \<subseteq> pool_set (omp_pool sample_pool) sample_heap2"
    using got(3) by (simp add: pool_set_def sample_pool_blocks sample_blocks_def sample_heap2_def sample_pool_def)
  moreover have "mbuf_ok sample_pool sample_head" "mbuf_ok sample_pool sample_tail"
    by (simp_all add: mbuf_ok_def sample_head_def sample_tail_def sample_mbuf_def sample_pool_def hdr_len_def
        DPL_MBUF_IS_PKTHDR_def sizeof_pkthdr_def)
  moreover have "om_addr sample_head = 0x1000" "om_addr sample_tail = 0x1038"
    by (simp_all add: sample_head_def sample_tail_def sample_mbuf_def)
  ultimately show ?thesis by (simp add: own_def sample_blocks_def)
qed

lemma sample_bytes2 [simp]:
  "mbuf_data sample_head = [0xA, 0xB, 0xC, 0xD]" "om_len sample_head = 4" "mbuf_data sample_tail = [0xE, 0xF]"
  "om_len sample_tail = 2"
  by (simp_all add: sample_head_def sample_tail_def sample_mbuf_def mbuf_data_def mbuf_read_def read_at_def)

lemma sample_hdr2: "DPL_MBUF_PKTLEN sample_head = 6" "DPL_MBUF_IS_PKTHDR sample_head"
  by (simp_all add: sample_head_def sample_mbuf_def DPL_MBUF_PKTLEN_def get_le16_def DPL_MBUF_IS_PKTHDR_def sizeof_pkthdr_def)

lemma sample_room2: "room sample_pool [0x1070] [sample_tail] = 46" "room sample_pool [0x1070] [sample_head, sample_tail] = 46"
  using own_ok[OF sample_own2] trailingspace_ok[of sample_pool sample_tail]
  by (simp_all add: room_def) (simp_all add: sample_tail_def)

lemma sample_none_pending: "none_pending (sample_state a n)"
  by (simp add: none_pending_def sample_state_def sample_rng_def calloc_rng_def Let_def)

lemma sample_exchange:
  obtains a1 a3 b2 where "ss_twr_exchange sample_build sample_build (dev_my_short_address (rs_dev (sample_state 2 0))) (0x30F0, 0xB20F0, 0xC0000) (0, 0, 0)
      (sample_state 1 1) (sample_state 2 0) = Some (a1, a3, b2)"
  by (rule ss_exchange_complete[of "sample_state 1 1" "sample_state 2 0" sample_build sample_build 2 "0x30F0" "0xB20F0" "0xC0000" 0 0 0])
    (auto simp: sample_state_ok sample_driver_ok uwb_rng_get_config_def zero_config_def sample_none_pending)

lemma sample_setup:
  "rng_ok (sample_state 1 1)" "rng_ok (sample_state 2 0)" "rng_sem (rs_rng (sample_state 1 1)) = 1"
  "dev_irq_sem (rs_dev (sample_state 1 1)) = 1" "rng_sem (rs_rng (sample_state 2 0)) = 0"
  "unat (rng_nframes (rs_rng (sample_state 1 1))) dvd 65536" "unat (rng_nframes (rs_rng (sample_state 2 0))) dvd 65536"
  "driver_ok (b_uf sample_build)" "driver_ok (b_uf sample_build)"
  "\<not> fctrl_req_ack (uwb_rng_get_config (b_rng sample_build) (rs_rng (sample_state 1 1)) UWB_DATA_CODE_SS_TWR)"
  "none_pending (sample_state 1 1)" "none_pending (sample_state 2 0)"
  by (simp_all add: sample_none_pending sample_state_ok sample_driver_ok uwb_rng_get_config_def zero_config_def)

lemma sample_stamps:
  "ss_stamps sample_build sample_build 0x30F0 0xB20F0 (sample_state 2 0) a1 = (0x2000, 0x30F0, 0xB3000, 0xB20F0)"
  by (simp add: ss_stamps_def stamp_def tx_stamp_def uwb_read_txtime_lo32_def sample_uf_def uwb_rng_calc_rel_tx_def
     sample_build_def sample_state_def sample_rng_def calloc_rng_def uwb_phy_data_duration_def zero_config_def sample_dev_def Let_def)

end
