(* ===== verification/Ranging_Claims.thy ===== *)
theory Ranging_Claims
  imports Samples
begin

text \<open>
  Properties of the ranging service, of the two-way ranging services registered
  beside it, of the time-of-flight arithmetic and of the small helpers they use.
\<close>

unbundle bit_operations_syntax

section \<open>The ranging service\<close>

text \<open>
  C28. Of the five two-way ranging services on the interface list at most one claims a data
  frame, so the order in which they were registered does not matter for it.
\<close>

theorem one_service_claims:
  assumes "c \<in> set (tl (device_interfaces B))" and "c' \<in> set (tl (device_interfaces B))"
    and "mac_rx_complete_cb c = Some cb" and "mac_rx_complete_cb c' = Some cb'"
    and "fst (cb s)" and "fst (cb' s)" and "dev_fctrl (rs_dev s) \<noteq> UWB_FCTRL_FRAME_TYPE_ACK"
  shows "c = c'"
  using assms service_claims service_codes_disjoint service_ids by metis

lemma one_service_claims_witness:
  "let c = twr_ss_interface sample_uf None zero_config (rng_callback_list sample_build) 1\<lparr>mac_initialized := True\<rparr>;
       cb = twr_ss_rx_complete_cb sample_uf None zero_config (rng_callback_list sample_build);
       s = on_rng (\<lambda>r. r\<lparr>rng_code := UWB_DATA_CODE_SS_TWR\<rparr>) (on_dev (\<lambda>d. d\<lparr>dev_fctrl := 0x8841\<rparr>) (sample_state 2 0))
   in fst (cb s) \<and> (\<forall>c' \<in> set (tl (device_interfaces sample_build)).
        (\<exists>cb'. mac_rx_complete_cb c' = Some cb' \<and> fst (cb' s)) \<longrightarrow> c' = c)"
proof -
  define cb where cb: "cb = twr_ss_rx_complete_cb sample_uf None zero_config (rng_callback_list sample_build)"
  define s where s: "s = on_rng (\<lambda>r. r\<lparr>rng_code := UWB_DATA_CODE_SS_TWR\<rparr>) (on_dev (\<lambda>d. d\<lparr>dev_fctrl := 0x8841\<rparr>) (sample_state 2 0))"
  define c where c: "c = twr_ss_interface sample_uf None zero_config (rng_callback_list sample_build) 1\<lparr>mac_initialized := True\<rparr>"
  have "c \<in> set (tl (device_interfaces sample_build))" by (simp add: device_interfaces_eq c sample_build_def)
  moreover have "fst (cb s)"
    by (simp add: cb s twr_ss_rx_complete_cb_def frame sem_count_def sem_on_rng)
  moreover have "mac_rx_complete_cb c = Some cb" "dev_fctrl (rs_dev s) \<noteq> 2"
    by (simp_all add: c cb s twr_ss_interface_def frame)
  ultimately show ?thesis
    unfolding Let_def c[symmetric] cb[symmetric] s[symmetric]
    using one_service_claims[of _ sample_build c _ cb s] by blast
qed

text \<open>
  C17. From initialisation on, whatever sequence of requests, listens, callbacks and device
  changes runs: the semaphore is 0 or 1, the slots the code indexes are inside the ring, and
  every frame buffer keeps its size.
\<close>

theorem ranging_state_invariant:
  assumes "0 < n" and "length twr = unat n" and "\<forall>fr \<in> set twr. frame_ok fr"
    and "uwb_rng_set_frames (uwb_rng_init None cfg n) twr n = Some rng"
    and "rng_reachable B \<lparr>rs_dev = dev, rs_rng = rng, rs_twr_stat = st, rs_assert_failed = False\<rparr> s"
  shows "rng_sem (rs_rng s) \<le> 1 \<and> cur_slot (rs_rng s) < length (rng_frames (rs_rng s)) \<and>
    next_slot (rs_rng s) < length (rng_frames (rs_rng s)) \<and>
    (\<forall>fr \<in> set (rng_frames (rs_rng s)). length (twr_array fr) = 136 \<and> length (twr_local fr) = 104)"
  using rng_reachable_ok[OF assms(5) boot_ok[OF assms(1-4)]] slot_less
  by (auto simp: rng_ok_def frame_ok_def)

lemma ranging_state_invariant_witness:
  "\<exists>rng. uwb_rng_set_frames (uwb_rng_init None None 2) [sample_frame, sample_frame] 2 = Some rng \<and>
    rng_sem (rs_rng (snd (rng_reset_cb \<lparr>rs_dev = sample_dev 1, rs_rng = rng, rs_twr_stat = (\<lambda>_. 0), rs_assert_failed = False\<rparr>))) \<le> 1"
proof -
  obtain rng where r: "uwb_rng_set_frames (uwb_rng_init None None 2) [sample_frame, sample_frame] 2 = Some rng"
    by (simp add: uwb_rng_set_frames_def uwb_rng_init_def calloc_rng_def)
  let ?s = "\<lparr>rs_dev = sample_dev 1, rs_rng = rng, rs_twr_stat = (\<lambda>_. 0), rs_assert_failed = False\<rparr>"
  have "rng_step sample_build ?s (snd (rng_reset_cb ?s))"
    by (rule rng_step.Callback[of "hd (device_interfaces sample_build)"])
      (simp_all add: device_interfaces_eq callbacks_of_def interface_defs)
  then have "rng_reachable sample_build ?s (snd (rng_reset_cb ?s))"
    using rng_reachable.intros by blast
  then show ?thesis
    using ranging_state_invariant[of 2 "[sample_frame, sample_frame]" None rng sample_build "sample_dev 1" "\<lambda>_. 0" "snd (rng_reset_cb ?s)"] r
    by (simp add: sample_frame_def frame_ok_def)
qed

text \<open>
  C29. A caller of \<open>uwb_rng_request\<close> that waits for an exchange is blocked while the semaphore
  is taken, and each of the timeout, reset and superframe callbacks lets it return, with the
  semaphore free again.
\<close>

theorem request_returns_after_abort:
  assumes "rng_ok s" and "rng_sem (rs_rng s) = 0"
    and "cb \<in> {rng_rx_timeout_cb, rng_reset_cb, rng_superframe_reset_cb}"
  shows "uwb_rng_request_finish Got_token s = None \<and>
    rng_sem (rs_rng (snd (cb s))) = 1 \<and>
    (\<exists>t. uwb_rng_request_finish Got_token (snd (cb s)) = Some t \<and> rng_ok t \<and> rng_sem (rs_rng t) = 1)"
proof -
  have sem: "rng_sem (rs_rng (snd (cb s))) = 1" and ok: "rng_ok (snd (cb s))"
    using assms sem_free_count[OF assms(1,2)] rng_timeout_reset_ok[OF assms(1)]
    by (auto simp: rng_rx_timeout_cb_def rng_reset_cb_def rng_superframe_reset_cb_def Let_def sem_on_rng)
  obtain t where "uwb_rng_request_finish Got_token (snd (cb s)) = Some t" and "rng_sem (rs_rng t) = 1"
    using sem by (simp add: uwb_rng_request_finish_def dpl_sem_pend_def irqsem_error_exit_def sem_count_def
      sem_release_def dpl_sem_release_def on_rng_def Let_def)
  then show ?thesis
    using sem request_finish_ok[OF ok] assms(2) uwb_rng_request_finish_def[of Got_token s]
    by (auto simp: dpl_sem_pend_def)
qed

lemma request_returns_after_abort_witness:
  "\<exists>t. uwb_rng_request_finish Got_token (snd (rng_rx_timeout_cb (sample_state 1 0))) = Some t \<and> rng_sem (rs_rng t) = 1"
  using request_returns_after_abort[of "sample_state 1 0" rng_rx_timeout_cb] by (auto simp: sample_state_ok)

text \<open>
  C30. How a request can start: refused, it leaves the semaphore and the radio untouched;
  started, it holds the semaphore unless the transmission was too late, in which case the
  semaphore is already free; the interrupt semaphore is given back in every case.
\<close>

theorem request_start_outcome:
  assumes "rng_ok s" and "uwb_rng_request_start uf fl i cfg w1 w2 dst code s = Some r"
  shows "case r of
      Returned t \<Rightarrow> rng_sem (rs_rng t) = rng_sem (rs_rng s) \<and> dev_cmds (rs_dev t) = dev_cmds (rs_dev s)
    | Waiting t \<Rightarrow> rng_sem (rs_rng s) = 1 \<and> rng_sem (rs_rng t) = (if start_tx_error t then 1 else 0) \<and>
        dev_irq_sem (rs_dev t) = dev_irq_sem (rs_dev s)"
proof -
  have le: "rng_sem (rs_rng s) \<le> 1" using assms(1) by (simp add: rng_ok_def)
  obtain e m where p: "dpl_sem_pend (rng_sem (rs_rng s)) w1 = Some (e, m)"
    using assms(2) by (auto simp: uwb_rng_request_start_def split: option.splits)
  show ?thesis
  proof (cases "w1 = Got_token")
    case False
    then show ?thesis using assms(2) p by (auto simp: uwb_rng_request_start_def pend_cases frame sem_on_rng on_rng_def Let_def)
  next
    case True
    then have m: "e = DPL_OK" "m = 0" "rng_sem (rs_rng s) = 1" using p le by (auto simp: pend_cases)
    obtain e2 m2 where p2: "dpl_sem_pend (dev_irq_sem (rs_dev s)) w2 = Some (e2, m2)"
      using assms(2) p m by (auto simp: uwb_rng_request_start_def Let_def frame split: option.splits)
    show ?thesis
      using assms(2) p m p2 pend_cases[THEN iffD1, OF p2]
      by (cases "e2 = DPL_OK")
        (auto simp: uwb_rng_request_start_def Let_def frame irqsem_error_exit_def sem_count_def
          request_start_tx_sems request_transmit_sems dpl_sem_release_def)
  qed
qed

lemma request_start_outcome_witness:
  "case the (uwb_rng_request_start sample_uf sample_fl 0 zero_config Interrupted Got_token 2 UWB_DATA_CODE_SS_TWR (sample_state 1 1)) of
      Returned t \<Rightarrow> rng_sem (rs_rng t) = 1 | Waiting t \<Rightarrow> False"
proof -
  obtain t where "uwb_rng_request_start sample_uf sample_fl 0 zero_config Interrupted Got_token 2 UWB_DATA_CODE_SS_TWR (sample_state 1 1) = Some (Returned t)"
    by (simp add: uwb_rng_request_start_def dpl_sem_pend_def Let_def)
  then show ?thesis using request_start_outcome[OF sample_setup(1), of _ _ _ _ _ _ _ _ "Returned t"] by fastforce
qed

text \<open>
  C31. The second-round frame of a double-sided exchange carries the frame control that happens
  to be in the next slot of the ring. If that slot was never used (the frames start zeroed) the
  responder drops the frame as foreign and gives up the exchange.
\<close>

theorem ds_second_round_frame_control:
  assumes "rng_ok a" and "driver_ok uf" and "\<not> st_lde_error (dev_status (rs_dev a))"
    and "dev_frame_len (rs_dev a) = 19" and "cur_slot (rs_rng a) \<noteq> next_slot (rs_rng a)"
    and "fr_fctrl (frame_at (next_slot (rs_rng a)) a) = 0"
    and "rng_ok b" and "rng_sem (rs_rng b) = 0"
  shows "fst (rng_rx_complete_cb fl (deliver (transmitted (twr_ds_second_round uf wcs cfg a)) ts c b)) = False \<and>
    rng_sem (rs_rng (snd (rng_rx_complete_cb fl (deliver (transmitted (twr_ds_second_round uf wcs cfg a)) ts c b)))) = 1 \<and>
    rng_code (rs_rng (snd (rng_rx_complete_cb fl (deliver (transmitted (twr_ds_second_round uf wcs cfg a)) ts c b)))) = rng_code (rs_rng b)"
proof -
  obtain m where m: "transmitted (twr_ds_second_round uf wcs cfg a) = take 31 m" "length m = 136" "v_fctrl (view m) = 0"
    by (rule twr_ds_second_round_sends[OF assms(1-5), of wcs cfg]) (use assms(6) in auto)
  then show ?thesis
    using rx_other_frame[OF assms(7,8) m(2), of fl ts c] assms(8) by (simp add: frame sem_release_def RNG_STATS_INC_def dpl_sem_release_def)
qed

lemma ds_second_round_frame_control_witness:
  "rng_sem (rs_rng (snd (rng_rx_complete_cb sample_fl
     (deliver (transmitted (twr_ds_second_round sample_uf None zero_config
        (on_dev (\<lambda>d. d\<lparr>dev_frame_len := 19\<rparr>) (sample_state 1 0)))) 0 0 (sample_state 2 0))))) = 1"
proof -
  let ?a = "on_dev (\<lambda>d. d\<lparr>dev_frame_len := 19\<rparr>) (sample_state 1 0)"
  have "rng_ok ?a" "dev_frame_len (rs_dev ?a) = 19" "\<not> st_lde_error (dev_status (rs_dev ?a))"
    by (simp_all add: sample_state_ok frame) (simp add: sample_state_def sample_dev_def sample_status_def)
  moreover have "cur_slot (rs_rng ?a) \<noteq> next_slot (rs_rng ?a)"
    by (simp add: frame cur_slot_def next_slot_def)
  moreover have "fr_fctrl (frame_at (next_slot (rs_rng ?a)) ?a) = 0"
    by (simp add: frame next_slot_def) (simp add: fr_fctrl_def frame_at_def sample_state_def sample_rng_def sample_frame_def get_le16_def)
  ultimately show ?thesis
    using ds_second_round_frame_control[OF _ sample_driver_ok, of ?a "sample_state 2 0" sample_fl None zero_config 0 0]
    by (simp add: sample_state_ok)
qed

text \<open>
  A reset while the final frame is on the air cuts the next exchange short. The initiator
  starts its final frame (which sets \<open>complete_after_tx\<close>), and the device is reset before the
  frame is sent: the reset callback frees the semaphore but leaves the flag. The next request
  starts and waits as it should; but once it is sent the transmission callback takes it for the
  pending completion and frees the semaphore, so that the caller returns, and the reply is then
  refused as unsolicited.
\<close>

theorem reset_cuts_next_exchange:
  assumes "rng_ok s" and "rng_sem (rs_rng s) = 0" and "dev_irq_sem (rs_dev s) = 1" and "driver_ok (b_uf B)"
    and "dev_frame_len (rs_dev s) = 19" and "\<not> st_lde_error (dev_status (rs_dev s))"
    and "dev_fctrl (rs_dev s) = FCNTL_IEEE_RANGE_16" and "rng_code (rs_rng s) = UWB_DATA_CODE_SS_TWR_T1"
    and "\<not> fctrl_req_ack cfg" and "19 \<le> length m" and "get_le16 m 0 = FCNTL_IEEE_RANGE_16"
  shows "\<exists>s1 s2. rng_reset_cb (twr_ss_report (b_uf B) (b_wcs B) (b_ss B) (rng_callback_list B) s) = (True, s1) \<and>
    uwb_rng_request_start (b_uf B) (b_fl B) (next_slot (rs_rng s1)) cfg Got_token Got_token dst UWB_DATA_CODE_SS_TWR s1 = Some (Waiting s2) \<and>
    rng_sem (rs_rng s2) = 0 \<and> rng_sem (rs_rng (on_tx_complete B s2)) = 1 \<and>
    rng_rx_complete_cb (b_fl B) (deliver m ts c (on_tx_complete B s2)) =
      (False, RNG_STATS_INC Rx_unsolicited (deliver m ts c (on_tx_complete B s2)))"
proof -
  let ?t = "twr_ss_report (b_uf B) (b_wcs B) (b_ss B) (rng_callback_list B) s"
  note t = twr_ss_report_step[OF assms(1,2,4,5,6), of "b_wcs B" "b_ss B" B]
  have irq: "dev_irq_sem (rs_dev ?t) = 1"
    using assms(3,5,6) by (simp add: twr_ss_report_def Let_def start_tx_ok[OF assms(4)] frame tx_frame_def uwb_api_defs)
  let ?s1 = "on_rng (\<lambda>r. r\<lparr>rng_rx_ack_expected := False, rng_tx_ack_expected := False\<rparr>) (RNG_STATS_INC Reset (sem_release ?t))"
  have reset: "rng_reset_cb ?t = (True, ?s1)" using sem_free_count[OF t(4,3)] by (simp add: rng_reset_cb_def Let_def)
  have s1: "rng_ok ?s1" "rng_sem (rs_rng ?s1) = 1" "dev_irq_sem (rs_dev ?s1) = 1" "rng_code (rs_rng ?s1) = UWB_DATA_CODE_SS_TWR_T1"
    "dev_fctrl (rs_dev ?s1) = FCNTL_IEEE_RANGE_16" "rng_complete_after_tx (rs_rng ?s1)"
    using t(3,4,6-8) irq assms(7,8)
    by (simp_all add: rng_ok_on_rng rng_ok_sem_release) (simp_all add: frame sem_release_def RNG_STATS_INC_def dpl_sem_release_def)
  obtain s2 where s2: "uwb_rng_request_start (b_uf B) (b_fl B) (next_slot (rs_rng ?s1)) cfg Got_token Got_token dst UWB_DATA_CODE_SS_TWR ?s1 = Some (Waiting s2)"
    "rng_ok s2" "rng_sem (rs_rng s2) = 0" "rng_complete_after_tx (rs_rng s2) = rng_complete_after_tx (rs_rng ?s1)"
    "rng_code (rs_rng s2) = rng_code (rs_rng ?s1)" "dev_fctrl (rs_dev s2) = dev_fctrl (rs_dev ?s1)"
    by (rule request_start_step[OF s1(1-3) assms(4,9) slot_less(2)[OF s1(1)], of "b_fl B" dst UWB_DATA_CODE_SS_TWR])
  have "on_tx_complete B s2 = on_rng (\<lambda>r. r\<lparr>rng_complete_after_tx := False\<rparr>)
      (rng_issue_complete (rng_callback_list B) (sem_release (RNG_STATS_INC Tx_complete s2)))"
    by (rule on_tx_complete_final) (use s2 s1 ss_codes_in_range in simp_all)
  moreover have "rng_ok (sem_release (RNG_STATS_INC Tx_complete s2))" using s2(2,3) by (simp add: rng_ok_sem_release)
  note issue_complete_frames[OF this, where B = B]
  ultimately have sem: "rng_sem (rs_rng (on_tx_complete B s2)) = 1" "rng_ok (on_tx_complete B s2)"
    using s2(3) by (simp_all add: sem_on_rng rng_ok_on_rng)
  then have "rng_rx_complete_cb (b_fl B) (deliver m ts c (on_tx_complete B s2)) =
      (False, RNG_STATS_INC Rx_unsolicited (deliver m ts c (on_tx_complete B s2)))"
    using assms(11) by (simp add: rng_rx_complete_cb_def Let_def sem_count_def)
  then show ?thesis using reset s2(1,3) sem(1) by blast
qed

lemma reset_cuts_next_exchange_witness:
  "\<exists>s2. rng_sem (rs_rng s2) = 0 \<and> rng_sem (rs_rng (on_tx_complete sample_build s2)) = 1"
proof -
  let ?s = "on_rng (\<lambda>r. r\<lparr>rng_code := UWB_DATA_CODE_SS_TWR_T1\<rparr>) (on_dev (\<lambda>d. d\<lparr>dev_frame_len := 19, dev_fctrl := FCNTL_IEEE_RANGE_16\<rparr>) (sample_state 1 0))"
  have s: "rng_ok ?s" by (simp add: rng_ok_on_rng sample_state_ok)
  have d: "rng_sem (rs_rng ?s) = 0" "dev_irq_sem (rs_dev ?s) = 1" "dev_frame_len (rs_dev ?s) = 19"
    "\<not> st_lde_error (dev_status (rs_dev ?s))" "dev_fctrl (rs_dev ?s) = FCNTL_IEEE_RANGE_16" "rng_code (rs_rng ?s) = UWB_DATA_CODE_SS_TWR_T1"
    by (simp_all add: frame sem_on_rng) (simp_all add: sample_state_def sample_dev_def sample_status_def)
  have m: "19 \<le> length (put_le16 (replicate 19 0) 0 FCNTL_IEEE_RANGE_16)" "get_le16 (put_le16 (replicate 19 0) 0 FCNTL_IEEE_RANGE_16) 0 = FCNTL_IEEE_RANGE_16"
    by code_simp+
  have cfg: "\<not> fctrl_req_ack zero_config" by (simp add: zero_config_def)
  show ?thesis
    using reset_cuts_next_exchange[OF s d(1,2) sample_setup(8) d(3-6) cfg m, of 2 0 0] by blast
qed

text \<open>
  The slot a handler fills before it advances the 16-bit index is the slot later read
  through the advanced index, for every index, exactly when the ring length divides 2^16.
\<close>

theorem ring_slots_agree:
  "(\<forall>i. cur_slot (r\<lparr>rng_idx := i + 1\<rparr>) = next_slot (r\<lparr>rng_idx := i\<rparr>)) \<longleftrightarrow> unat (rng_nframes r) dvd 65536"
proof
  assume "\<forall>i. cur_slot (r\<lparr>rng_idx := i + 1\<rparr>) = next_slot (r\<lparr>rng_idx := i\<rparr>)"
  from this[rule_format, of "0xFFFF"] show "unat (rng_nframes r) dvd 65536"
    by (simp add: cur_slot_def next_slot_def mod_eq_0_iff_dvd)
qed (simp add: cur_slot_def next_slot_def flip: ring_succ)

section \<open>Time of flight\<close>

text \<open>
  Double-sided ranging with clocks of ratio k: the formula yields the flight time scaled by
  2k/(1+k) only, however long and unequal the two reply delays are.
\<close>

theorem calc_tof_ds_drift:
  fixes R1 D1 R2 D2 :: nat and d1 k flight :: rat
  assumes "R1 < 2 ^ 31" "D1 < 2 ^ 31" "R2 < 2 ^ 31" "D2 < 2 ^ 31" and "0 < k" and "0 < flight" and "0 \<le> d1"
    and "of_nat R1 = 2 * flight + d1" and "of_nat D1 = k * d1" and "of_nat R2 = k * (2 * flight + of_nat D2)"
  shows "calc_tof_ds exact_f64
      (of_nat (q + R1)) (of_nat q) (ucast (of_nat (r + D1) :: u32)) (ucast (of_nat r :: u32))
      (of_nat (q' + R2)) (of_nat q') (ucast (of_nat (r' + D2) :: u32)) (ucast (of_nat r' :: u32))
    = Some (flight * (2 * k / (1 + k)))"
proof -
  have pos: "0 < 2 * flight + d1 + of_nat D2" using assms(6,7) by (simp add: add_pos_nonneg)
  have "d1 * of_nat D2 \<le> (2 * flight + d1) * (2 * flight + of_nat D2)"
    using assms(6,7) by (intro mult_mono) auto
  then have "(of_nat (D1 * D2) :: rat) \<le> of_nat (R1 * R2)"
    using assms(5) by (simp add: assms(8-10) mult.left_commute mult_left_mono)
  then have le: "D1 * D2 \<le> R1 * R2" by (simp only: of_nat_le_iff)
  have "0 < (of_nat R1 :: rat)" using assms(6,7) by (simp add: assms(8) add_pos_nonneg)
  then have "0 < R1 + R2 + D1 + D2" by simp
  from calc_tof_ds_exact[OF assms(1-4) le this]
  show ?thesis
    using ds_formula[OF assms(5) pos] le by (simp add: of_nat_diff assms(8-10) mult.assoc add.assoc)
qed

lemma calc_tof_ds_drift_witness:
  "calc_tof_ds exact_f64 (of_nat (0 + 16)) (of_nat 0) (ucast (of_nat (5 + 20) :: u32)) (ucast (of_nat 5 :: u32))
     (of_nat (7 + 32)) (of_nat 7) (ucast (of_nat (9 + 10) :: u32)) (ucast (of_nat 9 :: u32)) = Some 4"
  using calc_tof_ds_drift[of 16 20 32 10 2 3 10 0 5 7 9] by simp

text \<open>
  The symmetric double-sided formula gives exactly the flight time for clocks with any
  offset, in spite of counter wrap-around.
\<close>

theorem calc_tof_sym_ds_flight:
  fixes q p t r q' p' t' r' k :: u32
  assumes "p = q + k + of_nat f" and "r = t - k + of_nat f" and "unat (t - p) + 2 * f < 2 ^ 32"
    and "p' = q' - k + of_nat f" and "r' = t' + k + of_nat f" and "unat (t' - p') + 2 * f < 2 ^ 32"
  shows "calc_tof_sym_ds r q (ucast t) (ucast p) r' q' (ucast t') (ucast p') = of_nat f"
proof -
  have "r - q = of_nat (2 * f) + (t - p)" "r' - q' = of_nat (2 * f) + (t' - p')"
    using assms(1,2,4,5) by (simp_all add: algebra_simps)
  from sym_ds_flight[OF this(1)] sym_ds_flight[OF this(2)] assms(3,6)
  have eq: "(ucast (r - q) :: u64) - ((ucast t - ucast p) AND MASK32) + ucast (r' - q') - ((ucast t' - ucast p') AND MASK32)
      = of_nat (4 * f)"
    by (simp add: algebra_simps)
  have "4 * f < 2 ^ 64" using assms(3) by simp
  then have "unat (drop_bit 2 (of_nat (4 * f) :: u64)) = unat (of_nat f :: u64)"
    by (simp add: drop_bit_eq_div unat_div unsigned_of_nat take_bit_nat_eq_self del: of_nat_mult)
  then have "drop_bit 2 (of_nat (4 * f) :: u64) = of_nat f" by (rule unsigned_word_eqI)
  moreover have "unat (of_nat f :: u64) = f" using assms(3) by (simp add: unsigned_of_nat take_bit_nat_eq_self)
  then have ucast: "(ucast (of_nat f :: u64) :: u32) = of_nat f" by (metis of_nat_unat)
  ultimately show ?thesis
    using eq ucast by (simp add: calc_tof_sym_ds_def Let_def del: of_nat_mult)
qed

lemma calc_tof_sym_ds_flight_witness:
  "calc_tof_sym_ds 0xB20F0 0x2000 (ucast (0xB3000 :: u32)) (ucast (0x30F0 :: u32))
     0xC10F0 0xB3000 (ucast (0xC0000 :: u32)) (ucast (0xB20F0 :: u32)) = 240"
proof -
  have "unat (0xB3000 - 0x30F0 :: u32) + 2 * 240 < 2 ^ 32" "unat (0xC0000 - 0xB20F0 :: u32) + 2 * 240 < 2 ^ 32"
    by simp_all
  moreover have "(0x30F0 :: u32) = 0x2000 + 0x1000 + of_nat 240" "(0xB20F0 :: u32) = 0xB3000 - 0x1000 + of_nat 240"
    "(0xB20F0 :: u32) = 0xB3000 - 0x1000 + of_nat 240" "(0xC10F0 :: u32) = 0xC0000 + 0x1000 + of_nat 240"
    by simp_all
  ultimately have "calc_tof_sym_ds 0xB20F0 0x2000 (ucast (0xB3000 :: u32)) (ucast (0x30F0 :: u32))
     0xC10F0 0xB3000 (ucast (0xC0000 :: u32)) (ucast (0xB20F0 :: u32)) = of_nat 240"
    by (intro calc_tof_sym_ds_flight)
  then show ?thesis by simp
qed

text \<open>
  The symmetric single-sided formula is right without wrap-around and wrong by 2^31 when
  the responder's counter wraps, where the other single-sided formula stays right.
\<close>

theorem calc_tof_sym_ss_wrap_differs:
  "calc_tof_sym_ss 16 0 15 5 = 3 \<and> calc_tof_ss exact_f64 16 0 15 5 (Some 0) = Some 3 \<and>
   calc_tof_sym_ss 16 0 5 0xFFFFFFFB = 0x80000003 \<and> calc_tof_ss exact_f64 16 0 5 0xFFFFFFFB (Some 0) = Some 3"
  by (simp add: calc_tof_sym_ss_wrap calc_tof_ss_def exact_f64_def MASK32_def)

section \<open>Bytes, slots, deadlines and interfaces\<close>

text \<open>
  A 64-bit word stored little-endian is read back unchanged, storing what was read changes
  nothing, and no other byte is touched.
\<close>

theorem le64_roundtrip:
  assumes "a + 8 \<le> length m"
  shows "get_le64 (put_le64 m a v) a = v \<and> put_le64 m a (get_le64 m a) = m \<and>
    (\<forall>i. i < a \<or> a + 8 \<le> i \<longrightarrow> put_le64 m a v ! i = m ! i)"
  using assms by (simp add: le64.get_put_same le64.put_nth_other le64.put_get_same)

lemma le64_roundtrip_witness:
  "get_le64 (put_le64 (replicate 9 0) 1 0x0102030405060708) 1 = 0x0102030405060708"
  using le64_roundtrip[of 1 "replicate 9 0" "0x0102030405060708"] by simp

text \<open>
  Swapping the eight bytes of a little-endian word in place gives the big-endian store of
  the same word, and back.
\<close>

theorem be64_is_swapped_le64:
  assumes "8 \<le> length m"
  shows "swap_in_place (put_le64 m 0 v) 8 = put_be64 m 0 v \<and> swap_in_place (put_be64 m 0 v) 8 = put_le64 m 0 v"
proof -
  have l: "put_le64 m 0 v = le64_bytes v @ drop 8 m" "put_be64 m 0 v = rev (le64_bytes v) @ drop 8 m"
    using assms by (simp_all add: put_le64_writes put_be64_writes write_at_0 length_le64_bytes)
  then show ?thesis
    using swap_in_place_rev[of 8 "put_le64 m 0 v"] swap_in_place_rev[of 8 "put_be64 m 0 v"] assms
    by (simp add: length_le64_bytes)
qed

lemma be64_is_swapped_le64_witness:
  "swap_in_place (put_le64 (replicate 9 0) 0 0x0102030405060708) 8 = put_be64 (replicate 9 0) 0 0x0102030405060708"
  using be64_is_swapped_le64[of "replicate 9 0" "0x0102030405060708"] by simp

text \<open>
  \<open>BitIndex\<close> gives a slot's position among the slots of the mask (the number of lower
  ones), and in the other mode the number of higher ones less one, for slots 0 to 30.
\<close>

theorem slot_index_counts_lower_slots:
  assumes "p < 31" and "bit m p"
  shows "BitIndex m (2 ^ p) SLOT_POSITION = Some (of_nat (card {i. i < p \<and> bit m i})) \<and>
    BitIndex m (2 ^ p) SLOT_REMAINING = Some (of_nat (card {i. p < i \<and> bit m i}) - 1)"
  using assms BitIndex_position[OF assms] BitIndex_eq[OF assms, of SLOT_REMAINING]
  by (simp add: bits_of_def conj_commute)

lemma slot_index_counts_lower_slots_witness:
  "BitIndex 0x15 (2 ^ 2) SLOT_POSITION = Some (of_nat (card {i. i < 2 \<and> bit (0x15 :: u32) i}))"
  using slot_index_counts_lower_slots[of 2 "0x15"] by (simp add: bit_iff_odd)

text \<open>
  The bit-clearing loop terminates with the number of set bits, and the single-bit test
  of the asserts is that this number is one.
\<close>

theorem NumberOfBits_counts:
  "NumberOfBits n = of_nat (card {i. bit n i}) \<and> (single_bit n \<longleftrightarrow> card {i. bit n i} = 1)"
  by (simp add: NumberOfBits_card single_bit_iff flip: bits_of_def)

text \<open>
  The absolute deadline of a semaphore wait is now plus the timeout, and its nanoseconds
  stay below one second except when they hit exactly one second, which is not carried.
\<close>

theorem sem_deadline_normal:
  assumes "0 < tps" and "snd now < 1000000000"
  shows "fst (sem_deadline tps now t) * 1000000000 + snd (sem_deadline tps now t) =
      (fst now + t div tps) * 1000000000 + snd now + (t mod tps) * (1000000000 div tps) \<and>
    snd (sem_deadline tps now t) \<le> 1000000000 \<and>
    (snd (sem_deadline tps now t) = 1000000000 \<longleftrightarrow> snd now + (t mod tps) * (1000000000 div tps) = 1000000000)"
proof -
  define x where x: "x = (t mod tps) * (1000000000 div tps)"
  have "x < 1000000000"
  proof (cases "1000000000 div tps = 0")
    case False
    then have "x < tps * (1000000000 div tps)" using assms(1) by (simp add: x)
    then show ?thesis using times_div_less_eq_dividend[of tps 1000000000] by linarith
  qed (simp add: x)
  then have "snd (sem_deadline tps now t) = 1000000000 \<longleftrightarrow> snd now + x = 1000000000"
    using assms(2) by (auto simp add: sem_deadline_def Let_def simp flip: x)
  then show ?thesis
    using sem_deadline_time[OF assms(1), of now t] sem_deadline_nsec[OF assms, of t] by (simp flip: x)
qed

lemma sem_deadline_normal_witness:
  "sem_deadline 1000 (5, 999000000) 1 = (5, 1000000000)"
  using sem_deadline_normal[of 1000 "(5, 999000000)" 1] by (simp add: prod_eq_iff)

text \<open>
  An appended interface is found under its id and changes no other lookup; removing it
  restores the list; a removed id is not found.
\<close>

theorem mac_interface_lookup:
  assumes "distinct (map mac_id cbs)" and "mac_id c \<notin> mac_id ` set cbs"
  shows "uwb_mac_get_interface (uwb_mac_append_interface cbs c) (mac_id c) = Some (c\<lparr>mac_initialized := True\<rparr>) \<and>
    (\<forall>i. i \<noteq> mac_id c \<longrightarrow> uwb_mac_get_interface (uwb_mac_append_interface cbs c) i = uwb_mac_get_interface cbs i) \<and>
    uwb_mac_remove_interface (uwb_mac_append_interface cbs c) (mac_id c) = cbs \<and>
    uwb_mac_get_interface (uwb_mac_remove_interface cbs j) j = None"
proof -
  have "mac_id c \<notin> mac_id ` set xs \<Longrightarrow> uwb_mac_remove_interface (xs @ [c\<lparr>mac_initialized := True\<rparr>]) (mac_id c) = xs" for xs
    by (induction xs) auto
  then have "uwb_mac_remove_interface (uwb_mac_append_interface cbs c) (mac_id c) = cbs"
    using assms(2) by (simp add: uwb_mac_append_interface_def)
  then show ?thesis
    using assms get_interface_None[of cbs "mac_id c"]
    by (simp add: get_append_interface get_remove_same split: option.splits)
qed

lemma mac_interface_lookup_witness:
  "uwb_mac_get_interface (uwb_mac_remove_interface (device_interfaces sample_build) 6) 6 = None"
  using mac_interface_lookup[of "device_interfaces sample_build" "twr_ss_interface sample_uf None zero_config [] 1\<lparr>mac_id := 20\<rparr>" 6]
  by (simp add: device_interfaces_eq interface_defs)

end
