(* ===== verification/Memory_Claims.thy ===== *)
theory Memory_Claims
  imports Samples
begin

text \<open>
  Properties of the fixed-size block pools and of the mbuf chains built on them.
\<close>

unbundle bit_operations_syntax

section \<open>Memory pools\<close>

text \<open>
  C20. A freshly initialised pool of blocks that hold a pointer (a block size above 4, which the
  alignment rounds up to at least 8 bytes) hands out each of its blocks exactly once, in address
  order, then NULL for ever; the blocks are distinct and not NULL and the pool is sane.
\<close>

theorem mempool_init_gives_all_blocks:
  assumes "mp \<noteq> 0" and "4 < block_size" and "membuf AND 3 = 0" and "0 < blocks"
    and "pool_geom membuf (true_block_size block_size) (unat blocks)" and "mp \<notin> set (hp_list h)"
  shows "\<exists>h'. dpl_mempool_init mp blocks block_size membuf name h = Some (MEM_OK, h') \<and>
    length (pool_blocks (hp_pool h' mp)) = unat blocks \<and> distinct (pool_blocks (hp_pool h' mp)) \<and>
    0 \<notin> set (pool_blocks (hp_pool h' mp)) \<and> dpl_mempool_is_sane mp h' = Some True \<and>
    (\<forall>k. fst (alloc_blocks mp (unat blocks + k) h') = pool_blocks (hp_pool h' mp) @ replicate k 0)"
proof -
  have nz: "block_size \<noteq> 0" using assms(2) by auto
  obtain h' where h: "dpl_mempool_init mp blocks block_size membuf name h = Some (MEM_OK, h')"
    and ok: "pool_ok mp h' (pool_blocks (hp_pool h' mp))" and len: "length (pool_blocks (hp_pool h' mp)) = unat blocks"
    by (rule init_ok[OF assms(1) nz assms(3-6)]) blast
  have "fst (alloc_blocks mp (unat blocks + k) h') = pool_blocks (hp_pool h' mp) @ replicate k 0" for k
    using mempool.gets_drained[OF ok, of k] by (simp add: alloc_blocks_gets len)
  then show ?thesis
    using h ok len is_sane_ok[OF ok] pool_ok_not_null[OF ok] by (auto simp: pool_ok_def Let_def)
qed

lemma mempool_init_gives_all_blocks_witness:
  "\<exists>h'. dpl_mempool_init 0x100 3 54 0x2000 ''p'' (sample_heap\<lparr>hp_list := []\<rparr>) = Some (MEM_OK, h') \<and>
    (\<forall>k. fst (alloc_blocks 0x100 (3 + k) h') = pool_blocks (hp_pool h' 0x100) @ replicate k 0)"
  using mempool_init_gives_all_blocks[of "0x100" 54 "0x2000" 3 "sample_heap\<lparr>hp_list := []\<rparr>" "''p''"]
  by (auto simp: pool_geom_def true_block_size_def)

text \<open>
  C32. Blocks allocated from any well-formed pool are distinct, not NULL and no longer free;
  freeing them in reverse order restores the free list.
\<close>

theorem mempool_free_restores:
  assumes "pool_ok mp h fl" and "n \<le> length fl" and "alloc_blocks mp n h = (bs, h1)"
  shows "distinct bs \<and> 0 \<notin> set bs \<and> set bs \<inter> set (drop n fl) = {} \<and> pool_ok mp h1 (drop n fl) \<and>
    pool_ok mp (foldr (pool_put mp) bs h1) fl"
proof -
  have bs: "bs = take n fl" and h1: "pool_ok mp h1 (drop n fl)"
    using mempool.gets_free[OF assms(1,2)] assms(3) by (simp_all add: alloc_blocks_gets)
  show ?thesis
    using mempool.gets_distinct[OF assms(1,2)] mempool.gets_puts[OF assms(1,2)] assms(3) h1
      mempool.ok_free[OF assms(1)] by (simp add: alloc_blocks_gets bs set_take_disj_set_drop_if_distinct)
qed

lemma mempool_free_restores_witness:
  "distinct (fst (alloc_blocks 0x100 2 sample_heap)) \<and>
   pool_ok 0x100 (foldr (pool_put 0x100) (fst (alloc_blocks 0x100 2 sample_heap)) (snd (alloc_blocks 0x100 2 sample_heap))) sample_free"
  using mempool_free_restores[OF sample_pool_ok _ prod.collapse[symmetric], of 2] by (simp add: sample_free_def)

text \<open>
  \<open>dpl_memblock_from\<close> holds for the block addresses of the pool and no other address.
\<close>

theorem mempool_block_membership:
  assumes "pool_ok mp h fl"
  shows "dpl_memblock_from (hp_pool h mp) a \<longleftrightarrow> a \<in> set (pool_blocks (hp_pool h mp))"
  using assms by (rule memblock_from_iff)

lemma mempool_block_membership_witness:
  "\<not> dpl_memblock_from (hp_pool sample_heap 0x100) 0x1010 \<and> dpl_memblock_from (hp_pool sample_heap 0x100) 0x1038"
  using mempool_block_membership[OF sample_pool_ok, of "0x1010"] mempool_block_membership[OF sample_pool_ok, of "0x1038"]
  by (simp add: sample_pool_blocks)

text \<open>
  Freeing a block twice succeeds both times and links the block to itself: the sanity
  walk never ends and no later state counts as well-formed.
\<close>

theorem mempool_double_free_undetected:
  assumes "pool_ok mp h fl" and "b \<in> set (pool_blocks (hp_pool h mp))"
    and "h1 = snd (dpl_memblock_put_from_cb mp b h)"
  shows "fst (dpl_memblock_put_from_cb mp b h1) = MEM_OK \<and>
    hp_next (snd (dpl_memblock_put_from_cb mp b h1)) b = b \<and>
    dpl_mempool_is_sane mp (snd (dpl_memblock_put_from_cb mp b h1)) = None \<and>
    (\<forall>fl'. \<not> pool_ok mp (snd (dpl_memblock_put_from_cb mp b h1)) fl')"
  using double_free[OF assms refl] by (simp add: dpl_memblock_put_from_cb_def)

lemma mempool_double_free_undetected_witness:
  "dpl_mempool_is_sane 0x100 (snd (dpl_memblock_put_from_cb 0x100 0x1000 (snd (dpl_memblock_put_from_cb 0x100 0x1000 sample_heap)))) = None"
  using mempool_double_free_undetected[OF sample_pool_ok _ refl, of "0x1000"] by (simp add: sample_pool_blocks)

text \<open>
  Blocks of 4 bytes: the next pointer stored in the second block takes the place of the upper
  half of the one stored in the first.
\<close>

lemma small_block_pointers_overlap:
  "get_le64 (put_le64 (put_le64 (replicate 12 0) 0 0x2004) 4 0x2008) 0 = 0x0000200800002004"
  by code_simp

text \<open>
  The argument checks of \<open>dpl_mempool_init\<close>: NULL pool or zero block size, unaligned
  memory; and the missing one, an empty pool without memory, which writes through NULL.
\<close>

theorem mempool_init_rejects:
  "dpl_mempool_init 0 blocks block_size membuf name h = Some (MEM_INVALID_PARAM, h) \<and>
   dpl_mempool_init mp blocks 0 membuf name h = Some (MEM_INVALID_PARAM, h) \<and>
   (mp \<noteq> 0 \<and> block_size \<noteq> 0 \<and> membuf AND 3 \<noteq> 0 \<longrightarrow>
      dpl_mempool_init mp blocks block_size membuf name h = Some (MEM_NOT_ALIGNED, h)) \<and>
   (mp \<noteq> 0 \<and> block_size \<noteq> 0 \<longrightarrow> dpl_mempool_init mp 0 block_size 0 name h = None)"
  by (auto simp: dpl_mempool_init_def link_blocks_def link_loop.simps[of 0] Let_def)

lemma mempool_init_rejects_witness:
  "dpl_mempool_init 0x100 0 8 0 ''p'' sample_heap = None \<and>
   dpl_mempool_init 0x100 4 8 0x2001 ''p'' sample_heap = Some (MEM_NOT_ALIGNED, sample_heap)"
  using mempool_init_rejects[of 4 8 "0x2001" "''p''" sample_heap "0x100"] by simp

section \<open>Mbuf chains\<close>

text \<open>
  C19. \<open>dpl_mbuf_append\<close> appends as much of the data as the last buffer and the pool have
  room for, reports ENOMEM exactly when that is not all, keeps every block accounted for and
  the packet length right.
\<close>

theorem mbuf_append_data:
  assumes "own P B h fl (om @ os)" and "om \<noteq> []" and "len \<le> length data"
  shows "\<exists>om' h' fl'. dpl_mbuf_append om data len h = (if len \<le> room P fl om then MB_OK else MB_ENOMEM, om', h') \<and>
    own P B h' fl' (om' @ os) \<and> chain_data om' = chain_data om @ take (min len (room P fl om)) data \<and>
    (hdr_counts om \<longrightarrow> hdr_counts om')"
  using append_ok[OF assms] by blast

lemma mbuf_append_data_witness:
  "\<exists>om' h' fl'. dpl_mbuf_append [sample_mbuf] (replicate 40 7) 40 sample_heap = (MB_OK, om', h') \<and>
    own sample_pool sample_blocks h' fl' om' \<and> chain_data om' = [0xA, 0xB, 0xC, 0xD] @ replicate 40 7 \<and> hdr_counts om'"
  using mbuf_append_data[of sample_pool sample_blocks sample_heap sample_free "[sample_mbuf]" "[]" 40 "replicate 40 7"]
  by (simp add: sample_own sample_room sample_data sample_hdr)

text \<open>
  C36. \<open>dpl_mbuf_appendfrom\<close> appends the selected range of another chain, when there is
  room, and leaves that chain alone.
\<close>

theorem mbuf_appendfrom_data:
  assumes "own P B h fl (dst @ src @ os)" and "src \<noteq> []" and "dst \<noteq> []"
    and "src_off + len \<le> chain_len src" and "len \<le> room P fl dst"
  shows "\<exists>dst' h' fl'. dpl_mbuf_appendfrom dst src src_off len h = (MB_OK, dst', h') \<and>
    own P B h' fl' (dst' @ src @ os) \<and>
    chain_data dst' = chain_data dst @ take len (drop src_off (chain_data src)) \<and> (hdr_counts dst \<longrightarrow> hdr_counts dst')"
  using appendfrom_ok[of src P, OF _ assms(2,4,1,3,5)] own_ok[OF assms(1)] by auto

lemma mbuf_appendfrom_data_witness:
  "\<exists>dst' h' fl'. dpl_mbuf_appendfrom [sample_tail] [sample_head] 1 3 sample_heap2 = (MB_OK, dst', h') \<and>
    own sample_pool sample_blocks h' fl' (dst' @ [sample_head]) \<and> chain_data dst' = [0xE, 0xF, 0xB, 0xC, 0xD]"
  using mbuf_appendfrom_data[of sample_pool sample_blocks sample_heap2 "[0x1070]" "[sample_tail]" "[sample_head]" "[]" 1 3]
    own_swap[of sample_pool sample_blocks sample_heap2 "[0x1070]" "[sample_head]" "[sample_tail]"] sample_own2
  by (simp add: sample_room2) blast

text \<open>
  \<open>dpl_mbuf_copydata\<close> copies the bytes of the chain from an offset, as many as there
  are, and fails exactly when there are too few.
\<close>

theorem mbuf_copydata_reads:
  assumes "own P B h fl om"
  shows "dpl_mbuf_copydata om (int off) (int len) =
    (if len = 0 \<or> off + len \<le> chain_len om then 0 else -1, take len (drop off (chain_data om)))"
  using copydata_ok own_ok[OF assms] by blast

lemma mbuf_copydata_reads_witness:
  "dpl_mbuf_copydata [sample_mbuf] (int 1) (int 2) = (0, [0xB, 0xC]) \<and>
   dpl_mbuf_copydata [sample_mbuf] (int 3) (int 2) = (-1, [0xD])"
  using mbuf_copydata_reads[OF sample_own, of 1 2] mbuf_copydata_reads[OF sample_own, of 3 2]
  by (simp add: sample_data)

text \<open>
  Comparing a chain with flat data, or with another chain, gives 0 exactly when the range
  lies inside and the bytes agree.
\<close>

theorem mbuf_compare:
  assumes "own P B h fl (om1 @ om2 @ os)" and "om1 \<noteq> []" and "om2 \<noteq> []" and "len < 65536" and "len \<le> length data"
  shows "(dpl_mbuf_cmpf om1 (int off) data (int len) = 0 \<longleftrightarrow>
      len = 0 \<or> (off + len \<le> chain_len om1 \<and> take len (drop off (chain_data om1)) = take len data)) \<and>
    (dpl_mbuf_cmpm om1 off om2 off2 len = 0 \<longleftrightarrow>
      len = 0 \<or> (off + len \<le> chain_len om1 \<and> off2 + len \<le> chain_len om2 \<and>
        take len (drop off (chain_data om1)) = take len (drop off2 (chain_data om2))))"
proof -
  have "\<forall>m \<in> set om1. mbuf_ok P m" "\<forall>m \<in> set om2. mbuf_ok P m" using own_ok[OF assms(1)] by auto
  then show ?thesis using cmpf_ok[OF _ assms(2,4,5)] cmpm_ok[OF _ assms(2) _ assms(3)] by blast
qed

lemma mbuf_compare_witness:
  "dpl_mbuf_cmpf [sample_head] (int 1) [0xB, 0xC] (int 2) = 0 \<and> dpl_mbuf_cmpm [sample_head] 0 [sample_tail] 0 1 \<noteq> 0"
  using mbuf_compare[of sample_pool sample_blocks sample_heap2 "[0x1070]" "[sample_head]" "[sample_tail]" "[]" 2 "[0xB, 0xC]" 1]
    mbuf_compare[of sample_pool sample_blocks sample_heap2 "[0x1070]" "[sample_head]" "[sample_tail]" "[]" 1 "[0xB]" 0 0]
    sample_own2 by simp

text \<open>
  \<open>dpl_mbuf_dup\<close> yields a chain of fresh blocks with the same bytes when the pool has
  as many free blocks as the chain has buffers, and otherwise NULL with every block freed.
\<close>

theorem mbuf_dup_copies:
  assumes "own P B h fl (om @ os)" and "om \<noteq> []"
  shows "\<exists>copy h' fl'. dpl_mbuf_dup cb om h = (copy, h') \<and> own P B h' fl' (copy @ om @ os) \<and>
    (if length om \<le> length fl then chain_data copy = chain_data om \<and> (hdr_counts om \<longrightarrow> hdr_counts copy) else copy = [])"
proof (cases "length om \<le> length fl")
  case True
  then show ?thesis using dup_ok[OF assms True, of cb] by (simp, blast)
next
  case False
  then obtain h' fl' where "dpl_mbuf_dup cb om h = ([], h')" and "own P B h' fl' (om @ os)"
    using dup_fail[OF assms, of cb] by auto
  with False show ?thesis by auto
qed

lemma mbuf_dup_copies_witness:
  "\<exists>copy h' fl'. dpl_mbuf_dup sample_cb [sample_mbuf] sample_heap = (copy, h') \<and>
    own sample_pool sample_blocks h' fl' (copy @ [sample_mbuf]) \<and> chain_data copy = [0xA, 0xB, 0xC, 0xD] \<and> hdr_counts copy"
proof -
  obtain copy h' fl' where "dpl_mbuf_dup sample_cb [sample_mbuf] sample_heap = (copy, h')"
    and "own sample_pool sample_blocks h' fl' (copy @ [sample_mbuf])"
    and "chain_data copy = chain_data [sample_mbuf] \<and> (hdr_counts [sample_mbuf] \<longrightarrow> hdr_counts copy)"
    using mbuf_dup_copies[of sample_pool sample_blocks sample_heap sample_free "[sample_mbuf]" "[]" sample_cb] sample_own
    by (auto simp: sample_free_def)
  then show ?thesis using sample_hdr(1) by auto
qed

text \<open>
  C34. \<open>dpl_mbuf_adj\<close> drops bytes from the front for a positive and from the end for a
  negative argument, and keeps the packet length right.
\<close>

theorem mbuf_adj_trims:
  assumes "own P B h fl (om @ os)" and "om \<noteq> []"
  shows "\<exists>om' h' fl'. dpl_mbuf_adj cb om n h = (om', h') \<and> own P B h' fl' (om' @ os) \<and>
    chain_data om' = (if 0 \<le> n then drop (nat n) (chain_data om) else take (chain_len om - nat (- n)) (chain_data om)) \<and>
    (hdr_counts om \<longrightarrow> hdr_counts om')"
proof (cases "0 \<le> n")
  case True
  then show ?thesis using adj_pos[OF assms, of cb "nat n"] by auto
next
  case False
  then show ?thesis using adj_neg[OF assms, of "nat (- n)" cb] by auto
qed

lemma mbuf_adj_trims_witness:
  "\<exists>om' h' fl'. dpl_mbuf_adj sample_cb [sample_mbuf] (-3) sample_heap = (om', h') \<and>
    own sample_pool sample_blocks h' fl' om' \<and> chain_data om' = [0xA] \<and> hdr_counts om'"
  using mbuf_adj_trims[of sample_pool sample_blocks sample_heap sample_free "[sample_mbuf]" "[]" sample_cb "-3"]
  by (simp add: sample_own sample_data sample_hdr)

text \<open>
  C35. \<open>dpl_mbuf_prepend\<close> makes the asked space in front of the data when the leading space
  and the free blocks suffice; otherwise it frees the chain and returns NULL.
\<close>

theorem mbuf_prepend_room:
  assumes "own P B h fl (om @ os)" and "om \<noteq> []"
  shows "\<exists>om' h' fl'. dpl_mbuf_prepend cb om len h = (om', h') \<and> own P B h' fl' (om' @ os) \<and>
    (if len \<le> front_room P fl om
     then om' \<noteq> [] \<and> (\<exists>xs. length xs = len \<and> chain_data om' = xs @ chain_data om) \<and> (hdr_counts om \<longrightarrow> hdr_counts om')
     else om' = [])"
  using prepend_ok[OF assms] .

lemma mbuf_prepend_room_witness:
  "\<exists>om' h' fl'. dpl_mbuf_prepend sample_cb [sample_mbuf] 10 sample_heap = (om', h') \<and>
    own sample_pool sample_blocks h' fl' om' \<and> (\<exists>xs. length xs = 10 \<and> chain_data om' = xs @ [0xA, 0xB, 0xC, 0xD]) \<and> hdr_counts om'"
  using mbuf_prepend_room[of sample_pool sample_blocks sample_heap sample_free "[sample_mbuf]" "[]" sample_cb 10]
  by (simp add: sample_own sample_room sample_data sample_hdr) blast

text \<open>
  \<open>dpl_mbuf_copyinto\<close> inside the chain overwrites exactly the selected bytes.
\<close>

theorem mbuf_copyinto_overwrites:
  assumes "own P B h fl (om @ os)" and "om \<noteq> []" and "off + len \<le> chain_len om" and "len \<le> length src"
  shows "\<exists>om'. dpl_mbuf_copyinto om (int off) src (int len) h = (MB_OK, om', h) \<and> own P B h fl (om' @ os) \<and>
    chain_data om' = take off (chain_data om) @ take len src @ drop (off + len) (chain_data om) \<and>
    (hdr_counts om \<longrightarrow> hdr_counts om')"
  using copyinto_inside[OF assms] .

lemma mbuf_copyinto_overwrites_witness:
  "\<exists>om'. dpl_mbuf_copyinto [sample_mbuf] (int 1) [1, 2] (int 2) sample_heap = (MB_OK, om', sample_heap) \<and>
    chain_data om' = [0xA, 1, 2, 0xD] \<and> hdr_counts om'"
  using mbuf_copyinto_overwrites[of sample_pool sample_blocks sample_heap sample_free "[sample_mbuf]" "[]" 1 2 "[1, 2]"]
  by (simp add: sample_own sample_data sample_hdr) blast

text \<open>
  \<open>dpl_mbuf_copyinto\<close> past the end overwrites and extends the data; but in a chain of
  two or more buffers the packet length becomes the maximum of the old one and offset plus the
  number of bytes past the end, which is too small.
\<close>

theorem mbuf_copyinto_grows:
  assumes "own P B h fl (om @ os)" and "om \<noteq> []" and "off \<le> chain_len om" and "chain_len om < off + len"
    and "len \<le> length src" and "len < 65536" and "off + len - chain_len om \<le> room P fl om"
  shows "\<exists>om' h' fl'. dpl_mbuf_copyinto om (int off) src (int len) h = (MB_OK, om', h') \<and> own P B h' fl' (om' @ os) \<and>
    chain_data om' = take off (chain_data om) @ take len src \<and>
    (DPL_MBUF_IS_PKTHDR (hd om) \<and> 2 \<le> length om \<longrightarrow>
      DPL_MBUF_PKTLEN (hd om') =
        of_int (max (uint (DPL_MBUF_PKTLEN (hd om))) (int off + int (off + len - chain_len om))))"
  using copyinto_past_end[OF assms] .

lemma mbuf_copyinto_grows_witness:
  "\<exists>om' h'. dpl_mbuf_copyinto [sample_head, sample_tail] (int 5) [1, 2, 3, 4] (int 4) sample_heap2 = (MB_OK, om', h') \<and>
    chain_data om' = [0xA, 0xB, 0xC, 0xD, 0xE, 1, 2, 3, 4] \<and> DPL_MBUF_PKTLEN (hd om') = 8"
proof -
  have "own sample_pool sample_blocks sample_heap2 [0x1070] ([sample_head, sample_tail] @ [])" using sample_own2 by simp
  from mbuf_copyinto_grows[OF this, of 5 4 "[1, 2, 3, 4]"]
  obtain om' h' where "dpl_mbuf_copyinto [sample_head, sample_tail] (int 5) [1, 2, 3, 4] (int 4) sample_heap2 = (MB_OK, om', h')"
    and "chain_data om' = [0xA, 0xB, 0xC, 0xD, 0xE, 1, 2, 3, 4]" and "DPL_MBUF_PKTLEN (hd om') = 8"
    by (simp add: sample_room2 sample_hdr2) blast
  then show ?thesis by blast
qed

text \<open>
  \<open>dpl_mbuf_concat\<close> joins the data of two chains and adds the packet lengths.
\<close>

theorem mbuf_concat_joins:
  assumes "own P B h fl (first @ second @ os)" and "first \<noteq> []" and "second \<noteq> []"
  shows "own P B h fl (dpl_mbuf_concat first second @ os) \<and>
    chain_data (dpl_mbuf_concat first second) = chain_data first @ chain_data second \<and>
    (hdr_counts first \<and> hdr_counts second \<longrightarrow> hdr_counts (dpl_mbuf_concat first second))"
  using concat_ok[OF assms] by blast

lemma mbuf_concat_joins_witness:
  "chain_data (dpl_mbuf_concat [sample_head] [sample_tail]) = [0xA, 0xB, 0xC, 0xD, 0xE, 0xF]"
  using mbuf_concat_joins[of sample_pool sample_blocks sample_heap2 "[0x1070]" "[sample_head]" "[sample_tail]" "[]"] sample_own2
  by simp

text \<open>
  C21. \<open>dpl_mbuf_pullup\<close> always returns; if it does not return NULL the bytes are the same
  and the asked number of them is in the first buffer; and it succeeds when the bytes exist,
  fit into one buffer and a block is free.
\<close>

theorem mbuf_pullup_contiguous:
  assumes "own P B h fl (om @ os)" and "om \<noteq> []"
  shows "\<exists>om' h' fl'. dpl_mbuf_pullup cb om len h = Some (om', h') \<and> own P B h' fl' (om' @ os) \<and>
    (om' \<noteq> [] \<longrightarrow> chain_data om' = chain_data om \<and> len \<le> om_len (hd om') \<and> (hdr_counts om \<longrightarrow> hdr_counts om')) \<and>
    (len \<le> chain_len om \<and> len \<le> omp_databuf_len P - om_pkthdr_len (hd om) \<and> fl \<noteq> [] \<longrightarrow> om' \<noteq> [])"
  using pullup_ok[OF assms] .

lemma mbuf_pullup_contiguous_witness:
  "\<exists>om' h'. dpl_mbuf_pullup sample_cb [sample_mbuf] 4 sample_heap = Some (om', h') \<and> chain_data om' = [0xA, 0xB, 0xC, 0xD] \<and> 4 \<le> om_len (hd om')"
  using mbuf_pullup_contiguous[of sample_pool sample_blocks sample_heap sample_free "[sample_mbuf]" "[]" sample_cb 4]
    sample_own by (simp add: sample_free_def, blast)

text \<open>
  With the pools sorted by size, \<open>dpl_msys_find_pool\<close> finds a smallest one that is
  large enough.
\<close>

theorem msys_pool_choice:
  assumes "dsize \<le> omp_databuf_len q" and "q \<in> set pools" and "sorted (map omp_databuf_len pools)"
  shows "\<exists>p \<in> set pools. dpl_msys_find_pool pools dsize = Some p \<and> dsize \<le> omp_databuf_len p \<and>
    omp_databuf_len p \<le> omp_databuf_len q"
proof -
  obtain pre p post where "pools = pre @ p # post" "dpl_msys_find_pool pools dsize = Some p" "dsize \<le> omp_databuf_len p"
    using find_pool_first[of pools dsize] assms(1,2) by blast
  then show ?thesis using find_pool_best[OF assms(3,2,1)] by auto
qed

lemma msys_pool_choice_witness:
  "\<exists>p. dpl_msys_find_pool [sample_pool, sample_pool\<lparr>omp_databuf_len := 100\<rparr>] 50 = Some p \<and> 50 \<le> omp_databuf_len p"
  using msys_pool_choice[of 50 "sample_pool\<lparr>omp_databuf_len := 100\<rparr>" "[sample_pool, sample_pool\<lparr>omp_databuf_len := 100\<rparr>]"]
  by auto

end
