(* ===== verification/Dpl_Time.thy ===== *)
theory Dpl_Time
  imports Prelude
begin

text \<open>
  Time: porting/dpl/linux/src/dpl_time.c (the tick counter, microseconds since start in
  32 bits, and its conversions) and the tick conversions of the CPU time for timers of a
  power of two Hz (porting/dpl_lib/src/dpl_cputime_pwr2.c) and of more than 1 MHz
  (dpl_cputime_high.c). The platform clock and the configured frequency are parameters;
  ticks are microseconds (\<open>DPL_TICKS_PER_SEC\<close> is 1000000).
\<close>

unbundle bit_operations_syntax

section \<open>The code\<close>

text \<open>The loop that reduces the 64-bit count of microseconds to 32 bits.\<close>

function fold_time :: "u64 \<Rightarrow> u64" where
  "fold_time v = (if v > 0xFFFFFFFF then fold_time (v - 0xFFFFFFFF) else v)"
  by pat_completeness auto
termination
proof (relation "measure unat")
  fix v :: u64
  assume "v > 0xFFFFFFFF"
  then have "(0xFFFFFFFF :: u64) \<le> v" by simp
  then have "unat (v - 0xFFFFFFFF) = unat v - unat (0xFFFFFFFF :: u64)" by (rule unat_sub)
  moreover have "unat (0xFFFFFFFF :: u64) < unat v" using \<open>v > 0xFFFFFFFF\<close> by (simp only: word_less_nat_alt)
  ultimately show "(v - 0xFFFFFFFF, v) \<in> measure unat" by simp
qed simp

declare fold_time.simps [simp del]

text \<open>A failed \<open>clock_gettime\<close> is None; a timespec is a pair of seconds and nanoseconds.\<close>

definition dpl_time_get :: "(u64 \<times> u64) option \<Rightarrow> u32" where
  "dpl_time_get now = (case now of None \<Rightarrow> 0
     | Some (sec, nsec) \<Rightarrow> ucast (fold_time (sec * 1000000 + nsec div 1000)))"

definition dpl_time_ms_to_ticks :: "u32 \<Rightarrow> u32" where
  "dpl_time_ms_to_ticks ms = ms * 1000"

definition dpl_time_ticks_to_ms :: "u32 \<Rightarrow> u32" where
  "dpl_time_ticks_to_ms ticks = ticks div 1000"

definition dpl_time_delay :: "u32 \<Rightarrow> u32 \<times> u32" where
  "dpl_time_delay ticks = (let us = ticks; s = us div 1000000; us = us - s * 1000000 in (s, us * 1000))"

text \<open>CPU time, a power of two Hz.\<close>

definition pwr2_usecs_to_ticks :: "u64 \<Rightarrow> u32 \<Rightarrow> u32" where
  "pwr2_usecs_to_ticks freq usecs =
     ucast (drop_bit 32 (((push_bit 32 1 :: u64) * freq) div 1000000 * ucast usecs))"

function bit_length :: "u32 \<Rightarrow> nat" where
  "bit_length freq = (if freq \<noteq> 0 then Suc (bit_length (drop_bit 1 freq)) else 0)"
  by pat_completeness auto
termination
proof (relation "measure unat")
  fix f :: u32
  assume "f \<noteq> 0"
  then show "(drop_bit 1 f, f) \<in> measure unat" using unat_half_less[of f] by (simp del: drop_bit_Suc)
qed simp

declare bit_length.simps [simp del]

definition pwr2_ticks_to_usecs :: "u32 \<Rightarrow> u32 \<Rightarrow> u32" where
  "pwr2_ticks_to_usecs freq ticks =
     (let shift = bit_length freq
      in if shift \<le> 7 then 0
         else let shift = shift - 7
              in drop_bit shift ticks * 15625 + drop_bit shift ((ticks AND 0x1FF) * 15625))"

text \<open>CPU time above 1 MHz; the ticks per microsecond are set from the frequency.\<close>

definition cputime_ticks_per_usec :: "u32 \<Rightarrow> u32" where
  "cputime_ticks_per_usec clock_freq = clock_freq div 1000000"

definition high_usecs_to_ticks :: "u32 \<Rightarrow> u32 \<Rightarrow> u32" where
  "high_usecs_to_ticks tpu usecs = usecs * tpu"

definition high_ticks_to_usecs :: "u32 \<Rightarrow> u32 \<Rightarrow> u32" where
  "high_ticks_to_usecs tpu ticks = (ticks + tpu - 1) div tpu"

definition high_nsecs_to_ticks :: "u32 \<Rightarrow> u32 \<Rightarrow> u32" where
  "high_nsecs_to_ticks tpu nsecs = (nsecs * tpu + 999) div 1000"

definition high_ticks_to_nsecs :: "u32 \<Rightarrow> u32 \<Rightarrow> u32" where
  "high_ticks_to_nsecs tpu ticks = (ticks * 1000 + tpu - 1) div tpu"

section \<open>Lemmas\<close>

text \<open>The reduction is modulo \<open>2 ^ 32 - 1\<close>, one less than the range of the counter.\<close>

lemma fold_time_bound: "fold_time v \<le> 0xFFFFFFFF"
  by (induction v rule: fold_time.induct) (subst fold_time.simps, auto simp: not_less)

lemma fold_time_eq: "0 < v \<Longrightarrow> unat (fold_time v) = (unat v - 1) mod 4294967295 + 1"
proof (induction v rule: fold_time.induct)
  case (1 v)
  have M: "unat (0xFFFFFFFF :: u64) = 4294967295" by simp
  show ?case
  proof (cases "v > 0xFFFFFFFF")
    case True
    then have le: "(0xFFFFFFFF :: u64) \<le> v" by simp
    have "4294967295 < unat v" using True M by (simp only: word_less_nat_alt)
    moreover have "unat (v - 0xFFFFFFFF) = unat v - 4294967295" using unat_sub[OF le] M by simp
    ultimately have v: "unat v - 1 = (unat (v - 0xFFFFFFFF) - 1) + 4294967295" and "0 < unat (v - 0xFFFFFFFF)"
      by simp_all
    then have "0 < v - 0xFFFFFFFF" by (simp only: word_less_nat_alt unat_0)
    then show ?thesis using 1(1)[OF True] True v by (subst fold_time.simps) simp
  next
    case False
    then have "unat v \<le> 4294967295" using M by (simp only: not_less word_le_nat_alt)
    moreover have "0 < unat v" using 1(2) by (simp only: word_less_nat_alt unat_0)
    ultimately show ?thesis using False by (subst fold_time.simps) simp
  qed
qed

text \<open>The conversions as arithmetic on natural numbers.\<close>

lemma unat_lt_32: "unat (w :: u32) < 2 ^ 32"
  using unsigned_less[of w] by simp

lemma pwr2_usecs_to_ticks_nat:
  assumes "unat freq \<le> 524288"
  shows "unat (pwr2_usecs_to_ticks freq usecs) = (4294967296 * unat freq div 1000000 * unat usecs) div 4294967296"
proof -
  define k where k: "k = 4294967296 * unat freq div 1000000"
  have "(push_bit 32 1 :: u64) = 4294967296" by (simp add: push_bit_eq_mult)
  then have "unat ((push_bit 32 1 :: u64) * freq) = 4294967296 * unat freq"
    using assms by (simp add: unat_word_ariths)
  then have "unat (((push_bit 32 1 :: u64) * freq) div 1000000) = k"
    by (simp add: unat_div k)
  moreover have kle: "k \<le> 2251799813" using assms by (simp add: k)
  moreover have "k * unat usecs < 2251799814 * 4294967296"
    using kle unat_lt_32[of usecs] by (intro mult_strict_mono) auto
  moreover define W where W: "W = ((push_bit 32 1 :: u64) * freq) div 1000000 * ucast usecs"
  ultimately have "unat W = k * unat usecs"
    unfolding W by (simp add: unat_word_ariths(2) unat_ucast_32_64)
  moreover have "k * unat usecs div 4294967296 < 4294967296"
    using \<open>k * unat usecs < _\<close> by (simp add: less_mult_imp_div_less)
  ultimately show ?thesis
    unfolding pwr2_usecs_to_ticks_def k[symmetric] W[symmetric]
    by (simp add: unsigned_ucast_eq drop_bit_eq_div unat_div take_bit_nat_eq_self)
qed

lemma floor_product_bound:
  fixes a b u m n :: nat
  assumes "0 < m" and "0 < n" and "u < n"
  shows "(a * n div m * u) div n \<le> a * u div m" and "a * u div m \<le> (a * n div m * u) div n + 1"
proof -
  have eq: "a * n * u div m div n = a * u div m"
    using assms(2) by (metis div_mult2_eq div_mult_mult2 mult.assoc mult.commute not_gr_zero)
  have "(a * n div m) * m \<le> a * n" by (rule div_times_less_eq_dividend)
  then have "(a * n div m) * m * u \<le> a * n * u" by (rule mult_le_mono1)
  then have "a * n div m * u \<le> a * n * u div m"
    using assms(1) by (simp add: less_eq_div_iff_mult_less_eq ac_simps)
  then show "(a * n div m * u) div n \<le> a * u div m" unfolding eq[symmetric] by (rule div_le_mono)
  have "a * n < (a * n div m + 1) * m" using assms(1) by (simp add: dividend_less_div_times)
  then have "a * n * u \<le> (a * n div m + 1) * m * u" by (simp add: mult_le_mono1)
  also have "\<dots> = (a * n div m * u + u) * m" by (simp add: algebra_simps)
  also have "\<dots> \<le> (a * n div m * u + n) * m" using assms(3) by (intro mult_le_mono1) simp
  finally have "a * n * u div m \<le> a * n div m * u + n"
    using assms(1) by (metis div_le_mono div_mult_self_is_m)
  then have "a * n * u div m div n \<le> (a * n div m * u + n) div n" by (rule div_le_mono)
  also have "\<dots> = (a * n div m * u) div n + 1" using assms(2) by (simp add: div_add_self2)
  finally have "a * n * u div m div n \<le> (a * n div m * u) div n + 1" .
  then show "a * u div m \<le> (a * n div m * u) div n + 1" unfolding eq .
qed

lemma bit_length_32768: "bit_length 32768 = 16"
  by (simp add: bit_length.simps drop_bit_eq_div)

lemma bit_length_256: "bit_length 256 = 9"
  by (simp add: bit_length.simps drop_bit_eq_div)

text \<open>For 32768 Hz the shift is 9 and the mask its low bits: an exact division by 512.\<close>

lemma pwr2_32768_exact: "pwr2_ticks_to_usecs 32768 ticks = of_nat (unat ticks * 1000000 div 32768)"
proof -
  let ?t = "unat ticks"
  have mask: "ticks AND 0x1FF = of_nat (?t mod 512)"
  proof -
    have "ticks AND 0x1FF = take_bit 9 ticks" by (simp add: take_bit_eq_mask mask_eq_exp_minus_1)
    then show ?thesis by (simp add: take_bit_eq_mod word_unat_eq_iff unat_mod unsigned_of_nat take_bit_nat_eq_self)
  qed
  have m: "?t mod 512 * 15625 < 4294967296" using mod_less_divisor[of 512 ?t] by simp
  have word: "of_nat (?t mod 512) * 15625 = (of_nat (?t mod 512 * 15625) :: u32)" by simp
  have val: "unat (of_nat (?t mod 512 * 15625) :: u32) = ?t mod 512 * 15625"
    using m by (simp add: unsigned_of_nat take_bit_nat_eq_self del: of_nat_mult)
  have small: "?t mod 512 * 15625 div 512 < 4294967296" using m by (rule le_less_trans[OF div_le_dividend])
  have "drop_bit 9 (of_nat (?t mod 512) * 15625 :: u32) = of_nat (?t mod 512 * 15625) div 512"
    by (simp add: word drop_bit_eq_div del: of_nat_mult)
  also have "\<dots> = of_nat (?t mod 512 * 15625 div 512)"
    using small by (simp add: word_unat_eq_iff unat_div val unsigned_of_nat[of "_ div _"] take_bit_nat_eq_self del: of_nat_mult)
  finally have low: "drop_bit 9 (of_nat (?t mod 512) * 15625 :: u32) = of_nat (?t mod 512 * 15625 div 512)" .
  have "?t div 512 < 4294967296"
    using unat_lt_32[of ticks] by (intro le_less_trans[OF div_le_dividend]) simp
  then have "drop_bit 9 ticks = of_nat (?t div 512)"
    by (simp add: drop_bit_eq_div word_unat_eq_iff unat_div unsigned_of_nat take_bit_nat_eq_self)
  then have "pwr2_ticks_to_usecs 32768 ticks = of_nat (?t div 512 * 15625 + ?t mod 512 * 15625 div 512)"
    using low mask by (simp add: pwr2_ticks_to_usecs_def bit_length_32768 Let_def)
  also have "?t div 512 * 15625 + ?t mod 512 * 15625 div 512 = ?t * 15625 div 512"
  proof -
    have split: "(a * 512 + b) * 15625 = b * 15625 + a * 15625 * 512" for a b :: nat by simp
    have "?t * 15625 = (?t div 512 * 512 + ?t mod 512) * 15625" by (simp only: div_mult_mod_eq)
    then have "?t * 15625 = ?t mod 512 * 15625 + ?t div 512 * 15625 * 512" by (simp only: split)
    then show ?thesis by simp
  qed
  also have "\<dots> = ?t * 1000000 div 32768"
    using div_mult_mult2[of 64 "?t * 15625" 512] by (simp add: mult.assoc)
  finally show ?thesis .
qed

end
