(* ===== verification/Hal_Timer.thy ===== *)
theory Hal_Timer
  imports Dpl_Time
begin

text \<open>
  The timer of the native port, porting/dpl_hal/src/hal_timer.c: a queue of timers kept
  in the order of expiry, a 32-bit tick counter advanced whenever it is read, and one
  interval timer of the operating system that is programmed for the first of the queue.

  A timer is named by its address. The queue is the list of the addresses; \<open>ht_linked\<close>
  says whether the link's back pointer is set, the code's test for membership. Starting a
  timer that is already on the queue is not checked for: the code links it in a second time,
  after which the links spell no list any more (Hal_Timer_Queue models them and proves it).
  The list cannot say what follows; that start is None, undefined. What
  \<open>dpl_time_get\<close> returns at each call is an argument, what the interval timer was last
  programmed to is part of the state (seconds and nanoseconds; both 0 disarm it).
\<close>

unbundle bit_operations_syntax

section \<open>The code\<close>

type_synonym timer_id = nat

record native_timer =
  ticks_per_ostick :: u32
  nt_cnt :: u32
  last_ostime :: u32
  nt_timers :: "timer_id list"
  nt_settime :: "nat \<times> nat"

record hal_state =
  hal_nt :: native_timer
  ht_expiry :: "timer_id \<Rightarrow> u32"
  ht_linked :: "timer_id \<Rightarrow> bool"

abbreviation timers :: "'a hal_state_scheme \<Rightarrow> timer_id list" where
  "timers s \<equiv> nt_timers (hal_nt s)"

definition on_nt :: "(native_timer \<Rightarrow> native_timer) \<Rightarrow> 'a hal_state_scheme \<Rightarrow> 'a hal_state_scheme" where
  "on_nt f s = s\<lparr>hal_nt := f (hal_nt s)\<rparr>"

text \<open>Only timer 0 exists; the other numbers give -1.\<close>

definition hal_timer_config :: "nat \<Rightarrow> u32 \<Rightarrow> u32 \<Rightarrow> 'a hal_state_scheme \<Rightarrow> int \<times> 'a hal_state_scheme" where
  "hal_timer_config num clock_freq ostime s =
     (if num \<noteq> 0 then (-1, s)
      else (0, on_nt (\<lambda>nt. nt\<lparr>ticks_per_ostick := (let k = clock_freq div 1000000 in if k = 0 then 1 else k),
                                nt_cnt := 0, last_ostime := ostime\<rparr>) s))"

definition hal_timer_get_resolution :: "int \<Rightarrow> 'a hal_state_scheme \<Rightarrow> u32 option" where
  "hal_timer_get_resolution num s = (if num \<ge> 0 then Some 0 else None)"

definition hal_timer_read :: "nat \<Rightarrow> u32 \<Rightarrow> 'a hal_state_scheme \<Rightarrow> u32 \<times> 'a hal_state_scheme" where
  "hal_timer_read num ostime s =
     (if num \<noteq> 0 then (-1, s)
      else
        let nt = hal_nt s;
            delta_osticks = ostime - last_ostime nt;
            s' = (if delta_osticks \<noteq> 0
                  then on_nt (\<lambda>nt. nt\<lparr>last_ostime := ostime,
                         nt_cnt := nt_cnt nt + ticks_per_ostick nt * delta_osticks\<rparr>) s
                  else s)
        in (nt_cnt (hal_nt s'), s'))"

text \<open>
  The busy wait, over the values the clock takes at the successive reads; None when the
  values given do not end it.
\<close>

fun delay_loop :: "u32 \<Rightarrow> u32 list \<Rightarrow> 'a hal_state_scheme \<Rightarrow> 'a hal_state_scheme option" where
  "delay_loop until [] s = None"
| "delay_loop until (ostime # ostimes) s =
     (let (now, s') = hal_timer_read 0 ostime s
      in if sint (now - until) \<le> 0 then delay_loop until ostimes s' else Some s')"

fun hal_timer_delay :: "nat \<Rightarrow> u32 \<Rightarrow> u32 list \<Rightarrow> 'a hal_state_scheme \<Rightarrow> (int \<times> 'a hal_state_scheme) option" where
  "hal_timer_delay num ticks [] s = (if num \<noteq> 0 then Some (-1, s) else None)"
| "hal_timer_delay num ticks (ostime # ostimes) s =
     (if num \<noteq> 0 then Some (-1, s)
      else let (now, s') = hal_timer_read 0 ostime s
           in map_option (\<lambda>s. (0, s)) (delay_loop (now + ticks) ostimes s'))"

definition hal_timer_set_cb :: "nat \<Rightarrow> timer_id \<Rightarrow> 'a hal_state_scheme \<Rightarrow> int \<times> 'a hal_state_scheme" where
  "hal_timer_set_cb num t s =
     (if num \<noteq> 0 then (-1, s) else (0, s\<lparr>ht_linked := (ht_linked s)(t := False)\<rparr>))"

definition its_value :: "u32 \<Rightarrow> nat \<times> nat" where
  "its_value ticks = (unat (ticks div 1000000), unat ((ticks mod 1000000) * 1000 mod 1000000000))"

definition settime :: "nat \<times> nat \<Rightarrow> 'a hal_state_scheme \<Rightarrow> 'a hal_state_scheme" where
  "settime v = on_nt (\<lambda>nt. nt\<lparr>nt_settime := v\<rparr>)"

text \<open>The place of a timer: before the first one that expires later, else at the end.\<close>

fun insert_timer :: "(timer_id \<Rightarrow> u32) \<Rightarrow> timer_id \<Rightarrow> timer_id list \<Rightarrow> timer_id list" where
  "insert_timer ex t [] = [t]"
| "insert_timer ex t (ht # q) =
     (if sint (ex t - ex ht) < 0 then t # ht # q else ht # insert_timer ex t q)"

definition enqueue :: "timer_id \<Rightarrow> u32 \<Rightarrow> 'a hal_state_scheme \<Rightarrow> 'a hal_state_scheme" where
  "enqueue t tick s =
     (let s = s\<lparr>ht_expiry := (ht_expiry s)(t := tick)\<rparr>
      in (on_nt (\<lambda>nt. nt\<lparr>nt_timers := insert_timer (ht_expiry s) t (nt_timers nt)\<rparr>) s)
           \<lparr>ht_linked := (ht_linked s)(t := True)\<rparr>)"

text \<open>None: the timer is queued already, and linking it in a second time breaks the links of the queue.\<close>

definition hal_timer_start_at :: "timer_id \<Rightarrow> u32 \<Rightarrow> u32 \<Rightarrow> 'a hal_state_scheme \<Rightarrow> 'a hal_state_scheme option" where
  "hal_timer_start_at t tick ostime s =
     (if t \<in> set (timers s) then None
      else
        let (curtime, s) = hal_timer_read 0 ostime (enqueue t tick s)
        in Some (if sint (tick - curtime) \<le> 0 then settime (0, 1000) s
                 else if hd (timers s) = t
                 then settime (its_value ((tick - curtime) div ticks_per_ostick (hal_nt s))) s
                 else s))"

definition hal_timer_start :: "timer_id \<Rightarrow> u32 \<Rightarrow> u32 \<Rightarrow> u32 \<Rightarrow> 'a hal_state_scheme \<Rightarrow> 'a hal_state_scheme option" where
  "hal_timer_start t ticks ostime1 ostime2 s =
     (let (now, s) = hal_timer_read 0 ostime1 s in hal_timer_start_at t (ticks + now) ostime2 s)"

definition at_least_1 :: "u32 \<Rightarrow> u32" where
  "at_least_1 ticks = (if ticks = 0 then 1 else ticks)"

definition dequeue :: "timer_id \<Rightarrow> 'a hal_state_scheme \<Rightarrow> 'a hal_state_scheme" where
  "dequeue t s =
     (on_nt (\<lambda>nt. nt\<lparr>nt_timers := remove1 t (nt_timers nt)\<rparr>) s)\<lparr>ht_linked := (ht_linked s)(t := False)\<rparr>"

definition hal_timer_stop :: "timer_id \<Rightarrow> u32 \<Rightarrow> 'a hal_state_scheme \<Rightarrow> 'a hal_state_scheme" where
  "hal_timer_stop t ostime s =
     (if \<not> ht_linked s t then s
      else
        let q = timers s;
            reset_ocmp = (q \<noteq> [] \<and> hd q = t);
            s = dequeue t s
        in if \<not> reset_ocmp then s
           else (case tl q of
                   [] \<Rightarrow> settime (0, 0) s
                 | ht # _ \<Rightarrow>
                     let (now, s) = hal_timer_read 0 ostime s
                     in settime (its_value (at_least_1 ((ht_expiry s ht - now) div ticks_per_ostick (hal_nt s)))) s))"

text \<open>
  The expiry handler: \<open>run t\<close> is the effect of the callback of \<open>t\<close>, which may start and
  stop timers. The loop need not end if a callback re-arms its timer in the past.
\<close>

partial_function (option) fire_loop ::
    "(timer_id \<Rightarrow> 'a hal_state_scheme \<Rightarrow> 'a hal_state_scheme) \<Rightarrow> u32 \<Rightarrow> 'a hal_state_scheme \<Rightarrow> 'a hal_state_scheme option" where
  "fire_loop run cnt s =
     (case timers s of
        [] \<Rightarrow> Some s
      | ht # q \<Rightarrow>
          if sint (cnt - ht_expiry s ht) \<ge> 0
          then fire_loop run cnt
                 (run ht ((on_nt (\<lambda>nt. nt\<lparr>nt_timers := q\<rparr>) s)\<lparr>ht_linked := (ht_linked s)(ht := False)\<rparr>))
          else Some s)"

definition rearm :: "u32 \<Rightarrow> 'a hal_state_scheme \<Rightarrow> 'a hal_state_scheme" where
  "rearm ostime s =
     (case timers s of
        [] \<Rightarrow> s
      | ht # _ \<Rightarrow>
          let (now, s) = hal_timer_read 0 ostime s;
              ticks = at_least_1 ((ht_expiry s ht - now) div ticks_per_ostick (hal_nt s));
              ticks = (if ticks > 1000 then 1000 else ticks)
          in settime (its_value ticks) s)"

definition native_timer_cb ::
    "(timer_id \<Rightarrow> 'a hal_state_scheme \<Rightarrow> 'a hal_state_scheme) \<Rightarrow> u32 \<Rightarrow> u32 \<Rightarrow> 'a hal_state_scheme \<Rightarrow> 'a hal_state_scheme option" where
  "native_timer_cb run ostime1 ostime2 s =
     (let (cnt, s) = hal_timer_read 0 ostime1 s
      in map_option (rearm ostime2) (fire_loop run cnt s))"

section \<open>The queue\<close>

text \<open>
  The code compares expiries by the sign of their 32-bit difference. That is an order on
  expiries within half the range of the counter from some base tick; \<open>due b e\<close> is the
  distance from it.
\<close>

definition due :: "u32 \<Rightarrow> u32 \<Rightarrow> nat" where
  "due b e = unat (e - b)"

definition queue_ok :: "u32 \<Rightarrow> 'a hal_state_scheme \<Rightarrow> bool" where
  "queue_ok b s \<longleftrightarrow>
     distinct (timers s) \<and> (\<forall>t. ht_linked s t \<longleftrightarrow> t \<in> set (timers s)) \<and>
     (\<forall>t \<in> set (timers s). due b (ht_expiry s t) < 2 ^ 31) \<and>
     sorted (map (\<lambda>t. due b (ht_expiry s t)) (timers s))"

lemma sint_diff_due:
  assumes "due b x < 2 ^ 31" and "due b y < 2 ^ 31"
  shows "sint (x - y) = int (due b x) - int (due b y)"
proof -
  have "x - y = word_of_int (int (due b x) - int (due b y))"
    by (simp add: due_def)
  then have "sint (x - y) = signed_take_bit 31 (int (due b x) - int (due b y))"
    by (simp only: sint_sbintrunc') simp
  also have "\<dots> = int (due b x) - int (due b y)"
    using assms by (intro signed_take_bit_int_eq_self) auto
  finally show ?thesis .
qed

text \<open>Insertion is stable insertion by due time.\<close>

lemma insert_timer_split:
  assumes "\<forall>u \<in> set q. due b (ex u) < 2 ^ 31" and "due b (ex t) < 2 ^ 31"
  shows "insert_timer ex t q =
    takeWhile (\<lambda>u. due b (ex u) \<le> due b (ex t)) q @ t # dropWhile (\<lambda>u. due b (ex u) \<le> due b (ex t)) q"
  using assms(1) by (induction q) (auto simp: sint_diff_due[OF assms(2)] not_le)

lemma set_insert_timer [simp]: "set (insert_timer ex t q) = insert t (set q)"
  by (induction q) auto

lemma sorted_insert_timer:
  assumes "\<forall>u \<in> set q. due b (ex u) < 2 ^ 31" and "due b (ex t) < 2 ^ 31" and "sorted (map (\<lambda>u. due b (ex u)) q)"
  shows "sorted (map (\<lambda>u. due b (ex u)) (insert_timer ex t q))"
  using assms(1,3) by (induction q) (auto simp: sint_diff_due[OF assms(2)])

lemma distinct_insert_timer [simp]: "t \<notin> set q \<Longrightarrow> distinct (insert_timer ex t q) = distinct q"
  by (induction q) auto

lemma insert_timer_cong: "\<forall>u \<in> insert t (set q). ex u = ex' u \<Longrightarrow> insert_timer ex t q = insert_timer ex' t q"
  by (induction q) auto

text \<open>Reading the counter and programming the interval timer leave the queue alone.\<close>

lemma read_frame [frame]:
  "timers (snd (hal_timer_read num ostime s)) = timers s"
  "ht_expiry (snd (hal_timer_read num ostime s)) = ht_expiry s"
  "ht_linked (snd (hal_timer_read num ostime s)) = ht_linked s"
  "ticks_per_ostick (hal_nt (snd (hal_timer_read num ostime s))) = ticks_per_ostick (hal_nt s)"
  by (simp_all add: hal_timer_read_def on_nt_def Let_def)

lemma settime_frame [frame]:
  "timers (settime v s) = timers s" "ht_expiry (settime v s) = ht_expiry s" "ht_linked (settime v s) = ht_linked s"
  "ticks_per_ostick (hal_nt (settime v s)) = ticks_per_ostick (hal_nt s)" "nt_settime (hal_nt (settime v s)) = v"
  by (simp_all add: settime_def on_nt_def)

lemma queue_ok_cong:
  "timers s' = timers s \<Longrightarrow> ht_expiry s' = ht_expiry s \<Longrightarrow> ht_linked s' = ht_linked s \<Longrightarrow> queue_ok b s' = queue_ok b s"
  by (simp add: queue_ok_def)

lemma queue_frame [frame]:
  "timers (enqueue t tick s) = insert_timer ((ht_expiry s)(t := tick)) t (timers s)"
  "ht_expiry (enqueue t tick s) = (ht_expiry s)(t := tick)" "ht_linked (enqueue t tick s) = (ht_linked s)(t := True)"
  "ticks_per_ostick (hal_nt (enqueue t tick s)) = ticks_per_ostick (hal_nt s)"
  "timers (dequeue t s) = remove1 t (timers s)" "ht_expiry (dequeue t s) = ht_expiry s"
  "ht_linked (dequeue t s) = (ht_linked s)(t := False)"
  "ticks_per_ostick (hal_nt (dequeue t s)) = ticks_per_ostick (hal_nt s)"
  by (simp_all add: enqueue_def dequeue_def on_nt_def Let_def)

lemma start_at_queue:
  assumes "t \<notin> set (timers s)"
  shows "\<exists>s'. hal_timer_start_at t tick ostime s = Some s' \<and>
    timers s' = insert_timer ((ht_expiry s)(t := tick)) t (timers s) \<and>
    ht_expiry s' = (ht_expiry s)(t := tick) \<and> ht_linked s' = (ht_linked s)(t := True) \<and>
    ticks_per_ostick (hal_nt s') = ticks_per_ostick (hal_nt s)"
  using assms
  by (simp add: hal_timer_start_at_def Let_def split_beta frame)

lemma start_at_ok:
  assumes ok: "queue_ok b s" and new: "t \<notin> set (timers s)" and d: "due b tick < 2 ^ 31"
  obtains s' where "hal_timer_start_at t tick ostime s = Some s'" and "queue_ok b s'"
    and "set (timers s') = insert t (set (timers s))" and "ht_expiry s' = (ht_expiry s)(t := tick)"
proof -
  obtain s' where st: "hal_timer_start_at t tick ostime s = Some s'"
    and q: "timers s' = insert_timer ((ht_expiry s)(t := tick)) t (timers s)"
    and e: "ht_expiry s' = (ht_expiry s)(t := tick)" and l: "ht_linked s' = (ht_linked s)(t := True)"
    using start_at_queue[OF new] by blast
  have dues: "\<forall>u \<in> set (timers s). due b (((ht_expiry s)(t := tick)) u) < 2 ^ 31" "due b (((ht_expiry s)(t := tick)) t) < 2 ^ 31"
    using ok d new by (auto simp: queue_ok_def)
  have "map (\<lambda>u. due b (((ht_expiry s)(t := tick)) u)) (timers s) = map (\<lambda>u. due b (ht_expiry s u)) (timers s)"
    using new by (auto intro!: map_cong)
  then have "sorted (map (\<lambda>u. due b (((ht_expiry s)(t := tick)) u)) (timers s'))"
    unfolding q using ok by (intro sorted_insert_timer[OF dues]) (simp only: queue_ok_def)
  then have "queue_ok b s'"
    using ok new dues unfolding queue_ok_def e l by (auto simp: q)
  then show ?thesis using that[OF st _ _ e] by (simp add: q)
qed

lemma stop_queue:
  assumes "ht_linked s t \<longleftrightarrow> t \<in> set (timers s)"
  shows "timers (hal_timer_stop t ostime s) = remove1 t (timers s)"
    and "ht_expiry (hal_timer_stop t ostime s) = ht_expiry s"
    and "ht_linked (hal_timer_stop t ostime s) = (ht_linked s)(t := False)"
    and "ticks_per_ostick (hal_nt (hal_timer_stop t ostime s)) = ticks_per_ostick (hal_nt s)"
  using assms
  by (auto simp: hal_timer_stop_def Let_def split_beta frame remove1_idem fun_upd_idem split: list.splits)

lemma stop_ok:
  assumes "queue_ok b s"
  shows "queue_ok b (hal_timer_stop t ostime s)"
    and "set (timers (hal_timer_stop t ostime s)) = set (timers s) - {t}"
  using assms stop_queue[of s t ostime]
  by (auto simp: queue_ok_def sorted_map_remove1 dest: notin_set_remove1 in_set_remove1[THEN iffD1])

section \<open>Expiry\<close>

definition expired :: "u32 \<Rightarrow> u32 \<Rightarrow> 'a hal_state_scheme \<Rightarrow> timer_id set" where
  "expired b cnt s = {t \<in> set (timers s). due b (ht_expiry s t) \<le> due b cnt}"

definition pop_timer :: "timer_id \<Rightarrow> 'a hal_state_scheme \<Rightarrow> 'a hal_state_scheme" where
  "pop_timer t s = (on_nt (\<lambda>nt. nt\<lparr>nt_timers := tl (nt_timers nt)\<rparr>) s)\<lparr>ht_linked := (ht_linked s)(t := False)\<rparr>"

lemma pop_frame [frame]:
  "timers (pop_timer t s) = tl (timers s)" "ht_expiry (pop_timer t s) = ht_expiry s"
  "ht_linked (pop_timer t s) = (ht_linked s)(t := False)"
  by (simp_all add: pop_timer_def on_nt_def)

lemma fire_loop_step:
  assumes "queue_ok b s" and "due b cnt < 2 ^ 31"
  shows "fire_loop run cnt s =
    (case timers s of
       [] \<Rightarrow> Some s
     | t # q \<Rightarrow> if due b (ht_expiry s t) \<le> due b cnt then fire_loop run cnt (run t (pop_timer t s)) else Some s)"
proof (cases "timers s")
  case Nil
  then show ?thesis by (subst fire_loop.simps) simp
next
  case (Cons t q)
  then have "due b (ht_expiry s t) < 2 ^ 31" using assms(1) by (simp add: queue_ok_def)
  then have "sint (cnt - ht_expiry s t) \<ge> 0 \<longleftrightarrow> due b (ht_expiry s t) \<le> due b cnt"
    using sint_diff_due[OF assms(2)] by simp
  then show ?thesis using Cons by (subst fire_loop.simps) (simp add: pop_timer_def on_nt_def)
qed

lemma pop_ok:
  assumes "queue_ok b s" and "timers s = t # q"
  shows "queue_ok b (pop_timer t s)" and "expired b cnt (pop_timer t s) = expired b cnt s - {t}"
  using assms by (auto simp: queue_ok_def frame expired_def)

lemma none_expired:
  assumes "queue_ok b s" and "timers s = t # q" and "\<not> due b (ht_expiry s t) \<le> due b cnt"
  shows "expired b cnt s = {}"
  using assms by (fastforce simp: queue_ok_def expired_def)

text \<open>
  The handler ends, with nothing expired left, as long as no callback arms a timer that
  has expired already.
\<close>

lemma fire_loop_ends:
  assumes run: "\<And>t s. queue_ok b s \<Longrightarrow> queue_ok b (run t s) \<and> expired b cnt (run t s) \<subseteq> expired b cnt s"
    and "due b cnt < 2 ^ 31" and "queue_ok b s"
  shows "\<exists>s'. fire_loop run cnt s = Some s' \<and> queue_ok b s' \<and> expired b cnt s' = {}"
  using assms(3)
proof (induction "card (expired b cnt s)" arbitrary: s rule: less_induct)
  case less
  note step = fire_loop_step[OF less.prems assms(2)]
  show ?case
  proof (cases "timers s")
    case Nil
    then show ?thesis using less.prems by (subst step) (simp add: expired_def)
  next
    case (Cons t q)
    show ?thesis
    proof (cases "due b (ht_expiry s t) \<le> due b cnt")
      case True
      note pop = pop_ok[OF less.prems Cons]
      let ?s = "run t (pop_timer t s)"
      have fin: "finite (expired b cnt s)" by (simp add: expired_def)
      have "t \<in> expired b cnt s" using True Cons by (simp add: expired_def)
      moreover have "expired b cnt ?s \<subseteq> expired b cnt s - {t}" using run[OF pop(1)] pop(2) by blast
      ultimately have "expired b cnt ?s \<subset> expired b cnt s" by blast
      then have "card (expired b cnt ?s) < card (expired b cnt s)" using fin by (rule psubset_card_mono[rotated])
      from less.hyps[OF this] run[OF pop(1)] show ?thesis using step Cons True by simp
    next
      case False
      then show ?thesis using step Cons less.prems none_expired[OF less.prems Cons False] by simp
    qed
  qed
qed

text \<open>Callbacks that leave the queue alone run for exactly the expired timers, earliest first.\<close>

lemma fire_loop_order:
  assumes run: "\<And>t s. timers (run t s) = timers s \<and> ht_expiry (run t s) = ht_expiry s \<and> ht_linked (run t s) = ht_linked s"
    and cnt: "due b cnt < 2 ^ 31" and "queue_ok b s"
  shows "fire_loop run cnt s =
    Some (fold (\<lambda>t s. run t (pop_timer t s)) (takeWhile (\<lambda>t. due b (ht_expiry s t) \<le> due b cnt) (timers s)) s)"
  using assms(3)
proof (induction "timers s" arbitrary: s)
  case Nil
  then show ?case using fire_loop_step[OF Nil.prems cnt, of run] by (simp flip: Nil.hyps)
next
  case (Cons t q)
  note step = fire_loop_step[OF Cons.prems cnt, of run]
  let ?s = "run t (pop_timer t s)"
  have "queue_ok b ?s"
    using pop_ok(1)[OF Cons.prems Cons.hyps(2)[symmetric]] queue_ok_cong[of ?s "pop_timer t s" b] run by blast
  moreover have "q = timers ?s" "ht_expiry ?s = ht_expiry s" using run Cons.hyps(2) by (simp_all add: frame flip: Cons.hyps(2))
  ultimately show ?case
    using step Cons.hyps(1)[of ?s] by (simp flip: Cons.hyps(2))
qed

lemma takeWhile_sorted:
  fixes f :: "'b \<Rightarrow> nat"
  shows "sorted (map f q) \<Longrightarrow> takeWhile (\<lambda>t. f t \<le> k) q = filter (\<lambda>t. f t \<le> k) q"
proof (induction q)
  case (Cons a q)
  then show ?case by (auto simp: empty_filter_conv)
qed simp

lemma dropWhile_sorted:
  fixes f :: "'b \<Rightarrow> nat"
  shows "sorted (map f q) \<Longrightarrow> dropWhile (\<lambda>t. f t \<le> k) q = filter (\<lambda>t. \<not> f t \<le> k) q"
proof (induction q)
  case (Cons a q)
  then show ?case by (auto simp: filter_id_conv eq_commute[of q] dest: order_trans)
qed simp

text \<open>Callbacks that leave the queue alone take one timer off it each.\<close>

lemma fire_queue:
  assumes run: "\<And>t s. timers (run t s) = timers s \<and> ht_expiry (run t s) = ht_expiry s \<and> ht_linked (run t s) = ht_linked s"
  shows "length ks \<le> length (timers s) \<Longrightarrow>
    timers (fold (\<lambda>t s. run t (pop_timer t s)) ks s) = drop (length ks) (timers s)"
  by (induction ks arbitrary: s) (simp_all add: run frame drop_Suc)

section \<open>The interval timer\<close>

lemma rearm_frame:
  "timers (rearm ostime s) = timers s" "ht_expiry (rearm ostime s) = ht_expiry s" "ht_linked (rearm ostime s) = ht_linked s"
  by (simp_all add: rearm_def Let_def split_beta frame split: list.split)

text \<open>The handler leaves the system's timer armed for at most a millisecond.\<close>

lemma rearm_within_ms:
  assumes "timers s \<noteq> []"
  shows "fst (nt_settime (hal_nt (rearm ostime s))) = 0 \<and>
      0 < snd (nt_settime (hal_nt (rearm ostime s))) \<and> snd (nt_settime (hal_nt (rearm ostime s))) \<le> 1000000"
proof -
  obtain ht q where q: "timers s = ht # q" using assms by (auto simp: neq_Nil_conv)
  define u where "u = snd (hal_timer_read 0 ostime s)"
  define k where "k = at_least_1 ((ht_expiry u ht - fst (hal_timer_read 0 ostime s)) div ticks_per_ostick (hal_nt u))"
  define m where "m = (if k > 1000 then 1000 else k)"
  have "rearm ostime s = settime (its_value m) u"
    by (simp add: rearm_def q split_beta m_def k_def u_def Let_def)
  moreover have m: "m \<noteq> 0" "unat m \<le> 1000"
    by (auto simp: m_def k_def at_least_1_def word_less_nat_alt)
  then have "its_value m = (0, unat m * 1000)"
    by (simp add: its_value_def unat_div unat_mod unat_word_ariths)
  moreover have "0 < unat m" using m(1) by (simp add: unat_gt_0)
  ultimately show "fst (nt_settime (hal_nt (rearm ostime s))) = 0 \<and>
      0 < snd (nt_settime (hal_nt (rearm ostime s))) \<and> snd (nt_settime (hal_nt (rearm ostime s))) \<le> 1000000"
    using m(2) by (simp add: frame)
qed

lemma its_value_nonzero:
  assumes "ticks \<noteq> 0"
  shows "its_value ticks \<noteq> (0, 0)"
proof
  assume "its_value ticks = (0, 0)"
  then have q: "unat ticks div 1000000 = 0" and r: "unat ((ticks mod 1000000) * 1000 mod 1000000000) = 0"
    by (simp_all add: its_value_def unat_div)
  from q have small: "unat ticks < 1000000" by (simp add: div_eq_0_iff)
  then have "unat (ticks mod 1000000) = unat ticks" by (simp add: unat_mod)
  then have "unat ((ticks mod 1000000) * 1000) = unat ticks * 1000"
    using small by (simp add: unat_word_ariths)
  then have "unat ticks * 1000 mod 1000000000 = 0" using r by (simp add: unat_mod)
  then have "unat ticks = 0" using small by simp
  with assms show False by (simp add: unat_eq_zero)
qed

text \<open>With one tick per tick of the system, a started timer always leaves the system's armed.\<close>

lemma start_at_arms:
  assumes "t \<notin> set (timers s)" and "ticks_per_ostick (hal_nt s) = 1"
    and "hal_timer_start_at t tick ostime s = Some s'" and "hd (timers s') = t"
  shows "nt_settime (hal_nt s') \<noteq> (0, 0)"
proof -
  define c where c: "c = fst (hal_timer_read 0 ostime (enqueue t tick s))"
  define u where u: "u = snd (hal_timer_read 0 ostime (enqueue t tick s))"
  have pair: "hal_timer_read 0 ostime (enqueue t tick s) = (c, u)" by (simp add: c u)
  have "ticks_per_ostick (hal_nt u) = 1" using assms(2) by (simp add: u frame)
  then have s': "s' = (if sint (tick - c) \<le> 0 then settime (0, 1000) u
      else if hd (timers u) = t then settime (its_value (tick - c)) u else u)"
    using assms(1,3) pair by (auto simp: hal_timer_start_at_def split: if_splits)
  then have "hd (timers u) = t" using assms(4) by (simp add: frame split: if_splits)
  moreover have "\<not> sint (tick - c) \<le> 0 \<Longrightarrow> tick - c \<noteq> 0" by auto
  ultimately show ?thesis using s' its_value_nonzero[of "tick - c"] by (auto simp: frame)
qed

text \<open>
  Stopping the first timer when the second has expired meanwhile: the difference is taken
  unsigned and, unlike in the handler, not capped, so the system's timer is set to more
  than half an hour.
\<close>

lemma stop_forgets_expired:
  assumes ok: "queue_ok b s" and q: "timers s = t # u # q" and k: "ticks_per_ostick (hal_nt s) = 1"
    and now: "now = fst (hal_timer_read 0 ostime s)" "due b now < 2 ^ 31"
    and late: "due b (ht_expiry s u) < due b now"
  shows "2147 \<le> fst (nt_settime (hal_nt (hal_timer_stop t ostime s)))"
proof -
  define s1 where s1: "s1 = dequeue t s"
  have lk: "ht_linked s t" using ok q by (simp add: queue_ok_def)
  have cnt: "fst (hal_timer_read 0 ostime s1) = now"
    by (simp add: now(1) s1 dequeue_def hal_timer_read_def on_nt_def Let_def)
  define s2 where "s2 = snd (hal_timer_read 0 ostime s1)"
  then have pair: "hal_timer_read 0 ostime s1 = (now, s2)" using cnt by (simp add: prod_eq_iff)
  have s2: "ht_expiry s2 u = ht_expiry s u" "ticks_per_ostick (hal_nt s2) = 1" using k by (simp_all add: s2_def s1 frame)
  have d: "due b (ht_expiry s u) < 2 ^ 31" using ok q by (simp add: queue_ok_def)
  have "sint (ht_expiry s u - now) < 0" using sint_diff_due[OF d now(2)] late by simp
  then have big: "2147483648 \<le> unat (ht_expiry s u - now)"
  proof -
    assume neg: "sint (ht_expiry s u - now) < 0"
    have "unat w < 2147483648 \<Longrightarrow> sint w \<ge> 0" for w :: u32
      using sint_diff_due[of 0 w 0] by (simp add: due_def)
    with neg show ?thesis by (meson not_less)
  qed
  then have "at_least_1 (ht_expiry s u - now) = ht_expiry s u - now" by (auto simp: at_least_1_def)
  then have "nt_settime (hal_nt (hal_timer_stop t ostime s)) = its_value (ht_expiry s u - now)"
    using lk q pair s2 by (simp add: hal_timer_stop_def frame flip: s1)
  moreover have "2147 \<le> unat (ht_expiry s u - now) div 1000000"
    using div_le_mono[OF big, of 1000000] by simp
  ultimately show ?thesis by (simp add: its_value_def unat_div)
qed

text \<open>The counter is the configured rate times the time since configuration, in 32 bits.\<close>

definition counts_from :: "u32 \<Rightarrow> 'a hal_state_scheme \<Rightarrow> bool" where
  "counts_from start s \<longleftrightarrow> nt_cnt (hal_nt s) = ticks_per_ostick (hal_nt s) * (last_ostime (hal_nt s) - start)"

lemma config_counts: "counts_from ostime (snd (hal_timer_config 0 freq ostime s))"
  by (simp add: counts_from_def hal_timer_config_def on_nt_def)

lemma read_counts:
  assumes "counts_from start s"
  shows "hal_timer_read 0 ostime s = (ticks_per_ostick (hal_nt s) * (ostime - start), snd (hal_timer_read 0 ostime s))"
    and "counts_from start (snd (hal_timer_read 0 ostime s))"
  using assms by (auto simp: counts_from_def hal_timer_read_def on_nt_def Let_def algebra_simps)

end
