(* ===== verification/Tdma.thy ===== *)
theory Tdma
  imports Hal_Timer Uwb_Rng_State
begin

text \<open>
  Time-division multiple access, lib/tdma/src/tdma.c: a superframe is divided into slots;
  a clock-calibration packet starts a superframe, which arms one timer per assigned slot,
  and each timer posts its slot's event to the task that runs the slot's callback. The
  event queue is that of the native port (porting/dpl/linux/src/dpl_eventq.cc).

  The timer and the event of slot i have the key \<open>Suc i\<close>, those of the superframe slot
  the key 0. The CPU time runs at 1 MHz (\<open>dpl_cputime_usecs_to_ticks\<close> is the identity).
  What the clock reads during the operation on a timer is a function of its key.
\<close>

unbundle bit_operations_syntax

section \<open>The code\<close>

record tdma_slot =
  ts_idx :: u16
  ts_start :: u32
  ts_cb :: nat
  ts_arg :: nat

record tdma_stat =
  slot_timer_cnt :: u32
  superframe_cnt :: u32
  superframe_miss :: u32
  dropped_slots :: u32

record tdma_state = hal_state +
  td_selfmalloc :: bool
  td_initialized :: bool
  td_nslots :: u16
  td_os_epoch :: u32
  td_superframe :: tdma_slot
  td_slot :: "nat \<Rightarrow> tdma_slot option"
  td_eventq :: "timer_id list"
  td_queued :: "timer_id \<Rightarrow> bool"
  td_stat :: tdma_stat
  ccp_period :: u32
  ccp_os_epoch :: u32
  ccp_local_epoch :: u64
  dev_interface_ids :: "u16 list"

definition UWBEXT_TDMA :: u16 where
  "UWBEXT_TDMA = 3"

definition tdma_stats_inc :: "(tdma_stat \<Rightarrow> tdma_stat) \<Rightarrow> tdma_state \<Rightarrow> tdma_state" where
  "tdma_stats_inc f s = s\<lparr>td_stat := f (td_stat s)\<rparr>"

definition dpl_eventq_put :: "timer_id \<Rightarrow> tdma_state \<Rightarrow> tdma_state" where
  "dpl_eventq_put k s =
     (if td_queued s k then s
      else s\<lparr>td_queued := (td_queued s)(k := True), td_eventq := td_eventq s @ [k]\<rparr>)"

text \<open>Taking an event blocks while there is none: None.\<close>

definition dpl_eventq_get :: "tdma_state \<Rightarrow> (timer_id \<times> tdma_state) option" where
  "dpl_eventq_get s =
     (case td_eventq s of
        [] \<Rightarrow> None
      | k # ks \<Rightarrow> Some (k, s\<lparr>td_eventq := ks, td_queued := (td_queued s)(k := False)\<rparr>))"

definition dpl_event_init :: "timer_id \<Rightarrow> tdma_state \<Rightarrow> tdma_state" where
  "dpl_event_init k s = s\<lparr>td_queued := (td_queued s)(k := False)\<rparr>"

definition zero_slot :: tdma_slot where
  "zero_slot = \<lparr>ts_idx = 0, ts_start = 0, ts_cb = 0, ts_arg = 0\<rparr>"

text \<open>
  A device that has an instance already gives None: its interface is cleared and appended
  to the list it is still on, so that the list's last element points to itself and the
  next walk along the list does not end. Of the list of interfaces only the identifiers matter.
\<close>

definition tdma_init :: "u16 \<Rightarrow> u32 \<Rightarrow> tdma_state \<Rightarrow> tdma_state option" where
  "tdma_init nslots ostime s =
     (if UWBEXT_TDMA \<in> set (dev_interface_ids s) then None
      else
        let s = s\<lparr>td_selfmalloc := True, td_initialized := False, td_nslots := nslots, td_os_epoch := 0,
                  td_superframe := zero_slot, td_slot := (\<lambda>_. None), td_eventq := [], td_queued := (\<lambda>_. False)\<rparr>;
            s = s\<lparr>dev_interface_ids := dev_interface_ids s @ [UWBEXT_TDMA]\<rparr>;
            s = s\<lparr>td_stat := \<lparr>slot_timer_cnt = 0, superframe_cnt = 0, superframe_miss = 0, dropped_slots = 0\<rparr>\<rparr>;
            s = s\<lparr>td_superframe := (td_superframe s)\<lparr>ts_idx := 0\<rparr>\<rparr>;
            s = snd (hal_timer_set_cb 0 0 s);
            s = dpl_event_init 0 s;
            s = s\<lparr>td_initialized := True\<rparr>;
            (now, s) = hal_timer_read 0 ostime s
        in Some (s\<lparr>td_os_epoch := now\<rparr>))"

definition tdma_superframe_cb :: "tdma_state \<Rightarrow> bool \<times> tdma_state" where
  "tdma_superframe_cb s =
     (False, if td_initialized s then dpl_eventq_put 0 (s\<lparr>td_os_epoch := ccp_os_epoch s\<rparr>) else s)"

text \<open>
  Assigning a slot clears the slot's memory, its timer's links included: None when the
  timer is on the timer queue. A failed assert is None too.
\<close>

definition tdma_assign_slot :: "nat \<Rightarrow> u16 \<Rightarrow> nat \<Rightarrow> tdma_state \<Rightarrow> tdma_state option" where
  "tdma_assign_slot call_back idx arg s =
     (if \<not> idx < td_nslots s then None
      else if \<not> td_initialized s then Some s
      else if Suc (unat idx) \<in> set (timers s) then None
      else
        let k = Suc (unat idx);
            s = s\<lparr>td_slot := (td_slot s)(unat idx \<mapsto> zero_slot\<lparr>ts_idx := idx, ts_arg := arg, ts_cb := call_back\<rparr>)\<rparr>;
            s = dpl_event_init k s
        in Some (snd (hal_timer_set_cb 0 k s)))"

definition tdma_release_slot :: "(timer_id \<Rightarrow> u32) \<Rightarrow> u16 \<Rightarrow> tdma_state \<Rightarrow> tdma_state option" where
  "tdma_release_slot clk idx s =
     (if \<not> idx < td_nslots s then None
      else Some (case td_slot s (unat idx) of
                   None \<Rightarrow> s
                 | Some _ \<Rightarrow> (hal_timer_stop (Suc (unat idx)) (clk (Suc (unat idx))) s)
                              \<lparr>td_slot := (td_slot s)(unat idx := None)\<rparr>))"

text \<open>The loops over the slots, as far as slot n.\<close>

primrec stop_slots :: "(timer_id \<Rightarrow> u32) \<Rightarrow> nat \<Rightarrow> tdma_state \<Rightarrow> tdma_state" where
  "stop_slots clk 0 s = s"
| "stop_slots clk (Suc n) s =
     (let s = stop_slots clk n s
      in if td_slot s n \<noteq> None then hal_timer_stop (Suc n) (clk (Suc n)) s else s)"

primrec start_slots :: "(timer_id \<Rightarrow> u32) \<Rightarrow> u32 \<Rightarrow> u32 \<Rightarrow> nat \<Rightarrow> tdma_state \<Rightarrow> tdma_state option" where
  "start_slots clk latency slot_period_us 0 s = Some s"
| "start_slots clk latency slot_period_us (Suc n) s =
     (case start_slots clk latency slot_period_us n s of
        None \<Rightarrow> None
      | Some s \<Rightarrow>
          (case td_slot s n of
             None \<Rightarrow> Some s
           | Some slot \<Rightarrow>
               let start = td_os_epoch s + (of_nat n * slot_period_us - latency);
                   s = s\<lparr>td_slot := (td_slot s)(n \<mapsto> slot\<lparr>ts_start := start\<rparr>)\<rparr>
               in hal_timer_start_at (Suc n) start (clk (Suc n)) s))"

definition slot_period :: "u32 \<Rightarrow> u16 \<Rightarrow> u32" where
  "slot_period period nslots = of_int (uwb_dwt_usecs_to_usecs (uint period div uint nslots))"

text \<open>The event of the superframe: a superframe of no slots divides by zero.\<close>

definition tdma_superframe_slot_cb ::
    "(timer_id \<Rightarrow> u32) \<Rightarrow> (timer_id \<Rightarrow> u32) \<Rightarrow> u32 \<Rightarrow> tdma_state \<Rightarrow> tdma_state option" where
  "tdma_superframe_slot_cb clk1 clk2 latency s =
     (let s = tdma_stats_inc (\<lambda>st. st\<lparr>superframe_cnt := superframe_cnt st + 1\<rparr>) s;
          s = hal_timer_stop 0 (clk1 0) s;
          s = stop_slots clk1 (unat (td_nslots s)) s
      in if td_nslots s = 0 then None
         else
           let slot_period_us = slot_period (ccp_period s) (td_nslots s)
           in case start_slots clk2 latency slot_period_us (unat (td_nslots s)) s of
                None \<Rightarrow> None
              | Some s \<Rightarrow>
                  let start = td_os_epoch s +
                        (of_int (uwb_dwt_usecs_to_usecs (uint (ccp_period s))) + slot_period_us);
                      s = s\<lparr>td_superframe := (td_superframe s)\<lparr>ts_start := start\<rparr>\<rparr>
                  in hal_timer_start_at 0 start (clk2 0) s)"

definition slot_timer_cb :: "timer_id \<Rightarrow> tdma_state \<Rightarrow> tdma_state" where
  "slot_timer_cb k s =
     (let s = tdma_stats_inc (\<lambda>st. st\<lparr>slot_timer_cnt := slot_timer_cnt st + 1\<rparr>) s
      in if k = 0 then tdma_stats_inc (\<lambda>st. st\<lparr>superframe_miss := superframe_miss st + 1\<rparr>) s
         else dpl_eventq_put k s)"

definition tdma_stop_slot :: "(timer_id \<Rightarrow> u32) \<Rightarrow> nat \<Rightarrow> tdma_state \<Rightarrow> tdma_state" where
  "tdma_stop_slot clk i s =
     (if td_slot s i \<noteq> None
      then the (tdma_release_slot clk (of_nat i) (hal_timer_stop (Suc i) (clk (Suc i)) s))
      else s)"

definition tdma_stop :: "(timer_id \<Rightarrow> u32) \<Rightarrow> tdma_state \<Rightarrow> tdma_state" where
  "tdma_stop clk s = fold (tdma_stop_slot clk) [0..<unat (td_nslots s)] s"

text \<open>Freeing: whether the instance's memory goes back, and the state it leaves.\<close>

definition tdma_free :: "(timer_id \<Rightarrow> u32) \<Rightarrow> tdma_state \<Rightarrow> bool \<times> tdma_state" where
  "tdma_free clk s =
     (let s = tdma_stop clk s;
          s = s\<lparr>dev_interface_ids := remove1 UWBEXT_TDMA (dev_interface_ids s)\<rparr>
      in if td_selfmalloc s then (True, s) else (False, s\<lparr>td_initialized := False\<rparr>))"

text \<open>
  One turn of the task: an event taken from the queue is dropped when its slot (not slot
  0, nor the superframe) starts too late, else its callback runs. The event of a slot that
  was released meanwhile is a use of freed memory: None. \<open>run\<close> is the effect of a slot's
  callback, given its function, its slot and its argument.
\<close>

definition tdma_task ::
    "(timer_id \<Rightarrow> u32) \<Rightarrow> (timer_id \<Rightarrow> u32) \<Rightarrow> u32 \<Rightarrow> u32 \<Rightarrow> u32 \<Rightarrow>
       (tdma_slot \<Rightarrow> tdma_state \<Rightarrow> tdma_state option) \<Rightarrow> tdma_state \<Rightarrow> tdma_state option" where
  "tdma_task clk1 clk2 latency max_delay ostime run s =
     (case dpl_eventq_get s of
        None \<Rightarrow> None
      | Some (k, s) \<Rightarrow>
          (case (if k = 0 then Some (td_superframe s) else td_slot s (k - 1)) of
             None \<Rightarrow> None
           | Some slot \<Rightarrow>
               let (ticks, s') = (if max_delay = 0 then (0, s) else hal_timer_read 0 ostime s);
                   delay = ticks - ts_start slot
               in if max_delay \<noteq> 0 \<and> ts_idx slot \<noteq> 0 \<and> delay > max_delay
                  then Some (tdma_stats_inc (\<lambda>st. st\<lparr>dropped_slots := dropped_slots st + 1\<rparr>) s')
                  else if k = 0 then tdma_superframe_slot_cb clk1 clk2 latency s'
                  else run slot s'))"

text \<open>Start of a slot in device time; the slot number may be fractional.\<close>

definition tdma_rx_slot_start ::
    "rng_floats \<Rightarrow> (u64 \<Rightarrow> u64) \<Rightarrow> (u64 \<Rightarrow> u64) option \<Rightarrow> u8 \<Rightarrow> u32 \<Rightarrow> tdma_state \<Rightarrow> u64 option" where
  "tdma_rx_slot_start fl f64_to_i64 wcs timeToRxStable idx s =
     (if td_nslots s = 0 then None
      else
        let slot_period = f64_of_u64 fl (push_bit 16 (ucast (ccp_period s)) div ucast (td_nslots s));
            slot_offset = f64_to_i64 (f64_mul fl (f64_of_f32 fl idx) slot_period);
            slot_offset = slot_offset - push_bit 16 (ucast timeToRxStable)
        in Some (ccp_local_epoch s + (case wcs of Some adjust \<Rightarrow> adjust slot_offset | None \<Rightarrow> slot_offset)))"

definition tdma_tx_slot_start ::
    "rng_floats \<Rightarrow> (u64 \<Rightarrow> u64) \<Rightarrow> (u64 \<Rightarrow> u64) option \<Rightarrow> uwb_driver_funcs \<Rightarrow> u8 \<Rightarrow> u32 \<Rightarrow> tdma_state \<Rightarrow> u64 option" where
  "tdma_tx_slot_start fl f64_to_i64 wcs uf timeToRxStable idx s =
     map_option (\<lambda>dx_time. dx_time + push_bit 16 (ucast (uwb_usecs_to_dwt_usecs (uwb_phy_SHR_duration uf))))
       (tdma_rx_slot_start fl f64_to_i64 wcs timeToRxStable idx s)"


section \<open>Arming the slots\<close>

text \<open>The timer operations leave the slots, events and counters alone.\<close>

definition same_tdma :: "tdma_state \<Rightarrow> tdma_state \<Rightarrow> bool" where
  "same_tdma s s' \<longleftrightarrow> tdma_state.more s' = tdma_state.more s \<and>
     td_nslots s' = td_nslots s \<and> td_os_epoch s' = td_os_epoch s \<and> td_slot s' = td_slot s \<and> td_eventq s' = td_eventq s \<and>
     td_queued s' = td_queued s \<and> td_initialized s' = td_initialized s \<and> ccp_period s' = ccp_period s"

lemma same_tdma_refl [simp]: "same_tdma s s"
  by (simp add: same_tdma_def)

lemma same_tdma_trans: "same_tdma s t \<Longrightarrow> same_tdma t u \<Longrightarrow> same_tdma s u"
  by (simp add: same_tdma_def)

lemma on_nt_tdma [simp]: "same_tdma s (on_nt f s)"
  by (simp add: same_tdma_def on_nt_def)

lemma read_tdma [simp]: "same_tdma s (snd (hal_timer_read num ostime s))"
  by (simp add: hal_timer_read_def Let_def)

lemma settime_tdma [simp]: "same_tdma s (settime v t) = same_tdma s t"
  by (simp add: settime_def same_tdma_def on_nt_def)

lemma dequeue_tdma [simp]: "same_tdma s (dequeue k t) = same_tdma s t"
  by (simp add: dequeue_def same_tdma_def on_nt_def)

lemma enqueue_tdma [simp]: "same_tdma s (enqueue k tick t) = same_tdma s t"
  by (simp add: enqueue_def same_tdma_def on_nt_def Let_def)

lemma read_tdma' [simp]: "same_tdma s (snd (hal_timer_read num ostime t)) = same_tdma s t"
  using read_tdma[of t num ostime] by (auto simp: same_tdma_def)

lemma stop_tdma [simp]: "same_tdma s (hal_timer_stop k ostime s)"
  by (simp add: hal_timer_stop_def Let_def split_beta split: list.split)

lemma start_at_tdma: "hal_timer_start_at k tick ostime s = Some s' \<Longrightarrow> same_tdma s s'"
  by (auto simp: hal_timer_start_at_def Let_def split_beta split: if_splits)

lemma same_tdma_slot: "same_tdma s s' \<Longrightarrow> td_slot s' = td_slot s"
  by (simp add: same_tdma_def)

lemma stop_slots_ok:
  assumes "queue_ok b s"
  shows "queue_ok b (stop_slots clk n s) \<and> same_tdma s (stop_slots clk n s) \<and>
    set (timers (stop_slots clk n s)) = set (timers s) - Suc ` {i. i < n \<and> td_slot s i \<noteq> None}"
proof (induction n)
  case (Suc n)
  let ?t = "stop_slots clk n s"
  have slots: "td_slot ?t = td_slot s" using Suc same_tdma_slot by blast
  have range: "{i. i < Suc n \<and> td_slot s i \<noteq> None} =
      (if td_slot s n \<noteq> None then insert n {i. i < n \<and> td_slot s i \<noteq> None} else {i. i < n \<and> td_slot s i \<noteq> None})"
    by (auto simp: less_Suc_eq)
  show ?case
  proof (cases "td_slot s n = None")
    case False
    have "same_tdma s (hal_timer_stop (Suc n) (clk (Suc n)) ?t)"
      by (rule same_tdma_trans[OF _ stop_tdma]) (use Suc in simp)
    moreover have step: "stop_slots clk (Suc n) s = hal_timer_stop (Suc n) (clk (Suc n)) ?t"
      using False slots by (simp add: Let_def)
    moreover have "set (timers s) - Suc ` {i. i < Suc n \<and> td_slot s i \<noteq> None} =
        set (timers s) - Suc ` {i. i < n \<and> td_slot s i \<noteq> None} - {Suc n}"
      unfolding range using False by auto
    ultimately show ?thesis using Suc stop_ok[of b ?t "Suc n" "clk (Suc n)"] by simp
  qed (use Suc slots range in \<open>simp add: Let_def\<close>)
qed (use assms in simp)

lemma insert_timer_tail:
  assumes "\<forall>u \<in> set q. due b (ex u) < 2 ^ 31" and "due b (ex t) < 2 ^ 31" and "\<forall>u \<in> set q. due b (ex u) \<le> due b (ex t)"
  shows "insert_timer ex t q = q @ [t]"
  using assms by (simp add: insert_timer_split[OF assms(1,2)] takeWhile_eq_all_conv[THEN iffD2] dropWhile_eq_Nil_conv[THEN iffD2])

text \<open>Appending a timer due no earlier than the others.\<close>

lemma start_at_tail:
  assumes ok: "queue_ok b s" and new: "t \<notin> set (timers s)" and d: "due b tick < 2 ^ 31"
    and last: "\<forall>u \<in> set (timers s). due b (ht_expiry s u) \<le> due b tick"
  shows "\<exists>s'. hal_timer_start_at t tick ostime s = Some s' \<and> queue_ok b s' \<and> timers s' = timers s @ [t] \<and>
    ht_expiry s' = (ht_expiry s)(t := tick) \<and> same_tdma s s'"
proof -
  obtain s' where st: "hal_timer_start_at t tick ostime s = Some s'" and "queue_ok b s'"
    and e: "ht_expiry s' = (ht_expiry s)(t := tick)"
    by (rule start_at_ok[OF ok new d])
  moreover have "timers s' = insert_timer ((ht_expiry s)(t := tick)) t (timers s)"
    using start_at_queue[OF new, of tick ostime] st by auto
  moreover have "insert_timer ((ht_expiry s)(t := tick)) t (timers s) = timers s @ [t]"
    using ok new d last by (intro insert_timer_tail[of _ b]) (auto simp: queue_ok_def)
  ultimately show ?thesis using start_at_tdma[OF st] by auto
qed

definition slot_start :: "u32 \<Rightarrow> u32 \<Rightarrow> u32 \<Rightarrow> nat \<Rightarrow> u32" where
  "slot_start epoch latency period i = epoch + (of_nat i * period - latency)"

definition armed :: "tdma_state \<Rightarrow> nat \<Rightarrow> timer_id list" where
  "armed s n = map Suc (filter (\<lambda>i. td_slot s i \<noteq> None) [0..<n])"

lemma armed_Suc: "armed s (Suc n) = armed s n @ (if td_slot s n \<noteq> None then [Suc n] else [])"
  by (simp add: armed_def)

lemma due_slot_start:
  assumes "i * unat period < 2 ^ 32"
  shows "due (epoch - latency) (slot_start epoch latency period i) = i * unat period"
proof -
  have "slot_start epoch latency period i - (epoch - latency) = of_nat i * period"
    by (simp add: slot_start_def)
  also have "\<dots> = of_nat (i * unat period)" by simp
  finally show ?thesis using assms by (simp add: due_def unsigned_of_nat take_bit_nat_eq_self del: of_nat_mult)
qed

text \<open>The slots below n get their start times, the others keep theirs.\<close>

definition started :: "u32 \<Rightarrow> u32 \<Rightarrow> u32 \<Rightarrow> nat \<Rightarrow> (nat \<Rightarrow> tdma_slot option) \<Rightarrow> nat \<Rightarrow> tdma_slot option" where
  "started epoch latency period n slots =
     (\<lambda>i. if i < n then map_option (\<lambda>sl. sl\<lparr>ts_start := slot_start epoch latency period i\<rparr>) (slots i) else slots i)"

lemma started_0 [simp]: "started epoch latency period 0 slots = slots"
  by (simp add: started_def)

lemma started_Suc:
  "started epoch latency period (Suc n) slots =
    (started epoch latency period n slots)
      (n := map_option (\<lambda>sl. sl\<lparr>ts_start := slot_start epoch latency period n\<rparr>) (slots n))"
  by (rule ext) (simp add: started_def less_Suc_eq)

lemma in_armed: "t \<in> set (armed s n) \<longleftrightarrow> (\<exists>i < n. t = Suc i \<and> td_slot s i \<noteq> None)"
  by (auto simp: armed_def)

lemma queue_ok_empty: "timers s = [] \<Longrightarrow> queue_ok b s = queue_ok c s"
  by (simp add: queue_ok_def)

lemma tdma_slot_frame [frame]:
  "timers (td_slot_update f s) = timers s" "ht_expiry (td_slot_update f s) = ht_expiry s"
  "queue_ok b (td_slot_update f s) = queue_ok b s"
  by (simp_all add: queue_ok_def)

definition same_os :: "tdma_state \<Rightarrow> tdma_state \<Rightarrow> bool" where
  "same_os s s' \<longleftrightarrow> td_nslots s' = td_nslots s \<and> td_os_epoch s' = td_os_epoch s \<and> td_eventq s' = td_eventq s \<and>
     td_queued s' = td_queued s \<and> td_initialized s' = td_initialized s \<and> ccp_period s' = ccp_period s"

lemma same_tdma_os: "same_tdma s s' \<Longrightarrow> same_os s s'"
  by (simp add: same_tdma_def same_os_def)

lemma start_slots_ok:
  assumes "queue_ok b s" and "b = td_os_epoch s - latency" and "timers s = []" and "n * unat period < 2 ^ 31"
  shows "\<exists>s'. start_slots clk latency period n s = Some s' \<and> queue_ok b s' \<and> timers s' = armed s n \<and>
    (\<forall>i < n. td_slot s i \<noteq> None \<longrightarrow> ht_expiry s' (Suc i) = slot_start (td_os_epoch s) latency period i) \<and>
    td_slot s' = started (td_os_epoch s) latency period n (td_slot s) \<and> same_os s s'"
  using assms(4)
proof (induction n)
  case 0
  then show ?case using assms by (simp add: armed_def same_os_def)
next
  case (Suc n)
  let ?at = "slot_start (td_os_epoch s) latency period"
  have "n * unat period < 2 ^ 31" using Suc.prems by simp
  then obtain t where t: "start_slots clk latency period n s = Some t" "queue_ok b t" "timers t = armed s n"
      "\<forall>i < n. td_slot s i \<noteq> None \<longrightarrow> ht_expiry t (Suc i) = ?at i"
      "td_slot t = started (td_os_epoch s) latency period n (td_slot s)" "same_os s t"
    using Suc.IH by blast
  have slot: "td_slot t n = td_slot s n" and ep: "td_os_epoch t = td_os_epoch s"
    using t(5,6) by (simp_all add: started_def same_os_def)
  show ?case
  proof (cases "td_slot s n")
    case None
    have "started (td_os_epoch s) latency period (Suc n) (td_slot s) = td_slot t"
      using None slot by (simp add: started_Suc t(5) fun_upd_idem)
    then show ?thesis using None t slot by (auto simp: armed_Suc less_Suc_eq)
  next
    case (Some sl)
    define u where "u = t\<lparr>td_slot := (td_slot t)(n \<mapsto> sl\<lparr>ts_start := ?at n\<rparr>)\<rparr>"
    have u: "timers u = armed s n" "ht_expiry u = ht_expiry t" "queue_ok b u" "same_os s u"
        "td_slot u = started (td_os_epoch s) latency period (Suc n) (td_slot s)"
      using t Some by (simp_all add: u_def queue_ok_def same_os_def started_Suc)
    have due: "due b (?at i) = i * unat period" if "i \<le> n" for i
      unfolding assms(2)
    proof (rule due_slot_start)
      have "i * unat period \<le> Suc n * unat period" using that by (intro mult_le_mono1) simp
      then show "i * unat period < 2 ^ 32" using Suc.prems by simp
    qed
    have new: "Suc n \<notin> set (timers u)" using u by (auto simp: in_armed)
    have d: "due b (?at n) < 2 ^ 31" using Suc.prems due by simp
    have last: "\<forall>k \<in> set (timers u). due b (ht_expiry u k) \<le> due b (?at n)"
      using t(4) u(1,2) due by (auto simp: in_armed intro: mult_le_mono1)
    obtain s' where s': "hal_timer_start_at (Suc n) (?at n) (clk (Suc n)) u = Some s'" "queue_ok b s'"
        "timers s' = timers u @ [Suc n]" "ht_expiry s' = (ht_expiry u)(Suc n := ?at n)" "same_tdma u s'"
      using start_at_tail[OF u(3) new d last] by blast
    have "start_slots clk latency period (Suc n) s = Some s'"
      using t(1) slot Some ep s'(1) by (simp add: u_def slot_start_def)
    moreover have "\<forall>i < Suc n. td_slot s i \<noteq> None \<longrightarrow> ht_expiry s' (Suc i) = ?at i"
      using t(4) s'(4) u(2) by (simp add: less_Suc_eq)
    moreover have "same_os s s'" using u(4) same_tdma_os[OF s'(5)] by (simp add: same_os_def)
    moreover have "td_slot s' = td_slot u" using s'(5) by (rule same_tdma_slot)
    ultimately show ?thesis using s' u Some by (simp add: armed_Suc)
  qed
qed

section \<open>A superframe\<close>

text \<open>The number of slots times the length of a slot does not exceed the superframe.\<close>

lemma dwt_usecs_mono: "x \<le> y \<Longrightarrow> uwb_dwt_usecs_to_usecs x \<le> uwb_dwt_usecs_to_usecs y"
  by (simp add: uwb_dwt_usecs_to_usecs_def zdiv_mono1)

lemma dwt_usecs_mult: "0 \<le> n \<Longrightarrow> n * uwb_dwt_usecs_to_usecs x \<le> uwb_dwt_usecs_to_usecs (n * x)"
proof -
  assume "0 \<le> n"
  define q where "q = x * 0x10000 div 63897"
  have "q * 63897 \<le> x * 0x10000" by (simp add: q_def)
  then have "n * (q * 63897) \<le> n * (x * 0x10000)" using \<open>0 \<le> n\<close> by (rule mult_left_mono)
  then have "n * q * 63897 div 63897 \<le> n * x * 0x10000 div 63897"
    by (intro zdiv_mono1) (simp_all add: ac_simps)
  then show ?thesis by (simp add: uwb_dwt_usecs_to_usecs_def q_def)
qed

definition period_us :: "tdma_state \<Rightarrow> int" where
  "period_us s = uwb_dwt_usecs_to_usecs (uint (ccp_period s))"

lemma slot_period_fits:
  assumes "0 < n" and "uwb_dwt_usecs_to_usecs (uint period) < 2 ^ 32"
  shows "int (unat n) * uint (slot_period period n) \<le> uwb_dwt_usecs_to_usecs (uint period)"
    and "uint (slot_period period n) = uwb_dwt_usecs_to_usecs (uint period div uint n)"
proof -
  let ?x = "uint period div uint n"
  have "0 < uint n" using assms(1) by (simp add: word_less_def)
  then have "uint n * ?x \<le> uint period"
    using mult_div_mod_eq[of "uint n" "uint period"] pos_mod_sign[of "uint n" "uint period"] by linarith
  then have le: "uint n * uwb_dwt_usecs_to_usecs ?x \<le> uwb_dwt_usecs_to_usecs (uint period)"
    using dwt_usecs_mult[of "uint n" ?x] dwt_usecs_mono by (meson order_trans uint_ge_0)
  have "0 \<le> uwb_dwt_usecs_to_usecs ?x"
    by (simp add: uwb_dwt_usecs_to_usecs_def pos_imp_zdiv_nonneg_iff pos_imp_zdiv_nonneg_iff[OF \<open>0 < uint n\<close>])
  moreover have "?x \<le> uint period"
    using zdiv_mono2[of "uint period" 1 "uint n"] assms(1) by (simp add: word_less_def)
  ultimately show eq: "uint (slot_period period n) = uwb_dwt_usecs_to_usecs ?x"
    using assms(2) dwt_usecs_mono[of ?x "uint period"] unfolding slot_period_def uint_word_of_int
    by (intro mod_pos_pos_trivial) auto
  show "int (unat n) * uint (slot_period period n) \<le> uwb_dwt_usecs_to_usecs (uint period)"
    unfolding eq using le by simp
qed

text \<open>
  The event of the superframe on a queue of TDMA timers only: whatever was armed is
  replaced by one timer per assigned slot, in slot order, each due at the epoch plus its
  slot number times the slot length, less the latency, and then the next superframe.
\<close>

definition superframe_start :: "tdma_state \<Rightarrow> u32" where
  "superframe_start s = td_os_epoch s + (of_int (period_us s) + slot_period (ccp_period s) (td_nslots s))"

lemma due_superframe_start:
  assumes "0 < td_nslots s" and "period_us s + uint (slot_period (ccp_period s) (td_nslots s)) + uint latency < 2 ^ 31"
  shows "int (due (td_os_epoch s - latency) (superframe_start s)) =
    period_us s + uint (slot_period (ccp_period s) (td_nslots s)) + uint latency"
proof -
  let ?P = "slot_period (ccp_period s) (td_nslots s)"
  have "superframe_start s - (td_os_epoch s - latency) = of_int (period_us s + uint ?P + uint latency)"
    by (simp add: superframe_start_def)
  moreover have "0 \<le> period_us s" by (simp add: period_us_def uwb_dwt_usecs_to_usecs_def pos_imp_zdiv_nonneg_iff)
  ultimately show ?thesis using assms(2) by (simp add: due_def uint_word_of_int del: of_int_add)
qed

lemma stats_inc_frame [frame]:
  "timers (tdma_stats_inc f s) = timers s" "ht_expiry (tdma_stats_inc f s) = ht_expiry s"
  "td_slot (tdma_stats_inc f s) = td_slot s" "queue_ok b (tdma_stats_inc f s) = queue_ok b s"
  "same_os s (tdma_stats_inc f s)" "td_nslots (tdma_stats_inc f s) = td_nslots s"
  by (simp_all add: tdma_stats_inc_def queue_ok_def same_os_def)

lemma same_os_trans: "same_os s t \<Longrightarrow> same_os t u \<Longrightarrow> same_os s u"
  by (simp add: same_os_def)

lemma superframe_frame [frame]:
  "timers (td_superframe_update f s) = timers s" "ht_expiry (td_superframe_update f s) = ht_expiry s"
  "td_slot (td_superframe_update f s) = td_slot s" "queue_ok b (td_superframe_update f s) = queue_ok b s"
  "same_os s (td_superframe_update f s)" "td_nslots (td_superframe_update f s) = td_nslots s"
  by (simp_all add: queue_ok_def same_os_def)

definition tdma_timers_only :: "tdma_state \<Rightarrow> bool" where
  "tdma_timers_only s \<longleftrightarrow>
     (\<forall>t \<in> set (timers s). t = 0 \<or> (\<exists>i < unat (td_nslots s). t = Suc i \<and> td_slot s i \<noteq> None))"

lemma minus_minus_empty: "A = B - X - Y \<Longrightarrow> B \<subseteq> X \<union> Y \<Longrightarrow> A = {}"
  by blast

lemma stop_all_slots:
  assumes "queue_ok c s" and "tdma_timers_only s"
  shows "timers (stop_slots clk (unat (td_nslots s)) (hal_timer_stop 0 ostime s)) = []"
    and "queue_ok b (stop_slots clk (unat (td_nslots s)) (hal_timer_stop 0 ostime s))"
    and "same_tdma s (stop_slots clk (unat (td_nslots s)) (hal_timer_stop 0 ostime s))"
proof -
  let ?s = "hal_timer_stop 0 ostime s" and ?n = "unat (td_nslots s)"
  have same: "same_tdma s ?s" by simp
  note stop = stop_ok[OF assms(1), of 0 ostime]
  note slots = stop_slots_ok[OF stop(1), of clk ?n]
  have "set (timers (stop_slots clk ?n ?s)) = set (timers s) - {0} - Suc ` {i. i < ?n \<and> td_slot s i \<noteq> None}"
    using slots[THEN conjunct2, THEN conjunct2] unfolding stop(2) same_tdma_slot[OF same] .
  moreover have "set (timers s) \<subseteq> {0} \<union> Suc ` {i. i < ?n \<and> td_slot s i \<noteq> None}"
    using assms(2) by (auto simp: tdma_timers_only_def)
  ultimately have "set (timers (stop_slots clk ?n ?s)) = {}" by (rule minus_minus_empty)
  then show "timers (stop_slots clk ?n ?s) = []" by simp
  then show "queue_ok b (stop_slots clk ?n ?s)" using slots queue_ok_empty by blast
  show "same_tdma s (stop_slots clk ?n ?s)" by (rule same_tdma_trans[OF same]) (use slots in blast)
qed

lemma stop_nslots: "td_nslots (hal_timer_stop t ostime (s :: tdma_state)) = td_nslots s"
  using stop_tdma[of s t ostime] by (simp add: same_tdma_def)

lemma int_less_31: "int k < 2 ^ 31 \<Longrightarrow> k < 2 ^ 31"
  by simp

lemma superframe_slots:
  assumes ok: "queue_ok c s" and only: "tdma_timers_only s" and n: "0 < td_nslots s"
    and bound: "period_us s + uint (slot_period (ccp_period s) (td_nslots s)) + uint latency < 2 ^ 31"
  defines "b \<equiv> td_os_epoch s - latency"
  shows "\<exists>s'. tdma_superframe_slot_cb clk1 clk2 latency s = Some s' \<and> queue_ok b s' \<and>
    timers s' = armed s (unat (td_nslots s)) @ [0] \<and>
    (\<forall>i < unat (td_nslots s). td_slot s i \<noteq> None \<longrightarrow>
       ht_expiry s' (Suc i) = slot_start (td_os_epoch s) latency (slot_period (ccp_period s) (td_nslots s)) i) \<and>
    ht_expiry s' 0 = superframe_start s \<and>
    td_slot s' = started (td_os_epoch s) latency (slot_period (ccp_period s) (td_nslots s)) (unat (td_nslots s)) (td_slot s) \<and>
    same_os s s'"
proof -
  let ?P = "slot_period (ccp_period s) (td_nslots s)" and ?n = "unat (td_nslots s)"
  define t where "t = tdma_stats_inc (\<lambda>st. st\<lparr>superframe_cnt := superframe_cnt st + 1\<rparr>) s"
  define u where "u = stop_slots clk1 ?n (hal_timer_stop 0 (clk1 0) t)"
  have t: "queue_ok c t" "tdma_timers_only t" "td_nslots t = td_nslots s" "same_os s t" "td_slot t = td_slot s"
    using ok only by (simp_all add: t_def frame tdma_timers_only_def)
  have u: "timers u = []" "queue_ok b u" "same_tdma t u"
    using stop_all_slots[OF t(1,2), where clk = clk1 and ostime = "clk1 0"] by (simp_all add: u_def t(3))
  then have same: "same_os s u" "td_slot u = td_slot s"
    using t(4,5) same_tdma_os[OF u(3)] same_tdma_slot[OF u(3)] by (auto intro: same_os_trans)
  then have ep: "td_os_epoch u = td_os_epoch s" "ccp_period u = ccp_period s" "td_nslots u = td_nslots s"
    by (simp_all add: same_os_def)
  have p0: "0 \<le> period_us s" by (simp add: period_us_def uwb_dwt_usecs_to_usecs_def pos_imp_zdiv_nonneg_iff)
  moreover have P0: "0 \<le> uint ?P" "0 \<le> uint latency" by simp_all
  ultimately have "period_us s < 2147483648" using bound[simplified] by linarith
  then have "period_us s < 2 ^ 32" by simp
  then have fits: "int ?n * uint ?P \<le> period_us s"
    using slot_period_fits(1)[OF n] unfolding period_us_def by blast
  then have "int ?n * uint ?P < 2 ^ 31" using bound P0 by linarith
  then have "int (?n * unat ?P) < 2 ^ 31" by simp
  then have small: "?n * unat ?P < 2 ^ 31" by (rule int_less_31)
  have b: "b = td_os_epoch u - latency" by (simp add: b_def ep(1))
  obtain v where v: "start_slots clk2 latency ?P ?n u = Some v" "queue_ok b v" "timers v = armed u ?n"
      "\<forall>i < ?n. td_slot u i \<noteq> None \<longrightarrow> ht_expiry v (Suc i) = slot_start (td_os_epoch u) latency ?P i"
      "td_slot v = started (td_os_epoch u) latency ?P ?n (td_slot u)" "same_os u v"
    using start_slots_ok[OF u(2) b u(1) small, of clk2] by blast
  define w where "w = v\<lparr>td_superframe := (td_superframe v)\<lparr>ts_start := superframe_start s\<rparr>\<rparr>"
  have w: "queue_ok b w" "timers w = armed s ?n" "ht_expiry w = ht_expiry v" "td_slot w = td_slot v" "same_os s w"
    using v same by (simp_all add: w_def frame armed_def same_os_def)
  have due0: "int (due b (superframe_start s)) = period_us s + uint ?P + uint latency"
    unfolding b_def using due_superframe_start[OF n bound] .
  then have "int (due b (superframe_start s)) < 2 ^ 31" using bound by simp
  then have d: "due b (superframe_start s) < 2 ^ 31" by (rule int_less_31)
  have last: "due b (ht_expiry w k) \<le> due b (superframe_start s)" if k: "k \<in> set (timers w)" for k
  proof -
    obtain i where i: "i < ?n" "k = Suc i" "td_slot s i \<noteq> None" using k w(2) by (auto simp: in_armed)
    have le: "i * unat ?P \<le> ?n * unat ?P" using i(1) by simp
    have "i * unat ?P < 2 ^ 32" by (rule le_less_trans[OF le]) (use small in simp)
    then have "due b (ht_expiry w k) = i * unat ?P"
      using v(4) i same(2) ep(1) w(3) unfolding b_def by (simp add: due_slot_start)
    then have "int (due b (ht_expiry w k)) \<le> int (?n * unat ?P)" using le by linarith
    moreover have "int (?n * unat ?P) = int ?n * uint ?P" by simp
    ultimately show ?thesis using fits due0 P0 by linarith
  qed
  have new: "0 \<notin> set (timers w)" using w(2) by (auto simp: in_armed)
  obtain s' where s': "hal_timer_start_at 0 (superframe_start s) (clk2 0) w = Some s'" "queue_ok b s'"
      "timers s' = timers w @ [0]" "ht_expiry s' = (ht_expiry w)(0 := superframe_start s)" "same_tdma w s'"
    using start_at_tail[OF w(1) new d, of "clk2 0"] last by blast
  have "stop_slots clk1 (unat (td_nslots (hal_timer_stop 0 (clk1 0) t))) (hal_timer_stop 0 (clk1 0) t) = u"
    by (simp add: u_def t(3) stop_nslots)
  then have "tdma_superframe_slot_cb clk1 clk2 latency s = Some s'"
    using n v(1,6) s'(1) ep t(3)
    by (simp add: tdma_superframe_slot_cb_def superframe_start_def period_us_def w_def same_os_def Let_def
        flip: t_def)
  moreover have "\<forall>i < ?n. td_slot s i \<noteq> None \<longrightarrow> ht_expiry s' (Suc i) = slot_start (td_os_epoch s) latency ?P i"
    using v(4) s'(4) w(3) same(2) ep(1) by simp
  moreover have "td_slot s' = started (td_os_epoch s) latency ?P ?n (td_slot s)"
    using same_tdma_slot[OF s'(5)] w(4) v(5) same(2) ep(1) by simp
  moreover have "same_os s s'" using w(5) same_tdma_os[OF s'(5)] by (rule same_os_trans)
  ultimately show ?thesis using s'(2,3,4) w(2) by simp
qed

section \<open>Expiry of the slots' timers\<close>

lemma slot_timer_cb_queue [frame]:
  "timers (slot_timer_cb k s) = timers s" "ht_expiry (slot_timer_cb k s) = ht_expiry s"
  "ht_linked (slot_timer_cb k s) = ht_linked s"
  by (simp_all add: slot_timer_cb_def tdma_stats_inc_def dpl_eventq_put_def Let_def)

lemma pop_timer_events [frame]:
  fixes s :: tdma_state
  shows "td_eventq (pop_timer t s) = td_eventq s" "td_queued (pop_timer t s) = td_queued s"
    "td_stat (pop_timer t s) = td_stat s" "td_slot (pop_timer t s) = td_slot s" "td_nslots (pop_timer t s) = td_nslots s"
  by (simp_all add: pop_timer_def on_nt_def)

abbreviation fire_slots :: "timer_id list \<Rightarrow> tdma_state \<Rightarrow> tdma_state" where
  "fire_slots \<equiv> fold (\<lambda>t s. slot_timer_cb t (pop_timer t s))"

lemma slot_timer_cb_fresh:
  assumes "k \<noteq> 0" and "\<not> td_queued s k"
  shows "td_eventq (slot_timer_cb k s) = td_eventq s @ [k]" and "td_queued (slot_timer_cb k s) = (td_queued s)(k := True)"
    and "slot_timer_cnt (td_stat (slot_timer_cb k s)) = slot_timer_cnt (td_stat s) + 1"
  using assms by (simp_all add: slot_timer_cb_def tdma_stats_inc_def dpl_eventq_put_def)

lemma fire_slots_events:
  assumes "distinct ks" and "0 \<notin> set ks" and "\<forall>k \<in> set ks. \<not> td_queued s k"
  shows "td_eventq (fire_slots ks s) = td_eventq s @ ks"
    and "slot_timer_cnt (td_stat (fire_slots ks s)) = slot_timer_cnt (td_stat s) + of_nat (length ks)"
proof -
  have "td_eventq (fire_slots ks s) = td_eventq s @ ks \<and>
      slot_timer_cnt (td_stat (fire_slots ks s)) = slot_timer_cnt (td_stat s) + of_nat (length ks)"
    using assms
  proof (induction ks arbitrary: s)
    case (Cons k ks)
    note cb = slot_timer_cb_fresh[of k "pop_timer k s"]
    have "\<forall>j \<in> set ks. \<not> td_queued (slot_timer_cb k (pop_timer k s)) j"
      using Cons.prems cb(2) by (auto simp: frame)
    with Cons cb show ?case by (simp add: frame)
  qed simp
  then show "td_eventq (fire_slots ks s) = td_eventq s @ ks"
    and "slot_timer_cnt (td_stat (fire_slots ks s)) = slot_timer_cnt (td_stat s) + of_nat (length ks)"
    by blast+
qed

lemma fired_slots:
  assumes ok: "queue_ok b s'" and ts: "timers s' = armed s n @ [0]"
    and ex: "\<forall>i < n. td_slot s i \<noteq> None \<longrightarrow> due b (ht_expiry s' (Suc i)) = i * p"
    and late: "k < due b (ht_expiry s' 0)"
  shows "takeWhile (\<lambda>t. due b (ht_expiry s' t) \<le> k) (timers s') =
    map Suc (filter (\<lambda>i. td_slot s i \<noteq> None \<and> i * p \<le> k) [0..<n])"
proof -
  have "takeWhile (\<lambda>t. due b (ht_expiry s' t) \<le> k) (timers s') = filter (\<lambda>t. due b (ht_expiry s' t) \<le> k) (timers s')"
    using ok by (intro takeWhile_sorted) (simp add: queue_ok_def)
  also have "\<dots> = filter (\<lambda>t. due b (ht_expiry s' t) \<le> k) (armed s n)" using late by (simp add: ts)
  also have "\<dots> = map Suc (filter (\<lambda>i. due b (ht_expiry s' (Suc i)) \<le> k) (filter (\<lambda>i. td_slot s i \<noteq> None) [0..<n]))"
    by (simp add: armed_def filter_map comp_def)
  also have "\<dots> = map Suc (filter (\<lambda>i. td_slot s i \<noteq> None \<and> i * p \<le> k) [0..<n])"
    unfolding filter_filter by (intro arg_cong[where f = "map Suc"] filter_cong refl) (use ex in auto)
  finally show ?thesis .
qed

lemma pending_slots:
  assumes ok: "queue_ok b s'" and ts: "timers s' = armed s n @ [0]"
    and ex: "\<forall>i < n. td_slot s i \<noteq> None \<longrightarrow> due b (ht_expiry s' (Suc i)) = i * p"
    and late: "k < due b (ht_expiry s' 0)"
  shows "dropWhile (\<lambda>t. due b (ht_expiry s' t) \<le> k) (timers s') =
    map Suc (filter (\<lambda>i. td_slot s i \<noteq> None \<and> \<not> i * p \<le> k) [0..<n]) @ [0]"
proof -
  have "dropWhile (\<lambda>t. due b (ht_expiry s' t) \<le> k) (timers s') = filter (\<lambda>t. \<not> due b (ht_expiry s' t) \<le> k) (timers s')"
    using ok by (intro dropWhile_sorted) (simp add: queue_ok_def)
  also have "\<dots> = filter (\<lambda>t. \<not> due b (ht_expiry s' t) \<le> k) (armed s n) @ [0]" using late by (simp add: ts)
  also have "filter (\<lambda>t. \<not> due b (ht_expiry s' t) \<le> k) (armed s n) =
      map Suc (filter (\<lambda>i. \<not> due b (ht_expiry s' (Suc i)) \<le> k) (filter (\<lambda>i. td_slot s i \<noteq> None) [0..<n]))"
    by (simp add: armed_def filter_map comp_def)
  also have "\<dots> = map Suc (filter (\<lambda>i. td_slot s i \<noteq> None \<and> \<not> i * p \<le> k) [0..<n])"
    unfolding filter_filter by (intro arg_cong[where f = "map Suc"] filter_cong refl) (use ex in auto)
  finally show ?thesis .
qed

lemma slot_offset_small:
  assumes n: "0 < td_nslots s" and bound: "period_us s + uint (slot_period (ccp_period s) (td_nslots s)) + uint latency < 2 ^ 31"
    and i: "i < unat (td_nslots s)"
  shows "i * unat (slot_period (ccp_period s) (td_nslots s)) < 2 ^ 32"
proof -
  let ?P = "slot_period (ccp_period s) (td_nslots s)" and ?n = "unat (td_nslots s)"
  have P0: "0 \<le> uint ?P" "0 \<le> uint latency" by simp_all
  have small: "period_us s < 2147483648" using bound[simplified] P0 by linarith
  then have "int ?n * uint ?P \<le> period_us s"
    using slot_period_fits(1)[OF n] unfolding period_us_def by simp
  then have "int (?n * unat ?P) < 2 ^ 31" using small by simp
  then have "?n * unat ?P < 2 ^ 31" by (rule int_less_31)
  moreover have "i * unat ?P \<le> ?n * unat ?P" using i by simp
  ultimately have "i * unat ?P < 2 ^ 31" by (rule le_less_trans[rotated])
  then show ?thesis by simp
qed

lemma slot_timer_cb_frame:
  "timers (slot_timer_cb t s) = timers s \<and> ht_expiry (slot_timer_cb t s) = ht_expiry s \<and>
    ht_linked (slot_timer_cb t s) = ht_linked s"
  by (simp add: frame)

lemma superframe_fires:
  assumes "queue_ok c s" and "tdma_timers_only s" and "0 < td_nslots s"
    and bound: "period_us s + uint (slot_period (ccp_period s) (td_nslots s)) + uint latency < 2 ^ 31"
    and cnt: "due (td_os_epoch s - latency) cnt < due (td_os_epoch s - latency) (superframe_start s)"
    and idle: "\<forall>i. \<not> td_queued s (Suc i)"
  defines "b \<equiv> td_os_epoch s - latency" and "p \<equiv> unat (slot_period (ccp_period s) (td_nslots s))"
    and "n \<equiv> unat (td_nslots s)"
  shows "\<exists>s' s''. tdma_superframe_slot_cb clk1 clk2 latency s = Some s' \<and> fire_loop slot_timer_cb cnt s' = Some s'' \<and>
    td_eventq s'' = td_eventq s @ map Suc (filter (\<lambda>i. td_slot s i \<noteq> None \<and> i * p \<le> due b cnt) [0..<n]) \<and>
    timers s'' = map Suc (filter (\<lambda>i. td_slot s i \<noteq> None \<and> \<not> i * p \<le> due b cnt) [0..<n]) @ [0]"
proof -
  obtain s' where s': "tdma_superframe_slot_cb clk1 clk2 latency s = Some s'" "queue_ok b s'"
      "timers s' = armed s n @ [0]"
      "\<forall>i < n. td_slot s i \<noteq> None \<longrightarrow>
         ht_expiry s' (Suc i) = slot_start (td_os_epoch s) latency (slot_period (ccp_period s) (td_nslots s)) i"
      "ht_expiry s' 0 = superframe_start s" "same_os s s'"
    using superframe_slots[OF assms(1-4), of clk1 clk2] unfolding b_def n_def by blast
  let ?k = "due b cnt"
  have "int (due b (superframe_start s)) < 2 ^ 31"
    using due_superframe_start[OF assms(3) bound] bound by (simp add: b_def)
  then have d0: "due b (superframe_start s) < 2 ^ 31" by (rule int_less_31)
  then have d: "?k < 2 ^ 31" using cnt by (simp add: b_def)
  have ex: "\<forall>i < n. td_slot s i \<noteq> None \<longrightarrow> due b (ht_expiry s' (Suc i)) = i * p"
  proof (intro allI impI)
    fix i assume i: "i < n" "td_slot s i \<noteq> None"
    have "i * p < 2 ^ 32"
      by (rule slot_offset_small[OF assms(3) bound i(1)[unfolded n_def], folded p_def])
    then show "due b (ht_expiry s' (Suc i)) = i * p"
      using s'(4) i unfolding b_def p_def by (simp add: due_slot_start)
  qed
  have late: "?k < due b (ht_expiry s' 0)" using cnt s'(5) by (simp add: b_def)
  let ?ks = "map Suc (filter (\<lambda>i. td_slot s i \<noteq> None \<and> i * p \<le> ?k) [0..<n])"
  note fired = fired_slots[OF s'(2,3) ex late]
  have run: "fire_loop slot_timer_cb cnt s' = Some (fire_slots ?ks s')"
    using fire_loop_order[OF slot_timer_cb_frame d s'(2)] fired by simp
  have ks: "distinct ?ks" "0 \<notin> set ?ks" "\<forall>k \<in> set ?ks. \<not> td_queued s' k"
    using idle s'(6) by (auto simp: distinct_map same_os_def)
  have "td_eventq (fire_slots ?ks s') = td_eventq s @ ?ks"
    using fire_slots_events(1)[OF ks] s'(6) by (simp add: same_os_def)
  moreover have "timers (fire_slots ?ks s') = dropWhile (\<lambda>t. due b (ht_expiry s' t) \<le> ?k) (timers s')"
    using fire_queue[of slot_timer_cb ?ks s', OF slot_timer_cb_frame] length_takeWhile_le[of "\<lambda>t. due b (ht_expiry s' t) \<le> ?k" "timers s'"]
    unfolding fired[symmetric] by (simp add: dropWhile_eq_drop)
  moreover have "dropWhile (\<lambda>t. due b (ht_expiry s' t) \<le> ?k) (timers s') =
      map Suc (filter (\<lambda>i. td_slot s i \<noteq> None \<and> \<not> i * p \<le> ?k) [0..<n]) @ [0]"
    by (rule pending_slots[OF s'(2,3) ex late])
  ultimately show ?thesis using s'(1) run by simp
qed

section \<open>Stopping\<close>

lemma release_slot_ok:
  assumes "i < unat (td_nslots s)"
  shows "tdma_release_slot clk (of_nat i) s =
    Some (if td_slot s i = None then s
          else (hal_timer_stop (Suc i) (clk (Suc i)) s)\<lparr>td_slot := (td_slot s)(i := None)\<rparr>)"
proof -
  have "unat (td_nslots s) < 65536" using unsigned_less[of "td_nslots s"] by simp
  then have "i < 65536" using assms by (rule order.strict_trans[rotated])
  then have "unat (of_nat i :: u16) = i" by (simp add: unsigned_of_nat take_bit_nat_eq_self)
  then show ?thesis using assms by (simp add: tdma_release_slot_def word_less_nat_alt split: option.split)
qed

lemma stop_slot [simp]: "td_slot (hal_timer_stop t ostime (s :: tdma_state)) = td_slot s"
  by (rule same_tdma_slot) simp

lemma tdma_stop_loop:
  fixes clk :: "timer_id \<Rightarrow> u32"
  assumes "queue_ok b s" and "n \<le> unat (td_nslots s)"
  defines "t \<equiv> fold (tdma_stop_slot clk) [0..<n] s"
  shows "queue_ok b t \<and> td_nslots t = td_nslots s \<and> td_slot t = (\<lambda>i. if i < n then None else td_slot s i) \<and>
    set (timers t) = set (timers s) - Suc ` {i. i < n \<and> td_slot s i \<noteq> None}"
  using assms(2) unfolding t_def
proof (induction n)
  case 0
  then show ?case using assms(1) by simp
next
  case (Suc n)
  define u where "u = fold (tdma_stop_slot clk) [0..<n] s"
  have u: "queue_ok b u" "td_nslots u = td_nslots s" "td_slot u = (\<lambda>i. if i < n then None else td_slot s i)"
      "set (timers u) = set (timers s) - Suc ` {i. i < n \<and> td_slot s i \<noteq> None}"
    using Suc unfolding u_def by simp_all
  have F: "fold (tdma_stop_slot clk) [0..<Suc n] s = tdma_stop_slot clk n u" by (simp add: u_def)
  have n: "n < unat (td_nslots u)" using Suc.prems u(2) by simp
  show ?case
  proof (cases "td_slot s n")
    case None
    then have "{i. i < Suc n \<and> td_slot s i \<noteq> None} = {i. i < n \<and> td_slot s i \<noteq> None}"
      by (auto simp: less_Suc_eq)
    moreover have "(\<lambda>i. if i < Suc n then None else td_slot s i) = td_slot u" using None u(3) by (auto simp: less_Suc_eq)
    moreover have "tdma_stop_slot clk n u = u" using None u(3) by (simp add: tdma_stop_slot_def)
    ultimately show ?thesis unfolding F using u by simp
  next
    case (Some sl)
    define v where "v = hal_timer_stop (Suc n) (clk (Suc n)) (hal_timer_stop (Suc n) (clk (Suc n)) u)"
    note v1 = stop_ok[OF u(1), of "Suc n" "clk (Suc n)"]
    note v2 = stop_ok[OF v1(1), of "Suc n" "clk (Suc n)"]
    have v: "queue_ok b v" "td_nslots v = td_nslots s" "td_slot v = td_slot u" "set (timers v) = set (timers u) - {Suc n}"
      using v1 v2 u by (simp_all add: v_def stop_nslots)
    have step: "the (tdma_release_slot clk (of_nat n) (hal_timer_stop (Suc n) (clk (Suc n)) u)) =
        v\<lparr>td_slot := (td_slot u)(n := None)\<rparr>"
      using release_slot_ok[of n "hal_timer_stop (Suc n) (clk (Suc n)) u" clk] n Some u(3)
      by (simp add: stop_nslots v_def)
    have range: "{i. i < Suc n \<and> td_slot s i \<noteq> None} = insert n {i. i < n \<and> td_slot s i \<noteq> None}"
      using Some by (auto simp: less_Suc_eq)
    have "(td_slot u)(n := None) = (\<lambda>i. if i < Suc n then None else td_slot s i)"
      using u(3) by (auto simp: less_Suc_eq)
    moreover have "tdma_stop_slot clk n u = v\<lparr>td_slot := (td_slot u)(n := None)\<rparr>"
      using step Some u(3) by (simp add: tdma_stop_slot_def)
    ultimately show ?thesis unfolding range F using u(4) v by (auto simp: frame)
  qed
qed

lemma tdma_stop_ok:
  assumes "queue_ok b s"
  shows "queue_ok b (tdma_stop clk s)" and "i < unat (td_nslots s) \<Longrightarrow> td_slot (tdma_stop clk s) i = None"
    and "set (timers (tdma_stop clk s)) = set (timers s) - Suc ` {i. i < unat (td_nslots s) \<and> td_slot s i \<noteq> None}"
  using tdma_stop_loop[OF assms le_refl, of clk] unfolding tdma_stop_def by simp_all

lemma on_nt_selfmalloc [simp]: "td_selfmalloc (on_nt f s) = td_selfmalloc s"
  by (simp add: on_nt_def)

lemma read_selfmalloc [simp]: "td_selfmalloc (snd (hal_timer_read num ostime s)) = td_selfmalloc s"
  by (simp add: hal_timer_read_def Let_def)

lemma timer_stop_selfmalloc [simp]: "td_selfmalloc (hal_timer_stop k ostime s) = td_selfmalloc s"
  by (simp add: hal_timer_stop_def settime_def dequeue_def Let_def split_beta split: list.split)

lemma tdma_stop_selfmalloc: "td_selfmalloc (tdma_stop clk s) = td_selfmalloc s"
proof -
  have "td_selfmalloc (tdma_stop_slot clk i s) = td_selfmalloc s" if "i < unat (td_nslots s)" for i s
    using release_slot_ok[of i "hal_timer_stop (Suc i) (clk (Suc i)) s" clk] that
    by (simp add: tdma_stop_slot_def stop_nslots)
  moreover have "td_nslots (tdma_stop_slot clk i s) = td_nslots s" if "i < unat (td_nslots s)" for i s
    using release_slot_ok[of i "hal_timer_stop (Suc i) (clk (Suc i)) s" clk] that
    by (simp add: tdma_stop_slot_def stop_nslots)
  ultimately have "n \<le> unat (td_nslots s) \<Longrightarrow>
      td_selfmalloc (fold (tdma_stop_slot clk) [0..<n] s) = td_selfmalloc s \<and>
      td_nslots (fold (tdma_stop_slot clk) [0..<n] s) = td_nslots s" for n
    by (induction n) simp_all
  then show ?thesis by (simp add: tdma_stop_def)
qed

end
