(* ===== verification/Hal_Timer_Queue.thy ===== *)
theory Hal_Timer_Queue
  imports Hal_Timer
begin

text \<open>
  The links of the timer queue: the tail queue of porting/dpl_hal/include/hal/queue.h, with the
  macros hal_timer.c uses. The list of Hal_Timer is what the links spell out as long as every
  timer is queued at most once; starting a timer that is queued makes links that spell no such
  list, which is why the start is undefined there.
\<close>

section \<open>The macros\<close>

text \<open>
  The field a back pointer points to, \<open>tqe_next\<close> of a timer or \<open>tqh_first\<close>: \<open>tq_next\<close> is what the
  fields hold, \<open>tq_prev\<close> the back pointers and \<open>tq_last\<close> is \<open>tqh_last\<close>.
\<close>

datatype tailq_link = First | Next_of timer_id

record timer_tailq =
  tq_next :: "tailq_link \<Rightarrow> timer_id option"
  tq_prev :: "timer_id \<Rightarrow> tailq_link option"
  tq_last :: tailq_link

definition put_next :: "tailq_link \<Rightarrow> timer_id option \<Rightarrow> timer_tailq \<Rightarrow> timer_tailq" where
  "put_next l v q = q\<lparr>tq_next := (tq_next q)(l := v)\<rparr>"

definition put_prev :: "timer_id \<Rightarrow> tailq_link option \<Rightarrow> timer_tailq \<Rightarrow> timer_tailq" where
  "put_prev t v q = q\<lparr>tq_prev := (tq_prev q)(t := v)\<rparr>"

text \<open>Writing through a back pointer; None when it is NULL.\<close>

definition write_prev :: "tailq_link option \<Rightarrow> timer_id option \<Rightarrow> timer_tailq \<Rightarrow> timer_tailq option" where
  "write_prev p v q = (case p of None \<Rightarrow> None | Some l \<Rightarrow> Some (put_next l v q))"

definition TAILQ_INSERT_HEAD :: "timer_id \<Rightarrow> timer_tailq \<Rightarrow> timer_tailq" where
  "TAILQ_INSERT_HEAD t q =
     (let q = put_next (Next_of t) (tq_next q First) q;
          q = (case tq_next q (Next_of t) of
                 Some h \<Rightarrow> put_prev h (Some (Next_of t)) q
               | None \<Rightarrow> q\<lparr>tq_last := Next_of t\<rparr>);
          q = put_next First (Some t) q
      in put_prev t (Some First) q)"

definition TAILQ_INSERT_TAIL :: "timer_id \<Rightarrow> timer_tailq \<Rightarrow> timer_tailq" where
  "TAILQ_INSERT_TAIL t q =
     (let q = put_next (Next_of t) None q;
          q = put_prev t (Some (tq_last q)) q;
          q = put_next (tq_last q) (Some t) q
      in q\<lparr>tq_last := Next_of t\<rparr>)"

definition TAILQ_INSERT_BEFORE :: "timer_id \<Rightarrow> timer_id \<Rightarrow> timer_tailq \<Rightarrow> timer_tailq option" where
  "TAILQ_INSERT_BEFORE h t q =
     (let q = put_prev t (tq_prev q h) q;
          q = put_next (Next_of t) (Some h) q
      in map_option (put_prev h (Some (Next_of t))) (write_prev (tq_prev q h) (Some t) q))"

definition TAILQ_REMOVE :: "timer_id \<Rightarrow> timer_tailq \<Rightarrow> timer_tailq option" where
  "TAILQ_REMOVE t q =
     (let q = (case tq_next q (Next_of t) of
                 Some h \<Rightarrow> put_prev h (tq_prev q t) q
               | None \<Rightarrow> q\<lparr>tq_last := the (tq_prev q t)\<rparr>)
      in write_prev (tq_prev q t) (tq_next q (Next_of t)) q)"

section \<open>Starting a timer\<close>

text \<open>The walk of \<open>TAILQ_FOREACH\<close> to the first timer that expires later; it need not end on broken links.\<close>

partial_function (option) first_later :: "(timer_id \<Rightarrow> u32) \<Rightarrow> timer_id \<Rightarrow> timer_tailq \<Rightarrow> tailq_link \<Rightarrow> timer_id option option" where
  "first_later ex t q l =
     (case tq_next q l of
        None \<Rightarrow> Some None
      | Some ht \<Rightarrow> if sint (ex t - ex ht) < 0 then Some (Some ht) else first_later ex t q (Next_of ht))"

definition link_timer :: "(timer_id \<Rightarrow> u32) \<Rightarrow> timer_id \<Rightarrow> timer_tailq \<Rightarrow> timer_tailq option" where
  "link_timer ex t q =
     (if tq_next q First = None then Some (TAILQ_INSERT_HEAD t q)
      else
        (case first_later ex t q First of
           None \<Rightarrow> None
         | Some None \<Rightarrow> Some (TAILQ_INSERT_TAIL t q)
         | Some (Some ht) \<Rightarrow> TAILQ_INSERT_BEFORE ht t q))"

section \<open>Links that spell a list\<close>

fun segment :: "timer_tailq \<Rightarrow> tailq_link \<Rightarrow> timer_id list \<Rightarrow> bool" where
  "segment q l [] = True"
| "segment q l (t # ts) \<longleftrightarrow> tq_next q l = Some t \<and> tq_prev q t = Some l \<and> segment q (Next_of t) ts"

fun end_link :: "tailq_link \<Rightarrow> timer_id list \<Rightarrow> tailq_link" where
  "end_link l [] = l"
| "end_link l (t # ts) = end_link (Next_of t) ts"

definition spells :: "timer_tailq \<Rightarrow> timer_id list \<Rightarrow> bool" where
  "spells q ts \<longleftrightarrow> segment q First ts \<and> tq_next q (end_link First ts) = None \<and> tq_last q = end_link First ts"

lemma segment_append: "segment q l (xs @ ys) \<longleftrightarrow> segment q l xs \<and> segment q (end_link l xs) ys"
  by (induction xs arbitrary: l) auto

lemma end_link_append [simp]: "end_link l (xs @ ys) = end_link (end_link l xs) ys"
  by (induction xs arbitrary: l) auto

lemma end_link_cases: "end_link l xs = l \<or> (\<exists>t \<in> set xs. end_link l xs = Next_of t)"
  by (induction xs arbitrary: l) auto

text \<open>The fields a segment reads: all but the last link.\<close>

fun link_fields :: "tailq_link \<Rightarrow> timer_id list \<Rightarrow> tailq_link set" where
  "link_fields l [] = {}"
| "link_fields l (t # ts) = insert l (link_fields (Next_of t) ts)"

lemma link_fields_subset: "link_fields l ts \<subseteq> insert l (Next_of ` set ts)"
  by (induction ts arbitrary: l) auto

lemma end_link_fresh: "distinct ts \<Longrightarrow> l \<notin> Next_of ` set ts \<Longrightarrow> end_link l ts \<notin> link_fields l ts"
proof (induction ts arbitrary: l)
  case (Cons t ts)
  then have "end_link (Next_of t) ts \<noteq> l" using end_link_cases[of "Next_of t" ts] by auto
  then show ?case using Cons by auto
qed simp

lemma segment_cong:
  "\<forall>m \<in> link_fields l ts. tq_next q' m = tq_next q m \<Longrightarrow> \<forall>u \<in> set ts. tq_prev q' u = tq_prev q u \<Longrightarrow> segment q' l ts = segment q l ts"
  by (induction ts arbitrary: l) auto

lemma tailq_field_frame [simp]:
  "tq_next (put_next l v q) m = (if m = l then v else tq_next q m)" "tq_prev (put_next l v q) = tq_prev q" "tq_last (put_next l v q) = tq_last q"
  "tq_prev (put_prev t p q) u = (if u = t then p else tq_prev q u)" "tq_next (put_prev t p q) = tq_next q" "tq_last (put_prev t p q) = tq_last q"
  by (simp_all add: put_next_def put_prev_def)

text \<open>In links that spell a list, a field and the back pointer to it agree.\<close>

lemma segment_agree:
  "segment q l ts \<Longrightarrow> tq_next q (end_link l ts) = None \<Longrightarrow> m \<in> insert l (Next_of ` set ts) \<Longrightarrow> tq_next q m = Some u \<Longrightarrow> tq_prev q u = Some m"
  by (induction ts arbitrary: l) auto

lemma spells_agree: "spells q ts \<Longrightarrow> m \<in> insert First (Next_of ` set ts) \<Longrightarrow> tq_next q m = Some u \<Longrightarrow> tq_prev q u = Some m"
  using segment_agree by (auto simp: spells_def)

section \<open>The macros do what the list operations say\<close>

text \<open>A new element between the end of one segment and the start of the next.\<close>

lemma insert_head_spells: "TAILQ_INSERT_HEAD t q = TAILQ_INSERT_TAIL t q" if "spells q []"
  using that by (simp add: spells_def TAILQ_INSERT_HEAD_def TAILQ_INSERT_TAIL_def put_next_def put_prev_def fun_upd_twist)

lemma insert_tail_spells:
  assumes "spells q ts" and "distinct ts" and "t \<notin> set ts"
  shows "spells (TAILQ_INSERT_TAIL t q) (ts @ [t])"
proof -
  let ?l = "end_link First ts" and ?q = "TAILQ_INSERT_TAIL t q"
  have l: "?l \<noteq> Next_of t" using end_link_cases[of First ts] assms(3) by auto
  have q: "segment q First ts" "tq_last q = ?l" using assms(1) by (auto simp: spells_def)
  have "?l \<notin> link_fields First ts" "Next_of t \<notin> link_fields First ts"
    using end_link_fresh[OF assms(2), of First] link_fields_subset[of First ts] assms(3) by auto
  then have "segment ?q First ts"
    using q assms(3) by (subst segment_cong[of First ts ?q q]) (auto simp: TAILQ_INSERT_TAIL_def Let_def)
  then show ?thesis using q l by (simp add: spells_def segment_append TAILQ_INSERT_TAIL_def Let_def)
qed

lemma insert_before_spells:
  assumes "spells q (xs @ h # ys)" and "distinct (xs @ h # ys)" and "t \<notin> set (xs @ h # ys)"
  shows "\<exists>q'. TAILQ_INSERT_BEFORE h t q = Some q' \<and> spells q' (xs @ t # h # ys)"
proof -
  let ?l = "end_link First xs"
  have q: "segment q First xs" "tq_next q ?l = Some h" "tq_prev q h = Some ?l" "segment q (Next_of h) ys"
    "tq_next q (end_link (Next_of h) ys) = None" "tq_last q = end_link (Next_of h) ys"
    using assms(1) by (auto simp: spells_def segment_append)
  define q' where "q' = put_prev h (Some (Next_of t)) (put_next ?l (Some t) (put_next (Next_of t) (Some h) (put_prev t (Some ?l) q)))"
  have r: "TAILQ_INSERT_BEFORE h t q = Some q'"
    using q(3) assms(3) by (auto simp: TAILQ_INSERT_BEFORE_def write_prev_def q'_def)
  have l: "?l \<noteq> Next_of t" "?l \<noteq> Next_of h" "\<forall>u \<in> set ys. ?l \<noteq> Next_of u" "?l \<notin> link_fields First xs" "Next_of t \<notin> link_fields First xs"
    using end_link_cases[of First xs] end_link_fresh[of xs First] link_fields_subset[of First xs] assms(2,3) by auto
  have a: "segment q' First xs"
    using q(1) l assms(2,3) by (subst segment_cong[of First xs q' q]) (auto simp: q'_def)
  have "Next_of t \<notin> link_fields (Next_of h) ys" "?l \<notin> link_fields (Next_of h) ys"
    using link_fields_subset[of "Next_of h" ys] l assms(3) by auto
  then have b: "segment q' (Next_of h) ys"
    using q(4) assms(2,3) by (subst segment_cong[of "Next_of h" ys q' q]) (auto simp: q'_def)
  have e: "end_link (Next_of h) ys \<noteq> ?l" "end_link (Next_of h) ys \<noteq> Next_of t"
    using end_link_cases[of "Next_of h" ys] l assms(3) by auto
  have "spells q' (xs @ t # h # ys)"
    unfolding spells_def segment_append
    using a b l e q assms(3) by (auto simp: q'_def)
  then show ?thesis using r by blast
qed

lemma remove_spells:
  assumes "spells q ts" and "distinct ts" and "t \<in> set ts"
  shows "\<exists>q'. TAILQ_REMOVE t q = Some q' \<and> spells q' (remove1 t ts)"
proof -
  obtain xs ys where ts: "ts = xs @ t # ys" "t \<notin> set xs" using assms(3) split_list_first by metis
  let ?l = "end_link First xs"
  have q: "segment q First xs" "tq_next q ?l = Some t" "tq_prev q t = Some ?l" "segment q (Next_of t) ys"
    "tq_next q (end_link (Next_of t) ys) = None" "tq_last q = end_link (Next_of t) ys"
    using assms(1) unfolding ts(1) by (auto simp: spells_def segment_append)
  have l: "?l \<noteq> Next_of t" "\<forall>u \<in> set ys. ?l \<noteq> Next_of u" "?l \<notin> link_fields First xs"
    using end_link_cases[of First xs] end_link_fresh[of xs First] assms(2) unfolding ts(1) by auto
  show ?thesis
  proof (cases ys)
    case Nil
    let ?q = "put_next ?l None (q\<lparr>tq_last := ?l\<rparr>)"
    have "TAILQ_REMOVE t q = Some ?q" using q l Nil by (auto simp: TAILQ_REMOVE_def write_prev_def)
    moreover have "segment ?q First xs" using q(1) l(3) by (subst segment_cong[of First xs ?q q]) auto
    ultimately show ?thesis using ts Nil by (simp add: spells_def remove1_append)
  next
    case (Cons h zs)
    let ?q = "put_next ?l (Some h) (put_prev h (Some ?l) q)"
    have "TAILQ_REMOVE t q = Some ?q" using q l Cons by (auto simp: TAILQ_REMOVE_def write_prev_def)
    moreover have "segment ?q First xs"
      using q(1) l(3) assms(2) unfolding ts(1) Cons by (subst segment_cong[of First xs ?q q]) auto
    moreover have "?l \<notin> link_fields (Next_of h) zs" using link_fields_subset[of "Next_of h" zs] l Cons by auto
    then have "segment ?q (Next_of h) zs"
      using q(4) assms(2) unfolding ts(1) Cons by (subst segment_cong[of "Next_of h" zs ?q q]) auto
    moreover have "end_link (Next_of h) zs \<noteq> ?l" using end_link_cases[of "Next_of h" zs] l Cons by auto
    ultimately show ?thesis using ts Cons q by (simp add: spells_def remove1_append segment_append)
  qed
qed

section \<open>Starting a timer\<close>

abbreviation later :: "(timer_id \<Rightarrow> u32) \<Rightarrow> timer_id \<Rightarrow> timer_id \<Rightarrow> bool" where
  "later ex t h \<equiv> sint (ex t - ex h) < 0"

lemma first_later_spells:
  "tq_next q' = tq_next q \<Longrightarrow> segment q l ts \<Longrightarrow> tq_next q (end_link l ts) = None \<Longrightarrow>
    first_later ex t q' l = Some (case dropWhile (\<lambda>h. \<not> later ex t h) ts of [] \<Rightarrow> None | h # _ \<Rightarrow> Some h)"
  by (induction ts arbitrary: l) (auto simp: first_later.simps)

lemma insert_timer_place: "insert_timer ex t ts = takeWhile (\<lambda>h. \<not> later ex t h) ts @ t # dropWhile (\<lambda>h. \<not> later ex t h) ts"
  by (induction ts) auto

text \<open>A timer that is not queued is linked in at the place of \<open>insert_timer\<close>.\<close>

lemma link_timer_spells:
  assumes "spells q ts" and "distinct ts" and "t \<notin> set ts"
  shows "\<exists>q'. link_timer ex t q = Some q' \<and> spells q' (insert_timer ex t ts)"
proof (cases ts)
  case Nil
  then show ?thesis
    using insert_tail_spells[OF assms] insert_head_spells assms(1) by (simp add: link_timer_def) (simp add: spells_def)
next
  case (Cons t0 ts')
  let ?xs = "takeWhile (\<lambda>h. \<not> later ex t h) ts" and ?ys = "dropWhile (\<lambda>h. \<not> later ex t h) ts"
  have ne: "tq_next q First = Some t0" using assms(1) Cons by (simp add: spells_def)
  have place: "first_later ex t q First = Some (case ?ys of [] \<Rightarrow> None | h # _ \<Rightarrow> Some h)"
    using assms(1) first_later_spells[OF refl] by (simp add: spells_def)
  show ?thesis
  proof (cases ?ys)
    case Nil
    then have "?xs = ts" by (metis append_Nil2 takeWhile_dropWhile_id)
    then have "insert_timer ex t ts = ts @ [t]" using Nil by (metis insert_timer_place)
    then show ?thesis using ne place Nil insert_tail_spells[OF assms] by (simp add: link_timer_def)
  next
    case (Cons h ys)
    then have ts: "ts = ?xs @ h # ys" by (metis takeWhile_dropWhile_id)
    have "\<exists>q'. TAILQ_INSERT_BEFORE h t q = Some q' \<and> spells q' (?xs @ t # h # ys)"
      by (rule insert_before_spells) (use ts assms in metis)+
    then show ?thesis using ne place Cons by (simp add: link_timer_def insert_timer_place)
  qed
qed

text \<open>
  Starting a queued timer gives it two predecessors: the old one, and the one of its new place,
  whatever became of its own back pointer (\<open>hal_timer_set_cb\<close> clears it).
\<close>

lemma relink_timer_breaks:
  assumes "spells q ts" and "distinct ts" and "t \<in> set ts"
  shows "\<exists>q'. link_timer ex t (put_prev t p q) = Some q' \<and> (\<forall>ts'. set ts \<subseteq> set ts' \<longrightarrow> \<not> spells q' ts')"
proof -
  let ?q = "put_prev t p q"
  obtain xs zs where ts: "ts = xs @ t # zs" using assms(3) split_list by metis
  let ?l = "end_link First xs"
  have old: "tq_next q ?l = Some t" "tq_next q First = Some (hd ts)" "tq_next q (tq_last q) = None"
    using assms(1) by (cases xs; simp add: ts spells_def segment_append)+
  have l: "?l \<in> insert First (Next_of ` set ts)" "?l \<noteq> Next_of t"
    using end_link_cases[of First xs] assms(2) by (auto simp: ts)
  have broken: "\<not> spells q' ts'" if "tq_next q' ?l = Some t" "tq_prev q' t \<noteq> Some ?l" "set ts \<subseteq> set ts'" for q' ts'
    using spells_agree[of q' ts' ?l t] that l(1) by auto
  let ?ys = "dropWhile (\<lambda>h. \<not> later ex t h) ts"
  have place: "first_later ex t ?q First = Some (case ?ys of [] \<Rightarrow> None | h # _ \<Rightarrow> Some h)"
    using assms(1) by (intro first_later_spells[of _ q]) (simp_all add: spells_def)
  show ?thesis
  proof (cases ?ys)
    case Nil
    then have "link_timer ex t ?q = Some (TAILQ_INSERT_TAIL t ?q)" using old place[unfolded Nil] by (simp add: link_timer_def)
    moreover have "tq_last q \<noteq> ?l" using old by auto
    ultimately show ?thesis using broken[of "TAILQ_INSERT_TAIL t ?q"] old l(2) by (auto simp: TAILQ_INSERT_TAIL_def Let_def)
  next
    case (Cons h ys)
    have "later ex t h" using hd_dropWhile[of "\<lambda>h. \<not> later ex t h" ts] Cons by simp
    then have h: "h \<noteq> t" by auto
    have "h \<in> set ts" using Cons by (metis list.set_intros(1) set_dropWhileD)
    then obtain us vs where us: "ts = us @ h # vs" using split_list by metis
    let ?m = "end_link First us"
    have m: "tq_next q ?m = Some h" "tq_prev q h = Some ?m" using assms(1) by (simp_all add: us spells_def segment_append)
    let ?r = "put_prev h (Some (Next_of t)) (put_next ?m (Some t) (put_next (Next_of t) (Some h) (put_prev t (Some ?m) ?q)))"
    have "link_timer ex t ?q = Some ?r"
      using old place Cons m h by (simp add: link_timer_def TAILQ_INSERT_BEFORE_def write_prev_def)
    moreover have "?m \<noteq> ?l" using m old h by auto
    ultimately show ?thesis using broken[of ?r] old l(2) h by auto
  qed
qed

end
