(* ===== verification/Timer_Claims.thy ===== *)
theory Timer_Claims
  imports Tdma Hal_Timer_Queue
begin

text \<open>
  The properties of the timer queue, of the time base and of the superframes of TDMA, with
  their witnesses on a superframe of four slots of which 1 and 3 are assigned.
\<close>

section \<open>A concrete superframe\<close>

definition sample_slot :: "u16 \<Rightarrow> tdma_slot" where
  "sample_slot i = \<lparr>ts_idx = i, ts_start = 0, ts_cb = 7, ts_arg = 0\<rparr>"

definition sample_tdma :: "timer_id list \<Rightarrow> (timer_id \<Rightarrow> u32) \<Rightarrow> tdma_state" where
  "sample_tdma q ex =
     \<lparr>hal_nt = \<lparr>ticks_per_ostick = 1, nt_cnt = 5000100, last_ostime = 5000100, nt_timers = q, nt_settime = (0, 0)\<rparr>,
      ht_expiry = ex, ht_linked = (\<lambda>t. t \<in> set q),
      td_selfmalloc = True, td_initialized = True, td_nslots = 4, td_os_epoch = 5000000,
      td_superframe = sample_slot 0, td_slot = [1 \<mapsto> sample_slot 1, 3 \<mapsto> sample_slot 3],
      td_eventq = [], td_queued = (\<lambda>_. False),
      td_stat = \<lparr>slot_timer_cnt = 0, superframe_cnt = 0, superframe_miss = 0, dropped_slots = 0\<rparr>,
      ccp_period = 40000, ccp_os_epoch = 5000000, ccp_local_epoch = 0, dev_interface_ids = [1, 3]\<rparr>"

text \<open>Before the superframe the timers of the previous one are still queued.\<close>

definition sample_before :: tdma_state where
  "sample_before = sample_tdma [4, 0] (\<lambda>t. if t = 4 then 5000200 else 5010000)"

lemma sample_slot_period: "slot_period 40000 4 = 10256" "uwb_dwt_usecs_to_usecs 40000 = 41026"
  by (simp_all add: slot_period_def uwb_dwt_usecs_to_usecs_def)

lemma sample_before_fields:
  "td_nslots sample_before = 4" "ccp_period sample_before = 40000" "td_os_epoch sample_before = 5000000"
  "td_slot sample_before = [1 \<mapsto> sample_slot 1, 3 \<mapsto> sample_slot 3]" "timers sample_before = [4, 0]"
  "td_eventq sample_before = []" "td_queued sample_before k = False"
  by (simp_all add: sample_before_def sample_tdma_def)

lemma sample_before_timers: "tdma_timers_only sample_before"
proof -
  have "(3 :: nat) < unat (4 :: u16) \<and> (4 :: nat) = Suc 3 \<and> td_slot sample_before 3 \<noteq> None"
    by (simp add: sample_before_fields)
  then show ?thesis unfolding tdma_timers_only_def sample_before_fields by auto
qed

lemma sample_before_ok:
  "queue_ok 5000000 sample_before" "0 < td_nslots sample_before"
  "period_us sample_before + uint (slot_period (ccp_period sample_before) (td_nslots sample_before)) + uint (1000 :: u32) < 2 ^ 31"
  "period_us sample_before + uint (slot_period (ccp_period sample_before) (td_nslots sample_before)) + uint (0 :: u32) < 2 ^ 31"
  by (simp_all add: sample_before_def sample_tdma_def queue_ok_def due_def period_us_def sample_slot_period)

lemma sample_assigned: "filter (\<lambda>i. td_slot sample_before i \<noteq> None) [0..<unat (td_nslots sample_before)] = [1, 3]"
  by (simp add: sample_before_fields upt_rec)

section \<open>Superframes\<close>

text \<open>
  C11. When a superframe starts, whatever slot timers are queued are replaced by one timer
  for each assigned slot, in slot order and each due at the epoch plus its slot number
  times the slot length less the latency, followed by the timer of the next superframe.
\<close>
theorem tdma_superframe_schedule:
  assumes "queue_ok c s" and "tdma_timers_only s" and "0 < td_nslots s"
    and "period_us s + uint (slot_period (ccp_period s) (td_nslots s)) + uint latency < 2 ^ 31"
  shows "\<exists>s'. tdma_superframe_slot_cb clk1 clk2 latency s = Some s' \<and>
    timers s' = map Suc (filter (\<lambda>i. td_slot s i \<noteq> None) [0..<unat (td_nslots s)]) @ [0] \<and>
    (\<forall>i < unat (td_nslots s). td_slot s i \<noteq> None \<longrightarrow>
       ht_expiry s' (Suc i) = td_os_epoch s + (of_nat i * slot_period (ccp_period s) (td_nslots s) - latency)) \<and>
    ht_expiry s' 0 = td_os_epoch s + (of_int (period_us s) + slot_period (ccp_period s) (td_nslots s)) \<and>
    queue_ok (td_os_epoch s - latency) s'"
  using superframe_slots[OF assms, of clk1 clk2]
  unfolding armed_def slot_start_def superframe_start_def by blast

lemma tdma_superframe_schedule_witness:
  "\<exists>s'. tdma_superframe_slot_cb (\<lambda>_. 5000100) (\<lambda>_. 5000100) 1000 sample_before = Some s' \<and>
    timers s' = [2, 4, 0] \<and> ht_expiry s' 2 = 5009256 \<and> ht_expiry s' 4 = 5029768 \<and> ht_expiry s' 0 = 5051282"
proof -
  obtain s' where s': "tdma_superframe_slot_cb (\<lambda>_. 5000100) (\<lambda>_. 5000100) 1000 sample_before = Some s'"
      "timers s' = map Suc (filter (\<lambda>i. td_slot sample_before i \<noteq> None) [0..<unat (td_nslots sample_before)]) @ [0]"
      "\<forall>i < unat (td_nslots sample_before). td_slot sample_before i \<noteq> None \<longrightarrow>
         ht_expiry s' (Suc i) = td_os_epoch sample_before +
           (of_nat i * slot_period (ccp_period sample_before) (td_nslots sample_before) - 1000)"
      "ht_expiry s' 0 = td_os_epoch sample_before +
         (of_int (period_us sample_before) + slot_period (ccp_period sample_before) (td_nslots sample_before))"
    using tdma_superframe_schedule[OF sample_before_ok(1) sample_before_timers sample_before_ok(2,3), of "\<lambda>_. 5000100" "\<lambda>_. 5000100"] by blast
  have "timers s' = [2, 4, 0]"
    using s'(2) unfolding sample_assigned by simp
  moreover have "ht_expiry s' (Suc 1) = 5009256" "ht_expiry s' (Suc 3) = 5029768"
    using s'(3)[rule_format, of 1] s'(3)[rule_format, of 3]
    by (simp_all add: sample_before_fields sample_slot_period)
  moreover have "ht_expiry s' 0 = 5051282"
    using s'(4) by (simp add: sample_before_fields sample_slot_period period_us_def)
  ultimately show ?thesis using s'(1) by (simp add: numeral_2_eq_2)
qed

text \<open>
  C12. When the timer interrupt then finds the counter at cnt, before the next superframe,
  the events of exactly the assigned slots that are due by cnt are posted, in slot order,
  and the timers of the later slots and of the superframe stay queued.
\<close>
theorem tdma_slots_posted_in_order:
  assumes "queue_ok c s" and "tdma_timers_only s" and "0 < td_nslots s"
    and "period_us s + uint (slot_period (ccp_period s) (td_nslots s)) + uint latency < 2 ^ 31"
    and "\<forall>i. \<not> td_queued s (Suc i)"
    and cnt: "due (td_os_epoch s - latency) cnt < due (td_os_epoch s - latency) (superframe_start s)"
  shows "\<exists>s' s''. tdma_superframe_slot_cb clk1 clk2 latency s = Some s' \<and> fire_loop slot_timer_cb cnt s' = Some s'' \<and>
    td_eventq s'' = td_eventq s @ map Suc (filter (\<lambda>i. td_slot s i \<noteq> None \<and>
       i * unat (slot_period (ccp_period s) (td_nslots s)) \<le> due (td_os_epoch s - latency) cnt) [0..<unat (td_nslots s)]) \<and>
    timers s'' = map Suc (filter (\<lambda>i. td_slot s i \<noteq> None \<and>
       \<not> i * unat (slot_period (ccp_period s) (td_nslots s)) \<le> due (td_os_epoch s - latency) cnt) [0..<unat (td_nslots s)]) @ [0]"
  using superframe_fires[OF assms(1-4) cnt] assms(5) by blast

lemma tdma_slots_posted_in_order_witness:
  "\<exists>s' s''. tdma_superframe_slot_cb (\<lambda>_. 5000100) (\<lambda>_. 5000100) 1000 sample_before = Some s' \<and>
    fire_loop slot_timer_cb 5009300 s' = Some s'' \<and> td_eventq s'' = [2] \<and> timers s'' = [4, 0]"
proof -
  have late: "due (td_os_epoch sample_before - 1000) 5009300 < due (td_os_epoch sample_before - 1000) (superframe_start sample_before)"
    by (simp add: due_def superframe_start_def sample_before_fields sample_slot_period period_us_def)
  have idle: "\<forall>i. \<not> td_queued sample_before (Suc i)" by (simp add: sample_before_fields)
  have "filter (\<lambda>i. td_slot sample_before i \<noteq> None \<and>
       i * unat (slot_period (ccp_period sample_before) (td_nslots sample_before)) \<le> due (td_os_epoch sample_before - 1000) 5009300)
      [0..<unat (td_nslots sample_before)] = [1]"
    and "filter (\<lambda>i. td_slot sample_before i \<noteq> None \<and>
       \<not> i * unat (slot_period (ccp_period sample_before) (td_nslots sample_before)) \<le> due (td_os_epoch sample_before - 1000) 5009300)
      [0..<unat (td_nslots sample_before)] = [3]"
    by (simp_all add: sample_before_fields upt_rec sample_slot_period due_def)
  with tdma_slots_posted_in_order[OF sample_before_ok(1) sample_before_timers sample_before_ok(2,3) idle late,
      of "\<lambda>_. 5000100" "\<lambda>_. 5000100"]
  show ?thesis by (simp add: sample_before_fields(6) numeral_2_eq_2)
qed

section \<open>Stopping TDMA\<close>

text \<open>
  Freeing an instance stops and releases all its slots, but not the timer of the
  superframe: when that is armed it is still queued after the memory that holds it has
  gone back to the allocator.
\<close>
theorem tdma_free_leaves_superframe_timer:
  assumes "queue_ok b s" and "td_selfmalloc s" and "0 \<in> set (timers s)" and "tdma_timers_only s"
  shows "fst (tdma_free clk s) = True \<and> set (timers (snd (tdma_free clk s))) = {0} \<and>
    (\<forall>i < unat (td_nslots s). td_slot (snd (tdma_free clk s)) i = None)"
proof -
  have malloc: "td_selfmalloc (tdma_stop clk s) = td_selfmalloc s" by (rule tdma_stop_selfmalloc)
  have "set (timers s) - Suc ` {i. i < unat (td_nslots s) \<and> td_slot s i \<noteq> None} = {0}"
    using assms(3,4) by (auto simp: tdma_timers_only_def)
  then show ?thesis using assms(2) tdma_stop_ok[OF assms(1), where clk = clk]
    by (simp add: tdma_free_def malloc Let_def)
qed

lemma tdma_free_leaves_superframe_timer_witness:
  "fst (tdma_free (\<lambda>_. 5000100) sample_before) = True \<and> set (timers (snd (tdma_free (\<lambda>_. 5000100) sample_before))) = {0}"
proof -
  have "td_selfmalloc sample_before" "0 \<in> set (timers sample_before)"
    by (simp_all add: sample_before_def sample_tdma_def)
  from tdma_free_leaves_superframe_timer[OF sample_before_ok(1) this sample_before_timers] show ?thesis by blast
qed

section \<open>The timer queue\<close>

text \<open>
  The expiry handler returns, with no expired timer left, for any callbacks that keep
  the queue in order and arm no timer that has already expired.
\<close>
theorem timer_handler_returns:
  assumes run: "\<And>t s. queue_ok b s \<Longrightarrow> queue_ok b (run t s) \<and> expired b cnt (run t s) \<subseteq> expired b cnt s"
    and ok: "queue_ok b s" and cnt: "cnt = fst (hal_timer_read 0 ostime1 s)" "due b cnt < 2 ^ 31"
  shows "\<exists>s'. native_timer_cb run ostime1 ostime2 s = Some s' \<and> queue_ok b s' \<and> expired b cnt s' = {}"
proof -
  have r: "queue_ok b (snd (hal_timer_read 0 ostime1 s))" using ok queue_ok_cong[of "snd (hal_timer_read 0 ostime1 s)" s b] by (simp add: frame)
  obtain v where v: "fire_loop run cnt (snd (hal_timer_read 0 ostime1 s)) = Some v" "queue_ok b v" "expired b cnt v = {}"
    using fire_loop_ends[of b run cnt, OF run cnt(2) r] by blast
  have "queue_ok b (rearm ostime2 v) \<and> expired b cnt (rearm ostime2 v) = {}"
    using v(2,3) by (simp add: queue_ok_def expired_def rearm_frame)
  then show ?thesis using v(1) cnt(1) by (simp add: native_timer_cb_def split_beta)
qed

text \<open>A periodic timer: the callback re-arms its timer 500 ticks after it was due.\<close>

definition sample_periodic :: "timer_id \<Rightarrow> tdma_state \<Rightarrow> tdma_state" where
  "sample_periodic t s =
     (if t = 4 \<and> 4 \<notin> set (timers s) then the (hal_timer_start_at 4 5000700 5000300 s) else s)"

lemma sample_periodic_ok:
  assumes "queue_ok 5000000 s"
  shows "queue_ok 5000000 (sample_periodic t s) \<and> expired 5000000 5000300 (sample_periodic t s) \<subseteq> expired 5000000 5000300 s"
proof (cases "t = 4 \<and> 4 \<notin> set (timers s)")
  case True
  then obtain s' where s': "hal_timer_start_at 4 5000700 5000300 s = Some s'" "queue_ok 5000000 s'"
      "set (timers s') = insert 4 (set (timers s))" "ht_expiry s' = (ht_expiry s)(4 := 5000700)"
    using start_at_ok[OF assms, of 4 5000700 5000300] by (auto simp: due_def)
  then show ?thesis using True by (auto simp: sample_periodic_def expired_def due_def)
qed (use assms in \<open>auto simp: sample_periodic_def\<close>)

lemma timer_handler_returns_witness:
  "\<exists>s'. native_timer_cb sample_periodic 5000300 5000300 sample_before = Some s' \<and> expired 5000000 5000300 s' = {}"
proof -
  have now: "5000300 = fst (hal_timer_read 0 5000300 sample_before)"
    by (simp add: hal_timer_read_def sample_before_def sample_tdma_def on_nt_def)
  have d: "due 5000000 5000300 < 2 ^ 31" by (simp add: due_def)
  from timer_handler_returns[of 5000000 sample_periodic 5000300, OF sample_periodic_ok sample_before_ok(1) now d, of 5000300]
  show ?thesis by blast
qed

text \<open>
  C14. Starting, stopping and expiring timers keep the queue duplicate-free, in the order
  of expiry and in step with the links, as long as expiries stay within half the range of
  the counter from a base tick. Starting adds the one timer and stopping takes it off. The
  expiry handler, with any callbacks that keep the queue so and arm no timer that has expired
  already (they may start and stop timers), returns, keeps it so, and leaves no expired timer
  queued. Starting a timer that is already queued is the one misuse.
\<close>
theorem timer_queue_invariant:
  assumes ok: "queue_ok b s"
  shows "(t \<notin> set (timers s) \<and> due b tick < 2 ^ 31 \<longrightarrow>
       (\<exists>s'. hal_timer_start_at t tick ostime s = Some s' \<and> queue_ok b s' \<and> set (timers s') = insert t (set (timers s)))) \<and>
    queue_ok b (hal_timer_stop t ostime s) \<and> set (timers (hal_timer_stop t ostime s)) = set (timers s) - {t} \<and>
    (t \<in> set (timers s) \<longleftrightarrow> hal_timer_start_at t tick ostime s = None) \<and>
    (cnt = fst (hal_timer_read 0 ostime s) \<and> due b cnt < 2 ^ 31 \<and>
       (\<forall>u v. queue_ok b v \<longrightarrow> queue_ok b (run u v) \<and> expired b cnt (run u v) \<subseteq> expired b cnt v) \<longrightarrow>
       (\<exists>s'. native_timer_cb run ostime ostime2 s = Some s' \<and> queue_ok b s' \<and> expired b cnt s' = {}))"
proof -
  have "t \<notin> set (timers s) \<and> due b tick < 2 ^ 31 \<Longrightarrow>
      \<exists>s'. hal_timer_start_at t tick ostime s = Some s' \<and> queue_ok b s' \<and> set (timers s') = insert t (set (timers s))"
    using start_at_ok[OF ok] by metis
  moreover have "t \<in> set (timers s) \<longleftrightarrow> hal_timer_start_at t tick ostime s = None"
    by (simp add: hal_timer_start_at_def split_beta Let_def)
  moreover have "\<exists>s'. native_timer_cb run ostime ostime2 s = Some s' \<and> queue_ok b s' \<and> expired b cnt s' = {}"
    if "cnt = fst (hal_timer_read 0 ostime s)" "due b cnt < 2 ^ 31"
      "\<forall>u v. queue_ok b v \<longrightarrow> queue_ok b (run u v) \<and> expired b cnt (run u v) \<subseteq> expired b cnt v"
    using timer_handler_returns[of b run cnt, OF _ ok that(1,2)] that(3) by blast
  ultimately show ?thesis using stop_ok[OF ok] by blast
qed

lemma timer_queue_invariant_witness:
  "(\<exists>s'. hal_timer_start_at 2 5000300 5000300 sample_before = Some s' \<and> set (timers s') = {2, 4, 0}) \<and>
   set (timers (hal_timer_stop 4 5000300 sample_before)) = {0} \<and>
   (\<exists>s'. native_timer_cb sample_periodic 5000300 5000300 sample_before = Some s' \<and> queue_ok 5000000 s' \<and> expired 5000000 5000300 s' = {})"
proof -
  have now: "5000300 = fst (hal_timer_read 0 5000300 sample_before)"
    by (simp add: hal_timer_read_def sample_before_def sample_tdma_def on_nt_def)
  have "2 \<notin> set (timers sample_before)" "due 5000000 5000300 < 2 ^ 31" by (simp_all add: sample_before_fields due_def)
  with timer_queue_invariant[OF sample_before_ok(1), of 2 5000300 5000300 5000300 sample_periodic 5000300]
    timer_queue_invariant[OF sample_before_ok(1), of 4 5000300 5000300 5000300 sample_periodic 5000300]
    now sample_periodic_ok
  show ?thesis by (auto simp: sample_before_fields(5))
qed

text \<open>
  C37. The links of the timer queue. As long as they spell a list of distinct timers, the queue
  macros that start a timer, from the walk to the place to the stores, make them spell the list
  with the timer inserted, and those that stop one the list without it: the list the model of
  the timers works on. Starting a timer that is queued already, which the code does not check,
  gives it two predecessors, whatever its own back pointer was set to before: the links then
  spell no list that still holds all the timers. (That start is undefined in the model of the
  timers. \<open>uwb_ccp_start\<close> makes one when the service runs: it sets the timer up anew, which
  clears the back pointer, so that the stop before the start does nothing.)
\<close>

theorem timer_links_refine_list:
  assumes "spells q ts" and "distinct ts"
  shows "(t \<notin> set ts \<longrightarrow> (\<exists>q'. link_timer ex t q = Some q' \<and> spells q' (insert_timer ex t ts))) \<and>
    (t \<in> set ts \<longrightarrow> (\<exists>q'. TAILQ_REMOVE t q = Some q' \<and> spells q' (remove1 t ts)) \<and>
      (\<forall>p. \<exists>q'. link_timer ex t (put_prev t p q) = Some q' \<and> (\<forall>ts'. set ts \<subseteq> set ts' \<longrightarrow> \<not> spells q' ts')))"
  using link_timer_spells[OF assms] remove_spells[OF assms] relink_timer_breaks[OF assms] by blast

text \<open>Three timers, the second of which is started again.\<close>

definition sample_links :: timer_tailq where
  "sample_links = TAILQ_INSERT_TAIL 3 (TAILQ_INSERT_TAIL 2 (TAILQ_INSERT_TAIL 1
     \<lparr>tq_next = (\<lambda>_. None), tq_prev = (\<lambda>_. None), tq_last = First\<rparr>))"

lemma sample_links_spell: "spells sample_links [1, 2, 3]"
  by (simp add: sample_links_def spells_def TAILQ_INSERT_TAIL_def Let_def)

lemma timer_links_refine_list_witness:
  "(\<exists>q'. link_timer (\<lambda>t. of_nat (10 * t)) 2 (put_prev 2 None sample_links) = Some q' \<and> (\<forall>ts'. {1, 2, 3} \<subseteq> set ts' \<longrightarrow> \<not> spells q' ts')) \<and>
   (\<exists>q'. link_timer ((\<lambda>t. of_nat (10 * t))(7 := 15)) 7 sample_links = Some q' \<and> spells q' [1, 7, 2, 3])"
  using timer_links_refine_list[OF sample_links_spell, of 2 "\<lambda>t. of_nat (10 * t)"]
    timer_links_refine_list[OF sample_links_spell, of 7 "(\<lambda>t. of_nat (10 * t))(7 := 15)"]
  by simp

text \<open>
  C15. The expiry handler runs the callbacks of exactly the timers that have expired,
  earliest first, and, as long as timers remain, programs the system's timer to expire
  within a millisecond.
\<close>
theorem timer_handler_runs_expired:
  assumes run: "\<And>t s. timers (run t s) = timers s \<and> ht_expiry (run t s) = ht_expiry s \<and> ht_linked (run t s) = ht_linked s"
    and ok: "queue_ok b s" and cnt: "cnt = fst (hal_timer_read 0 ostime1 s)" "due b cnt < 2 ^ 31"
  shows "\<exists>s'. native_timer_cb run ostime1 ostime2 s = Some s' \<and>
    s' = rearm ostime2 (fold (\<lambda>t s. run t (pop_timer t s))
           (filter (\<lambda>t. due b (ht_expiry s t) \<le> due b cnt) (timers s)) (snd (hal_timer_read 0 ostime1 s))) \<and>
    timers s' = filter (\<lambda>t. \<not> due b (ht_expiry s t) \<le> due b cnt) (timers s) \<and>
    (timers s' \<noteq> [] \<longrightarrow> fst (nt_settime (hal_nt s')) = 0 \<and>
       0 < snd (nt_settime (hal_nt s')) \<and> snd (nt_settime (hal_nt s')) \<le> 1000000)"
proof -
  let ?r = "snd (hal_timer_read 0 ostime1 s)" and ?p = "\<lambda>t. due b (ht_expiry s t) \<le> due b cnt"
  have r: "queue_ok b ?r" using ok queue_ok_cong[of ?r s b] by (simp add: frame)
  have pair: "hal_timer_read 0 ostime1 s = (cnt, ?r)" using cnt(1) by (simp add: prod_eq_iff)
  have sorted: "sorted (map (\<lambda>t. due b (ht_expiry s t)) (timers s))" using ok by (simp add: queue_ok_def)
  define v where "v = fold (\<lambda>t s. run t (pop_timer t s)) (filter ?p (timers s)) ?r"
  have "fire_loop run cnt ?r = Some v"
    using fire_loop_order[of run, OF run cnt(2) r] takeWhile_sorted[OF sorted] by (simp add: v_def frame)
  then have cb: "native_timer_cb run ostime1 ostime2 s = Some (rearm ostime2 v)"
    using cnt(1) by (simp add: native_timer_cb_def split_beta)
  have "timers v = drop (length (filter ?p (timers s))) (timers ?r)"
    unfolding v_def by (rule fire_queue[of run, OF run]) (simp add: frame)
  also have "\<dots> = dropWhile ?p (timers s)"
    by (simp add: dropWhile_eq_drop frame flip: takeWhile_sorted[OF sorted])
  also have "\<dots> = filter (\<lambda>t. \<not> ?p t) (timers s)" by (rule dropWhile_sorted[OF sorted])
  finally have q: "timers (rearm ostime2 v) = filter (\<lambda>t. \<not> ?p t) (timers s)" by (simp add: rearm_frame)
  have "timers (rearm ostime2 v) \<noteq> [] \<longrightarrow> fst (nt_settime (hal_nt (rearm ostime2 v))) = 0 \<and>
      0 < snd (nt_settime (hal_nt (rearm ostime2 v))) \<and> snd (nt_settime (hal_nt (rearm ostime2 v))) \<le> 1000000"
    using rearm_within_ms[of v ostime2] by (simp only: rearm_frame) blast
  with q cb show ?thesis unfolding v_def by blast
qed

text \<open>The callback of the witness counts the expiries in the statistics of TDMA.\<close>

lemma timer_handler_runs_expired_witness:
  "\<exists>s'. native_timer_cb slot_timer_cb 5000300 5000300 sample_before = Some s' \<and> timers s' = [0]"
proof -
  have now: "5000300 = fst (hal_timer_read 0 5000300 sample_before)"
    by (simp add: hal_timer_read_def sample_before_def sample_tdma_def on_nt_def)
  have d: "due 5000000 5000300 < 2 ^ 31" by (simp add: due_def)
  have "filter (\<lambda>t. \<not> due 5000000 (ht_expiry sample_before t) \<le> due 5000000 5000300) (timers sample_before) = [0]"
    by (simp add: sample_before_def sample_tdma_def due_def)
  with timer_handler_runs_expired[of slot_timer_cb, OF slot_timer_cb_frame sample_before_ok(1) now d, of 5000300]
  show ?thesis by auto
qed

text \<open>
  Stopping the first timer of the queue when the next has expired meanwhile programs
  the system's timer to more than 35 minutes: the next timer's callback is delayed by
  that, since the difference is unsigned and, unlike in the handler, not capped.
\<close>
theorem timer_stop_delays_expired:
  assumes "queue_ok b s" and "timers s = t # u # q" and "ticks_per_ostick (hal_nt s) = 1"
    and "due b (fst (hal_timer_read 0 ostime s)) < 2 ^ 31"
    and "due b (ht_expiry s u) < due b (fst (hal_timer_read 0 ostime s))"
  shows "2147 \<le> fst (nt_settime (hal_nt (hal_timer_stop t ostime s)))"
  using stop_forgets_expired[OF assms(1-3) refl assms(4,5)] .

lemma timer_stop_delays_expired_witness:
  "2147 \<le> fst (nt_settime (hal_nt (hal_timer_stop 4 5020000 sample_before)))"
proof (rule timer_stop_delays_expired[OF sample_before_ok(1)])
  show "timers sample_before = 4 # 0 # []" by (simp add: sample_before_fields)
qed (simp_all add: hal_timer_read_def sample_before_def sample_tdma_def on_nt_def due_def)

text \<open>
  Starting a timer that becomes the first of the queue leaves the system's timer
  disarmed exactly if it is due in the future by less than one tick of the system: the
  division gives zero, which is not raised to one as it is in the other two places. With
  one tick per system tick that cannot happen.
\<close>
theorem timer_start_disarms:
  assumes st: "hal_timer_start_at t tick ostime s = Some s'" and first: "hd (timers s') = t"
    and k: "ticks_per_ostick (hal_nt s) \<noteq> 0"
  shows "nt_settime (hal_nt s') = (0, 0) \<longleftrightarrow>
    0 < sint (tick - fst (hal_timer_read 0 ostime s)) \<and> tick - fst (hal_timer_read 0 ostime s) < ticks_per_ostick (hal_nt s)"
proof -
  define u where "u = snd (hal_timer_read 0 ostime (enqueue t tick s))"
  define c where "c = fst (hal_timer_read 0 ostime s)"
  have "fst (hal_timer_read 0 ostime (enqueue t tick s)) = c"
    by (simp add: c_def hal_timer_read_def enqueue_def on_nt_def Let_def)
  then have pair: "hal_timer_read 0 ostime (enqueue t tick s) = (c, u)" by (simp add: u_def prod_eq_iff)
  let ?k = "ticks_per_ostick (hal_nt s)"
  have uk: "ticks_per_ostick (hal_nt u) = ?k" by (simp add: u_def frame)
  have s': "s' = (if sint (tick - c) \<le> 0 then settime (0, 1000) u
      else if hd (timers u) = t then settime (its_value ((tick - c) div ?k)) u else u)"
    using st pair uk by (auto simp: hal_timer_start_at_def split: if_splits)
  then have "hd (timers u) = t" using first by (simp add: frame split: if_splits)
  then have set: "nt_settime (hal_nt s') = (if sint (tick - c) \<le> 0 then (0, 1000) else its_value ((tick - c) div ?k))"
    using s' by (simp add: frame)
  have zero: "its_value 0 = (0, 0)" by (simp add: its_value_def)
  have "(tick - c) div ?k = 0 \<longleftrightarrow> unat (tick - c) div unat ?k = 0"
    by (simp flip: unat_div) (simp add: unat_eq_zero)
  also have "\<dots> \<longleftrightarrow> tick - c < ?k"
    using k by (auto simp: div_eq_0_iff word_less_nat_alt unat_eq_zero)
  finally have "its_value ((tick - c) div ?k) = (0, 0) \<longleftrightarrow> tick - c < ?k"
    using its_value_nonzero[of "(tick - c) div ?k"] zero by metis
  then show ?thesis by (simp add: set flip: c_def)
qed

lemma timer_start_disarms_witness:
  "\<exists>s'. hal_timer_start_at 2 5000101 5000100 (on_nt (\<lambda>nt. nt\<lparr>ticks_per_ostick := 2\<rparr>) (sample_tdma [] (\<lambda>_. 0))) = Some s' \<and>
    nt_settime (hal_nt s') = (0, 0)"
proof -
  let ?s = "on_nt (\<lambda>nt. nt\<lparr>ticks_per_ostick := 2\<rparr>) (sample_tdma [] (\<lambda>_. 0))"
  have empty: "2 \<notin> set (timers ?s)" and k: "ticks_per_ostick (hal_nt ?s) \<noteq> 0"
    by (simp_all add: sample_tdma_def on_nt_def)
  obtain s' where s': "hal_timer_start_at 2 5000101 5000100 ?s = Some s'" "timers s' = [2]"
    using start_at_queue[OF empty, of 5000101 5000100] by (auto simp: sample_tdma_def on_nt_def)
  then have "hd (timers s') = 2" by simp
  from timer_start_disarms[OF s'(1) this k] s'(1) show ?thesis
    by (simp add: hal_timer_read_def sample_tdma_def on_nt_def)
qed

section \<open>The time base\<close>

text \<open>
  The tick counter of the native port counts microseconds modulo
  \<open>2 ^ 32 - 1\<close>, not \<open>2 ^ 32\<close>, from 1 on: the value 0 never returns, so 32-bit
  differences across the wrap are off by one tick.
\<close>
theorem dpl_time_wraps:
  assumes "0 < sec * 1000000 + nsec div 1000"
  shows "unat (dpl_time_get (Some (sec, nsec))) = (unat (sec * 1000000 + nsec div 1000) - 1) mod 4294967295 + 1"
proof -
  let ?v = "sec * 1000000 + nsec div 1000"
  have fold: "unat (fold_time ?v) = (unat ?v - 1) mod 4294967295 + 1" by (rule fold_time_eq[OF assms])
  then have "unat (fold_time ?v) < 2 ^ 32" using mod_less_divisor[of 4294967295 "unat ?v - 1"] by simp
  then have "unat (ucast (fold_time ?v) :: u32) = unat (fold_time ?v)"
    by (simp add: unsigned_ucast_eq take_bit_nat_eq_self)
  then show ?thesis using fold by (simp add: dpl_time_get_def)
qed

lemma dpl_time_wraps_witness: "unat (dpl_time_get (Some (4294, 967296000))) = 1"
  using dpl_time_wraps[of 4294 967296000] by simp

text \<open>
  For a timer of up to 524288 Hz the conversion of microseconds to ticks is at most
  one tick short of the exact quotient; for 32768 Hz the conversion back is the exact
  quotient in 32 bits, while for 256 Hz a second comes back as two.
\<close>
theorem cputime_pwr2_conversions:
  assumes "unat freq \<le> 524288"
  shows "unat (pwr2_usecs_to_ticks freq usecs) \<le> unat freq * unat usecs div 1000000 \<and>
    unat freq * unat usecs div 1000000 \<le> unat (pwr2_usecs_to_ticks freq usecs) + 1 \<and>
    pwr2_ticks_to_usecs 32768 ticks = of_nat (unat ticks * 1000000 div 32768) \<and>
    pwr2_ticks_to_usecs 256 256 = 2000000"
proof -
  have u: "unat usecs < 4294967296" using unat_lt_32[of usecs] by simp
  have t: "unat (pwr2_usecs_to_ticks freq usecs) = (unat freq * 4294967296 div 1000000 * unat usecs) div 4294967296"
    using pwr2_usecs_to_ticks_nat[OF assms, of usecs] by (simp add: mult.commute)
  have "pwr2_ticks_to_usecs 256 256 = 2000000"
    by (simp add: pwr2_ticks_to_usecs_def bit_length_256 Let_def drop_bit_eq_div)
  then show ?thesis
    using floor_product_bound[of 1000000 4294967296 "unat usecs" "unat freq", OF _ _ u] t pwr2_32768_exact[of ticks]
    by simp
qed

lemma cputime_pwr2_conversions_witness:
  "unat (pwr2_usecs_to_ticks 32768 1000000) \<le> 32768 \<and> 32768 \<le> unat (pwr2_usecs_to_ticks 32768 1000000) + 1 \<and>
    pwr2_ticks_to_usecs 32768 32768 = 1000000"
  using cputime_pwr2_conversions[of 32768 1000000 32768] by simp

end
