(* ===== verification/Dpl_Callout.thy ===== *)
theory Dpl_Callout
  imports Prelude
begin

text \<open>
  Callouts of the native port, porting/dpl/linux/src/dpl_callout.c: an event posted by a
  one-shot timer of the system. \<open>c_its\<close> is what the timer was last set to, seconds and
  nanoseconds from then on; what \<open>timer_gettime\<close> returns, the time left, is the argument
  \<open>left\<close>. One tick is a microsecond. (The kernel port, porting/dpl/kernel/src/dpl_callout.c, has
  delayed work instead of the timer and computes the ticks left differently; it is not modelled.)
\<close>

record dpl_callout =
  c_inited :: bool
  c_active :: bool
  c_ticks :: u32
  c_its :: "nat \<times> nat"
  c_has_evq :: bool
  c_ev_arg :: nat

definition dpl_callout_init :: "bool \<Rightarrow> nat \<Rightarrow> dpl_callout" where
  "dpl_callout_init evq ev_arg =
     \<lparr>c_inited = True, c_active = False, c_ticks = 0, c_its = (0, 0), c_has_evq = evq, c_ev_arg = ev_arg\<rparr>"

text \<open>When the timer ends: the event is posted, or its function is called at once.\<close>

datatype callout_end = Post_event | Call_event

definition dpl_callout_timer_cb :: "dpl_callout \<Rightarrow> callout_end" where
  "dpl_callout_timer_cb c = (if c_has_evq c then Post_event else Call_event)"

definition dpl_callout_is_active :: "dpl_callout \<Rightarrow> bool" where
  "dpl_callout_is_active c = c_active c"

definition timer_value :: "u32 \<Rightarrow> nat \<times> nat" where
  "timer_value ticks = (unat ticks div 1000000, (unat ticks mod 1000000) * 1000 mod 1000000000)"

definition dpl_callout_reset :: "u32 \<Rightarrow> u32 \<Rightarrow> dpl_callout \<Rightarrow> dpl_callout" where
  "dpl_callout_reset ticks now c =
     (let ticks = (if ticks = 0 then 1 else ticks)
      in c\<lparr>c_ticks := now + ticks, c_active := True, c_its := timer_value ticks\<rparr>)"

definition dpl_callout_queued :: "nat \<times> nat \<Rightarrow> bool" where
  "dpl_callout_queued left = (fst left > 0 \<or> snd left > 0)"

definition dpl_callout_stop :: "dpl_callout \<Rightarrow> dpl_callout" where
  "dpl_callout_stop c = (if \<not> c_inited c then c else c\<lparr>c_its := (0, 0), c_active := False\<rparr>)"

definition dpl_callout_get_ticks :: "dpl_callout \<Rightarrow> u32" where
  "dpl_callout_get_ticks c = c_ticks c"

definition dpl_callout_set_arg :: "nat \<Rightarrow> dpl_callout \<Rightarrow> dpl_callout" where
  "dpl_callout_set_arg arg c = c\<lparr>c_ev_arg := arg\<rparr>"

definition dpl_callout_remaining_ticks :: "nat \<times> nat \<Rightarrow> u32 \<Rightarrow> u32" where
  "dpl_callout_remaining_ticks left now =
     (let expiry = of_nat (fst left * 1000000)
      in if expiry > now then expiry - now else 0)"

section \<open>Lemmas\<close>

text \<open>The timer is set to as many microseconds as there are ticks.\<close>

lemma timer_value_exact:
  "fst (timer_value t) * 1000000 + snd (timer_value t) div 1000 = unat t"
  "snd (timer_value t) < 1000000000"
proof -
  have "unat t mod 1000000 < 1000000" by simp
  then have m: "(unat t mod 1000000) * 1000 < 1000000000" by simp
  then show "fst (timer_value t) * 1000000 + snd (timer_value t) div 1000 = unat t"
    by (simp add: timer_value_def)
  show "snd (timer_value t) < 1000000000" by (simp add: timer_value_def)
qed

text \<open>
  The time left is measured from now, but it is compared with the absolute time: once the
  clock has passed the length of the callout nothing seems to be left.
\<close>

lemma remaining_ticks_lost:
  assumes "fst left * 1000000 \<le> unat now"
  shows "dpl_callout_remaining_ticks left now = 0"
proof -
  have "unat now < 2 ^ LENGTH(32)" by (rule unsigned_less)
  then have "unat (of_nat (fst left * 1000000) :: u32) = fst left * 1000000"
    using assms by (metis le_less_trans mod_less unat_of_nat)
  then have "\<not> (of_nat (fst left * 1000000) :: u32) > now" using assms by (simp only: word_less_nat_alt not_less)
  then show ?thesis by (simp add: dpl_callout_remaining_ticks_def)
qed

end
