(* ===== verification/Panm_Fcb.thy ===== *)
theory Panm_Fcb
  imports Prelude
begin

text \<open>
  The nodes of the network master (panmaster.h, pan_utils.h) and their storage in a flash
  circular buffer, lib/panmaster/src/panmaster_fcb.c (the default configuration). The buffer
  is a package of the operating system: \<open>fcb_lib\<close> holds the calls the code makes. A write
  outside the node table is None, and so is a loop that does not end.
\<close>

section \<open>Data\<close>

record pan_image_version =
  iv_major :: u8
  iv_minor :: u8
  iv_revision :: u16
  iv_build_num :: u32

record panmaster_node =
  pn_first_seen_utc :: u64
  pn_euid :: u64
  pn_addr :: u16
  pn_dummy :: "11 word"
  pn_has_perm_slot :: bool
  pn_role :: "4 word"
  pn_index :: u8
  pn_slot_id :: u16
  pn_fw_ver :: pan_image_version

record panmaster_node_idx =
  ni_addr :: u16
  ni_slot_id :: u16
  ni_euid :: u64
  ni_role :: u8
  ni_has_perm_slot :: bool
  ni_save_needed :: bool
  ni_lease_ends :: u32

definition no_version :: pan_image_version where
  "no_version = \<lparr>iv_major = 0, iv_minor = 0, iv_revision = 0, iv_build_num = 0\<rparr>"

definition PANMASTER_NODE_DEFAULT :: panmaster_node where
  "PANMASTER_NODE_DEFAULT =
     \<lparr>pn_first_seen_utc = 0, pn_euid = 0, pn_addr = 0xffff, pn_dummy = 0, pn_has_perm_slot = False, pn_role = 0,
      pn_index = 0, pn_slot_id = 0xffff, pn_fw_ver = no_version\<rparr>"

definition zero_node :: panmaster_node where
  "zero_node = PANMASTER_NODE_DEFAULT\<lparr>pn_addr := 0, pn_slot_id := 0\<rparr>"

definition PANMASTER_NODE_IDX_DEFAULT :: "panmaster_node_idx \<Rightarrow> panmaster_node_idx" where
  "PANMASTER_NODE_IDX_DEFAULT n = n\<lparr>ni_addr := 0xffff, ni_slot_id := 0xffff, ni_role := 0\<rparr>"

text \<open>
  A request or response: the firmware version and the assigned values share the same eight
  bytes, held here as the assigned values.
\<close>

record pan_req_resp =
  rr_role :: u16
  rr_lease_time :: u16
  rr_pan_id :: u16
  rr_short_address :: u16
  rr_slot_id :: u16
  rr_padding :: u16

definition rr_fw_ver :: "pan_req_resp \<Rightarrow> pan_image_version" where
  "rr_fw_ver r =
     \<lparr>iv_major = ucast (rr_pan_id r), iv_minor = ucast (drop_bit 8 (rr_pan_id r)),
      iv_revision = rr_short_address r,
      iv_build_num = ucast (rr_slot_id r) OR push_bit 16 (ucast (rr_padding r))\<rparr>"

section \<open>The storage\<close>

text \<open>
  What the code uses of the circular buffer: its entries in the order \<open>fcb_walk\<close> and
  \<open>fcb_getnext\<close> visit them, each with its sector, its length and what reading it gives
  (None: a read error); the sector that is recycled next; reserving room, writing a node
  into it and making it valid; adding the scratch sector, dropping the oldest one, clearing.
\<close>

record fcb_entry =
  fe_area :: nat
  fe_data_len :: nat
  fe_data :: "panmaster_node option"

record 'f fcb_lib =
  fcb_entries :: "'f \<Rightarrow> fcb_entry list"
  f_oldest :: "'f \<Rightarrow> nat"
  fcb_append :: "nat \<Rightarrow> 'f \<Rightarrow> int \<times> 'f"
  flash_area_write :: "panmaster_node \<Rightarrow> 'f \<Rightarrow> int \<times> 'f"
  fcb_append_finish :: "'f \<Rightarrow> 'f"
  fcb_append_to_scratch :: "'f \<Rightarrow> int \<times> 'f"
  fcb_rotate :: "'f \<Rightarrow> 'f"
  fcb_clear :: "'f \<Rightarrow> int \<times> 'f"
  FCB_ERR_NOSPACE :: int

definition OS_EINVAL :: int where "OS_EINVAL = 2"

text \<open>The packed size of a node, and of the record of an older version.\<close>

definition sizeof_node :: nat where "sizeof_node = 8 + 8 + 2 + 2 + 1 + 2 + 8"
definition sizeof_old_node :: nat where "sizeof_old_node = sizeof_node - 8"

text \<open>\<open>fcb_load_cb\<close>: whether the walk stops, and the node passed on.\<close>

definition fcb_load_cb :: "fcb_entry \<Rightarrow> bool \<times> panmaster_node option" where
  "fcb_load_cb loc =
     (if fe_data_len loc \<noteq> sizeof_node \<and> fe_data_len loc \<noteq> sizeof_old_node then (True, None)
      else (False, map_option (\<lambda>n. if fe_data_len loc = sizeof_node then n else n\<lparr>pn_fw_ver := no_version\<rparr>) (fe_data loc)))"

primrec load_loop :: "(panmaster_node \<Rightarrow> 'a \<Rightarrow> 'a) \<Rightarrow> fcb_entry list \<Rightarrow> 'a \<Rightarrow> int \<times> 'a" where
  "load_loop cb [] a = (0, a)"
| "load_loop cb (loc # locs) a =
     (case fcb_load_cb loc of
        (True, _) \<Rightarrow> (OS_EINVAL, a)
      | (False, None) \<Rightarrow> load_loop cb locs a
      | (False, Some n) \<Rightarrow> load_loop cb locs (cb n a))"

definition panmaster_load :: "'f fcb_lib \<Rightarrow> (panmaster_node \<Rightarrow> 'a \<Rightarrow> 'a) \<Rightarrow> 'f \<Rightarrow> 'a \<Rightarrow> int \<times> 'a" where
  "panmaster_load lib cb f a = load_loop cb (fcb_entries lib f) a"

text \<open>The table is filled; the bound lets an index one past its end through.\<close>

definition node_idx_load_cb :: "panmaster_node \<Rightarrow> panmaster_node_idx list option \<Rightarrow> panmaster_node_idx list option" where
  "node_idx_load_cb n tbl =
     (case tbl of
        None \<Rightarrow> None
      | Some t \<Rightarrow>
          let i = unat (pn_index n)
          in if i > length t then Some t
             else if i = length t then None
             else
               let e = (t ! i)\<lparr>ni_addr := pn_addr n, ni_euid := pn_euid n, ni_role := ucast (pn_role n),
                               ni_has_perm_slot := pn_has_perm_slot n\<rparr>;
                   e = (if pn_has_perm_slot n then e\<lparr>ni_slot_id := pn_slot_id n, ni_lease_ends := 0\<rparr> else e)
               in Some (t[i := e]))"

definition panm_fcb_load_idx :: "'f fcb_lib \<Rightarrow> 'f \<Rightarrow> panmaster_node_idx list \<Rightarrow> int \<times> panmaster_node_idx list option" where
  "panm_fcb_load_idx lib f tbl = panmaster_load lib node_idx_load_cb f (Some tbl)"

definition find_node_load_cb :: "panmaster_node \<Rightarrow> panmaster_node \<Rightarrow> panmaster_node option \<Rightarrow> panmaster_node option" where
  "find_node_load_cb fnd n r =
     (if pn_index fnd \<noteq> 0 \<and> pn_index fnd = pn_index n \<or> pn_addr fnd \<noteq> 0xffff \<and> pn_addr fnd = pn_addr n \<or>
         pn_euid fnd \<noteq> 0 \<and> pn_euid fnd = pn_euid n then Some n else r)"

definition panmaster_find_node_general :: "'f fcb_lib \<Rightarrow> panmaster_node \<Rightarrow> 'f \<Rightarrow> panmaster_node option" where
  "panmaster_find_node_general lib fnd f = snd (panmaster_load lib (find_node_load_cb fnd) f None)"

text \<open>
  The loop of \<open>panm_fcb_compress\<close>, from entry \<open>i\<close> on. The buffer keeps the version of the
  node read before when an entry of the older length is read into it.
\<close>

definition kept_elsewhere :: "nat \<Rightarrow> panmaster_node \<Rightarrow> fcb_entry list \<Rightarrow> bool" where
  "kept_elsewhere oldest buf1 locs =
     list_ex (\<lambda>loc2. fe_area loc2 \<noteq> oldest \<and>
                     (case fe_data loc2 of None \<Rightarrow> False | Some buf2 \<Rightarrow> pn_euid buf1 = pn_euid buf2)) locs"

definition copy_node :: "'f fcb_lib \<Rightarrow> panmaster_node \<Rightarrow> 'f \<Rightarrow> 'f" where
  "copy_node lib buf1 f =
     (let (rc, f) = fcb_append lib sizeof_node f
      in if rc \<noteq> 0 then f
         else
           let (rc, f) = flash_area_write lib buf1 f
           in if rc \<noteq> 0 then f else fcb_append_finish lib f)"

partial_function (option) compress_loop :: "'f fcb_lib \<Rightarrow> pan_image_version \<Rightarrow> nat \<Rightarrow> 'f \<Rightarrow> 'f option" where
  "compress_loop lib fw i f =
     (let locs = fcb_entries lib f
      in if i \<ge> length locs \<or> fe_area (locs ! i) \<noteq> f_oldest lib f then Some f
         else
           (case fe_data (locs ! i) of
              None \<Rightarrow> compress_loop lib fw (Suc i) f
            | Some n \<Rightarrow>
                let buf1 = (if fe_data_len (locs ! i) = sizeof_node then n else n\<lparr>pn_fw_ver := fw\<rparr>)
                in if kept_elsewhere (f_oldest lib f) buf1 (drop (Suc i) locs)
                   then compress_loop lib (pn_fw_ver buf1) (Suc i) f
                   else compress_loop lib (pn_fw_ver buf1) (Suc i) (copy_node lib buf1 f)))"

definition panm_fcb_compress :: "'f fcb_lib \<Rightarrow> pan_image_version \<Rightarrow> 'f \<Rightarrow> 'f option" where
  "panm_fcb_compress lib fw f =
     (let (rc, f) = fcb_append_to_scratch lib f
      in if rc \<noteq> 0 then Some f
         else map_option (fcb_rotate lib) (compress_loop lib fw 0 f))"

text \<open>Appending compresses while there is no room, ten times at most.\<close>

primrec append_tries :: "'f fcb_lib \<Rightarrow> pan_image_version \<Rightarrow> nat \<Rightarrow> int \<Rightarrow> 'f \<Rightarrow> (int \<times> 'f) option" where
  "append_tries lib fw 0 rc f = Some (rc, f)"
| "append_tries lib fw (Suc k) rc f =
     (let (rc, f) = fcb_append lib sizeof_node f
      in if rc \<noteq> FCB_ERR_NOSPACE lib then Some (rc, f)
         else case panm_fcb_compress lib fw f of
                None \<Rightarrow> None
              | Some f \<Rightarrow> append_tries lib fw k rc f)"

definition panm_fcb_save :: "'f fcb_lib \<Rightarrow> pan_image_version \<Rightarrow> panmaster_node \<Rightarrow> 'f \<Rightarrow> (int \<times> 'f) option" where
  "panm_fcb_save lib fw node f =
     (case append_tries lib fw 10 0 f of
        None \<Rightarrow> None
      | Some (rc, f) \<Rightarrow>
          if rc \<noteq> 0 then Some (OS_EINVAL, f)
          else
            let (rc, f) = flash_area_write lib node f
            in if rc \<noteq> 0 then Some (OS_EINVAL, f) else Some (0, fcb_append_finish lib f))"

text \<open>Sorting: the nodes are collected by index and written back in the order of their addresses.\<close>

definition sort_nodes_load_cb :: "panmaster_node \<Rightarrow> panmaster_node list \<Rightarrow> panmaster_node list" where
  "sort_nodes_load_cb n nodes = (if unat (pn_index n) < length nodes then nodes[unat (pn_index n) := n] else nodes)"

text \<open>A node of bytes 0xff.\<close>

definition erased_node :: panmaster_node where
  "erased_node =
     \<lparr>pn_first_seen_utc = - 1, pn_euid = - 1, pn_addr = - 1, pn_dummy = - 1, pn_has_perm_slot = True, pn_role = - 1,
      pn_index = - 1, pn_slot_id = - 1,
      pn_fw_ver = \<lparr>iv_major = - 1, iv_minor = - 1, iv_revision = - 1, iv_build_num = - 1\<rparr>\<rparr>"

primrec lowest_loop :: "panmaster_node list \<Rightarrow> nat \<Rightarrow> int \<times> nat \<Rightarrow> int \<times> nat" where
  "lowest_loop [] i acc = acc"
| "lowest_loop (n # ns) i acc =
     lowest_loop ns (Suc i)
       (if pn_addr n \<noteq> 0xffff \<and> uint (pn_addr n) < fst acc then (uint (pn_addr n), i) else acc)"

primrec sort_loop ::
    "'f fcb_lib \<Rightarrow> pan_image_version \<Rightarrow> nat \<Rightarrow> nat \<Rightarrow> panmaster_node list \<Rightarrow> 'f \<Rightarrow> 'f option" where
  "sort_loop lib fw 0 idx nodes f = Some f"
| "sort_loop lib fw (Suc k) idx nodes f =
     (let (laddr, laddr_i) = lowest_loop nodes 0 (0xffff, 0)
      in if laddr = 0xffff then Some f
         else
           let node = (nodes ! laddr_i)\<lparr>pn_index := of_nat idx\<rparr>
           in case panm_fcb_save lib fw node f of
                None \<Rightarrow> None
              | Some (_, f) \<Rightarrow> sort_loop lib fw k (Suc idx) (nodes[laddr_i := node\<lparr>pn_addr := 0xffff\<rparr>]) f)"

definition panm_fcb_sort :: "'f fcb_lib \<Rightarrow> pan_image_version \<Rightarrow> nat \<Rightarrow> bool \<Rightarrow> 'f \<Rightarrow> 'f option" where
  "panm_fcb_sort lib fw maxnum malloc_ok f =
     (if \<not> malloc_ok then Some f
      else
        let nodes = snd (panmaster_load lib sort_nodes_load_cb f (replicate maxnum erased_node));
            f = snd (fcb_clear lib f)
        in sort_loop lib fw maxnum 0 nodes f)"

end
