(* ===== verification/Panmaster.thy ===== *)
theory Panmaster
  imports Panm_Fcb
begin

text \<open>
  The node table of the network master, lib/panmaster/src/panmaster.c: which node has which
  short address and slot, the requests of nodes (called from the radio's interrupt), and the
  copies that the background task saves later. \<open>lib\<close> is the storage; \<open>fw\<close> the stack memory
  of \<open>panm_fcb_compress\<close>; \<open>now\<close> the uptime in milliseconds, \<open>utc\<close> the time of day. A write
  outside the table is None.
\<close>

section \<open>The code\<close>

record 'f pan_state =
  node_idx :: "panmaster_node_idx list"
  nodes_to_save :: "panmaster_node list"
  pm_pan_id :: u16
  pm_fcb :: 'f

definition on_idx :: "nat \<Rightarrow> (panmaster_node_idx \<Rightarrow> panmaster_node_idx) \<Rightarrow> 'f pan_state \<Rightarrow> 'f pan_state" where
  "on_idx i g s = s\<lparr>node_idx := (node_idx s)[i := g (node_idx s ! i)]\<rparr>"

definition on_saved :: "nat \<Rightarrow> (panmaster_node \<Rightarrow> panmaster_node) \<Rightarrow> 'f pan_state \<Rightarrow> 'f pan_state" where
  "on_saved k g s = s\<lparr>nodes_to_save := (nodes_to_save s)[k := g (nodes_to_save s ! k)]\<rparr>"

text \<open>The first position of a list with a property, as the searches of the code find it.\<close>

definition find_index :: "('a \<Rightarrow> bool) \<Rightarrow> 'a list \<Rightarrow> nat option" where
  "find_index P xs = find (\<lambda>i. P (xs ! i)) [0..<length xs]"

definition addr_taken :: "panmaster_node_idx list \<Rightarrow> u16 \<Rightarrow> bool" where
  "addr_taken tbl a = list_ex (\<lambda>n. a = ni_addr n) tbl"

definition short_addr_is_free :: "panmaster_node_idx list \<Rightarrow> u16 \<Rightarrow> bool" where
  "short_addr_is_free tbl a = (\<not> addr_taken tbl a)"

definition addr_candidate :: "u64 \<Rightarrow> nat \<Rightarrow> u16" where
  "addr_candidate eu i =
     (if i > 0 then ucast (push_bit 12 (of_nat i) OR (eu AND 0x0fff)) else ucast (eu AND 0xffff))"

text \<open>The search for an address, of which \<open>k\<close> candidates remain.\<close>

primrec addr_loop :: "panmaster_node_idx list \<Rightarrow> u64 \<Rightarrow> nat \<Rightarrow> u16" where
  "addr_loop tbl eu 0 = 0"
| "addr_loop tbl eu (Suc k) =
     (let a = addr_candidate eu (length tbl - Suc k);
          a = (if addr_taken tbl a then 0 else a)
      in if a \<noteq> 0 then a else addr_loop tbl eu k)"

definition first_free_short_addr :: "panmaster_node_idx list \<Rightarrow> u64 \<Rightarrow> u16" where
  "first_free_short_addr tbl eu = (if tbl = [] then ucast (eu AND 0xffff) else addr_loop tbl eu (length tbl))"

definition slot_lease_expired :: "int \<Rightarrow> panmaster_node_idx \<Rightarrow> bool" where
  "slot_lease_expired now n =
     (if ni_lease_ends n = 0 then False else sint (of_int now :: u32) > sint (ni_lease_ends n))"

definition slot_held :: "panmaster_node_idx list \<Rightarrow> int \<Rightarrow> u16 \<Rightarrow> u16 \<Rightarrow> u16 \<Rightarrow> bool" where
  "slot_held tbl now node_addr rl slot =
     list_ex (\<lambda>n. ni_addr n \<noteq> 0xffff \<and> rl = ucast (ni_role n) \<and> slot = ni_slot_id n \<and> node_addr \<noteq> ni_addr n \<and>
                  (\<not> slot_lease_expired now n \<or> ni_has_perm_slot n)) tbl"

function slot_loop :: "panmaster_node_idx list \<Rightarrow> int \<Rightarrow> u16 \<Rightarrow> u16 \<Rightarrow> nat \<Rightarrow> u16" where
  "slot_loop tbl now node_addr rl slot =
     (if slot < 0xffff
      then if slot_held tbl now node_addr rl (of_nat slot) then slot_loop tbl now node_addr rl (Suc slot)
           else of_nat slot
      else 0xffff)"
  by auto
termination by (relation "measure (\<lambda>(_, _, _, _, slot). 0xffff - slot)") auto

declare slot_loop.simps [simp del]

lemma slot_loop_code [code]:
  "slot_loop tbl now node_addr rl slot =
     (if int slot < 0xffff
      then if slot_held tbl now node_addr rl (of_nat slot) then slot_loop tbl now node_addr rl (Suc slot)
           else of_nat slot
      else 0xffff)"
  by (subst slot_loop.simps) simp

definition first_free_slot_id :: "panmaster_node_idx list \<Rightarrow> int \<Rightarrow> u16 \<Rightarrow> u16 \<Rightarrow> u16" where
  "first_free_slot_id tbl now node_addr rl = slot_loop tbl now node_addr rl 0"

text \<open>Reserving a place among the nodes to save; the mutex may be held by the background task.\<close>

definition find_first_empty_nodes_to_save :: "bool \<Rightarrow> u64 \<Rightarrow> 'f pan_state \<Rightarrow> nat option \<times> 'f pan_state" where
  "find_first_empty_nodes_to_save locked eu s =
     (if locked then (None, s)
      else case find_index (\<lambda>n. pn_euid n = 0) (nodes_to_save s) of
             None \<Rightarrow> (None, s)
           | Some k \<Rightarrow> (Some k, on_saved k (\<lambda>n. n\<lparr>pn_euid := eu\<rparr>) s))"

definition find_known :: "nat \<Rightarrow> nat \<Rightarrow> int \<Rightarrow> u16 \<Rightarrow> 'f pan_state \<Rightarrow> 'f pan_state" where
  "find_known k i now rl s =
     (let e = node_idx s ! i;
          s = on_saved k (\<lambda>n. n\<lparr>pn_index := of_nat i, pn_addr := ni_addr e, pn_euid := ni_euid e, pn_role := ucast (ni_role e),
                               pn_has_perm_slot := ni_has_perm_slot e,
                               pn_slot_id := ni_slot_id (node_idx s ! unat (of_nat i :: u8))\<rparr>) s;
          n = nodes_to_save s ! k;
          s = (if pn_has_perm_slot n then s
               else
                 let slot = first_free_slot_id (node_idx s) now (pn_addr n) rl
                 in on_idx (unat (pn_index n)) (\<lambda>e. e\<lparr>ni_slot_id := slot\<rparr>) (on_saved k (\<lambda>n. n\<lparr>pn_slot_id := slot\<rparr>) s))
      in if ucast (pn_role n) \<noteq> rl \<and> rl > 0
         then on_idx i (\<lambda>e. e\<lparr>ni_save_needed := True\<rparr>) (on_saved k (\<lambda>n. n\<lparr>pn_role := ucast rl\<rparr>) s)
         else s)"

definition add_unknown :: "nat \<Rightarrow> nat \<Rightarrow> int \<Rightarrow> u64 \<Rightarrow> u64 \<Rightarrow> u16 \<Rightarrow> 'f pan_state \<Rightarrow> 'f pan_state" where
  "add_unknown k i now utc eu rl s =
     (let a = first_free_short_addr (node_idx s) eu;
          s = on_saved k (\<lambda>n. PANMASTER_NODE_DEFAULT\<lparr>pn_euid := eu, pn_addr := a\<rparr>) s;
          s = on_idx i (\<lambda>e. e\<lparr>ni_addr := a, ni_euid := eu, ni_role := ucast rl\<rparr>) s;
          slot = first_free_slot_id (node_idx s) now a rl;
          s = on_saved k (\<lambda>n. n\<lparr>pn_role := ucast rl, pn_slot_id := slot, pn_first_seen_utc := utc, pn_index := of_nat i\<rparr>) s
      in on_idx i (\<lambda>e. e\<lparr>ni_slot_id := slot, ni_save_needed := True\<rparr>) s)"

text \<open>The result code, and the node found as its place among the nodes to save.\<close>

definition panmaster_idx_find_node ::
    "bool \<Rightarrow> int \<Rightarrow> u64 \<Rightarrow> u64 \<Rightarrow> u16 \<Rightarrow> 'f pan_state \<Rightarrow> int \<times> nat option \<times> 'f pan_state" where
  "panmaster_idx_find_node locked now utc eu rl s =
     (case find_first_empty_nodes_to_save locked eu s of
        (None, s) \<Rightarrow> (1, None, s)
      | (Some k, s) \<Rightarrow>
          (case find_index (\<lambda>e. ni_addr e \<noteq> 0xffff \<and> eu = ni_euid e) (node_idx s) of
             Some i \<Rightarrow> (0, Some k, find_known k i now rl s)
           | None \<Rightarrow>
               (case find_index (\<lambda>e. ni_addr e = 0xffff) (node_idx s) of
                  Some i \<Rightarrow> (0, Some k, add_unknown k i now utc eu rl s)
                | None \<Rightarrow> (0, None, s))))"

text \<open>
  A request answered. \<open>same\<close> says that request and response are the same buffer, as they are
  in the call of uwb_pan.c; \<open>now2\<close> is the uptime at the second reading.
\<close>

definition panrequest_cb ::
    "u16 \<Rightarrow> bool \<Rightarrow> bool \<Rightarrow> int \<Rightarrow> int \<Rightarrow> u64 \<Rightarrow> u64 \<Rightarrow> pan_req_resp \<Rightarrow> pan_req_resp \<Rightarrow> 'f pan_state \<Rightarrow>
     bool \<times> pan_req_resp \<times> 'f pan_state" where
  "panrequest_cb default_lease same locked now now2 utc eu request response s =
     (case panmaster_idx_find_node locked now utc eu (rr_role request) s of
        (_, None, s) \<Rightarrow> (False, response, s)
      | (_, Some k, s) \<Rightarrow>
          let s = on_saved k (\<lambda>n. n\<lparr>pn_fw_ver := rr_fw_ver request\<rparr>) s;
              node = nodes_to_save s ! k;
              i = unat (pn_index node);
              r = response\<lparr>rr_short_address := pn_addr node, rr_slot_id := ni_slot_id (node_idx s ! i)\<rparr>;
              r = (if rr_lease_time r = 0 then r\<lparr>rr_lease_time := default_lease\<rparr> else r);
              lease = rr_lease_time (if same then r else request);
              s = on_idx i (\<lambda>e. e\<lparr>ni_lease_ends := of_int (now2 + uint lease * 1000)\<rparr>) s;
              r = r\<lparr>rr_pan_id := pm_pan_id s, rr_role := ucast (pn_role node)\<rparr>
          in (True, r, s))"

section \<open>Saving, in the background\<close>

definition panmaster_save_node :: "'f fcb_lib \<Rightarrow> pan_image_version \<Rightarrow> panmaster_node \<Rightarrow> 'f pan_state \<Rightarrow> 'f pan_state option" where
  "panmaster_save_node lib fw node s =
     (let i = unat (pn_index node)
      in if i \<ge> length (node_idx s) then None
         else
           let s = on_idx i (\<lambda>e. e\<lparr>ni_role := ucast (pn_role node), ni_has_perm_slot := pn_has_perm_slot node\<rparr>) s
           in map_option (\<lambda>(_, f). s\<lparr>pm_fcb := f\<rparr>) (panm_fcb_save lib fw node (pm_fcb s)))"

definition find_by_euid :: "'f fcb_lib \<Rightarrow> u64 \<Rightarrow> 'f pan_state \<Rightarrow> panmaster_node option" where
  "find_by_euid lib eu s = panmaster_find_node_general lib (PANMASTER_NODE_DEFAULT\<lparr>pn_euid := eu\<rparr>) (pm_fcb s)"

definition panmaster_update_node ::
    "'f fcb_lib \<Rightarrow> pan_image_version \<Rightarrow> u64 \<Rightarrow> panmaster_node \<Rightarrow> 'f pan_state \<Rightarrow> 'f pan_state option" where
  "panmaster_update_node lib fw eu upd s =
     (let save_needed =
        (case find_by_euid lib eu s of
           None \<Rightarrow> True
         | Some st \<Rightarrow> pn_fw_ver upd \<noteq> pn_fw_ver st \<or> pn_first_seen_utc upd \<noteq> pn_first_seen_utc st \<or> pn_addr upd \<noteq> pn_addr st \<or>
             (pn_dummy upd, pn_has_perm_slot upd, pn_role upd) \<noteq> (pn_dummy st, pn_has_perm_slot st, pn_role st) \<or>
             pn_index upd \<noteq> pn_index st)
      in if save_needed then panmaster_save_node lib fw upd s else Some s)"

text \<open>
  The saving loop from place \<open>i\<close> on, \<open>n\<close> places to go; the mutex is released while a node is
  written, and \<open>between\<close> is what interrupts do to the state meanwhile.
\<close>

primrec postprocess_loop ::
    "'f fcb_lib \<Rightarrow> pan_image_version \<Rightarrow> (nat \<Rightarrow> 'f pan_state \<Rightarrow> 'f pan_state) \<Rightarrow> nat \<Rightarrow> nat \<Rightarrow> 'f pan_state \<Rightarrow> 'f pan_state option" where
  "postprocess_loop lib fw between 0 i s = Some s"
| "postprocess_loop lib fw between (Suc n) i s =
     (let node = nodes_to_save s ! i
      in if pn_euid node \<noteq> 0
         then case panmaster_update_node lib fw (pn_euid node) node (between i s) of
                None \<Rightarrow> None
              | Some s \<Rightarrow> postprocess_loop lib fw between n (Suc i) (on_saved i (\<lambda>_. zero_node) s)
         else postprocess_loop lib fw between n (Suc i) s)"

definition panmaster_postprocess ::
    "'f fcb_lib \<Rightarrow> pan_image_version \<Rightarrow> (nat \<Rightarrow> 'f pan_state \<Rightarrow> 'f pan_state) \<Rightarrow> 'f pan_state \<Rightarrow> 'f pan_state option" where
  "panmaster_postprocess lib fw between s = postprocess_loop lib fw between (length (nodes_to_save s)) 0 s"

definition panmaster_add_version :: "'f fcb_lib \<Rightarrow> pan_image_version \<Rightarrow> u64 \<Rightarrow> pan_image_version \<Rightarrow> 'f pan_state \<Rightarrow> 'f pan_state option" where
  "panmaster_add_version lib fw eu ver s =
     (case find_by_euid lib eu s of
        None \<Rightarrow> Some s
      | Some node \<Rightarrow>
          if ver = pn_fw_ver node then Some s else panmaster_save_node lib fw (node\<lparr>pn_fw_ver := ver\<rparr>) s)"

text \<open>The eight bytes of the identifier are given as the number they make.\<close>

definition panmaster_add_node ::
    "'f fcb_lib \<Rightarrow> pan_image_version \<Rightarrow> u64 \<Rightarrow> u16 \<Rightarrow> u64 \<Rightarrow> 'f pan_state \<Rightarrow> 'f pan_state option" where
  "panmaster_add_node lib fw utc short_addr eu s =
     (if short_addr = 0 \<or> eu = - 1 then Some s
      else case find_by_euid lib eu s of
        Some node \<Rightarrow>
          if pn_addr node = short_addr then Some s
          else map_option (\<lambda>(_, f). s\<lparr>pm_fcb := f\<rparr>) (panm_fcb_save lib fw (node\<lparr>pn_addr := short_addr\<rparr>) (pm_fcb s))
      | None \<Rightarrow>
          (case find_index (\<lambda>e. ni_addr e = 0xffff) (node_idx s) of
             None \<Rightarrow> Some s
           | Some i \<Rightarrow>
               panmaster_save_node lib fw
                 (PANMASTER_NODE_DEFAULT\<lparr>pn_euid := eu, pn_addr := short_addr, pn_first_seen_utc := utc, pn_index := of_nat i\<rparr>)
                 (on_idx i (\<lambda>e. e\<lparr>ni_addr := short_addr\<rparr>) s)))"

definition panmaster_delete_node :: "'f fcb_lib \<Rightarrow> pan_image_version \<Rightarrow> u64 \<Rightarrow> 'f pan_state \<Rightarrow> 'f pan_state option" where
  "panmaster_delete_node lib fw eu s =
     (case find_by_euid lib eu s of
        None \<Rightarrow> Some s
      | Some node \<Rightarrow>
          let i = unat (pn_index node)
          in if i \<ge> length (node_idx s) then Some s
             else if ni_addr (node_idx s ! i) \<noteq> pn_addr node then Some s
             else panmaster_save_node lib fw (node\<lparr>pn_addr := 0xffff\<rparr>)
                    (on_idx i (\<lambda>e. e\<lparr>ni_addr := 0xffff, ni_euid := - 1, ni_slot_id := 0xffff, ni_has_perm_slot := False\<rparr>) s))"

definition panmaster_clear_list :: "'f fcb_lib \<Rightarrow> 'f pan_state \<Rightarrow> 'f pan_state" where
  "panmaster_clear_list lib s =
     s\<lparr>node_idx := map PANMASTER_NODE_IDX_DEFAULT (node_idx s), pm_fcb := snd (fcb_clear lib (pm_fcb s))\<rparr>"

definition panmaster_highest_node_addr :: "'f pan_state \<Rightarrow> u16" where
  "panmaster_highest_node_addr s =
     fold (\<lambda>e a. if ni_addr e = 0xffff then a else if ni_addr e > a \<or> a = 0xffff then ni_addr e else a) (node_idx s) 0xffff"

definition panmaster_compress :: "'f fcb_lib \<Rightarrow> pan_image_version \<Rightarrow> 'f pan_state \<Rightarrow> 'f pan_state option" where
  "panmaster_compress lib fw s = map_option (\<lambda>f. s\<lparr>pm_fcb := f\<rparr>) (panm_fcb_compress lib fw (pm_fcb s))"

definition load_table :: "'f fcb_lib \<Rightarrow> 'f pan_state \<Rightarrow> 'f pan_state option" where
  "load_table lib s = map_option (\<lambda>t. s\<lparr>node_idx := t\<rparr>) (snd (panm_fcb_load_idx lib (pm_fcb s) (node_idx s)))"

definition panmaster_sort :: "'f fcb_lib \<Rightarrow> pan_image_version \<Rightarrow> bool \<Rightarrow> 'f pan_state \<Rightarrow> 'f pan_state option" where
  "panmaster_sort lib fw malloc_ok s =
     (case panm_fcb_sort lib fw (length (node_idx s)) malloc_ok (pm_fcb s) of
        None \<Rightarrow> None
      | Some f \<Rightarrow> load_table lib (s\<lparr>pm_fcb := f\<rparr>))"

text \<open>Start-up, with the storage already initialised.\<close>

definition panmaster_pkg_init :: "'f fcb_lib \<Rightarrow> pan_image_version \<Rightarrow> bool \<Rightarrow> bool \<Rightarrow> 'f pan_state \<Rightarrow> 'f pan_state option" where
  "panmaster_pkg_init lib fw sort_at_init malloc_ok s =
     (let s = s\<lparr>node_idx := map PANMASTER_NODE_IDX_DEFAULT (node_idx s),
                nodes_to_save := map (\<lambda>_. zero_node) (nodes_to_save s)\<rparr>
      in case (if sort_at_init then panmaster_sort lib fw malloc_ok s else Some s) of
           None \<Rightarrow> None
         | Some s \<Rightarrow> load_table lib s)"

end
