(* ===== verification/Uwb_Pan.thy ===== *)
theory Uwb_Pan
  imports Uwb_Dev Dpl_Callout Dpl_Time Panmaster
begin

text \<open>
  Joining a network, lib/uwb_pan/src/uwb_pan.c and lib/pan_utils: nodes blink for an address
  and a slot, the master answers through a callback (\<open>panrequest_cb\<close> of the master's
  table), relays repeat frames, leases expire. Parameters: the driver \<open>uf\<close>; the master's
  callback \<open>request_cb\<close>, None where it is not set; \<open>ccp_epoch\<close>, the epoch of the clock
  calibration in a build with it. Blocking calls are split at their waits, as in \<open>Uwb_Rng\<close>;
  a failed assertion is None.
\<close>

unbundle bit_operations_syntax

section \<open>Frames\<close>

abbreviation (input) "FCNTL_IEEE_BLINK_TAG_64 \<equiv> 0x56 :: u8"

definition DWT_PAN_REQ :: u16 where [codes]: "DWT_PAN_REQ = 1"
definition DWT_PAN_RESP :: u16 where [codes]: "DWT_PAN_RESP = 2"
definition DWT_PAN_RESET :: u16 where [codes]: "DWT_PAN_RESET = 3"

definition UWB_PAN_ROLE_MASTER :: "4 word" where [codes]: "UWB_PAN_ROLE_MASTER = 1"
definition UWB_PAN_ROLE_SLAVE :: "4 word" where [codes]: "UWB_PAN_ROLE_SLAVE = 2"
definition UWB_PAN_ROLE_RELAY :: "4 word" where [codes]: "UWB_PAN_ROLE_RELAY = 3"

text \<open>
  \<open>union pan_frame_t\<close>: frame control, sequence number, long address, one byte of repeat counters,
  code, and the request or response.
\<close>

abbreviation (input) "sizeof_pan_frame \<equiv> 25 :: nat"

definition pf_seq_num :: "bytes \<Rightarrow> u8" where [layout]: "pf_seq_num m = get_u8 m 1"
definition pf_long_address :: "bytes \<Rightarrow> u64" where [layout]: "pf_long_address m = get_le64 m 2"
definition pf_rpt_count :: "bytes \<Rightarrow> u8" where [layout]: "pf_rpt_count m = get_u8 m 10 AND 15"
definition pf_rpt_max :: "bytes \<Rightarrow> u8" where [layout]: "pf_rpt_max m = drop_bit 4 (get_u8 m 10)"
definition pf_code :: "bytes \<Rightarrow> u16" where [layout]: "pf_code m = get_le16 m 11"

definition set_pf_seq_num :: "u8 \<Rightarrow> bytes \<Rightarrow> bytes" where [layout]: "set_pf_seq_num v m = put_u8 m 1 v"
definition set_pf_long_address :: "u64 \<Rightarrow> bytes \<Rightarrow> bytes" where [layout]: "set_pf_long_address v m = put_le64 m 2 v"
definition set_pf_rpt_count :: "u8 \<Rightarrow> bytes \<Rightarrow> bytes" where
  [layout]: "set_pf_rpt_count v m = put_u8 m 10 ((get_u8 m 10 AND 0xf0) OR (v AND 15))"
definition set_pf_rpt_max :: "u8 \<Rightarrow> bytes \<Rightarrow> bytes" where
  [layout]: "set_pf_rpt_max v m = put_u8 m 10 ((get_u8 m 10 AND 15) OR push_bit 4 v)"
definition set_pf_code :: "u16 \<Rightarrow> bytes \<Rightarrow> bytes" where [layout]: "set_pf_code v m = put_le16 m 11 v"

definition pf_req :: "bytes \<Rightarrow> pan_req_resp" where
  [layout]: "pf_req m =
     \<lparr>rr_role = get_le16 m 13, rr_lease_time = get_le16 m 15, rr_pan_id = get_le16 m 17,
      rr_short_address = get_le16 m 19, rr_slot_id = get_le16 m 21, rr_padding = get_le16 m 23\<rparr>"

definition set_pf_req :: "pan_req_resp \<Rightarrow> bytes \<Rightarrow> bytes" where
  [layout]: "set_pf_req r m =
     (let m = put_le16 m 13 (rr_role r); m = put_le16 m 15 (rr_lease_time r); m = put_le16 m 17 (rr_pan_id r);
          m = put_le16 m 19 (rr_short_address r); m = put_le16 m 21 (rr_slot_id r)
      in put_le16 m 23 (rr_padding r))"

section \<open>State\<close>

datatype pan_stat =
    Pan_request | Pan_listen | Pan_reset | Pan_relay_tx | Pan_lease_expiry | Pan_tx_complete | Pan_rx_complete
  | Pan_rx_unsolicited | Pan_rx_other_frame | Pan_rx_error | Pan_tx_error | Pan_rx_timeout | Pan_reset_cb

record uwb_pan_config =
  pc_rx_timeout_period :: u16
  pc_role :: "4 word"
  pc_lease_time :: u16
  pc_network_role :: u16

record uwb_pan_instance =
  pan_sem :: dpl_sem
  pan_selfmalloc :: bool
  pan_initialized :: bool
  pan_valid :: bool
  pan_start_tx_error :: bool
  pan_lease_expired :: bool
  pan_postprocess :: bool
  pan_has_request_cb :: bool
  pan_lease_callout :: dpl_callout
  pan_config :: uwb_pan_config
  pan_nframes :: u16
  pan_idx :: u16
  pan_frames :: "bytes list"

text \<open>\<open>ps_posted\<close>: the postprocess event is in the queue of the device; \<open>ps_master\<close>: the state of the callback.\<close>

record 'm pan_node =
  ps_dev :: uwb_dev
  ps_pan :: uwb_pan_instance
  ps_stat :: "pan_stat \<Rightarrow> u32"
  ps_posted :: bool
  ps_master :: 'm

definition PAN_STATS_INC :: "pan_stat \<Rightarrow> 'm pan_node \<Rightarrow> 'm pan_node" where
  "PAN_STATS_INC x s = s\<lparr>ps_stat := (ps_stat s)(x := ps_stat s x + 1)\<rparr>"

definition on_pdev :: "(uwb_dev \<Rightarrow> uwb_dev) \<Rightarrow> 'm pan_node \<Rightarrow> 'm pan_node" where
  "on_pdev f s = s\<lparr>ps_dev := f (ps_dev s)\<rparr>"

definition on_pan :: "(uwb_pan_instance \<Rightarrow> uwb_pan_instance) \<Rightarrow> 'm pan_node \<Rightarrow> 'm pan_node" where
  "on_pan f s = s\<lparr>ps_pan := f (ps_pan s)\<rparr>"

definition pan_sem_count :: "'m pan_node \<Rightarrow> u16" where
  "pan_sem_count s = dpl_sem_get_count (pan_sem (ps_pan s))"

definition pan_release :: "'m pan_node \<Rightarrow> 'm pan_node" where
  "pan_release = on_pan (\<lambda>p. p\<lparr>pan_sem := dpl_sem_release (pan_sem p)\<rparr>)"

text \<open>\<open>pan->frames[pan->idx \% pan->nframes]\<close>.\<close>

definition pan_slot :: "uwb_pan_instance \<Rightarrow> nat" where
  "pan_slot p = unat (pan_idx p) mod unat (pan_nframes p)"

definition pan_frame :: "'m pan_node \<Rightarrow> bytes" where
  "pan_frame s = pan_frames (ps_pan s) ! pan_slot (ps_pan s)"

definition on_pan_frame :: "(bytes \<Rightarrow> bytes) \<Rightarrow> 'm pan_node \<Rightarrow> 'm pan_node" where
  "on_pan_frame f = on_pan (\<lambda>p. p\<lparr>pan_frames := (pan_frames p)[pan_slot p := f (pan_frames p ! pan_slot p)]\<rparr>)"

section \<open>Set-up\<close>

definition uwb_pan_set_request_cb :: "uwb_pan_instance \<Rightarrow> uwb_pan_instance" where
  "uwb_pan_set_request_cb p = p\<lparr>pan_has_request_cb := True\<rparr>"

definition uwb_pan_set_postprocess :: "uwb_pan_instance \<Rightarrow> uwb_pan_instance" where
  "uwb_pan_set_postprocess p = p\<lparr>pan_lease_callout := dpl_callout_init True 1, pan_postprocess := True\<rparr>"

definition malloc_pan :: "u16 \<Rightarrow> uwb_pan_config \<Rightarrow> uwb_pan_instance" where
  "malloc_pan nframes config =
     \<lparr>pan_sem = 0, pan_selfmalloc = True, pan_initialized = False, pan_valid = False, pan_start_tx_error = False,
      pan_lease_expired = False, pan_postprocess = False, pan_has_request_cb = False,
      pan_lease_callout = \<lparr>c_inited = False, c_active = False, c_ticks = 0, c_its = (0, 0), c_has_evq = False, c_ev_arg = 0\<rparr>,
      pan_config = config, pan_nframes = nframes, pan_idx = 0, pan_frames = replicate (unat nframes) []\<rparr>"

definition uwb_pan_init :: "uwb_pan_instance option \<Rightarrow> uwb_pan_config \<Rightarrow> u16 \<Rightarrow> uwb_pan_instance" where
  "uwb_pan_init found config nframes =
     (let p = (case found of None \<Rightarrow> malloc_pan nframes config | Some p \<Rightarrow> p);
          p = p\<lparr>pan_config := config, pan_postprocess := False, pan_has_request_cb := False, pan_sem := dpl_sem_init 1\<rparr>;
          p = uwb_pan_set_postprocess p
      in p\<lparr>pan_has_request_cb := False, pan_valid := True, pan_initialized := True\<rparr>)"

definition uwb_pan_set_frames :: "bytes list \<Rightarrow> u16 \<Rightarrow> uwb_pan_instance \<Rightarrow> uwb_pan_instance option" where
  "uwb_pan_set_frames fs nframes p =
     (if nframes \<le> pan_nframes p
      then Some (p\<lparr>pan_frames := take (unat nframes) fs @ drop (unat nframes) (pan_frames p)\<rparr>)
      else None)"

text \<open>Whether the memory is released, and the instance otherwise; the interface is removed from the list.\<close>

definition uwb_pan_free :: "uwb_pan_instance \<Rightarrow> bool \<times> uwb_pan_instance" where
  "uwb_pan_free p = (if pan_selfmalloc p then (True, p) else (False, p\<lparr>pan_initialized := False\<rparr>))"

section \<open>Callbacks\<close>

definition post_event :: "'m pan_node \<Rightarrow> 'm pan_node" where
  "post_event s = (if pan_postprocess (ps_pan s) then s\<lparr>ps_posted := True\<rparr> else s)"

definition lease_expiry_cb :: "'m pan_node \<Rightarrow> 'm pan_node" where
  "lease_expiry_cb s =
     (let s = PAN_STATS_INC Pan_lease_expiry s;
          s = on_pan (\<lambda>p. p\<lparr>pan_valid := False, pan_lease_expired := True\<rparr>) s;
          s = on_pdev (\<lambda>d. d\<lparr>dev_slot_id := 0xffff\<rparr>) s
      in post_event s)"

type_synonym 'm request_cb = "u64 \<Rightarrow> pan_req_resp \<Rightarrow> 'm \<Rightarrow> bool \<times> pan_req_resp \<times> 'm"

definition start_pan_tx :: "uwb_driver_funcs \<Rightarrow> 'm pan_node \<Rightarrow> 'm pan_node" where
  "start_pan_tx uf s =
     (let s = on_pdev (uwb_start_tx uf) s
      in on_pan (\<lambda>p. p\<lparr>pan_start_tx_error := st_start_tx_error (dev_status (ps_dev s))\<rparr>) s)"

text \<open>The response is written into the frame of the request: the same buffer.\<close>

definition handle_pan_request :: "uwb_driver_funcs \<Rightarrow> 'm request_cb \<Rightarrow> 'm pan_node \<Rightarrow> 'm pan_node" where
  "handle_pan_request uf request_cb s =
     (if \<not> pan_has_request_cb (ps_pan s) then s
      else
        let s = on_pan_frame (set_pf_code DWT_PAN_RESP) s;
            m = pan_frame s;
            (answered, r, master) = request_cb (pf_long_address m) (pf_req m) (ps_master s);
            s = (on_pan_frame (set_pf_req r) s)\<lparr>ps_master := master\<rparr>
        in if \<not> answered then s
           else
             let s = on_pdev (uwb_set_wait4resp uf False) s;
                 s = on_pdev (uwb_write_tx_fctrl uf (of_nat sizeof_pan_frame) 0) s;
                 s = on_pdev (uwb_write_tx uf (pan_frame s) 0 (of_nat sizeof_pan_frame)) s
             in start_pan_tx uf s)"

definition relay_frame :: "uwb_driver_funcs \<Rightarrow> 'm pan_node \<Rightarrow> 'm pan_node" where
  "relay_frame uf s =
     (let s = on_pan_frame (\<lambda>m. set_pf_rpt_count (pf_rpt_count m + 1) m) s;
          s = on_pdev (uwb_set_wait4resp uf True) s;
          s = on_pdev (uwb_write_tx_fctrl uf (dev_frame_len (ps_dev s)) 0) s;
          s = start_pan_tx uf s;
          s = on_pdev (uwb_write_tx uf (pan_frame s) 0 (dev_frame_len (ps_dev s))) s
      in PAN_STATS_INC Pan_relay_tx s)"

text \<open>The length of a lease in ticks, in 32 bits.\<close>

definition lease_ticks :: "u64 option \<Rightarrow> u64 \<Rightarrow> u16 \<Rightarrow> u32" where
  "lease_ticks ccp_epoch rxtimestamp lease_time =
     (let lease_us = ucast lease_time * 1000000 :: u32;
          lease_us = (case ccp_epoch of None \<Rightarrow> lease_us
            | Some epoch \<Rightarrow> ucast (ucast lease_us - (drop_bit 16 rxtimestamp - drop_bit 16 epoch)))
      in dpl_time_ms_to_ticks (lease_us div 1000))"

definition accept_response :: "u64 option \<Rightarrow> u32 \<Rightarrow> 'm pan_node \<Rightarrow> 'm pan_node" where
  "accept_response ccp_epoch now s =
     (let r = pf_req (pan_frame s);
          s = on_pdev (\<lambda>d. d\<lparr>dev_my_short_address := rr_short_address r, dev_pan_id := rr_pan_id r, dev_slot_id := rr_slot_id r\<rparr>) s;
          s = on_pan (\<lambda>p. p\<lparr>pan_valid := True, pan_lease_expired := False, pan_lease_callout := dpl_callout_stop (pan_lease_callout p)\<rparr>) s
      in if rr_lease_time r > 0
         then on_pan (\<lambda>p. p\<lparr>pan_lease_callout :=
                dpl_callout_reset (lease_ticks ccp_epoch (dev_rxtimestamp (ps_dev s)) (rr_lease_time r)) now (pan_lease_callout p)\<rparr>) s
         else s)"

definition accept_reset :: "'m pan_node \<Rightarrow> 'm pan_node" where
  "accept_reset s =
     on_pan (\<lambda>p. p\<lparr>pan_lease_callout := dpl_callout_stop (pan_lease_callout p)\<rparr>)
       (on_pdev (\<lambda>d. d\<lparr>dev_slot_id := 0xffff\<rparr>)
         (on_pan (\<lambda>p. p\<lparr>pan_valid := False, pan_lease_expired := True\<rparr>) s))"

text \<open>The end of the receive callback: the event is posted and the waiting caller released.\<close>

definition pan_done :: "'m pan_node \<Rightarrow> bool \<times> 'm pan_node" where
  "pan_done s =
     (let s = post_event s
      in (True, if pan_sem_count s = 0 then pan_release s else s))"

text \<open>What is done with a frame once it is copied.\<close>

definition pan_handle_frame ::
    "uwb_driver_funcs \<Rightarrow> 'm request_cb \<Rightarrow> u64 option \<Rightarrow> u32 \<Rightarrow> 'm pan_node \<Rightarrow> bool \<times> 'm pan_node" where
  "pan_handle_frame uf request_cb ccp_epoch now s =
     (let m = pan_frame s;
          mine = (pf_long_address m = dev_euid (ps_dev s));
          is_master = (pc_role (pan_config (ps_pan s)) = UWB_PAN_ROLE_MASTER);
          s = (if pc_role (pan_config (ps_pan s)) = UWB_PAN_ROLE_RELAY \<and> pf_rpt_count m < pf_rpt_max m \<and> \<not> mine
               then relay_frame uf s else s)
      in if pf_code m = DWT_PAN_REQ
         then let s = PAN_STATS_INC Pan_request s
              in if is_master then pan_done (handle_pan_request uf request_cb (on_pdev (uwb_stop_rx uf) s))
                 else (True, s)
         else if pf_code m = DWT_PAN_RESP
         then if mine then pan_done (accept_response ccp_epoch now s) else (True, s)
         else if pf_code m = DWT_PAN_RESET
         then let s = PAN_STATS_INC Pan_reset s
              in (False, if \<not> is_master then accept_reset s else s)
         else (False, s))"

definition pan_rx_complete_cb ::
    "uwb_driver_funcs \<Rightarrow> 'm request_cb \<Rightarrow> u64 option \<Rightarrow> u32 \<Rightarrow> 'm pan_node \<Rightarrow> bool \<times> 'm pan_node" where
  "pan_rx_complete_cb uf request_cb ccp_epoch now s =
     (if (ucast (dev_fctrl (ps_dev s)) :: u8) \<noteq> FCNTL_IEEE_BLINK_TAG_64
      then (False, if pan_sem_count s = 0 then pan_release (PAN_STATS_INC Pan_rx_other_frame s) else s)
      else if pan_sem_count s = 1 then (False, PAN_STATS_INC Pan_rx_unsolicited s)
      else
        let s = PAN_STATS_INC Pan_rx_complete s
        in if unat (dev_frame_len (ps_dev s)) > sizeof_pan_frame then (False, s)
           else pan_handle_frame uf request_cb ccp_epoch now
                  (on_pan_frame (\<lambda>m. write_at m 0 (take (unat (dev_frame_len (ps_dev s))) (dev_rxbuf (ps_dev s)))) s))"

definition pan_tx_complete_cb :: "'m pan_node \<Rightarrow> bool \<times> 'm pan_node" where
  "pan_tx_complete_cb s =
     (if (ucast (dev_fctrl (ps_dev s)) :: u8) \<noteq> FCNTL_IEEE_BLINK_TAG_64 then (False, s)
      else (True, PAN_STATS_INC Pan_tx_complete (on_pan (\<lambda>p. p\<lparr>pan_idx := pan_idx p + 1\<rparr>) s)))"

definition pan_reset_cb :: "'m pan_node \<Rightarrow> bool \<times> 'm pan_node" where
  "pan_reset_cb s = (if pan_sem_count s = 0 then (True, pan_release (PAN_STATS_INC Pan_reset_cb s)) else (False, s))"

definition pan_rx_timeout_cb :: "'m pan_node \<Rightarrow> bool \<times> 'm pan_node" where
  "pan_rx_timeout_cb s = (if pan_sem_count s = 0 then (True, pan_release (PAN_STATS_INC Pan_rx_timeout s)) else (False, s))"

section \<open>Operations\<close>

text \<open>A wait for ever: it must end with a token.\<close>

definition pan_pend :: "wait_end \<Rightarrow> 'm pan_node \<Rightarrow> 'm pan_node option" where
  "pan_pend w s =
     (case dpl_sem_pend (pan_sem (ps_pan s)) w of
        Some (DPL_OK, sem) \<Rightarrow> Some (on_pan (\<lambda>p. p\<lparr>pan_sem := sem\<rparr>) s)
      | _ \<Rightarrow> None)"

definition uwb_pan_listen_start :: "uwb_driver_funcs \<Rightarrow> wait_end \<Rightarrow> 'm pan_node \<Rightarrow> 'm pan_node option" where
  "uwb_pan_listen_start uf w s =
     (case pan_pend w s of
        None \<Rightarrow> None
      | Some s \<Rightarrow>
          let s = PAN_STATS_INC Pan_listen s;
              s = on_pdev (uwb_start_rx uf) s
          in Some (if st_start_rx_error (dev_status (ps_dev s)) then pan_release (PAN_STATS_INC Pan_rx_error s) else s))"

text \<open>The second wait of the blocking mode, of listen and blink.\<close>

definition uwb_pan_wait :: "wait_end \<Rightarrow> 'm pan_node \<Rightarrow> 'm pan_node option" where
  "uwb_pan_wait w s = map_option pan_release (pan_pend w s)"

definition blink_frame :: "u64 \<Rightarrow> u8 \<Rightarrow> u16 \<Rightarrow> u16 \<Rightarrow> u16 \<Rightarrow> bytes \<Rightarrow> bytes" where
  "blink_frame eu rpt_max role lease nframes m =
     (let m = set_pf_seq_num (pf_seq_num m + ucast nframes) m;
          m = set_pf_long_address eu m;
          m = set_pf_code DWT_PAN_REQ m;
          m = set_pf_rpt_count 0 m;
          m = set_pf_rpt_max rpt_max m;
          r = pf_req m
      in set_pf_req (r\<lparr>rr_role := role, rr_lease_time := lease\<rparr>) m)"

text \<open>The result says whether the transmission was started, so that the blocking mode waits.\<close>

definition uwb_pan_blink_start :: "uwb_driver_funcs \<Rightarrow> u8 \<Rightarrow> wait_end \<Rightarrow> u16 \<Rightarrow> u64 \<Rightarrow> 'm pan_node \<Rightarrow> (bool \<times> 'm pan_node) option" where
  "uwb_pan_blink_start uf rpt_max w role delay s =
     (case pan_pend w s of
        None \<Rightarrow> None
      | Some s \<Rightarrow>
          let s = PAN_STATS_INC Pan_request s;
              s = on_pan_frame (blink_frame (dev_euid (ps_dev s)) rpt_max role (pc_lease_time (pan_config (ps_pan s))) (pan_nframes (ps_pan s))) s;
              s = on_pdev (uwb_set_delay_start uf delay) s;
              s = on_pdev (uwb_write_tx_fctrl uf (of_nat sizeof_pan_frame) 0) s;
              s = on_pdev (uwb_write_tx uf (pan_frame s) 0 (of_nat sizeof_pan_frame)) s;
              s = on_pdev (uwb_set_wait4resp uf True) s;
              s = on_pdev (uwb_set_rx_timeout uf (ucast (pc_rx_timeout_period (pan_config (ps_pan s))))) s;
              s = start_pan_tx uf s
          in Some (if pan_start_tx_error (ps_pan s) then (False, pan_release (PAN_STATS_INC Pan_tx_error s)) else (True, s)))"

definition reset_frame :: "u64 \<Rightarrow> u16 \<Rightarrow> bytes \<Rightarrow> bytes" where
  "reset_frame eu nframes m =
     set_pf_code DWT_PAN_RESET (set_pf_long_address eu (set_pf_seq_num (pf_seq_num m + ucast nframes) m))"

definition uwb_pan_reset :: "uwb_driver_funcs \<Rightarrow> u64 \<Rightarrow> 'm pan_node \<Rightarrow> 'm pan_node" where
  "uwb_pan_reset uf delay s =
     (let s = on_pan_frame (reset_frame (dev_euid (ps_dev s)) (pan_nframes (ps_pan s))) s;
          s = on_pdev (uwb_set_delay_start uf delay) s;
          s = on_pdev (uwb_write_tx_fctrl uf (of_nat sizeof_pan_frame) 0) s;
          s = on_pdev (uwb_write_tx uf (pan_frame s) 0 (of_nat sizeof_pan_frame)) s;
          s = on_pdev (uwb_set_wait4resp uf False) s;
          s = start_pan_tx uf s
      in if pan_start_tx_error (ps_pan s) then PAN_STATS_INC Pan_tx_error s else s)"

definition uwb_pan_start :: "4 word \<Rightarrow> u16 \<Rightarrow> 'm pan_node \<Rightarrow> 'm pan_node" where
  "uwb_pan_start role network_role s =
     (let s = on_pan (\<lambda>p. p\<lparr>pan_config := (pan_config p)\<lparr>pc_role := role, pc_network_role := network_role\<rparr>\<rparr>) s
      in if role = UWB_PAN_ROLE_SLAVE then on_pan (\<lambda>p. p\<lparr>pan_idx := 1, pan_valid := False\<rparr>) s else s)"

text \<open>In milliseconds; \<open>left\<close> is the time left of the system's timer.\<close>

definition uwb_pan_lease_remaining :: "nat \<times> nat \<Rightarrow> u32 \<Rightarrow> u32" where
  "uwb_pan_lease_remaining left now = dpl_time_ticks_to_ms (dpl_callout_remaining_ticks left now)"

text \<open>
  The slot of the network in a superframe. \<open>cycles\<close> is the static counter; \<open>rx_start\<close> and
  \<open>tx_start\<close> are the start of the slot, \<open>tx_sub\<close> that of its second sixteenth
  (\<open>tdma_rx_slot_start\<close>, \<open>tdma_tx_slot_start\<close>). The blocking calls are up to their waits.
\<close>

record pan_timing =
  pt_rx_start :: u64
  pt_tx_start :: u64
  pt_tx_sub :: u64
  pt_period :: u32
  pt_nslots :: u16
  pt_left :: "nat \<times> nat"
  pt_now :: u32

definition relay_timeout :: "pan_timing \<Rightarrow> u32" where
  "relay_timeout t = 3 * pt_period t div ucast (pt_nslots t) div 4"

definition listen_in_slot :: "uwb_driver_funcs \<Rightarrow> u32 \<Rightarrow> u64 \<Rightarrow> 'm pan_node \<Rightarrow> 'm pan_node option" where
  "listen_in_slot uf timeout dx_time s =
     (let s = on_pdev (uwb_set_rx_timeout uf timeout) s;
          s = on_pdev (uwb_set_delay_start uf dx_time) s;
          s = on_pdev (uwb_set_on_error_continue uf True) s
      in uwb_pan_listen_start uf Got_token s)"

text \<open>
  What the callback waits for: the end of listening, as master or as a node, or of a blink.
  \<open>sizeof_size_t\<close>: the code takes \<open>sizeof(sizeof(union pan_frame_t))\<close>.
\<close>

datatype pan_wait = No_wait | Listening | Listening_node | Blinking

definition uwb_pan_slot_timer_cb ::
    "uwb_driver_funcs \<Rightarrow> u8 \<Rightarrow> u16 \<Rightarrow> u32 \<Rightarrow> u16 \<Rightarrow> pan_timing \<Rightarrow> u8 \<Rightarrow> 'm pan_node \<Rightarrow> (u8 \<times> pan_wait \<times> 'm pan_node) option" where
  "uwb_pan_slot_timer_cb uf rpt_max sizeof_size_t lease_margin xtalt_guard t cycles s =
     (if dev_role (ps_dev s) AND 2 \<noteq> 0
      then if cycles < 8 then Some (cycles + 1, No_wait, uwb_pan_reset uf (pt_tx_start t) s)
           else if pt_nslots t = 0 then None
           else map_option (\<lambda>s. (cycles, Listening, s)) (listen_in_slot uf (relay_timeout t) (pt_rx_start t) s)
      else if pan_valid (ps_pan s) \<and> uwb_pan_lease_remaining (pt_left t) (pt_now t) > lease_margin
      then let relay = (pc_role (pan_config (ps_pan s)) = UWB_PAN_ROLE_RELAY);
               timeout = (if relay then ucast (relay_timeout t)
                          else uwb_phy_frame_duration uf sizeof_size_t + xtalt_guard :: u16)
           in if relay \<and> pt_nslots t = 0 then None
              else map_option (\<lambda>s. (cycles, Listening_node, s)) (listen_in_slot uf (ucast timeout) (pt_rx_start t) s)
      else map_option (\<lambda>(started, s). (cycles, if started then Blinking else No_wait, s))
             (uwb_pan_blink_start uf rpt_max Got_token (pc_network_role (pan_config (ps_pan s))) (pt_tx_sub t) s))"

definition uwb_pan_slot_timer_finish :: "pan_wait \<Rightarrow> wait_end \<Rightarrow> 'm pan_node \<Rightarrow> 'm pan_node option" where
  "uwb_pan_slot_timer_finish p w s =
     (if p = No_wait then Some s
      else map_option (\<lambda>s. if p = Listening_node \<and> st_start_rx_error (dev_status (ps_dev s)) then PAN_STATS_INC Pan_rx_error s else s)
             (uwb_pan_wait w s))"

text \<open>The event of the master: the nodes noted by the requests are saved.\<close>

definition postprocess_cb ::
    "'f fcb_lib \<Rightarrow> pan_image_version \<Rightarrow> (nat \<Rightarrow> 'f pan_state \<Rightarrow> 'f pan_state) \<Rightarrow> 'f pan_state pan_node \<Rightarrow> 'f pan_state pan_node option" where
  "postprocess_cb lib fw between s =
     (if pc_role (pan_config (ps_pan s)) \<noteq> UWB_PAN_ROLE_MASTER then Some s
      else map_option (\<lambda>m. s\<lparr>ps_master := m\<rparr>) (panmaster_postprocess lib fw between (ps_master s)))"

end
