(* ===== verification/Panmaster_Facts.thy ===== *)
theory Panmaster_Facts
  imports Panmaster
begin

text \<open>
  What the master's table promises: the slot handed out is the least one free, an address
  handed out is new, and answering requests keeps addresses and slots apart.
\<close>

unbundle bit_operations_syntax

section \<open>Searching\<close>

lemma find_index_SomeD:
  assumes "find_index P xs = Some i"
  shows "i < length xs" and "P (xs ! i)"
  using assms by (auto simp: find_index_def find_Some_iff)

lemma find_index_NoneD: "find_index P xs = None \<Longrightarrow> i < length xs \<Longrightarrow> \<not> P (xs ! i)"
  by (auto simp: find_index_def find_None_iff)

section \<open>Slots\<close>

lemma slot_loop_least:
  assumes "\<not> slot_held tbl now a rl (of_nat m)" and "s \<le> m" and "m < 0xffff"
  shows "\<exists>r. s \<le> r \<and> r \<le> m \<and> slot_loop tbl now a rl s = of_nat r \<and> \<not> slot_held tbl now a rl (of_nat r) \<and>
    (\<forall>t. s \<le> t \<and> t < r \<longrightarrow> slot_held tbl now a rl (of_nat t))"
  using assms(2)
proof (induction "m - s" arbitrary: s)
  case 0
  then have "s = m" by simp
  then show ?case using assms by (intro exI[of _ m]) (subst slot_loop.simps, auto)
next
  case (Suc d)
  show ?case
  proof (cases "slot_held tbl now a rl (of_nat s)")
    case False
    then show ?thesis using Suc assms(3) by (intro exI[of _ s]) (subst slot_loop.simps, auto)
  next
    case True
    from Suc have "d = m - Suc s" "Suc s \<le> m" by auto
    from Suc.hyps(1)[OF this] obtain r where
      r: "Suc s \<le> r" "r \<le> m" "slot_loop tbl now a rl (Suc s) = of_nat r" "\<not> slot_held tbl now a rl (of_nat r)"
        "\<forall>t. Suc s \<le> t \<and> t < r \<longrightarrow> slot_held tbl now a rl (of_nat t)" by blast
    have "slot_loop tbl now a rl s = of_nat r"
      using True r(2,3) Suc.prems Suc.hyps(2) assms(3) by (subst slot_loop.simps) simp
    moreover have "\<forall>t. s \<le> t \<and> t < r \<longrightarrow> slot_held tbl now a rl (of_nat t)"
      using r(5) True by (metis le_neq_implies_less Suc_leI)
    ultimately show ?thesis using r by (intro exI[of _ r]) auto
  qed
qed

lemma unat_of_nat_16: "n < 65536 \<Longrightarrow> unat (of_nat n :: u16) = n"
  by (simp add: unat_of_nat take_bit_nat_eq_self)

text \<open>Among the first slots, as many as there are other nodes and one more, one is free.\<close>

lemma slot_free_exists:
  assumes "length (filter (\<lambda>e. ni_addr e \<noteq> a) tbl) < 0xffff"
  shows "\<exists>m \<le> length (filter (\<lambda>e. ni_addr e \<noteq> a) tbl). \<not> slot_held tbl now a rl (of_nat m)"
proof (rule ccontr)
  let ?T = "filter (\<lambda>e. ni_addr e \<noteq> a) tbl"
  assume "\<not> ?thesis"
  then have all: "slot_held tbl now a rl (of_nat m)" if "m \<le> length ?T" for m using that by blast
  have "{.. length ?T} \<subseteq> (\<lambda>e. unat (ni_slot_id e)) ` set ?T"
  proof
    fix m
    assume "m \<in> {.. length ?T}"
    then have m: "m \<le> length ?T" by simp
    from all[OF m] obtain e where "e \<in> set ?T" and "of_nat m = ni_slot_id e"
      by (auto simp: slot_held_def list_ex_iff)
    then show "m \<in> (\<lambda>e. unat (ni_slot_id e)) ` set ?T"
      using m assms by (intro image_eqI[of _ _ e]) (simp_all add: unat_of_nat_16 flip: \<open>of_nat m = ni_slot_id e\<close>)
  qed
  then have "card {.. length ?T} \<le> card ((\<lambda>e. unat (ni_slot_id e)) ` set ?T)"
    by (intro card_mono) auto
  also have "\<dots> \<le> card (set ?T)" by (intro card_image_le) auto
  also have "\<dots> \<le> length ?T" by (rule card_length)
  finally show False by simp
qed

lemma first_free_slot_id_spec:
  assumes "length (filter (\<lambda>e. ni_addr e \<noteq> a) tbl) < 0xffff"
  shows "\<not> slot_held tbl now a rl (first_free_slot_id tbl now a rl)"
    and "unat (first_free_slot_id tbl now a rl) \<le> length (filter (\<lambda>e. ni_addr e \<noteq> a) tbl)"
    and "t < unat (first_free_slot_id tbl now a rl) \<Longrightarrow> slot_held tbl now a rl (of_nat t)"
proof -
  from slot_free_exists[OF assms, where now = now and rl = rl] obtain m where m: "m \<le> length (filter (\<lambda>e. ni_addr e \<noteq> a) tbl)"
    and f: "\<not> slot_held tbl now a rl (of_nat m)" by blast
  from slot_loop_least[OF f, of 0] m assms obtain r where
    r: "r \<le> m" "first_free_slot_id tbl now a rl = of_nat r" "\<not> slot_held tbl now a rl (of_nat r)"
      "\<forall>t. t < r \<longrightarrow> slot_held tbl now a rl (of_nat t)"
    unfolding first_free_slot_id_def by auto
  have u: "unat (of_nat r :: u16) = r" using r(1) m assms by (intro unat_of_nat_16) simp
  show "\<not> slot_held tbl now a rl (first_free_slot_id tbl now a rl)"
    and "unat (first_free_slot_id tbl now a rl) \<le> length (filter (\<lambda>e. ni_addr e \<noteq> a) tbl)"
    and "t < unat (first_free_slot_id tbl now a rl) \<Longrightarrow> slot_held tbl now a rl (of_nat t)"
    using r m u by auto
qed

section \<open>Addresses\<close>

lemma addr_loop_free: "addr_loop tbl eu k \<noteq> 0 \<Longrightarrow> \<not> addr_taken tbl (addr_loop tbl eu k)"
  by (induction k) (auto simp: Let_def split: if_splits)

lemma first_free_short_addr_free:
  "first_free_short_addr tbl eu \<noteq> 0 \<Longrightarrow> tbl \<noteq> [] \<Longrightarrow> \<not> addr_taken tbl (first_free_short_addr tbl eu)"
  by (simp add: first_free_short_addr_def addr_loop_free)

text \<open>The loop finds an address if one of the remaining candidates will do.\<close>

lemma addr_loop_finds:
  assumes "length tbl - k \<le> i" and "i < length tbl" and "k \<le> length tbl"
    and "addr_candidate eu i \<noteq> 0" and "\<not> addr_taken tbl (addr_candidate eu i)"
  shows "addr_loop tbl eu k \<noteq> 0"
  using assms(1,3)
proof (induction k)
  case 0
  then show ?case using assms(2) by simp
next
  case (Suc k)
  show ?case
  proof (cases "i = length tbl - Suc k")
    case True
    then show ?thesis using assms(4,5) by (simp add: Let_def)
  next
    case False
    then show ?thesis using Suc by (auto simp: Let_def)
  qed
qed

section \<open>The table\<close>

text \<open>A node holds its slot at time \<open>now\<close>: its lease has not ended, or its slot is permanent.\<close>

definition holds_slot :: "int \<Rightarrow> panmaster_node_idx \<Rightarrow> bool" where
  "holds_slot now e = (ni_addr e \<noteq> 0xffff \<and> (\<not> slot_lease_expired now e \<or> ni_has_perm_slot e))"

definition addrs_apart :: "panmaster_node_idx list \<Rightarrow> bool" where
  "addrs_apart tbl =
     (\<forall>i < length tbl. \<forall>j < length tbl. i \<noteq> j \<and> ni_addr (tbl ! i) \<noteq> 0xffff \<longrightarrow> ni_addr (tbl ! i) \<noteq> ni_addr (tbl ! j))"

definition slots_apart :: "int \<Rightarrow> panmaster_node_idx list \<Rightarrow> bool" where
  "slots_apart now tbl =
     (\<forall>i < length tbl. \<forall>j < length tbl. i \<noteq> j \<and> holds_slot now (tbl ! i) \<and> holds_slot now (tbl ! j) \<and>
        ni_role (tbl ! i) = ni_role (tbl ! j) \<longrightarrow> ni_slot_id (tbl ! i) \<noteq> ni_slot_id (tbl ! j))"

lemma addrs_apartD:
  "addrs_apart tbl \<Longrightarrow> i < length tbl \<Longrightarrow> j < length tbl \<Longrightarrow> i \<noteq> j \<Longrightarrow> ni_addr (tbl ! i) \<noteq> 0xffff \<Longrightarrow>
     ni_addr (tbl ! i) \<noteq> ni_addr (tbl ! j)"
  by (simp add: addrs_apart_def)

text \<open>Giving an entry an address nobody has keeps the addresses apart.\<close>

lemma addrs_apart_update:
  assumes "addrs_apart tbl" and "i < length tbl" and "\<And>j. j < length tbl \<Longrightarrow> j \<noteq> i \<Longrightarrow> ni_addr (tbl ! j) \<noteq> ni_addr e"
  shows "addrs_apart (tbl[i := e])"
  using assms unfolding addrs_apart_def by (auto simp: nth_list_update) metis

text \<open>Giving an entry the slot \<open>first_free_slot_id\<close> finds keeps the slots apart.\<close>

lemma slots_apart_update:
  assumes "slots_apart now tbl" and "addrs_apart (tbl[i := e])" and "i < length tbl" and "ni_addr e \<noteq> 0xffff"
    and "\<not> slot_held (tbl[i := e']) now (ni_addr e) (ucast (ni_role e)) (ni_slot_id e)"
  shows "slots_apart now (tbl[i := e])"
proof -
  have other: "ni_slot_id (tbl ! j) \<noteq> ni_slot_id e"
    if j: "j < length tbl" "j \<noteq> i" "holds_slot now (tbl ! j)" "ni_role (tbl ! j) = ni_role e" for j
  proof
    assume eq: "ni_slot_id (tbl ! j) = ni_slot_id e"
    have "ni_addr (tbl ! j) \<noteq> ni_addr e"
      using addrs_apartD[OF assms(2), of i j] j assms(3,4) by auto
    moreover have "tbl ! j \<in> set (tbl[i := e'])"
      using j(1,2) by (metis length_list_update nth_list_update_neq nth_mem)
    ultimately have "slot_held (tbl[i := e']) now (ni_addr e) (ucast (ni_role e)) (ni_slot_id e)"
      using j eq by (auto simp: slot_held_def list_ex_iff holds_slot_def)
    then show False using assms(5) by simp
  qed
  show ?thesis
    unfolding slots_apart_def
  proof (intro allI impI, elim conjE)
    fix a b
    assume "a < length (tbl[i := e])" and "b < length (tbl[i := e])" and "a \<noteq> b"
      and "holds_slot now (tbl[i := e] ! a)" and "holds_slot now (tbl[i := e] ! b)"
      and "ni_role (tbl[i := e] ! a) = ni_role (tbl[i := e] ! b)"
    then show "ni_slot_id (tbl[i := e] ! a) \<noteq> ni_slot_id (tbl[i := e] ! b)"
      using other[of a] other[of b] assms(1,3) unfolding slots_apart_def
      by (cases "a = i"; cases "b = i") (auto simp: nth_list_update)
  qed
qed

text \<open>Expired leases stay expired, until the millisecond counter wraps.\<close>

lemma slots_apart_later:
  assumes "slots_apart now tbl" and "0 \<le> now" and "now \<le> now'" and "now' < 2 ^ 31"
  shows "slots_apart now' tbl"
proof -
  have s: "sint (of_int n :: u32) = n" if "0 \<le> n" "n < 2 ^ 31" for n :: int
    using that by (simp add: signed_of_int signed_take_bit_int_eq_self)
  have "holds_slot now e" if "holds_slot now' e" for e
    using that s[of now] s[of now'] assms(2-4) by (auto simp: holds_slot_def slot_lease_expired_def split: if_splits)
  then show ?thesis using assms(1) unfolding slots_apart_def by blast
qed

section \<open>Requests\<close>

lemma on_saved_simps [simp]:
  "node_idx (on_saved k g s) = node_idx s" "pm_fcb (on_saved k g s) = pm_fcb s" "pm_pan_id (on_saved k g s) = pm_pan_id s"
  "k < length (nodes_to_save s) \<Longrightarrow> nodes_to_save (on_saved k g s) ! k = g (nodes_to_save s ! k)"
  "length (nodes_to_save (on_saved k g s)) = length (nodes_to_save s)"
  by (simp_all add: on_saved_def)

lemma on_idx_simps [simp]:
  "nodes_to_save (on_idx i g s) = nodes_to_save s" "pm_fcb (on_idx i g s) = pm_fcb s" "pm_pan_id (on_idx i g s) = pm_pan_id s"
  "node_idx (on_idx i g s) = (node_idx s)[i := g (node_idx s ! i)]"
  by (simp_all add: on_idx_def)

lemma find_first_emptyD:
  assumes "find_first_empty_nodes_to_save locked eu s = (Some k, s1)"
  shows "k < length (nodes_to_save s)" and "s1 = on_saved k (\<lambda>n. n\<lparr>pn_euid := eu\<rparr>) s" and "\<not> locked"
    and "pn_euid (nodes_to_save s ! k) = 0"
  using assms by (auto simp: find_first_empty_nodes_to_save_def split: if_splits option.splits dest: find_index_SomeD)

lemma find_first_empty_none: "find_first_empty_nodes_to_save locked eu s = (None, s1) \<Longrightarrow> s1 = s"
  by (auto simp: find_first_empty_nodes_to_save_def split: if_splits option.splits)

lemma index_u8: "i < 256 \<Longrightarrow> unat (of_nat i :: u8) = i"
  by (simp add: unat_of_nat take_bit_nat_eq_self)

text \<open>The entry of the node after the request, before its lease is set.\<close>

definition renewed :: "int \<Rightarrow> u16 \<Rightarrow> panmaster_node_idx list \<Rightarrow> nat \<Rightarrow> panmaster_node_idx" where
  "renewed now rl tbl i =
     (let e = tbl ! i;
          e = (if ni_has_perm_slot e then e else e\<lparr>ni_slot_id := first_free_slot_id tbl now (ni_addr e) rl\<rparr>)
      in if ucast (ucast (ni_role e) :: 4 word) \<noteq> rl \<and> rl > 0 then e\<lparr>ni_save_needed := True\<rparr> else e)"

lemma renewed_simps [simp]:
  "ni_addr (renewed now rl tbl i) = ni_addr (tbl ! i)" "ni_euid (renewed now rl tbl i) = ni_euid (tbl ! i)"
  "ni_role (renewed now rl tbl i) = ni_role (tbl ! i)" "ni_has_perm_slot (renewed now rl tbl i) = ni_has_perm_slot (tbl ! i)"
  "ni_slot_id (renewed now rl tbl i) =
     (if ni_has_perm_slot (tbl ! i) then ni_slot_id (tbl ! i) else first_free_slot_id tbl now (ni_addr (tbl ! i)) rl)"
  by (simp_all add: renewed_def Let_def)

lemma find_known_effect:
  assumes "i < length (node_idx s)" and "length (node_idx s) \<le> 256" and "k < length (nodes_to_save s)"
  shows "node_idx (find_known k i now rl s) = (node_idx s)[i := renewed now rl (node_idx s) i]"
    and "pn_addr (nodes_to_save (find_known k i now rl s) ! k) = ni_addr (node_idx s ! i)"
    and "pn_index (nodes_to_save (find_known k i now rl s) ! k) = of_nat i"
    and "length (nodes_to_save (find_known k i now rl s)) = length (nodes_to_save s)"
    and "pm_pan_id (find_known k i now rl s) = pm_pan_id s"
  using assms by (simp_all add: find_known_def renewed_def Let_def index_u8)

lemma add_unknown_effect:
  assumes "i < length (node_idx s)" and "length (node_idx s) \<le> 256" and "k < length (nodes_to_save s)"
    and "a = first_free_short_addr (node_idx s) eu"
    and "e1 = (node_idx s ! i)\<lparr>ni_addr := a, ni_euid := eu, ni_role := ucast rl\<rparr>"
  shows "node_idx (add_unknown k i now utc eu rl s) =
      (node_idx s)[i := e1\<lparr>ni_slot_id := first_free_slot_id ((node_idx s)[i := e1]) now a rl, ni_save_needed := True\<rparr>]"
    and "pn_addr (nodes_to_save (add_unknown k i now utc eu rl s) ! k) = a"
    and "pn_index (nodes_to_save (add_unknown k i now utc eu rl s) ! k) = of_nat i"
    and "length (nodes_to_save (add_unknown k i now utc eu rl s)) = length (nodes_to_save s)"
    and "pm_pan_id (add_unknown k i now utc eu rl s) = pm_pan_id s"
  using assms by (simp_all add: add_unknown_def Let_def)

text \<open>The answer to a request whose node was found or added at entry \<open>i\<close>.\<close>

lemma panrequest_answer:
  assumes "panmaster_idx_find_node locked now utc eu (rr_role req) s = (rc, Some k, s1)"
    and "k < length (nodes_to_save s1)" and "pn_index (nodes_to_save s1 ! k) = of_nat i" and "i < 256"
    and "panrequest_cb dl same locked now now2 utc eu req resp s = (ok, r, s')"
  shows "ok" and "rr_short_address r = pn_addr (nodes_to_save s1 ! k)" and "rr_slot_id r = ni_slot_id (node_idx s1 ! i)"
    and "\<exists>L. node_idx s' = (node_idx s1)[i := (node_idx s1 ! i)\<lparr>ni_lease_ends := L\<rparr>]"
  using assms by (auto simp: panrequest_cb_def Let_def index_u8)

definition master_ok :: "(u64 \<Rightarrow> u16) \<Rightarrow> int \<Rightarrow> 'f pan_state \<Rightarrow> bool" where
  "master_ok rl now s =
     (addrs_apart (node_idx s) \<and> slots_apart now (node_idx s) \<and> node_idx s \<noteq> [] \<and> length (node_idx s) \<le> 256 \<and>
      (\<forall>e \<in> set (node_idx s). ni_addr e \<noteq> 0xffff \<longrightarrow> ni_role e = ucast (rl (ni_euid e))))"

text \<open>What a node may rely on once it has an answer: entry \<open>i\<close> is its own, with its own slot.\<close>

definition granted :: "int \<Rightarrow> u64 \<Rightarrow> pan_req_resp \<Rightarrow> panmaster_node_idx list \<Rightarrow> nat \<Rightarrow> bool" where
  "granted now eu r tbl i =
     (i < length tbl \<and> ni_euid (tbl ! i) = eu \<and> ni_addr (tbl ! i) = rr_short_address r \<and> rr_short_address r \<noteq> 0xffff \<and>
      ni_slot_id (tbl ! i) = rr_slot_id r \<and>
      (\<forall>j < length tbl. j \<noteq> i \<longrightarrow> ni_addr (tbl ! j) \<noteq> rr_short_address r) \<and>
      (\<forall>j < length tbl. j \<noteq> i \<and> holds_slot now (tbl ! j) \<and> ni_role (tbl ! j) = ni_role (tbl ! i) \<longrightarrow>
         ni_slot_id (tbl ! j) \<noteq> rr_slot_id r))"

lemma ucast_ucast_8:
  assumes "(x :: u16) < 256"
  shows "ucast (ucast x :: u8) = x"
proof -
  have "unat x < 2 ^ 8" using assms by (simp add: word_less_nat_alt)
  then have "take_bit 8 (unat x) = unat x" by (rule take_bit_nat_eq_self)
  then have "unat (ucast (ucast x :: u8) :: u16) = unat x" by (simp add: unsigned_ucast_eq unsigned_take_bit_eq)
  then show ?thesis by (rule unsigned_word_eqI)
qed

text \<open>An entry that gets a free slot, or keeps a permanent one.\<close>

lemma master_ok_update:
  assumes ok: "master_ok rl now s" and i: "i < length (node_idx s)" and tbl: "node_idx s' = (node_idx s)[i := e]"
    and addr: "ni_addr e \<noteq> 0xffff" "\<And>j. j < length (node_idx s) \<Longrightarrow> j \<noteq> i \<Longrightarrow> ni_addr (node_idx s ! j) \<noteq> ni_addr e"
    and role: "ni_role e = ucast (rl (ni_euid e))" "rl (ni_euid e) < 256"
    and slot: "ni_has_perm_slot e \<and> holds_slot now (node_idx s ! i) \<and> ni_role e = ni_role (node_idx s ! i) \<and> ni_slot_id e = ni_slot_id (node_idx s ! i) \<or>
      ni_slot_id e = first_free_slot_id ((node_idx s)[i := e']) now (ni_addr e) (rl (ni_euid e))"
    and r: "rr_short_address r = ni_addr e" "rr_slot_id r = ni_slot_id e"
  shows "master_ok rl now s' \<and> granted now (ni_euid e) r (node_idx s') i"
proof -
  let ?t = "node_idx s"
  have apart: "addrs_apart (?t[i := e])"
    using ok i addr by (intro addrs_apart_update) (auto simp: master_ok_def)
  have rl8: "ucast (ucast (rl (ni_euid e)) :: u8) = rl (ni_euid e)"
    by (rule ucast_ucast_8) (rule role(2))
  have slots: "slots_apart now (?t[i := e]) \<and> (\<forall>j < length ?t. j \<noteq> i \<and> holds_slot now (?t ! j) \<and> ni_role (?t ! j) = ni_role e \<longrightarrow> ni_slot_id (?t ! j) \<noteq> ni_slot_id e)"
    using slot
  proof
    assume perm: "ni_has_perm_slot e \<and> holds_slot now (?t ! i) \<and> ni_role e = ni_role (?t ! i) \<and> ni_slot_id e = ni_slot_id (?t ! i)"
    have sa: "slots_apart now ?t" using ok by (simp add: master_ok_def)
    then have other: "\<forall>j < length ?t. j \<noteq> i \<and> holds_slot now (?t ! j) \<and> ni_role (?t ! j) = ni_role e \<longrightarrow> ni_slot_id (?t ! j) \<noteq> ni_slot_id e"
      using perm i unfolding slots_apart_def by metis
    then show ?thesis using sa i unfolding slots_apart_def by (auto simp: nth_list_update)
  next
    assume free: "ni_slot_id e = first_free_slot_id (?t[i := e']) now (ni_addr e) (rl (ni_euid e))"
    have "length (filter (\<lambda>x. ni_addr x \<noteq> ni_addr e) (?t[i := e'])) \<le> length ?t"
      by (metis length_filter_le length_list_update)
    then have "length (filter (\<lambda>x. ni_addr x \<noteq> ni_addr e) (?t[i := e'])) < 0xffff"
      using ok by (simp add: master_ok_def)
    from first_free_slot_id_spec(1)[OF this]
    have nh: "\<not> slot_held (?t[i := e']) now (ni_addr e) (ucast (ni_role e)) (ni_slot_id e)"
      using free role rl8 by simp
    have sa: "slots_apart now (?t[i := e])"
      using slots_apart_update[OF _ apart i addr(1) nh] ok by (simp add: master_ok_def)
    have "ni_slot_id (?t ! j) \<noteq> ni_slot_id e"
      if "j < length ?t" "j \<noteq> i" "holds_slot now (?t ! j)" "ni_role (?t ! j) = ni_role e" for j
    proof
      assume "ni_slot_id (?t ! j) = ni_slot_id e"
      moreover have "?t ! j \<in> set (?t[i := e'])" using that by (metis length_list_update nth_list_update_neq nth_mem)
      ultimately have "slot_held (?t[i := e']) now (ni_addr e) (ucast (ni_role e)) (ni_slot_id e)"
        using that addr(2)[of j] by (auto simp: slot_held_def list_ex_iff holds_slot_def)
      then show False using nh by simp
    qed
    then show ?thesis using sa by blast
  qed
  have roles: "\<forall>x \<in> set (?t[i := e]). ni_addr x \<noteq> 0xffff \<longrightarrow> ni_role x = ucast (rl (ni_euid x))"
    using ok role(1) set_update_subset_insert[of ?t i e] by (auto simp: master_ok_def)
  have "master_ok rl now s'"
    unfolding master_ok_def tbl using apart slots roles ok by (auto simp: master_ok_def)
  moreover have "granted now (ni_euid e) r (node_idx s') i"
    unfolding granted_def tbl using slots addr r i by auto
  ultimately show ?thesis ..
qed

text \<open>A request changes entries only; no address is ever taken back by one.\<close>

lemma panrequest_ok:
  assumes ok: "master_ok rl now s" and req: "rr_role req = rl eu" "rl eu < 256"
    and run: "panrequest_cb dl same locked now now2 utc eu req resp s = (answered, r, s')"
    and no0: "\<forall>e \<in> set (node_idx s'). ni_addr e \<noteq> 0"
  shows "master_ok rl now s'" and "answered \<Longrightarrow> \<exists>i. granted now eu r (node_idx s') i" and "\<not> answered \<Longrightarrow> node_idx s' = node_idx s"
proof -
  have small: "length (node_idx s) \<le> 256" "node_idx s \<noteq> []" using ok by (auto simp: master_ok_def)
  have "master_ok rl now s' \<and> (answered \<longrightarrow> (\<exists>i. granted now eu r (node_idx s') i)) \<and> (\<not> answered \<longrightarrow> node_idx s' = node_idx s)"
  proof (cases "find_first_empty_nodes_to_save locked eu s")
    case (Pair ko s1)
    show ?thesis
    proof (cases ko)
      case None
      then have "s1 = s" using Pair find_first_empty_none by blast
      then show ?thesis using run Pair None ok by (auto simp: panrequest_cb_def panmaster_idx_find_node_def)
    next
      case (Some k)
      note ff = find_first_emptyD[OF Pair[unfolded Some]]
      have t1: "node_idx s1 = node_idx s" and k1: "k < length (nodes_to_save s1)" using ff by simp_all
      show ?thesis
      proof (cases "find_index (\<lambda>e. ni_addr e \<noteq> 0xffff \<and> eu = ni_euid e) (node_idx s)")
        case (Some i)
        note i = find_index_SomeD[OF this]
        note eff = find_known_effect[OF i(1)[folded t1] small(1)[folded t1] k1, of now "rl eu"]
        have found: "panmaster_idx_find_node locked now utc eu (rr_role req) s = (0, Some k, find_known k i now (rl eu) s1)"
          using Pair \<open>ko = Some k\<close> t1 Some req by (simp add: panmaster_idx_find_node_def)
        have i256: "i < 256" using i(1) small(1) by simp
        note ans = panrequest_answer[OF found k1[folded eff(4)] eff(3) i256 run]
        from ans(4) obtain L where tbl: "node_idx s' = (node_idx s)[i := (renewed now (rl eu) (node_idx s) i)\<lparr>ni_lease_ends := L\<rparr>]"
          using eff(1) t1 i(1) by auto
        let ?e = "(renewed now (rl eu) (node_idx s) i)\<lparr>ni_lease_ends := L\<rparr>"
        have role: "ni_role (node_idx s ! i) = ucast (rl eu)"
          using ok i by (metis (no_types, lifting) master_ok_def nth_mem)
        have "master_ok rl now s' \<and> granted now (ni_euid ?e) r (node_idx s') i"
        proof (rule master_ok_update[OF ok i(1) tbl, where e' = "node_idx s ! i"])
          show "ni_addr (node_idx s ! j) \<noteq> ni_addr ?e" if "j < length (node_idx s)" "j \<noteq> i" for j
            using that ok i addrs_apartD[of "node_idx s" i j] by (auto simp: master_ok_def)
          show "ni_has_perm_slot ?e \<and> holds_slot now (node_idx s ! i) \<and> ni_role ?e = ni_role (node_idx s ! i) \<and> ni_slot_id ?e = ni_slot_id (node_idx s ! i) \<or>
            ni_slot_id ?e = first_free_slot_id ((node_idx s)[i := node_idx s ! i]) now (ni_addr ?e) (rl (ni_euid ?e))"
            using i by (auto simp: holds_slot_def)
        qed (use i role req ans(2,3) eff(1,2) t1 in auto)
        then show ?thesis using i ans(1) by auto
      next
        case None
        show ?thesis
        proof (cases "find_index (\<lambda>e. ni_addr e = 0xffff) (node_idx s)")
          case full: None
          then have "panmaster_idx_find_node locked now utc eu (rr_role req) s = (0, None, s1)"
            using Pair \<open>ko = Some k\<close> t1 None by (simp add: panmaster_idx_find_node_def)
          then show ?thesis using run ok t1 by (auto simp: panrequest_cb_def master_ok_def)
        next
          case (Some i)
          note i = find_index_SomeD[OF this]
          define a where "a = first_free_short_addr (node_idx s) eu"
          define e1 where "e1 = (node_idx s ! i)\<lparr>ni_addr := a, ni_euid := eu, ni_role := ucast (rl eu)\<rparr>"
          note eff = add_unknown_effect[OF i(1)[folded t1] small(1)[folded t1] k1, unfolded t1, OF a_def e1_def, where utc = utc and now = now]
          have found: "panmaster_idx_find_node locked now utc eu (rr_role req) s = (0, Some k, add_unknown k i now utc eu (rl eu) s1)"
            using Pair \<open>ko = Some k\<close> t1 None Some req by (simp add: panmaster_idx_find_node_def)
          have i256: "i < 256" using i(1) small(1) by simp
          note ans = panrequest_answer[OF found k1[folded eff(4)] eff(3) i256 run]
          let ?slot = "first_free_slot_id ((node_idx s)[i := e1]) now a (rl eu)"
          from ans(4) obtain L where tbl: "node_idx s' = (node_idx s)[i := e1\<lparr>ni_slot_id := ?slot, ni_save_needed := True, ni_lease_ends := L\<rparr>]"
            using eff(1) i(1) by auto
          let ?e = "e1\<lparr>ni_slot_id := ?slot, ni_save_needed := True, ni_lease_ends := L\<rparr>"
          have "?e \<in> set (node_idx s')" using tbl i(1) by (simp add: set_update_memI)
          then have "a \<noteq> 0" using no0 by (auto simp: e1_def)
          then have new: "\<not> addr_taken (node_idx s) a"
            using first_free_short_addr_free small(2) unfolding a_def by blast
          have notin: "ni_addr (node_idx s ! j) \<noteq> a" if "j < length (node_idx s)" for j
            using new that by (auto simp: addr_taken_def list_ex_length)
          have "master_ok rl now s' \<and> granted now (ni_euid ?e) r (node_idx s') i"
          proof (rule master_ok_update[OF ok i(1) tbl, where e' = e1])
            show "ni_addr ?e \<noteq> 0xffff" using notin[OF i(1)] i(2) by (simp add: e1_def)
          qed (use i req ans(2,3) eff(1,2) notin in \<open>auto simp: e1_def\<close>)
          then show ?thesis using ans(1) by (auto simp: e1_def)
        qed
      qed
    qed
  qed
  then show "master_ok rl now s'" and "answered \<Longrightarrow> \<exists>i. granted now eu r (node_idx s') i"
    and "\<not> answered \<Longrightarrow> node_idx s' = node_idx s" by auto
qed

text \<open>A request changes one entry at most, and no address that is in use.\<close>

lemma panrequest_entry:
  assumes small: "length (node_idx s) \<le> 256"
    and run: "panrequest_cb dl same locked now now2 utc eu req resp s = (answered, r, s')"
  shows "node_idx s' = node_idx s \<or>
    (\<exists>i e. i < length (node_idx s) \<and> node_idx s' = (node_idx s)[i := e] \<and>
       (ni_addr (node_idx s ! i) = 0xffff \<or> ni_addr e = ni_addr (node_idx s ! i)))"
proof (cases "find_first_empty_nodes_to_save locked eu s")
  case (Pair ko s1)
  show ?thesis
  proof (cases ko)
    case None
    then have "s1 = s" using Pair find_first_empty_none by blast
    then show ?thesis using run Pair None by (auto simp: panrequest_cb_def panmaster_idx_find_node_def)
  next
    case (Some k)
    note ff = find_first_emptyD[OF Pair[unfolded Some]]
    have t1: "node_idx s1 = node_idx s" and k1: "k < length (nodes_to_save s1)" using ff by simp_all
    show ?thesis
    proof (cases "find_index (\<lambda>e. ni_addr e \<noteq> 0xffff \<and> eu = ni_euid e) (node_idx s)")
      case (Some i)
      note i = find_index_SomeD[OF this]
      note eff = find_known_effect[OF i(1)[folded t1] small[folded t1] k1, of now "rr_role req"]
      have found: "panmaster_idx_find_node locked now utc eu (rr_role req) s = (0, Some k, find_known k i now (rr_role req) s1)"
        using Pair \<open>ko = Some k\<close> t1 Some by (simp add: panmaster_idx_find_node_def)
      have i256: "i < 256" using i(1) small by simp
      obtain L where "node_idx s' = (node_idx s)[i := (renewed now (rr_role req) (node_idx s) i)\<lparr>ni_lease_ends := L\<rparr>]"
        using panrequest_answer(4)[OF found k1[folded eff(4)] eff(3) i256 run] eff(1) t1 i(1) by auto
      then show ?thesis using i(1)
        by (intro disjI2 exI[of _ i] exI[of _ "(renewed now (rr_role req) (node_idx s) i)\<lparr>ni_lease_ends := L\<rparr>"]) simp
    next
      case None
      show ?thesis
      proof (cases "find_index (\<lambda>e. ni_addr e = 0xffff) (node_idx s)")
        case full: None
        then have "panmaster_idx_find_node locked now utc eu (rr_role req) s = (0, None, s1)"
          using Pair \<open>ko = Some k\<close> t1 None by (simp add: panmaster_idx_find_node_def)
        then show ?thesis using run t1 by (auto simp: panrequest_cb_def)
      next
        case (Some i)
        note i = find_index_SomeD[OF this]
        note eff = add_unknown_effect[OF i(1)[folded t1] small[folded t1] k1 refl refl, where utc = utc and now = now and rl = "rr_role req" and eu = eu]
        have found: "panmaster_idx_find_node locked now utc eu (rr_role req) s = (0, Some k, add_unknown k i now utc eu (rr_role req) s1)"
          using Pair \<open>ko = Some k\<close> t1 None Some by (simp add: panmaster_idx_find_node_def)
        have i256: "i < 256" using i(1) small by simp
        from panrequest_answer(4)[OF found k1[folded eff(4)] eff(3) i256 run] show ?thesis
          using eff(1) t1 i by auto
      qed
    qed
  qed
qed

text \<open>With two entries to spare and at most fifteen in all, a new node gets an address.\<close>

lemma addr_candidate_bits:
  assumes "0 < i" and "i < 16"
  shows "addr_candidate eu i \<noteq> 0" and "drop_bit 12 (addr_candidate eu i) = of_nat i"
proof -
  have c: "addr_candidate eu i = push_bit 12 (of_nat i) OR ucast (eu AND 0x0fff)"
    using assms by (simp add: addr_candidate_def) (rule bit_word_eqI, auto simp: bit_simps)
  have "bit (addr_candidate eu i) n = (if 12 \<le> n then bit (of_nat i :: u16) (n - 12) else bit eu n)" if "n < 16" for n
  proof -
    have "bit (0xFFF :: u64) n \<longleftrightarrow> n < 12" using bit_mask_iff[of 12 n, where 'a = u64] that by (simp add: mask_eq_exp_minus_1)
    then show ?thesis using that by (auto simp: c bit_simps)
  qed
  note b = this
  show d: "drop_bit 12 (addr_candidate eu i) = of_nat i"
  proof (rule bit_word_eqI)
    fix n
    assume "n < LENGTH(16)"
    have "take_bit 4 i = i" using assms by (intro take_bit_nat_eq_self) simp
    then have hi: "\<not> bit i n" if "4 \<le> n" using that bit_take_bit_iff[of 4 i n] by simp
    show "bit (drop_bit 12 (addr_candidate eu i)) n = bit (of_nat i :: u16) n"
      using b[of "12 + n"] hi \<open>n < LENGTH(16)\<close>
      by (cases "n < 4") (auto simp: bit_simps dest: bit_imp_le_length)
  qed
  show "addr_candidate eu i \<noteq> 0"
  proof
    assume "addr_candidate eu i = 0"
    then have "(of_nat i :: u16) = 0" using d by simp
    then have "unat (of_nat i :: u16) = 0" by simp
    then show False using assms by (simp add: unat_of_nat_16)
  qed
qed

lemma first_free_short_addr_found:
  assumes "length tbl \<le> 15" and "length (filter (\<lambda>e. ni_addr e \<noteq> 0xffff) tbl) + 2 < length tbl"
  shows "first_free_short_addr tbl eu \<noteq> 0"
proof -
  let ?C = "addr_candidate eu ` {1 ..< length tbl}"
  let ?U = "insert 0xffff (ni_addr ` set (filter (\<lambda>e. ni_addr e \<noteq> 0xffff) tbl))"
  have inj: "inj_on (addr_candidate eu) {1 ..< length tbl}"
  proof (rule inj_onI)
    fix i j
    assume ij: "i \<in> {1 ..< length tbl}" "j \<in> {1 ..< length tbl}" and "addr_candidate eu i = addr_candidate eu j"
    then have "(of_nat i :: u16) = of_nat j"
      using addr_candidate_bits(2)[of i eu] addr_candidate_bits(2)[of j eu] assms(1) by auto
    then have "unat (of_nat i :: u16) = unat (of_nat j :: u16)" by simp
    then show "i = j" using ij assms(1) by (simp add: unat_of_nat_16)
  qed
  have "card ?U \<le> Suc (card (ni_addr ` set (filter (\<lambda>e. ni_addr e \<noteq> 0xffff) tbl)))" by (simp add: card_insert_if)
  also have "\<dots> \<le> Suc (length (filter (\<lambda>e. ni_addr e \<noteq> 0xffff) tbl))"
    by (metis (no_types, lifting) Suc_le_mono card_image_le card_length finite_set order_trans)
  also have "\<dots> < card ?C" using assms(2) card_image[OF inj] by simp
  finally have "\<not> ?C \<subseteq> ?U" using card_mono[of ?U ?C] by (meson finite_imageI finite_insert finite_set leD)
  then obtain a where "a \<in> ?C" and "a \<notin> ?U" by blast
  then obtain i where i: "1 \<le> i" "i < length tbl" "addr_candidate eu i \<notin> ?U" by auto
  then have "\<not> addr_taken tbl (addr_candidate eu i)" by (auto simp: addr_taken_def list_ex_iff)
  then have "addr_loop tbl eu (length tbl) \<noteq> 0"
    using i assms(1) addr_candidate_bits(1)[of i eu] by (intro addr_loop_finds[of _ _ i]) auto
  then show ?thesis using i by (auto simp: first_free_short_addr_def)
qed

end
