(* ===== verification/Uwb_Pan_Facts.thy ===== *)
theory Uwb_Pan_Facts
  imports Uwb_Pan Panmaster_Facts
begin

text \<open>
  Frames keep their fields, every operation and callback keeps a node well-formed, and what the
  callbacks do with a request and a response.
\<close>

unbundle bit_operations_syntax

section \<open>Fields of a frame\<close>

lemma pf_length [simp]:
  "length (set_pf_seq_num v m) = length m" "length (set_pf_long_address w m) = length m"
  "length (set_pf_rpt_count v m) = length m" "length (set_pf_rpt_max v m) = length m"
  "length (set_pf_code c m) = length m" "length (set_pf_req r m) = length m"
  by (simp_all add: layout Let_def)

lemma pf_req_set [simp]: "length m = 25 \<Longrightarrow> pf_req (set_pf_req r m) = r"
  by (simp add: layout Let_def)

lemma pf_code_set [simp]: "length m = 25 \<Longrightarrow> pf_code (set_pf_code c m) = c" "length m = 25 \<Longrightarrow> pf_code (set_pf_req r m) = pf_code m"
  "length m = 25 \<Longrightarrow> pf_code (set_pf_rpt_count v m) = pf_code m" "length m = 25 \<Longrightarrow> pf_code (set_pf_rpt_max v m) = pf_code m"
  by (simp_all add: layout Let_def)

lemma pf_long_address_set [simp]:
  "length m = 25 \<Longrightarrow> pf_long_address (set_pf_long_address a m) = a"
  "length m = 25 \<Longrightarrow> pf_long_address (set_pf_code c m) = pf_long_address m"
  "length m = 25 \<Longrightarrow> pf_long_address (set_pf_req r m) = pf_long_address m"
  "length m = 25 \<Longrightarrow> pf_long_address (set_pf_rpt_count v m) = pf_long_address m"
  "length m = 25 \<Longrightarrow> pf_long_address (set_pf_rpt_max v m) = pf_long_address m"
  by (simp_all add: layout Let_def)

lemma pf_first_set [simp]:
  "get_u8 (set_pf_seq_num v m) 0 = get_u8 m 0"
  "length m = 25 \<Longrightarrow> get_u8 (set_pf_long_address a m) 0 = get_u8 m 0"
  "length m = 25 \<Longrightarrow> get_u8 (set_pf_code c m) 0 = get_u8 m 0"
  "length m = 25 \<Longrightarrow> get_u8 (set_pf_req r m) 0 = get_u8 m 0"
  "length m = 25 \<Longrightarrow> get_u8 (set_pf_rpt_count v m) 0 = get_u8 m 0"
  "length m = 25 \<Longrightarrow> get_u8 (set_pf_rpt_max v m) 0 = get_u8 m 0"
  by (simp_all add: layout Let_def) (simp add: get_u8_def put_u8_def)

lemma pf_req_code [simp]: "length m = 25 \<Longrightarrow> pf_req (set_pf_code c m) = pf_req m"
  by (simp add: layout)

lemma blink_frame_fields:
  assumes "length m = 25"
  shows "length (blink_frame eu mx role lease n m) = 25" and "pf_long_address (blink_frame eu mx role lease n m) = eu"
    and "pf_code (blink_frame eu mx role lease n m) = DWT_PAN_REQ" and "rr_role (pf_req (blink_frame eu mx role lease n m)) = role"
    and "rr_lease_time (pf_req (blink_frame eu mx role lease n m)) = lease"
    and "get_u8 (blink_frame eu mx role lease n m) 0 = get_u8 m 0"
  using assms by (simp_all add: blink_frame_def Let_def)

lemma write_whole: "length m = length m' \<Longrightarrow> write_at m 0 m' = m'"
  by (simp add: write_at_0)

section \<open>Well-formed nodes\<close>

definition pan_ok :: "'m pan_node \<Rightarrow> bool" where
  "pan_ok s =
     (pan_sem (ps_pan s) \<le> 1 \<and> pan_nframes (ps_pan s) \<noteq> 0 \<and>
      length (pan_frames (ps_pan s)) = unat (pan_nframes (ps_pan s)) \<and>
      (\<forall>m \<in> set (pan_frames (ps_pan s)). length m = 25))"

lemma pan_slot_less: "pan_ok s \<Longrightarrow> pan_slot (ps_pan s) < length (pan_frames (ps_pan s))"
  by (simp add: pan_ok_def pan_slot_def unat_gt_0)

lemma pan_frame_length: "pan_ok s \<Longrightarrow> length (pan_frame s) = 25"
  using pan_slot_less[of s] by (simp add: pan_ok_def pan_frame_def)

lemma pan_simps [simp]:
  "ps_pan (PAN_STATS_INC x s) = ps_pan s" "ps_dev (PAN_STATS_INC x s) = ps_dev s" "ps_master (PAN_STATS_INC x s) = ps_master s"
  "ps_pan (on_pdev f s) = ps_pan s" "ps_dev (on_pdev f s) = f (ps_dev s)" "ps_master (on_pdev f s) = ps_master s"
  "ps_pan (on_pan g s) = g (ps_pan s)" "ps_dev (on_pan g s) = ps_dev s" "ps_master (on_pan g s) = ps_master s"
  "ps_pan (post_event s) = ps_pan s" "ps_dev (post_event s) = ps_dev s" "ps_master (post_event s) = ps_master s"
  by (simp_all add: PAN_STATS_INC_def on_pdev_def on_pan_def post_event_def)

lemma pan_ok_simps [simp]:
  "pan_ok (PAN_STATS_INC x s) = pan_ok s" "pan_ok (on_pdev f s) = pan_ok s" "pan_ok (post_event s) = pan_ok s"
  "pan_ok (s\<lparr>ps_master := mm\<rparr>) = pan_ok s"
  by (simp_all add: pan_ok_def)

lemma pan_ok_on_pan:
  "pan_ok s \<Longrightarrow> pan_sem (g (ps_pan s)) = pan_sem (ps_pan s) \<Longrightarrow> pan_nframes (g (ps_pan s)) = pan_nframes (ps_pan s) \<Longrightarrow>
     pan_frames (g (ps_pan s)) = pan_frames (ps_pan s) \<Longrightarrow> pan_ok (on_pan g s)"
  by (simp add: pan_ok_def)

lemma pan_ok_on_frame:
  assumes "pan_ok s" and "\<And>m. length m = 25 \<Longrightarrow> length (f m) = 25"
  shows "pan_ok (on_pan_frame f s)" and "pan_frame (on_pan_frame f s) = f (pan_frame s)"
proof -
  have i: "pan_slot (ps_pan s) < length (pan_frames (ps_pan s))" by (rule pan_slot_less[OF assms(1)])
  then have "length (pan_frames (ps_pan s) ! pan_slot (ps_pan s)) = 25" using assms(1) by (simp add: pan_ok_def)
  then show "pan_ok (on_pan_frame f s)"
    using assms set_update_subset_insert[of "pan_frames (ps_pan s)" "pan_slot (ps_pan s)"]
    by (auto simp: pan_ok_def on_pan_frame_def on_pan_def)
  show "pan_frame (on_pan_frame f s) = f (pan_frame s)"
    using i by (simp add: pan_frame_def on_pan_frame_def on_pan_def pan_slot_def)
qed

lemma on_pan_frame_simps [simp]:
  "ps_dev (on_pan_frame f s) = ps_dev s" "ps_master (on_pan_frame f s) = ps_master s"
  "pan_sem (ps_pan (on_pan_frame f s)) = pan_sem (ps_pan s)" "pan_config (ps_pan (on_pan_frame f s)) = pan_config (ps_pan s)"
  "pan_has_request_cb (ps_pan (on_pan_frame f s)) = pan_has_request_cb (ps_pan s)"
  "pan_lease_callout (ps_pan (on_pan_frame f s)) = pan_lease_callout (ps_pan s)"
  by (simp_all add: on_pan_frame_def on_pan_def)

lemma pan_frame_same:
  "pan_frames (ps_pan s') = pan_frames (ps_pan s) \<Longrightarrow> pan_idx (ps_pan s') = pan_idx (ps_pan s) \<Longrightarrow>
     pan_nframes (ps_pan s') = pan_nframes (ps_pan s) \<Longrightarrow> pan_frame s' = pan_frame s"
  by (simp add: pan_frame_def pan_slot_def)

lemma pan_ok_count: "pan_ok s \<Longrightarrow> pan_sem_count s = 0 \<longleftrightarrow> pan_sem (ps_pan s) = 0" "pan_ok s \<Longrightarrow> pan_sem_count s = 1 \<longleftrightarrow> pan_sem (ps_pan s) = 1"
  by (auto simp: pan_ok_def pan_sem_count_def le_Suc_eq)

lemma pan_ok_release: "pan_ok s \<Longrightarrow> pan_sem (ps_pan s) = 0 \<Longrightarrow> pan_ok (pan_release s)"
  by (simp add: pan_ok_def pan_release_def dpl_sem_release_def)

lemma start_pan_tx_ok [simp]: "pan_ok (start_pan_tx uf s) = pan_ok s"
  by (simp add: start_pan_tx_def pan_ok_def Let_def)

lemma start_pan_tx_frame [simp]:
  "pan_frame (start_pan_tx uf s) = pan_frame s" "ps_master (start_pan_tx uf s) = ps_master s"
  "pan_sem (ps_pan (start_pan_tx uf s)) = pan_sem (ps_pan s)" "pan_config (ps_pan (start_pan_tx uf s)) = pan_config (ps_pan s)"
  by (simp_all add: start_pan_tx_def pan_frame_def pan_slot_def Let_def)

lemma pan_frame_simps [simp]:
  "pan_frame (PAN_STATS_INC x s) = pan_frame s" "pan_frame (on_pdev f s) = pan_frame s" "pan_frame (post_event s) = pan_frame s"
  "pan_frame (pan_release s) = pan_frame s"
  by (simp_all add: pan_frame_def pan_slot_def pan_release_def)

lemma pan_done_ok: "pan_ok s \<Longrightarrow> pan_ok (snd (pan_done s))"
  by (simp add: pan_done_def Let_def pan_ok_count pan_ok_release)

lemma handle_pan_request_ok: "pan_ok s \<Longrightarrow> pan_ok (handle_pan_request uf cb s)"
  by (auto simp: handle_pan_request_def Let_def pan_ok_on_frame split: prod.splits)

lemma relay_frame_ok: "pan_ok s \<Longrightarrow> pan_ok (relay_frame uf s)"
  by (simp add: relay_frame_def Let_def pan_ok_on_frame)

lemma accept_ok: "pan_ok s \<Longrightarrow> pan_ok (accept_response e now s)" "pan_ok s \<Longrightarrow> pan_ok (accept_reset s)"
  by (simp_all add: accept_response_def accept_reset_def Let_def pan_ok_on_pan)

lemma pan_ok_received:
  assumes "pan_ok s" and "unat (dev_frame_len (ps_dev s)) \<le> 25"
  shows "pan_ok (on_pan_frame (\<lambda>m. write_at m 0 (take (unat (dev_frame_len (ps_dev s))) (dev_rxbuf (ps_dev s)))) s)"
  using assms(1) by (rule pan_ok_on_frame) simp

lemma pan_handle_frame_ok: "pan_ok s \<Longrightarrow> pan_ok (snd (pan_handle_frame uf cb e now s))"
  by (simp add: pan_handle_frame_def Let_def pan_done_ok handle_pan_request_ok relay_frame_ok accept_ok)

lemma pan_rx_complete_ok: "pan_ok s \<Longrightarrow> pan_ok (snd (pan_rx_complete_cb uf cb e now s))"
  using pan_ok_received[of "PAN_STATS_INC Pan_rx_complete s"]
  by (simp add: pan_rx_complete_cb_def Let_def pan_ok_count pan_ok_release pan_handle_frame_ok)

lemma pan_callbacks_ok:
  "pan_ok s \<Longrightarrow> pan_ok (snd (pan_tx_complete_cb s))" "pan_ok s \<Longrightarrow> pan_ok (snd (pan_reset_cb s))"
  "pan_ok s \<Longrightarrow> pan_ok (snd (pan_rx_timeout_cb s))" "pan_ok s \<Longrightarrow> pan_ok (lease_expiry_cb s)"
  by (auto simp: pan_tx_complete_cb_def pan_reset_cb_def pan_rx_timeout_cb_def lease_expiry_cb_def Let_def
      pan_ok_on_pan pan_ok_count pan_ok_release)

lemma pan_pend_ok:
  assumes "pan_pend w s = Some s1" and "pan_ok s"
  shows "pan_ok s1" and "pan_sem (ps_pan s1) = 0" and "ps_dev s1 = ps_dev s" and "ps_master s1 = ps_master s"
    and "pan_frame s1 = pan_frame s" and "pan_config (ps_pan s1) = pan_config (ps_pan s)" and "pan_sem (ps_pan s) = 1"
    and "pan_has_request_cb (ps_pan s1) = pan_has_request_cb (ps_pan s)"
    and "pan_nframes (ps_pan s1) = pan_nframes (ps_pan s)"
  using assms
  by (auto simp: pan_pend_def dpl_sem_pend_def pan_ok_def pan_frame_def pan_slot_def split: wait_end.splits if_splits)

lemma uwb_pan_wait_ok: "uwb_pan_wait w s = Some s1 \<Longrightarrow> pan_ok s \<Longrightarrow> pan_ok s1"
  using pan_pend_ok by (auto simp: uwb_pan_wait_def intro!: pan_ok_release)

lemma pan_listen_start_ok:
  assumes "uwb_pan_listen_start uf w s = Some s1" and "pan_ok s"
  shows "pan_ok s1"
proof -
  obtain s0 where s0: "pan_pend w s = Some s0" using assms(1) by (auto simp: uwb_pan_listen_start_def split: option.splits)
  show ?thesis using assms(1) s0 pan_pend_ok[OF s0 assms(2)]
    by (auto simp: uwb_pan_listen_start_def Let_def intro!: pan_ok_release)
qed

lemma blink_start_ok:
  assumes "uwb_pan_blink_start uf mx w role d s = Some (started, s1)" and "pan_ok s"
  shows "pan_ok s1"
proof -
  obtain s0 where s0: "pan_pend w s = Some s0" using assms(1) by (auto simp: uwb_pan_blink_start_def split: option.splits)
  show ?thesis using assms(1) s0 pan_pend_ok[OF s0 assms(2)]
    by (auto simp: uwb_pan_blink_start_def Let_def pan_ok_on_frame blink_frame_fields split: if_splits intro!: pan_ok_release)
qed

lemma uwb_pan_reset_ok: "pan_ok s \<Longrightarrow> pan_ok (uwb_pan_reset uf d s)"
  by (simp add: uwb_pan_reset_def Let_def pan_ok_on_frame reset_frame_def)

lemma uwb_pan_start_ok: "pan_ok s \<Longrightarrow> pan_ok (uwb_pan_start r n s)"
  by (simp add: uwb_pan_start_def Let_def pan_ok_on_pan)

lemma slot_timer_ok:
  assumes "uwb_pan_slot_timer_cb uf mx sz margin guard t cycles s = Some (c, p, s1)" and "pan_ok s"
  shows "pan_ok s1"
  using assms
  by (auto simp: uwb_pan_slot_timer_cb_def listen_in_slot_def Let_def uwb_pan_reset_ok split: if_splits
      intro: pan_listen_start_ok blink_start_ok)

lemma slot_timer_finish_ok: "uwb_pan_slot_timer_finish p w s = Some s1 \<Longrightarrow> pan_ok s \<Longrightarrow> pan_ok s1"
  by (auto simp: uwb_pan_slot_timer_finish_def uwb_pan_wait_ok split: if_splits)

section \<open>Runs of a node\<close>

text \<open>
  The steps of a node: its operations, its callbacks, a frame arriving, the device getting an
  address by other means.
\<close>

inductive pan_step :: "uwb_driver_funcs \<Rightarrow> 'm request_cb \<Rightarrow> 'm pan_node \<Rightarrow> 'm pan_node \<Rightarrow> bool" for uf cb where
  Frame: "pan_step uf cb s (on_pdev (\<lambda>d. d\<lparr>dev_fctrl := fc, dev_frame_len := len, dev_rxbuf := buf, dev_rxtimestamp := ts\<rparr>) s)"
| Rx_complete: "pan_step uf cb s (snd (pan_rx_complete_cb uf cb e now s))"
| Tx_complete: "pan_step uf cb s (snd (pan_tx_complete_cb s))"
| Reset_cb: "pan_step uf cb s (snd (pan_reset_cb s))"
| Rx_timeout: "pan_step uf cb s (snd (pan_rx_timeout_cb s))"
| Lease_expiry: "pan_step uf cb s (lease_expiry_cb s)"
| Start: "pan_step uf cb s (uwb_pan_start r n s)"
| Listen: "uwb_pan_listen_start uf w s = Some s' \<Longrightarrow> pan_step uf cb s s'"
| Blink: "uwb_pan_blink_start uf mx w role d s = Some (b, s') \<Longrightarrow> pan_step uf cb s s'"
| Wait: "uwb_pan_wait w s = Some s' \<Longrightarrow> pan_step uf cb s s'"
| Reset: "pan_step uf cb s (uwb_pan_reset uf d s)"
| Slot_timer: "uwb_pan_slot_timer_cb uf mx sz margin guard t cycles s = Some (c, p, s') \<Longrightarrow> pan_step uf cb s s'"
| Slot_finish: "uwb_pan_slot_timer_finish p w s = Some s' \<Longrightarrow> pan_step uf cb s s'"

inductive pan_run :: "uwb_driver_funcs \<Rightarrow> 'm request_cb \<Rightarrow> 'm pan_node \<Rightarrow> 'm pan_node \<Rightarrow> bool" for uf cb where
  pan_refl: "pan_run uf cb s s"
| pan_snoc: "pan_run uf cb s s1 \<Longrightarrow> pan_step uf cb s1 s2 \<Longrightarrow> pan_run uf cb s s2"

lemma pan_step_ok: "pan_step uf cb s s' \<Longrightarrow> pan_ok s \<Longrightarrow> pan_ok s'"
  by (induction rule: pan_step.induct)
    (simp_all add: pan_rx_complete_ok pan_callbacks_ok uwb_pan_start_ok uwb_pan_reset_ok,
     (blast intro: pan_listen_start_ok blink_start_ok uwb_pan_wait_ok slot_timer_ok slot_timer_finish_ok)+)

lemma pan_run_ok: "pan_run uf cb s s' \<Longrightarrow> pan_ok s \<Longrightarrow> pan_ok s'"
  by (induction rule: pan_run.induct) (auto intro: pan_step_ok)

section \<open>Request and response\<close>

text \<open>A frame arrives: the driver has put it into the receive buffer.\<close>

definition deliver :: "bytes \<Rightarrow> u64 \<Rightarrow> 'm pan_node \<Rightarrow> 'm pan_node" where
  "deliver m ts = on_pdev (\<lambda>d. d\<lparr>dev_fctrl := get_le16 m 0, dev_frame_len := of_nat (length m), dev_rxbuf := m, dev_rxtimestamp := ts\<rparr>)"

lemma deliver_simps [simp]:
  "ps_pan (deliver m ts s) = ps_pan s" "ps_master (deliver m ts s) = ps_master s" "dev_euid (ps_dev (deliver m ts s)) = dev_euid (ps_dev s)"
  "dev_rxtimestamp (ps_dev (deliver m ts s)) = ts" "pan_ok (deliver m ts s) = pan_ok s"
  by (simp_all add: deliver_def)

lemma first_byte: "(ucast (get_le16 m 0) :: u8) = get_u8 m 0"
  by (rule bit_word_eqI) (auto simp: get_le16_def get_u8_def bit_simps)

text \<open>Up to the copy of the frame, the receive callback of a node that is waiting does this.\<close>

text \<open>Only a call that posts the event marks it as posted.\<close>

lemma posted_frame [simp]:
  "ps_posted (on_pan f s) = ps_posted s" "ps_posted (on_pdev g s) = ps_posted s" "ps_posted (on_pan_frame h s) = ps_posted s"
  "ps_posted (PAN_STATS_INC x s) = ps_posted s" "ps_posted (deliver m ts s) = ps_posted s"
  by (simp_all add: on_pan_def on_pdev_def on_pan_frame_def PAN_STATS_INC_def deliver_def)

lemma rx_complete_waiting:
  assumes "pan_ok s" and "pan_sem (ps_pan s) = 0" and "length m = 25" and "get_u8 m 0 = 0x56"
  shows "\<exists>s1. pan_ok s1 \<and> pan_frame s1 = m \<and> pan_sem (ps_pan s1) = 0 \<and> ps_master s1 = ps_master s \<and>
    ps_posted s1 = ps_posted s \<and> pan_config (ps_pan s1) = pan_config (ps_pan s) \<and> ps_dev s1 = ps_dev (deliver m ts s) \<and>
    pan_has_request_cb (ps_pan s1) = pan_has_request_cb (ps_pan s) \<and> pan_lease_callout (ps_pan s1) = pan_lease_callout (ps_pan s) \<and>
    pan_rx_complete_cb uf cb e now (deliver m ts s) = pan_handle_frame uf cb e now s1"
proof -
  let ?s = "PAN_STATS_INC Pan_rx_complete (deliver m ts s)"
  let ?s1 = "on_pan_frame (\<lambda>x. write_at x 0 (take (unat (dev_frame_len (ps_dev ?s))) (dev_rxbuf (ps_dev ?s)))) ?s"
  have dev: "unat (dev_frame_len (ps_dev ?s)) = 25" "dev_rxbuf (ps_dev ?s) = m" "dev_fctrl (ps_dev ?s) = get_le16 m 0"
    using assms(3) by (simp_all add: deliver_def)
  have ok: "pan_ok ?s" using assms(1) by simp
  have frame: "pan_frame ?s1 = m"
    using pan_ok_on_frame(2)[OF ok, of "\<lambda>x. write_at x 0 (take 25 m)"] pan_frame_length[OF ok] assms(3) dev
    by (simp add: write_at_0)
  have "pan_ok ?s1" using pan_ok_received[OF ok] dev by simp
  then show ?thesis
    using frame assms dev pan_ok_count[of "deliver m ts s"]
    by (intro exI[of _ ?s1]) (simp add: pan_rx_complete_cb_def first_byte Let_def)
qed

lemma handle_pan_request_effect:
  assumes "pan_ok s" and "pan_has_request_cb (ps_pan s)"
    and "cb (pf_long_address (pan_frame s)) (pf_req (pan_frame s)) (ps_master s) = (answered, r, master)"
  shows "pan_frame (handle_pan_request uf cb s) = set_pf_req r (set_pf_code DWT_PAN_RESP (pan_frame s))"
    and "ps_master (handle_pan_request uf cb s) = master"
    and "pan_sem (ps_pan (handle_pan_request uf cb s)) = pan_sem (ps_pan s)"
proof -
  let ?s1 = "on_pan_frame (set_pf_code DWT_PAN_RESP) s"
  have s1: "pan_ok ?s1" "pan_frame ?s1 = set_pf_code DWT_PAN_RESP (pan_frame s)"
    using pan_ok_on_frame[OF assms(1), of "set_pf_code DWT_PAN_RESP"] by simp_all
  have s2: "pan_frame (on_pan_frame (set_pf_req r) ?s1) = set_pf_req r (set_pf_code DWT_PAN_RESP (pan_frame s))"
    using pan_ok_on_frame(2)[OF s1(1), of "set_pf_req r"] s1(2) by simp
  have m: "pan_frame (x\<lparr>ps_master := y\<rparr>) = pan_frame x" for x :: "'a pan_node" and y by (simp add: pan_frame_def)
  have len: "length (pan_frame s) = 25" by (rule pan_frame_length[OF assms(1)])
  show "pan_frame (handle_pan_request uf cb s) = set_pf_req r (set_pf_code DWT_PAN_RESP (pan_frame s))"
    and "ps_master (handle_pan_request uf cb s) = master"
    and "pan_sem (ps_pan (handle_pan_request uf cb s)) = pan_sem (ps_pan s)"
    using assms(2,3) s1 s2 len by (simp_all add: handle_pan_request_def Let_def m)
qed

lemma pan_done_simps:
  "pan_ok s \<Longrightarrow> pan_sem (ps_pan s) = 0 \<Longrightarrow> pan_sem (ps_pan (snd (pan_done s))) = 1"
  "pan_frame (snd (pan_done s)) = pan_frame s" "ps_master (snd (pan_done s)) = ps_master s" "ps_dev (snd (pan_done s)) = ps_dev s"
  "pan_valid (ps_pan (snd (pan_done s))) = pan_valid (ps_pan s)" "pan_lease_callout (ps_pan (snd (pan_done s))) = pan_lease_callout (ps_pan s)"
  by (simp_all add: pan_done_def Let_def pan_ok_count pan_release_def dpl_sem_release_def pan_frame_def pan_slot_def)

text \<open>The master answers into the frame, notes the node, and is free again.\<close>

lemma master_answers:
  assumes "pan_ok s" and "pan_sem (ps_pan s) = 0" and "pc_role (pan_config (ps_pan s)) = UWB_PAN_ROLE_MASTER"
    and "pan_has_request_cb (ps_pan s)" and "pf_code (pan_frame s) = DWT_PAN_REQ"
    and "cb (pf_long_address (pan_frame s)) (pf_req (pan_frame s)) (ps_master s) = (answered, r, master)"
    and "pan_handle_frame uf cb e now s = (res, s')"
  shows "res" and "pan_frame s' = set_pf_req r (set_pf_code DWT_PAN_RESP (pan_frame s))" and "ps_master s' = master"
    and "pan_sem (ps_pan s') = 1"
proof -
  let ?s1 = "on_pdev (uwb_stop_rx uf) (PAN_STATS_INC Pan_request s)"
  have h: "pan_handle_frame uf cb e now s = pan_done (handle_pan_request uf cb ?s1)"
    using assms(3,5) by (simp add: pan_handle_frame_def Let_def codes)
  have eff: "pan_frame (handle_pan_request uf cb ?s1) = set_pf_req r (set_pf_code DWT_PAN_RESP (pan_frame s))"
    "ps_master (handle_pan_request uf cb ?s1) = master" "pan_sem (ps_pan (handle_pan_request uf cb ?s1)) = 0"
    using handle_pan_request_effect[of ?s1 cb answered r master uf] assms by simp_all
  have ok: "pan_ok (handle_pan_request uf cb ?s1)" using assms(1) by (simp add: handle_pan_request_ok)
  have s': "s' = snd (pan_done (handle_pan_request uf cb ?s1))" using h assms(7) by (metis snd_conv)
  show "res" using h assms(7) by (simp add: pan_done_def Let_def)
  show "pan_frame s' = set_pf_req r (set_pf_code DWT_PAN_RESP (pan_frame s))" and "ps_master s' = master" and "pan_sem (ps_pan s') = 1"
    using s' eff pan_done_simps(1)[OF ok eff(3)] pan_done_simps(2,3)[of "handle_pan_request uf cb ?s1"] by simp_all
qed

text \<open>The node takes over what it was given, and is free again.\<close>

lemma node_accepts:
  assumes "pan_ok s" and "pan_sem (ps_pan s) = 0" and "pf_code (pan_frame s) = DWT_PAN_RESP"
    and "pf_long_address (pan_frame s) = dev_euid (ps_dev s)" and "r = pf_req (pan_frame s)" and "rr_lease_time r > 0"
    and "pan_handle_frame uf cb e now s = (res, s')"
  shows "res" and "dev_my_short_address (ps_dev s') = rr_short_address r" and "dev_pan_id (ps_dev s') = rr_pan_id r"
    and "dev_slot_id (ps_dev s') = rr_slot_id r" and "pan_valid (ps_pan s')" and "pan_sem (ps_pan s') = 1"
    and "pan_lease_callout (ps_pan s') =
      dpl_callout_reset (lease_ticks e (dev_rxtimestamp (ps_dev s)) (rr_lease_time r)) now (dpl_callout_stop (pan_lease_callout (ps_pan s)))"
proof -
  let ?s1 = "accept_response e now s"
  have h: "pan_handle_frame uf cb e now s = pan_done ?s1"
    using assms(3,4) by (simp add: pan_handle_frame_def Let_def codes)
  have ok: "pan_ok ?s1" using assms(1) by (rule accept_ok)
  have eff: "dev_my_short_address (ps_dev ?s1) = rr_short_address r" "dev_pan_id (ps_dev ?s1) = rr_pan_id r"
    "dev_slot_id (ps_dev ?s1) = rr_slot_id r" "pan_valid (ps_pan ?s1)" "pan_sem (ps_pan ?s1) = 0"
    "pan_lease_callout (ps_pan ?s1) =
      dpl_callout_reset (lease_ticks e (dev_rxtimestamp (ps_dev s)) (rr_lease_time r)) now (dpl_callout_stop (pan_lease_callout (ps_pan s)))"
    using assms(2,5,6) by (simp_all add: accept_response_def Let_def)
  have s': "s' = snd (pan_done ?s1)" using h assms(7) by (metis snd_conv)
  show "res" using h assms(7) by (simp add: pan_done_def Let_def)
  show "dev_my_short_address (ps_dev s') = rr_short_address r" and "dev_pan_id (ps_dev s') = rr_pan_id r"
    and "dev_slot_id (ps_dev s') = rr_slot_id r" and "pan_valid (ps_pan s')" and "pan_sem (ps_pan s') = 1"
    and "pan_lease_callout (ps_pan s') =
      dpl_callout_reset (lease_ticks e (dev_rxtimestamp (ps_dev s)) (rr_lease_time r)) now (dpl_callout_stop (pan_lease_callout (ps_pan s)))"
    using eff pan_done_simps[of ?s1] ok s' by simp_all
qed

text \<open>A blink that is transmitted leaves its request in the frame.\<close>

lemma blink_start_frame:
  assumes "uwb_pan_blink_start uf mx w role d s = Some (True, s1)" and "pan_ok s"
  shows "pan_ok s1" and "pan_sem (ps_pan s1) = 0"
    and "pan_frame s1 = blink_frame (dev_euid (ps_dev s)) mx role (pc_lease_time (pan_config (ps_pan s))) (pan_nframes (ps_pan s)) (pan_frame s)"
    and "dev_euid (ps_dev s1) = dev_euid (ps_dev s)"
proof -
  obtain s0 where s0: "pan_pend w s = Some s0" using assms(1) by (auto simp: uwb_pan_blink_start_def split: option.splits)
  note p = pan_pend_ok[OF s0 assms(2)]
  let ?f = "blink_frame (dev_euid (ps_dev s0)) mx role (pc_lease_time (pan_config (ps_pan s0))) (pan_nframes (ps_pan s0))"
  have f: "pan_frame (on_pan_frame ?f (PAN_STATS_INC Pan_request s0)) = ?f (pan_frame s0)"
    using pan_ok_on_frame(2)[of "PAN_STATS_INC Pan_request s0" ?f] p(1) by (simp add: blink_frame_fields)
  have e: "dev_euid (ps_dev (start_pan_tx uf x)) = dev_euid (ps_dev x)" for x :: "'a pan_node"
    by (simp add: start_pan_tx_def Let_def uwb_start_tx_def frame)
  show "pan_ok s1" by (rule blink_start_ok[OF assms])
  show "pan_sem (ps_pan s1) = 0"
    and "pan_frame s1 = blink_frame (dev_euid (ps_dev s)) mx role (pc_lease_time (pan_config (ps_pan s))) (pan_nframes (ps_pan s)) (pan_frame s)"
    and "dev_euid (ps_dev s1) = dev_euid (ps_dev s)"
    using assms(1) s0 p f by (auto simp: uwb_pan_blink_start_def Let_def e uwb_api_defs frame split: if_splits)
qed

end
