(* ===== verification/Panm_Fcb_Facts.thy ===== *)
theory Panm_Fcb_Facts
  imports Panm_Fcb "HOL-Library.Multiset"
begin

text \<open>
  What the storage of the nodes promises, given a circular buffer that behaves as documented:
  a saved node is found again, sorting stores the nodes in the order of their addresses, and
  which nodes compression keeps.
\<close>

section \<open>The circular buffer\<close>

text \<open>
  With fewer than \<open>cap\<close> entries there is room for a node, and a node that was written and
  finished is visited last; clearing removes all entries.
\<close>

definition fcb_ok :: "nat \<Rightarrow> 'f fcb_lib \<Rightarrow> bool" where
  "fcb_ok cap lib =
     (FCB_ERR_NOSPACE lib \<noteq> 0 \<and> (\<forall>f. fcb_entries lib (snd (fcb_clear lib f)) = []) \<and>
      (\<forall>f n. length (fcb_entries lib f) < cap \<longrightarrow>
         (\<exists>f1 f2 a. fcb_append lib sizeof_node f = (0, f1) \<and> flash_area_write lib n f1 = (0, f2) \<and>
            fcb_entries lib (fcb_append_finish lib f2) =
              fcb_entries lib f @ [\<lparr>fe_area = a, fe_data_len = sizeof_node, fe_data = Some n\<rparr>])))"

text \<open>Entries of the present version that can be read, and the nodes in them.\<close>

definition intact :: "fcb_entry list \<Rightarrow> bool" where
  "intact es = (\<forall>e \<in> set es. fe_data_len e = sizeof_node \<and> fe_data e \<noteq> None)"

definition nodes_of :: "fcb_entry list \<Rightarrow> panmaster_node list" where
  "nodes_of es = map (the \<circ> fe_data) es"

lemma intact_simps [simp]:
  "intact []" "intact (e # es) \<longleftrightarrow> fe_data_len e = sizeof_node \<and> fe_data e \<noteq> None \<and> intact es"
  "intact (es @ es') \<longleftrightarrow> intact es \<and> intact es'"
  by (auto simp: intact_def)

lemma nodes_of_simps [simp]:
  "nodes_of [] = []" "nodes_of (e # es) = the (fe_data e) # nodes_of es" "nodes_of (es @ es') = nodes_of es @ nodes_of es'"
  by (simp_all add: nodes_of_def)

lemma load_loop_fold: "intact es \<Longrightarrow> load_loop cb es a = (0, fold cb (nodes_of es) a)"
  by (induction es arbitrary: a) (auto simp: fcb_load_cb_def)

lemma save_appends:
  assumes "fcb_ok cap lib" and "length (fcb_entries lib f) < cap"
  obtains f' a where "panm_fcb_save lib fw n f = Some (0, f')"
    and "fcb_entries lib f' = fcb_entries lib f @ [\<lparr>fe_area = a, fe_data_len = sizeof_node, fe_data = Some n\<rparr>]"
proof -
  from assms obtain f1 f2 a where w: "fcb_append lib sizeof_node f = (0, f1)" "flash_area_write lib n f1 = (0, f2)"
      "fcb_entries lib (fcb_append_finish lib f2) =
         fcb_entries lib f @ [\<lparr>fe_area = a, fe_data_len = sizeof_node, fe_data = Some n\<rparr>]"
      "FCB_ERR_NOSPACE lib \<noteq> 0"
    unfolding fcb_ok_def by blast
  have "append_tries lib fw 10 0 f = Some (0, f1)"
    using w by (simp add: eval_nat_numeral)
  then have "panm_fcb_save lib fw n f = Some (0, fcb_append_finish lib f2)"
    using w by (simp add: panm_fcb_save_def)
  then show ?thesis using that w by blast
qed

section \<open>Finding\<close>

lemma fold_last_match: "fold (\<lambda>n r. if P n then Some n else r) ns r =
    (case filter P ns of [] \<Rightarrow> r | m # ms \<Rightarrow> Some (last (m # ms)))"
  by (induction ns arbitrary: r) (auto split: list.splits)

text \<open>By its identifier, the node stored last is found.\<close>

lemma find_by_euid_last:
  assumes "intact (fcb_entries lib f)" and "eu \<noteq> 0"
  shows "panmaster_find_node_general lib (PANMASTER_NODE_DEFAULT\<lparr>pn_euid := eu\<rparr>) f =
    (case filter (\<lambda>n. pn_euid n = eu) (nodes_of (fcb_entries lib f)) of [] \<Rightarrow> None | m # ms \<Rightarrow> Some (last (m # ms)))"
proof -
  have "find_node_load_cb (PANMASTER_NODE_DEFAULT\<lparr>pn_euid := eu\<rparr>) = (\<lambda>n r. if pn_euid n = eu then Some n else r)"
    using assms(2) by (auto simp: find_node_load_cb_def PANMASTER_NODE_DEFAULT_def fun_eq_iff)
  then show ?thesis
    using assms(1) by (simp add: panmaster_find_node_general_def panmaster_load_def load_loop_fold fold_last_match)
qed

section \<open>Sorting\<close>

abbreviation live_nodes :: "panmaster_node list \<Rightarrow> panmaster_node list" where
  "live_nodes ns \<equiv> filter (\<lambda>n. pn_addr n \<noteq> 0xffff) ns"

lemma live_less: "pn_addr n \<noteq> 0xffff \<Longrightarrow> uint (pn_addr n) < 65535"
proof -
  assume "pn_addr n \<noteq> 0xffff"
  then have "uint (pn_addr n) \<noteq> uint (0xffff :: u16)" by (simp only: word_uint_eq_iff not_False_eq_True)
  moreover have "uint (pn_addr n) < 2 ^ LENGTH(16)" by (rule unsigned_less)
  ultimately show ?thesis by simp
qed

text \<open>The search returns what it had, or the first node of the least address below that.\<close>

lemma lowest_loop_cases:
  "(\<forall>n \<in> set (live_nodes ns). lo \<le> uint (pn_addr n)) \<and> lowest_loop ns i (lo, p) = (lo, p) \<or>
   (\<exists>xs n ys. ns = xs @ n # ys \<and> pn_addr n \<noteq> 0xffff \<and> uint (pn_addr n) < lo \<and>
      lowest_loop ns i (lo, p) = (uint (pn_addr n), i + length xs) \<and>
      (\<forall>m \<in> set (live_nodes xs). uint (pn_addr n) < uint (pn_addr m)) \<and>
      (\<forall>m \<in> set (live_nodes ys). uint (pn_addr n) \<le> uint (pn_addr m)))"
proof (induction ns arbitrary: lo p i)
  case Nil
  then show ?case by simp
next
  case (Cons n ns)
  show ?case
  proof (cases "pn_addr n \<noteq> 0xffff \<and> uint (pn_addr n) < lo")
    case True
    then have step: "lowest_loop (n # ns) i (lo, p) = lowest_loop ns (Suc i) (uint (pn_addr n), i)" by simp
    from Cons[of "uint (pn_addr n)" "Suc i" i] show ?thesis
    proof
      assume "(\<forall>m \<in> set (live_nodes ns). uint (pn_addr n) \<le> uint (pn_addr m)) \<and>
        lowest_loop ns (Suc i) (uint (pn_addr n), i) = (uint (pn_addr n), i)"
      then show ?thesis using True step
        by (intro disjI2 exI[of _ "[]"] exI[of _ n] exI[of _ ns]) simp
    next
      assume "\<exists>xs m ys. ns = xs @ m # ys \<and> pn_addr m \<noteq> 0xffff \<and> uint (pn_addr m) < uint (pn_addr n) \<and>
        lowest_loop ns (Suc i) (uint (pn_addr n), i) = (uint (pn_addr m), Suc i + length xs) \<and>
        (\<forall>l \<in> set (live_nodes xs). uint (pn_addr m) < uint (pn_addr l)) \<and>
        (\<forall>l \<in> set (live_nodes ys). uint (pn_addr m) \<le> uint (pn_addr l))"
      then obtain xs m ys where "ns = xs @ m # ys" "pn_addr m \<noteq> 0xffff" "uint (pn_addr m) < uint (pn_addr n)"
        "lowest_loop ns (Suc i) (uint (pn_addr n), i) = (uint (pn_addr m), Suc i + length xs)"
        "\<forall>l \<in> set (live_nodes xs). uint (pn_addr m) < uint (pn_addr l)"
        "\<forall>l \<in> set (live_nodes ys). uint (pn_addr m) \<le> uint (pn_addr l)" by blast
      then show ?thesis using True step
        by (intro disjI2 exI[of _ "n # xs"] exI[of _ m] exI[of _ ys]) auto
    qed
  next
    case False
    then have step: "lowest_loop (n # ns) i (lo, p) = lowest_loop ns (Suc i) (lo, p)" by auto
    from Cons[of lo "Suc i" p] show ?thesis
    proof
      assume "(\<forall>m \<in> set (live_nodes ns). lo \<le> uint (pn_addr m)) \<and> lowest_loop ns (Suc i) (lo, p) = (lo, p)"
      then show ?thesis using False step by (intro disjI1) auto
    next
      assume "\<exists>xs m ys. ns = xs @ m # ys \<and> pn_addr m \<noteq> 0xffff \<and> uint (pn_addr m) < lo \<and>
        lowest_loop ns (Suc i) (lo, p) = (uint (pn_addr m), Suc i + length xs) \<and>
        (\<forall>l \<in> set (live_nodes xs). uint (pn_addr m) < uint (pn_addr l)) \<and>
        (\<forall>l \<in> set (live_nodes ys). uint (pn_addr m) \<le> uint (pn_addr l))"
      then obtain xs m ys where "ns = xs @ m # ys" "pn_addr m \<noteq> 0xffff" "uint (pn_addr m) < lo"
        "lowest_loop ns (Suc i) (lo, p) = (uint (pn_addr m), Suc i + length xs)"
        "\<forall>l \<in> set (live_nodes xs). uint (pn_addr m) < uint (pn_addr l)"
        "\<forall>l \<in> set (live_nodes ys). uint (pn_addr m) \<le> uint (pn_addr l)" by blast
      then show ?thesis using False step
        by (intro disjI2 exI[of _ "n # xs"] exI[of _ m] exI[of _ ys]) auto
    qed
  qed
qed

lemma sort_key_first_least:
  assumes "\<forall>m \<in> set xs. k n < (k m :: int)" and "\<forall>m \<in> set ys. k n \<le> k m"
  shows "sort_key k (xs @ n # ys) = n # sort_key k (xs @ ys)"
proof (rule properties_for_sort_key)
  show "mset (n # sort_key k (xs @ ys)) = mset (xs @ n # ys)" by simp
  show "sorted (map k (n # sort_key k (xs @ ys)))" using assms by (auto simp: less_imp_le)
  show "filter (\<lambda>x. k m = k x) (n # sort_key k (xs @ ys)) = filter (\<lambda>x. k m = k x) (xs @ n # ys)"
    if "m \<in> set (n # sort_key k (xs @ ys))" for m
  proof -
    have st: "filter (\<lambda>x. k m = k x) (sort_key k zs) = filter (\<lambda>x. k m = k x) zs" for zs
      using sort_key_stable[of k "k m" zs] by (simp add: eq_commute[of "k m"])
    show ?thesis
    proof (cases "k m = k n")
      case True
      then have "filter (\<lambda>x. k m = k x) xs = []" using assms(1) by (auto simp: filter_empty_conv)
      then show ?thesis using True st[of "xs @ ys"] by simp
    next
      case False
      then show ?thesis by (simp add: st)
    qed
  qed
qed

primrec renumbered :: "nat \<Rightarrow> panmaster_node list \<Rightarrow> panmaster_node list" where
  "renumbered i [] = []"
| "renumbered i (n # ns) = n\<lparr>pn_index := of_nat i\<rparr> # renumbered (Suc i) ns"

lemma sort_loop_sorts:
  assumes "fcb_ok cap lib" and "intact (fcb_entries lib f)"
    and "length (live_nodes nodes) \<le> k" and "length (fcb_entries lib f) + k \<le> cap"
  shows "\<exists>f'. sort_loop lib fw k i nodes f = Some f' \<and> intact (fcb_entries lib f') \<and>
    nodes_of (fcb_entries lib f') =
      nodes_of (fcb_entries lib f) @ renumbered i (sort_key (\<lambda>n. uint (pn_addr n)) (live_nodes nodes))"
  using assms(2-)
proof (induction k arbitrary: i nodes f)
  case 0
  then show ?case by simp
next
  case (Suc k)
  from lowest_loop_cases[of nodes 65535 0 0] show ?case
  proof
    assume none: "(\<forall>n \<in> set (live_nodes nodes). 65535 \<le> uint (pn_addr n)) \<and> lowest_loop nodes 0 (65535, 0) = (65535, 0)"
    then have "live_nodes nodes = []" using live_less by (fastforce simp: filter_empty_conv)
    then show ?thesis using none Suc.prems by simp
  next
    assume "\<exists>xs n ys. nodes = xs @ n # ys \<and> pn_addr n \<noteq> 0xffff \<and> uint (pn_addr n) < 65535 \<and>
      lowest_loop nodes 0 (65535, 0) = (uint (pn_addr n), 0 + length xs) \<and>
      (\<forall>m \<in> set (live_nodes xs). uint (pn_addr n) < uint (pn_addr m)) \<and>
      (\<forall>m \<in> set (live_nodes ys). uint (pn_addr n) \<le> uint (pn_addr m))"
    then obtain xs n ys where sp: "nodes = xs @ n # ys" "pn_addr n \<noteq> 0xffff" "uint (pn_addr n) < 65535"
      "lowest_loop nodes 0 (65535, 0) = (uint (pn_addr n), length xs)"
      "\<forall>m \<in> set (live_nodes xs). uint (pn_addr n) < uint (pn_addr m)"
      "\<forall>m \<in> set (live_nodes ys). uint (pn_addr n) \<le> uint (pn_addr m)" by auto
    let ?n = "n\<lparr>pn_index := of_nat i\<rparr>"
    let ?rest = "xs @ ?n\<lparr>pn_addr := 0xffff\<rparr> # ys"
    have room: "length (fcb_entries lib f) < cap" using Suc.prems by simp
    obtain f1 a where f1: "panm_fcb_save lib fw ?n f = Some (0, f1)"
      "fcb_entries lib f1 = fcb_entries lib f @ [\<lparr>fe_area = a, fe_data_len = sizeof_node, fe_data = Some ?n\<rparr>]"
      by (rule save_appends[OF assms(1) room])
    have live: "live_nodes ?rest = live_nodes xs @ live_nodes ys" by simp
    have "length (live_nodes ?rest) \<le> k" using Suc.prems(2) sp(1,2) by simp
    then obtain f' where f': "sort_loop lib fw k (Suc i) ?rest f1 = Some f'" "intact (fcb_entries lib f')"
      "nodes_of (fcb_entries lib f') =
         nodes_of (fcb_entries lib f1) @ renumbered (Suc i) (sort_key (\<lambda>n. uint (pn_addr n)) (live_nodes ?rest))"
      using Suc.IH[of f1 ?rest "Suc i"] Suc.prems f1 by auto
    have sorted: "sort_key (\<lambda>n. uint (pn_addr n)) (live_nodes nodes) =
        n # sort_key (\<lambda>n. uint (pn_addr n)) (live_nodes xs @ live_nodes ys)"
      using sort_key_first_least[of "live_nodes xs" "\<lambda>n. uint (pn_addr n)" n "live_nodes ys"] sp by simp
    have "sort_loop lib fw (Suc k) i nodes f = Some f'"
      using sp f1(1) f'(1) by (simp add: Let_def)
    then show ?thesis using f' f1(2) sorted live by simp
  qed
qed

lemma panm_fcb_sort_sorted:
  assumes "fcb_ok cap lib" and "intact (fcb_entries lib f)" and "maxnum \<le> cap"
  shows "\<exists>f'. panm_fcb_sort lib fw maxnum True f = Some f' \<and> intact (fcb_entries lib f') \<and>
    nodes_of (fcb_entries lib f') = renumbered 0 (sort_key (\<lambda>n. uint (pn_addr n))
      (live_nodes (fold sort_nodes_load_cb (nodes_of (fcb_entries lib f)) (replicate maxnum erased_node))))"
proof -
  let ?nodes = "fold sort_nodes_load_cb (nodes_of (fcb_entries lib f)) (replicate maxnum erased_node)"
  have len: "length (fold sort_nodes_load_cb ns t) = length t" for ns t
    by (induction ns arbitrary: t) (simp_all add: sort_nodes_load_cb_def)
  have empty: "fcb_entries lib (snd (fcb_clear lib f)) = []" using assms(1) by (simp add: fcb_ok_def)
  have "length (live_nodes ?nodes) \<le> maxnum" by (rule order_trans[OF length_filter_le]) (simp add: len)
  from sort_loop_sorts[OF assms(1) _ this, of "snd (fcb_clear lib f)" fw 0] empty assms(3)
  show ?thesis by (simp add: panm_fcb_sort_def panmaster_load_def load_loop_fold[OF assms(2)] Let_def)
qed

text \<open>Collecting by index keeps the node stored last under each index.\<close>

lemma collected_nth:
  "i < length t \<Longrightarrow> fold sort_nodes_load_cb ns t ! i =
     (case filter (\<lambda>n. unat (pn_index n) = i) ns of [] \<Rightarrow> t ! i | m # ms \<Rightarrow> last (m # ms))"
proof (induction ns rule: rev_induct)
  case Nil
  then show ?case by simp
next
  case (snoc n ns)
  have len: "length (fold sort_nodes_load_cb ns t) = length t"
    by (induction ns arbitrary: t) (simp_all add: sort_nodes_load_cb_def)
  let ?c = "fold sort_nodes_load_cb ns t"
  have step: "fold sort_nodes_load_cb (ns @ [n]) t = (if unat (pn_index n) < length t then ?c[unat (pn_index n) := n] else ?c)"
    using len by (simp add: sort_nodes_load_cb_def[of n])
  show ?case unfolding step using snoc len by (auto simp: nth_list_update split: list.splits)
qed

section \<open>Compression\<close>

text \<open>
  The buffer while it is compressed: adding the scratch sector changes no entry and gives
  room for as many nodes as the oldest sector holds; a node copied goes to another sector
  than the oldest; rotating drops the entries of the oldest sector. \<open>room\<close> counts the nodes
  that fit.
\<close>

definition fcb_sectors_ok :: "('f \<Rightarrow> nat) \<Rightarrow> 'f fcb_lib \<Rightarrow> bool" where
  "fcb_sectors_ok room lib =
     ((\<forall>f g. fcb_append_to_scratch lib f = (0, g) \<longrightarrow>
         fcb_entries lib g = fcb_entries lib f \<and> f_oldest lib g = f_oldest lib f \<and>
         length (filter (\<lambda>e. fe_area e = f_oldest lib f) (fcb_entries lib f)) \<le> room g) \<and>
      (\<forall>f n. 0 < room f \<longrightarrow>
         (\<exists>f1 f2 a. fcb_append lib sizeof_node f = (0, f1) \<and> flash_area_write lib n f1 = (0, f2) \<and>
            fcb_entries lib (fcb_append_finish lib f2) =
              fcb_entries lib f @ [\<lparr>fe_area = a, fe_data_len = sizeof_node, fe_data = Some n\<rparr>] \<and>
            a \<noteq> f_oldest lib f \<and> f_oldest lib (fcb_append_finish lib f2) = f_oldest lib f \<and>
            room f = Suc (room (fcb_append_finish lib f2)))) \<and>
      (\<forall>f. fcb_entries lib (fcb_rotate lib f) = filter (\<lambda>e. fe_area e \<noteq> f_oldest lib f) (fcb_entries lib f)))"

text \<open>The nodes of the oldest sector that are copied: the first of each that is not kept elsewhere.\<close>

primrec copied :: "u64 set \<Rightarrow> panmaster_node list \<Rightarrow> panmaster_node list" where
  "copied seen [] = []"
| "copied seen (n # ns) = (if pn_euid n \<in> seen then copied seen ns else n # copied (insert (pn_euid n) seen) ns)"

lemma copied_first:
  "filter (\<lambda>n. pn_euid n = eu) (copied seen ns) =
     (if eu \<in> seen then [] else case filter (\<lambda>n. pn_euid n = eu) ns of [] \<Rightarrow> [] | m # ms \<Rightarrow> [m])"
  by (induction ns arbitrary: seen) (auto split: list.splits)

lemma kept_elsewhere_iff:
  assumes "intact es"
  shows "kept_elsewhere oldest n es \<longleftrightarrow> pn_euid n \<in> pn_euid ` set (nodes_of (filter (\<lambda>e. fe_area e \<noteq> oldest) es))"
  using assms by (induction es) (auto simp: kept_elsewhere_def)

lemma compress_loop_copies:
  assumes law: "fcb_sectors_ok room lib"
    and "fcb_entries lib g = old @ new" and "\<forall>e \<in> set old. fe_area e = f_oldest lib g" and "\<forall>e \<in> set new. fe_area e \<noteq> f_oldest lib g"
    and "intact (old @ new)" and "i \<le> length old" and "length old - i \<le> room g"
  shows "\<exists>h more. compress_loop lib fw i g = Some h \<and> f_oldest lib h = f_oldest lib g \<and>
    fcb_entries lib h = old @ new @ more \<and> intact more \<and> (\<forall>e \<in> set more. fe_area e \<noteq> f_oldest lib g) \<and>
    nodes_of more = copied (pn_euid ` set (nodes_of new)) (drop i (nodes_of old))"
  using assms(2-)
proof (induction "length old - i" arbitrary: i g new fw)
  case 0
  then have stop: "i \<ge> length (fcb_entries lib g) \<or> fe_area (fcb_entries lib g ! i) \<noteq> f_oldest lib g"
    by (auto simp: nth_append)
  have "drop i (nodes_of old) = []" using 0 by (simp add: nodes_of_def)
  then show ?case using stop 0 by (intro exI[of _ g] exI[of _ "[]"]) (subst compress_loop.simps, auto simp: Let_def)
next
  case (Suc d)
  then have i: "i < length old" by simp
  let ?seen = "pn_euid ` set (nodes_of new)"
  have e: "old ! i \<in> set old" using i by simp
  then have "fe_data_len (old ! i) = sizeof_node" "fe_data (old ! i) \<noteq> None" "fe_area (old ! i) = f_oldest lib g"
    using Suc.prems(2,4) unfolding intact_def set_append by blast+
  then obtain n where full: "fe_data_len (old ! i) = sizeof_node" "fe_data (old ! i) = Some n" "fe_area (old ! i) = f_oldest lib g"
    by blast
  have at: "fcb_entries lib g ! i = old ! i" and len: "i < length (fcb_entries lib g)"
    using i Suc.prems(1) by (simp_all add: nth_append)
  have "drop (Suc i) (fcb_entries lib g) = drop (Suc i) old @ new" using i Suc.prems(1) by simp
  moreover have "intact (drop (Suc i) old @ new)" using Suc.prems(4) by (auto simp: intact_def dest: in_set_dropD)
  moreover have "filter (\<lambda>e. fe_area e \<noteq> f_oldest lib g) (drop (Suc i) old @ new) = new"
    using Suc.prems(2,3) by (auto simp: filter_empty_conv dest: in_set_dropD)
  ultimately have kept: "kept_elsewhere (f_oldest lib g) n (drop (Suc i) (fcb_entries lib g)) \<longleftrightarrow> pn_euid n \<in> ?seen"
    by (simp add: kept_elsewhere_iff)
  have drop: "drop i (nodes_of old) = n # drop (Suc i) (nodes_of old)"
    using i full(2) by (simp add: nodes_of_def Cons_nth_drop_Suc[symmetric])
  have d: "d = length old - Suc i" "Suc i \<le> length old" using Suc.hyps(2) i by auto
  show ?case
  proof (cases "pn_euid n \<in> ?seen")
    case True
    then have "compress_loop lib fw i g = compress_loop lib (pn_fw_ver n) (Suc i) g"
      using at len full kept by (subst compress_loop.simps) (simp add: Let_def)
    moreover obtain h more where "compress_loop lib (pn_fw_ver n) (Suc i) g = Some h" "f_oldest lib h = f_oldest lib g"
      "fcb_entries lib h = old @ new @ more" "intact more" "\<forall>e \<in> set more. fe_area e \<noteq> f_oldest lib g"
      "nodes_of more = copied ?seen (drop (Suc i) (nodes_of old))"
    proof -
      have "length old - Suc i \<le> room g" using Suc.prems(6) by simp
      from Suc.hyps(1)[OF d(1) Suc.prems(1-4) d(2) this, of "pn_fw_ver n"] show ?thesis using that by blast
    qed
    ultimately show ?thesis using True drop by (intro exI[of _ h] exI[of _ more]) simp
  next
    case False
    have "0 < room g" using Suc.prems(6) i by simp
    then obtain f1 f2 a where w: "fcb_append lib sizeof_node g = (0, f1)" "flash_area_write lib n f1 = (0, f2)"
      "fcb_entries lib (fcb_append_finish lib f2) = fcb_entries lib g @ [\<lparr>fe_area = a, fe_data_len = sizeof_node, fe_data = Some n\<rparr>]"
      "a \<noteq> f_oldest lib g" "f_oldest lib (fcb_append_finish lib f2) = f_oldest lib g" "room g = Suc (room (fcb_append_finish lib f2))"
      using law unfolding fcb_sectors_ok_def by blast
    let ?g = "fcb_append_finish lib f2" and ?e = "\<lparr>fe_area = a, fe_data_len = sizeof_node, fe_data = Some n\<rparr>"
    have "compress_loop lib fw i g = compress_loop lib (pn_fw_ver n) (Suc i) ?g"
      using at len full kept False w(1,2) by (subst compress_loop.simps) (simp add: Let_def copy_node_def)
    moreover obtain h more where h: "compress_loop lib (pn_fw_ver n) (Suc i) ?g = Some h" "f_oldest lib h = f_oldest lib ?g"
      "fcb_entries lib h = old @ (new @ [?e]) @ more" "intact more" "\<forall>e \<in> set more. fe_area e \<noteq> f_oldest lib ?g"
      "nodes_of more = copied (pn_euid ` set (nodes_of (new @ [?e]))) (drop (Suc i) (nodes_of old))"
    proof -
      have "\<exists>h more. compress_loop lib (pn_fw_ver n) (Suc i) ?g = Some h \<and> f_oldest lib h = f_oldest lib ?g \<and>
        fcb_entries lib h = old @ (new @ [?e]) @ more \<and> intact more \<and> (\<forall>e \<in> set more. fe_area e \<noteq> f_oldest lib ?g) \<and>
        nodes_of more = copied (pn_euid ` set (nodes_of (new @ [?e]))) (drop (Suc i) (nodes_of old))"
        using Suc.prems w d by (intro Suc.hyps(1)) auto
      then show ?thesis using that by blast
    qed
    ultimately show ?thesis
      using False drop w by (intro exI[of _ h] exI[of _ "?e # more"]) simp
  qed
qed

text \<open>What is stored after compression.\<close>

lemma compress_result:
  assumes "fcb_sectors_ok room lib" and "fcb_append_to_scratch lib f = (0, g)" and "fcb_entries lib f = old @ new"
    and "\<forall>e \<in> set old. fe_area e = f_oldest lib f" and "\<forall>e \<in> set new. fe_area e \<noteq> f_oldest lib f" and "intact (old @ new)"
  shows "\<exists>h. panm_fcb_compress lib fw f = Some h \<and> intact (fcb_entries lib h) \<and>
    nodes_of (fcb_entries lib h) = nodes_of new @ copied (pn_euid ` set (nodes_of new)) (nodes_of old)"
proof -
  have g: "fcb_entries lib g = old @ new" "f_oldest lib g = f_oldest lib f" "length old \<le> room g"
  proof -
    have l: "fcb_entries lib g = fcb_entries lib f \<and> f_oldest lib g = f_oldest lib f \<and>
        length (filter (\<lambda>e. fe_area e = f_oldest lib f) (fcb_entries lib f)) \<le> room g"
      using assms(1,2) unfolding fcb_sectors_ok_def by blast
    moreover have "length old \<le> length (filter (\<lambda>e. fe_area e = f_oldest lib f) (fcb_entries lib f))"
      using assms(3,4) by (simp add: filter_True)
    ultimately show "fcb_entries lib g = old @ new" "f_oldest lib g = f_oldest lib f" "length old \<le> room g"
      using assms(3) by auto
  qed
  obtain h more where h: "compress_loop lib fw 0 g = Some h" "f_oldest lib h = f_oldest lib g"
    "fcb_entries lib h = old @ new @ more" "intact more" "\<forall>e \<in> set more. fe_area e \<noteq> f_oldest lib g"
    "nodes_of more = copied (pn_euid ` set (nodes_of new)) (drop 0 (nodes_of old))"
    using compress_loop_copies[OF assms(1) g(1), of 0 fw] assms(4-6) g by auto
  have "fcb_entries lib (fcb_rotate lib h) = filter (\<lambda>e. fe_area e \<noteq> f_oldest lib f) (old @ new @ more)"
  proof -
    have "fcb_entries lib (fcb_rotate lib h) = filter (\<lambda>e. fe_area e \<noteq> f_oldest lib h) (fcb_entries lib h)"
      using assms(1) unfolding fcb_sectors_ok_def by blast
    then show ?thesis using h(2,3) g(2) by simp
  qed
  also have "\<dots> = new @ more" using assms(4,5) h(5) g(2) by (simp add: filter_empty_conv)
  finally show ?thesis using assms(2,6) h by (intro exI[of _ "fcb_rotate lib h"]) (simp add: panm_fcb_compress_def)
qed

end
