(* ===== verification/Panmaster_Runs.thy ===== *)
theory Panmaster_Runs
  imports Panmaster_Facts
begin

text \<open>
  The master over time: requests from the radio's interrupt and the background task that
  saves the nodes they leave behind, in any order; requests also come in while a node is
  being written.
\<close>

unbundle bit_operations_syntax

section \<open>Runs\<close>

text \<open>A request: whether the mutex is held, the two readings of the uptime, the time of day, the node and its message.\<close>

record pan_request =
  q_locked :: bool
  q_now :: int
  q_now2 :: int
  q_utc :: u64
  q_euid :: u64
  q_req :: pan_req_resp

definition serve_one :: "u16 \<Rightarrow> pan_request \<Rightarrow> 'f pan_state \<Rightarrow> bool \<times> pan_req_resp \<times> 'f pan_state" where
  "serve_one dl q s = panrequest_cb dl True (q_locked q) (q_now q) (q_now2 q) (q_utc q) (q_euid q) (q_req q) (q_req q) s"

definition serve :: "u16 \<Rightarrow> pan_request list \<Rightarrow> 'f pan_state \<Rightarrow> 'f pan_state" where
  "serve dl qs s = fold (\<lambda>q s. snd (snd (serve_one dl q s))) qs s"

text \<open>The background task saves all places; \<open>qs i\<close> are the requests that come in while place \<open>i\<close> is written.\<close>

datatype master_event = Request pan_request | Saving pan_image_version "nat \<Rightarrow> pan_request list"

fun event_requests :: "nat \<Rightarrow> master_event \<Rightarrow> pan_request list" where
  "event_requests places (Request q) = [q]"
| "event_requests places (Saving fw qs) = concat (map qs [0..<places])"

fun run_event :: "'f fcb_lib \<Rightarrow> u16 \<Rightarrow> master_event \<Rightarrow> 'f pan_state \<Rightarrow> 'f pan_state option" where
  "run_event lib dl (Request q) s = Some (snd (snd (serve_one dl q s)))"
| "run_event lib dl (Saving fw qs) s = panmaster_postprocess lib fw (\<lambda>i. serve dl (qs i)) s"

fun run_events :: "'f fcb_lib \<Rightarrow> u16 \<Rightarrow> master_event list \<Rightarrow> 'f pan_state \<Rightarrow> 'f pan_state option" where
  "run_events lib dl [] s = Some s"
| "run_events lib dl (ev # evs) s =
     (case run_event lib dl ev s of None \<Rightarrow> None | Some s \<Rightarrow> run_events lib dl evs s)"

section \<open>Addresses are never taken back\<close>

definition grown :: "panmaster_node_idx list \<Rightarrow> panmaster_node_idx list \<Rightarrow> bool" where
  "grown t t' \<longleftrightarrow> length t' = length t \<and>
     (\<forall>i < length t. ni_addr (t ! i) \<noteq> 0xffff \<longrightarrow> ni_addr (t' ! i) = ni_addr (t ! i))"

lemma grown_refl: "grown t t"
  by (simp add: grown_def)

lemma grown_trans: "grown t u \<Longrightarrow> grown u v \<Longrightarrow> grown t v"
  by (simp add: grown_def)

text \<open>A table with an address for every node and with room, as seen from a later one.\<close>

definition roomy :: "panmaster_node_idx list \<Rightarrow> bool" where
  "roomy t \<longleftrightarrow> (\<forall>e \<in> set t. ni_addr e \<noteq> 0) \<and> (\<exists>e \<in> set t. ni_addr e = 0xffff)"

lemma roomy_before:
  assumes "grown t t'" and "roomy t'"
  shows "roomy t"
proof -
  have len: "length t' = length t" and keep: "\<And>i. i < length t \<Longrightarrow> ni_addr (t ! i) \<noteq> 0xffff \<Longrightarrow> ni_addr (t' ! i) = ni_addr (t ! i)"
    using assms(1) by (auto simp: grown_def)
  have "ni_addr (t ! i) \<noteq> 0" if "i < length t" for i
  proof (cases "ni_addr (t ! i) = 0xffff")
    case False
    then have "ni_addr (t' ! i) = ni_addr (t ! i)" using keep that by blast
    then show ?thesis using assms(2) that len by (metis nth_mem roomy_def)
  qed simp
  moreover obtain i where "i < length t" "ni_addr (t' ! i) = 0xffff"
    using assms(2) len by (metis in_set_conv_nth roomy_def)
  then have "ni_addr (t ! i) = 0xffff" using keep by force
  ultimately show ?thesis unfolding roomy_def using \<open>i < length t\<close> by (metis in_set_conv_nth)
qed

lemma serve_one_grown:
  assumes "length (node_idx s) \<le> 256" and "serve_one dl q s = (ok, r, s')"
  shows "grown (node_idx s) (node_idx s')"
  using panrequest_entry[OF assms(1) assms(2)[unfolded serve_one_def]]
  by (auto simp: grown_def nth_list_update)

lemma serve_grown:
  assumes "length (node_idx s) \<le> 256"
  shows "grown (node_idx s) (node_idx (serve dl qs s))"
  using assms
proof (induction qs arbitrary: s)
  case Nil
  then show ?case by (simp add: serve_def grown_refl)
next
  case (Cons q qs)
  obtain ok r s1 where one: "serve_one dl q s = (ok, r, s1)" by (metis surj_pair)
  note g = serve_one_grown[OF Cons.prems one]
  then have "length (node_idx s1) \<le> 256" using Cons.prems by (simp add: grown_def)
  from grown_trans[OF g Cons.IH[OF this]] show ?case using one by (simp add: serve_def)
qed

text \<open>Saving writes the role and the permanence of the slot of one entry.\<close>

lemma update_node_effect:
  assumes "panmaster_update_node lib fw eu n s = Some s'"
  shows "nodes_to_save s' = nodes_to_save s"
    and "node_idx s' = node_idx s \<or> (unat (pn_index n) < length (node_idx s) \<and>
      node_idx s' = (node_idx s)[unat (pn_index n) := (node_idx s ! unat (pn_index n))\<lparr>ni_role := ucast (pn_role n), ni_has_perm_slot := pn_has_perm_slot n\<rparr>])"
proof -
  have save: "nodes_to_save s' = nodes_to_save s \<and> unat (pn_index n) < length (node_idx s) \<and>
      node_idx s' = (node_idx s)[unat (pn_index n) := (node_idx s ! unat (pn_index n))\<lparr>ni_role := ucast (pn_role n), ni_has_perm_slot := pn_has_perm_slot n\<rparr>]"
    if "panmaster_save_node lib fw n s = Some s'" for s'
    using that by (auto simp: panmaster_save_node_def Let_def split: if_splits)
  from assms have "s' = s \<or> panmaster_save_node lib fw n s = Some s'"
    by (auto simp: panmaster_update_node_def Let_def split: if_splits)
  then show "nodes_to_save s' = nodes_to_save s"
    and "node_idx s' = node_idx s \<or> (unat (pn_index n) < length (node_idx s) \<and>
      node_idx s' = (node_idx s)[unat (pn_index n) := (node_idx s ! unat (pn_index n))\<lparr>ni_role := ucast (pn_role n), ni_has_perm_slot := pn_has_perm_slot n\<rparr>])"
    using save by auto
qed

lemma update_node_grown:
  assumes "panmaster_update_node lib fw eu n s = Some s'"
  shows "grown (node_idx s) (node_idx s')"
  using update_node_effect(2)[OF assms] by (auto simp: grown_def nth_list_update)

lemma postprocess_loop_grown:
  assumes "length (node_idx s) \<le> 256" and "postprocess_loop lib fw (\<lambda>i. serve dl (qs i)) n i s = Some s'"
  shows "grown (node_idx s) (node_idx s')"
  using assms
proof (induction n arbitrary: i s)
  case (Suc n)
  show ?case
  proof (cases "pn_euid (nodes_to_save s ! i) = 0")
    case False
    let ?s1 = "serve dl (qs i) s"
    obtain s2 where s2: "panmaster_update_node lib fw (pn_euid (nodes_to_save s ! i)) (nodes_to_save s ! i) ?s1 = Some s2"
      "postprocess_loop lib fw (\<lambda>i. serve dl (qs i)) n (Suc i) (on_saved i (\<lambda>_. zero_node) s2) = Some s'"
      using Suc.prems(2) False by (auto simp: Let_def split: option.splits)
    note g1 = serve_grown[OF Suc.prems(1), of dl "qs i"]
    note g2 = grown_trans[OF g1 update_node_grown[OF s2(1)]]
    have "length (node_idx (on_saved i (\<lambda>_. zero_node) s2)) \<le> 256" using g2 Suc.prems(1) by (simp add: grown_def)
    from Suc.IH[OF this s2(2)] show ?thesis using g2 grown_trans by (metis on_saved_simps(1))
  qed (use Suc in \<open>auto simp: Let_def\<close>)
qed (auto simp: grown_refl)

lemma run_event_grown:
  assumes "length (node_idx s) \<le> 256" and "run_event lib dl ev s = Some s'"
  shows "grown (node_idx s) (node_idx s')"
proof (cases ev)
  case (Request q)
  obtain ok r s1 where "serve_one dl q s = (ok, r, s1)" by (metis surj_pair)
  then show ?thesis using Request assms serve_one_grown by fastforce
next
  case (Saving fw qs)
  then show ?thesis using assms postprocess_loop_grown by (auto simp: panmaster_postprocess_def)
qed

lemma run_events_grown:
  assumes "length (node_idx s) \<le> 256" and "run_events lib dl evs s = Some s'"
  shows "grown (node_idx s) (node_idx s')"
  using assms
proof (induction evs arbitrary: s)
  case (Cons ev evs)
  then obtain s1 where s1: "run_event lib dl ev s = Some s1" "run_events lib dl evs s1 = Some s'"
    by (auto split: option.splits)
  note g = run_event_grown[OF Cons.prems(1) s1(1)]
  then have "length (node_idx s1) \<le> 256" using Cons.prems(1) by (simp add: grown_def)
  from grown_trans[OF g Cons.IH[OF this s1(2)]] show ?case .
qed (simp add: grown_refl)

section \<open>The invariant\<close>

text \<open>
  A node waiting to be saved agrees with its entry: saving it changes neither the role nor
  whether the slot is permanent. A free entry has no permanent slot.
\<close>

definition place_ok :: "panmaster_node_idx list \<Rightarrow> panmaster_node \<Rightarrow> bool" where
  "place_ok t n \<longleftrightarrow> pn_euid n = 0 \<or> (unat (pn_index n) < length t \<and> ni_addr (t ! unat (pn_index n)) \<noteq> 0xffff \<and>
     ucast (pn_role n) = ni_role (t ! unat (pn_index n)) \<and> pn_has_perm_slot n = ni_has_perm_slot (t ! unat (pn_index n)))"

definition run_ok :: "(u64 \<Rightarrow> u16) \<Rightarrow> int \<Rightarrow> 'f pan_state \<Rightarrow> bool" where
  "run_ok rl now s \<longleftrightarrow> master_ok rl now s \<and> (\<forall>n \<in> set (nodes_to_save s). place_ok (node_idx s) n) \<and>
     (\<forall>e \<in> set (node_idx s). ni_addr e = 0xffff \<longrightarrow> \<not> ni_has_perm_slot e)"

definition request_ok :: "(u64 \<Rightarrow> u16) \<Rightarrow> pan_request \<Rightarrow> bool" where
  "request_ok rl q \<longleftrightarrow> rr_role (q_req q) = rl (q_euid q) \<and> rl (q_euid q) < 16 \<and> 0 \<le> q_now q \<and> q_now q < 2 ^ 31"

lemma role_4_bits:
  assumes "(x :: u16) < 16"
  shows "ucast (ucast x :: 4 word) = (ucast x :: u8)" "ucast (ucast (ucast x :: u8) :: 4 word) = (ucast x :: u8)"
    "ucast (ucast (ucast x :: u8) :: 4 word) = x"
proof -
  have b: "bit x n \<Longrightarrow> n < 4" for n
  proof (rule ccontr)
    assume "bit x n" "\<not> n < 4"
    moreover have "take_bit 4 x = x" using assms
      by (simp add: word_unat_eq_iff unsigned_take_bit_eq word_less_nat_alt take_bit_nat_eq_self)
    ultimately show False by (metis bit_take_bit_iff)
  qed
  show "ucast (ucast x :: 4 word) = (ucast x :: u8)" "ucast (ucast (ucast x :: u8) :: 4 word) = (ucast x :: u8)"
    "ucast (ucast (ucast x :: u8) :: 4 word) = x"
    by (rule bit_word_eqI, auto simp: bit_simps dest: b)+
qed

lemma run_ok_later: "run_ok rl t s \<Longrightarrow> 0 \<le> t \<Longrightarrow> t \<le> t' \<Longrightarrow> t' < 2 ^ 31 \<Longrightarrow> run_ok rl t' s"
  using slots_apart_later by (auto simp: run_ok_def master_ok_def)

text \<open>An entry that keeps its address, its role and a permanent slot keeps every place right.\<close>

lemma place_ok_update:
  assumes "place_ok t n" and "i < length t"
    and "ni_addr (t ! i) \<noteq> 0xffff \<Longrightarrow> ni_addr e = ni_addr (t ! i) \<and> ni_role e = ni_role (t ! i) \<and> ni_has_perm_slot e = ni_has_perm_slot (t ! i)"
  shows "place_ok (t[i := e]) n"
  using assms by (auto simp: place_ok_def nth_list_update)

text \<open>The place a request leaves behind.\<close>

lemma find_known_place:
  assumes "i < length (node_idx s)" and "length (node_idx s) \<le> 256" and "k < length (nodes_to_save s)"
  shows "nodes_to_save (find_known k i now rl s) = (nodes_to_save s)[k := nodes_to_save (find_known k i now rl s) ! k]"
    and "pn_has_perm_slot (nodes_to_save (find_known k i now rl s) ! k) = ni_has_perm_slot (node_idx s ! i)"
    and "pn_role (nodes_to_save (find_known k i now rl s) ! k) =
      (if ucast (ucast (ni_role (node_idx s ! i)) :: 4 word) \<noteq> rl \<and> rl > 0 then ucast rl else ucast (ni_role (node_idx s ! i)))"
  using assms by (simp_all add: find_known_def Let_def index_u8 on_saved_def)

lemma add_unknown_place:
  assumes "k < length (nodes_to_save s)"
  shows "nodes_to_save (add_unknown k i now utc eu rl s) = (nodes_to_save s)[k := nodes_to_save (add_unknown k i now utc eu rl s) ! k]"
    and "pn_has_perm_slot (nodes_to_save (add_unknown k i now utc eu rl s) ! k) = False"
    and "pn_role (nodes_to_save (add_unknown k i now utc eu rl s) ! k) = ucast rl"
  using assms by (simp_all add: add_unknown_def Let_def on_saved_def PANMASTER_NODE_DEFAULT_def)

lemma panrequest_places:
  assumes "panmaster_idx_find_node locked now utc eu (rr_role req) s = (rc, Some k, s1)" and "k < length (nodes_to_save s1)"
    and "panrequest_cb dl same locked now now2 utc eu req resp s = (ok, r, s')"
  shows "\<exists>v. nodes_to_save s' = (nodes_to_save s1)[k := (nodes_to_save s1 ! k)\<lparr>pn_fw_ver := v\<rparr>]"
  using assms by (auto simp: panrequest_cb_def Let_def on_saved_def)

lemma saved_update: "nodes_to_save (on_saved k g s) = (nodes_to_save s)[k := g (nodes_to_save s ! k)]"
  by (simp add: on_saved_def)

lemma place_of_entry:
  assumes "i < length t" and "i < 256" and "ni_addr (t ! i) \<noteq> 0xffff" and "pn_index n = of_nat i"
    and "ucast (pn_role n) = ni_role (t ! i)" and "pn_has_perm_slot n = ni_has_perm_slot (t ! i)"
  shows "place_ok t n"
  using assms by (simp add: place_ok_def index_u8)

lemma request_places:
  assumes ok: "run_ok rl now s" and req: "rr_role req = rl eu" "rl eu < 16"
    and run: "panrequest_cb dl same locked now now2 utc eu req resp s = (answered, r, s')"
    and room: "roomy (node_idx s')"
  shows "(\<forall>n \<in> set (nodes_to_save s'). place_ok (node_idx s') n) \<and>
    (\<forall>e \<in> set (node_idx s'). ni_addr e = 0xffff \<longrightarrow> \<not> ni_has_perm_slot e)"
proof (cases "find_first_empty_nodes_to_save locked eu s")
  case (Pair ko s1)
  have places: "\<And>n. n \<in> set (nodes_to_save s) \<Longrightarrow> place_ok (node_idx s) n" and small: "length (node_idx s) \<le> 256" "node_idx s \<noteq> []"
    and mok: "master_ok rl now s" and free: "\<forall>e \<in> set (node_idx s). ni_addr e = 0xffff \<longrightarrow> \<not> ni_has_perm_slot e"
    using ok by (auto simp: run_ok_def master_ok_def)
  note r4 = role_4_bits[OF req(2)]
  show ?thesis
  proof (cases ko)
    case None
    then have "s1 = s" using Pair find_first_empty_none by blast
    then show ?thesis using run Pair None places free by (auto simp: panrequest_cb_def panmaster_idx_find_node_def)
  next
    case (Some k)
    note ff = find_first_emptyD[OF Pair[unfolded Some]]
    have t1: "node_idx s1 = node_idx s" and k1: "k < length (nodes_to_save s1)" using ff by simp_all
    have old: "place_ok (node_idx s) m" if "m \<in> set ((nodes_to_save s1)[k := x])" "m \<noteq> x" for m x
      using that ff(2) set_update_subset_insert[of "nodes_to_save s" k x] places by (auto simp: saved_update)
    show ?thesis
    proof (cases "find_index (\<lambda>e. ni_addr e \<noteq> 0xffff \<and> eu = ni_euid e) (node_idx s)")
      case (Some i)
      note i = find_index_SomeD[OF this]
      note eff = find_known_effect[OF i(1)[folded t1] small(1)[folded t1] k1, of now "rl eu"]
      note pl = find_known_place[OF i(1)[folded t1] small(1)[folded t1] k1, of now "rl eu"]
      have found: "panmaster_idx_find_node locked now utc eu (rr_role req) s = (0, Some k, find_known k i now (rl eu) s1)"
        using Pair \<open>ko = Some k\<close> t1 Some req by (simp add: panmaster_idx_find_node_def)
      have i256: "i < 256" using i(1) small(1) by simp
      obtain L where tbl: "node_idx s' = (node_idx s)[i := (renewed now (rl eu) (node_idx s) i)\<lparr>ni_lease_ends := L\<rparr>]"
        using panrequest_answer(4)[OF found k1[folded eff(4)] eff(3) i256 run] eff(1) t1 i(1) by auto
      obtain v where sv: "nodes_to_save s' = (nodes_to_save s1)[k := (nodes_to_save (find_known k i now (rl eu) s1) ! k)\<lparr>pn_fw_ver := v\<rparr>]"
        using panrequest_places[OF found k1[folded eff(4)] run] pl(1) by (metis list_update_overwrite)
      let ?n = "(nodes_to_save (find_known k i now (rl eu) s1) ! k)\<lparr>pn_fw_ver := v\<rparr>"
      have role: "ni_role (node_idx s ! i) = ucast (rl eu)"
        using mok i by (metis (no_types, lifting) master_ok_def nth_mem)
      have "place_ok (node_idx s') n" if n: "n \<in> set (nodes_to_save s')" for n
      proof (cases "n = ?n")
        case True
        show ?thesis
          using True i i256 eff(3) pl(2,3) t1 role r4 tbl by (intro place_of_entry[of i]) auto
      next
        case False
        then show ?thesis using old n sv i(1) unfolding tbl by (intro place_ok_update) auto
      qed
      moreover have "\<not> ni_has_perm_slot e" if e: "e \<in> set (node_idx s')" "ni_addr e = 0xffff" for e
        using set_update_subset_insert[THEN subsetD, OF e(1)[unfolded tbl]] e(2) i free by auto
      ultimately show ?thesis by blast
    next
      case None
      obtain i where i: "find_index (\<lambda>e. ni_addr e = 0xffff) (node_idx s) = Some i"
      proof (cases "find_index (\<lambda>e. ni_addr e = 0xffff) (node_idx s)")
        case full: None
        then have "panmaster_idx_find_node locked now utc eu (rr_role req) s = (0, None, s1)"
          using Pair \<open>ko = Some k\<close> t1 None by (simp add: panmaster_idx_find_node_def)
        then have "node_idx s' = node_idx s" using run t1 by (auto simp: panrequest_cb_def)
        then show ?thesis using room find_index_NoneD[OF full] by (auto simp: roomy_def in_set_conv_nth)
      qed blast
      note ii = find_index_SomeD[OF i]
      define a where "a = first_free_short_addr (node_idx s) eu"
      define e1 where "e1 = (node_idx s ! i)\<lparr>ni_addr := a, ni_euid := eu, ni_role := ucast (rl eu)\<rparr>"
      note eff = add_unknown_effect[OF ii(1)[folded t1] small(1)[folded t1] k1, unfolded t1, OF a_def e1_def, where utc = utc and now = now]
      note pl = add_unknown_place[OF k1, of i now utc eu "rl eu"]
      have found: "panmaster_idx_find_node locked now utc eu (rr_role req) s = (0, Some k, add_unknown k i now utc eu (rl eu) s1)"
        using Pair \<open>ko = Some k\<close> t1 None i req by (simp add: panmaster_idx_find_node_def)
      have i256: "i < 256" using ii(1) small(1) by simp
      let ?slot = "first_free_slot_id ((node_idx s)[i := e1]) now a (rl eu)"
      obtain L where tbl: "node_idx s' = (node_idx s)[i := e1\<lparr>ni_slot_id := ?slot, ni_save_needed := True, ni_lease_ends := L\<rparr>]"
        using panrequest_answer(4)[OF found k1[folded eff(4)] eff(3) i256 run] eff(1) ii(1) by auto
      obtain v where sv: "nodes_to_save s' = (nodes_to_save s1)[k := (nodes_to_save (add_unknown k i now utc eu (rl eu) s1) ! k)\<lparr>pn_fw_ver := v\<rparr>]"
        using panrequest_places[OF found k1[folded eff(4)] run] pl(1) by (metis list_update_overwrite)
      let ?n = "(nodes_to_save (add_unknown k i now utc eu (rl eu) s1) ! k)\<lparr>pn_fw_ver := v\<rparr>"
      have new: "a \<noteq> 0xffff"
      proof -
        have "e1\<lparr>ni_slot_id := ?slot, ni_save_needed := True, ni_lease_ends := L\<rparr> \<in> set (node_idx s')"
          using tbl ii(1) by (simp add: set_update_memI)
        then have "a \<noteq> 0" using room by (auto simp: roomy_def e1_def)
        then have "\<not> addr_taken (node_idx s) a"
          using first_free_short_addr_free small(2) unfolding a_def by blast
        then show ?thesis using ii by (auto simp: addr_taken_def list_ex_iff)
      qed
      have "place_ok (node_idx s') n" if n: "n \<in> set (nodes_to_save s')" for n
      proof (cases "n = ?n")
        case True
        moreover have "\<not> ni_has_perm_slot (node_idx s ! i)" using free ii by simp
        ultimately show ?thesis
          using new ii i256 eff(3) pl(2,3) r4 tbl by (intro place_of_entry[of i]) (auto simp: e1_def)
      next
        case False
        then show ?thesis using old n sv ii unfolding tbl by (intro place_ok_update) auto
      qed
      moreover have "\<not> ni_has_perm_slot e" if e: "e \<in> set (node_idx s')" "ni_addr e = 0xffff" for e
        using set_update_subset_insert[THEN subsetD, OF e(1)[unfolded tbl]] e(2) new free by (auto simp: e1_def)
      ultimately show ?thesis by blast
    qed
  qed
qed

lemma serve_one_ok:
  assumes "run_ok rl t s" and "0 \<le> t" and "t \<le> q_now q" and "request_ok rl q"
    and "serve_one dl q s = (answered, r, s')" and "roomy (node_idx s')"
  shows "run_ok rl (q_now q) s'" and "answered \<Longrightarrow> \<exists>i. granted (q_now q) (q_euid q) r (node_idx s') i"
proof -
  have ok: "run_ok rl (q_now q) s" using assms(1-4) run_ok_later by (auto simp: request_ok_def)
  have rl: "rl (q_euid q) < 256" using assms(4) by (simp add: request_ok_def word_less_nat_alt)
  note run = assms(5)[unfolded serve_one_def]
  note m = panrequest_ok[where rl = rl, OF _ _ rl run] request_places[OF ok _ _ run assms(6)]
  show "run_ok rl (q_now q) s'" "answered \<Longrightarrow> \<exists>i. granted (q_now q) (q_euid q) r (node_idx s') i"
    using m ok assms(4,6) by (auto simp: run_ok_def request_ok_def roomy_def)
qed

lemma serve_ok:
  assumes "run_ok rl t s" and "0 \<le> t" and "sorted (t # map q_now qs)" and "\<forall>q \<in> set qs. request_ok rl q"
    and "roomy (node_idx (serve dl qs s))"
  shows "run_ok rl (last (t # map q_now qs)) (serve dl qs s)"
  using assms
proof (induction qs arbitrary: t s)
  case (Cons q qs)
  obtain ok r s1 where one: "serve_one dl q s = (ok, r, s1)" by (metis surj_pair)
  have s: "serve dl (q # qs) s = serve dl qs s1" using one by (simp add: serve_def)
  have small: "length (node_idx s) \<le> 256" using Cons.prems(1) by (simp add: run_ok_def master_ok_def)
  then have "length (node_idx s1) \<le> 256" using serve_one_grown[OF small one] by (simp add: grown_def)
  then have room: "roomy (node_idx s1)" using roomy_before[OF serve_grown] Cons.prems(5) s by auto
  have "run_ok rl (q_now q) s1" using serve_one_ok(1)[OF Cons.prems(1,2) _ _ one room] Cons.prems(3,4) by simp
  from Cons.IH[OF this] show ?case using Cons.prems s by (simp add: request_ok_def)
qed (simp add: serve_def)

section \<open>Runs keep the invariant\<close>

lemma update_node_idle:
  assumes "place_ok (node_idx s) n" and "pn_euid n \<noteq> 0" and "panmaster_update_node lib fw eu n s = Some s'"
  shows "node_idx s' = node_idx s"
  using update_node_effect(2)[OF assms(3)]
proof
  let ?i = "unat (pn_index n)"
  assume "?i < length (node_idx s) \<and> node_idx s' = (node_idx s)[?i := (node_idx s ! ?i)\<lparr>ni_role := ucast (pn_role n), ni_has_perm_slot := pn_has_perm_slot n\<rparr>]"
  moreover have "(node_idx s ! ?i)\<lparr>ni_role := ucast (pn_role n), ni_has_perm_slot := pn_has_perm_slot n\<rparr> = node_idx s ! ?i"
    using assms(1,2) by (simp add: place_ok_def)
  ultimately show ?thesis by simp
qed

lemma saved_length [simp]:
  "length (nodes_to_save (find_known k i now rl s)) = length (nodes_to_save s)"
  "length (nodes_to_save (add_unknown k i now utc eu rl s)) = length (nodes_to_save s)"
  by (simp_all add: find_known_def add_unknown_def Let_def)

lemma serve_one_places [simp]: "length (nodes_to_save (snd (snd (serve_one dl q s)))) = length (nodes_to_save s)"
proof -
  have "length (nodes_to_save (snd (find_first_empty_nodes_to_save locked eu s))) = length (nodes_to_save s)" for locked eu
    by (simp add: find_first_empty_nodes_to_save_def split: option.splits)
  then have "length (nodes_to_save (snd (snd (panmaster_idx_find_node locked now utc eu rl s)))) = length (nodes_to_save s)" for locked now utc eu rl
    by (auto simp: panmaster_idx_find_node_def split: prod.splits option.splits) (metis snd_conv)+
  then show ?thesis
    by (auto simp: serve_one_def panrequest_cb_def Let_def split: prod.splits option.splits) (metis snd_conv)+
qed

lemma serve_places [simp]: "length (nodes_to_save (serve dl qs s)) = length (nodes_to_save s)"
  by (induction qs arbitrary: s) (simp_all add: serve_def)

text \<open>Requests do not touch a place that is in use.\<close>

lemma serve_one_place:
  assumes "serve_one dl q s = (ok, r, s')" and "length (node_idx s) \<le> 256" and "i < length (nodes_to_save s)"
    and "pn_euid (nodes_to_save s ! i) \<noteq> 0"
  shows "nodes_to_save s' ! i = nodes_to_save s ! i"
proof (cases "find_first_empty_nodes_to_save (q_locked q) (q_euid q) s")
  case (Pair ko s1)
  note run = assms(1)[unfolded serve_one_def]
  show ?thesis
  proof (cases ko)
    case None
    then have "s1 = s" using Pair find_first_empty_none by blast
    then show ?thesis using run Pair None by (auto simp: panrequest_cb_def panmaster_idx_find_node_def)
  next
    case (Some k)
    note ff = find_first_emptyD[OF Pair[unfolded Some]]
    have k: "k \<noteq> i" using ff(4) assms(4) by auto
    have known: "nodes_to_save (find_known k j now rl s1) = (nodes_to_save s1)[k := nodes_to_save (find_known k j now rl s1) ! k]"
      if "j < length (node_idx s)" for j now rl
      using that ff assms(2) by (intro find_known_place) simp_all
    have unknown: "nodes_to_save (add_unknown k j now utc eu rl s1) = (nodes_to_save s1)[k := nodes_to_save (add_unknown k j now utc eu rl s1) ! k]"
      for j now utc eu rl using ff by (intro add_unknown_place) simp_all
    have s1: "nodes_to_save s1 ! i = nodes_to_save s ! i" "length (nodes_to_save s1) = length (nodes_to_save s)" "node_idx s1 = node_idx s"
      using ff k by (simp_all add: saved_update)
    obtain rc ko2 s2 where found: "panmaster_idx_find_node (q_locked q) (q_now q) (q_utc q) (q_euid q) (rr_role (q_req q)) s = (rc, ko2, s2)"
      by (metis surj_pair)
    have s2: "nodes_to_save s2 ! i = nodes_to_save s ! i \<and> (ko2 = None \<or> ko2 = Some k)"
    proof (cases "find_index (\<lambda>e. ni_addr e \<noteq> 0xffff \<and> q_euid q = ni_euid e) (node_idx s)")
      case (Some j)
      then have "s2 = find_known k j (q_now q) (rr_role (q_req q)) s1" "ko2 = Some k"
        using found Pair \<open>ko = Some k\<close> s1 by (auto simp: panmaster_idx_find_node_def)
      then show ?thesis using known[OF find_index_SomeD(1)[OF Some]] k s1 by (metis nth_list_update_neq)
    next
      case None
      show ?thesis
      proof (cases "find_index (\<lambda>e. ni_addr e = 0xffff) (node_idx s)")
        case (Some j)
        then have "s2 = add_unknown k j (q_now q) (q_utc q) (q_euid q) (rr_role (q_req q)) s1" "ko2 = Some k"
          using found Pair \<open>ko = Some k\<close> s1 None by (auto simp: panmaster_idx_find_node_def)
        then show ?thesis using unknown k s1 by (metis nth_list_update_neq)
      qed (use found Pair \<open>ko = Some k\<close> s1 None in \<open>auto simp: panmaster_idx_find_node_def\<close>)
    qed
    then show ?thesis using run found k by (auto simp: panrequest_cb_def Let_def saved_update)
  qed
qed

lemma serve_place:
  assumes "length (node_idx s) \<le> 256" and "i < length (nodes_to_save s)" and "pn_euid (nodes_to_save s ! i) \<noteq> 0"
  shows "nodes_to_save (serve dl qs s) ! i = nodes_to_save s ! i"
  using assms
proof (induction qs arbitrary: s)
  case (Cons q qs)
  obtain ok r s1 where one: "serve_one dl q s = (ok, r, s1)" by (metis surj_pair)
  note p = serve_one_place[OF one Cons.prems]
  have "length (node_idx s1) \<le> 256" using serve_one_grown[OF Cons.prems(1) one] Cons.prems(1) by (simp add: grown_def)
  from Cons.IH[OF this] show ?case using p Cons.prems one serve_one_places[of dl q s] by (simp add: serve_def)
qed (simp add: serve_def)

lemma zero_place: "place_ok t zero_node"
  by (simp add: place_ok_def zero_node_def PANMASTER_NODE_DEFAULT_def)

lemma last_time_append: "last (t # map f (xs @ ys)) = last (last (t # map f xs) # map f ys)"
  by simp

lemma sorted_last:
  assumes "0 \<le> t" and "sorted (t # map q_now qs)" and "\<forall>q \<in> set qs. request_ok rl q"
  shows "0 \<le> last (t # map q_now qs)" "t \<le> last (t # map q_now qs)" "qs = [] \<or> last (t # map q_now qs) < 2 ^ 31"
  using assms by (cases qs rule: rev_cases; force simp: request_ok_def sorted_append)+

lemma postprocess_loop_ok:
  assumes "run_ok rl t s" and "0 \<le> t" and "sorted (t # map q_now (concat (map qs [i..<i + n])))"
    and "\<forall>q \<in> set (concat (map qs [i..<i + n])). request_ok rl q" and "i + n \<le> length (nodes_to_save s)"
    and "postprocess_loop lib fw (\<lambda>i. serve dl (qs i)) n i s = Some s'" and "roomy (node_idx s')"
  shows "run_ok rl (last (t # map q_now (concat (map qs [i..<i + n])))) s'"
  using assms
proof (induction n arbitrary: i s t)
  case (Suc n)
  let ?t = "last (t # map q_now (qs i))"
  have list: "[i..<i + Suc n] = i # [Suc i..<Suc i + n]" using upt_conv_Cons[of i "i + Suc n"] by simp
  have all: "concat (map qs [i..<i + Suc n]) = qs i @ concat (map qs [Suc i..<Suc i + n])" by (simp only: list list.map concat.simps)
  let ?rest = "concat (map qs [Suc i..<Suc i + n])"
  have "sorted ((t # map q_now (qs i)) @ map q_now ?rest)" using Suc.prems(3) unfolding all by (simp only: map_append append_Cons)
  then have sorts: "sorted (t # map q_now (qs i))" "sorted (map q_now ?rest)"
    "\<forall>x \<in> set (t # map q_now (qs i)). \<forall>y \<in> set (map q_now ?rest). x \<le> y"
    unfolding sorted_append by blast+
  have reqs: "\<forall>q \<in> set (qs i). request_ok rl q" "\<forall>q \<in> set (concat (map qs [Suc i..<Suc i + n])). request_ok rl q"
    using Suc.prems(4) unfolding all by (simp_all only: set_append Un_iff) blast+
  note t = sorted_last[OF Suc.prems(2) sorts(1) reqs(1)]
  have rest: "sorted (?t # map q_now (concat (map qs [Suc i..<Suc i + n])))"
    using sorts(2,3) last_in_set[of "t # map q_now (qs i)"] by (simp only: sorted_simps) blast
  have last: "last (t # map q_now (concat (map qs [i..<i + Suc n]))) = last (?t # map q_now (concat (map qs [Suc i..<Suc i + n])))"
    unfolding all by (rule last_time_append)
  have small: "length (node_idx s) \<le> 256" using Suc.prems(1) by (simp add: run_ok_def master_ok_def)
  show ?case
  proof (cases "pn_euid (nodes_to_save s ! i) = 0")
    case True
    then have s: "postprocess_loop lib fw (\<lambda>i. serve dl (qs i)) n (Suc i) s = Some s'" using Suc.prems(6) by (simp add: Let_def)
    have "run_ok rl ?t s" using Suc.prems(1,2) t run_ok_later by (cases "qs i = []") auto
    from Suc.IH[OF this t(1) rest reqs(2) _ s Suc.prems(7)] show ?thesis using Suc.prems(5) unfolding last by linarith
  next
    case False
    let ?n = "nodes_to_save s ! i"
    let ?s1 = "serve dl (qs i) s"
    obtain s2 where s2: "panmaster_update_node lib fw (pn_euid ?n) ?n ?s1 = Some s2"
      "postprocess_loop lib fw (\<lambda>i. serve dl (qs i)) n (Suc i) (on_saved i (\<lambda>_. zero_node) s2) = Some s'"
      using Suc.prems(6) False by (auto simp: Let_def split: option.splits)
    note g1 = serve_grown[OF small, of dl "qs i"]
    have small1: "length (node_idx ?s1) \<le> 256" using g1 small by (simp add: grown_def)
    note g2 = update_node_grown[OF s2(1)]
    have "length (node_idx (on_saved i (\<lambda>_. zero_node) s2)) \<le> 256" using g2 small1 by (simp add: grown_def)
    note g3 = postprocess_loop_grown[OF this s2(2)]
    have room: "roomy (node_idx ?s1)" using roomy_before[OF grown_trans[OF g2 g3[unfolded on_saved_simps]] Suc.prems(7)] .
    have ok1: "run_ok rl ?t ?s1"
      by (rule serve_ok[OF Suc.prems(1,2) sorts(1) reqs(1) room])
    have place: "nodes_to_save ?s1 ! i = ?n" using serve_place[OF small _ False] Suc.prems(5) by simp
    then have "?n \<in> set (nodes_to_save ?s1)" using Suc.prems(5) by (metis add_lessD1 less_add_Suc1 less_le_trans nth_mem serve_places add_Suc_right less_add_same_cancel1 zero_less_Suc)
    then have "place_ok (node_idx ?s1) ?n" using ok1 by (simp add: run_ok_def)
    note same = update_node_idle[OF this False s2(1)] update_node_effect(1)[OF s2(1)]
    have "run_ok rl ?t (on_saved i (\<lambda>_. zero_node) s2)"
      using ok1 same zero_place set_update_subset_insert[of "nodes_to_save ?s1" i zero_node]
      by (auto simp: run_ok_def master_ok_def saved_update)
    from Suc.IH[OF this t(1) rest reqs(2) _ s2(2) Suc.prems(7)] same(2) show ?thesis
      using Suc.prems(5) unfolding last saved_update length_list_update serve_places by simp
  qed
qed auto

lemma run_event_ok:
  assumes "run_ok rl t s" and "0 \<le> t" and "sorted (t # map q_now (event_requests (length (nodes_to_save s)) ev))"
    and "\<forall>q \<in> set (event_requests (length (nodes_to_save s)) ev). request_ok rl q"
    and "run_event lib dl ev s = Some s'" and "roomy (node_idx s')"
  shows "run_ok rl (last (t # map q_now (event_requests (length (nodes_to_save s)) ev))) s'"
proof (cases ev)
  case (Request q)
  obtain ok r s1 where "serve_one dl q s = (ok, r, s1)" by (metis surj_pair)
  then show ?thesis using Request assms serve_one_ok(1) by fastforce
next
  case (Saving fw qs)
  then show ?thesis
    using assms postprocess_loop_ok[OF assms(1,2), of qs 0 "length (nodes_to_save s)"] by (simp add: panmaster_postprocess_def)
qed

text \<open>The number of places never changes.\<close>

lemma postprocess_loop_places:
  assumes "postprocess_loop lib fw (\<lambda>i. serve dl (qs i)) n i s = Some s'"
  shows "length (nodes_to_save s') = length (nodes_to_save s)"
  using assms
proof (induction n arbitrary: i s)
  case (Suc n)
  show ?case
  proof (cases "pn_euid (nodes_to_save s ! i) = 0")
    case False
    then obtain s2 where s2: "panmaster_update_node lib fw (pn_euid (nodes_to_save s ! i)) (nodes_to_save s ! i) (serve dl (qs i) s) = Some s2"
      "postprocess_loop lib fw (\<lambda>i. serve dl (qs i)) n (Suc i) (on_saved i (\<lambda>_. zero_node) s2) = Some s'"
      using Suc.prems by (auto simp: Let_def split: option.splits)
    then show ?thesis using Suc.IH[OF s2(2)] update_node_effect(1)[OF s2(1)] by (simp add: saved_update)
  qed (use Suc in \<open>auto simp: Let_def\<close>)
qed simp

lemma run_event_places: "run_event lib dl ev s = Some s' \<Longrightarrow> length (nodes_to_save s') = length (nodes_to_save s)"
  using postprocess_loop_places serve_one_places by (cases ev) (auto simp: panmaster_postprocess_def)

text \<open>All requests of a run, in the order in which they come in.\<close>

definition run_requests :: "nat \<Rightarrow> master_event list \<Rightarrow> pan_request list" where
  "run_requests places evs = concat (map (event_requests places) evs)"

lemma run_events_ok:
  assumes "run_ok rl t s" and "0 \<le> t" and "sorted (t # map q_now (run_requests (length (nodes_to_save s)) evs))"
    and "\<forall>q \<in> set (run_requests (length (nodes_to_save s)) evs). request_ok rl q"
    and "run_events lib dl evs s = Some s'" and "roomy (node_idx s')"
  shows "run_ok rl (last (t # map q_now (run_requests (length (nodes_to_save s)) evs))) s'"
  using assms
proof (induction evs arbitrary: s t)
  case (Cons ev evs)
  let ?qs = "event_requests (length (nodes_to_save s)) ev" and ?rest = "run_requests (length (nodes_to_save s)) evs"
  let ?t = "last (t # map q_now ?qs)"
  have all: "run_requests (length (nodes_to_save s)) (ev # evs) = ?qs @ ?rest" by (simp add: run_requests_def)
  obtain s1 where s1: "run_event lib dl ev s = Some s1" "run_events lib dl evs s1 = Some s'"
    using Cons.prems(5) by (auto split: option.splits)
  have places: "length (nodes_to_save s1) = length (nodes_to_save s)" using run_event_places[OF s1(1)] .
  have "sorted ((t # map q_now ?qs) @ map q_now ?rest)" using Cons.prems(3) unfolding all by (simp only: map_append append_Cons)
  then have sorts: "sorted (t # map q_now ?qs)" "sorted (map q_now ?rest)"
    "\<forall>x \<in> set (t # map q_now ?qs). \<forall>y \<in> set (map q_now ?rest). x \<le> y"
    unfolding sorted_append by blast+
  have reqs: "\<forall>q \<in> set ?qs. request_ok rl q" "\<forall>q \<in> set ?rest. request_ok rl q"
    using Cons.prems(4) unfolding all by (simp_all only: set_append Un_iff) blast+
  have rest: "sorted (?t # map q_now ?rest)"
    using sorts(2,3) last_in_set[of "t # map q_now ?qs"] by (simp only: sorted_simps) blast
  have small: "length (node_idx s) \<le> 256" using Cons.prems(1) by (simp add: run_ok_def master_ok_def)
  have "length (node_idx s1) \<le> 256" using run_event_grown[OF small s1(1)] small by (simp add: grown_def)
  note room = roomy_before[OF run_events_grown[OF this s1(2)] Cons.prems(6)]
  note ok = run_event_ok[OF Cons.prems(1,2) sorts(1) reqs(1) s1(1) room]
  show ?case
    using Cons.IH[OF ok sorted_last(1)[OF Cons.prems(2) sorts(1) reqs(1)], unfolded places, OF rest reqs(2) s1(2) Cons.prems(6)]
    unfolding all last_time_append .
qed (simp add: run_requests_def)

text \<open>An empty table is in order.\<close>

lemma run_ok_empty:
  assumes "\<forall>e \<in> set (node_idx s). ni_addr e = 0xffff \<and> \<not> ni_has_perm_slot e" and "\<forall>n \<in> set (nodes_to_save s). pn_euid n = 0"
    and "node_idx s \<noteq> []" and "length (node_idx s) \<le> 256"
  shows "run_ok rl t s"
  using assms by (auto simp: run_ok_def place_ok_def master_ok_def addrs_apart_def slots_apart_def holds_slot_def)

end
