(* ===== verification/Network_Claims.thy ===== *)
theory Network_Claims
  imports Uwb_Pan_Facts Panm_Fcb_Facts Panmaster_Runs
begin

text \<open>Properties of the network master, each with a witness on a concrete table.\<close>

unbundle bit_operations_syntax

section \<open>Concrete tables\<close>

definition no_node :: panmaster_node_idx where
  "no_node = \<lparr>ni_addr = 0xffff, ni_slot_id = 0xffff, ni_euid = 0, ni_role = 0, ni_has_perm_slot = False,
              ni_save_needed = False, ni_lease_ends = 0\<rparr>"

definition sample_req :: pan_req_resp where
  "sample_req = \<lparr>rr_role = 2, rr_lease_time = 10, rr_pan_id = 0, rr_short_address = 0, rr_slot_id = 0, rr_padding = 0\<rparr>"

definition sample_request :: "int \<Rightarrow> u64 \<Rightarrow> pan_request" where
  "sample_request t eu = \<lparr>q_locked = False, q_now = t, q_now2 = t, q_utc = 0, q_euid = eu, q_req = sample_req\<rparr>"

text \<open>A circular buffer in one list of 8 entries, of which none is ever dropped.\<close>

definition ram_fcb :: "fcb_entry list fcb_lib" where
  "ram_fcb =
     \<lparr>fcb_entries = \<lambda>f. f, f_oldest = \<lambda>f. 0,
      fcb_append = \<lambda>len f. (if length f < 8 then 0 else - 4, f),
      flash_area_write = \<lambda>n f. (0, f @ [\<lparr>fe_area = 1, fe_data_len = sizeof_node, fe_data = Some n\<rparr>]),
      fcb_append_finish = \<lambda>f. f, fcb_append_to_scratch = \<lambda>f. (- 4, f), fcb_rotate = \<lambda>f. f,
      fcb_clear = \<lambda>f. (0, []), FCB_ERR_NOSPACE = - 4\<rparr>"

lemma ram_fcb_ok: "fcb_ok 8 ram_fcb"
  by (auto simp: fcb_ok_def ram_fcb_def)

definition first_version :: pan_image_version where
  "first_version = \<lparr>iv_major = 1, iv_minor = 0, iv_revision = 0, iv_build_num = 0\<rparr>"

definition sample_master :: "panmaster_node_idx list \<Rightarrow> fcb_entry list pan_state" where
  "sample_master tbl = \<lparr>node_idx = tbl, nodes_to_save = [zero_node, zero_node], pm_pan_id = 0xdeca, pm_fcb = []\<rparr>"

section \<open>Properties\<close>

text \<open>
  C4. Answering requests keeps nodes apart. Take any run of the master from an empty table, or
  from one that is in order: requests of the nodes in any order, and the background saves that
  the requests leave behind at any point between them, with further requests coming in while a
  node is written to the storage. Let the uptimes not decrease and stay below 2^31 ms, each node
  always ask for the same role, a role below 16 (the master keeps 4 bits of it), and the table
  keep a free entry and addresses not run out. Then no two nodes have the same address and no
  two nodes of a role hold the same slot; and a node that gets an answer has an address of its
  own and a slot that no other node of its role holds. (A node that changes its role, and one
  that asks when the table is full, break this: the saved node then overwrites an entry.)
\<close>

theorem requests_keep_nodes_apart:
  assumes "run_ok rl t s" and "0 \<le> t"
    and "sorted (t # map q_now (run_requests (length (nodes_to_save s)) (evs @ [Request q])))"
    and "\<forall>p \<in> set (run_requests (length (nodes_to_save s)) (evs @ [Request q])). request_ok rl p"
    and "run_events lib dl evs s = Some s1"
    and "serve_one dl q s1 = (answered, r, s')" and "roomy (node_idx s')"
  shows "run_ok rl (q_now q) s' \<and> addrs_apart (node_idx s') \<and> slots_apart (q_now q) (node_idx s') \<and>
    (answered \<longrightarrow> (\<exists>i. granted (q_now q) (q_euid q) r (node_idx s') i))"
proof -
  let ?qs = "run_requests (length (nodes_to_save s)) evs"
  let ?t = "last (t # map q_now ?qs)"
  have "run_requests (length (nodes_to_save s)) (evs @ [Request q]) = ?qs @ [q]" by (simp add: run_requests_def)
  then have "sorted ((t # map q_now ?qs) @ [q_now q])" and req: "\<forall>p \<in> set ?qs. request_ok rl p" "request_ok rl q"
    using assms(3,4) by simp_all
  then have sorts: "sorted (t # map q_now ?qs)" "\<forall>x \<in> set (t # map q_now ?qs). x \<le> q_now q"
    unfolding sorted_append by simp_all
  have small: "length (node_idx s1) \<le> 256"
    using run_events_grown[OF _ assms(5)] assms(1) by (simp add: grown_def run_ok_def master_ok_def)
  note room = roomy_before[OF serve_one_grown[OF small assms(6)] assms(7)]
  note ok = run_events_ok[OF assms(1,2) sorts(1) req(1) assms(5) room]
  have "?t \<le> q_now q" using sorts(2) last_in_set[of "t # map q_now ?qs"] by blast
  note serve_one_ok[OF ok sorted_last(1)[OF assms(2) sorts(1) req(1)] this req(2) assms(6,7)]
  then show ?thesis by (simp add: run_ok_def master_ok_def)
qed

lemma requests_keep_nodes_apart_witness:
  "\<exists>s1 r s'. run_events ram_fcb 30 [Request (sample_request 1000 0xabcd), Saving first_version (\<lambda>i. if i = 0 then [sample_request 1500 0xef] else [])]
       (sample_master (replicate 4 no_node)) = Some s1 \<and>
     serve_one 30 (sample_request 2000 0x1234) s1 = (True, r, s') \<and> rr_slot_id r = 2 \<and> slots_apart 2000 (node_idx s') \<and>
     (\<exists>i. granted 2000 0x1234 r (node_idx s') i)"
proof -
  let ?s = "sample_master (replicate 4 no_node)" and ?q = "sample_request 2000 0x1234"
  let ?evs = "[Request (sample_request 1000 0xabcd), Saving first_version (\<lambda>i. if i = 0 then [sample_request 1500 0xef] else [])]"
  define res where "res = map_option (serve_one 30 ?q) (run_events ram_fcb 30 ?evs ?s)"
  have v: "(case res of None \<Rightarrow> False | Some (ok, r, s') \<Rightarrow> ok \<and> rr_slot_id r = 2 \<and>
      (\<forall>e \<in> set (node_idx s'). ni_addr e \<noteq> 0) \<and> (\<exists>e \<in> set (node_idx s'). ni_addr e = 0xffff))"
    unfolding res_def by code_simp
  then obtain s1 where s1: "run_events ram_fcb 30 ?evs ?s = Some s1" by (cases "run_events ram_fcb 30 ?evs ?s") (auto simp: res_def)
  obtain ok r s' where run: "serve_one 30 ?q s1 = (ok, r, s')" by (metis surj_pair)
  have r: "ok" "rr_slot_id r = 2" "roomy (node_idx s')" using v s1 run by (simp_all add: res_def roomy_def)
  have ok: "run_ok (\<lambda>_. 2) 0 ?s"
    by (rule run_ok_empty) (auto simp: sample_master_def no_node_def zero_node_def PANMASTER_NODE_DEFAULT_def)
  have places: "length (nodes_to_save ?s) = 2" by (simp add: sample_master_def)
  have list: "run_requests 2 (?evs @ [Request ?q]) = [sample_request 1000 0xabcd, sample_request 1500 0xef, ?q]"
    by (simp add: run_requests_def upt_rec)
  note t = requests_keep_nodes_apart[OF ok _ _ _ s1 run r(3), unfolded places list]
  have "run_ok (\<lambda>_. 2) (q_now ?q) s' \<and> addrs_apart (node_idx s') \<and> slots_apart (q_now ?q) (node_idx s') \<and>
      (ok \<longrightarrow> (\<exists>i. granted (q_now ?q) (q_euid ?q) r (node_idx s') i))"
    by (rule t) (simp_all add: sample_request_def request_ok_def sample_req_def)
  then show ?thesis using r s1 run by (auto simp: sample_request_def)
qed

text \<open>
  The slot handed out is the least one that no other node of the role holds, and it is at
  most the number of other nodes, however the slots in use are spread.
\<close>

theorem slot_is_least_free:
  assumes "length (filter (\<lambda>e. ni_addr e \<noteq> a) tbl) < 0xffff"
  shows "\<not> slot_held tbl now a rl (first_free_slot_id tbl now a rl) \<and>
    (\<forall>t < unat (first_free_slot_id tbl now a rl). slot_held tbl now a rl (of_nat t)) \<and>
    unat (first_free_slot_id tbl now a rl) \<le> length (filter (\<lambda>e. ni_addr e \<noteq> a) tbl)"
  using first_free_slot_id_spec[OF assms] by blast

lemma slot_is_least_free_witness:
  "first_free_slot_id [no_node\<lparr>ni_addr := 5, ni_role := 2, ni_slot_id := 0\<rparr>, no_node\<lparr>ni_addr := 7, ni_role := 2, ni_slot_id := 2\<rparr>] 0 9 2 = 1 \<and>
   \<not> slot_held [no_node\<lparr>ni_addr := 5, ni_role := 2, ni_slot_id := 0\<rparr>, no_node\<lparr>ni_addr := 7, ni_role := 2, ni_slot_id := 2\<rparr>] 0 9 2 1"
proof -
  let ?t = "[no_node\<lparr>ni_addr := 5, ni_role := 2, ni_slot_id := 0\<rparr>, no_node\<lparr>ni_addr := 7, ni_role := 2, ni_slot_id := 2\<rparr>]"
  have v: "first_free_slot_id ?t 0 9 2 = 1" by code_simp
  moreover have "\<not> slot_held ?t 0 9 2 (first_free_slot_id ?t 0 9 2)"
    using slot_is_least_free[where tbl = ?t and a = 9 and now = 0 and rl = 2] by simp
  ultimately show ?thesis by simp
qed

lemma postprocess_skips:
  assumes "\<forall>n \<in> set (nodes_to_save s). pn_euid n = 0" and "i + n \<le> length (nodes_to_save s)"
  shows "postprocess_loop lib fw between n i s = Some s"
  using assms by (induction n arbitrary: i) (auto simp: Let_def)

lemma load_fold_length:
  assumes "\<forall>n \<in> set ns. unat (pn_index n) < length t"
  shows "\<exists>t'. fold node_idx_load_cb ns (Some t) = Some t' \<and> length t' = length t"
  using assms
proof (induction ns arbitrary: t)
  case Nil
  then show ?case by simp
next
  case (Cons n ns)
  obtain t1 where "node_idx_load_cb n (Some t) = Some t1" "length t1 = length t"
    using Cons.prems by (auto simp: node_idx_load_cb_def Let_def)
  then show ?case using Cons.IH[of t1] Cons.prems by simp
qed

text \<open>
  C27. A request that finds the table full is refused, but the place reserved for the node stays
  reserved: the background task then saves a node of address 0 at index 0. The role and the
  permanent slot of the node at index 0 are cleared, and after a restart that entry belongs
  to the refused node.
\<close>

theorem full_table_request_corrupts:
  assumes "fcb_ok cap lib" and "intact (fcb_entries lib (pm_fcb s))" and "length (fcb_entries lib (pm_fcb s)) < cap"
    and "\<forall>n \<in> set (nodes_of (fcb_entries lib (pm_fcb s))). unat (pn_index n) < length (node_idx s) \<and> pn_euid n \<noteq> eu"
    and "\<forall>e \<in> set (node_idx s). ni_addr e \<noteq> 0xffff \<and> ni_euid e \<noteq> eu" and "node_idx s \<noteq> []" and "eu \<noteq> 0"
    and "nodes_to_save s = replicate (Suc n) zero_node"
    and "panrequest_cb dl same False now now2 utc eu req resp s = (answered, r, s1)"
  shows "\<not> answered \<and> node_idx s1 = node_idx s \<and>
    (\<exists>s2 s3. panmaster_postprocess lib fw (\<lambda>_ x. x) s1 = Some s2 \<and>
       ni_role (node_idx s2 ! 0) = 0 \<and> \<not> ni_has_perm_slot (node_idx s2 ! 0) \<and>
       nodes_of (fcb_entries lib (pm_fcb s2)) = nodes_of (fcb_entries lib (pm_fcb s)) @ [zero_node\<lparr>pn_euid := eu\<rparr>] \<and>
       load_table lib s2 = Some s3 \<and> ni_addr (node_idx s3 ! 0) = 0 \<and> ni_euid (node_idx s3 ! 0) = eu)"
proof -
  let ?n = "zero_node\<lparr>pn_euid := eu\<rparr>"
  have none: "find_index (\<lambda>e. ni_addr e \<noteq> 0xffff \<and> eu = ni_euid e) (node_idx s) = None"
    "find_index (\<lambda>e. ni_addr e = 0xffff) (node_idx s) = None"
    using assms(5) by (auto simp: find_index_def find_None_iff dest: nth_mem)
  have "find_index (\<lambda>n. pn_euid n = 0) (nodes_to_save s) = Some 0"
    using assms(8) by (simp add: find_index_def upt_conv_Cons zero_node_def PANMASTER_NODE_DEFAULT_def del: upt_Suc replicate_Suc) 
  then have s1: "s1 = on_saved 0 (\<lambda>n. n\<lparr>pn_euid := eu\<rparr>) s" and no: "\<not> answered"
    using assms(9) none by (auto simp: panrequest_cb_def panmaster_idx_find_node_def find_first_empty_nodes_to_save_def on_saved_def)
  have saved: "nodes_to_save s1 = ?n # replicate n zero_node"
    using assms(8) by (simp add: s1 on_saved_def)
  have stored: "pm_fcb s1 = pm_fcb s" and tbl: "node_idx s1 = node_idx s" by (simp_all add: s1)
  have "filter (\<lambda>n. pn_euid n = eu) (nodes_of (fcb_entries lib (pm_fcb s1))) = []"
    using assms(4) stored by (auto simp: filter_empty_conv)
  then have new: "find_by_euid lib eu s1 = None"
    using find_by_euid_last[of lib "pm_fcb s1" eu] assms(2,7) stored by (simp add: find_by_euid_def)
  obtain f' a where f': "panm_fcb_save lib fw ?n (pm_fcb s) = Some (0, f')"
    "fcb_entries lib f' = fcb_entries lib (pm_fcb s) @ [\<lparr>fe_area = a, fe_data_len = sizeof_node, fe_data = Some ?n\<rparr>]"
    by (rule save_appends[OF assms(1,3)])
  let ?s2 = "on_saved 0 (\<lambda>_. zero_node)
      ((on_idx 0 (\<lambda>e. e\<lparr>ni_role := 0, ni_has_perm_slot := False\<rparr>) s1)\<lparr>pm_fcb := f'\<rparr>)"
  have idx: "pn_index ?n = 0" "pn_role ?n = 0" "\<not> pn_has_perm_slot ?n" "pn_euid ?n = eu" "pn_addr ?n = 0"
    by (simp_all add: zero_node_def PANMASTER_NODE_DEFAULT_def)
  have "panmaster_update_node lib fw eu ?n s1 = Some ((on_idx 0 (\<lambda>e. e\<lparr>ni_role := 0, ni_has_perm_slot := False\<rparr>) s1)\<lparr>pm_fcb := f'\<rparr>)"
    using new f'(1) idx assms(6) stored tbl by (simp add: panmaster_update_node_def panmaster_save_node_def Let_def)
  moreover have "postprocess_loop lib fw (\<lambda>_ x. x) n (Suc 0) ?s2 = Some ?s2"
    using saved by (intro postprocess_skips) (auto simp: on_saved_def zero_node_def PANMASTER_NODE_DEFAULT_def)
  ultimately have post: "panmaster_postprocess lib fw (\<lambda>_ x. x) s1 = Some ?s2"
    using saved idx assms(7) by (simp add: panmaster_postprocess_def Let_def)
  have es: "fcb_entries lib (pm_fcb ?s2) = fcb_entries lib (pm_fcb s) @ [\<lparr>fe_area = a, fe_data_len = sizeof_node, fe_data = Some ?n\<rparr>]"
    using f'(2) by simp
  then have ns: "nodes_of (fcb_entries lib (pm_fcb ?s2)) = nodes_of (fcb_entries lib (pm_fcb s)) @ [?n]"
    and intact2: "intact (fcb_entries lib (pm_fcb ?s2))" using assms(2) by simp_all
  have len2: "length (node_idx ?s2) = length (node_idx s)" using tbl by simp
  obtain t' where t': "fold node_idx_load_cb (nodes_of (fcb_entries lib (pm_fcb s))) (Some (node_idx ?s2)) = Some t'"
    "length t' = length (node_idx s)"
    using load_fold_length[of "nodes_of (fcb_entries lib (pm_fcb s))" "node_idx ?s2"] assms(4) len2 by auto
  obtain t3 where t3: "node_idx_load_cb ?n (Some t') = Some t3" "ni_addr (t3 ! 0) = 0" "ni_euid (t3 ! 0) = eu"
    using idx t'(2) assms(6) by (auto simp: node_idx_load_cb_def Let_def)
  have "panm_fcb_load_idx lib (pm_fcb ?s2) (node_idx ?s2) = (0, Some t3)"
    unfolding panm_fcb_load_idx_def panmaster_load_def load_loop_fold[OF intact2] ns fold_append o_apply t'(1) using t3(1) by simp
  then have "load_table lib ?s2 = Some (?s2\<lparr>node_idx := t3\<rparr>)"
    by (simp only: load_table_def snd_conv option.map)
  moreover have "ni_role (node_idx ?s2 ! 0) = 0 \<and> \<not> ni_has_perm_slot (node_idx ?s2 ! 0)"
    using assms(6) tbl by simp
  ultimately show ?thesis using no tbl post ns t3(2,3)
    by (intro conjI exI[of _ ?s2] exI[of _ "?s2\<lparr>node_idx := t3\<rparr>"]) simp_all
qed

lemma full_table_request_corrupts_witness:
  "\<exists>answered r s1. panrequest_cb 30 True False 1000 1000 0 0x77 sample_req sample_req
      (sample_master [no_node\<lparr>ni_addr := 5, ni_euid := 0x55, ni_role := 2, ni_has_perm_slot := True\<rparr>]) = (answered, r, s1) \<and>
     (\<exists>s2 s3. panmaster_postprocess ram_fcb no_version (\<lambda>_ x. x) s1 = Some s2 \<and> \<not> ni_has_perm_slot (node_idx s2 ! 0) \<and>
        load_table ram_fcb s2 = Some s3 \<and> ni_addr (node_idx s3 ! 0) = 0 \<and> ni_euid (node_idx s3 ! 0) = 0x77)"
proof -
  let ?s = "sample_master [no_node\<lparr>ni_addr := 5, ni_euid := 0x55, ni_role := 2, ni_has_perm_slot := True\<rparr>]"
  obtain answered r s1 where run: "panrequest_cb 30 True False 1000 1000 0 0x77 sample_req sample_req ?s = (answered, r, s1)"
    by (metis surj_pair)
  have empty: "fcb_entries ram_fcb (pm_fcb ?s) = []" by (simp add: ram_fcb_def sample_master_def)
  have "\<not> answered \<and> node_idx s1 = node_idx ?s \<and>
    (\<exists>s2 s3. panmaster_postprocess ram_fcb no_version (\<lambda>_ x. x) s1 = Some s2 \<and>
       ni_role (node_idx s2 ! 0) = 0 \<and> \<not> ni_has_perm_slot (node_idx s2 ! 0) \<and>
       nodes_of (fcb_entries ram_fcb (pm_fcb s2)) = nodes_of (fcb_entries ram_fcb (pm_fcb ?s)) @ [zero_node\<lparr>pn_euid := 0x77\<rparr>] \<and>
       load_table ram_fcb s2 = Some s3 \<and> ni_addr (node_idx s3 ! 0) = 0 \<and> ni_euid (node_idx s3 ! 0) = 0x77)"
    by (rule full_table_request_corrupts[OF ram_fcb_ok _ _ _ _ _ _ _ run, where n = 1])
      (simp_all add: empty, simp_all add: sample_master_def no_node_def)
  then show ?thesis using run by blast
qed

text \<open>
  C23. Sorting the storage stores exactly the nodes in use, the last one stored under each
  index, in the stable order of their addresses, with new indices from 0 on.
\<close>

theorem panm_fcb_sort_correct:
  assumes "fcb_ok cap lib" and "intact (fcb_entries lib f)" and "maxnum \<le> cap"
  shows "\<exists>f' nodes. panm_fcb_sort lib fw maxnum True f = Some f' \<and> intact (fcb_entries lib f') \<and>
    nodes_of (fcb_entries lib f') = renumbered 0 (sort_key (\<lambda>n. uint (pn_addr n)) (live_nodes nodes)) \<and>
    length nodes = maxnum \<and>
    (\<forall>i < maxnum. nodes ! i =
       (case filter (\<lambda>n. unat (pn_index n) = i) (nodes_of (fcb_entries lib f)) of [] \<Rightarrow> erased_node | m # ms \<Rightarrow> last (m # ms)))"
proof -
  let ?nodes = "fold sort_nodes_load_cb (nodes_of (fcb_entries lib f)) (replicate maxnum erased_node)"
  have "length (fold sort_nodes_load_cb ns t) = length t" for ns t
    by (induction ns arbitrary: t) (simp_all add: sort_nodes_load_cb_def)
  then have "length ?nodes = maxnum" by simp
  moreover have "\<forall>i < maxnum. ?nodes ! i =
      (case filter (\<lambda>n. unat (pn_index n) = i) (nodes_of (fcb_entries lib f)) of [] \<Rightarrow> erased_node | m # ms \<Rightarrow> last (m # ms))"
    by (auto simp: collected_nth split: list.splits)
  ultimately show ?thesis using panm_fcb_sort_sorted[OF assms, of fw] by blast
qed

definition sample_node :: "u16 \<Rightarrow> u8 \<Rightarrow> panmaster_node" where
  "sample_node a i = PANMASTER_NODE_DEFAULT\<lparr>pn_euid := ucast a, pn_addr := a, pn_index := i\<rparr>"

definition sample_entry :: "nat \<Rightarrow> panmaster_node \<Rightarrow> fcb_entry" where
  "sample_entry a n = \<lparr>fe_area = a, fe_data_len = sizeof_node, fe_data = Some n\<rparr>"

lemma panm_fcb_sort_correct_witness:
  "\<exists>f'. panm_fcb_sort ram_fcb no_version 3 True (map (sample_entry 1) [sample_node 9 0, sample_node 4 1, sample_node 7 0]) = Some f' \<and>
     map pn_addr (nodes_of f') = [4, 7]"
proof -
  let ?f = "map (sample_entry 1) [sample_node 9 0, sample_node 4 1, sample_node 7 0]"
  have e: "fcb_entries ram_fcb f = f" for f by (simp add: ram_fcb_def)
  have "intact (fcb_entries ram_fcb ?f)" by (simp add: e sample_entry_def)
  from panm_fcb_sort_correct[OF ram_fcb_ok this, of 3 no_version]
  obtain f' where f': "panm_fcb_sort ram_fcb no_version 3 True ?f = Some f'" by auto
  moreover have "map_option (\<lambda>f'. map pn_addr (nodes_of f')) (panm_fcb_sort ram_fcb no_version 3 True ?f) = Some [4, 7]"
    by code_simp
  ultimately show ?thesis by simp
qed

text \<open>
  C24. Compression keeps for a node what the newer sectors hold of it; for a node stored only in
  the oldest sector it keeps the first, not the last, of its entries there. A node saved
  twice in one sector is thereby reset to its older state.
\<close>

theorem panm_fcb_compress_keeps_first:
  assumes "fcb_sectors_ok room lib" and "fcb_append_to_scratch lib f = (0, g)" and "fcb_entries lib f = old @ new"
    and "\<forall>e \<in> set old. fe_area e = f_oldest lib f" and "\<forall>e \<in> set new. fe_area e \<noteq> f_oldest lib f" and "intact (old @ new)"
    and "eu \<noteq> 0"
  shows "\<exists>h. panm_fcb_compress lib fw f = Some h \<and>
    panmaster_find_node_general lib (PANMASTER_NODE_DEFAULT\<lparr>pn_euid := eu\<rparr>) h =
      (case filter (\<lambda>n. pn_euid n = eu) (nodes_of new) of
         m # ms \<Rightarrow> Some (last (m # ms))
       | [] \<Rightarrow> (case filter (\<lambda>n. pn_euid n = eu) (nodes_of old) of [] \<Rightarrow> None | m # ms \<Rightarrow> Some m))"
proof -
  let ?P = "\<lambda>n. pn_euid n = eu" and ?seen = "pn_euid ` set (nodes_of new)"
  obtain h where h: "panm_fcb_compress lib fw f = Some h" "intact (fcb_entries lib h)"
    "nodes_of (fcb_entries lib h) = nodes_of new @ copied ?seen (nodes_of old)"
    using compress_result[OF assms(1-6), of fw] by blast
  have c: "filter ?P (copied ?seen (nodes_of old)) =
      (if eu \<in> ?seen then [] else case filter ?P (nodes_of old) of [] \<Rightarrow> [] | m # ms \<Rightarrow> [m])"
    by (rule copied_first)
  have seen: "eu \<in> ?seen \<longleftrightarrow> filter ?P (nodes_of new) \<noteq> []" by (auto simp: filter_empty_conv)
  show ?thesis
    using h find_by_euid_last[OF h(2) assms(7)] c seen
    by (intro exI[of _ h]) (auto split: list.splits)
qed

text \<open>Two sectors: entries, the number of the oldest sector, and the room in the next one.\<close>

definition ram_sectors :: "(fcb_entry list \<times> nat \<times> nat) fcb_lib" where
  "ram_sectors =
     \<lparr>fcb_entries = \<lambda>(es, o1, r). es, f_oldest = \<lambda>(es, o1, r). o1,
      fcb_append = \<lambda>len (es, o1, r). (if r > 0 then 0 else - 4, (es, o1, r)),
      flash_area_write = \<lambda>n (es, o1, r). (0, (es @ [\<lparr>fe_area = Suc o1, fe_data_len = sizeof_node, fe_data = Some n\<rparr>], o1, r - 1)),
      fcb_append_finish = \<lambda>f. f, fcb_append_to_scratch = \<lambda>(es, o1, r). (0, (es, o1, length es)),
      fcb_rotate = \<lambda>(es, o1, r). (filter (\<lambda>e. fe_area e \<noteq> o1) es, Suc o1, r),
      fcb_clear = \<lambda>(es, o1, r). (0, ([], o1, r)), FCB_ERR_NOSPACE = - 4\<rparr>"

lemma ram_sectors_ok: "fcb_sectors_ok (\<lambda>(es, o1, r). r) ram_sectors"
  by (auto simp: fcb_sectors_ok_def ram_sectors_def)

lemma panm_fcb_compress_keeps_first_witness:
  "\<exists>h. panm_fcb_compress ram_sectors no_version ([sample_entry 0 (sample_node 5 0), sample_entry 0 ((sample_node 5 0)\<lparr>pn_addr := 6\<rparr>)], 0, 0) = Some h \<and>
     panmaster_find_node_general ram_sectors (PANMASTER_NODE_DEFAULT\<lparr>pn_euid := 5\<rparr>) h = Some (sample_node 5 0)"
proof -
  let ?old = "[sample_entry 0 (sample_node 5 0), sample_entry 0 ((sample_node 5 0)\<lparr>pn_addr := 6\<rparr>)]"
  have sel: "fcb_append_to_scratch ram_sectors (?old, 0, 0) = (0, (?old, 0, 2))" "fcb_entries ram_sectors (?old, 0, 0) = ?old @ []"
    "f_oldest ram_sectors (?old, 0, 0) = 0"
    by (simp_all add: ram_sectors_def)
  have ex: "\<exists>h. panm_fcb_compress ram_sectors no_version (?old, 0, 0) = Some h \<and>
      panmaster_find_node_general ram_sectors (PANMASTER_NODE_DEFAULT\<lparr>pn_euid := 5\<rparr>) h =
        (case filter (\<lambda>n. pn_euid n = 5) (nodes_of []) of m # ms \<Rightarrow> Some (last (m # ms))
         | [] \<Rightarrow> (case filter (\<lambda>n. pn_euid n = 5) (nodes_of ?old) of [] \<Rightarrow> None | m # ms \<Rightarrow> Some m))"
    by (rule panm_fcb_compress_keeps_first[OF ram_sectors_ok sel(1) sel(2)])
      (simp_all add: sel, simp_all add: sample_entry_def)
  then show ?thesis by (simp add: sample_entry_def sample_node_def)
qed

section \<open>Joining\<close>

definition master_cb :: "u16 \<Rightarrow> int \<Rightarrow> u64 \<Rightarrow> 'f pan_state request_cb" where
  "master_cb dl now utc eu r m = panrequest_cb dl True False now now utc eu r r m"

lemma panrequest_lease:
  assumes "panrequest_cb dl True locked now now2 utc eu req req s = (True, r, s')" and "dl \<noteq> 0"
  shows "rr_lease_time r \<noteq> 0"
  using assms by (auto simp: panrequest_cb_def Let_def split: option.splits prod.splits if_splits)

text \<open>A driver that reports no error, a node and a master with one frame each.\<close>

definition quiet_status :: uwb_dev_status where
  "quiet_status =
     \<lparr>st_start_tx_error = False, st_start_rx_error = False, st_tx_frame_error = False, st_txbuf_error = False, st_rx_error = False,
      st_rx_timeout_error = False, st_rx_autoframefilt_rej = False, st_rx_prej = False, st_lde_error = False, st_spi_error = False,
      st_autoack_triggered = False, st_sleep_enabled = False, st_sleeping = False, st_sem_force_released = False,
      st_overrun_error = False, st_rx_restarted = False, st_cmd_error = False, st_aes_error = False, st_sem_error = False,
      st_mtx_error = False, st_sts_pream_error = False, st_sts_ts_error = False\<rparr>"

definition quiet_uf :: uwb_driver_funcs where
  "quiet_uf =
     \<lparr>uf_status = \<lambda>_. quiet_status, uf_read_systime = \<lambda>_. 0, uf_read_systime_lo32 = (\<lambda>_. 0), uf_read_txtime = \<lambda>_. 0, uf_read_txtime_lo32 = \<lambda>_. 0,
      uf_phy_frame_duration = \<lambda>_. 0, uf_phy_SHR_duration = 0, uf_phy_data_duration = \<lambda>_. 0, uf_calc_rssi = \<lambda>_. 0,
      uf_calc_seq_rssi = \<lambda>_ _. 0, uf_calc_fppl = \<lambda>_. 0, uf_calc_pdoa = \<lambda>_. 0, uf_calc_clock_offset_ratio = \<lambda>_ _. 0\<rparr>"

definition quiet_dev :: "u64 \<Rightarrow> uwb_dev" where
  "quiet_dev eu =
     \<lparr>dev_role = 0, dev_my_short_address = 0, dev_euid = eu, dev_pan_id = 0, dev_slot_id = 0xffff, dev_cell_id = 0,
      dev_tx_antenna_delay = 0, dev_rx_ant_separation = 0, dev_cap_sts = False, dev_cap_single_receiver_pdoa = False,
      dev_irq_sem = 1, dev_abs_timeout = 0, dev_fctrl = 0, dev_frame_len = 0, dev_rxtimestamp = 0, dev_carrier_integrator = 0,
      dev_rxttcko = 0, dev_rxdiag = [], dev_rxbuf = [], dev_status = quiet_status,
      dev_config = \<lparr>config_channel = 5, config_dataRate = 0, config_prf = 0, config_rx =
        \<lparr>rx_pacLength = 0, rx_preambleCodeIndex = 0, rx_sfdType = 0, rx_phrMode = 0, rx_phrRate = 0, rx_sfdTimeout = 0,
         rx_stsMode = 0, rx_stsLength = 0, rx_pdoaMode = 0, rx_timeToRxStable = 0, rx_frameFilter = 0, rx_xtalTrim = 0\<rparr>, config_dblbuffon_enabled = False,
       config_rxdiag_enable = False, config_rxttcko_enable = False, config_rxauto_enable = False\<rparr>,
      dev_cmds = []\<rparr>"

definition sample_pan :: "4 word \<Rightarrow> uwb_pan_instance" where
  "sample_pan rl =
     (uwb_pan_init None \<lparr>pc_rx_timeout_period = 5000, pc_role = rl, pc_lease_time = 20, pc_network_role = 2\<rparr> 1)
       \<lparr>pan_frames := [0x56 # replicate 24 0]\<rparr>"

definition sample_pan_node :: "4 word \<Rightarrow> u64 \<Rightarrow> 'm \<Rightarrow> 'm pan_node" where
  "sample_pan_node rl eu m =
     \<lparr>ps_dev = quiet_dev eu, ps_pan = sample_pan rl, ps_stat = \<lambda>_. 0, ps_posted = False, ps_master = m\<rparr>"

lemma sample_pan_node_ok: "pan_ok (sample_pan_node rl eu m)"
  by (simp add: pan_ok_def sample_pan_node_def sample_pan_def uwb_pan_init_def uwb_pan_set_postprocess_def malloc_pan_def
      Let_def dpl_sem_init_def)

text \<open>
  C22. An instance stays well-formed from its initialisation on: after any sequence of calls,
  callbacks, frames received and timeouts its semaphore is at most 1, its ring has the
  number of frames it was made for, and every frame has its full size.
\<close>

theorem pan_node_stays_wellformed:
  assumes "uwb_pan_set_frames fs nframes (uwb_pan_init None config nframes) = Some (ps_pan s)"
    and "length fs = unat nframes" and "nframes \<noteq> 0" and "\<forall>m \<in> set fs. length m = 25"
    and "pan_run uf cb s s'"
  shows "pan_ok s'"
proof -
  let ?p = "uwb_pan_init None config nframes"
  have "ps_pan s = ?p\<lparr>pan_frames := take (unat nframes) fs @ drop (unat nframes) (pan_frames ?p)\<rparr>"
    using assms(1) by (simp add: uwb_pan_set_frames_def split: if_splits)
  then have "pan_ok s"
    using assms(2-4) by (simp add: pan_ok_def uwb_pan_init_def malloc_pan_def uwb_pan_set_postprocess_def Let_def dpl_sem_init_def)
  then show ?thesis using pan_run_ok assms(5) by blast
qed

lemma pan_node_stays_wellformed_witness:
  "pan_ok (snd (pan_rx_timeout_cb (sample_pan_node UWB_PAN_ROLE_SLAVE 7 ())))"
proof -
  let ?s = "sample_pan_node UWB_PAN_ROLE_SLAVE 7 ()" and ?cb = "\<lambda>eu r m. (False, r, m)"
  have "pan_run quiet_uf ?cb ?s (snd (pan_rx_timeout_cb ?s))"
    by (rule pan_snoc[OF pan_refl Rx_timeout])
  then show ?thesis
    by (rule pan_node_stays_wellformed[where fs = "[0x56 # replicate 24 0]" and nframes = 1 and
          config = "\<lparr>pc_rx_timeout_period = 5000, pc_role = UWB_PAN_ROLE_SLAVE, pc_lease_time = 20, pc_network_role = 2\<rparr>", rotated 4])
      (simp_all add: sample_pan_node_def sample_pan_def uwb_pan_set_frames_def uwb_pan_init_def malloc_pan_def
        uwb_pan_set_postprocess_def Let_def)
qed

text \<open>
  C3. Joining: when a node's blink reaches a waiting master whose table has room, and the
  answer reaches the node, the node has the short address, slot and network of its entry in
  the master's table, no other node has that address, no other node of its role holds that
  slot, the table is still well-formed, the lease timer of the node runs, and both ends are free.
\<close>

theorem network_join:
  assumes "pan_ok tag" and "pan_ok master" and "get_u8 (pan_frame tag) 0 = 0x56"
    and "uwb_pan_blink_start uf1 mx w (rl (dev_euid (ps_dev tag))) d tag = Some (True, tag1)"
    and "pan_sem (ps_pan master) = 0" and "pc_role (pan_config (ps_pan master)) = UWB_PAN_ROLE_MASTER"
    and "pan_has_request_cb (ps_pan master)" and "master_ok rl now (ps_master master)"
    and "rl (dev_euid (ps_dev tag)) < 256" and "dl \<noteq> 0"
    and "pan_rx_complete_cb uf2 (master_cb dl now utc) e2 now2 (deliver (pan_frame tag1) ts2 master) = (res2, master1)"
    and "pan_rx_complete_cb uf1 cb1 e1 now1 (deliver (pan_frame master1) ts1 tag1) = (res1, tag2)"
    and "master_cb dl now utc (dev_euid (ps_dev tag)) (pf_req (pan_frame tag1)) (ps_master master) = (True, r, m')"
    and "\<forall>x \<in> set (node_idx m'). ni_addr x \<noteq> 0"
  shows "ps_master master1 = m' \<and> master_ok rl now m' \<and> (\<exists>i. granted now (dev_euid (ps_dev tag)) r (node_idx m') i) \<and>
    dev_my_short_address (ps_dev tag2) = rr_short_address r \<and> dev_slot_id (ps_dev tag2) = rr_slot_id r \<and>
    dev_pan_id (ps_dev tag2) = rr_pan_id r \<and> pan_valid (ps_pan tag2) \<and> c_active (pan_lease_callout (ps_pan tag2)) \<and>
    pan_sem (ps_pan master1) = 1 \<and> pan_sem (ps_pan tag2) = 1"
proof -
  let ?eu = "dev_euid (ps_dev tag)"
  note b = blink_start_frame[OF assms(4,1)]
  have lt: "length (pan_frame tag) = 25" by (rule pan_frame_length[OF assms(1)])
  note f = blink_frame_fields[OF lt, of ?eu mx "rl ?eu" "pc_lease_time (pan_config (ps_pan tag))" "pan_nframes (ps_pan tag)", folded b(3)]
  obtain m1 where m1: "pan_ok m1" "pan_frame m1 = pan_frame tag1" "pan_sem (ps_pan m1) = 0" "ps_master m1 = ps_master master"
    "pan_config (ps_pan m1) = pan_config (ps_pan master)" "pan_has_request_cb (ps_pan m1) = pan_has_request_cb (ps_pan master)"
    "pan_rx_complete_cb uf2 (master_cb dl now utc) e2 now2 (deliver (pan_frame tag1) ts2 master) =
       pan_handle_frame uf2 (master_cb dl now utc) e2 now2 m1"
    using rx_complete_waiting[OF assms(2,5) f(1), of ts2 uf2 "master_cb dl now utc" e2 now2] f(6) assms(3) by auto
  have h1: "pan_handle_frame uf2 (master_cb dl now utc) e2 now2 m1 = (res2, master1)" using m1(7) assms(11) by simp
  have cb: "master_cb dl now utc (pf_long_address (pan_frame m1)) (pf_req (pan_frame m1)) (ps_master m1) = (True, r, m')"
    using m1 f assms(13) by simp
  note a = master_answers[OF m1(1,3) _ _ _ cb h1]
  have a': "pan_frame master1 = set_pf_req r (set_pf_code DWT_PAN_RESP (pan_frame tag1))" "ps_master master1 = m'" "pan_sem (ps_pan master1) = 1"
    using a m1 assms(6,7) f by simp_all
  have lm: "length (pan_frame master1) = 25" "get_u8 (pan_frame master1) 0 = 0x56"
    using a'(1) f assms(3) by simp_all
  obtain t1 where t1: "pan_ok t1" "pan_frame t1 = pan_frame master1" "pan_sem (ps_pan t1) = 0" "dev_euid (ps_dev t1) = ?eu"
    "pan_rx_complete_cb uf1 cb1 e1 now1 (deliver (pan_frame master1) ts1 tag1) = pan_handle_frame uf1 cb1 e1 now1 t1"
    using rx_complete_waiting[OF b(1,2) lm, of ts1 uf1 cb1 e1 now1] b(4) by auto
  have h2: "pan_handle_frame uf1 cb1 e1 now1 t1 = (res1, tag2)" using t1(5) assms(12) by simp
  have r: "r = pf_req (pan_frame t1)" "pf_code (pan_frame t1) = DWT_PAN_RESP" "pf_long_address (pan_frame t1) = dev_euid (ps_dev t1)"
    using t1 a'(1) f by simp_all
  have run: "panrequest_cb dl True False now now utc ?eu (pf_req (pan_frame tag1)) (pf_req (pan_frame tag1)) (ps_master master) = (True, r, m')"
    using assms(13) by (simp add: master_cb_def)
  have lease: "rr_lease_time r > 0" using panrequest_lease[OF run assms(10)] by (simp add: word_gt_0)
  note n = node_accepts[OF t1(1,3) r(2,3,1) lease h2]
  have role: "rr_role (pf_req (pan_frame tag1)) = rl ?eu" using f by simp
  note g = panrequest_ok[OF assms(8) role assms(9) run assms(14)]
  show ?thesis using a' n g by (simp add: dpl_callout_reset_def Let_def)
qed

lemma network_join_witness:
  "\<exists>tag1 res2 master1 res1 tag2 r.
     uwb_pan_blink_start quiet_uf 3 Got_token 2 0 (sample_pan_node UWB_PAN_ROLE_SLAVE 0xbeef ()) = Some (True, tag1) \<and>
     pan_rx_complete_cb quiet_uf (master_cb 30 1000 0) None 0
       (deliver (pan_frame tag1) 0 ((sample_pan_node UWB_PAN_ROLE_MASTER 1 (sample_master (replicate 4 no_node)))
          \<lparr>ps_pan := (sample_pan UWB_PAN_ROLE_MASTER)\<lparr>pan_sem := 0, pan_has_request_cb := True\<rparr>\<rparr>)) = (res2, master1) \<and>
     pan_rx_complete_cb quiet_uf (\<lambda>eu r m. (False, r, m)) None 0 (deliver (pan_frame master1) 0 tag1) = (res1, tag2) \<and>
     dev_my_short_address (ps_dev tag2) = 0xbeef \<and> dev_slot_id (ps_dev tag2) = 0 \<and> pan_valid (ps_pan tag2) \<and>
     (\<exists>i. granted 1000 0xbeef r (node_idx (ps_master master1)) i)"
proof -
  let ?tag = "sample_pan_node UWB_PAN_ROLE_SLAVE 0xbeef ()"
  let ?pm = "sample_master (replicate 4 no_node)"
  let ?master = "(sample_pan_node UWB_PAN_ROLE_MASTER 1 ?pm)
      \<lparr>ps_pan := (sample_pan UWB_PAN_ROLE_MASTER)\<lparr>pan_sem := 0, pan_has_request_cb := True\<rparr>\<rparr>"
  have eu: "dev_euid (ps_dev ?tag) = 0xbeef" by (simp add: sample_pan_node_def quiet_dev_def)
  have "map_option fst (uwb_pan_blink_start quiet_uf 3 Got_token 2 0 ?tag) = Some True" by code_simp
  then obtain tag1 where tag1: "uwb_pan_blink_start quiet_uf 3 Got_token 2 0 ?tag = Some (True, tag1)" by auto
  have "map_option (\<lambda>(b, t). pf_req (pan_frame t)) (uwb_pan_blink_start quiet_uf 3 Got_token 2 0 ?tag) =
      Some (\<lparr>rr_role = 2, rr_lease_time = 20, rr_pan_id = 0, rr_short_address = 0, rr_slot_id = 0, rr_padding = 0\<rparr>)"
    by code_simp
  then have req: "pf_req (pan_frame tag1) = \<lparr>rr_role = 2, rr_lease_time = 20, rr_pan_id = 0, rr_short_address = 0, rr_slot_id = 0, rr_padding = 0\<rparr>"
    using tag1 by simp
  obtain res2 master1 where m1: "pan_rx_complete_cb quiet_uf (master_cb 30 1000 0) None 0 (deliver (pan_frame tag1) 0 ?master) = (res2, master1)"
    by (metis surj_pair)
  obtain res1 tag2 where t2: "pan_rx_complete_cb quiet_uf (\<lambda>eu r m. (False, r, m)) None 0 (deliver (pan_frame master1) 0 tag1) = (res1, tag2)"
    by (metis surj_pair)
  obtain ok r m' where cb: "master_cb 30 1000 0 0xbeef (pf_req (pan_frame tag1)) ?pm = (ok, r, m')" by (metis surj_pair)
  have "(\<lambda>(ok, r, m). ok \<and> rr_short_address r = 0xbeef \<and> rr_slot_id r = 0 \<and> (\<forall>x \<in> set (node_idx m). ni_addr x \<noteq> 0))
      (master_cb 30 1000 0 0xbeef \<lparr>rr_role = 2, rr_lease_time = 20, rr_pan_id = 0, rr_short_address = 0, rr_slot_id = 0, rr_padding = 0\<rparr> ?pm)"
    by code_simp
  then have v: "ok" "rr_short_address r = 0xbeef" "rr_slot_id r = 0" "\<forall>x \<in> set (node_idx m'). ni_addr x \<noteq> 0"
    using cb req by auto
  have mok: "master_ok (\<lambda>_. 2) 1000 ?pm"
    by (auto simp: master_ok_def addrs_apart_def slots_apart_def holds_slot_def sample_master_def no_node_def)
  have pok: "pan_ok ?master" using sample_pan_node_ok[of UWB_PAN_ROLE_MASTER 1 ?pm] by (simp add: pan_ok_def sample_pan_node_def)
  have "ps_master master1 = m' \<and> master_ok (\<lambda>_. 2) 1000 m' \<and> (\<exists>i. granted 1000 (dev_euid (ps_dev ?tag)) r (node_idx m') i) \<and>
    dev_my_short_address (ps_dev tag2) = rr_short_address r \<and> dev_slot_id (ps_dev tag2) = rr_slot_id r \<and>
    dev_pan_id (ps_dev tag2) = rr_pan_id r \<and> pan_valid (ps_pan tag2) \<and> c_active (pan_lease_callout (ps_pan tag2)) \<and>
    pan_sem (ps_pan master1) = 1 \<and> pan_sem (ps_pan tag2) = 1"
    by (rule network_join[OF sample_pan_node_ok pok _ tag1 _ _ _ _ _ _ m1 t2 _ v(4)])
      (use cb v(1) eu mok in \<open>simp_all add: sample_pan_node_def sample_pan_def pan_frame_def pan_slot_def uwb_pan_init_def malloc_pan_def
        uwb_pan_set_postprocess_def Let_def get_u8_def\<close>)
  then have "granted 1000 0xbeef r (node_idx (ps_master master1)) (SOME i. granted 1000 0xbeef r (node_idx m') i)"
    "dev_my_short_address (ps_dev tag2) = 0xbeef" "dev_slot_id (ps_dev tag2) = 0" "pan_valid (ps_pan tag2)"
    using v eu by (auto intro: someI)
  then show ?thesis using tag1 m1 t2 by blast
qed

text \<open>
  C38. A reset frame ends a node's lease, but the receive callback then falls through to the
  default case: it reports the frame as not its own, leaves the postprocess event as it was
  (posted or not), and does not release the caller that waits for a frame, which goes on waiting until the receiver times out.
\<close>

theorem pan_reset_leaves_caller_waiting:
  assumes "pan_ok s" and "pan_sem (ps_pan s) = 0" and "length m = 25" and "get_u8 m 0 = 0x56" and "pf_code m = DWT_PAN_RESET"
    and "pc_role (pan_config (ps_pan s)) = UWB_PAN_ROLE_SLAVE"
    and "pan_rx_complete_cb uf cb e now (deliver m ts s) = (res, s')"
  shows "\<not> res \<and> \<not> pan_valid (ps_pan s') \<and> pan_lease_expired (ps_pan s') \<and> dev_slot_id (ps_dev s') = 0xffff \<and> pan_sem (ps_pan s') = 0 \<and>
    ps_posted s' = ps_posted s"
proof -
  obtain s1 where s1: "pan_frame s1 = m" "pan_sem (ps_pan s1) = 0" "pan_config (ps_pan s1) = pan_config (ps_pan s)"
    "pan_rx_complete_cb uf cb e now (deliver m ts s) = pan_handle_frame uf cb e now s1" "ps_posted s1 = ps_posted s"
    using rx_complete_waiting[OF assms(1-4), of ts uf cb e now] by auto
  then have "(res, s') = (False, accept_reset (PAN_STATS_INC Pan_reset s1))"
    using assms(5-7) by (simp add: pan_handle_frame_def Let_def codes)
  then show ?thesis using s1 by (simp add: accept_reset_def)
qed

lemma pan_reset_leaves_caller_waiting_witness:
  "\<exists>s'. pan_rx_complete_cb quiet_uf (\<lambda>eu r m. (False, r, m)) None 0
      (deliver (set_pf_code DWT_PAN_RESET (0x56 # replicate 24 0)) 0
        ((sample_pan_node UWB_PAN_ROLE_SLAVE 7 ())\<lparr>ps_pan := (sample_pan UWB_PAN_ROLE_SLAVE)\<lparr>pan_sem := 0\<rparr>\<rparr>)) = (False, s') \<and>
     pan_sem (ps_pan s') = 0 \<and> \<not> ps_posted s'"
proof -
  let ?s = "(sample_pan_node UWB_PAN_ROLE_SLAVE 7 ())\<lparr>ps_pan := (sample_pan UWB_PAN_ROLE_SLAVE)\<lparr>pan_sem := 0\<rparr>\<rparr>"
  let ?m = "set_pf_code DWT_PAN_RESET (0x56 # replicate 24 0)"
  have ok: "pan_ok ?s" using sample_pan_node_ok[of UWB_PAN_ROLE_SLAVE 7 "()"] by (simp add: pan_ok_def sample_pan_node_def)
  have first: "get_u8 ?m 0 = 0x56" by code_simp
  obtain res s' where r: "pan_rx_complete_cb quiet_uf (\<lambda>eu r m. (False, r, m)) None 0 (deliver ?m 0 ?s) = (res, s')"
    by (metis surj_pair)
  have "\<not> res \<and> \<not> pan_valid (ps_pan s') \<and> pan_lease_expired (ps_pan s') \<and> dev_slot_id (ps_dev s') = 0xffff \<and> pan_sem (ps_pan s') = 0 \<and> ps_posted s' = ps_posted ?s"
    by (rule pan_reset_leaves_caller_waiting[OF ok _ _ first _ _ r])
      (simp_all add: sample_pan_def uwb_pan_init_def uwb_pan_set_postprocess_def malloc_pan_def Let_def)
  then show ?thesis using r by (auto simp: sample_pan_node_def)
qed

text \<open>
  C39. On the native port, once the clock has run for longer than the lease, a node no longer sees that its lease is
  valid: in its slot it does not listen for resets, but asks for a new lease, every time.
\<close>

theorem valid_lease_is_renewed:
  assumes "pan_valid (ps_pan s)" and "dev_role (ps_dev s) AND 2 = 0" and "fst (pt_left t) * 1000000 \<le> unat (pt_now t)"
  shows "uwb_pan_slot_timer_cb uf mx sz margin guard t cycles s =
    map_option (\<lambda>(started, s). (cycles, if started then Blinking else No_wait, s))
      (uwb_pan_blink_start uf mx Got_token (pc_network_role (pan_config (ps_pan s))) (pt_tx_sub t) s)"
  using assms(2) remaining_ticks_lost[OF assms(3)]
  by (simp add: uwb_pan_slot_timer_cb_def uwb_pan_lease_remaining_def dpl_time_ticks_to_ms_def)

lemma valid_lease_is_renewed_witness:
  "\<exists>s'. uwb_pan_slot_timer_cb quiet_uf 3 8 1000 10
      \<lparr>pt_rx_start = 0, pt_tx_start = 0, pt_tx_sub = 0, pt_period = 1000000, pt_nslots = 16, pt_left = (20, 0), pt_now = 30000000\<rparr> 9
      (sample_pan_node UWB_PAN_ROLE_SLAVE 7 ()) = Some (9, Blinking, s')"
proof -
  let ?t = "\<lparr>pt_rx_start = 0, pt_tx_start = 0, pt_tx_sub = 0, pt_period = 1000000, pt_nslots = 16, pt_left = (20, 0), pt_now = 30000000\<rparr>"
  let ?s = "sample_pan_node UWB_PAN_ROLE_SLAVE 7 ()"
  have "map_option fst (uwb_pan_blink_start quiet_uf 3 Got_token (pc_network_role (pan_config (ps_pan ?s))) (pt_tx_sub ?t) ?s) = Some True"
    by code_simp
  then obtain s' where "uwb_pan_blink_start quiet_uf 3 Got_token (pc_network_role (pan_config (ps_pan ?s))) (pt_tx_sub ?t) ?s = Some (True, s')"
    by auto
  then have "uwb_pan_slot_timer_cb quiet_uf 3 8 1000 10 ?t 9 ?s = Some (9, Blinking, s')"
    by (subst valid_lease_is_renewed)
      (simp_all add: sample_pan_node_def sample_pan_def uwb_pan_init_def Let_def quiet_dev_def)
  then show ?thesis by blast
qed

end
