(* ===== verification/Uwb_Transport.thy ===== *)
theory Uwb_Transport
  imports Uwb_Dev Dpl_Mbuf
begin

text \<open>
  Packets over the radio, lib/uwb\_transport/src/uwb\_transport.c: packets wait in a queue with
  their address, code and number of retries behind the data; in its slot a node sends them, one
  frame each, and repeats a frame that is not acknowledged. A received frame becomes an mbuf in
  the queue of received packets, from which the extension of its code gets it.

  The extensions' callbacks are parameters, chosen by the identity of the extension. The sending
  loop waits for semaphores in five places: it is a machine with one state per wait, and what the
  interrupts do meanwhile comes between its steps. The CPU time runs at 1 MHz. The bit-rate
  statistics are off.
\<close>

unbundle bit_operations_syntax

section \<open>Frames\<close>

text \<open>The standard frame with the code of the extension behind it, packed; little-endian.\<close>

abbreviation (input) "sizeof_frame_header \<equiv> 13 :: nat"

abbreviation (input) "UWB_TRANSPORT_FCTRL \<equiv> UWB_FCTRL_STD_DATA_FRAME"

definition UWB_DATA_CODE_TRNSPRT_REQUEST :: u16 where [codes]: "UWB_DATA_CODE_TRNSPRT_REQUEST = 0x0411"
definition UWB_DATA_CODE_TRNSPRT_END :: u16 where [codes]: "UWB_DATA_CODE_TRNSPRT_END = 0x041F"

definition fh_fctrl :: "bytes \<Rightarrow> u16" where "fh_fctrl m = get_le16 m 0"
definition fh_seq_num :: "bytes \<Rightarrow> u8" where "fh_seq_num m = get_u8 m 2"
definition fh_PANID :: "bytes \<Rightarrow> u16" where "fh_PANID m = get_le16 m 3"
definition fh_dst_address :: "bytes \<Rightarrow> u16" where "fh_dst_address m = get_le16 m 5"
definition fh_src_address :: "bytes \<Rightarrow> u16" where "fh_src_address m = get_le16 m 7"
definition fh_code :: "bytes \<Rightarrow> u16" where "fh_code m = get_le16 m 9"
definition fh_tsp_code :: "bytes \<Rightarrow> u16" where "fh_tsp_code m = get_le16 m 11"

definition frame_header :: "u16 \<Rightarrow> u8 \<Rightarrow> u16 \<Rightarrow> u16 \<Rightarrow> u16 \<Rightarrow> u16 \<Rightarrow> u16 \<Rightarrow> bytes" where
  "frame_header fctrl seq_num panid dst src code tsp_code =
     (let m = put_le16 (replicate sizeof_frame_header 0) 0 fctrl;
          m = put_u8 m 2 seq_num;
          m = put_le16 m 3 panid;
          m = put_le16 m 5 dst;
          m = put_le16 m 7 src;
          m = put_le16 m 9 code
      in put_le16 m 11 tsp_code)"

text \<open>\<open>UWB_TRANSPORT_MTU_STD\<close> and \<open>UWB_TRANSPORT_MTU_EXT\<close>: less the header and the checksum.\<close>

definition UWB_TRANSPORT_MTU_STD :: nat where "UWB_TRANSPORT_MTU_STD = 128 - sizeof_frame_header - 2"
definition UWB_TRANSPORT_MTU_EXT :: nat where "UWB_TRANSPORT_MTU_EXT = 512 - sizeof_frame_header - 2"

text \<open>The user header of a received packet, behind its packet header.\<close>

definition sizeof_user_header :: nat where "sizeof_user_header = 2 + 2 + 8"

definition uh_tsp_code :: "dpl_mbuf \<Rightarrow> u16" where "uh_tsp_code m = get_le16 (om_databuf m) sizeof_pkthdr"
definition uh_uid :: "dpl_mbuf \<Rightarrow> u16" where "uh_uid m = get_le16 (om_databuf m) (sizeof_pkthdr + 2)"

definition set_user_header :: "u16 \<Rightarrow> u16 \<Rightarrow> u64 \<Rightarrow> dpl_mbuf \<Rightarrow> dpl_mbuf" where
  "set_user_header tsp_code uid self m =
     m\<lparr>om_databuf :=
         put_le64 (put_le16 (put_le16 (om_databuf m) sizeof_pkthdr tsp_code) (sizeof_pkthdr + 2) uid) (sizeof_pkthdr + 4) self\<rparr>"

section \<open>State\<close>

datatype tp_stat =
    Tp_tx_bytes | Tp_tx_packets | Tp_tx_err | Tp_rx_bytes | Tp_rx_packets | Tp_rx_acks | Tp_rx_err | Tp_rx_dup
  | Tp_rx_start_err | Tp_om_writes

record uwb_transport_extension =
  ext_tsp_code :: u16
  ext_id :: nat
  ext_has_transmit_cb :: bool

record uwb_transport_instance =
  tp_has_init :: bool
  tp_awaiting_ack_tx :: bool
  tp_os_msys_mpool :: bool
  tp_dflt_eventq :: bool
  tp_request_acks :: bool
  tp_frame_seq_num :: u8
  tp_ack_seq_num :: int
  tp_last_frame_time :: u32
  tp_last_frame :: bytes
  tp_tx_buffer_len :: u16
  tp_tx_buffer_offset :: u16
  tp_sem :: dpl_sem
  tp_write_tx_lock :: dpl_sem
  tp_ack_sem :: dpl_sem
  tp_tx_q :: "mchain list"
  tp_rx_q :: "mchain list"
  tp_omp :: "dpl_mbuf_pool option"
  tp_extensions :: "uwb_transport_extension list"

text \<open>
  \<open>tn_posted\<close>: the event of the queue of received packets is posted. \<open>tn_freed\<close>: the instance
  was given back. \<open>tn_app\<close> is the state of the extensions.
\<close>

record 'x tp_node =
  tn_dev :: uwb_dev
  tn_tp :: uwb_transport_instance
  tn_heap :: dpl_heap
  tn_stat :: "tp_stat \<Rightarrow> u32"
  tn_posted :: bool
  tn_freed :: bool
  tn_app :: 'x

text \<open>
  What a build fixes: the driver, the callback of the pools, the registered pools, whether the
  device is found by its index, the guards, the address of the instance, and the bytes that lie
  in the uninitialised copy buffer.
\<close>

record tp_build =
  te_uf :: uwb_driver_funcs
  te_cb :: put_callback
  te_pools :: "dpl_mbuf_pool list"
  te_dev_found :: bool
  te_end_guard :: u64
  te_subslot_guard :: u64
  te_self :: u64
  te_stack :: bytes

definition TP_INCN :: "tp_stat \<Rightarrow> u32 \<Rightarrow> 'x tp_node \<Rightarrow> 'x tp_node" where
  "TP_INCN x n s = s\<lparr>tn_stat := (tn_stat s)(x := tn_stat s x + n)\<rparr>"

definition TP_INC :: "tp_stat \<Rightarrow> 'x tp_node \<Rightarrow> 'x tp_node" where
  "TP_INC x = TP_INCN x 1"

definition on_tdev :: "(uwb_dev \<Rightarrow> uwb_dev) \<Rightarrow> 'x tp_node \<Rightarrow> 'x tp_node" where
  "on_tdev f s = s\<lparr>tn_dev := f (tn_dev s)\<rparr>"

definition on_tp :: "(uwb_transport_instance \<Rightarrow> uwb_transport_instance) \<Rightarrow> 'x tp_node \<Rightarrow> 'x tp_node" where
  "on_tp f s = s\<lparr>tn_tp := f (tn_tp s)\<rparr>"

text \<open>\<open>if (dpl_sem_get_count(&sem) == 0) dpl_sem_release(&sem);\<close>\<close>

definition release_if_taken :: "dpl_sem \<Rightarrow> dpl_sem" where
  "release_if_taken sem = (if dpl_sem_get_count sem = 0 then dpl_sem_release sem else sem)"

text \<open>A wait whose result the code does not look at.\<close>

definition pend_any :: "dpl_sem \<Rightarrow> wait_end \<Rightarrow> dpl_sem option" where
  "pend_any sem w = map_option snd (dpl_sem_pend sem w)"

section \<open>Set-up\<close>

definition uwb_transport_mtu :: "tp_build \<Rightarrow> uwb_dev \<Rightarrow> nat" where
  "uwb_transport_mtu B dev =
     (if \<not> te_dev_found B then 0
      else if rx_phrMode (config_rx (dev_config dev)) = 0 then UWB_TRANSPORT_MTU_STD else UWB_TRANSPORT_MTU_EXT)"

definition calloc_transport :: uwb_transport_instance where
  "calloc_transport =
     \<lparr>tp_has_init = False, tp_awaiting_ack_tx = False, tp_os_msys_mpool = True, tp_dflt_eventq = True, tp_request_acks = False,
      tp_frame_seq_num = 0, tp_ack_seq_num = 0, tp_last_frame_time = 0, tp_last_frame = replicate sizeof_frame_header 0,
      tp_tx_buffer_len = 0, tp_tx_buffer_offset = 0, tp_sem = 0, tp_write_tx_lock = 0, tp_ack_sem = 0, tp_tx_q = [], tp_rx_q = [],
      tp_omp = None, tp_extensions = []\<rparr>"

text \<open>With a pool of its own where the build gives one (\<open>uwb_transport_create_mbuf_pool\<close>).\<close>

definition uwb_transport_init :: "uwb_transport_instance option \<Rightarrow> dpl_mbuf_pool option \<Rightarrow> uwb_transport_instance" where
  "uwb_transport_init found own_pool =
     (let p = (case found of None \<Rightarrow> calloc_transport | Some p \<Rightarrow> p);
          p = p\<lparr>tp_sem := dpl_sem_init 1, tp_write_tx_lock := dpl_sem_init 1, tp_ack_sem := dpl_sem_init 1,
                tp_tx_q := [], tp_rx_q := [], tp_request_acks := True\<rparr>;
          p = (case own_pool of None \<Rightarrow> p | Some P \<Rightarrow> p\<lparr>tp_omp := Some P, tp_os_msys_mpool := False\<rparr>)
      in p\<lparr>tp_has_init := True\<rparr>)"

definition free_packet :: "tp_build \<Rightarrow> mchain \<Rightarrow> 'x tp_node \<Rightarrow> 'x tp_node" where
  "free_packet B om s = s\<lparr>tn_heap := snd (dpl_mbuf_free_chain (te_cb B) om (tn_heap s))\<rparr>"

text \<open>The loops that empty the two queues.\<close>

definition empty_queue :: "tp_build \<Rightarrow> mchain list \<Rightarrow> 'x tp_node \<Rightarrow> 'x tp_node" where
  "empty_queue B q s = fold (free_packet B) q s"

definition uwb_transport_free :: "tp_build \<Rightarrow> 'x tp_node \<Rightarrow> 'x tp_node" where
  "uwb_transport_free B s =
     (let s = on_tp (\<lambda>p. p\<lparr>tp_has_init := False\<rparr>) s;
          s = on_tp (\<lambda>p. p\<lparr>tp_rx_q := []\<rparr>) (empty_queue B (tp_rx_q (tn_tp s)) s);
          s = on_tp (\<lambda>p. p\<lparr>tp_tx_q := []\<rparr>) (empty_queue B (tp_tx_q (tn_tp s)) s)
      in s\<lparr>tn_freed := True\<rparr>)"

definition uwb_transport_get_extension :: "u16 \<Rightarrow> uwb_transport_instance \<Rightarrow> uwb_transport_extension option" where
  "uwb_transport_get_extension code p = find (\<lambda>e. ext_tsp_code e = code) (tp_extensions p)"

definition uwb_transport_append_extension :: "uwb_transport_extension \<Rightarrow> uwb_transport_instance \<Rightarrow> uwb_transport_instance" where
  "uwb_transport_append_extension e p = p\<lparr>tp_extensions := slist_insert_after_last (tp_extensions p) e\<rparr>"

fun remove_extension :: "u16 \<Rightarrow> uwb_transport_extension list \<Rightarrow> uwb_transport_extension list" where
  "remove_extension code [] = []"
| "remove_extension code (e # es) = (if ext_tsp_code e = code then es else e # remove_extension code es)"

definition uwb_transport_remove_extension :: "u16 \<Rightarrow> uwb_transport_instance \<Rightarrow> uwb_transport_instance" where
  "uwb_transport_remove_extension code p = p\<lparr>tp_extensions := remove_extension code (tp_extensions p)\<rparr>"

definition extension_signal_tx :: "(nat \<Rightarrow> 'x tp_node \<Rightarrow> 'x tp_node) \<Rightarrow> 'x tp_node \<Rightarrow> 'x tp_node" where
  "extension_signal_tx transmit_cb s =
     fold (\<lambda>e s. if ext_has_transmit_cb e then transmit_cb (ext_id e) s else s) (tp_extensions (tn_tp s)) s"

section \<open>Receiving\<close>

text \<open>
  The event that hands the packets on. The next packet is taken before \<open>has_init\<close> is looked
  at, so one that finds the instance shut down is in no queue any more.
\<close>

partial_function (option) uwb_transport_process_rx_queue ::
    "tp_build \<Rightarrow> (nat \<Rightarrow> u16 \<Rightarrow> mchain \<Rightarrow> 'x tp_node \<Rightarrow> 'x tp_node) \<Rightarrow> 'x tp_node \<Rightarrow> 'x tp_node option" where
  "uwb_transport_process_rx_queue B receive_cb s =
     (let (mbuf, q) = dpl_mqueue_get (tp_rx_q (tn_tp s));
          s = on_tp (\<lambda>p. p\<lparr>tp_rx_q := q\<rparr>) s
      in if mbuf \<noteq> [] \<and> tp_has_init (tn_tp s)
         then uwb_transport_process_rx_queue B receive_cb
                (case uwb_transport_get_extension (uh_tsp_code (hd mbuf)) (tn_tp s) of
                   Some e \<Rightarrow> receive_cb (ext_id e) (uh_uid (hd mbuf)) mbuf s
                 | None \<Rightarrow> free_packet B mbuf s)
         else Some s)"

definition tp_rx_timeout_cb :: "'x tp_node \<Rightarrow> bool \<times> 'x tp_node" where
  "tp_rx_timeout_cb s =
     (if dpl_sem_get_count (tp_ack_sem (tn_tp s)) = 0
      then (True, on_tp (\<lambda>p. p\<lparr>tp_ack_seq_num := -1, tp_ack_sem := dpl_sem_release (tp_ack_sem p)\<rparr>) s)
      else if dpl_sem_get_count (tp_sem (tn_tp s)) = 0
      then (True, on_tp (\<lambda>p. p\<lparr>tp_sem := dpl_sem_release (tp_sem p)\<rparr>) s)
      else (False, s))"

definition new_rx_mbuf :: "tp_build \<Rightarrow> u16 \<Rightarrow> 'x tp_node \<Rightarrow> dpl_mbuf option \<times> 'x tp_node" where
  "new_rx_mbuf B dsize s =
     (let (m, h) = (if tp_os_msys_mpool (tn_tp s)
                    then dpl_msys_get_pkthdr (te_pools B) (unat dsize) sizeof_user_header (tn_heap s)
                    else dpl_mbuf_get_pkthdr (the (tp_omp (tn_tp s))) sizeof_user_header (tn_heap s))
      in (m, s\<lparr>tn_heap := h\<rparr>))"

text \<open>
  The payload becomes an mbuf; \<open>None\<close>: a frame shorter than the header, whose payload length
  is negative, so that bytes behind the receive buffer are copied.
\<close>

definition tp_accept_frame :: "tp_build \<Rightarrow> 'x tp_node \<Rightarrow> 'x tp_node option" where
  "tp_accept_frame B s =
     (let frame = dev_rxbuf (tn_dev s);
          len = dev_frame_len (tn_dev s) - of_nat sizeof_frame_header
      in case new_rx_mbuf B len s of
           (None, s) \<Rightarrow> Some (TP_INC Tp_rx_err s)
         | (Some m, s) \<Rightarrow>
             if unat (dev_frame_len (tn_dev s)) < sizeof_frame_header then None
             else
               let m = set_user_header (fh_tsp_code frame) (fh_src_address frame) (te_self B) m;
                   s = TP_INCN Tp_rx_bytes (ucast len) s;
                   (rc, om, h) = dpl_mbuf_copyinto [m] 0 (drop sizeof_frame_header frame) (int (unat len)) (tn_heap s);
                   s = s\<lparr>tn_heap := h\<rparr>
               in if rc = MB_OK
                  then let (_, posted, q) = dpl_mqueue_put (tp_rx_q (tn_tp s)) True om
                       in Some ((on_tp (\<lambda>p. p\<lparr>tp_rx_q := q\<rparr>) s)\<lparr>tn_posted := tn_posted s \<or> posted\<rparr>)
                  else Some (free_packet B om s))"

definition tp_early_ret :: "'x tp_node \<Rightarrow> 'x tp_node" where
  "tp_early_ret = on_tp (\<lambda>p. p\<lparr>tp_sem := release_if_taken (tp_sem p)\<rparr>)"

definition tp_rx_complete_cb :: "tp_build \<Rightarrow> u32 \<Rightarrow> 'x tp_node \<Rightarrow> (bool \<times> 'x tp_node) option" where
  "tp_rx_complete_cb B cputime s =
     (let dev = tn_dev s; frame = dev_rxbuf dev
      in if dev_fctrl dev = UWB_FCTRL_FRAME_TYPE_ACK then
           Some (True, if dpl_sem_get_count (tp_ack_sem (tn_tp s)) = 0
                       then on_tp (\<lambda>p. p\<lparr>tp_ack_seq_num := uint (get_u8 frame 2), tp_ack_sem := dpl_sem_release (tp_ack_sem p)\<rparr>)
                              (TP_INC Tp_rx_acks s)
                       else s)
         else if dev_fctrl dev \<noteq> UWB_TRANSPORT_FCTRL \<and> dev_fctrl dev \<noteq> UWB_TRANSPORT_FCTRL OR UWB_FCTRL_ACK_REQUESTED
         then Some (False, tp_early_ret s)
         else
           let s = (if st_autoack_triggered (dev_status dev) then on_tp (\<lambda>p. p\<lparr>tp_awaiting_ack_tx := True\<rparr>) s else s)
           in if \<not> in_range UWB_DATA_CODE_TRNSPRT_REQUEST UWB_DATA_CODE_TRNSPRT_END (fh_code frame) then Some (False, tp_early_ret s)
              else if fh_dst_address frame \<noteq> dev_my_short_address dev \<and> fh_dst_address frame \<noteq> 0xffff
              then Some (False, tp_early_ret s)
              else if cputime - tp_last_frame_time (tn_tp s) < 10000 \<and>
                      memcmp (tp_last_frame (tn_tp s)) (take sizeof_frame_header frame) = 0
              then Some (False, tp_early_ret (TP_INC Tp_rx_dup s))
              else
                let s = on_tp (\<lambda>p. p\<lparr>tp_last_frame := take sizeof_frame_header frame, tp_last_frame_time := cputime\<rparr>) s
                in map_option (\<lambda>s. (True, s)) (tp_accept_frame B (TP_INC Tp_rx_packets s)))"

definition tp_tx_begins_cb :: "'x tp_node \<Rightarrow> bool \<times> 'x tp_node" where
  "tp_tx_begins_cb s =
     (if dpl_sem_get_count (tp_write_tx_lock (tn_tp s)) = 0
      then (True, on_tp (\<lambda>p. p\<lparr>tp_write_tx_lock := dpl_sem_release (tp_write_tx_lock p)\<rparr>) s)
      else (False, s))"

definition tp_tx_complete_cb :: "'x tp_node \<Rightarrow> bool \<times> 'x tp_node" where
  "tp_tx_complete_cb s =
     (let s = on_tp (\<lambda>p. p\<lparr>tp_awaiting_ack_tx := False\<rparr>) s
      in if dpl_sem_get_count (tp_sem (tn_tp s)) = 0
         then (True, on_tp (\<lambda>p. p\<lparr>tp_sem := dpl_sem_release (tp_sem p)\<rparr>) s)
         else (False, s))"

definition tp_reset_cb :: "'x tp_node \<Rightarrow> bool \<times> 'x tp_node" where
  "tp_reset_cb s =
     (let s = on_tp (\<lambda>p. if dpl_sem_get_count (tp_ack_sem p) = 0
                          then p\<lparr>tp_ack_seq_num := -1, tp_ack_sem := dpl_sem_release (tp_ack_sem p)\<rparr> else p) s;
          s = on_tp (\<lambda>p. p\<lparr>tp_sem := release_if_taken (tp_sem p)\<rparr>) s;
          s = on_tp (\<lambda>p. p\<lparr>tp_write_tx_lock := release_if_taken (tp_write_tx_lock p)\<rparr>) s
      in (False, s))"

text \<open>Listening, up to the wait of the blocking mode, and the wait.\<close>

definition uwb_transport_listen_start :: "tp_build \<Rightarrow> wait_end \<Rightarrow> u64 \<Rightarrow> u64 \<Rightarrow> 'x tp_node \<Rightarrow> 'x tp_node option" where
  "uwb_transport_listen_start B w dx_time dx_time_end s =
     (case pend_any (tp_sem (tn_tp s)) w of
        None \<Rightarrow> None
      | Some sem \<Rightarrow>
          (let uf = te_uf B;
               s = on_tp (\<lambda>p. p\<lparr>tp_sem := sem\<rparr>) s;
               s = (if dx_time \<noteq> 0
                    then on_tdev (uwb_set_rx_window uf dx_time ((dx_time_end - push_bit 16 (te_end_guard B)) AND UWB_DTU_40BMASK)) s
                    else on_tdev (uwb_set_rx_timeout uf (ucast (drop_bit 16 dx_time_end))) s);
               s = on_tdev (uwb_set_autoack uf True) s;
               s = on_tdev (uwb_set_autoack_delay uf 12) s;
               s = on_tdev (uwb_set_wait4resp uf True) s;
               s = on_tdev (uwb_set_wait4resp_delay uf 0) s;
               s = on_tdev (uwb_set_on_error_continue uf True) s;
               s = on_tdev (uwb_start_rx uf) s
           in Some (if st_start_rx_error (dev_status (tn_dev s))
                    then on_tp (\<lambda>p. p\<lparr>tp_sem := dpl_sem_release (tp_sem p)\<rparr>) (TP_INC Tp_rx_start_err s)
                    else s)))"

definition uwb_transport_listen_wait :: "wait_end \<Rightarrow> 'x tp_node \<Rightarrow> 'x tp_node option" where
  "uwb_transport_listen_wait w s =
     (case dpl_sem_pend (tp_sem (tn_tp s)) w of
        Some (DPL_OK, sem) \<Rightarrow> Some (on_tp (\<lambda>p. p\<lparr>tp_sem := dpl_sem_release sem\<rparr>) s)
      | _ \<Rightarrow> None)"

section \<open>Sending\<close>

text \<open>
  The payload goes to the device in pieces of 128 bytes through a buffer; where the packet
  holds less than its header says, the buffer keeps what it held.
\<close>

function write_payload :: "uwb_driver_funcs \<Rightarrow> mchain \<Rightarrow> int \<Rightarrow> int \<Rightarrow> int \<Rightarrow> bytes \<Rightarrow> uwb_dev \<Rightarrow> uwb_dev" where
  "write_payload uf om tx_len mbuf_offset device_offset buf dev =
     (if mbuf_offset < tx_len
      then let cpy_len = min (tx_len - mbuf_offset) 128;
               buf = write_at buf 0 (snd (dpl_mbuf_copydata om mbuf_offset cpy_len));
               dev = uwb_write_tx uf buf (of_int device_offset) (of_int cpy_len) dev
           in write_payload uf om tx_len (mbuf_offset + cpy_len) (device_offset + cpy_len) buf dev
      else dev)"
  by pat_completeness simp
termination
  by (relation "measure (\<lambda>(_, _, tx_len, mbuf_offset, _). nat (tx_len - mbuf_offset))") auto

declare write_payload.simps [simp del]

text \<open>Header and payload are written into one half of the device's buffer, odd packets into the upper one.\<close>

definition uwb_transport_write_tx :: "tp_build \<Rightarrow> mchain \<Rightarrow> u16 \<Rightarrow> 'x tp_node \<Rightarrow> 'x tp_node option" where
  "uwb_transport_write_tx B om idx s =
     (let dev = tn_dev s;
          pktlen = int (unat (DPL_MBUF_PKTLEN (hd om)));
          tx_buffer_offset = (if idx mod 2 \<noteq> 0 then 512 else 0 :: int);
          tx_len = pktlen - 6;
          seq = tp_frame_seq_num (tn_tp s) + 1;
          s = on_tp (\<lambda>p. p\<lparr>tp_frame_seq_num := seq\<rparr>) s;
          fctrl = (if tp_request_acks (tn_tp s) then UWB_TRANSPORT_FCTRL OR UWB_FCTRL_ACK_REQUESTED else UWB_TRANSPORT_FCTRL);
          (rc1, dst) = dpl_mbuf_copydata om (pktlen - 6) 2;
          (rc2, tsp) = dpl_mbuf_copydata om (pktlen - 4) 2
      in if rc1 \<noteq> 0 \<or> rc2 \<noteq> 0 then None
         else
           let hdr = frame_header fctrl seq (dev_pan_id dev) (get_le16 dst 0) (dev_my_short_address dev)
                       UWB_DATA_CODE_TRNSPRT_REQUEST (get_le16 tsp 0);
               s = on_tdev (uwb_write_tx (te_uf B) hdr (of_int tx_buffer_offset) (of_nat sizeof_frame_header)) s;
               s = on_tdev (write_payload (te_uf B) om tx_len 0 (int sizeof_frame_header + tx_buffer_offset) (te_stack B)) s
           in Some (on_tp (\<lambda>p. p\<lparr>tp_tx_buffer_len := of_int (int sizeof_frame_header + pktlen - 6),
                                 tp_tx_buffer_offset := of_int tx_buffer_offset\<rparr>) s))"

definition uwb_transport_start_tx :: "tp_build \<Rightarrow> u64 \<Rightarrow> 'x tp_node \<Rightarrow> 'x tp_node" where
  "uwb_transport_start_tx B dx_time s =
     (let uf = te_uf B;
          s = (if dx_time \<noteq> 0 then on_tdev (uwb_set_delay_start uf dx_time) s else s);
          s = (if tp_request_acks (tn_tp s)
               then let s = on_tdev (uwb_set_wait4resp uf True) s;
                        s = on_tdev (uwb_set_rx_timeout uf (12 + 10 + ucast (uwb_phy_frame_duration uf 5))) s
                    in on_tdev (uwb_set_rxauto_disable uf True) s
               else s);
          s = on_tdev (uwb_write_tx_fctrl uf (tp_tx_buffer_len (tn_tp s)) (tp_tx_buffer_offset (tn_tp s))) s
      in on_tdev (uwb_start_tx uf) s)"

text \<open>
  The local variables of the sending loop. \<open>tl_held\<close>: \<open>mp\<close> is not NULL; the packet held is then
  the first one in the queue, from which only this loop takes.
\<close>

record tp_locals =
  tl_n_sent :: int
  tl_transferred :: bool
  tl_held :: bool
  tl_idx :: u16
  tl_arg_dx_time :: u64
  tl_dx_time :: u64
  tl_dx_time_end :: u64
  tl_preamble :: u64
  tl_last_duration :: u64

text \<open>Where the loop is: before one of its waits, or at its end, with the result.\<close>

datatype tp_pc = Wait_write_lock | Wait_sem | Wait_ack_sem | Wait_ack | Wait_end | Dequeue_returned bool

type_synonym 'x tp_loop = "tp_pc \<times> tp_locals \<times> 'x tp_node"

text \<open>The top of the loop, down to its first wait.\<close>

definition dequeue_top :: "tp_build \<Rightarrow> tp_locals \<Rightarrow> 'x tp_node \<Rightarrow> 'x tp_loop" where
  "dequeue_top B l s =
     (if \<not> tp_has_init (tn_tp s) then (Wait_end, l, s)
      else if \<not> tl_held l \<and> tp_tx_q (tn_tp s) = [] then (Wait_end, l, s)
      else
        let l = (if tl_held l then l else l\<lparr>tl_held := True, tl_transferred := False\<rparr>);
            om = hd (tp_tx_q (tn_tp s));
            dx_time = (tl_dx_time l + tl_last_duration l) AND UWB_DTU_40BMASK;
            data_duration = ucast (uwb_usecs_to_dwt_usecs (uwb_phy_data_duration (te_uf B)
                              (DPL_MBUF_PKTLEN (hd om) + of_nat sizeof_frame_header))) :: u64;
            next_duration = push_bit 16 (tl_preamble l + data_duration + te_subslot_guard B);
            l = l\<lparr>tl_dx_time := dx_time, tl_last_duration := next_duration\<rparr>;
            remaining = tl_dx_time_end l - ((dx_time + next_duration) AND UWB_DTU_40BMASK) - push_bit 16 (te_end_guard B)
        in if tl_dx_time_end l \<noteq> 0 \<and> remaining > 0x7fffffffff then (Wait_end, l, s)
           else (Wait_write_lock, l, s))"

text \<open>The condition of the loop, where \<open>continue\<close> goes, too.\<close>

definition dequeue_cond :: "tp_build \<Rightarrow> tp_locals \<Rightarrow> 'x tp_node \<Rightarrow> 'x tp_loop" where
  "dequeue_cond B l s =
     (if tp_tx_q (tn_tp s) \<noteq> [] \<and> tp_has_init (tn_tp s) then dequeue_top B l s else (Wait_end, l, s))"

definition uwb_transport_dequeue_tx :: "tp_build \<Rightarrow> u64 \<Rightarrow> u64 \<Rightarrow> 'x tp_node \<Rightarrow> 'x tp_loop" where
  "uwb_transport_dequeue_tx B arg_dx_time dx_time_end s =
     (let l = \<lparr>tl_n_sent = 0, tl_transferred = False, tl_held = False, tl_idx = 0, tl_arg_dx_time = arg_dx_time,
               tl_dx_time = arg_dx_time, tl_dx_time_end = dx_time_end,
               tl_preamble = ucast (uwb_usecs_to_dwt_usecs (uwb_phy_SHR_duration (te_uf B))), tl_last_duration = 0\<rparr>
      in if tp_tx_q (tn_tp s) = [] then (Dequeue_returned False, l, s) else dequeue_top B l s)"

definition dequeue_write :: "tp_build \<Rightarrow> tp_locals \<Rightarrow> 'x tp_node \<Rightarrow> 'x tp_loop option" where
  "dequeue_write B l s =
     map_option (\<lambda>(l, s). (Wait_sem, l\<lparr>tl_transferred := True\<rparr>, s))
       (if tl_transferred l then Some (l, s)
        else map_option (\<lambda>s. (l\<lparr>tl_idx := tl_idx l + 1, tl_n_sent := 0\<rparr>, s))
               (uwb_transport_write_tx B (hd (tp_tx_q (tn_tp s))) (tl_idx l + 1) (TP_INC Tp_om_writes s)))"

text \<open>The packet has gone, or is given up.\<close>

definition dequeue_drop :: "tp_build \<Rightarrow> tp_locals \<Rightarrow> 'x tp_node \<Rightarrow> tp_locals \<times> 'x tp_node" where
  "dequeue_drop B l s =
     (let (om, q) = dpl_mqueue_get (tp_tx_q (tn_tp s))
      in (l\<lparr>tl_held := False, tl_transferred := False\<rparr>, free_packet B om (on_tp (\<lambda>p. p\<lparr>tp_tx_q := q\<rparr>) s)))"

definition dequeue_sent :: "tp_build \<Rightarrow> (nat \<Rightarrow> 'x tp_node \<Rightarrow> 'x tp_node) \<Rightarrow> tp_locals \<Rightarrow> 'x tp_node \<Rightarrow> 'x tp_loop" where
  "dequeue_sent B transmit_cb l s =
     (let s = TP_INC Tp_tx_packets s;
          s = TP_INCN Tp_tx_bytes (ucast (DPL_MBUF_PKTLEN (hd (hd (tp_tx_q (tn_tp s))))) - 4) s;
          (l, s) = dequeue_drop B l s
      in dequeue_cond B l (extension_signal_tx transmit_cb s))"

text \<open>A new value of the number of retries replaces the last two bytes of the packet.\<close>

definition set_retries :: "tp_build \<Rightarrow> u16 \<Rightarrow> tp_locals \<Rightarrow> 'x tp_node \<Rightarrow> tp_locals \<times> 'x tp_node" where
  "set_retries B retries l s =
     (let (om, h) = dpl_mbuf_adj (te_cb B) (hd (tp_tx_q (tn_tp s))) (- 2) (tn_heap s);
          (pos, om, h) = dpl_mbuf_extend om 2 h;
          (om, l) = (case pos of
                       None \<Rightarrow> (om, l)
                     | Some i \<Rightarrow>
                         (butlast om @ [(last om)\<lparr>om_databuf :=
                            put_le16 (om_databuf (last om)) i (retries - of_int (tl_n_sent l))\<rparr>],
                          l\<lparr>tl_n_sent := 0\<rparr>))
      in (l, (on_tp (\<lambda>p. p\<lparr>tp_tx_q := (tp_tx_q p)[0 := om]\<rparr>) s)\<lparr>tn_heap := h\<rparr>))"

definition dequeue_not_acked :: "tp_build \<Rightarrow> tp_locals \<Rightarrow> 'x tp_node \<Rightarrow> (tp_locals \<times> 'x tp_node) option" where
  "dequeue_not_acked B l s =
     (let om = hd (tp_tx_q (tn_tp s));
          (rc, r) = dpl_mbuf_copydata om (int (unat (DPL_MBUF_PKTLEN (hd om))) - 2) 2;
          retries = get_le16 r 0
      in if rc \<noteq> 0 then None
         else if tl_n_sent l > int (unat retries) then Some (dequeue_drop B l s)
         else Some (set_retries B retries l s))"

definition dequeue_start :: "tp_build \<Rightarrow> (nat \<Rightarrow> 'x tp_node \<Rightarrow> 'x tp_node) \<Rightarrow> tp_locals \<Rightarrow> 'x tp_node \<Rightarrow> 'x tp_loop" where
  "dequeue_start B transmit_cb l s =
     (let s = uwb_transport_start_tx B (if tl_arg_dx_time l \<noteq> 0 then tl_dx_time l else 0) s
      in if st_start_tx_error (dev_status (tn_dev s))
         then
           let s = TP_INC Tp_tx_err s;
               s = on_tp (\<lambda>p. p\<lparr>tp_sem := release_if_taken (tp_sem p), tp_write_tx_lock := release_if_taken (tp_write_tx_lock p),
                                tp_ack_sem := release_if_taken (tp_ack_sem p)\<rparr>) s;
               systime = uwb_read_systime (te_uf B) (tn_dev s);
               l = (if tl_dx_time l - systime > 0x7fffffffff
                    then l\<lparr>tl_dx_time := systime + push_bit 16 (tl_preamble l)\<rparr> else l)
           in dequeue_cond B l s
         else
           let l = l\<lparr>tl_n_sent := tl_n_sent l + 1\<rparr>
           in if tp_request_acks (tn_tp s) then (Wait_ack, l, s) else dequeue_sent B transmit_cb l s)"

text \<open>One step: the wait the loop is at ends as \<open>w\<close>, and the loop runs to its next wait.\<close>

definition dequeue_step :: "tp_build \<Rightarrow> (nat \<Rightarrow> 'x tp_node \<Rightarrow> 'x tp_node) \<Rightarrow> wait_end \<Rightarrow> 'x tp_loop \<Rightarrow> 'x tp_loop option" where
  "dequeue_step B transmit_cb w c =
     (case c of (pc, l, s) \<Rightarrow>
        (case pc of
           Wait_write_lock \<Rightarrow>
             (case pend_any (tp_write_tx_lock (tn_tp s)) w of
                None \<Rightarrow> None
              | Some sem \<Rightarrow> dequeue_write B l (on_tp (\<lambda>p. p\<lparr>tp_write_tx_lock := sem\<rparr>) s))
         | Wait_sem \<Rightarrow>
             (case pend_any (tp_sem (tn_tp s)) w of
                None \<Rightarrow> None
              | Some sem \<Rightarrow>
                  (let s = on_tp (\<lambda>p. p\<lparr>tp_sem := sem\<rparr>) s
                   in Some (if tp_request_acks (tn_tp s) then (Wait_ack_sem, l, s) else dequeue_start B transmit_cb l s)))
         | Wait_ack_sem \<Rightarrow>
             (case pend_any (tp_ack_sem (tn_tp s)) w of
                None \<Rightarrow> None
              | Some sem \<Rightarrow> Some (dequeue_start B transmit_cb l (on_tp (\<lambda>p. p\<lparr>tp_ack_sem := sem\<rparr>) s)))
         | Wait_ack \<Rightarrow>
             (case pend_any (tp_ack_sem (tn_tp s)) w of
                None \<Rightarrow> None
              | Some sem \<Rightarrow>
                  (let s = on_tp (\<lambda>p. p\<lparr>tp_ack_sem := release_if_taken sem\<rparr>) s
                   in if tp_ack_seq_num (tn_tp s) \<noteq> int (unat (tp_frame_seq_num (tn_tp s)))
                      then map_option (\<lambda>(l, s). dequeue_cond B l s) (dequeue_not_acked B l s)
                      else Some (dequeue_sent B transmit_cb l s)))
         | Wait_end \<Rightarrow>
             (case pend_any (tp_sem (tn_tp s)) w of
                None \<Rightarrow> None
              | Some sem \<Rightarrow> Some (Dequeue_returned True, l, on_tp (\<lambda>p. p\<lparr>tp_sem := release_if_taken sem\<rparr>) s))
         | Dequeue_returned _ \<Rightarrow> None))"

section \<open>The queue of packets to send\<close>

definition uwb_transport_enqueue_tx ::
    "tp_build \<Rightarrow> u16 \<Rightarrow> u16 \<Rightarrow> u16 \<Rightarrow> mchain \<Rightarrow> 'x tp_node \<Rightarrow> mbuf_rc \<times> 'x tp_node" where
  "uwb_transport_enqueue_tx B dst_addr tsp_code retries om s =
     (if unat (DPL_MBUF_PKTLEN (hd om)) > uwb_transport_mtu B (tn_dev s) then (MB_EINVAL, s)
      else case dpl_mbuf_extend om 6 (tn_heap s) of
          (None, om, h) \<Rightarrow> (MB_EINVAL, free_packet B om (s\<lparr>tn_heap := h\<rparr>))
        | (Some i, om, h) \<Rightarrow>
            (let trailer = (\<lambda>m. put_le16 (put_le16 (put_le16 m i dst_addr) (i + 2) tsp_code) (i + 4) retries);
                 om = butlast om @ [(last om)\<lparr>om_databuf := trailer (om_databuf (last om))\<rparr>];
                 s = s\<lparr>tn_heap := h\<rparr>
             in case dpl_mqueue_put (tp_tx_q (tn_tp s)) False om of
                  (MB_OK, _, q) \<Rightarrow> (MB_OK, on_tp (\<lambda>p. p\<lparr>tp_tx_q := q\<rparr>) s)
                | _ \<Rightarrow> (MB_EINVAL, free_packet B om s)))"

definition uwb_transport_new_mbuf :: "tp_build \<Rightarrow> 'x tp_node \<Rightarrow> dpl_mbuf option \<times> 'x tp_node" where
  "uwb_transport_new_mbuf B s = new_rx_mbuf B 32 s"

end
