(* ===== verification/Uwb_Transport_Facts.thy ===== *)
theory Uwb_Transport_Facts
  imports Uwb_Transport Dpl_Mbuf_Pullup
begin

text \<open>
  What the transport does to its packets. A packet to send is its payload followed by address,
  code and retries (\<open>trailer\<close>); \<open>tp_mem\<close> accounts for every buffer of the pool: it is free, or in
  exactly one packet of the queues or of the client. \<open>radio_memory\<close> is what the writes of a node
  leave in the transmit buffer of its device, \<open>sent_frame\<close> the frame that goes on the air.
\<close>

unbundle bit_operations_syntax

section \<open>Frame headers\<close>

lemma write_at_append: "write_at (write_at m i xs) (i + length xs) ys = write_at m i (xs @ ys)"
  by (induction m i xs rule: write_at.induct) (auto simp: add.commute[of _ "length _"])

lemma length_frame_header [simp]: "length (frame_header f q p d a c t) = 13"
  by (simp add: frame_header_def Let_def)

lemma frame_header_fields [simp]:
  "fh_fctrl (frame_header f q p d a c t) = f" "fh_seq_num (frame_header f q p d a c t) = q"
  "fh_PANID (frame_header f q p d a c t) = p" "fh_dst_address (frame_header f q p d a c t) = d"
  "fh_src_address (frame_header f q p d a c t) = a" "fh_code (frame_header f q p d a c t) = c"
  "fh_tsp_code (frame_header f q p d a c t) = t"
  by (simp_all add: frame_header_def Let_def fh_fctrl_def fh_seq_num_def fh_PANID_def fh_dst_address_def fh_src_address_def
      fh_code_def fh_tsp_code_def le16.get_put_same le16.get_put_other by8.get_put_same p8_16.getA_putB p8_16.getB_putA)

lemma fh_append [simp]:
  assumes "13 \<le> length xs"
  shows "fh_fctrl (xs @ ys) = fh_fctrl xs" "fh_dst_address (xs @ ys) = fh_dst_address xs"
    "fh_src_address (xs @ ys) = fh_src_address xs" "fh_code (xs @ ys) = fh_code xs" "fh_tsp_code (xs @ ys) = fh_tsp_code xs"
  using assms
  by (simp_all add: fh_fctrl_def fh_dst_address_def fh_src_address_def fh_code_def fh_tsp_code_def le16.get_append)

section \<open>Packets\<close>

definition trailer :: "u16 \<Rightarrow> u16 \<Rightarrow> u16 \<Rightarrow> bytes" where
  "trailer dst tsp retries = le16_bytes dst @ le16_bytes tsp @ le16_bytes retries"

lemma length_trailer [simp]: "length (trailer d t r) = 6"
  by (simp add: trailer_def length_le16_bytes)

lemma put_trailer: "put_le16 (put_le16 (put_le16 m i d) (i + 2) t) (i + 4) r = write_at m i (trailer d t r)"
proof -
  have "put_le16 (put_le16 m i d) (i + 2) t = write_at m i (le16_bytes d @ le16_bytes t)"
    using write_at_append[of m i "le16_bytes d"] by (simp add: put_le16_writes length_le16_bytes)
  then show ?thesis
    using write_at_append[of m i "le16_bytes d @ le16_bytes t"] by (simp add: put_le16_writes length_le16_bytes trailer_def)
qed

text \<open>A packet is a chain with a packet header that counts its data.\<close>

definition packet :: "mchain \<Rightarrow> bool" where
  "packet om \<longleftrightarrow> om \<noteq> [] \<and> DPL_MBUF_IS_PKTHDR (hd om) \<and> hdr_counts om \<and> chain_len om < 65536"

lemma packet_pktlen: "packet om \<Longrightarrow> unat (DPL_MBUF_PKTLEN (hd om)) = chain_len om"
  by (simp add: packet_def hdr_counts_def unat_of_nat)

text \<open>Overwriting the last bytes of a chain, where they are all in its last buffer.\<close>

lemma last_overlay:
  assumes ok: "\<forall>m \<in> set om. mbuf_ok P m" and ne: "om \<noteq> []"
    and at: "off + length xs = om_data (last om) + om_len (last om)" and room: "length xs \<le> om_len (last om)"
  defines "om' \<equiv> butlast om @ [(last om)\<lparr>om_databuf := write_at (om_databuf (last om)) off xs\<rparr>]"
  shows "map om_addr om' = map om_addr om" and "\<forall>m \<in> set om'. mbuf_ok P m"
    and "chain_data om' = take (chain_len om - length xs) (chain_data om) @ xs" and "chain_len om' = chain_len om"
    and "packet om \<Longrightarrow> packet om'"
proof -
  let ?l = "last om" and ?k = "length xs"
  let ?l' = "?l\<lparr>om_databuf := write_at (om_databuf ?l) off xs\<rparr>"
  have om: "om = butlast om @ [?l]" using ne by simp
  have lok: "mbuf_ok P ?l" using ok ne by simp
  have off: "off = om_data ?l + (om_len ?l - ?k)" using at room by linarith
  have same: "?l' = mbuf_write ?l (om_len ?l - ?k) xs" using off by (simp add: mbuf_write_def)
  have lok': "mbuf_ok P ?l'" using lok by (simp add: mbuf_ok_def)
  then show "\<forall>m \<in> set om'. mbuf_ok P m" using ok by (auto simp: om'_def dest: in_set_butlastD)
  show "map om_addr om' = map om_addr om"
    using arg_cong[OF om, of "map om_addr"] by (simp add: om'_def)
  have len: "map om_len om' = map om_len om"
    using arg_cong[OF om, of "map om_len"] by (simp add: om'_def)
  then show cl: "chain_len om' = chain_len om" by (simp add: chain_len_def)
  have "mbuf_data ?l' = write_at (mbuf_data ?l) (om_len ?l - ?k) xs"
    unfolding same using room lok by (intro mbuf_data_overlay) (auto simp: mbuf_ok_def)
  also have "\<dots> = take (om_len ?l - ?k) (mbuf_data ?l) @ xs"
    using room length_mbuf_data[OF lok] by (simp add: write_at_slices)
  finally have "chain_data om' = chain_data (butlast om) @ take (om_len ?l - ?k) (mbuf_data ?l) @ xs"
    by (simp add: om'_def)
  moreover have "length (chain_data (butlast om)) = chain_len (butlast om)"
    using ok by (intro length_chain_data) (auto dest: in_set_butlastD)
  ultimately show "chain_data om' = take (chain_len om - ?k) (chain_data om) @ xs"
    using last_chain[OF ne] room by simp
  show "packet om'" if "packet om"
  proof -
    have "DPL_MBUF_IS_PKTHDR ?l' = DPL_MBUF_IS_PKTHDR ?l" by simp
    moreover have "DPL_MBUF_PKTLEN ?l' = DPL_MBUF_PKTLEN ?l" if "DPL_MBUF_IS_PKTHDR ?l"
      using pkthdr_room[OF lok that] off by (simp add: DPL_MBUF_PKTLEN_def le16.get_write_at_other)
    ultimately have "DPL_MBUF_IS_PKTHDR (hd om') = DPL_MBUF_IS_PKTHDR (hd om)"
      "DPL_MBUF_IS_PKTHDR (hd om) \<Longrightarrow> DPL_MBUF_PKTLEN (hd om') = DPL_MBUF_PKTLEN (hd om)"
      using om by (cases "butlast om"; metis append_Cons append_Nil list.sel(1) om'_def)+
    then show ?thesis using that cl by (simp add: packet_def hdr_counts_def om'_def)
  qed
qed

text \<open>Appending bytes in one piece, as \<open>dpl_mbuf_extend\<close> and a write through its result do.\<close>

lemma extend_write:
  assumes own: "own P B h fl (om @ os)" and pk: "packet om" and len: "length xs \<le> omp_databuf_len P"
    and room: "length xs \<le> DPL_MBUF_TRAILINGSPACE (last om) \<or> fl \<noteq> []" and small: "chain_len om + length xs < 65536"
  shows "\<exists>i om1 h' fl'. dpl_mbuf_extend om (length xs) h = (Some i, om1, h') \<and>
    (let om' = butlast om1 @ [(last om1)\<lparr>om_databuf := write_at (om_databuf (last om1)) i xs\<rparr>]
     in own P B h' fl' (om' @ os) \<and> packet om' \<and> chain_data om' = chain_data om @ xs)"
proof -
  have ne: "om \<noteq> []" using pk by (simp add: packet_def)
  obtain i om1 h' fl' ys where e: "dpl_mbuf_extend om (length xs) h = (Some i, om1, h')"
    and own1: "own P B h' fl' (om1 @ os)" and ys: "length ys = length xs" "chain_data om1 = chain_data om @ ys"
    and at: "i + length xs = om_data (last om1) + om_len (last om1)" and hc: "hdr_counts om \<longrightarrow> hdr_counts om1"
    and ne1: "om1 \<noteq> []" "length xs \<le> om_len (last om1)" and hp: "DPL_MBUF_IS_PKTHDR (hd om1) = DPL_MBUF_IS_PKTHDR (hd om)"
    using extend_ok[OF own ne len room] by blast
  have oks: "\<forall>m \<in> set om1. mbuf_ok P m" "\<forall>m \<in> set os. mbuf_ok P m" "\<forall>m \<in> set om. mbuf_ok P m"
    using own_ok[OF own1] own_ok[OF own] by auto
  have cl: "chain_len om1 = chain_len om + length xs"
    using length_chain_data[OF oks(1)] length_chain_data[OF oks(3)] ys by simp
  then have pk1: "packet om1" using pk hc hp ne1 small by (simp add: packet_def)
  note o = last_overlay[OF oks(1) ne1(1) at ne1(2)]
  let ?om' = "butlast om1 @ [(last om1)\<lparr>om_databuf := write_at (om_databuf (last om1)) i xs\<rparr>]"
  have "own P B h' fl' (?om' @ os)"
    using o(1,2) oks(2) by (intro own_update[OF own1]) auto
  moreover have "chain_data ?om' = chain_data om @ xs"
    using o(3) cl ys length_chain_data[OF oks(3)] by simp
  ultimately show ?thesis using e o(5)[OF pk1] by (auto simp: Let_def)
qed

lemma extend_fails:
  assumes own: "own P B h fl (om @ os)" and "om \<noteq> []" and "dpl_mbuf_extend om n h = (None, om1, h1)"
  shows "om1 = om \<and> h1 = h"
proof -
  have omp: "the (om_omp (hd om)) = P" using own_ok[OF own] assms(2) by (cases om) (auto simp: mbuf_ok_def)
  show ?thesis
  proof (cases fl)
    case Nil
    then show ?thesis
      using assms(3) omp own_get_none[of P B h "om @ os" 0] own
      by (auto simp: dpl_mbuf_extend_def Let_def split: if_splits)
  next
    case (Cons b fl1)
    obtain new h2 where "dpl_mbuf_get P 0 h = (Some new, h2)"
      by (rule own_get[OF own[unfolded Cons], of 0]) auto
    then show ?thesis using assms(3) omp by (auto simp: dpl_mbuf_extend_def Let_def split: if_splits)
  qed
qed

text \<open>The retries are the last two bytes of a packet to send.\<close>

lemma retries_replaced:
  assumes own: "own P B h fl (om @ os)" and pk: "packet om" and data: "chain_data om = d @ trailer dst tsp r"
    and size: "2 \<le> omp_databuf_len P"
  shows "\<exists>om1 h1 i om2 h' fl'. dpl_mbuf_adj cb om (- 2) h = (om1, h1) \<and> dpl_mbuf_extend om1 2 h1 = (Some i, om2, h') \<and>
    (let om' = butlast om2 @ [(last om2)\<lparr>om_databuf := put_le16 (om_databuf (last om2)) i r'\<rparr>]
     in own P B h' fl' (om' @ os) \<and> packet om' \<and> chain_data om' = d @ trailer dst tsp r')"
proof -
  have ne: "om \<noteq> []" using pk by (simp add: packet_def)
  have oks: "\<forall>m \<in> set om. mbuf_ok P m" using own_ok[OF own] by simp
  have cl: "chain_len om = length d + 6" using length_chain_data[OF oks] data by simp
  obtain om1 h1 fl1 where a: "dpl_mbuf_adj cb om (- int 2) h = (om1, h1)" and own1: "own P B h1 fl1 (om1 @ os)"
    and d1: "chain_data om1 = take (chain_len om - 2) (chain_data om)" and hc: "hdr_counts om1"
    and hp: "om1 \<noteq> []" "DPL_MBUF_IS_PKTHDR (hd om1)" and room: "2 \<le> DPL_MBUF_TRAILINGSPACE (last om1) \<or> fl1 \<noteq> []"
    using adj_neg[OF own ne, of 2 cb] pk cl by (fastforce simp: packet_def)
  have d1': "chain_data om1 = d @ le16_bytes dst @ le16_bytes tsp"
    using d1 cl data by (simp add: trailer_def length_le16_bytes)
  have "chain_len om1 = length d + 4"
    using length_chain_data[of om1 P] own_ok[OF own1] d1' by (simp add: length_le16_bytes)
  moreover from this have "packet om1" using hc hp pk cl by (simp add: packet_def)
  ultimately obtain i om2 h' fl' where e: "dpl_mbuf_extend om1 2 h1 = (Some i, om2, h')"
    and res: "let om' = butlast om2 @ [(last om2)\<lparr>om_databuf := write_at (om_databuf (last om2)) i (le16_bytes r')\<rparr>]
      in own P B h' fl' (om' @ os) \<and> packet om' \<and> chain_data om' = chain_data om1 @ le16_bytes r'"
    using extend_write[OF own1, of "le16_bytes r'"] size room pk cl by (auto simp: length_le16_bytes packet_def)
  have res': "let om' = butlast om2 @ [(last om2)\<lparr>om_databuf := put_le16 (om_databuf (last om2)) i r'\<rparr>]
     in own P B h' fl' (om' @ os) \<and> packet om' \<and> chain_data om' = d @ trailer dst tsp r'"
    using res d1' by (simp add: put_le16_writes trailer_def Let_def)
  show ?thesis
    using a e res' by (intro exI[of _ om1] exI[of _ h1] exI[of _ i] exI[of _ om2] exI[of _ h'] exI[of _ fl']) simp
qed

end
