(* ===== verification/Uwb_Transport_System.thy ===== *)
theory Uwb_Transport_System
  imports Uwb_Transport_Facts "HOL-Library.Sublist"
begin

text \<open>
  A node with a client: interrupts, the sending loop and a client that makes packets, fills them,
  sends them, and takes what is received, in any order. \<open>tp_ok\<close> holds of all states reached:
  every buffer of the pool is free or in exactly one packet, of the queues or of the client, every
  packet counts its data, and those to send end in a trailer.
\<close>

unbundle bit_operations_syntax

type_synonym client_node = "mchain list tp_node"

definition take_packet :: "nat \<Rightarrow> u16 \<Rightarrow> mchain \<Rightarrow> client_node \<Rightarrow> client_node" where
  "take_packet i uid om s = s\<lparr>tn_app := tn_app s @ [om]\<rparr>"

definition no_signal :: "nat \<Rightarrow> client_node \<Rightarrow> client_node" where
  "no_signal i s = s"

definition receive_frame :: "bytes \<Rightarrow> bool \<Rightarrow> client_node \<Rightarrow> client_node" where
  "receive_frame f autoack =
     on_tdev (\<lambda>d. d\<lparr>dev_rxbuf := f, dev_frame_len := of_nat (length f), dev_fctrl := fh_fctrl f,
                    dev_status := (dev_status d)\<lparr>st_autoack_triggered := autoack\<rparr>\<rparr>)"

definition remove_nth :: "nat \<Rightarrow> 'a list \<Rightarrow> 'a list" where
  "remove_nth i xs = take i xs @ drop (Suc i) xs"

definition client_new :: "tp_build \<Rightarrow> client_node \<Rightarrow> client_node" where
  "client_new B s =
     (case uwb_transport_new_mbuf B s of
        (None, s) \<Rightarrow> s
      | (Some m, s) \<Rightarrow> s\<lparr>tn_app := tn_app s @ [[m]]\<rparr>)"

text \<open>Adding data to a packet, up to 65535 bytes in all.\<close>

definition client_append :: "nat \<Rightarrow> bytes \<Rightarrow> client_node \<Rightarrow> client_node" where
  "client_append i xs s =
     (if i < length (tn_app s) \<and> chain_len (tn_app s ! i) + length xs < 65536
      then let (_, om, h) = dpl_mbuf_append (tn_app s ! i) xs (length xs) (tn_heap s)
           in s\<lparr>tn_app := (tn_app s)[i := om], tn_heap := h\<rparr>
      else s)"

definition client_free :: "tp_build \<Rightarrow> nat \<Rightarrow> client_node \<Rightarrow> client_node" where
  "client_free B i s =
     (if i < length (tn_app s) then free_packet B (tn_app s ! i) (s\<lparr>tn_app := remove_nth i (tn_app s)\<rparr>) else s)"

text \<open>A packet that is refused for its length stays with the client; otherwise it is given away.\<close>

definition client_send :: "tp_build \<Rightarrow> nat \<Rightarrow> u16 \<Rightarrow> u16 \<Rightarrow> u16 \<Rightarrow> client_node \<Rightarrow> client_node" where
  "client_send B i dst tsp retries s =
     (if i < length (tn_app s) \<and> unat (DPL_MBUF_PKTLEN (hd (tn_app s ! i))) \<le> uwb_transport_mtu B (tn_dev s)
      then snd (uwb_transport_enqueue_tx B dst tsp retries (tn_app s ! i) (s\<lparr>tn_app := remove_nth i (tn_app s)\<rparr>))
      else s)"

datatype tp_op =
    Op_received u32 bytes bool | Op_rx_timeout | Op_tx_begins | Op_tx_complete | Op_reset
  | Op_listen wait_end u64 u64 | Op_listen_wait wait_end | Op_process
  | Op_new | Op_append nat bytes | Op_free nat | Op_send nat u16 u16 u16
  | Op_dequeue u64 u64 | Op_step wait_end

text \<open>One step; \<open>None\<close> if it is not possible: a wait without a token, or the loop not there.\<close>

fun node_step :: "tp_build \<Rightarrow> tp_op \<Rightarrow> client_node \<Rightarrow> client_node option" where
  "node_step B (Op_received cputime f autoack) s = map_option snd (tp_rx_complete_cb B cputime (receive_frame f autoack s))"
| "node_step B Op_rx_timeout s = Some (snd (tp_rx_timeout_cb s))"
| "node_step B Op_tx_begins s = Some (snd (tp_tx_begins_cb s))"
| "node_step B Op_tx_complete s = Some (snd (tp_tx_complete_cb s))"
| "node_step B Op_reset s = Some (snd (tp_reset_cb s))"
| "node_step B (Op_listen w dx dx_end) s = uwb_transport_listen_start B w dx dx_end s"
| "node_step B (Op_listen_wait w) s = uwb_transport_listen_wait w s"
| "node_step B Op_process s = uwb_transport_process_rx_queue B take_packet s"
| "node_step B Op_new s = Some (client_new B s)"
| "node_step B (Op_append i xs) s = Some (client_append i xs s)"
| "node_step B (Op_free i) s = Some (client_free B i s)"
| "node_step B (Op_send i dst tsp retries) s = Some (client_send B i dst tsp retries s)"
| "node_step B _ s = None"

fun tp_step :: "tp_build \<Rightarrow> tp_op \<Rightarrow> mchain list tp_loop \<Rightarrow> mchain list tp_loop option" where
  "tp_step B (Op_dequeue dx dx_end) (Dequeue_returned b, l, s) = Some (uwb_transport_dequeue_tx B dx dx_end s)"
| "tp_step B (Op_step w) c = dequeue_step B no_signal w c"
| "tp_step B op (pc, l, s) = map_option (\<lambda>s. (pc, l, s)) (node_step B op s)"

fun tp_run :: "tp_build \<Rightarrow> tp_op list \<Rightarrow> mchain list tp_loop \<Rightarrow> mchain list tp_loop option" where
  "tp_run B [] c = Some c"
| "tp_run B (op # ops) c = Option.bind (tp_step B op c) (tp_run B ops)"

section \<open>The invariant\<close>

definition tp_packets :: "client_node \<Rightarrow> mchain list" where
  "tp_packets s = tp_tx_q (tn_tp s) @ tp_rx_q (tn_tp s) @ tn_app s"

definition to_send :: "mchain \<Rightarrow> bool" where
  "to_send om \<longleftrightarrow> packet om \<and> (\<exists>d dst tsp r. chain_data om = d @ trailer dst tsp r)"

definition pools_ok :: "dpl_mbuf_pool \<Rightarrow> tp_build \<Rightarrow> uwb_transport_instance \<Rightarrow> bool" where
  "pools_ok P Bd p \<longleftrightarrow> tp_has_init p \<and> (if tp_os_msys_mpool p then te_pools Bd = [P] else tp_omp p = Some P) \<and> 28 \<le> omp_databuf_len P"

definition tp_mem :: "dpl_mbuf_pool \<Rightarrow> addr set \<Rightarrow> dpl_heap \<Rightarrow> mchain list \<Rightarrow> mchain list \<Rightarrow> mchain list \<Rightarrow> bool" where
  "tp_mem P B h tx rx app \<longleftrightarrow>
     (\<exists>fl. own P B h fl (concat (tx @ rx @ app))) \<and> (\<forall>om \<in> set (rx @ app). packet om) \<and> (\<forall>om \<in> set tx. to_send om)"

definition tp_ok :: "dpl_mbuf_pool \<Rightarrow> addr set \<Rightarrow> tp_build \<Rightarrow> client_node \<Rightarrow> bool" where
  "tp_ok P B Bd s \<longleftrightarrow> tp_mem P B (tn_heap s) (tp_tx_q (tn_tp s)) (tp_rx_q (tn_tp s)) (tn_app s) \<and> pools_ok P Bd (tn_tp s)"

named_theorems tp

lemma tp_fields [simp]:
  "tn_tp (on_tdev f s) = tn_tp s" "tn_heap (on_tdev f s) = tn_heap s" "tn_app (on_tdev f s) = tn_app s"
  "tn_tp (TP_INCN x n s) = tn_tp s" "tn_heap (TP_INCN x n s) = tn_heap s" "tn_app (TP_INCN x n s) = tn_app s"
  "tn_dev (TP_INCN x n s) = tn_dev s" "tn_dev (on_tp g s) = tn_dev s" "tn_dev (on_tdev f s) = f (tn_dev s)"
  "tn_tp (on_tp g s) = g (tn_tp s)" "tn_heap (on_tp g s) = tn_heap s" "tn_app (on_tp g s) = tn_app s"
  "tn_stat (on_tp g s) = tn_stat s" "tn_stat (on_tdev f s) = tn_stat s"
  by (simp_all add: on_tdev_def on_tp_def TP_INCN_def)

lemma TP_INC_fields [simp]:
  "tn_tp (TP_INC x s) = tn_tp s" "tn_heap (TP_INC x s) = tn_heap s" "tn_app (TP_INC x s) = tn_app s" "tn_dev (TP_INC x s) = tn_dev s"
  by (simp_all add: TP_INC_def)

lemma free_packet_fields [simp]:
  "tn_tp (free_packet B om s) = tn_tp s" "tn_app (free_packet B om s) = tn_app s" "tn_dev (free_packet B om s) = tn_dev s"
  "tn_stat (free_packet B om s) = tn_stat s"
  by (simp_all add: free_packet_def)

text \<open>What of a state the invariant looks at.\<close>

definition same_mem :: "client_node \<Rightarrow> client_node \<Rightarrow> bool" where
  "same_mem s s' \<longleftrightarrow> tn_heap s' = tn_heap s \<and> tn_app s' = tn_app s \<and> tp_tx_q (tn_tp s') = tp_tx_q (tn_tp s) \<and>
     tp_rx_q (tn_tp s') = tp_rx_q (tn_tp s) \<and> tp_os_msys_mpool (tn_tp s') = tp_os_msys_mpool (tn_tp s) \<and> tp_omp (tn_tp s') = tp_omp (tn_tp s) \<and>
     tp_has_init (tn_tp s') = tp_has_init (tn_tp s)"

lemma tp_ok_same: "same_mem s s' \<Longrightarrow> tp_ok P B Bd s \<Longrightarrow> tp_ok P B Bd s'"
  by (simp add: tp_ok_def same_mem_def pools_ok_def)

text \<open>Moving a packet from one list to another, with the memory as it is.\<close>

lemma tp_mem_perm:
  assumes "tp_mem P B h tx rx app" and "mset (concat (tx' @ rx' @ app')) = mset (concat (tx @ rx @ app))"
    and "\<forall>om \<in> set (rx' @ app'). packet om" and "\<forall>om \<in> set tx'. to_send om"
  shows "tp_mem P B h tx' rx' app'"
  using assms own_cong[OF assms(2)] unfolding tp_mem_def by blast

lemma tp_mem_free:
  assumes "\<exists>fl. own P B h fl (om @ concat (tx @ rx @ app))" and "\<forall>om \<in> set (rx @ app). packet om" and "\<forall>om \<in> set tx. to_send om"
  shows "tp_mem P B (snd (dpl_mbuf_free_chain cb om h)) tx rx app"
proof -
  obtain fl where "own P B h fl (om @ concat (tx @ rx @ app))" using assms(1) by blast
  then obtain h' fl' where "dpl_mbuf_free_chain cb om h = (MEM_OK, h')" "own P B h' fl' (concat (tx @ rx @ app))"
    using own_free_chain by blast
  then show ?thesis using assms(2,3) by (auto simp: tp_mem_def)
qed

section \<open>New packets\<close>

lemma get_pkthdr_fields:
  assumes "dpl_mbuf_get_pkthdr P n h = (Some m, h')"
  obtains d where "om_pkthdr_len m = n + 16" "om_data m = n + 16" "om_databuf m = write_at (write_at d 0 [0, 0, 0, 0]) 8 (replicate 8 0)"
  using assms
  by (auto simp: dpl_mbuf_get_pkthdr_def dpl_mbuf_get_def Let_def sizeof_pkthdr_def split: if_splits prod.splits option.splits)

lemma new_mbuf_ok:
  assumes own: "own P B (tn_heap s) fl ms" and pools: "pools_ok P Bd (tn_tp s)"
  obtains "new_rx_mbuf Bd dsize s = (None, s)"
  | m h fl' where "new_rx_mbuf Bd dsize s = (Some m, s\<lparr>tn_heap := h\<rparr>)" and "own P B h fl' (m # ms)"
    and "packet [m]" and "om_len m = 0" and "om_pkthdr_len m = 28" and "om_data m = 28" and "om_omp m = Some P"
proof -
  have "(if tp_os_msys_mpool (tn_tp s) then dpl_msys_get_pkthdr (te_pools Bd) (unat dsize) sizeof_user_header (tn_heap s)
         else dpl_mbuf_get_pkthdr (the (tp_omp (tn_tp s))) sizeof_user_header (tn_heap s)) = dpl_mbuf_get_pkthdr P 12 (tn_heap s)"
    using pools by (simp add: pools_ok_def dpl_msys_get_pkthdr_def dpl_msys_find_pool_def Let_def sizeof_user_header_def
        split: if_splits option.splits)
  then have eq: "new_rx_mbuf Bd dsize s = (let (m, h) = dpl_mbuf_get_pkthdr P 12 (tn_heap s) in (m, s\<lparr>tn_heap := h\<rparr>))"
    by (simp add: new_rx_mbuf_def)
  have size: "28 \<le> omp_databuf_len P" using pools by (simp add: pools_ok_def)
  show ?thesis
  proof (cases fl)
    case Nil
    then have "dpl_mbuf_get_pkthdr P 12 (tn_heap s) = (None, tn_heap s)"
      using own_get_none[of P B "tn_heap s" ms 0] own size by (simp add: dpl_mbuf_get_pkthdr_def Let_def sizeof_pkthdr_def)
    then show ?thesis using that(1) eq by simp
  next
    case (Cons b fl')
    obtain new h where get: "dpl_mbuf_get_pkthdr P 12 (tn_heap s) = (Some new, h)" and own': "own P B h fl' (new # ms)"
      and new: "mbuf_ok P new" "om_len new = 0"
      by (rule own_get_pkthdr[OF own[unfolded Cons], of 12]) (use size in \<open>auto simp: sizeof_pkthdr_def\<close>)
    obtain d where pl: "om_pkthdr_len new = 28" "om_data new = 28"
      and d: "om_databuf new = write_at (write_at d 0 [0, 0, 0, 0]) 8 (replicate 8 0)"
      using get_pkthdr_fields[OF get] by auto
    have "28 \<le> length d" using new(1) size d by (simp add: mbuf_ok_def)
    then have "DPL_MBUF_PKTLEN new = get_le16 (write_at d 0 [0, 0, 0, 0]) 0"
      unfolding DPL_MBUF_PKTLEN_def d by (intro le16.get_write_at_other) auto
    also have "\<dots> = 0" using \<open>28 \<le> length d\<close> by (subst write_at_0) (simp_all add: get_le16_def)
    finally have "packet [new]"
      using new pl by (simp add: packet_def hdr_counts_def DPL_MBUF_IS_PKTHDR_def sizeof_pkthdr_def)
    moreover have "om_omp new = Some P" using new(1) by (simp add: mbuf_ok_def)
    ultimately show ?thesis using that(2)[OF _ own' _ new(2) pl(1,2)] get eq by simp
  qed
qed

text \<open>Data put into a new packet: all of it, or as much as there is memory for.\<close>

lemma user_header_kept [simp]:
  assumes "28 \<le> om_data m" and "28 \<le> length (om_databuf m)"
  shows "uh_tsp_code (mbuf_write m off xs) = uh_tsp_code m" "uh_uid (mbuf_write m off xs) = uh_uid m"
    "uh_tsp_code (set_pktlen f m) = uh_tsp_code m" "uh_uid (set_pktlen f m) = uh_uid m"
  using assms
  by (simp_all add: uh_tsp_code_def uh_uid_def mbuf_write_def set_pktlen_def sizeof_pkthdr_def le16.get_write_at_other le16.get_put_other)

lemma user_header_fields [simp]:
  "uh_tsp_code (m\<lparr>om_len := n\<rparr>) = uh_tsp_code m" "uh_uid (m\<lparr>om_len := n\<rparr>) = uh_uid m"
  by (simp_all add: uh_tsp_code_def uh_uid_def)

lemma append_keeps_user_header:
  assumes "dpl_mbuf_append [m] xs n h = (rc, om', h')" and "28 \<le> om_data m" and "28 \<le> length (om_databuf m)"
  shows "uh_tsp_code (hd om') = uh_tsp_code m \<and> uh_uid (hd om') = uh_uid m \<and> 28 \<le> om_data (hd om') \<and> 28 \<le> length (om_databuf (hd om'))"
  using assms by (auto simp: dpl_mbuf_append_def Let_def upd_pktlen_Cons split: prod.splits if_splits)

lemma copyinto_fresh:
  assumes own: "own P B h fl (m # os)" and pk: "packet [m]" and new: "om_len m = 0" "28 \<le> om_data m" and n: "n \<le> length xs" "n < 65536"
  shows "\<exists>rc om' h' fl'. dpl_mbuf_copyinto [m] 0 xs (int n) h = (rc, om', h') \<and> own P B h' fl' (om' @ os) \<and> packet om' \<and>
    (rc = MB_OK \<longleftrightarrow> n \<le> room P fl [m]) \<and>
    (rc = MB_OK \<longrightarrow> chain_data om' = take n xs \<and> uh_tsp_code (hd om') = uh_tsp_code m \<and> uh_uid (hd om') = uh_uid m)"
proof (cases "n = 0")
  case True
  have "chain_data [m] = []" using new by (simp add: mbuf_data_nil)
  then show ?thesis
    using True own pk new(1) by (intro exI[of _ MB_OK] exI[of _ "[m]"] exI[of _ h] exI[of _ fl])
      (simp add: dpl_mbuf_copyinto_def)
next
  case False
  have mok: "mbuf_ok P m" using own_ok[OF own] by simp
  have buf: "28 \<le> length (om_databuf m)" using mok new by (simp add: mbuf_ok_def)
  have own1: "own P B h fl ([m] @ os)" using own by simp
  obtain om' h' fl' where a: "dpl_mbuf_append [m] xs n h = (if n \<le> room P fl [m] then MB_OK else MB_ENOMEM, om', h')"
    and own': "own P B h' fl' (om' @ os)" and ne: "om' \<noteq> []" and cd: "chain_data om' = take (min n (room P fl [m])) xs"
    and hc: "hdr_counts om'" and hp: "DPL_MBUF_IS_PKTHDR (hd om')"
    using append_ok[OF own1 _ n(1)] pk new(1) by (auto simp: packet_def mbuf_data_nil)
  note uh = append_keeps_user_header[OF a new(2) buf]
  have oks: "\<forall>m \<in> set om'. mbuf_ok P m" using own_ok[OF own'] by simp
  have cl: "chain_len om' = min n (room P fl [m])" using length_chain_data[OF oks] cd n(1) by simp
  have pk': "packet om'" using ne hc hp cl n by (simp add: packet_def)
  have c: "dpl_mbuf_copyinto [m] 0 xs (int n) h =
      (if n \<le> room P fl [m] then (MB_OK, upd_pktlen (\<lambda>l. of_int (max (uint l) (int n))) om', h') else (MB_ENOMEM, om', h'))"
    using False a new(1) n by (simp add: dpl_mbuf_copyinto_def nat_mod_distrib)
  let ?om2 = "upd_pktlen (\<lambda>l. of_int (max (uint l) (int n))) om'"
  show ?thesis
  proof (cases "n \<le> room P fl [m]")
    case True
    have "uint (DPL_MBUF_PKTLEN (hd om')) = int n"
      using packet_pktlen[OF pk'] cl True by (metis min_absorb1 uint_nat)
    then have pk2: "packet ?om2"
      using pk' cl True hdr_counts_upd[OF oks ne, of "\<lambda>l. of_int (max (uint l) (int n))"] by (simp add: packet_def)
    have own2: "own P B h' fl' (?om2 @ os)"
      using upd_pktlen_chain(2)[OF oks] own_ok[OF own'] by (intro own_update[OF own']) auto
    have "uh_tsp_code (hd ?om2) = uh_tsp_code m \<and> uh_uid (hd ?om2) = uh_uid m"
      using uh ne by (cases om') (auto simp: upd_pktlen_Cons)
    then show ?thesis
      using c True pk2 own2 cd upd_pktlen_chain(1)[OF oks]
      by (intro exI[of _ MB_OK] exI[of _ ?om2] exI[of _ h'] exI[of _ fl']) simp
  next
    case False
    then show ?thesis
      using c pk' own' by (intro exI[of _ MB_ENOMEM] exI[of _ om'] exI[of _ h'] exI[of _ fl']) simp
  qed
qed

section \<open>Received frames\<close>

lemma user_header_set:
  assumes "28 \<le> length (om_databuf m)"
  shows "uh_tsp_code (set_user_header t u self m) = t" "uh_uid (set_user_header t u self m) = u"
    "DPL_MBUF_PKTLEN (set_user_header t u self m) = DPL_MBUF_PKTLEN m"
  using assms
  by (simp_all add: uh_tsp_code_def uh_uid_def DPL_MBUF_PKTLEN_def set_user_header_def sizeof_pkthdr_def
      le16.get_put_same le16.get_put_other p16_64.getA_putB)

lemma user_header_same [simp]:
  "om_addr (set_user_header t u self m) = om_addr m" "om_data (set_user_header t u self m) = om_data m"
  "om_len (set_user_header t u self m) = om_len m" "om_omp (set_user_header t u self m) = om_omp m"
  "om_pkthdr_len (set_user_header t u self m) = om_pkthdr_len m"
  "length (om_databuf (set_user_header t u self m)) = length (om_databuf m)"
  "DPL_MBUF_IS_PKTHDR (set_user_header t u self m) = DPL_MBUF_IS_PKTHDR m" "hdr_len (set_user_header t u self m) = hdr_len m"
  by (simp_all add: set_user_header_def)

text \<open>The room for a new packet with \<open>n\<close> free blocks.\<close>

definition new_packet_room :: "dpl_mbuf_pool \<Rightarrow> dpl_heap \<Rightarrow> nat" where
  "new_packet_room P h = (omp_databuf_len P - 28) + (free_count P h - 1) * omp_databuf_len P"

lemma own_free_count: "own P B h fl ms \<Longrightarrow> free_count P h = length fl"
  by (simp add: own_def mpool_ok_def pool_ok_def Let_def free_count_def)

lemma accept_frame_effect:
  assumes ok: "tp_ok P B Bd s" and f: "dev_rxbuf (tn_dev s) = f" "dev_frame_len (tn_dev s) = of_nat (length f)" "13 \<le> length f"
    "length f < 65536"
  shows "\<exists>s'. tp_accept_frame Bd s = Some s' \<and> tp_ok P B Bd s' \<and> tp_tx_q (tn_tp s') = tp_tx_q (tn_tp s) \<and> tn_app s' = tn_app s \<and>
    (1 \<le> free_count P (tn_heap s) \<and> length f - 13 \<le> new_packet_room P (tn_heap s) \<longrightarrow>
      (\<exists>om. tp_rx_q (tn_tp s') = tp_rx_q (tn_tp s) @ [om] \<and> chain_data om = drop 13 f \<and>
            uh_tsp_code (hd om) = fh_tsp_code f \<and> uh_uid (hd om) = fh_src_address f \<and> tn_posted s'))"
proof -
  let ?tx = "tp_tx_q (tn_tp s)" and ?rx = "tp_rx_q (tn_tp s)" and ?app = "tn_app s"
  let ?len = "dev_frame_len (tn_dev s) - of_nat sizeof_frame_header"
  have ul: "unat (dev_frame_len (tn_dev s)) = length f" using f by (simp add: unat_of_nat)
  have "?len = of_nat (length f - 13)" unfolding f(2) using f(3) by (simp only: of_nat_diff)
  then have "unat ?len = take_bit LENGTH(16) (length f - 13)" by (simp only: unsigned_of_nat of_nat_id)
  then have ln: "unat ?len = length f - 13" using f(4) by (simp add: take_bit_eq_mod)
  obtain fl where own: "own P B (tn_heap s) fl (concat (?tx @ ?rx @ ?app))" and pks: "\<forall>om \<in> set (?rx @ ?app). packet om"
      "\<forall>om \<in> set ?tx. to_send om" and pools: "pools_ok P Bd (tn_tp s)"
    using ok by (auto simp: tp_ok_def tp_mem_def)
  have fc: "free_count P (tn_heap s) = length fl" by (rule own_free_count[OF own])
  show ?thesis
  proof (rule new_mbuf_ok[OF own pools, of ?len])
    assume none: "new_rx_mbuf Bd ?len s = (None, s)"
    have "fl = []"
    proof (rule ccontr)
      assume "fl \<noteq> []"
      then obtain b fl' where fl: "fl = b # fl'" by (cases fl) auto
      have "28 \<le> omp_databuf_len P" using pools by (simp add: pools_ok_def)
      then obtain new h where "dpl_mbuf_get_pkthdr P 12 (tn_heap s) = (Some new, h)"
        by (rule_tac own_get_pkthdr[OF own[unfolded fl], of 12]) (auto simp: sizeof_pkthdr_def)
      then show False
        using none pools by (simp add: new_rx_mbuf_def pools_ok_def dpl_msys_get_pkthdr_def dpl_msys_find_pool_def Let_def
            sizeof_user_header_def split: if_splits option.splits)
    qed
    then have "tp_accept_frame Bd s = Some (TP_INC Tp_rx_err s)" using none by (simp add: tp_accept_frame_def Let_def)
    moreover have "tp_ok P B Bd (TP_INC Tp_rx_err s)" using ok by (auto intro: tp_ok_same simp: same_mem_def)
    ultimately show ?thesis using fc \<open>fl = []\<close> by simp
  next
    fix m h fl'
    assume new: "new_rx_mbuf Bd ?len s = (Some m, s\<lparr>tn_heap := h\<rparr>)" and own': "own P B h fl' (m # concat (?tx @ ?rx @ ?app))"
      and m: "packet [m]" "om_len m = 0" "om_pkthdr_len m = 28" "om_data m = 28" "om_omp m = Some P"
    let ?m = "set_user_header (fh_tsp_code f) (fh_src_address f) (te_self Bd) m"
    have mok: "mbuf_ok P m" using own_ok[OF own'] by simp
    have buf: "28 \<le> length (om_databuf m)" using mok m by (simp add: mbuf_ok_def)
    have mok': "mbuf_ok P ?m" using mok by (simp add: mbuf_ok_def)
    have own1: "own P B h fl' (?m # concat (?tx @ ?rx @ ?app))"
      using mok' own_ok[OF own'] by (intro own_update[OF own']) auto
    have pk1: "packet [?m]" using m(1) user_header_set(3)[OF buf] by (simp add: packet_def hdr_counts_def)
    have n: "length f - 13 \<le> length (drop 13 f)" "length f - 13 < 65536" using f by simp_all
    obtain rc om h2 fl2 where c: "dpl_mbuf_copyinto [?m] 0 (drop 13 f) (int (length f - 13)) h = (rc, om, h2)"
      and own2: "own P B h2 fl2 (om @ concat (?tx @ ?rx @ ?app))" and pk2: "packet om"
      and rc: "rc = MB_OK \<longleftrightarrow> length f - 13 \<le> room P fl' [?m]"
      and data: "rc = MB_OK \<longrightarrow> chain_data om = take (length f - 13) (drop 13 f) \<and> uh_tsp_code (hd om) = uh_tsp_code ?m \<and>
        uh_uid (hd om) = uh_uid ?m"
      using copyinto_fresh[OF own1 pk1 _ _ n] m by auto
    have "\<not> unat (dev_frame_len (tn_dev s)) < 13" using ul f by simp
    then have acc: "tp_accept_frame Bd s =
        (let s = (TP_INCN Tp_rx_bytes (ucast ?len) (s\<lparr>tn_heap := h\<rparr>))\<lparr>tn_heap := h2\<rparr>
         in if rc = MB_OK
            then let (_, posted, q) = dpl_mqueue_put ?rx True om in Some ((on_tp (\<lambda>p. p\<lparr>tp_rx_q := q\<rparr>) s)\<lparr>tn_posted := tn_posted s \<or> posted\<rparr>)
            else Some (free_packet Bd om s))"
      using new c f(1) unfolding tp_accept_frame_def Let_def ln[symmetric] by (simp add: ln f)
    have pools': "pools_ok P Bd (tn_tp s)" by (rule pools)
    show ?thesis
    proof (cases "rc = MB_OK")
      case True
      let ?s' = "(on_tp (\<lambda>p. p\<lparr>tp_rx_q := ?rx @ [om]\<rparr>) ((TP_INCN Tp_rx_bytes (ucast ?len) (s\<lparr>tn_heap := h\<rparr>))\<lparr>tn_heap := h2\<rparr>))\<lparr>tn_posted := True\<rparr>"
      have put: "dpl_mqueue_put ?rx True om = (MB_OK, True, ?rx @ [om])"
        using pk2 by (simp add: dpl_mqueue_put_def packet_def)
      have s': "tp_accept_frame Bd s = Some ?s'" using acc True put by (simp add: Let_def TP_INCN_def)
      have "own P B h2 fl2 (concat (?tx @ (?rx @ [om]) @ ?app))"
        using own2 own_cong[of "om @ concat (?tx @ ?rx @ ?app)" "concat (?tx @ (?rx @ [om]) @ ?app)"] by (simp add: ac_simps)
      then have "tp_ok P B Bd ?s'" using pks pk2 pools by (auto simp: tp_ok_def tp_mem_def pools_ok_def)
      then show ?thesis
        using s' data True f user_header_set[OF buf] by (intro exI[of _ ?s']) auto
    next
      case False
      let ?s' = "free_packet Bd om ((TP_INCN Tp_rx_bytes (ucast ?len) (s\<lparr>tn_heap := h\<rparr>))\<lparr>tn_heap := h2\<rparr>)"
      have s': "tp_accept_frame Bd s = Some ?s'" using acc False by (simp add: Let_def)
      have "tp_mem P B (snd (dpl_mbuf_free_chain (te_cb Bd) om h2)) ?tx ?rx ?app"
        using own2 pks by (intro tp_mem_free) auto
      then have ok': "tp_ok P B Bd ?s'" using pools by (simp add: tp_ok_def free_packet_def)
      have "length fl' + 1 = length fl"
      proof -
        have "mset (map om_addr (m # concat (?tx @ ?rx @ ?app))) + mset fl' = mset (map om_addr (concat (?tx @ ?rx @ ?app))) + mset fl"
          using own own' by (simp add: own_def)
        then have "size (mset (map om_addr (m # concat (?tx @ ?rx @ ?app))) + mset fl') = size (mset (map om_addr (concat (?tx @ ?rx @ ?app))) + mset fl)"
          by presburger
        then show ?thesis by simp
      qed
      moreover have "room P fl' [?m] = (omp_databuf_len P - 28) + length fl' * omp_databuf_len P"
        using trailingspace_ok[OF mok'] m by (simp add: room_def)
      moreover from calculation(1) have "length fl - 1 = length fl'" by simp
      ultimately have "\<not> (1 \<le> free_count P (tn_heap s) \<and> length f - 13 \<le> new_packet_room P (tn_heap s))"
        using rc False fc by (simp add: new_packet_room_def)
      then show ?thesis using s' ok' by (intro exI[of _ ?s']) auto
    qed
  qed
qed

lemma tp_early_ret_same: "same_mem s (tp_early_ret s)"
  by (simp add: same_mem_def tp_early_ret_def)

lemma rx_complete_ok:
  assumes ok: "tp_ok P B Bd s" and len: "length f < 65536"
    and res: "tp_rx_complete_cb Bd t (receive_frame f a s) = Some (r, s')"
  shows "tp_ok P B Bd s' \<and> tp_tx_q (tn_tp s') = tp_tx_q (tn_tp s)"
proof -
  let ?s = "receive_frame f a s"
  have ok1: "tp_ok P B Bd ?s" using ok by (rule tp_ok_same[rotated]) (simp add: same_mem_def receive_frame_def)
  have same: "tp_ok P B Bd s'' \<and> tp_tx_q (tn_tp s'') = tp_tx_q (tn_tp s)" if "same_mem ?s s''" for s''
    using tp_ok_same[OF that ok1] that by (simp add: same_mem_def receive_frame_def)
  have acc: "tp_ok P B Bd s' \<and> tp_tx_q (tn_tp s') = tp_tx_q (tn_tp s)"
    if sm: "same_mem ?s s2" and dv: "tn_dev s2 = tn_dev ?s" and r: "tp_accept_frame Bd s2 = Some s'" for s2
  proof (cases "13 \<le> length f")
    case True
    have ok2: "tp_ok P B Bd s2" using sm ok1 by (rule tp_ok_same)
    have d2: "dev_rxbuf (tn_dev s2) = f" "dev_frame_len (tn_dev s2) = of_nat (length f)"
      using dv by (simp_all add: receive_frame_def)
    from accept_frame_effect[OF ok2 d2 True len] r
    have "tp_ok P B Bd s' \<and> tp_tx_q (tn_tp s') = tp_tx_q (tn_tp s2)" by auto
    then show ?thesis using sm by (simp add: same_mem_def receive_frame_def)
  next
    case False
    then have short: "unat (dev_frame_len (tn_dev s2)) < 13" using dv by (simp add: receive_frame_def unat_of_nat)
    obtain fl where own: "own P B (tn_heap s2) fl (concat (tp_packets s2))" and pools: "pools_ok P Bd (tn_tp s2)"
      using tp_ok_same[OF sm ok1] by (auto simp: tp_ok_def tp_mem_def tp_packets_def)
    show ?thesis
    proof (rule new_mbuf_ok[OF own pools, of "dev_frame_len (tn_dev s2) - of_nat sizeof_frame_header"])
      assume "new_rx_mbuf Bd (dev_frame_len (tn_dev s2) - of_nat sizeof_frame_header) s2 = (None, s2)"
      then have "s' = TP_INC Tp_rx_err s2" using r by (simp add: tp_accept_frame_def Let_def)
      then show ?thesis using sm by (intro same) (simp add: same_mem_def)
    qed (use r short in \<open>simp add: tp_accept_frame_def Let_def\<close>)
  qed
  let ?s1 = "if st_autoack_triggered (dev_status (tn_dev ?s)) then on_tp (\<lambda>p. p\<lparr>tp_awaiting_ack_tx := True\<rparr>) ?s else ?s"
  let ?s2 = "TP_INC Tp_rx_packets (on_tp (\<lambda>p. p\<lparr>tp_last_frame := take sizeof_frame_header (dev_rxbuf (tn_dev ?s)), tp_last_frame_time := t\<rparr>) ?s1)"
  have s1: "same_mem ?s ?s1" by (simp add: same_mem_def)
  have s2: "same_mem ?s ?s2" "tn_dev ?s2 = tn_dev ?s" by (simp_all add: same_mem_def)
  have early: "same_mem ?s (tp_early_ret ?s)" "same_mem ?s (tp_early_ret ?s1)" "same_mem ?s (tp_early_ret (TP_INC Tp_rx_dup ?s1))"
    by (simp_all add: same_mem_def tp_early_ret_def)
  have ack: "same_mem ?s (on_tp (\<lambda>p. p\<lparr>tp_ack_seq_num := x, tp_ack_sem := dpl_sem_release (tp_ack_sem p)\<rparr>) (TP_INC Tp_rx_acks ?s))" for x
    by (simp add: same_mem_def)
  have "same_mem ?s s' \<or> tp_accept_frame Bd ?s2 = Some s'"
    using res early ack[of "uint (get_u8 (dev_rxbuf (tn_dev ?s)) 2)"]
    unfolding tp_rx_complete_cb_def Let_def
    by (simp only: split: if_split_asm) (auto simp: same_mem_def)
  then show ?thesis using same acc[OF s2] by blast
qed

section \<open>Packets to send\<close>

lemma enqueue_effect:
  assumes own: "own P B (tn_heap s) fl (om @ concat (tp_packets s))" and pks: "\<forall>p \<in> set (tp_rx_q (tn_tp s) @ tn_app s). packet p"
      "\<forall>p \<in> set (tp_tx_q (tn_tp s)). to_send p"
    and pools: "pools_ok P Bd (tn_tp s)" and pk: "packet om" and mtu: "chain_len om \<le> uwb_transport_mtu Bd (tn_dev s)"
  shows "\<exists>rc s'. uwb_transport_enqueue_tx Bd dst tsp r om s = (rc, s') \<and> tp_ok P B Bd s' \<and> tn_app s' = tn_app s \<and>
    (if rc = MB_OK then \<exists>om'. tp_tx_q (tn_tp s') = tp_tx_q (tn_tp s) @ [om'] \<and> packet om' \<and> chain_data om' = chain_data om @ trailer dst tsp r
     else tp_tx_q (tn_tp s') = tp_tx_q (tn_tp s)) \<and>
    (6 \<le> DPL_MBUF_TRAILINGSPACE (last om) \<or> fl \<noteq> [] \<longrightarrow> rc = MB_OK)"
proof -
  have ne: "om \<noteq> []" using pk by (simp add: packet_def)
  have size: "6 \<le> omp_databuf_len P" using pools by (simp add: pools_ok_def)
  have small: "chain_len om + 6 < 65536"
    using mtu by (simp add: uwb_transport_mtu_def UWB_TRANSPORT_MTU_STD_def UWB_TRANSPORT_MTU_EXT_def split: if_splits)
  have le: "unat (DPL_MBUF_PKTLEN (hd om)) \<le> uwb_transport_mtu Bd (tn_dev s)" using mtu packet_pktlen[OF pk] by simp
  obtain i om1 h1 where e: "dpl_mbuf_extend om 6 (tn_heap s) = (i, om1, h1)" by (metis prod_cases3)
  show ?thesis
  proof (cases i)
    case None
    have eq: "om1 = om" "h1 = tn_heap s" using extend_fails[OF own ne] e None by auto
    have room: "\<not> (6 \<le> DPL_MBUF_TRAILINGSPACE (last om) \<or> fl \<noteq> [])"
      using extend_write[OF own pk, of "trailer dst tsp r"] size small e None by (auto simp: Let_def)
    let ?s' = "free_packet Bd om s"
    have "tp_mem P B (snd (dpl_mbuf_free_chain (te_cb Bd) om (tn_heap s))) (tp_tx_q (tn_tp s)) (tp_rx_q (tn_tp s)) (tn_app s)"
      using own pks by (intro tp_mem_free) (auto simp: tp_packets_def)
    then have "tp_ok P B Bd ?s'" using pools by (simp add: tp_ok_def free_packet_def)
    moreover have "uwb_transport_enqueue_tx Bd dst tsp r om s = (MB_EINVAL, ?s')"
      using e None eq le by (simp add: uwb_transport_enqueue_tx_def)
    ultimately show ?thesis using room by (intro exI[of _ MB_EINVAL] exI[of _ ?s']) simp
  next
    case (Some j)
    have room: "6 \<le> DPL_MBUF_TRAILINGSPACE (last om) \<or> fl \<noteq> []"
    proof (rule ccontr)
      assume "\<not> ?thesis"
      moreover have "the (om_omp (hd om)) = P" using own_ok[OF own] ne by (cases om) (auto simp: mbuf_ok_def)
      ultimately show False
        using e Some own_get_none[of P B "tn_heap s" "om @ concat (tp_packets s)" 0] own size by (simp add: dpl_mbuf_extend_def Let_def)
    qed
    let ?om' = "butlast om1 @ [(last om1)\<lparr>om_databuf := write_at (om_databuf (last om1)) j (trailer dst tsp r)\<rparr>]"
    obtain fl' where own': "own P B h1 fl' (?om' @ concat (tp_packets s))" and pk': "packet ?om'"
      and cd: "chain_data ?om' = chain_data om @ trailer dst tsp r"
      using extend_write[OF own pk, of "trailer dst tsp r"] size small room e Some by (auto simp: Let_def)
    let ?s' = "on_tp (\<lambda>p. p\<lparr>tp_tx_q := tp_tx_q (tn_tp s) @ [?om']\<rparr>) (s\<lparr>tn_heap := h1\<rparr>)"
    have res: "uwb_transport_enqueue_tx Bd dst tsp r om s = (MB_OK, ?s')"
      using e Some le pk' unfolding uwb_transport_enqueue_tx_def Let_def put_trailer by (simp add: dpl_mqueue_put_def packet_def on_tp_def)
    have "own P B h1 fl' (concat ((tp_tx_q (tn_tp s) @ [?om']) @ tp_rx_q (tn_tp s) @ tn_app s))"
      using own' own_cong[of "?om' @ concat (tp_packets s)" "concat ((tp_tx_q (tn_tp s) @ [?om']) @ tp_rx_q (tn_tp s) @ tn_app s)"]
      by (simp add: tp_packets_def ac_simps)
    then have "tp_ok P B Bd ?s'"
      using pks pk' cd pools by (auto simp: tp_ok_def tp_mem_def pools_ok_def to_send_def)
    then show ?thesis using res pk' cd by (intro exI[of _ MB_OK] exI[of _ ?s']) simp
  qed
qed

text \<open>The first packet is taken off the queue and freed, or gets a new number of retries.\<close>

lemma tp_okD:
  assumes "tp_ok P B Bd s"
  obtains fl where "own P B (tn_heap s) fl (concat (tp_packets s))" and "\<forall>p \<in> set (tp_rx_q (tn_tp s) @ tn_app s). packet p"
    and "\<forall>p \<in> set (tp_tx_q (tn_tp s)). to_send p" and "pools_ok P Bd (tn_tp s)"
  using assms by (auto simp: tp_ok_def tp_mem_def tp_packets_def)

lemma dequeue_drop_effect:
  assumes ok: "tp_ok P B Bd s" and q: "tp_tx_q (tn_tp s) = om # q"
  shows "tp_ok P B Bd (snd (dequeue_drop Bd l s)) \<and> tp_tx_q (tn_tp (snd (dequeue_drop Bd l s))) = q"
proof (rule tp_okD[OF ok])
  fix fl assume own: "own P B (tn_heap s) fl (concat (tp_packets s))" and pks: "\<forall>p \<in> set (tp_rx_q (tn_tp s) @ tn_app s). packet p"
    "\<forall>p \<in> set (tp_tx_q (tn_tp s)). to_send p" and pools: "pools_ok P Bd (tn_tp s)"
  have "tp_mem P B (snd (dpl_mbuf_free_chain (te_cb Bd) om (tn_heap s))) q (tp_rx_q (tn_tp s)) (tn_app s)"
    using own pks q by (intro tp_mem_free) (auto simp: tp_packets_def)
  then show ?thesis
    using pools q by (simp add: dequeue_drop_def dpl_mqueue_get_def tp_ok_def pools_ok_def free_packet_def)
qed

lemma set_retries_effect:
  assumes ok: "tp_ok P B Bd s" and q: "tp_tx_q (tn_tp s) = om # q" and data: "chain_data om = d @ trailer dst tsp r0"
  shows "\<exists>om' s'. set_retries Bd r l s = (l\<lparr>tl_n_sent := 0\<rparr>, s') \<and> tp_ok P B Bd s' \<and> tp_tx_q (tn_tp s') = om' # q \<and>
    packet om' \<and> chain_data om' = d @ trailer dst tsp (r - of_int (tl_n_sent l)) \<and>
    (\<exists>h. s' = (on_tp (\<lambda>p. p\<lparr>tp_tx_q := om' # q\<rparr>) s)\<lparr>tn_heap := h\<rparr>)"
proof (rule tp_okD[OF ok])
  fix fl assume own: "own P B (tn_heap s) fl (concat (tp_packets s))" and pks: "\<forall>p \<in> set (tp_rx_q (tn_tp s) @ tn_app s). packet p"
    "\<forall>p \<in> set (tp_tx_q (tn_tp s)). to_send p" and pools: "pools_ok P Bd (tn_tp s)"
  let ?os = "concat (q @ tp_rx_q (tn_tp s) @ tn_app s)"
  have own1: "own P B (tn_heap s) fl (om @ ?os)" using own q by (simp add: tp_packets_def)
  have pk: "packet om" using pks(2) q by (simp add: to_send_def)
  have size: "2 \<le> omp_databuf_len P" using pools by (simp add: pools_ok_def)
  obtain om1 h1 i om2 h' fl' where a: "dpl_mbuf_adj (te_cb Bd) om (- 2) (tn_heap s) = (om1, h1)" "dpl_mbuf_extend om1 2 h1 = (Some i, om2, h')"
    and res: "let om' = butlast om2 @ [(last om2)\<lparr>om_databuf := put_le16 (om_databuf (last om2)) i (r - of_int (tl_n_sent l))\<rparr>]
     in own P B h' fl' (om' @ ?os) \<and> packet om' \<and> chain_data om' = d @ trailer dst tsp (r - of_int (tl_n_sent l))"
    using retries_replaced[OF own1 pk data size, of "te_cb Bd" "r - of_int (tl_n_sent l)"] by blast
  let ?om' = "butlast om2 @ [(last om2)\<lparr>om_databuf := put_le16 (om_databuf (last om2)) i (r - of_int (tl_n_sent l))\<rparr>]"
  let ?s' = "(on_tp (\<lambda>p. p\<lparr>tp_tx_q := ?om' # q\<rparr>) s)\<lparr>tn_heap := h'\<rparr>"
  have r: "own P B h' fl' (?om' @ ?os)" "packet ?om'" "chain_data ?om' = d @ trailer dst tsp (r - of_int (tl_n_sent l))"
    using res by (simp_all only: Let_def)
  have eq: "set_retries Bd r l s = (l\<lparr>tl_n_sent := 0\<rparr>, ?s')"
    using a q by (simp add: set_retries_def on_tp_def)
  have ts: "to_send ?om'" using r(2,3) unfolding to_send_def by blast
  have "tp_ok P B Bd ?s'"
    unfolding tp_ok_def tp_mem_def using r(1) ts pks pools q
    by (auto simp: pools_ok_def on_tp_def simp del: concat.simps) (auto)
  then show ?thesis
    using eq r(2,3) by (intro exI[of _ ?om'] exI[of _ ?s']) (auto simp: on_tp_def)
qed

section \<open>The sending loop\<close>

lemma copydata_trailer:
  assumes oks: "\<forall>m \<in> set om. mbuf_ok P m" and pk: "packet om" and data: "chain_data om = d @ trailer dst tsp r"
  shows "dpl_mbuf_copydata om (int (unat (DPL_MBUF_PKTLEN (hd om))) - 6) 2 = (0, le16_bytes dst)"
    and "dpl_mbuf_copydata om (int (unat (DPL_MBUF_PKTLEN (hd om))) - 4) 2 = (0, le16_bytes tsp)"
    and "dpl_mbuf_copydata om (int (unat (DPL_MBUF_PKTLEN (hd om))) - 2) 2 = (0, le16_bytes r)"
    and "unat (DPL_MBUF_PKTLEN (hd om)) = length d + 6"
proof -
  have cl: "chain_len om = length d + 6" using length_chain_data[OF oks] data by simp
  show pl: "unat (DPL_MBUF_PKTLEN (hd om)) = length d + 6" using packet_pktlen[OF pk] cl by simp
  have i: "int (length d + 6) - 6 = int (length d)" "int (length d + 6) - 4 = int (length d + 2)" "int (length d + 6) - 2 = int (length d + 4)"
    by simp_all
  note c = copydata_ok[OF oks, of _ 2, simplified]
  show "dpl_mbuf_copydata om (int (unat (DPL_MBUF_PKTLEN (hd om))) - 6) 2 = (0, le16_bytes dst)"
    unfolding pl i using c[of "length d"] cl data by (simp add: trailer_def length_le16_bytes)
  show "dpl_mbuf_copydata om (int (unat (DPL_MBUF_PKTLEN (hd om))) - 4) 2 = (0, le16_bytes tsp)"
    unfolding pl i using c[of "length d + 2"] cl data by (simp add: trailer_def length_le16_bytes)
  show "dpl_mbuf_copydata om (int (unat (DPL_MBUF_PKTLEN (hd om))) - 2) 2 = (0, le16_bytes r)"
    unfolding pl i using c[of "length d + 4"] cl data by (simp add: trailer_def length_le16_bytes)
qed

lemma write_tx_effect:
  assumes oks: "\<forall>m \<in> set om. mbuf_ok P m" and pk: "packet om" and data: "chain_data om = d @ trailer dst tsp r"
  shows "uwb_transport_write_tx Bd om idx s = Some
    (let dev = tn_dev s; seq = tp_frame_seq_num (tn_tp s) + 1; off = (if idx mod 2 \<noteq> 0 then 512 else 0 :: nat);
         fctrl = (if tp_request_acks (tn_tp s) then UWB_TRANSPORT_FCTRL OR UWB_FCTRL_ACK_REQUESTED else UWB_TRANSPORT_FCTRL);
         hdr = frame_header fctrl seq (dev_pan_id dev) dst (dev_my_short_address dev) UWB_DATA_CODE_TRNSPRT_REQUEST tsp
     in on_tp (\<lambda>p. p\<lparr>tp_tx_buffer_len := of_nat (13 + length d), tp_tx_buffer_offset := of_nat off\<rparr>)
          (on_tdev (write_payload (te_uf Bd) om (int (length d)) 0 (int (13 + off)) (te_stack Bd))
            (on_tdev (uwb_write_tx (te_uf Bd) hdr (of_nat off) (of_nat sizeof_frame_header))
              (on_tp (\<lambda>p. p\<lparr>tp_frame_seq_num := seq\<rparr>) s))))"
proof -
  note c = copydata_trailer[OF oks pk data]
  have "of_int (int sizeof_frame_header + int (length d + 6) - 6) = (of_nat (13 + length d) :: u16)" by simp
  then show ?thesis
    unfolding uwb_transport_write_tx_def Let_def c(1,2) prod.case unfolding c(4)
    by (simp add: get_le16_bytes add.commute)
qed

lemma dequeue_write_ok:
  assumes ok: "tp_ok P B Bd s" and ne: "tp_tx_q (tn_tp s) \<noteq> []"
  shows "\<exists>l' s'. dequeue_write Bd l s = Some (Wait_sem, l', s') \<and> same_mem s s'"
proof (cases "tl_transferred l")
  case True
  then show ?thesis by (auto simp: dequeue_write_def same_mem_def)
next
  case False
  show ?thesis
  proof (rule tp_okD[OF ok])
    fix fl assume own: "own P B (tn_heap s) fl (concat (tp_packets s))" and pks: "\<forall>p \<in> set (tp_tx_q (tn_tp s)). to_send p"
    let ?om = "hd (tp_tx_q (tn_tp s))"
    have mem: "?om \<in> set (tp_tx_q (tn_tp s))" using ne by simp
    then obtain d dst tsp r where p: "packet ?om" "chain_data ?om = d @ trailer dst tsp r" using pks by (auto simp: to_send_def)
    have "\<forall>m \<in> set ?om. mbuf_ok P m" using own_ok[OF own] mem by (auto simp: tp_packets_def)
    then show ?thesis
      using False write_tx_effect[OF _ p, of P Bd "tl_idx l + 1" "TP_INC Tp_om_writes s"]
      by (auto simp: dequeue_write_def same_mem_def Let_def)
  qed
qed

lemma no_signal_id [simp]: "extension_signal_tx no_signal s = s"
proof -
  have "fold (\<lambda>e s. if ext_has_transmit_cb e then no_signal (ext_id e) s else s) es s = s" for es and s :: client_node
    by (induction es arbitrary: s) (simp_all add: no_signal_def)
  then show ?thesis by (simp add: extension_signal_tx_def)
qed

definition loop_ok :: "dpl_mbuf_pool \<Rightarrow> addr set \<Rightarrow> tp_build \<Rightarrow> mchain list tp_loop \<Rightarrow> bool" where
  "loop_ok P B Bd c \<longleftrightarrow>
     (case c of (pc, l, s) \<Rightarrow> tp_ok P B Bd s \<and> (pc \<in> {Wait_write_lock, Wait_sem, Wait_ack_sem, Wait_ack} \<longrightarrow> tp_tx_q (tn_tp s) \<noteq> []))"

lemma dequeue_top_ok: "tp_ok P B Bd s \<Longrightarrow> tp_tx_q (tn_tp s) \<noteq> [] \<Longrightarrow> loop_ok P B Bd (dequeue_top Bd l s)"
  by (simp add: dequeue_top_def loop_ok_def Let_def)

lemma dequeue_cond_ok: "tp_ok P B Bd s \<Longrightarrow> loop_ok P B Bd (dequeue_cond Bd l s)"
  using dequeue_top_ok by (auto simp: dequeue_cond_def loop_ok_def)

lemma dequeue_sent_ok:
  assumes "tp_ok P B Bd s" and "tp_tx_q (tn_tp s) \<noteq> []"
  shows "loop_ok P B Bd (dequeue_sent Bd no_signal l s)"
proof -
  let ?s = "TP_INCN Tp_tx_bytes (ucast (DPL_MBUF_PKTLEN (hd (hd (tp_tx_q (tn_tp s))))) - 4) (TP_INC Tp_tx_packets s)"
  obtain om q where q: "tp_tx_q (tn_tp s) = om # q" using assms(2) by (cases "tp_tx_q (tn_tp s)") auto
  have "tp_ok P B Bd ?s" using assms(1) by (rule tp_ok_same[rotated]) (simp add: same_mem_def)
  then have "tp_ok P B Bd (snd (dequeue_drop Bd l ?s))" using dequeue_drop_effect[of P B Bd ?s om q] q by simp
  then show ?thesis
    unfolding dequeue_sent_def Let_def by (auto split: prod.splits intro: dequeue_cond_ok)
qed

lemma not_acked_ok:
  assumes ok: "tp_ok P B Bd s" and ne: "tp_tx_q (tn_tp s) \<noteq> []"
  shows "\<exists>l' s'. dequeue_not_acked Bd l s = Some (l', s') \<and> tp_ok P B Bd s'"
proof (rule tp_okD[OF ok])
  fix fl assume own: "own P B (tn_heap s) fl (concat (tp_packets s))" and pks: "\<forall>p \<in> set (tp_tx_q (tn_tp s)). to_send p"
  obtain om q where q: "tp_tx_q (tn_tp s) = om # q" using ne by (cases "tp_tx_q (tn_tp s)") auto
  then obtain d dst tsp r where p: "packet om" "chain_data om = d @ trailer dst tsp r" using pks by (auto simp: to_send_def)
  have oks: "\<forall>m \<in> set om. mbuf_ok P m" using own_ok[OF own] q by (auto simp: tp_packets_def)
  have "dequeue_not_acked Bd l s = Some (if tl_n_sent l > int (unat r) then dequeue_drop Bd l s else set_retries Bd r l s)"
    unfolding dequeue_not_acked_def q list.sel Let_def copydata_trailer(3)[OF oks p] prod.case get_le16_bytes by simp
  moreover have "tp_ok P B Bd (snd (dequeue_drop Bd l s))" using dequeue_drop_effect[OF ok q] by blast
  moreover obtain om' s' where "set_retries Bd r l s = (l\<lparr>tl_n_sent := 0\<rparr>, s')" "tp_ok P B Bd s'"
    using set_retries_effect[OF ok q p(2)] by blast
  ultimately show ?thesis by (cases "tl_n_sent l > int (unat r)") (auto simp: prod_eq_iff)
qed

lemma dequeue_start_ok:
  assumes ok: "tp_ok P B Bd s" and ne: "tp_tx_q (tn_tp s) \<noteq> []"
  shows "loop_ok P B Bd (dequeue_start Bd no_signal l s)"
proof -
  have same: "same_mem s (uwb_transport_start_tx Bd t s)" for t
    by (simp add: same_mem_def uwb_transport_start_tx_def Let_def)
  then have ok': "tp_ok P B Bd (uwb_transport_start_tx Bd t s)" "tp_tx_q (tn_tp (uwb_transport_start_tx Bd t s)) \<noteq> []" for t
    using tp_ok_same[OF same ok] ne by (auto simp: same_mem_def)
  let ?s1 = "uwb_transport_start_tx Bd (if tl_arg_dx_time l \<noteq> 0 then tl_dx_time l else 0) s"
  let ?s2 = "on_tp (\<lambda>p. p\<lparr>tp_sem := release_if_taken (tp_sem p), tp_write_tx_lock := release_if_taken (tp_write_tx_lock p),
      tp_ack_sem := release_if_taken (tp_ack_sem p)\<rparr>) (TP_INC Tp_tx_err ?s1)"
  have "same_mem ?s1 ?s2" by (simp add: same_mem_def)
  then have "tp_ok P B Bd ?s2" using ok'(1) by (rule tp_ok_same)
  then have err: "loop_ok P B Bd (dequeue_cond Bd l' ?s2)" for l' by (rule dequeue_cond_ok)
  have sent: "loop_ok P B Bd (dequeue_sent Bd no_signal l' ?s1)" for l' using ok' by (rule dequeue_sent_ok)
  have wait: "loop_ok P B Bd (Wait_ack, l', ?s1)" for l' using ok' by (simp add: loop_ok_def)
  show ?thesis
    unfolding dequeue_start_def Let_def using err sent wait by (simp only: split: if_split) blast
qed

lemma pend_any_cases: "pend_any sem w = None \<longleftrightarrow> w = Got_token \<and> sem = 0"
  by (cases w) (auto simp: pend_any_def dpl_sem_pend_def)

definition awaited_sem :: "mchain list tp_loop \<Rightarrow> dpl_sem" where
  "awaited_sem c =
     (case c of (pc, l, s) \<Rightarrow>
        (case pc of Wait_write_lock \<Rightarrow> tp_write_tx_lock (tn_tp s) | Wait_sem \<Rightarrow> tp_sem (tn_tp s) | Wait_ack_sem \<Rightarrow> tp_ack_sem (tn_tp s)
         | Wait_ack \<Rightarrow> tp_ack_sem (tn_tp s) | Wait_end \<Rightarrow> tp_sem (tn_tp s) | Dequeue_returned b \<Rightarrow> 0))"

lemma dequeue_step_ok:
  assumes ok: "loop_ok P B Bd c"
  shows "case dequeue_step Bd no_signal w c of
    None \<Rightarrow> (\<exists>b. fst c = Dequeue_returned b) \<or> w = Got_token \<and> awaited_sem c = 0
  | Some c' \<Rightarrow> loop_ok P B Bd c'"
proof -
  obtain pc l s where c: "c = (pc, l, s)" by (cases c)
  have okn: "tp_ok P B Bd s" using ok c by (simp add: loop_ok_def)
  have okl: "tp_ok P B Bd (on_tp (\<lambda>p. p\<lparr>tp_write_tx_lock := x\<rparr>) s)" "tp_ok P B Bd (on_tp (\<lambda>p. p\<lparr>tp_sem := x\<rparr>) s)"
    "tp_ok P B Bd (on_tp (\<lambda>p. p\<lparr>tp_ack_sem := x\<rparr>) s)" for x
    by (rule tp_ok_same[OF _ okn], simp add: same_mem_def)+
  show ?thesis
  proof (cases pc)
    case Wait_write_lock
    then have ne: "tp_tx_q (tn_tp s) \<noteq> []" using ok c by (simp add: loop_ok_def)
    show ?thesis
    proof (cases "pend_any (tp_write_tx_lock (tn_tp s)) w")
      case None
      then have "w = Got_token \<and> tp_write_tx_lock (tn_tp s) = 0" using pend_any_cases by blast
      then show ?thesis using c Wait_write_lock None by (simp add: dequeue_step_def awaited_sem_def)
    next
      case (Some sem)
      let ?s = "on_tp (\<lambda>p. p\<lparr>tp_write_tx_lock := sem\<rparr>) s"
      obtain l' s' where "dequeue_write Bd l ?s = Some (Wait_sem, l', s')" "same_mem ?s s'"
        using dequeue_write_ok[OF okl(1)] ne by (metis tp_fields(10) uwb_transport_instance.select_convs(15) uwb_transport_instance.surjective uwb_transport_instance.update_convs(13))
      then show ?thesis
        using c Wait_write_lock Some tp_ok_same[OF _ okl(1)] ne by (auto simp: dequeue_step_def loop_ok_def same_mem_def)
    qed
  next
    case Wait_sem
    then have ne: "tp_tx_q (tn_tp s) \<noteq> []" using ok c by (simp add: loop_ok_def)
    show ?thesis
    proof (cases "pend_any (tp_sem (tn_tp s)) w")
      case None
      then have "w = Got_token \<and> tp_sem (tn_tp s) = 0" using pend_any_cases by blast
      then show ?thesis using c Wait_sem None by (simp add: dequeue_step_def awaited_sem_def)
    next
      case (Some sem)
      let ?s = "on_tp (\<lambda>p. p\<lparr>tp_sem := sem\<rparr>) s"
      have "loop_ok P B Bd (dequeue_start Bd no_signal l ?s)" using okl(2) ne by (intro dequeue_start_ok) auto
      moreover have "loop_ok P B Bd (Wait_ack_sem, l, ?s)" using okl(2) ne by (simp add: loop_ok_def)
      ultimately show ?thesis using c Wait_sem Some by (simp add: dequeue_step_def Let_def)
    qed
  next
    case Wait_ack_sem
    then have ne: "tp_tx_q (tn_tp s) \<noteq> []" using ok c by (simp add: loop_ok_def)
    show ?thesis
    proof (cases "pend_any (tp_ack_sem (tn_tp s)) w")
      case None
      then have "w = Got_token \<and> tp_ack_sem (tn_tp s) = 0" using pend_any_cases by blast
      then show ?thesis using c Wait_ack_sem None by (simp add: dequeue_step_def awaited_sem_def)
    next
      case (Some sem)
      let ?s = "on_tp (\<lambda>p. p\<lparr>tp_ack_sem := sem\<rparr>) s"
      have "loop_ok P B Bd (dequeue_start Bd no_signal l ?s)" using okl(3) ne by (intro dequeue_start_ok) auto
      moreover have "loop_ok P B Bd (Wait_ack_sem, l, ?s)" using okl(3) ne by (simp add: loop_ok_def)
      ultimately show ?thesis using c Wait_ack_sem Some by (simp add: dequeue_step_def Let_def)
    qed
  next
    case Wait_ack
    then have ne: "tp_tx_q (tn_tp s) \<noteq> []" using ok c by (simp add: loop_ok_def)
    show ?thesis
    proof (cases "pend_any (tp_ack_sem (tn_tp s)) w")
      case None
      then have "w = Got_token \<and> tp_ack_sem (tn_tp s) = 0" using pend_any_cases by blast
      then show ?thesis using c Wait_ack None by (simp add: dequeue_step_def awaited_sem_def)
    next
      case (Some sem)
      let ?s = "on_tp (\<lambda>p. p\<lparr>tp_ack_sem := release_if_taken sem\<rparr>) s"
      have ne': "tp_tx_q (tn_tp ?s) \<noteq> []" using ne by simp
      obtain l' s' where "dequeue_not_acked Bd l ?s = Some (l', s')" "tp_ok P B Bd s'"
        using not_acked_ok[OF okl(3) ne'] by blast
      then show ?thesis
        using c Wait_ack Some dequeue_sent_ok[OF okl(3) ne'] dequeue_cond_ok by (auto simp: dequeue_step_def Let_def)
    qed
  next
    case Wait_end
    then show ?thesis
      using c okl(2) pend_any_cases by (auto simp: dequeue_step_def awaited_sem_def loop_ok_def split: option.splits)
  next
    case (Dequeue_returned b)
    then show ?thesis using c by (simp add: dequeue_step_def)
  qed
qed

section \<open>All steps\<close>

lemma process_rx_ok:
  assumes "tp_ok P B Bd s"
  shows "\<exists>s'. uwb_transport_process_rx_queue Bd take_packet s = Some s' \<and> tp_ok P B Bd s' \<and> tp_tx_q (tn_tp s') = tp_tx_q (tn_tp s) \<and>
    tp_rx_q (tn_tp s') = [] \<and>
    tn_app s' = tn_app s @ filter (\<lambda>om. uwb_transport_get_extension (uh_tsp_code (hd om)) (tn_tp s) \<noteq> None) (tp_rx_q (tn_tp s))"
  using assms
proof (induction "tp_rx_q (tn_tp s)" arbitrary: s)
  case Nil
  then have "tp_rx_q (tn_tp s) = []" by simp
  moreover have "on_tp (\<lambda>p. p\<lparr>tp_rx_q := []\<rparr>) s = s" using calculation by (simp add: on_tp_def)
  ultimately show ?case
    using Nil(2) by (subst uwb_transport_process_rx_queue.simps) (simp add: dpl_mqueue_get_def)
next
  case (Cons om q)
  obtain fl where own: "own P B (tn_heap s) fl (concat (tp_packets s))" and pks: "\<forall>p \<in> set (tp_rx_q (tn_tp s) @ tn_app s). packet p"
    "\<forall>p \<in> set (tp_tx_q (tn_tp s)). to_send p" and pools: "pools_ok P Bd (tn_tp s)"
    using Cons.prems by (auto elim: tp_okD)
  let ?s1 = "on_tp (\<lambda>p. p\<lparr>tp_rx_q := q\<rparr>) s"
  let ?ext = "\<lambda>om. uwb_transport_get_extension (uh_tsp_code (hd om)) (tn_tp s)"
  let ?s2 = "case ?ext om of Some e \<Rightarrow> take_packet (ext_id e) (uh_uid (hd om)) om ?s1 | None \<Rightarrow> free_packet Bd om ?s1"
  have rx: "tp_rx_q (tn_tp s) = om # q" using Cons.hyps(2) by simp
  have ne: "om \<noteq> []" using pks(1) rx by (simp add: packet_def)
  have ext: "uwb_transport_get_extension t (tn_tp ?s1) = uwb_transport_get_extension t (tn_tp s)" for t
    by (simp add: uwb_transport_get_extension_def)
  have step: "uwb_transport_process_rx_queue Bd take_packet s = uwb_transport_process_rx_queue Bd take_packet ?s2"
    using rx ne pools by (subst uwb_transport_process_rx_queue.simps)
      (simp add: dpl_mqueue_get_def pools_ok_def uwb_transport_get_extension_def Let_def)
  have own': "own P B (tn_heap s) fl (om @ concat (tp_tx_q (tn_tp s) @ q @ tn_app s))"
    using own rx own_cong[of "concat (tp_packets s)" "om @ concat (tp_tx_q (tn_tp s) @ q @ tn_app s)"] by (simp add: tp_packets_def ac_simps)
  have ok2: "tp_ok P B Bd ?s2 \<and> tp_rx_q (tn_tp ?s2) = q \<and> tp_tx_q (tn_tp ?s2) = tp_tx_q (tn_tp s) \<and>
      tp_extensions (tn_tp ?s2) = tp_extensions (tn_tp s) \<and> tn_app ?s2 = tn_app s @ (if ?ext om = None then [] else [om])"
  proof (cases "?ext om")
    case None
    have "tp_mem P B (snd (dpl_mbuf_free_chain (te_cb Bd) om (tn_heap s))) (tp_tx_q (tn_tp s)) q (tn_app s)"
      using own' pks rx by (intro tp_mem_free) auto
    then show ?thesis using None pools by (simp add: tp_ok_def free_packet_def on_tp_def pools_ok_def)
  next
    case (Some e)
    have "tp_mem P B (tn_heap s) (tp_tx_q (tn_tp s)) q (tn_app s @ [om])"
      using pks rx by (intro tp_mem_perm[OF Cons.prems[unfolded tp_ok_def, THEN conjunct1]]) auto
    then show ?thesis using Some pools by (simp add: tp_ok_def take_packet_def on_tp_def pools_ok_def)
  qed
  have "uwb_transport_get_extension t (tn_tp ?s2) = uwb_transport_get_extension t (tn_tp s)" for t
    using ok2 by (simp only: uwb_transport_get_extension_def)
  moreover obtain s' where "uwb_transport_process_rx_queue Bd take_packet ?s2 = Some s' \<and> tp_ok P B Bd s' \<and>
      tp_tx_q (tn_tp s') = tp_tx_q (tn_tp ?s2) \<and> tp_rx_q (tn_tp s') = [] \<and>
      tn_app s' = tn_app ?s2 @ filter (\<lambda>om. uwb_transport_get_extension (uh_tsp_code (hd om)) (tn_tp ?s2) \<noteq> None) (tp_rx_q (tn_tp ?s2))"
    using Cons.hyps(1)[of ?s2] ok2 by metis
  ultimately show ?case using step ok2 rx by (intro exI[of _ s']) simp
qed

lemma concat_remove_nth:
  "i < length xs \<Longrightarrow> mset (concat xs) = mset (xs ! i) + mset (concat (remove_nth i xs))"
proof -
  assume "i < length xs"
  then have "xs = take i xs @ xs ! i # drop (Suc i) xs" by (rule id_take_nth_drop)
  then have "mset (concat xs) = mset (concat (take i xs @ xs ! i # drop (Suc i) xs))" by simp
  then show ?thesis by (simp add: remove_nth_def ac_simps)
qed

lemma set_remove_nth: "set (remove_nth i xs) \<subseteq> set xs"
  by (auto simp: remove_nth_def dest: in_set_takeD in_set_dropD)

lemma concat_update:
  "i < length xs \<Longrightarrow> mset (concat (xs[i := ys])) = mset ys + mset (concat (remove_nth i xs))"
  by (simp add: upd_conv_take_nth_drop remove_nth_def ac_simps)

lemma client_ok:
  assumes ok: "tp_ok P B Bd s"
  shows "tp_ok P B Bd (client_new Bd s) \<and> tp_tx_q (tn_tp (client_new Bd s)) = tp_tx_q (tn_tp s)"
    and "tp_ok P B Bd (client_append i xs s) \<and> tp_tx_q (tn_tp (client_append i xs s)) = tp_tx_q (tn_tp s)"
    and "tp_ok P B Bd (client_free Bd i s) \<and> tp_tx_q (tn_tp (client_free Bd i s)) = tp_tx_q (tn_tp s)"
    and "tp_ok P B Bd (client_send Bd i dst tsp r s) \<and> prefix (tp_tx_q (tn_tp s)) (tp_tx_q (tn_tp (client_send Bd i dst tsp r s)))"
proof -
  obtain fl where own: "own P B (tn_heap s) fl (concat (tp_packets s))" and pks: "\<forall>p \<in> set (tp_rx_q (tn_tp s) @ tn_app s). packet p"
    "\<forall>p \<in> set (tp_tx_q (tn_tp s)). to_send p" and pools: "pools_ok P Bd (tn_tp s)"
    using ok by (auto elim: tp_okD)
  show "tp_ok P B Bd (client_new Bd s) \<and> tp_tx_q (tn_tp (client_new Bd s)) = tp_tx_q (tn_tp s)"
  proof (rule new_mbuf_ok[OF own pools, of 32])
    assume "new_rx_mbuf Bd 32 s = (None, s)"
    then show ?thesis using ok by (simp add: client_new_def uwb_transport_new_mbuf_def)
  next
    fix m h fl' assume n: "new_rx_mbuf Bd 32 s = (Some m, s\<lparr>tn_heap := h\<rparr>)" "own P B h fl' (m # concat (tp_packets s))" "packet [m]"
    have "own P B h fl' (concat (tp_tx_q (tn_tp s) @ tp_rx_q (tn_tp s) @ tn_app s @ [[m]]))"
      using n(2) own_cong[of "m # concat (tp_packets s)" "concat (tp_tx_q (tn_tp s) @ tp_rx_q (tn_tp s) @ tn_app s @ [[m]])"]
      by (simp add: tp_packets_def)
    then show ?thesis using n(1,3) pks pools by (auto simp: client_new_def uwb_transport_new_mbuf_def tp_ok_def tp_mem_def)
  qed
  let ?om = "tn_app s ! i" and ?os = "concat (tp_tx_q (tn_tp s) @ tp_rx_q (tn_tp s) @ remove_nth i (tn_app s))"
  have own_i: "own P B (tn_heap s) fl (?om @ ?os)" if "i < length (tn_app s)"
    using own own_cong[of "concat (tp_packets s)" "?om @ ?os"] concat_remove_nth[OF that] by (simp add: tp_packets_def ac_simps)
  have rest: "\<forall>p \<in> set (tp_rx_q (tn_tp s) @ remove_nth i (tn_app s)). packet p"
    using pks set_remove_nth[of i "tn_app s"] by auto
  have pk_i: "packet ?om" if "i < length (tn_app s)" using pks that by simp
  show "tp_ok P B Bd (client_append i xs s) \<and> tp_tx_q (tn_tp (client_append i xs s)) = tp_tx_q (tn_tp s)"
  proof (cases "i < length (tn_app s) \<and> chain_len ?om + length xs < 65536")
    case True
    then have i: "i < length (tn_app s)" by simp
    have ne: "?om \<noteq> []" using pk_i[OF i] by (simp add: packet_def)
    obtain rc om' h' fl' where a: "dpl_mbuf_append ?om xs (length xs) (tn_heap s) = (rc, om', h')"
      and own': "own P B h' fl' (om' @ ?os)" and om': "om' \<noteq> []" "hdr_counts ?om \<longrightarrow> hdr_counts om'"
        "DPL_MBUF_IS_PKTHDR (hd om') = DPL_MBUF_IS_PKTHDR (hd ?om)" "chain_data om' = chain_data ?om @ take (min (length xs) (room P fl ?om)) xs"
      using append_ok[OF own_i[OF i] ne order_refl] by blast
    have "chain_len om' \<le> chain_len ?om + length xs"
      using length_chain_data[of om' P] length_chain_data[of ?om P] own_ok[OF own'] own_ok[OF own_i[OF i]] om'(4) by simp
    then have pk': "packet om'" using om' pk_i[OF i] True by (simp add: packet_def)
    have "own P B h' fl' (concat (tp_tx_q (tn_tp s) @ tp_rx_q (tn_tp s) @ (tn_app s)[i := om']))"
      using own' own_cong[of "om' @ ?os" "concat (tp_tx_q (tn_tp s) @ tp_rx_q (tn_tp s) @ (tn_app s)[i := om'])"] concat_update[OF i]
      by (simp add: ac_simps)
    then have "tp_mem P B h' (tp_tx_q (tn_tp s)) (tp_rx_q (tn_tp s)) ((tn_app s)[i := om'])"
      using pks pk' set_update_subset_insert[of "tn_app s" i om'] by (auto simp: tp_mem_def)
    then show ?thesis using a True pools by (simp add: client_append_def tp_ok_def)
  next
    case False
    then have "client_append i xs s = s" by (auto simp: client_append_def)
    then show ?thesis using ok by simp
  qed
  show "tp_ok P B Bd (client_free Bd i s) \<and> tp_tx_q (tn_tp (client_free Bd i s)) = tp_tx_q (tn_tp s)"
  proof (cases "i < length (tn_app s)")
    case True
    have "tp_mem P B (snd (dpl_mbuf_free_chain (te_cb Bd) ?om (tn_heap s))) (tp_tx_q (tn_tp s)) (tp_rx_q (tn_tp s)) (remove_nth i (tn_app s))"
      using own_i[OF True] rest pks(2) by (intro tp_mem_free) auto
    then show ?thesis using True pools by (simp add: client_free_def free_packet_def tp_ok_def)
  qed (use ok in \<open>simp add: client_free_def\<close>)
  show "tp_ok P B Bd (client_send Bd i dst tsp r s) \<and> prefix (tp_tx_q (tn_tp s)) (tp_tx_q (tn_tp (client_send Bd i dst tsp r s)))"
  proof (cases "i < length (tn_app s) \<and> unat (DPL_MBUF_PKTLEN (hd ?om)) \<le> uwb_transport_mtu Bd (tn_dev s)")
    case True
    let ?s = "s\<lparr>tn_app := remove_nth i (tn_app s)\<rparr>"
    have own1: "own P B (tn_heap ?s) fl (?om @ concat (tp_packets ?s))" using own_i True by (simp add: tp_packets_def)
    have mtu: "chain_len ?om \<le> uwb_transport_mtu Bd (tn_dev ?s)" using True packet_pktlen[OF pk_i] by simp
    obtain rc s' where "uwb_transport_enqueue_tx Bd dst tsp r ?om ?s = (rc, s')" "tp_ok P B Bd s'"
      "if rc = MB_OK then \<exists>om'. tp_tx_q (tn_tp s') = tp_tx_q (tn_tp ?s) @ [om'] \<and> packet om' \<and> chain_data om' = chain_data ?om @ trailer dst tsp r
       else tp_tx_q (tn_tp s') = tp_tx_q (tn_tp ?s)"
      using enqueue_effect[OF own1 _ _ _ pk_i mtu, of dst tsp r] rest pks(2) pools True by auto
    then show ?thesis using True by (auto simp: client_send_def split: if_splits)
  next
    case False
    then have "client_send Bd i dst tsp r s = s" by (auto simp: client_send_def)
    then show ?thesis using ok by simp
  qed
qed

end
