(* ===== verification/Uwb_Transport_Runs.thy ===== *)
theory Uwb_Transport_Runs
  imports Uwb_Transport_System
begin

text \<open>
  Runs of a node: every step keeps \<open>tp_ok\<close>, and a step that is not possible waits for a token,
  comes when the loop is elsewhere, or receives a frame shorter than its header.
\<close>

unbundle bit_operations_syntax

section \<open>All steps\<close>

text \<open>Frames fit into 16 bits of length, which is what the driver reports.\<close>

fun op_ok :: "tp_op \<Rightarrow> bool" where
  "op_ok (Op_received t f a) = (length f < 65536)"
| "op_ok _ = True"

text \<open>When a step cannot be: a wait for a token that is not there, the loop where it is not, or a short frame.\<close>

definition tp_blocked :: "tp_op \<Rightarrow> mchain list tp_loop \<Rightarrow> bool" where
  "tp_blocked op c =
     (case op of
        Op_received t f a \<Rightarrow> length f < sizeof_frame_header
      | Op_listen w dx dx_end \<Rightarrow> w = Got_token \<and> tp_sem (tn_tp (snd (snd c))) = 0
      | Op_listen_wait w \<Rightarrow> w \<noteq> Got_token \<or> tp_sem (tn_tp (snd (snd c))) = 0
      | Op_dequeue dx dx_end \<Rightarrow> (\<forall>b. fst c \<noteq> Dequeue_returned b)
      | Op_step w \<Rightarrow> (\<exists>b. fst c = Dequeue_returned b) \<or> w = Got_token \<and> awaited_sem c = 0
      | _ \<Rightarrow> False)"

lemma rx_complete_returns:
  assumes ok: "tp_ok P B Bd s" and f: "13 \<le> length f" "length f < 65536"
  shows "tp_rx_complete_cb Bd t (receive_frame f a s) \<noteq> None"
proof -
  let ?s = "receive_frame f a s"
  have "tp_accept_frame Bd s2 \<noteq> None" if "same_mem s s2" "tn_dev s2 = tn_dev ?s" for s2
    using accept_frame_effect[OF tp_ok_same[OF that(1) ok], of f] that(2) f by (auto simp: receive_frame_def)
  moreover have "same_mem s (TP_INC Tp_rx_packets (on_tp g (if b then on_tp h ?s else ?s)))"
      "tn_dev (TP_INC Tp_rx_packets (on_tp g (if b then on_tp h ?s else ?s))) = tn_dev ?s"
    if "g = (\<lambda>p. p\<lparr>tp_last_frame := x, tp_last_frame_time := t\<rparr>)" "h = (\<lambda>p. p\<lparr>tp_awaiting_ack_tx := True\<rparr>)" for g h b x
    using that by (simp_all add: same_mem_def receive_frame_def)
  ultimately have "tp_accept_frame Bd (TP_INC Tp_rx_packets (on_tp (\<lambda>p. p\<lparr>tp_last_frame := x, tp_last_frame_time := t\<rparr>)
      (if b then on_tp (\<lambda>p. p\<lparr>tp_awaiting_ack_tx := True\<rparr>) ?s else ?s))) \<noteq> None" for b x
    by blast
  then obtain y where "tp_accept_frame Bd (TP_INC Tp_rx_packets
      (on_tp (\<lambda>p. p\<lparr>tp_last_frame := take sizeof_frame_header (dev_rxbuf (tn_dev ?s)), tp_last_frame_time := t\<rparr>)
        (if st_autoack_triggered (dev_status (tn_dev ?s)) then on_tp (\<lambda>p. p\<lparr>tp_awaiting_ack_tx := True\<rparr>) ?s else ?s))) = Some y"
    by blast
  then show ?thesis
    unfolding tp_rx_complete_cb_def Let_def by (simp only: option.map if_split[of "\<lambda>x. x \<noteq> None"] option.distinct simp_thms)
qed

lemma node_step_ok:
  assumes ok: "tp_ok P B Bd s" and op: "op_ok op" and s': "node_step Bd op s = Some s'"
  shows "tp_ok P B Bd s' \<and> prefix (tp_tx_q (tn_tp s)) (tp_tx_q (tn_tp s'))"
proof -
  have same: "tp_ok P B Bd s'' \<and> prefix (tp_tx_q (tn_tp s)) (tp_tx_q (tn_tp s''))" if "same_mem s s''" for s''
    using tp_ok_same[OF that ok] that by (simp add: same_mem_def)
  have cb: "same_mem s (snd (tp_rx_timeout_cb s))" "same_mem s (snd (tp_tx_begins_cb s))" "same_mem s (snd (tp_tx_complete_cb s))"
      "same_mem s (snd (tp_reset_cb s))"
    by (simp_all add: same_mem_def tp_rx_timeout_cb_def tp_tx_begins_cb_def tp_tx_complete_cb_def tp_reset_cb_def Let_def)
  have listen: "same_mem s s''" if "uwb_transport_listen_start Bd w dx dxe s = Some s''" for w dx dxe s''
    using that by (auto simp: uwb_transport_listen_start_def Let_def same_mem_def split: option.splits if_splits)
  have wait: "same_mem s s''" if "uwb_transport_listen_wait w s = Some s''" for w s''
    using that by (auto simp: uwb_transport_listen_wait_def same_mem_def split: option.splits prod.splits dpl_error_t.splits)
  show ?thesis
  proof (cases op)
    case (Op_received t f a)
    then show ?thesis using s' op rx_complete_ok[OF ok] by auto
  next
    case Op_process
    then show ?thesis using s' process_rx_ok[OF ok] by auto
  qed (use s' same cb listen wait client_ok[OF ok] in auto)
qed

lemma node_step_blocked:
  assumes ok: "tp_ok P B Bd s" and op: "op_ok op" and none: "node_step Bd op s = None"
  shows "tp_blocked op (pc, l, s) \<or> (\<exists>dx dxe. op = Op_dequeue dx dxe) \<or> (\<exists>w. op = Op_step w)"
proof (cases op)
  case (Op_received t f a)
  then show ?thesis using none op rx_complete_returns[OF ok, of f t a] by (auto simp: tp_blocked_def not_less[symmetric])
next
  case (Op_listen w dx dxe)
  then show ?thesis using none pend_any_cases by (auto simp: uwb_transport_listen_start_def tp_blocked_def Let_def split: option.splits)
next
  case (Op_listen_wait w)
  then show ?thesis using none
    by (auto simp: uwb_transport_listen_wait_def tp_blocked_def dpl_sem_pend_def split: wait_end.splits if_splits)
next
  case Op_process
  then show ?thesis using none process_rx_ok[OF ok] by auto
qed (use none in auto)

lemma tp_step_node:
  assumes "\<forall>w. op \<noteq> Op_step w" and "\<forall>dx dxe. op \<noteq> Op_dequeue dx dxe"
  shows "tp_step Bd op (pc, l, s) = map_option (\<lambda>s. (pc, l, s)) (node_step Bd op s)"
  using assms by (cases op) simp_all

lemma tp_step_ok:
  assumes ok: "loop_ok P B Bd c" and op: "op_ok op"
  shows "case tp_step Bd op c of None \<Rightarrow> tp_blocked op c | Some c' \<Rightarrow> loop_ok P B Bd c'"
proof -
  obtain pc l s where c: "c = (pc, l, s)" by (cases c)
  have okn: "tp_ok P B Bd s" and ne: "pc \<in> {Wait_write_lock, Wait_sem, Wait_ack_sem, Wait_ack} \<longrightarrow> tp_tx_q (tn_tp s) \<noteq> []"
    using ok c by (auto simp: loop_ok_def)
  consider (step) w where "op = Op_step w" | (deq) dx dxe where "op = Op_dequeue dx dxe"
    | (node) "\<forall>w. op \<noteq> Op_step w" "\<forall>dx dxe. op \<noteq> Op_dequeue dx dxe" by blast
  then show ?thesis
  proof cases
    case step
    then show ?thesis using dequeue_step_ok[OF ok, of w] by (cases "dequeue_step Bd no_signal w c") (auto simp: tp_blocked_def)
  next
    case deq
    show ?thesis
    proof (cases "\<exists>b. pc = Dequeue_returned b")
      case True
      then obtain b where "pc = Dequeue_returned b" by blast
      then show ?thesis using deq c okn dequeue_top_ok by (auto simp: uwb_transport_dequeue_tx_def Let_def loop_ok_def)
    next
      case False
      then have "tp_step Bd op c = None" using deq c by (cases pc) simp_all
      then show ?thesis using deq c False by (auto simp: tp_blocked_def)
    qed
  next
    case node
    have eq: "tp_step Bd op c = map_option (\<lambda>s. (pc, l, s)) (node_step Bd op s)"
      using tp_step_node[OF node] c by simp
    show ?thesis
    proof (cases "node_step Bd op s")
      case None
      then show ?thesis using eq c node node_step_blocked[OF okn op None, of pc l] by auto
    next
      case (Some s')
      then show ?thesis
        using eq ne node_step_ok[OF okn op Some] by (auto simp: loop_ok_def)
    qed
  qed
qed

lemma tp_run_ok:
  assumes "loop_ok P B Bd c" and "\<forall>op \<in> set ops. op_ok op" and "tp_run Bd ops c = Some c'"
  shows "loop_ok P B Bd c'"
  using assms
proof (induction ops arbitrary: c)
  case (Cons op ops)
  then obtain c1 where "tp_step Bd op c = Some c1" "tp_run Bd ops c1 = Some c'" by (auto simp: bind_eq_Some_conv)
  then show ?case using Cons.IH[of c1] tp_step_ok[OF Cons.prems(1), of op] Cons.prems(2) by simp
qed simp

section \<open>The memory\<close>

text \<open>A node as the initialisation leaves it, with a client that holds nothing and the loop not running.\<close>

definition tp_start :: "uwb_dev \<Rightarrow> dpl_heap \<Rightarrow> dpl_mbuf_pool option \<Rightarrow> client_node" where
  "tp_start dev h own_pool =
     \<lparr>tn_dev = dev, tn_tp = uwb_transport_init None own_pool, tn_heap = h, tn_stat = (\<lambda>_. 0), tn_posted = False, tn_freed = False, tn_app = []\<rparr>"

lemma tp_start_ok:
  assumes "own P B h fl []" and "28 \<le> omp_databuf_len P" and "case own_pool of None \<Rightarrow> te_pools Bd = [P] | Some P' \<Rightarrow> P' = P"
  shows "tp_ok P B Bd (tp_start dev h own_pool)"
  using assms
  by (auto simp: tp_ok_def tp_mem_def pools_ok_def tp_start_def uwb_transport_init_def calloc_transport_def Let_def split: option.splits)

end
