(* ===== verification/Uwb_Transport_Radio.thy ===== *)
theory Uwb_Transport_Radio
  imports Uwb_Transport_Runs Twr_Protocol
begin

text \<open>
  What goes on the air. \<open>radio_memory\<close> is what a history of commands leaves in the transmit buffer
  of the device, \<open>sent_frame\<close> the frame that its last transmission sends. An attempt is the way of
  the sending loop from its top to the wait for the acknowledgement; after it the packet is gone,
  or is attempted again with one retry less.
\<close>

unbundle bit_operations_syntax

section \<open>The radio\<close>

text \<open>
  What the transmit buffer of the device holds after a history of commands, and the frame that a
  transmission then sends.
\<close>

definition radio_write :: "dev_cmd \<Rightarrow> bytes \<Rightarrow> bytes" where
  "radio_write c m = (case c of Write_tx xs off \<Rightarrow> write_at m (unat off) xs | _ \<Rightarrow> m)"

definition radio_memory :: "dev_cmd list \<Rightarrow> bytes" where
  "radio_memory cs = fold radio_write cs (replicate 1024 0)"

definition radio_fctrl :: "dev_cmd \<Rightarrow> nat \<times> nat \<Rightarrow> nat \<times> nat" where
  "radio_fctrl c r = (case c of Write_tx_fctrl len off \<Rightarrow> (unat len, unat off) | _ \<Rightarrow> r)"

definition sent_frame :: "dev_cmd list \<Rightarrow> bytes" where
  "sent_frame cs = (let (len, off) = fold radio_fctrl cs (0, 0) in take len (drop off (radio_memory cs)))"

definition n_starts :: "dev_cmd list \<Rightarrow> nat" where
  "n_starts cs = length (filter (\<lambda>c. c = Start_tx) cs)"

lemma radio_append [simp]:
  "radio_memory (cs @ [c]) = radio_write c (radio_memory cs)" "n_starts (cs @ [c]) = n_starts cs + (if c = Start_tx then 1 else 0)"
  by (simp_all add: radio_memory_def n_starts_def)

lemma length_radio_memory [simp]: "length (radio_memory cs) = 1024"
proof -
  have "length (fold radio_write cs m) = length m" for m
    by (induction cs arbitrary: m) (auto simp: radio_write_def split: dev_cmd.splits)
  then show ?thesis by (simp add: radio_memory_def)
qed

lemma dev_cmds_command [simp]: "dev_cmds (uwb_command uf c d) = dev_cmds d @ [c]"
  by (simp add: uwb_command_def)

lemma copydata_data:
  assumes "\<forall>m \<in> set om. mbuf_ok P m" and "chain_data om = d @ xs" and "i + n \<le> length d"
  shows "snd (dpl_mbuf_copydata om (int i) (int n)) = take n (drop i d)"
  using copydata_ok[OF assms(1), of i n] assms(2,3) by (simp add: take_append drop_append)

lemma write_payload_memory:
  assumes oks: "\<forall>m \<in> set om. mbuf_ok P m" and data: "chain_data om = d @ xs" and buf: "128 \<le> length buf"
    and i: "i \<le> length d" and j: "j + length d < 65536 + i"
  shows "radio_memory (dev_cmds (write_payload uf om (int (length d)) (int i) (int j) buf dev)) =
      write_at (radio_memory (dev_cmds dev)) j (drop i d) \<and>
    n_starts (dev_cmds (write_payload uf om (int (length d)) (int i) (int j) buf dev)) = n_starts (dev_cmds dev)"
  using buf i j
proof (induction "length d - i" arbitrary: i j buf dev rule: less_induct)
  case less
  show ?case
  proof (cases "i < length d")
    case False
    then show ?thesis using less.prems by (subst (1 2) write_payload.simps) simp
  next
    case True
    define n where "n = min (length d - i) 128"
    let ?x = "take n (drop i d)"
    let ?buf = "write_at buf 0 ?x" and ?dev = "uwb_write_tx uf (write_at buf 0 ?x) (of_int (int j)) (of_int (int n)) dev"
    have n: "0 < n" "n \<le> 128" "i + n \<le> length d" using True by (auto simp: n_def)
    have nn: "min (int (length d) - int i) 128 = int n" using True by (simp add: n_def of_nat_min of_nat_diff)
    have lx: "length ?x = n" using n by simp
    have c: "snd (dpl_mbuf_copydata om (int i) (int n)) = ?x" by (rule copydata_data[OF oks data n(3)])
    have step: "write_payload uf om (int (length d)) (int i) (int j) buf dev =
        write_payload uf om (int (length d)) (int (i + n)) (int (j + n)) ?buf ?dev"
      by (subst write_payload.simps) (use True nn c in \<open>simp add: Let_def\<close>)
    have tk: "take n ?buf = ?x" using lx less.prems(1) n by (simp add: write_at_0)
    have un: "unat (of_nat n :: u16) = n" "unat (of_nat j :: u16) = j"
      using n less.prems(3) True by (simp_all add: unat_of_nat)
    have mem: "radio_memory (dev_cmds ?dev) = write_at (radio_memory (dev_cmds dev)) j ?x" "n_starts (dev_cmds ?dev) = n_starts (dev_cmds dev)"
      using un tk by (simp_all add: uwb_write_tx_def radio_write_def)
    have "radio_memory (dev_cmds (write_payload uf om (int (length d)) (int (i + n)) (int (j + n)) ?buf ?dev)) =
        write_at (radio_memory (dev_cmds ?dev)) (j + n) (drop (i + n) d) \<and>
      n_starts (dev_cmds (write_payload uf om (int (length d)) (int (i + n)) (int (j + n)) ?buf ?dev)) = n_starts (dev_cmds ?dev)"
      using n less.prems by (intro less.hyps) auto
    moreover have "write_at (write_at m j ?x) (j + n) (drop (i + n) d) = write_at m j (drop i d)" for m
    proof -
      have "?x @ drop (i + n) d = drop i d" using append_take_drop_id[of n "drop i d"] by (simp add: add.commute)
      then show ?thesis using write_at_append[of m j ?x "drop (i + n) d"] lx by simp
    qed
    ultimately show ?thesis using step mem by simp
  qed
qed

lemma sent_frame_writes:
  assumes "off + length xs \<le> 1024" and "length xs < 65536" and "radio_memory cs = write_at m off xs" and "length m = 1024"
    and "fold radio_fctrl cs (0, 0) = (length xs, off)"
  shows "sent_frame cs = xs"
  using assms by (simp add: sent_frame_def write_at_slices)

section \<open>One attempt\<close>

lemma fh_seq_num_append: "13 \<le> length xs \<Longrightarrow> fh_seq_num (xs @ ys) = fh_seq_num xs"
  by (simp add: fh_seq_num_def get_u8_def nth_append)

text \<open>The frame that carries \<open>d\<close>, with an acknowledgement asked for.\<close>

definition data_frame :: "u8 \<Rightarrow> client_node \<Rightarrow> u16 \<Rightarrow> u16 \<Rightarrow> bytes \<Rightarrow> bytes" where
  "data_frame seq s dst tsp d =
     frame_header (UWB_TRANSPORT_FCTRL OR UWB_FCTRL_ACK_REQUESTED) seq (dev_pan_id (tn_dev s)) dst (dev_my_short_address (tn_dev s))
       UWB_DATA_CODE_TRNSPRT_REQUEST tsp @ d"

text \<open>The frame \<open>f\<close> is in the device's buffer, where the next transmission takes it from.\<close>

definition loaded :: "bytes \<Rightarrow> client_node \<Rightarrow> bool" where
  "loaded f s \<longleftrightarrow> (\<exists>m off. off + length f \<le> 1024 \<and> length m = 1024 \<and> tp_tx_buffer_len (tn_tp s) = of_nat (length f) \<and>
     tp_tx_buffer_offset (tn_tp s) = of_nat off \<and> radio_memory (dev_cmds (tn_dev s)) = write_at m off f)"

text \<open>The loop before, and after, it starts a transmission of its first packet.\<close>

definition packet_first :: "dpl_mbuf_pool \<Rightarrow> addr set \<Rightarrow> tp_build \<Rightarrow> bytes \<Rightarrow> u16 \<Rightarrow> u16 \<Rightarrow> u16 \<Rightarrow> mchain list \<Rightarrow> client_node \<Rightarrow> bool" where
  "packet_first P B Bd d dst tsp r q s \<longleftrightarrow>
     tp_ok P B Bd s \<and> length d \<le> 497 \<and> (\<exists>om. tp_tx_q (tn_tp s) = om # q \<and> chain_data om = d @ trailer dst tsp r) \<and>
     tp_request_acks (tn_tp s)"

definition sems_are :: "nat \<Rightarrow> client_node \<Rightarrow> bool" where
  "sems_are k s \<longleftrightarrow> tp_write_tx_lock (tn_tp s) = k \<and> tp_sem (tn_tp s) = k \<and> tp_ack_sem (tn_tp s) = k"

definition attempt :: "dpl_mbuf_pool \<Rightarrow> addr set \<Rightarrow> tp_build \<Rightarrow> bytes \<Rightarrow> bytes \<Rightarrow> u16 \<Rightarrow> u16 \<Rightarrow> u16 \<Rightarrow> mchain list \<Rightarrow> mchain list tp_loop \<Rightarrow> bool" where
  "attempt P B Bd f d dst tsp r q c \<longleftrightarrow> (case c of (pc, l, s) \<Rightarrow>
     pc = Wait_write_lock \<and> packet_first P B Bd d dst tsp r q s \<and> sems_are 1 s \<and> tl_held l \<and> tl_dx_time_end l = 0 \<and>
     (if tl_transferred l then tl_n_sent l = 0 \<and> tp_frame_seq_num (tn_tp s) = fh_seq_num f \<and> loaded f s
      else f = data_frame (tp_frame_seq_num (tn_tp s) + 1) s dst tsp d))"

definition on_air :: "dpl_mbuf_pool \<Rightarrow> addr set \<Rightarrow> tp_build \<Rightarrow> bytes \<Rightarrow> bytes \<Rightarrow> u16 \<Rightarrow> u16 \<Rightarrow> u16 \<Rightarrow> mchain list \<Rightarrow> mchain list tp_loop \<Rightarrow> bool" where
  "on_air P B Bd f d dst tsp r q c \<longleftrightarrow> (case c of (pc, l, s) \<Rightarrow>
     pc = Wait_ack \<and> packet_first P B Bd d dst tsp r q s \<and> sems_are 0 s \<and> tl_held l \<and> tl_dx_time_end l = 0 \<and>
     tl_transferred l \<and> tl_n_sent l = 1 \<and> tp_frame_seq_num (tn_tp s) = fh_seq_num f \<and> loaded f s \<and>
     sent_frame (dev_cmds (tn_dev s)) = f)"

lemma packet_first_same: "same_mem s s' \<Longrightarrow> tp_request_acks (tn_tp s') = tp_request_acks (tn_tp s) \<Longrightarrow>
    packet_first P B Bd d dst tsp r q s \<Longrightarrow> packet_first P B Bd d dst tsp r q s'"
  using tp_ok_same[of s s' P B Bd] by (simp add: packet_first_def same_mem_def)

lemma write_tx_loads:
  assumes pf: "packet_first P B Bd d dst tsp r q s" and stack: "128 \<le> length (te_stack Bd)"
  shows "\<exists>s'. uwb_transport_write_tx Bd (hd (tp_tx_q (tn_tp s))) idx s = Some s' \<and> same_mem s s' \<and>
    tp_request_acks (tn_tp s') = tp_request_acks (tn_tp s) \<and> tp_write_tx_lock (tn_tp s') = tp_write_tx_lock (tn_tp s) \<and>
    tp_sem (tn_tp s') = tp_sem (tn_tp s) \<and> tp_ack_sem (tn_tp s') = tp_ack_sem (tn_tp s) \<and>
    tp_frame_seq_num (tn_tp s') = tp_frame_seq_num (tn_tp s) + 1 \<and> tn_stat s' = tn_stat s \<and>
    n_starts (dev_cmds (tn_dev s')) = n_starts (dev_cmds (tn_dev s)) \<and>
    loaded (data_frame (tp_frame_seq_num (tn_tp s) + 1) s dst tsp d) s'"
proof -
  obtain om where om: "tp_tx_q (tn_tp s) = om # q" "chain_data om = d @ trailer dst tsp r" and ok: "tp_ok P B Bd s" and len: "length d \<le> 497"
    and ra: "tp_request_acks (tn_tp s)"
    using pf by (auto simp: packet_first_def)
  obtain fl where own: "own P B (tn_heap s) fl (concat (tp_packets s))" and pk: "packet om"
    using ok om(1) by (auto elim!: tp_okD simp: to_send_def)
  have oks: "\<forall>m \<in> set om. mbuf_ok P m" using own_ok[OF own] om(1) by (auto simp: tp_packets_def)
  let ?off = "if idx mod 2 \<noteq> 0 then 512 else 0 :: nat"
  let ?f = "data_frame (tp_frame_seq_num (tn_tp s) + 1) s dst tsp d"
  let ?hdr = "take 13 ?f"
  let ?m = "radio_memory (dev_cmds (tn_dev s))"
  have lf: "length ?f = 13 + length d" and f: "?f = ?hdr @ d" by (simp_all add: data_frame_def)
  let ?d1 = "uwb_write_tx (te_uf Bd) ?hdr (of_nat ?off) (of_nat sizeof_frame_header) (tn_dev s)"
  have un: "unat (of_nat ?off :: u16) = ?off" by (simp add: unat_of_nat)
  have m1: "radio_memory (dev_cmds ?d1) = write_at ?m ?off ?hdr" "n_starts (dev_cmds ?d1) = n_starts (dev_cmds (tn_dev s))"
    using un lf by (simp_all add: uwb_write_tx_def radio_write_def)
  note wp = write_payload_memory[OF oks om(2) stack, of 0 "13 + ?off" "te_uf Bd" ?d1]
  have "write_at (write_at ?m ?off ?hdr) (13 + ?off) d = write_at ?m ?off ?f"
    using write_at_append[of ?m ?off ?hdr d] lf f by (simp add: add.commute)
  then have m2: "radio_memory (dev_cmds (write_payload (te_uf Bd) om (int (length d)) 0 (int (13 + ?off)) (te_stack Bd) ?d1)) = write_at ?m ?off ?f"
    and s2: "n_starts (dev_cmds (write_payload (te_uf Bd) om (int (length d)) 0 (int (13 + ?off)) (te_stack Bd) ?d1)) = n_starts (dev_cmds (tn_dev s))"
    using wp m1 len by simp_all
  let ?s' = "on_tp (\<lambda>p. p\<lparr>tp_tx_buffer_len := of_nat (13 + length d), tp_tx_buffer_offset := of_nat ?off\<rparr>)
      (on_tdev (write_payload (te_uf Bd) om (int (length d)) 0 (int (13 + ?off)) (te_stack Bd))
        (on_tdev (uwb_write_tx (te_uf Bd) ?hdr (of_nat ?off) (of_nat sizeof_frame_header))
          (on_tp (\<lambda>p. p\<lparr>tp_frame_seq_num := tp_frame_seq_num (tn_tp s) + 1\<rparr>) s)))"
  have w: "uwb_transport_write_tx Bd om idx s = Some ?s'"
    using write_tx_effect[OF oks pk om(2), of Bd idx s] ra by (simp add: Let_def data_frame_def)
  have "loaded ?f ?s'"
    unfolding loaded_def using m2 lf len by (intro exI[of _ ?m] exI[of _ ?off]) simp
  then show ?thesis using w om(1) s2 by (intro exI[of _ ?s']) (simp add: same_mem_def)
qed

lemma start_tx_sends:
  assumes "s' = uwb_transport_start_tx Bd t s"
  shows "tn_tp s' = tn_tp s \<and> tn_heap s' = tn_heap s \<and> tn_app s' = tn_app s \<and> tn_stat s' = tn_stat s \<and>
    n_starts (dev_cmds (tn_dev s')) = Suc (n_starts (dev_cmds (tn_dev s))) \<and>
    (loaded f s \<longrightarrow> loaded f s' \<and> sent_frame (dev_cmds (tn_dev s')) = f) \<and>
    dev_status (tn_dev s') = uf_status (te_uf Bd) (dev_cmds (tn_dev s'))"
proof -
  obtain ds where ds: "dev_cmds (tn_dev s') = dev_cmds (tn_dev s) @ ds @ [Write_tx_fctrl (tp_tx_buffer_len (tn_tp s)) (tp_tx_buffer_offset (tn_tp s)), Start_tx]"
      "n_starts ds = 0" "\<And>m. fold radio_write ds m = m"
    unfolding assms uwb_transport_start_tx_def Let_def
    by (cases "t \<noteq> 0"; cases "tp_request_acks (tn_tp s)") (simp_all add: uwb_api_defs n_starts_def radio_write_def)
  have tp: "tn_tp s' = tn_tp s" "tn_heap s' = tn_heap s" "tn_app s' = tn_app s" "tn_stat s' = tn_stat s"
    unfolding assms uwb_transport_start_tx_def Let_def by simp_all
  have st: "dev_status (tn_dev s') = uf_status (te_uf Bd) (dev_cmds (tn_dev s'))"
    unfolding assms uwb_transport_start_tx_def Let_def by (simp add: uwb_start_tx_def uwb_command_def)
  have mem: "radio_memory (dev_cmds (tn_dev s')) = radio_memory (dev_cmds (tn_dev s))"
    using ds(1,3) by (simp add: radio_memory_def radio_write_def)
  have fc: "fold radio_fctrl (dev_cmds (tn_dev s')) (0, 0) = (unat (tp_tx_buffer_len (tn_tp s)), unat (tp_tx_buffer_offset (tn_tp s)))"
    using ds(1) by (simp add: radio_fctrl_def)
  have "sent_frame (dev_cmds (tn_dev s')) = f" if "loaded f s"
  proof -
    obtain m off where l: "off + length f \<le> 1024" "length m = 1024" "tp_tx_buffer_len (tn_tp s) = of_nat (length f)"
      "tp_tx_buffer_offset (tn_tp s) = of_nat off" "radio_memory (dev_cmds (tn_dev s)) = write_at m off f"
      using \<open>loaded f s\<close> unfolding loaded_def by blast
    then have "fold radio_fctrl (dev_cmds (tn_dev s')) (0, 0) = (length f, off)" using fc by (simp add: unat_of_nat)
    then show ?thesis using l mem by (intro sent_frame_writes) auto
  qed
  moreover have "n_starts (dev_cmds (tn_dev s')) = Suc (n_starts (dev_cmds (tn_dev s)))" using ds(1,2) by (simp add: n_starts_def)
  ultimately show ?thesis using tp mem st by (simp add: loaded_def)
qed

text \<open>From the top of the loop to the air.\<close>

abbreviation (input) "three_tokens \<equiv> [Op_step Got_token, Op_step Got_token, Op_step Got_token]"

lemma attempt_sends:
  assumes at: "attempt P B Bd f d dst tsp r q c" and uf: "driver_ok (te_uf Bd)" and stack: "128 \<le> length (te_stack Bd)"
  shows "\<exists>c'. tp_run Bd three_tokens c = Some c' \<and> on_air P B Bd f d dst tsp r q c' \<and>
    n_starts (dev_cmds (tn_dev (snd (snd c')))) = Suc (n_starts (dev_cmds (tn_dev (snd (snd c))))) \<and>
    tn_stat (snd (snd c')) Tp_tx_packets = tn_stat (snd (snd c)) Tp_tx_packets"
proof -
  obtain l s where c: "c = (Wait_write_lock, l, s)" and pf: "packet_first P B Bd d dst tsp r q s" and sems: "sems_are 1 s"
    and hl: "tl_held l" "tl_dx_time_end l = 0"
    and tr: "if tl_transferred l then tl_n_sent l = 0 \<and> tp_frame_seq_num (tn_tp s) = fh_seq_num f \<and> loaded f s
      else f = data_frame (tp_frame_seq_num (tn_tp s) + 1) s dst tsp d"
    using at by (auto simp: attempt_def split: prod.splits)
  let ?s1 = "on_tp (\<lambda>p. p\<lparr>tp_write_tx_lock := 0\<rparr>) s"
  have pf1: "packet_first P B Bd d dst tsp r q ?s1" using pf by (rule packet_first_same[rotated 2]) (simp_all add: same_mem_def)
  obtain l2 s2 where w: "dequeue_write Bd l ?s1 = Some (Wait_sem, l2, s2)" and l2: "tl_transferred l2" "tl_n_sent l2 = 0" "tl_held l2"
      "tl_dx_time_end l2 = 0" and sm: "same_mem ?s1 s2" and ra: "tp_request_acks (tn_tp s2) = tp_request_acks (tn_tp s)"
    and s2: "tp_sem (tn_tp s2) = 1" "tp_ack_sem (tn_tp s2) = 1" "tp_write_tx_lock (tn_tp s2) = 0"
      "tp_frame_seq_num (tn_tp s2) = fh_seq_num f" "loaded f s2"
      "n_starts (dev_cmds (tn_dev s2)) = n_starts (dev_cmds (tn_dev s))" "tn_stat s2 Tp_tx_packets = tn_stat s Tp_tx_packets"
  proof (cases "tl_transferred l")
    case True
    then have "dequeue_write Bd l ?s1 = Some (Wait_sem, l, ?s1)" by (simp add: dequeue_write_def)
    then show ?thesis
      using that[of l ?s1] True tr hl sems by (simp add: same_mem_def sems_are_def loaded_def)
  next
    case False
    let ?s1' = "TP_INC Tp_om_writes ?s1" and ?l = "l\<lparr>tl_idx := tl_idx l + 1, tl_n_sent := 0, tl_transferred := True\<rparr>"
    have pf': "packet_first P B Bd d dst tsp r q ?s1'" using pf1 by (rule packet_first_same[rotated 2]) (simp_all add: same_mem_def)
    have f: "f = data_frame (tp_frame_seq_num (tn_tp ?s1') + 1) ?s1' dst tsp d" using tr False by (simp add: data_frame_def)
    obtain s' where w: "uwb_transport_write_tx Bd (hd (tp_tx_q (tn_tp ?s1'))) (tl_idx l + 1) ?s1' = Some s'" and sm: "same_mem ?s1' s'"
      and rest: "tp_request_acks (tn_tp s') = tp_request_acks (tn_tp ?s1')" "tp_write_tx_lock (tn_tp s') = tp_write_tx_lock (tn_tp ?s1')"
        "tp_sem (tn_tp s') = tp_sem (tn_tp ?s1')" "tp_ack_sem (tn_tp s') = tp_ack_sem (tn_tp ?s1')"
        "tp_frame_seq_num (tn_tp s') = tp_frame_seq_num (tn_tp ?s1') + 1" "tn_stat s' = tn_stat ?s1'"
        "n_starts (dev_cmds (tn_dev s')) = n_starts (dev_cmds (tn_dev ?s1'))" and ld: "loaded f s'"
      using write_tx_loads[OF pf' stack, of "tl_idx l + 1"] f by blast
    have sq: "fh_seq_num f = tp_frame_seq_num (tn_tp ?s1') + 1"
      unfolding f data_frame_def by (simp add: fh_seq_num_append)
    have "dequeue_write Bd l ?s1 = Some (Wait_sem, ?l, s')" using w False by (simp add: dequeue_write_def)
    then show ?thesis
      using that[of ?l s'] sm rest ld sq hl sems by (simp add: same_mem_def sems_are_def TP_INC_def TP_INCN_def)
  qed
  let ?s3 = "on_tp (\<lambda>p. p\<lparr>tp_ack_sem := 0\<rparr>) (on_tp (\<lambda>p. p\<lparr>tp_sem := 0\<rparr>) s2)"
  let ?t = "if tl_arg_dx_time l2 \<noteq> 0 then tl_dx_time l2 else 0"
  let ?s4 = "uwb_transport_start_tx Bd ?t ?s3"
  have st: "tn_tp ?s4 = tn_tp ?s3" "tn_heap ?s4 = tn_heap ?s3" "tn_app ?s4 = tn_app ?s3" "tn_stat ?s4 = tn_stat ?s3"
    "n_starts (dev_cmds (tn_dev ?s4)) = Suc (n_starts (dev_cmds (tn_dev ?s3)))" "loaded f ?s3 \<longrightarrow> loaded f ?s4 \<and> sent_frame (dev_cmds (tn_dev ?s4)) = f"
    "\<not> st_start_tx_error (dev_status (tn_dev ?s4))"
    using start_tx_sends[OF refl, of Bd ?t ?s3 f] uf by (simp_all add: driver_ok_def)
  have ra1: "tp_request_acks (tn_tp s)" using pf by (simp add: packet_first_def)
  have start: "dequeue_start Bd no_signal l2 ?s3 = (Wait_ack, l2\<lparr>tl_n_sent := 1\<rparr>, ?s4)"
    using st l2 ra ra1 by (simp add: dequeue_start_def Let_def)
  have pend: "pend_any 1 Got_token = Some 0" by (simp add: pend_any_def dpl_sem_pend_def)
  have s1: "dequeue_step Bd no_signal Got_token c = Some (Wait_sem, l2, s2)"
    using w sems pend c by (simp add: dequeue_step_def sems_are_def)
  have s2': "dequeue_step Bd no_signal Got_token (Wait_sem, l2, s2) = Some (Wait_ack_sem, l2, on_tp (\<lambda>p. p\<lparr>tp_sem := 0\<rparr>) s2)"
    using s2(1) pend ra ra1 by (simp add: dequeue_step_def Let_def)
  have s3: "dequeue_step Bd no_signal Got_token (Wait_ack_sem, l2, on_tp (\<lambda>p. p\<lparr>tp_sem := 0\<rparr>) s2) = Some (Wait_ack, l2\<lparr>tl_n_sent := 1\<rparr>, ?s4)"
    using s2(2) pend start by (simp add: dequeue_step_def)
  have run: "tp_run Bd three_tokens c = Some (Wait_ack, l2\<lparr>tl_n_sent := 1\<rparr>, ?s4)"
    using s1 s2' s3 by simp
  have "packet_first P B Bd d dst tsp r q s2" using pf1 sm ra by (intro packet_first_same[OF sm]) auto
  then have "packet_first P B Bd d dst tsp r q ?s4"
    by (rule packet_first_same[rotated 2]) (simp_all add: same_mem_def st)
  moreover have "loaded f ?s3" using s2(5) by (simp add: loaded_def)
  ultimately have "on_air P B Bd f d dst tsp r q (Wait_ack, l2\<lparr>tl_n_sent := 1\<rparr>, ?s4)"
    using st l2 s2 by (simp add: on_air_def sems_are_def)
  then show ?thesis using run st s2 c by simp
qed

section \<open>After an attempt\<close>

definition ack_frame :: "u8 \<Rightarrow> bytes" where
  "ack_frame seq = le16_bytes UWB_FCTRL_FRAME_TYPE_ACK @ [seq]"

definition lost_round :: "tp_op list" where
  "lost_round = three_tokens @ [Op_tx_begins, Op_tx_complete, Op_rx_timeout, Op_step Got_token]"

definition acked_round :: "u32 \<Rightarrow> u8 \<Rightarrow> tp_op list" where
  "acked_round t seq = three_tokens @ [Op_tx_begins, Op_tx_complete, Op_received t (ack_frame seq) False, Op_step Got_token]"

text \<open>The packet has left the queue, and the loop goes on with the others.\<close>

definition gone :: "dpl_mbuf_pool \<Rightarrow> addr set \<Rightarrow> tp_build \<Rightarrow> mchain list \<Rightarrow> mchain list tp_loop \<Rightarrow> bool" where
  "gone P B Bd q c \<longleftrightarrow> (case c of (pc, l, s) \<Rightarrow>
     pc = (if q = [] then Wait_end else Wait_write_lock) \<and> tp_ok P B Bd s \<and> tp_tx_q (tn_tp s) = q \<and> sems_are 1 s)"

lemma tp_run_append: "tp_run Bd (xs @ ys) c = Option.bind (tp_run Bd xs c) (tp_run Bd ys)"
proof (induction xs arbitrary: c)
  case (Cons op xs)
  then show ?case by (cases "tp_step Bd op c") simp_all
qed simp

lemma tp_run_then: "tp_run Bd xs c = Some c1 \<Longrightarrow> tp_run Bd (xs @ ys) c = tp_run Bd ys c1"
  by (simp add: tp_run_append)

lemma dequeue_top_unlimited:
  assumes "tl_dx_time_end l = 0" and "tp_has_init (tn_tp s)" and "tp_tx_q (tn_tp s) \<noteq> []"
  shows "\<exists>l'. dequeue_top Bd l s = (Wait_write_lock, l', s) \<and> tl_held l' \<and> tl_dx_time_end l' = 0 \<and> tl_n_sent l' = tl_n_sent l \<and>
    tl_transferred l' = (tl_held l \<and> tl_transferred l)"
  using assms by (cases "tl_held l") (simp_all add: dequeue_top_def Let_def cong: conj_cong)

lemma dequeue_cond_goes_on:
  assumes "tp_ok P B Bd s" and "tp_tx_q (tn_tp s) = q" and "sems_are 1 s" and "tl_dx_time_end l = 0"
  shows "gone P B Bd q (dequeue_cond Bd l s) \<and> snd (snd (dequeue_cond Bd l s)) = s"
proof -
  have "tp_has_init (tn_tp s)" using assms(1) by (simp add: tp_ok_def pools_ok_def)
  then show ?thesis using assms dequeue_top_unlimited[OF assms(4), of s Bd] by (auto simp: dequeue_cond_def gone_def)
qed

lemma sems_fields:
  assumes "sems_are 0 s"
  shows "tp_write_tx_lock (tn_tp s) = 0" "tp_sem (tn_tp s) = 0" "tp_ack_sem (tn_tp s) = 0"
  using assms by (simp_all add: sems_are_def)

text \<open>The state in which the wait for the acknowledgement ends, with \<open>x\<close> as the number received.\<close>

definition answered :: "int \<Rightarrow> client_node \<Rightarrow> client_node" where
  "answered x = on_tp (\<lambda>p. p\<lparr>tp_write_tx_lock := 1, tp_sem := 1, tp_ack_sem := 1, tp_ack_seq_num := x, tp_awaiting_ack_tx := False\<rparr>)"

lemma answered_wait:
  assumes "sems_are 0 s"
  shows "tp_run Bd [Op_tx_begins, Op_tx_complete, Op_rx_timeout] (Wait_ack, l, s) = Some (Wait_ack, l, answered (- 1) s)"
    and "\<exists>s'. tp_run Bd [Op_tx_begins, Op_tx_complete, Op_received t (ack_frame seq) False] (Wait_ack, l, s) = Some (Wait_ack, l, answered (uint seq) s') \<and>
      same_mem s s' \<and> sems_are 0 s' \<and> tp_request_acks (tn_tp s') = tp_request_acks (tn_tp s) \<and> tp_frame_seq_num (tn_tp s') = tp_frame_seq_num (tn_tp s) \<and>
      dev_cmds (tn_dev s') = dev_cmds (tn_dev s) \<and> tn_stat s' Tp_tx_packets = tn_stat s Tp_tx_packets"
proof -
  note z = sems_fields[OF assms]
  show "tp_run Bd [Op_tx_begins, Op_tx_complete, Op_rx_timeout] (Wait_ack, l, s) = Some (Wait_ack, l, answered (- 1) s)"
    using z by (simp add: tp_tx_begins_cb_def tp_tx_complete_cb_def tp_rx_timeout_cb_def answered_def on_tp_def dpl_sem_release_def Let_def)
  let ?s' = "TP_INC Tp_rx_acks (receive_frame (ack_frame seq) False s)"
  have f: "fh_fctrl (ack_frame seq) = UWB_FCTRL_FRAME_TYPE_ACK" "get_u8 (ack_frame seq) 2 = seq"
    by (simp_all add: fh_fctrl_def ack_frame_def le16.get_append get_le16_bytes get_u8_def nth_append length_le16_bytes)
  have "tp_run Bd [Op_tx_begins, Op_tx_complete, Op_received t (ack_frame seq) False] (Wait_ack, l, s) = Some (Wait_ack, l, answered (uint seq) ?s')"
    using z f by (simp add: tp_tx_begins_cb_def tp_tx_complete_cb_def tp_rx_complete_cb_def answered_def on_tp_def on_tdev_def receive_frame_def
        TP_INC_def TP_INCN_def dpl_sem_release_def Let_def)
  then show "\<exists>s'. tp_run Bd [Op_tx_begins, Op_tx_complete, Op_received t (ack_frame seq) False] (Wait_ack, l, s) = Some (Wait_ack, l, answered (uint seq) s') \<and>
      same_mem s s' \<and> sems_are 0 s' \<and> tp_request_acks (tn_tp s') = tp_request_acks (tn_tp s) \<and> tp_frame_seq_num (tn_tp s') = tp_frame_seq_num (tn_tp s) \<and>
      dev_cmds (tn_dev s') = dev_cmds (tn_dev s) \<and> tn_stat s' Tp_tx_packets = tn_stat s Tp_tx_packets"
    using assms by (intro exI[of _ ?s']) (simp add: same_mem_def sems_are_def receive_frame_def TP_INC_def TP_INCN_def)
qed

lemma lost_attempt:
  assumes air: "on_air P B Bd f d dst tsp r q c"
  shows "\<exists>c'. tp_run Bd [Op_tx_begins, Op_tx_complete, Op_rx_timeout, Op_step Got_token] c = Some c' \<and>
    (if r = 0 then gone P B Bd q c' else attempt P B Bd f d dst tsp (r - 1) q c') \<and>
    n_starts (dev_cmds (tn_dev (snd (snd c')))) = n_starts (dev_cmds (tn_dev (snd (snd c)))) \<and>
    tn_stat (snd (snd c')) Tp_tx_packets = tn_stat (snd (snd c)) Tp_tx_packets"
proof -
  obtain l s where c: "c = (Wait_ack, l, s)" and pf: "packet_first P B Bd d dst tsp r q s" and z: "sems_are 0 s"
    and l: "tl_held l" "tl_dx_time_end l = 0" "tl_transferred l" "tl_n_sent l = 1" and sq: "tp_frame_seq_num (tn_tp s) = fh_seq_num f"
    and ld: "loaded f s"
    using air by (auto simp: on_air_def split: prod.splits)
  let ?s = "answered (- 1) s"
  have sm: "same_mem s ?s" by (simp add: same_mem_def answered_def)
  have pf': "packet_first P B Bd d dst tsp r q ?s" using pf by (rule packet_first_same[OF sm, rotated]) (simp add: answered_def)
  obtain om where om: "tp_tx_q (tn_tp ?s) = om # q" "chain_data om = d @ trailer dst tsp r" and ok: "tp_ok P B Bd ?s" and len: "length d \<le> 497"
    using pf' by (auto simp: packet_first_def)
  obtain fl where own: "own P B (tn_heap ?s) fl (concat (tp_packets ?s))" and pk: "packet om"
    using ok om(1) by (auto elim!: tp_okD simp: to_send_def)
  have oks: "\<forall>m \<in> set om. mbuf_ok P m" using own_ok[OF own] om(1) by (auto simp: tp_packets_def)
  have u: "uint r < 1 \<longleftrightarrow> r = 0" using uint_ge_0[of r] uint_0_iff[of r] by linarith
  have na: "dequeue_not_acked Bd l ?s = Some (if r = 0 then dequeue_drop Bd l ?s else set_retries Bd r l ?s)"
    unfolding dequeue_not_acked_def om(1) list.sel Let_def copydata_trailer(3)[OF oks pk om(2)] prod.case get_le16_bytes
    using l(4) u by simp
  have pend: "pend_any (Suc 0) Got_token = Some 0" by (simp add: pend_any_def dpl_sem_pend_def)
  have keep: "on_tp (\<lambda>p. p\<lparr>tp_ack_sem := release_if_taken 0\<rparr>) ?s = ?s"
    by (simp add: answered_def on_tp_def release_if_taken_def dpl_sem_release_def)
  have run: "tp_run Bd [Op_tx_begins, Op_tx_complete, Op_rx_timeout, Op_step Got_token] c =
      map_option (\<lambda>(l, s). dequeue_cond Bd l s) (dequeue_not_acked Bd l ?s)"
  proof -
    have "tp_run Bd [Op_tx_begins, Op_tx_complete, Op_rx_timeout, Op_step Got_token] c = tp_run Bd [Op_step Got_token] (Wait_ack, l, ?s)"
      using tp_run_then[OF answered_wait(1)[OF z, of Bd l], of "[Op_step Got_token]"] c by (simp only: append_Cons append_Nil)
    moreover have "tp_ack_sem (tn_tp ?s) = 1" "tp_ack_seq_num (tn_tp ?s) = -1" by (simp_all add: answered_def)
    moreover have "- 1 \<noteq> uint x" for x :: u8 using uint_ge_0[of x] by linarith
    ultimately show ?thesis by (simp add: dequeue_step_def pend keep[simplified] Let_def na split: prod.split)
  qed
  show ?thesis
  proof (cases "r = 0")
    case True
    obtain l' s' where ds: "dequeue_drop Bd l ?s = (l', s')" by (cases "dequeue_drop Bd l ?s")
    have eff: "tp_ok P B Bd s'" "tp_tx_q (tn_tp s') = q" using dequeue_drop_effect[OF ok om(1), of l] ds by simp_all
    have rest: "sems_are 1 s'" "tl_dx_time_end l' = 0" "tn_dev s' = tn_dev s" "tn_stat s' = tn_stat s"
      using ds l by (auto simp: dequeue_drop_def sems_are_def answered_def Let_def split: prod.splits)
    note g = dequeue_cond_goes_on[OF eff rest(1,2)]
    show ?thesis using run na True ds g rest c by (intro exI[of _ "dequeue_cond Bd l' s'"]) simp
  next
    case False
    obtain om' s' h where sr: "set_retries Bd r l ?s = (l\<lparr>tl_n_sent := 0\<rparr>, s')" and ok': "tp_ok P B Bd s'" and q': "tp_tx_q (tn_tp s') = om' # q"
      and cd: "chain_data om' = d @ trailer dst tsp (r - 1)" and s': "s' = (on_tp (\<lambda>p. p\<lparr>tp_tx_q := om' # q\<rparr>) ?s)\<lparr>tn_heap := h\<rparr>"
      using set_retries_effect[OF ok om(1,2), of r l] l(4) by auto
    have ini: "tp_has_init (tn_tp s')" using ok' by (simp add: tp_ok_def pools_ok_def)
    have ra: "tp_request_acks (tn_tp s')" using pf' s' by (simp add: packet_first_def)
    have pf1: "packet_first P B Bd d dst tsp (r - 1) q s'" using ok' q' cd len ra by (simp add: packet_first_def)
    have fields: "sems_are 1 s'" "tp_frame_seq_num (tn_tp s') = fh_seq_num f" "loaded f s'" "tn_dev s' = tn_dev s" "tn_stat s' = tn_stat s"
      using s' sq ld by (simp_all add: sems_are_def answered_def loaded_def)
    obtain l2 where l2: "dequeue_cond Bd (l\<lparr>tl_n_sent := 0\<rparr>) s' = (Wait_write_lock, l2, s')" "tl_held l2" "tl_transferred l2" "tl_n_sent l2 = 0"
        "tl_dx_time_end l2 = 0"
      using dequeue_top_unlimited[of "l\<lparr>tl_n_sent := 0\<rparr>" s' Bd] ini q' l by (auto simp: dequeue_cond_def)
    have "attempt P B Bd f d dst tsp (r - 1) q (Wait_write_lock, l2, s')"
      using pf1 fields l2 by (simp add: attempt_def)
    then show ?thesis using run na False sr l2 fields c by (intro exI[of _ "(Wait_write_lock, l2, s')"]) simp
  qed
qed

lemma acked_attempt:
  assumes air: "on_air P B Bd f d dst tsp r q c"
  shows "\<exists>c'. tp_run Bd [Op_tx_begins, Op_tx_complete, Op_received t (ack_frame (fh_seq_num f)) False, Op_step Got_token] c = Some c' \<and>
    gone P B Bd q c' \<and> n_starts (dev_cmds (tn_dev (snd (snd c')))) = n_starts (dev_cmds (tn_dev (snd (snd c)))) \<and>
    tn_stat (snd (snd c')) Tp_tx_packets = tn_stat (snd (snd c)) Tp_tx_packets + 1"
proof -
  obtain l s where c: "c = (Wait_ack, l, s)" and pf: "packet_first P B Bd d dst tsp r q s" and z: "sems_are 0 s"
    and l: "tl_dx_time_end l = 0" and sq: "tp_frame_seq_num (tn_tp s) = fh_seq_num f"
    using air by (auto simp: on_air_def split: prod.splits)
  obtain s1 where r1: "tp_run Bd [Op_tx_begins, Op_tx_complete, Op_received t (ack_frame (fh_seq_num f)) False] (Wait_ack, l, s) =
      Some (Wait_ack, l, answered (uint (fh_seq_num f)) s1)" and sm: "same_mem s s1" and ra: "tp_request_acks (tn_tp s1) = tp_request_acks (tn_tp s)"
    and s1: "tp_frame_seq_num (tn_tp s1) = tp_frame_seq_num (tn_tp s)" "dev_cmds (tn_dev s1) = dev_cmds (tn_dev s)"
      "tn_stat s1 Tp_tx_packets = tn_stat s Tp_tx_packets"
    using answered_wait(2)[OF z] by blast
  let ?s = "answered (uint (fh_seq_num f)) s1"
  have sm': "same_mem s ?s" using sm by (simp add: same_mem_def answered_def)
  have "tp_request_acks (tn_tp ?s) = tp_request_acks (tn_tp s)" using ra by (simp add: answered_def)
  then have "packet_first P B Bd d dst tsp r q ?s" by (rule packet_first_same[OF sm' _ pf])
  then obtain om where om: "tp_tx_q (tn_tp ?s) = om # q" and ok: "tp_ok P B Bd ?s" unfolding packet_first_def by blast
  have pend: "pend_any (Suc 0) Got_token = Some 0" by (simp add: pend_any_def dpl_sem_pend_def)
  have keep: "on_tp (\<lambda>p. p\<lparr>tp_ack_sem := release_if_taken 0\<rparr>) ?s = ?s"
    by (simp add: answered_def on_tp_def release_if_taken_def dpl_sem_release_def)
  let ?c' = "dequeue_sent Bd no_signal l ?s"
  have run: "tp_run Bd [Op_tx_begins, Op_tx_complete, Op_received t (ack_frame (fh_seq_num f)) False, Op_step Got_token] c = Some ?c'"
  proof -
    have "tp_run Bd [Op_tx_begins, Op_tx_complete, Op_received t (ack_frame (fh_seq_num f)) False, Op_step Got_token] c =
        tp_run Bd [Op_step Got_token] (Wait_ack, l, ?s)"
      using tp_run_then[OF r1, of "[Op_step Got_token]"] c by (simp only: append_Cons append_Nil)
    moreover have "tp_ack_sem (tn_tp ?s) = 1" "tp_ack_seq_num (tn_tp ?s) = int (unat (tp_frame_seq_num (tn_tp ?s)))"
      using sq s1(1) by (simp_all add: answered_def)
    ultimately show ?thesis by (simp add: dequeue_step_def pend keep[simplified] Let_def)
  qed
  let ?s2 = "TP_INCN Tp_tx_bytes (ucast (DPL_MBUF_PKTLEN (hd (hd (tp_tx_q (tn_tp ?s))))) - 4) (TP_INC Tp_tx_packets ?s)"
  have ok2: "tp_ok P B Bd ?s2" using ok by (rule tp_ok_same[rotated]) (simp add: same_mem_def)
  obtain l' s' where ds: "dequeue_drop Bd l ?s2 = (l', s')" by (cases "dequeue_drop Bd l ?s2")
  have eff: "tp_ok P B Bd s'" "tp_tx_q (tn_tp s') = q" using dequeue_drop_effect[OF ok2, of om q l] om ds by simp_all
  have rest: "sems_are 1 s'" "tl_dx_time_end l' = 0" "tn_dev s' = tn_dev s1" "tn_stat s' Tp_tx_packets = tn_stat s Tp_tx_packets + 1"
    using ds l s1(3) by (auto simp: dequeue_drop_def sems_are_def answered_def Let_def TP_INC_def TP_INCN_def split: prod.splits)
  have "?c' = dequeue_cond Bd l' s'" using ds om by (simp add: dequeue_sent_def Let_def)
  then show ?thesis using run dequeue_cond_goes_on[OF eff rest(1,2)] rest s1(2) c by simp
qed

end
