(* ===== verification/Transport_Claims.thy ===== *)
theory Transport_Claims
  imports Uwb_Transport_Radio Samples
begin

text \<open>
  What the transport promises. The memory: in every run of interrupts, client and sending loop
  each buffer of the pool is free or in exactly one packet. Delivery: what one node sends, another
  receives. Retries: how often a packet goes on the air.
\<close>

unbundle bit_operations_syntax

section \<open>Lemmas\<close>

lemma empty_queue_own:
  assumes "own P B (tn_heap s) fl (concat q @ ms)"
  shows "\<exists>fl'. own P B (tn_heap (empty_queue Bd q s)) fl' ms"
  using assms
proof (induction q arbitrary: s fl)
  case (Cons om q)
  then have "own P B (tn_heap s) fl (om @ concat q @ ms)" by simp
  then obtain h' fl' where "dpl_mbuf_free_chain (te_cb Bd) om (tn_heap s) = (MEM_OK, h')" "own P B h' fl' (concat q @ ms)"
    using own_free_chain by blast
  then show ?case using Cons.IH[of "free_packet Bd om s" fl'] by (simp add: empty_queue_def free_packet_def)
qed (auto simp: empty_queue_def)

lemma empty_queue_fields [simp]: "tn_tp (empty_queue Bd q s) = tn_tp s" "tn_app (empty_queue Bd q s) = tn_app s"
  by (induction q arbitrary: s) (simp_all add: empty_queue_def)

lemma free_returns_all:
  assumes "own P B (tn_heap s) fl (concat (tp_packets s))"
  shows "\<exists>fl'. own P B (tn_heap (uwb_transport_free Bd s)) fl' (concat (tn_app s))"
proof -
  have "own P B (tn_heap s) fl (concat (tp_rx_q (tn_tp s)) @ concat (tp_tx_q (tn_tp s)) @ concat (tn_app s))"
    using assms own_cong[of "concat (tp_packets s)" "concat (tp_rx_q (tn_tp s)) @ concat (tp_tx_q (tn_tp s)) @ concat (tn_app s)"]
    by (simp add: tp_packets_def ac_simps)
  then obtain fl1 where 1: "own P B (tn_heap (empty_queue Bd (tp_rx_q (tn_tp s)) (on_tp (\<lambda>p. p\<lparr>tp_has_init := False\<rparr>) s))) fl1
      (concat (tp_tx_q (tn_tp s)) @ concat (tn_app s))"
    using empty_queue_own[of P B "on_tp (\<lambda>p. p\<lparr>tp_has_init := False\<rparr>) s"] by fastforce
  show ?thesis
    unfolding uwb_transport_free_def Let_def
    using empty_queue_own[of P B "on_tp (\<lambda>p. p\<lparr>tp_rx_q := []\<rparr>)
        (empty_queue Bd (tp_rx_q (tn_tp s)) (on_tp (\<lambda>p. p\<lparr>tp_has_init := False\<rparr>) s))" fl1 "tp_tx_q (tn_tp s)" "concat (tn_app s)" Bd] 1
    by (simp add: on_tp_def)
qed

lemma dequeue_starts:
  assumes "packet_first P B Bd d dst tsp r q s" and "sems_are 1 s"
  shows "\<exists>c. tp_step Bd (Op_dequeue dx 0) (Dequeue_returned b, l, s) = Some c \<and> snd (snd c) = s \<and>
    attempt P B Bd (data_frame (tp_frame_seq_num (tn_tp s) + 1) s dst tsp d) d dst tsp r q c"
proof -
  let ?l = "\<lparr>tl_n_sent = 0, tl_transferred = False, tl_held = False, tl_idx = 0, tl_arg_dx_time = dx, tl_dx_time = dx, tl_dx_time_end = 0,
    tl_preamble = ucast (uwb_usecs_to_dwt_usecs (uwb_phy_SHR_duration (te_uf Bd))), tl_last_duration = 0\<rparr>"
  have ne: "tp_has_init (tn_tp s)" "tp_tx_q (tn_tp s) \<noteq> []" using assms(1) by (auto simp: packet_first_def tp_ok_def pools_ok_def)
  obtain l' where l': "dequeue_top Bd ?l s = (Wait_write_lock, l', s)" "tl_held l'" "tl_dx_time_end l' = 0" "\<not> tl_transferred l'"
    using dequeue_top_unlimited[of ?l s Bd] ne by auto
  have "tp_step Bd (Op_dequeue dx 0) (Dequeue_returned b, l, s) = Some (Wait_write_lock, l', s)"
    using ne l'(1) by (simp add: uwb_transport_dequeue_tx_def Let_def)
  then show ?thesis using assms l' by (intro exI[of _ "(Wait_write_lock, l', s)"]) (simp add: attempt_def)
qed

lemma lost_round_effect:
  assumes "attempt P B Bd f d dst tsp r q c" and "driver_ok (te_uf Bd)" and "128 \<le> length (te_stack Bd)"
  shows "\<exists>c'. tp_run Bd lost_round c = Some c' \<and> (if r = 0 then gone P B Bd q c' else attempt P B Bd f d dst tsp (r - 1) q c') \<and>
    n_starts (dev_cmds (tn_dev (snd (snd c')))) = Suc (n_starts (dev_cmds (tn_dev (snd (snd c))))) \<and>
    tn_stat (snd (snd c')) Tp_tx_packets = tn_stat (snd (snd c)) Tp_tx_packets"
proof -
  obtain c1 where 1: "tp_run Bd three_tokens c = Some c1" "on_air P B Bd f d dst tsp r q c1"
    "n_starts (dev_cmds (tn_dev (snd (snd c1)))) = Suc (n_starts (dev_cmds (tn_dev (snd (snd c)))))"
    "tn_stat (snd (snd c1)) Tp_tx_packets = tn_stat (snd (snd c)) Tp_tx_packets"
    using attempt_sends[OF assms] by blast
  show ?thesis using lost_attempt[OF 1(2)] 1(3,4) by (simp only: lost_round_def tp_run_then[OF 1(1)])
qed

lemma lost_rounds_effect:
  assumes "attempt P B Bd f d dst tsp r q c" and "driver_ok (te_uf Bd)" and "128 \<le> length (te_stack Bd)" and "k \<le> unat r"
  shows "\<exists>c'. tp_run Bd (concat (replicate k lost_round)) c = Some c' \<and> attempt P B Bd f d dst tsp (r - of_nat k) q c' \<and>
    n_starts (dev_cmds (tn_dev (snd (snd c')))) = n_starts (dev_cmds (tn_dev (snd (snd c)))) + k \<and>
    tn_stat (snd (snd c')) Tp_tx_packets = tn_stat (snd (snd c)) Tp_tx_packets"
  using assms
proof (induction k arbitrary: r c)
  case (Suc k)
  have r0: "r \<noteq> 0" using Suc.prems(4) by auto
  then have r: "r \<noteq> 0" "k \<le> unat (r - 1)" using unat_minus_one[OF r0] Suc.prems(4) by simp_all
  obtain c1 where 1: "tp_run Bd lost_round c = Some c1" "attempt P B Bd f d dst tsp (r - 1) q c1"
    "n_starts (dev_cmds (tn_dev (snd (snd c1)))) = Suc (n_starts (dev_cmds (tn_dev (snd (snd c)))))"
    "tn_stat (snd (snd c1)) Tp_tx_packets = tn_stat (snd (snd c)) Tp_tx_packets"
    using lost_round_effect[OF Suc.prems(1-3)] r by auto
  have eq: "r - of_nat (Suc k) = r - 1 - of_nat k" by (simp add: algebra_simps)
  show ?case unfolding eq using Suc.IH[OF 1(2) Suc.prems(2,3) r(2)] 1 by (auto simp: tp_run_then[OF 1(1)])
qed simp

lemma accept_keeps:
  assumes "tp_accept_frame Bd s = Some s'"
  shows "tp_extensions (tn_tp s') = tp_extensions (tn_tp s)" "tp_last_frame (tn_tp s') = tp_last_frame (tn_tp s)"
    "tp_last_frame_time (tn_tp s') = tp_last_frame_time (tn_tp s)" "tn_dev s' = tn_dev s"
  using assms by (auto simp: tp_accept_frame_def new_rx_mbuf_def Let_def split: prod.splits option.splits if_splits)

text \<open>The callback on a data frame for this node, by whether its header was the last one not long ago.\<close>

lemma rx_data_frame:
  assumes "fh_fctrl f = UWB_TRANSPORT_FCTRL \<or> fh_fctrl f = UWB_TRANSPORT_FCTRL OR UWB_FCTRL_ACK_REQUESTED"
    and "in_range UWB_DATA_CODE_TRNSPRT_REQUEST UWB_DATA_CODE_TRNSPRT_END (fh_code f)"
    and "fh_dst_address f = dev_my_short_address (tn_dev s) \<or> fh_dst_address f = 0xffff"
  shows "\<exists>s1. same_mem s s1 \<and> tn_dev s1 = tn_dev (receive_frame f a s) \<and> tn_stat s1 = tn_stat s \<and> tp_extensions (tn_tp s1) = tp_extensions (tn_tp s) \<and>
    tp_rx_complete_cb Bd t (receive_frame f a s) =
      (if t - tp_last_frame_time (tn_tp s) < 10000 \<and> memcmp (tp_last_frame (tn_tp s)) (take 13 f) = 0
       then Some (False, tp_early_ret (TP_INC Tp_rx_dup s1))
       else map_option (\<lambda>s. (True, s)) (tp_accept_frame Bd (TP_INC Tp_rx_packets
         (on_tp (\<lambda>p. p\<lparr>tp_last_frame := take 13 f, tp_last_frame_time := t\<rparr>) s1))))"
proof -
  let ?r = "receive_frame f a s"
  let ?s1 = "if a then on_tp (\<lambda>p. p\<lparr>tp_awaiting_ack_tx := True\<rparr>) ?r else ?r"
  have "same_mem s ?s1" "tn_dev ?s1 = tn_dev ?r" "tn_stat ?s1 = tn_stat s" "tp_extensions (tn_tp ?s1) = tp_extensions (tn_tp s)"
    by (simp_all add: same_mem_def receive_frame_def)
  moreover have "tp_rx_complete_cb Bd t ?r =
      (if t - tp_last_frame_time (tn_tp s) < 10000 \<and> memcmp (tp_last_frame (tn_tp s)) (take 13 f) = 0
       then Some (False, tp_early_ret (TP_INC Tp_rx_dup ?s1))
       else map_option (\<lambda>s. (True, s)) (tp_accept_frame Bd (TP_INC Tp_rx_packets
         (on_tp (\<lambda>p. p\<lparr>tp_last_frame := take 13 f, tp_last_frame_time := t\<rparr>) ?s1))))"
    unfolding tp_rx_complete_cb_def Let_def using assms by (cases a) (auto simp: receive_frame_def)
  ultimately show ?thesis by (intro exI[of _ ?s1]) blast
qed

section \<open>Samples\<close>

text \<open>A pool of three buffers of 40 bytes, of which the first may be in use.\<close>

definition ts_pool :: dpl_mbuf_pool where
  "ts_pool = \<lparr>omp_databuf_len = 40, omp_pool = 0x100\<rparr>"

definition ts_heap :: "addr \<Rightarrow> u16 \<Rightarrow> dpl_heap" where
  "ts_heap b0 n = \<lparr>hp_next = (\<lambda>_. 0)(0x1000 := 0x1048, 0x1048 := 0x1090), hp_data = (\<lambda>_. replicate 40 0),
     hp_pool = (\<lambda>_. \<lparr>mp_block_size = 72, mp_num_blocks = 3, mp_num_free = n, mp_min_free = 0, mp_flags = 0,
       mp_membuf_addr = 0x1000, mp_first = b0, mp_name = ''msys_1'', mpe_put_cb = 0, mpe_put_arg = 0\<rparr>),
     hp_list = [0x100]\<rparr>"

definition ts_blocks :: "addr set" where
  "ts_blocks = {0x1000, 0x1048, 0x1090}"

definition ts_mbuf :: "bytes \<Rightarrow> dpl_mbuf" where
  "ts_mbuf bs = \<lparr>om_addr = 0x1000, om_data = 28, om_flags = 0, om_pkthdr_len = 28, om_len = length bs, om_omp = Some ts_pool,
     om_databuf = [of_nat (length bs), 0] @ replicate 26 0 @ bs @ replicate (12 - length bs) 0\<rparr>"

definition ts_build :: tp_build where
  "ts_build = \<lparr>te_uf = sample_uf, te_cb = sample_cb, te_pools = [ts_pool], te_dev_found = True, te_end_guard = 0, te_subslot_guard = 0,
     te_self = 0, te_stack = replicate 128 0\<rparr>"

definition ts_locals :: tp_locals where
  "ts_locals = \<lparr>tl_n_sent = 0, tl_transferred = False, tl_held = False, tl_idx = 0, tl_arg_dx_time = 0, tl_dx_time = 0, tl_dx_time_end = 0,
     tl_preamble = 0, tl_last_duration = 0\<rparr>"

lemma ts_own:
  assumes "b0 = 0x1000 \<and> n = 3 \<and> fl = [0x1000, 0x1048, 0x1090] \<and> ms = [] \<or>
    b0 = 0x1048 \<and> n = 2 \<and> fl = [0x1048, 0x1090] \<and> (\<exists>bs. ms = [ts_mbuf bs] \<and> length bs \<le> 12)"
  shows "own ts_pool ts_blocks (ts_heap b0 n) fl ms"
proof -
  have tbs: "true_block_size 72 = 72" by (simp add: true_block_size_def)
  have "[0..<3] = [0, 1, 2 :: nat]" by (simp add: upt_rec)
  then have blocks: "pool_blocks (hp_pool (ts_heap b0 n) p) = [0x1000, 0x1048, 0x1090]" for p
    by (simp add: ts_heap_def pool_blocks_alt tbs pool_block_def)
  have "chain (hp_next (ts_heap b0 n)) b0 fl" using assms by (auto simp: ts_heap_def)
  moreover have "hp_pool (ts_heap b0 n) 0x100 = \<lparr>mp_block_size = 72, mp_num_blocks = 3, mp_num_free = n, mp_min_free = 0, mp_flags = 0,
       mp_membuf_addr = 0x1000, mp_first = b0, mp_name = ''msys_1'', mpe_put_cb = 0, mpe_put_arg = 0\<rparr>"
    by (simp add: ts_heap_def)
  moreover have "set fl \<subseteq> set (pool_blocks (hp_pool (ts_heap b0 n) 0x100))" unfolding blocks using assms by auto
  ultimately have "pool_ok 0x100 (ts_heap b0 n) fl" using assms by (auto simp: pool_ok_def pool_geom_def tbs)
  then have "mpool_ok ts_pool (ts_heap b0 n) fl"
    by (simp add: mpool_ok_def ts_pool_def ts_heap_def DPL_MEMPOOL_F_EXT_def)
  moreover have "ts_blocks \<subseteq> pool_set (omp_pool ts_pool) (ts_heap b0 n)"
    by (simp add: pool_set_def blocks ts_blocks_def)
  moreover have "\<forall>m \<in> set ms. mbuf_ok ts_pool m"
    using assms by (auto simp: mbuf_ok_def ts_mbuf_def ts_pool_def hdr_len_def DPL_MBUF_IS_PKTHDR_def sizeof_pkthdr_def)
  moreover have "mset (map om_addr ms) + mset fl = mset_set ts_blocks"
    using assms by (auto simp: ts_blocks_def ts_mbuf_def)
  ultimately show ?thesis by (simp add: own_def ts_blocks_def)
qed

lemma ts_packet:
  assumes "length bs \<le> 12"
  shows "packet [ts_mbuf bs]" "chain_data [ts_mbuf bs] = bs"
proof -
  have "(ucast (of_nat (length bs) :: u8) :: u16) = of_nat (length bs)"
    using assms by (intro word_unat_eq_iff[THEN iffD2]) (simp add: unat_of_nat take_bit_eq_mod unsigned_ucast_eq)
  then have "DPL_MBUF_PKTLEN (ts_mbuf bs) = of_nat (length bs)"
    by (simp add: DPL_MBUF_PKTLEN_def ts_mbuf_def get_le16_def)
  then show "packet [ts_mbuf bs]"
    using assms by (simp add: packet_def hdr_counts_def DPL_MBUF_IS_PKTHDR_def sizeof_pkthdr_def ts_mbuf_def)
  show "chain_data [ts_mbuf bs] = bs" by (simp add: ts_mbuf_def mbuf_data_def mbuf_read_def read_at_def)
qed

definition ts_node :: "u16 \<Rightarrow> dpl_heap \<Rightarrow> mchain list \<Rightarrow> mchain list \<Rightarrow> client_node" where
  "ts_node address h tx app =
     on_tp (\<lambda>p. uwb_transport_append_extension \<lparr>ext_tsp_code = 7, ext_id = 0, ext_has_transmit_cb = False\<rparr> (p\<lparr>tp_tx_q := tx\<rparr>))
       ((tp_start (sample_dev address) h None)\<lparr>tn_app := app\<rparr>)"

lemma ts_node_fields [simp]:
  "tn_dev (ts_node a h tx app) = sample_dev a" "tn_heap (ts_node a h tx app) = h" "tn_app (ts_node a h tx app) = app"
  "tp_tx_q (tn_tp (ts_node a h tx app)) = tx" "tp_rx_q (tn_tp (ts_node a h tx app)) = []" "tp_request_acks (tn_tp (ts_node a h tx app))"
  "tp_extensions (tn_tp (ts_node a h tx app)) = [\<lparr>ext_tsp_code = 7, ext_id = 0, ext_has_transmit_cb = False\<rparr>]"
  "tp_last_frame_time (tn_tp (ts_node a h tx app)) = 0"
  "pools_ok ts_pool ts_build (tn_tp (ts_node a h tx app))" "sems_are 1 (ts_node a h tx app)"
  by (simp_all add: ts_node_def tp_start_def uwb_transport_init_def calloc_transport_def uwb_transport_append_extension_def Let_def pools_ok_def
      ts_build_def ts_pool_def sems_are_def dpl_sem_init_def)

lemma ts_build_ok: "driver_ok (te_uf ts_build)" "128 \<le> length (te_stack ts_build)"
  using sample_driver_ok by (simp_all add: ts_build_def)

lemma ts_sender_ok:
  assumes "length bs \<le> 12"
  shows "tp_ok ts_pool ts_blocks ts_build (ts_node 1 (ts_heap 0x1048 2) [] [[ts_mbuf bs]])"
    and "\<exists>d dst tsp r. bs = d @ trailer dst tsp r \<Longrightarrow> tp_ok ts_pool ts_blocks ts_build (ts_node 1 (ts_heap 0x1048 2) [[ts_mbuf bs]] [])"
  using ts_own[of "0x1048" 2 "[0x1048, 0x1090]" "[ts_mbuf bs]"] ts_packet[OF assms] assms
  by (auto simp: tp_ok_def tp_mem_def to_send_def)

lemma ts_receiver_ok: "tp_ok ts_pool ts_blocks ts_build (ts_node 2 (ts_heap 0x1000 3) [] [])"
  using ts_own[of "0x1000" 3 "[0x1000, 0x1048, 0x1090]" "[]"] by (auto simp: tp_ok_def tp_mem_def)

section \<open>Properties\<close>

text \<open>C7. Memory of the transport. In every run from its initialisation - interrupts, the sending loop
  and a client that makes, fills, frees, sends and takes packets, in any order - each buffer of the
  pool is free or in exactly one packet of the queues or the client, and every packet's header counts
  its data. Shutting the transport down leaves only the client's packets. A step fails only by waiting
  for a token or for its turn, or on a received frame shorter than the header.\<close>

theorem transport_memory_invariant:
  assumes "own P B h fl []" and "28 \<le> omp_databuf_len P" and "case own_pool of None \<Rightarrow> te_pools Bd = [P] | Some P' \<Rightarrow> P' = P"
    and "\<forall>op \<in> set ops. op_ok op" and "tp_run Bd ops (Dequeue_returned False, l, tp_start dev h own_pool) = Some (pc, l', s)"
  shows "(\<exists>fl'. own P B (tn_heap s) fl' (concat (tp_packets s))) \<and> (\<forall>om \<in> set (tp_packets s). packet om) \<and>
    (\<exists>fl'. own P B (tn_heap (uwb_transport_free Bd s)) fl' (concat (tn_app s))) \<and>
    (\<forall>op. op_ok op \<and> tp_step Bd op (pc, l', s) = None \<longrightarrow> tp_blocked op (pc, l', s))"
proof -
  have "loop_ok P B Bd (Dequeue_returned False, l, tp_start dev h own_pool)"
    using tp_start_ok[OF assms(1-3)] by (simp add: loop_ok_def)
  then have ok: "loop_ok P B Bd (pc, l', s)" by (rule tp_run_ok[OF _ assms(4,5)])
  then have "tp_ok P B Bd s" by (simp add: loop_ok_def)
  then obtain fl' where own: "own P B (tn_heap s) fl' (concat (tp_packets s))"
    and "\<forall>om \<in> set (tp_rx_q (tn_tp s) @ tn_app s). packet om" "\<forall>om \<in> set (tp_tx_q (tn_tp s)). to_send om"
    by (rule tp_okD)
  moreover from this have "\<forall>om \<in> set (tp_packets s). packet om" by (auto simp: tp_packets_def to_send_def)
  moreover have "\<forall>op. op_ok op \<and> tp_step Bd op (pc, l', s) = None \<longrightarrow> tp_blocked op (pc, l', s)"
    using tp_step_ok[OF ok] by (metis option.simps(4))
  ultimately show ?thesis using free_returns_all[OF own] by blast
qed

theorem transport_memory_invariant_witness:
  "\<exists>pc l s. tp_run ts_build [Op_new, Op_append 0 [1, 2], Op_send 0 2 7 3, Op_dequeue 0 0, Op_rx_timeout]
      (Dequeue_returned False, ts_locals, tp_start (sample_dev 1) (ts_heap 0x1000 3) None) = Some (pc, l, s) \<and>
    (\<exists>fl. own ts_pool ts_blocks (tn_heap s) fl (concat (tp_packets s)))"
proof -
  let ?ops = "[Op_new, Op_append 0 [1, 2], Op_send 0 2 7 3, Op_dequeue 0 0, Op_rx_timeout]"
  let ?c = "(Dequeue_returned False, ts_locals, tp_start (sample_dev 1) (ts_heap 0x1000 3) None)"
  have own: "own ts_pool ts_blocks (ts_heap 0x1000 3) [0x1000, 0x1048, 0x1090] []" by (rule ts_own) simp
  have hyps: "28 \<le> omp_databuf_len ts_pool" "case None of None \<Rightarrow> te_pools ts_build = [ts_pool] | Some P' \<Rightarrow> P' = ts_pool"
    "\<forall>op \<in> set ?ops. op_ok op"
    by (simp_all add: ts_pool_def ts_build_def)
  obtain pc l s where run: "tp_run ts_build ?ops ?c = Some (pc, l, s)"
    by (cases "uwb_transport_dequeue_tx ts_build 0 0 (client_send ts_build 0 2 7 3 (client_append 0 [1, 2]
      (client_new ts_build (tp_start (sample_dev 1) (ts_heap 0x1000 3) None))))") (auto split: tp_pc.splits)
  from transport_memory_invariant[OF own hyps run] show ?thesis using run by blast
qed

text \<open>C6. Retries. A packet with \<open>r\<close> retries whose frames are not acknowledged goes on the air exactly
  \<open>r + 1\<close> times and is then dropped; if the frame of the attempt after \<open>k\<close> lost ones, \<open>k \<le> r\<close>, is
  acknowledged, it has been sent \<open>k + 1\<close> times and counts as sent. The loop goes on with the other packets.\<close>

theorem transport_retries:
  assumes "packet_first P B Bd d dst tsp r q s" and "sems_are 1 s" and "driver_ok (te_uf Bd)" and "128 \<le> length (te_stack Bd)"
  shows "(\<exists>c. tp_run Bd (Op_dequeue dx 0 # concat (replicate (Suc (unat r)) lost_round)) (Dequeue_returned b, l, s) = Some c \<and> gone P B Bd q c \<and>
      n_starts (dev_cmds (tn_dev (snd (snd c)))) = n_starts (dev_cmds (tn_dev s)) + unat r + 1 \<and>
      tn_stat (snd (snd c)) Tp_tx_packets = tn_stat s Tp_tx_packets) \<and>
    (\<forall>k \<le> unat r. \<exists>c. tp_run Bd (Op_dequeue dx 0 # concat (replicate k lost_round) @ acked_round t (tp_frame_seq_num (tn_tp s) + 1))
        (Dequeue_returned b, l, s) = Some c \<and> gone P B Bd q c \<and>
      n_starts (dev_cmds (tn_dev (snd (snd c)))) = n_starts (dev_cmds (tn_dev s)) + k + 1 \<and>
      tn_stat (snd (snd c)) Tp_tx_packets = tn_stat s Tp_tx_packets + 1)"
proof -
  let ?f = "data_frame (tp_frame_seq_num (tn_tp s) + 1) s dst tsp d"
  have sq: "fh_seq_num ?f = tp_frame_seq_num (tn_tp s) + 1" by (simp add: data_frame_def fh_seq_num_append)
  obtain c0 where c0: "tp_step Bd (Op_dequeue dx 0) (Dequeue_returned b, l, s) = Some c0" "snd (snd c0) = s" "attempt P B Bd ?f d dst tsp r q c0"
    using dequeue_starts[OF assms(1,2)] by blast
  have tail: "tp_run Bd (Op_dequeue dx 0 # xs) (Dequeue_returned b, l, s) = tp_run Bd xs c0" for xs
    using c0(1) by simp
  note rounds = lost_rounds_effect[OF c0(3) assms(3,4)]
  obtain c1 where c1: "tp_run Bd (concat (replicate (unat r) lost_round)) c0 = Some c1" "attempt P B Bd ?f d dst tsp 0 q c1"
    "n_starts (dev_cmds (tn_dev (snd (snd c1)))) = n_starts (dev_cmds (tn_dev s)) + unat r" "tn_stat (snd (snd c1)) Tp_tx_packets = tn_stat s Tp_tx_packets"
    using rounds[OF order_refl] c0(2) by auto
  have rep: "concat (replicate (Suc (unat r)) lost_round) = concat (replicate (unat r) lost_round) @ lost_round"
    unfolding replicate_Suc replicate_append_same[symmetric] by simp
  have "\<exists>c. tp_run Bd (concat (replicate (Suc (unat r)) lost_round)) c0 = Some c \<and> gone P B Bd q c \<and>
      n_starts (dev_cmds (tn_dev (snd (snd c)))) = n_starts (dev_cmds (tn_dev s)) + unat r + 1 \<and>
      tn_stat (snd (snd c)) Tp_tx_packets = tn_stat s Tp_tx_packets"
    using lost_round_effect[OF c1(2) assms(3,4)] c1(3,4) unfolding rep by (auto simp: tp_run_then[OF c1(1)])
  moreover have "\<exists>c. tp_run Bd (concat (replicate k lost_round) @ acked_round t (tp_frame_seq_num (tn_tp s) + 1)) c0 = Some c \<and> gone P B Bd q c \<and>
      n_starts (dev_cmds (tn_dev (snd (snd c)))) = n_starts (dev_cmds (tn_dev s)) + k + 1 \<and>
      tn_stat (snd (snd c)) Tp_tx_packets = tn_stat s Tp_tx_packets + 1" if k: "k \<le> unat r" for k
  proof -
    obtain c2 where c2: "tp_run Bd (concat (replicate k lost_round)) c0 = Some c2" "attempt P B Bd ?f d dst tsp (r - of_nat k) q c2"
      "n_starts (dev_cmds (tn_dev (snd (snd c2)))) = n_starts (dev_cmds (tn_dev s)) + k" "tn_stat (snd (snd c2)) Tp_tx_packets = tn_stat s Tp_tx_packets"
      using rounds[OF k] c0(2) by auto
    obtain c3 where c3: "tp_run Bd three_tokens c2 = Some c3" "on_air P B Bd ?f d dst tsp (r - of_nat k) q c3"
      "n_starts (dev_cmds (tn_dev (snd (snd c3)))) = Suc (n_starts (dev_cmds (tn_dev (snd (snd c2)))))"
      "tn_stat (snd (snd c3)) Tp_tx_packets = tn_stat (snd (snd c2)) Tp_tx_packets"
      using attempt_sends[OF c2(2) assms(3,4)] by blast
    have "tp_run Bd (concat (replicate k lost_round) @ acked_round t (tp_frame_seq_num (tn_tp s) + 1)) c0 =
        tp_run Bd [Op_tx_begins, Op_tx_complete, Op_received t (ack_frame (fh_seq_num ?f)) False, Op_step Got_token] c3"
      unfolding tp_run_then[OF c2(1)] acked_round_def tp_run_then[OF c3(1)] sq by (rule refl)
    then show ?thesis using acked_attempt[OF c3(2), of t] c2(3,4) c3(3,4) by (auto simp del: tp_run.simps)
  qed
  ultimately show ?thesis unfolding tail by blast
qed

theorem transport_retries_witness:
  "\<exists>c. tp_run ts_build (Op_dequeue 0 0 # concat (replicate 3 lost_round))
      (Dequeue_returned False, ts_locals, ts_node 1 (ts_heap 0x1048 2) [[ts_mbuf ([1, 2] @ trailer 2 7 2)]] []) = Some c \<and>
    n_starts (dev_cmds (tn_dev (snd (snd c)))) = 3"
proof -
  let ?s = "ts_node 1 (ts_heap 0x1048 2) [[ts_mbuf ([1, 2] @ trailer 2 7 2)]] []"
  have ok: "tp_ok ts_pool ts_blocks ts_build ?s"
    by (rule ts_sender_ok(2)) (simp, intro exI[of _ "[1, 2]"] exI[of _ 2] exI[of _ 7] exI, rule refl)
  have "packet_first ts_pool ts_blocks ts_build [1, 2] 2 7 2 [] ?s"
    using ok ts_packet(2)[of "[1, 2] @ trailer 2 7 2"] by (simp add: packet_first_def)
  then obtain c where "tp_run ts_build (Op_dequeue 0 0 # concat (replicate (Suc (unat (2 :: u16))) lost_round)) (Dequeue_returned False, ts_locals, ?s) = Some c"
      "n_starts (dev_cmds (tn_dev (snd (snd c)))) = n_starts (dev_cmds (tn_dev ?s)) + unat (2 :: u16) + 1"
    using transport_retries[OF _ ts_node_fields(10) ts_build_ok] by blast
  moreover have "Suc (unat (2 :: u16)) = 3" "n_starts (dev_cmds (tn_dev ?s)) = 0" by (simp_all add: n_starts_def sample_dev_def)
  ultimately show ?thesis by (metis add.commute add_0 plus_1_eq_Suc)
qed

text \<open>C5. Delivery. What the client of one node hands over for an empty queue goes on the air in one
  frame; a node with the address it is for, or any node for a broadcast, that has not just received
  the same frame, has the code's extension and memory for it hands its own client a packet with the same
  bytes, the code and the address of the sender.\<close>

theorem transport_delivers:
  assumes s: "tp_ok P B Bd s" "tn_app s = om # rest" "chain_data om = d" "tp_tx_q (tn_tp s) = []" "sems_are 1 s" "tp_request_acks (tn_tp s)"
      "length d \<le> uwb_transport_mtu Bd (tn_dev s)" "1 \<le> free_count P (tn_heap s)" "driver_ok (te_uf Bd)" "128 \<le> length (te_stack Bd)"
    and s': "tp_ok P' B' Bd' s'" "dst = dev_my_short_address (tn_dev s') \<or> dst = 0xffff" "tp_rx_q (tn_tp s') = []"
      "uwb_transport_get_extension tsp (tn_tp s') \<noteq> None" "\<not> t - tp_last_frame_time (tn_tp s') < 10000"
      "1 \<le> free_count P' (tn_heap s')" "length d \<le> new_packet_room P' (tn_heap s')"
  shows "\<exists>c s'' om'. tp_run Bd (Op_send 0 dst tsp r # Op_dequeue dx 0 # three_tokens) (Dequeue_returned b, l, s) = Some c \<and>
    tp_run Bd' [Op_received t (sent_frame (dev_cmds (tn_dev (snd (snd c))))) True, Op_process] (Dequeue_returned b', l', s') =
      Some (Dequeue_returned b', l', s'') \<and>
    tn_app s'' = tn_app s' @ [om'] \<and> chain_data om' = d \<and> uh_tsp_code (hd om') = tsp \<and> uh_uid (hd om') = dev_my_short_address (tn_dev s)"
proof -
  obtain fl where own: "own P B (tn_heap s) fl (concat (tp_packets s))" and pks: "\<forall>p \<in> set (tp_rx_q (tn_tp s) @ tn_app s). packet p"
    and pools: "pools_ok P Bd (tn_tp s)"
    using s(1) by (rule tp_okD)
  have pk: "packet om" using pks s(2) by simp
  have oks: "\<forall>m \<in> set om. mbuf_ok P m" using own_ok[OF own] s(2) by (auto simp: tp_packets_def)
  have cl: "chain_len om = length d" using length_chain_data[OF oks] s(3) by simp
  have len: "length d \<le> 497"
    using s(7) by (simp add: uwb_transport_mtu_def UWB_TRANSPORT_MTU_STD_def UWB_TRANSPORT_MTU_EXT_def split: if_splits)
  let ?s1 = "s\<lparr>tn_app := rest\<rparr>"
  have own1: "own P B (tn_heap ?s1) fl (om @ concat (tp_packets ?s1))"
    using own own_cong[of "concat (tp_packets s)" "om @ concat (tp_packets ?s1)"] s(2) by (simp add: tp_packets_def ac_simps)
  have fl: "fl \<noteq> []" using s(8) own_free_count[OF own] by auto
  obtain s2 om2 where e: "uwb_transport_enqueue_tx Bd dst tsp r om ?s1 = (MB_OK, s2)" and ok2: "tp_ok P B Bd s2"
    and q2: "tp_tx_q (tn_tp s2) = [om2]" "chain_data om2 = d @ trailer dst tsp r"
    using enqueue_effect[OF own1, of Bd dst tsp r] pks s(2,3,4,7) pools pk cl fl by (auto split: if_splits)
  have keep: "tn_dev s2 = tn_dev s" "sems_are 1 s2" "tp_request_acks (tn_tp s2)"
    using e s(5,6) by (auto simp: uwb_transport_enqueue_tx_def Let_def sems_are_def on_tp_def split: if_splits prod.splits option.splits mbuf_rc.splits)
  have send: "tp_step Bd (Op_send 0 dst tsp r) (Dequeue_returned b, l, s) = Some (Dequeue_returned b, l, s2)"
    using e s(2,7) packet_pktlen[OF pk] cl by (simp add: client_send_def remove_nth_def)
  have pf: "packet_first P B Bd d dst tsp r [] s2" using ok2 q2 len keep by (simp add: packet_first_def)
  let ?f = "data_frame (tp_frame_seq_num (tn_tp s2) + 1) s2 dst tsp d"
  obtain c0 where c0: "tp_step Bd (Op_dequeue dx 0) (Dequeue_returned b, l, s2) = Some c0" "attempt P B Bd ?f d dst tsp r [] c0"
    using dequeue_starts[OF pf keep(2)] by blast
  obtain c where c: "tp_run Bd three_tokens c0 = Some c" "on_air P B Bd ?f d dst tsp r [] c"
    using attempt_sends[OF c0(2) s(9,10)] by blast
  have run: "tp_run Bd (Op_send 0 dst tsp r # Op_dequeue dx 0 # three_tokens) (Dequeue_returned b, l, s) = Some c"
  proof -
    have "tp_run Bd [Op_send 0 dst tsp r, Op_dequeue dx 0] (Dequeue_returned b, l, s) = Some c0"
      by (simp only: tp_run.simps bind.bind_lunit send c0(1))
    from tp_run_then[OF this, of three_tokens] show ?thesis using c(1) by (simp only: append_Cons append_Nil)
  qed
  have f: "sent_frame (dev_cmds (tn_dev (snd (snd c)))) = ?f" using c(2) by (cases c) (simp add: on_air_def)
  have hdr: "fh_fctrl ?f = UWB_TRANSPORT_FCTRL OR UWB_FCTRL_ACK_REQUESTED" "fh_dst_address ?f = dst" "fh_code ?f = UWB_DATA_CODE_TRNSPRT_REQUEST"
    "fh_tsp_code ?f = tsp" "fh_src_address ?f = dev_my_short_address (tn_dev s)" "length ?f = 13 + length d" "drop 13 ?f = d"
    using keep(1) by (simp_all add: data_frame_def)
  let ?r = "receive_frame ?f True s'"
  let ?r2 = "TP_INC Tp_rx_packets (on_tp (\<lambda>p. p\<lparr>tp_last_frame := take sizeof_frame_header ?f, tp_last_frame_time := t\<rparr>)
      (on_tp (\<lambda>p. p\<lparr>tp_awaiting_ack_tx := True\<rparr>) ?r))"
  have same: "same_mem s' ?r2" by (simp add: same_mem_def receive_frame_def)
  have dev2: "dev_rxbuf (tn_dev ?r2) = ?f" "dev_frame_len (tn_dev ?r2) = of_nat (length ?f)" by (simp_all add: receive_frame_def)
  obtain s3 om' where a: "tp_accept_frame Bd' ?r2 = Some s3" and ok3: "tp_ok P' B' Bd' s3" and app3: "tn_app s3 = tn_app s'"
    and q3: "tp_rx_q (tn_tp s3) = [om']" "chain_data om' = d" "uh_tsp_code (hd om') = tsp" "uh_uid (hd om') = dev_my_short_address (tn_dev s)"
    using accept_frame_effect[OF tp_ok_same[OF same s'(1)] dev2] hdr len s'(3,6,7) same by (auto simp: same_mem_def)
  have ext3: "tp_extensions (tn_tp s3) = tp_extensions (tn_tp s')" using accept_keeps(1)[OF a] by (simp add: receive_frame_def)
  have rx: "tp_rx_complete_cb Bd' t ?r = Some (True, s3)"
    using a hdr s'(2,5) unfolding tp_rx_complete_cb_def Let_def
    by (auto simp: receive_frame_def in_range_def UWB_DATA_CODE_TRNSPRT_REQUEST_def UWB_DATA_CODE_TRNSPRT_END_def)
  have "uwb_transport_get_extension x (tn_tp s3) = uwb_transport_get_extension x (tn_tp s')" for x
    using ext3 by (simp add: uwb_transport_get_extension_def)
  then obtain s4 where "uwb_transport_process_rx_queue Bd' take_packet s3 = Some s4" "tn_app s4 = tn_app s' @ [om']"
    using process_rx_ok[OF ok3] q3 app3 s'(4) by auto
  then have "tp_run Bd' [Op_received t ?f True, Op_process] (Dequeue_returned b', l', s') = Some (Dequeue_returned b', l', s4)"
    and "tn_app s4 = tn_app s' @ [om']" using rx by simp_all
  then show ?thesis using run f q3 by auto
qed

theorem transport_delivers_witness:
  "\<exists>c s om. tp_run ts_build (Op_send 0 2 7 3 # Op_dequeue 0 0 # three_tokens)
      (Dequeue_returned False, ts_locals, ts_node 1 (ts_heap 0x1048 2) [] [[ts_mbuf [1, 2, 3]]]) = Some c \<and>
    tp_run ts_build [Op_received 20000 (sent_frame (dev_cmds (tn_dev (snd (snd c))))) True, Op_process]
      (Dequeue_returned False, ts_locals, ts_node 2 (ts_heap 0x1000 3) [] []) = Some (Dequeue_returned False, ts_locals, s) \<and>
    tn_app s = [om] \<and> chain_data om = [1, 2, 3]"
proof -
  have ok: "tp_ok ts_pool ts_blocks ts_build (ts_node 1 (ts_heap 0x1048 2) [] [[ts_mbuf [1, 2, 3]]])" by (rule ts_sender_ok(1)) simp
  have d: "chain_data [ts_mbuf [1, 2, 3]] = [1, 2, 3]" by (rule ts_packet(2)) simp
  have fc: "free_count ts_pool (ts_heap f n) = unat n" for f n by (simp add: free_count_def ts_heap_def)
  have mtu: "length [1, 2, 3 :: u8] \<le> uwb_transport_mtu ts_build (tn_dev (ts_node 1 (ts_heap 0x1048 2) [] [[ts_mbuf [1, 2, 3]]]))"
    by (simp add: uwb_transport_mtu_def ts_build_def sample_dev_def sample_config_def UWB_TRANSPORT_MTU_STD_def)
  have room: "length [1, 2, 3 :: u8] \<le> new_packet_room ts_pool (tn_heap (ts_node 2 (ts_heap 0x1000 3) [] []))"
    by (simp add: new_packet_room_def ts_pool_def)
  have ext: "uwb_transport_get_extension 7 (tn_tp (ts_node 2 (ts_heap 0x1000 3) [] [])) \<noteq> None"
    by (simp add: uwb_transport_get_extension_def)
  have dst: "2 = dev_my_short_address (tn_dev (ts_node 2 (ts_heap 0x1000 3) [] [])) \<or> 2 = (0xffff :: u16)" by (simp add: sample_dev_def)
  have time: "\<not> 20000 - tp_last_frame_time (tn_tp (ts_node 2 (ts_heap 0x1000 3) [] [])) < 10000" by simp
  have free: "1 \<le> free_count ts_pool (tn_heap (ts_node 1 (ts_heap 0x1048 2) [] [[ts_mbuf [1, 2, 3]]]))"
    "1 \<le> free_count ts_pool (tn_heap (ts_node 2 (ts_heap 0x1000 3) [] []))" by (simp_all add: fc)
  show ?thesis
    using transport_delivers[OF ok ts_node_fields(3) d ts_node_fields(4,10,6) mtu free(1) ts_build_ok ts_receiver_ok dst ts_node_fields(5) ext
        time free(2) room, of 3 0 False ts_locals False ts_locals]
    by (simp only: ts_node_fields append_Nil) blast
qed

text \<open>C33. Duplicates. After a data frame was taken at time \<open>t\<close>, the same frame again is refused, and counted,
  within the next 10 ms, whatever was received is left as it is; later it is delivered a second time, if there
  is memory for it.\<close>

theorem transport_duplicates:
  assumes ok: "tp_ok P B Bd s" and len: "13 \<le> length f" "length f < 65536"
    and data: "fh_fctrl f = UWB_TRANSPORT_FCTRL \<or> fh_fctrl f = UWB_TRANSPORT_FCTRL OR UWB_FCTRL_ACK_REQUESTED"
    and taken: "tp_rx_complete_cb Bd t (receive_frame f a s) = Some (True, s1)"
  shows "if t' - t < 10000
    then \<exists>s2. tp_rx_complete_cb Bd t' (receive_frame f a' s1) = Some (False, s2) \<and> same_mem s1 s2 \<and>
      tn_stat s2 = (tn_stat s1)(Tp_rx_dup := tn_stat s1 Tp_rx_dup + 1)
    else \<exists>s2. tp_rx_complete_cb Bd t' (receive_frame f a' s1) = Some (True, s2) \<and>
      (1 \<le> free_count P (tn_heap s1) \<and> length f - 13 \<le> new_packet_room P (tn_heap s1) \<longrightarrow>
        (\<exists>om. tp_rx_q (tn_tp s2) = tp_rx_q (tn_tp s1) @ [om] \<and> chain_data om = drop 13 f))"
proof -
  have code: "in_range UWB_DATA_CODE_TRNSPRT_REQUEST UWB_DATA_CODE_TRNSPRT_END (fh_code f)"
    and dst: "fh_dst_address f = dev_my_short_address (tn_dev s) \<or> fh_dst_address f = 0xffff"
    using taken data unfolding tp_rx_complete_cb_def Let_def by (auto simp: receive_frame_def split: if_splits)
  obtain r where r: "tn_dev r = tn_dev (receive_frame f a s)" "tp_rx_complete_cb Bd t (receive_frame f a s) =
      (if t - tp_last_frame_time (tn_tp s) < 10000 \<and> memcmp (tp_last_frame (tn_tp s)) (take 13 f) = 0
       then Some (False, tp_early_ret (TP_INC Tp_rx_dup r))
       else map_option (\<lambda>s. (True, s)) (tp_accept_frame Bd (TP_INC Tp_rx_packets
         (on_tp (\<lambda>p. p\<lparr>tp_last_frame := take 13 f, tp_last_frame_time := t\<rparr>) r))))"
    using rx_data_frame[OF data code dst] by blast
  then have "tp_accept_frame Bd (TP_INC Tp_rx_packets (on_tp (\<lambda>p. p\<lparr>tp_last_frame := take 13 f, tp_last_frame_time := t\<rparr>) r)) = Some s1"
    using taken
    by (cases "tp_accept_frame Bd (TP_INC Tp_rx_packets (on_tp (\<lambda>p. p\<lparr>tp_last_frame := take 13 f, tp_last_frame_time := t\<rparr>) r))")
      (auto split: if_splits)
  note k = accept_keeps[OF this]
  have last: "tp_last_frame (tn_tp s1) = take 13 f" "tp_last_frame_time (tn_tp s1) = t" using k by simp_all
  have dst1: "fh_dst_address f = dev_my_short_address (tn_dev s1) \<or> fh_dst_address f = 0xffff"
    using dst k(4) r(1) by (simp add: receive_frame_def)
  have ok1: "tp_ok P B Bd s1" using rx_complete_ok[OF ok len(2) taken] by blast
  obtain r' where r': "same_mem s1 r'" "tn_dev r' = tn_dev (receive_frame f a' s1)" "tn_stat r' = tn_stat s1" and res:
      "tp_rx_complete_cb Bd t' (receive_frame f a' s1) =
      (if t' - t < 10000 \<and> memcmp (take 13 f) (take 13 f) = 0
       then Some (False, tp_early_ret (TP_INC Tp_rx_dup r'))
       else map_option (\<lambda>s. (True, s)) (tp_accept_frame Bd (TP_INC Tp_rx_packets
         (on_tp (\<lambda>p. p\<lparr>tp_last_frame := take 13 f, tp_last_frame_time := t'\<rparr>) r'))))"
    using rx_data_frame[OF data code dst1, of a' Bd t'] unfolding last by blast
  have eq: "memcmp (take 13 f) (take 13 f) = 0" by (simp add: memcmp_eq_0)
  show ?thesis
  proof (cases "t' - t < 10000")
    case True
    have "same_mem s1 (tp_early_ret (TP_INC Tp_rx_dup r'))" using r'(1) by (simp add: same_mem_def tp_early_ret_def)
    moreover have "tn_stat (tp_early_ret (TP_INC Tp_rx_dup r')) = (tn_stat s1)(Tp_rx_dup := tn_stat s1 Tp_rx_dup + 1)"
      using r'(3) by (simp add: tp_early_ret_def TP_INC_def TP_INCN_def)
    ultimately show ?thesis using True res eq by simp
  next
    case False
    let ?r = "TP_INC Tp_rx_packets (on_tp (\<lambda>p. p\<lparr>tp_last_frame := take 13 f, tp_last_frame_time := t'\<rparr>) r')"
    have sm: "same_mem s1 ?r" using r'(1) by (simp add: same_mem_def)
    have dev: "dev_rxbuf (tn_dev ?r) = f" "dev_frame_len (tn_dev ?r) = of_nat (length f)" using r'(2) by (simp_all add: receive_frame_def)
    have mem: "tn_heap ?r = tn_heap s1" "tp_rx_q (tn_tp ?r) = tp_rx_q (tn_tp s1)" using sm by (simp_all add: same_mem_def)
    obtain s2 where "tp_accept_frame Bd ?r = Some s2" "1 \<le> free_count P (tn_heap s1) \<and> length f - 13 \<le> new_packet_room P (tn_heap s1) \<longrightarrow>
        (\<exists>om. tp_rx_q (tn_tp s2) = tp_rx_q (tn_tp s1) @ [om] \<and> chain_data om = drop 13 f)"
      using accept_frame_effect[OF tp_ok_same[OF sm ok1] dev len] unfolding mem by blast
    then show ?thesis using False res by auto
  qed
qed

theorem transport_duplicates_witness:
  "\<exists>s1 s2. tp_rx_complete_cb ts_build 20000 (receive_frame (frame_header UWB_TRANSPORT_FCTRL 1 0xDECA 2 1 UWB_DATA_CODE_TRNSPRT_REQUEST 7 @ [5])
      True (ts_node 2 (ts_heap 0x1000 3) [] [])) = Some (True, s1) \<and>
    tp_rx_complete_cb ts_build 20500 (receive_frame (frame_header UWB_TRANSPORT_FCTRL 1 0xDECA 2 1 UWB_DATA_CODE_TRNSPRT_REQUEST 7 @ [5]) True s1)
      = Some (False, s2)"
proof -
  let ?f = "frame_header UWB_TRANSPORT_FCTRL 1 0xDECA 2 1 UWB_DATA_CODE_TRNSPRT_REQUEST 7 @ [5]" and ?s = "ts_node 2 (ts_heap 0x1000 3) [] []"
  have f: "13 \<le> length ?f" "length ?f < 65536" "fh_fctrl ?f = UWB_TRANSPORT_FCTRL \<or> fh_fctrl ?f = UWB_TRANSPORT_FCTRL OR UWB_FCTRL_ACK_REQUESTED"
    "in_range UWB_DATA_CODE_TRNSPRT_REQUEST UWB_DATA_CODE_TRNSPRT_END (fh_code ?f)"
    "fh_dst_address ?f = dev_my_short_address (tn_dev ?s) \<or> fh_dst_address ?f = 0xffff"
    by (simp_all add: in_range_def UWB_DATA_CODE_TRNSPRT_REQUEST_def UWB_DATA_CODE_TRNSPRT_END_def sample_dev_def)
  have time: "\<not> 20000 - tp_last_frame_time (tn_tp ?s) < 10000" by simp
  obtain s1 where s1: "tp_rx_complete_cb ts_build 20000 (receive_frame ?f True ?s) = Some (True, s1)"
    using rx_data_frame[OF f(3,4,5), of True ts_build 20000] rx_complete_returns[OF ts_receiver_ok f(1,2), of 20000 True] time by fastforce
  from transport_duplicates[OF ts_receiver_ok f(1,2,3) s1, of 20500 True] show ?thesis
    using s1 by (auto split: if_splits)
qed

end
