(* ===== verification/Dpl_Cputime.thy ===== *)
theory Dpl_Cputime
  imports Hal_Timer
begin

text \<open>
  The CPU time, porting/dpl_lib/src/dpl_cputime.c: wrappers that name the hardware timer
  the system was configured with (\<open>num\<close>, the value of OS_CPUTIME_TIMER_NUM). The
  conversion of microseconds to ticks is that of the configured frequency and an argument.
\<close>

section \<open>The code\<close>

definition dpl_cputime_init :: "nat \<Rightarrow> u32 \<Rightarrow> u32 \<Rightarrow> 'a hal_state_scheme \<Rightarrow> (u32 \<times> int) \<times> 'a hal_state_scheme" where
  "dpl_cputime_init num clock_freq ostime s =
     (let (rc, s) = hal_timer_config num clock_freq ostime s in ((cputime_ticks_per_usec clock_freq, rc), s))"

definition dpl_cputime_get32 :: "nat \<Rightarrow> u32 \<Rightarrow> 'a hal_state_scheme \<Rightarrow> u32 \<times> 'a hal_state_scheme" where
  "dpl_cputime_get32 num ostime s = hal_timer_read num ostime s"

text \<open>The busy wait, over the readings of the clock; None when those given do not end it.\<close>

fun cputime_wait :: "nat \<Rightarrow> u32 \<Rightarrow> u32 list \<Rightarrow> 'a hal_state_scheme \<Rightarrow> 'a hal_state_scheme option" where
  "cputime_wait num until [] s = None"
| "cputime_wait num until (ostime # ostimes) s =
     (let (now, s) = dpl_cputime_get32 num ostime s
      in if sint (now - until) < 0 then cputime_wait num until ostimes s else Some s)"

definition dpl_cputime_delay_ticks :: "nat \<Rightarrow> u32 \<Rightarrow> u32 \<Rightarrow> u32 list \<Rightarrow> 'a hal_state_scheme \<Rightarrow> 'a hal_state_scheme option" where
  "dpl_cputime_delay_ticks num ticks ostime ostimes s =
     (let (now, s) = dpl_cputime_get32 num ostime s in cputime_wait num (now + ticks) ostimes s)"

definition dpl_cputime_delay_usecs ::
    "(u32 \<Rightarrow> u32) \<Rightarrow> nat \<Rightarrow> u32 \<Rightarrow> u32 \<Rightarrow> u32 list \<Rightarrow> 'a hal_state_scheme \<Rightarrow> 'a hal_state_scheme option" where
  "dpl_cputime_delay_usecs to_ticks num usecs ostime ostimes s =
     dpl_cputime_delay_ticks num (to_ticks usecs) ostime ostimes s"

definition dpl_cputime_timer_init :: "nat \<Rightarrow> timer_id \<Rightarrow> 'a hal_state_scheme \<Rightarrow> 'a hal_state_scheme" where
  "dpl_cputime_timer_init num t s = snd (hal_timer_set_cb num t s)"

definition dpl_cputime_timer_start :: "timer_id \<Rightarrow> u32 \<Rightarrow> u32 \<Rightarrow> 'a hal_state_scheme \<Rightarrow> 'a hal_state_scheme option" where
  "dpl_cputime_timer_start t cputime ostime s = hal_timer_start_at t cputime ostime s"

definition dpl_cputime_timer_relative ::
    "(u32 \<Rightarrow> u32) \<Rightarrow> nat \<Rightarrow> timer_id \<Rightarrow> u32 \<Rightarrow> u32 \<Rightarrow> u32 \<Rightarrow> 'a hal_state_scheme \<Rightarrow> 'a hal_state_scheme option" where
  "dpl_cputime_timer_relative to_ticks num t usecs ostime1 ostime2 s =
     (let (now, s) = dpl_cputime_get32 num ostime1 s in hal_timer_start_at t (now + to_ticks usecs) ostime2 s)"

definition dpl_cputime_timer_stop :: "timer_id \<Rightarrow> u32 \<Rightarrow> 'a hal_state_scheme \<Rightarrow> 'a hal_state_scheme" where
  "dpl_cputime_timer_stop t ostime s = hal_timer_stop t ostime s"

section \<open>Lemmas\<close>

text \<open>
  The wait, on a counter that has run at k ticks per microsecond since \<open>start\<close>, ends at the
  first reading that is at or past the end, and keeps the counter running.
\<close>

lemma cputime_wait_ends:
  assumes "counts_from start s"
  shows "cputime_wait 0 until ostimes s \<noteq> None \<longleftrightarrow>
    (\<exists>o1 \<in> set ostimes. 0 \<le> sint (ticks_per_ostick (hal_nt s) * (o1 - start) - until))"
  using assms
proof (induction ostimes arbitrary: s)
  case (Cons o1 os)
  define u where "u = snd (hal_timer_read 0 o1 s)"
  have r: "hal_timer_read 0 o1 s = (ticks_per_ostick (hal_nt s) * (o1 - start), u)" and c: "counts_from start u"
    using read_counts[OF Cons.prems, of o1] by (simp_all add: u_def)
  have "ticks_per_ostick (hal_nt u) = ticks_per_ostick (hal_nt s)" by (simp add: u_def frame)
  then show ?case using Cons.IH[OF c] r by (auto simp: dpl_cputime_get32_def not_less)
qed simp

end
