(* ===== verification/Uwb_Ccp.thy ===== *)
theory Uwb_Ccp
  imports Uwb_Dev Dpl_Cputime
begin

text \<open>
  Clock calibration packets, lib/uwb\_ccp/src/uwb\_ccp.c: the master of a network sends a blink
  every period; the others take its time of transmission, in the master's time, with their own
  time of reception, and their operating-system time of both, as the epochs from which all slots
  are counted. A relay sends the blink on.

  The handlers that wait for the semaphore are split at their waits. A handler that reads the
  clocks in an interrupt gets the readings as arguments (\<open>ccp_clock\<close>). The CPU time runs at 1 MHz;
  the timer of the service has the identity 0. The superframe callbacks of the other services see
  the instance and act on their own state, which is a parameter. Wireless clock
  synchronisation is a parameter. The verbose output is off.
\<close>

unbundle bit_operations_syntax

section \<open>Frames\<close>

text \<open>
  The packed structure; the union with the interval of 40 bits takes eight bytes, of which
  an assignment leaves the upper three as they are.
\<close>

definition sizeof_ccp_blink :: nat where "sizeof_ccp_blink = 32"
definition sizeof_ccp_frame :: nat where "sizeof_ccp_frame = 48"

abbreviation (input) "FCNTL_IEEE_BLINK_CCP_64 \<equiv> 0xC5 :: u8"

definition cf_seq_num :: "bytes \<Rightarrow> u8" where "cf_seq_num m = get_u8 m 1"
definition cf_euid :: "bytes \<Rightarrow> u64" where "cf_euid m = get_le64 m 2"
definition cf_short_address :: "bytes \<Rightarrow> u16" where "cf_short_address m = get_le16 m 10"
definition cf_transmission_interval :: "bytes \<Rightarrow> u64" where
  "cf_transmission_interval m = get_le64 m 12 AND UWB_DTU_40BMASK"
definition cf_transmission_timestamp :: "bytes \<Rightarrow> u64" where "cf_transmission_timestamp m = get_le64 m 20"
definition cf_rpt_count :: "bytes \<Rightarrow> u8" where "cf_rpt_count m = get_u8 m 28"
definition cf_rpt_max :: "bytes \<Rightarrow> u8" where "cf_rpt_max m = get_u8 m 29"
definition cf_epoch_to_rm_us :: "bytes \<Rightarrow> u16" where "cf_epoch_to_rm_us m = get_le16 m 30"
definition cf_reception_timestamp :: "bytes \<Rightarrow> u64" where "cf_reception_timestamp m = get_le64 m 32"
definition cf_carrier_integrator :: "bytes \<Rightarrow> u32" where "cf_carrier_integrator m = get_le32 m 40"
definition cf_rxttcko :: "bytes \<Rightarrow> u32" where "cf_rxttcko m = get_le32 m 44"

definition set_cf_fctrl :: "u8 \<Rightarrow> bytes \<Rightarrow> bytes" where "set_cf_fctrl v m = put_u8 m 0 v"
definition set_cf_seq_num :: "u8 \<Rightarrow> bytes \<Rightarrow> bytes" where "set_cf_seq_num v m = put_u8 m 1 v"
definition set_cf_euid :: "u64 \<Rightarrow> bytes \<Rightarrow> bytes" where "set_cf_euid v m = put_le64 m 2 v"
definition set_cf_short_address :: "u16 \<Rightarrow> bytes \<Rightarrow> bytes" where "set_cf_short_address v m = put_le16 m 10 v"
definition set_cf_transmission_interval :: "u64 \<Rightarrow> bytes \<Rightarrow> bytes" where
  "set_cf_transmission_interval v m = put_le64 m 12 ((get_le64 m 12 AND NOT UWB_DTU_40BMASK) OR (v AND UWB_DTU_40BMASK))"
definition set_cf_transmission_timestamp :: "u64 \<Rightarrow> bytes \<Rightarrow> bytes" where "set_cf_transmission_timestamp v m = put_le64 m 20 v"
definition set_cf_rpt_count :: "u8 \<Rightarrow> bytes \<Rightarrow> bytes" where "set_cf_rpt_count v m = put_u8 m 28 v"
definition set_cf_rpt_max :: "u8 \<Rightarrow> bytes \<Rightarrow> bytes" where "set_cf_rpt_max v m = put_u8 m 29 v"
definition set_cf_epoch_to_rm_us :: "u16 \<Rightarrow> bytes \<Rightarrow> bytes" where "set_cf_epoch_to_rm_us v m = put_le16 m 30 v"
definition set_cf_reception_timestamp :: "u64 \<Rightarrow> bytes \<Rightarrow> bytes" where "set_cf_reception_timestamp v m = put_le64 m 32 v"
definition set_cf_carrier_integrator :: "u32 \<Rightarrow> bytes \<Rightarrow> bytes" where "set_cf_carrier_integrator v m = put_le32 m 40 v"
definition set_cf_rxttcko :: "u32 \<Rightarrow> bytes \<Rightarrow> bytes" where "set_cf_rxttcko v m = put_le32 m 44 v"

text \<open>The fields \<open>lo\<close>, 40 bits, and \<open>hi\<close>, 23 bits, of a time stamp.\<close>

definition ts_lo :: "u64 \<Rightarrow> u64" where "ts_lo t = t AND UWB_DTU_40BMASK"
definition set_ts_lo :: "u64 \<Rightarrow> u64 \<Rightarrow> u64" where "set_ts_lo v t = (t AND NOT UWB_DTU_40BMASK) OR (v AND UWB_DTU_40BMASK)"
definition clear_ts_hi :: "u64 \<Rightarrow> u64" where "clear_ts_hi t = t AND 0x800000FFFFFFFFFF"

section \<open>State\<close>

datatype ccp_stat =
    Master_cnt | Slave_cnt | Ccp_send | Ccp_listen | Ccp_tx_complete | Ccp_rx_complete | Rx_relayed | Ccp_rx_start_error
  | Ccp_rx_unsolicited | Rx_other_frame | Txrx_error | Err_tolerated | Ccp_tx_start_error | Tx_relay_error | Tx_relay_ok
  | Irq_latency | Os_lat_behind | Os_lat_margin | Ccp_rx_timeout | Sem_timeout | Ccp_reset

datatype uwb_ccp_role_t = CCP_ROLE_MASTER | CCP_ROLE_SLAVE | CCP_ROLE_RELAY

record uwb_ccp_status =
  cs_initialized :: bool
  cs_valid :: bool
  cs_valid_count :: "3 word"
  cs_start_tx_error :: bool
  cs_start_rx_error :: bool
  cs_rx_error :: bool
  cs_rx_timeout_error :: bool
  cs_timer_enabled :: bool
  cs_timer_restarted :: bool
  cs_enabled :: bool

text \<open>\<open>cc_timer_event\<close>: the handler the timer event was initialised with, the master's or the slave's.\<close>

record uwb_ccp_instance =
  cc_master_euid :: u64
  cc_sem :: dpl_sem
  cc_status :: uwb_ccp_status
  cc_postprocess :: bool
  cc_role :: uwb_ccp_role_t
  cc_tx_holdoff_dly :: u16
  cc_master_epoch :: u64
  cc_local_epoch :: u64
  cc_os_epoch :: u32
  cc_tof_comp_cb :: "(u16 \<Rightarrow> u32) option"
  cc_period :: u32
  cc_nframes :: u16
  cc_idx :: u16
  cc_seq_num :: u8
  cc_missed_frames :: u8
  cc_timer_event :: "uwb_ccp_role_t option"
  cc_blink_frame_duration :: u16
  cc_frames :: "bytes list"

record 'x ccp_node = hal_state +
  cn_dev :: uwb_dev
  cn_ccp :: uwb_ccp_instance
  cn_stat :: "ccp_stat \<Rightarrow> u32"
  cn_interfaces :: "(u16 \<times> bool) list"
  cn_posted :: bool
  cn_postprocess_posted :: bool
  cn_freed :: bool
  cn_services :: 'x

text \<open>
  The clock synchronisation: \<open>skew_comp\<close> is the multiplication with one less the skew,
  \<open>skewed_period\<close> that with the normalised skew.
\<close>

record uwb_wcs =
  skew_comp :: "u64 \<Rightarrow> u64"
  skewed_period :: "u64 \<Rightarrow> u64"

record 'x ccp_build =
  cb_uf :: uwb_driver_funcs
  cb_period :: u32
  cb_rpts :: u8
  cb_rpt_holdoff :: u16
  cb_valid_threshold :: int
  cb_tolerate :: u8
  cb_long_rx_to :: u32
  cb_os_latency :: u32
  cb_xtalt_guard :: u16
  cb_test_cascade :: u8
  cb_wcs_enabled :: bool
  cb_wcs :: "uwb_wcs option"
  cb_superframe :: "u16 \<Rightarrow> uwb_ccp_instance \<Rightarrow> 'x \<Rightarrow> 'x"

definition on_cdev :: "(uwb_dev \<Rightarrow> uwb_dev) \<Rightarrow> 'x ccp_node \<Rightarrow> 'x ccp_node" where
  "on_cdev f s = s\<lparr>cn_dev := f (cn_dev s)\<rparr>"

definition on_ccp :: "(uwb_ccp_instance \<Rightarrow> uwb_ccp_instance) \<Rightarrow> 'x ccp_node \<Rightarrow> 'x ccp_node" where
  "on_ccp f s = s\<lparr>cn_ccp := f (cn_ccp s)\<rparr>"

definition on_cst :: "(uwb_ccp_status \<Rightarrow> uwb_ccp_status) \<Rightarrow> 'x ccp_node \<Rightarrow> 'x ccp_node" where
  "on_cst f = on_ccp (\<lambda>c. c\<lparr>cc_status := f (cc_status c)\<rparr>)"

definition CCP_STATS_INC :: "ccp_stat \<Rightarrow> 'x ccp_node \<Rightarrow> 'x ccp_node" where
  "CCP_STATS_INC x s = s\<lparr>cn_stat := (cn_stat s)(x := cn_stat s x + 1)\<rparr>"

definition CCP_STATS_SET :: "ccp_stat \<Rightarrow> u32 \<Rightarrow> 'x ccp_node \<Rightarrow> 'x ccp_node" where
  "CCP_STATS_SET x n s = s\<lparr>cn_stat := (cn_stat s)(x := n)\<rparr>"

text \<open>The macro on signed 64 bits, whose division truncates, and the 32 bits the callers use of it.\<close>

definition dwt_to_usecs :: "int \<Rightarrow> u32" where
  "dwt_to_usecs t = of_int (if t < 0 then - uwb_dwt_usecs_to_usecs (- t) else uwb_dwt_usecs_to_usecs t)"

text \<open>Frames of the ring, addressed as the code does: \<open>idx + 1\<close> is not reduced to 16 bits.\<close>

definition ccp_slot :: "nat \<Rightarrow> uwb_ccp_instance \<Rightarrow> nat" where
  "ccp_slot k c = (unat (cc_idx c) + k) mod unat (cc_nframes c)"

definition ccp_frame :: "nat \<Rightarrow> 'x ccp_node \<Rightarrow> bytes" where
  "ccp_frame i s = cc_frames (cn_ccp s) ! i"

definition on_ccp_frame :: "nat \<Rightarrow> (bytes \<Rightarrow> bytes) \<Rightarrow> 'x ccp_node \<Rightarrow> 'x ccp_node" where
  "on_ccp_frame i f = on_ccp (\<lambda>c. c\<lparr>cc_frames := (cc_frames c)[i := f (cc_frames c ! i)]\<rparr>)"

definition ccp_release :: "'x ccp_node \<Rightarrow> 'x ccp_node" where
  "ccp_release = on_ccp (\<lambda>c. c\<lparr>cc_sem := dpl_sem_release (cc_sem c)\<rparr>)"

definition ccp_pend :: "wait_end \<Rightarrow> 'x ccp_node \<Rightarrow> 'x ccp_node option" where
  "ccp_pend w s =
     (case dpl_sem_pend (cc_sem (cn_ccp s)) w of
        Some (DPL_OK, sem) \<Rightarrow> Some (on_ccp (\<lambda>c. c\<lparr>cc_sem := sem\<rparr>) s)
      | _ \<Rightarrow> None)"

text \<open>\<open>now\<close>: what the clock of the operating system shows when the timer is armed.\<close>

definition ccp_timer_start :: "u32 \<Rightarrow> u32 \<Rightarrow> 'x ccp_node \<Rightarrow> 'x ccp_node option" where
  "ccp_timer_start expiry now s = map_option (on_cst (\<lambda>c. c\<lparr>cs_timer_restarted := True\<rparr>)) (dpl_cputime_timer_start 0 expiry now s)"

text \<open>All services' superframe callbacks, in the order of the list of interfaces.\<close>

definition superframe_callbacks :: "'x ccp_build \<Rightarrow> 'x ccp_node \<Rightarrow> 'x ccp_node" where
  "superframe_callbacks B s =
     s\<lparr>cn_services := fold (\<lambda>(i, has_cb) x. if has_cb then cb_superframe B i (cn_ccp s) x else x) (cn_interfaces s) (cn_services s)\<rparr>"

definition post_postprocess :: "'x ccp_node \<Rightarrow> 'x ccp_node" where
  "post_postprocess s =
     (if cc_postprocess (cn_ccp s) \<and> cs_valid (cc_status (cn_ccp s)) then s\<lparr>cn_postprocess_posted := True\<rparr> else s)"

section \<open>Set-up\<close>

definition UWBEXT_CCP :: u16 where "UWBEXT_CCP = 1"

definition uwb_ccp_skew_compensation_ui64 :: "'x ccp_build \<Rightarrow> u64 \<Rightarrow> u64" where
  "uwb_ccp_skew_compensation_ui64 B v =
     (if cb_wcs_enabled B then case cb_wcs B of None \<Rightarrow> v | Some w \<Rightarrow> skew_comp w v else v)"

definition ccp_default_frame :: "u8 \<Rightarrow> bytes" where
  "ccp_default_frame rpts =
     set_cf_seq_num 0 (set_cf_rpt_max rpts (set_cf_rpt_count 0 (set_cf_seq_num 0xFF
       (set_cf_fctrl FCNTL_IEEE_BLINK_CCP_64 (replicate sizeof_ccp_frame 0)))))"

definition calloc_ccp :: "'x ccp_build \<Rightarrow> u16 \<Rightarrow> uwb_ccp_instance" where
  "calloc_ccp B nframes =
     \<lparr>cc_master_euid = 0, cc_sem = 0,
      cc_status = \<lparr>cs_initialized = False, cs_valid = False, cs_valid_count = 0, cs_start_tx_error = False, cs_start_rx_error = False,
        cs_rx_error = False, cs_rx_timeout_error = False, cs_timer_enabled = False, cs_timer_restarted = False, cs_enabled = False\<rparr>,
      cc_postprocess = False, cc_role = CCP_ROLE_MASTER, cc_tx_holdoff_dly = 0, cc_master_epoch = 0, cc_local_epoch = 0, cc_os_epoch = 0,
      cc_tof_comp_cb = None, cc_period = 0, cc_nframes = nframes, cc_idx = 0, cc_seq_num = 0, cc_missed_frames = 0,
      cc_timer_event = None, cc_blink_frame_duration = 0, cc_frames = replicate (unat nframes) (ccp_default_frame (cb_rpts B))\<rparr>"

text \<open>
  For a device that has an instance: the interface is on the list already and is appended
  again, which makes the list circular: \<open>None\<close>, as is a failed assert.
\<close>

definition uwb_ccp_init :: "'x ccp_build \<Rightarrow> u16 \<Rightarrow> 'x ccp_node \<Rightarrow> 'x ccp_node option" where
  "uwb_ccp_init B nframes s =
     (if \<not> nframes > 1 \<or> UWBEXT_CCP \<in> fst ` set (cn_interfaces s) then None
      else
        let c = calloc_ccp B nframes;
            c = c\<lparr>cc_period := cb_period B, cc_postprocess := False, cc_tx_holdoff_dly := cb_rpt_holdoff B, cc_sem := dpl_sem_init 1\<rparr>;
            s = s\<lparr>cn_interfaces := cn_interfaces s @ [(UWBEXT_CCP, False)]\<rparr>;
            c = c\<lparr>cc_status := (cc_status c)\<lparr>cs_initialized := True\<rparr>\<rparr>
        in Some (s\<lparr>cn_ccp := c, cn_stat := (\<lambda>_. 0), cn_posted := False, cn_freed := False\<rparr>))"

definition uwb_ccp_set_postprocess :: "'x ccp_node \<Rightarrow> 'x ccp_node" where
  "uwb_ccp_set_postprocess s = on_ccp (\<lambda>c. c\<lparr>cc_postprocess := True\<rparr>) (s\<lparr>cn_postprocess_posted := False\<rparr>)"

definition uwb_ccp_set_tof_comp_cb :: "(u16 \<Rightarrow> u32) option \<Rightarrow> 'x ccp_node \<Rightarrow> 'x ccp_node" where
  "uwb_ccp_set_tof_comp_cb cb = on_ccp (\<lambda>c. c\<lparr>cc_tof_comp_cb := cb\<rparr>)"

definition uwb_ccp_free :: "u32 \<Rightarrow> 'x ccp_node \<Rightarrow> 'x ccp_node" where
  "uwb_ccp_free now s =
     (let s = ccp_release (on_cst (\<lambda>c. c\<lparr>cs_enabled := False\<rparr>) s);
          s = s\<lparr>cn_interfaces := filter (\<lambda>i. fst i \<noteq> UWBEXT_CCP) (cn_interfaces s)\<rparr>;
          s = dpl_cputime_timer_stop 0 now s
      in s\<lparr>cn_posted := False, cn_freed := True\<rparr>)"

section \<open>The timer\<close>

text \<open>The timer event keeps the handler it was first given.\<close>

definition ccp_timer_init :: "uwb_ccp_role_t \<Rightarrow> u32 \<Rightarrow> u32 \<Rightarrow> 'x ccp_node \<Rightarrow> 'x ccp_node option" where
  "ccp_timer_init role now1 now2 s =
     (let s = on_cst (\<lambda>c. c\<lparr>cs_timer_enabled := True\<rparr>) s;
          s = dpl_cputime_timer_init 0 0 s;
          s = (if cc_timer_event (cn_ccp s) = None
               then (on_ccp (\<lambda>c. c\<lparr>cc_timer_event := Some role\<rparr>) s)\<lparr>cn_posted := False\<rparr> else s)
      in dpl_cputime_timer_relative id 0 0 0 now1 now2 s)"

definition ccp_timer_irq :: "'x ccp_node \<Rightarrow> 'x ccp_node" where
  "ccp_timer_irq s = s\<lparr>cn_posted := True\<rparr>"

section \<open>The callbacks\<close>

definition adjust_for_epoch_to_rm :: "u16 \<Rightarrow> 'x ccp_node \<Rightarrow> 'x ccp_node" where
  "adjust_for_epoch_to_rm e =
     on_ccp (\<lambda>c. c\<lparr>cc_master_epoch := cc_master_epoch c - push_bit 16 (ucast e),
                   cc_local_epoch := cc_local_epoch c - push_bit 16 (ucast e),
                   cc_os_epoch := cc_os_epoch c - dwt_to_usecs (uint e)\<rparr>)"

definition issue_superframe :: "'x ccp_build \<Rightarrow> 'x ccp_node \<Rightarrow> 'x ccp_node" where
  "issue_superframe B s =
     (let c = cn_ccp s
      in if cs_valid (cc_status c) \<and> cc_missed_frames c \<le> cb_tolerate B
         then superframe_callbacks B (CCP_STATS_INC Err_tolerated
                (on_ccp (\<lambda>c. c\<lparr>cc_os_epoch := cc_os_epoch c + dwt_to_usecs (uint (cc_period c)),
                               cc_master_epoch := cc_master_epoch c + push_bit 16 (ucast (cc_period c)),
                               cc_local_epoch := cc_local_epoch c + push_bit 16 (ucast (cc_period c))\<rparr>) s))
         else s)"

text \<open>The two readings of the device's clock around one of the operating system's.\<close>

record ccp_clock =
  ck_lo0 :: u32
  ck_os :: u32
  ck_lo1 :: u32
  ck_now :: u32

text \<open>The operating-system time at the device time \<open>t\<close>, and the latency since.\<close>

definition ccp_latency :: "ccp_clock \<Rightarrow> u64 \<Rightarrow> u32" where
  "ccp_latency k t = dwt_to_usecs (uint (drop_bit 16 (drop_bit 1 (ck_lo0 k - ucast t) + drop_bit 1 (ck_lo1 k - ucast t))))"

definition read_os_epoch :: "ccp_clock \<Rightarrow> u64 \<Rightarrow> 'x ccp_node \<Rightarrow> 'x ccp_node" where
  "read_os_epoch k t s =
     (let (now, s) = dpl_cputime_get32 0 (ck_os k) s;
          s = on_ccp (\<lambda>c. c\<lparr>cc_os_epoch := now - ccp_latency k t\<rparr>) s
      in CCP_STATS_SET Irq_latency (ccp_latency k t) s)"

definition ccp_validate :: "int \<Rightarrow> bytes \<Rightarrow> uwb_ccp_instance \<Rightarrow> uwb_ccp_instance" where
  "ccp_validate threshold frame c =
     (if cf_transmission_timestamp frame < cc_master_epoch c \<or> cf_euid frame \<noteq> cc_master_euid c
      then c\<lparr>cc_master_euid := cf_euid frame, cc_status := (cc_status c)\<lparr>cs_valid := (threshold = 0), cs_valid_count := 0\<rparr>\<rparr>
      else
        let st = cc_status c;
            st = (if uint (cs_valid_count st) < threshold - 1 then st\<lparr>cs_valid_count := cs_valid_count st + 1\<rparr> else st)
        in c\<lparr>cc_status := st\<lparr>cs_valid := (cs_valid st \<or> uint (cs_valid_count st) = threshold - 1)\<rparr>\<rparr>)"

text \<open>Corrections of a frame \<open>i\<close> that was just received: flight time, and the delays of relays.\<close>

definition ccp_compensate_tof :: "'x ccp_build \<Rightarrow> nat \<Rightarrow> 'x ccp_node \<Rightarrow> 'x ccp_node" where
  "ccp_compensate_tof B i s =
     (case cc_tof_comp_cb (cn_ccp s) of
        None \<Rightarrow> s
      | Some cb \<Rightarrow>
          (let tof_comp = (ucast (uwb_ccp_skew_compensation_ui64 B (ucast (cb (cf_short_address (ccp_frame i s))))) :: u32);
               s = on_ccp (\<lambda>c. c\<lparr>cc_local_epoch := cc_local_epoch c - ucast tof_comp\<rparr>) s
           in on_ccp_frame i (set_cf_reception_timestamp (cc_local_epoch (cn_ccp s))) s))"

definition ccp_compensate_relay :: "'x ccp_build \<Rightarrow> nat \<Rightarrow> 'x ccp_node \<Rightarrow> 'x ccp_node" where
  "ccp_compensate_relay B i s =
     (let frame = ccp_frame i s
      in if cf_rpt_count frame = 0 then s
         else
           let s = CCP_STATS_INC Rx_relayed s;
               ti = cf_transmission_interval frame;
               master_interval = (ti div 0x100000000 + 1) * 0x100000000;
               repeat_dly = master_interval - ti;
               s = on_ccp (\<lambda>c. c\<lparr>cc_period := ucast (drop_bit 16 master_interval),
                                  cc_master_epoch := cc_master_epoch c - repeat_dly\<rparr>) s;
               repeat_dly = uwb_ccp_skew_compensation_ui64 B repeat_dly;
               s = on_ccp (\<lambda>c. c\<lparr>cc_local_epoch := (cc_local_epoch c - repeat_dly) AND 0x0FFFFFFFFFF\<rparr>) s;
               s = on_ccp_frame i (set_cf_reception_timestamp (cc_local_epoch (cn_ccp s))) s;
               s = on_ccp (\<lambda>c. c\<lparr>cc_os_epoch := cc_os_epoch c - dwt_to_usecs (sint (drop_bit 16 repeat_dly))\<rparr>) s
           in on_ccp_frame i (set_cf_carrier_integrator 0) (on_ccp_frame i (set_cf_rxttcko 0) s))"

definition ccp_relay_frame :: "'x ccp_build \<Rightarrow> bytes \<Rightarrow> 'x ccp_node \<Rightarrow> 'x ccp_node" where
  "ccp_relay_frame B frame s =
     (let uf = cb_uf B; c = cn_ccp s; dev = cn_dev s;
          tx_frame = set_cf_short_address (dev_my_short_address dev) frame;
          tx_frame = set_cf_rpt_count (cf_rpt_count frame + 1) tx_frame;
          tx_timestamp = cf_reception_timestamp frame;
          tx_timestamp = tx_timestamp + ucast (cf_rpt_count tx_frame) * push_bit 16 (ucast (cc_tx_holdoff_dly c));
          tx_timestamp = tx_timestamp + ucast (dev_slot_id dev mod 4) * push_bit 16 (ucast (cc_blink_frame_duration c));
          tx_timestamp = tx_timestamp AND 0x0FFFFFFFE00;
          s = on_cdev (uwb_set_delay_start uf tx_timestamp) s;
          tx_timestamp = tx_timestamp + ucast (dev_tx_antenna_delay dev);
          tx_delay = uwb_ccp_skew_compensation_ui64 B (tx_timestamp - cf_reception_timestamp frame);
          tx_frame = set_cf_transmission_timestamp (cf_transmission_timestamp tx_frame + tx_delay) tx_frame;
          tx_frame = set_cf_transmission_interval (cf_transmission_interval frame - tx_delay) tx_frame;
          s = on_cdev (uwb_write_tx uf tx_frame 0 (of_nat sizeof_ccp_blink)) s;
          s = on_cdev (uwb_write_tx_fctrl uf (of_nat sizeof_ccp_blink) 0) s;
          s = on_cdev (uwb_start_tx uf) s;
          s = on_cst (\<lambda>c. c\<lparr>cs_start_tx_error := st_start_tx_error (dev_status (cn_dev s))\<rparr>) s
      in CCP_STATS_INC (if st_start_tx_error (dev_status (cn_dev s)) then Tx_relay_error else Tx_relay_ok) s)"

text \<open>A good packet, in frame \<open>i\<close>: what is taken from it and the clocks, and the corrections.\<close>

definition ccp_read_epochs :: "'x ccp_build \<Rightarrow> ccp_clock \<Rightarrow> nat \<Rightarrow> 'x ccp_node \<Rightarrow> 'x ccp_node" where
  "ccp_read_epochs B k i s =
     (let frame = ccp_frame i s; dev = cn_dev s;
          s = on_ccp (\<lambda>c. c\<lparr>cc_idx := cc_idx c + 1, cc_seq_num := cf_seq_num frame, cc_missed_frames := 0\<rparr>) s;
          s = read_os_epoch k (dev_rxtimestamp dev) s;
          s = on_cst (\<lambda>c. c\<lparr>cs_rx_timeout_error := False\<rparr>) (CCP_STATS_INC Ccp_rx_complete s);
          s = on_ccp (ccp_validate (cb_valid_threshold B) frame) s;
          s = on_ccp (\<lambda>c. c\<lparr>cc_master_epoch := cf_transmission_timestamp frame, cc_local_epoch := dev_rxtimestamp dev,
                            cc_period := ucast (drop_bit 16 (cf_transmission_interval frame))\<rparr>) s;
          s = on_ccp_frame i (set_cf_reception_timestamp (dev_rxtimestamp dev)) s;
          s = adjust_for_epoch_to_rm (cf_epoch_to_rm_us frame) s;
          s = on_ccp_frame i (set_cf_carrier_integrator (dev_carrier_integrator dev)) s
      in on_ccp_frame i (set_cf_rxttcko (if config_rxttcko_enable (dev_config dev) then dev_rxttcko dev else 0)) s)"

definition ccp_take_epochs :: "'x ccp_build \<Rightarrow> ccp_clock \<Rightarrow> nat \<Rightarrow> 'x ccp_node \<Rightarrow> 'x ccp_node" where
  "ccp_take_epochs B k i s = ccp_compensate_relay B i (ccp_compensate_tof B i (ccp_read_epochs B k i s))"

definition ccp_rx_complete_cb :: "'x ccp_build \<Rightarrow> ccp_clock \<Rightarrow> 'x ccp_node \<Rightarrow> bool \<times> 'x ccp_node" where
  "ccp_rx_complete_cb B k s =
     (let c = cn_ccp s; dev = cn_dev s; uf = cb_uf B
      in if cc_role c = CCP_ROLE_MASTER then (True, s)
         else if (ucast (dev_fctrl dev) :: u8) \<noteq> FCNTL_IEEE_BLINK_CCP_64
         then if dpl_sem_get_count (cc_sem c) = 0
              then (True, CCP_STATS_INC Rx_other_frame (on_cdev (uwb_adj_rx_timeout uf (cb_long_rx_to B)) s))
              else (False, s)
         else if dpl_sem_get_count (cc_sem c) \<noteq> 0 then (False, CCP_STATS_INC Ccp_rx_unsolicited s)
         else if \<not> (sizeof_ccp_blink \<le> unat (dev_frame_len dev) \<and> unat (dev_frame_len dev) \<le> sizeof_ccp_frame) then (True, s)
         else
           let i = ccp_slot 1 c;
               s = on_ccp_frame i (\<lambda>m. write_at m 0 (take sizeof_ccp_blink (dev_rxbuf dev))) s
           in if st_lde_error (dev_status dev) then (True, s)
              else if cf_rpt_count (ccp_frame i s) < cb_test_cascade B then (True, s)
              else
                let s = ccp_take_epochs B k i (on_cdev (uwb_stop_rx uf) s);
                    frame = ccp_frame i s;
                    s = (if cc_role (cn_ccp s) = CCP_ROLE_RELAY \<and> cs_valid (cc_status (cn_ccp s)) \<and> cf_rpt_count frame < cf_rpt_max frame
                         then ccp_relay_frame B frame s else s);
                    s = post_postprocess (superframe_callbacks B s)
                in (False, ccp_release s))"

definition master_next_timer :: "'x ccp_build \<Rightarrow> 'x ccp_node \<Rightarrow> u32" where
  "master_next_timer B s = cc_os_epoch (cn_ccp s) - cb_os_latency B + dwt_to_usecs (uint (cc_period (cn_ccp s)))"

definition ccp_tx_complete_cb :: "'x ccp_build \<Rightarrow> ccp_clock \<Rightarrow> 'x ccp_node \<Rightarrow> (bool \<times> 'x ccp_node) option" where
  "ccp_tx_complete_cb B k s =
     (if dpl_sem_get_count (cc_sem (cn_ccp s)) = 1 then Some (False, s)
      else
        let s = CCP_STATS_INC Ccp_tx_complete s
        in if cc_role (cn_ccp s) \<noteq> CCP_ROLE_MASTER then Some (False, s)
           else
             let s = on_ccp (\<lambda>c. c\<lparr>cc_idx := cc_idx c + 1\<rparr>) s;
                 frame = ccp_frame (ccp_slot 0 (cn_ccp s)) s;
                 ts = cf_transmission_timestamp frame;
                 s = read_os_epoch k (ts_lo ts) s;
                 s = on_ccp (\<lambda>c. c\<lparr>cc_local_epoch := ts_lo ts, cc_master_epoch := ts,
                                   cc_period := ucast (drop_bit 16 (cf_transmission_interval frame))\<rparr>) s;
                 s = adjust_for_epoch_to_rm (cf_epoch_to_rm_us frame) s
             in case (if cs_timer_enabled (cc_status (cn_ccp s)) then ccp_timer_start (master_next_timer B s) (ck_now k) s else Some s) of
                  None \<Rightarrow> None
                | Some s \<Rightarrow>
                    let s = on_cst (\<lambda>c. c\<lparr>cs_valid := (cs_valid c \<or> cc_idx (cn_ccp s) > 1)\<rparr>) s;
                        s = post_postprocess (superframe_callbacks B s)
                    in Some (False, if dpl_sem_get_count (cc_sem (cn_ccp s)) = 0 then ccp_release s else s))"

text \<open>A missed packet at a node that is not the master.\<close>

definition ccp_missed :: "'x ccp_build \<Rightarrow> 'x ccp_node \<Rightarrow> 'x ccp_node" where
  "ccp_missed B s =
     (let s = on_ccp (\<lambda>c. c\<lparr>cc_missed_frames := cc_missed_frames c + 1\<rparr>) s
      in if cb_tolerate B > 0 then issue_superframe B s else s)"

definition ccp_error_cb :: "'x ccp_build \<Rightarrow> 'x ccp_node \<Rightarrow> bool \<times> 'x ccp_node" where
  "ccp_error_cb B s =
     (if dpl_sem_get_count (cc_sem (cn_ccp s)) = 1 then (False, s)
      else
        let s = CCP_STATS_INC Txrx_error s
        in (True,
            if dpl_sem_get_count (cc_sem (cn_ccp s)) = 0
            then ccp_release (if cc_role (cn_ccp s) \<noteq> CCP_ROLE_MASTER
                              then ccp_missed B (on_cst (\<lambda>c. c\<lparr>cs_rx_error := True\<rparr>) s) else s)
            else s))"

definition ccp_rx_timeout_cb :: "'x ccp_build \<Rightarrow> 'x ccp_node \<Rightarrow> bool \<times> 'x ccp_node" where
  "ccp_rx_timeout_cb B s =
     (if dpl_sem_get_count (cc_sem (cn_ccp s)) = 1 then (False, s)
      else (True,
            if dpl_sem_get_count (cc_sem (cn_ccp s)) = 0
            then ccp_release (CCP_STATS_INC Ccp_rx_timeout (ccp_missed B (on_cst (\<lambda>c. c\<lparr>cs_rx_timeout_error := True\<rparr>) s)))
            else s))"

definition ccp_reset_cb :: "'x ccp_node \<Rightarrow> bool \<times> 'x ccp_node" where
  "ccp_reset_cb s =
     (if dpl_sem_get_count (cc_sem (cn_ccp s)) = 0 then (True, CCP_STATS_INC Ccp_reset (ccp_release s)) else (False, s))"

section \<open>Sending and listening\<close>

text \<open>A call that is done, or waits for the end of the transaction.\<close>

datatype ccp_call = Call_done | Call_waiting

text \<open>The next frame of the ring, filled and loaded; with the time of its transmission.\<close>

definition ccp_prepare_blink :: "'x ccp_build \<Rightarrow> 'x ccp_node \<Rightarrow> u64 \<times> 'x ccp_node" where
  "ccp_prepare_blink B s =
     (let uf = cb_uf B; c = cn_ccp s; dev = cn_dev s;
          prev = ccp_slot 0 c; i = ccp_slot 1 c;
          s = on_ccp_frame i (set_cf_epoch_to_rm_us (uwb_phy_SHR_duration uf) \<circ> set_cf_rpt_max (cb_rpts B) \<circ> set_cf_rpt_count 0) s;
          timestamp = cf_transmission_timestamp (ccp_frame prev s) + push_bit 16 (ucast (cc_period c));
          timestamp = timestamp AND 0xFFFFFFFFFFFFFE00;
          s = on_cdev (uwb_set_delay_start uf timestamp) s;
          timestamp = timestamp + ucast (dev_tx_antenna_delay dev);
          s = on_ccp_frame i (set_cf_transmission_timestamp timestamp) s;
          s = on_ccp (\<lambda>c. c\<lparr>cc_seq_num := cc_seq_num c + 1\<rparr>) s;
          s = on_ccp_frame i (set_cf_transmission_interval (push_bit 16 (ucast (cc_period c))) \<circ>
                set_cf_short_address (dev_my_short_address dev) \<circ> set_cf_euid (dev_euid dev) \<circ>
                set_cf_seq_num (cc_seq_num (cn_ccp s))) s;
          s = on_cdev (uwb_write_tx uf (ccp_frame i s) 0 (of_nat sizeof_ccp_blink)) s;
          s = on_cdev (uwb_write_tx_fctrl uf (of_nat sizeof_ccp_blink) 0) s
      in (timestamp, on_cdev (uwb_set_wait4resp uf False) s))"

text \<open>The device refused: the frame and the epochs go on as if it had been sent.\<close>

definition ccp_skip_blink :: "'x ccp_build \<Rightarrow> nat \<Rightarrow> u64 \<Rightarrow> 'x ccp_node \<Rightarrow> 'x ccp_node" where
  "ccp_skip_blink B prev timestamp s =
     (let period = cc_period (cn_ccp s);
          late_us = drop_bit 16 ((uwb_read_systime (cb_uf B) (cn_dev s) - timestamp) AND UWB_DTU_40BMASK);
          s = CCP_STATS_INC Ccp_tx_start_error s;
          s = on_ccp_frame prev (set_cf_transmission_timestamp (timestamp + push_bit 16 (ucast period))) s;
          s = on_ccp (\<lambda>c. c\<lparr>cc_idx := cc_idx c + 1,
                            cc_os_epoch := cc_os_epoch c + dwt_to_usecs (sint (ucast period - late_us)) - cb_os_latency B,
                            cc_master_epoch := cc_master_epoch c + push_bit 16 (ucast period),
                            cc_local_epoch := cc_local_epoch c + push_bit 16 (ucast period)\<rparr>) s
      in if cb_tolerate B > 0 then superframe_callbacks B s else s)"

definition ccp_send_start :: "'x ccp_build \<Rightarrow> wait_end \<Rightarrow> 'x ccp_node \<Rightarrow> (ccp_call \<times> 'x ccp_node) option" where
  "ccp_send_start B w s =
     (let uf = cb_uf B; s = on_cdev (uwb_phy_forcetrxoff uf) (CCP_STATS_INC Ccp_send s)
      in case ccp_pend w s of
           None \<Rightarrow> None
         | Some s \<Rightarrow>
             let prev = ccp_slot 0 (cn_ccp s);
                 (timestamp, s) = ccp_prepare_blink B s;
                 s = on_cdev (uwb_start_tx uf) s;
                 err = st_start_tx_error (dev_status (cn_dev s));
                 s = on_cst (\<lambda>c. c\<lparr>cs_start_tx_error := err\<rparr>) s
             in if err
                then Some (Call_done, ccp_release (ccp_skip_blink B prev timestamp s))
                else
                  let margin = ucast (ts_lo timestamp) - uwb_read_systime_lo32 uf (cn_dev s)
                  in Some (Call_waiting, CCP_STATS_SET Os_lat_margin (dwt_to_usecs (uint (drop_bit 16 margin))) s))"

definition ccp_send_finish :: "wait_end \<Rightarrow> 'x ccp_node \<Rightarrow> 'x ccp_node option" where
  "ccp_send_finish w s = map_option ccp_release (ccp_pend w s)"

definition ccp_listen_start :: "'x ccp_build \<Rightarrow> u64 \<Rightarrow> wait_end \<Rightarrow> 'x ccp_node \<Rightarrow> (ccp_call \<times> 'x ccp_node) option" where
  "ccp_listen_start B dx_time w s =
     (let uf = cb_uf B; s = on_cdev (uwb_phy_forcetrxoff uf) s
      in case ccp_pend w s of
           None \<Rightarrow> None
         | Some s \<Rightarrow>
             let s = CCP_STATS_INC Ccp_listen s;
                 s = (if dx_time \<noteq> 0 then on_cdev (uwb_set_delay_start uf dx_time) s else s);
                 s = on_cdev (uwb_start_rx uf) (on_cst (\<lambda>c. c\<lparr>cs_rx_timeout_error := False\<rparr>) s);
                 err = st_start_rx_error (dev_status (cn_dev s));
                 lo32 = uwb_read_systime_lo32 uf (cn_dev s);
                 s = on_cst (\<lambda>c. c\<lparr>cs_start_rx_error := err\<rparr>) s
             in if err
                then Some (Call_done, ccp_release (CCP_STATS_INC Ccp_rx_start_error
                       (CCP_STATS_SET Os_lat_behind (dwt_to_usecs (uint (drop_bit 16 (lo32 - ucast dx_time)))) s)))
                else Some (Call_waiting, if dx_time \<noteq> 0
                       then CCP_STATS_SET Os_lat_margin (dwt_to_usecs (uint (drop_bit 16 (ucast dx_time - lo32)))) s else s))"

definition ccp_listen_finish :: "wait_end \<Rightarrow> 'x ccp_node \<Rightarrow> 'x ccp_node option" where
  "ccp_listen_finish w s =
     (case dpl_sem_pend (cc_sem (cn_ccp s)) w of
        None \<Rightarrow> None
      | Some (err, sem) \<Rightarrow>
          (let s = on_ccp (\<lambda>c. c\<lparr>cc_sem := sem\<rparr>) s;
               s = (if err = DPL_TIMEOUT then CCP_STATS_INC Sem_timeout s else s)
           in Some (if dpl_sem_get_count (cc_sem (cn_ccp s)) = 0 then ccp_release s else s)))"

section \<open>The timer events\<close>

text \<open>Where the task is: at rest, or in one of the waits of the two handlers.\<close>

datatype ccp_pc = Task_idle | Master_sending | Slave_listening bool

definition master_rearm :: "'x ccp_build \<Rightarrow> u32 \<Rightarrow> 'x ccp_node \<Rightarrow> 'x ccp_node option" where
  "master_rearm B now s =
     (let st = cc_status (cn_ccp s)
      in if \<not> cs_timer_restarted st \<and> cs_enabled st then ccp_timer_start (master_next_timer B s) now s else Some s)"

definition ccp_master_timer_ev :: "'x ccp_build \<Rightarrow> wait_end \<Rightarrow> u32 \<Rightarrow> 'x ccp_node \<Rightarrow> (ccp_pc \<times> 'x ccp_node) option" where
  "ccp_master_timer_ev B w now s =
     (if \<not> cs_enabled (cc_status (cn_ccp s)) then Some (Task_idle, s)
      else case ccp_send_start B w (on_cst (\<lambda>c. c\<lparr>cs_timer_restarted := False\<rparr>) (CCP_STATS_INC Master_cnt s)) of
          None \<Rightarrow> None
        | Some (Call_waiting, s) \<Rightarrow> Some (Master_sending, s)
        | Some (Call_done, s) \<Rightarrow> map_option (Pair Task_idle) (master_rearm B now s))"

definition ccp_master_timer_ev_finish :: "'x ccp_build \<Rightarrow> wait_end \<Rightarrow> u32 \<Rightarrow> 'x ccp_node \<Rightarrow> 'x ccp_node option" where
  "ccp_master_timer_ev_finish B w now s = Option.bind (ccp_send_finish w s) (master_rearm B now)"

definition slave_dx_time :: "'x ccp_build \<Rightarrow> 'x ccp_node \<Rightarrow> u64" where
  "slave_dx_time B s =
     (let c = cn_ccp s;
          dx_time = cc_local_epoch c;
          dx_time = (if cb_wcs_enabled B
                     then case cb_wcs B of None \<Rightarrow> dx_time | Some w \<Rightarrow> dx_time + skewed_period w (push_bit 16 (ucast (cc_period c)))
                     else dx_time + push_bit 16 (ucast (cc_period c)))
      in dx_time - push_bit 16 (of_int ((uint (uwb_phy_SHR_duration (cb_uf B)) + uint (rx_timeToRxStable (config_rx (dev_config (cn_dev s)))))
           div uwb_dwt_usecs_to_usecs 1)))"

definition slave_timeout :: "'x ccp_build \<Rightarrow> 'x ccp_node \<Rightarrow> u16" where
  "slave_timeout B s =
     (let c = cn_ccp s
      in cc_blink_frame_duration c + cb_xtalt_guard B + (cc_tx_holdoff_dly c + cc_blink_frame_duration c) * ucast (cb_rpts B))"

text \<open>The end of the slave's handler, with the clock readings of the timer calls.\<close>

definition slave_reset_timer :: "'x ccp_build \<Rightarrow> u32 \<times> u32 \<times> u32 \<Rightarrow> 'x ccp_node \<Rightarrow> 'x ccp_node option" where
  "slave_reset_timer B now s =
     (case now of (n1, n2, n3) \<Rightarrow>
        if \<not> cs_enabled (cc_status (cn_ccp s)) then Some s
        else
          let s = dpl_cputime_timer_stop 0 n1 s; c = cn_ccp s
          in if cs_rx_timeout_error (cc_status c) \<and> cc_missed_frames c > cb_tolerate B
             then map_option (on_cst (\<lambda>c. c\<lparr>cs_timer_restarted := True\<rparr>)) (dpl_cputime_timer_relative id 0 0 0 n2 n3 s)
             else
               let s = on_cst (\<lambda>c. c\<lparr>cs_rx_timeout_error := False\<rparr>) s;
                   expiry = cc_os_epoch c + (dwt_to_usecs (uint (cc_period c)) - cb_os_latency B - ucast (cc_blink_frame_duration c) -
                              ucast (rx_timeToRxStable (config_rx (dev_config (cn_dev s)))))
               in ccp_timer_start expiry n2 s)"

definition slave_listen_long :: "'x ccp_build \<Rightarrow> wait_end \<Rightarrow> u32 \<times> u32 \<times> u32 \<Rightarrow> 'x ccp_node \<Rightarrow> (ccp_pc \<times> 'x ccp_node) option" where
  "slave_listen_long B w now s =
     (case ccp_listen_start B 0 w (on_cdev (uwb_set_rx_timeout (cb_uf B) (cb_long_rx_to B)) s) of
        None \<Rightarrow> None
      | Some (Call_waiting, s) \<Rightarrow> Some (Slave_listening True, s)
      | Some (Call_done, s) \<Rightarrow> map_option (Pair Task_idle) (slave_reset_timer B now s))"

definition ccp_slave_timer_ev :: "'x ccp_build \<Rightarrow> wait_end \<Rightarrow> wait_end \<Rightarrow> u32 \<times> u32 \<times> u32 \<Rightarrow> 'x ccp_node \<Rightarrow> (ccp_pc \<times> 'x ccp_node) option" where
  "ccp_slave_timer_ev B w1 w2 now s =
     (let uf = cb_uf B;
          s = on_ccp (\<lambda>c. c\<lparr>cc_blink_frame_duration := uwb_phy_frame_duration uf (of_nat sizeof_ccp_blink)\<rparr>) s
      in if \<not> cs_enabled (cc_status (cn_ccp s)) then Some (Task_idle, s)
         else if cs_rx_timeout_error (cc_status (cn_ccp s)) then slave_listen_long B w1 now s
         else
           let s = CCP_STATS_INC Slave_cnt s;
               dx_time = slave_dx_time B s;
               s = on_cdev (uwb_set_rx_timeout uf (ucast (slave_timeout B s))) s
           in case ccp_listen_start B dx_time w1 s of
                None \<Rightarrow> None
              | Some (Call_waiting, s) \<Rightarrow> Some (Slave_listening False, s)
              | Some (Call_done, s) \<Rightarrow> slave_listen_long B w2 now s)"

definition ccp_slave_timer_ev_finish :: "'x ccp_build \<Rightarrow> wait_end \<Rightarrow> u32 \<times> u32 \<times> u32 \<Rightarrow> 'x ccp_node \<Rightarrow> 'x ccp_node option" where
  "ccp_slave_timer_ev_finish B w now s = Option.bind (ccp_listen_finish w s) (slave_reset_timer B now)"

section \<open>Starting and stopping\<close>

text \<open>The time stamp and epochs from which the first packet is due at once; then the timer.\<close>

definition ccp_start_epochs :: "'x ccp_build \<Rightarrow> uwb_ccp_role_t \<Rightarrow> u32 \<Rightarrow> 'x ccp_node \<Rightarrow> 'x ccp_node" where
  "ccp_start_epochs B role now s =
     (let uf = cb_uf B; epoch_to_rm = uwb_phy_SHR_duration uf;
          s = on_ccp (\<lambda>c. c\<lparr>cc_idx := 0, cc_master_euid := 0, cc_role := role\<rparr>) s;
          s = on_cst (\<lambda>c. c\<lparr>cs_valid := False, cs_enabled := True\<rparr>) s;
          (os, s) = dpl_cputime_get32 0 now s;
          s = on_ccp (\<lambda>c. c\<lparr>cc_os_epoch := os - ucast epoch_to_rm\<rparr>) s;
          c = cn_ccp s;
          ts = (uwb_read_systime uf (cn_dev s) - push_bit 16 (ucast (cc_period c))) AND UWB_DTU_40BMASK;
          ts = ts + push_bit 16 (ucast (cc_tx_holdoff_dly c) + ucast (2 * cb_os_latency B));
          i = ccp_slot 0 c;
          s = (if role = CCP_ROLE_MASTER
               then on_ccp (\<lambda>c. c\<lparr>cc_local_epoch := ts_lo ts\<rparr>)
                      (on_ccp_frame i (\<lambda>m. set_cf_transmission_timestamp (clear_ts_hi (set_ts_lo ts (cf_transmission_timestamp m))) m) s)
               else on_ccp (\<lambda>c. c\<lparr>cc_local_epoch := ts\<rparr>) (on_ccp_frame i (set_cf_reception_timestamp ts) s))
      in on_ccp (\<lambda>c. c\<lparr>cc_local_epoch := (cc_local_epoch c - ucast epoch_to_rm) AND UWB_DTU_40BMASK\<rparr>) s)"

definition uwb_ccp_start :: "'x ccp_build \<Rightarrow> uwb_ccp_role_t \<Rightarrow> u32 \<times> u32 \<times> u32 \<Rightarrow> 'x ccp_node \<Rightarrow> 'x ccp_node option" where
  "uwb_ccp_start B role now s =
     (case now of (n1, n2, n3) \<Rightarrow> ccp_timer_init role n2 n3 (ccp_start_epochs B role n1 s))"

definition uwb_ccp_stop :: "'x ccp_build \<Rightarrow> u32 \<Rightarrow> 'x ccp_node \<Rightarrow> 'x ccp_node" where
  "uwb_ccp_stop B now s =
     (let s = dpl_cputime_timer_stop 0 now (on_cst (\<lambda>c. c\<lparr>cs_enabled := False\<rparr>) s)
      in if dpl_sem_get_count (cc_sem (cn_ccp s)) = 0
         then let s = on_cdev (uwb_phy_forcetrxoff (cb_uf B)) s
              in if dpl_sem_get_count (cc_sem (cn_ccp s)) = 0 then ccp_release s else s
         else s)"

end
