(* ===== verification/Uwb_Ccp_Facts.thy ===== *)
theory Uwb_Ccp_Facts
  imports Uwb_Ccp
begin

text \<open>
  Facts on the clock calibration packets: the fields of a frame, what each part of a handler
  leaves alone, and the effect of the callbacks on the epochs.
\<close>

unbundle bit_operations_syntax

section \<open>Fields of a frame\<close>

lemmas cf_defs [layout] = sizeof_ccp_blink_def sizeof_ccp_frame_def
  cf_seq_num_def cf_euid_def cf_short_address_def cf_transmission_interval_def cf_transmission_timestamp_def
  cf_rpt_count_def cf_rpt_max_def cf_epoch_to_rm_us_def cf_reception_timestamp_def cf_carrier_integrator_def cf_rxttcko_def
  set_cf_fctrl_def set_cf_seq_num_def set_cf_euid_def set_cf_short_address_def set_cf_transmission_interval_def
  set_cf_transmission_timestamp_def set_cf_rpt_count_def set_cf_rpt_max_def set_cf_epoch_to_rm_us_def
  set_cf_reception_timestamp_def set_cf_carrier_integrator_def set_cf_rxttcko_def

lemma cf_length [simp]:
  "length (set_cf_fctrl b m) = length m" "length (set_cf_seq_num b m) = length m" "length (set_cf_euid e m) = length m"
  "length (set_cf_short_address a m) = length m" "length (set_cf_transmission_interval e m) = length m"
  "length (set_cf_transmission_timestamp e m) = length m" "length (set_cf_rpt_count b m) = length m"
  "length (set_cf_rpt_max b m) = length m" "length (set_cf_epoch_to_rm_us a m) = length m"
  "length (set_cf_reception_timestamp e m) = length m" "length (set_cf_carrier_integrator d m) = length m"
  "length (set_cf_rxttcko d m) = length m"
  by (simp_all add: layout)

lemma interval_bits: "((x AND NOT m) OR (v AND m)) AND m = v AND (m :: u64)"
  by (rule bit_word_eqI) (auto simp: bit_simps)

text \<open>What a frame holds after its fields were set, in whatever order.\<close>

lemma cf_set_same [simp]:
  assumes "length m = 48"
  shows "cf_seq_num (set_cf_seq_num b m) = b" "cf_euid (set_cf_euid e m) = e" "cf_short_address (set_cf_short_address a m) = a"
    "cf_transmission_interval (set_cf_transmission_interval e m) = e AND UWB_DTU_40BMASK"
    "cf_transmission_timestamp (set_cf_transmission_timestamp e m) = e" "cf_rpt_count (set_cf_rpt_count b m) = b"
    "cf_rpt_max (set_cf_rpt_max b m) = b" "cf_epoch_to_rm_us (set_cf_epoch_to_rm_us a m) = a"
    "cf_reception_timestamp (set_cf_reception_timestamp e m) = e"
  using assms by (simp_all add: layout interval_bits)

lemma cf_set_other [simp]:
  assumes "length m = 48"
  shows "cf_seq_num (set_cf_euid e m) = cf_seq_num m" "cf_seq_num (set_cf_short_address a m) = cf_seq_num m"
    "cf_seq_num (set_cf_transmission_interval e m) = cf_seq_num m"
    "cf_seq_num (set_cf_reception_timestamp e m) = cf_seq_num m" "cf_seq_num (set_cf_carrier_integrator d m) = cf_seq_num m"
    "cf_seq_num (set_cf_rxttcko d m) = cf_seq_num m" "cf_seq_num (set_cf_rpt_count b m) = cf_seq_num m"
    "cf_seq_num (set_cf_transmission_timestamp e m) = cf_seq_num m"
    "cf_euid (set_cf_short_address a m) = cf_euid m" "cf_euid (set_cf_transmission_interval e m) = cf_euid m"
    "cf_euid (set_cf_rpt_count b m) = cf_euid m" "cf_euid (set_cf_transmission_timestamp e m) = cf_euid m"
    "cf_euid (set_cf_reception_timestamp e m) = cf_euid m" "cf_euid (set_cf_carrier_integrator d m) = cf_euid m"
    "cf_euid (set_cf_rxttcko d m) = cf_euid m"
    "cf_transmission_timestamp (set_cf_transmission_interval e m) = cf_transmission_timestamp m"
    "cf_transmission_timestamp (set_cf_seq_num b m) = cf_transmission_timestamp m"
    "cf_transmission_timestamp (set_cf_euid e m) = cf_transmission_timestamp m"
    "cf_transmission_timestamp (set_cf_short_address a m) = cf_transmission_timestamp m"
    "cf_transmission_timestamp (set_cf_rpt_count b m) = cf_transmission_timestamp m"
    "cf_transmission_timestamp (set_cf_rpt_max b m) = cf_transmission_timestamp m"
    "cf_transmission_timestamp (set_cf_epoch_to_rm_us a m) = cf_transmission_timestamp m"
    "cf_transmission_timestamp (set_cf_reception_timestamp e m) = cf_transmission_timestamp m"
    "cf_transmission_timestamp (set_cf_carrier_integrator d m) = cf_transmission_timestamp m"
    "cf_transmission_timestamp (set_cf_rxttcko d m) = cf_transmission_timestamp m"
  using assms by (simp_all add: layout)

lemma cf_set_more [simp]:
  assumes "length m = 48"
  shows "cf_rpt_count (set_cf_transmission_interval e m) = cf_rpt_count m" "cf_rpt_count (set_cf_seq_num b m) = cf_rpt_count m"
    "cf_rpt_count (set_cf_euid e m) = cf_rpt_count m" "cf_rpt_count (set_cf_short_address a m) = cf_rpt_count m"
    "cf_rpt_count (set_cf_transmission_timestamp e m) = cf_rpt_count m" "cf_rpt_count (set_cf_rpt_max b m) = cf_rpt_count m"
    "cf_rpt_count (set_cf_epoch_to_rm_us a m) = cf_rpt_count m" "cf_rpt_count (set_cf_reception_timestamp e m) = cf_rpt_count m"
    "cf_rpt_count (set_cf_carrier_integrator d m) = cf_rpt_count m" "cf_rpt_count (set_cf_rxttcko d m) = cf_rpt_count m"
    "cf_rpt_max (set_cf_reception_timestamp e m) = cf_rpt_max m" "cf_rpt_max (set_cf_carrier_integrator d m) = cf_rpt_max m"
    "cf_rpt_max (set_cf_rxttcko d m) = cf_rpt_max m"
    "cf_epoch_to_rm_us (set_cf_transmission_interval e m) = cf_epoch_to_rm_us m" "cf_epoch_to_rm_us (set_cf_seq_num b m) = cf_epoch_to_rm_us m"
    "cf_epoch_to_rm_us (set_cf_euid e m) = cf_epoch_to_rm_us m" "cf_epoch_to_rm_us (set_cf_short_address a m) = cf_epoch_to_rm_us m"
    "cf_epoch_to_rm_us (set_cf_transmission_timestamp e m) = cf_epoch_to_rm_us m"
    "cf_epoch_to_rm_us (set_cf_rpt_count b m) = cf_epoch_to_rm_us m"
    "cf_transmission_interval (set_cf_reception_timestamp e m) = cf_transmission_interval m"
    "cf_transmission_interval (set_cf_carrier_integrator d m) = cf_transmission_interval m"
    "cf_transmission_interval (set_cf_rxttcko d m) = cf_transmission_interval m"
    "cf_reception_timestamp (set_cf_carrier_integrator d m) = cf_reception_timestamp m"
    "cf_reception_timestamp (set_cf_rxttcko d m) = cf_reception_timestamp m"
  using assms by (simp_all add: layout)

text \<open>A receiver copies the first 32 bytes of what was sent: the fields up to the epoch.\<close>

lemma blink_fields [simp]:
  assumes "length m = 48" and "32 \<le> length f"
  shows "cf_seq_num (write_at m 0 (take 32 f)) = cf_seq_num f" "cf_euid (write_at m 0 (take 32 f)) = cf_euid f"
    "cf_short_address (write_at m 0 (take 32 f)) = cf_short_address f"
    "cf_transmission_interval (write_at m 0 (take 32 f)) = cf_transmission_interval f"
    "cf_transmission_timestamp (write_at m 0 (take 32 f)) = cf_transmission_timestamp f"
    "cf_rpt_count (write_at m 0 (take 32 f)) = cf_rpt_count f" "cf_rpt_max (write_at m 0 (take 32 f)) = cf_rpt_max f"
    "cf_epoch_to_rm_us (write_at m 0 (take 32 f)) = cf_epoch_to_rm_us f"
  using assms by (simp_all add: layout write_at_0 field_append field_take)

section \<open>Parts of the state\<close>

lemma ccp_simps [simp]:
  "cn_ccp (on_cdev f s) = cn_ccp s" "cn_dev (on_cdev f s) = f (cn_dev s)" "cn_ccp (on_ccp g s) = g (cn_ccp s)" "cn_dev (on_ccp g s) = cn_dev s"
  "cn_ccp (CCP_STATS_INC x s) = cn_ccp s" "cn_dev (CCP_STATS_INC x s) = cn_dev s"
  "cn_ccp (CCP_STATS_SET x n s) = cn_ccp s" "cn_dev (CCP_STATS_SET x n s) = cn_dev s"
  "cn_posted (on_cdev f s) = cn_posted s" "cn_posted (on_ccp g s) = cn_posted s"
  "cn_posted (CCP_STATS_INC x s) = cn_posted s" "cn_posted (CCP_STATS_SET x n s) = cn_posted s"
  "hal_nt (on_cdev f s) = hal_nt s" "hal_nt (on_ccp g s) = hal_nt s" "hal_nt (CCP_STATS_INC x s) = hal_nt s" "hal_nt (CCP_STATS_SET x n s) = hal_nt s"
  "ht_linked (on_cdev f s) = ht_linked s" "ht_linked (on_ccp g s) = ht_linked s" "ht_linked (CCP_STATS_INC x s) = ht_linked s"
  "ht_linked (CCP_STATS_SET x n s) = ht_linked s"
  by (simp_all add: on_cdev_def on_ccp_def CCP_STATS_INC_def CCP_STATS_SET_def)

lemma superframe_simps [simp]:
  "cn_ccp (superframe_callbacks B s) = cn_ccp s" "cn_dev (superframe_callbacks B s) = cn_dev s"
  "cn_posted (superframe_callbacks B s) = cn_posted s" "hal_nt (superframe_callbacks B s) = hal_nt s"
  "ht_linked (superframe_callbacks B s) = ht_linked s"
  "cn_ccp (post_postprocess s) = cn_ccp s" "cn_dev (post_postprocess s) = cn_dev s" "cn_posted (post_postprocess s) = cn_posted s"
  "hal_nt (post_postprocess s) = hal_nt s" "ht_linked (post_postprocess s) = ht_linked s"
  by (simp_all add: superframe_callbacks_def post_postprocess_def)

text \<open>Reading the clock and arming the timer leave the instance and the device alone.\<close>

lemma get32_simps [simp]:
  "cn_ccp (snd (dpl_cputime_get32 n t s)) = cn_ccp s" "cn_dev (snd (dpl_cputime_get32 n t s)) = cn_dev s"
  "cn_posted (snd (dpl_cputime_get32 n t s)) = cn_posted s" "timers (snd (dpl_cputime_get32 n t s)) = timers s"
  "ht_linked (snd (dpl_cputime_get32 n t s)) = ht_linked s"
  by (simp_all add: dpl_cputime_get32_def hal_timer_read_def on_nt_def Let_def)

lemma start_timer_fields:
  assumes "dpl_cputime_timer_start 0 e now s = Some s'"
  shows "cn_ccp s' = cn_ccp s" and "cn_dev s' = cn_dev s" and "cn_posted s' = cn_posted s"
  using assms
  by (auto simp: dpl_cputime_timer_start_def hal_timer_start_at_def Let_def split_beta hal_timer_read_def enqueue_def settime_def on_nt_def
      split: if_splits)

lemma stop_timer_fields [simp]:
  "cn_ccp (dpl_cputime_timer_stop 0 now s) = cn_ccp s" "cn_dev (dpl_cputime_timer_stop 0 now s) = cn_dev s"
  "cn_posted (dpl_cputime_timer_stop 0 now s) = cn_posted s"
  by (auto simp: dpl_cputime_timer_stop_def hal_timer_stop_def Let_def split_beta hal_timer_read_def dequeue_def settime_def on_nt_def split: list.splits)

lemma read_os_epoch_fields:
  "timers (read_os_epoch k t s) = timers s" "ht_linked (read_os_epoch k t s) = ht_linked s" "cn_posted (read_os_epoch k t s) = cn_posted s"
  "cn_dev (read_os_epoch k t s) = cn_dev s"
  "cn_ccp (read_os_epoch k t s) = (cn_ccp s)\<lparr>cc_os_epoch := fst (dpl_cputime_get32 0 (ck_os k) s) - ccp_latency k t\<rparr>"
  by (simp_all add: read_os_epoch_def Let_def split_beta)

end
