(* ===== verification/Uwb_Ccp_System.thy ===== *)
theory Uwb_Ccp_System
  imports Uwb_Ccp_Facts
begin

text \<open>
  A node as a system of steps: the timer interrupt, the task's timer events up to their waits, the
  ends of the waits, the device's callbacks, and the application's start and stop. The theorem of
  this theory: the steps keep the service well-formed, its timer is never linked twice, no
  assert fails, and an enabled service always has its next event on the way.
\<close>

unbundle bit_operations_syntax

section \<open>Well-formed nodes\<close>

definition ccp_ok :: "'x ccp_node \<Rightarrow> bool" where
  "ccp_ok s \<longleftrightarrow> cc_sem (cn_ccp s) \<le> 1 \<and> 1 < cc_nframes (cn_ccp s) \<and>
     length (cc_frames (cn_ccp s)) = unat (cc_nframes (cn_ccp s)) \<and> (\<forall>m \<in> set (cc_frames (cn_ccp s)). length m = sizeof_ccp_frame)"

definition armed :: "'x ccp_node \<Rightarrow> bool" where
  "armed s \<longleftrightarrow> 0 \<in> set (timers s)"

definition linked_ok :: "'x ccp_node \<Rightarrow> bool" where
  "linked_ok s \<longleftrightarrow> distinct (timers s) \<and> (ht_linked s 0 \<longleftrightarrow> armed s)"

text \<open>
  The handler fits the role; the timer is armed or its event posted, not both; at rest the
  semaphore is free, and the service, if enabled, has its next event on the way; a master
  in its wait has armed the timer for the next period or will, when it wakes up.
\<close>

definition ccp_inv :: "ccp_pc \<times> 'x ccp_node \<Rightarrow> bool" where
  "ccp_inv = (\<lambda>(pc, s).
     (let c = cn_ccp s; st = cc_status c; pending = (armed s \<or> cn_posted s)
      in ccp_ok s \<and> linked_ok s \<and> \<not> (armed s \<and> cn_posted s) \<and>
         (cc_timer_event c \<noteq> None \<longrightarrow> (cc_timer_event c = Some CCP_ROLE_MASTER \<longleftrightarrow> cc_role c = CCP_ROLE_MASTER)) \<and>
         (pending \<or> pc \<noteq> Task_idle \<longrightarrow> cc_timer_event c \<noteq> None) \<and>
         (case pc of
            Task_idle \<Rightarrow> cc_sem c = 1 \<and> (cs_enabled st \<longrightarrow> pending)
          | Master_sending \<Rightarrow> cc_role c = CCP_ROLE_MASTER \<and> (cc_sem c = 0 \<longrightarrow> \<not> cs_timer_restarted st) \<and>
              (cs_timer_restarted st \<longrightarrow> cs_enabled st \<longrightarrow> pending) \<and> (\<not> cs_timer_restarted st \<longrightarrow> \<not> pending)
          | Slave_listening _ \<Rightarrow> cc_role c \<noteq> CCP_ROLE_MASTER \<and> \<not> pending)))"

section \<open>Steps\<close>

datatype ccp_op =
    Timer_irq
  | Timer_event wait_end wait_end "u32 \<times> u32 \<times> u32"
  | Wait_ends wait_end "u32 \<times> u32 \<times> u32"
  | Cb_rx_complete ccp_clock
  | Cb_tx_complete ccp_clock
  | Cb_error
  | Cb_rx_timeout
  | Cb_reset
  | App_start uwb_ccp_role_t "u32 \<times> u32 \<times> u32"
  | App_stop u32
  | Device "uwb_dev \<Rightarrow> uwb_dev"

text \<open>
  The task serves a posted event at rest; a wait without limit ends by a token only. A service
  is started at rest, with no event of an earlier start on the way, and in a role its handler was
  made for. The hardware changes the device at any time.
\<close>

definition ccp_enabled :: "ccp_op \<Rightarrow> ccp_pc \<times> 'x ccp_node \<Rightarrow> bool" where
  "ccp_enabled op = (\<lambda>(pc, s).
     (case op of
        Timer_irq \<Rightarrow> timers s \<noteq> [] \<and> hd (timers s) = 0
      | Timer_event w1 w2 _ \<Rightarrow> pc = Task_idle \<and> cn_posted s \<and> w1 = Got_token \<and> w2 = Got_token
      | Wait_ends w _ \<Rightarrow> (if w = Got_token then pc \<noteq> Task_idle \<and> cc_sem (cn_ccp s) = 1 else \<exists>b. pc = Slave_listening b)
      | App_start role _ \<Rightarrow> pc = Task_idle \<and> \<not> armed s \<and> \<not> cn_posted s \<and>
          (cc_timer_event (cn_ccp s) \<noteq> None \<longrightarrow> (cc_timer_event (cn_ccp s) = Some CCP_ROLE_MASTER \<longleftrightarrow> role = CCP_ROLE_MASTER))
      | _ \<Rightarrow> True))"

definition ccp_step :: "'x ccp_build \<Rightarrow> ccp_op \<Rightarrow> ccp_pc \<times> 'x ccp_node \<Rightarrow> (ccp_pc \<times> 'x ccp_node) option" where
  "ccp_step B op = (\<lambda>(pc, s).
     (case op of
        Timer_irq \<Rightarrow> Some (pc, ccp_timer_irq (pop_timer 0 s))
      | Timer_event w1 w2 now \<Rightarrow>
          (case now of (n1, _, _) \<Rightarrow>
             if cc_timer_event (cn_ccp s) = Some CCP_ROLE_MASTER then ccp_master_timer_ev B w1 n1 (s\<lparr>cn_posted := False\<rparr>)
             else ccp_slave_timer_ev B w1 w2 now (s\<lparr>cn_posted := False\<rparr>))
      | Wait_ends w now \<Rightarrow>
          (case now of (n1, _, _) \<Rightarrow>
             (case pc of
                Task_idle \<Rightarrow> None
              | Master_sending \<Rightarrow> map_option (Pair Task_idle) (ccp_master_timer_ev_finish B w n1 s)
              | Slave_listening _ \<Rightarrow> map_option (Pair Task_idle) (ccp_slave_timer_ev_finish B w now s)))
      | Cb_rx_complete k \<Rightarrow> Some (pc, snd (ccp_rx_complete_cb B k s))
      | Cb_tx_complete k \<Rightarrow> map_option (\<lambda>r. (pc, snd r)) (ccp_tx_complete_cb B k s)
      | Cb_error \<Rightarrow> Some (pc, snd (ccp_error_cb B s))
      | Cb_rx_timeout \<Rightarrow> Some (pc, snd (ccp_rx_timeout_cb B s))
      | Cb_reset \<Rightarrow> Some (pc, snd (ccp_reset_cb s))
      | App_start role now \<Rightarrow> map_option (Pair pc) (uwb_ccp_start B role now s)
      | App_stop now \<Rightarrow> Some (pc, uwb_ccp_stop B now s)
      | Device f \<Rightarrow> Some (pc, on_cdev f s)))"

fun ccp_run :: "'x ccp_build \<Rightarrow> ccp_op list \<Rightarrow> ccp_pc \<times> 'x ccp_node \<Rightarrow> (ccp_pc \<times> 'x ccp_node) option" where
  "ccp_run B [] c = Some c"
| "ccp_run B (op # ops) c = Option.bind (ccp_step B op c) (ccp_run B ops)"

text \<open>A schedule all of whose steps are enabled where they are taken.\<close>

fun ccp_fair :: "'x ccp_build \<Rightarrow> ccp_op list \<Rightarrow> ccp_pc \<times> 'x ccp_node \<Rightarrow> bool" where
  "ccp_fair B [] c = True"
| "ccp_fair B (op # ops) c = (ccp_enabled op c \<and> (case ccp_step B op c of None \<Rightarrow> True | Some c' \<Rightarrow> ccp_fair B ops c'))"

section \<open>What the parts of the handlers change\<close>

text \<open>
  \<open>same_core\<close>: the fields the invariant reads are the same; frames only keep their sizes.
\<close>

definition same_core :: "'x ccp_node \<Rightarrow> 'x ccp_node \<Rightarrow> bool" where
  "same_core s' s \<longleftrightarrow>
     (let c = cn_ccp s; c' = cn_ccp s'
      in cc_sem c' = cc_sem c \<and> cc_nframes c' = cc_nframes c \<and> map length (cc_frames c') = map length (cc_frames c) \<and>
         cc_role c' = cc_role c \<and> cc_timer_event c' = cc_timer_event c \<and>
         cs_enabled (cc_status c') = cs_enabled (cc_status c) \<and> cs_timer_restarted (cc_status c') = cs_timer_restarted (cc_status c) \<and>
         timers s' = timers s \<and> ht_linked s' = ht_linked s \<and> cn_posted s' = cn_posted s)"

lemma same_core_refl [simp]: "same_core s s"
  by (simp add: same_core_def)

lemma same_core_trans: "same_core s2 s1 \<Longrightarrow> same_core s3 s2 \<Longrightarrow> same_core s3 s1"
  by (simp add: same_core_def Let_def)

lemma map_length_sizes:
  assumes "map length xs = map length ys"
  shows "(\<forall>m \<in> set xs. length m = n) \<longleftrightarrow> (\<forall>m \<in> set ys. length m = n)"
proof -
  have "length ` set xs = length ` set ys" using assms by (metis set_map)
  then show ?thesis by (metis (no_types, lifting) imageE imageI)
qed

lemma same_core_ok:
  assumes "same_core s' s"
  shows "ccp_ok s' = ccp_ok s" "armed s' = armed s" "linked_ok s' = linked_ok s"
  using assms map_length_sizes[of "cc_frames (cn_ccp s')" "cc_frames (cn_ccp s)" sizeof_ccp_frame]
    map_eq_imp_length_eq[of length "cc_frames (cn_ccp s')" length "cc_frames (cn_ccp s)"]
  unfolding same_core_def ccp_ok_def linked_ok_def armed_def Let_def by (metis, metis, metis)

lemma same_core_inv: "same_core s' s \<Longrightarrow> ccp_inv (pc, s') = ccp_inv (pc, s)"
  using same_core_ok[of s' s] unfolding ccp_inv_def Let_def prod.case by (cases pc; simp add: same_core_def Let_def)

lemma same_core_steps [simp]:
  "same_core (on_cdev f s) s" "same_core (CCP_STATS_INC x s) s" "same_core (CCP_STATS_SET x n s) s"
  "same_core (superframe_callbacks B s) s" "same_core (post_postprocess s) s" "same_core (read_os_epoch k t s) s"
  "(\<And>m. length (g m) = length m) \<Longrightarrow> same_core (on_ccp_frame i g s) s"
  by (simp_all add: same_core_def Let_def read_os_epoch_fields on_ccp_frame_def map_update)
    (metis list_update_id map_update nth_map list_update_beyond linorder_not_less length_map)

text \<open>The same of an instance, and the rules that carry it through a handler, from its last step to its first.\<close>

definition same_inst :: "uwb_ccp_instance \<Rightarrow> uwb_ccp_instance \<Rightarrow> bool" where
  "same_inst c' c \<longleftrightarrow>
     cc_sem c' = cc_sem c \<and> cc_nframes c' = cc_nframes c \<and> map length (cc_frames c') = map length (cc_frames c) \<and>
     cc_role c' = cc_role c \<and> cc_timer_event c' = cc_timer_event c \<and>
     cs_enabled (cc_status c') = cs_enabled (cc_status c) \<and> cs_timer_restarted (cc_status c') = cs_timer_restarted (cc_status c)"

lemma same_core_on_ccp: "(\<And>c. same_inst (f c) c) \<Longrightarrow> same_core (on_ccp f s) s"
  by (simp add: same_core_def same_inst_def Let_def)

lemmas core_steps = same_core_refl same_core_steps[THEN same_core_trans[rotated]] same_core_on_ccp[THEN same_core_trans[rotated]]

lemma same_inst_validate: "same_inst (ccp_validate n m c) c"
  by (simp add: ccp_validate_def same_inst_def Let_def)

lemma core_on_cst:
  assumes "same_core s' s" and "\<And>c. cs_enabled (f c) = cs_enabled c" and "\<And>c. cs_timer_restarted (f c) = cs_timer_restarted c"
  shows "same_core (on_cst f s') s"
  unfolding on_cst_def using assms by (intro core_steps) (simp_all add: same_inst_def)

lemma core_adjust: "same_core s' s \<Longrightarrow> same_core (adjust_for_epoch_to_rm e s') s"
  unfolding adjust_for_epoch_to_rm_def by (intro core_steps) (simp_all add: same_inst_def)

lemma core_tof: "same_core s' s \<Longrightarrow> same_core (ccp_compensate_tof B i s') s"
  unfolding ccp_compensate_tof_def Let_def by (cases "cc_tof_comp_cb (cn_ccp s')"; simp) (intro core_steps; simp add: same_inst_def)

lemma core_relay: "same_core s' s \<Longrightarrow> same_core (ccp_compensate_relay B i s') s"
  unfolding ccp_compensate_relay_def Let_def
  by (cases "cf_rpt_count (ccp_frame i s') = 0") (simp, simp only: if_False, (rule core_steps; (simp only: cf_length same_inst_def; simp)?)+)

lemma core_relay_frame: "same_core s' s \<Longrightarrow> same_core (ccp_relay_frame B m s') s"
  unfolding ccp_relay_frame_def Let_def by (intro core_steps core_on_cst) simp_all

lemma core_take_epochs: "same_core s' s \<Longrightarrow> same_core (ccp_take_epochs B k i s') s"
  unfolding ccp_take_epochs_def ccp_read_epochs_def Let_def
  by (intro core_relay core_tof core_adjust core_steps core_on_cst) (simp_all add: same_inst_validate, simp_all add: same_inst_def)

lemma core_missed: "same_core s' s \<Longrightarrow> same_core (ccp_missed B s') s"
proof -
  assume *: "same_core s' s"
  have "same_core (issue_superframe B u) u" for u :: "'a ccp_node"
    unfolding issue_superframe_def Let_def by (auto intro!: core_steps simp: same_inst_def)
  moreover have "same_core (on_ccp (\<lambda>c. c\<lparr>cc_missed_frames := cc_missed_frames c + 1\<rparr>) s') s"
    by (intro core_steps *) (simp add: same_inst_def)
  ultimately show ?thesis unfolding ccp_missed_def Let_def by (auto intro: same_core_trans)
qed

section \<open>The callbacks keep the invariant\<close>

text \<open>A callback that releases the waiting task: the timer is as before.\<close>

lemma release_inv:
  assumes "ccp_inv (pc, s)" and "same_core s' s" and "cc_sem (cn_ccp s) = 0"
  shows "ccp_inv (pc, ccp_release s')"
proof -
  have "ccp_inv (pc, s')" and "cc_sem (cn_ccp s') = 0"
    using assms same_core_inv[of s' s pc] by (simp_all add: same_core_def Let_def)
  then show ?thesis
    unfolding ccp_release_def
    by (cases pc) (auto simp: ccp_inv_def ccp_ok_def linked_ok_def armed_def Let_def dpl_sem_release_def)
qed

lemma ccp_inv_sem: "ccp_inv (pc, s) \<Longrightarrow> cc_sem (cn_ccp s) \<le> 1"
  by (simp add: ccp_inv_def ccp_ok_def Let_def)

lemma count_0: "ccp_inv (pc, s) \<Longrightarrow> dpl_sem_get_count (cc_sem (cn_ccp s)) = 0 \<longleftrightarrow> cc_sem (cn_ccp s) = 0"
  by (rule get_count_binary(2)) (rule ccp_inv_sem)

lemma count_1: "ccp_inv (pc, s) \<Longrightarrow> dpl_sem_get_count (cc_sem (cn_ccp s)) = 1 \<longleftrightarrow> cc_sem (cn_ccp s) = 1"
  by (rule get_count_binary(1)) (rule ccp_inv_sem)

lemma inv_step: "ccp_inv (pc, s) \<Longrightarrow> same_core s' s \<Longrightarrow> ccp_inv (pc, s')"
  by (simp add: same_core_inv)

lemma core_inc: "same_core s' s \<Longrightarrow> same_core (CCP_STATS_INC x s') s"
  by (rule core_steps(3))

lemma release_then_inc: "ccp_inv (pc, ccp_release s) \<Longrightarrow> ccp_inv (pc, CCP_STATS_INC x (ccp_release s))"
  by (erule inv_step) (rule core_inc, rule same_core_refl)

lemma error_inv:
  assumes "ccp_inv (pc, s)"
  shows "ccp_inv (pc, snd (ccp_error_cb B s))"
proof (cases "cc_sem (cn_ccp s) = 0")
  case True
  have 1: "same_core (CCP_STATS_INC Txrx_error s) s" by (rule core_inc) simp
  have 2: "same_core (ccp_missed B (on_cst (\<lambda>c. c\<lparr>cs_rx_error := True\<rparr>) (CCP_STATS_INC Txrx_error s))) s"
    by (rule core_missed, rule core_on_cst, rule 1) simp_all
  show ?thesis
    using True count_1[OF assms] release_inv[OF assms 1 True] release_inv[OF assms 2 True] by (simp add: ccp_error_cb_def Let_def)
next
  case False
  then have "cc_sem (cn_ccp s) = 1" using ccp_inv_sem[OF assms] by simp
  then show ?thesis using assms by (simp add: ccp_error_cb_def)
qed

lemma rx_timeout_inv:
  assumes "ccp_inv (pc, s)"
  shows "ccp_inv (pc, snd (ccp_rx_timeout_cb B s))"
proof (cases "cc_sem (cn_ccp s) = 0")
  case True
  have "same_core (CCP_STATS_INC Ccp_rx_timeout (ccp_missed B (on_cst (\<lambda>c. c\<lparr>cs_rx_timeout_error := True\<rparr>) s))) s"
    by (rule core_inc, rule core_missed, rule core_on_cst, rule same_core_refl) simp_all
  then show ?thesis
    using True release_inv[OF assms _ True] by (simp add: ccp_rx_timeout_cb_def)
next
  case False
  then have "cc_sem (cn_ccp s) = 1" using ccp_inv_sem[OF assms] by simp
  then show ?thesis using assms by (simp add: ccp_rx_timeout_cb_def)
qed

lemma reset_inv:
  assumes "ccp_inv (pc, s)"
  shows "ccp_inv (pc, snd (ccp_reset_cb s))"
  using assms count_0[OF assms] release_inv[OF assms same_core_refl]
  by (cases "cc_sem (cn_ccp s) = 0") (simp_all add: ccp_reset_cb_def release_then_inc)

lemma rx_complete_inv:
  assumes "ccp_inv (pc, s)"
  shows "ccp_inv (pc, snd (ccp_rx_complete_cb B k s))"
proof -
  define i where "i = ccp_slot 1 (cn_ccp s)"
  define s1 where "s1 = on_ccp_frame i (\<lambda>m. write_at m 0 (take sizeof_ccp_blink (dev_rxbuf (cn_dev s)))) s"
  define s2 where "s2 = ccp_take_epochs B k i (on_cdev (uwb_stop_rx (cb_uf B)) s1)"
  have 1: "same_core s1 s" unfolding s1_def by (intro core_steps) simp
  have 2: "same_core s2 s" unfolding s2_def by (intro core_take_epochs core_steps 1)
  have 3: "same_core (ccp_relay_frame B m s2) s" for m by (rule core_relay_frame[OF 2])
  have 4: "ccp_inv (pc, ccp_release (post_postprocess (superframe_callbacks B u)))"
    if "same_core u s" and "cc_sem (cn_ccp s) = 0" for u
    by (rule release_inv[OF assms]) (intro core_steps that)+
  have 5: "ccp_inv (pc, CCP_STATS_INC x (on_cdev f s))" "ccp_inv (pc, CCP_STATS_INC x s)" for x f
    by (rule inv_step[OF assms], intro core_steps)+
  show ?thesis
    unfolding ccp_rx_complete_cb_def Let_def i_def[symmetric] s1_def[symmetric] s2_def[symmetric]
    using assms count_0[OF assms] inv_step[OF assms 1] 4[OF 2] 4[OF 3] 5 by auto
qed

section \<open>The timer\<close>

definition restarted :: "'x ccp_node \<Rightarrow> 'x ccp_node \<Rightarrow> bool" where
  "restarted s' s \<longleftrightarrow> armed s' \<and> linked_ok s' \<and> cn_posted s' = cn_posted s \<and> cn_dev s' = cn_dev s \<and>
     cn_ccp s' = (cn_ccp s)\<lparr>cc_status := (cc_status (cn_ccp s))\<lparr>cs_timer_restarted := True\<rparr>\<rparr>"

lemma linked_ok_cong: "timers s' = timers s \<Longrightarrow> ht_linked s' = ht_linked s \<Longrightarrow> linked_ok s' = linked_ok s \<and> armed s' = armed s"
  by (simp add: linked_ok_def armed_def)

lemma timer_start_links:
  assumes "linked_ok s" and "\<not> armed s"
  obtains s' where "dpl_cputime_timer_start 0 e now s = Some s'" and "armed s'" and "linked_ok s'"
proof -
  obtain s' where "hal_timer_start_at 0 e now s = Some s'" "timers s' = insert_timer ((ht_expiry s)(0 := e)) 0 (timers s)"
    "ht_linked s' = (ht_linked s)(0 := True)"
    using start_at_queue[of 0 s e now] assms(2) by (auto simp: armed_def)
  with that[of s'] assms show ?thesis by (simp add: dpl_cputime_timer_start_def armed_def linked_ok_def)
qed

lemma timer_start_ok:
  assumes "linked_ok s" and "\<not> armed s"
  obtains s' where "ccp_timer_start e now s = Some s'" and "restarted s' s"
proof -
  obtain u where u: "dpl_cputime_timer_start 0 e now s = Some u" and "armed u" "linked_ok u" by (rule timer_start_links[OF assms])
  then have "restarted (on_cst (\<lambda>c. c\<lparr>cs_timer_restarted := True\<rparr>) u) s"
    using linked_ok_cong[of "on_cst (\<lambda>c. c\<lparr>cs_timer_restarted := True\<rparr>) u" u] start_timer_fields[OF u]
    by (simp add: restarted_def on_cst_def)
  then show ?thesis using that u by (simp add: ccp_timer_start_def)
qed

lemma timer_stop_ok:
  assumes "linked_ok s"
  shows "linked_ok (dpl_cputime_timer_stop 0 now s)" and "\<not> armed (dpl_cputime_timer_stop 0 now s)"
  using assms stop_queue[of s 0 now] by (auto simp: linked_ok_def armed_def dpl_cputime_timer_stop_def)

text \<open>The transmission is over: the waiting master's timer is armed and the task released.\<close>

lemma tx_complete_inv:
  assumes "ccp_inv (pc, s)"
  shows "\<exists>r s'. ccp_tx_complete_cb B k s = Some (r, s') \<and> ccp_inv (pc, s')"
proof (cases "cc_sem (cn_ccp s) = 0 \<and> cc_role (cn_ccp s) = CCP_ROLE_MASTER")
  case False
  have "ccp_inv (pc, CCP_STATS_INC Ccp_tx_complete s)" by (rule inv_step[OF assms]) (rule core_inc, simp)
  moreover have "cc_sem (cn_ccp s) = 0 \<or> cc_sem (cn_ccp s) = 1" using ccp_inv_sem[OF assms] by linarith
  ultimately show ?thesis using False assms by (auto simp: ccp_tx_complete_cb_def Let_def)
next
  case True
  define s1 where "s1 = on_ccp (\<lambda>c. c\<lparr>cc_idx := cc_idx c + 1\<rparr>) (CCP_STATS_INC Ccp_tx_complete s)"
  define m where "m = ccp_frame (ccp_slot 0 (cn_ccp s1)) s1"
  define ts where "ts = cf_transmission_timestamp m"
  define s2 where "s2 = adjust_for_epoch_to_rm (cf_epoch_to_rm_us m) (on_ccp (\<lambda>c. c\<lparr>cc_local_epoch := ts_lo ts, cc_master_epoch := ts,
    cc_period := ucast (drop_bit 16 (cf_transmission_interval m))\<rparr>) (read_os_epoch k (ts_lo ts) s1))"
  define fin where "fin = (\<lambda>u. let v = post_postprocess (superframe_callbacks B (on_cst (\<lambda>c. c\<lparr>cs_valid := (cs_valid c \<or> cc_idx (cn_ccp u) > 1)\<rparr>) u))
    in if dpl_sem_get_count (cc_sem (cn_ccp v)) = 0 then ccp_release v else v)"
  have pc: "pc = Master_sending" using assms True by (cases pc) (auto simp: ccp_inv_def Let_def)
  have "same_core s2 s" unfolding s2_def s1_def by (intro core_adjust core_steps) (simp_all add: same_inst_def)
  then have inv: "ccp_inv (pc, s2)" and sem: "cc_sem (cn_ccp s2) = 0" and role: "cc_role (cn_ccp s2) = CCP_ROLE_MASTER"
    using assms True by (auto intro: inv_step simp: same_core_def Let_def)
  have free: "linked_ok s2" "\<not> armed s2" "\<not> cn_posted s2" "\<not> cs_timer_restarted (cc_status (cn_ccp s2))"
    using inv sem pc by (auto simp: ccp_inv_def Let_def)
  have v: "same_core (post_postprocess (superframe_callbacks B (on_cst (\<lambda>c. c\<lparr>cs_valid := (cs_valid c \<or> cc_idx (cn_ccp u) > 1)\<rparr>) u))) u" for u :: "'a ccp_node"
    by (intro core_steps core_on_cst) simp_all
  have fin_inv: "ccp_inv (pc, fin u)" if "u = s2 \<or> restarted u s2" for u
  proof -
    define w where "w = post_postprocess (superframe_callbacks B (on_cst (\<lambda>c. c\<lparr>cs_valid := (cs_valid c \<or> cc_idx (cn_ccp u) > 1)\<rparr>) u))"
    have "ccp_inv (pc, ccp_release u)"
      using that
    proof
      assume "u = s2"
      then show ?thesis using release_inv[OF inv same_core_refl sem] by simp
    next
      assume "restarted u s2"
      then show ?thesis using inv sem free(3) pc
        by (auto simp: restarted_def ccp_inv_def Let_def ccp_ok_def ccp_release_def dpl_sem_release_def linked_ok_def armed_def)
    qed
    moreover have "same_core (ccp_release w) (ccp_release u)"
      using v[of u] by (simp add: w_def[symmetric] same_core_def Let_def ccp_release_def)
    moreover have "cc_sem (cn_ccp w) = 0"
      using v[of u] that sem by (auto simp: w_def[symmetric] same_core_def Let_def restarted_def)
    then have "fin u = ccp_release w" unfolding fin_def Let_def w_def[symmetric] by simp
    ultimately show ?thesis by (simp add: inv_step)
  qed
  have "ccp_tx_complete_cb B k s =
      (case (if cs_timer_enabled (cc_status (cn_ccp s2)) then ccp_timer_start (master_next_timer B s2) (ck_now k) s2 else Some s2) of
         None \<Rightarrow> None | Some u \<Rightarrow> Some (False, fin u))"
    using True unfolding ccp_tx_complete_cb_def s2_def ts_def m_def s1_def fin_def Let_def by simp
  moreover obtain u where "ccp_timer_start (master_next_timer B s2) (ck_now k) s2 = Some u" "restarted u s2"
    by (rule timer_start_ok[OF free(1,2)])
  ultimately show ?thesis using fin_inv by auto
qed

section \<open>The task\<close>

lemma pend_ok:
  "cc_sem (cn_ccp s) = 1 \<Longrightarrow> ccp_pend Got_token s = Some (on_ccp (\<lambda>c. c\<lparr>cc_sem := 0\<rparr>) s)"
  by (simp add: ccp_pend_def dpl_sem_pend_def)

lemma ccp_slot_less: "ccp_ok s \<Longrightarrow> ccp_slot k (cn_ccp s) < length (cc_frames (cn_ccp s))"
  by (simp add: ccp_ok_def ccp_slot_def word_less_nat_alt)

text \<open>A call either leaves the semaphore free or taken, and everything else of the invariant as it was.\<close>

lemma listen_start_core:
  assumes "cc_sem (cn_ccp s) = 1"
  obtains r s' where "ccp_listen_start B dx Got_token s = Some (r, s')"
    and "same_core s' (on_ccp (\<lambda>c. c\<lparr>cc_sem := (case r of Call_done \<Rightarrow> 1 | Call_waiting \<Rightarrow> 0)\<rparr>) s)"
proof -
  define s1 where "s1 = on_ccp (\<lambda>c. c\<lparr>cc_sem := 0\<rparr>) (on_cdev (uwb_phy_forcetrxoff (cb_uf B)) s)"
  define s2 where "s2 = on_cdev (uwb_start_rx (cb_uf B)) (on_cst (\<lambda>c. c\<lparr>cs_rx_timeout_error := False\<rparr>)
    (if dx \<noteq> 0 then on_cdev (uwb_set_delay_start (cb_uf B) dx) (CCP_STATS_INC Ccp_listen s1) else CCP_STATS_INC Ccp_listen s1))"
  define s3 where "s3 = on_cst (\<lambda>c. c\<lparr>cs_start_rx_error := st_start_rx_error (dev_status (cn_dev s2))\<rparr>) s2"
  have "same_core s1 (on_ccp (\<lambda>c. c\<lparr>cc_sem := 0\<rparr>) s)" by (simp add: s1_def same_core_def Let_def)
  then have 2: "same_core s3 (on_ccp (\<lambda>c. c\<lparr>cc_sem := 0\<rparr>) s)"
    unfolding s2_def s3_def by (auto intro!: core_on_cst core_steps)
  have 3: "same_core (ccp_release (CCP_STATS_INC x (CCP_STATS_SET y n s3))) (on_ccp (\<lambda>c. c\<lparr>cc_sem := 1\<rparr>) s)" for x y n
    using 2 by (simp add: same_core_def Let_def ccp_release_def dpl_sem_release_def)
  have 4: "same_core (CCP_STATS_SET y n s3) (on_ccp (\<lambda>c. c\<lparr>cc_sem := 0\<rparr>) s)" for y n
    using 2 by (rule core_steps(4))
  have p: "ccp_pend Got_token (on_cdev (uwb_phy_forcetrxoff (cb_uf B)) s) = Some s1"
    using assms by (simp add: pend_ok s1_def)
  show ?thesis
  proof (cases "st_start_rx_error (dev_status (cn_dev s2))")
    case True
    then show ?thesis
      using that[of Call_done] 3 unfolding ccp_listen_start_def Let_def p option.case s2_def[symmetric] s3_def[symmetric] by simp
  next
    case False
    then show ?thesis
      using that[of Call_waiting] 2 4 unfolding ccp_listen_start_def Let_def p option.case s2_def[symmetric] s3_def[symmetric]
      by (cases "dx = 0") simp_all
  qed
qed

lemma core_prepare: "same_core s' s \<Longrightarrow> same_core (snd (ccp_prepare_blink B s')) s"
  unfolding ccp_prepare_blink_def Let_def snd_conv by (intro core_steps) (simp_all add: same_inst_def)

lemma core_skip: "same_core s' s \<Longrightarrow> same_core (ccp_skip_blink B i t s') s"
  unfolding ccp_skip_blink_def Let_def by (auto intro!: core_steps simp: same_inst_def)

lemma send_start_core:
  assumes "cc_sem (cn_ccp s) = 1"
  obtains r s' where "ccp_send_start B Got_token s = Some (r, s')"
    and "same_core s' (on_ccp (\<lambda>c. c\<lparr>cc_sem := (case r of Call_done \<Rightarrow> 1 | Call_waiting \<Rightarrow> 0)\<rparr>) s)"
proof -
  define t where "t = on_ccp (\<lambda>c. c\<lparr>cc_sem := 0\<rparr>) s"
  define s1 where "s1 = on_ccp (\<lambda>c. c\<lparr>cc_sem := 0\<rparr>) (on_cdev (uwb_phy_forcetrxoff (cb_uf B)) (CCP_STATS_INC Ccp_send s))"
  define s2 where "s2 = on_cdev (uwb_start_tx (cb_uf B)) (snd (ccp_prepare_blink B s1))"
  define s3 where "s3 = on_cst (\<lambda>c. c\<lparr>cs_start_tx_error := st_start_tx_error (dev_status (cn_dev s2))\<rparr>) s2"
  have p: "ccp_pend Got_token (on_cdev (uwb_phy_forcetrxoff (cb_uf B)) (CCP_STATS_INC Ccp_send s)) = Some s1"
    using assms by (simp add: pend_ok s1_def)
  have "same_core s1 t" by (simp add: s1_def t_def same_core_def Let_def)
  then have 3: "same_core s3 t"
    unfolding s2_def s3_def by (intro core_on_cst core_steps core_prepare) simp_all
  have rel: "same_core (ccp_release u) (on_ccp (\<lambda>c. c\<lparr>cc_sem := 1\<rparr>) s)" if "same_core u t" for u
    using that by (simp add: same_core_def Let_def ccp_release_def dpl_sem_release_def t_def)
  have 4: "same_core (CCP_STATS_SET x n s3) t" for x n by (rule core_steps(4)[OF 3])
  show ?thesis
  proof (cases "st_start_tx_error (dev_status (cn_dev s2))")
    case True
    then show ?thesis
      using that[of Call_done] rel[OF core_skip[OF 3]]
      unfolding ccp_send_start_def Let_def p option.case split_beta s2_def[symmetric] s3_def[symmetric] by simp
  next
    case False
    then show ?thesis
      using that[of Call_waiting] 4
      unfolding ccp_send_start_def Let_def p option.case split_beta s2_def[symmetric] s3_def[symmetric] t_def[symmetric] by (simp add: t_def)
  qed
qed

lemma ccp_invI_simps:
  "ccp_inv (pc, s) \<longleftrightarrow> ccp_ok s \<and> linked_ok s \<and> \<not> (armed s \<and> cn_posted s) \<and>
     (cc_timer_event (cn_ccp s) \<noteq> None \<longrightarrow> (cc_timer_event (cn_ccp s) = Some CCP_ROLE_MASTER \<longleftrightarrow> cc_role (cn_ccp s) = CCP_ROLE_MASTER)) \<and>
     (armed s \<or> cn_posted s \<or> pc \<noteq> Task_idle \<longrightarrow> cc_timer_event (cn_ccp s) \<noteq> None) \<and>
     (case pc of
        Task_idle \<Rightarrow> cc_sem (cn_ccp s) = 1 \<and> (cs_enabled (cc_status (cn_ccp s)) \<longrightarrow> armed s \<or> cn_posted s)
      | Master_sending \<Rightarrow> cc_role (cn_ccp s) = CCP_ROLE_MASTER \<and> (cc_sem (cn_ccp s) = 0 \<longrightarrow> \<not> cs_timer_restarted (cc_status (cn_ccp s))) \<and>
          (cs_timer_restarted (cc_status (cn_ccp s)) \<longrightarrow> cs_enabled (cc_status (cn_ccp s)) \<longrightarrow> armed s \<or> cn_posted s) \<and>
          (\<not> cs_timer_restarted (cc_status (cn_ccp s)) \<longrightarrow> \<not> (armed s \<or> cn_posted s))
      | Slave_listening _ \<Rightarrow> cc_role (cn_ccp s) \<noteq> CCP_ROLE_MASTER \<and> \<not> (armed s \<or> cn_posted s))"
  by (simp add: ccp_inv_def Let_def)

text \<open>The timer armed from a state in which the task is done, and nothing is on the way.\<close>

lemma rearmed_inv:
  assumes "restarted u s" and "ccp_ok s" and "cc_sem (cn_ccp s) = 1" and "\<not> cn_posted s" and "cc_timer_event (cn_ccp s) \<noteq> None"
    and "cc_timer_event (cn_ccp s) = Some CCP_ROLE_MASTER \<longleftrightarrow> cc_role (cn_ccp s) = CCP_ROLE_MASTER"
  shows "ccp_inv (Task_idle, u)"
  using assms by (simp add: ccp_invI_simps restarted_def ccp_ok_def)

text \<open>At rest with nothing on the way: the same, or, if the service is disabled, that state itself.\<close>

definition at_rest :: "'x ccp_node \<Rightarrow> bool" where
  "at_rest s \<longleftrightarrow> ccp_ok s \<and> linked_ok s \<and> \<not> armed s \<and> \<not> cn_posted s \<and> cc_sem (cn_ccp s) = 1 \<and> cc_timer_event (cn_ccp s) \<noteq> None \<and>
     (cc_timer_event (cn_ccp s) = Some CCP_ROLE_MASTER \<longleftrightarrow> cc_role (cn_ccp s) = CCP_ROLE_MASTER)"

lemma at_rest_core: "at_rest s \<Longrightarrow> same_core s' s \<Longrightarrow> at_rest s'"
  using same_core_ok[of s' s] by (simp add: at_rest_def) (simp add: same_core_def Let_def)

lemma at_rest_disabled: "at_rest s \<Longrightarrow> \<not> cs_enabled (cc_status (cn_ccp s)) \<Longrightarrow> ccp_inv (Task_idle, s)"
  by (simp add: at_rest_def ccp_invI_simps)

lemma at_rest_starts:
  assumes "at_rest s"
  obtains u where "ccp_timer_start e now s = Some u" and "ccp_inv (Task_idle, u)"
proof -
  obtain u where "ccp_timer_start e now s = Some u" and "restarted u s"
    using timer_start_ok[of s e now] assms by (auto simp: at_rest_def)
  then show ?thesis using that rearmed_inv[of u s] assms by (simp add: at_rest_def)
qed

lemma master_rearm_ok:
  assumes "at_rest s" and "\<not> cs_timer_restarted (cc_status (cn_ccp s))"
  obtains u where "master_rearm B now s = Some u" and "ccp_inv (Task_idle, u)"
  using assms at_rest_starts[OF assms(1), of "master_next_timer B s" now] at_rest_disabled[OF assms(1)]
  by (cases "cs_enabled (cc_status (cn_ccp s))") (auto simp: master_rearm_def Let_def)

lemma master_event_ok:
  assumes "at_rest s" and "cc_timer_event (cn_ccp s) = Some CCP_ROLE_MASTER"
  obtains pc' s' where "ccp_master_timer_ev B Got_token now s = Some (pc', s')" and "ccp_inv (pc', s')"
proof (cases "cs_enabled (cc_status (cn_ccp s))")
  case False
  then show ?thesis using that[of Task_idle s] at_rest_disabled[OF assms(1)] by (simp add: ccp_master_timer_ev_def)
next
  case True
  define s1 where "s1 = on_cst (\<lambda>c. c\<lparr>cs_timer_restarted := False\<rparr>) (CCP_STATS_INC Master_cnt s)"
  have 1: "at_rest s1" "\<not> cs_timer_restarted (cc_status (cn_ccp s1))" and e1: "cc_timer_event (cn_ccp s1) = Some CCP_ROLE_MASTER"
    using assms by (simp_all add: s1_def at_rest_def on_cst_def ccp_ok_def linked_ok_def armed_def)
  have sem1: "cc_sem (cn_ccp s1) = 1" using 1 by (simp add: at_rest_def)
  obtain r s2 where start: "ccp_send_start B Got_token s1 = Some (r, s2)"
    and core: "same_core s2 (on_ccp (\<lambda>c. c\<lparr>cc_sem := (case r of Call_done \<Rightarrow> 1 | Call_waiting \<Rightarrow> 0)\<rparr>) s1)"
    by (rule send_start_core[OF sem1])
  show ?thesis
  proof (cases r)
    case Call_waiting
    have "ccp_inv (Master_sending, on_ccp (\<lambda>c. c\<lparr>cc_sem := 0\<rparr>) s1)"
      using 1 e1 by (simp add: at_rest_def ccp_invI_simps ccp_ok_def linked_ok_def armed_def)
    with core Call_waiting have "ccp_inv (Master_sending, s2)" by (auto intro: inv_step)
    then show ?thesis using that[of Master_sending s2] True start Call_waiting by (simp add: ccp_master_timer_ev_def s1_def)
  next
    case Call_done
    have "same_core s2 s1" using core Call_done sem1 by (simp add: same_core_def Let_def)
    then have 2: "at_rest s2" "\<not> cs_timer_restarted (cc_status (cn_ccp s2))"
      using at_rest_core[OF 1(1)] 1(2) by (simp_all add: same_core_def Let_def)
    obtain u where "master_rearm B now s2 = Some u" and "ccp_inv (Task_idle, u)" by (rule master_rearm_ok[OF 2])
    then show ?thesis using that[of Task_idle u] True start Call_done by (simp add: ccp_master_timer_ev_def s1_def)
  qed
qed

lemma master_finish_ok:
  assumes "ccp_inv (Master_sending, s)" and "cc_sem (cn_ccp s) = 1"
  obtains s' where "ccp_master_timer_ev_finish B Got_token now s = Some s'" and "ccp_inv (Task_idle, s')"
proof -
  define s1 where "s1 = ccp_release (on_ccp (\<lambda>c. c\<lparr>cc_sem := 0\<rparr>) s)"
  have fin: "ccp_master_timer_ev_finish B Got_token now s = master_rearm B now s1"
    by (simp add: ccp_master_timer_ev_finish_def ccp_send_finish_def pend_ok[OF assms(2)] s1_def)
  have core: "same_core s1 s" using assms(2) by (simp add: s1_def same_core_def Let_def ccp_release_def dpl_sem_release_def)
  have inv: "ccp_inv (Master_sending, s1)" by (rule inv_step[OF assms(1) core])
  have sem: "cc_sem (cn_ccp s1) = 1" using core assms(2) by (simp add: same_core_def Let_def)
  show ?thesis
  proof (cases "cs_timer_restarted (cc_status (cn_ccp s1))")
    case True
    then have "ccp_inv (Task_idle, s1)" using inv sem by (simp add: ccp_invI_simps)
    then show ?thesis using that fin True by (simp add: master_rearm_def Let_def)
  next
    case False
    have "at_rest s1" using inv sem False by (simp add: at_rest_def ccp_invI_simps)
    then show ?thesis using master_rearm_ok[OF _ False] that fin by metis
  qed
qed

lemma at_rest_relative:
  assumes "at_rest s"
  obtains u where "dpl_cputime_timer_relative id 0 0 0 n1 n2 s = Some u"
    and "ccp_inv (Task_idle, on_cst (\<lambda>c. c\<lparr>cs_timer_restarted := True\<rparr>) u)" and "ccp_inv (Task_idle, u)"
proof -
  define s1 where "s1 = snd (dpl_cputime_get32 0 n1 s)"
  define e where "e = fst (dpl_cputime_get32 0 n1 s)"
  have 1: "at_rest s1"
    by (rule at_rest_core[OF assms]) (simp add: s1_def same_core_def)
  obtain u where u: "dpl_cputime_timer_start 0 e n2 s1 = Some u" "armed u" "linked_ok u"
    using timer_start_links[of s1 e n2] 1 by (auto simp: at_rest_def)
  have r: "restarted (on_cst (\<lambda>c. c\<lparr>cs_timer_restarted := True\<rparr>) u) s1"
    using linked_ok_cong[of "on_cst (\<lambda>c. c\<lparr>cs_timer_restarted := True\<rparr>) u" u] start_timer_fields[OF u(1)] u(2,3)
    by (simp add: restarted_def on_cst_def)
  have inv: "ccp_inv (Task_idle, on_cst (\<lambda>c. c\<lparr>cs_timer_restarted := True\<rparr>) u)"
    by (rule rearmed_inv[OF r]) (use 1 in \<open>simp_all add: at_rest_def\<close>)
  then have "ccp_inv (Task_idle, u)"
    by (simp add: ccp_invI_simps on_cst_def ccp_ok_def linked_ok_def armed_def)
  moreover have "dpl_cputime_timer_relative id 0 0 0 n1 n2 s = Some u"
    using u(1) by (simp add: dpl_cputime_timer_relative_def dpl_cputime_timer_start_def s1_def e_def split_beta)
  ultimately show ?thesis using that inv by blast
qed

lemma slave_reset_ok:
  assumes "at_rest s"
  obtains u where "slave_reset_timer B now s = Some u" and "ccp_inv (Task_idle, u)"
proof (cases "cs_enabled (cc_status (cn_ccp s))")
  case False
  then show ?thesis using that[of s] at_rest_disabled[OF assms] by (cases now) (simp add: slave_reset_timer_def)
next
  case True
  obtain n1 n2 n3 where now: "now = (n1, n2, n3)" by (cases now)
  define s1 where "s1 = dpl_cputime_timer_stop 0 n1 s"
  have link: "linked_ok s1" "\<not> armed s1" using timer_stop_ok[of s n1] assms by (simp_all add: s1_def at_rest_def)
  have 1: "at_rest s1" using assms link by (simp add: at_rest_def s1_def ccp_ok_def)
  have 2: "at_rest (on_cst (\<lambda>c. c\<lparr>cs_rx_timeout_error := False\<rparr>) s1)"
    by (rule at_rest_core[OF 1]) (rule core_on_cst, simp_all)
  show ?thesis
  proof (cases "cs_rx_timeout_error (cc_status (cn_ccp s1)) \<and> cb_tolerate B < cc_missed_frames (cn_ccp s1)")
    case T: True
    obtain u where "dpl_cputime_timer_relative id 0 0 0 n2 n3 s1 = Some u" "ccp_inv (Task_idle, on_cst (\<lambda>c. c\<lparr>cs_timer_restarted := True\<rparr>) u)"
      by (rule at_rest_relative[OF 1])
    then show ?thesis using that True T unfolding slave_reset_timer_def now prod.case Let_def s1_def[symmetric] by simp
  next
    case F: False
    define e where "e = cc_os_epoch (cn_ccp s1) + (dwt_to_usecs (uint (cc_period (cn_ccp s1))) - cb_os_latency B -
      ucast (cc_blink_frame_duration (cn_ccp s1)) - ucast (rx_timeToRxStable (config_rx (dev_config (cn_dev s1)))))"
    obtain u where "ccp_timer_start e n2 (on_cst (\<lambda>c. c\<lparr>cs_rx_timeout_error := False\<rparr>) s1) = Some u" "ccp_inv (Task_idle, u)"
      by (rule at_rest_starts[OF 2])
    then show ?thesis
      using that True F unfolding slave_reset_timer_def now prod.case Let_def s1_def[symmetric] e_def by (simp add: on_cst_def)
  qed
qed

lemma slave_start_ok:
  assumes "at_rest s" and "cc_role (cn_ccp s) \<noteq> CCP_ROLE_MASTER"
  obtains r s' where "ccp_listen_start B dx Got_token s = Some (r, s')"
    and "r = Call_waiting \<longrightarrow> ccp_inv (Slave_listening b, s')"
    and "r = Call_done \<longrightarrow> at_rest s' \<and> cc_role (cn_ccp s') \<noteq> CCP_ROLE_MASTER"
proof -
  have sem: "cc_sem (cn_ccp s) = 1" using assms by (simp add: at_rest_def)
  obtain r s' where r: "ccp_listen_start B dx Got_token s = Some (r, s')"
    and core: "same_core s' (on_ccp (\<lambda>c. c\<lparr>cc_sem := (case r of Call_done \<Rightarrow> 1 | Call_waiting \<Rightarrow> 0)\<rparr>) s)"
    by (rule listen_start_core[OF sem])
  have "ccp_inv (Slave_listening b, on_ccp (\<lambda>c. c\<lparr>cc_sem := 0\<rparr>) s)"
    using assms by (simp add: at_rest_def ccp_invI_simps ccp_ok_def linked_ok_def armed_def)
  then have w: "r = Call_waiting \<longrightarrow> ccp_inv (Slave_listening b, s')" using core by (auto intro: inv_step)
  have "same_core s' s" if "r = Call_done" using core that sem by (simp add: same_core_def Let_def)
  then have d: "r = Call_done \<longrightarrow> at_rest s' \<and> cc_role (cn_ccp s') \<noteq> CCP_ROLE_MASTER"
    using at_rest_core[OF assms(1)] assms(2) by (auto simp: same_core_def Let_def)
  show ?thesis by (rule that[OF r w d])
qed

lemma listen_long_ok:
  assumes "at_rest s" and "cc_role (cn_ccp s) \<noteq> CCP_ROLE_MASTER"
  obtains pc' s' where "slave_listen_long B Got_token now s = Some (pc', s')" and "ccp_inv (pc', s')"
proof -
  define s1 where "s1 = on_cdev (uwb_set_rx_timeout (cb_uf B) (cb_long_rx_to B)) s"
  have 1: "at_rest s1" "cc_role (cn_ccp s1) \<noteq> CCP_ROLE_MASTER"
    using at_rest_core[OF assms(1), of s1] assms(2) by (simp_all add: s1_def)
  obtain r s2 where r: "ccp_listen_start B 0 Got_token s1 = Some (r, s2)" "r = Call_waiting \<longrightarrow> ccp_inv (Slave_listening True, s2)"
    "r = Call_done \<longrightarrow> at_rest s2 \<and> cc_role (cn_ccp s2) \<noteq> CCP_ROLE_MASTER"
    by (rule slave_start_ok[OF 1, where B = B and dx = 0 and b = True])
  show ?thesis
  proof (cases r)
    case Call_waiting
    then show ?thesis using that r by (simp add: slave_listen_long_def s1_def)
  next
    case Call_done
    then obtain u where "slave_reset_timer B now s2 = Some u" "ccp_inv (Task_idle, u)" using slave_reset_ok r(3) by metis
    then show ?thesis using that[of Task_idle u] r(1) Call_done by (simp add: slave_listen_long_def s1_def)
  qed
qed

lemma slave_event_ok:
  assumes "at_rest s" and "cc_role (cn_ccp s) \<noteq> CCP_ROLE_MASTER"
  obtains pc' s' where "ccp_slave_timer_ev B Got_token Got_token now s = Some (pc', s')" and "ccp_inv (pc', s')"
proof -
  define s1 where "s1 = on_ccp (\<lambda>c. c\<lparr>cc_blink_frame_duration := uwb_phy_frame_duration (cb_uf B) (of_nat sizeof_ccp_blink)\<rparr>) s"
  have "same_core s1 s" by (simp add: s1_def same_core_def Let_def)
  then have 1: "at_rest s1" "cc_role (cn_ccp s1) \<noteq> CCP_ROLE_MASTER"
    using at_rest_core[OF assms(1), of s1] assms(2) by (simp_all add: s1_def)
  show ?thesis
  proof (cases "\<not> cs_enabled (cc_status (cn_ccp s1)) \<or> cs_rx_timeout_error (cc_status (cn_ccp s1))")
    case True
    show ?thesis
    proof (rule listen_long_ok[OF 1, where B = B and now = now])
      fix pc' s'
      assume "slave_listen_long B Got_token now s1 = Some (pc', s')" "ccp_inv (pc', s')"
      then show ?thesis
        using that[of Task_idle s1] that[of pc' s'] at_rest_disabled[OF 1(1)] True
        unfolding ccp_slave_timer_ev_def Let_def s1_def[symmetric] by (cases "cs_enabled (cc_status (cn_ccp s1))") simp_all
    qed
  next
    case False
    define s2 where "s2 = CCP_STATS_INC Slave_cnt s1"
    define s3 where "s3 = on_cdev (uwb_set_rx_timeout (cb_uf B) (ucast (slave_timeout B s2))) s2"
    have "same_core s3 s1" unfolding s3_def s2_def by (intro core_steps)
    then have 3: "at_rest s3" "cc_role (cn_ccp s3) \<noteq> CCP_ROLE_MASTER"
      using at_rest_core[OF 1(1), of s3] 1(2) by (simp_all add: s2_def s3_def)
    obtain r s4 where r: "ccp_listen_start B (slave_dx_time B s2) Got_token s3 = Some (r, s4)"
      "r = Call_waiting \<longrightarrow> ccp_inv (Slave_listening False, s4)" "r = Call_done \<longrightarrow> at_rest s4 \<and> cc_role (cn_ccp s4) \<noteq> CCP_ROLE_MASTER"
      by (rule slave_start_ok[OF 3, where B = B and dx = "slave_dx_time B s2" and b = False])
    have ev: "ccp_slave_timer_ev B Got_token Got_token now s =
        (case r of Call_waiting \<Rightarrow> Some (Slave_listening False, s4) | Call_done \<Rightarrow> slave_listen_long B Got_token now s4)"
      using False r(1) unfolding ccp_slave_timer_ev_def Let_def s1_def[symmetric] s2_def[symmetric] s3_def[symmetric]
      by (auto split: ccp_call.splits)
    show ?thesis
    proof (cases r)
      case Call_waiting
      then show ?thesis using that r(2) ev by simp
    next
      case Call_done
      obtain pc' s' where "slave_listen_long B Got_token now s4 = Some (pc', s')" "ccp_inv (pc', s')"
        by (rule listen_long_ok[of s4 B now]) (use r(3) Call_done in auto)
      then show ?thesis using that ev Call_done by simp
    qed
  qed
qed

lemma slave_finish_ok:
  assumes "ccp_inv (Slave_listening b, s)" and "w = Got_token \<Longrightarrow> cc_sem (cn_ccp s) = 1"
  obtains s' where "ccp_slave_timer_ev_finish B w now s = Some s'" and "ccp_inv (Task_idle, s')"
proof -
  have sem: "cc_sem (cn_ccp s) = 0 \<or> cc_sem (cn_ccp s) = 1" using ccp_inv_sem[OF assms(1)] by linarith
  obtain s1 where s1: "ccp_listen_finish w s = Some s1"
    and core: "same_core s1 (on_ccp (\<lambda>c. c\<lparr>cc_sem := 1\<rparr>) s)"
    using sem assms(2)
    by (cases w) (auto simp: ccp_listen_finish_def dpl_sem_pend_def Let_def same_core_def ccp_release_def dpl_sem_release_def)
  have "at_rest (on_ccp (\<lambda>c. c\<lparr>cc_sem := 1\<rparr>) s)"
    using assms(1) by (simp add: ccp_invI_simps at_rest_def ccp_ok_def linked_ok_def armed_def)
  then have "at_rest s1" using core by (rule at_rest_core)
  then show ?thesis using slave_reset_ok[of s1 B now] that s1 by (metis (no_types, lifting) bind.bind_lunit ccp_slave_timer_ev_finish_def)
qed

section \<open>The application\<close>

lemma stop_inv:
  assumes "ccp_inv (pc, s)"
  shows "ccp_inv (pc, uwb_ccp_stop B now s)"
proof -
  define s1 where "s1 = dpl_cputime_timer_stop 0 now (on_cst (\<lambda>c. c\<lparr>cs_enabled := False\<rparr>) s)"
  have "linked_ok (on_cst (\<lambda>c. c\<lparr>cs_enabled := False\<rparr>) s)"
    using assms by (simp add: ccp_invI_simps linked_ok_def armed_def on_cst_def)
  then have link: "linked_ok s1" "\<not> armed s1" using timer_stop_ok by (auto simp: s1_def)
  have ccp: "cn_ccp s1 = (cn_ccp s)\<lparr>cc_status := (cc_status (cn_ccp s))\<lparr>cs_enabled := False\<rparr>\<rparr>" "cn_posted s1 = cn_posted s"
    by (simp_all add: s1_def on_cst_def)
  have inv: "ccp_inv (pc, s1)"
    using assms link by (cases pc) (auto simp: ccp_invI_simps ccp ccp_ok_def)
  have "ccp_inv (pc, ccp_release (on_cdev (uwb_phy_forcetrxoff (cb_uf B)) s1))" if "cc_sem (cn_ccp s1) = 0"
    by (rule release_inv[OF inv _ that]) simp
  then show ?thesis
    using inv count_0[OF inv] unfolding uwb_ccp_stop_def Let_def s1_def[symmetric] by auto
qed

lemma start_core:
  "same_core (ccp_start_epochs B role n s)
     (on_cst (\<lambda>c. c\<lparr>cs_timer_restarted := cs_timer_restarted c, cs_enabled := True\<rparr>) (on_ccp (\<lambda>c. c\<lparr>cc_role := role\<rparr>) s))"
proof -
  let ?t = "on_cst (\<lambda>c. c\<lparr>cs_timer_restarted := cs_timer_restarted c, cs_enabled := True\<rparr>) (on_ccp (\<lambda>c. c\<lparr>cc_role := role\<rparr>) s)"
  have "same_core (snd (dpl_cputime_get32 0 n (on_cst (\<lambda>c. c\<lparr>cs_valid := False, cs_enabled := True\<rparr>)
      (on_ccp (\<lambda>c. c\<lparr>cc_idx := 0, cc_master_euid := 0, cc_role := role\<rparr>) s)))) ?t"
    by (simp add: same_core_def Let_def on_cst_def)
  then show ?thesis
    unfolding ccp_start_epochs_def Let_def split_beta
    by (cases "role = CCP_ROLE_MASTER") (simp, intro core_steps; simp add: same_inst_def)+
qed

lemma start_inv:
  assumes "ccp_inv (Task_idle, s)" and "\<not> armed s" and "\<not> cn_posted s"
    and "cc_timer_event (cn_ccp s) \<noteq> None \<longrightarrow> (cc_timer_event (cn_ccp s) = Some CCP_ROLE_MASTER \<longleftrightarrow> role = CCP_ROLE_MASTER)"
  obtains s' where "uwb_ccp_start B role now s = Some s'" and "ccp_inv (Task_idle, s')"
proof -
  obtain n1 n2 n3 where now: "now = (n1, n2, n3)" by (cases now)
  define t where "t = on_cst (\<lambda>c. c\<lparr>cs_timer_restarted := cs_timer_restarted c, cs_enabled := True\<rparr>) (on_ccp (\<lambda>c. c\<lparr>cc_role := role\<rparr>) s)"
  define s1 where "s1 = ccp_start_epochs B role n1 s"
  have core: "same_core s1 t"
    using start_core by (simp add: s1_def t_def)
  have s1: "uwb_ccp_start B role now s = ccp_timer_init role n2 n3 s1" by (simp add: uwb_ccp_start_def now s1_def)
  have t: "ccp_ok t" "linked_ok t" "\<not> armed t" "\<not> cn_posted t" "cc_sem (cn_ccp t) = 1" "cc_role (cn_ccp t) = role"
    "cc_timer_event (cn_ccp t) = cc_timer_event (cn_ccp s)"
    using assms by (simp_all add: t_def ccp_invI_simps ccp_ok_def linked_ok_def armed_def on_cst_def)
  define s2 where "s2 = dpl_cputime_timer_init 0 0 (on_cst (\<lambda>c. c\<lparr>cs_timer_enabled := True\<rparr>) s1)"
  define s3 where "s3 = (if cc_timer_event (cn_ccp s2) = None
    then (on_ccp (\<lambda>c. c\<lparr>cc_timer_event := Some role\<rparr>) s2)\<lparr>cn_posted := False\<rparr> else s2)"
  have s1f: "ccp_ok s1" "linked_ok s1" "\<not> armed s1" "\<not> cn_posted s1" "cc_sem (cn_ccp s1) = 1" "cc_role (cn_ccp s1) = role"
    "cc_timer_event (cn_ccp s1) = cc_timer_event (cn_ccp s)"
    using t same_core_ok[OF core] core by (simp_all add: same_core_def Let_def)
  have rest: "at_rest s3"
    using s1f assms(4)
    by (auto simp: s3_def s2_def at_rest_def dpl_cputime_timer_init_def hal_timer_set_cb_def on_cst_def ccp_ok_def linked_ok_def armed_def)
  obtain u where "dpl_cputime_timer_relative id 0 0 0 n2 n3 s3 = Some u" "ccp_inv (Task_idle, u)"
    by (rule at_rest_relative[OF rest])
  then show ?thesis using that s1 unfolding ccp_timer_init_def Let_def s2_def[symmetric] s3_def[symmetric] by simp
qed

section \<open>Every step, every run\<close>

lemma irq_inv:
  assumes "ccp_inv (pc, s)" and "timers s \<noteq> []" and "hd (timers s) = 0"
  shows "ccp_inv (pc, ccp_timer_irq (pop_timer 0 s))"
proof -
  obtain q where q: "timers s = 0 # q" using assms(2,3) by (cases "timers s") auto
  then have "armed s" "0 \<notin> set q" "distinct q" using assms(1) by (auto simp: ccp_invI_simps linked_ok_def armed_def)
  moreover have "armed (ccp_timer_irq (pop_timer 0 s)) = (0 \<in> set q)" "timers (ccp_timer_irq (pop_timer 0 s)) = q"
    "ht_linked (ccp_timer_irq (pop_timer 0 s)) 0 = False" "cn_ccp (ccp_timer_irq (pop_timer 0 s)) = cn_ccp s"
    "cn_posted (ccp_timer_irq (pop_timer 0 s))"
    using q by (simp_all add: ccp_timer_irq_def pop_timer_def on_nt_def armed_def)
  ultimately show ?thesis using assms(1) by (cases pc) (auto simp: ccp_invI_simps ccp_ok_def linked_ok_def)
qed

lemma event_at_rest:
  assumes "ccp_inv (Task_idle, s)" and "cn_posted s"
  shows "at_rest (s\<lparr>cn_posted := False\<rparr>)"
  using assms by (auto simp: ccp_invI_simps at_rest_def ccp_ok_def linked_ok_def armed_def)

lemma ccp_step_ok:
  assumes inv: "ccp_inv (pc, s)" and en: "ccp_enabled op (pc, s)"
  obtains c' where "ccp_step B op (pc, s) = Some c'" and "ccp_inv c'"
proof (cases op)
  case Timer_irq
  then show ?thesis using that irq_inv[OF inv] en by (simp add: ccp_step_def ccp_enabled_def)
next
  case (Timer_event w1 w2 now)
  obtain n1 n2 n3 where now: "now = (n1, n2, n3)" by (cases now)
  define t where "t = s\<lparr>cn_posted := False\<rparr>"
  have w: "pc = Task_idle" "w1 = Got_token" "w2 = Got_token" "cn_posted s" using en Timer_event by (simp_all add: ccp_enabled_def)
  have rest: "at_rest t" using event_at_rest inv w by (simp add: t_def)
  have ev: "cc_timer_event (cn_ccp t) = cc_timer_event (cn_ccp s)" by (simp add: t_def)
  show ?thesis
  proof (cases "cc_timer_event (cn_ccp s) = Some CCP_ROLE_MASTER")
    case True
    then obtain pc' s' where "ccp_master_timer_ev B Got_token n1 t = Some (pc', s')" "ccp_inv (pc', s')"
      using master_event_ok[OF rest] ev by metis
    then show ?thesis using that Timer_event w True by (simp add: ccp_step_def now t_def)
  next
    case False
    then have "cc_role (cn_ccp t) \<noteq> CCP_ROLE_MASTER" using rest ev by (simp add: at_rest_def)
    then obtain pc' s' where "ccp_slave_timer_ev B Got_token Got_token now t = Some (pc', s')" "ccp_inv (pc', s')"
      by (rule slave_event_ok[OF rest])
    then show ?thesis using that Timer_event w False by (simp add: ccp_step_def now t_def)
  qed
next
  case (Wait_ends w now)
  obtain n1 n2 n3 where now: "now = (n1, n2, n3)" by (cases now)
  show ?thesis
  proof (cases pc)
    case Task_idle
    then show ?thesis using en Wait_ends by (simp add: ccp_enabled_def split: if_splits)
  next
    case Master_sending
    then have "w = Got_token" "cc_sem (cn_ccp s) = 1" using en Wait_ends by (simp_all add: ccp_enabled_def split: if_splits)
    then show ?thesis using that Wait_ends Master_sending inv master_finish_ok[of s B n1] by (simp add: ccp_step_def now) blast
  next
    case (Slave_listening b)
    then have "w = Got_token \<Longrightarrow> cc_sem (cn_ccp s) = 1" using en Wait_ends by (simp add: ccp_enabled_def)
    then show ?thesis using that Wait_ends Slave_listening inv slave_finish_ok[of b s w B now] by (simp add: ccp_step_def now) blast
  qed
next
  case (Cb_tx_complete k)
  then show ?thesis using that tx_complete_inv[OF inv, of B k] by (auto simp: ccp_step_def)
next
  case (App_start role now)
  then have pc: "pc = Task_idle" using en by (simp add: ccp_enabled_def)
  have "\<exists>s'. uwb_ccp_start B role now s = Some s' \<and> ccp_inv (Task_idle, s')"
    using start_inv[of s role B now] App_start en inv pc unfolding ccp_enabled_def by auto
  then show ?thesis using that App_start pc by (auto simp: ccp_step_def)
next
  case (Device f)
  then show ?thesis using that inv by (simp add: ccp_step_def inv_step)
qed (use that inv in \<open>simp_all add: ccp_step_def rx_complete_inv error_inv rx_timeout_inv reset_inv stop_inv\<close>)

lemma ccp_run_ok:
  assumes "ccp_inv c" and "ccp_fair B ops c"
  shows "\<exists>c'. ccp_run B ops c = Some c' \<and> ccp_inv c'"
  using assms
proof (induction ops arbitrary: c)
  case (Cons op ops)
  obtain pc s where c: "c = (pc, s)" by (cases c)
  obtain c1 where "ccp_step B op c = Some c1" "ccp_inv c1"
    using ccp_step_ok[of pc s op B] Cons.prems by (auto simp: c)
  then show ?case using Cons by simp
qed simp

lemma ccp_init_inv:
  assumes "uwb_ccp_init B n s = Some s'" and "linked_ok s" and "\<not> armed s"
  shows "ccp_inv (Task_idle, s')"
  using assms
  by (auto simp: uwb_ccp_init_def calloc_ccp_def Let_def ccp_invI_simps ccp_ok_def linked_ok_def armed_def dpl_sem_init_def ccp_default_frame_def
      sizeof_ccp_frame_def split: if_splits)

text \<open>What the start does to the timer: it goes on the queue, where it must not be.\<close>

lemma start_arms:
  "ccp_timer_init role n2 n3 s = Some s' \<Longrightarrow> armed s'"
  "armed s \<Longrightarrow> ccp_timer_init role n2 n3 s = None"
proof -
  define s2 where "s2 = dpl_cputime_timer_init 0 0 (on_cst (\<lambda>c. c\<lparr>cs_timer_enabled := True\<rparr>) s)"
  define s3 where "s3 = (if cc_timer_event (cn_ccp s2) = None
    then (on_ccp (\<lambda>c. c\<lparr>cc_timer_event := Some role\<rparr>) s2)\<lparr>cn_posted := False\<rparr> else s2)"
  define u where "u = snd (dpl_cputime_get32 0 n2 s3)"
  have i: "ccp_timer_init role n2 n3 s = hal_timer_start_at 0 (fst (dpl_cputime_get32 0 n2 s3) + 0) n3 u"
    unfolding ccp_timer_init_def Let_def s2_def[symmetric] s3_def[symmetric] u_def by (simp add: dpl_cputime_timer_relative_def split_beta)
  have t: "timers u = timers s" by (simp add: u_def s3_def s2_def dpl_cputime_timer_init_def hal_timer_set_cb_def on_cst_def)
  show "armed s \<Longrightarrow> ccp_timer_init role n2 n3 s = None" unfolding i by (simp add: hal_timer_start_at_def t armed_def)
  show "armed s'" if "ccp_timer_init role n2 n3 s = Some s'"
  proof -
    have "0 \<notin> set (timers u)" using that unfolding i by (auto simp: hal_timer_start_at_def)
    then show ?thesis using start_at_queue[of 0 u "fst (dpl_cputime_get32 0 n2 s3) + 0" n3] that unfolding i by (auto simp: armed_def)
  qed
qed

lemma start_alone:
  assumes "timers s = []" and "uwb_ccp_start B role now s = Some s'"
  shows "timers s' = [0]"
proof -
  obtain n1 n2 n3 where now: "now = (n1, n2, n3)" by (cases now)
  define s1 where "s1 = ccp_start_epochs B role n1 s"
  have t: "timers s1 = []" using start_core[of B role n1 s] assms(1) by (simp add: s1_def same_core_def Let_def on_cst_def)
  define s2 where "s2 = dpl_cputime_timer_init 0 0 (on_cst (\<lambda>c. c\<lparr>cs_timer_enabled := True\<rparr>) s1)"
  define s3 where "s3 = (if cc_timer_event (cn_ccp s2) = None
    then (on_ccp (\<lambda>c. c\<lparr>cc_timer_event := Some role\<rparr>) s2)\<lparr>cn_posted := False\<rparr> else s2)"
  have t3: "timers s3 = []" using t by (simp add: s3_def s2_def dpl_cputime_timer_init_def hal_timer_set_cb_def on_cst_def)
  have "uwb_ccp_start B role now s = ccp_timer_init role n2 n3 s1" by (simp add: uwb_ccp_start_def now s1_def)
  also have "\<dots> = dpl_cputime_timer_relative id 0 0 0 n2 n3 s3" by (simp only: ccp_timer_init_def Let_def s2_def s3_def)
  finally have st: "dpl_cputime_timer_relative id 0 0 0 n2 n3 s3 = Some s'" using assms(2) by simp
  obtain e u where "hal_timer_start_at 0 e n3 u = Some s'" "timers u = []"
    using st that[of _ "snd (dpl_cputime_get32 0 n2 s3)"] t3 by (simp add: dpl_cputime_timer_relative_def split_beta)
  then show ?thesis using start_at_queue[of 0 u e n3] by auto
qed

end
