(* ===== verification/Uwb_Ccp_Epochs.thy ===== *)
theory Uwb_Ccp_Epochs
  imports Uwb_Ccp_System
begin

text \<open>
  What the master's packet says, what its sender and its receivers make of it, and what a relay
  sends on.
\<close>

unbundle bit_operations_syntax

lemma validate_simps [simp]:
  "cc_master_euid (ccp_validate n m c) = cf_euid m"
  "cc_frames (ccp_validate n m c) = cc_frames c" "cc_sem (ccp_validate n m c) = cc_sem c" "cc_nframes (ccp_validate n m c) = cc_nframes c"
  "cc_idx (ccp_validate n m c) = cc_idx c" "cc_seq_num (ccp_validate n m c) = cc_seq_num c" "cc_role (ccp_validate n m c) = cc_role c"
  "cc_tof_comp_cb (ccp_validate n m c) = cc_tof_comp_cb c" "cc_master_epoch (ccp_validate n m c) = cc_master_epoch c"
  "cc_local_epoch (ccp_validate n m c) = cc_local_epoch c" "cc_period (ccp_validate n m c) = cc_period c" "cc_os_epoch (ccp_validate n m c) = cc_os_epoch c"
  "cc_missed_frames (ccp_validate n m c) = cc_missed_frames c" "cc_postprocess (ccp_validate n m c) = cc_postprocess c"
  "cs_enabled (cc_status (ccp_validate n m c)) = cs_enabled (cc_status c)"
  by (simp_all add: ccp_validate_def Let_def)

lemma clock_unchanged [simp]: "fst (dpl_cputime_get32 0 t (on_ccp f s)) = fst (dpl_cputime_get32 0 t s)"
 "fst (dpl_cputime_get32 0 t (on_cdev g s)) = fst (dpl_cputime_get32 0 t s)"
  "fst (dpl_cputime_get32 0 t (CCP_STATS_INC x s)) = fst (dpl_cputime_get32 0 t s)"
  "fst (dpl_cputime_get32 0 t (CCP_STATS_SET x n s)) = fst (dpl_cputime_get32 0 t s)"
  by (simp_all add: dpl_cputime_get32_def hal_timer_read_def on_nt_def Let_def)

definition frame_read :: "bytes \<Rightarrow> uwb_dev \<Rightarrow> bytes" where
  "frame_read m dev = set_cf_rxttcko (if config_rxttcko_enable (dev_config dev) then dev_rxttcko dev else 0)
     (set_cf_carrier_integrator (dev_carrier_integrator dev) (set_cf_reception_timestamp (dev_rxtimestamp dev) m))"

lemma read_epochs_instance:
  assumes "i < length (cc_frames (cn_ccp s))"
  shows "cn_ccp (ccp_read_epochs B k i s) =
    (let m = ccp_frame i s; c = cn_ccp s; rx = dev_rxtimestamp (cn_dev s); e = cf_epoch_to_rm_us m;
         v = ccp_validate (cb_valid_threshold B) m (c\<lparr>cc_status := (cc_status c)\<lparr>cs_rx_timeout_error := False\<rparr>\<rparr>)
     in v\<lparr>cc_idx := cc_idx c + 1, cc_seq_num := cf_seq_num m, cc_missed_frames := 0,
          cc_master_epoch := cf_transmission_timestamp m - push_bit 16 (ucast e), cc_local_epoch := rx - push_bit 16 (ucast e),
          cc_os_epoch := fst (dpl_cputime_get32 0 (ck_os k) s) - ccp_latency k rx - dwt_to_usecs (uint e),
          cc_period := ucast (drop_bit 16 (cf_transmission_interval m)), cc_frames := (cc_frames c)[i := frame_read m (cn_dev s)]\<rparr>)"
  using assms
  by (simp add: ccp_read_epochs_def Let_def adjust_for_epoch_to_rm_def on_cst_def read_os_epoch_fields on_ccp_frame_def ccp_frame_def
      frame_read_def ccp_validate_def)

lemma read_epochs_dev [simp]: "cn_dev (ccp_read_epochs B k i s) = cn_dev s"
  by (simp add: ccp_read_epochs_def Let_def adjust_for_epoch_to_rm_def on_cst_def read_os_epoch_fields on_ccp_frame_def)

lemma frame_read_fields [simp]:
  assumes "length m = 48"
  shows "length (frame_read m d) = 48" "cf_rpt_count (frame_read m d) = cf_rpt_count m" "cf_rpt_max (frame_read m d) = cf_rpt_max m"
    "cf_transmission_interval (frame_read m d) = cf_transmission_interval m"
    "cf_transmission_timestamp (frame_read m d) = cf_transmission_timestamp m" "cf_reception_timestamp (frame_read m d) = dev_rxtimestamp d"
  using assms by (simp_all add: frame_read_def)

lemma frame_read_epoch [simp]: "length m = 48 \<Longrightarrow> cf_epoch_to_rm_us (frame_read m d) = cf_epoch_to_rm_us m"
  by (simp add: frame_read_def layout)

lemma take_epochs_direct:
  assumes "i < length (cc_frames (cn_ccp s))" and "length (ccp_frame i s) = 48" and "cf_rpt_count (ccp_frame i s) = 0"
    and "cc_tof_comp_cb (cn_ccp s) = None"
  shows "ccp_take_epochs B k i s = ccp_read_epochs B k i s"
proof -
  have c: "cc_tof_comp_cb (cn_ccp (ccp_read_epochs B k i s)) = None" and f: "ccp_frame i (ccp_read_epochs B k i s) = frame_read (ccp_frame i s) (cn_dev s)"
    using assms(1,4) by (simp_all add: read_epochs_instance Let_def ccp_frame_def)
  show ?thesis using assms(2,3) by (simp add: ccp_take_epochs_def ccp_compensate_tof_def ccp_compensate_relay_def c f Let_def)
qed

lemma relay_frame_instance:
  "\<exists>e. cn_ccp (ccp_relay_frame B m s) = (cn_ccp s)\<lparr>cc_status := (cc_status (cn_ccp s))\<lparr>cs_start_tx_error := e\<rparr>\<rparr>"
  by (simp add: ccp_relay_frame_def Let_def on_cst_def) blast

text \<open>A packet comes in at a node that waits for one: it is a good one, and the handler takes it.\<close>

definition good_blink :: "'x ccp_build \<Rightarrow> 'x ccp_node \<Rightarrow> bool" where
  "good_blink B s \<longleftrightarrow> (ucast (dev_fctrl (cn_dev s)) :: u8) = FCNTL_IEEE_BLINK_CCP_64 \<and>
     32 \<le> unat (dev_frame_len (cn_dev s)) \<and> unat (dev_frame_len (cn_dev s)) \<le> 48 \<and> 32 \<le> length (dev_rxbuf (cn_dev s)) \<and>
     \<not> st_lde_error (dev_status (cn_dev s)) \<and> cb_test_cascade B \<le> cf_rpt_count (dev_rxbuf (cn_dev s))"

definition blink_taken :: "'x ccp_build \<Rightarrow> ccp_clock \<Rightarrow> 'x ccp_node \<Rightarrow> 'x ccp_node" where
  "blink_taken B k s = ccp_take_epochs B k (ccp_slot 1 (cn_ccp s)) (on_cdev (uwb_stop_rx (cb_uf B))
     (on_ccp_frame (ccp_slot 1 (cn_ccp s)) (\<lambda>m. write_at m 0 (take 32 (dev_rxbuf (cn_dev s)))) s))"

lemma rx_complete_result:
  assumes "ccp_ok s" and "cc_role (cn_ccp s) \<noteq> CCP_ROLE_MASTER" and "cc_sem (cn_ccp s) = 0" and "good_blink B s"
  obtains s3 where "ccp_rx_complete_cb B k s = (False, ccp_release (post_postprocess (superframe_callbacks B s3)))"
    and "s3 = (let s2 = blink_taken B k s; m = ccp_frame (ccp_slot 1 (cn_ccp s)) s2
       in if cc_role (cn_ccp s2) = CCP_ROLE_RELAY \<and> cs_valid (cc_status (cn_ccp s2)) \<and> cf_rpt_count m < cf_rpt_max m
          then ccp_relay_frame B m s2 else s2)"
proof -
  define i where "i = ccp_slot 1 (cn_ccp s)"
  define s1 where "s1 = on_ccp_frame i (\<lambda>m. write_at m 0 (take 32 (dev_rxbuf (cn_dev s)))) s"
  have i: "i < length (cc_frames (cn_ccp s))" using ccp_slot_less[OF assms(1)] by (simp add: i_def)
  then have "length (cc_frames (cn_ccp s) ! i) = 48" using assms(1) by (simp add: ccp_ok_def sizeof_ccp_frame_def)
  then have rpt: "\<not> cf_rpt_count (ccp_frame i s1) < cb_test_cascade B"
    using assms(4) i by (simp add: s1_def ccp_frame_def on_ccp_frame_def good_blink_def not_less)
  define s2 where "s2 = blink_taken B k s"
  have s2: "s2 = ccp_take_epochs B k i (on_cdev (uwb_stop_rx (cb_uf B)) s1)" by (simp only: s2_def blink_taken_def i_def s1_def)
  define s3 where "s3 = (if cc_role (cn_ccp s2) = CCP_ROLE_RELAY \<and> cs_valid (cc_status (cn_ccp s2)) \<and>
    cf_rpt_count (ccp_frame i s2) < cf_rpt_max (ccp_frame i s2) then ccp_relay_frame B (ccp_frame i s2) s2 else s2)"
  have "ccp_rx_complete_cb B k s = (False, ccp_release (post_postprocess (superframe_callbacks B s3)))"
    using assms(2-4) rpt
    unfolding ccp_rx_complete_cb_def Let_def i_def[symmetric] sizeof_ccp_blink_def s1_def[symmetric] s2[symmetric] s3_def[symmetric]
    by (simp add: good_blink_def sizeof_ccp_frame_def)
  then show ?thesis by (rule that) (simp only: s3_def s2_def i_def Let_def)
qed

lemma rx_complete_takes:
  assumes "ccp_ok s" and "cc_role (cn_ccp s) \<noteq> CCP_ROLE_MASTER" and "cc_sem (cn_ccp s) = 0" and "good_blink B s"
  obtains e where "fst (ccp_rx_complete_cb B k s) = False" and
    "cn_ccp (snd (ccp_rx_complete_cb B k s)) = (let c = cn_ccp (blink_taken B k s)
       in c\<lparr>cc_sem := Suc (cc_sem c), cc_status := (cc_status c)\<lparr>cs_start_tx_error := e\<rparr>\<rparr>)"
proof (rule rx_complete_result[OF assms, of k])
  fix s3
  assume r: "ccp_rx_complete_cb B k s = (False, ccp_release (post_postprocess (superframe_callbacks B s3)))"
    and "s3 = (let s2 = blink_taken B k s; m = ccp_frame (ccp_slot 1 (cn_ccp s)) s2
       in if cc_role (cn_ccp s2) = CCP_ROLE_RELAY \<and> cs_valid (cc_status (cn_ccp s2)) \<and> cf_rpt_count m < cf_rpt_max m
          then ccp_relay_frame B m s2 else s2)"
  then have s3: "s3 = blink_taken B k s \<or> s3 = ccp_relay_frame B (ccp_frame (ccp_slot 1 (cn_ccp s)) (blink_taken B k s)) (blink_taken B k s)"
    by (simp add: Let_def)
  define s2 where "s2 = blink_taken B k s"
  have "\<exists>e. cn_ccp s3 = (cn_ccp s2)\<lparr>cc_status := (cc_status (cn_ccp s2))\<lparr>cs_start_tx_error := e\<rparr>\<rparr>"
    using s3 relay_frame_instance[of B _ s2] unfolding s2_def[symmetric]
    by (auto intro: exI[of _ "cs_start_tx_error (cc_status (cn_ccp s2))"])
  then obtain e where "cn_ccp s3 = (cn_ccp s2)\<lparr>cc_status := (cc_status (cn_ccp s2))\<lparr>cs_start_tx_error := e\<rparr>\<rparr>" by blast
  then show ?thesis using that[of e] r by (simp add: s2_def Let_def ccp_release_def dpl_sem_release_def)
qed

text \<open>What the master's next packet says, and the state in which it is on its way.\<close>

definition next_blink :: "'x ccp_build \<Rightarrow> 'x ccp_node \<Rightarrow> u64" where
  "next_blink B s = ((cf_transmission_timestamp (ccp_frame (ccp_slot 0 (cn_ccp s)) s) + push_bit 16 (ucast (cc_period (cn_ccp s)))) AND 0xFFFFFFFFFFFFFE00)
     + ucast (dev_tx_antenna_delay (cn_dev s))"

definition next_frame :: "'x ccp_build \<Rightarrow> 'x ccp_node \<Rightarrow> bytes" where
  "next_frame B s = (let c = cn_ccp s; d = cn_dev s in
     (set_cf_transmission_interval (push_bit 16 (ucast (cc_period c))) (set_cf_short_address (dev_my_short_address d)
       (set_cf_euid (dev_euid d) (set_cf_seq_num (cc_seq_num c + 1) (set_cf_transmission_timestamp (next_blink B s)
       (set_cf_epoch_to_rm_us (uwb_phy_SHR_duration (cb_uf B)) (set_cf_rpt_max (cb_rpts B) (set_cf_rpt_count 0
         (ccp_frame (ccp_slot 1 c) s))))))))))"

lemma slots_apart:
  assumes "ccp_ok s"
  shows "ccp_slot 1 (cn_ccp s) \<noteq> ccp_slot 0 (cn_ccp s)"
proof -
  have n: "1 < unat (cc_nframes (cn_ccp s))" using assms by (simp add: ccp_ok_def word_less_nat_alt)
  have "(a + 1) mod n \<noteq> a mod n" if "1 < n" for a n :: nat
    using that by (auto simp: mod_Suc)
  then show ?thesis using n by (simp add: ccp_slot_def)
qed

lemma prepare_blink_effect:
  assumes "ccp_ok s"
  obtains s' where "ccp_prepare_blink B s = (next_blink B s, s')"
    and "cn_ccp s' = (cn_ccp s)\<lparr>cc_seq_num := cc_seq_num (cn_ccp s) + 1,
      cc_frames := (cc_frames (cn_ccp s))[ccp_slot 1 (cn_ccp s) := next_frame B s]\<rparr>"
    and "dev_cmds (cn_dev s') = dev_cmds (cn_dev s) @ [Set_delay_start (next_blink B s - ucast (dev_tx_antenna_delay (cn_dev s))),
      Write_tx (take 32 (next_frame B s)) 0, Write_tx_fctrl 32 0, Set_wait4resp False]"
    and "dev_tx_antenna_delay (cn_dev s') = dev_tx_antenna_delay (cn_dev s)"
proof -
  define i where "i = ccp_slot 1 (cn_ccp s)"
  define j where "j = ccp_slot 0 (cn_ccp s)"
  have i: "i < length (cc_frames (cn_ccp s))" and ij: "i \<noteq> j"
    using ccp_slot_less[OF assms] slots_apart[OF assms] by (simp_all add: i_def j_def)
  have prev: "ccp_frame j (on_ccp_frame i g s) = ccp_frame j s" for g
    using ij by (simp add: ccp_frame_def on_ccp_frame_def)
  have "fst (ccp_prepare_blink B s) = next_blink B s"
    unfolding ccp_prepare_blink_def Let_def i_def[symmetric] j_def[symmetric] prev by (simp add: next_blink_def j_def)
  moreover have "cn_ccp (snd (ccp_prepare_blink B s)) = (cn_ccp s)\<lparr>cc_seq_num := cc_seq_num (cn_ccp s) + 1,
      cc_frames := (cc_frames (cn_ccp s))[i := next_frame B s]\<rparr>"
    unfolding ccp_prepare_blink_def next_frame_def next_blink_def Let_def i_def[symmetric] j_def[symmetric] prev
    using i by (simp add: on_ccp_frame_def ccp_frame_def)
  moreover have "dev_cmds (cn_dev (snd (ccp_prepare_blink B s))) = dev_cmds (cn_dev s) @
      [Set_delay_start (next_blink B s - ucast (dev_tx_antenna_delay (cn_dev s))),
       Write_tx (take 32 (next_frame B s)) 0, Write_tx_fctrl 32 0, Set_wait4resp False]"
    unfolding ccp_prepare_blink_def next_frame_def next_blink_def Let_def i_def[symmetric] j_def[symmetric] prev
    using i by (simp add: on_ccp_frame_def ccp_frame_def
      uwb_api_defs frame sizeof_ccp_blink_def)
  moreover have "dev_tx_antenna_delay (cn_dev (snd (ccp_prepare_blink B s))) = dev_tx_antenna_delay (cn_dev s)"
    by (simp add: ccp_prepare_blink_def Let_def on_ccp_frame_def uwb_api_defs frame)
  ultimately show ?thesis using that by (metis i_def prod.collapse)
qed

lemma next_frame_fields:
  assumes "ccp_ok s" and m: "m = next_frame B s"
  shows "length m = 48" "cf_transmission_timestamp m = next_blink B s" "cf_seq_num m = cc_seq_num (cn_ccp s) + 1"
    "cf_euid m = dev_euid (cn_dev s)" "cf_rpt_count m = 0" "cf_epoch_to_rm_us m = uwb_phy_SHR_duration (cb_uf B)"
    "cf_transmission_interval m = push_bit 16 (ucast (cc_period (cn_ccp s))) AND UWB_DTU_40BMASK"
proof -
  have "length (ccp_frame (ccp_slot 1 (cn_ccp s)) s) = 48"
    using assms(1) ccp_slot_less[OF assms(1), of 1] by (simp add: ccp_frame_def ccp_ok_def sizeof_ccp_frame_def)
  then show "length m = 48" "cf_transmission_timestamp m = next_blink B s" "cf_seq_num m = cc_seq_num (cn_ccp s) + 1"
    "cf_euid m = dev_euid (cn_dev s)" "cf_rpt_count m = 0" "cf_epoch_to_rm_us m = uwb_phy_SHR_duration (cb_uf B)"
    "cf_transmission_interval m = push_bit 16 (ucast (cc_period (cn_ccp s))) AND UWB_DTU_40BMASK"
    by (simp_all add: m next_frame_def Let_def)
qed

lemma send_start_effect:
  assumes ok: "ccp_ok s" and sem: "cc_sem (cn_ccp s) = 1" and start: "ccp_send_start B Got_token s = Some (Call_waiting, s')"
  shows "cn_ccp s' = (cn_ccp s)\<lparr>cc_sem := 0, cc_seq_num := cc_seq_num (cn_ccp s) + 1,
      cc_frames := (cc_frames (cn_ccp s))[ccp_slot 1 (cn_ccp s) := next_frame B s],
      cc_status := (cc_status (cn_ccp s))\<lparr>cs_start_tx_error := False\<rparr>\<rparr>"
    and "dev_cmds (cn_dev s') = dev_cmds (cn_dev s) @ [Phy_forcetrxoff, Set_delay_start (next_blink B s - ucast (dev_tx_antenna_delay (cn_dev s))),
      Write_tx (take 32 (next_frame B s)) 0, Write_tx_fctrl 32 0, Set_wait4resp False, Start_tx]"
    and "dev_tx_antenna_delay (cn_dev s') = dev_tx_antenna_delay (cn_dev s)"
proof -
  define s1 where "s1 = on_ccp (\<lambda>c. c\<lparr>cc_sem := 0\<rparr>) (on_cdev (uwb_phy_forcetrxoff (cb_uf B)) (CCP_STATS_INC Ccp_send s))"
  have p: "ccp_pend Got_token (on_cdev (uwb_phy_forcetrxoff (cb_uf B)) (CCP_STATS_INC Ccp_send s)) = Some s1"
    using sem by (simp add: pend_ok s1_def)
  have ok1: "ccp_ok s1" using ok by (simp add: s1_def ccp_ok_def)
  have fr: "ccp_frame j s1 = ccp_frame j s" "ccp_slot j (cn_ccp s1) = ccp_slot j (cn_ccp s)" for j
    by (simp_all add: s1_def ccp_frame_def ccp_slot_def)
  have nb: "next_blink B s1 = next_blink B s"
    unfolding next_blink_def fr by (simp add: s1_def uwb_api_defs frame)
  have nf: "next_frame B s1 = next_frame B s"
    unfolding next_frame_def Let_def fr nb by (simp add: s1_def uwb_api_defs frame)
  obtain s2 where 2: "ccp_prepare_blink B s1 = (next_blink B s1, s2)"
    and c: "cn_ccp s2 = (cn_ccp s1)\<lparr>cc_seq_num := cc_seq_num (cn_ccp s1) + 1,
      cc_frames := (cc_frames (cn_ccp s1))[ccp_slot 1 (cn_ccp s1) := next_frame B s1]\<rparr>"
    and d: "dev_cmds (cn_dev s2) = dev_cmds (cn_dev s1) @ [Set_delay_start (next_blink B s1 - ucast (dev_tx_antenna_delay (cn_dev s1))),
      Write_tx (take 32 (next_frame B s1)) 0, Write_tx_fctrl 32 0, Set_wait4resp False]"
    and ad: "dev_tx_antenna_delay (cn_dev s2) = dev_tx_antenna_delay (cn_dev s1)"
    by (rule prepare_blink_effect[OF ok1])
  have s': "\<exists>x n. s' = CCP_STATS_SET x n (on_cst (\<lambda>c. c\<lparr>cs_start_tx_error := False\<rparr>) (on_cdev (uwb_start_tx (cb_uf B)) s2))"
    using start unfolding ccp_send_start_def Let_def p option.case 2 prod.case by (auto split: if_splits)
  have a: "dev_tx_antenna_delay (cn_dev s1) = dev_tx_antenna_delay (cn_dev s)" "dev_cmds (cn_dev s1) = dev_cmds (cn_dev s) @ [Phy_forcetrxoff]"
    by (simp_all add: s1_def uwb_api_defs frame)
  show "cn_ccp s' = (cn_ccp s)\<lparr>cc_sem := 0, cc_seq_num := cc_seq_num (cn_ccp s) + 1,
      cc_frames := (cc_frames (cn_ccp s))[ccp_slot 1 (cn_ccp s) := next_frame B s],
      cc_status := (cc_status (cn_ccp s))\<lparr>cs_start_tx_error := False\<rparr>\<rparr>"
    using s' c unfolding fr nf by (auto simp: on_cst_def s1_def)
  show "dev_cmds (cn_dev s') = dev_cmds (cn_dev s) @ [Phy_forcetrxoff, Set_delay_start (next_blink B s - ucast (dev_tx_antenna_delay (cn_dev s))),
      Write_tx (take 32 (next_frame B s)) 0, Write_tx_fctrl 32 0, Set_wait4resp False, Start_tx]"
    using s' d unfolding nf nb a by (auto simp: on_cst_def uwb_api_defs frame)
  show "dev_tx_antenna_delay (cn_dev s') = dev_tx_antenna_delay (cn_dev s)"
    using s' ad a(1) by (auto simp: on_cst_def uwb_api_defs frame)
qed

text \<open>The end of the master's transmission: the epochs are those of the frame that went out.\<close>

lemma tx_complete_effect:
  assumes "cc_sem (cn_ccp s) = 0" and "cc_role (cn_ccp s) = CCP_ROLE_MASTER" and "ccp_tx_complete_cb B k s = Some (r, s')"
    and m: "m = cc_frames (cn_ccp s) ! (unat (cc_idx (cn_ccp s) + 1) mod unat (cc_nframes (cn_ccp s)))"
  shows "cc_master_epoch (cn_ccp s') = cf_transmission_timestamp m - push_bit 16 (ucast (cf_epoch_to_rm_us m))"
    and "cc_local_epoch (cn_ccp s') = ts_lo (cf_transmission_timestamp m) - push_bit 16 (ucast (cf_epoch_to_rm_us m))"
    and "cc_period (cn_ccp s') = ucast (drop_bit 16 (cf_transmission_interval m))"
    and "cc_seq_num (cn_ccp s') = cc_seq_num (cn_ccp s)" and "cc_sem (cn_ccp s') = 1"
    and "cc_idx (cn_ccp s') = cc_idx (cn_ccp s) + 1" and "cc_frames (cn_ccp s') = cc_frames (cn_ccp s)"
    and "cn_dev s' = cn_dev s" and "cc_nframes (cn_ccp s') = cc_nframes (cn_ccp s)"
proof -
  define s1 where "s1 = on_ccp (\<lambda>c. c\<lparr>cc_idx := cc_idx c + 1\<rparr>) (CCP_STATS_INC Ccp_tx_complete s)"
  have m1: "ccp_frame (ccp_slot 0 (cn_ccp s1)) s1 = m" by (simp add: m s1_def ccp_frame_def ccp_slot_def)
  define s2 where "s2 = adjust_for_epoch_to_rm (cf_epoch_to_rm_us m) (on_ccp (\<lambda>c. c\<lparr>cc_local_epoch := ts_lo (cf_transmission_timestamp m),
    cc_master_epoch := cf_transmission_timestamp m,
    cc_period := ucast (drop_bit 16 (cf_transmission_interval m))\<rparr>) (read_os_epoch k (ts_lo (cf_transmission_timestamp m)) s1))"
  define v where "v = (\<lambda>u. post_postprocess (superframe_callbacks B (on_cst (\<lambda>c. c\<lparr>cs_valid := (cs_valid c \<or> cc_idx (cn_ccp u) > 1)\<rparr>) u)))"
  have "ccp_tx_complete_cb B k s =
      (case (if cs_timer_enabled (cc_status (cn_ccp s2)) then ccp_timer_start (master_next_timer B s2) (ck_now k) s2 else Some s2) of
         None \<Rightarrow> None | Some u \<Rightarrow> Some (False, if dpl_sem_get_count (cc_sem (cn_ccp (v u))) = 0 then ccp_release (v u) else v u))"
    using assms(1,2) unfolding ccp_tx_complete_cb_def Let_def s1_def[symmetric] m1 s2_def[symmetric] v_def by simp
  then obtain u where u: "(if cs_timer_enabled (cc_status (cn_ccp s2)) then ccp_timer_start (master_next_timer B s2) (ck_now k) s2 else Some s2) = Some u"
    and s': "s' = (if dpl_sem_get_count (cc_sem (cn_ccp (v u))) = 0 then ccp_release (v u) else v u)"
    using assms(3) by (auto split: option.splits)
  have cu: "(cn_ccp u = cn_ccp s2 \<or> cn_ccp u = (cn_ccp s2)\<lparr>cc_status := (cc_status (cn_ccp s2))\<lparr>cs_timer_restarted := True\<rparr>\<rparr>) \<and>
      cn_dev u = cn_dev s2"
  proof (cases "cs_timer_enabled (cc_status (cn_ccp s2))")
    case True
    then obtain w where "dpl_cputime_timer_start 0 (master_next_timer B s2) (ck_now k) s2 = Some w"
      "u = on_cst (\<lambda>c. c\<lparr>cs_timer_restarted := True\<rparr>) w" using u by (auto simp: ccp_timer_start_def)
    then show ?thesis using start_timer_fields[of _ _ s2 w] by (simp add: on_cst_def)
  next
    case False
    then show ?thesis using u by simp
  qed
  have "cc_sem (cn_ccp s2) = 0" using assms(1) by (simp add: s2_def s1_def adjust_for_epoch_to_rm_def read_os_epoch_fields)
  then have "cc_sem (cn_ccp (v u)) = 0" using cu by (auto simp: v_def on_cst_def)
  then have s': "s' = ccp_release (v u)" using s' by simp
  have "cn_dev (v u) = cn_dev u" "cn_ccp (v u) = (cn_ccp u)\<lparr>cc_status := (cc_status (cn_ccp u))\<lparr>cs_valid := (cs_valid (cc_status (cn_ccp u)) \<or> cc_idx (cn_ccp u) > 1)\<rparr>\<rparr>"
    by (simp_all add: v_def on_cst_def)
  then show "cc_master_epoch (cn_ccp s') = cf_transmission_timestamp m - push_bit 16 (ucast (cf_epoch_to_rm_us m))"
    and "cc_local_epoch (cn_ccp s') = ts_lo (cf_transmission_timestamp m) - push_bit 16 (ucast (cf_epoch_to_rm_us m))"
    and "cc_period (cn_ccp s') = ucast (drop_bit 16 (cf_transmission_interval m))"
    and "cc_seq_num (cn_ccp s') = cc_seq_num (cn_ccp s)" and "cc_sem (cn_ccp s') = 1"
    and "cc_idx (cn_ccp s') = cc_idx (cn_ccp s) + 1" and "cc_frames (cn_ccp s') = cc_frames (cn_ccp s)"
    and "cn_dev s' = cn_dev s" and "cc_nframes (cn_ccp s') = cc_nframes (cn_ccp s)"
    using s' cu assms(1) by (auto simp: s2_def s1_def adjust_for_epoch_to_rm_def read_os_epoch_fields ccp_release_def dpl_sem_release_def)
qed

section \<open>Relays\<close>

text \<open>The delay after which a relay of level one sends on what it received at \<open>rx\<close>.\<close>

definition relay_hold :: "'x ccp_node \<Rightarrow> nat" where
  "relay_hold s = unat (cc_tx_holdoff_dly (cn_ccp s)) + unat (dev_slot_id (cn_dev s) mod 4) * unat (cc_blink_frame_duration (cn_ccp s))"

definition relay_delay :: "u64 \<Rightarrow> 'x ccp_node \<Rightarrow> u64" where
  "relay_delay rx s = ((rx + push_bit 16 (of_nat (relay_hold s))) AND 0x0FFFFFFFE00) + ucast (dev_tx_antenna_delay (cn_dev s)) - rx"

lemma mask_low_bits:
  assumes "unat (x :: u64) < 2 ^ 40"
  shows "unat (x AND 0x0FFFFFFFE00) = unat x div 512 * 512"
proof -
  have "take_bit 40 x = x" by (rule word_unat_eq_iff[THEN iffD2]) (use assms in \<open>simp add: unsigned_take_bit_eq take_bit_nat_eq_self\<close>)
  then have bits: "bit x n \<Longrightarrow> n < 40" for n by (metis bit_take_bit_iff)
  have M: "(0x0FFFFFFFE00 :: u64) = mask 40 AND NOT (mask 9)" by (simp add: mask_eq_exp_minus_1)
  have "x AND 0x0FFFFFFFE00 = push_bit 9 (drop_bit 9 x)"
    unfolding M by (rule bit_word_eqI) (auto simp: bit_simps dest: bits)
  moreover have "unat (push_bit 9 (drop_bit 9 x)) = unat x div 512 * 512"
    using assms by (simp add: push_bit_eq_mult drop_bit_eq_div unat_mult_lem[THEN iffD1] unat_div unat_word_ariths)
  ultimately show ?thesis by simp
qed

lemma relay_delay_bounds:
  assumes "0 < relay_hold s" and "relay_hold s < 65535" and "unat rx + relay_hold s * 65536 < 2 ^ 40"
  shows "0 < unat (relay_delay rx s)" and "unat (relay_delay rx s) \<le> 2 ^ 32"
proof -
  define h where "h = (push_bit 16 (of_nat (relay_hold s)) :: u64)"
  have h: "unat h = relay_hold s * 65536"
    using assms(2) by (simp add: h_def push_bit_eq_mult unat_mult_lem[THEN iffD1] unat_of_nat unat_word_ariths)
  have "unat (rx + h) = unat rx + unat h"
    using assms(3) h by (intro unat_add_lem[THEN iffD1]) simp
  then have a: "unat (rx + h) = unat rx + relay_hold s * 65536" using h by simp
  define t where "t = (rx + h) AND 0x0FFFFFFFE00"
  define n where "n = unat (rx + h)"
  have t: "unat t = n div 512 * 512" unfolding t_def n_def by (rule mask_low_bits) (use a assms(3) in simp)
  have t': "unat t \<le> n" "n < unat t + 512" using t div_mult_mod_eq[of n 512] mod_less_divisor[of 512 n] by linarith+
  define ad where "ad = unat (dev_tx_antenna_delay (cn_dev s))"
  have ad: "ad < 65536" using unat_less_16 by (simp add: ad_def)
  have uc: "unat (ucast (dev_tx_antenna_delay (cn_dev s)) :: u64) = ad" using ad by (simp add: ad_def unsigned_ucast_eq take_bit_nat_eq_self)
  have s1: "unat (t + ucast (dev_tx_antenna_delay (cn_dev s))) = unat t + ad"
    using t' a assms(3) ad uc by (subst unat_add_lem[THEN iffD1]) (simp_all add: n_def)
  have le: "unat rx + 65024 < unat t" using t' a assms(1) by (simp add: n_def)
  have "rx \<le> t + ucast (dev_tx_antenna_delay (cn_dev s))" using s1 le by (simp add: word_le_nat_alt)
  then have d: "unat (relay_delay rx s) = unat t + ad - unat rx"
    using s1 by (simp add: relay_delay_def h_def[symmetric] t_def[symmetric] unat_sub)
  show "0 < unat (relay_delay rx s)" and "unat (relay_delay rx s) \<le> 2 ^ 32"
    using d le t'(1) a ad assms(2) by (simp_all add: n_def)
qed

lemma relay_frame_effect:
  assumes len: "length m = 48" and rpt: "cf_rpt_count m = 0" and wcs: "\<not> cb_wcs_enabled B"
  obtains g x where "dev_cmds (cn_dev (ccp_relay_frame B m s)) = dev_cmds (cn_dev s) @ [Set_delay_start x, Write_tx (take 32 g) 0, Write_tx_fctrl 32 0, Start_tx]"
    and "x + ucast (dev_tx_antenna_delay (cn_dev s)) = cf_reception_timestamp m + relay_delay (cf_reception_timestamp m) s"
    and "length g = 48" and "cf_rpt_count g = 1" and "cf_seq_num g = cf_seq_num m" and "cf_euid g = cf_euid m" and "cf_epoch_to_rm_us g = cf_epoch_to_rm_us m"
    and "cf_transmission_timestamp g = cf_transmission_timestamp m + relay_delay (cf_reception_timestamp m) s"
    and "cf_transmission_interval g = (cf_transmission_interval m - relay_delay (cf_reception_timestamp m) s) AND UWB_DTU_40BMASK"
proof -
  define x where "x = (cf_reception_timestamp m + push_bit 16 (ucast (cc_tx_holdoff_dly (cn_ccp s))) +
    ucast (dev_slot_id (cn_dev s) mod 4) * push_bit 16 (ucast (cc_blink_frame_duration (cn_ccp s)))) AND 0x0FFFFFFFE00"
  define d where "d = x + ucast (dev_tx_antenna_delay (cn_dev s)) - cf_reception_timestamp m"
  define g where "g = set_cf_transmission_interval (cf_transmission_interval m - d) (set_cf_transmission_timestamp (cf_transmission_timestamp m + d)
    (set_cf_rpt_count 1 (set_cf_short_address (dev_my_short_address (cn_dev s)) m)))"
  have hold: "(push_bit 16 (of_nat (relay_hold s)) :: u64) = push_bit 16 (ucast (cc_tx_holdoff_dly (cn_ccp s))) +
    ucast (dev_slot_id (cn_dev s) mod 4) * push_bit 16 (ucast (cc_blink_frame_duration (cn_ccp s)))"
    by (simp add: relay_hold_def push_bit_eq_mult algebra_simps)
  have d: "d = relay_delay (cf_reception_timestamp m) s"
    by (simp add: d_def x_def relay_delay_def hold add.assoc)
  have "dev_cmds (cn_dev (ccp_relay_frame B m s)) = dev_cmds (cn_dev s) @ [Set_delay_start x, Write_tx (take 32 g) 0, Write_tx_fctrl 32 0, Start_tx]"
    using len rpt wcs
    by (simp add: ccp_relay_frame_def Let_def on_cst_def uwb_api_defs frame uwb_ccp_skew_compensation_ui64_def x_def d_def g_def sizeof_ccp_blink_def)
  then show ?thesis
    by (rule that) (use len rpt in \<open>simp_all add: g_def d[symmetric]\<close>, simp add: d_def)
qed

lemma take_epochs_relayed:
  assumes "i < length (cc_frames (cn_ccp s))" and "length (ccp_frame i s) = 48" and "cf_rpt_count (ccp_frame i s) \<noteq> 0"
    and "cc_tof_comp_cb (cn_ccp s) = None" and "\<not> cb_wcs_enabled B"
    and m: "m = ccp_frame i s" and dly: "dly = (cf_transmission_interval m div 0x100000000 + 1) * 0x100000000 - cf_transmission_interval m"
    and c: "c = cn_ccp (ccp_take_epochs B k i s)"
  shows "cc_master_epoch c = cf_transmission_timestamp m - push_bit 16 (ucast (cf_epoch_to_rm_us m)) - dly"
    and "cc_local_epoch c = (dev_rxtimestamp (cn_dev s) - push_bit 16 (ucast (cf_epoch_to_rm_us m)) - dly) AND UWB_DTU_40BMASK"
    and "cc_period c = ucast (drop_bit 16 (cf_transmission_interval m + dly))"
    and "cc_seq_num c = cf_seq_num m" and "cc_master_euid c = cf_euid m" and "cc_sem c = cc_sem (cn_ccp s)"
proof -
  define u where "u = ccp_read_epochs B k i s"
  have cu: "cc_tof_comp_cb (cn_ccp u) = None" and f: "ccp_frame i u = frame_read m (cn_dev s)"
    using assms(1,4) by (simp_all add: u_def read_epochs_instance Let_def ccp_frame_def m)
  have len: "length m = 48" "cf_rpt_count m \<noteq> 0" using assms(2,3) m by simp_all
  have t: "ccp_take_epochs B k i s = ccp_compensate_relay B i u"
    by (simp add: ccp_take_epochs_def ccp_compensate_tof_def u_def[symmetric] cu)
  have e: "cn_ccp (ccp_read_epochs B k i s) = cn_ccp u" by (simp add: u_def)
  note ru = read_epochs_instance[OF assms(1), of B k, unfolded Let_def m[symmetric] e]
  have cr: "cc_master_epoch c = cc_master_epoch (cn_ccp u) - dly" "cc_local_epoch c = (cc_local_epoch (cn_ccp u) - dly) AND UWB_DTU_40BMASK"
    "cc_period c = ucast (drop_bit 16 (cf_transmission_interval m + dly))" "cc_seq_num c = cc_seq_num (cn_ccp u)"
    "cc_master_euid c = cc_master_euid (cn_ccp u)" "cc_sem c = cc_sem (cn_ccp u)"
    using len assms(5) unfolding c t ccp_compensate_relay_def Let_def f
    by (simp_all add: on_ccp_frame_def dly uwb_ccp_skew_compensation_ui64_def UWB_DTU_40BMASK_def)
  show "cc_master_epoch c = cf_transmission_timestamp m - push_bit 16 (ucast (cf_epoch_to_rm_us m)) - dly"
    and "cc_local_epoch c = (dev_rxtimestamp (cn_dev s) - push_bit 16 (ucast (cf_epoch_to_rm_us m)) - dly) AND UWB_DTU_40BMASK"
    and "cc_period c = ucast (drop_bit 16 (cf_transmission_interval m + dly))"
    and "cc_seq_num c = cf_seq_num m" and "cc_master_euid c = cf_euid m" and "cc_sem c = cc_sem (cn_ccp s)"
    unfolding cr ru by simp_all
qed

text \<open>The listener's reconstruction of the relay's delay, for intervals that are multiples of \<open>2 ^ 32\<close>.\<close>

lemma relayed_interval:
  assumes "unat (I :: u64) < 2 ^ 40" and "2 ^ 32 dvd unat I" and "0 < unat I" and "0 < unat d" and "unat d \<le> 2 ^ 32"
  shows "let ti = (I - d) AND UWB_DTU_40BMASK in (ti div 0x100000000 + 1) * 0x100000000 - ti = d \<and> ti + d = I"
proof -
  obtain n where n: "unat I = 2 ^ 32 * n" using assms(2) by (auto simp: dvd_def)
  then have n0: "0 < n" using assms(3) by simp
  have "unat d \<le> unat I" using n n0 assms(5) by (simp add: le_trans[of _ "2 ^ 32"])
  then have sub: "unat (I - d) = 2 ^ 32 * n - unat d" using n by (simp add: unat_sub word_le_nat_alt)
  have M: "UWB_DTU_40BMASK = mask 40" by (simp add: UWB_DTU_40BMASK_def mask_eq_exp_minus_1)
  have "unat (take_bit 40 (I - d)) = unat (I - d)" using sub n assms(1) by (simp add: unsigned_take_bit_eq take_bit_nat_eq_self)
  then have ti: "(I - d) AND UWB_DTU_40BMASK = I - d" by (simp add: M take_bit_eq_mask[symmetric] word_unat_eq_iff)
  have "unat ((I - d) div 0x100000000) = (2 ^ 32 * n - unat d) div 2 ^ 32" by (simp add: unat_div sub)
  also have "\<dots> = n - 1"
  proof (rule div_nat_eqI)
    show "2 ^ 32 * (n - 1) \<le> 2 ^ 32 * n - unat d" using assms(5) n0 by (cases n) simp_all
    show "2 ^ 32 * n - unat d < 2 ^ 32 * Suc (n - 1)" using assms(4) n0 \<open>unat d \<le> unat I\<close> n by (cases n) auto
  qed
  finally have dv: "(I - d) div 0x100000000 = of_nat (n - 1)" by (metis of_nat_unat ucast_id)
  have "I = of_nat (2 ^ 32 * n)" using n by (metis of_nat_unat ucast_id)
  then have "((I - d) div 0x100000000 + 1) * 0x100000000 = I"
    unfolding dv using n0 by (cases n) (simp_all add: algebra_simps)
  then show ?thesis by (simp add: ti)
qed

lemma blink_prefix:
  assumes "length g = 48"
  shows "cf_seq_num (take 32 g @ r) = cf_seq_num g" "cf_euid (take 32 g @ r) = cf_euid g" "cf_rpt_count (take 32 g @ r) = cf_rpt_count g"
    "cf_epoch_to_rm_us (take 32 g @ r) = cf_epoch_to_rm_us g" "cf_transmission_timestamp (take 32 g @ r) = cf_transmission_timestamp g"
    "cf_transmission_interval (take 32 g @ r) = cf_transmission_interval g"
  using assms by (simp_all add: layout field_append field_take)

lemma interval_below: "unat (cf_transmission_interval b) < 2 ^ 40"
proof -
  have "cf_transmission_interval b = take_bit 40 (get_le64 b 12)"
    by (simp add: cf_transmission_interval_def UWB_DTU_40BMASK_def take_bit_eq_mask mask_eq_exp_minus_1)
  then show ?thesis by (simp only: unsigned_take_bit_eq take_bit_nat_less_exp)
qed

text \<open>A good packet straight from the master, at a node: its epochs, and what it sends on, if it does.\<close>

lemma direct_taken:
  assumes node: "ccp_ok s" "cc_role (cn_ccp s) \<noteq> CCP_ROLE_MASTER" "cc_sem (cn_ccp s) = 0" "cc_tof_comp_cb (cn_ccp s) = None"
      "good_blink B s" "cf_rpt_count (dev_rxbuf (cn_dev s)) = 0" "\<not> cb_wcs_enabled B"
    and names: "b = dev_rxbuf (cn_dev s)" "rx = dev_rxtimestamp (cn_dev s)" "d = relay_delay rx s"
      "s' = snd (ccp_rx_complete_cb B k s)" "c = cn_ccp s'"
  obtains x g where
    "cc_master_epoch c = cf_transmission_timestamp b - push_bit 16 (ucast (cf_epoch_to_rm_us b))"
    "cc_local_epoch c = rx - push_bit 16 (ucast (cf_epoch_to_rm_us b))"
    "cc_period c = ucast (drop_bit 16 (cf_transmission_interval b))" "cc_seq_num c = cf_seq_num b" "cc_master_euid c = cf_euid b" "cc_sem c = 1"
    "x + ucast (dev_tx_antenna_delay (cn_dev s)) = rx + d" "length g = 48" "cf_rpt_count g = 1" "cf_seq_num g = cf_seq_num b" "cf_euid g = cf_euid b"
    "cf_epoch_to_rm_us g = cf_epoch_to_rm_us b" "cf_transmission_timestamp g = cf_transmission_timestamp b + d"
    "cf_transmission_interval g = (cf_transmission_interval b - d) AND UWB_DTU_40BMASK"
    "cs_valid (cc_status c) = cs_valid (cc_status (ccp_validate (cb_valid_threshold B) b (cn_ccp s)))"
    "cs_valid_count (cc_status c) = cs_valid_count (cc_status (ccp_validate (cb_valid_threshold B) b (cn_ccp s)))"
    "cc_tof_comp_cb c = None"
    "dev_cmds (cn_dev s') = dev_cmds (cn_dev s) @ (if cc_role (cn_ccp s) = CCP_ROLE_RELAY \<and> cs_valid (cc_status c) \<and> 0 < cf_rpt_max b
       then [Stop_rx, Set_delay_start x, Write_tx (take 32 g) 0, Write_tx_fctrl 32 0, Start_tx] else [Stop_rx])"
proof -
  define i where "i = ccp_slot 1 (cn_ccp s)"
  define u where "u = on_cdev (uwb_stop_rx (cb_uf B)) (on_ccp_frame i (\<lambda>x. write_at x 0 (take 32 b)) s)"
  define m where "m = write_at (cc_frames (cn_ccp s) ! i) 0 (take 32 b)"
  define v where "v = ccp_read_epochs B k i u"
  have i: "i < length (cc_frames (cn_ccp s))" using ccp_slot_less[OF node(1)] by (simp add: i_def)
  then have old: "length (cc_frames (cn_ccp s) ! i) = 48" using node(1) by (simp add: ccp_ok_def sizeof_ccp_frame_def)
  then have len: "length m = 48" by (simp add: m_def)
  have buf: "32 \<le> length b" using node(5) by (simp add: good_blink_def names)
  note mf = blink_fields[OF old buf, folded m_def]
  have u: "ccp_frame i u = m" "i < length (cc_frames (cn_ccp u))"
    using i by (simp_all add: u_def m_def ccp_frame_def on_ccp_frame_def)
  have ud: "dev_rxtimestamp (cn_dev u) = rx" "relay_hold u = relay_hold s" "cc_sem (cn_ccp u) = 0"
    "dev_cmds (cn_dev u) = dev_cmds (cn_dev s) @ [Stop_rx]" "dev_tx_antenna_delay (cn_dev u) = dev_tx_antenna_delay (cn_dev s)"
    using node(3) by (simp_all add: u_def relay_hold_def on_ccp_frame_def uwb_stop_rx_def frame names)
  have taken: "blink_taken B k s = v"
    unfolding blink_taken_def i_def[symmetric] names(1)[symmetric] u_def[symmetric] v_def
    by (rule take_epochs_direct) (use u len mf node(4,6) names(1) in \<open>simp_all add: u_def on_ccp_frame_def\<close>)
  have v: "ccp_frame i v = frame_read m (cn_dev u)" "relay_hold v = relay_hold u" "cn_dev v = cn_dev u"
    using u by (simp_all add: v_def read_epochs_instance Let_def ccp_frame_def relay_hold_def ccp_validate_def)
  have d: "relay_delay (cf_reception_timestamp (ccp_frame i v)) v = d"
    using len by (simp add: v names(2,3) ud relay_delay_def)
  obtain g x where g: "dev_cmds (cn_dev (ccp_relay_frame B (ccp_frame i v) v)) = dev_cmds (cn_dev v) @
        [Set_delay_start x, Write_tx (take 32 g) 0, Write_tx_fctrl 32 0, Start_tx]"
    and x: "x + ucast (dev_tx_antenna_delay (cn_dev v)) = cf_reception_timestamp (ccp_frame i v) + d"
    and gf: "length g = 48" "cf_rpt_count g = 1" "cf_seq_num g = cf_seq_num (ccp_frame i v)" "cf_euid g = cf_euid (ccp_frame i v)"
      "cf_epoch_to_rm_us g = cf_epoch_to_rm_us (ccp_frame i v)" "cf_transmission_timestamp g = cf_transmission_timestamp (ccp_frame i v) + d"
      "cf_transmission_interval g = (cf_transmission_interval (ccp_frame i v) - d) AND UWB_DTU_40BMASK"
    by (rule relay_frame_effect[where m = "ccp_frame i v" and s = v, unfolded d]) (use mf node(6,7) len names(1) in \<open>simp_all add: v\<close>)
  have role: "cc_role (cn_ccp v) = cc_role (cn_ccp s)"
    using u by (simp add: v_def read_epochs_instance Let_def ccp_validate_def) (simp add: u_def on_ccp_frame_def)
  obtain s3 where s3: "s' = ccp_release (post_postprocess (superframe_callbacks B s3))"
    "s3 = (if cc_role (cn_ccp s) = CCP_ROLE_RELAY \<and> cs_valid (cc_status (cn_ccp v)) \<and> 0 < cf_rpt_max b
      then ccp_relay_frame B (ccp_frame i v) v else v)"
    by (rule rx_complete_result[OF node(1,2,3,5), of k, folded i_def, unfolded taken Let_def role])
      (use mf node(6) len in \<open>simp add: names(1,4) v\<close>)
  obtain e where c: "c = (cn_ccp v)\<lparr>cc_sem := Suc (cc_sem (cn_ccp v)), cc_status := (cc_status (cn_ccp v))\<lparr>cs_start_tx_error := e\<rparr>\<rparr>"
    using rx_complete_takes[OF node(1,2,3,5), of k] by (auto simp: names Let_def taken)
  have val: "cs_valid (cc_status (cn_ccp v)) = cs_valid (cc_status (ccp_validate (cb_valid_threshold B) b (cn_ccp s)))"
    "cs_valid_count (cc_status (cn_ccp v)) = cs_valid_count (cc_status (ccp_validate (cb_valid_threshold B) b (cn_ccp s)))"
    using u mf by (simp_all add: v_def read_epochs_instance Let_def ccp_validate_def u_def on_ccp_frame_def)
  show ?thesis
  proof (rule that[of x g])
    show "dev_cmds (cn_dev s') = dev_cmds (cn_dev s) @ (if cc_role (cn_ccp s) = CCP_ROLE_RELAY \<and> cs_valid (cc_status c) \<and> 0 < cf_rpt_max b
       then [Stop_rx, Set_delay_start x, Write_tx (take 32 g) 0, Write_tx_fctrl 32 0, Start_tx] else [Stop_rx])"
      using s3 g c by (simp add: ccp_release_def v ud)
    show "cs_valid (cc_status c) = cs_valid (cc_status (ccp_validate (cb_valid_threshold B) b (cn_ccp s)))"
      "cs_valid_count (cc_status c) = cs_valid_count (cc_status (ccp_validate (cb_valid_threshold B) b (cn_ccp s)))"
      using c val by simp_all
    show "cc_tof_comp_cb c = None"
      using c u node(4) by (simp add: v_def read_epochs_instance Let_def) (simp add: u_def on_ccp_frame_def)
  qed (use c u mf in \<open>simp_all add: v_def read_epochs_instance Let_def ud\<close>,
      use x gf len mf in \<open>simp_all add: v ud\<close>, simp_all add: frame_read_def)
qed

text \<open>A good packet from a relay, which delayed it by \<open>d\<close>, at a node.\<close>

lemma relayed_taken:
  assumes node: "ccp_ok s" "cc_role (cn_ccp s) \<noteq> CCP_ROLE_MASTER" "cc_sem (cn_ccp s) = 0" "cc_tof_comp_cb (cn_ccp s) = None"
      "good_blink B s" "cf_rpt_count (dev_rxbuf (cn_dev s)) \<noteq> 0" "\<not> cb_wcs_enabled B"
    and names: "b = dev_rxbuf (cn_dev s)" "rx = dev_rxtimestamp (cn_dev s)" "c = cn_ccp (snd (ccp_rx_complete_cb B k s))"
    and d: "(cf_transmission_interval b div 0x100000000 + 1) * 0x100000000 - cf_transmission_interval b = d"
  shows "cc_master_epoch c = cf_transmission_timestamp b - push_bit 16 (ucast (cf_epoch_to_rm_us b)) - d"
    "cc_local_epoch c = (rx - push_bit 16 (ucast (cf_epoch_to_rm_us b)) - d) AND UWB_DTU_40BMASK"
    "cc_period c = ucast (drop_bit 16 (cf_transmission_interval b + d))" "cc_seq_num c = cf_seq_num b" "cc_master_euid c = cf_euid b"
proof -
  define j where "j = ccp_slot 1 (cn_ccp s)"
  define w where "w = on_cdev (uwb_stop_rx (cb_uf B)) (on_ccp_frame j (\<lambda>y. write_at y 0 (take 32 b)) s)"
  define n where "n = ccp_frame j w"
  have j: "j < length (cc_frames (cn_ccp s))" using ccp_slot_less[OF node(1)] by (simp add: j_def)
  then have old: "length (cc_frames (cn_ccp s) ! j) = 48" using node(1) by (simp add: ccp_ok_def sizeof_ccp_frame_def)
  have buf: "32 \<le> length b" using node(5) by (simp add: good_blink_def names)
  have n: "n = write_at (cc_frames (cn_ccp s) ! j) 0 (take 32 b)" "j < length (cc_frames (cn_ccp w))"
    "cc_tof_comp_cb (cn_ccp w) = None" "dev_rxtimestamp (cn_dev w) = rx"
    using j node(4) by (simp_all add: n_def w_def ccp_frame_def on_ccp_frame_def uwb_stop_rx_def frame names)
  note nf = blink_fields[OF old buf, folded n(1)]
  have pre: "length (ccp_frame j w) = 48" "cf_rpt_count (ccp_frame j w) \<noteq> 0"
    using node(6) nf(6) old n(1) by (simp_all add: n_def[symmetric] names)
  have taken: "blink_taken B k s = ccp_take_epochs B k j w"
    unfolding blink_taken_def j_def[symmetric] names(1)[symmetric] w_def[symmetric] ..
  obtain e where e: "c = (let c = cn_ccp (blink_taken B k s)
       in c\<lparr>cc_sem := Suc (cc_sem c), cc_status := (cc_status c)\<lparr>cs_start_tx_error := e\<rparr>\<rparr>)"
    using rx_complete_takes[OF node(1,2,3,5), of k] by (auto simp: names)
  have dn: "d = (cf_transmission_interval n div 0x100000000 + 1) * 0x100000000 - cf_transmission_interval n"
    using d by (simp only: nf)
  note tk = take_epochs_relayed[OF n(2) pre n(3) node(7) n_def dn refl, of k]
  show "cc_master_epoch c = cf_transmission_timestamp b - push_bit 16 (ucast (cf_epoch_to_rm_us b)) - d"
    "cc_local_epoch c = (rx - push_bit 16 (ucast (cf_epoch_to_rm_us b)) - d) AND UWB_DTU_40BMASK"
    "cc_period c = ucast (drop_bit 16 (cf_transmission_interval b + d))" "cc_seq_num c = cf_seq_num b" "cc_master_euid c = cf_euid b"
    using tk unfolding e taken by (simp_all add: Let_def nf n(4))
qed

section \<open>Packets one after the other\<close>

text \<open>A frame at a node's receiver; a node that listens again, takes the semaphore and hears it.\<close>

definition ccp_heard :: "bytes \<Rightarrow> u64 \<Rightarrow> 'x ccp_node \<Rightarrow> 'x ccp_node" where
  "ccp_heard f rx = on_cdev (\<lambda>d. d\<lparr>dev_fctrl := 0xC5, dev_frame_len := 34, dev_rxbuf := f, dev_rxtimestamp := rx,
     dev_status := (dev_status d)\<lparr>st_lde_error := False\<rparr>\<rparr>)"

definition ccp_hears :: "'x ccp_build \<Rightarrow> ccp_clock \<times> bytes \<times> u64 \<Rightarrow> 'x ccp_node \<Rightarrow> 'x ccp_node" where
  "ccp_hears B p s = (case p of (k, f, rx) \<Rightarrow> snd (ccp_rx_complete_cb B k (ccp_heard f rx (on_ccp (\<lambda>c. c\<lparr>cc_sem := 0\<rparr>) s))))"

lemma ccp_heard_simps [simp]:
  "cn_ccp (ccp_heard f rx s) = cn_ccp s" "dev_rxbuf (cn_dev (ccp_heard f rx s)) = f" "dev_rxtimestamp (cn_dev (ccp_heard f rx s)) = rx"
  "ccp_ok (ccp_heard f rx s) = ccp_ok s"
  by (simp_all add: ccp_heard_def ccp_ok_def)

lemma ccp_heard_good: "32 \<le> length f \<Longrightarrow> cb_test_cascade B = 0 \<Longrightarrow> good_blink B (ccp_heard f rx s)"
  by (simp add: good_blink_def ccp_heard_def)

lemma rx_complete_keeps:
  assumes "ccp_ok s" "cc_role (cn_ccp s) \<noteq> CCP_ROLE_MASTER" "cc_sem (cn_ccp s) = 0" "good_blink B s"
  shows "ccp_ok (snd (ccp_rx_complete_cb B k s))" "cc_role (cn_ccp (snd (ccp_rx_complete_cb B k s))) = cc_role (cn_ccp s)"
proof -
  define t where "t = blink_taken B k s"
  have "same_core t s" unfolding t_def blink_taken_def by (intro core_take_epochs core_steps) simp
  then obtain s3 where "snd (ccp_rx_complete_cb B k s) = ccp_release (post_postprocess (superframe_callbacks B s3))" and core: "same_core s3 s"
    using rx_complete_result[OF assms, of k] core_relay_frame[of t s B] unfolding t_def[symmetric] Let_def by (metis snd_conv)
  moreover have "ccp_ok (post_postprocess (superframe_callbacks B s3))" "cc_sem (cn_ccp s3) = 0" "cc_role (cn_ccp s3) = cc_role (cn_ccp s)"
    using same_core_ok(1)[OF core] core assms(1,3) by (simp_all add: ccp_ok_def same_core_def Let_def)
  ultimately show "ccp_ok (snd (ccp_rx_complete_cb B k s))" "cc_role (cn_ccp (snd (ccp_rx_complete_cb B k s))) = cc_role (cn_ccp s)"
    by (simp_all add: ccp_release_def ccp_ok_def dpl_sem_release_def)
qed

text \<open>One packet straight from the master \<open>E\<close>, and what it does to the count of valid packets.\<close>

definition hearing :: "'x ccp_build \<Rightarrow> 'x ccp_node \<Rightarrow> bool" where
  "hearing B s \<longleftrightarrow> ccp_ok s \<and> cc_role (cn_ccp s) \<noteq> CCP_ROLE_MASTER \<and> cc_tof_comp_cb (cn_ccp s) = None \<and>
     cb_test_cascade B = 0 \<and> \<not> cb_wcs_enabled B"

definition direct_blink :: "u64 \<Rightarrow> bytes \<Rightarrow> bool" where
  "direct_blink E b \<longleftrightarrow> 32 \<le> length b \<and> cf_rpt_count b = 0 \<and> cf_euid b = E \<and>
     push_bit 16 (ucast (cf_epoch_to_rm_us b)) \<le> cf_transmission_timestamp b"

lemma hears_direct:
  assumes "hearing B s" and "direct_blink E b" and s'_def: "s' = ccp_hears B (k, b, rx) s"
  shows "hearing B s'" and "cc_master_euid (cn_ccp s') = E" and "cc_master_epoch (cn_ccp s') \<le> cf_transmission_timestamp b"
    and "cs_valid (cc_status (cn_ccp s')) = cs_valid (cc_status (ccp_validate (cb_valid_threshold B) b (cn_ccp s)))"
    and "cs_valid_count (cc_status (cn_ccp s')) = cs_valid_count (cc_status (ccp_validate (cb_valid_threshold B) b (cn_ccp s)))"
proof -
  define u where "u = ccp_heard b rx (on_ccp (\<lambda>c. c\<lparr>cc_sem := 0\<rparr>) s)"
  have u: "ccp_ok u" "cc_role (cn_ccp u) \<noteq> CCP_ROLE_MASTER" "cc_sem (cn_ccp u) = 0" "cc_tof_comp_cb (cn_ccp u) = None"
    "good_blink B u" "cf_rpt_count (dev_rxbuf (cn_dev u)) = 0" "\<not> cb_wcs_enabled B"
    using assms(1,2) ccp_heard_good by (auto simp: u_def hearing_def direct_blink_def) (simp add: ccp_ok_def)
  have s': "s' = snd (ccp_rx_complete_cb B k u)" by (simp add: s'_def ccp_hears_def u_def)
  have val: "cs_valid (cc_status (ccp_validate t b (cn_ccp u))) = cs_valid (cc_status (ccp_validate t b (cn_ccp s)))"
    "cs_valid_count (cc_status (ccp_validate t b (cn_ccp u))) = cs_valid_count (cc_status (ccp_validate t b (cn_ccp s)))" for t
    by (simp_all add: u_def ccp_validate_def Let_def)
  obtain x g where c: "cc_master_epoch (cn_ccp s') = cf_transmission_timestamp b - push_bit 16 (ucast (cf_epoch_to_rm_us b))"
      "cc_master_euid (cn_ccp s') = cf_euid b" "cc_tof_comp_cb (cn_ccp s') = None"
      "cs_valid (cc_status (cn_ccp s')) = cs_valid (cc_status (ccp_validate (cb_valid_threshold B) b (cn_ccp u)))"
      "cs_valid_count (cc_status (cn_ccp s')) = cs_valid_count (cc_status (ccp_validate (cb_valid_threshold B) b (cn_ccp u)))"
    by (rule direct_taken[OF u refl refl refl s' refl]) (simp add: u_def)
  show "hearing B s'" using rx_complete_keeps[OF u(1-3,5), of k] u(2) c(3) assms(1) by (simp add: s' hearing_def)
  show "cc_master_euid (cn_ccp s') = E" using c(2) assms(2) by (simp add: direct_blink_def)
  show "cc_master_epoch (cn_ccp s') \<le> cf_transmission_timestamp b"
    using assms(2) unfolding c(1) direct_blink_def by (simp add: word_le_nat_alt unat_sub)
  show "cs_valid (cc_status (cn_ccp s')) = cs_valid (cc_status (ccp_validate (cb_valid_threshold B) b (cn_ccp s)))"
    and "cs_valid_count (cc_status (cn_ccp s')) = cs_valid_count (cc_status (ccp_validate (cb_valid_threshold B) b (cn_ccp s)))"
    using c(4,5) val by simp_all
qed

end
