(* ===== verification/Ccp_Claims.thy ===== *)
theory Ccp_Claims
  imports Uwb_Ccp_Epochs Samples
begin

text \<open>
  The properties of the clock calibration packets: the epoch at the two ends of a packet and
  behind a relay, the node as a system of steps, the length of a period, and when the time is valid.
\<close>

unbundle bit_operations_syntax


section \<open>Sample nodes\<close>

definition ccp_sample_build :: "unit ccp_build" where
  "ccp_sample_build = \<lparr>cb_uf = sample_uf, cb_period = 0x100000, cb_rpts = 1, cb_rpt_holdoff = 0x400, cb_valid_threshold = 2, cb_tolerate = 0,
     cb_long_rx_to = 0xFFFF, cb_os_latency = 1000, cb_xtalt_guard = 10, cb_test_cascade = 0, cb_wcs_enabled = False, cb_wcs = None,
     cb_superframe = (\<lambda>_ _ x. x)\<rparr>"

definition ccp_sample_instance :: "uwb_ccp_role_t \<Rightarrow> nat \<Rightarrow> uwb_ccp_instance" where
  "ccp_sample_instance role sem = (calloc_ccp ccp_sample_build 2)\<lparr>cc_role := role, cc_sem := sem, cc_period := 0x100000, cc_tx_holdoff_dly := 0x400\<rparr>"

definition ccp_sample_node :: "uwb_ccp_role_t \<Rightarrow> nat \<Rightarrow> unit ccp_node" where
  "ccp_sample_node role sem = \<lparr>hal_nt = \<lparr>ticks_per_ostick = 1, nt_cnt = 0, last_ostime = 0, nt_timers = [], nt_settime = (0, 0)\<rparr>,
     ht_expiry = (\<lambda>_. 0), ht_linked = (\<lambda>_. False), cn_dev = (sample_dev 1)\<lparr>dev_euid := 77, dev_tx_antenna_delay := 16436\<rparr>,
     cn_ccp = ccp_sample_instance role sem, cn_stat = (\<lambda>_. 0), cn_interfaces = [], cn_posted = False, cn_postprocess_posted = False,
     cn_freed = False, cn_services = ()\<rparr>"

lemma ccp_sample_ok: "sem \<le> 1 \<Longrightarrow> ccp_ok (ccp_sample_node role sem)"
  by (simp add: ccp_ok_def ccp_sample_node_def ccp_sample_instance_def calloc_ccp_def ccp_default_frame_def sizeof_ccp_frame_def)

lemma ccp_sample_simps [simp]:
  "cc_sem (cn_ccp (ccp_sample_node role sem)) = sem" "cc_role (cn_ccp (ccp_sample_node role sem)) = role"
  "cc_nframes (cn_ccp (ccp_sample_node role sem)) = 2" "cc_tof_comp_cb (cn_ccp (ccp_sample_node role sem)) = None"
  "cc_idx (cn_ccp (ccp_sample_node role sem)) = 0" "cn_dev (ccp_sample_node role sem) = (sample_dev 1)\<lparr>dev_euid := 77, dev_tx_antenna_delay := 16436\<rparr>"
  "cc_timer_event (cn_ccp (ccp_sample_node role sem)) = None" "cc_period (cn_ccp (ccp_sample_node role sem)) = 0x100000"
  by (simp_all add: ccp_sample_node_def ccp_sample_instance_def calloc_ccp_def)

lemma ccp_build_simps [simp]:
  "cb_uf ccp_sample_build = sample_uf" "cb_test_cascade ccp_sample_build = 0" "cb_wcs_enabled ccp_sample_build = False"
  "cb_valid_threshold ccp_sample_build = 2"
  by (simp_all add: ccp_sample_build_def)

definition ccp_sample_clock :: ccp_clock where
  "ccp_sample_clock = \<lparr>ck_lo0 = 100, ck_os = 30, ck_lo1 = 200, ck_now = 30\<rparr>"

text \<open>A driver that reports no error lets every transmission start.\<close>

lemma sample_master_waits:
  obtains m where "ccp_send_start ccp_sample_build Got_token (ccp_sample_node CCP_ROLE_MASTER 1) = Some (Call_waiting, m)"
proof -
  let ?s = "ccp_sample_node CCP_ROLE_MASTER 1"
  have err: "\<not> st_start_tx_error (dev_status (uwb_start_tx sample_uf d))" for d
    by (simp add: uwb_start_tx_def uwb_command_def sample_uf_def sample_status_def)
  have "ccp_pend Got_token (on_cdev (uwb_phy_forcetrxoff sample_uf) (CCP_STATS_INC Ccp_send ?s)) =
      Some (on_ccp (\<lambda>c. c\<lparr>cc_sem := 0\<rparr>) (on_cdev (uwb_phy_forcetrxoff sample_uf) (CCP_STATS_INC Ccp_send ?s)))"
    by (rule pend_ok) simp
  then show ?thesis using that by (auto simp: ccp_send_start_def Let_def split_beta err)
qed

lemma sample_master_sends:
  obtains m1 r m2 where "ccp_send_start ccp_sample_build Got_token (ccp_sample_node CCP_ROLE_MASTER 1) = Some (Call_waiting, m1)"
    and "ccp_tx_complete_cb ccp_sample_build k m1 = Some (r, m2)"
proof -
  let ?m = "ccp_sample_node CCP_ROLE_MASTER 1"
  obtain m1 where send: "ccp_send_start ccp_sample_build Got_token ?m = Some (Call_waiting, m1)" by (rule sample_master_waits)
  note eff = send_start_effect[OF ccp_sample_ok[OF order_refl] ccp_sample_simps(1) send]
  have "\<not> cs_timer_enabled (cc_status (cn_ccp m1))" "cc_sem (cn_ccp m1) = 0"
    unfolding eff by (simp_all add: ccp_sample_node_def ccp_sample_instance_def calloc_ccp_def)
  then have "ccp_tx_complete_cb ccp_sample_build k m1 \<noteq> None"
    unfolding ccp_tx_complete_cb_def Let_def by (auto simp: adjust_for_epoch_to_rm_def read_os_epoch_fields)
  with send show ?thesis using that by fastforce
qed

section \<open>Properties\<close>

text \<open>
  C8. The master and the nodes that hear it agree on the epoch. The master prepares the next
  packet, the device takes it and reports the end of its transmission; another node is waiting,
  and the packet reaches it. Then both hold the same master epoch, period and sequence number, the
  receiver knows the master's identity, and each node's local epoch is its own reading of the
  packet's time stamp less the time from the epoch to it: the two local epochs name one instant.
\<close>

theorem ccp_nodes_agree:
  assumes master: "ccp_ok m" "cc_role (cn_ccp m) = CCP_ROLE_MASTER" "cc_sem (cn_ccp m) = 1" "unat (cc_nframes (cn_ccp m)) dvd 65536"
    and send: "ccp_send_start A Got_token m = Some (Call_waiting, m1)" and sent: "ccp_tx_complete_cb A k m1 = Some (r, m2)"
    and air: "dev_cmds (cn_dev m1) = dev_cmds (cn_dev m) @ cmds" "Write_tx f off \<in> set cmds" "dev_rxbuf (cn_dev s) = f @ crc"
    and node: "ccp_ok s" "cc_role (cn_ccp s) \<noteq> CCP_ROLE_MASTER" "cc_sem (cn_ccp s) = 0" "cc_tof_comp_cb (cn_ccp s) = None"
    and good: "good_blink B s"
    and names: "c1 = cn_ccp m2" "c2 = cn_ccp (snd (ccp_rx_complete_cb B k' s))"
      "shr = push_bit 16 (ucast (uwb_phy_SHR_duration (cb_uf A)) :: u64)"
  shows "cc_master_epoch c2 = cc_master_epoch c1 \<and> cc_period c2 = cc_period c1 \<and> cc_seq_num c2 = cc_seq_num c1 \<and>
    cc_master_euid c2 = dev_euid (cn_dev m) \<and> cc_local_epoch c1 + shr = ts_lo (cc_master_epoch c1 + shr) \<and>
    cc_local_epoch c2 + shr = dev_rxtimestamp (cn_dev s) \<and> cc_sem c1 = 1 \<and> cc_sem c2 = 1"
proof -
  define g where "g = next_frame A m"
  note gf = next_frame_fields[OF master(1) g_def]
  note eff = send_start_effect[OF master(1,3) send, folded g_def]
  have i: "ccp_slot 1 (cn_ccp m) < length (cc_frames (cn_ccp m))" by (rule ccp_slot_less[OF master(1)])
  have slot: "unat (cc_idx (cn_ccp m) + 1) mod unat (cc_nframes (cn_ccp m)) = ccp_slot 1 (cn_ccp m)"
    using ring_succ[OF master(4)] by (simp add: ccp_slot_def)
  have "g = cc_frames (cn_ccp m1) ! (unat (cc_idx (cn_ccp m1) + 1) mod unat (cc_nframes (cn_ccp m1)))"
    using i unfolding eff by (simp add: slot)
  from tx_complete_effect[OF _ _ sent this] have c1: "cc_master_epoch c1 = next_blink A m - shr"
    "cc_local_epoch c1 = ts_lo (next_blink A m) - shr" "cc_period c1 = ucast (drop_bit 16 (cf_transmission_interval g))"
    "cc_seq_num c1 = cc_seq_num (cn_ccp m) + 1" "cc_sem c1 = 1"
    using master(2) gf by (simp_all add: eff names)
  have "f = take 32 g" using air eff(2) by auto
  then have buf: "take 32 (dev_rxbuf (cn_dev s)) = take 32 g" "32 \<le> length g" using air(3) gf(1) by simp_all
  define j where "j = ccp_slot 1 (cn_ccp s)"
  define s1 where "s1 = on_cdev (uwb_stop_rx (cb_uf B)) (on_ccp_frame j (\<lambda>x. write_at x 0 (take 32 (dev_rxbuf (cn_dev s)))) s)"
  have j: "j < length (cc_frames (cn_ccp s))" using ccp_slot_less[OF node(1)] by (simp add: j_def)
  then have old: "length (cc_frames (cn_ccp s) ! j) = 48" using node(1) by (simp add: ccp_ok_def sizeof_ccp_frame_def)
  have fr: "ccp_frame j s1 = write_at (cc_frames (cn_ccp s) ! j) 0 (take 32 g)"
    using j buf by (simp add: s1_def ccp_frame_def on_ccp_frame_def)
  have taken: "blink_taken B k' s = ccp_read_epochs B k' j s1"
    unfolding blink_taken_def j_def[symmetric] s1_def[symmetric]
    by (rule take_epochs_direct) (use j old fr buf(2) gf node(4) in \<open>simp_all add: s1_def on_ccp_frame_def\<close>)
  have j1: "j < length (cc_frames (cn_ccp s1))" using j by (simp add: s1_def on_ccp_frame_def)
  have rx: "dev_rxtimestamp (cn_dev s1) = dev_rxtimestamp (cn_dev s)" "cc_sem (cn_ccp s1) = 0"
    using node(3) by (simp_all add: s1_def on_ccp_frame_def uwb_stop_rx_def frame)
  obtain e where "c2 = (let c = cn_ccp (blink_taken B k' s)
       in c\<lparr>cc_sem := Suc (cc_sem c), cc_status := (cc_status c)\<lparr>cs_start_tx_error := e\<rparr>\<rparr>)"
    using rx_complete_takes[OF node(1-3) good, of k'] by (auto simp: names)
  then have c2: "cc_master_epoch c2 = next_blink A m - shr" "cc_period c2 = ucast (drop_bit 16 (cf_transmission_interval g))"
    "cc_seq_num c2 = cc_seq_num (cn_ccp m) + 1" "cc_master_euid c2 = dev_euid (cn_dev m)"
    "cc_local_epoch c2 = dev_rxtimestamp (cn_dev s) - shr" "cc_sem c2 = 1"
    using old buf(2) gf rx unfolding taken read_epochs_instance[OF j1] fr Let_def by (simp_all add: names)
  show ?thesis using c1 c2 by simp
qed

lemma ccp_nodes_agree_witness:
  "\<exists>m1 m2 r f. ccp_send_start ccp_sample_build Got_token (ccp_sample_node CCP_ROLE_MASTER 1) = Some (Call_waiting, m1) \<and>
     ccp_tx_complete_cb ccp_sample_build ccp_sample_clock m1 = Some (r, m2) \<and>
     (let c2 = cn_ccp (snd (ccp_rx_complete_cb ccp_sample_build ccp_sample_clock (ccp_heard f 70000 (ccp_sample_node CCP_ROLE_SLAVE 0))))
      in cc_master_epoch c2 = cc_master_epoch (cn_ccp m2) \<and> cc_master_euid c2 = 77 \<and> cc_sem c2 = 1)"
proof -
  let ?m = "ccp_sample_node CCP_ROLE_MASTER 1"
  obtain m1 r m2 where send: "ccp_send_start ccp_sample_build Got_token ?m = Some (Call_waiting, m1)"
    and sent: "ccp_tx_complete_cb ccp_sample_build ccp_sample_clock m1 = Some (r, m2)"
    by (rule sample_master_sends)
  define f where "f = take 32 (next_frame ccp_sample_build ?m)"
  note eff = send_start_effect[OF ccp_sample_ok[OF order_refl] ccp_sample_simps(1) send]
  have len: "length f = 32" using next_frame_fields(1)[OF ccp_sample_ok refl, of 1 ccp_sample_build CCP_ROLE_MASTER] by (simp add: f_def)
  have good: "good_blink ccp_sample_build (ccp_heard f 70000 (ccp_sample_node CCP_ROLE_SLAVE 0))"
    by (rule ccp_heard_good) (simp_all add: len)
  have "cc_master_epoch (cn_ccp (snd (ccp_rx_complete_cb ccp_sample_build ccp_sample_clock (ccp_heard f 70000 (ccp_sample_node CCP_ROLE_SLAVE 0))))) =
      cc_master_epoch (cn_ccp m2) \<and>
    cc_master_euid (cn_ccp (snd (ccp_rx_complete_cb ccp_sample_build ccp_sample_clock (ccp_heard f 70000 (ccp_sample_node CCP_ROLE_SLAVE 0))))) = 77 \<and>
    cc_sem (cn_ccp (snd (ccp_rx_complete_cb ccp_sample_build ccp_sample_clock (ccp_heard f 70000 (ccp_sample_node CCP_ROLE_SLAVE 0))))) = 1"
    using ccp_nodes_agree[where f = f and off = 0 and crc = "[]" and s = "ccp_heard f 70000 (ccp_sample_node CCP_ROLE_SLAVE 0)" and k' = ccp_sample_clock,
        OF ccp_sample_ok[OF order_refl] ccp_sample_simps(2) ccp_sample_simps(1) _ send sent eff(2) _ _ _ _ _ _ good refl refl refl]
    by (simp add: f_def ccp_sample_ok)
  with send sent show ?thesis unfolding Let_def by blast
qed

text \<open>
  C10. A node that hears only a relay gets the master's epoch back. The relay hears the master and
  sends the packet on, after a delay below \<open>2 ^ 32\<close> units within which its 40-bit clock does not
  wrap, the interval being a multiple of \<open>2 ^ 32\<close>, as the code assumes. Then the listener holds the same
  master epoch, period, sequence number and identity as the relay, and its local epoch precedes its
  reception by exactly the time by which the relay's local epoch precedes the relay's transmission.
\<close>

theorem ccp_relay_recovers_epoch:
  assumes relay: "ccp_ok r" "cc_role (cn_ccp r) = CCP_ROLE_RELAY" "cc_sem (cn_ccp r) = 0" "cc_tof_comp_cb (cn_ccp r) = None" "good_blink B r"
      "cf_rpt_count (dev_rxbuf (cn_dev r)) = 0" "\<not> cb_wcs_enabled B"
    and interval: "2 ^ 32 dvd unat (cf_transmission_interval (dev_rxbuf (cn_dev r)))" "0 < unat (cf_transmission_interval (dev_rxbuf (cn_dev r)))"
    and hold: "0 < relay_hold r" "relay_hold r < 65535" "unat (dev_rxtimestamp (cn_dev r)) + relay_hold r * 65536 < 2 ^ 40"
    and names: "r1 = snd (ccp_rx_complete_cb B k r)" "c1 = cn_ccp r1" "c2 = cn_ccp (snd (ccp_rx_complete_cb C k' s))"
    and air: "dev_cmds (cn_dev r1) = dev_cmds (cn_dev r) @ cmds" "Write_tx f off \<in> set cmds" "dev_rxbuf (cn_dev s) = f @ crc"
    and node: "ccp_ok s" "cc_role (cn_ccp s) \<noteq> CCP_ROLE_MASTER" "cc_sem (cn_ccp s) = 0" "cc_tof_comp_cb (cn_ccp s) = None" "good_blink C s"
      "\<not> cb_wcs_enabled C"
  shows "cc_master_epoch c2 = cc_master_epoch c1 \<and> cc_period c2 = cc_period c1 \<and> cc_seq_num c2 = cc_seq_num c1 \<and>
    cc_master_euid c2 = cc_master_euid c1 \<and>
    (\<exists>t. Set_delay_start t \<in> set cmds \<and> cc_local_epoch c2 =
      (dev_rxtimestamp (cn_dev s) - (t + ucast (dev_tx_antenna_delay (cn_dev r)) - cc_local_epoch c1)) AND UWB_DTU_40BMASK)"
proof -
  define b where "b = dev_rxbuf (cn_dev r)"
  define d where "d = relay_delay (dev_rxtimestamp (cn_dev r)) r"
  have role: "cc_role (cn_ccp r) \<noteq> CCP_ROLE_MASTER" using relay(2) by simp
  obtain x g where c1: "cc_master_epoch c1 = cf_transmission_timestamp b - push_bit 16 (ucast (cf_epoch_to_rm_us b))"
      "cc_local_epoch c1 = dev_rxtimestamp (cn_dev r) - push_bit 16 (ucast (cf_epoch_to_rm_us b))"
      "cc_period c1 = ucast (drop_bit 16 (cf_transmission_interval b))" "cc_seq_num c1 = cf_seq_num b" "cc_master_euid c1 = cf_euid b"
    and x: "x + ucast (dev_tx_antenna_delay (cn_dev r)) = dev_rxtimestamp (cn_dev r) + d"
    and g: "length g = 48" "cf_rpt_count g = 1" "cf_seq_num g = cf_seq_num b" "cf_euid g = cf_euid b"
      "cf_epoch_to_rm_us g = cf_epoch_to_rm_us b" "cf_transmission_timestamp g = cf_transmission_timestamp b + d"
      "cf_transmission_interval g = (cf_transmission_interval b - d) AND UWB_DTU_40BMASK"
    and cmds: "dev_cmds (cn_dev r1) = dev_cmds (cn_dev r) @ (if cc_role (cn_ccp r) = CCP_ROLE_RELAY \<and> cs_valid (cc_status c1) \<and> 0 < cf_rpt_max b
      then [Stop_rx, Set_delay_start x, Write_tx (take 32 g) 0, Write_tx_fctrl 32 0, Start_tx] else [Stop_rx])"
    by (rule direct_taken[OF relay(1) role relay(3-7) b_def refl d_def names(1,2)]) blast
  have cmds: "cmds = [Stop_rx, Set_delay_start x, Write_tx (take 32 g) 0, Write_tx_fctrl 32 0, Start_tx]"
    using air(1,2) cmds by (auto split: if_splits)
  then have f: "dev_rxbuf (cn_dev s) = take 32 g @ crc" "32 \<le> length (take 32 g)" using air(2,3) g(1) by auto
  define b2 where "b2 = dev_rxbuf (cn_dev s)"
  have b2: "cf_rpt_count b2 = 1" "cf_seq_num b2 = cf_seq_num b" "cf_euid b2 = cf_euid b" "cf_epoch_to_rm_us b2 = cf_epoch_to_rm_us b"
    "cf_transmission_timestamp b2 = cf_transmission_timestamp b + d"
    "cf_transmission_interval b2 = (cf_transmission_interval b - d) AND UWB_DTU_40BMASK"
    using f g by (simp_all add: b2_def blink_prefix)
  have dly: "(cf_transmission_interval b2 div 0x100000000 + 1) * 0x100000000 - cf_transmission_interval b2 = d"
    "cf_transmission_interval b2 + d = cf_transmission_interval b"
    using relayed_interval[OF interval_below[of b] _ _ relay_delay_bounds[OF hold]] interval
    unfolding b2 d_def[symmetric] b_def[symmetric] by (simp_all add: Let_def)
  have rpt: "cf_rpt_count (dev_rxbuf (cn_dev s)) \<noteq> 0" using b2(1) by (simp add: b2_def)
  note c2 = relayed_taken[OF node(1-5) rpt node(6) b2_def refl names(3) dly(1)]
  have "cc_local_epoch c2 = (dev_rxtimestamp (cn_dev s) - (x + ucast (dev_tx_antenna_delay (cn_dev r)) - cc_local_epoch c1)) AND UWB_DTU_40BMASK"
    unfolding c1 c2 x b2 by (simp add: algebra_simps)
  moreover have "cc_period c2 = cc_period c1" using c1(3) c2(3) dly(2) by simp
  moreover have "Set_delay_start x \<in> set cmds" by (simp add: cmds)
  ultimately show ?thesis using c1(1,4,5) c2(1,4,5) by (auto simp: b2)
qed

text \<open>A relay that has already heard a packet of the same master, and holds it for valid.\<close>

definition relay_sample :: "bytes \<Rightarrow> unit ccp_node" where
  "relay_sample f = ccp_heard f 70000 (on_ccp (\<lambda>c. c\<lparr>cc_master_euid := 77, cc_status := (cc_status c)\<lparr>cs_valid := True\<rparr>\<rparr>) (ccp_sample_node CCP_ROLE_RELAY 0))"

definition blink_sample :: bytes where
  "blink_sample = set_cf_epoch_to_rm_us 140 (set_cf_transmission_interval 0x1000000000 (set_cf_transmission_timestamp 0x5000000000 (set_cf_rpt_max 1 (set_cf_euid 77 (ccp_default_frame 1)))))"

lemma blink_sample_fields:
  "length blink_sample = 48" "cf_rpt_count blink_sample = 0" "cf_transmission_interval blink_sample = 0x1000000000" "cf_rpt_max blink_sample = 1"
  "cf_epoch_to_rm_us blink_sample = 140" "cf_euid blink_sample = 77" "cf_transmission_timestamp blink_sample = 0x5000000000"
  by (simp_all add: blink_sample_def ccp_default_frame_def sizeof_ccp_frame_def layout interval_bits) (simp add: UWB_DTU_40BMASK_def)

lemma relay_sample_facts:
  "ccp_ok (relay_sample f)" "cc_role (cn_ccp (relay_sample f)) = CCP_ROLE_RELAY" "cc_sem (cn_ccp (relay_sample f)) = 0"
  "cc_tof_comp_cb (cn_ccp (relay_sample f)) = None" "dev_rxbuf (cn_dev (relay_sample f)) = f" "dev_rxtimestamp (cn_dev (relay_sample f)) = 70000"
  "relay_hold (relay_sample f) = 1024" "32 \<le> length f \<Longrightarrow> good_blink ccp_sample_build (relay_sample f)"
proof -
  show "ccp_ok (relay_sample f)" using ccp_sample_ok[of 0 CCP_ROLE_RELAY] by (simp add: relay_sample_def ccp_ok_def)
  show "relay_hold (relay_sample f) = 1024"
    by (simp add: relay_hold_def relay_sample_def ccp_heard_def ccp_sample_node_def ccp_sample_instance_def sample_dev_def)
  show "32 \<le> length f \<Longrightarrow> good_blink ccp_sample_build (relay_sample f)"
    unfolding relay_sample_def by (rule ccp_heard_good) simp_all
qed (simp_all add: relay_sample_def)

lemma ccp_relay_recovers_epoch_witness:
  "\<exists>f. let c1 = cn_ccp (snd (ccp_rx_complete_cb ccp_sample_build ccp_sample_clock (relay_sample blink_sample)));
           c2 = cn_ccp (snd (ccp_rx_complete_cb ccp_sample_build ccp_sample_clock (ccp_heard f 90000 (ccp_sample_node CCP_ROLE_SLAVE 0))))
       in cf_rpt_count f = 1 \<and> cc_master_epoch c2 = cc_master_epoch c1 \<and> cc_period c2 = cc_period c1"
proof -
  let ?r = "relay_sample blink_sample"
  note rf = relay_sample_facts[of blink_sample]
  have role: "cc_role (cn_ccp ?r) \<noteq> CCP_ROLE_MASTER" and good: "good_blink ccp_sample_build ?r"
    using rf(2,8) by (simp_all add: blink_sample_fields)
  obtain x g where g: "length g = 48" "cf_rpt_count g = 1"
    and valid: "cs_valid (cc_status (cn_ccp (snd (ccp_rx_complete_cb ccp_sample_build ccp_sample_clock ?r)))) =
      cs_valid (cc_status (ccp_validate (cb_valid_threshold ccp_sample_build) (dev_rxbuf (cn_dev ?r)) (cn_ccp ?r)))"
    and cmds: "dev_cmds (cn_dev (snd (ccp_rx_complete_cb ccp_sample_build ccp_sample_clock ?r))) = dev_cmds (cn_dev ?r) @
      (if cc_role (cn_ccp ?r) = CCP_ROLE_RELAY \<and> cs_valid (cc_status (cn_ccp (snd (ccp_rx_complete_cb ccp_sample_build ccp_sample_clock ?r)))) \<and>
         0 < cf_rpt_max (dev_rxbuf (cn_dev ?r))
       then [Stop_rx, Set_delay_start x, Write_tx (take 32 g) 0, Write_tx_fctrl 32 0, Start_tx] else [Stop_rx])"
    by (rule direct_taken[OF rf(1) role rf(3,4) good _ _ refl refl refl refl refl, where k = ccp_sample_clock]) (simp_all add: rf blink_sample_fields)
  have "cs_valid (cc_status (ccp_validate (cb_valid_threshold ccp_sample_build) (dev_rxbuf (cn_dev ?r)) (cn_ccp ?r)))"
    by (simp add: ccp_validate_def rf blink_sample_fields) (simp add: relay_sample_def ccp_sample_node_def ccp_sample_instance_def calloc_ccp_def)
  then have cmds: "dev_cmds (cn_dev (snd (ccp_rx_complete_cb ccp_sample_build ccp_sample_clock ?r))) = dev_cmds (cn_dev ?r) @
      [Stop_rx, Set_delay_start x, Write_tx (take 32 g) 0, Write_tx_fctrl 32 0, Start_tx]"
    using cmds valid by (simp add: rf blink_sample_fields)
  let ?s = "ccp_heard (take 32 g) 90000 (ccp_sample_node CCP_ROLE_SLAVE 0)"
  have good2: "good_blink ccp_sample_build ?s"
    by (rule ccp_heard_good) (simp_all add: g)
  have "cf_rpt_count (take 32 g) = 1" using blink_prefix(3)[OF g(1), of "[]"] g(2) by simp
  then show ?thesis
    using ccp_relay_recovers_epoch[where f = "take 32 g" and off = 0 and crc = "[]" and s = ?s and k' = ccp_sample_clock,
        OF rf(1-4) good _ _ _ _ _ _ _ refl refl refl cmds _ _ _ _ _ _ good2]
    by (intro exI[of _ "take 32 g"]) (simp add: rf blink_sample_fields ccp_sample_ok)
qed

definition ccp_sample_run :: "ccp_clock \<Rightarrow> ccp_op list" where
  "ccp_sample_run k = [App_start CCP_ROLE_MASTER (10, 10, 10), Timer_irq, Timer_event Got_token Got_token (20, 20, 20),
     Cb_tx_complete k, Cb_error, App_stop 30]"

lemma sample_run_fair:
  assumes "timers s = []" and "\<not> cn_posted s" and "cc_timer_event (cn_ccp s) = None"
  shows "ccp_fair B (ccp_sample_run k) (Task_idle, s)"
proof (cases "uwb_ccp_start B CCP_ROLE_MASTER (10, 10, 10) s")
  case None
  then show ?thesis using assms by (simp add: ccp_sample_run_def ccp_enabled_def armed_def ccp_step_def)
next
  case (Some s1)
  have "timers s1 = [0]" by (rule start_alone[OF assms(1) Some])
  then show ?thesis
    using assms Some by (simp add: ccp_sample_run_def ccp_enabled_def armed_def ccp_step_def ccp_timer_irq_def split: option.splits)
qed

text \<open>
  C9. A started service never stalls. From a freshly initialised instance whose timer is
  not armed, let any sequence of steps happen that can: the timer's interrupt, the task's event, the ends of its waits, the
  device's callbacks at any moment, stops at any moment, and starts at rest with nothing of an earlier start on
  the way, in a role the handler fits. Then no assert fails and the timer is never linked
  twice; the semaphore holds at most one token, exactly one at rest; and an enabled
  service is in a wait, or its timer is armed, or its event is posted, never the last two at once.
\<close>

theorem ccp_service_never_stalls:
  assumes init: "uwb_ccp_init B n s = Some s0" and timer: "distinct (timers s)" "0 \<notin> set (timers s)" "\<not> ht_linked s 0"
    and fair: "ccp_fair B ops (Task_idle, s0)"
  shows "\<exists>pc s'. ccp_run B ops (Task_idle, s0) = Some (pc, s') \<and> cc_sem (cn_ccp s') \<le> 1 \<and> (pc = Task_idle \<longrightarrow> cc_sem (cn_ccp s') = 1) \<and>
    (cs_enabled (cc_status (cn_ccp s')) \<longrightarrow> pc \<noteq> Task_idle \<or> 0 \<in> set (timers s') \<or> cn_posted s') \<and>
    \<not> (0 \<in> set (timers s') \<and> cn_posted s')"
proof -
  have "linked_ok s" "\<not> armed s" using timer by (simp_all add: linked_ok_def armed_def)
  then have "ccp_inv (Task_idle, s0)" by (rule ccp_init_inv[OF init])
  then obtain pc s' where run: "ccp_run B ops (Task_idle, s0) = Some (pc, s')" and inv: "ccp_inv (pc, s')" using ccp_run_ok fair by fastforce
  have "cc_sem (cn_ccp s') \<le> 1" by (rule ccp_inv_sem[OF inv])
  moreover have "\<not> (armed s' \<and> cn_posted s')" "pc = Task_idle \<longrightarrow> cc_sem (cn_ccp s') = 1"
    "cs_enabled (cc_status (cn_ccp s')) \<longrightarrow> pc \<noteq> Task_idle \<or> armed s' \<or> cn_posted s'"
    using inv by (auto simp: ccp_invI_simps)
  ultimately show ?thesis using run by (auto simp: armed_def)
qed

lemma ccp_service_never_stalls_witness:
  "\<exists>s0 pc s'. uwb_ccp_init ccp_sample_build 2 (ccp_sample_node CCP_ROLE_MASTER 1) = Some s0 \<and>
     ccp_run ccp_sample_build (ccp_sample_run ccp_sample_clock) (Task_idle, s0) = Some (pc, s') \<and> cc_sem (cn_ccp s') \<le> 1"
proof -
  let ?s = "ccp_sample_node CCP_ROLE_MASTER 1"
  obtain s0 where init: "uwb_ccp_init ccp_sample_build 2 ?s = Some s0"
    and s0: "timers s0 = []" "\<not> cn_posted s0" "cc_timer_event (cn_ccp s0) = None"
    by (simp add: uwb_ccp_init_def ccp_sample_node_def calloc_ccp_def Let_def)
  have "distinct (timers ?s)" "0 \<notin> set (timers ?s)" "\<not> ht_linked ?s 0" by (simp_all add: ccp_sample_node_def)
  from ccp_service_never_stalls[OF init this sample_run_fair[OF s0, of ccp_sample_build ccp_sample_clock]] init show ?thesis by blast
qed

lemma period_bits:
  assumes "(p :: u32) < 2 ^ 24"
  shows "push_bit 16 (ucast p) AND UWB_DTU_40BMASK = push_bit 16 (ucast p)" and "(ucast (drop_bit 16 (push_bit 16 (ucast p :: u64))) :: u32) = p"
proof -
  have "take_bit 24 p = p"
    by (rule word_unat_eq_iff[THEN iffD2]) (use assms in \<open>simp add: unsigned_take_bit_eq take_bit_nat_eq_self word_less_nat_alt\<close>)
  then have bits: "bit p n \<Longrightarrow> n < 24" for n by (metis bit_take_bit_iff)
  have M: "UWB_DTU_40BMASK = mask 40" by (simp add: UWB_DTU_40BMASK_def mask_eq_exp_minus_1)
  show "push_bit 16 (ucast p) AND UWB_DTU_40BMASK = push_bit 16 (ucast p)"
    unfolding M by (rule bit_word_eqI) (auto simp: bit_simps dest: bits)
  show "(ucast (drop_bit 16 (push_bit 16 (ucast p :: u64))) :: u32) = p"
    by (rule bit_word_eqI) (auto simp: bit_simps dest: bits)
qed

lemma round_down_512: "(x :: u64) AND 0xFFFFFFFFFFFFFE00 = push_bit 9 (drop_bit 9 x)"
proof -
  have K: "(0xFFFFFFFFFFFFFE00 :: u64) = NOT (mask 9)" by (simp add: mask_eq_exp_minus_1)
  show ?thesis unfolding K by (rule bit_word_eqI) (auto simp: bit_simps)
qed

lemma round_down_add: "(push_bit 9 z + a :: u64) AND 0xFFFFFFFFFFFFFE00 = push_bit 9 z + (a AND 0xFFFFFFFFFFFFFE00)"
proof -
  define w where "w = z + drop_bit 9 a"
  have "push_bit 9 z + a = push_bit 9 w + take_bit 9 a"
    using bits_ident[of 9 a] by (simp add: w_def push_bit_add add.assoc)
  also have "\<dots> = push_bit 9 w OR take_bit 9 a"
    by (rule disjunctive_add_eq_or) (rule bit_word_eqI, auto simp: bit_simps)
  finally have "push_bit 9 z + a = push_bit 9 w OR take_bit 9 a" .
  moreover have "push_bit 9 (drop_bit 9 (push_bit 9 w OR take_bit 9 a)) = push_bit 9 w"
    by (rule bit_word_eqI) (auto simp: bit_simps)
  ultimately show ?thesis by (simp add: round_down_512 w_def push_bit_add)
qed

text \<open>
  C26. The master's clock runs slow against its own announcement. Each packet's time stamp holds
  the antenna delay, and the next one is counted from that time stamp and delayed again: between
  two packets that went out lie the announced interval and the antenna delay, rounded down to the 512
  units of the transmitter. With the delay of the sample device each period is 16384 units longer
  than announced.
\<close>

theorem ccp_master_interval:
  assumes master: "ccp_ok m" "cc_role (cn_ccp m) = CCP_ROLE_MASTER" "cc_sem (cn_ccp m) = 1" "unat (cc_nframes (cn_ccp m)) dvd 65536"
    and send: "ccp_send_start A Got_token m = Some (Call_waiting, m1)" and sent: "ccp_tx_complete_cb A k m1 = Some (r, m2)"
    and period: "cc_period (cn_ccp m) < 2 ^ 24"
  shows "next_blink A m2 - next_blink A m =
    cf_transmission_interval (next_frame A m) + (ucast (dev_tx_antenna_delay (cn_dev m)) AND 0xFFFFFFFFFFFFFE00)"
proof -
  define g where "g = next_frame A m"
  define P where "P = (push_bit 16 (ucast (cc_period (cn_ccp m))) :: u64)"
  define a where "a = (ucast (dev_tx_antenna_delay (cn_dev m)) :: u64)"
  note gf = next_frame_fields[OF master(1) g_def]
  note eff = send_start_effect[OF master(1,3) send, folded g_def]
  have i: "ccp_slot 1 (cn_ccp m) < length (cc_frames (cn_ccp m))" by (rule ccp_slot_less[OF master(1)])
  have slot: "unat (cc_idx (cn_ccp m) + 1) mod unat (cc_nframes (cn_ccp m)) = ccp_slot 1 (cn_ccp m)"
    using ring_succ[OF master(4)] by (simp add: ccp_slot_def)
  have g1: "g = cc_frames (cn_ccp m1) ! (unat (cc_idx (cn_ccp m1) + 1) mod unat (cc_nframes (cn_ccp m1)))"
    using i unfolding eff by (simp add: slot)
  have pre: "cc_sem (cn_ccp m1) = 0" "cc_role (cn_ccp m1) = CCP_ROLE_MASTER" using master(2) by (simp_all add: eff)
  note fin = tx_complete_effect[OF pre sent g1]
  have interval: "cf_transmission_interval g = P" "ucast (drop_bit 16 P) = cc_period (cn_ccp m)"
    using period_bits[OF period] by (simp_all add: gf P_def)
  have "ccp_frame (ccp_slot 0 (cn_ccp m2)) m2 = g"
    using i by (simp add: ccp_frame_def ccp_slot_def fin g1)
  then have "next_blink A m2 = ((next_blink A m + P) AND 0xFFFFFFFFFFFFFE00) + a"
    using gf(2) by (simp add: next_blink_def[of A m2] fin interval eff(3) P_def[symmetric] a_def)
  moreover obtain y where "next_blink A m = push_bit 9 y + a" by (auto simp: next_blink_def a_def round_down_512)
  moreover have "P = push_bit 9 (push_bit 7 (ucast (cc_period (cn_ccp m))))" by (simp add: P_def push_bit_push_bit)
  ultimately have "next_blink A m2 = P + next_blink A m + (a AND 0xFFFFFFFFFFFFFE00)"
    using round_down_add[of "y + push_bit 7 (ucast (cc_period (cn_ccp m)))" a] by (simp add: push_bit_add algebra_simps)
  then show ?thesis by (simp add: interval g_def[symmetric] a_def)
qed

lemma ccp_master_interval_witness:
  "\<exists>m1 r m2. ccp_send_start ccp_sample_build Got_token (ccp_sample_node CCP_ROLE_MASTER 1) = Some (Call_waiting, m1) \<and>
     ccp_tx_complete_cb ccp_sample_build ccp_sample_clock m1 = Some (r, m2) \<and>
     next_blink ccp_sample_build m2 - next_blink ccp_sample_build (ccp_sample_node CCP_ROLE_MASTER 1) = 0x1000000000 + 16384"
proof -
  let ?m = "ccp_sample_node CCP_ROLE_MASTER 1"
  obtain m1 r m2 where send: "ccp_send_start ccp_sample_build Got_token ?m = Some (Call_waiting, m1)"
    and sent: "ccp_tx_complete_cb ccp_sample_build ccp_sample_clock m1 = Some (r, m2)"
    by (rule sample_master_sends)
  have i: "cf_transmission_interval (next_frame ccp_sample_build ?m) = 0x1000000000"
    using next_frame_fields(7)[OF ccp_sample_ok refl, of 1 ccp_sample_build CCP_ROLE_MASTER] by (simp add: UWB_DTU_40BMASK_def)
  show ?thesis
    using ccp_master_interval[OF ccp_sample_ok[OF order_refl] ccp_sample_simps(2) ccp_sample_simps(1) _ send sent] send sent
    by (auto simp: i[unfolded One_nat_def])
qed

text \<open>The state of the count after \<open>n\<close> packets in a row.\<close>

definition counted :: "int \<Rightarrow> nat \<Rightarrow> uwb_ccp_instance \<Rightarrow> bool" where
  "counted t n c \<longleftrightarrow>
     uint (cs_valid_count (cc_status c)) = (if t = 0 then 0 else if t \<le> 8 then min (int n - 1) (t - 1) else (int n - 1) mod 8) \<and>
     (cs_valid (cc_status c) \<longleftrightarrow> t = 0 \<or> t \<le> 8 \<and> max 2 t \<le> int n)"

lemma counted_first:
  assumes "\<not> cs_valid (cc_status c)" and "cc_master_euid c \<noteq> E" and "cf_euid b = E" and "0 \<le> t"
  shows "counted t 1 (ccp_validate t b c)"
  using assms by (simp add: ccp_validate_def counted_def)

lemma counted_next:
  assumes "counted t n c" and "1 \<le> n" and "0 \<le> t" and "cc_master_epoch c \<le> cf_transmission_timestamp b" and "cf_euid b = cc_master_euid c"
  shows "counted t (Suc n) (ccp_validate t b c)"
proof -
  define v where "v = uint (cs_valid_count (cc_status c))"
  have v: "0 \<le> v" "v < 8" using unsigned_greater_eq[of "cs_valid_count (cc_status c)"] unsigned_less[of "cs_valid_count (cc_status c)"]
    by (simp_all add: v_def uint_bounded)
  have inc: "uint (cs_valid_count (cc_status c) + 1) = (v + 1) mod 8"
    by (simp add: v_def uint_word_ariths)
  have c: "v = (if t = 0 then 0 else if t \<le> 8 then min (int n - 1) (t - 1) else (int n - 1) mod 8)"
    "cs_valid (cc_status c) \<longleftrightarrow> t = 0 \<or> t \<le> 8 \<and> max 2 t \<le> int n"
    using assms(1) by (simp_all add: counted_def v_def)
  have val: "ccp_validate t b c = c\<lparr>cc_status := (let st = (if v < t - 1 then (cc_status c)\<lparr>cs_valid_count := cs_valid_count (cc_status c) + 1\<rparr> else cc_status c)
      in st\<lparr>cs_valid := (cs_valid st \<or> uint (cs_valid_count st) = t - 1)\<rparr>)\<rparr>"
    using assms(4,5) by (simp add: ccp_validate_def Let_def v_def not_less)
  consider "t = 0" | "0 < t" "t \<le> 8" | "8 < t" using assms(3) by linarith
  then show ?thesis
  proof cases
    case 1
    then show ?thesis using c unfolding val by (simp add: counted_def v_def)
  next
    case 2
    then show ?thesis using c v inc assms(2) unfolding val counted_def
      by (cases "v < t - 1") (auto simp: Let_def v_def[symmetric] min_def max_def split: if_splits)
  next
    case 3
    have "(int n - 1 + 1) mod 8 = ((int n - 1) mod 8 + 1) mod 8" by (simp add: mod_add_left_eq)
    then show ?thesis using 3 c v inc assms(2) unfolding val counted_def by (auto simp: Let_def v_def[symmetric])
  qed
qed

text \<open>
  C25. A node holds the time for valid after exactly the configured number of packets. Let a node
  that knows another master, or none, hear packets straight from one master whose time stamps do
  not go back. Its time is valid after the first if the threshold is 0, and otherwise after as many
  packets as the threshold says, but at least two: a threshold of 1 counts as 2. The counter has three bits:
  with a threshold above 8 the time never becomes valid.
\<close>

theorem ccp_valid_after_threshold:
  assumes node: "hearing B s" "\<not> cs_valid (cc_status (cn_ccp s))" "cc_master_euid (cn_ccp s) \<noteq> E" and t: "0 \<le> cb_valid_threshold B"
    and packets: "ps \<noteq> []" "\<forall>(k, b, rx) \<in> set ps. direct_blink E b" "sorted (map (\<lambda>(k, b, rx). cf_transmission_timestamp b) ps)"
  shows "cs_valid (cc_status (cn_ccp (fold (ccp_hears B) ps s))) \<longleftrightarrow>
    cb_valid_threshold B = 0 \<or> cb_valid_threshold B \<le> 8 \<and> max 2 (cb_valid_threshold B) \<le> int (length ps)"
proof -
  let ?ts = "\<lambda>(k, b, rx). cf_transmission_timestamp b"
  have "let s' = fold (ccp_hears B) ps s in hearing B s' \<and> cc_master_euid (cn_ccp s') = E \<and>
      counted (cb_valid_threshold B) (length ps) (cn_ccp s') \<and> cc_master_epoch (cn_ccp s') \<le> ?ts (last ps)"
    using packets
  proof (induction ps rule: rev_induct)
    case (snoc p ps)
    obtain k b rx where p: "p = (k, b, rx)" by (cases p)
    define u where "u = fold (ccp_hears B) ps s"
    have b: "direct_blink E b" "cf_euid b = E" using snoc.prems(2) by (simp_all add: p direct_blink_def)
    have hu: "hearing B u" and cnt: "counted (cb_valid_threshold B) (length (ps @ [p])) (ccp_validate (cb_valid_threshold B) b (cn_ccp u))"
    proof -
      have "hearing B u \<and> counted (cb_valid_threshold B) (length (ps @ [p])) (ccp_validate (cb_valid_threshold B) b (cn_ccp u))"
      proof (cases "ps = []")
        case True
        then show ?thesis using node counted_first[OF node(2) _ b(2) t] by (simp add: u_def)
      next
        case False
        then have IH: "hearing B u" "cc_master_euid (cn_ccp u) = E" "counted (cb_valid_threshold B) (length ps) (cn_ccp u)"
          "cc_master_epoch (cn_ccp u) \<le> ?ts (last ps)"
          using snoc.IH snoc.prems by (simp_all add: u_def sorted_append Let_def)
        moreover have "?ts (last ps) \<le> cf_transmission_timestamp b"
          using snoc.prems(3) last_in_set[OF False] by (auto simp: sorted_append p)
        ultimately show ?thesis using counted_next[OF IH(3) _ t, of b] False b(2) by (simp add: Suc_le_eq)
      qed
      then show "hearing B u" and "counted (cb_valid_threshold B) (length (ps @ [p])) (ccp_validate (cb_valid_threshold B) b (cn_ccp u))"
        by blast+
    qed
    show ?case
      using hears_direct[OF hu b(1) refl, of k rx] cnt by (simp add: p u_def[symmetric] counted_def Let_def)
  qed simp
  then show ?thesis using packets(1) by (simp add: counted_def Let_def Suc_le_eq)
qed

lemma ccp_valid_after_threshold_witness:
  "cs_valid (cc_status (cn_ccp (fold (ccp_hears ccp_sample_build) [(ccp_sample_clock, blink_sample, 70000), (ccp_sample_clock, blink_sample, 80000)] (ccp_sample_node CCP_ROLE_SLAVE 1))))"
proof -
  have "hearing ccp_sample_build (ccp_sample_node CCP_ROLE_SLAVE 1)" by (simp add: hearing_def ccp_sample_ok)
  moreover have "\<not> cs_valid (cc_status (cn_ccp (ccp_sample_node CCP_ROLE_SLAVE 1)))" "cc_master_euid (cn_ccp (ccp_sample_node CCP_ROLE_SLAVE 1)) \<noteq> 77"
    by (simp_all add: ccp_sample_node_def ccp_sample_instance_def calloc_ccp_def)
  ultimately show ?thesis
    using ccp_valid_after_threshold[where E = 77 and ps = "[(ccp_sample_clock, blink_sample, 70000), (ccp_sample_clock, blink_sample, 80000)]" and B = ccp_sample_build
        and s = "ccp_sample_node CCP_ROLE_SLAVE 1"] blink_sample_fields
    by (simp add: direct_blink_def)
qed

end
