(* ===== verification/Json_Encode.thy ===== *)
theory Json_Encode
  imports Prelude
begin

text \<open>
  The JSON encoder, lib/json/src/json_encode.c. Output goes through the writer's callback;
  it is the string written so far. A value is a tagged union; a value of an unknown tag is
  \<open>JOther\<close>. What \<open>sprintf\<close> prints for a floating-point number is a parameter (None for
  a NaN); more than 63 characters overflow the encoder's buffer, which is None.
\<close>

section \<open>The code\<close>

datatype json_value =
    JBool u64
  | JUint u64
  | JInt u64
  | JFloat u64
  | JString string
  | JArray "json_value list"
  | JObject "(string \<times> json_value) list"
  | JOther

record json_encoder =
  je_out :: string
  je_wr_commas :: bool

type_synonym float_format = "u64 \<Rightarrow> string option"

text \<open>The length of a value is kept in 16 bits.\<close>

definition JSON_VALUE_STRING :: "string \<Rightarrow> json_value" where
  "JSON_VALUE_STRING str = JString (take (length str mod 65536) str)"

definition JSON_VALUE_STRINGN :: "string \<Rightarrow> nat \<Rightarrow> json_value" where
  "JSON_VALUE_STRINGN str len = JString (take (len mod 65536) str)"

definition JSON_VALUE_INT :: "int \<Rightarrow> json_value" where
  "JSON_VALUE_INT v = JInt (of_int v)"

definition je_write :: "string \<Rightarrow> json_encoder \<Rightarrow> json_encoder" where
  "je_write s e = e\<lparr>je_out := je_out e @ s\<rparr>"

definition set_commas :: "bool \<Rightarrow> json_encoder \<Rightarrow> json_encoder" where
  "set_commas b e = e\<lparr>je_wr_commas := b\<rparr>"

definition je_comma :: "json_encoder \<Rightarrow> json_encoder" where
  "je_comma e = (if je_wr_commas e then set_commas False (je_write '','' e) else e)"

definition digit_char :: "nat \<Rightarrow> char" where
  "digit_char d = char_of (48 + d)"

text \<open>What \<open>sprintf\<close> prints for the integer conversions.\<close>

fun print_dec :: "nat \<Rightarrow> string" where
  "print_dec n = (if n < 10 then [digit_char n] else print_dec (n div 10) @ [digit_char (n mod 10)])"

declare print_dec.simps [simp del]

definition print_u64 :: "u64 \<Rightarrow> string" where
  "print_u64 w = print_dec (unat w)"

definition print_i64 :: "u64 \<Rightarrow> string" where
  "print_i64 w = (if sint w < 0 then ''-'' @ print_dec (nat (- sint w)) else print_dec (nat (sint w)))"

definition QUOTE :: char where "QUOTE = CHR 0x22"
definition BACKSLASH :: char where "BACKSLASH = CHR 0x5C"

definition escape_char :: "char \<Rightarrow> string" where
  "escape_char c =
     (if c = QUOTE \<or> c = CHR ''/'' \<or> c = BACKSLASH then [BACKSLASH, c]
      else if c = CHR 0x09 then [BACKSLASH, CHR ''t'']
      else if c = CHR 0x0D then [BACKSLASH, CHR ''r'']
      else if c = CHR 0x0A then [BACKSLASH, CHR ''n'']
      else if c = CHR 0x0C then [BACKSLASH, CHR ''f'']
      else if c = CHR 0x08 then [BACKSLASH, CHR ''b'']
      else [c])"

definition encode_string :: "string \<Rightarrow> json_encoder \<Rightarrow> json_encoder" where
  "encode_string s e = je_write [QUOTE] (fold (\<lambda>c. je_write (escape_char c)) s (je_write [QUOTE] e))"

text \<open>\<open>strlen\<close> ends a key at its first NUL.\<close>

definition encode_key :: "string \<Rightarrow> json_encoder \<Rightarrow> json_encoder" where
  "encode_key key e =
     je_write [QUOTE, CHR '':'', CHR '' ''] (je_write (takeWhile (\<lambda>c. c \<noteq> CHR 0x00) key) (je_write [QUOTE] e))"

function (sequential)
    json_encode_value :: "float_format \<Rightarrow> json_value \<Rightarrow> json_encoder \<Rightarrow> (int \<times> json_encoder) option"
  and encode_elements :: "float_format \<Rightarrow> json_value list \<Rightarrow> json_encoder \<Rightarrow> (int \<times> json_encoder) option"
  and encode_entries :: "float_format \<Rightarrow> (string \<times> json_value) list \<Rightarrow> json_encoder \<Rightarrow> (int \<times> json_encoder) option"
  and json_encode_object_entry ::
    "float_format \<Rightarrow> string \<times> json_value \<Rightarrow> json_encoder \<Rightarrow> (int \<times> json_encoder) option" where
  "json_encode_value fmt (JBool u) e = Some (0, je_write (if u > 0 then ''true'' else ''false'') e)"
| "json_encode_value fmt (JUint u) e = Some (0, je_write (print_u64 u) e)"
| "json_encode_value fmt (JInt u) e = Some (0, je_write (print_i64 u) e)"
| "json_encode_value fmt (JFloat f) e =
     (let s = (case fmt f of None \<Rightarrow> ''null'' | Some s \<Rightarrow> s)
      in if length s > 63 then None else Some (0, je_write s e))"
| "json_encode_value fmt (JString s) e = Some (0, encode_string s e)"
| "json_encode_value fmt (JArray vs) e =
     (case encode_elements fmt vs (je_write ''['' e) of
        None \<Rightarrow> None
      | Some (rc, e) \<Rightarrow> if rc \<noteq> 0 then Some (rc, e) else Some (0, je_write '']'' e))"
| "json_encode_value fmt (JObject kvs) e =
     (case encode_entries fmt kvs (je_write ''{'' e) of
        None \<Rightarrow> None
      | Some (rc, e) \<Rightarrow> if rc \<noteq> 0 then Some (rc, e) else Some (0, je_write ''}'' e))"
| "json_encode_value fmt JOther e = Some (-1, e)"
| "encode_elements fmt [] e = Some (0, e)"
| "encode_elements fmt (v # vs) e =
     (case json_encode_value fmt v e of
        None \<Rightarrow> None
      | Some (rc, e) \<Rightarrow>
          if rc \<noteq> 0 then Some (rc, e)
          else encode_elements fmt vs (if vs \<noteq> [] then je_write '','' e else e))"
| "encode_entries fmt [] e = Some (0, e)"
| "encode_entries fmt (kv # kvs) e =
     (case json_encode_object_entry fmt kv e of
        None \<Rightarrow> None
      | Some (rc, e) \<Rightarrow> if rc \<noteq> 0 then Some (rc, e) else encode_entries fmt kvs e)"
| "json_encode_object_entry fmt (key, val) e =
     (case json_encode_value fmt val (encode_key key (je_comma e)) of
        None \<Rightarrow> None
      | Some (rc, e) \<Rightarrow> if rc \<noteq> 0 then Some (rc, e) else Some (0, set_commas True e))"
  by pat_completeness auto

termination
proof (relation "measure (\<lambda>x. case x of
      Inl (Inl (fmt, v, e)) \<Rightarrow> 2 * size v
    | Inl (Inr (fmt, vs, e)) \<Rightarrow> 2 * size_list size vs
    | Inr (Inl (fmt, kvs, e)) \<Rightarrow> 2 * size_list (size_prod (\<lambda>_. 0) size) kvs
    | Inr (Inr (fmt, (k, v), e)) \<Rightarrow> Suc (2 * size v))"; (simp; fail)?)
qed auto

definition json_encode_object_start :: "json_encoder \<Rightarrow> json_encoder" where
  "json_encode_object_start e = set_commas False (je_write ''{'' (je_comma e))"

definition json_encode_object_key :: "string \<Rightarrow> json_encoder \<Rightarrow> json_encoder" where
  "json_encode_object_key key e = encode_key key (je_comma e)"

definition json_encode_object_finish :: "json_encoder \<Rightarrow> json_encoder" where
  "json_encode_object_finish e = set_commas True (je_write ''}'' e)"

definition json_encode_array_name :: "string \<Rightarrow> json_encoder \<Rightarrow> json_encoder" where
  "json_encode_array_name name e = json_encode_object_key name e"

definition json_encode_array_start :: "json_encoder \<Rightarrow> json_encoder" where
  "json_encode_array_start e = set_commas False (je_write ''['' e)"

definition json_encode_array_value :: "float_format \<Rightarrow> json_value \<Rightarrow> json_encoder \<Rightarrow> (int \<times> json_encoder) option" where
  "json_encode_array_value fmt v e =
     (case json_encode_value fmt v (je_comma e) of
        None \<Rightarrow> None
      | Some (rc, e) \<Rightarrow> if rc \<noteq> 0 then Some (rc, e) else Some (0, set_commas True e))"

definition json_encode_array_finish :: "json_encoder \<Rightarrow> json_encoder" where
  "json_encode_array_finish e = je_write '']'' (set_commas True e)"

section \<open>What is written\<close>

text \<open>Values without objects are printed independently of the commas.\<close>

fun show_value :: "json_value \<Rightarrow> string" where
  "show_value (JBool u) = (if u > 0 then ''true'' else ''false'')"
| "show_value (JUint u) = print_u64 u"
| "show_value (JInt u) = print_i64 u"
| "show_value (JString s) = [QUOTE] @ concat (map escape_char s) @ [QUOTE]"
| "show_value _ = []"

fun is_scalar :: "json_value \<Rightarrow> bool" where
  "is_scalar (JBool u) = True"
| "is_scalar (JUint u) = True"
| "is_scalar (JInt u) = True"
| "is_scalar (JString s) = True"
| "is_scalar _ = False"

lemma je_write_append: "je_write t (je_write s e) = je_write (s @ t) e"
  by (simp add: je_write_def)

lemma fold_je_write: "fold (\<lambda>c. je_write (f c)) s e = je_write (concat (map f s)) e"
  by (induction s arbitrary: e) (simp_all add: je_write_append, simp add: je_write_def)

lemma encode_scalar: "is_scalar v \<Longrightarrow> json_encode_value fmt v e = Some (0, je_write (show_value v) e)"
  by (cases v) (simp_all add: encode_string_def fold_je_write je_write_append)

definition show_entry :: "string \<times> json_value \<Rightarrow> string" where
  "show_entry kv = [QUOTE] @ fst kv @ [QUOTE, CHR '':'', CHR '' ''] @ show_value (snd kv)"

definition plain_key :: "string \<Rightarrow> bool" where
  "plain_key k \<longleftrightarrow> (\<forall>c \<in> set k. c \<noteq> CHR 0x00 \<and> c \<noteq> QUOTE)"

lemma encode_entry:
  assumes "is_scalar (snd kv)" and "plain_key (fst kv)"
  shows "json_encode_object_entry fmt kv e =
    Some (0, set_commas True (je_write (show_entry kv) (je_comma e)))"
proof -
  have tw: "takeWhile (\<lambda>c. c \<noteq> CHR 0x00) (fst kv) = fst kv"
    using assms(2) by (simp add: takeWhile_eq_all_conv plain_key_def)
  have "encode_key (fst kv) e' = je_write ([QUOTE] @ fst kv @ [QUOTE, CHR '':'', CHR '' '']) e'" for e'
    unfolding encode_key_def tw by (simp add: je_write_append)
  then show ?thesis
    using assms(1) by (cases kv) (simp add: encode_scalar show_entry_def je_write_append)
qed

text \<open>The entries of an object, written one by one.\<close>

fun show_entries :: "bool \<Rightarrow> (string \<times> json_value) list \<Rightarrow> string" where
  "show_entries commas [] = []"
| "show_entries commas (kv # kvs) = (if commas then '','' else []) @ show_entry kv @ show_entries True kvs"

lemma encode_entries_shown:
  assumes "\<forall>kv \<in> set kvs. is_scalar (snd kv) \<and> plain_key (fst kv)"
  shows "encode_entries fmt kvs e =
    Some (0, e\<lparr>je_out := je_out e @ show_entries (je_wr_commas e) kvs, je_wr_commas := je_wr_commas e \<or> kvs \<noteq> []\<rparr>)"
  using assms
proof (induction kvs arbitrary: e)
  case (Cons kv kvs)
  then show ?case
    by (auto simp: encode_entry je_comma_def set_commas_def je_write_def)
qed simp

end
