(* ===== verification/Json_Decode.thy ===== *)
theory Json_Decode
  imports Json_Encode
begin

text \<open>
  The JSON decoder, lib/json/src/json_decode.c, over the character buffer of json_util.c.
  The caller describes the attributes it expects (\<open>json_attr\<close>: name, type and where the
  value goes); the decoder is a state machine over the characters that stores each value at
  its target as soon as it has seen it.

  A target is an address, an index and a member offset (the last two are 0 outside
  arrays). A write past the end of the value buffer, or a copy of a negative length, is
  \<open>Overflow\<close>; None is a run that does not end. The character loop is
  \<open>partial_function (option)\<close>. Objects nest only through the attribute tables, whose
  depth bounds the recursion. Floating point is that of the library (\<open>float_lib\<close>) or
  absent (None). Numbers and hexadecimal escapes are scanned as in user space (\<open>strtoll\<close>,
  \<open>strtoull\<close>, \<open>strtoul\<close>); the kernel branch, which cuts the text at the first character that is no
  hexadecimal digit and calls \<open>kstrtoll\<close> and its kin, is not modelled.
\<close>

section \<open>The buffer\<close>

definition NUL :: char where "NUL = CHR 0x00"

datatype json_val = VInt u64 | VUint u64 | VReal u64 | VBool bool | VChar char | VStr string | VPtr nat

type_synonym json_target = "nat \<times> nat \<times> nat"

text \<open>\<open>jd_text\<close> is the memory from the start to the end of the buffer, inclusive.\<close>

record json_io =
  jd_text :: string
  jd_pos :: nat
  jd_store :: "json_target \<Rightarrow> json_val option"

datatype json_end = Status int | Overflow

definition json_read_next :: "json_io \<Rightarrow> char \<times> json_io" where
  "json_read_next io =
     (if jd_pos io < length (jd_text io) then (jd_text io ! jd_pos io, io\<lparr>jd_pos := jd_pos io + 1\<rparr>) else (NUL, io))"

definition json_read_prev :: "json_io \<Rightarrow> char \<times> json_io" where
  "json_read_prev io =
     (if jd_pos io \<noteq> 0 then (jd_text io ! (jd_pos io - 1), io\<lparr>jd_pos := jd_pos io - 1\<rparr>) else (NUL, io))"

text \<open>The number of characters left can be -1; copying that many is None.\<close>

definition json_readn :: "nat \<Rightarrow> json_io \<Rightarrow> (string \<times> json_io) option" where
  "json_readn sz io =
     (if jd_pos io \<ge> length (jd_text io) then None
      else let n = min sz (length (jd_text io) - 1 - jd_pos io)
           in Some (take n (drop (jd_pos io) (jd_text io)), io\<lparr>jd_pos := jd_pos io + n\<rparr>))"

definition store :: "json_target \<Rightarrow> json_val \<Rightarrow> json_io \<Rightarrow> json_io" where
  "store t v io = io\<lparr>jd_store := (jd_store io)(t \<mapsto> v)\<rparr>"

definition is_space :: "char \<Rightarrow> bool" where
  "is_space c \<longleftrightarrow> c = CHR '' '' \<or> (9 \<le> (of_char c :: nat) \<and> (of_char c :: nat) \<le> 13)"

definition is_digit :: "char \<Rightarrow> bool" where
  "is_digit c \<longleftrightarrow> 48 \<le> (of_char c :: nat) \<and> (of_char c :: nat) \<le> 57"

lemma NUL_not_space: "\<not> is_space NUL"
  by (simp add: is_space_def NUL_def)

function skip_loop :: "json_io \<Rightarrow> json_io" where
  "skip_loop io = (let (c, io) = json_read_next io in if is_space c then skip_loop io else io)"
  by pat_completeness auto
termination
  by (relation "measure (\<lambda>io. length (jd_text io) - jd_pos io)")
    (auto simp: json_read_next_def NUL_not_space split: if_splits)

declare skip_loop.simps [simp del]

definition json_skip_ws :: "json_io \<Rightarrow> json_io" where
  "json_skip_ws io = snd (json_read_prev (skip_loop io))"

definition json_peek :: "json_io \<Rightarrow> char \<times> json_io" where
  "json_peek io = json_read_prev (snd (json_read_next io))"

section \<open>Strings and numbers of the C library\<close>

definition cstr :: "string \<Rightarrow> string" where
  "cstr s = takeWhile (\<lambda>c. c \<noteq> NUL) s"

definition digit_value :: "char \<Rightarrow> nat" where
  "digit_value c =
     (let n = of_char c in
      if 48 \<le> n \<and> n \<le> 57 then n - 48
      else if 97 \<le> n \<and> n \<le> 122 then n - 87
      else if 65 \<le> n \<and> n \<le> 90 then n - 55 else 99)"

text \<open>The digits of a base at the front: their value and how many there are.\<close>

fun scan_digits :: "nat \<Rightarrow> nat \<Rightarrow> string \<Rightarrow> nat \<times> nat" where
  "scan_digits base acc [] = (acc, 0)"
| "scan_digits base acc (c # cs) =
     (if digit_value c < base
      then let (v, n) = scan_digits base (acc * base + digit_value c) cs in (v, Suc n)
      else (acc, 0))"

text \<open>
  \<open>strtoll\<close> and its kin: whether there is a minus, the magnitude, and the number of
  characters used (0 when there is no number). Base 0 takes the base from the prefix.
\<close>

definition strto :: "nat \<Rightarrow> string \<Rightarrow> bool \<times> nat \<times> nat" where
  "strto base s =
     (let ws = length (takeWhile is_space s); s = drop ws s;
          neg = (s \<noteq> [] \<and> hd s = CHR ''-'');
          sg = (if s \<noteq> [] \<and> (hd s = CHR ''-'' \<or> hd s = CHR ''+'') then 1 else 0); s = drop sg s;
          hex = ((base = 0 \<or> base = 16) \<and> length s > 2 \<and> s ! 0 = CHR ''0'' \<and>
                 (s ! 1 = CHR ''x'' \<or> s ! 1 = CHR ''X'') \<and> digit_value (s ! 2) < 16);
          base = (if hex then 16 else if base \<noteq> 0 then base
                  else if s \<noteq> [] \<and> hd s = CHR ''0'' then 8 else 10);
          px = (if hex then 2 else 0);
          (v, n) = scan_digits base 0 (drop px s)
      in if n = 0 then (neg, 0, 0) else (neg, v, ws + sg + px + n))"

definition strtoll :: "string \<Rightarrow> u64 \<times> nat" where
  "strtoll s =
     (let (neg, v, n) = strto 0 (cstr s);
          i = (if neg then max (- (2 ^ 63)) (- int v) else min (2 ^ 63 - 1) (int v))
      in (of_int i, n))"

definition strtoull :: "string \<Rightarrow> u64 \<times> nat" where
  "strtoull s =
     (let (neg, v, n) = strto 0 (cstr s)
      in (if v \<ge> 2 ^ 64 then -1 else if neg then - of_nat v else of_nat v, n))"

definition strtoul16 :: "string \<Rightarrow> u64" where
  "strtoul16 s = (let (neg, v, n) = strto 16 (cstr s) in if v \<ge> 2 ^ 64 then -1 else if neg then - of_nat v else of_nat v)"

record float_lib =
  fl_strtod :: "string \<Rightarrow> u64 \<times> nat"
  fl_nan :: u64

section \<open>Attributes\<close>

datatype json_type = t_integer | t_uinteger | t_real | t_string | t_boolean | t_character |
  t_object | t_structobject | t_array | t_check | t_ignore

datatype json_attr = Attr (at_attribute: string) (at_type: json_type) (at_addr: nat)
    (at_array: "json_array option") (at_dflt: json_val) (at_check: string) (at_len: nat)
    (at_map: "(string \<times> u64) list option") (at_nodefault: bool)
  and json_array = JArr (ar_element: json_type) (ar_subtype: "json_attr list") (ar_store: nat)
    (ar_ptrs: nat) (ar_storelen: nat) (ar_count: "nat option") (ar_maxlen: nat)

definition in_struct :: "json_array option \<Rightarrow> bool" where
  "in_struct parent = (case parent of None \<Rightarrow> False | Some arr \<Rightarrow> ar_element arr = t_structobject)"

definition json_target_address :: "json_attr \<Rightarrow> json_array option \<Rightarrow> nat \<Rightarrow> json_target option" where
  "json_target_address cursor parent offset =
     (if in_struct parent then Some (ar_store (the parent), offset, at_addr cursor)
      else if at_type cursor = t_string then Some (at_addr cursor, 0, 0)
      else if at_type cursor \<in> {t_integer, t_uinteger, t_real, t_boolean, t_character}
      then Some (at_addr cursor, offset, 0)
      else None)"

abbreviation JSON_ATTR_MAX :: nat where "JSON_ATTR_MAX \<equiv> 31"
abbreviation JSON_VAL_MAX :: nat where "JSON_VAL_MAX \<equiv> 512"

definition JSON_ERR_OBSTART :: int where "JSON_ERR_OBSTART = 1"
definition JSON_ERR_ATTRSTART :: int where "JSON_ERR_ATTRSTART = 2"
definition JSON_ERR_BADATTR :: int where "JSON_ERR_BADATTR = 3"
definition JSON_ERR_ATTRLEN :: int where "JSON_ERR_ATTRLEN = 4"
definition JSON_ERR_NOARRAY :: int where "JSON_ERR_NOARRAY = 5"
definition JSON_ERR_NOBRAK :: int where "JSON_ERR_NOBRAK = 6"
definition JSON_ERR_STRLONG :: int where "JSON_ERR_STRLONG = 7"
definition JSON_ERR_TOKLONG :: int where "JSON_ERR_TOKLONG = 8"
definition JSON_ERR_BADTRAIL :: int where "JSON_ERR_BADTRAIL = 9"
definition JSON_ERR_ARRAYSTART :: int where "JSON_ERR_ARRAYSTART = 10"
definition JSON_ERR_SUBTOOLONG :: int where "JSON_ERR_SUBTOOLONG = 12"
definition JSON_ERR_BADSUBTRAIL :: int where "JSON_ERR_BADSUBTRAIL = 13"
definition JSON_ERR_SUBTYPE :: int where "JSON_ERR_SUBTYPE = 14"
definition JSON_ERR_BADSTRING :: int where "JSON_ERR_BADSTRING = 15"
definition JSON_ERR_CHECKFAIL :: int where "JSON_ERR_CHECKFAIL = 16"
definition JSON_ERR_NOPARSTR :: int where "JSON_ERR_NOPARSTR = 17"
definition JSON_ERR_BADENUM :: int where "JSON_ERR_BADENUM = 18"
definition JSON_ERR_QNONSTRING :: int where "JSON_ERR_QNONSTRING = 19"
definition JSON_ERR_NONQSTRING :: int where "JSON_ERR_NONQSTRING = 20"
definition JSON_ERR_MISC :: int where "JSON_ERR_MISC = 21"
definition JSON_ERR_BADNUM :: int where "JSON_ERR_BADNUM = 22"

section \<open>Objects\<close>

text \<open>The defaults, and 0 or an error.\<close>

fun set_defaults :: "json_array option \<Rightarrow> nat \<Rightarrow> json_attr list \<Rightarrow> json_io \<Rightarrow> int \<times> json_io" where
  "set_defaults parent offset [] io = (0, io)"
| "set_defaults parent offset (cursor # attrs) io =
     (case (if at_nodefault cursor then None else json_target_address cursor parent offset) of
        None \<Rightarrow> set_defaults parent offset attrs io
      | Some t \<Rightarrow>
          if at_type cursor \<in> {t_integer, t_uinteger, t_real, t_boolean, t_character}
          then set_defaults parent offset attrs (store t (at_dflt cursor) io)
          else if at_type cursor = t_string
          then if parent \<noteq> None \<and> \<not> in_struct parent \<and> offset > 0 then (JSON_ERR_NOPARSTR, io)
               else set_defaults parent offset attrs (store t (VStr [NUL]) io)
          else set_defaults parent offset attrs io)"

datatype json_pstate = Init | Await_attr | In_attr | Await_value | In_val_string | In_escape |
  In_val_token | Post_val | Post_array

text \<open>The local variables of the machine; the cursor is the rest of the table from it.\<close>

record json_parser =
  ps_state :: json_pstate
  ps_attrbuf :: string
  ps_valbuf :: string
  ps_quoted :: bool
  ps_cursor :: "json_attr list"
  ps_maxlen :: int

datatype json_step = Next json_parser json_io | Stop json_end json_io

definition parser_init :: json_parser where
  "parser_init = \<lparr>ps_state = Init, ps_attrbuf = [], ps_valbuf = [], ps_quoted = False, ps_cursor = [], ps_maxlen = 0\<rparr>"

definition push_val :: "char \<Rightarrow> json_parser \<Rightarrow> json_parser" where
  "push_val c p = p\<lparr>ps_valbuf := ps_valbuf p @ [c]\<rparr>"

definition cursor_maxlen :: "json_attr \<Rightarrow> int \<Rightarrow> int" where
  "cursor_maxlen cursor maxlen =
     (if at_type cursor = t_string then int (at_len cursor) - 1
      else if at_type cursor = t_check then int (length (cstr (at_check cursor)))
      else if at_type cursor = t_ignore then int JSON_VAL_MAX
      else if at_map cursor \<noteq> None then int JSON_VAL_MAX
      else if at_type cursor = t_boolean then 5
      else maxlen)"

text \<open>The four characters of a \<open>\u\<close> escape, the \<open>u\<close> itself being the first.\<close>

fun uescape_loop :: "nat \<Rightarrow> char \<Rightarrow> json_io \<Rightarrow> string \<times> json_io" where
  "uescape_loop 0 c io = ([], io)"
| "uescape_loop (Suc n) c io =
     (if c = NUL then ([], io)
      else let (c', io) = json_read_next io; (cs, io) = uescape_loop n c' io in (c # cs, io))"

text \<open>Looking for an entry of the same name whose type fits the value.\<close>

definition type_fits :: "bool \<Rightarrow> string \<Rightarrow> json_type \<Rightarrow> bool" where
  "type_fits quoted val seeking \<longleftrightarrow>
     quoted \<and> seeking = t_string \<or>
     (val = ''true'' \<or> val = ''false'') \<and> seeking = t_boolean \<or>
     val \<noteq> [] \<and> is_digit (hd val) \<and>
       (CHR ''.'' \<in> set val \<and> seeking = t_real \<or>
        CHR ''.'' \<notin> set val \<and> (seeking = t_integer \<or> seeking = t_uinteger))"

fun seek_type :: "bool \<Rightarrow> string \<Rightarrow> string \<Rightarrow> json_attr list \<Rightarrow> json_attr list" where
  "seek_type quoted val name (a # b # rest) =
     (if type_fits quoted val (at_type a) \<or> at_attribute b \<noteq> name then a # b # rest
      else seek_type quoted val name (b # rest))"
| "seek_type quoted val name rest = rest"

text \<open>Storing a value of a type at its target, or an error.\<close>

definition store_value ::
    "float_lib option \<Rightarrow> json_attr \<Rightarrow> json_array option \<Rightarrow> nat \<Rightarrow> string \<Rightarrow> json_io \<Rightarrow> json_io + int" where
  "store_value flt cursor parent offset val io =
     (case json_target_address cursor parent offset of
        None \<Rightarrow> Inl io
      | Some t \<Rightarrow>
          (case at_type cursor of
             t_integer \<Rightarrow> Inl (store t (VInt (fst (strtoll val))) io)
           | t_uinteger \<Rightarrow> Inl (store t (VUint (fst (strtoull val))) io)
           | t_real \<Rightarrow> (case flt of None \<Rightarrow> Inr JSON_ERR_MISC | Some l \<Rightarrow> Inl (store t (VReal (fst (fl_strtod l val))) io))
           | t_string \<Rightarrow>
               if parent \<noteq> None \<and> \<not> in_struct parent \<and> offset > 0 then Inr JSON_ERR_NOPARSTR
               else Inl (store t (VStr (take (at_len cursor) (val @ replicate (at_len cursor) NUL))) io)
           | t_boolean \<Rightarrow> Inl (store t (VBool (val = ''true'')) io)
           | t_character \<Rightarrow>
               if length val > 1 then Inr JSON_ERR_STRLONG
               else Inl (store t (VChar (if val = [] then NUL else hd val)) io)
           | t_check \<Rightarrow> if cstr (at_check cursor) \<noteq> val then Inr JSON_ERR_CHECKFAIL else Inl io
           | _ \<Rightarrow> Inl io))"

definition fail :: "int \<Rightarrow> json_io \<Rightarrow> json_step" where
  "fail rc io = Stop (Status rc) io"

definition step_post_array :: "char \<Rightarrow> json_parser \<Rightarrow> json_io \<Rightarrow> json_step" where
  "step_post_array c p io =
     (if is_space c then Next p io
      else if c = CHR '','' then Next (p\<lparr>ps_state := Await_attr\<rparr>) io
      else if c = CHR ''}'' then Stop (Status 0) io
      else fail JSON_ERR_BADTRAIL io)"

definition step_post_val ::
    "float_lib option \<Rightarrow> json_array option \<Rightarrow> nat \<Rightarrow> char \<Rightarrow> json_parser \<Rightarrow> json_io \<Rightarrow> json_step" where
  "step_post_val flt parent offset c p io =
     (let cur = seek_type (ps_quoted p) (cstr (ps_valbuf p)) (ps_attrbuf p) (ps_cursor p);
          cursor = hd cur; ty = at_type cursor
      in if ps_quoted p \<and> ty \<notin> {t_string, t_character, t_check, t_ignore} \<and> at_map cursor = None
         then fail JSON_ERR_QNONSTRING io
         else if \<not> ps_quoted p \<and> (ty = t_string \<or> ty = t_check \<or> at_map cursor \<noteq> None)
         then fail JSON_ERR_NONQSTRING io
         else
           (case (case at_map cursor of
                    None \<Rightarrow> Some (ps_valbuf p)
                  | Some m \<Rightarrow> map_option print_i64 (map_of m (cstr (ps_valbuf p)))) of
              None \<Rightarrow> fail JSON_ERR_BADENUM io
            | Some val \<Rightarrow>
                (case store_value flt cursor parent offset (cstr val) io of
                   Inr rc \<Rightarrow> fail rc io
                 | Inl io \<Rightarrow> step_post_array c (p\<lparr>ps_cursor := cur, ps_valbuf := val\<rparr>) io)))"

definition step_in_attr :: "json_attr list \<Rightarrow> char \<Rightarrow> json_parser \<Rightarrow> json_io \<Rightarrow> json_step" where
  "step_in_attr attrs c p io =
     (if c = QUOTE then
        let cursor = dropWhile (\<lambda>a. at_attribute a \<noteq> ps_attrbuf p) attrs
        in if cursor = [] then fail JSON_ERR_BADATTR io
           else Next (p\<lparr>ps_state := Await_value, ps_cursor := cursor, ps_valbuf := [],
                        ps_maxlen := cursor_maxlen (hd cursor) (ps_maxlen p)\<rparr>) io
      else if length (ps_attrbuf p) \<ge> JSON_ATTR_MAX - 1 then fail JSON_ERR_ATTRLEN io
      else Next (p\<lparr>ps_attrbuf := ps_attrbuf p @ [c]\<rparr>) io)"

definition step_await_value ::
    "(json_array \<Rightarrow> json_io \<Rightarrow> (json_end \<times> json_io) option) \<Rightarrow> char \<Rightarrow> json_parser \<Rightarrow> json_io \<Rightarrow> json_step option" where
  "step_await_value read_array c p io =
     (let cursor = hd (ps_cursor p)
      in if is_space c \<or> c = CHR '':'' then Some (Next p io)
         else if c = CHR ''['' then
           if at_type cursor \<noteq> t_array then Some (fail JSON_ERR_NOARRAY io)
           else (case (case at_array cursor of
                         None \<Rightarrow> Some (Overflow, io)
                       | Some arr \<Rightarrow> read_array arr (snd (json_read_prev io))) of
                   None \<Rightarrow> None
                 | Some (substatus, io) \<Rightarrow>
                     Some (if substatus \<noteq> Status 0 then Stop substatus io else Next (p\<lparr>ps_state := Post_array\<rparr>) io))
         else if at_type cursor = t_array then Some (fail JSON_ERR_NOBRAK io)
         else if c = QUOTE then Some (Next (p\<lparr>ps_quoted := True, ps_state := In_val_string, ps_valbuf := []\<rparr>) io)
         else Some (Next (p\<lparr>ps_quoted := False, ps_state := In_val_token, ps_valbuf := [c]\<rparr>) io))"

text \<open>The buffer has \<open>JSON_VAL_MAX + 1\<close> characters.\<close>

definition step_in_val_string :: "char \<Rightarrow> json_parser \<Rightarrow> json_io \<Rightarrow> json_step" where
  "step_in_val_string c p io =
     (if c = BACKSLASH then Next (p\<lparr>ps_state := In_escape\<rparr>) io
      else if c = QUOTE then
        if length (ps_valbuf p) > JSON_VAL_MAX then Stop Overflow io
        else Next (p\<lparr>ps_state := Post_val\<rparr>) io
      else if length (ps_valbuf p) > JSON_VAL_MAX - 1 \<or> int (length (ps_valbuf p)) > ps_maxlen p
      then fail JSON_ERR_STRLONG io
      else Next (push_val c p) io)"

definition step_in_escape :: "char \<Rightarrow> json_parser \<Rightarrow> json_io \<Rightarrow> json_step" where
  "step_in_escape c p io =
     (let (c, io) =
        (if c = CHR ''b'' then (CHR 0x08, io)
         else if c = CHR ''f'' then (CHR 0x0C, io)
         else if c = CHR ''n'' then (CHR 0x0A, io)
         else if c = CHR ''r'' then (CHR 0x0D, io)
         else if c = CHR ''t'' then (CHR 0x09, io)
         else if c = CHR ''u'' then
           let (uescape, io) = uescape_loop 4 c io; (c, io) = json_read_prev io
           in (char_of (unat (strtoul16 uescape) mod 256), io)
         else (c, io))
      in if length (ps_valbuf p) > JSON_VAL_MAX then Stop Overflow io
         else Next ((push_val c p)\<lparr>ps_state := In_val_string\<rparr>) io)"

definition step_in_val_token :: "char \<Rightarrow> json_parser \<Rightarrow> json_io \<Rightarrow> json_step" where
  "step_in_val_token c p io =
     (if is_space c \<or> c = CHR '','' \<or> c = CHR ''}'' then
        Next (p\<lparr>ps_state := Post_val\<rparr>) (if c = CHR ''}'' \<or> c = CHR '','' then snd (json_read_prev io) else io)
      else if length (ps_valbuf p) > JSON_VAL_MAX - 1 then fail JSON_ERR_TOKLONG io
      else Next (push_val c p) io)"

definition object_step ::
    "float_lib option \<Rightarrow> (json_array \<Rightarrow> json_io \<Rightarrow> (json_end \<times> json_io) option) \<Rightarrow> json_attr list \<Rightarrow>
       json_array option \<Rightarrow> nat \<Rightarrow> char \<Rightarrow> json_parser \<Rightarrow> json_io \<Rightarrow> json_step option" where
  "object_step flt read_array attrs parent offset c p io =
     (case ps_state p of
        Init \<Rightarrow> Some (if is_space c then Next p io
                      else if c = CHR ''{'' then Next (p\<lparr>ps_state := Await_attr\<rparr>) io
                      else fail JSON_ERR_OBSTART io)
      | Await_attr \<Rightarrow> Some (if is_space c then Next p io
                      else if c = QUOTE then Next (p\<lparr>ps_state := In_attr, ps_attrbuf := []\<rparr>) io
                      else if c = CHR ''}'' then Next p io
                      else fail JSON_ERR_ATTRSTART io)
      | In_attr \<Rightarrow> Some (step_in_attr attrs c p io)
      | Await_value \<Rightarrow> step_await_value read_array c p io
      | In_val_string \<Rightarrow> Some (step_in_val_string c p io)
      | In_escape \<Rightarrow> Some (step_in_escape c p io)
      | In_val_token \<Rightarrow> Some (step_in_val_token c p io)
      | Post_val \<Rightarrow> Some (step_post_val flt parent offset c p io)
      | Post_array \<Rightarrow> Some (step_post_array c p io))"

partial_function (option) object_loop ::
    "float_lib option \<Rightarrow> (json_array \<Rightarrow> json_io \<Rightarrow> (json_end \<times> json_io) option) \<Rightarrow> json_attr list \<Rightarrow>
       json_array option \<Rightarrow> nat \<Rightarrow> json_parser \<Rightarrow> json_io \<Rightarrow> (json_end \<times> json_io) option" where
  "object_loop flt read_array attrs parent offset p io =
     (let (c, io) = json_read_next io
      in if c = NUL then Some (Status 0, io)
         else (case object_step flt read_array attrs parent offset c p io of
                 None \<Rightarrow> None
               | Some (Stop r io) \<Rightarrow> Some (r, io)
               | Some (Next p io) \<Rightarrow> object_loop flt read_array attrs parent offset p io))"

declare object_loop.simps [code]

section \<open>Arrays\<close>

text \<open>The characters of a string element: where the store ends, and whether it was closed.\<close>

function string_loop :: "json_array \<Rightarrow> nat \<Rightarrow> json_io \<Rightarrow> (nat \<times> bool) \<times> json_io" where
  "string_loop arr tp io =
     (if tp < ar_storelen arr then
        let (c, io) = json_read_next io
        in if c = QUOTE then
             ((tp + 1, True), store (ar_store arr, tp, 0) (VChar NUL) (snd (json_read_next io)))
           else if c = NUL then ((tp, False), io)
           else string_loop arr (tp + 1) (snd (json_read_next (store (ar_store arr, tp, 0) (VChar c) io)))
      else ((tp, False), io))"
  by pat_completeness auto
termination
  by (relation "measure (\<lambda>(arr, tp, io). ar_storelen arr - tp)") auto

declare string_loop.simps [simp del]

text \<open>A number read from the buffer; what it leaves of the buffer is put back.\<close>

primrec put_back :: "nat \<Rightarrow> json_io \<Rightarrow> json_io" where
  "put_back 0 io = io"
| "put_back (Suc n) io = put_back n (snd (json_read_prev io))"

definition read_number ::
    "(string \<Rightarrow> u64 \<times> nat) \<Rightarrow> (u64 \<Rightarrow> json_val) \<Rightarrow> json_target \<Rightarrow> json_io \<Rightarrow> json_end \<times> json_io" where
  "read_number conv val t io =
     (case json_readn 63 io of
        None \<Rightarrow> (Overflow, io)
      | Some (valbuf, io) \<Rightarrow>
          let (v, ep) = conv valbuf; io = store t (val v) io
          in if ep = 0 then (Status JSON_ERR_BADNUM, io) else (Status 0, put_back (length valbuf - ep) io))"

definition read_real :: "float_lib \<Rightarrow> json_target \<Rightarrow> json_io \<Rightarrow> json_end \<times> json_io" where
  "read_real l t io =
     (case json_readn 63 io of
        None \<Rightarrow> (Overflow, io)
      | Some (valbuf, io) \<Rightarrow>
          let (v, ep) = fl_strtod l (cstr valbuf); io = store t (VReal v) io
          in if ep \<noteq> 0 then (Status 0, put_back (length valbuf - ep) io)
             else if take 4 (cstr valbuf) = ''null''
             then (Status 0, put_back (length valbuf - 4) (store t (VReal (fl_nan l)) io))
             else (Status JSON_ERR_BADNUM, io))"

definition read_bool :: "json_target \<Rightarrow> json_io \<Rightarrow> json_end \<times> json_io" where
  "read_bool t io =
     (case json_readn 5 io of
        None \<Rightarrow> (Overflow, io)
      | Some (valbuf, io) \<Rightarrow>
          if take 4 valbuf = ''true'' then (Status 0, put_back (length valbuf - 4) (store t (VBool True) io))
          else if valbuf = ''false'' then (Status 0, store t (VBool False) io)
          else (Status JSON_ERR_MISC, io))"

text \<open>One element; for strings the position in the store moves on.\<close>

definition read_element ::
    "float_lib option \<Rightarrow> (json_attr list \<Rightarrow> json_array option \<Rightarrow> nat \<Rightarrow> json_io \<Rightarrow> (json_end \<times> json_io) option) \<Rightarrow>
       json_array \<Rightarrow> nat \<Rightarrow> nat \<Rightarrow> json_io \<Rightarrow> ((json_end \<times> nat) \<times> json_io) option" where
  "read_element flt read_object arr offset tp io =
     (let t = (ar_store arr, offset, 0) in
      case ar_element arr of
        t_string \<Rightarrow>
          let (c, io) = json_read_next io
          in if c \<noteq> QUOTE then Some ((Status JSON_ERR_BADSTRING, tp), io)
             else let ((tp, closed), io) = string_loop arr tp (store (ar_ptrs arr, offset, 0) (VPtr tp) io)
                  in Some ((Status (if closed then 0 else JSON_ERR_BADSTRING), tp), io)
      | t_integer \<Rightarrow> let (r, io) = read_number strtoll VInt t io in Some ((r, tp), io)
      | t_uinteger \<Rightarrow> let (r, io) = read_number strtoull VUint t io in Some ((r, tp), io)
      | t_real \<Rightarrow> (case flt of
                     None \<Rightarrow> Some ((Status JSON_ERR_MISC, tp), io)
                   | Some l \<Rightarrow> let (r, io) = read_real l t io in Some ((r, tp), io))
      | t_boolean \<Rightarrow> let (r, io) = read_bool t io in Some ((r, tp), io)
      | ty \<Rightarrow>
          if ty = t_object \<or> ty = t_structobject
          then map_option (\<lambda>(r, io). ((r, tp), io)) (read_object (ar_subtype arr) (Some arr) offset io)
          else Some ((Status JSON_ERR_SUBTYPE, tp), io))"

definition array_count :: "json_array \<Rightarrow> nat \<Rightarrow> json_io \<Rightarrow> json_io" where
  "array_count arr n io = (case ar_count arr of None \<Rightarrow> io | Some a \<Rightarrow> store (a, 0, 0) (VUint (of_nat n)) io)"

text \<open>The elements, with \<open>n\<close> of the room left.\<close>

primrec array_loop ::
    "float_lib option \<Rightarrow> (json_attr list \<Rightarrow> json_array option \<Rightarrow> nat \<Rightarrow> json_io \<Rightarrow> (json_end \<times> json_io) option) \<Rightarrow>
       json_array \<Rightarrow> nat \<Rightarrow> nat \<Rightarrow> json_io \<Rightarrow> (json_end \<times> json_io) option" where
  "array_loop flt read_object arr 0 tp io = Some (Status JSON_ERR_SUBTOOLONG, io)"
| "array_loop flt read_object arr (Suc n) tp io =
     (let offset = ar_maxlen arr - Suc n
      in case read_element flt read_object arr offset tp (json_skip_ws io) of
           None \<Rightarrow> None
         | Some ((r, tp), io) \<Rightarrow>
             if r \<noteq> Status 0 then Some (r, io)
             else let (c, io) = json_read_next (json_skip_ws io)
                  in if c = CHR '']'' then Some (Status 0, array_count arr (Suc offset) io)
                     else if c \<noteq> CHR '','' then Some (Status JSON_ERR_BADSUBTRAIL, io)
                     else array_loop flt read_object arr n tp io)"

definition json_read_array_with ::
    "float_lib option \<Rightarrow> (json_attr list \<Rightarrow> json_array option \<Rightarrow> nat \<Rightarrow> json_io \<Rightarrow> (json_end \<times> json_io) option) \<Rightarrow>
       json_array \<Rightarrow> json_io \<Rightarrow> (json_end \<times> json_io) option" where
  "json_read_array_with flt read_object arr io =
     (let (c, io) = json_read_next (json_skip_ws io)
      in if c \<noteq> CHR ''['' then Some (Status JSON_ERR_ARRAYSTART, io)
         else
           let (c, io) = json_peek (json_skip_ws io)
           in if c = CHR '']'' then Some (Status 0, array_count arr 0 io)
              else array_loop flt read_object arr (ar_maxlen arr) 0 io)"

text \<open>Objects, with the nesting of the tables as the depth.\<close>

primrec json_internal_read_object ::
    "float_lib option \<Rightarrow> nat \<Rightarrow> json_attr list \<Rightarrow> json_array option \<Rightarrow> nat \<Rightarrow> json_io \<Rightarrow> (json_end \<times> json_io) option" where
  "json_internal_read_object flt 0 attrs parent offset io = None"
| "json_internal_read_object flt (Suc d) attrs parent offset io =
     (let (rc, io) = set_defaults parent offset attrs io
      in if rc \<noteq> 0 then Some (Status rc, io)
         else object_loop flt (json_read_array_with flt (json_internal_read_object flt d)) attrs parent offset parser_init io)"

definition json_read_object :: "float_lib option \<Rightarrow> json_attr list \<Rightarrow> json_io \<Rightarrow> (json_end \<times> json_io) option" where
  "json_read_object flt attrs io = json_internal_read_object flt (Suc (size_list size attrs)) attrs None 0 io"

definition json_read_array :: "float_lib option \<Rightarrow> json_array \<Rightarrow> json_io \<Rightarrow> (json_end \<times> json_io) option" where
  "json_read_array flt arr io = json_read_array_with flt (json_internal_read_object flt (size arr)) arr io"

end
