(* ===== verification/Json_Facts.thy ===== *)
theory Json_Facts
  imports Json_Decode
begin

text \<open>
  The decoder always returns: every round of the character loop takes a character or moves
  to a state that will, and no array reader steps back behind the bracket it started at.
\<close>

section \<open>The buffer\<close>

abbreviation len :: "json_io \<Rightarrow> nat" where
  "len io \<equiv> length (jd_text io)"

text \<open>The same text, at a position within it.\<close>

definition within :: "json_io \<Rightarrow> nat \<Rightarrow> json_io \<Rightarrow> bool" where
  "within io q io' \<longleftrightarrow> jd_text io' = jd_text io \<and> q \<le> jd_pos io' \<and> jd_pos io' \<le> len io"

lemma within_trans: "within io q io' \<Longrightarrow> within io' r io'' \<Longrightarrow> q \<le> r \<Longrightarrow> within io q io''"
  by (simp add: within_def)

lemma within_mono: "within io q io' \<Longrightarrow> r \<le> q \<Longrightarrow> within io r io'"
  by (simp add: within_def)

lemma store_frame [simp]: "jd_text (store t v io) = jd_text io" "jd_pos (store t v io) = jd_pos io"
  by (simp_all add: store_def)

lemma within_store [simp]: "within io q (store t v io') = within io q io'" "within (store t v io) q io' = within io q io'"
  by (simp_all add: within_def)

lemma read_next_within:
  "jd_pos io \<le> len io \<Longrightarrow> within io (jd_pos io) (snd (json_read_next io))"
  "jd_pos io < len io \<Longrightarrow> within io (jd_pos io + 1) (snd (json_read_next io))"
  by (simp_all add: json_read_next_def within_def)

lemma read_next_not_NUL:
  assumes "json_read_next io = (c, io')" and "c \<noteq> NUL"
  shows "jd_pos io < len io" and "io' = io\<lparr>jd_pos := jd_pos io + 1\<rparr>" and "c = jd_text io ! jd_pos io"
  using assms by (simp_all add: json_read_next_def split: if_splits)

lemma read_prev_within: "jd_pos io \<le> len io \<Longrightarrow> within io (jd_pos io - 1) (snd (json_read_prev io))"
  by (auto simp: json_read_prev_def within_def)

lemma skip_loop_within:
  "jd_pos io \<le> len io \<Longrightarrow> within io (jd_pos io) (skip_loop io) \<and> (jd_pos io < len io \<longrightarrow> jd_pos io < jd_pos (skip_loop io))"
proof (induction io rule: skip_loop.induct)
  case (1 io)
  obtain c io' where r: "json_read_next io = (c, io')" by fastforce
  show ?case
  proof (cases "is_space c")
    case True
    then have "c \<noteq> NUL" using NUL_not_space by auto
    note n = read_next_not_NUL[OF r this]
    have "within io' (jd_pos io') (skip_loop io')" using 1(1)[OF r[symmetric] refl True] n by simp
    then show ?thesis using n r True by (subst (1 2) skip_loop.simps) (simp add: within_def)
  next
    case False
    then show ?thesis using r 1(2) by (subst (1 2) skip_loop.simps) (auto simp: within_def json_read_next_def split: if_splits)
  qed
qed

text \<open>Skipping blanks stays before the end of the text, at worst one character back.\<close>

lemma skip_ws_within:
  assumes "jd_pos io \<le> len io" and "0 < len io"
  shows "within io (jd_pos io - 1) (json_skip_ws io)" and "jd_pos (json_skip_ws io) < len io"
    and "jd_pos io < len io \<Longrightarrow> jd_pos io \<le> jd_pos (json_skip_ws io)"
  using skip_loop_within[OF assms(1)] assms(2)
  by (auto simp: json_skip_ws_def json_read_prev_def within_def)

lemma readn_within:
  assumes "json_readn n io = Some (s, io')" 
  shows "within io (jd_pos io + length s) io'" and "jd_pos io' = jd_pos io + length s" and "jd_pos io' < len io"
  using assms by (auto simp: json_readn_def within_def Let_def split: if_splits)

lemma within_then: "within io q io' \<Longrightarrow> (jd_pos io' \<le> len io' \<Longrightarrow> within io' r io'') \<Longrightarrow> q \<le> r \<Longrightarrow> within io q io''"
  by (simp add: within_def)

lemma put_back_within:
  "jd_pos io \<le> len io \<Longrightarrow> within io (jd_pos io - n) (put_back n io)"
proof (induction n arbitrary: io)
  case (Suc n)
  let ?p = "snd (json_read_prev io)"
  have p: "within io (jd_pos io - 1) ?p" by (rule read_prev_within[OF Suc.prems])
  then have "within ?p (jd_pos ?p - n) (put_back n ?p)" using Suc.IH[of ?p] by (simp add: within_def)
  then show ?case using p by (auto simp: within_def)
qed (simp add: within_def)

section \<open>Arrays\<close>

lemma uescape_within:
  "jd_pos io \<le> len io \<Longrightarrow> within io (jd_pos io) (snd (uescape_loop n c io))"
proof (induction n arbitrary: c io)
  case (Suc n)
  let ?r = "snd (json_read_next io)" and ?c = "fst (json_read_next io)"
  have r: "within io (jd_pos io) ?r" using Suc.prems by (rule read_next_within)
  then have "within ?r (jd_pos ?r) (snd (uescape_loop n ?c ?r))" using Suc.IH[of ?r ?c] by (simp add: within_def)
  then have "within io (jd_pos io) (snd (uescape_loop n ?c ?r))" using r by (simp add: within_def)
  then show ?case using Suc.prems by (simp add: split_beta Let_def) (simp add: within_def)
qed (simp add: within_def)

lemma string_loop_within:
  "jd_pos io \<le> len io \<Longrightarrow> within io (jd_pos io) (snd (string_loop arr tp io))"
proof (induction arr tp io rule: string_loop.induct)
  case (1 arr tp io)
  obtain c io' where r: "json_read_next io = (c, io')" by fastforce
  have w: "within io (jd_pos io) io'" using read_next_within(1)[OF 1(2)] r by simp
  then have next_ok: "within io (jd_pos io) (snd (json_read_next (store t v io')))" for t v
    using read_next_within(1)[of "store t v io'"] by (auto simp: within_def)
  have w2: "within io (jd_pos io) (snd (json_read_next io'))"
    using w read_next_within(1)[of io'] by (auto simp: within_def)
  show ?case
  proof (cases "tp < ar_storelen arr \<and> c \<noteq> QUOTE \<and> c \<noteq> NUL")
    case True
    let ?io = "snd (json_read_next (store (ar_store arr, tp, 0) (VChar c) io'))"
    have "within ?io (jd_pos ?io) (snd (string_loop arr (tp + 1) ?io))"
      using 1(1)[OF _ r[symmetric] refl] True next_ok[of "(ar_store arr, tp, 0)" "VChar c"] by (simp add: within_def)
    then show ?thesis
      using True r next_ok[of "(ar_store arr, tp, 0)" "VChar c"]
      by (subst string_loop.simps) (auto simp: within_def)
  next
    case False
    then show ?thesis using r w w2 1(2) by (subst string_loop.simps) (auto simp: within_def)
  qed
qed

text \<open>A reader of objects or arrays that succeeds has moved forward within the text.\<close>

definition progress :: "nat \<Rightarrow> json_io \<Rightarrow> json_end \<times> json_io \<Rightarrow> bool" where
  "progress q io res \<longleftrightarrow> (fst res = Status 0 \<longrightarrow> within io q (snd res))"

lemma put_back_progress:
  assumes "json_readn n io = Some (s, io')" and "0 < k" and "s \<noteq> []"
  shows "within io (jd_pos io + 1) (put_back (length s - k) (store t v io'))"
proof -
  note w = readn_within[OF assms(1)]
  have "within (store t v io') (jd_pos io' - (length s - k)) (put_back (length s - k) (store t v io'))"
    using put_back_within[of "store t v io'" "length s - k"] w(1) by (simp add: within_def)
  moreover have "0 < length s" using assms(3) by simp
  then have "jd_pos io + 1 \<le> jd_pos io' - (length s - k)" using w(2) assms(2) by linarith
  ultimately show ?thesis using w(1) unfolding within_def by simp
qed

lemma read_number_progress:
  assumes "snd (conv []) = 0"
  shows "progress (jd_pos io + 1) io (read_number conv val t io)"
proof (cases "json_readn 63 io")
  case (Some x)
  obtain s io' where x: "json_readn 63 io = Some (s, io')" using Some by (cases x) auto
  show ?thesis
  proof (cases "snd (conv s) = 0")
    case False
    then have "s \<noteq> []" using assms by auto
    with False put_back_progress[OF x, of "snd (conv s)"] show ?thesis
      by (simp add: read_number_def x progress_def split_beta Let_def)
  qed (simp add: read_number_def x progress_def split_beta Let_def JSON_ERR_BADNUM_def)
qed (simp add: read_number_def progress_def)

lemma strto_empty: "strtoll [] = (0, 0)" "strtoull [] = (0, 0)"
  by (simp_all add: strtoll_def strtoull_def strto_def cstr_def)

definition float_ok :: "float_lib option \<Rightarrow> bool" where
  "float_ok flt \<longleftrightarrow> (case flt of None \<Rightarrow> True | Some l \<Rightarrow> snd (fl_strtod l []) = 0)"

lemma cstr_empty [simp]: "cstr [] = []"
  by (simp add: cstr_def)

lemma read_real_progress:
  assumes "snd (fl_strtod l []) = 0"
  shows "progress (jd_pos io + 1) io (read_real l t io)"
proof (cases "json_readn 63 io")
  case (Some x)
  obtain s io' where x: "json_readn 63 io = Some (s, io')" using Some by (cases x) auto
  show ?thesis
  proof (cases "s = []")
    case True
    then show ?thesis using assms
      by (simp add: read_real_def x progress_def split_beta Let_def JSON_ERR_BADNUM_def)
  next
    case False
    have "store t v (store t w io') = store t v io'" for v w by (simp add: store_def)
    then show ?thesis
      using put_back_progress[OF x _ False, of "snd (fl_strtod l (cstr s))"] put_back_progress[OF x _ False, of 4]
      by (simp add: read_real_def x progress_def split_beta Let_def JSON_ERR_BADNUM_def)
  qed
qed (simp add: read_real_def progress_def)

lemma read_bool_progress: "progress (jd_pos io + 1) io (read_bool t io)"
proof (cases "json_readn 5 io")
  case (Some x)
  obtain s io' where x: "json_readn 5 io = Some (s, io')" using Some by (cases x) auto
  have "take 4 s = ''true'' \<Longrightarrow> s \<noteq> []" "s = ''false'' \<Longrightarrow> s \<noteq> []" by auto
  then show ?thesis
    using put_back_progress[OF x, of 4] put_back_progress[OF x, of 5]
    by (auto simp: read_bool_def x progress_def JSON_ERR_MISC_def)
qed (simp add: read_bool_def progress_def)

lemma string_element_progress:
  assumes "json_read_next io = (QUOTE, io')" and "string_loop arr tp (store t v io') = ((tp', closed), io'')"
  shows "within io (jd_pos io + 1) io''"
proof -
  have "QUOTE \<noteq> NUL" by (simp add: QUOTE_def NUL_def)
  note n = read_next_not_NUL[OF assms(1) this]
  have "within (store t v io') (jd_pos io') io''"
    using string_loop_within[of "store t v io'" arr tp] n assms(2) by simp
  then show ?thesis using n by (simp add: within_def)
qed

text \<open>What an array needs of the reader of its objects.\<close>

definition object_reader_ok ::
    "(json_attr list \<Rightarrow> json_array option \<Rightarrow> nat \<Rightarrow> json_io \<Rightarrow> (json_end \<times> json_io) option) \<Rightarrow> json_attr list \<Rightarrow> bool" where
  "object_reader_ok read_object attrs \<longleftrightarrow>
     (\<forall>parent offset io. jd_pos io < len io \<longrightarrow>
        (\<exists>res. read_object attrs parent offset io = Some res \<and> progress (jd_pos io + 1) io res))"

lemma read_element_progress:
  assumes "float_ok flt" and "object_reader_ok read_object (ar_subtype arr)" and pos: "jd_pos io < len io"
  shows "\<exists>r tp' io'. read_element flt read_object arr offset tp io = Some ((r, tp'), io') \<and> progress (jd_pos io + 1) io (r, io')"
proof -
  consider "ar_element arr = t_string" | "ar_element arr = t_integer" | "ar_element arr = t_uinteger"
    | "ar_element arr = t_real" | "ar_element arr = t_boolean"
    | "ar_element arr = t_object \<or> ar_element arr = t_structobject"
    | "ar_element arr \<in> {t_character, t_array, t_check, t_ignore}"
    by (cases "ar_element arr") auto
  then show ?thesis
  proof cases
    case 1
    obtain c io' where r: "json_read_next io = (c, io')" by fastforce
    obtain tp' closed io'' where l: "string_loop arr tp (store (ar_ptrs arr, offset, 0) (VPtr tp) io') = ((tp', closed), io'')"
      by (metis prod.collapse)
    show ?thesis
      using 1 r l string_element_progress[OF _ l] by (cases "c = QUOTE")
        (simp_all add: read_element_def progress_def JSON_ERR_BADSTRING_def)
  next
    case 4
    then show ?thesis using assms(1) read_real_progress
      by (cases flt) (auto simp: read_element_def progress_def float_ok_def JSON_ERR_MISC_def split_beta Let_def)
  next
    case 6
    obtain res where "read_object (ar_subtype arr) (Some arr) offset io = Some res" "progress (jd_pos io + 1) io res"
      using assms(2) pos unfolding object_reader_ok_def by blast
    then show ?thesis using 6 by (cases res) (auto simp: read_element_def)
  next
    case 2
    then show ?thesis using read_number_progress[of strtoll io VInt "(ar_store arr, offset, 0)"]
      by (simp add: read_element_def split_beta Let_def strto_empty)
  next
    case 3
    then show ?thesis using read_number_progress[of strtoull io VUint "(ar_store arr, offset, 0)"]
      by (simp add: read_element_def split_beta Let_def strto_empty)
  next
    case 5
    then show ?thesis using read_bool_progress[of io "(ar_store arr, offset, 0)"]
      by (simp add: read_element_def split_beta Let_def)
  qed (auto simp: read_element_def progress_def JSON_ERR_SUBTYPE_def)
qed

text \<open>An array that is read to its end ends behind its opening bracket.\<close>

lemma array_loop_progress:
  assumes "float_ok flt" and "object_reader_ok read_object (ar_subtype arr)"
  shows "0 < len io \<Longrightarrow> jd_pos io \<le> len io \<Longrightarrow>
    \<exists>res. array_loop flt read_object arr n tp io = Some res \<and> progress (jd_pos io) io res"
proof (induction n arbitrary: tp io)
  case (Suc n)
  define s where "s = json_skip_ws io"
  have s: "within io (jd_pos io - 1) s" "jd_pos s < len s"
    using skip_ws_within[OF Suc.prems(2,1)] by (simp_all add: s_def within_def)
  obtain r tp' u where u: "read_element flt read_object arr (ar_maxlen arr - Suc n) tp s = Some ((r, tp'), u)"
      "progress (jd_pos s + 1) s (r, u)"
    using read_element_progress[OF assms s(2)] by blast
  show ?case
  proof (cases "r = Status 0")
    case False
    then show ?thesis using u by (simp add: progress_def flip: s_def)
  next
    case True
    then have w: "within s (jd_pos s + 1) u" using u(2) by (simp add: progress_def)
    have u0: "jd_pos u \<le> len u" "0 < len u" using w s(2) by (auto simp: within_def)
    define v where "v = json_skip_ws u"
    have v: "within u (jd_pos u - 1) v" "jd_pos v < len v"
      using skip_ws_within[OF u0] by (auto simp: v_def within_def)
    obtain c x where x: "json_read_next v = (c, x)" by fastforce
    have xw: "within v (jd_pos v + 1) x" using read_next_within(2)[OF v(2)] x by simp
    then have xi: "within io (jd_pos io) x" using s(1) w v(1) Suc.prems by (auto simp: within_def)
    then have "\<exists>res. array_loop flt read_object arr n tp' x = Some res \<and> progress (jd_pos x) x res"
      using Suc.prems by (intro Suc.IH) (auto simp: within_def)
    then obtain res where "array_loop flt read_object arr n tp' x = Some res" "progress (jd_pos x) x res" by blast
    moreover have "progress (jd_pos io) io res" if "progress (jd_pos x) x res"
      using that xi by (auto simp: progress_def within_def)
    moreover have "within io (jd_pos io) (array_count arr k x)" for k
      using xi by (simp add: array_count_def split: option.split)
    ultimately show ?thesis
      using u(1) True x by (cases res) (simp add: progress_def JSON_ERR_BADSUBTRAIL_def flip: s_def v_def)
  qed
qed (simp add: progress_def JSON_ERR_SUBTOOLONG_def)

lemma read_array_progress:
  assumes "float_ok flt" and "object_reader_ok read_object (ar_subtype arr)" and pos: "jd_pos io < len io"
  shows "\<exists>res. json_read_array_with flt read_object arr io = Some res \<and> progress (jd_pos io) io res"
proof -
  define s where "s = json_skip_ws io"
  have s: "within io (jd_pos io) s" "jd_pos s < len s"
    using skip_ws_within[OF less_imp_le[OF pos] le_less_trans[OF _ pos]] pos by (simp_all add: s_def within_def)
  obtain c u where u: "json_read_next s = (c, u)" by fastforce
  have uw: "within s (jd_pos s + 1) u" using read_next_within(2)[OF s(2)] u by simp
  have u0: "jd_pos u \<le> len u" "0 < len u" using uw s(2) by (auto simp: within_def)
  define v where "v = json_skip_ws u"
  have v: "within u (jd_pos u - 1) v" "jd_pos v < len v"
    using skip_ws_within[OF u0] by (auto simp: v_def within_def)
  have vio: "within io (jd_pos io) v" using s(1) uw v(1) by (auto simp: within_def)
  have "snd (json_read_next v) = v\<lparr>jd_pos := jd_pos v + 1\<rparr>" using v(2) by (simp add: json_read_next_def)
  then have pk: "json_peek v = (jd_text v ! jd_pos v, v)" by (simp add: json_peek_def json_read_prev_def)
  obtain res where res: "array_loop flt read_object arr (ar_maxlen arr) 0 v = Some res" "progress (jd_pos v) v res"
    using array_loop_progress[OF assms(1,2), of v "ar_maxlen arr" 0] v(2) by (meson le_less_trans le0 less_imp_le)
  have "progress (jd_pos io) io res" using res(2) vio by (auto simp: progress_def within_def)
  moreover have "within io (jd_pos io) (array_count arr k v)" for k
    using vio by (simp add: array_count_def split: option.split)
  ultimately show ?thesis
    using u pk res(1) by (cases res) (simp add: json_read_array_with_def progress_def JSON_ERR_ARRAYSTART_def flip: s_def v_def)
qed

section \<open>Objects\<close>

text \<open>The states in which a round may leave the position where it was.\<close>

fun rank :: "json_pstate \<Rightarrow> nat" where
  "rank Await_value = 1"
| "rank In_escape = 1"
| "rank In_val_token = 1"
| "rank _ = 0"

text \<open>Once a name has been read the cursor points into the table.\<close>

definition cursor_ok :: "json_attr list \<Rightarrow> json_parser \<Rightarrow> bool" where
  "cursor_ok attrs p \<longleftrightarrow>
     (ps_state p \<notin> {Init, Await_attr, In_attr} \<longrightarrow> ps_cursor p \<noteq> [] \<and> set (ps_cursor p) \<subseteq> set attrs)"

definition array_reader_ok :: "(json_array \<Rightarrow> json_io \<Rightarrow> (json_end \<times> json_io) option) \<Rightarrow> json_attr list \<Rightarrow> bool" where
  "array_reader_ok read_array attrs \<longleftrightarrow>
     (\<forall>a \<in> set attrs. \<forall>arr io. at_array a = Some arr \<longrightarrow> jd_pos io < len io \<longrightarrow>
        (\<exists>res. read_array arr io = Some res \<and> progress (jd_pos io) io res))"

text \<open>A round from position q, given the input after the character was taken.\<close>

definition round_ok :: "json_attr list \<Rightarrow> nat \<Rightarrow> json_pstate \<Rightarrow> json_io \<Rightarrow> json_step \<Rightarrow> bool" where
  "round_ok attrs q st io step \<longleftrightarrow>
     (case step of
        Stop r io' \<Rightarrow> r = Status 0 \<longrightarrow> within io (q + 1) io'
      | Next p' io' \<Rightarrow> within io q io' \<and> cursor_ok attrs p' \<and> (jd_pos io' = q \<longrightarrow> rank (ps_state p') < rank st) \<and>
          (st = Init \<longrightarrow> q < jd_pos io'))"

lemma seek_type_suffix:
  "c \<noteq> [] \<Longrightarrow> seek_type quoted val name c \<noteq> [] \<and> set (seek_type quoted val name c) \<subseteq> set c"
  by (induction quoted val name c rule: seek_type.induct) auto

lemma store_value_pos:
  "store_value flt cursor parent offset val io = Inl io' \<Longrightarrow> jd_text io' = jd_text io \<and> jd_pos io' = jd_pos io"
  by (auto simp: store_value_def split: option.splits json_type.splits if_splits)

lemma post_array_round:
  assumes "jd_pos io = q + 1" and "q < len io" and "cursor_ok attrs p" and "ps_state p \<in> {Post_val, Post_array}"
    and "jd_text io' = jd_text io" and "jd_pos io' = jd_pos io"
  shows "round_ok attrs q st io (step_post_array c p io')"
  using assms by (auto simp: step_post_array_def round_ok_def within_def cursor_ok_def fail_def JSON_ERR_BADTRAIL_def)

lemma post_val_round:
  assumes io: "jd_pos io = q + 1" "q < len io" and "cursor_ok attrs p" and st: "ps_state p = Post_val"
  shows "round_ok attrs q st io (step_post_val flt parent offset c p io)"
proof -
  define cur where "cur = seek_type (ps_quoted p) (cstr (ps_valbuf p)) (ps_attrbuf p) (ps_cursor p)"
  have cur: "cur \<noteq> []" "set cur \<subseteq> set attrs"
    using seek_type_suffix[of "ps_cursor p"] assms(3) st by (fastforce simp: cursor_ok_def cur_def)+
  have stop: "rc \<noteq> 0 \<Longrightarrow> round_ok attrs q st io (fail rc io)" for rc
    by (simp add: round_ok_def fail_def)
  have errs: "JSON_ERR_QNONSTRING \<noteq> 0" "JSON_ERR_NONQSTRING \<noteq> 0" "JSON_ERR_BADENUM \<noteq> 0"
    by (simp_all add: JSON_ERR_QNONSTRING_def JSON_ERR_NONQSTRING_def JSON_ERR_BADENUM_def)
  have stored: "round_ok attrs q st io
      (case store_value flt (hd cur) parent offset (cstr val) io of
         Inr rc \<Rightarrow> fail rc io
       | Inl io' \<Rightarrow> step_post_array c (p\<lparr>ps_cursor := cur, ps_valbuf := val\<rparr>) io')" for val
  proof (cases "store_value flt (hd cur) parent offset (cstr val) io")
    case (Inl io')
    then show ?thesis
      using post_array_round[OF io, of attrs "p\<lparr>ps_cursor := cur, ps_valbuf := val\<rparr>" io'] cur st store_value_pos[OF Inl]
      by (simp add: cursor_ok_def)
  next
    case (Inr rc)
    have "rc \<noteq> 0"
      using Inr by (auto simp: store_value_def JSON_ERR_MISC_def JSON_ERR_NOPARSTR_def JSON_ERR_STRLONG_def JSON_ERR_CHECKFAIL_def
          split: option.splits json_type.splits if_splits)
    then show ?thesis using Inr stop by simp
  qed
  have "step_post_val flt parent offset c p io =
      (if ps_quoted p \<and> at_type (hd cur) \<notin> {t_string, t_character, t_check, t_ignore} \<and> at_map (hd cur) = None
       then fail JSON_ERR_QNONSTRING io
       else if \<not> ps_quoted p \<and> (at_type (hd cur) = t_string \<or> at_type (hd cur) = t_check \<or> at_map (hd cur) \<noteq> None)
       then fail JSON_ERR_NONQSTRING io
       else (case (case at_map (hd cur) of
                    None \<Rightarrow> Some (ps_valbuf p)
                  | Some m \<Rightarrow> map_option print_i64 (map_of m (cstr (ps_valbuf p)))) of
               None \<Rightarrow> fail JSON_ERR_BADENUM io
             | Some val \<Rightarrow>
                 (case store_value flt (hd cur) parent offset (cstr val) io of
                    Inr rc \<Rightarrow> fail rc io
                  | Inl io' \<Rightarrow> step_post_array c (p\<lparr>ps_cursor := cur, ps_valbuf := val\<rparr>) io')))"
    unfolding step_post_val_def cur_def Let_def by (rule refl)
  moreover have "round_ok attrs q st io (case x of None \<Rightarrow> fail JSON_ERR_BADENUM io
      | Some val \<Rightarrow> (case store_value flt (hd cur) parent offset (cstr val) io of
           Inr rc \<Rightarrow> fail rc io
         | Inl io' \<Rightarrow> step_post_array c (p\<lparr>ps_cursor := cur, ps_valbuf := val\<rparr>) io'))" for x
    using stored stop errs by (cases x) simp_all
  ultimately show ?thesis using stop errs by simp
qed

lemma in_attr_round:
  assumes io: "jd_pos io = q + 1" "q < len io" and st: "ps_state p = In_attr"
  shows "round_ok attrs q In_attr io (step_in_attr attrs c p io)"
proof -
  have "set (dropWhile (\<lambda>a. at_attribute a \<noteq> ps_attrbuf p) attrs) \<subseteq> set attrs" using set_dropWhileD by fast
  then show ?thesis using assms
    by (auto simp: step_in_attr_def round_ok_def within_def cursor_ok_def fail_def Let_def JSON_ERR_BADATTR_def JSON_ERR_ATTRLEN_def)
qed

lemma await_value_round:
  assumes io: "jd_pos io = q + 1" "q < len io" and cur: "cursor_ok attrs p" and st: "ps_state p = Await_value"
    and ra: "array_reader_ok read_array attrs"
  shows "\<exists>step. step_await_value read_array c p io = Some step \<and> round_ok attrs q Await_value io step"
proof -
  have hd: "hd (ps_cursor p) \<in> set attrs" using cur st by (auto simp: cursor_ok_def)
  have errs: "round_ok attrs q Await_value io (fail JSON_ERR_NOARRAY io)" "round_ok attrs q Await_value io (fail JSON_ERR_NOBRAK io)"
    by (simp_all add: round_ok_def fail_def JSON_ERR_NOARRAY_def JSON_ERR_NOBRAK_def)
  have stay: "round_ok attrs q Await_value io (Next p' io)"
    if "ps_cursor p' = ps_cursor p" for p'
    using that io cur st by (auto simp: round_ok_def within_def cursor_ok_def)
  show ?thesis
  proof (cases "\<not> (is_space c \<or> c = CHR '':'') \<and> c = CHR ''['' \<and> at_type (hd (ps_cursor p)) = t_array")
    case False
    then show ?thesis using errs stay by (auto simp: step_await_value_def Let_def)
  next
    case True
    let ?b = "snd (json_read_prev io)"
    have b: "?b = io\<lparr>jd_pos := q\<rparr>" using io by (simp add: json_read_prev_def)
    show ?thesis
    proof (cases "at_array (hd (ps_cursor p))")
      case None
      then show ?thesis using True by (auto simp: step_await_value_def Let_def round_ok_def)
    next
      case (Some arr)
      have "jd_pos ?b < len ?b" using io b by simp
      then obtain res where res: "read_array arr ?b = Some res" "progress (jd_pos ?b) ?b res"
        using ra hd Some unfolding array_reader_ok_def by blast
      have "round_ok attrs q Await_value io
          (if fst res \<noteq> Status 0 then Stop (fst res) (snd res) else Next (p\<lparr>ps_state := Post_array\<rparr>) (snd res))"
        using res(2) b io cur st by (auto simp: round_ok_def progress_def within_def cursor_ok_def)
      then show ?thesis using True Some res(1) by (auto simp: step_await_value_def Let_def split_beta)
    qed
  qed
qed

lemma in_escape_round:
  assumes io: "jd_pos io = q + 1" "q < len io" and cur: "cursor_ok attrs p" and st: "ps_state p = In_escape"
  shows "round_ok attrs q In_escape io (step_in_escape c p io)"
proof -
  define esc where "esc = (if c = CHR ''b'' then (CHR 0x08, io)
         else if c = CHR ''f'' then (CHR 0x0C, io)
         else if c = CHR ''n'' then (CHR 0x0A, io)
         else if c = CHR ''r'' then (CHR 0x0D, io)
         else if c = CHR ''t'' then (CHR 0x09, io)
         else if c = CHR ''u'' then
           let (uescape, io) = uescape_loop 4 c io; (c, io) = json_read_prev io
           in (char_of (unat (strtoul16 uescape) mod 256), io)
         else (c, io))"
  have w: "within io q io" using io by (simp add: within_def)
  have u: "within io q (snd (json_read_prev (snd (uescape_loop 4 d io))))" for d
    using uescape_within[of io 4 d] read_prev_within[of "snd (uescape_loop 4 d io)"] io by (auto simp: within_def)
  have e: "within io q (snd esc)"
    using w u by (simp add: esc_def split_beta Let_def)
  have "step_in_escape c p io =
      (if length (ps_valbuf p) > JSON_VAL_MAX then Stop Overflow (snd esc)
       else Next ((push_val (fst esc) p)\<lparr>ps_state := In_val_string\<rparr>) (snd esc))"
    unfolding step_in_escape_def esc_def[symmetric] by (simp add: split_beta)
  then show ?thesis using e cur st by (simp add: round_ok_def cursor_ok_def push_val_def)
qed

lemma object_step_round:
  assumes io: "jd_pos io = q + 1" "q < len io" and cur: "cursor_ok attrs p" and ra: "array_reader_ok read_array attrs"
  shows "\<exists>step. object_step flt read_array attrs parent offset c p io = Some step \<and> round_ok attrs q (ps_state p) io step"
proof (cases "ps_state p")
  case Await_value
  then show ?thesis using await_value_round[OF io cur _ ra] by (simp add: object_step_def)
next
  case In_attr
  then show ?thesis using in_attr_round[OF io] by (simp add: object_step_def)
next
  case In_escape
  then show ?thesis using in_escape_round[OF io cur] by (simp add: object_step_def)
next
  case Post_val
  then show ?thesis using post_val_round[OF io cur] by (simp add: object_step_def)
next
  case Post_array
  then show ?thesis using post_array_round[OF io cur] by (simp add: object_step_def)
qed (use io cur in \<open>auto simp: object_step_def round_ok_def within_def cursor_ok_def fail_def push_val_def json_read_prev_def
    step_in_val_string_def step_in_val_token_def
    JSON_ERR_OBSTART_def JSON_ERR_ATTRSTART_def JSON_ERR_STRLONG_def JSON_ERR_TOKLONG_def\<close>)

text \<open>The loop ends, behind where it started.\<close>

lemma object_loop_returns:
  assumes ra: "array_reader_ok read_array attrs"
  shows "cursor_ok attrs p \<Longrightarrow> jd_pos io \<le> len io \<Longrightarrow>
    \<exists>res. object_loop flt read_array attrs parent offset p io = Some res \<and> progress (jd_pos io) io res"
proof (induction "2 * (len io - jd_pos io) + rank (ps_state p)" arbitrary: p io rule: less_induct)
  case less
  obtain c io' where r: "json_read_next io = (c, io')" by fastforce
  show ?case
  proof (cases "c = NUL")
    case True
    then show ?thesis using r read_next_within(1)[OF less.prems(2)]
      by (subst object_loop.simps) (simp add: progress_def)
  next
    case False
    note n = read_next_not_NUL[OF r this]
    have q: "jd_pos io' = jd_pos io + 1" "jd_pos io < len io'" "len io' = len io" using n(1,2) by simp_all
    obtain step where step: "object_step flt read_array attrs parent offset c p io' = Some step"
        "round_ok attrs (jd_pos io) (ps_state p) io' step"
      using object_step_round[OF q(1,2) less.prems(1) ra] by blast
    have unfold: "object_loop flt read_array attrs parent offset p io =
        (case step of Stop r io \<Rightarrow> Some (r, io) | Next p io \<Rightarrow> object_loop flt read_array attrs parent offset p io)"
      using r False step(1) by (subst object_loop.simps) (simp split: json_step.split)
    show ?thesis
    proof (cases step)
      case (Stop r io'')
      then show ?thesis using step(2) unfold n q by (auto simp: round_ok_def progress_def within_def)
    next
      case (Next p' io'')
      then have w: "within io' (jd_pos io) io''" "cursor_ok attrs p'"
          "jd_pos io'' = jd_pos io \<longrightarrow> rank (ps_state p') < rank (ps_state p)"
        using step(2) by (simp_all add: round_ok_def)
      have "rank (ps_state p') \<le> 1" by (cases "ps_state p'") simp_all
      then have "2 * (len io'' - jd_pos io'') + rank (ps_state p') < 2 * (len io - jd_pos io) + rank (ps_state p)"
        using w n(1) q by (cases "jd_pos io'' = jd_pos io") (auto simp: within_def)
      from less.hyps[OF this w(2)] obtain res
        where "object_loop flt read_array attrs parent offset p' io'' = Some res" "progress (jd_pos io'') io'' res"
        using w(1) by (auto simp: within_def)
      then show ?thesis using unfold Next w(1) n(2) by (auto simp: progress_def within_def)
    qed
  qed
qed

lemma object_loop_advances:
  assumes ra: "array_reader_ok read_array attrs" and pos: "jd_pos io < len io"
  shows "\<exists>res. object_loop flt read_array attrs parent offset parser_init io = Some res \<and> progress (jd_pos io + 1) io res"
proof -
  have init: "cursor_ok attrs parser_init" "ps_state parser_init = Init" by (simp_all add: cursor_ok_def parser_init_def)
  have r: "json_read_next io = (jd_text io ! jd_pos io, io\<lparr>jd_pos := jd_pos io + 1\<rparr>)"
    using pos by (simp add: json_read_next_def)
  let ?c = "jd_text io ! jd_pos io" and ?io = "io\<lparr>jd_pos := jd_pos io + 1\<rparr>"
  show ?thesis
  proof (cases "?c = NUL")
    case True
    then show ?thesis using r pos by (subst object_loop.simps) (simp add: progress_def within_def)
  next
    case False
    obtain step where step: "object_step flt read_array attrs parent offset ?c parser_init ?io = Some step"
        "round_ok attrs (jd_pos io) Init ?io step"
      using object_step_round[OF _ _ init(1) ra, of ?io "jd_pos io" flt parent offset ?c] pos init(2) by auto
    have unfold: "object_loop flt read_array attrs parent offset parser_init io =
        (case step of Stop r io \<Rightarrow> Some (r, io) | Next p io \<Rightarrow> object_loop flt read_array attrs parent offset p io)"
      using r False step(1) by (subst object_loop.simps) (simp split: json_step.split)
    show ?thesis
    proof (cases step)
      case (Next p' io'')
      then have w: "within ?io (jd_pos io + 1) io''" "cursor_ok attrs p'"
        using step(2) by (simp_all add: round_ok_def within_def)
      then obtain res where "object_loop flt read_array attrs parent offset p' io'' = Some res" "progress (jd_pos io'') io'' res"
        using object_loop_returns[OF ra w(2), of io'' flt parent offset] by (auto simp: within_def)
      then show ?thesis using unfold Next w(1) by (auto simp: progress_def within_def)
    qed (use step(2) unfold in \<open>auto simp: round_ok_def progress_def within_def\<close>)
  qed
qed

lemma set_defaults_pos:
  "set_defaults parent offset attrs io = (rc, io') \<Longrightarrow> jd_text io' = jd_text io \<and> jd_pos io' = jd_pos io"
  by (induction parent offset attrs io rule: set_defaults.induct) (auto split: option.splits if_splits)

lemma subtype_size:
  assumes "a \<in> set attrs" and "at_array a = Some arr"
  shows "size arr < size_list size attrs" and "size_list size (ar_subtype arr) < size arr"
proof -
  have "size a \<le> size_list size attrs" using assms(1) by (induction attrs) auto
  moreover have "size arr < size a" using assms(2) by (cases a) simp
  ultimately show "size arr < size_list size attrs" by simp
  show "size_list size (ar_subtype arr) < size arr" by (cases arr) simp
qed

lemma internal_returns:
  assumes "float_ok flt"
  shows "size_list size attrs < d \<Longrightarrow> jd_pos io < len io \<Longrightarrow>
    \<exists>res. json_internal_read_object flt d attrs parent offset io = Some res \<and> progress (jd_pos io + 1) io res"
proof (induction d arbitrary: attrs parent offset io)
  case (Suc d)
  have ra: "array_reader_ok (json_read_array_with flt (json_internal_read_object flt d)) attrs"
    unfolding array_reader_ok_def
  proof (intro ballI allI impI)
    fix a arr and io :: json_io
    assume a: "a \<in> set attrs" "at_array a = Some arr" and pos: "jd_pos io < len io"
    have "size_list size (ar_subtype arr) < d" using subtype_size[OF a] Suc.prems(1) by simp
    then have "object_reader_ok (json_internal_read_object flt d) (ar_subtype arr)"
      using Suc.IH unfolding object_reader_ok_def by blast
    then show "\<exists>res. json_read_array_with flt (json_internal_read_object flt d) arr io = Some res \<and> progress (jd_pos io) io res"
      using read_array_progress[OF assms _ pos] by blast
  qed
  obtain rc io' where sd: "set_defaults parent offset attrs io = (rc, io')" by fastforce
  note pos = set_defaults_pos[OF sd]
  have p': "jd_pos io' < len io'" using pos Suc.prems(2) by simp
  obtain res where "object_loop flt (json_read_array_with flt (json_internal_read_object flt d)) attrs parent offset parser_init io' = Some res"
      "progress (jd_pos io' + 1) io' res"
    using object_loop_advances[OF ra p'] by blast
  moreover have "progress (jd_pos io + 1) io res" if "progress (jd_pos io' + 1) io' res"
    using that pos by (simp add: progress_def within_def)
  ultimately show ?case using sd by (cases res) (simp add: progress_def)
qed simp

end
