(* ===== verification/Json_Roundtrip.thy ===== *)
theory Json_Roundtrip
  imports Json_Facts
begin

text \<open>
  What the decoder makes of the encoder's output: printed numbers are read back, escaped
  strings are unescaped, and the entries of an object are stored one by one.
\<close>

section \<open>Numbers\<close>

lemma of_char_digit: "d < 10 \<Longrightarrow> (of_char (digit_char d) :: nat) = 48 + d"
  by (simp add: digit_char_def)

lemma digit_value_digit: "d < 10 \<Longrightarrow> digit_value (digit_char d) = d"
  by (simp add: digit_value_def of_char_digit Let_def)

lemma print_dec_digits: "c \<in> set (print_dec n) \<Longrightarrow> \<exists>d < 10. c = digit_char d"
proof (induction n rule: print_dec.induct)
  case (1 n)
  have "\<exists>d < 10. digit_char (n mod 10) = digit_char d" by (intro exI[of _ "n mod 10"]) simp
  with 1 show ?case by (subst (asm) (2) print_dec.simps) (auto split: if_splits)
qed

lemma print_dec_nonempty [simp]: "print_dec n \<noteq> []"
  by (subst print_dec.simps) simp

lemma print_dec_hd: "0 < n \<Longrightarrow> hd (print_dec n) \<noteq> digit_char 0"
proof (induction n rule: print_dec.induct)
  case (1 n)
  have inj: "d < 10 \<Longrightarrow> digit_char d = digit_char 0 \<Longrightarrow> d = 0" for d
    using of_char_digit[of d] of_char_digit[of 0] by simp
  show ?case
  proof (cases "n < 10")
    case True
    then show ?thesis using inj[of n] 1(2) by (subst print_dec.simps) auto
  next
    case False
    then show ?thesis using 1 by (subst print_dec.simps) simp
  qed
qed

lemma scan_digits_append:
  assumes "\<forall>c \<in> set xs. digit_value c < base" and "digit_value d < base"
  shows "scan_digits base acc (xs @ [d]) =
    (fst (scan_digits base acc xs) * base + digit_value d, Suc (length xs))"
  using assms by (induction xs arbitrary: acc) (simp_all add: split_beta)

lemma scan_digits_length:
  "\<forall>c \<in> set xs. digit_value c < base \<Longrightarrow> snd (scan_digits base acc xs) = length xs"
  by (induction xs arbitrary: acc) (simp_all add: split_beta)

lemma scan_print_dec: "fst (scan_digits 10 0 (print_dec n)) = n"
proof (induction n rule: print_dec.induct)
  case (1 n)
  show ?case
  proof (cases "n < 10")
    case True
    then show ?thesis by (subst print_dec.simps) (simp add: digit_value_digit)
  next
    case False
    have "\<forall>c \<in> set (print_dec (n div 10)). digit_value c < 10"
      using print_dec_digits digit_value_digit by fastforce
    then have "scan_digits 10 0 (print_dec (n div 10) @ [digit_char (n mod 10)]) =
        (n div 10 * 10 + n mod 10, Suc (length (print_dec (n div 10))))"
      using scan_digits_append[of "print_dec (n div 10)" 10 "digit_char (n mod 10)" 0] 1[OF False]
      by (simp add: digit_value_digit)
    then show ?thesis using False by (subst print_dec.simps) simp
  qed
qed

text \<open>What a printed number consists of.\<close>

definition plain_digit :: "char \<Rightarrow> bool" where
  "plain_digit c \<longleftrightarrow> (\<exists>d < 10. c = digit_char d)"

lemma plain_digit_facts:
  assumes "plain_digit c"
  shows "48 \<le> (of_char c :: nat)" and "(of_char c :: nat) \<le> 57"
  using assms of_char_digit by (auto simp: plain_digit_def)

lemma plain_digit_not:
  assumes "plain_digit c"
  shows "c \<noteq> NUL" "\<not> is_space c" "c \<noteq> CHR ''-''" "c \<noteq> CHR ''+''" "c \<noteq> CHR ''x''" "c \<noteq> CHR ''X''" "c \<noteq> CHR '',''"
    "c \<noteq> CHR ''}''" "c \<noteq> CHR ''[''" "c \<noteq> CHR '':''" "c \<noteq> QUOTE" "is_digit c" "c \<noteq> CHR ''.''"
  using plain_digit_facts[OF assms] by (auto simp: NUL_def is_space_def QUOTE_def is_digit_def)

lemma print_dec_plain: "\<forall>c \<in> set (print_dec n). plain_digit c"
  using print_dec_digits by (auto simp: plain_digit_def)

lemma strto_print_dec:
  assumes "sg = [] \<or> sg = ''-''"
  shows "strto 0 (sg @ print_dec n) = (sg \<noteq> [], n, length sg + length (print_dec n))"
proof -
  let ?s = "print_dec n"
  have plain: "\<forall>c \<in> set ?s. plain_digit c" by (rule print_dec_plain)
  obtain c cs where s: "?s = c # cs" by (cases "?s") auto
  then have c: "plain_digit c" using plain by simp
  have ws: "takeWhile is_space (sg @ ?s) = []"
    using assms plain_digit_not(2)[OF c] by (auto simp: s is_space_def)
  have hex: "\<not> (length ?s > 2 \<and> (?s ! 1 = CHR ''x'' \<or> ?s ! 1 = CHR ''X''))"
    using plain plain_digit_not(5,6) by (metis (full_types) less_trans nth_mem one_less_numeral_iff semiring_norm(76))
  have zero: "c = CHR ''0'' \<longleftrightarrow> n = 0"
  proof -
    have z: "CHR ''0'' = digit_char 0" 
    proof -
      have "char_of (of_char (CHR ''0'') :: nat) = CHR ''0''" by (rule char_of_char)
      then show ?thesis by (simp add: digit_char_def)
    qed
    show ?thesis
    proof
      assume "c = CHR ''0''"
      then show "n = 0" using print_dec_hd[of n] s z by (cases "n = 0") auto
    next
      assume "n = 0"
      then have "?s = [digit_char 0]" by (subst print_dec.simps) simp
      then show "c = CHR ''0''" using s z by simp
    qed
  qed
  have dv: "\<forall>c \<in> set ?s. digit_value c < 10"
    using plain digit_value_digit by (auto simp: plain_digit_def)
  have scan: "scan_digits (if hd ?s = CHR ''0'' then 8 else 10) 0 ?s = (n, length ?s)"
  proof (cases "n = 0")
    case True
    then have "?s = [digit_char 0]" by (subst print_dec.simps) simp
    then show ?thesis using True zero s by (simp add: digit_value_def Let_def)
  next
    case False
    then show ?thesis using zero s scan_print_dec[of n] scan_digits_length[OF dv, of 0] by (simp add: prod_eq_iff)
  qed
  have sgn: "(sg @ ?s \<noteq> [] \<and> hd (sg @ ?s) = CHR ''-'') = (sg \<noteq> [])"
    "(if sg @ ?s \<noteq> [] \<and> (hd (sg @ ?s) = CHR ''-'' \<or> hd (sg @ ?s) = CHR ''+'') then 1 else 0) = length sg"
    "drop (length sg) (sg @ ?s) = ?s"
    using assms plain_digit_not(3,4)[OF c] by (auto simp: s)
  have hexF: "((0 :: nat) = 0 \<or> (0 :: nat) = 16) \<and> length ?s > 2 \<and> ?s ! 0 = CHR ''0'' \<and>
      (?s ! 1 = CHR ''x'' \<or> ?s ! 1 = CHR ''X'') \<and> digit_value (?s ! 2) < 16 \<longleftrightarrow> False"
    using hex by blast
  show ?thesis
    unfolding strto_def Let_def ws list.size drop_0 sgn hexF if_False
    using scan by simp
qed

lemma cstr_plain: "\<forall>c \<in> set s. c \<noteq> NUL \<Longrightarrow> cstr s = s"
  by (simp add: cstr_def takeWhile_eq_all_conv)

lemma print_dec_no_NUL: "c \<in> set (print_dec n) \<Longrightarrow> c \<noteq> NUL"
  using print_dec_plain plain_digit_not(1) by blast

lemma strtoull_print: "fst (strtoull (print_u64 w)) = w"
proof -
  have "cstr (print_dec (unat w)) = print_dec (unat w)" using print_dec_no_NUL by (intro cstr_plain) blast
  moreover have "unat w < 2 ^ LENGTH(64)" by (rule unsigned_less)
  then have "\<not> unat w \<ge> 2 ^ 64" by simp
  ultimately show ?thesis
    using strto_print_dec[of "[]" "unat w"] by (simp add: strtoull_def print_u64_def)
qed

lemma print_i64_sign: "print_i64 w = (if sint w < 0 then ''-'' else []) @ print_dec (nat \<bar>sint w\<bar>)"
  by (simp add: print_i64_def)

lemma strtoll_print: "fst (strtoll (print_i64 w)) = w"
proof -
  define sg where "sg = (if sint w < 0 then ''-'' else [])"
  define n where "n = nat \<bar>sint w\<bar>"
  have sg: "sg = [] \<or> sg = ''-''" and neg: "sg \<noteq> [] \<longleftrightarrow> sint w < 0" by (auto simp: sg_def)
  have p: "print_i64 w = sg @ print_dec n" by (simp add: print_i64_sign sg_def n_def)
  have "\<forall>c \<in> set (sg @ print_dec n). c \<noteq> NUL"
    using sg print_dec_no_NUL by (auto simp: NUL_def)
  then have "cstr (print_i64 w) = sg @ print_dec n" unfolding p by (rule cstr_plain)
  then have st: "strto 0 (cstr (print_i64 w)) = (sint w < 0, n, length sg + length (print_dec n))"
    using strto_print_dec[OF sg] neg by simp
  have range: "- (2 ^ 63) \<le> sint w" "sint w \<le> 2 ^ 63 - 1"
    using sint_greater_eq[of w] sint_less[of w] by simp_all
  have "(if sint w < 0 then max (- (2 ^ 63)) (- int n) else min (2 ^ 63 - 1) (int n)) = sint w"
    using range by (simp add: n_def)
  then show ?thesis by (simp add: strtoll_def st Let_def)
qed

section \<open>Running the machine over known characters\<close>

definition rest :: "json_io \<Rightarrow> string" where
  "rest io = drop (jd_pos io) (jd_text io)"

definition advance :: "nat \<Rightarrow> json_io \<Rightarrow> json_io" where
  "advance n io = io\<lparr>jd_pos := jd_pos io + n\<rparr>"

lemma advance_add [simp]: "advance m (advance n io) = advance (n + m) io"
  by (simp add: advance_def add.assoc)

lemma advance_0 [simp]: "advance 0 io = io"
  by (simp add: advance_def)

lemma rest_advance [simp]: "rest (advance n io) = drop n (rest io)"
  by (simp add: rest_def advance_def add.commute)

lemma store_advance [simp]: "jd_store (advance n io) = jd_store io" "store t v (advance n io) = advance n (store t v io)"
  by (simp_all add: advance_def store_def)

lemma rest_store [simp]: "rest (store t v io) = rest io"
  by (simp add: rest_def)

lemma read_next_rest:
  assumes "rest io = c # cs"
  shows "json_read_next io = (c, advance 1 io)"
proof -
  have pos: "jd_pos io < len io" using assms unfolding rest_def by (cases "jd_pos io < len io") simp_all
  then have "jd_text io ! jd_pos io = c" using assms Cons_nth_drop_Suc[OF pos] by (simp add: rest_def)
  then show ?thesis using pos by (simp add: json_read_next_def advance_def)
qed

lemma read_prev_advance: "rest io = c # cs \<Longrightarrow> snd (json_read_prev (advance 1 io)) = io"
  by (simp add: json_read_prev_def advance_def)

text \<open>The loop at the top level of an object.\<close>

abbreviation run where
  "run flt ra attrs p io \<equiv> object_loop flt ra attrs None 0 p io"

lemma run_step:
  assumes "rest io = c # cs" and "c \<noteq> NUL"
  shows "run flt ra attrs p io =
    (case object_step flt ra attrs None 0 c p (advance 1 io) of
       None \<Rightarrow> None
     | Some (Stop r io) \<Rightarrow> Some (r, io)
     | Some (Next p io) \<Rightarrow> run flt ra attrs p io)"
  using assms by (subst object_loop.simps) (simp add: read_next_rest)

lemma run_name:
  "rest io = name @ QUOTE # cs \<Longrightarrow> \<forall>c \<in> set name. c \<noteq> NUL \<and> c \<noteq> QUOTE \<Longrightarrow> ps_state p = In_attr \<Longrightarrow>
   length (ps_attrbuf p) + length name \<le> 30 \<Longrightarrow>
   dropWhile (\<lambda>a. at_attribute a \<noteq> ps_attrbuf p @ name) attrs = cur \<Longrightarrow> cur \<noteq> [] \<Longrightarrow>
   run flt ra attrs p io =
     run flt ra attrs
       (p\<lparr>ps_attrbuf := ps_attrbuf p @ name, ps_state := Await_value, ps_cursor := cur, ps_valbuf := [],
          ps_maxlen := cursor_maxlen (hd cur) (ps_maxlen p)\<rparr>)
       (advance (length name + 1) io)"
proof (induction name arbitrary: p io)
  case Nil
  have "QUOTE \<noteq> NUL" by (simp add: QUOTE_def NUL_def)
  then show ?case using Nil run_step[of io QUOTE cs]
    by (simp add: object_step_def step_in_attr_def Let_def)
next
  case (Cons c name)
  let ?p = "p\<lparr>ps_attrbuf := ps_attrbuf p @ [c]\<rparr>"
  have "run flt ra attrs p io = run flt ra attrs ?p (advance 1 io)"
    using Cons.prems run_step[of io c "name @ QUOTE # cs"]
    by (simp add: object_step_def step_in_attr_def)
  also have "\<dots> = run flt ra attrs
       (?p\<lparr>ps_attrbuf := ps_attrbuf ?p @ name, ps_state := Await_value, ps_cursor := cur, ps_valbuf := [],
          ps_maxlen := cursor_maxlen (hd cur) (ps_maxlen ?p)\<rparr>)
       (advance (length name + 1) (advance 1 io))"
    by (rule Cons.IH) (use Cons.prems in simp_all)
  finally show ?case by simp
qed

text \<open>The characters of a string, escaped by the encoder.\<close>

lemma QUOTE_facts: "QUOTE \<noteq> NUL" "BACKSLASH \<noteq> NUL" "BACKSLASH \<noteq> QUOTE" "\<not> is_space QUOTE" "QUOTE \<noteq> CHR '':''"
  "QUOTE \<noteq> CHR ''[''" "QUOTE \<noteq> CHR ''}''"
  by (simp_all add: QUOTE_def BACKSLASH_def NUL_def is_space_def)

definition room :: "json_parser \<Rightarrow> bool" where
  "room p \<longleftrightarrow> length (ps_valbuf p) \<le> JSON_VAL_MAX - 1 \<and> int (length (ps_valbuf p)) \<le> ps_maxlen p"

lemma run_char:
  assumes "rest io = escape_char c @ cs" and "c \<noteq> NUL" and "ps_state p = In_val_string" and "room p"
  shows "run flt ra attrs p io = run flt ra attrs (push_val c p) (advance (length (escape_char c)) io)"
proof (cases "escape_char c = [c]")
  case True
  then have "c \<noteq> QUOTE" "c \<noteq> BACKSLASH" by (auto simp: escape_char_def split: if_splits)
  then show ?thesis
    using True assms run_step[of io c cs] by (simp add: object_step_def step_in_val_string_def room_def not_less)
next
  case False
  then obtain d where d: "escape_char c = [BACKSLASH, d]" "d \<noteq> NUL"
    and esc: "\<And>p io. length (ps_valbuf p) \<le> JSON_VAL_MAX - 1 \<Longrightarrow>
        step_in_escape d p io = Next ((push_val c p)\<lparr>ps_state := In_val_string\<rparr>) io"
    by (auto simp: escape_char_def step_in_escape_def QUOTE_def BACKSLASH_def NUL_def split: if_splits)
  let ?p = "p\<lparr>ps_state := In_escape\<rparr>"
  have "run flt ra attrs p io = run flt ra attrs ?p (advance 1 io)"
    using assms d run_step[of io BACKSLASH "d # cs"] QUOTE_facts by (simp add: object_step_def step_in_val_string_def)
  also have "\<dots> = run flt ra attrs ((push_val c ?p)\<lparr>ps_state := In_val_string\<rparr>) (advance 2 io)"
    using assms d esc[of ?p] run_step[of "advance 1 io" d cs]
    by (simp add: object_step_def room_def numeral_2_eq_2)
  also have "(push_val c ?p)\<lparr>ps_state := In_val_string\<rparr> = push_val c p"
    using assms(3) by (simp add: push_val_def)
  finally show ?thesis using d by (simp add: numeral_2_eq_2)
qed

lemma run_string:
  "rest io = concat (map escape_char s) @ QUOTE # cs \<Longrightarrow> \<forall>c \<in> set s. c \<noteq> NUL \<Longrightarrow> ps_state p = In_val_string \<Longrightarrow>
   length (ps_valbuf p) + length s \<le> JSON_VAL_MAX \<Longrightarrow> int (length (ps_valbuf p) + length s) \<le> ps_maxlen p + 1 \<Longrightarrow>
   run flt ra attrs p io =
     run flt ra attrs (p\<lparr>ps_valbuf := ps_valbuf p @ s, ps_state := Post_val\<rparr>)
       (advance (length (concat (map escape_char s)) + 1) io)"
proof (induction s arbitrary: p io)
  case Nil
  then show ?case using run_step[of io QUOTE cs] QUOTE_facts
    by (simp add: object_step_def step_in_val_string_def)
next
  case (Cons c s)
  have "run flt ra attrs p io = run flt ra attrs (push_val c p) (advance (length (escape_char c)) io)"
    using Cons.prems by (intro run_char[of _ _ "concat (map escape_char s) @ QUOTE # cs"]) (simp_all add: room_def)
  also have "\<dots> = run flt ra attrs ((push_val c p)\<lparr>ps_valbuf := ps_valbuf (push_val c p) @ s, ps_state := Post_val\<rparr>)
      (advance (length (concat (map escape_char s)) + 1) (advance (length (escape_char c)) io))"
    by (rule Cons.IH) (use Cons.prems in \<open>simp_all add: push_val_def\<close>)
  finally show ?case by (simp add: push_val_def ac_simps)
qed

text \<open>A token up to the comma or brace behind it, which is left in the buffer.\<close>

definition token_char :: "char \<Rightarrow> bool" where
  "token_char c \<longleftrightarrow> \<not> is_space c \<and> c \<noteq> CHR '','' \<and> c \<noteq> CHR ''}'' \<and> c \<noteq> NUL"

lemma run_token:
  "rest io = tok @ t # cs \<Longrightarrow> t = CHR '','' \<or> t = CHR ''}'' \<Longrightarrow> \<forall>c \<in> set tok. token_char c \<Longrightarrow> ps_state p = In_val_token \<Longrightarrow>
   length (ps_valbuf p) + length tok \<le> JSON_VAL_MAX \<Longrightarrow>
   run flt ra attrs p io =
     run flt ra attrs (p\<lparr>ps_valbuf := ps_valbuf p @ tok, ps_state := Post_val\<rparr>) (advance (length tok) io)"
proof (induction tok arbitrary: p io)
  case Nil
  then have "t \<noteq> NUL" by (auto simp: NUL_def)
  with Nil show ?case using run_step[of io t cs] read_prev_advance[of io t cs]
    by (auto simp: object_step_def step_in_val_token_def)
next
  case (Cons c tok)
  have "run flt ra attrs p io = run flt ra attrs (push_val c p) (advance 1 io)"
    using Cons.prems run_step[of io c "tok @ t # cs"]
    by (simp add: object_step_def step_in_val_token_def token_char_def not_less)
  also have "\<dots> = run flt ra attrs ((push_val c p)\<lparr>ps_valbuf := ps_valbuf (push_val c p) @ tok, ps_state := Post_val\<rparr>)
      (advance (length tok) (advance 1 io))"
    by (rule Cons.IH) (use Cons.prems in \<open>simp_all add: push_val_def\<close>)
  finally show ?case by (simp add: push_val_def)
qed

section \<open>One entry\<close>

text \<open>An attribute that takes the value, and what is stored at its address.\<close>

fun fits :: "json_attr \<Rightarrow> json_value \<Rightarrow> bool" where
  "fits a (JBool u) \<longleftrightarrow> at_map a = None \<and> at_type a = t_boolean"
| "fits a (JUint u) \<longleftrightarrow> at_map a = None \<and> at_type a = t_uinteger"
| "fits a (JInt u) \<longleftrightarrow> at_map a = None \<and> at_type a = t_integer"
| "fits a (JString s) \<longleftrightarrow> at_map a = None \<and> at_type a = t_string \<and> length s < at_len a \<and> length s \<le> JSON_VAL_MAX \<and>
     (\<forall>c \<in> set s. c \<noteq> NUL)"
| "fits a _ \<longleftrightarrow> False"

fun stored_value :: "json_attr \<Rightarrow> json_value \<Rightarrow> json_val" where
  "stored_value a (JBool u) = VBool (u > 0)"
| "stored_value a (JUint u) = VUint u"
| "stored_value a (JInt u) = VInt u"
| "stored_value a (JString s) = VStr (s @ replicate (at_len a - length s) NUL)"
| "stored_value a _ = VBool False"

text \<open>The characters of the value between the quotes, if any.\<close>

fun value_text :: "json_value \<Rightarrow> string" where
  "value_text (JString s) = s"
| "value_text v = show_value v"

fun is_string :: "json_value \<Rightarrow> bool" where
  "is_string (JString s) = True"
| "is_string _ = False"

lemma fits_scalar: "fits a v \<Longrightarrow> is_scalar v"
  by (cases v) auto

lemma token_chars:
  assumes "is_scalar v" and "\<not> is_string v"
  shows "\<forall>c \<in> set (show_value v). token_char c \<and> c \<noteq> CHR '':'' \<and> c \<noteq> CHR ''['' \<and> c \<noteq> QUOTE"
    and "show_value v \<noteq> []"
proof -
  have dec: "\<forall>c \<in> set (print_dec n). token_char c \<and> c \<noteq> CHR '':'' \<and> c \<noteq> CHR ''['' \<and> c \<noteq> QUOTE" for n
    using print_dec_plain[of n] plain_digit_not by (auto simp: token_char_def)
  have minus: "token_char (CHR ''-'')" "CHR ''-'' \<noteq> QUOTE"
    by (simp_all add: token_char_def is_space_def NUL_def QUOTE_def)
  show "\<forall>c \<in> set (show_value v). token_char c \<and> c \<noteq> CHR '':'' \<and> c \<noteq> CHR ''['' \<and> c \<noteq> QUOTE"
  proof (cases v)
    case (JBool u)
    then show ?thesis by (auto simp: token_char_def is_space_def NUL_def QUOTE_def)
  qed (use assms dec minus in \<open>auto simp: print_u64_def print_i64_sign\<close>)
  show "show_value v \<noteq> []"
    using assms by (cases v) (auto simp: print_u64_def print_i64_sign)
qed

lemma token_text: "is_scalar v \<Longrightarrow> \<not> is_string v \<Longrightarrow> value_text v = show_value v"
  by (cases v) auto

lemma store_value_fits:
  assumes "fits a v"
  shows "store_value flt a None 0 (cstr (value_text v)) io = Inl (store (at_addr a, 0, 0) (stored_value a v) io)"
proof (cases "is_string v")
  case True
  then obtain s where v: "v = JString s" by (cases v) auto
  then have "cstr s = s" using assms by (intro cstr_plain) simp
  then show ?thesis using assms v by (simp add: store_value_def json_target_address_def in_struct_def)
next
  case False
  note sc = fits_scalar[OF assms]
  have "\<forall>c \<in> set (show_value v). c \<noteq> NUL" using token_chars(1)[OF sc False] by (auto simp: token_char_def)
  then have "cstr (value_text v) = show_value v" unfolding token_text[OF sc False] by (rule cstr_plain)
  then show ?thesis using assms False
    by (cases v) (auto simp: store_value_def json_target_address_def in_struct_def strtoll_print strtoull_print)
qed

lemma run_post_val:
  assumes r: "rest io = t # cs" and t: "t = CHR '','' \<or> t = CHR ''}''"
    and st: "ps_state p = Post_val" and cur: "ps_cursor p = a # rs" and uniq: "\<forall>b \<in> set rs. at_attribute b \<noteq> ps_attrbuf p"
    and v: "fits a v" "ps_valbuf p = value_text v" "ps_quoted p = is_string v"
  shows "\<exists>p'. ps_state p' = Await_attr \<and> run flt ra attrs p io =
    (if t = CHR '','' then run flt ra attrs p' (advance 1 (store (at_addr a, 0, 0) (stored_value a v) io))
     else Some (Status 0, advance 1 (store (at_addr a, 0, 0) (stored_value a v) io)))"
proof -
  have seek: "seek_type (ps_quoted p) (cstr (ps_valbuf p)) (ps_attrbuf p) (a # rs) = a # rs"
    using uniq by (cases rs) simp_all
  have map: "at_map a = None" and ty: "ps_quoted p \<longleftrightarrow> at_type a = t_string" "at_type a \<noteq> t_check"
    using v(1,3) by (cases v; auto)+
  define p' where "p' = p\<lparr>ps_state := Await_attr\<rparr>"
  have "step_post_val flt None 0 t p (advance 1 io) =
      step_post_array t p (advance 1 (store (at_addr a, 0, 0) (stored_value a v) io))"
  proof -
    have same: "p\<lparr>ps_cursor := a # rs, ps_valbuf := ps_valbuf p\<rparr> = p" using cur by (cases p) simp
    have "store_value flt a None 0 (cstr (ps_valbuf p)) (advance 1 io) =
        Inl (advance 1 (store (at_addr a, 0, 0) (stored_value a v) io))"
      using store_value_fits[OF v(1), of flt "advance 1 io"] by (simp add: v(2))
    then show ?thesis unfolding step_post_val_def Let_def cur seek list.sel map option.case using ty same by auto
  qed
  moreover have "t \<noteq> NUL" "\<not> is_space t" using t by (auto simp: NUL_def is_space_def)
  moreover have "CHR ''}'' \<noteq> CHR '',''" by simp
  ultimately have "run flt ra attrs p io =
    (if t = CHR '','' then run flt ra attrs p' (advance 1 (store (at_addr a, 0, 0) (stored_value a v) io))
     else Some (Status 0, advance 1 (store (at_addr a, 0, 0) (stored_value a v) io)))"
    using run_step[OF r] t st by (auto simp: object_step_def step_post_array_def p'_def)
  moreover have "ps_state p' = Await_attr" by (simp add: p'_def)
  ultimately show ?thesis by blast
qed

lemma print_dec_length: "n < 10 ^ k \<Longrightarrow> 0 < k \<Longrightarrow> length (print_dec n) \<le> k"
proof (induction k arbitrary: n)
  case (Suc k)
  show ?case
  proof (cases "n < 10")
    case True
    then show ?thesis by (subst print_dec.simps) simp
  next
    case False
    have "0 < k" using Suc.prems(1) False by (cases k) auto
    moreover have "n div 10 < 10 ^ k" using Suc.prems(1) by (simp add: less_mult_imp_div_less mult.commute)
    ultimately have "length (print_dec (n div 10)) \<le> k" using Suc.IH by blast
    then show ?thesis using False by (subst print_dec.simps) simp
  qed
qed simp

lemma token_short:
  assumes "is_scalar v" and "\<not> is_string v"
  shows "length (show_value v) \<le> JSON_VAL_MAX"
proof -
  have dec: "length (print_dec n) \<le> 20" if "n < 2 ^ 64" for n
    using that by (intro print_dec_length) simp_all
  show ?thesis
  proof (cases v)
    case (JUint u)
    have "unat u < 2 ^ LENGTH(64)" by (rule unsigned_less)
    then show ?thesis using JUint dec[of "unat u"] by (simp add: print_u64_def)
  next
    case (JInt u)
    have "- (2 ^ 63) \<le> sint u" "sint u < 2 ^ 63" using sint_greater_eq[of u] sint_less[of u] by simp_all
    then have "nat \<bar>sint u\<bar> < 2 ^ 64" by (simp add: nat_less_iff)
    then have "length (print_dec (nat \<bar>sint u\<bar>)) \<le> 20" by (rule dec)
    then show ?thesis using JInt by (auto simp: print_i64_sign abs_if split: if_splits)
  qed (use assms in auto)
qed

lemma show_value_string: "show_value (JString s) = QUOTE # concat (map escape_char s) @ [QUOTE]"
  by simp

text \<open>The value itself, from the first character after the blank.\<close>

lemma run_value:
  assumes r: "rest io = show_value v @ t # cs" and t: "t = CHR '','' \<or> t = CHR ''}''" and v: "fits a v"
    and st: "ps_state p = Await_value" and cur: "ps_cursor p = a # rs" and mx: "ps_maxlen p = cursor_maxlen a m"
  shows "\<exists>p'. run flt ra attrs p io = run flt ra attrs p' (advance (length (show_value v)) io) \<and>
    ps_state p' = Post_val \<and> ps_cursor p' = a # rs \<and> ps_attrbuf p' = ps_attrbuf p \<and>
    ps_valbuf p' = value_text v \<and> ps_quoted p' = is_string v"
proof (cases "is_string v")
  case True
  then obtain s where s: "v = JString s" by (cases v) auto
  let ?p = "p\<lparr>ps_quoted := True, ps_state := In_val_string, ps_valbuf := []\<rparr>"
  have ty: "at_type a = t_string" using v s by simp
  have r1: "rest io = QUOTE # (concat (map escape_char s) @ QUOTE # t # cs)" using r s by simp
  then have "run flt ra attrs p io = run flt ra attrs ?p (advance 1 io)"
    using run_step[OF r1 QUOTE_facts(1)] st cur ty QUOTE_facts
    by (simp add: object_step_def step_await_value_def Let_def)
  also have "\<dots> = run flt ra attrs (?p\<lparr>ps_valbuf := ps_valbuf ?p @ s, ps_state := Post_val\<rparr>)
      (advance (length (concat (map escape_char s)) + 1) (advance 1 io))"
    by (rule run_string[where cs = "t # cs"]) (use r1 v s mx ty in \<open>auto simp: cursor_maxlen_def\<close>)
  finally show ?thesis
    using s cur by (intro exI[of _ "p\<lparr>ps_quoted := True, ps_valbuf := s, ps_state := Post_val\<rparr>"]) (simp add: add.commute)
next
  case False
  note sc = fits_scalar[OF v]
  obtain c tok where s: "show_value v = c # tok" using token_chars(2)[OF sc False] by (cases "show_value v") auto
  note ch = token_chars(1)[OF sc False, unfolded s]
  let ?p = "p\<lparr>ps_quoted := False, ps_state := In_val_token, ps_valbuf := [c]\<rparr>"
  have ty: "at_type a \<noteq> t_array" using v by (cases v) auto
  have r1: "rest io = c # (tok @ t # cs)" using r s by simp
  have c: "c \<noteq> NUL" "\<not> is_space c" using ch by (simp_all add: token_char_def)
  then have "run flt ra attrs p io = run flt ra attrs ?p (advance 1 io)"
    using run_step[OF r1 c(1)] st cur ty ch
    by (simp add: object_step_def step_await_value_def Let_def)
  also have "\<dots> = run flt ra attrs (?p\<lparr>ps_valbuf := ps_valbuf ?p @ tok, ps_state := Post_val\<rparr>)
      (advance (length tok) (advance 1 io))"
    by (rule run_token[where cs = cs, OF _ t]) (use r1 ch s token_short[OF sc False] in auto)
  finally show ?thesis
    using s cur False token_text[OF sc False]
    by (intro exI[of _ "p\<lparr>ps_quoted := False, ps_valbuf := c # tok, ps_state := Post_val\<rparr>"]) simp
qed

section \<open>A whole object\<close>

definition name_ok :: "string \<Rightarrow> bool" where
  "name_ok k \<longleftrightarrow> plain_key k \<and> length k \<le> JSON_ATTR_MAX - 1"

lemma cursor_of_name:
  assumes "distinct (map at_attribute attrs)" and "a \<in> set attrs"
  shows "\<exists>rs. dropWhile (\<lambda>b. at_attribute b \<noteq> at_attribute a) attrs = a # rs \<and> (\<forall>b \<in> set rs. at_attribute b \<noteq> at_attribute a)"
  using assms
proof (induction attrs)
  case (Cons b attrs)
  then show ?case by (auto simp: image_iff)
qed simp

text \<open>The name of an entry, the colon and the blank.\<close>

lemma run_key:
  assumes r: "rest io = QUOTE # (k @ QUOTE # CHR '':'' # CHR '' '' # cs)" and st: "ps_state p = Await_attr" and k: "name_ok k"
    and cur: "dropWhile (\<lambda>b. at_attribute b \<noteq> k) attrs = a # rs"
  shows "run flt ra attrs p io =
    run flt ra attrs (p\<lparr>ps_attrbuf := k, ps_state := Await_value, ps_cursor := a # rs, ps_valbuf := [],
      ps_maxlen := cursor_maxlen a (ps_maxlen p)\<rparr>) (advance (length k + 4) io)"
proof -
  let ?p1 = "p\<lparr>ps_state := In_attr, ps_attrbuf := []\<rparr>"
  let ?p2 = "p\<lparr>ps_attrbuf := k, ps_state := Await_value, ps_cursor := a # rs, ps_valbuf := [],
    ps_maxlen := cursor_maxlen a (ps_maxlen p)\<rparr>"
  have "run flt ra attrs p io = run flt ra attrs ?p1 (advance 1 io)"
    using run_step[OF r QUOTE_facts(1)] st QUOTE_facts by (simp add: object_step_def)
  also have "\<dots> = run flt ra attrs ?p2 (advance (length k + 1) (advance 1 io))"
    using run_name[of "advance 1 io" k "CHR '':'' # CHR '' '' # cs" ?p1 attrs "a # rs"] r k cur
    by (simp add: name_ok_def plain_key_def NUL_def)
  also have "\<dots> = run flt ra attrs ?p2 (advance (length k + 3) io)"
    using run_step[of "advance (length k + 2) io" "CHR '':''" "CHR '' '' # cs"] r
    by (simp add: object_step_def step_await_value_def Let_def NUL_def numeral_3_eq_3)
  also have "\<dots> = run flt ra attrs ?p2 (advance (length k + 4) io)"
    using run_step[of "advance (length k + 3) io" "CHR '' ''" cs] r
    by (simp add: object_step_def step_await_value_def Let_def NUL_def is_space_def numeral_eq_Suc)
  finally show ?thesis .
qed

lemma run_entry:
  assumes r: "rest io = show_entry (k, v) @ t # cs" and t: "t = CHR '','' \<or> t = CHR ''}''" and st: "ps_state p = Await_attr"
    and uniq: "distinct (map at_attribute attrs)" and a: "a \<in> set attrs" "at_attribute a = k" "fits a v" and k: "name_ok k"
  shows "\<exists>p'. ps_state p' = Await_attr \<and> run flt ra attrs p io =
    (if t = CHR '',''
     then run flt ra attrs p' (advance (length (show_entry (k, v)) + 1) (store (at_addr a, 0, 0) (stored_value a v) io))
     else Some (Status 0, advance (length (show_entry (k, v)) + 1) (store (at_addr a, 0, 0) (stored_value a v) io)))"
proof -
  obtain rs where cur: "dropWhile (\<lambda>b. at_attribute b \<noteq> k) attrs = a # rs" "\<forall>b \<in> set rs. at_attribute b \<noteq> k"
    using cursor_of_name[OF uniq a(1)] a(2) by auto
  have r0: "rest io = QUOTE # (k @ QUOTE # CHR '':'' # CHR '' '' # show_value v @ t # cs)"
    using r by (simp add: show_entry_def)
  let ?p2 = "p\<lparr>ps_attrbuf := k, ps_state := Await_value, ps_cursor := a # rs, ps_valbuf := [],
    ps_maxlen := cursor_maxlen a (ps_maxlen p)\<rparr>"
  note name = run_key[OF r0 st k cur(1), of flt ra]
  have r4: "rest (advance (length k + 4) io) = show_value v @ t # cs"
    using r0 by (simp add: numeral_eq_Suc)
  obtain p3 where p3: "run flt ra attrs ?p2 (advance (length k + 4) io) =
        run flt ra attrs p3 (advance (length (show_value v)) (advance (length k + 4) io))"
      "ps_state p3 = Post_val" "ps_cursor p3 = a # rs" "ps_attrbuf p3 = ps_attrbuf ?p2" "ps_valbuf p3 = value_text v"
      "ps_quoted p3 = is_string v"
    using run_value[OF r4 t a(3), of ?p2 rs "ps_maxlen p" flt ra attrs] by auto
  have r5: "rest (advance (length (show_value v)) (advance (length k + 4) io)) = t # cs"
    unfolding rest_advance[of "length (show_value v)"] r4 by simp
  have "\<forall>b \<in> set rs. at_attribute b \<noteq> ps_attrbuf p3" using cur(2) p3(4) by simp
  note post = run_post_val[OF r5 t p3(2,3) this a(3) p3(5,6), where flt = flt and ra = ra and attrs = attrs]
  have "advance 1 (store (at_addr a, 0, 0) (stored_value a v) (advance (length (show_value v)) (advance (length k + 4) io))) =
      advance (length (show_entry (k, v)) + 1) (store (at_addr a, 0, 0) (stored_value a v) io)"
    by (simp add: show_entry_def ac_simps numeral_eq_Suc)
  from post[unfolded this] show ?thesis unfolding name p3(1) .
qed

text \<open>The store after the entries.\<close>

definition attr_of :: "json_attr list \<Rightarrow> string \<Rightarrow> json_attr" where
  "attr_of attrs k = hd (dropWhile (\<lambda>a. at_attribute a \<noteq> k) attrs)"

definition store_entries :: "json_attr list \<Rightarrow> (string \<times> json_value) list \<Rightarrow> json_io \<Rightarrow> json_io" where
  "store_entries attrs = fold (\<lambda>(k, v). store (at_addr (attr_of attrs k), 0, 0) (stored_value (attr_of attrs k) v))"

definition entries_fit :: "json_attr list \<Rightarrow> (string \<times> json_value) list \<Rightarrow> bool" where
  "entries_fit attrs kvs \<longleftrightarrow> distinct (map at_attribute attrs) \<and>
     (\<forall>(k, v) \<in> set kvs. name_ok k \<and> (\<exists>a \<in> set attrs. at_attribute a = k \<and> fits a v))"

lemma attr_of_eq:
  assumes "distinct (map at_attribute attrs)" and "a \<in> set attrs"
  shows "attr_of attrs (at_attribute a) = a"
  using cursor_of_name[OF assms] by (auto simp: attr_of_def)

lemma store_entries_frame [simp]:
  "rest (store_entries attrs kvs io) = rest io" "jd_pos (store_entries attrs kvs io) = jd_pos io"
  "store_entries attrs kvs (advance n io) = advance n (store_entries attrs kvs io)"
proof -
  show "rest (store_entries attrs kvs io) = rest io"
    by (induction kvs arbitrary: io) (auto simp: store_entries_def)
  show "jd_pos (store_entries attrs kvs io) = jd_pos io"
    by (induction kvs arbitrary: io) (auto simp: store_entries_def)
  show "store_entries attrs kvs (advance n io) = advance n (store_entries attrs kvs io)"
    by (induction kvs arbitrary: io) (auto simp: store_entries_def)
qed

lemma store_entries_Cons:
  "store_entries attrs ((k, v) # kvs) io =
    store_entries attrs kvs (store (at_addr (attr_of attrs k), 0, 0) (stored_value (attr_of attrs k) v) io)"
  by (simp add: store_entries_def)

lemma run_entries:
  "rest io = show_entries False kvs @ CHR ''}'' # cs \<Longrightarrow> kvs \<noteq> [] \<Longrightarrow> ps_state p = Await_attr \<Longrightarrow> entries_fit attrs kvs \<Longrightarrow>
   run flt ra attrs p io = Some (Status 0, advance (length (show_entries False kvs) + 1) (store_entries attrs kvs io))"
proof (induction kvs arbitrary: p io)
  case (Cons kv kvs)
  obtain k v where kv: "kv = (k, v)" by fastforce
  obtain a where a: "a \<in> set attrs" "at_attribute a = k" "fits a v" "name_ok k" and uniq: "distinct (map at_attribute attrs)"
    using Cons.prems(4) kv by (auto simp: entries_fit_def)
  have ao: "attr_of attrs k = a" using attr_of_eq[OF uniq a(1)] a(2) by simp
  let ?io = "advance (length (show_entry (k, v)) + 1) (store (at_addr a, 0, 0) (stored_value a v) io)"
  have comma: "CHR ''}'' \<noteq> CHR '',''" by simp
  show ?case
  proof (cases "kvs = []")
    case True
    then have "rest io = show_entry (k, v) @ CHR ''}'' # cs" using Cons.prems(1) kv by simp
    from run_entry[OF this _ Cons.prems(3) uniq a, of flt ra] show ?thesis
      using True kv ao comma by (simp add: store_entries_def)
  next
    case False
    have head: "show_entries True kvs = CHR '','' # show_entries False kvs" using False by (cases kvs) simp_all
    then have r: "rest io = show_entry (k, v) @ CHR '','' # (show_entries False kvs @ CHR ''}'' # cs)"
      using Cons.prems(1) kv by simp
    obtain p' where p': "ps_state p' = Await_attr" "run flt ra attrs p io = run flt ra attrs p' ?io"
      using run_entry[OF r _ Cons.prems(3) uniq a, of flt ra] by auto
    have "run flt ra attrs p' ?io = Some (Status 0, advance (length (show_entries False kvs) + 1) (store_entries attrs kvs ?io))"
      by (rule Cons.IH) (use r False p'(1) Cons.prems(4) in \<open>auto simp: entries_fit_def\<close>)
    then show ?thesis
      using p'(2) kv head ao by (simp add: store_entries_Cons ac_simps)
  qed
qed simp

lemma encode_object_shown:
  assumes "entries_fit attrs kvs" and "je_wr_commas e = False"
  shows "\<exists>e'. json_encode_value fmt (JObject kvs) e = Some (0, e') \<and>
    je_out e' = je_out e @ ''{'' @ show_entries False kvs @ ''}''"
proof -
  have "\<forall>kv \<in> set kvs. is_scalar (snd kv) \<and> plain_key (fst kv)"
    using assms(1) fits_scalar by (fastforce simp: entries_fit_def name_ok_def)
  then show ?thesis using assms(2) by (simp add: encode_entries_shown je_write_def)
qed

lemma set_defaults_top: "set_defaults None 0 attrs io = (rc, io') \<Longrightarrow> rc = 0"
  by (induction "None :: json_array option" "0 :: nat" attrs io rule: set_defaults.induct)
    (auto split: option.splits if_splits)

text \<open>Decoding what was encoded: the defaults, and then the entries.\<close>

lemma read_encoded:
  assumes fit: "entries_fit attrs kvs" and "kvs \<noteq> []" and "je_wr_commas e = False"
    and enc: "json_encode_value fmt (JObject kvs) e = Some (0, e')"
    and out: "je_out e' = je_out e @ s" and r: "rest io = s @ cs"
  shows "json_read_object flt attrs io =
    Some (Status 0, advance (length s) (store_entries attrs kvs (snd (set_defaults None 0 attrs io))))"
proof -
  obtain rc io' where sd: "set_defaults None 0 attrs io = (rc, io')" by fastforce
  have rc: "rc = 0" by (rule set_defaults_top[OF sd])
  have s: "s = ''{'' @ show_entries False kvs @ ''}''"
    using encode_object_shown[OF fit assms(3), of fmt] enc out by auto
  have "rest io' = rest io" using set_defaults_pos[OF sd] by (simp add: rest_def)
  then have r': "rest io' = CHR ''{'' # (show_entries False kvs @ CHR ''}'' # cs)" using r s by simp
  define ra where "ra = json_read_array_with flt (json_internal_read_object flt (size_list size attrs))"
  let ?p = "parser_init\<lparr>ps_state := Await_attr\<rparr>"
  have "run flt ra attrs parser_init io' = run flt ra attrs ?p (advance 1 io')"
    using run_step[OF r'] by (simp add: object_step_def parser_init_def is_space_def NUL_def)
  also have "\<dots> = Some (Status 0, advance (length (show_entries False kvs) + 1) (store_entries attrs kvs (advance 1 io')))"
    by (rule run_entries[where cs = cs]) (use r' assms(2) fit in simp_all)
  finally show ?thesis
    using sd rc s by (simp add: json_read_object_def ra_def ac_simps)
qed

text \<open>What the store holds for each entry.\<close>

lemma store_entries_at:
  assumes "entries_fit attrs kvs" and "distinct (map fst kvs)" and "inj_on at_addr (set attrs)"
    and "(k, v) \<in> set kvs" and "a \<in> set attrs" and "at_attribute a = k"
  shows "jd_store (store_entries attrs kvs io) (at_addr a, 0, 0) = Some (stored_value a v)"
  using assms(1,2,4)
proof (induction kvs arbitrary: io)
  case (Cons kv kvs)
  obtain k' v' where kv: "kv = (k', v')" by fastforce
  have uniq: "distinct (map at_attribute attrs)" using Cons.prems(1) by (simp add: entries_fit_def)
  have fit: "entries_fit attrs kvs" using Cons.prems(1) by (simp add: entries_fit_def)
  show ?case
  proof (cases "k' = k")
    case True
    then have v: "v' = v" "k \<notin> fst ` set kvs" using Cons.prems(2,3) kv by (force, force)
    have a: "attr_of attrs k = a" using attr_of_eq[OF uniq assms(5)] assms(6) by simp
    have other: "jd_store (store_entries attrs kvs' io') (at_addr a, 0, 0) = jd_store io' (at_addr a, 0, 0)"
      if "k \<notin> fst ` set kvs'" "entries_fit attrs kvs'" for kvs' io'
      using that
    proof (induction kvs' arbitrary: io')
      case (Cons kw kws)
      obtain k2 v2 where kw: "kw = (k2, v2)" by fastforce
      obtain a2 where a2: "a2 \<in> set attrs" "at_attribute a2 = k2" using Cons.prems(2) kw by (auto simp: entries_fit_def)
      then have "attr_of attrs k2 = a2" using attr_of_eq[OF uniq] by blast
      moreover have "at_addr a2 \<noteq> at_addr a"
        using a2 assms(3,5,6) Cons.prems(1) kw by (auto simp: inj_on_def)
      moreover have "entries_fit attrs kws" "k \<notin> fst ` set kws" using Cons.prems by (auto simp: entries_fit_def)
      ultimately show ?case using Cons.IH kw by (simp add: store_entries_Cons store_def)
    qed (simp add: store_entries_def)
    show ?thesis using other[OF v(2) fit] kv True v(1) a by (simp add: store_entries_Cons store_def)
  next
    case False
    then show ?thesis using Cons.IH[OF fit] Cons.prems(2,3) kv by (auto simp: store_entries_Cons)
  qed
qed simp

section \<open>Escapes without a bound\<close>

lemma run_escapes:
  "rest io = concat (replicate n [BACKSLASH, CHR ''n'']) @ cs \<Longrightarrow> ps_state p = In_val_string \<Longrightarrow>
   514 \<le> length (ps_valbuf p) + n \<Longrightarrow> length (ps_valbuf p) \<le> 513 \<Longrightarrow>
   \<exists>io'. run flt ra attrs p io = Some (Overflow, io')"
proof (induction n arbitrary: p io)
  case (Suc n)
  let ?r = "concat (replicate n [BACKSLASH, CHR ''n'']) @ cs" and ?p = "p\<lparr>ps_state := In_escape\<rparr>"
  have n: "CHR ''n'' \<noteq> NUL" by (simp add: NUL_def)
  have r: "rest io = BACKSLASH # (CHR ''n'' # ?r)" "rest (advance 1 io) = CHR ''n'' # ?r" using Suc.prems(1) by simp_all
  have "run flt ra attrs p io = run flt ra attrs ?p (advance 1 io)"
    using run_step[OF r(1) QUOTE_facts(2)] Suc.prems(2) QUOTE_facts by (simp add: object_step_def step_in_val_string_def)
  moreover have "(push_val (CHR 0x0A) ?p)\<lparr>ps_state := In_val_string\<rparr> = push_val (CHR 0x0A) p"
    using Suc.prems(2) by (cases p) (simp add: push_val_def)
  moreover have "run flt ra attrs ?p (advance 1 io) = (if length (ps_valbuf p) > JSON_VAL_MAX then Some (Overflow, advance 2 io)
      else run flt ra attrs ((push_val (CHR 0x0A) ?p)\<lparr>ps_state := In_val_string\<rparr>) (advance 2 io))"
    using run_step[OF r(2) n, of flt ra attrs ?p] by (simp add: object_step_def step_in_escape_def numeral_2_eq_2)
  ultimately have run: "run flt ra attrs p io = (if length (ps_valbuf p) > JSON_VAL_MAX then Some (Overflow, advance 2 io)
      else run flt ra attrs (push_val (CHR 0x0A) p) (advance 2 io))" by simp
  show ?case
  proof (cases "length (ps_valbuf p) > JSON_VAL_MAX")
    case False
    then have "\<exists>io'. run flt ra attrs (push_val (CHR 0x0A) p) (advance 2 io) = Some (Overflow, io')"
      using Suc.prems r by (intro Suc.IH) (simp_all add: push_val_def numeral_2_eq_2)
    then show ?thesis using run False by simp
  qed (use run in simp)
qed simp

end
