(* ===== verification/Json_Claims.thy ===== *)
theory Json_Claims
  imports Json_Roundtrip
begin

text \<open>The properties of the JSON encoder and decoder, with their witnesses.\<close>

section \<open>A concrete table\<close>

definition sample_attr :: "string \<Rightarrow> json_type \<Rightarrow> nat \<Rightarrow> nat \<Rightarrow> json_attr" where
  "sample_attr k ty addr l = Attr k ty addr None (VInt 0) [] l None False"

definition sample_attrs :: "json_attr list" where
  "sample_attrs = [sample_attr ''n'' t_integer 1 0, sample_attr ''s'' t_string 2 8]"

definition sample_io :: "string \<Rightarrow> json_io" where
  "sample_io s = \<lparr>jd_text = s @ [NUL], jd_pos = 0, jd_store = (\<lambda>_. None)\<rparr>"

definition sample_entries :: "(string \<times> json_value) list" where
  "sample_entries = [(''n'', JInt (- 5)), (''s'', JString ''a/b'')]"

lemma sample_fit: "entries_fit sample_attrs sample_entries" "distinct (map fst sample_entries)"
  "inj_on at_addr (set sample_attrs)" "sample_entries \<noteq> []"
  by (simp_all add: entries_fit_def sample_attrs_def sample_entries_def sample_attr_def name_ok_def plain_key_def
      QUOTE_def NUL_def)

section \<open>Encoding and decoding\<close>

text \<open>
  C13. Decoding the text the encoder wrote for an object of integers, booleans and strings
  succeeds, takes exactly that text, and stores at each attribute's address the value that
  was encoded, whatever defaults were there.
\<close>
theorem json_roundtrip:
  assumes "entries_fit attrs kvs" and "kvs \<noteq> []" and "distinct (map fst kvs)" and "inj_on at_addr (set attrs)"
    and "je_wr_commas e = False" and "json_encode_value fmt (JObject kvs) e = Some (0, e')"
    and "je_out e' = je_out e @ s" and "rest io = s @ cs"
  shows "\<exists>io'. json_read_object flt attrs io = Some (Status 0, io') \<and> jd_pos io' = jd_pos io + length s \<and>
    (\<forall>(k, v) \<in> set kvs. \<forall>a \<in> set attrs. at_attribute a = k \<longrightarrow> jd_store io' (at_addr a, 0, 0) = Some (stored_value a v))"
proof -
  let ?io = "snd (set_defaults None 0 attrs io)"
  have "jd_pos ?io = jd_pos io" using set_defaults_pos[of None 0 attrs io] by (simp add: prod_eq_iff)
  then show ?thesis
    using read_encoded[OF assms(1,2,5-8), of flt] store_entries_at[OF assms(1,3,4), of _ _ _ ?io]
    by (auto simp: advance_def)
qed

lemma json_roundtrip_witness:
  "\<exists>e' io'. json_encode_value (\<lambda>_. None) (JObject sample_entries) \<lparr>je_out = [], je_wr_commas = False\<rparr> = Some (0, e') \<and>
    json_read_object None sample_attrs (sample_io (je_out e')) = Some (Status 0, io') \<and>
    jd_store io' (1, 0, 0) = Some (VInt (- 5)) \<and>
    jd_store io' (2, 0, 0) = Some (VStr (''a/b'' @ replicate 5 NUL))"
proof -
  let ?e = "\<lparr>je_out = [], je_wr_commas = False\<rparr>"
  obtain e' where e': "json_encode_value (\<lambda>_. None) (JObject sample_entries) ?e = Some (0, e')"
    using encode_object_shown[OF sample_fit(1), of ?e "\<lambda>_. None"] by auto
  have "rest (sample_io (je_out e')) = je_out e' @ [NUL]" by (simp add: rest_def sample_io_def)
  from json_roundtrip[OF sample_fit(1,4,2,3) _ e' _ this, of None] obtain io'
    where io': "json_read_object None sample_attrs (sample_io (je_out e')) = Some (Status 0, io')"
      "\<forall>(k, v) \<in> set sample_entries. \<forall>a \<in> set sample_attrs. at_attribute a = k \<longrightarrow>
         jd_store io' (at_addr a, 0, 0) = Some (stored_value a v)"
    by auto
  then show ?thesis using e'
    by (auto simp: sample_entries_def sample_attrs_def sample_attr_def)
qed

text \<open>
  C16. The decoder returns for every text and every table, malformed input included: no
  input makes the character machine or the array readers run forever.
\<close>
theorem json_read_object_returns:
  assumes "float_ok flt"
  shows "\<exists>res. json_read_object flt attrs io = Some res"
proof (cases "jd_pos io < len io")
  case True
  then show ?thesis
    using internal_returns[OF assms, of attrs "Suc (size_list size attrs)" io None 0] by (auto simp: json_read_object_def)
next
  case False
  obtain rc io' where sd: "set_defaults None 0 attrs io = (rc, io')" by fastforce
  then have "json_read_next io' = (NUL, io')" using False set_defaults_pos[OF sd] by (simp add: json_read_next_def)
  then show ?thesis using sd by (simp add: json_read_object_def) (subst object_loop.simps, simp)
qed

lemma json_read_object_returns_witness: "\<exists>res. json_read_object None sample_attrs (sample_io ''[1,2'') = Some res"
  by (rule json_read_object_returns) (simp add: float_ok_def)

text \<open>
  C40. Escape sequences are stored without a bound: 514 of them in a value of any type but
  an array write past the end of the 513-byte value buffer on the stack, whatever length
  the attribute allows.
\<close>
theorem json_escapes_overflow:
  assumes "dropWhile (\<lambda>b. at_attribute b \<noteq> k) attrs = a # rs" and "at_type a \<noteq> t_array" and "name_ok k" and "514 \<le> n"
    and "rest io = CHR ''{'' # QUOTE # k @ QUOTE # CHR '':'' # CHR '' '' # QUOTE # concat (replicate n [BACKSLASH, CHR ''n'']) @ cs"
  shows "\<exists>io'. json_read_object flt attrs io = Some (Overflow, io')"
proof -
  obtain rc io' where sd: "set_defaults None 0 attrs io = (rc, io')" by fastforce
  have rc: "rc = 0" by (rule set_defaults_top[OF sd])
  have "rest io' = rest io" using set_defaults_pos[OF sd] by (simp add: rest_def)
  note r = this[unfolded assms(5)]
  define ra where "ra = json_read_array_with flt (json_internal_read_object flt (size_list size attrs))"
  let ?p = "parser_init\<lparr>ps_state := Await_attr\<rparr>"
  let ?p2 = "?p\<lparr>ps_attrbuf := k, ps_state := Await_value, ps_cursor := a # rs, ps_valbuf := [],
    ps_maxlen := cursor_maxlen a (ps_maxlen ?p)\<rparr>"
  let ?io = "advance (length k + 4) (advance 1 io')"
  have "run flt ra attrs parser_init io' = run flt ra attrs ?p (advance 1 io')"
    using run_step[OF r] by (simp add: object_step_def parser_init_def is_space_def NUL_def)
  also have "\<dots> = run flt ra attrs ?p2 ?io"
    by (rule run_key[where cs = "QUOTE # concat (replicate n [BACKSLASH, CHR ''n'']) @ cs"]) (use r assms in simp_all)
  finally have start: "run flt ra attrs parser_init io' = run flt ra attrs ?p2 ?io" .
  have r2: "rest ?io = QUOTE # (concat (replicate n [BACKSLASH, CHR ''n'']) @ cs)"
    using r by (simp add: numeral_eq_Suc)
  have r3: "rest (advance 1 ?io) = concat (replicate n [BACKSLASH, CHR ''n'']) @ cs"
    unfolding rest_advance[of 1] r2 by simp
  have "run flt ra attrs ?p2 ?io =
      run flt ra attrs (?p2\<lparr>ps_quoted := True, ps_state := In_val_string, ps_valbuf := []\<rparr>) (advance 1 ?io)"
    using run_step[OF r2 QUOTE_facts(1)] assms(2) QUOTE_facts by (simp add: object_step_def step_await_value_def Let_def)
  moreover have "\<exists>io''. run flt ra attrs (?p2\<lparr>ps_quoted := True, ps_state := In_val_string, ps_valbuf := []\<rparr>) (advance 1 ?io) =
      Some (Overflow, io'')"
    by (rule run_escapes[OF r3]) (use assms(4) in simp_all)
  ultimately show ?thesis using start sd rc by (simp add: json_read_object_def ra_def)
qed

lemma json_escapes_overflow_witness:
  "\<exists>io'. json_read_object None sample_attrs
      (sample_io (CHR ''{'' # QUOTE # ''s'' @ QUOTE # CHR '':'' # CHR '' '' # QUOTE # concat (replicate 600 [BACKSLASH, CHR ''n''])))
    = Some (Overflow, io')"
  by (rule json_escapes_overflow[where k = "''s''" and n = 600 and cs = "[NUL]" and a = "sample_attr ''s'' t_string 2 8" and rs = "[]"])
    (simp_all add: sample_attrs_def sample_attr_def name_ok_def plain_key_def QUOTE_def rest_def sample_io_def)

end
