(* ===== verification/Nrng.thy ===== *)
theory Nrng
  imports Twr Slots
begin

text \<open>
  Ranging to many nodes: lib/nrng/src/nrng.c, lib/nrng/include/nrng/nrng.h, the selection of
  results in lib/nrng/src/nrng_encode.c and the slot payload of lib/uwb_rng/include/uwb_rng/slots.h.

  One request names a set of slots, a 16-bit mask; each anchor answers in the slot whose
  position in the mask is its turn, and the answers fill consecutive frames of a ring.
  The instance's binary semaphore is taken while a request, or a listening node, is busy.

  A frame is its bytes; a frame pointer that was never set is \<open>None\<close>, and an operation
  that follows one, fails an \<open>assert\<close> or shifts too far sets \<open>ns_failed\<close>.
\<close>

unbundle bit_operations_syntax

section \<open>Codes and frames\<close>

definition UWB_DATA_CODE_SS_TWR_NRNG :: u16 where [codes]: "UWB_DATA_CODE_SS_TWR_NRNG = 0x0130"
definition UWB_DATA_CODE_SS_TWR_NRNG_T1 :: u16 where [codes]: "UWB_DATA_CODE_SS_TWR_NRNG_T1 = 0x0131"
definition UWB_DATA_CODE_SS_TWR_NRNG_FINAL :: u16 where [codes]: "UWB_DATA_CODE_SS_TWR_NRNG_FINAL = 0x0132"
definition UWB_DATA_CODE_DS_TWR_NRNG :: u16 where [codes]: "UWB_DATA_CODE_DS_TWR_NRNG = 0x0140"
definition UWB_DATA_CODE_DS_TWR_NRNG_END :: u16 where [codes]: "UWB_DATA_CODE_DS_TWR_NRNG_END = 0x0144"
definition UWB_DATA_CODE_DS_TWR_NRNG_EXT :: u16 where [codes]: "UWB_DATA_CODE_DS_TWR_NRNG_EXT = 0x0145"
definition UWB_DATA_CODE_DS_TWR_NRNG_EXT_END :: u16 where [codes]: "UWB_DATA_CODE_DS_TWR_NRNG_EXT_END = 0x0149"
definition UWB_DATA_CODE_DS_TWR_NRNG_INVALID :: u16 where [codes]: "UWB_DATA_CODE_DS_TWR_NRNG_INVALID = 0x014A"

abbreviation (input) "UWBEXT_NRNG \<equiv> 11 :: u16"
abbreviation (input) "UWBEXT_NRNG_SS \<equiv> 12 :: u16"

datatype slot_ptype_t = PTYPE_CELL | PTYPE_BITFIELD | PTYPE_RANGE

primrec ptype_value :: "slot_ptype_t \<Rightarrow> u32" where
  "ptype_value PTYPE_CELL = 0"
| "ptype_value PTYPE_BITFIELD = 1"
| "ptype_value PTYPE_RANGE = 2"

text \<open>Sizes of the packed frames: request, response, final (without the diagnostics).\<close>

abbreviation (input) "sizeof_nrng_request_frame_t \<equiv> 19"
abbreviation (input) "sizeof_nrng_response_frame_t \<equiv> 20"
abbreviation (input) "sizeof_nrng_final_frame_t \<equiv> 32"

text \<open>A bit field of \<open>w\<close> bits from bit \<open>p\<close> on of a 32-bit unit.\<close>

definition field_get :: "nat \<Rightarrow> nat \<Rightarrow> u32 \<Rightarrow> u32" where
  "field_get p w x = take_bit w (drop_bit p x)"

definition field_put :: "nat \<Rightarrow> nat \<Rightarrow> u32 \<Rightarrow> u32 \<Rightarrow> u32" where
  "field_put p w v x = (x AND NOT (push_bit p (mask w))) OR push_bit p (take_bit w v)"

definition nf_seq_num :: "bytes \<Rightarrow> u8" where [layout]: "nf_seq_num m = get_u8 m 2"
definition nf_dst_address :: "bytes \<Rightarrow> u16" where [layout]: "nf_dst_address m = get_le16 m 5"
definition nf_src_address :: "bytes \<Rightarrow> u16" where [layout]: "nf_src_address m = get_le16 m 7"
definition nf_code :: "bytes \<Rightarrow> u16" where [layout]: "nf_code m = get_le16 m 9"
definition nf_ptype :: "bytes \<Rightarrow> u32" where [layout]: "nf_ptype m = field_get 0 2 (get_le32 m 11)"
definition nf_bitfield :: "bytes \<Rightarrow> u32" where [layout]: "nf_bitfield m = field_get 0 30 (get_le32 m 15)"
definition nf_cell_id :: "bytes \<Rightarrow> u32" where [layout]: "nf_cell_id m = field_get 0 14 (get_le32 m 15)"
definition nf_slot_mask :: "bytes \<Rightarrow> u32" where [layout]: "nf_slot_mask m = field_get 14 16 (get_le32 m 15)"
definition nf_reception_timestamp :: "bytes \<Rightarrow> u32" where [layout]: "nf_reception_timestamp m = get_le32 m 11"
definition nf_transmission_timestamp :: "bytes \<Rightarrow> u32" where [layout]: "nf_transmission_timestamp m = get_le32 m 15"
definition nf_slot_id :: "bytes \<Rightarrow> u8" where [layout]: "nf_slot_id m = get_u8 m 19"
definition nf_request_timestamp :: "bytes \<Rightarrow> u32" where [layout]: "nf_request_timestamp m = get_le32 m 20"
definition nf_response_timestamp :: "bytes \<Rightarrow> u32" where [layout]: "nf_response_timestamp m = get_le32 m 24"
definition nf_carrier_integrator :: "bytes \<Rightarrow> u32" where [layout]: "nf_carrier_integrator m = get_le32 m 28"

definition put_nf_fctrl :: "u16 \<Rightarrow> bytes \<Rightarrow> bytes" where [layout]: "put_nf_fctrl v m = put_le16 m 0 v"
definition put_nf_seq_num :: "u8 \<Rightarrow> bytes \<Rightarrow> bytes" where [layout]: "put_nf_seq_num v m = put_u8 m 2 v"
definition put_nf_PANID :: "u16 \<Rightarrow> bytes \<Rightarrow> bytes" where [layout]: "put_nf_PANID v m = put_le16 m 3 v"
definition put_nf_dst_address :: "u16 \<Rightarrow> bytes \<Rightarrow> bytes" where [layout]: "put_nf_dst_address v m = put_le16 m 5 v"
definition put_nf_src_address :: "u16 \<Rightarrow> bytes \<Rightarrow> bytes" where [layout]: "put_nf_src_address v m = put_le16 m 7 v"
definition put_nf_code :: "u16 \<Rightarrow> bytes \<Rightarrow> bytes" where [layout]: "put_nf_code v m = put_le16 m 9 v"
definition put_nf_ptype :: "slot_ptype_t \<Rightarrow> bytes \<Rightarrow> bytes" where
  [layout]: "put_nf_ptype v m = put_le32 m 11 (field_put 0 2 (ptype_value v) (get_le32 m 11))"
definition put_nf_cell_id :: "u16 \<Rightarrow> bytes \<Rightarrow> bytes" where
  [layout]: "put_nf_cell_id v m = put_le32 m 15 (field_put 0 14 (ucast v) (get_le32 m 15))"
definition put_nf_slot_mask :: "u16 \<Rightarrow> bytes \<Rightarrow> bytes" where
  [layout]: "put_nf_slot_mask v m = put_le32 m 15 (field_put 14 16 (ucast v) (get_le32 m 15))"
definition put_nf_start_slot_id :: "u16 \<Rightarrow> bytes \<Rightarrow> bytes" where
  [layout]: "put_nf_start_slot_id v m = put_le32 m 15 (field_put 0 14 (ucast v) (get_le32 m 15))"
definition put_nf_end_slot_id :: "u16 \<Rightarrow> bytes \<Rightarrow> bytes" where
  [layout]: "put_nf_end_slot_id v m = put_le32 m 15 (field_put 14 16 (ucast v) (get_le32 m 15))"
definition put_nf_reception_timestamp :: "u32 \<Rightarrow> bytes \<Rightarrow> bytes" where
  [layout]: "put_nf_reception_timestamp v m = put_le32 m 11 v"
definition put_nf_transmission_timestamp :: "u32 \<Rightarrow> bytes \<Rightarrow> bytes" where
  [layout]: "put_nf_transmission_timestamp v m = put_le32 m 15 v"
definition put_nf_slot_id :: "u8 \<Rightarrow> bytes \<Rightarrow> bytes" where [layout]: "put_nf_slot_id v m = put_u8 m 19 v"
definition put_nf_request_timestamp :: "u32 \<Rightarrow> bytes \<Rightarrow> bytes" where
  [layout]: "put_nf_request_timestamp v m = put_le32 m 20 v"
definition put_nf_response_timestamp :: "u32 \<Rightarrow> bytes \<Rightarrow> bytes" where
  [layout]: "put_nf_response_timestamp v m = put_le32 m 24 v"
definition put_nf_carrier_integrator :: "u32 \<Rightarrow> bytes \<Rightarrow> bytes" where
  [layout]: "put_nf_carrier_integrator v m = put_le32 m 28 v"

section \<open>The instance\<close>

datatype nrng_stat =
    Nrng_request | Nrng_listen | Nrng_rx_complete | Nrng_rx_timeout | Nrng_complete | Nrng_rx_error
  | Nrng_start_rx_error | Nrng_rx_unsolicited | Nrng_tx_error | Nrng_start_tx_error | Nrng_reset

datatype nrng_device_type_t = DWT_NRNG_INITIATOR | DWT_NRNG_RESPONDER

record nrng_instance =
  nrng_stats :: "nrng_stat \<Rightarrow> u32"
  nrng_nframes :: u16
  nrng_nnodes :: u16
  nrng_slot_mask :: u16
  nrng_valid_mask :: u16
  nrng_cell_id :: u16
  nrng_resp_count :: u16
  nrng_t1_final_flag :: u16
  nrng_delay :: u64
  nrng_seq_num :: u8
  nrng_sem :: dpl_sem
  nrng_device_type :: nrng_device_type_t
  nrng_selfmalloc :: bool
  nrng_initialized :: bool
  nrng_delay_start_enabled :: bool
  nrng_cfg :: uwb_rng_config
  nrng_idx :: u16
  nrng_configs :: "rng_config_list list"
  nrng_frames :: "bytes option list"

text \<open>The counters of twr_ss_nrng.c.\<close>

datatype ss_nrng_stat = Ssn_rx_error | Ssn_rx_timeout | Ssn_rx_complete | Ssn_rx_unsolicited | Ssn_reset

text \<open>
  What the callbacks act on; \<open>ns_events\<close> counts how often the completion event was put
  on the event queue.
\<close>

record nrng_state =
  ns_dev :: uwb_dev
  ns_nrng :: nrng_instance
  ns_stat :: "ss_nrng_stat \<Rightarrow> u32"
  ns_events :: nat
  ns_failed :: bool

text \<open>
  A build: the platform, the two services' configurations, the \<open>CELL_ENABLED\<close> setting,
  the size of \<open>nrng_frame_t\<close>, which depends on the room for diagnostics, and C's
  native floating point.
\<close>

record nrng_floats = rng_floats +
  f32_sub :: "u32 \<Rightarrow> u32 \<Rightarrow> u32"
  f32_of_u32 :: "u32 \<Rightarrow> u32"
  f32_of_i64 :: "u64 \<Rightarrow> u32"
  u16_of_f64 :: "u64 \<Rightarrow> u16"

record nrng_build =
  nb_fl :: nrng_floats
  nb_uf :: uwb_driver_funcs
  nb_wcs :: "(u64 \<Rightarrow> u64) option"
  nb_nrng :: uwb_rng_config
  nb_ss :: uwb_rng_config
  nb_cell :: bool
  nb_frame_size :: nat

section \<open>Steps on the state\<close>

definition on_ndev :: "(uwb_dev \<Rightarrow> uwb_dev) \<Rightarrow> nrng_state \<Rightarrow> nrng_state" where
  "on_ndev f s = s\<lparr>ns_dev := f (ns_dev s)\<rparr>"

definition on_nrng :: "(nrng_instance \<Rightarrow> nrng_instance) \<Rightarrow> nrng_state \<Rightarrow> nrng_state" where
  "on_nrng f s = s\<lparr>ns_nrng := f (ns_nrng s)\<rparr>"

definition nrng_fail :: "nrng_state \<Rightarrow> nrng_state" where
  "nrng_fail s = s\<lparr>ns_failed := True\<rparr>"

definition NRNG_STATS_INC :: "nrng_stat \<Rightarrow> nrng_state \<Rightarrow> nrng_state" where
  "NRNG_STATS_INC x = on_nrng (\<lambda>n. n\<lparr>nrng_stats := (nrng_stats n)(x := nrng_stats n x + 1)\<rparr>)"

definition nrng_release :: "nrng_state \<Rightarrow> nrng_state" where
  "nrng_release = on_nrng (\<lambda>n. n\<lparr>nrng_sem := dpl_sem_release (nrng_sem n)\<rparr>)"

definition nrng_count :: "nrng_state \<Rightarrow> u16" where
  "nrng_count s = dpl_sem_get_count (nrng_sem (ns_nrng s))"

text \<open>A wait whose result is asserted to be \<open>DPL_OK\<close>.\<close>

definition nrng_pend :: "wait_end \<Rightarrow> nrng_state \<Rightarrow> nrng_state option" where
  "nrng_pend w s =
     (case dpl_sem_pend (nrng_sem (ns_nrng s)) w of
        None \<Rightarrow> None
      | Some (err, sem) \<Rightarrow>
          let s = on_nrng (\<lambda>n. n\<lparr>nrng_sem := sem\<rparr>) s
          in Some (if err = DPL_OK then s else nrng_fail s))"

text \<open>\<open>nrng->frames[k % nrng->nframes]\<close>\<close>

definition nrng_slot :: "nrng_instance \<Rightarrow> nat \<Rightarrow> nat" where
  "nrng_slot nrng k = k mod unat (nrng_nframes nrng)"

definition nrng_frame :: "nrng_instance \<Rightarrow> nat \<Rightarrow> bytes option" where
  "nrng_frame nrng k =
     (if nrng_nframes nrng = 0 \<or> length (nrng_frames nrng) \<le> nrng_slot nrng k then None
      else nrng_frames nrng ! nrng_slot nrng k)"

definition nrng_set_frame :: "nat \<Rightarrow> bytes \<Rightarrow> nrng_instance \<Rightarrow> nrng_instance" where
  "nrng_set_frame k fr nrng = nrng\<lparr>nrng_frames := (nrng_frames nrng)[nrng_slot nrng k := Some fr]\<rparr>"

section \<open>Set-up\<close>

text \<open>The frame pointers of the new instance are not initialised.\<close>

definition malloc_nrng :: "u16 \<Rightarrow> nrng_instance" where
  "malloc_nrng nframes = \<lparr>nrng_stats = (\<lambda>_. 0), nrng_nframes = 0, nrng_nnodes = 0, nrng_slot_mask = 0,
     nrng_valid_mask = 0, nrng_cell_id = 0, nrng_resp_count = 0, nrng_t1_final_flag = 0, nrng_delay = 0,
     nrng_seq_num = 0, nrng_sem = 0, nrng_device_type = DWT_NRNG_INITIATOR, nrng_selfmalloc = True,
     nrng_initialized = False, nrng_delay_start_enabled = False, nrng_cfg = zero_config, nrng_idx = 0,
     nrng_configs = [], nrng_frames = replicate (unat nframes) None\<rparr>"

definition nrng_config :: "uwb_rng_config \<Rightarrow> nrng_instance \<Rightarrow> nrng_instance" where
  "nrng_config config nrng = nrng\<lparr>nrng_cfg := config\<rparr>"

definition nrng_init ::
  "nrng_instance option \<Rightarrow> uwb_rng_config option \<Rightarrow> nrng_device_type_t \<Rightarrow> u16 \<Rightarrow> u16 \<Rightarrow> nrng_instance" where
  "nrng_init found config type nframes nnodes =
     (let nrng = (case found of None \<Rightarrow> malloc_nrng nframes | Some nrng \<Rightarrow> nrng);
          nrng = nrng\<lparr>nrng_sem := dpl_sem_init 1\<rparr>;
          nrng = nrng\<lparr>nrng_nframes := nframes, nrng_nnodes := nnodes, nrng_device_type := type,
            nrng_idx := 0xFFFF, nrng_resp_count := 0, nrng_t1_final_flag := 0, nrng_seq_num := 0\<rparr>;
          nrng = (case config of None \<Rightarrow> nrng | Some c \<Rightarrow> nrng_config c nrng)
      in nrng\<lparr>nrng_stats := (\<lambda>_. 0)\<rparr>)"

text \<open>
  Giving up an instance: \<open>None\<close> when a frame pointer that was never set is passed to \<open>free\<close>;
  otherwise what is left of the instance, nothing when it was allocated here.
\<close>

definition nrng_free ::
  "'s uwb_mac_interface list \<Rightarrow> nrng_instance \<Rightarrow> (nrng_instance option \<times> 's uwb_mac_interface list) option" where
  "nrng_free cbs nrng =
     (let cbs = uwb_mac_remove_interface cbs UWBEXT_NRNG
      in if nrng_selfmalloc nrng
         then if None \<in> set (take (unat (nrng_nframes nrng)) (nrng_frames nrng)) then None else Some (None, cbs)
         else Some (Some (nrng\<lparr>nrng_initialized := False\<rparr>), cbs))"

definition nrng_default_frame :: "nrng_build \<Rightarrow> bytes" where
  "nrng_default_frame B =
     put_nf_code UWB_DATA_CODE_DS_TWR_NRNG_INVALID
       (put_nf_fctrl FCNTL_IEEE_RANGE_16 (put_nf_PANID 0xDECA (replicate (nb_frame_size B) 0)))"

fun nrng_set_frames_loop :: "bytes option list \<Rightarrow> bytes \<Rightarrow> nat \<Rightarrow> bytes option list" where
  "nrng_set_frames_loop frames d 0 = frames"
| "nrng_set_frames_loop frames d (Suc n) = (nrng_set_frames_loop frames d n)[n := Some d]"

definition nrng_set_frames :: "nrng_build \<Rightarrow> u16 \<Rightarrow> nrng_instance \<Rightarrow> nrng_instance option" where
  "nrng_set_frames B nframes nrng =
     (if nframes \<le> nrng_nframes nrng
      then Some (nrng\<lparr>nrng_frames := nrng_set_frames_loop (nrng_frames nrng) (nrng_default_frame B) (unat nframes)\<rparr>)
      else None)"

definition nrng_get_config :: "nrng_build \<Rightarrow> nrng_instance \<Rightarrow> u16 \<Rightarrow> uwb_rng_config" where
  "nrng_get_config B nrng code =
     (case find_config (nrng_configs nrng) code of Some c \<Rightarrow> c | None \<Rightarrow> nb_nrng B)"

definition nrng_append_config :: "rng_config_list \<Rightarrow> nrng_instance \<Rightarrow> nrng_instance" where
  "nrng_append_config cfgs nrng = nrng\<lparr>nrng_configs := slist_insert_after_last (nrng_configs nrng) cfgs\<rparr>"

definition nrng_remove_config :: "u16 \<Rightarrow> nrng_instance \<Rightarrow> nrng_instance" where
  "nrng_remove_config code nrng = nrng\<lparr>nrng_configs := remove_config (nrng_configs nrng) code\<rparr>"

definition nrng_pkg_init ::
  "nrng_build \<Rightarrow> nrng_instance option \<Rightarrow> nrng_device_type_t \<Rightarrow> u16 \<Rightarrow> u16 \<Rightarrow> nrng_instance option" where
  "nrng_pkg_init B found type nframes nnodes =
     nrng_set_frames B nframes (nrng_init found (Some (nb_nrng B)) type nframes nnodes)"

section \<open>Requests and listening\<close>

definition usecs_to_response :: "u16 \<Rightarrow> uwb_rng_config \<Rightarrow> u32 \<Rightarrow> u32" where
  "usecs_to_response nslots config duration =
     ucast nslots * (duration + of_int (uwb_dwt_usecs_to_usecs (uint (tx_guard_delay config))))"

definition nrng_request_frame :: "nrng_build \<Rightarrow> uwb_dev \<Rightarrow> u16 \<Rightarrow> u16 \<Rightarrow> u8 \<Rightarrow> u16 \<Rightarrow> u16 \<Rightarrow> bytes \<Rightarrow> bytes" where
  "nrng_request_frame B dev dst_address code seq slot_mask cell_id fr =
     (let fr = put_nf_seq_num seq fr;
          fr = put_nf_code code fr;
          fr = put_nf_src_address (dev_my_short_address dev) fr;
          fr = put_nf_dst_address dst_address fr
      in if nb_cell B
         then put_nf_slot_mask slot_mask (put_nf_cell_id cell_id (put_nf_ptype PTYPE_CELL fr))
         else put_nf_start_slot_id slot_mask (put_nf_end_slot_id cell_id (put_nf_ptype PTYPE_RANGE fr)))"

definition nrng_request_timeout :: "nrng_build \<Rightarrow> uwb_rng_config \<Rightarrow> u16 \<Rightarrow> u16" where
  "nrng_request_timeout B config nnodes =
     ucast (tx_holdoff_delay config
       + usecs_to_response nnodes config (ucast (uwb_phy_frame_duration (nb_uf B) sizeof_nrng_response_frame_t))
       + ucast (rx_timeout_delay config))"

definition nrng_transmit :: "nrng_build \<Rightarrow> uwb_rng_config \<Rightarrow> bytes \<Rightarrow> nrng_state \<Rightarrow> nrng_state" where
  "nrng_transmit B config fr s =
     (let uf = nb_uf B;
          s = on_ndev (uwb_write_tx uf fr 0 sizeof_nrng_request_frame_t) s;
          s = on_ndev (uwb_write_tx_fctrl uf sizeof_nrng_request_frame_t 0) s;
          s = on_ndev (uwb_set_wait4resp uf True) s;
          s = on_ndev (uwb_set_rx_timeout uf (ucast (nrng_request_timeout B config (nrng_nnodes (ns_nrng s))))) s
      in if nrng_delay_start_enabled (ns_nrng s)
         then on_ndev (uwb_set_delay_start uf (nrng_delay (ns_nrng s))) s else s)"

datatype nrng_result = Nrng_returned nrng_state | Nrng_waiting nrng_state

definition nrng_start_request :: "nrng_build \<Rightarrow> u16 \<Rightarrow> u16 \<Rightarrow> u16 \<Rightarrow> u16 \<Rightarrow> nrng_state \<Rightarrow> nrng_result" where
  "nrng_start_request B dst_address code slot_mask cell_id s =
     (let s = NRNG_STATS_INC Nrng_request s;
          config = nrng_get_config B (ns_nrng s) code;
          nnodes = ucast (NumberOfBits (ucast slot_mask));
          s = on_nrng (\<lambda>n. n\<lparr>nrng_nnodes := nnodes\<rparr>) s;
          s = on_nrng (\<lambda>n. n\<lparr>nrng_idx := nrng_idx n + nnodes\<rparr>) s
      in case nrng_frame (ns_nrng s) (unat (nrng_idx (ns_nrng s))) of
           None \<Rightarrow> Nrng_returned (nrng_fail s)
         | Some fr \<Rightarrow>
             let s = on_nrng (\<lambda>n. n\<lparr>nrng_seq_num := nrng_seq_num n + 1\<rparr>) s;
                 s = (if nb_cell B then on_nrng (\<lambda>n. n\<lparr>nrng_cell_id := cell_id, nrng_slot_mask := slot_mask\<rparr>) s else s);
                 fr = nrng_request_frame B (ns_dev s) dst_address code (nrng_seq_num (ns_nrng s)) slot_mask cell_id fr;
                 s = on_nrng (nrng_set_frame (unat (nrng_idx (ns_nrng s))) fr) s;
                 s = nrng_transmit B config fr s;
                 dev_cfg = dev_config (ns_dev s)
             in if config_dblbuffon_enabled dev_cfg \<and> config_rxauto_enable dev_cfg then Nrng_returned (nrng_fail s)
                else
                  let s = on_ndev (uwb_start_tx (nb_uf B)) s
                  in if st_start_tx_error (dev_status (ns_dev s))
                     then let s = NRNG_STATS_INC Nrng_start_tx_error s
                          in Nrng_returned (if nrng_count s = 0 then nrng_release s else s)
                     else Nrng_waiting s)"

text \<open>
  \<open>nrng_request\<close> waits twice: for the instance to be free, and for the answers. \<open>None\<close>: the
  first wait blocks. After the second wait it releases the instance and returns.
\<close>

definition nrng_request ::
  "nrng_build \<Rightarrow> wait_end \<Rightarrow> u16 \<Rightarrow> u16 \<Rightarrow> u16 \<Rightarrow> u16 \<Rightarrow> nrng_state \<Rightarrow> nrng_result option" where
  "nrng_request B w dst_address code slot_mask cell_id s =
     (case nrng_pend w s of
        None \<Rightarrow> None
      | Some s \<Rightarrow>
          Some (if ns_failed s then Nrng_returned s else nrng_start_request B dst_address code slot_mask cell_id s))"

definition nrng_wait_finish :: "wait_end \<Rightarrow> nrng_state \<Rightarrow> nrng_state option" where
  "nrng_wait_finish w s =
     (case nrng_pend w s of None \<Rightarrow> None | Some s \<Rightarrow> Some (if ns_failed s then s else nrng_release s))"

definition nrng_request_delay_start_enter :: "u64 \<Rightarrow> nrng_state \<Rightarrow> nrng_state" where
  "nrng_request_delay_start_enter d = on_nrng (\<lambda>n. n\<lparr>nrng_delay_start_enabled := True, nrng_delay := d\<rparr>)"

definition nrng_request_delay_start_leave :: "nrng_state \<Rightarrow> nrng_state" where
  "nrng_request_delay_start_leave = on_nrng (\<lambda>n. n\<lparr>nrng_delay_start_enabled := False\<rparr>)"

datatype uwb_dev_modes_t = UWB_BLOCKING | UWB_NONBLOCKING

definition nrng_listen :: "nrng_build \<Rightarrow> wait_end \<Rightarrow> uwb_dev_modes_t \<Rightarrow> nrng_state \<Rightarrow> nrng_result option" where
  "nrng_listen B w mode s =
     (case nrng_pend w s of
        None \<Rightarrow> None
      | Some s \<Rightarrow>
          if ns_failed s then Some (Nrng_returned s) else
          let s = NRNG_STATS_INC Nrng_listen s;
              s = on_ndev (uwb_start_rx (nb_uf B)) s;
              s = (if st_start_rx_error (dev_status (ns_dev s))
                   then NRNG_STATS_INC Nrng_start_rx_error (nrng_release s) else s)
          in Some (if mode = UWB_BLOCKING then Nrng_waiting s else Nrng_returned s))"

section \<open>Results\<close>

definition nrng_twr_to_tof_frames :: "nrng_build \<Rightarrow> uwb_dev \<Rightarrow> bytes \<Rightarrow> bytes \<Rightarrow> u32" where
  "nrng_twr_to_tof_frames B dev first_frame final_frame =
     (let fl = nb_fl B; code = nf_code final_frame;
          T1R = nf_response_timestamp first_frame - nf_request_timestamp first_frame;
          T1r = nf_transmission_timestamp first_frame - nf_reception_timestamp first_frame
      in if in_range UWB_DATA_CODE_DS_TWR_NRNG UWB_DATA_CODE_DS_TWR_NRNG_END code
           \<or> in_range UWB_DATA_CODE_DS_TWR_NRNG_EXT UWB_DATA_CODE_DS_TWR_NRNG_EXT_END code
         then
           let T1R = (ucast T1R :: u64); T1r = (ucast T1r :: u64);
               T2R = (ucast (nf_response_timestamp final_frame - nf_request_timestamp final_frame) :: u64);
               T2r = (ucast (nf_transmission_timestamp final_frame - nf_reception_timestamp final_frame) :: u64);
               nom = T1R * T2R - T1r * T2r;
               denom = T1R + T2R + T1r + T2r
           in f32_div fl (f32_of_i64 fl nom) (f32_of_i64 fl denom)
         else if in_range UWB_DATA_CODE_SS_TWR_NRNG UWB_DATA_CODE_SS_TWR_NRNG_FINAL code
         then case nb_wcs B of
             Some _ \<Rightarrow> f32_div fl (f32_of_u32 fl (T1R - T1r)) (f32_init fl 2)
           | None \<Rightarrow>
               let skew = f32_of_f64 fl (uf_calc_clock_offset_ratio (nb_uf B) dev (nf_carrier_integrator first_frame))
               in f32_div fl (f32_sub fl (f32_of_u32 fl T1R)
                    (f32_mul fl (f32_of_u32 fl T1r) (f32_sub fl (f32_init fl 1) skew))) (f32_init fl 2)
         else f32_init fl 0)"

definition nrng_frame_meters :: "nrng_build \<Rightarrow> uwb_dev \<Rightarrow> bytes \<Rightarrow> u64" where
  "nrng_frame_meters B dev fr =
     uwb_rng_tof_to_meters (nb_fl B) (f64_of_f32 (nb_fl B) (nrng_twr_to_tof_frames B dev fr fr))"

text \<open>
  The frame of a slot of the request: \<open>None\<close> on a failed \<open>assert\<close> of \<open>BitIndex\<close> or an unset
  pointer. The loops over the slots take the numbers of the slots still to do.
\<close>

definition slot_frame :: "nrng_instance \<Rightarrow> u16 \<Rightarrow> nat \<Rightarrow> bytes option" where
  "slot_frame nrng base i =
     (case BitIndex (ucast (nrng_slot_mask nrng)) (2 ^ i) SLOT_POSITION of
        None \<Rightarrow> None
      | Some k \<Rightarrow> nrng_frame nrng (unat base + unat (ucast k :: u16)))"

definition final_of :: "u8 \<Rightarrow> bytes \<Rightarrow> bool" where
  "final_of seq fr \<longleftrightarrow> nf_code fr = UWB_DATA_CODE_SS_TWR_NRNG_FINAL \<and> nf_seq_num fr = seq"

text \<open>\<open>1UL << i\<close> has 64 bits; a larger \<open>i\<close> is undefined.\<close>

fun valid_slots_loop :: "nrng_instance \<Rightarrow> u8 \<Rightarrow> u16 \<Rightarrow> nat list \<Rightarrow> u32 \<Rightarrow> u32 option" where
  "valid_slots_loop nrng seq base [] m = Some m"
| "valid_slots_loop nrng seq base (i # is) m =
     (if 64 \<le> i then None
      else if bit (nrng_slot_mask nrng) i
      then case slot_frame nrng base i of
             None \<Rightarrow> None
           | Some fr \<Rightarrow> valid_slots_loop nrng seq base is (if final_of seq fr then m OR 2 ^ i else m)
      else valid_slots_loop nrng seq base is m)"

fun slot_results_loop :: "(bytes \<Rightarrow> 'r) \<Rightarrow> nrng_instance \<Rightarrow> u16 \<Rightarrow> u32 \<Rightarrow> nat list \<Rightarrow> 'r list option" where
  "slot_results_loop f nrng base m [] = Some []"
| "slot_results_loop f nrng base m (i # is) =
     (if 64 \<le> i then None
      else if bit m i
      then case slot_frame nrng base i of
             None \<Rightarrow> None
           | Some fr \<Rightarrow> map_option (Cons (f fr)) (slot_results_loop f nrng base m is)
      else slot_results_loop f nrng base m is)"

definition nrng_get_ranges :: "nrng_build \<Rightarrow> nrng_state \<Rightarrow> u16 \<Rightarrow> u16 \<Rightarrow> (u32 \<times> u32 list) option" where
  "nrng_get_ranges B s nranges base =
     (let nrng = ns_nrng s; fl = nb_fl B
      in case valid_slots_loop nrng (nrng_seq_num nrng) base [0..<unat nranges] 0 of
           None \<Rightarrow> None
         | Some m \<Rightarrow> map_option (Pair m)
             (slot_results_loop (\<lambda>fr. f32_of_f64 fl (nrng_frame_meters B (ns_dev s) fr)) nrng base m [0..<unat nranges]))"

definition nrng_get_uids :: "nrng_build \<Rightarrow> nrng_state \<Rightarrow> u16 \<Rightarrow> u16 \<Rightarrow> (u32 \<times> u16 list) option" where
  "nrng_get_uids B s nranges base =
     (let nrng = ns_nrng s; fl = nb_fl B
      in case valid_slots_loop nrng (nrng_seq_num nrng) base [0..<unat nranges] 0 of
           None \<Rightarrow> None
         | Some m \<Rightarrow> map_option (Pair m)
             (slot_results_loop (\<lambda>fr. u16_of_f64 fl (nrng_frame_meters B (ns_dev s) fr)) nrng base m [0..<unat nranges]))"

text \<open>
  What \<open>nrng_encode\<close> prints: nothing unless slot 0 answered, else the identity in the frame
  at the base and, in the order of the slots, each answering node with its distance.
\<close>

definition nrng_encode :: "nrng_build \<Rightarrow> nrng_state \<Rightarrow> u8 \<Rightarrow> u16 \<Rightarrow> (u16 \<times> (u16 \<times> u64) list) option option" where
  "nrng_encode B s seq base =
     (let nrng = ns_nrng s
      in case nrng_frame nrng (unat base) of
           None \<Rightarrow> None
         | Some fr0 \<Rightarrow>
             (case valid_slots_loop nrng seq base [0..<16] 0 of
                None \<Rightarrow> None
              | Some m \<Rightarrow>
                  if \<not> bit m 0 then Some None
                  else map_option (\<lambda>rs. Some (nf_src_address fr0, rs))
                    (slot_results_loop (\<lambda>fr. (nf_dst_address fr, nrng_frame_meters B (ns_dev s) fr)) nrng base m [0..<16])))"

text \<open>The verbose build's completion callback and the handler of its event.\<close>

definition nrng_complete_cb :: "nrng_state callback" where
  "nrng_complete_cb s =
     (False, if dev_fctrl (ns_dev s) = FCNTL_IEEE_RANGE_16 \<and> nrng_count s = 0
             then s\<lparr>ns_events := Suc (ns_events s)\<rparr> else s)"

definition nrng_complete_ev_cb ::
  "nrng_build \<Rightarrow> nrng_state \<Rightarrow> ((u16 \<times> (u16 \<times> u64) list) option \<times> nrng_state) option" where
  "nrng_complete_ev_cb B s =
     map_option (\<lambda>out. (out, on_nrng (\<lambda>n. n\<lparr>nrng_slot_mask := 0\<rparr>) s))
       (nrng_encode B s (nrng_seq_num (ns_nrng s)) (nrng_idx (ns_nrng s)))"

end
