(* ===== verification/Twr_Ss_Nrng.thy ===== *)
theory Twr_Ss_Nrng
  imports Nrng
begin

text \<open>
  Single-sided ranging to many nodes: lib/twr_ss_nrng/src/twr_ss_nrng.c. An anchor that
  hears a request answers in its slot; the initiator stores each answer in the frame of
  that slot. The receive timeout ends the request.
\<close>

unbundle bit_operations_syntax

definition SS_NRNG_STATS_INC :: "ss_nrng_stat \<Rightarrow> nrng_state \<Rightarrow> nrng_state" where
  "SS_NRNG_STATS_INC x s = s\<lparr>ns_stat := (ns_stat s)(x := ns_stat s x + 1)\<rparr>"

section \<open>Error, timeout, reset\<close>

definition ss_nrng_rx_error_cb :: "nrng_state callback" where
  "ss_nrng_rx_error_cb s =
     (if dev_fctrl (ns_dev s) \<noteq> FCNTL_IEEE_RANGE_16 then (False, s)
      else if nrng_count s = 0 then (True, nrng_release (SS_NRNG_STATS_INC Ssn_rx_error s))
      else (False, s))"

definition ss_nrng_rx_timeout_cb :: "nrng_state uwb_mac_interface list \<Rightarrow> nrng_state callback" where
  "ss_nrng_rx_timeout_cb cbs s =
     (if nrng_count s = 1 then (False, s)
      else if nrng_count s = 0
      then (True, nrng_release (run_all mac_complete_cb cbs (SS_NRNG_STATS_INC Ssn_rx_timeout s)))
      else (True, s))"

definition ss_nrng_reset_cb :: "nrng_state callback" where
  "ss_nrng_reset_cb s =
     (if nrng_count s = 0 then (True, SS_NRNG_STATS_INC Ssn_reset (nrng_release s)) else (False, s))"

section \<open>An anchor answers a request\<close>

text \<open>The slots the request names, and the anchor's position among them.\<close>

definition request_slots :: "nrng_build \<Rightarrow> bytes \<Rightarrow> u32" where
  "request_slots B rx = (if nb_cell B then nf_slot_mask rx else nf_bitfield rx)"

definition request_in_cell :: "nrng_build \<Rightarrow> uwb_dev \<Rightarrow> bool" where
  "request_in_cell B dev \<longleftrightarrow>
     (nb_cell B \<longrightarrow> nf_ptype (dev_rxbuf dev) = ptype_value PTYPE_CELL
        \<and> nf_cell_id (dev_rxbuf dev) = ucast (dev_cell_id dev))"

definition request_is_for :: "nrng_build \<Rightarrow> uwb_dev \<Rightarrow> bool" where
  "request_is_for B dev \<longleftrightarrow>
     request_in_cell B dev \<and> bit (request_slots B (dev_rxbuf dev)) (unat (dev_slot_id dev))"

definition nrng_response_delay :: "nrng_build \<Rightarrow> uwb_rng_config \<Rightarrow> u64 \<Rightarrow> u16 \<Rightarrow> u64" where
  "nrng_response_delay B config request_timestamp slot_idx =
     request_timestamp + push_bit 16 (ucast (tx_holdoff_delay config)
       + ucast slot_idx * (ucast (tx_guard_delay config)
           + ucast (uwb_usecs_to_dwt_usecs (uwb_phy_frame_duration (nb_uf B) sizeof_nrng_response_frame_t))))"

definition nrng_response_frame :: "nrng_build \<Rightarrow> uwb_dev \<Rightarrow> u64 \<Rightarrow> u16 \<Rightarrow> bytes \<Rightarrow> bytes" where
  "nrng_response_frame B dev tx_delay slot_idx fr =
     (let rx = dev_rxbuf dev;
          tx_time = (tx_delay AND 0xFFFFFFFE00) + ucast (dev_tx_antenna_delay dev);
          fr = write_at fr 0 (take sizeof_nrng_request_frame_t rx);
          fr = put_nf_reception_timestamp (stamp (nb_wcs B) (dev_rxtimestamp dev)) fr;
          fr = put_nf_transmission_timestamp (stamp (nb_wcs B) tx_time) fr;
          fr = put_nf_dst_address (nf_src_address rx) fr;
          fr = put_nf_src_address (dev_my_short_address dev) fr;
          fr = put_nf_code UWB_DATA_CODE_SS_TWR_NRNG_T1 fr;
          fr = put_nf_slot_id (ucast slot_idx) fr;
          fr = put_nf_seq_num (nf_seq_num rx) fr
      in put_nf_carrier_integrator
           (case nb_wcs B of Some _ \<Rightarrow> 0 | None \<Rightarrow> - dev_carrier_integrator dev) fr)"

definition ss_nrng_respond :: "nrng_build \<Rightarrow> uwb_rng_config \<Rightarrow> nrng_state \<Rightarrow> nrng_state" where
  "ss_nrng_respond B config s =
     (let dev = ns_dev s; uf = nb_uf B
      in if dev_frame_len dev < sizeof_nrng_request_frame_t then s
         else if request_in_cell B dev \<and> 64 \<le> dev_slot_id dev then nrng_fail s
         else if \<not> request_is_for B dev then s
         else case BitIndex (request_slots B (dev_rxbuf dev)) (2 ^ unat (dev_slot_id dev)) SLOT_POSITION of
             None \<Rightarrow> nrng_fail s
           | Some k \<Rightarrow>
               let slot_idx = (ucast k :: u16);
                   s = on_nrng (\<lambda>n. n\<lparr>nrng_idx := nrng_idx n + 1\<rparr>) s;
                   i = unat (nrng_idx (ns_nrng s))
               in case nrng_frame (ns_nrng s) i of
                    None \<Rightarrow> nrng_fail s
                  | Some fr \<Rightarrow>
                      let delay = nrng_response_delay B config (dev_rxtimestamp dev) slot_idx;
                          fr = nrng_response_frame B dev delay slot_idx fr;
                          s = on_nrng (nrng_set_frame i fr) s;
                          s = on_ndev (uwb_write_tx uf fr 0 sizeof_nrng_response_frame_t) s;
                          s = on_ndev (uwb_write_tx_fctrl uf sizeof_nrng_response_frame_t 0) s;
                          s = on_ndev (uwb_set_wait4resp uf False) s;
                          s = on_ndev (uwb_set_delay_start uf delay) s;
                          s = on_ndev (uwb_start_tx uf) s
                      in nrng_release s)"

section \<open>The initiator stores an answer\<close>

definition nrng_tx_stamp :: "nrng_build \<Rightarrow> uwb_dev \<Rightarrow> u32" where
  "nrng_tx_stamp B dev =
     (case nb_wcs B of
        Some f \<Rightarrow> ucast (f (uwb_read_txtime (nb_uf B) dev) AND 0xFFFFFFFF)
      | None \<Rightarrow> uwb_read_txtime_lo32 (nb_uf B) dev AND 0xFFFFFFFF)"

definition nrng_rx_stamp :: "nrng_build \<Rightarrow> uwb_dev \<Rightarrow> u32" where
  "nrng_rx_stamp B dev =
     (let rx_time = (if st_lde_error (dev_status dev) then 0 else dev_rxtimestamp dev)
      in case nb_wcs B of
           Some f \<Rightarrow> ucast (f rx_time AND 0xFFFFFFFF)
         | None \<Rightarrow> ucast (rx_time AND 0xFFFFFFFF))"

definition nrng_final_frame :: "nrng_build \<Rightarrow> uwb_dev \<Rightarrow> bytes \<Rightarrow> bytes" where
  "nrng_final_frame B dev fr =
     (let fr = write_at fr 0 (take sizeof_nrng_response_frame_t (dev_rxbuf dev));
          fr = put_nf_request_timestamp (nrng_tx_stamp B dev) fr;
          fr = put_nf_response_timestamp (nrng_rx_stamp B dev) fr;
          fr = put_nf_dst_address (nf_src_address fr) fr;
          fr = put_nf_src_address (dev_my_short_address dev) fr;
          fr = put_nf_code UWB_DATA_CODE_SS_TWR_NRNG_FINAL fr;
          fr = put_nf_carrier_integrator (case nb_wcs B of Some _ \<Rightarrow> 0 | None \<Rightarrow> dev_carrier_integrator dev) fr
      in if config_rxdiag_enable (dev_config dev)
         then write_at fr sizeof_nrng_final_frame_t (dev_rxdiag dev) else fr)"

definition ss_nrng_next_timeout :: "nrng_build \<Rightarrow> uwb_rng_config \<Rightarrow> u16 \<Rightarrow> u16 \<Rightarrow> u16" where
  "ss_nrng_next_timeout B config nnodes slot_idx =
     ucast (usecs_to_response (nnodes - slot_idx) config
         (ucast (uwb_phy_frame_duration (nb_uf B) sizeof_nrng_response_frame_t))
       + ucast (rx_timeout_delay config))"

definition ss_nrng_store :: "nrng_build \<Rightarrow> uwb_rng_config \<Rightarrow> nrng_state \<Rightarrow> nrng_state" where
  "ss_nrng_store B config s =
     (let dev = ns_dev s; uf = nb_uf B; slot_idx = (ucast (nf_slot_id (dev_rxbuf dev)) :: u16)
      in if dev_frame_len dev < sizeof_nrng_response_frame_t then s
         else if nrng_seq_num (ns_nrng s) \<noteq> nf_seq_num (dev_rxbuf dev) then s
         else
           let i = unat (nrng_idx (ns_nrng s)) + unat slot_idx
           in case nrng_frame (ns_nrng s) i of
                None \<Rightarrow> nrng_fail s
              | Some fr \<Rightarrow>
                  let s = on_nrng (nrng_set_frame i (nrng_final_frame B dev fr)) s;
                      s = (if config_rxdiag_enable (dev_config dev)
                              \<and> length fr < sizeof_nrng_final_frame_t + length (dev_rxdiag dev)
                           then nrng_fail s else s)
                  in on_ndev (uwb_set_rx_timeout uf
                       (if unat slot_idx + 1 = unat (nrng_nnodes (ns_nrng s)) then 1
                        else ucast (ss_nrng_next_timeout B config (nrng_nnodes (ns_nrng s)) slot_idx))) s)"

section \<open>The receive callback and the package\<close>

definition ss_nrng_rx_complete_cb :: "nrng_build \<Rightarrow> nrng_state callback" where
  "ss_nrng_rx_complete_cb B s =
     (let dev = ns_dev s
      in if dev_fctrl dev \<noteq> FCNTL_IEEE_RANGE_16 then (False, s)
         else if nrng_count s = 1 then (False, SS_NRNG_STATS_INC Ssn_rx_unsolicited s)
         else
           let config = nrng_get_config B (ns_nrng s) UWB_DATA_CODE_SS_TWR_NRNG;
               rx = dev_rxbuf dev
           in if nf_dst_address rx \<noteq> dev_my_short_address dev \<and> nf_dst_address rx \<noteq> 0xffff then (True, s)
              else
                let s = SS_NRNG_STATS_INC Ssn_rx_complete s
                in if nf_code rx = UWB_DATA_CODE_SS_TWR_NRNG then (True, ss_nrng_respond B config s)
                   else if nf_code rx = UWB_DATA_CODE_SS_TWR_NRNG_T1 then (True, ss_nrng_store B config s)
                   else (False, s))"

definition nrng_interface :: "bool \<Rightarrow> nat \<Rightarrow> nrng_state uwb_mac_interface" where
  "nrng_interface verbose ptr = \<lparr>
     mac_initialized = False, mac_id = UWBEXT_NRNG, mac_inst_ptr = ptr,
     mac_tx_complete_cb = None, mac_rx_complete_cb = None, mac_rx_timeout_cb = None, mac_rx_error_cb = None,
     mac_tx_error_cb = None, mac_reset_cb = None, mac_final_cb = None,
     mac_complete_cb = (if verbose then Some nrng_complete_cb else None), mac_superframe_cb = None\<rparr>"

definition ss_nrng_interface ::
  "nrng_build \<Rightarrow> nrng_state uwb_mac_interface list \<Rightarrow> nat \<Rightarrow> nrng_state uwb_mac_interface" where
  "ss_nrng_interface B cbs ptr = \<lparr>
     mac_initialized = False, mac_id = UWBEXT_NRNG_SS, mac_inst_ptr = ptr,
     mac_tx_complete_cb = None, mac_rx_complete_cb = Some (ss_nrng_rx_complete_cb B),
     mac_rx_timeout_cb = Some (ss_nrng_rx_timeout_cb cbs), mac_rx_error_cb = Some ss_nrng_rx_error_cb,
     mac_tx_error_cb = None, mac_reset_cb = Some ss_nrng_reset_cb, mac_final_cb = None,
     mac_complete_cb = None, mac_superframe_cb = None\<rparr>"

definition twr_ss_nrng_pkg_init ::
  "nrng_build \<Rightarrow> nrng_state uwb_mac_interface list \<Rightarrow> nrng_state uwb_mac_interface list \<Rightarrow> nrng_state
     \<Rightarrow> nrng_state \<times> nrng_state uwb_mac_interface list" where
  "twr_ss_nrng_pkg_init B complete_cbs cbs s =
     (let cbs' = uwb_mac_append_interface cbs
            (ss_nrng_interface B complete_cbs (uwb_mac_find_cb_inst_ptr cbs UWBEXT_NRNG))
      in ((on_nrng (nrng_append_config
              \<lparr>cfgs_rng_code = UWB_DATA_CODE_SS_TWR_NRNG, cfgs_name = [], cfgs_config = nb_ss B\<rparr>) s)
            \<lparr>ns_stat := (\<lambda>_. 0)\<rparr>, cbs'))"

definition twr_ss_nrng_free :: "'s uwb_mac_interface list \<Rightarrow> 's uwb_mac_interface list" where
  "twr_ss_nrng_free cbs = uwb_mac_remove_interface cbs UWBEXT_NRNG_SS"

end
