(* ===== verification/Nrng_Facts.thy ===== *)
theory Nrng_Facts
  imports Twr_Ss_Nrng Twr_Protocol
begin

text \<open>
  Lemmas on ranging to many nodes: the fields of a frame, the invariant of an instance and
  what each step of a round does to it, the position of a slot in the mask, and the loops
  that collect the results.
\<close>

unbundle bit_operations_syntax

section \<open>Fields\<close>

lemma field_get_put:
  assumes "p + w \<le> 32"
  shows "field_get p w (field_put p w v x) = take_bit w v"
  using assms
  by (intro bit_word_eqI) (auto simp: field_get_def field_put_def bit_simps)

lemma field_get_put_other:
  assumes "p + w \<le> q \<or> q + u \<le> p"
  shows "field_get q u (field_put p w v x) = field_get q u x"
  using assms
  by (intro bit_word_eqI) (auto simp: field_get_def field_put_def bit_simps dest: bit_imp_le_length)

lemma take_bit_ucast16: "take_bit 16 (ucast (v :: u16) :: u32) = ucast v"
  by (rule bit_word_eqI) (auto simp: bit_simps dest: bit_imp_le_length)

section \<open>The invariant\<close>

text \<open>
  A frame always keeps the frame control it was given at the set-up, or the same one from
  the air. A device's receive buffer holds at least a response.
\<close>

definition nframe_ok :: "nrng_build \<Rightarrow> bytes \<Rightarrow> bool" where
  "nframe_ok B fr \<longleftrightarrow> length fr = nb_frame_size B \<and> get_le16 fr 0 = FCNTL_IEEE_RANGE_16"

definition nrng_ok :: "nrng_build \<Rightarrow> nrng_state \<Rightarrow> bool" where
  "nrng_ok B s \<longleftrightarrow> nrng_sem (ns_nrng s) \<le> 1 \<and> nrng_nframes (ns_nrng s) \<noteq> 0
     \<and> length (nrng_frames (ns_nrng s)) = unat (nrng_nframes (ns_nrng s))
     \<and> (\<forall>p \<in> set (nrng_frames (ns_nrng s)). \<exists>fr. p = Some fr \<and> nframe_ok B fr) \<and> \<not> ns_failed s"

definition ndev_ok :: "nrng_build \<Rightarrow> uwb_dev \<Rightarrow> bool" where
  "ndev_ok B dev \<longleftrightarrow> dev_slot_id dev < 64 \<and> sizeof_nrng_response_frame_t \<le> length (dev_rxbuf dev)
     \<and> sizeof_nrng_final_frame_t + length (dev_rxdiag dev) \<le> nb_frame_size B
     \<and> dev_fctrl dev = get_le16 (dev_rxbuf dev) 0
     \<and> \<not> (config_dblbuffon_enabled (dev_config dev) \<and> config_rxauto_enable (dev_config dev))"

lemma ndev_ok_command [simp]: "ndev_ok B (uwb_command uf c dev) = ndev_ok B dev"
  by (simp add: ndev_ok_def frame)

lemma nrng_slot_less: "nrng_ok B s \<Longrightarrow> nrng_slot (ns_nrng s) k < length (nrng_frames (ns_nrng s))"
  by (simp add: nrng_ok_def nrng_slot_def unat_gt_0)

lemma nrng_frame_set:
  assumes "nrng_ok B s"
  obtains fr where "nrng_frame (ns_nrng s) k = Some fr" "nframe_ok B fr"
proof -
  let ?p = "nrng_frames (ns_nrng s) ! nrng_slot (ns_nrng s) k"
  note less = nrng_slot_less[OF assms, of k]
  then have "?p \<in> set (nrng_frames (ns_nrng s))" by simp
  then obtain fr where "?p = Some fr" "nframe_ok B fr" using assms by (auto simp: nrng_ok_def)
  then show thesis
    using that[of fr] less assms by (simp add: nrng_frame_def nrng_ok_def)
qed

lemma on_nrng_simps [simp]:
  "ns_nrng (on_nrng f s) = f (ns_nrng s)" "ns_dev (on_nrng f s) = ns_dev s"
  "ns_failed (on_nrng f s) = ns_failed s" "ns_events (on_nrng f s) = ns_events s"
  "ns_nrng (on_ndev g s) = ns_nrng s" "ns_dev (on_ndev g s) = g (ns_dev s)"
  "ns_failed (on_ndev g s) = ns_failed s" "ns_events (on_ndev g s) = ns_events s"
  "ns_nrng (SS_NRNG_STATS_INC x s) = ns_nrng s" "ns_dev (SS_NRNG_STATS_INC x s) = ns_dev s"
  "ns_failed (SS_NRNG_STATS_INC x s) = ns_failed s" "ns_events (SS_NRNG_STATS_INC x s) = ns_events s"
  "ns_dev (NRNG_STATS_INC y s) = ns_dev s" "ns_failed (NRNG_STATS_INC y s) = ns_failed s"
  "ns_dev (nrng_release s) = ns_dev s" "ns_failed (nrng_release s) = ns_failed s"
  by (simp_all add: on_nrng_def on_ndev_def SS_NRNG_STATS_INC_def NRNG_STATS_INC_def nrng_release_def)

lemma nrng_stats_simps [simp]:
  "nrng_sem (ns_nrng (NRNG_STATS_INC x s)) = nrng_sem (ns_nrng s)"
  "nrng_nframes (ns_nrng (NRNG_STATS_INC x s)) = nrng_nframes (ns_nrng s)"
  "nrng_frames (ns_nrng (NRNG_STATS_INC x s)) = nrng_frames (ns_nrng s)"
  by (simp_all add: NRNG_STATS_INC_def)

text \<open>What a change of the instance leaves alone: everything but the field it names.\<close>

lemma nrng_ok_cong:
  assumes "nrng_ok B s" and "nrng_frames (ns_nrng t) = nrng_frames (ns_nrng s)"
    and "nrng_nframes (ns_nrng t) = nrng_nframes (ns_nrng s)" and "nrng_sem (ns_nrng t) \<le> 1" and "\<not> ns_failed t"
  shows "nrng_ok B t"
  using assms by (simp add: nrng_ok_def)

lemma nrng_ok_set_frame:
  assumes "nrng_ok B s" and "nframe_ok B fr"
  shows "nrng_ok B (on_nrng (nrng_set_frame k fr) s)"
  using assms by (auto simp: nrng_ok_def nrng_set_frame_def dest!: set_update_subset_insert[THEN subsetD])

lemma nrng_frame_after_set:
  assumes "nrng_ok B s"
  shows "nrng_frame (nrng_set_frame k fr (ns_nrng s)) l =
    (if nrng_slot (ns_nrng s) l = nrng_slot (ns_nrng s) k then Some fr else nrng_frame (ns_nrng s) l)"
  using nrng_slot_less[OF assms, of l] nrng_slot_less[OF assms, of k] assms
  by (auto simp: nrng_frame_def nrng_set_frame_def nrng_slot_def nrng_ok_def)

lemma set_frame_fields [simp]:
  "nrng_sem (nrng_set_frame k fr n) = nrng_sem n" "nrng_nframes (nrng_set_frame k fr n) = nrng_nframes n"
  "nrng_idx (nrng_set_frame k fr n) = nrng_idx n" "nrng_seq_num (nrng_set_frame k fr n) = nrng_seq_num n"
  "nrng_slot_mask (nrng_set_frame k fr n) = nrng_slot_mask n" "nrng_nnodes (nrng_set_frame k fr n) = nrng_nnodes n"
  "nrng_configs (nrng_set_frame k fr n) = nrng_configs n"
  "nrng_delay_start_enabled (nrng_set_frame k fr n) = nrng_delay_start_enabled n"
  "nrng_delay (nrng_set_frame k fr n) = nrng_delay n" "nrng_cell_id (nrng_set_frame k fr n) = nrng_cell_id n"
  by (simp_all add: nrng_set_frame_def)

lemma nrng_count_iff:
  assumes "nrng_ok B s"
  shows "nrng_count s = 0 \<longleftrightarrow> nrng_sem (ns_nrng s) = 0" "nrng_count s = 1 \<longleftrightarrow> nrng_sem (ns_nrng s) = 1"
  using assms get_count_binary[of "nrng_sem (ns_nrng s)"] by (simp_all add: nrng_ok_def nrng_count_def)

lemma nrng_ok_release:
  "nrng_ok B s \<Longrightarrow> nrng_sem (ns_nrng s) = 0 \<Longrightarrow> nrng_ok B (nrng_release s)"
  by (simp add: nrng_ok_def nrng_release_def dpl_sem_release_def on_nrng_def)

section \<open>Frames that are built\<close>

lemma nframe_ok_puts:
  assumes "nframe_ok B fr" and "2 \<le> nb_frame_size B"
  shows "nframe_ok B (put_nf_seq_num a fr)" "nframe_ok B (put_nf_code c fr)" "nframe_ok B (put_nf_src_address c fr)"
    "nframe_ok B (put_nf_dst_address c fr)" "nframe_ok B (put_nf_cell_id c fr)" "nframe_ok B (put_nf_slot_mask c fr)"
    "nframe_ok B (put_nf_ptype p fr)" "nframe_ok B (put_nf_start_slot_id c fr)" "nframe_ok B (put_nf_end_slot_id c fr)"
    "nframe_ok B (put_nf_slot_id a fr)" "nframe_ok B (put_nf_reception_timestamp w fr)"
    "nframe_ok B (put_nf_transmission_timestamp w fr)" "nframe_ok B (put_nf_request_timestamp w fr)"
    "nframe_ok B (put_nf_response_timestamp w fr)" "nframe_ok B (put_nf_carrier_integrator w fr)"
  using assms by (simp_all add: nframe_ok_def layout)

lemma length_puts [simp]:
  "length (put_nf_seq_num a m) = length m" "length (put_nf_code c m) = length m"
  "length (put_nf_src_address c m) = length m" "length (put_nf_dst_address c m) = length m"
  "length (put_nf_cell_id c m) = length m" "length (put_nf_slot_mask c m) = length m"
  "length (put_nf_ptype p m) = length m" "length (put_nf_start_slot_id c m) = length m"
  "length (put_nf_end_slot_id c m) = length m" "length (put_nf_slot_id a m) = length m"
  "length (put_nf_reception_timestamp w m) = length m" "length (put_nf_transmission_timestamp w m) = length m"
  "length (put_nf_request_timestamp w m) = length m" "length (put_nf_response_timestamp w m) = length m"
  "length (put_nf_carrier_integrator w m) = length m" "length (put_nf_fctrl c m) = length m"
  "length (put_nf_PANID c m) = length m"
  by (simp_all add: layout)

lemma nframe_ok_received:
  assumes "nframe_ok B fr" and "19 \<le> n" and "n \<le> length rx" and "n \<le> nb_frame_size B"
    and "get_le16 rx 0 = FCNTL_IEEE_RANGE_16"
  shows "nframe_ok B (write_at fr 0 (take n rx))"
  using assms by (simp add: nframe_ok_def field_write_same field_take)

lemma nframe_ok_request:
  "nframe_ok B fr \<Longrightarrow> 2 \<le> nb_frame_size B \<Longrightarrow> nframe_ok B (nrng_request_frame B' dev dst code seq m cell fr)"
  by (simp add: nrng_request_frame_def Let_def nframe_ok_puts)

lemma nframe_ok_response:
  assumes "nframe_ok B fr" and "32 \<le> nb_frame_size B" and "20 \<le> length (dev_rxbuf dev)"
    and "get_le16 (dev_rxbuf dev) 0 = FCNTL_IEEE_RANGE_16"
  shows "nframe_ok B (nrng_response_frame B dev d k fr)"
  using assms nframe_ok_received[of B fr 19 "dev_rxbuf dev"]
  by (simp add: nrng_response_frame_def Let_def nframe_ok_puts)

lemma nframe_ok_final:
  assumes "nframe_ok B fr" and "ndev_ok B dev" and "dev_fctrl dev = FCNTL_IEEE_RANGE_16"
  shows "nframe_ok B (nrng_final_frame B dev fr)"
proof -
  have size: "32 \<le> nb_frame_size B" and rx: "20 \<le> length (dev_rxbuf dev)" "get_le16 (dev_rxbuf dev) 0 = FCNTL_IEEE_RANGE_16"
    using assms(2,3) by (auto simp: ndev_ok_def)
  have "nframe_ok B (write_at fr 32 xs)" if "nframe_ok B fr" for fr xs
    using that size le16.get_write_at_other[of 32 xs 0 fr] by (simp add: nframe_ok_def)
  then show ?thesis
    using nframe_ok_received[OF assms(1), of 20 "dev_rxbuf dev"] rx size
    by (simp add: nrng_final_frame_def Let_def nframe_ok_puts)
qed

section \<open>Positions in the mask\<close>

definition pos_in :: "u16 \<Rightarrow> nat \<Rightarrow> nat" where
  "pos_in m i = card {j. j < i \<and> bit m j}"

definition mask_slots :: "u16 \<Rightarrow> nat set" where
  "mask_slots m = {i. bit m i}"

lemma mask_slots_less: "i \<in> mask_slots m \<Longrightarrow> i < 16"
  by (auto simp: mask_slots_def dest: bit_imp_le_length)

lemma finite_mask_slots [simp]: "finite (mask_slots m)"
  by (rule finite_subset[of _ "{..<16}"]) (auto dest: mask_slots_less)

lemma card_mask_slots: "card (mask_slots m) \<le> 16"
  using card_mono[of "{..<16}" "mask_slots m"] by (auto dest: mask_slots_less)

lemma pos_in_less: "i \<in> mask_slots m \<Longrightarrow> pos_in m i < card (mask_slots m)"
  unfolding pos_in_def by (rule psubset_card_mono) (auto simp: mask_slots_def)

lemma pos_in_mono: "i \<in> mask_slots m \<Longrightarrow> i < j \<Longrightarrow> pos_in m i < pos_in m j"
  unfolding pos_in_def by (rule psubset_card_mono) (auto simp: mask_slots_def)

lemma pos_in_inj: "inj_on (pos_in m) (mask_slots m)"
  by (rule inj_onI) (metis linorder_neqE_nat nat_neq_iff pos_in_mono)

lemma BitIndex_pos:
  assumes "i \<in> mask_slots m"
  shows "BitIndex (ucast m) (2 ^ i) SLOT_POSITION = Some (of_nat (pos_in m i))"
proof -
  have "i < 16" using assms by (rule mask_slots_less)
  moreover have "bit (ucast m :: u32) j \<longleftrightarrow> bit m j" for j
    by (auto simp: bit_simps dest: bit_imp_le_length)
  ultimately show ?thesis
    using assms BitIndex_position[of i "ucast m"] by (simp add: mask_slots_def pos_in_def)
qed

lemma unat_ucast_small:
  "unat (x :: 'a::len word) < 2 ^ LENGTH('b) \<Longrightarrow> unat (ucast x :: 'b::len word) = unat x"
  by (simp add: unsigned_ucast_eq unsigned_take_bit_eq take_bit_nat_eq_self)

lemma NumberOfBits_mask: "(ucast (NumberOfBits (ucast (m :: u16))) :: u16) = of_nat (card (mask_slots m))"
proof -
  have "bits_of (ucast m :: u32) = mask_slots m"
    by (auto simp: bits_of_def mask_slots_def bit_simps dest: bit_imp_le_length)
  moreover have "unat (of_nat (card (mask_slots m)) :: u32) = card (mask_slots m)"
    "unat (of_nat (card (mask_slots m)) :: u16) = card (mask_slots m)"
    using card_mask_slots[of m] by (simp_all add: unat_of_nat)
  ultimately show ?thesis using card_mask_slots[of m]
    by (simp add: NumberOfBits_card word_unat_eq_iff unat_ucast_small)
qed

lemma unat_pos_in:
  assumes "i \<in> mask_slots m"
  shows "unat (ucast (of_nat (pos_in m i) :: u32) :: u16) = pos_in m i"
    and "unat (ucast (ucast (ucast (of_nat (pos_in m i) :: u32) :: u16) :: u8) :: u16) = pos_in m i"
proof -
  have "pos_in m i < 16" using pos_in_less[OF assms] card_mask_slots[of m] by simp
  moreover from this have "unat (of_nat (pos_in m i) :: u32) = pos_in m i" by (simp add: unat_of_nat)
  ultimately show *: "unat (ucast (of_nat (pos_in m i) :: u32) :: u16) = pos_in m i"
    by (subst unat_ucast_small) simp_all
  show "unat (ucast (ucast (ucast (of_nat (pos_in m i) :: u32) :: u16) :: u8) :: u16) = pos_in m i"
    using * \<open>pos_in m i < 16\<close> unat_ucast_small[of "ucast (of_nat (pos_in m i) :: u32) :: u16", where 'b = 8]
      unat_ucast_small[of "ucast (ucast (of_nat (pos_in m i) :: u32) :: u16) :: u8", where 'b = 16] by simp
qed

lemma ucast_pos_in:
  assumes "i \<in> mask_slots m"
  shows "(ucast (of_nat (pos_in m i) :: u32) :: u16) = of_nat (pos_in m i)"
proof -
  have "unat (of_nat (pos_in m i) :: u16) = pos_in m i"
    using pos_in_less[OF assms] card_mask_slots[of m] by (simp add: unat_of_nat)
  then show ?thesis using unat_pos_in(1)[OF assms] by (simp add: word_unat_eq_iff)
qed

section \<open>The loops over the slots\<close>

lemma slot_frame_pos:
  assumes "i \<in> mask_slots (nrng_slot_mask n)"
  shows "slot_frame n base i = nrng_frame n (unat base + pos_in (nrng_slot_mask n) i)"
  using assms by (simp add: slot_frame_def BitIndex_pos unat_pos_in)

lemma valid_slots_loop_result:
  assumes "\<And>i. i \<in> mask_slots (nrng_slot_mask n) \<Longrightarrow> slot_frame n base i = Some (g i)" and "\<forall>i \<in> set is. i < 64"
  shows "\<exists>r. valid_slots_loop n seq base is m = Some r \<and>
    (\<forall>i. bit r i \<longleftrightarrow> bit m i \<or> (i \<in> set is \<and> i \<in> mask_slots (nrng_slot_mask n) \<and> final_of seq (g i)))"
  using assms(2)
proof (induction "is" arbitrary: m)
  case (Cons j js)
  have step: "bit (m OR 2 ^ j) i \<longleftrightarrow> bit m i \<or> i = j" if "j < 16" for i
    using that by (auto simp: bit_simps)
  show ?case
  proof (cases "j \<in> mask_slots (nrng_slot_mask n)")
    case True
    then have "bit (nrng_slot_mask n) j" by (simp add: mask_slots_def)
    then show ?thesis
      using Cons.IH[of "if final_of seq (g j) then m OR 2 ^ j else m"] Cons.prems assms(1)[OF True] True
        step[OF mask_slots_less[OF True]] by auto
  next
    case False
    then have n: "\<not> bit (nrng_slot_mask n) j" by (simp add: mask_slots_def)
    obtain r where "valid_slots_loop n seq base js m = Some r" and
      r: "\<And>i. bit r i \<longleftrightarrow> bit m i \<or> (i \<in> set js \<and> i \<in> mask_slots (nrng_slot_mask n) \<and> final_of seq (g i))"
      using Cons.IH[of m] Cons.prems by fastforce
    then show ?thesis using Cons.prems n False by (intro exI[of _ r]) (auto simp: r)
  qed
qed simp

lemma slot_results_loop_result:
  assumes "\<And>i. i \<in> set is \<Longrightarrow> bit m i \<Longrightarrow> slot_frame n base i = Some (g i)" and "\<forall>i \<in> set is. i < 64"
  shows "slot_results_loop f n base m is = Some (map (f \<circ> g) (filter (bit m) is))"
  using assms by (induction "is") auto

end
