(* ===== verification/Nrng_Round.thy ===== *)
theory Nrng_Round
  imports Nrng_Facts
begin

text \<open>
  A round of ranging to many nodes: what the request, each anchor's answer and each answer's
  arrival do, and the results when the answers have arrived in any order.
\<close>

unbundle bit_operations_syntax

section \<open>The air\<close>

definition ndeliver :: "bytes \<Rightarrow> u64 \<Rightarrow> u32 \<Rightarrow> nrng_state \<Rightarrow> nrng_state" where
  "ndeliver bs ts carrier =
     on_ndev (\<lambda>d. d\<lparr>dev_rxbuf := bs @ drop (length bs) (dev_rxbuf d), dev_frame_len := of_nat (length bs),
                   dev_fctrl := get_le16 bs 0, dev_rxtimestamp := ts, dev_carrier_integrator := carrier\<rparr>)"

definition ntransmitted :: "nrng_state \<Rightarrow> bytes" where
  "ntransmitted s = (case last_written (dev_cmds (ns_dev s)) of Some bs \<Rightarrow> bs | None \<Rightarrow> [])"

text \<open>
  A device fit for the service: a slot number that can be shifted by, a receive buffer that
  holds a response, room for the diagnostics, and no double buffering with automatic re-enable.
\<close>

definition nrng_device :: "nrng_build \<Rightarrow> uwb_dev \<Rightarrow> bool" where
  "nrng_device B dev \<longleftrightarrow> dev_slot_id dev < 64 \<and> sizeof_nrng_response_frame_t \<le> length (dev_rxbuf dev)
     \<and> sizeof_nrng_final_frame_t + length (dev_rxdiag dev) \<le> nb_frame_size B
     \<and> \<not> (config_dblbuffon_enabled (dev_config dev) \<and> config_rxauto_enable (dev_config dev))"

lemma nrng_device_command [simp]: "nrng_device B (uwb_command uf c dev) = nrng_device B dev"
  by (simp add: nrng_device_def frame)

lemma nrng_device_size: "nrng_device B dev \<Longrightarrow> 32 \<le> nb_frame_size B"
  by (simp add: nrng_device_def)

lemma ndeliver_simps [simp]:
  "ns_nrng (ndeliver bs ts c s) = ns_nrng s" "ns_failed (ndeliver bs ts c s) = ns_failed s"
  "dev_rxbuf (ns_dev (ndeliver bs ts c s)) = bs @ drop (length bs) (dev_rxbuf (ns_dev s))"
  "dev_frame_len (ns_dev (ndeliver bs ts c s)) = of_nat (length bs)"
  "dev_fctrl (ns_dev (ndeliver bs ts c s)) = get_le16 bs 0" "dev_rxtimestamp (ns_dev (ndeliver bs ts c s)) = ts"
  "dev_carrier_integrator (ns_dev (ndeliver bs ts c s)) = c"
  "dev_my_short_address (ns_dev (ndeliver bs ts c s)) = dev_my_short_address (ns_dev s)"
  "dev_slot_id (ns_dev (ndeliver bs ts c s)) = dev_slot_id (ns_dev s)"
  "dev_cell_id (ns_dev (ndeliver bs ts c s)) = dev_cell_id (ns_dev s)"
  "dev_tx_antenna_delay (ns_dev (ndeliver bs ts c s)) = dev_tx_antenna_delay (ns_dev s)"
  "dev_config (ns_dev (ndeliver bs ts c s)) = dev_config (ns_dev s)"
  "dev_rxdiag (ns_dev (ndeliver bs ts c s)) = dev_rxdiag (ns_dev s)"
  "dev_status (ns_dev (ndeliver bs ts c s)) = dev_status (ns_dev s)"
  "dev_cmds (ns_dev (ndeliver bs ts c s)) = dev_cmds (ns_dev s)"
  "nrng_count (ndeliver bs ts c s) = nrng_count s"
  by (simp_all add: ndeliver_def nrng_count_def)

lemma ndeliver_ok [simp]: "nrng_ok B (ndeliver bs ts c s) = nrng_ok B s"
  by (simp add: nrng_ok_def)

lemma ndeliver_device:
  assumes "nrng_device B (ns_dev s)" and "length bs = 19 \<or> length bs = 20"
  shows "nrng_device B (ns_dev (ndeliver bs ts c s))" and "ndev_ok B (ns_dev (ndeliver bs ts c s))"
  using assms by (auto simp: nrng_device_def ndev_ok_def field_append)

lemma last_written_other:
  "(\<And>bs off. c \<noteq> Write_tx bs off) \<Longrightarrow> last_written (cs @ [c]) = last_written cs"
  by (simp add: last_written_append split: dev_cmd.splits)

lemma last_written_write [simp]: "last_written (cs @ [Write_tx bs off]) = Some bs"
  by (simp add: last_written_append)

section \<open>The request\<close>

lemma nrng_transmit_simps [simp]:
  "ns_nrng (nrng_transmit B cfg fr s) = ns_nrng s" "ns_failed (nrng_transmit B cfg fr s) = ns_failed s"
  "dev_my_short_address (ns_dev (nrng_transmit B cfg fr s)) = dev_my_short_address (ns_dev s)"
  "dev_config (ns_dev (nrng_transmit B cfg fr s)) = dev_config (ns_dev s)"
  "nrng_device B' (ns_dev (nrng_transmit B cfg fr s)) = nrng_device B' (ns_dev s)"
  "last_written (dev_cmds (ns_dev (nrng_transmit B cfg fr s))) = Some (take 19 fr)"
  by (simp_all add: nrng_transmit_def Let_def uwb_api_defs frame last_written_other del: append_assoc)

text \<open>The state of the instance after a request for a set of slots.\<close>

definition after_request :: "nrng_build \<Rightarrow> uwb_dev \<Rightarrow> u16 \<Rightarrow> u16 \<Rightarrow> u16 \<Rightarrow> u16 \<Rightarrow> nrng_instance \<Rightarrow> nrng_instance \<Rightarrow> bool" where
  "after_request B dev dst code slot_mask cell_id n n' \<longleftrightarrow>
     nrng_sem n' = 0 \<and> nrng_idx n' = nrng_idx n + of_nat (card (mask_slots slot_mask))
     \<and> nrng_nnodes n' = of_nat (card (mask_slots slot_mask)) \<and> nrng_seq_num n' = nrng_seq_num n + 1
     \<and> nrng_nframes n' = nrng_nframes n \<and> nrng_slot_mask n' = slot_mask \<and> nrng_configs n' = nrng_configs n
     \<and> (\<exists>fr. nrng_frame n (unat (nrng_idx n')) = Some fr \<and>
         (\<forall>l. nrng_frame n' l = (if nrng_slot n l = nrng_slot n (unat (nrng_idx n'))
            then Some (nrng_request_frame B dev dst code (nrng_seq_num n') slot_mask cell_id fr) else nrng_frame n l)))"

text \<open>The state when the frame of the request is looked up, and when it is filled in.\<close>

definition request_lookup :: "u16 \<Rightarrow> nrng_state \<Rightarrow> nrng_state" where
  "request_lookup slot_mask s =
     on_nrng (\<lambda>n. n\<lparr>nrng_idx := nrng_idx n + of_nat (card (mask_slots slot_mask))\<rparr>)
       (on_nrng (\<lambda>n. n\<lparr>nrng_nnodes := of_nat (card (mask_slots slot_mask))\<rparr>)
         (NRNG_STATS_INC Nrng_request (on_nrng (\<lambda>n. n\<lparr>nrng_sem := 0\<rparr>) s)))"

lemma request_lookup_simps [simp]:
  "ns_dev (request_lookup m s) = ns_dev s" "ns_failed (request_lookup m s) = ns_failed s"
  "nrng_sem (ns_nrng (request_lookup m s)) = 0" "nrng_nframes (ns_nrng (request_lookup m s)) = nrng_nframes (ns_nrng s)"
  "nrng_frames (ns_nrng (request_lookup m s)) = nrng_frames (ns_nrng s)"
  "nrng_idx (ns_nrng (request_lookup m s)) = nrng_idx (ns_nrng s) + of_nat (card (mask_slots m))"
  "nrng_nnodes (ns_nrng (request_lookup m s)) = of_nat (card (mask_slots m))"
  "nrng_seq_num (ns_nrng (request_lookup m s)) = nrng_seq_num (ns_nrng s)"
  "nrng_configs (ns_nrng (request_lookup m s)) = nrng_configs (ns_nrng s)"
  "nrng_frame (ns_nrng (request_lookup m s)) k = nrng_frame (ns_nrng s) k"
  "nrng_slot (ns_nrng (request_lookup m s)) k = nrng_slot (ns_nrng s) k"
  by (simp_all add: request_lookup_def on_nrng_def NRNG_STATS_INC_def nrng_frame_def nrng_slot_def)

lemma request_lookup_ok: "nrng_ok B s \<Longrightarrow> nrng_ok B (request_lookup m s)"
  by (simp add: nrng_ok_def)

definition request_filled :: "nrng_build \<Rightarrow> u16 \<Rightarrow> u16 \<Rightarrow> bytes \<Rightarrow> nrng_state \<Rightarrow> nrng_state" where
  "request_filled B slot_mask cell_id fr s =
     on_nrng (nrng_set_frame (unat (nrng_idx (ns_nrng s))) fr)
       (if nb_cell B then on_nrng (\<lambda>n. n\<lparr>nrng_cell_id := cell_id, nrng_slot_mask := slot_mask\<rparr>)
            (on_nrng (\<lambda>n. n\<lparr>nrng_seq_num := nrng_seq_num n + 1\<rparr>) s)
        else on_nrng (\<lambda>n. n\<lparr>nrng_seq_num := nrng_seq_num n + 1\<rparr>) s)"

lemma request_filled_ok:
  assumes "nrng_ok B s" and "nframe_ok B fr"
  shows "nrng_ok B (request_filled B m cell fr s)"
  unfolding request_filled_def
  by (intro nrng_ok_set_frame assms(2)) (rule nrng_ok_cong[OF assms(1)], use assms(1) in \<open>auto simp: nrng_ok_def\<close>)

lemma request_filled_simps [simp]:
  "ns_dev (request_filled B m cell fr s) = ns_dev s" "ns_failed (request_filled B m cell fr s) = ns_failed s"
  "nrng_sem (ns_nrng (request_filled B m cell fr s)) = nrng_sem (ns_nrng s)"
  "nrng_nframes (ns_nrng (request_filled B m cell fr s)) = nrng_nframes (ns_nrng s)"
  "nrng_idx (ns_nrng (request_filled B m cell fr s)) = nrng_idx (ns_nrng s)"
  "nrng_nnodes (ns_nrng (request_filled B m cell fr s)) = nrng_nnodes (ns_nrng s)"
  "nrng_seq_num (ns_nrng (request_filled B m cell fr s)) = nrng_seq_num (ns_nrng s) + 1"
  "nrng_configs (ns_nrng (request_filled B m cell fr s)) = nrng_configs (ns_nrng s)"
  "nb_cell B \<Longrightarrow> nrng_slot_mask (ns_nrng (request_filled B m cell fr s)) = m"
  by (simp_all add: request_filled_def)

lemma request_filled_frame:
  assumes "nrng_ok B s"
  shows "nrng_frame (ns_nrng (request_filled B m cell fr s)) l =
    (if nrng_slot (ns_nrng s) l = nrng_slot (ns_nrng s) (unat (nrng_idx (ns_nrng s))) then Some fr
     else nrng_frame (ns_nrng s) l)"
proof -
  have "nrng_frame (ns_nrng (request_filled B m cell fr s)) l =
      nrng_frame (nrng_set_frame (unat (nrng_idx (ns_nrng s))) fr (ns_nrng s)) l"
    by (simp add: request_filled_def nrng_frame_def nrng_slot_def nrng_set_frame_def)
  then show ?thesis by (simp add: nrng_frame_after_set[OF assms])
qed

text \<open>A request that gets the token: up to the start of the transmission.\<close>

lemma nrng_request_token:
  fixes dst code m cell :: u16
  assumes "nrng_ok B s" and "nrng_sem (ns_nrng s) = 1" and "nrng_frame (ns_nrng s) (unat (nrng_idx (ns_nrng (request_lookup m s)))) = Some fr"
    and "\<not> (config_dblbuffon_enabled (dev_config (ns_dev s)) \<and> config_rxauto_enable (dev_config (ns_dev s)))"
  defines "fr' \<equiv> nrng_request_frame B (ns_dev s) dst code (nrng_seq_num (ns_nrng s) + 1) m cell fr"
  defines "t \<equiv> on_ndev (uwb_start_tx (nb_uf B)) (nrng_transmit B (nrng_get_config B (ns_nrng s) code) fr' (request_filled B m cell fr' (request_lookup m s)))"
  shows "nrng_request B Got_token dst code m cell s = Some
    (if st_start_tx_error (dev_status (ns_dev t))
     then Nrng_returned (nrng_release (NRNG_STATS_INC Nrng_start_tx_error t)) else Nrng_waiting t)"
proof -
  have sem: "nrng_sem (ns_nrng (NRNG_STATS_INC Nrng_start_tx_error t)) = 0"
    by (simp add: t_def NRNG_STATS_INC_def)
  have cfg: "nrng_get_config B (ns_nrng (NRNG_STATS_INC Nrng_request (on_nrng (\<lambda>n. n\<lparr>nrng_sem := 0\<rparr>) s))) code =
      nrng_get_config B (ns_nrng s) code"
    by (simp add: nrng_get_config_def NRNG_STATS_INC_def)
  have pend: "nrng_pend Got_token s = Some (on_nrng (\<lambda>n. n\<lparr>nrng_sem := 0\<rparr>) s)"
    using assms(2) by (simp add: nrng_pend_def dpl_sem_pend_def Let_def)
  have start: "nrng_start_request B dst code m cell (on_nrng (\<lambda>n. n\<lparr>nrng_sem := 0\<rparr>) s) =
      (if st_start_tx_error (dev_status (ns_dev t))
       then Nrng_returned (nrng_release (NRNG_STATS_INC Nrng_start_tx_error t)) else Nrng_waiting t)"
    unfolding nrng_start_request_def Let_def cfg NumberOfBits_mask
    unfolding request_lookup_def[symmetric]
    using assms(3,4) sem
    by (cases "config_dblbuffon_enabled (dev_config (ns_dev s))")
      (simp_all add: t_def fr'_def request_filled_def nrng_count_def)
  show ?thesis using assms(1) by (simp add: nrng_request_def pend start nrng_ok_def)
qed

lemma nrng_request_stage:
  assumes "nrng_ok B s" and "nrng_device B (ns_dev s)" and "nrng_sem (ns_nrng s) = 1" and "driver_ok (nb_uf B)" and "nb_cell B"
  obtains s1 where "nrng_request B Got_token dst code slot_mask cell_id s = Some (Nrng_waiting s1)"
    "nrng_ok B s1" "nrng_device B (ns_dev s1)" "dev_my_short_address (ns_dev s1) = dev_my_short_address (ns_dev s)"
    "\<not> st_lde_error (dev_status (ns_dev s1))"
    "after_request B (ns_dev s) dst code slot_mask cell_id (ns_nrng s) (ns_nrng s1)"
    "\<And>fr. nrng_frame (ns_nrng s1) (unat (nrng_idx (ns_nrng s1))) = Some fr \<Longrightarrow> ntransmitted s1 = take 19 fr"
proof -
  let ?l = "request_lookup slot_mask s"
  obtain fr where fr: "nrng_frame (ns_nrng s) (unat (nrng_idx (ns_nrng ?l))) = Some fr" "nframe_ok B fr"
    using assms(1) by (rule nrng_frame_set)
  let ?fr = "nrng_request_frame B (ns_dev s) dst code (nrng_seq_num (ns_nrng s) + 1) slot_mask cell_id fr"
  let ?f = "request_filled B slot_mask cell_id ?fr ?l"
  let ?t = "on_ndev (uwb_start_tx (nb_uf B)) (nrng_transmit B (nrng_get_config B (ns_nrng s) code) ?fr ?f)"
  have ok: "nrng_ok B ?l" using assms(1) by (rule request_lookup_ok)
  have "nframe_ok B ?fr" using fr(2) nrng_device_size[OF assms(2)] by (simp add: nframe_ok_request)
  then have okf: "nrng_ok B ?f" using ok by (rule request_filled_ok[rotated])
  have nf: "\<not> st_start_tx_error (dev_status (ns_dev ?t))"
    using assms(4) by (simp add: uwb_start_tx_def frame driver_ok_def)
  have "nrng_request B Got_token dst code slot_mask cell_id s = Some (Nrng_waiting ?t)"
    using nrng_request_token[OF assms(1,3) fr(1), of dst code cell_id] assms(2) nf
    by (simp add: nrng_device_def)
  moreover have "nrng_ok B ?t" using okf by (simp add: nrng_ok_def)
  moreover have "nrng_device B (ns_dev ?t)" using assms(2) by (simp add: uwb_start_tx_def)
  moreover have "dev_my_short_address (ns_dev ?t) = dev_my_short_address (ns_dev s)"
    by (simp add: uwb_start_tx_def frame)
  moreover have "\<not> st_lde_error (dev_status (ns_dev ?t))" using assms(4) by (simp add: uwb_start_tx_def frame driver_ok_def)
  moreover have "after_request B (ns_dev s) dst code slot_mask cell_id (ns_nrng s) (ns_nrng ?t)"
    using fr(1) assms(5) by (auto simp: after_request_def request_filled_frame[OF ok])
  moreover have "ntransmitted ?t = take 19 fr'" if "nrng_frame (ns_nrng ?t) (unat (nrng_idx (ns_nrng ?t))) = Some fr'" for fr'
    using that by (simp add: ntransmitted_def uwb_start_tx_def frame last_written_other request_filled_frame[OF ok])
  ultimately show thesis by (rule that)
qed

section \<open>An anchor's answer\<close>

text \<open>A request as it is on the air: the cell's frame for the slots \<open>m\<close>, and whom it reaches.\<close>

definition is_request :: "bytes \<Rightarrow> u16 \<Rightarrow> u16 \<Rightarrow> u16 \<Rightarrow> bool" where
  "is_request F dst m cell \<longleftrightarrow> length F = 19 \<and> get_le16 F 0 = FCNTL_IEEE_RANGE_16 \<and> nf_code F = UWB_DATA_CODE_SS_TWR_NRNG
     \<and> nf_dst_address F = dst \<and> nf_ptype F = 0 \<and> nf_cell_id F = take_bit 14 (ucast cell) \<and> nf_slot_mask F = ucast m"

definition reaches :: "u16 \<Rightarrow> uwb_dev \<Rightarrow> bool" where
  "reaches dst dev \<longleftrightarrow> dst = 0xffff \<or> dst = dev_my_short_address dev"

definition anchor_time :: "uwb_dev \<Rightarrow> u64 \<Rightarrow> u64" where
  "anchor_time dev delay = (delay AND 0xFFFFFFFE00) + ucast (dev_tx_antenna_delay dev)"

lemma is_request_frame:
  assumes "nframe_ok B fr" and "32 \<le> nb_frame_size B" and "nb_cell B" 
  shows "is_request (take 19 (nrng_request_frame B dev dst UWB_DATA_CODE_SS_TWR_NRNG seq m cell fr)) dst m cell"
    and "nf_seq_num (take 19 (nrng_request_frame B dev dst code seq m cell fr)) = seq"
    and "nf_src_address (take 19 (nrng_request_frame B dev dst code seq m cell fr)) = dev_my_short_address dev"
  using assms
  by (simp_all add: is_request_def nrng_request_frame_def Let_def nframe_ok_def layout field_take field_get_put
      field_get_put_other take_bit_ucast16)

lemma response_fields:
  assumes "32 \<le> length fr" and "19 \<le> length (dev_rxbuf dev)" and R_def: "R = nrng_response_frame B dev d k fr"
  shows "length R = length fr" "get_le16 R 0 = get_le16 (dev_rxbuf dev) 0" "nf_seq_num R = nf_seq_num (dev_rxbuf dev)"
    "nf_dst_address R = nf_src_address (dev_rxbuf dev)" "nf_src_address R = dev_my_short_address dev"
    "nf_code R = UWB_DATA_CODE_SS_TWR_NRNG_T1" "nf_reception_timestamp R = stamp (nb_wcs B) (dev_rxtimestamp dev)"
    "nf_transmission_timestamp R = stamp (nb_wcs B) (anchor_time dev d)" "nf_slot_id R = ucast k"
  using assms(1,2)
  by (simp_all add: R_def nrng_response_frame_def Let_def anchor_time_def layout field_write_same field_take)

lemma fields_take_20:
  assumes "20 \<le> length m"
  shows "get_le16 (take 20 m) 0 = get_le16 m 0" "nf_seq_num (take 20 m) = nf_seq_num m" "nf_dst_address (take 20 m) = nf_dst_address m"
    "nf_src_address (take 20 m) = nf_src_address m" "nf_code (take 20 m) = nf_code m"
    "nf_reception_timestamp (take 20 m) = nf_reception_timestamp m"
    "nf_transmission_timestamp (take 20 m) = nf_transmission_timestamp m" "nf_slot_id (take 20 m) = nf_slot_id m"
  using assms by (simp_all add: layout field_take)

lemma fields_append:
  assumes "19 \<le> length F"
  shows "get_le16 (F @ x) 0 = get_le16 F 0" "nf_seq_num (F @ x) = nf_seq_num F" "nf_dst_address (F @ x) = nf_dst_address F"
    "nf_src_address (F @ x) = nf_src_address F" "nf_code (F @ x) = nf_code F" "nf_ptype (F @ x) = nf_ptype F"
    "nf_cell_id (F @ x) = nf_cell_id F" "nf_slot_mask (F @ x) = nf_slot_mask F" "nf_bitfield (F @ x) = nf_bitfield F"
    "nf_reception_timestamp (F @ x) = nf_reception_timestamp F"
    "nf_transmission_timestamp (F @ x) = nf_transmission_timestamp F"
  using assms by (simp_all add: layout field_append)

lemma nf_slot_id_append: "20 \<le> length F \<Longrightarrow> nf_slot_id (F @ x) = nf_slot_id F"
  by (simp add: layout field_append)

lemma on_ndev_twice: "on_ndev f (on_ndev g s) = on_ndev (\<lambda>d. f (g d)) s"
  by (simp add: on_ndev_def)

lemma cmds_fold: "dev_cmds (fold (uwb_command uf) cs d) = dev_cmds d @ cs"
  by (induction cs arbitrary: d) (simp_all add: frame)

text \<open>The commands an answer is sent with.\<close>

definition answer_cmds :: "bytes \<Rightarrow> u64 \<Rightarrow> dev_cmd list" where
  "answer_cmds fr delay = [Write_tx (take 20 fr) 0, Write_tx_fctrl 20 0, Set_wait4resp False, Set_delay_start delay, Start_tx]"

lemma ss_nrng_respond_stage:
  fixes B cfg t c
  assumes "nrng_ok B s" and "nrng_device B (ns_dev s)" and "nrng_sem (ns_nrng s) = 0" and "nb_cell B"
    and "is_request F dst m (dev_cell_id (ns_dev s))" and "dev_cell_id (ns_dev s) < 2 ^ 14"
    and "dev_slot_id (ns_dev s) = of_nat p" and "p \<in> mask_slots m"
  defines "d \<equiv> ns_dev (ndeliver F t c s)"
  defines "delay \<equiv> nrng_response_delay B cfg t (of_nat (pos_in m p))"
  obtains fr where "nframe_ok B fr"
    "nrng_ok B (ss_nrng_respond B cfg (ndeliver F t c s))" "nrng_sem (ns_nrng (ss_nrng_respond B cfg (ndeliver F t c s))) = 1"
    "dev_cmds (ns_dev (ss_nrng_respond B cfg (ndeliver F t c s))) =
       dev_cmds (ns_dev s) @ answer_cmds (nrng_response_frame B d delay (of_nat (pos_in m p)) fr) delay"
proof -
  have F: "length F = 19" using assms(5) by (simp add: is_request_def)
  have p: "p < 16" "unat (of_nat p :: u16) = p" using mask_slots_less[OF assms(8)] by (simp_all add: unat_of_nat)
  let ?s = "ndeliver F t c s"
  let ?n = "on_nrng (\<lambda>n. n\<lparr>nrng_idx := nrng_idx n + 1\<rparr>) ?s"
  have okn: "nrng_ok B ?n" using assms(1) by (simp add: nrng_ok_def)
  obtain fr where fr: "nrng_frame (ns_nrng ?n) (unat (nrng_idx (ns_nrng ?n))) = Some fr" "nframe_ok B fr"
    using okn by (rule nrng_frame_set)
  have d: "ndev_ok B d" "dev_fctrl d = FCNTL_IEEE_RANGE_16" "dev_rxbuf d = F @ drop 19 (dev_rxbuf (ns_dev s))"
    using ndeliver_device(2)[OF assms(2)] F assms(5) by (simp_all add: d_def is_request_def)
  have cell: "take_bit 14 (ucast (dev_cell_id (ns_dev s)) :: u32) = ucast (dev_cell_id (ns_dev s))"
    using assms(6) unat_less_16[of "dev_cell_id (ns_dev s)"]
    by (simp add: word_unat_eq_iff unsigned_take_bit_eq unat_ucast_small word_less_nat_alt take_bit_nat_eq_self)
  have "request_is_for B d"
    using assms(4,5,7,8) p F cell d(3)
    by (simp add: request_is_for_def request_in_cell_def request_slots_def is_request_def fields_append d_def bit_simps mask_slots_def)
  have idx: "BitIndex (request_slots B (dev_rxbuf d)) (2 ^ unat (dev_slot_id d)) SLOT_POSITION = Some (of_nat (pos_in m p))"
    using assms(4,5,7) p F d(3) BitIndex_pos[OF assms(8)]
    by (simp add: request_slots_def is_request_def fields_append d_def)
  have k: "(ucast (of_nat (pos_in m p) :: u32) :: u16) = of_nat (pos_in m p)"
    by (rule ucast_pos_in[OF assms(8)])
  have slot: "\<not> 64 \<le> dev_slot_id d" "dev_frame_len d = 19"
    using assms(2) F by (simp_all add: nrng_device_def d_def not_le)
  let ?R = "nrng_response_frame B d delay (of_nat (pos_in m p)) fr"
  have R: "nframe_ok B ?R"
    using fr(2) d nrng_device_size[OF assms(2)] by (intro nframe_ok_response) (simp_all add: ndev_ok_def)
  have "ss_nrng_respond B cfg ?s = nrng_release (on_ndev (\<lambda>d. fold (uwb_command (nb_uf B)) (answer_cmds ?R delay) d)
      (on_nrng (nrng_set_frame (unat (nrng_idx (ns_nrng ?n))) ?R) ?n))"
    using slot \<open>request_is_for B d\<close> idx k fr(1) d(1)
    by (simp add: ss_nrng_respond_def Let_def answer_cmds_def uwb_api_defs delay_def d_def on_ndev_twice)
  moreover have "nrng_ok B (on_nrng (nrng_set_frame (unat (nrng_idx (ns_nrng ?n))) ?R) ?n)"
    using okn R by (rule nrng_ok_set_frame)
  then have "nrng_ok B (on_ndev f (on_nrng (nrng_set_frame (unat (nrng_idx (ns_nrng ?n))) ?R) ?n))" for f
    by (simp add: nrng_ok_def)
  ultimately show thesis
    using fr(2) assms(3) by (intro that[OF fr(2)])
      (simp_all add: nrng_ok_release, simp_all add: nrng_release_def dpl_sem_release_def cmds_fold)
qed

text \<open>An answer as it is on the air.\<close>

definition is_answer :: "bytes \<Rightarrow> u16 \<Rightarrow> u16 \<Rightarrow> u8 \<Rightarrow> nat \<Rightarrow> u32 \<Rightarrow> u32 \<Rightarrow> bool" where
  "is_answer R dst src seq k rcv tx \<longleftrightarrow> length R = 20 \<and> get_le16 R 0 = FCNTL_IEEE_RANGE_16
     \<and> nf_code R = UWB_DATA_CODE_SS_TWR_NRNG_T1 \<and> nf_dst_address R = dst \<and> nf_src_address R = src \<and> nf_seq_num R = seq
     \<and> unat (ucast (nf_slot_id R) :: u16) = k \<and> nf_reception_timestamp R = rcv \<and> nf_transmission_timestamp R = tx"

lemma stats_deliver: "SS_NRNG_STATS_INC x (ndeliver bs t c s) = ndeliver bs t c (SS_NRNG_STATS_INC x s)"
  by (simp add: SS_NRNG_STATS_INC_def ndeliver_def on_ndev_def)

lemma nrng_ok_stats [simp]: "nrng_ok B (SS_NRNG_STATS_INC x s) = nrng_ok B s"
  by (simp add: nrng_ok_def)

lemma ss_nrng_answer_stage:
  fixes t :: u64 and c :: u32
  assumes "nrng_ok B s" and "nrng_device B (ns_dev s)" and "nrng_sem (ns_nrng s) = 0" and "nb_cell B"
    and "is_request F dst m (dev_cell_id (ns_dev s))" and "dev_cell_id (ns_dev s) < 2 ^ 14"
    and "dev_slot_id (ns_dev s) = of_nat p" and "p \<in> mask_slots m" and "reaches dst (ns_dev s)"
  defines "delay \<equiv> nrng_response_delay B (nrng_get_config B (ns_nrng s) UWB_DATA_CODE_SS_TWR_NRNG) t (of_nat (pos_in m p))"
  defines "s' \<equiv> snd (ss_nrng_rx_complete_cb B (ndeliver F t c s))"
  shows "nrng_ok B s'" "nrng_sem (ns_nrng s') = 1"
    "is_answer (ntransmitted s') (nf_src_address F) (dev_my_short_address (ns_dev s)) (nf_seq_num F) (pos_in m p)
       (stamp (nb_wcs B) t) (stamp (nb_wcs B) (anchor_time (ns_dev s) delay))"
    "\<exists>fr. dev_cmds (ns_dev s') = dev_cmds (ns_dev s) @ answer_cmds fr delay"
proof -
  let ?s = "SS_NRNG_STATS_INC Ssn_rx_complete s"
  let ?cfg = "nrng_get_config B (ns_nrng s) UWB_DATA_CODE_SS_TWR_NRNG"
  have F: "length F = 19" "get_le16 F 0 = FCNTL_IEEE_RANGE_16" "nf_code F = UWB_DATA_CODE_SS_TWR_NRNG" "nf_dst_address F = dst"
    using assms(5) by (simp_all add: is_request_def)
  have s': "s' = ss_nrng_respond B ?cfg (ndeliver F t c ?s)"
    using F assms(3,9) nrng_count_iff[OF assms(1)]
    by (auto simp: s'_def ss_nrng_rx_complete_cb_def Let_def fields_append reaches_def stats_deliver)
  obtain fr where fr: "nframe_ok B fr" "nrng_ok B s'" "nrng_sem (ns_nrng s') = 1"
    "dev_cmds (ns_dev s') = dev_cmds (ns_dev s) @
       answer_cmds (nrng_response_frame B (ns_dev (ndeliver F t c ?s)) delay (of_nat (pos_in m p)) fr) delay"
    using ss_nrng_respond_stage[of B ?s F dst m p ?cfg t c thesis] assms(1-8)
    unfolding s' by (simp add: delay_def)
  let ?R = "nrng_response_frame B (ns_dev (ndeliver F t c ?s)) delay (of_nat (pos_in m p)) fr"
  show "nrng_ok B s'" "nrng_sem (ns_nrng s') = 1" "\<exists>fr. dev_cmds (ns_dev s') = dev_cmds (ns_dev s) @ answer_cmds fr delay"
    using fr by blast+
  have "ntransmitted s' = take 20 ?R"
    by (simp add: ntransmitted_def fr(4) answer_cmds_def last_written_append)
  moreover have len: "32 \<le> length fr" using fr(1) nrng_device_size[OF assms(2)] by (simp add: nframe_ok_def)
  moreover have rx: "19 \<le> length (dev_rxbuf (ns_dev (ndeliver F t c ?s)))" using F by simp
  moreover have "unat (ucast (ucast (of_nat (pos_in m p) :: u16) :: u8) :: u16) = pos_in m p"
    using unat_pos_in(2)[OF assms(8)] by (simp add: ucast_pos_in[OF assms(8)])
  ultimately show "is_answer (ntransmitted s') (nf_src_address F) (dev_my_short_address (ns_dev s)) (nf_seq_num F) (pos_in m p)
       (stamp (nb_wcs B) t) (stamp (nb_wcs B) (anchor_time (ns_dev s) delay))"
    using F response_fields[OF len rx refl]
    by (simp add: is_answer_def fields_take_20 fields_append anchor_time_def)
qed

section \<open>An answer arrives\<close>

lemma final_fields:
  assumes "32 + length (dev_rxdiag dev) \<le> length fr" and "20 \<le> length (dev_rxbuf dev)" and R_def: "R = nrng_final_frame B dev fr"
  shows "nf_code R = UWB_DATA_CODE_SS_TWR_NRNG_FINAL" "nf_seq_num R = nf_seq_num (dev_rxbuf dev)"
    "nf_dst_address R = nf_src_address (dev_rxbuf dev)" "nf_reception_timestamp R = nf_reception_timestamp (dev_rxbuf dev)"
    "nf_transmission_timestamp R = nf_transmission_timestamp (dev_rxbuf dev)"
    "nf_request_timestamp R = nrng_tx_stamp B dev" "nf_response_timestamp R = nrng_rx_stamp B dev"
    "nf_carrier_integrator R = (case nb_wcs B of Some _ \<Rightarrow> 0 | None \<Rightarrow> dev_carrier_integrator dev)"
  using assms(1,2)
  by (auto simp: R_def nrng_final_frame_def Let_def layout field_write_same field_take)

text \<open>Setting the receive timeout does not change what the driver reports as the time of the last transmission.\<close>

definition txtime_stable :: "uwb_driver_funcs \<Rightarrow> bool" where
  "txtime_stable uf \<longleftrightarrow> (\<forall>h t. uf_read_txtime_lo32 uf (h @ [Set_rx_timeout t]) = uf_read_txtime_lo32 uf h
     \<and> uf_read_txtime uf (h @ [Set_rx_timeout t]) = uf_read_txtime uf h)"

text \<open>What the initiator keeps of an answer.\<close>

definition is_final :: "bytes \<Rightarrow> u16 \<Rightarrow> u8 \<Rightarrow> u32 \<Rightarrow> u32 \<Rightarrow> u32 \<Rightarrow> u32 \<Rightarrow> u32 \<Rightarrow> bool" where
  "is_final fr dst seq rcv tx req resp carrier \<longleftrightarrow> final_of seq fr \<and> nf_dst_address fr = dst \<and> nf_reception_timestamp fr = rcv
     \<and> nf_transmission_timestamp fr = tx \<and> nf_request_timestamp fr = req \<and> nf_response_timestamp fr = resp
     \<and> nf_carrier_integrator fr = carrier"

definition same_round :: "nrng_build \<Rightarrow> nrng_state \<Rightarrow> nrng_state \<Rightarrow> bool" where
  "same_round B s s' \<longleftrightarrow> nrng_ok B s' \<and> nrng_device B (ns_dev s') \<and> nrng_sem (ns_nrng s') = 0
     \<and> dev_my_short_address (ns_dev s') = dev_my_short_address (ns_dev s) \<and> \<not> st_lde_error (dev_status (ns_dev s'))
     \<and> nrng_tx_stamp B (ns_dev s') = nrng_tx_stamp B (ns_dev s) \<and> nrng_idx (ns_nrng s') = nrng_idx (ns_nrng s)
     \<and> nrng_seq_num (ns_nrng s') = nrng_seq_num (ns_nrng s) \<and> nrng_slot_mask (ns_nrng s') = nrng_slot_mask (ns_nrng s)
     \<and> nrng_nframes (ns_nrng s') = nrng_nframes (ns_nrng s) \<and> nrng_nnodes (ns_nrng s') = nrng_nnodes (ns_nrng s)"

lemma ss_nrng_store_stage:
  fixes t :: u64 and c :: u32
  assumes "nrng_ok B s" and "nrng_device B (ns_dev s)" and "nrng_sem (ns_nrng s) = 0" and "driver_ok (nb_uf B)"
    and "txtime_stable (nb_uf B)" and "\<not> st_lde_error (dev_status (ns_dev s))"
    and "is_answer R (dev_my_short_address (ns_dev s)) src (nrng_seq_num (ns_nrng s)) k rcv tx"
  defines "s' \<equiv> snd (ss_nrng_rx_complete_cb B (ndeliver R t c s))"
  shows "same_round B s s'"
    "\<exists>fr. is_final fr src (nrng_seq_num (ns_nrng s)) rcv tx (nrng_tx_stamp B (ns_dev s)) (stamp (nb_wcs B) t)
         (case nb_wcs B of Some _ \<Rightarrow> 0 | None \<Rightarrow> c) \<and>
       (\<forall>l. nrng_frame (ns_nrng s') l = (if nrng_slot (ns_nrng s) l = nrng_slot (ns_nrng s) (unat (nrng_idx (ns_nrng s)) + k)
          then Some fr else nrng_frame (ns_nrng s) l))"
proof -
  let ?s = "ndeliver R t c (SS_NRNG_STATS_INC Ssn_rx_complete s)"
  let ?cfg = "nrng_get_config B (ns_nrng s) UWB_DATA_CODE_SS_TWR_NRNG"
  let ?k = "unat (nrng_idx (ns_nrng s)) + k"
  have R: "length R = 20" "get_le16 R 0 = FCNTL_IEEE_RANGE_16" "nf_code R = UWB_DATA_CODE_SS_TWR_NRNG_T1"
    "nf_dst_address R = dev_my_short_address (ns_dev s)" "nf_seq_num R = nrng_seq_num (ns_nrng s)" "nf_src_address R = src"
    "unat (ucast (nf_slot_id R) :: u16) = k" "nf_reception_timestamp R = rcv" "nf_transmission_timestamp R = tx"
    using assms(7) by (simp_all add: is_answer_def)
  have codes: "UWB_DATA_CODE_SS_TWR_NRNG_T1 \<noteq> UWB_DATA_CODE_SS_TWR_NRNG" by (simp add: codes)
  have s': "s' = ss_nrng_store B ?cfg ?s"
    using R assms(3) nrng_count_iff[OF assms(1)] codes
    by (auto simp: s'_def ss_nrng_rx_complete_cb_def Let_def fields_append stats_deliver)
  obtain fr where fr: "nrng_frame (ns_nrng s) ?k = Some fr" "nframe_ok B fr"
    using assms(1) by (rule nrng_frame_set)
  have okd: "ndev_ok B (ns_dev ?s)" and dev: "nrng_device B (ns_dev ?s)"
    using ndeliver_device[of B "SS_NRNG_STATS_INC Ssn_rx_complete s" R t c] assms(2) R by simp_all
  let ?fr = "nrng_final_frame B (ns_dev ?s) fr"
  have okfr: "nframe_ok B ?fr" using fr(2) okd R by (intro nframe_ok_final) simp_all
  have room: "\<not> length fr < 32 + length (dev_rxdiag (ns_dev s))"
    using assms(2) fr(2) by (simp add: nframe_ok_def nrng_device_def)
  obtain n where eq: "s' = on_ndev (uwb_set_rx_timeout (nb_uf B) n) (on_nrng (nrng_set_frame ?k ?fr) ?s)"
    using R fr(1) room by (simp add: s' ss_nrng_store_def Let_def nf_slot_id_append fields_append)
  have "nrng_ok B (on_nrng (nrng_set_frame ?k ?fr) ?s)" using okfr assms(1) by (intro nrng_ok_set_frame) simp_all
  then have "nrng_ok B s'" by (simp add: eq nrng_ok_def)
  moreover have "nrng_tx_stamp B (ns_dev s') = nrng_tx_stamp B (ns_dev s)"
    using assms(5) by (simp add: eq nrng_tx_stamp_def uwb_set_rx_timeout_def uwb_read_txtime_def uwb_read_txtime_lo32_def frame
        txtime_stable_def split: option.splits)
  ultimately show "same_round B s s'"
    using assms(3,4) dev by (simp add: same_round_def eq uwb_set_rx_timeout_def frame driver_ok_def)
  have st: "nrng_tx_stamp B (ns_dev ?s) = nrng_tx_stamp B (ns_dev s)" "nrng_rx_stamp B (ns_dev ?s) = stamp (nb_wcs B) t"
    using assms(6) by (simp_all add: nrng_tx_stamp_def nrng_rx_stamp_def stamp_def uwb_read_txtime_def uwb_read_txtime_lo32_def
        unsigned_and_eq split: option.splits)
  have "is_final ?fr src (nrng_seq_num (ns_nrng s)) rcv tx (nrng_tx_stamp B (ns_dev s)) (stamp (nb_wcs B) t)
      (case nb_wcs B of Some _ \<Rightarrow> 0 | None \<Rightarrow> c)"
    using R room final_fields[of "ns_dev ?s" fr, OF _ _ refl, of B] st
    by (simp add: is_final_def final_of_def fields_append cong: option.case_cong)
  moreover have "nrng_frame (ns_nrng s') l = (if nrng_slot (ns_nrng s) l = nrng_slot (ns_nrng s) ?k
      then Some ?fr else nrng_frame (ns_nrng s) l)" for l
    by (simp add: eq nrng_frame_after_set[OF assms(1)])
  ultimately show "\<exists>fr. is_final fr src (nrng_seq_num (ns_nrng s)) rcv tx (nrng_tx_stamp B (ns_dev s)) (stamp (nb_wcs B) t)
         (case nb_wcs B of Some _ \<Rightarrow> 0 | None \<Rightarrow> c) \<and>
       (\<forall>l. nrng_frame (ns_nrng s') l = (if nrng_slot (ns_nrng s) l = nrng_slot (ns_nrng s) ?k
          then Some fr else nrng_frame (ns_nrng s) l))" by blast
qed

section \<open>A round\<close>

text \<open>
  An anchor: its build and state, its slot, when and with which carrier reading the request
  arrives there, and when and with which reading its answer arrives at the initiator.
\<close>

record anchor =
  an_build :: nrng_build
  an_state :: nrng_state
  an_slot :: nat
  an_heard :: "u64 \<times> u32"
  an_back :: "u64 \<times> u32"

definition anchor_listens :: "u16 \<Rightarrow> u16 \<Rightarrow> u16 \<Rightarrow> anchor \<Rightarrow> bool" where
  "anchor_listens dst m cell a \<longleftrightarrow> nrng_ok (an_build a) (an_state a) \<and> nrng_device (an_build a) (ns_dev (an_state a))
     \<and> nrng_sem (ns_nrng (an_state a)) = 0 \<and> nb_cell (an_build a) \<and> dev_cell_id (ns_dev (an_state a)) = cell
     \<and> dev_slot_id (ns_dev (an_state a)) = of_nat (an_slot a) \<and> an_slot a \<in> mask_slots m \<and> reaches dst (ns_dev (an_state a))"

definition anchor_after :: "bytes \<Rightarrow> anchor \<Rightarrow> nrng_state" where
  "anchor_after F a = snd (ss_nrng_rx_complete_cb (an_build a) (ndeliver F (fst (an_heard a)) (snd (an_heard a)) (an_state a)))"

definition anchor_delay :: "u16 \<Rightarrow> anchor \<Rightarrow> u64" where
  "anchor_delay m a = nrng_response_delay (an_build a)
     (nrng_get_config (an_build a) (ns_nrng (an_state a)) UWB_DATA_CODE_SS_TWR_NRNG) (fst (an_heard a)) (of_nat (pos_in m (an_slot a)))"

definition initiator_hears :: "nrng_build \<Rightarrow> bytes \<Rightarrow> anchor \<Rightarrow> nrng_state \<Rightarrow> nrng_state" where
  "initiator_hears B F a s =
     snd (ss_nrng_rx_complete_cb B (ndeliver (ntransmitted (anchor_after F a)) (fst (an_back a)) (snd (an_back a)) s))"

text \<open>The stamps of anchor \<open>a\<close> in a round whose request was sent from state \<open>s1\<close>.\<close>

definition anchor_result :: "nrng_build \<Rightarrow> u16 \<Rightarrow> nrng_state \<Rightarrow> anchor \<Rightarrow> bytes \<Rightarrow> bool" where
  "anchor_result B m s1 a fr \<longleftrightarrow>
     is_final fr (dev_my_short_address (ns_dev (an_state a))) (nrng_seq_num (ns_nrng s1))
       (stamp (nb_wcs (an_build a)) (fst (an_heard a)))
       (stamp (nb_wcs (an_build a)) (anchor_time (ns_dev (an_state a)) (anchor_delay m a)))
       (nrng_tx_stamp B (ns_dev s1)) (stamp (nb_wcs B) (fst (an_back a)))
       (case nb_wcs B of Some _ \<Rightarrow> 0 | None \<Rightarrow> snd (an_back a))"

lemma same_round_trans: "same_round B s t \<Longrightarrow> same_round B t u \<Longrightarrow> same_round B s u"
  by (simp add: same_round_def)

lemma ring_inj:
  assumes "(b + x) mod n = (b + y) mod n" and "x < n" and "y < (n :: nat)"
  shows "x = y"
proof -
  have *: "x = y" if "(b + x) mod n = (b + y) mod n" "x < n" "y < n" "x \<le> y" for x y
  proof -
    have "n dvd (b + y) - (b + x)" using that mod_eq_dvd_iff_nat[of "b + x" "b + y" n] by simp
    then show ?thesis using that dvd_imp_le[of n "y - x"] by fastforce
  qed
  show ?thesis using *[of x y] *[of y x] assms by (cases "x \<le> y") simp_all
qed

text \<open>What the ring holds for the slots of the request once the answers in \<open>as\<close> have arrived.\<close>

definition round_frames :: "nrng_build \<Rightarrow> u16 \<Rightarrow> nrng_state \<Rightarrow> anchor list \<Rightarrow> nrng_state \<Rightarrow> (nat \<Rightarrow> bytes) \<Rightarrow> bool" where
  "round_frames B m s1 as s g \<longleftrightarrow>
     (\<forall>i \<in> mask_slots m. nrng_frame (ns_nrng s) (unat (nrng_idx (ns_nrng s)) + pos_in m i) = Some (g i))
     \<and> (\<forall>a \<in> set as. anchor_result B m s1 a (g (an_slot a)))
     \<and> (\<forall>i \<in> mask_slots m - an_slot ` set as. \<not> final_of (nrng_seq_num (ns_nrng s1)) (g i))"

lemma round_step:
  assumes "same_round B s1 s" and "round_frames B m s1 as s g" and "driver_ok (nb_uf B)" and "txtime_stable (nb_uf B)"
    and "anchor_listens dst m cell a" and "is_request F dst m cell" and "cell < 2 ^ 14" and "an_slot a \<notin> an_slot ` set as"
    and "nf_src_address F = dev_my_short_address (ns_dev s1)" and "nf_seq_num F = nrng_seq_num (ns_nrng s1)"
    and "card (mask_slots m) \<le> unat (nrng_nframes (ns_nrng s1))"
  shows "same_round B s1 (initiator_hears B F a s)"
    "\<exists>g'. round_frames B m s1 (as @ [a]) (initiator_hears B F a s) g'"
proof -
  note r = assms(1)[unfolded same_round_def]
  have slot: "an_slot a \<in> mask_slots m" using assms(5) by (simp add: anchor_listens_def)
  have ans: "is_answer (ntransmitted (anchor_after F a)) (dev_my_short_address (ns_dev s))
      (dev_my_short_address (ns_dev (an_state a))) (nrng_seq_num (ns_nrng s)) (pos_in m (an_slot a))
      (stamp (nb_wcs (an_build a)) (fst (an_heard a)))
      (stamp (nb_wcs (an_build a)) (anchor_time (ns_dev (an_state a)) (anchor_delay m a)))"
    using ss_nrng_answer_stage(3)[of "an_build a" "an_state a" F dst m "an_slot a" "fst (an_heard a)" "snd (an_heard a)"]
      assms(5-7,9,10) r by (simp add: anchor_listens_def anchor_after_def anchor_delay_def)
  let ?s = "initiator_hears B F a s"
  let ?b = "unat (nrng_idx (ns_nrng s))"
  have pre: "nrng_ok B s" "nrng_device B (ns_dev s)" "nrng_sem (ns_nrng s) = 0" "\<not> st_lde_error (dev_status (ns_dev s))"
    using r by blast+
  note store = ss_nrng_store_stage[OF pre(1-3) assms(3,4) pre(4) ans, of "fst (an_back a)" "snd (an_back a)", folded initiator_hears_def]
  show "same_round B s1 ?s" using assms(1) store(1) by (rule same_round_trans)
  have eqs: "nrng_seq_num (ns_nrng s) = nrng_seq_num (ns_nrng s1)" "nrng_tx_stamp B (ns_dev s) = nrng_tx_stamp B (ns_dev s1)"
    using r by simp_all
  obtain fr where fr: "anchor_result B m s1 a fr" "\<And>l. nrng_frame (ns_nrng ?s) l =
      (if nrng_slot (ns_nrng s) l = nrng_slot (ns_nrng s) (?b + pos_in m (an_slot a)) then Some fr else nrng_frame (ns_nrng s) l)"
    using store(2) unfolding anchor_result_def eqs by blast
  have idx: "nrng_idx (ns_nrng ?s) = nrng_idx (ns_nrng s)" using store(1) by (simp add: same_round_def)
  have same: "nrng_slot (ns_nrng s) (?b + pos_in m i) = nrng_slot (ns_nrng s) (?b + pos_in m (an_slot a)) \<longleftrightarrow> i = an_slot a"
    if "i \<in> mask_slots m" for i
  proof
    assume "nrng_slot (ns_nrng s) (?b + pos_in m i) = nrng_slot (ns_nrng s) (?b + pos_in m (an_slot a))"
    moreover have "pos_in m i < unat (nrng_nframes (ns_nrng s))" "pos_in m (an_slot a) < unat (nrng_nframes (ns_nrng s))"
      using pos_in_less[OF that] pos_in_less[OF slot] assms(11) r by simp_all
    ultimately have "pos_in m i = pos_in m (an_slot a)" unfolding nrng_slot_def by (rule ring_inj)
    then show "i = an_slot a" using that slot by (simp add: inj_onD[OF pos_in_inj])
  qed simp
  let ?g = "g(an_slot a := fr)"
  note old = assms(2)[unfolded round_frames_def]
  have "nrng_frame (ns_nrng ?s) (unat (nrng_idx (ns_nrng ?s)) + pos_in m i) = Some (?g i)" if "i \<in> mask_slots m" for i
  proof -
    have "nrng_frame (ns_nrng s) (?b + pos_in m i) = Some (g i)" using that old by blast
    then show ?thesis unfolding idx fr(2) same[OF that] by (cases "i = an_slot a") simp_all
  qed
  moreover have "anchor_result B m s1 a' (?g (an_slot a'))" if "a' \<in> set (as @ [a])" for a'
  proof (cases "a' = a")
    case False
    then have "a' \<in> set as" using that by simp
    moreover from this have "an_slot a' \<noteq> an_slot a" using assms(8) by (metis imageI)
    moreover have "anchor_result B m s1 a' (g (an_slot a'))" using old \<open>a' \<in> set as\<close> by blast
    ultimately show ?thesis by simp
  qed (use fr(1) in simp)
  moreover have "\<not> final_of (nrng_seq_num (ns_nrng s1)) (?g i)" if "i \<in> mask_slots m - an_slot ` set (as @ [a])" for i
  proof -
    have "i \<noteq> an_slot a" and "i \<in> mask_slots m - an_slot ` set as" using that by auto
    then show ?thesis using old by simp
  qed
  ultimately have "round_frames B m s1 (as @ [a]) ?s ?g" by (simp add: round_frames_def)
  then show "\<exists>g'. round_frames B m s1 (as @ [a]) ?s g'" by blast
qed

lemma round_fold:
  assumes "driver_ok (nb_uf B)" and "txtime_stable (nb_uf B)" and "is_request F dst m cell" and "cell < 2 ^ 14"
    and "nf_src_address F = dev_my_short_address (ns_dev s1)" and "nf_seq_num F = nrng_seq_num (ns_nrng s1)"
    and "card (mask_slots m) \<le> unat (nrng_nframes (ns_nrng s1))" and "same_round B s1 s1" and "round_frames B m s1 [] s1 g"
    and "\<forall>a \<in> set as. anchor_listens dst m cell a" and "distinct (map an_slot as)"
  shows "same_round B s1 (fold (initiator_hears B F) as s1) \<and> (\<exists>g. round_frames B m s1 as (fold (initiator_hears B F) as s1) g)"
  using assms(10,11)
proof (induction as rule: rev_induct)
  case (snoc a as)
  then obtain g where s: "same_round B s1 (fold (initiator_hears B F) as s1)"
    "round_frames B m s1 as (fold (initiator_hears B F) as s1) g" by auto
  show ?case
    using round_step[OF s assms(1,2) _ assms(3,4) _ assms(5-7), of a] snoc.prems by simp
qed (use assms(8,9) in auto)

lemma sorted_slots:
  assumes "distinct (map an_slot as)" and "an_slot ` set as \<subseteq> {..<16}" and "\<And>i. bit r i \<longleftrightarrow> i \<in> an_slot ` set as"
  shows "filter (bit r) [0..<16] = map an_slot (sort_key an_slot as)"
proof (rule sorted_distinct_set_unique)
  show "distinct (map an_slot (sort_key an_slot as))"
    using assms(1) by (simp add: distinct_map)
qed (use assms(2,3) in \<open>auto simp: sorted_wrt_filter\<close>)

lemma nrng_round:
  assumes "nrng_ok B s" and "nrng_device B (ns_dev s)" and "nrng_sem (ns_nrng s) = 1" and "driver_ok (nb_uf B)"
    and "txtime_stable (nb_uf B)" and "nb_cell B" and "cell < 2 ^ 14"
    and "card (mask_slots m) \<le> unat (nrng_nframes (ns_nrng s))"
    and "\<And>fr. Some fr \<in> set (nrng_frames (ns_nrng s)) \<Longrightarrow> \<not> final_of (nrng_seq_num (ns_nrng s) + 1) fr"
    and "\<forall>a \<in> set as. anchor_listens dst m cell a" and "distinct (map an_slot as)"
  obtains s1 r frs where "nrng_request B Got_token dst UWB_DATA_CODE_SS_TWR_NRNG m cell s = Some (Nrng_waiting s1)"
    "nrng_get_ranges B (fold (initiator_hears B (ntransmitted s1)) as s1) 16 (nrng_idx (ns_nrng s1)) =
       Some (r, map (\<lambda>fr. f32_of_f64 (nb_fl B) (nrng_frame_meters B
         (ns_dev (fold (initiator_hears B (ntransmitted s1)) as s1)) fr)) frs)"
    "\<And>i. bit r i \<longleftrightarrow> i \<in> an_slot ` set as" "list_all2 (anchor_result B m s1) (sort_key an_slot as) frs"
proof -
  obtain s1 where s1: "nrng_request B Got_token dst UWB_DATA_CODE_SS_TWR_NRNG m cell s = Some (Nrng_waiting s1)"
    "nrng_ok B s1" "nrng_device B (ns_dev s1)" "dev_my_short_address (ns_dev s1) = dev_my_short_address (ns_dev s)"
    "\<not> st_lde_error (dev_status (ns_dev s1))"
    and after: "after_request B (ns_dev s) dst UWB_DATA_CODE_SS_TWR_NRNG m cell (ns_nrng s) (ns_nrng s1)"
    and sent: "\<And>fr. nrng_frame (ns_nrng s1) (unat (nrng_idx (ns_nrng s1))) = Some fr \<Longrightarrow> ntransmitted s1 = take 19 fr"
    using nrng_request_stage[OF assms(1-4,6), of dst UWB_DATA_CODE_SS_TWR_NRNG m cell thesis] by blast
  let ?F = "ntransmitted s1" and ?b = "unat (nrng_idx (ns_nrng s1))" and ?seq = "nrng_seq_num (ns_nrng s1)"
  obtain fr where base: "nrng_frame (ns_nrng s) ?b = Some fr" and frames: "\<And>l. nrng_frame (ns_nrng s1) l =
      (if nrng_slot (ns_nrng s) l = nrng_slot (ns_nrng s) ?b
       then Some (nrng_request_frame B (ns_dev s) dst UWB_DATA_CODE_SS_TWR_NRNG ?seq m cell fr) else nrng_frame (ns_nrng s) l)"
    using after by (auto simp: after_request_def)
  let ?req = "nrng_request_frame B (ns_dev s) dst UWB_DATA_CODE_SS_TWR_NRNG ?seq m cell fr"
  have okfr: "nframe_ok B fr" using base nrng_frame_set[OF assms(1), of ?b] by auto
  have size: "32 \<le> nb_frame_size B" using assms(2) by (rule nrng_device_size)
  have F: "?F = take 19 ?req" using sent[of ?req] frames[of ?b] by simp
  note req = is_request_frame[OF okfr size assms(6), where dev = "ns_dev s" and dst = dst and m = m and cell = cell]
  have round0: "same_round B s1 s1" using s1 after by (simp add: same_round_def after_request_def)
  have notfinal: "\<not> final_of ?seq fr'" if "nrng_frame (ns_nrng s1) l = Some fr'" for l fr'
  proof (cases "nrng_slot (ns_nrng s) l = nrng_slot (ns_nrng s) ?b")
    case True
    have "nf_code ?req = UWB_DATA_CODE_SS_TWR_NRNG"
      using okfr size assms(6) by (simp add: nrng_request_frame_def Let_def nframe_ok_def layout)
    then show ?thesis using that frames[of l] True by (auto simp: final_of_def codes)
  next
    case False
    then have "Some fr' \<in> set (nrng_frames (ns_nrng s))"
      using that frames[of l] nth_mem[OF nrng_slot_less[OF assms(1), of l]] by (auto simp: nrng_frame_def split: if_splits)
    then show ?thesis using assms(9) after by (simp add: after_request_def)
  qed
  have "\<exists>g. \<forall>i. nrng_frame (ns_nrng s1) (?b + pos_in m i) = Some (g i)"
    by (intro choice allI) (metis nrng_frame_set[OF s1(2)])
  then obtain g where g: "\<And>i. nrng_frame (ns_nrng s1) (?b + pos_in m i) = Some (g i)" by blast
  then have "round_frames B m s1 [] s1 g" using notfinal by (simp add: round_frames_def) blast
  then obtain g where fin: "same_round B s1 (fold (initiator_hears B ?F) as s1)"
    "round_frames B m s1 as (fold (initiator_hears B ?F) as s1) g"
    using round_fold[OF assms(4,5) _ assms(7) _ _ _ round0 _ assms(10,11), of ?F g] req s1(4) after assms(8)
    by (auto simp: F after_request_def)
  let ?s = "fold (initiator_hears B ?F) as s1"
  have eqs: "nrng_slot_mask (ns_nrng ?s) = m" "nrng_seq_num (ns_nrng ?s) = ?seq" "nrng_idx (ns_nrng ?s) = nrng_idx (ns_nrng s1)"
    using fin(1) after by (simp_all add: same_round_def after_request_def)
  have sl: "slot_frame (ns_nrng ?s) (nrng_idx (ns_nrng s1)) i = Some (g i)" if "i \<in> mask_slots m" for i
    using that fin(2) eqs slot_frame_pos[of i "ns_nrng ?s" "nrng_idx (ns_nrng s1)"] by (simp add: round_frames_def)
  obtain r where r: "valid_slots_loop (ns_nrng ?s) ?seq (nrng_idx (ns_nrng s1)) [0..<16] 0 = Some r"
    "\<And>i. bit r i \<longleftrightarrow> i \<in> {0..<16} \<and> i \<in> mask_slots m \<and> final_of ?seq (g i)"
    using valid_slots_loop_result[of "ns_nrng ?s" "nrng_idx (ns_nrng s1)" g "[0..<16]" ?seq 0] sl eqs by auto
  have slots: "an_slot ` set as \<subseteq> mask_slots m" using assms(10) by (auto simp: anchor_listens_def)
  have bits: "bit r i \<longleftrightarrow> i \<in> an_slot ` set as" for i
    using r(2)[of i] fin(2) slots mask_slots_less[of i m]
    by (auto simp: round_frames_def anchor_result_def is_final_def)
  have "slot_results_loop f (ns_nrng ?s) (nrng_idx (ns_nrng s1)) r [0..<16] = Some (map (f \<circ> g) (filter (bit r) [0..<16]))" for f :: "bytes \<Rightarrow> u32"
    using sl bits slots by (intro slot_results_loop_result) auto
  moreover have "filter (bit r) [0..<16] = map an_slot (sort_key an_slot as)"
    using assms(11) slots bits by (intro sorted_slots) (auto dest: mask_slots_less)
  ultimately have "nrng_get_ranges B ?s 16 (nrng_idx (ns_nrng s1)) =
      Some (r, map (\<lambda>fr. f32_of_f64 (nb_fl B) (nrng_frame_meters B (ns_dev ?s) fr)) (map (g \<circ> an_slot) (sort_key an_slot as)))"
    using r(1) eqs by (simp add: nrng_get_ranges_def Let_def comp_def)
  moreover have "list_all2 (anchor_result B m s1) (sort_key an_slot as) (map (g \<circ> an_slot) (sort_key an_slot as))"
    using fin(2) by (simp add: list_all2_map2 list_all2_same round_frames_def)
  ultimately show thesis using s1(1) bits by (intro that) auto
qed

end
