(* ===== verification/Nrng_Claims.thy ===== *)
theory Nrng_Claims
  imports Nrng_Round Samples
begin

text \<open>
  What a round of ranging to many nodes yields, and a round of two anchors that answer in the opposite order
  of their slots.
\<close>

unbundle bit_operations_syntax

section \<open>A concrete network\<close>

definition sample_nrng_fl :: nrng_floats where
  "sample_nrng_fl = rng_floats.extend sample_fl (nrng_floats.fields (\<lambda>a b. a - b) id ucast ucast)"

definition sample_nrng_build :: nrng_build where
  "sample_nrng_build = \<lparr>nb_fl = sample_nrng_fl, nb_uf = sample_uf, nb_wcs = None, nb_nrng = zero_config, nb_ss = zero_config,
     nb_cell = True, nb_frame_size = 32\<rparr>"

definition sample_nrng_state :: "u16 \<Rightarrow> u16 \<Rightarrow> nat \<Rightarrow> nrng_state" where
  "sample_nrng_state address slot sem =
     \<lparr>ns_dev = (sample_dev address)\<lparr>dev_slot_id := slot, dev_cell_id := 1\<rparr>,
      ns_nrng = (malloc_nrng 4)\<lparr>nrng_sem := sem, nrng_nframes := 4, nrng_idx := 0xFFFF,
        nrng_frames := replicate 4 (Some (nrng_default_frame sample_nrng_build))\<rparr>,
      ns_stat = (\<lambda>_. 0), ns_events = 0, ns_failed = False\<rparr>"

definition sample_anchor :: "u16 \<Rightarrow> nat \<Rightarrow> u64 \<Rightarrow> anchor" where
  "sample_anchor address slot t =
     \<lparr>an_build = sample_nrng_build, an_state = sample_nrng_state address (of_nat slot) 0, an_slot = slot,
      an_heard = (t, 0), an_back = (t + 0x10000, 0)\<rparr>"

lemma sample_default_frame:
  "nframe_ok sample_nrng_build (nrng_default_frame sample_nrng_build)" "\<not> final_of 1 (nrng_default_frame sample_nrng_build)"
  by code_simp+

lemma sample_nrng_ok: "sem \<le> 1 \<Longrightarrow> nrng_ok sample_nrng_build (sample_nrng_state a k sem)"
  by (auto simp: nrng_ok_def sample_nrng_state_def sample_default_frame)

lemma sample_nrng_device: "k < 64 \<Longrightarrow> nrng_device sample_nrng_build (ns_dev (sample_nrng_state a k sem))"
  by (simp add: nrng_device_def sample_nrng_state_def sample_dev_def sample_nrng_build_def sample_config_def)

section \<open>Properties\<close>

text \<open>
  A round of ranging to many nodes. The initiator asks the slots \<open>m\<close>; the anchors \<open>as\<close>, listening
  in distinct slots of \<open>m\<close>, hear the request and answer it, and their answers arrive in any
  order. Then \<open>nrng_get_ranges\<close> gives the mask of exactly the slots that answered and, in the
  order of the slots, the distance of each from the stamps of its own exchange: when it
  heard the request and when it answers, and when the initiator sent the request and got
  that answer.
\<close>

theorem nrng_round_ranges:
  assumes "nrng_ok B s" and "nrng_device B (ns_dev s)" and "nrng_sem (ns_nrng s) = 1" and "driver_ok (nb_uf B)"
    and "txtime_stable (nb_uf B)" and "nb_cell B" and "cell < 2 ^ 14"
    and "card (mask_slots m) \<le> unat (nrng_nframes (ns_nrng s))"
    and "\<forall>fr. Some fr \<in> set (nrng_frames (ns_nrng s)) \<longrightarrow> \<not> final_of (nrng_seq_num (ns_nrng s) + 1) fr"
    and "\<forall>a \<in> set as. anchor_listens dst m cell a" and "distinct (map an_slot as)"
  shows "\<exists>s1 r frs. nrng_request B Got_token dst UWB_DATA_CODE_SS_TWR_NRNG m cell s = Some (Nrng_waiting s1) \<and>
    nrng_get_ranges B (fold (initiator_hears B (ntransmitted s1)) as s1) 16 (nrng_idx (ns_nrng s1)) =
       Some (r, map (\<lambda>fr. f32_of_f64 (nb_fl B) (nrng_frame_meters B
         (ns_dev (fold (initiator_hears B (ntransmitted s1)) as s1)) fr)) frs) \<and>
    (\<forall>i. bit r i \<longleftrightarrow> i \<in> an_slot ` set as) \<and> list_all2 (anchor_result B m s1) (sort_key an_slot as) frs"
proof -
  have old: "\<not> final_of (nrng_seq_num (ns_nrng s) + 1) fr" if "Some fr \<in> set (nrng_frames (ns_nrng s))" for fr
    using assms(9) that by blast
  show ?thesis by (rule nrng_round[OF assms(1-8) old assms(10,11)]) blast+
qed

lemma nrng_round_ranges_witness:
  "\<exists>s1 r rs. nrng_request sample_nrng_build Got_token 0xffff UWB_DATA_CODE_SS_TWR_NRNG 5 1 (sample_nrng_state 1 0 1) = Some (Nrng_waiting s1) \<and>
    (\<forall>i. bit r i \<longleftrightarrow> i \<in> {0, 2}) \<and> length rs = 2 \<and>
    nrng_get_ranges sample_nrng_build (fold (initiator_hears sample_nrng_build (ntransmitted s1))
      [sample_anchor 12 2 0x5000, sample_anchor 10 0 0x4000] s1) 16 (nrng_idx (ns_nrng s1)) = Some (r, rs)"
proof -
  let ?B = sample_nrng_build and ?s = "sample_nrng_state 1 0 1" and ?as = "[sample_anchor 12 2 0x5000, sample_anchor 10 0 0x4000]"
  have "mask_slots 5 = set (filter (bit (5 :: u16)) [0..<16])" by (auto simp: mask_slots_def dest: bit_imp_le_length)
  also have "\<dots> = {0, 2}" by (simp add: upt_rec bit_iff_odd; auto)
  finally have m: "mask_slots 5 = {0, 2}" .
  have as: "\<forall>a \<in> set ?as. anchor_listens 0xffff 5 1 a"
    using sample_nrng_ok[of 0] sample_nrng_device
    by (simp add: anchor_listens_def sample_anchor_def m reaches_def)
      (simp add: sample_nrng_state_def sample_nrng_build_def)
  have fr: "\<forall>fr. Some fr \<in> set (nrng_frames (ns_nrng ?s)) \<longrightarrow> \<not> final_of (nrng_seq_num (ns_nrng ?s) + 1) fr"
    using sample_default_frame(2) by (simp add: sample_nrng_state_def malloc_nrng_def)
  have uf: "driver_ok (nb_uf ?B)" "txtime_stable (nb_uf ?B)"
    by (simp_all add: sample_driver_ok sample_nrng_build_def) (simp add: txtime_stable_def sample_uf_def)
  have rest: "nb_cell ?B" "nrng_sem (ns_nrng ?s) = 1" "card (mask_slots 5) \<le> unat (nrng_nframes (ns_nrng ?s))" "(1 :: u16) < 2 ^ 14"
    "distinct (map an_slot ?as)" "an_slot ` set ?as = {0, 2}"
    by (auto simp: sample_nrng_build_def sample_nrng_state_def m sample_anchor_def)
  have "nrng_ok ?B ?s" "nrng_device ?B (ns_dev ?s)" by (simp_all add: sample_nrng_ok sample_nrng_device)
  from nrng_round_ranges[OF this rest(2) uf rest(1,4,3) fr as rest(5)] obtain s1 r frs where
    s1: "nrng_request ?B Got_token 0xffff UWB_DATA_CODE_SS_TWR_NRNG 5 1 ?s = Some (Nrng_waiting s1)"
    and r: "nrng_get_ranges ?B (fold (initiator_hears ?B (ntransmitted s1)) ?as s1) 16 (nrng_idx (ns_nrng s1)) =
       Some (r, map (\<lambda>fr. f32_of_f64 (nb_fl ?B) (nrng_frame_meters ?B
         (ns_dev (fold (initiator_hears ?B (ntransmitted s1)) ?as s1)) fr)) frs)"
    and bits: "\<forall>i. bit r i \<longleftrightarrow> i \<in> an_slot ` set ?as" and frs: "list_all2 (anchor_result ?B 5 s1) (sort_key an_slot ?as) frs"
    by blast
  have "length frs = 2" using list_all2_lengthD[OF frs] by (simp split: if_splits)
  moreover have "\<forall>i. bit r i \<longleftrightarrow> i \<in> {0, 2}" using bits unfolding rest(6) .
  ultimately show ?thesis using s1 r by (metis length_map)
qed

end
