(* ===== verification/Spec2Isabelle.thy ===== *)
theory Spec2Isabelle
  imports Ranging_Claims Memory_Claims Timer_Claims Network_Claims Transport_Claims Ccp_Claims Json_Claims Nrng_Claims Slots Dpl_Cputime
begin

text \<open>
  A verification development for uwb-core, a C library of ultra-wideband ranging
  services for Decawave (DW1000, DW3000) transceivers.

  \<^bold>\<open>The program and its parts.\<close> Applications call services under lib/; a service registers a
  table of callbacks (\<open>struct uwb_mac_interface\<close>) with the device of hw/drivers/uwb, and the
  device's interrupt task walks that list for each event until one callback returns true. The
  ranging service (lib/uwb_rng) starts an exchange, waits for it on a semaphore, and keeps the
  received frames in a ring; the two-way ranging services (lib/twr_ss, twr_ss_ext, twr_ss_ack,
  twr_ds, twr_ds_ext) answer frames with their own codes and leave time stamps in the ring;
  lib/rng_math turns the stamps into a time of flight. With lib/nrng and lib/twr_ss_nrng one request
  ranges to many nodes, each of which answers in a slot of its own. Nodes of a network take turns: lib/tdma
  divides the superframe into slots and arms a timer (porting/dpl_hal hal_timer.c) per slot; in
  its slot a node runs its service. A node joins through lib/uwb_pan: it sends a blink, and the
  master answers with an address and a slot, which lib/panmaster chooses from its node table
  and keeps in a flash circular buffer. lib/uwb\_transport carries packets of other programs in
  the slots, with acknowledgements and retries. lib/uwb\_ccp keeps the nodes' clocks together: a master
  sends a packet every period, from which the others take the epoch of the superframe. lib/json reads and writes the messages of the user
  interface. Below them is the portability layer (porting/): semaphores, callouts, event queues,
  clocks, byte order, memory pools and mbuf chains.

  \<^bold>\<open>Theories.\<close>
  \<^item> \<open>Prelude\<close>: word types, reading and writing lists by position, named collections.
  \<^item> \<open>Endian\<close> (dpl endian.c): byte-order accessors and swaps; the locale \<open>scalar_codec\<close>
    (put then get) interpreted for all eight pairs, and \<open>codec_pair\<close> for accesses that do not
    overlap, on which every frame-field lemma rests.
  \<^item> \<open>Slots\<close> (uwb_rng slots.c), \<open>Dpl_Sem\<close> (dpl_sem.c), \<open>Rng_Math\<close> (rng_math.c).
  \<^item> \<open>Uwb_Dev\<close> (uwb.h, uwb.c, uwb_api_impl.h): the device record, the driver calls and the
    interface list. A driver call is appended to the command history of the device; what the
    driver answers (status, times) is a function of that history and a parameter
    (\<open>uwb_driver_funcs\<close>), so the results hold for every driver.
  \<^item> \<open>Uwb_Rng_State\<close>, \<open>Uwb_Rng\<close> (uwb_rng.c): frames as their 136 wire bytes with accessors at
    the offsets of the packed structures, plus the local 104 bytes; one definition per function
    and callback. A blocking call is split at its wait: the part before, and the part after,
    which gets how the wait ended as a \<open>wait_end\<close>.
  \<^item> \<open>Twr\<close>: steps the five services share; the locale \<open>rng_callbacks\<close> (what the services need
    of the complete and final callbacks) and \<open>twr_service\<close> (what dispatch needs of a service).
    \<open>Twr_Ss\<close>, \<open>Twr_Ss_Ext\<close>, \<open>Twr_Ss_Ack\<close>, \<open>Twr_Ds\<close>, \<open>Twr_Ds_Ext\<close>: the receive handlers, each
    shown by a sublocale to be a \<open>twr_service\<close>.
  \<^item> \<open>Twr_System\<close>: all services on one device, the step relation \<open>rng_step\<close> and its invariant.
    \<open>Twr_Protocol\<close>: frames sent by one node and received by another; the complete exchange with
    the transmission callbacks of every frame (\<open>none_pending\<close>: none of them ends it early).
  \<^item> \<open>Dpl_Mempool\<close> (dpl_mempool.c): pools over an address-indexed memory; the free list as a
    \<open>chain\<close>; the locale \<open>block_allocator\<close>, interpreted on the pool operations.
  \<^item> \<open>Dpl_Mbuf\<close> (dpl_mbuf.c): all operations on chains. \<open>Dpl_Mbuf_Chain\<close> holds the abstraction
    (\<open>chain_data\<close>: the bytes; \<open>own\<close>: every block is in exactly one chain or free;
    \<open>hdr_counts\<close>: the packet length is right); \<open>Dpl_Mbuf_Append\<close>, \<open>Dpl_Mbuf_Join\<close>,
    \<open>Dpl_Mbuf_Read\<close>, \<open>Dpl_Mbuf_Edit\<close> and \<open>Dpl_Mbuf_Pullup\<close> show what each operation does to it.
  \<^item> \<open>Dpl_Time\<close>, \<open>Dpl_Cputime\<close> (dpl_time.c, dpl_cputime*.c): tick counters and conversions.
    \<open>Hal_Timer\<close> (hal_timer.c): the queue of timers in the order of their expiry, its handler as a
    \<open>partial_function\<close> over the callbacks; the invariant \<open>queue_ok\<close> and what fires when.
    \<open>Hal_Timer_Queue\<close> (queue.h): the links of that queue and the macros on them, which the list
    abstracts (\<open>spells\<close>), and what starting a queued timer does to them.
    \<open>Dpl_Callout\<close> (dpl_callout.c): one-shot callouts.
  \<^item> \<open>Tdma\<close> (tdma.c, dpl_eventq.cc): the superframe and slot timers over \<open>Hal_Timer\<close>.
  \<^item> \<open>Json_Encode\<close>, \<open>Json_Decode\<close> (lib/json): the encoder as the text it writes, the decoder as
    the state machine over the characters that it is; \<open>Json_Facts\<close> shows that it returns,
    \<open>Json_Roundtrip\<close> what it does on the encoder's text.
  \<^item> \<open>Panm_Fcb\<close> (panmaster_fcb.c): nodes stored in the flash circular buffer, which is a
    parameter (\<open>fcb_lib\<close>); \<open>Panm_Fcb_Facts\<close> states what the code relies on of it (\<open>fcb_ok\<close>,
    \<open>fcb_sectors_ok\<close>) and what lookup, sorting and compression yield. \<open>Panmaster\<close>
    (panmaster.c): the node table, addresses, slots, background saving; \<open>Panmaster_Facts\<close> its
    invariant \<open>master_ok\<close> and what an answered request was granted (\<open>granted\<close>).
    \<open>Panmaster_Runs\<close>: runs of requests and background saves in any order, and their invariant
    \<open>run_ok\<close>.
  \<^item> \<open>Uwb_Pan\<close> (uwb_pan.c, pan_utils.c): blinks, answers, resets, leases and the slot handler,
    over any master (a callback with its own state); \<open>Uwb_Pan_Facts\<close>: the invariant \<open>pan_ok\<close>
    and the steps of joining.
  \<^item> \<open>Uwb_Transport\<close> (uwb\_transport.c): the callbacks, listening, the two queues and the sending
    loop, which is a machine with one state per semaphore it waits for (\<open>tp_pc\<close>).
    \<open>Uwb_Transport_Facts\<close>: packets and their trailer of address, code and retries.
    \<open>Uwb_Transport_System\<close>, \<open>Uwb_Transport_Runs\<close>: a node with a client, its steps and their
    invariant \<open>tp_ok\<close>. \<open>Uwb_Transport_Radio\<close>: the transmit buffer of the device, the frame that a
    transmission sends, and what becomes of an attempt.
  \<^item> \<open>Uwb_Ccp\<close> (uwb\_ccp.c): frames, the master's and the slave's timer handlers split at their
    waits (\<open>ccp_pc\<close>), the callbacks, relays, start and stop. \<open>Uwb_Ccp_Facts\<close>: frame fields and
    what the parts of a handler leave alone. \<open>Uwb_Ccp_System\<close>: a node as a system of steps with
    its invariant \<open>ccp_inv\<close>, carried through the handlers by \<open>same_core\<close>. \<open>Uwb_Ccp_Epochs\<close>:
    what a packet says and what senders, receivers and relays make of it.
  \<^item> \<open>Nrng\<close> (nrng.c, nrng.h, nrng_encode.c): requests to many nodes, listening, configurations and
    the results of a round; \<open>Twr_Ss_Nrng\<close> (twr_ss_nrng.c): the callbacks of the single-sided
    service. \<open>Nrng_Facts\<close>: frame fields, the invariant \<open>nrng_ok\<close> and a slot's place among the slots of
    a mask (\<open>pos_in\<close>). \<open>Nrng_Round\<close>: the stages of a round; \<open>Nrng_Claims\<close> puts them together
    (\<open>nrng_round_ranges\<close>: the results are those of exactly the slots that answered).
  \<^item> \<open>Samples\<close>: concrete states for the witnesses. \<open>Ranging_Claims\<close>, \<open>Memory_Claims\<close>,
    \<open>Timer_Claims\<close>, \<open>Json_Claims\<close>, \<open>Network_Claims\<close>, \<open>Transport_Claims\<close>, \<open>Ccp_Claims\<close> and this theory state
    the properties.

  \<^bold>\<open>Choices.\<close> The source is built as a user-space program on the native port (porting/dpl/linux,
  porting/dpl_hal) or as a Linux kernel module (\<open>__KERNEL__\<close>, porting/dpl/kernel); where the two
  differ, each theory takes one. The kernel branch, whose arithmetic is on integers: the
  conversions between microseconds and device time units (uwb.h 1143-1149) with all that uses
  them (ranging, TDMA, CCP, pan and transport timing), the 64-bit divisions of tdma.c and
  uwb_ccp.c, the absence of bias correction (uwb_rng.c), and waits on a semaphore that a signal
  may interrupt (\<open>Dpl_Sem\<close>, which models both ports). The user-space branch: the time base and its
  ticks (\<open>Dpl_Time\<close>), the timers (\<open>Hal_Timer\<close>, \<open>Hal_Timer_Queue\<close>: porting/dpl_hal hal_timer.c), the
  callouts with the ticks left (\<open>Dpl_Callout\<close>: porting/dpl/linux dpl_callout.c; the kernel port
  computes the ticks left differently), the event queues (dpl_eventq.cc), the 8-byte pointers of
  a 64-bit host, and in the decoder the scanning of numbers and of hexadecimal escapes by
  \<open>strtoll\<close>, \<open>strtoull\<close>, \<open>strtoul\<close> (json_decode.c; the kernel branch cuts the text at the first
  character that is no hexadecimal digit and calls \<open>kstrtoll\<close>, and is not modelled). What a
  property says of leases, timers and texts is therefore said of the native port.
  Statistics are on. Floating
  point is a parameter (\<open>float64_ops\<close>, \<open>rng_floats\<close>); \<open>exact_f64\<close> instantiates it with
  rationals for the formulas. Configuration values (MYNEWT_VAL) are parameters. A failed assert,
  undefined shift, write through NULL, start of a timer that is queued already, pool of blocks too small
  for a pointer or loop that does not end is \<open>None\<close>, or a flag in the
  state. No definition uses fuel: loops are structural, have a termination proof, or are
  \<open>partial_function (option)\<close> with their termination proved where it holds (the decoder's
  character loops, the expiry handler, compression); the decoder recurses on the depth of the
  table of expected attributes. Clock readings are arguments; the search for a slot takes one
  reading.

  \<^bold>\<open>Not modelled.\<close> Interrupt handling inside the transceiver drivers, consoles and encoders for
  the user interface, the ports to operating systems, and the services listed as not modelled
  in the manifest. Bias correction and channel impulse responses are off.
\<close>

unbundle bit_operations_syntax

section \<open>A complete single-sided exchange\<close>

text \<open>
  C1. A single-sided exchange measures the flight time. When the responder's clock is off by
  any constant and each frame takes \<open>flight\<close> ticks, both ends hold a final frame from which
  \<open>calc_tof_ss\<close> gets exactly \<open>flight\<close>, whatever counters wrapped on the way, provided
  no completion was pending at the start, and the reply delay and the two flights together stay below 2^32 ticks.
\<close>

theorem ss_twr_measures_flight_time:
  assumes "rng_ok a" and "rng_ok b"
    and "rng_sem (rs_rng a) = 1" and "dev_irq_sem (rs_dev a) = 1" and "rng_sem (rs_rng b) = 0"
    and "unat (rng_nframes (rs_rng a)) dvd 65536" and "unat (rng_nframes (rs_rng b)) dvd 65536"
    and "driver_ok (b_uf BA)" and "driver_ok (b_uf BB)"
    and "\<not> fctrl_req_ack (uwb_rng_get_config (b_rng BA) (rs_rng a) UWB_DATA_CODE_SS_TWR)"
    and "none_pending a" and "none_pending b"
    and "ss_twr_exchange BA BB (dev_my_short_address (rs_dev b)) (tq, tr, tf) (c1, c2, c3) a b = Some (a1, a3, b2)"
    and "ss_stamps BA BB tq tr b a1 = (q, p, t, r)" and "s \<in> {a3, b2}"
    and "p = q + offset + of_nat flight" and "r = t - offset + of_nat flight" and "unat (t - p) + 2 * flight < 2 ^ 32"
  shows "calc_tof_ss exact_f64 (v_response_timestamp (cur_view s)) (v_request_timestamp (cur_view s))
      (ucast (v_transmission_timestamp (cur_view s))) (ucast (v_reception_timestamp (cur_view s))) (Some 0)
    = Some (of_nat flight)"
  using ss_exchange_result[OF assms(1-15)] calc_tof_ss_flight[OF assms(16-18)] by simp

lemma ss_twr_measures_flight_time_witness:
  "\<exists>a1 a3 b2. ss_twr_exchange sample_build sample_build 2 (0x30F0, 0xB20F0, 0xC0000) (0, 0, 0)
      (sample_state 1 1) (sample_state 2 0) = Some (a1, a3, b2) \<and>
    calc_tof_ss exact_f64 (v_response_timestamp (cur_view b2)) (v_request_timestamp (cur_view b2))
      (ucast (v_transmission_timestamp (cur_view b2))) (ucast (v_reception_timestamp (cur_view b2))) (Some 0) = Some 240"
proof -
  obtain a1 a3 b2 where ex: "ss_twr_exchange sample_build sample_build (dev_my_short_address (rs_dev (sample_state 2 0))) (0x30F0, 0xB20F0, 0xC0000) (0, 0, 0)
      (sample_state 1 1) (sample_state 2 0) = Some (a1, a3, b2)"
    by (rule sample_exchange)
  show ?thesis
    using ss_twr_measures_flight_time[OF sample_setup ex sample_stamps, of b2 "0x1000" 240] ex by simp
qed

text \<open>
  C2. From an idle initiator and a listening responder, neither with the completion of an earlier
  exchange still pending (\<open>complete_after_tx\<close> and \<open>tx_ack_expected\<close> clear), the three frames of
  a single-sided exchange go through all handlers, the transmission callbacks of the request, the
  reply and the final frame included: the initiator still waits once its request is sent, both
  semaphores are released at the end, both ends hold the same final frame, and again nothing is
  pending, so that the next exchange finds the same situation.
\<close>

theorem ss_twr_exchange_completes:
  assumes "rng_ok a" and "rng_ok b"
    and "rng_sem (rs_rng a) = 1" and "dev_irq_sem (rs_dev a) = 1" and "rng_sem (rs_rng b) = 0"
    and "unat (rng_nframes (rs_rng a)) dvd 65536" and "unat (rng_nframes (rs_rng b)) dvd 65536"
    and "driver_ok (b_uf BA)" and "driver_ok (b_uf BB)"
    and "\<not> fctrl_req_ack (uwb_rng_get_config (b_rng BA) (rs_rng a) UWB_DATA_CODE_SS_TWR)"
    and "none_pending a" and "none_pending b"
  shows "\<exists>a1 a3 b2. ss_twr_exchange BA BB (dev_my_short_address (rs_dev b)) (tq, tr, tf) (c1, c2, c3) a b = Some (a1, a3, b2) \<and>
    rng_sem (rs_rng a1) = 0 \<and> rng_sem (rs_rng a3) = 1 \<and> rng_sem (rs_rng b2) = 1 \<and>
    cur_view b2 = cur_view a3 \<and> v_code (cur_view a3) = UWB_DATA_CODE_SS_TWR_FINAL \<and>
    rng_ok a3 \<and> rng_ok b2 \<and> none_pending a3 \<and> none_pending b2"
  by (rule ss_exchange_complete[OF assms refl]) blast

lemma ss_twr_exchange_completes_witness:
  "\<exists>a1 a3 b2. ss_twr_exchange sample_build sample_build 2 (5000, 9000, 9900) (0, 0, 0)
      (sample_state 1 1) (sample_state 2 0) = Some (a1, a3, b2) \<and> rng_sem (rs_rng a3) = 1"
  using ss_twr_exchange_completes[of "sample_state 1 1" "sample_state 2 0" sample_build sample_build 5000 9000 9900 0 0 0]
  by (auto simp: sample_state_ok sample_driver_ok sample_none_pending uwb_rng_get_config_def zero_config_def)

text \<open>
  C18. After a single-sided exchange \<open>uwb_rng_twr_to_tof\<close> computes the same value at both ends:
  \<open>calc_tof_ss\<close> of the four time stamps the two devices took (with synchronised clocks, so
  no carrier-offset correction; no completion pending at the start).
\<close>

theorem ss_twr_both_ends_agree:
  assumes "rng_ok a" and "rng_ok b"
    and "rng_sem (rs_rng a) = 1" and "dev_irq_sem (rs_dev a) = 1" and "rng_sem (rs_rng b) = 0"
    and "unat (rng_nframes (rs_rng a)) dvd 65536" and "unat (rng_nframes (rs_rng b)) dvd 65536"
    and "driver_ok (b_uf BA)" and "driver_ok (b_uf BB)"
    and "\<not> fctrl_req_ack (uwb_rng_get_config (b_rng BA) (rs_rng a) UWB_DATA_CODE_SS_TWR)"
    and "none_pending a" and "none_pending b"
    and "ss_twr_exchange BA BB (dev_my_short_address (rs_dev b)) (tq, tr, tf) (c1, c2, c3) a b = Some (a1, a3, b2)"
    and "ss_stamps BA BB tq tr b a1 = (q, p, t, r)" and "s \<in> {a3, b2}"
  shows "uwb_rng_twr_to_tof fl uf (Some w) s (rng_idx (rs_rng s)) = calc_tof_ss fl r q (ucast t) (ucast p) (f64_init fl 0)"
  using ss_exchange_result[OF assms] by (simp add: tof_of_final)

lemma ss_twr_both_ends_agree_witness:
  "\<exists>a1 a3 b2. ss_twr_exchange sample_build sample_build 2 (0x30F0, 0xB20F0, 0xC0000) (0, 0, 0)
      (sample_state 1 1) (sample_state 2 0) = Some (a1, a3, b2) \<and>
    uwb_rng_twr_to_tof sample_fl sample_uf (Some id) a3 (rng_idx (rs_rng a3)) =
      calc_tof_ss sample_fl 0xB20F0 0x2000 (ucast (0xB3000 :: u32)) (ucast (0x30F0 :: u32)) 0"
proof -
  obtain a1 a3 b2 where ex: "ss_twr_exchange sample_build sample_build (dev_my_short_address (rs_dev (sample_state 2 0))) (0x30F0, 0xB20F0, 0xC0000) (0, 0, 0)
      (sample_state 1 1) (sample_state 2 0) = Some (a1, a3, b2)"
    by (rule sample_exchange)
  have "f64_init sample_fl 0 = 0" by (simp add: sample_fl_def)
  then show ?thesis
    using ss_twr_both_ends_agree[OF sample_setup ex sample_stamps, of a3 sample_fl sample_uf id] ex by simp
qed

end
